(* ===== verification/Prelude.thy ===== *)
theory Prelude
  imports Complex_Main "HOL-Library.Signed_Division" "HOL-Library.Sublist"
begin

text \<open>
  Shared vocabulary of the development. A TypeScript function that can throw is a function
  into a sum, the left injection being the thrown error; \<open>bindE\<close> is the sequencing of two
  such calls. A function with effects takes the world and returns the outcome with the new
  world. A \<open>bigint\<close> is an \<open>int\<close>, and its division truncates towards zero, which is
  \<open>sdiv\<close>. Decimal printing and parsing of integers, string search and the running of a
  step function over a list of events are here because several components use them.
\<close>

named_theorems result_simps \<comment> \<open>inversion of the error monad\<close>
named_theorems bigint_simps \<comment> \<open>truncating division on the operands that occur\<close>
named_theorems decimal_simps \<comment> \<open>printing and parsing of decimal digits\<close>

section \<open>Results of calls that may throw\<close>

type_synonym ('e, 'a) res = "'e + 'a"

definition bindE :: "('e, 'a) res \<Rightarrow> ('a \<Rightarrow> ('e, 'b) res) \<Rightarrow> ('e, 'b) res" where
  "bindE m f = (case m of Inl e \<Rightarrow> Inl e | Inr x \<Rightarrow> f x)"

definition throw_if :: "bool \<Rightarrow> 'e \<Rightarrow> ('e, unit) res" where
  "throw_if b e = (if b then Inl e else Inr ())"

fun mapE :: "('a \<Rightarrow> ('e, 'b) res) \<Rightarrow> 'a list \<Rightarrow> ('e, 'b list) res" where
  "mapE f [] = Inr []"
| "mapE f (x # xs) = bindE (f x) (\<lambda>y. bindE (mapE f xs) (\<lambda>ys. Inr (y # ys)))"

lemma bindE_Inl [simp]: "bindE (Inl e) f = Inl e"
  by (simp add: bindE_def)

lemma bindE_Inr [simp]: "bindE (Inr x) f = f x"
  by (simp add: bindE_def)

lemma bindE_eq_Inr [result_simps]: "bindE m f = Inr y \<longleftrightarrow> (\<exists>x. m = Inr x \<and> f x = Inr y)"
  by (cases m) auto

lemma bindE_eq_Inl [result_simps]:
  "bindE m f = Inl e \<longleftrightarrow> m = Inl e \<or> (\<exists>x. m = Inr x \<and> f x = Inl e)"
  by (cases m) auto

lemma throw_if_eq_Inr [result_simps]: "throw_if b e = Inr u \<longleftrightarrow> \<not> b"
  by (simp add: throw_if_def)

lemma throw_if_eq_Inl [result_simps]: "throw_if b e = Inl d \<longleftrightarrow> b \<and> d = e"
  by (auto simp: throw_if_def)

lemma throw_if_True [simp]: "throw_if True e = Inl e"
  by (simp add: throw_if_def)

lemma throw_if_False [simp]: "throw_if False e = Inr ()"
  by (simp add: throw_if_def)

lemma bindE_throw_if [simp]: "bindE (throw_if b e) f = (if b then Inl e else f ())"
  by (simp add: throw_if_def)

lemma mapE_length: "mapE f xs = Inr ys \<Longrightarrow> length ys = length xs"
  by (induction xs arbitrary: ys) (auto simp: result_simps)

lemma mapE_nth: "mapE f xs = Inr ys \<Longrightarrow> i < length xs \<Longrightarrow> f (xs ! i) = Inr (ys ! i)"
proof (induction xs arbitrary: ys i)
  case Nil
  then show ?case by simp
next
  case (Cons x xs)
  then show ?case by (cases i) (auto simp: result_simps)
qed

section \<open>Calls with effects\<close>

type_synonym ('w, 'e, 'a) act = "'w \<Rightarrow> ('e, 'a) res \<times> 'w"

definition retW :: "'a \<Rightarrow> ('w, 'e, 'a) act" where
  "retW x w = (Inr x, w)"

definition throwW :: "'e \<Rightarrow> ('w, 'e, 'a) act" where
  "throwW e w = (Inl e, w)"

definition bindW :: "('w, 'e, 'a) act \<Rightarrow> ('a \<Rightarrow> ('w, 'e, 'b) act) \<Rightarrow> ('w, 'e, 'b) act" where
  "bindW m f w = (case m w of (Inl e, w') \<Rightarrow> (Inl e, w') | (Inr x, w') \<Rightarrow> f x w')"

definition catchW :: "('w, 'e, 'a) act \<Rightarrow> ('e \<Rightarrow> ('w, 'e, 'a) act) \<Rightarrow> ('w, 'e, 'a) act" where
  "catchW m h w = (case m w of (Inl e, w') \<Rightarrow> h e w' | (Inr x, w') \<Rightarrow> (Inr x, w'))"

named_theorems act_simps \<comment> \<open>inversion of calls with effects\<close>

lemma bindW_Inr [act_simps]: "bindW m f w = (Inr y, w') \<longleftrightarrow> (\<exists>x v. m w = (Inr x, v) \<and> f x v = (Inr y, w'))"
  by (auto simp: bindW_def split: prod.splits sum.splits)

lemma bindW_Inl [act_simps]: "bindW m f w = (Inl e, w') \<longleftrightarrow>
    m w = (Inl e, w') \<or> (\<exists>x v. m w = (Inr x, v) \<and> f x v = (Inl e, w'))"
  by (auto simp: bindW_def split: prod.splits sum.splits)

lemma retW_eq [act_simps]: "retW x w = (r, w') \<longleftrightarrow> r = Inr x \<and> w' = w"
  by (auto simp: retW_def)

lemma throwW_eq [act_simps]: "throwW e w = (r, w') \<longleftrightarrow> r = Inl e \<and> w' = w"
  by (auto simp: throwW_def)

text \<open>A call that leaves a quantity of the world alone.\<close>

definition keeps :: "('w \<Rightarrow> 'n) \<Rightarrow> ('w, 'e, 'a) act \<Rightarrow> bool" where
  "keeps L m \<longleftrightarrow> (\<forall>w. L (snd (m w)) = L w)"

lemma keepsD: "keeps L m \<Longrightarrow> m w = (r, w') \<Longrightarrow> L w' = L w"
  by (metis keeps_def snd_conv)

lemma keeps_retW [simp, intro]: "keeps L (retW x)"
  by (simp add: keeps_def retW_def)

lemma keeps_throwW [simp, intro]: "keeps L (throwW e)"
  by (simp add: keeps_def throwW_def)

lemma keeps_bindW [intro]: "keeps L m \<Longrightarrow> (\<And>x. keeps L (f x)) \<Longrightarrow> keeps L (bindW m f)"
  by (auto simp: keeps_def bindW_def split: prod.splits sum.splits) (metis snd_conv)+

section \<open>BigInt division\<close>

lemma sdiv_nonneg [bigint_simps]: "0 \<le> a \<Longrightarrow> 0 \<le> b \<Longrightarrow> a sdiv b = a div b" for a b :: int
  by (cases "a = 0"; cases "b = 0") (auto simp: signed_divide_int_def sgn_if)

lemma smod_nonneg [bigint_simps]: "0 \<le> a \<Longrightarrow> 0 < b \<Longrightarrow> a smod b = a mod b" for a b :: int
  by (cases "a = 0") (auto simp: signed_modulo_int_def sgn_if)

lemma div_mult_le_int: "0 < b \<Longrightarrow> a div b * b \<le> a" for a b :: int
  by (metis add_le_cancel_left add.right_neutral div_mult_mod_eq pos_mod_sign)

lemma lt_div_mult_int: "0 < b \<Longrightarrow> a < (a div b + 1) * b" for a b :: int
  using pos_mod_bound[of b a] by (simp add: distrib_right minus_mod_eq_div_mult[symmetric])

lemma div_le_iff_int: "0 < b \<Longrightarrow> c \<le> a div b \<longleftrightarrow> c * b \<le> a" for a b c :: int
proof
  assume b: "0 < b" and "c \<le> a div b"
  then have "c * b \<le> a div b * b" by (simp add: mult_right_mono)
  with div_mult_le_int[OF b, of a] show "c * b \<le> a" by linarith
next
  assume b: "0 < b" and "c * b \<le> a"
  then have "c * b div b \<le> a div b" by (intro zdiv_mono1) auto
  with b show "c \<le> a div b" by simp
qed

lemma div_less_iff_int: "0 < b \<Longrightarrow> a div b < c \<longleftrightarrow> a < c * b" for a b c :: int
  using div_le_iff_int[of b c a] by linarith

section \<open>Decimal digits\<close>

definition digit_char :: "nat \<Rightarrow> char" where
  "digit_char d = char_of (48 + d)"

definition digit_val :: "char \<Rightarrow> nat" where
  "digit_val c = of_char c - 48"

definition is_digit :: "char \<Rightarrow> bool" where
  "is_digit c \<longleftrightarrow> 48 \<le> (of_char c :: nat) \<and> (of_char c :: nat) \<le> 57"

fun nat_str :: "nat \<Rightarrow> string" where
  "nat_str n = (if n < 10 then [digit_char n] else nat_str (n div 10) @ [digit_char (n mod 10)])"

declare nat_str.simps [simp del]

text \<open>\<open>toString\<close> of a bigint (or of an integral number).\<close>

definition int_str :: "int \<Rightarrow> string" where
  "int_str n = (if n < 0 then CHR ''-'' # nat_str (nat (- n)) else nat_str (nat n))"

text \<open>\<open>BigInt(s)\<close> of a string of decimal digits.\<close>

definition parse_nat :: "string \<Rightarrow> nat" where
  "parse_nat s = foldl (\<lambda>a c. 10 * a + digit_val c) 0 s"

definition pad_start :: "nat \<Rightarrow> string \<Rightarrow> string" where
  "pad_start k s = replicate (k - length s) (CHR ''0'') @ s"

definition pad_end :: "nat \<Rightarrow> string \<Rightarrow> string" where
  "pad_end k s = s @ replicate (k - length s) (CHR ''0'')"

lemma of_char_digit [decimal_simps]: "d < 10 \<Longrightarrow> of_char (digit_char d) = (48 + d :: nat)"
  by (simp add: digit_char_def)

lemma digit_val_char [decimal_simps]: "d < 10 \<Longrightarrow> digit_val (digit_char d) = d"
  by (simp add: digit_val_def of_char_digit)

lemma is_digit_char [decimal_simps]: "d < 10 \<Longrightarrow> is_digit (digit_char d)"
  by (simp add: is_digit_def of_char_digit)

lemma digit_val_less: "is_digit c \<Longrightarrow> digit_val c < 10"
  by (auto simp: is_digit_def digit_val_def)

lemma digit_char_0 [decimal_simps]: "digit_char 0 = CHR ''0''"
  by code_simp

lemma digit_val_0 [decimal_simps]: "digit_val (CHR ''0'') = 0"
  by (simp add: digit_val_def of_char_def)

lemma is_digit_0 [decimal_simps]: "is_digit (CHR ''0'')"
  by (simp add: is_digit_def of_char_def)

lemma not_digit_punct [decimal_simps]:
  "\<not> is_digit (CHR ''.'')" "\<not> is_digit (CHR ''-'')" "\<not> is_digit (CHR ''+'')"
  by (simp_all add: is_digit_def of_char_def)

lemma parse_nat_Nil [decimal_simps]: "parse_nat [] = 0"
  by (simp add: parse_nat_def)

lemma parse_nat_snoc [decimal_simps]: "parse_nat (s @ [c]) = 10 * parse_nat s + digit_val c"
  by (simp add: parse_nat_def)

lemma parse_nat_append: "parse_nat (s @ t) = parse_nat s * 10 ^ length t + parse_nat t"
proof (induction t rule: rev_induct)
  case Nil
  then show ?case by (simp add: decimal_simps)
next
  case (snoc c t)
  have "parse_nat (s @ t @ [c]) = 10 * parse_nat (s @ t) + digit_val c"
    using parse_nat_snoc[of "s @ t" c] by simp
  with snoc show ?case by (simp add: decimal_simps algebra_simps)
qed

lemma parse_nat_zeros [decimal_simps]: "parse_nat (replicate k (CHR ''0'')) = 0"
proof (induction k)
  case 0
  then show ?case by (simp add: decimal_simps)
next
  case (Suc k)
  then show ?case
    using parse_nat_snoc[of "replicate k (CHR ''0'')" "CHR ''0''"]
    by (simp add: decimal_simps replicate_append_same)
qed

lemma parse_nat_str [decimal_simps]: "parse_nat (nat_str n) = n"
proof (induction n rule: nat_str.induct)
  case (1 n)
  show ?case
  proof (cases "n < 10")
    case True
    then show ?thesis
      by (subst nat_str.simps) (simp add: parse_nat_def decimal_simps)
  next
    case False
    with 1 show ?thesis by (subst nat_str.simps) (simp add: decimal_simps)
  qed
qed

lemma nat_str_digits: "\<forall>c \<in> set (nat_str n). is_digit c"
proof (induction n rule: nat_str.induct)
  case (1 n)
  then show ?case by (subst nat_str.simps) (auto simp: decimal_simps)
qed

lemma nat_str_nonempty [simp]: "nat_str n \<noteq> []"
  by (subst nat_str.simps) simp

lemma nat_str_length: "n < 10 ^ k \<Longrightarrow> 0 < k \<Longrightarrow> length (nat_str n) \<le> k"
proof (induction k arbitrary: n)
  case (Suc k)
  show ?case
  proof (cases "n < 10")
    case True
    then show ?thesis by (subst nat_str.simps) simp
  next
    case False
    then have "0 < k" using Suc.prems by (cases k) auto
    moreover have "n div 10 < 10 ^ k" using Suc.prems by (simp add: less_mult_imp_div_less mult.commute)
    ultimately show ?thesis using Suc.IH[of "n div 10"] False by (subst nat_str.simps) simp
  qed
qed simp

lemma parse_nat_pad_start [decimal_simps]: "parse_nat (pad_start k s) = parse_nat s"
  by (simp add: pad_start_def parse_nat_append decimal_simps)

lemma parse_nat_pad_end [decimal_simps]:
  "parse_nat (pad_end k s) = parse_nat s * 10 ^ (k - length s)"
  by (simp add: pad_end_def parse_nat_append decimal_simps)

lemma length_pad_start [simp]: "length (pad_start k s) = max k (length s)"
  by (simp add: pad_start_def)

lemma length_pad_end [simp]: "length (pad_end k s) = max k (length s)"
  by (simp add: pad_end_def)

lemma pad_start_digits: "\<forall>c \<in> set s. is_digit c \<Longrightarrow> \<forall>c \<in> set (pad_start k s). is_digit c"
  by (auto simp: pad_start_def decimal_simps)

lemma parse_nat_bound: "\<forall>c \<in> set s. is_digit c \<Longrightarrow> parse_nat s < 10 ^ length s"
proof (induction s rule: rev_induct)
  case Nil
  then show ?case by (simp add: decimal_simps)
next
  case (snoc c s)
  then have "parse_nat s < 10 ^ length s" and "digit_val c < 10"
    by (auto simp: digit_val_less)
  then show ?case by (simp add: decimal_simps)
qed

section \<open>Strings\<close>

definition includes_str :: "string \<Rightarrow> string \<Rightarrow> bool" where
  "includes_str s t \<longleftrightarrow> sublist t s"

definition lower_char :: "char \<Rightarrow> char" where
  "lower_char c = (if 65 \<le> (of_char c :: nat) \<and> (of_char c :: nat) \<le> 90
     then char_of ((of_char c :: nat) + 32) else c)"

definition to_lower :: "string \<Rightarrow> string" where
  "to_lower s = map lower_char s"

definition upper_char :: "char \<Rightarrow> char" where
  "upper_char ch = (if 97 \<le> (of_char ch :: nat) \<and> (of_char ch :: nat) \<le> 122
     then char_of ((of_char ch :: nat) - 32) else ch)"

definition to_upper :: "string \<Rightarrow> string" where
  "to_upper s = map upper_char s"

definition is_space :: "char \<Rightarrow> bool" where
  "is_space c \<longleftrightarrow> (of_char c :: nat) \<in> {9, 10, 11, 12, 13, 32}"

definition trim :: "string \<Rightarrow> string" where
  "trim s = rev (dropWhile is_space (rev (dropWhile is_space s)))"

lemma not_space_punct [decimal_simps]:
  "\<not> is_space (CHR ''.'')" "\<not> is_space (CHR ''-'')" "\<not> is_space (CHR ''+'')"
  by (simp_all add: is_space_def of_char_def)

lemma digit_not_space: "is_digit c \<Longrightarrow> \<not> is_space c"
  by (auto simp: is_digit_def is_space_def)

lemma trim_id: "\<forall>c \<in> set s. \<not> is_space c \<Longrightarrow> trim s = s"
proof -
  assume a: "\<forall>c \<in> set s. \<not> is_space c"
  have d: "\<forall>c \<in> set t. \<not> is_space c \<Longrightarrow> dropWhile is_space t = t" for t
    by (cases t) auto
  show ?thesis using a by (simp add: trim_def d)
qed

section \<open>Running a step function over events\<close>

text \<open>
  A component with state is a step function; \<open>run_steps\<close> runs it over a sequence of events
  in the order in which the single JavaScript thread handles them.
\<close>

definition run_steps :: "('s \<Rightarrow> 'e \<Rightarrow> 's) \<Rightarrow> 's \<Rightarrow> 'e list \<Rightarrow> 's" where
  "run_steps step s es = foldl step s es"

lemma run_steps_Nil [simp]: "run_steps step s [] = s"
  by (simp add: run_steps_def)

lemma run_steps_Cons [simp]: "run_steps step s (e # es) = run_steps step (step s e) es"
  by (simp add: run_steps_def)

lemma run_steps_append [simp]:
  "run_steps step s (es @ fs) = run_steps step (run_steps step s es) fs"
  by (simp add: run_steps_def)

text \<open>The contract of a stateful component: a property of its state no event breaks.\<close>

locale invariant_machine =
  fixes step :: "'s \<Rightarrow> 'e \<Rightarrow> 's"
    and inv :: "'s \<Rightarrow> bool"
  assumes step_inv: "inv s \<Longrightarrow> inv (step s e)"
begin

lemma run_inv: "inv s \<Longrightarrow> inv (run_steps step s es)"
  by (induction es arbitrary: s) (auto intro: step_inv)

end

end
