(* ===== verification/SdkErrors.thy ===== *)
theory SdkErrors
  imports Prelude
begin

text \<open>
  The error classes of \<open>src/errors.ts\<close> as one datatype (a constructor per class, its
  arguments the constructor's arguments that reach the code or the message; the free-form
  \<open>details\<close> record is not modelled), the taxonomy table, the contract error tables and the
  string recognisers of \<open>src/errors/parser.ts\<close>, and \<open>mapError\<close>, which turns a raw failure
  into a typed one. Three further constructors stand for the errors of the language itself
  (a plain \<open>Error\<close>, a \<open>RangeError\<close>) and for \<open>CircuitOpenError\<close> of \<open>src/utils/retry.ts\<close>.
\<close>

section \<open>The class hierarchy\<close>

datatype sdk_error =
    CoralSwapSDKError string string
  | NetworkError string
  | ConnectionPoolExhaustedError string
  | RpcError string
  | SimulationError string
  | TransactionError string "string option"
  | DeadlineError int
  | SlippageError int int int "string option"
  | InsufficientLiquidityError string "string option"
  | PairNotFoundError string string
  | WebhookDeliveryError string int int
  | ValidationError string
  | InvalidThresholdError string string string string
  | DecodeError string "string option"
  | FlashLoanError string "string option"
  | FlashLoanFailedError string "string option"
  | CrossChainError string "string option"
  | CircuitBreakerError string
  | PriceDeviationError int int int
  | StaleOracleError string int int
  | SignerError
  | OrderNotFoundError string
  | InvalidOperationError string
  | StakingError string
  | CooldownError int
  | MissingPriceFeedError string bool
  | NotConfiguredError string "string option"
  | WebhookError string
  | AddressNotFoundError string string
  | PortfolioCalculationError string string
  | WebhookDisabledError string int
  | JsError string
  | RangeError string
  | CircuitOpenError string

type_synonym 'a result = "(sdk_error, 'a) res"

text \<open>The \<open>code\<close> field: absent for the errors that do not extend \<open>CoralSwapSDKError\<close>.\<close>

fun err_code :: "sdk_error \<Rightarrow> string option" where
  "err_code (CoralSwapSDKError c _) = Some c"
| "err_code (NetworkError _) = Some ''NETWORK_ERROR''"
| "err_code (ConnectionPoolExhaustedError _) = Some ''CONNECTION_POOL_EXHAUSTED''"
| "err_code (RpcError _) = Some ''RPC_ERROR''"
| "err_code (SimulationError _) = Some ''SIMULATION_ERROR''"
| "err_code (TransactionError _ _) = Some ''TRANSACTION_ERROR''"
| "err_code (DeadlineError _) = Some ''DEADLINE_EXCEEDED''"
| "err_code (SlippageError _ _ _ _) = Some ''SLIPPAGE_EXCEEDED''"
| "err_code (InsufficientLiquidityError _ _) = Some ''INSUFFICIENT_LIQUIDITY''"
| "err_code (PairNotFoundError _ _) = Some ''PAIR_NOT_FOUND''"
| "err_code (WebhookDeliveryError _ _ _) = Some ''WEBHOOK_DELIVERY_FAILED''"
| "err_code (ValidationError _) = Some ''VALIDATION_ERROR''"
| "err_code (InvalidThresholdError _ _ _ _) = Some ''VALIDATION_ERROR''"
| "err_code (DecodeError _ _) = Some ''DECODE_ERROR''"
| "err_code (FlashLoanError _ _) = Some ''FLASH_LOAN_ERROR''"
| "err_code (FlashLoanFailedError _ _) = Some ''FLASH_LOAN_ERROR''"
| "err_code (CrossChainError _ _) = Some ''CROSS_CHAIN_ERROR''"
| "err_code (CircuitBreakerError _) = Some ''CIRCUIT_BREAKER''"
| "err_code (PriceDeviationError _ _ _) = Some ''PRICE_DEVIATION_TOO_HIGH''"
| "err_code (StaleOracleError _ _ _) = Some ''STALE_ORACLE_PAYLOAD''"
| "err_code SignerError = Some ''NO_SIGNER''"
| "err_code (OrderNotFoundError _) = Some ''ORDER_NOT_FOUND''"
| "err_code (InvalidOperationError _) = Some ''INVALID_OPERATION''"
| "err_code (StakingError _) = Some ''STAKING_ERROR''"
| "err_code (CooldownError _) = Some ''COOLDOWN_ERROR''"
| "err_code (MissingPriceFeedError _ _) = Some ''MISSING_PRICE_FEED''"
| "err_code (NotConfiguredError _ _) = Some ''NOT_CONFIGURED''"
| "err_code (WebhookError _) = Some ''WEBHOOK_ERROR''"
| "err_code (AddressNotFoundError _ _) = Some ''ADDRESS_NOT_FOUND''"
| "err_code (PortfolioCalculationError _ _) = Some ''PORTFOLIO_CALCULATION_ERROR''"
| "err_code (WebhookDisabledError _ _) = Some ''WEBHOOK_DISABLED''"
| "err_code (JsError _) = None"
| "err_code (RangeError _) = None"
| "err_code (CircuitOpenError _) = None"

text \<open>The \<open>name\<close> field.\<close>

fun err_class :: "sdk_error \<Rightarrow> string" where
  "err_class (CoralSwapSDKError _ _) = ''CoralSwapSDKError''"
| "err_class (NetworkError _) = ''NetworkError''"
| "err_class (ConnectionPoolExhaustedError _) = ''ConnectionPoolExhaustedError''"
| "err_class (RpcError _) = ''RpcError''"
| "err_class (SimulationError _) = ''SimulationError''"
| "err_class (TransactionError _ _) = ''TransactionError''"
| "err_class (DeadlineError _) = ''DeadlineError''"
| "err_class (SlippageError _ _ _ _) = ''SlippageError''"
| "err_class (InsufficientLiquidityError _ _) = ''InsufficientLiquidityError''"
| "err_class (PairNotFoundError _ _) = ''PairNotFoundError''"
| "err_class (WebhookDeliveryError _ _ _) = ''WebhookDeliveryError''"
| "err_class (ValidationError _) = ''ValidationError''"
| "err_class (InvalidThresholdError _ _ _ _) = ''InvalidThresholdError''"
| "err_class (DecodeError _ _) = ''DecodeError''"
| "err_class (FlashLoanError _ _) = ''FlashLoanError''"
| "err_class (FlashLoanFailedError _ _) = ''FlashLoanFailedError''"
| "err_class (CrossChainError _ _) = ''CrossChainError''"
| "err_class (CircuitBreakerError _) = ''CircuitBreakerError''"
| "err_class (PriceDeviationError _ _ _) = ''PriceDeviationError''"
| "err_class (StaleOracleError _ _ _) = ''StaleOracleError''"
| "err_class SignerError = ''SignerError''"
| "err_class (OrderNotFoundError _) = ''OrderNotFoundError''"
| "err_class (InvalidOperationError _) = ''InvalidOperationError''"
| "err_class (StakingError _) = ''StakingError''"
| "err_class (CooldownError _) = ''CooldownError''"
| "err_class (MissingPriceFeedError _ _) = ''MissingPriceFeedError''"
| "err_class (NotConfiguredError _ _) = ''NotConfiguredError''"
| "err_class (WebhookError _) = ''WebhookError''"
| "err_class (AddressNotFoundError _ _) = ''AddressNotFoundError''"
| "err_class (PortfolioCalculationError _ _) = ''PortfolioCalculationError''"
| "err_class (WebhookDisabledError _ _) = ''WebhookDisabledError''"
| "err_class (JsError _) = ''Error''"
| "err_class (RangeError _) = ''RangeError''"
| "err_class (CircuitOpenError _) = ''CircuitOpenError''"

text \<open>The \<open>message\<close> field, as each constructor composes it.\<close>

definition or_str :: "string option \<Rightarrow> string \<Rightarrow> string" where
  "or_str m d = (case m of None \<Rightarrow> d | Some s \<Rightarrow> if s = '''' then d else s)"

fun err_message :: "sdk_error \<Rightarrow> string" where
  "err_message (CoralSwapSDKError _ m) = m"
| "err_message (NetworkError m) = m"
| "err_message (ConnectionPoolExhaustedError m) = m"
| "err_message (RpcError m) = m"
| "err_message (SimulationError m) = m"
| "err_message (TransactionError m _) = m"
| "err_message (DeadlineError d) = ''Transaction deadline exceeded (deadline: '' @ int_str d @ '')''"
| "err_message (SlippageError e a t m) =
     or_str m (''Slippage tolerance exceeded. Expected '' @ int_str e @ '', got '' @ int_str a @
       '' (tolerance: '' @ int_str t @ '' bps)'')"
| "err_message (InsufficientLiquidityError p m) = or_str m (''Insufficient liquidity for pair '' @ p)"
| "err_message (PairNotFoundError a b) = ''Pair not found for tokens '' @ a @ '' / '' @ b"
| "err_message (WebhookDeliveryError w s r) =
     ''Webhook '' @ w @ '' failed with status '' @ int_str s @ '' after '' @ int_str r @ '' retries''"
| "err_message (ValidationError m) = m"
| "err_message (InvalidThresholdError t v lo hi) =
     t @ '' threshold '' @ v @ '' is out of range ('' @ lo @ ''-'' @ hi @ '')''"
| "err_message (DecodeError s m) = (case m of None \<Rightarrow> ''Failed to decode slot '' @ s | Some x \<Rightarrow> x)"
| "err_message (FlashLoanError m _) = m"
| "err_message (FlashLoanFailedError m _) = m"
| "err_message (CrossChainError m _) = m"
| "err_message (CircuitBreakerError p) = ''Pool is paused for pair '' @ p"
| "err_message (PriceDeviationError e _ m) =
     ''Execution price deviates '' @ int_str e @ '' bps from oracle price (max allowed: '' @
       int_str m @ '' bps)''"
| "err_message (StaleOracleError a l m) =
     ''RedStone payload for '' @ a @ '' is stale (last update: '' @ int_str l @ '', max age: '' @
       int_str m @ ''ms)''"
| "err_message SignerError =
     ''No signing key configured. Provide secretKey in config or use external signing.''"
| "err_message (OrderNotFoundError i) = ''Order '' @ i @ '' not found or has been cancelled''"
| "err_message (InvalidOperationError m) = m"
| "err_message (StakingError m) = m"
| "err_message (CooldownError e) = ''Cooldown period active until block '' @ int_str e"
| "err_message (MissingPriceFeedError t f) =
     ''Price feed missing for token '' @ t @
       (if f then ''; using zero-value fallback'' else ''; no stablecoin pair found'')"
| "err_message (NotConfiguredError r h) =
     (case h of None \<Rightarrow> r @ '' is not configured''
      | Some t \<Rightarrow> if t = '''' then r @ '' is not configured''
          else r @ '' is not configured '' @ [CHR 0xE2, CHR 0x80, CHR 0x94] @ '' '' @ t)"
| "err_message (WebhookError m) = m"
| "err_message (AddressNotFoundError a n) = ''Address '' @ a @ '' not found on '' @ n"
| "err_message (PortfolioCalculationError p r) =
     ''Portfolio calculation failed for pool '' @ p @ '': '' @ r"
| "err_message (WebhookDisabledError w n) =
     ''webhook \"'' @ w @ ''\" is disabled after '' @ int_str n @ '' consecutive failures''"
| "err_message (JsError m) = m"
| "err_message (RangeError m) = m"
| "err_message (CircuitOpenError l) = ''Circuit is open for operation '' @ l"

section \<open>The taxonomy\<close>

datatype retry_policy = RetryWithBackoff | FailFast | NoPolicy

definition ERROR_TAXONOMY :: "(string \<times> string \<times> retry_policy) list" where
  "ERROR_TAXONOMY =
    [(''NetworkError'', ''NETWORK_ERROR'', RetryWithBackoff),
     (''RpcError'', ''RPC_ERROR'', RetryWithBackoff),
     (''SimulationError'', ''SIMULATION_ERROR'', FailFast),
     (''TransactionError'', ''TRANSACTION_ERROR'', FailFast),
     (''DeadlineError'', ''DEADLINE_EXCEEDED'', FailFast),
     (''SlippageError'', ''SLIPPAGE_EXCEEDED'', FailFast),
     (''InsufficientLiquidityError'', ''INSUFFICIENT_LIQUIDITY'', FailFast),
     (''PairNotFoundError'', ''PAIR_NOT_FOUND'', FailFast),
     (''WebhookDeliveryError'', ''WEBHOOK_DELIVERY_FAILED'', RetryWithBackoff),
     (''ValidationError'', ''VALIDATION_ERROR'', FailFast),
     (''InvalidThresholdError'', ''VALIDATION_ERROR'', FailFast),
     (''FlashLoanError'', ''FLASH_LOAN_ERROR'', FailFast),
     (''FlashLoanFailedError'', ''FLASH_LOAN_ERROR'', FailFast),
     (''CrossChainError'', ''CROSS_CHAIN_ERROR'', FailFast),
     (''CircuitBreakerError'', ''CIRCUIT_BREAKER'', FailFast),
     (''PriceDeviationError'', ''PRICE_DEVIATION_TOO_HIGH'', FailFast),
     (''StaleOracleError'', ''STALE_ORACLE_PAYLOAD'', FailFast),
     (''SignerError'', ''NO_SIGNER'', FailFast),
     (''OrderNotFoundError'', ''ORDER_NOT_FOUND'', FailFast),
     (''InvalidOperationError'', ''INVALID_OPERATION'', FailFast),
     (''StakingError'', ''STAKING_ERROR'', FailFast),
     (''CooldownError'', ''COOLDOWN_ERROR'', FailFast),
     (''MissingPriceFeedError'', ''MISSING_PRICE_FEED'', FailFast),
     (''DecodeError'', ''DECODE_ERROR'', FailFast),
     (''NotConfiguredError'', ''NOT_CONFIGURED'', FailFast),
     (''WebhookError'', ''WEBHOOK_ERROR'', FailFast),
     (''AddressNotFoundError'', ''ADDRESS_NOT_FOUND'', FailFast),
     (''PortfolioCalculationError'', ''PORTFOLIO_CALCULATION_ERROR'', FailFast),
     (''WebhookDisabledError'', ''WEBHOOK_DISABLED'', FailFast)]"

section \<open>Contract error codes\<close>

datatype contract_scope = PairScope | RouterScope | FactoryScope

definition PAIR_ERROR_MAP :: "int \<Rightarrow> string option" where
  "PAIR_ERROR_MAP = map_of
    [(100, ''Pair already initialized''), (101, ''Zero address provided''),
     (102, ''Identical tokens provided''), (103, ''Insufficient liquidity minted''),
     (104, ''Insufficient liquidity burned''), (105, ''Insufficient output amount''),
     (106, ''Insufficient liquidity in pool''), (107, ''Invalid amount''),
     (108, ''K invariant violated''), (109, ''Insufficient input amount''),
     (110, ''Contract is locked (reentrancy guard)''),
     (111, ''Transaction expired (deadline exceeded)''), (112, ''Constraint not met''),
     (113, ''Invalid fee configuration'')]"

definition ROUTER_ERROR_MAP :: "int \<Rightarrow> string option" where
  "ROUTER_ERROR_MAP = map_of
    [(200, ''Router already initialized''), (201, ''Invalid swap path''),
     (202, ''Insufficient output amount''), (203, ''Excessive input amount''),
     (204, ''Expired deadline''), (205, ''Insufficient liquidity''),
     (206, ''Pair not found''), (207, ''Identical tokens'')]"

definition FACTORY_ERROR_MAP :: "int \<Rightarrow> string option" where
  "FACTORY_ERROR_MAP = map_of
    [(300, ''Factory already initialized''), (301, ''Unauthorized caller''),
     (302, ''Pair already exists''), (303, ''Zero address provided''),
     (304, ''Invalid fee configuration'')]"

definition CONTRACT_ERROR_RANGES ::
  "(contract_scope \<times> int \<times> int \<times> (int \<Rightarrow> string option)) list" where
  "CONTRACT_ERROR_RANGES =
    [(PairScope, 100, 120, PAIR_ERROR_MAP), (RouterScope, 200, 220, ROUTER_ERROR_MAP),
     (FactoryScope, 300, 320, FACTORY_ERROR_MAP)]"

definition resolveScope :: "int \<Rightarrow> contract_scope option" where
  "resolveScope code =
    (case List.find (\<lambda>(_, lo, hi, _). lo \<le> code \<and> code < hi) CONTRACT_ERROR_RANGES of
       None \<Rightarrow> None | Some (scope, _, _, _) \<Rightarrow> Some scope)"

definition parseContractError :: "int \<Rightarrow> string option" where
  "parseContractError code =
    (case List.find (\<lambda>(_, lo, hi, _). lo \<le> code \<and> code < hi) CONTRACT_ERROR_RANGES of
       None \<Rightarrow> None
     | Some (_, _, _, m) \<Rightarrow> (case m code of None \<Rightarrow> None | Some s \<Rightarrow> if s = '''' then None else Some s))"

text \<open>The codes the pair contract itself declares (\<open>src/pair/src/errors.rs\<close>).\<close>

datatype pair_error =
    AlreadyInitialized | ZeroAddress | IdenticalTokens | InsufficientLiquidityMinted
  | InsufficientLiquidityBurned | InsufficientOutputAmount | InsufficientLiquidity
  | InvalidAmount | KInvariant | InsufficientInputAmount | Locked | Expired
  | ConstraintNotMet | InvalidFee

fun pair_error_code :: "pair_error \<Rightarrow> int" where
  "pair_error_code AlreadyInitialized = 100"
| "pair_error_code ZeroAddress = 101"
| "pair_error_code IdenticalTokens = 102"
| "pair_error_code InsufficientLiquidityMinted = 103"
| "pair_error_code InsufficientLiquidityBurned = 104"
| "pair_error_code InsufficientOutputAmount = 105"
| "pair_error_code InsufficientLiquidity = 106"
| "pair_error_code InvalidAmount = 107"
| "pair_error_code KInvariant = 108"
| "pair_error_code InsufficientInputAmount = 109"
| "pair_error_code Locked = 110"
| "pair_error_code Expired = 111"
| "pair_error_code ConstraintNotMet = 112"
| "pair_error_code InvalidFee = 113"

section \<open>Recognisers over error messages\<close>

text \<open>
  What reaches \<open>mapError\<close>: an SDK error, an error object with a message and, in its
  \<open>details\<close>, possibly a \<open>pairAddress\<close> and a \<open>pair\<close>, or a thrown string.
\<close>

datatype raw_error =
    RawSdk sdk_error
  | RawObject string "string option" "string option"
  | RawString string

fun raw_message :: "raw_error \<Rightarrow> string" where
  "raw_message (RawSdk e) = err_message e"
| "raw_message (RawObject m _ _) = m"
| "raw_message (RawString s) = s"

text \<open>The leftmost suffix at which a matcher succeeds: \<open>String.match\<close> with an unanchored regex.\<close>

fun scan_text :: "(string \<Rightarrow> 'a option) \<Rightarrow> string \<Rightarrow> 'a option" where
  "scan_text m [] = m []"
| "scan_text m (c # cs) = (case m (c # cs) of Some x \<Rightarrow> Some x | None \<Rightarrow> scan_text m cs)"

definition starts_ci :: "string \<Rightarrow> string \<Rightarrow> bool" where
  "starts_ci key s \<longleftrightarrow> to_lower (take (length key) s) = to_lower key"

definition digits_of :: "string \<Rightarrow> string option" where
  "digits_of s = (let d = takeWhile is_digit s in if d = [] then None else Some d)"

text \<open>\<open>/Error\(Contract,\s*#?([0-9]+)\)/i\<close>\<close>

definition contract_code_at :: "string \<Rightarrow> int option" where
  "contract_code_at s =
    (if \<not> starts_ci ''Error(Contract,'' s then None
     else let t = dropWhile is_space (drop 15 s);
              u = (if take 1 t = ''#'' then drop 1 t else t);
              d = takeWhile is_digit u
          in if d \<noteq> [] \<and> take 1 (drop (length d) u) = '')'' then Some (int (parse_nat d)) else None)"

definition extractErrorCode :: "raw_error \<Rightarrow> int option" where
  "extractErrorCode err = (if raw_message err = '''' then None else scan_text contract_code_at (raw_message err))"

definition toHumanMessage :: "raw_error \<Rightarrow> string" where
  "toHumanMessage err =
    (case extractErrorCode err of
       Some code \<Rightarrow>
         (case parseContractError code of
            Some d \<Rightarrow> ''Contract Error ('' @ int_str code @ ''): '' @ d
          | None \<Rightarrow> ''Contract Error ('' @ int_str code @ '')'')
     | None \<Rightarrow> raw_message err)"

text \<open>\<open>/deadline[^\d]*(\d+)/i\<close>, and a keyword followed by \<open>[:\s]*(\d+)\<close>.\<close>

definition deadline_at :: "string \<Rightarrow> int option" where
  "deadline_at s =
    (if \<not> starts_ci ''deadline'' s then None
     else map_option (\<lambda>d. int (parse_nat d)) (digits_of (dropWhile (\<lambda>c. \<not> is_digit c) (drop 8 s))))"

definition number_after :: "string \<Rightarrow> string \<Rightarrow> int option" where
  "number_after key s =
    (if \<not> starts_ci key s then None
     else map_option (\<lambda>d. int (parse_nat d))
       (digits_of (dropWhile (\<lambda>c. c = CHR '':'' \<or> is_space c) (drop (length key) s))))"

definition actual_at :: "string \<Rightarrow> int option" where
  "actual_at s = (case number_after ''got'' s of Some n \<Rightarrow> Some n | None \<Rightarrow> number_after ''actual'' s)"

text \<open>\<open>/[CG][A-Z0-9]{47,55}/i\<close>, greedy, and \<open>/order\s+([^\s]+)/i\<close>.\<close>

definition is_alnum_ci :: "char \<Rightarrow> bool" where
  "is_alnum_ci c \<longleftrightarrow> is_digit c \<or>
     (let n = (of_char (lower_char c) :: nat) in 97 \<le> n \<and> n \<le> 122)"

definition address_at :: "string \<Rightarrow> string option" where
  "address_at s =
    (case s of [] \<Rightarrow> None
     | c # cs \<Rightarrow>
         (let t = take 55 (takeWhile is_alnum_ci cs)
          in if lower_char c \<in> {CHR ''c'', CHR ''g''} \<and> 47 \<le> length t then Some (c # t) else None))"

definition order_id_at :: "string \<Rightarrow> string option" where
  "order_id_at s =
    (if \<not> starts_ci ''order'' s then None
     else let t = drop 5 s; u = dropWhile is_space t; w = takeWhile (\<lambda>c. \<not> is_space c) u
          in if takeWhile is_space t = [] \<or> w = [] then None else Some w)"

fun extractPairAddress :: "raw_error \<Rightarrow> string" where
  "extractPairAddress err =
    (let fallback = (case scan_text address_at (raw_message err) of Some a \<Rightarrow> a | None \<Rightarrow> ''unknown'')
     in case err of
          RawObject _ (Some a) p \<Rightarrow> if a \<noteq> '''' then a else or_str p fallback
        | RawObject _ None p \<Rightarrow> or_str p fallback
        | _ \<Rightarrow> fallback)"

section \<open>Mapping raw errors to typed ones\<close>

definition mapContractError :: "int \<Rightarrow> raw_error \<Rightarrow> sdk_error option" where
  "mapContractError code err =
    (let message = parseContractError code in
     if code = 100 then Some (ValidationError (or_str message ''Invalid token pair''))
     else if code = 101 then Some (InsufficientLiquidityError (extractPairAddress err) message)
     else if code = 102 then Some (SlippageError 0 0 0 message)
     else if code = 103 then Some (DeadlineError 0)
     else if code = 104 then Some (ValidationError (or_str message ''Invalid amount''))
     else if code = 105 then Some (ValidationError (or_str message ''Insufficient input amount''))
     else if code = 106 then Some (FlashLoanError ''Reentrancy detected'' None)
     else if code = 107 then Some (FlashLoanError ''Flash loan callback failed'' None)
     else if code = 108 then Some (FlashLoanError ''Flash loan repayment insufficient'' None)
     else if code = 109 then Some (CircuitBreakerError (extractPairAddress err))
     else if code = 110 then Some (ValidationError (or_str message ''Unauthorized''))
     else if code = 111 then Some (ValidationError (or_str message ''Invalid recipient''))
     else if code = 112 then Some (ValidationError (or_str message ''Overflow''))
     else if code = 113 then Some (ValidationError (or_str message ''K invariant violated''))
     else if code = 200 then Some (InvalidOperationError (or_str message ''Router already initialized''))
     else if code = 201 then Some (ValidationError (or_str message ''Invalid swap path''))
     else if code = 202 then Some (SlippageError 0 0 0 message)
     else if code = 203 then Some (ValidationError (or_str message ''Excessive input amount''))
     else if code = 204 then Some (DeadlineError 0)
     else if code = 205 then Some (InsufficientLiquidityError (extractPairAddress err) message)
     else if code = 206 then Some (PairNotFoundError ''unknown'' ''unknown'')
     else if code = 207 then Some (ValidationError (or_str message ''Identical tokens''))
     else if code = 300 then Some (InvalidOperationError (or_str message ''Factory already initialized''))
     else if code = 301 then Some (ValidationError (or_str message ''Unauthorized caller''))
     else if code = 302 then Some (InvalidOperationError (or_str message ''Pair already exists''))
     else if code = 303 then Some (ValidationError (or_str message ''Zero address provided''))
     else if code = 304 then Some (ValidationError (or_str message ''Invalid fee configuration''))
     else None)"

text \<open>
  \<open>mapError\<close> after the contract codes: the string branches in the order of the source.
  \<open>has\<close> tests the lower-cased message, \<open>hasC\<close> the message as it is.
\<close>

definition any_of :: "string list \<Rightarrow> string \<Rightarrow> bool" where
  "any_of keys s \<longleftrightarrow> (\<exists>k \<in> set keys. includes_str s k)"

definition or0 :: "int option \<Rightarrow> int" where
  "or0 n = (case n of None \<Rightarrow> 0 | Some k \<Rightarrow> k)"

definition mapMessage :: "raw_error \<Rightarrow> sdk_error" where
  "mapMessage err =
    (let message = raw_message err; lower = to_lower message;
         has = (\<lambda>k. includes_str lower k); hasC = (\<lambda>k. includes_str message k)
     in
     if any_of [''auth'', ''badauth'', ''bad auth''] lower \<or> (has ''unauthorized'' \<and> has ''sign'')
     then SignerError
     else if any_of [''budget'', ''exceededbudget'', ''resource exhausted'', ''exceeded resource''] lower
     then SimulationError (''Soroban resource budget exceeded: '' @ message)
     else if has ''hosterror'' \<or> (has ''failed'' \<and> \<not> has ''flash loan'')
     then SimulationError message
     else if hasC ''EXPIRED'' \<or> has ''deadline''
     then DeadlineError (or0 (scan_text deadline_at message))
     else if has ''slippage'' \<or> hasC ''INSUFFICIENT_OUTPUT''
     then SlippageError (or0 (scan_text (number_after ''expected'') message)) (or0 (scan_text actual_at message))
            (or0 (scan_text (number_after ''tolerance'') message)) None
     else if has ''liquidity'' \<or> hasC ''INSUFFICIENT_LIQUIDITY''
     then InsufficientLiquidityError (extractPairAddress err) None
     else if has ''circuit'' \<or> has ''paused''
     then CircuitBreakerError (extractPairAddress err)
     else if any_of [''ECONNRESET'', ''ETIMEDOUT'', ''ENOTFOUND'', ''ENETUNREACH''] message
     then NetworkError message
     else if has ''rate limit'' \<or> has ''too many requests'' \<or> hasC ''RPC'' \<or> hasC ''429''
     then RpcError message
     else if any_of [''auth'', ''authorization'', ''require_auth'', ''missing auth'',
                     ''missing authorization''] lower
     then SignerError
     else if any_of [''out of budget'', ''budget exceeded'', ''budget exhausted'', ''resource limit'',
                     ''instruction limit'', ''insufficient budget'', ''max instructions''] lower
     then SimulationError message
     else if any_of [''bad seq'', ''bad_seq'', ''bad sequence'', ''sequence number'',
                     ''sequence is too low''] lower \<or> hasC ''TX_BAD_SEQ'' \<or> hasC ''BAD_SEQ''
     then TransactionError message None
     else if has ''signing'' \<or> has ''signer'' \<or> hasC ''NO_SIGNER'' \<or> has ''private key''
     then SignerError
     else if any_of [''flash loan'', ''flash_loan'', ''reentrancy'', ''callback''] lower
     then FlashLoanError message None
     else if (has ''invalid'' \<and> \<not> has ''active'') \<or> any_of [''validation'', ''required'', ''must be''] lower
     then ValidationError message
     else if has ''order not found'' \<or> hasC ''ORDER_NOT_FOUND'' \<or> has ''already cancelled''
     then OrderNotFoundError (case scan_text order_id_at message of Some i \<Rightarrow> i | None \<Rightarrow> ''unknown'')
     else if has ''invalid operation'' \<or> hasC ''INVALID_OPERATION'' \<or> has ''already filled''
     then InvalidOperationError message
     else if has ''pair not found'' \<or> has ''no pair'' \<or> hasC ''PAIR_NOT_FOUND''
     then PairNotFoundError ''unknown'' ''unknown''
     else if has ''simulation'' \<or> hasC ''SIMULATION_FAILED''
     then SimulationError message
     else if has ''transaction'' \<or> hasC ''TX_FAILED'' \<or> has ''tx failed''
     then TransactionError message None
     else CoralSwapSDKError ''UNKNOWN_ERROR'' message)"

definition mapError :: "raw_error \<Rightarrow> sdk_error" where
  "mapError err =
    (case err of RawSdk e \<Rightarrow> e
     | _ \<Rightarrow> (case extractErrorCode err of
               None \<Rightarrow> mapMessage err
             | Some code \<Rightarrow> (case mapContractError code err of
                   Some e \<Rightarrow> e | None \<Rightarrow> mapMessage err)))"

section \<open>What the mapping guarantees\<close>

text \<open>
  An error is registered when the taxonomy lists its class with its code; the untyped
  fallback carries \<open>UNKNOWN_ERROR\<close>.
\<close>

definition registered :: "sdk_error \<Rightarrow> bool" where
  "registered e \<longleftrightarrow>
     (\<exists>c p. err_code e = Some c \<and> (err_class e, c, p) \<in> set ERROR_TAXONOMY) \<or>
     (err_class e = ''CoralSwapSDKError'' \<and> err_code e = Some ''UNKNOWN_ERROR'')"

lemma registered_simps [simp]:
  "registered (ValidationError m)" "registered (InsufficientLiquidityError a d)"
  "registered (SlippageError x y z d)" "registered (DeadlineError t)"
  "registered (FlashLoanError m h)" "registered (CircuitBreakerError a)"
  "registered (InvalidOperationError m)" "registered (PairNotFoundError a b)"
  "registered SignerError" "registered (SimulationError m)" "registered (NetworkError m)"
  "registered (RpcError m)" "registered (TransactionError m h)"
  "registered (OrderNotFoundError m)" "registered (CoralSwapSDKError ''UNKNOWN_ERROR'' m)"
  by (simp_all add: registered_def ERROR_TAXONOMY_def)

lemma registered_if [intro]: "registered a \<Longrightarrow> registered b \<Longrightarrow> registered (if c then a else b)"
  by simp

lemma mapMessage_registered: "registered (mapMessage err)"
  unfolding mapMessage_def Let_def by (intro registered_if registered_simps)

text \<open>A property of every typed answer of the contract-code switch.\<close>

lemma option_if_all:
  "(c \<Longrightarrow> \<forall>e. x = Some e \<longrightarrow> P e) \<Longrightarrow> (\<not> c \<Longrightarrow> \<forall>e. y = Some e \<longrightarrow> P e) \<Longrightarrow>
   \<forall>e. (if c then x else y) = Some e \<longrightarrow> P e"
  by simp

lemma mapContractError_all_registered: "\<forall>e. mapContractError code err = Some e \<longrightarrow> registered e"
  unfolding mapContractError_def Let_def
  by (intro option_if_all) (simp_all del: extractPairAddress.simps)

lemma mapContractError_registered: "mapContractError code err = Some e \<Longrightarrow> registered e"
  using mapContractError_all_registered by blast

text \<open>
  Whatever a non-SDK failure looks like, \<open>mapError\<close> answers with a class and code that
  the published taxonomy lists, or with the base class under \<open>UNKNOWN_ERROR\<close>; an SDK error
  passes through unchanged.
\<close>

theorem mapError_registered:
  "(\<forall>e. mapError (RawSdk e) = e) \<and> registered (mapError (RawObject m a p)) \<and>
   registered (mapError (RawString s))"
  by (auto simp: mapError_def mapMessage_registered split: option.splits
      intro: mapContractError_registered)

text \<open>The codes the tables know are exactly the codes the switch answers.\<close>

definition contract_codes :: "int list" where
  "contract_codes =
    [100, 101, 102, 103, 104, 105, 106, 107, 108, 109, 110, 111, 112, 113,
     200, 201, 202, 203, 204, 205, 206, 207, 300, 301, 302, 303, 304]"

lemma parseContractError_known: "parseContractError code \<noteq> None \<longleftrightarrow> code \<in> set contract_codes"
  by (auto simp: contract_codes_def parseContractError_def CONTRACT_ERROR_RANGES_def
      PAIR_ERROR_MAP_def ROUTER_ERROR_MAP_def FACTORY_ERROR_MAP_def)

lemma mapContractError_known: "mapContractError code err \<noteq> None \<longleftrightarrow> code \<in> set contract_codes"
  by (simp add: contract_codes_def mapContractError_def Let_def del: extractPairAddress.simps)

text \<open>
  The typed mapping and the message table agree on which numeric codes exist: a code has a
  human-readable message exactly when it has a typed error, and then it belongs to a scope.
\<close>

theorem contract_codes_agree:
  "(parseContractError code = None \<longleftrightarrow> mapContractError code err = None) \<and>
   {c. parseContractError c \<noteq> None} \<subseteq> {c. resolveScope c \<noteq> None}"
proof -
  have "resolveScope c = None \<Longrightarrow> parseContractError c = None" for c
    by (auto simp: resolveScope_def parseContractError_def split: option.splits prod.splits)
  moreover have "parseContractError code = None \<longleftrightarrow> mapContractError code err = None"
    using parseContractError_known[of code] mapContractError_known[of code err] by blast
  ultimately show ?thesis by (metis (mono_tags, lifting) mem_Collect_eq subsetI)
qed

text \<open>
  The typed class does not follow the pair contract's own enumeration. The contract's
  \<open>ZeroAddress\<close> surfaces as insufficient liquidity, \<open>IdenticalTokens\<close> as a slippage error,
  \<open>InsufficientLiquidityMinted\<close> as an expired deadline, \<open>InsufficientInputAmount\<close> as a paused
  pool, and the contract's real \<open>Expired\<close> and \<open>InsufficientLiquidity\<close> as a validation error and
  a flash-loan error.
\<close>

theorem mapContractError_disagrees_with_contract:
  "mapContractError (pair_error_code ZeroAddress) err =
     Some (InsufficientLiquidityError (extractPairAddress err) (Some ''Zero address provided'')) \<and>
   mapContractError (pair_error_code IdenticalTokens) err =
     Some (SlippageError 0 0 0 (Some ''Identical tokens provided'')) \<and>
   mapContractError (pair_error_code InsufficientLiquidityMinted) err = Some (DeadlineError 0) \<and>
   mapContractError (pair_error_code InsufficientInputAmount) err =
     Some (CircuitBreakerError (extractPairAddress err)) \<and>
   mapContractError (pair_error_code Expired) err =
     Some (ValidationError ''Transaction expired (deadline exceeded)'') \<and>
   mapContractError (pair_error_code InsufficientLiquidity) err =
     Some (FlashLoanError ''Reentrancy detected'' None)"
  by (simp add: mapContractError_def Let_def parseContractError_def CONTRACT_ERROR_RANGES_def
      PAIR_ERROR_MAP_def or_str_def del: extractPairAddress.simps)

text \<open>Lower-casing distributes over a search, so an upper-case key leaves its lower-case trace.\<close>

lemma to_lower_append: "to_lower (s @ t) = to_lower s @ to_lower t"
  by (simp add: to_lower_def)

lemma includes_to_lower: "includes_str s k \<Longrightarrow> includes_str (to_lower s) (to_lower k)"
  by (force simp: includes_str_def sublist_def to_lower_append)

lemma includes_trans: "includes_str s t \<Longrightarrow> includes_str t k \<Longrightarrow> includes_str s k"
  unfolding includes_str_def by (rule sublist_order.order_trans)

lemma includes_failed: "includes_str m ''TX_FAILED'' \<Longrightarrow> includes_str (to_lower m) ''failed''"
proof -
  assume "includes_str m ''TX_FAILED''"
  then have "includes_str (to_lower m) (to_lower ''TX_FAILED'')"
    by (rule includes_to_lower)
  moreover have "includes_str (to_lower ''TX_FAILED'') ''failed''"
    by code_simp
  ultimately show ?thesis by (rule includes_trans)
qed

text \<open>
  The branch that maps \<open>TX_FAILED\<close> to \<open>TransactionError\<close> is never taken: any message that
  contains \<open>TX_FAILED\<close>, and is not about a flash loan, is answered by an earlier branch with a
  signer or a simulation error, because the earlier test for \<open>failed\<close> already matches it.
\<close>

theorem tx_failed_is_simulation_error:
  assumes "includes_str m ''TX_FAILED''" and "\<not> includes_str (to_lower m) ''flash loan''"
  shows "mapMessage (RawString m) = SignerError \<or> (\<exists>t. mapMessage (RawString m) = SimulationError t)"
  using assms(2) includes_failed[OF assms(1)] by (simp add: mapMessage_def Let_def)

theorem tx_failed_is_simulation_error_witness:
  "mapMessage (RawString ''TX_FAILED'') = SignerError \<or>
   (\<exists>t. mapMessage (RawString ''TX_FAILED'') = SimulationError t)"
proof -
  have "includes_str ''TX_FAILED'' ''TX_FAILED''" by code_simp
  moreover have "\<not> includes_str (to_lower ''TX_FAILED'') ''flash loan''" by code_simp
  ultimately show ?thesis by (rule tx_failed_is_simulation_error)
qed

subsection \<open>Reading a code back from a host error\<close>

lemma scan_hit: "m s = Some x \<Longrightarrow> scan_text m s = Some x"
  by (cases s) auto

lemma scan_prefix:
  "(\<And>i. i < length p \<Longrightarrow> m (drop i p @ s) = None) \<Longrightarrow> scan_text m (p @ s) = scan_text m s"
proof (induction p)
  case Nil
  then show ?case by simp
next
  case (Cons c p)
  have "m (c # p @ s) = None" using Cons.prems[of 0] by simp
  moreover have "scan_text m (p @ s) = scan_text m s"
  proof (rule Cons.IH)
    fix i
    assume "i < length p"
    then show "m (drop i p @ s) = None" using Cons.prems[of "Suc i"] by simp
  qed
  ultimately show ?case by simp
qed

lemma starts_ci_self: "starts_ci key (key @ s)"
  by (simp add: starts_ci_def)

lemma takeWhile_digits: "takeWhile is_digit (nat_str n @ '')'' @ s) = nat_str n"
proof -
  have "\<not> is_digit (CHR '')'')" by code_simp
  then show ?thesis using nat_str_digits[of n] by (simp add: takeWhile_append2)
qed

lemma contract_code_at_hit:
  "contract_code_at (''Error(Contract, #'' @ nat_str n @ '')'' @ s) = Some (int n)"
proof -
  have a: "starts_ci ''Error(Contract,'' (''Error(Contract, #'' @ nat_str n @ '')'' @ s)"
    using starts_ci_self[of "''Error(Contract,''" "'' #'' @ nat_str n @ '')'' @ s"] by simp
  have b: "dropWhile is_space ('' #'' @ nat_str n @ '')'' @ s) = ''#'' @ nat_str n @ '')'' @ s"
    by (simp add: is_space_def of_char_def)
  show ?thesis
    using a b takeWhile_digits[of n s]
    by (simp add: contract_code_at_def Let_def decimal_simps)
qed

lemma starts_ci_append: "length key \<le> length a \<Longrightarrow> starts_ci key (a @ s) = starts_ci key a"
  by (simp add: starts_ci_def)

lemma host_prefix_scan:
  "\<forall>i \<in> set [0..<11]. \<not> starts_ci ''Error(Contract,'' (drop i ''HostError: '' @ ''Error(Contract, #'')"
  by code_simp

lemma host_prefix_misses:
  assumes "i < 11"
  shows "contract_code_at (drop i ''HostError: '' @ ''Error(Contract, #'' @ s) = None"
proof -
  have "\<not> starts_ci ''Error(Contract,'' (drop i ''HostError: '' @ ''Error(Contract, #'')"
    using host_prefix_scan assms by auto
  then have "\<not> starts_ci ''Error(Contract,'' ((drop i ''HostError: '' @ ''Error(Contract, #'') @ s)"
    by (subst starts_ci_append) auto
  then show ?thesis by (simp add: contract_code_at_def)
qed

text \<open>
  A contract failure reported by the host in its documented form
  \<open>HostError: Error(Contract, #n)\<close> yields exactly the code \<open>n\<close>, whatever follows.
\<close>

theorem extractErrorCode_host:
  "extractErrorCode (RawString (''HostError: '' @ ''Error(Contract, #'' @ nat_str n @ '')'' @ s)) =
   Some (int n)"
proof -
  let ?t = "''Error(Contract, #'' @ nat_str n @ '')'' @ s"
  have "scan_text contract_code_at (''HostError: '' @ ?t) = scan_text contract_code_at ?t"
    by (rule scan_prefix) (use host_prefix_misses in simp)
  also have "\<dots> = Some (int n)" by (rule scan_hit) (rule contract_code_at_hit)
  finally show ?thesis by (simp add: extractErrorCode_def del: scan_text.simps)
qed

end
