(* ===== verification/JsNum.thy ===== *)
theory JsNum
  imports SdkErrors
begin

text \<open>
  The number operations the components share: \<open>bigint\<close> division and remainder with the
  \<open>RangeError\<close> of a zero divisor, the constants of \<open>src/config.ts\<close> and
  \<open>src/utils/scale-constants.ts\<close>, and the contract of an integer square root.
\<close>

section \<open>BigInt operations that can throw\<close>

definition bigint_div :: "int \<Rightarrow> int \<Rightarrow> int result" where
  "bigint_div a b = (if b = 0 then Inl (RangeError ''Division by zero'') else Inr (a sdiv b))"

lemma bigint_div_nz [simp]: "b \<noteq> 0 \<Longrightarrow> bigint_div a b = Inr (a sdiv b)"
  by (simp add: bigint_div_def)

lemma bigint_div_0 [simp]: "bigint_div a 0 = Inl (RangeError ''Division by zero'')"
  by (simp add: bigint_div_def)

lemma bigint_div_nonneg [bigint_simps]:
  "0 \<le> a \<Longrightarrow> 0 < b \<Longrightarrow> bigint_div a b = Inr (a div b)"
  by (simp add: sdiv_nonneg)

lemma bigint_div_eq_Inr [result_simps]: "bigint_div a b = Inr q \<longleftrightarrow> b \<noteq> 0 \<and> q = a sdiv b"
  by (auto simp: bigint_div_def)

section \<open>Constants\<close>

definition PRICE_SCALE :: int where "PRICE_SCALE = 10 ^ 14"
definition BPS_DENOMINATOR :: int where "BPS_DENOMINATOR = 10000"
definition MIN_LIQUIDITY :: int where "MIN_LIQUIDITY = 1000"

definition DEFAULT_slippageBps :: int where "DEFAULT_slippageBps = 50"
definition DEFAULT_deadlineSec :: int where "DEFAULT_deadlineSec = 1200"
definition DEFAULT_maxRetryDelayMs :: int where "DEFAULT_maxRetryDelayMs = 30000"

lemmas constant_defs = PRICE_SCALE_def BPS_DENOMINATOR_def MIN_LIQUIDITY_def
  DEFAULT_slippageBps_def DEFAULT_deadlineSec_def DEFAULT_maxRetryDelayMs_def

section \<open>The contract of an integer square root\<close>

lemma square_le_imp_le: "a * a \<le> b * b \<Longrightarrow> 0 \<le> b \<Longrightarrow> a \<le> b" for a b :: int
  by (metis abs_le_square_iff abs_of_nonneg abs_ge_self order_trans power2_eq_square)

text \<open>
  Both copies of the routine (the pair mathematics and the liquidity module) are meant to
  return the floor of the square root and to reject a negative argument. A client needs no
  more than that.
\<close>

locale integer_root =
  fixes root :: "int \<Rightarrow> int result"
  assumes root_neg: "v < 0 \<Longrightarrow> \<exists>e. root v = Inl e"
    and root_floor: "0 \<le> v \<Longrightarrow> \<exists>r. root v = Inr r \<and> 0 \<le> r \<and> r * r \<le> v \<and> v < (r + 1) * (r + 1)"
begin

lemma root_unique:
  assumes "root v = Inr r" and "0 \<le> s" and "s * s \<le> v" and "v < (s + 1) * (s + 1)"
  shows "r = s"
proof -
  have "0 \<le> v" using assms(2,3) by (meson mult_nonneg_nonneg order_trans)
  then have r: "0 \<le> r" "r * r \<le> v" "v < (r + 1) * (r + 1)"
    using root_floor assms(1) by fastforce+
  have "r < s + 1"
  proof (rule ccontr)
    assume "\<not> r < s + 1"
    then have "(s + 1) * (s + 1) \<le> r * r" using assms(2) by (intro mult_mono) auto
    then show False using assms(4) r(2) by linarith
  qed
  moreover have "s < r + 1"
  proof (rule ccontr)
    assume "\<not> s < r + 1"
    then have "(r + 1) * (r + 1) \<le> s * s" using r(1) by (intro mult_mono) auto
    then show False using assms(3) r(3) by linarith
  qed
  ultimately show ?thesis by linarith
qed

lemma root_square: "0 \<le> a \<Longrightarrow> root (a * a) = Inr a"
proof -
  assume a: "0 \<le> a"
  then obtain r where r: "root (a * a) = Inr r" using root_floor[of "a * a"] by auto
  have "a * a < (a + 1) * (a + 1)" using a by (simp add: algebra_simps)
  then show ?thesis using root_unique[OF r a] r by simp
qed

lemma root_mono: "root v = Inr r \<Longrightarrow> root w = Inr s \<Longrightarrow> 0 \<le> v \<Longrightarrow> v \<le> w \<Longrightarrow> r \<le> s"
proof -
  assume a: "root v = Inr r" "root w = Inr s" "0 \<le> v" "v \<le> w"
  then have "r * r \<le> v" "w < (s + 1) * (s + 1)" "0 \<le> s"
    using root_floor[of v] root_floor[of w] by fastforce+
  with a have "r * r < (s + 1) * (s + 1)" by linarith
  then have "r \<le> s + 1" "r \<noteq> s + 1" using \<open>0 \<le> s\<close> square_le_imp_le[of r "s + 1"] by auto
  then show "r \<le> s" by linarith
qed

end

section \<open>The contract of a constant-product exchange\<close>

text \<open>
  The pair mathematics and the swap module each carry the two formulas: the output for an
  exact input, the input for an exact output, at a fee in basis points. What the clients
  (quotes, hop chains, routes) rely on follows from the formulas alone.
\<close>

definition cp_out :: "int \<Rightarrow> int \<Rightarrow> int \<Rightarrow> int \<Rightarrow> int" where
  "cp_out a ri ro f = (a * (10000 - f) * ro) div (ri * 10000 + a * (10000 - f))"

definition cp_in :: "int \<Rightarrow> int \<Rightarrow> int \<Rightarrow> int \<Rightarrow> int" where
  "cp_in b ri ro f = (ri * b * 10000) div ((ro - b) * (10000 - f)) + 1"

lemma cp_out_nonneg: "0 \<le> a \<Longrightarrow> 0 < ri \<Longrightarrow> 0 \<le> ro \<Longrightarrow> f \<le> 10000 \<Longrightarrow> 0 \<le> cp_out a ri ro f"
  unfolding cp_out_def by (rule div_int_pos_iff[THEN iffD2]) simp

lemma cp_den_pos: "0 \<le> a \<Longrightarrow> 0 < ri \<Longrightarrow> f \<le> 10000 \<Longrightarrow> 0 < ri * 10000 + a * (10000 - f)" for a ri f :: int
  by (simp add: add_pos_nonneg)

lemma cp_out_less:
  assumes "0 \<le> a" "0 < ri" "0 < ro" "f \<le> 10000"
  shows "cp_out a ri ro f < ro"
proof -
  have "a * (10000 - f) * ro < ro * (ri * 10000 + a * (10000 - f))"
    using assms by (simp add: algebra_simps)
  then show ?thesis
    unfolding cp_out_def using div_less_iff_int[OF cp_den_pos[OF assms(1,2,4)]] by simp
qed

text \<open>The defining inequality: a quoted output never exceeds what the invariant allows.\<close>

lemma cp_out_le_iff:
  assumes "0 \<le> a" "0 < ri" "f \<le> 10000"
  shows "b \<le> cp_out a ri ro f \<longleftrightarrow> b * ri * 10000 \<le> a * (10000 - f) * (ro - b)"
proof -
  have "b \<le> cp_out a ri ro f \<longleftrightarrow> b * (ri * 10000 + a * (10000 - f)) \<le> a * (10000 - f) * ro"
    unfolding cp_out_def by (rule div_le_iff_int[OF cp_den_pos[OF assms]])
  then show ?thesis by (simp add: algebra_simps)
qed

lemma cp_out_k:
  assumes "0 \<le> a" "0 < ri" "0 < ro" "0 \<le> f" "f \<le> 10000"
  shows "ri * ro \<le> (ri + a) * (ro - cp_out a ri ro f)"
proof -
  let ?b = "cp_out a ri ro f"
  have "?b * ri * 10000 \<le> a * (10000 - f) * (ro - ?b)"
    using cp_out_le_iff[OF assms(1,2,5)] by blast
  also have "\<dots> \<le> a * 10000 * (ro - ?b)"
    using assms cp_out_less[OF assms(1,2,3,5)] by (intro mult_right_mono mult_left_mono) auto
  finally have "?b * ri \<le> a * (ro - ?b)" by simp
  then show ?thesis by (simp add: algebra_simps)
qed

lemma cp_out_mono:
  assumes "0 \<le> a" "a \<le> a'" "0 < ri" "0 < ro" "f \<le> 10000"
  shows "cp_out a ri ro f \<le> cp_out a' ri ro f"
proof -
  let ?b = "cp_out a ri ro f"
  have "?b * ri * 10000 \<le> a * (10000 - f) * (ro - ?b)"
    using cp_out_le_iff[OF assms(1,3,5)] by blast
  also have "\<dots> \<le> a' * (10000 - f) * (ro - ?b)"
    using assms cp_out_less[OF assms(1,3,4,5)] by (intro mult_right_mono) auto
  finally show ?thesis using cp_out_le_iff[of a' ri f ?b ro] assms by linarith
qed

lemma cp_in_spec:
  assumes "0 < b" "b < ro" "0 < ri" "f < 10000"
  shows "0 < cp_in b ri ro f"
    and "b \<le> cp_out (cp_in b ri ro f) ri ro f"
    and "0 \<le> a \<Longrightarrow> b \<le> cp_out a ri ro f \<Longrightarrow> cp_in b ri ro f \<le> a + 1"
proof -
  let ?d = "(ro - b) * (10000 - f)"
  have d: "0 < ?d" using assms by simp
  have n: "0 \<le> ri * b * 10000" using assms by simp
  have "0 \<le> ri * b * 10000 div ?d" using n d by (simp add: pos_imp_zdiv_nonneg_iff)
  then show pos: "0 < cp_in b ri ro f" unfolding cp_in_def by linarith
  have "ri * b * 10000 \<le> cp_in b ri ro f * ?d"
    unfolding cp_in_def using lt_div_mult_int[OF d, of "ri * b * 10000"] by linarith
  then have "b * ri * 10000 \<le> cp_in b ri ro f * (10000 - f) * (ro - b)"
    by (simp add: algebra_simps)
  then show "b \<le> cp_out (cp_in b ri ro f) ri ro f"
    using cp_out_le_iff[of "cp_in b ri ro f" ri f b ro] pos assms by simp
  assume a: "0 \<le> a" and "b \<le> cp_out a ri ro f"
  then have "b * ri * 10000 \<le> a * (10000 - f) * (ro - b)"
    using cp_out_le_iff[of a ri f b ro] assms by simp
  then have "ri * b * 10000 \<le> a * ?d" by (simp add: algebra_simps)
  then have "ri * b * 10000 div ?d \<le> a * ?d div ?d" using d by (intro zdiv_mono1) auto
  also have "\<dots> = a" using d by (metis less_irrefl nonzero_mult_div_cancel_right)
  finally show "cp_in b ri ro f \<le> a + 1" unfolding cp_in_def by linarith
qed

locale cp_exchange =
  fixes out_amount in_amount :: "int \<Rightarrow> int \<Rightarrow> int \<Rightarrow> int \<Rightarrow> int result"
  assumes out_quote: "0 < a \<Longrightarrow> 0 < ri \<Longrightarrow> 0 < ro \<Longrightarrow> f \<le> 10000 \<Longrightarrow>
      out_amount a ri ro f = Inr (cp_out a ri ro f)"
    and out_guard: "a \<le> 0 \<or> ri \<le> 0 \<or> ro \<le> 0 \<Longrightarrow> \<exists>e. out_amount a ri ro f = Inl e"
    and in_quote: "0 < b \<Longrightarrow> b < ro \<Longrightarrow> 0 < ri \<Longrightarrow> f < 10000 \<Longrightarrow>
      in_amount b ri ro f = Inr (cp_in b ri ro f)"
    and in_guard: "b \<le> 0 \<or> ri \<le> 0 \<or> ro \<le> b \<Longrightarrow> \<exists>e. in_amount b ri ro f = Inl e"
begin

lemma out_inputs: "out_amount a ri ro f = Inr b \<Longrightarrow> 0 < a \<and> 0 < ri \<and> 0 < ro"
  using out_guard[of a ri ro f] by (metis not_le_imp_less sum.distinct(1))

lemma in_inputs: "in_amount b ri ro f = Inr a \<Longrightarrow> 0 < b \<and> b < ro \<and> 0 < ri"
  using in_guard[of b ri ro f] by (metis not_le_imp_less sum.distinct(1))

lemma out_value: "out_amount a ri ro f = Inr b \<Longrightarrow> f \<le> 10000 \<Longrightarrow> b = cp_out a ri ro f"
  using out_inputs[of a ri ro f b] out_quote[of a ri ro f] by simp

lemma in_value: "in_amount b ri ro f = Inr a \<Longrightarrow> f < 10000 \<Longrightarrow> a = cp_in b ri ro f"
  using in_inputs[of b ri ro f a] in_quote[of b ro ri f] by simp

lemma out_range: "out_amount a ri ro f = Inr b \<Longrightarrow> f \<le> 10000 \<Longrightarrow> 0 \<le> b \<and> b < ro"
  using out_inputs[of a ri ro f b] out_value[of a ri ro f b] cp_out_nonneg[of a ri ro f]
    cp_out_less[of a ri ro f] by simp

lemma out_keeps_k:
  "out_amount a ri ro f = Inr b \<Longrightarrow> 0 \<le> f \<Longrightarrow> f \<le> 10000 \<Longrightarrow> ri * ro \<le> (ri + a) * (ro - b)"
  using out_inputs[of a ri ro f b] out_value[of a ri ro f b] cp_out_k[of a ri ro f] by simp

lemma in_suffices:
  assumes "in_amount b ri ro f = Inr a" and "f < 10000"
  shows "\<exists>c. out_amount a ri ro f = Inr c \<and> b \<le> c"
  using in_inputs[OF assms(1)] in_value[OF assms] cp_in_spec(1,2)[of b ro ri f]
    out_quote[of a ri ro f] assms(2) by auto

lemma in_minimal:
  assumes "in_amount b ri ro f = Inr a" and "f < 10000"
    and "out_amount a' ri ro f = Inr c" and "b \<le> c"
  shows "a \<le> a' + 1"
  using in_inputs[OF assms(1)] in_value[OF assms(1,2)] out_inputs[OF assms(3)]
    out_value[OF assms(3)] cp_in_spec(3)[of b ro ri f a'] assms(2,4) by auto

end

end
