(* ===== verification/PairMath.thy ===== *)
theory PairMath
  imports JsNum
begin

text \<open>
  \<open>src/utils/pair-math.ts\<close>: the integer square root, minting and burning of LP shares, and
  the two swap formulas. The integer variables of the square-root loop are never negative
  (the function rejects a negative argument first), so the loop runs over \<open>nat\<close>; its
  divisor is shown to be positive whenever it divides.
\<close>

section \<open>Integer square root\<close>

function sqrt_loop :: "nat \<Rightarrow> nat \<Rightarrow> nat \<Rightarrow> nat" where
  "sqrt_loop value x y = (if y < x then sqrt_loop value y ((y + value div y) div 2) else x)"
  by pat_completeness auto
termination
  by (relation "measure (\<lambda>(value, x, y). x)") auto

declare sqrt_loop.simps [simp del]

definition sqrt :: "int \<Rightarrow> int result" where
  "sqrt value =
    (if value < 0 then Inl (ValidationError ''Square root of negative number'')
     else if value = 0 then Inr 0
     else Inr (int (sqrt_loop (nat value) (nat value) ((nat value + 1) div 2))))"

text \<open>Newton's step from any positive guess stays above the root.\<close>

lemma newton_step_above:
  fixes v x :: nat
  assumes "0 < x"
  shows "v < ((x + v div x) div 2 + 1) * ((x + v div x) div 2 + 1)"
proof -
  let ?q = "v div x" and ?y = "(x + v div x) div 2"
  have v: "v < x * (?q + 1)"
    using assms by (metis add.commute dividend_less_times_div mult_Suc_right Suc_eq_plus1)
  have "m + 1 \<le> 2 * (m div 2 + 1)" for m :: nat by presburger
  then have y: "x + ?q + 1 \<le> 2 * (?y + 1)" .
  have "4 * (int x * (int ?q + 1)) \<le> (int x + (int ?q + 1)) * (int x + (int ?q + 1))"
  proof -
    have "0 \<le> (int x - (int ?q + 1)) * (int x - (int ?q + 1))" by simp
    then show ?thesis by (simp add: algebra_simps)
  qed
  moreover have "int ((x + ?q + 1) * (x + ?q + 1)) = (int x + (int ?q + 1)) * (int x + (int ?q + 1))"
    by (simp add: algebra_simps)
  moreover have "int (4 * (x * (?q + 1))) = 4 * (int x * (int ?q + 1))"
    by (simp add: algebra_simps)
  ultimately have "4 * (x * (?q + 1)) \<le> (x + ?q + 1) * (x + ?q + 1)" by linarith
  also have "\<dots> \<le> (2 * (?y + 1)) * (2 * (?y + 1))" using y by (intro mult_le_mono)
  finally have "x * (?q + 1) \<le> (?y + 1) * (?y + 1)" by simp
  with v show ?thesis by linarith
qed

lemma newton_fixed:
  fixes v x :: nat
  assumes "0 < x" and "x \<le> (x + v div x) div 2"
  shows "x * x \<le> v"
proof -
  have "x \<le> v div x" using assms(2) by linarith
  then have "x * x \<le> v div x * x" by (rule mult_le_mono1)
  also have "\<dots> \<le> v" by simp
  finally show ?thesis .
qed

lemma newton_pos:
  fixes v x :: nat
  assumes "0 < x" and "0 < v"
  shows "0 < (x + v div x) div 2"
proof (cases "x = 1")
  case True
  with assms(2) show ?thesis by simp
next
  case False
  with assms(1) have "2 \<le> x + v div x" by linarith
  then show ?thesis by simp
qed

lemma sqrt_loop_floor:
  assumes "0 < v" "0 < x" "y = (x + v div x) div 2" "v < (x + 1) * (x + 1)"
  shows "sqrt_loop v x y * sqrt_loop v x y \<le> v \<and> v < (sqrt_loop v x y + 1) * (sqrt_loop v x y + 1)"
  using assms
proof (induction v x y rule: sqrt_loop.induct)
  case (1 v x y)
  show ?case
  proof (cases "y < x")
    case True
    have "0 < y" using newton_pos[OF 1(3,2)] 1(4) by simp
    moreover have "v < (y + 1) * (y + 1)" using newton_step_above[OF 1(3), of v] 1(4) by simp
    ultimately show ?thesis using 1(1)[OF True 1(2)] True by (simp add: sqrt_loop.simps[of v x y])
  next
    case False
    then have "x * x \<le> v" using newton_fixed[OF 1(3)] 1(4) by simp
    with False 1(5) show ?thesis by (simp add: sqrt_loop.simps[of v x y])
  qed
qed

text \<open>The loop divides by the new \<open>x\<close>, which the invariant keeps positive.\<close>

lemma sqrt_loop_divisor: "0 < v \<Longrightarrow> 0 < x \<Longrightarrow> y = (x + v div x) div 2 \<Longrightarrow> y < x \<Longrightarrow> y \<noteq> 0" for v x y :: nat
  using newton_pos[of x v] by simp

lemma sqrt_start: "0 < v \<Longrightarrow> (v + 1) div 2 = (v + v div v) div 2" for v :: nat
  by simp

lemma sqrt_floor:
  assumes nn: "0 \<le> v"
  shows "\<exists>r. sqrt v = Inr r \<and> 0 \<le> r \<and> r * r \<le> v \<and> v < (r + 1) * (r + 1)"
proof (cases "v = 0")
  case True
  then show ?thesis by (simp add: sqrt_def)
next
  case False
  with nn have v: "0 < nat v" by simp
  let ?r = "sqrt_loop (nat v) (nat v) ((nat v + 1) div 2)"
  have "?r * ?r \<le> nat v \<and> nat v < (?r + 1) * (?r + 1)"
    by (rule sqrt_loop_floor[OF v v]) (use v in auto)
  then have "int (?r * ?r) \<le> v \<and> v < int ((?r + 1) * (?r + 1))"
    using v by linarith
  moreover have "sqrt v = Inr (int ?r)" using False nn by (auto simp: sqrt_def)
  ultimately show ?thesis by (simp add: algebra_simps)
qed

interpretation pair_sqrt: integer_root sqrt
  by unfold_locales (simp add: sqrt_def, rule sqrt_floor)

text \<open>
  C26: The Babylonian square root terminates on every bigint: it throws exactly on a negative
  value and otherwise returns the floor of the square root.
\<close>

theorem sqrt_correct:
  "(sqrt v = Inl (ValidationError ''Square root of negative number'') \<and> v < 0) \<or>
   (\<exists>r. sqrt v = Inr r \<and> 0 \<le> r \<and> r * r \<le> v \<and> v < (r + 1) * (r + 1))"
  using sqrt_floor[of v] by (cases "v < 0") (auto simp: sqrt_def)

section \<open>Swap formulas\<close>

definition getAmountOut :: "int \<Rightarrow> int \<Rightarrow> int \<Rightarrow> int \<Rightarrow> int result" where
  "getAmountOut amountIn reserveIn reserveOut feeBps =
    (if amountIn \<le> 0 then Inl (ValidationError ''Insufficient input amount'')
     else if reserveIn \<le> 0 \<or> reserveOut \<le> 0 then Inl (InsufficientLiquidityError ''pair'' None)
     else let amountInWithFee = amountIn * (10000 - feeBps)
          in bigint_div (amountInWithFee * reserveOut) (reserveIn * 10000 + amountInWithFee))"

definition getAmountIn :: "int \<Rightarrow> int \<Rightarrow> int \<Rightarrow> int \<Rightarrow> int result" where
  "getAmountIn amountOut reserveIn reserveOut feeBps =
    (if amountOut \<le> 0 then Inl (ValidationError ''Insufficient output amount'')
     else if reserveIn \<le> 0 \<or> reserveOut \<le> 0 then Inl (InsufficientLiquidityError ''pair'' None)
     else if reserveOut \<le> amountOut then Inl (InsufficientLiquidityError ''pair'' None)
     else bindE (bigint_div (reserveIn * amountOut * 10000) ((reserveOut - amountOut) * (10000 - feeBps)))
            (\<lambda>q. Inr (q + 1)))"

interpretation pair_exchange: cp_exchange getAmountOut getAmountIn
proof unfold_locales
  fix a ri ro f :: int
  assume "0 < a" "0 < ri" "0 < ro" "f \<le> 10000"
  then show "getAmountOut a ri ro f = Inr (cp_out a ri ro f)"
    using cp_den_pos[of a ri f]
    by (simp add: getAmountOut_def Let_def cp_out_def bigint_simps)
next
  fix b ri ro f :: int
  assume "0 < b" "b < ro" "0 < ri" "f < 10000"
  then show "getAmountIn b ri ro f = Inr (cp_in b ri ro f)"
    by (simp add: getAmountIn_def cp_in_def bigint_simps)
qed (auto simp: getAmountOut_def getAmountIn_def)

text \<open>
  C4: A quoted output at a legal fee is non-negative, strictly below the output reserve, and
  never lowers the product of the reserves.
\<close>

theorem getAmountOut_safe:
  assumes "getAmountOut amountIn reserveIn reserveOut feeBps = Inr out"
    and "0 \<le> feeBps" and "feeBps \<le> 10000"
  shows "0 \<le> out \<and> out < reserveOut \<and>
    reserveIn * reserveOut \<le> (reserveIn + amountIn) * (reserveOut - out)"
  using pair_exchange.out_range[OF assms(1,3)] pair_exchange.out_keeps_k[OF assms] by simp

theorem getAmountOut_safe_witness:
  "getAmountOut 1000 100000 50000 30 = Inr 493 \<and> (0::int) \<le> 493 \<and> (493::int) < 50000 \<and>
   (100000 * 50000 :: int) \<le> (100000 + 1000) * (50000 - 493)"
proof -
  have q: "getAmountOut 1000 100000 50000 30 = Inr 493"
    by (simp add: getAmountOut_def Let_def bigint_simps)
  show ?thesis using q getAmountOut_safe[OF q] by simp
qed

text \<open>
  C24: The exact-out quote is right and tight: paying the quoted input buys at least the
  requested output, and any input that buys it is at most one unit cheaper.
\<close>

theorem getAmountIn_sufficient_and_tight:
  assumes "getAmountIn b reserveIn reserveOut feeBps = Inr a" and "feeBps < 10000"
  shows "(\<exists>c. getAmountOut a reserveIn reserveOut feeBps = Inr c \<and> b \<le> c) \<and>
    (\<forall>a' c. getAmountOut a' reserveIn reserveOut feeBps = Inr c \<longrightarrow> b \<le> c \<longrightarrow> a \<le> a' + 1)"
  using pair_exchange.in_suffices[OF assms] pair_exchange.in_minimal[OF assms] by blast

theorem getAmountIn_sufficient_and_tight_witness:
  "getAmountIn 493 100000 50000 30 = Inr 999 \<and>
   (\<exists>c. getAmountOut 999 100000 50000 30 = Inr c \<and> (493::int) \<le> c)"
proof -
  have q: "getAmountIn 493 100000 50000 30 = Inr 999"
    by (simp add: getAmountIn_def bigint_simps)
  show ?thesis using q getAmountIn_sufficient_and_tight[OF q] by simp
qed

text \<open>
  At a fee of 100 per cent the exact-out quote does not return a typed SDK error: the
  divisor vanishes and the call throws the language's own \<open>RangeError\<close>.
\<close>

theorem getAmountIn_full_fee_range_error:
  assumes "0 < b" and "b < reserveOut" and "0 < reserveIn"
  shows "getAmountIn b reserveIn reserveOut 10000 = Inl (RangeError ''Division by zero'')"
  using assms by (simp add: getAmountIn_def)

theorem getAmountIn_full_fee_range_error_witness:
  "getAmountIn 5 100 100 10000 = Inl (RangeError ''Division by zero'')"
  by (rule getAmountIn_full_fee_range_error) simp_all

section \<open>Minting and burning LP shares\<close>

definition computeMint :: "int \<Rightarrow> int \<Rightarrow> int \<Rightarrow> int \<Rightarrow> int \<Rightarrow> int result" where
  "computeMint amountA amountB reserveA reserveB totalSupply =
    (if totalSupply = 0
     then bindE (sqrt (amountA * amountB)) (\<lambda>r.
            let liquidity = r - MIN_LIQUIDITY
            in if liquidity \<le> 0 then Inl (InsufficientLiquidityError ''pair'' None) else Inr liquidity)
     else bindE (bigint_div (amountA * totalSupply) reserveA) (\<lambda>liqA.
          bindE (bigint_div (amountB * totalSupply) reserveB) (\<lambda>liqB.
            Inr (if liqA < liqB then liqA else liqB))))"

definition computeBurn :: "int \<Rightarrow> int \<Rightarrow> int \<Rightarrow> int \<Rightarrow> (int \<times> int) result" where
  "computeBurn liquidity reserveA reserveB totalSupply =
    bindE (bigint_div (liquidity * reserveA) totalSupply) (\<lambda>amountA.
    bindE (bigint_div (liquidity * reserveB) totalSupply) (\<lambda>amountB. Inr (amountA, amountB)))"

lemma computeMint_existing:
  assumes "0 < totalSupply" "0 < reserveA" "0 < reserveB" "0 \<le> amountA" "0 \<le> amountB"
  shows "computeMint amountA amountB reserveA reserveB totalSupply =
    Inr (min (amountA * totalSupply div reserveA) (amountB * totalSupply div reserveB))"
  using assms by (simp add: computeMint_def bigint_simps min_def)

lemma computeBurn_pos:
  assumes "0 < totalSupply" "0 \<le> reserveA" "0 \<le> reserveB" "0 \<le> liquidity"
  shows "computeBurn liquidity reserveA reserveB totalSupply =
    Inr (liquidity * reserveA div totalSupply, liquidity * reserveB div totalSupply)"
  using assms by (simp add: computeBurn_def bigint_simps)

text \<open>One side of the round trip: shares bought with \<open>a\<close> never redeem for more than \<open>a\<close>.\<close>

lemma mint_burn_side:
  fixes a t r l :: int
  assumes "0 < t" "0 < r" "0 \<le> a" "0 \<le> l" "l \<le> a * t div r"
  shows "l * (r + a) div (t + l) \<le> a"
proof -
  have "l * r \<le> a * t div r * r" using assms by (intro mult_right_mono) auto
  also have "\<dots> \<le> a * t" using assms(2) by (rule div_mult_le_int)
  finally have "l * (r + a) \<le> a * (t + l)" by (simp add: algebra_simps)
  then have "l * (r + a) div (t + l) \<le> a * (t + l) div (t + l)"
    using assms by (intro zdiv_mono1) auto
  also have "\<dots> = a" using assms by simp
  finally show ?thesis .
qed

text \<open>
  C22: A deposit into an existing pool followed by an immediate withdrawal of the minted
  shares never returns more of either token than was deposited.
\<close>

theorem mint_then_burn_no_profit:
  assumes "computeMint amountA amountB reserveA reserveB totalSupply = Inr liquidity"
    and "0 < totalSupply" "0 < reserveA" "0 < reserveB" "0 \<le> amountA" "0 \<le> amountB"
  shows "\<exists>outA outB. computeBurn liquidity (reserveA + amountA) (reserveB + amountB)
      (totalSupply + liquidity) = Inr (outA, outB) \<and> outA \<le> amountA \<and> outB \<le> amountB"
proof -
  let ?lA = "amountA * totalSupply div reserveA" and ?lB = "amountB * totalSupply div reserveB"
  have l: "liquidity = min ?lA ?lB" using assms computeMint_existing by simp
  have nn: "0 \<le> ?lA" "0 \<le> ?lB" using assms by (simp_all add: pos_imp_zdiv_nonneg_iff)
  with l have liq: "0 \<le> liquidity" "liquidity \<le> ?lA" "liquidity \<le> ?lB" by simp_all
  have "computeBurn liquidity (reserveA + amountA) (reserveB + amountB) (totalSupply + liquidity) =
      Inr (liquidity * (reserveA + amountA) div (totalSupply + liquidity),
           liquidity * (reserveB + amountB) div (totalSupply + liquidity))"
    by (rule computeBurn_pos) (use assms liq in auto)
  moreover have "liquidity * (reserveA + amountA) div (totalSupply + liquidity) \<le> amountA"
    by (rule mint_burn_side) (use assms liq in auto)
  moreover have "liquidity * (reserveB + amountB) div (totalSupply + liquidity) \<le> amountB"
    by (rule mint_burn_side) (use assms liq in auto)
  ultimately show ?thesis by simp
qed

theorem mint_then_burn_no_profit_witness:
  "\<exists>outA outB. computeBurn 70 (1000 + 101) (2000 + 203) (700 + 70) = Inr (outA, outB) \<and>
     outA \<le> 101 \<and> outB \<le> 203"
proof -
  have m: "computeMint 101 203 1000 2000 700 = Inr 70"
    by (simp add: computeMint_def bigint_simps)
  show ?thesis by (rule mint_then_burn_no_profit[OF m]) simp_all
qed

text \<open>
  The first deposit mints the geometric mean of the amounts less the locked minimum, and
  is rejected exactly when that is not positive: a symmetric deposit of \<open>a\<close> units mints
  \<open>a - 1000\<close> shares, and 1000 units or fewer are refused.
\<close>

theorem initial_mint_symmetric:
  assumes "0 \<le> a"
  shows "computeMint a a reserveA reserveB 0 =
    (if a \<le> 1000 then Inl (InsufficientLiquidityError ''pair'' None) else Inr (a - 1000))"
  using pair_sqrt.root_square[OF assms] by (simp add: computeMint_def Let_def MIN_LIQUIDITY_def)

theorem initial_mint_symmetric_witness: "computeMint 5000 5000 0 0 0 = Inr 4000"
  using initial_mint_symmetric[of 5000 0 0] by simp

end
