(* ===== verification/Amounts.thy ===== *)
theory Amounts
  imports JsNum
begin

text \<open>
  \<open>src/utils/amounts.ts\<close>: decimal parsing and printing of token amounts, basis-point
  arithmetic, the checked i128 operations and the abbreviating formatter. Decimals counts
  that the source validates are integers; those it takes as given are naturals. A \<open>number\<close>
  obtained from a bigint quotient is the exact quotient.
\<close>

section \<open>Parsing\<close>

text \<open>\<open>/^\d+(\.\d+)?$/\<close> and the two parts of \<open>split(".")\<close>.\<close>

definition whole_part :: "string \<Rightarrow> string" where
  "whole_part s = takeWhile is_digit s"

definition frac_part :: "string \<Rightarrow> string" where
  "frac_part s = drop 1 (dropWhile is_digit s)"

definition decimal_format :: "string \<Rightarrow> bool" where
  "decimal_format s \<longleftrightarrow> whole_part s \<noteq> [] \<and>
     (dropWhile is_digit s = [] \<or>
      (take 1 (dropWhile is_digit s) = ''.'' \<and> frac_part s \<noteq> [] \<and> list_all is_digit (frac_part s)))"

definition parseDecimalString :: "string \<Rightarrow> int \<Rightarrow> int result" where
  "parseDecimalString amount decimals =
    (if decimals < 0 then Inl (JsError ''Invalid decimals'')
     else let trimmed = trim amount in
       if trimmed = '''' then Inl (JsError ''Amount is required'')
       else let isNegative = (take 1 trimmed = ''-''); isPositive = (take 1 trimmed = ''+'');
                sign = (if isNegative then - 1 else 1 :: int);
                numeric = (if isNegative \<or> isPositive then drop 1 trimmed else trimmed)
         in if \<not> decimal_format numeric then Inl (JsError ''Invalid amount format'')
            else let whole = whole_part numeric; frac = frac_part numeric;
                     frac' = (if nat decimals < length frac then take (nat decimals) frac
                              else pad_end (nat decimals) frac)
              in Inr (sign * int (parse_nat (whole @ frac'))))"

definition toSorobanAmount :: "string \<Rightarrow> int \<Rightarrow> int result" where
  "toSorobanAmount amount decimals = parseDecimalString amount decimals"

definition parseTokenAmount :: "string \<Rightarrow> int \<Rightarrow> int result" where
  "parseTokenAmount amount decimals = parseDecimalString amount decimals"

section \<open>Printing\<close>

definition fromSorobanAmount :: "int \<Rightarrow> nat \<Rightarrow> string" where
  "fromSorobanAmount amount decimals =
    (let isNegative = amount < 0;
         str = pad_start (decimals + 1) (nat_str (nat \<bar>amount\<bar>));
         whole = take (length str - decimals) str; frac = drop (length str - decimals) str;
         r = (if decimals = 0 then whole else whole @ ''.'' @ frac)
     in if isNegative then ''-'' @ r else r)"

text \<open>\<open>raw.split(".")\<close>: what is before the first dot, and what follows it up to the next.\<close>

definition before_dot :: "string \<Rightarrow> string" where
  "before_dot s = takeWhile (\<lambda>c. c \<noteq> CHR ''.'') s"

definition after_dot :: "string \<Rightarrow> string" where
  "after_dot s = before_dot (drop 1 (dropWhile (\<lambda>c. c \<noteq> CHR ''.'') s))"

definition formatAmount :: "int \<Rightarrow> nat \<Rightarrow> nat \<Rightarrow> string" where
  "formatAmount amount decimals displayDecimals =
    (let raw = fromSorobanAmount amount decimals
     in before_dot raw @ ''.'' @ take displayDecimals (after_dot raw))"

section \<open>Round trip\<close>

lemma whole_part_append: "list_all is_digit w \<Longrightarrow> \<not> is_digit c \<Longrightarrow> whole_part (w @ c # r) = w"
  by (simp add: whole_part_def list_all_iff takeWhile_append2)

lemma frac_part_append: "list_all is_digit w \<Longrightarrow> \<not> is_digit c \<Longrightarrow> frac_part (w @ c # r) = r"
  by (simp add: frac_part_def list_all_iff dropWhile_append2)

lemma whole_part_all: "list_all is_digit w \<Longrightarrow> whole_part w = w"
  by (simp add: whole_part_def list_all_iff takeWhile_eq_all_conv)

lemma frac_part_all: "list_all is_digit w \<Longrightarrow> frac_part w = []"
  by (simp add: frac_part_def list_all_iff dropWhile_eq_Nil_conv[THEN iffD2])

lemma dropWhile_digits_all: "list_all is_digit w \<Longrightarrow> dropWhile is_digit w = []"
  by (simp add: list_all_iff dropWhile_eq_Nil_conv)

lemma dropWhile_digits_dot:
  "list_all is_digit w \<Longrightarrow> dropWhile is_digit (w @ CHR ''.'' # r) = CHR ''.'' # r"
  by (simp add: list_all_iff decimal_simps dropWhile_append2)

text \<open>A printed amount is a sign, a non-empty run of digits and, with decimals, a dot and digits.\<close>

definition unsigned_str :: "string \<Rightarrow> string \<Rightarrow> string" where
  "unsigned_str w f = (if f = [] then w else w @ ''.'' @ f)"

lemma unsigned_str_format:
  "list_all is_digit w \<Longrightarrow> list_all is_digit f \<Longrightarrow> w \<noteq> [] \<Longrightarrow>
   decimal_format (unsigned_str w f) \<and> whole_part (unsigned_str w f) = w \<and>
   frac_part (unsigned_str w f) = f"
  by (simp add: unsigned_str_def decimal_format_def whole_part_append frac_part_append
      whole_part_all frac_part_all dropWhile_digits_all dropWhile_digits_dot decimal_simps
      flip: list_all_iff)

lemma unsigned_str_hd:
  "list_all is_digit w \<Longrightarrow> w \<noteq> [] \<Longrightarrow> \<exists>c r. unsigned_str w f = c # r \<and> is_digit c"
  by (cases w) (auto simp: unsigned_str_def)

lemma unsigned_str_no_space:
  "list_all is_digit w \<Longrightarrow> list_all is_digit f \<Longrightarrow> \<forall>c \<in> set (unsigned_str w f). \<not> is_space c"
  by (auto simp: unsigned_str_def list_all_iff decimal_simps digit_not_space)

lemma parse_unsigned:
  assumes "list_all is_digit w" "list_all is_digit f" "w \<noteq> []" "length f \<le> k"
  shows "parseDecimalString (unsigned_str w f) (int k) =
      Inr (int (parse_nat (w @ f) * 10 ^ (k - length f)))"
    and "parseDecimalString (''-'' @ unsigned_str w f) (int k) =
      Inr (- int (parse_nat (w @ f) * 10 ^ (k - length f)))"
proof -
  let ?u = "unsigned_str w f"
  have fmt: "decimal_format ?u" "whole_part ?u = w" "frac_part ?u = f"
    using unsigned_str_format assms(1-3) by auto
  have t: "trim ?u = ?u" "trim (''-'' @ ?u) = ''-'' @ ?u"
    using unsigned_str_no_space[OF assms(1,2)] by (auto intro!: trim_id simp: decimal_simps)
  obtain c r where c: "?u = c # r" "is_digit c" using unsigned_str_hd[OF assms(1,3)] by blast
  then have nc: "c \<noteq> CHR ''-''" "c \<noteq> CHR ''+''" by (auto simp: decimal_simps)
  have p: "parse_nat (w @ pad_end k f) = parse_nat (w @ f) * 10 ^ (k - length f)"
    using parse_nat_pad_end[of "k" "f"] assms(4)
    by (simp add: parse_nat_append algebra_simps flip: power_add)
  show "parseDecimalString ?u (int k) = Inr (int (parse_nat (w @ f) * 10 ^ (k - length f)))"
    using fmt t c nc p assms(4) by (simp add: parseDecimalString_def Let_def)
  show "parseDecimalString (''-'' @ ?u) (int k) =
      Inr (- int (parse_nat (w @ f) * 10 ^ (k - length f)))"
    using fmt t p assms(4) by (simp add: parseDecimalString_def Let_def)
qed

lemma fromSoroban_unsigned:
  "\<exists>w f. fromSorobanAmount a k = (if a < 0 then ''-'' @ unsigned_str w f else unsigned_str w f) \<and>
     list_all is_digit w \<and> list_all is_digit f \<and> w \<noteq> [] \<and> length f = k \<and>
     parse_nat (w @ f) = nat \<bar>a\<bar>"
proof -
  obtain s where s: "s = pad_start (k + 1) (nat_str (nat \<bar>a\<bar>))" "k < length s"
    by simp
  let ?w = "take (length s - k) s" and ?f = "drop (length s - k) s"
  have d: "\<forall>c \<in> set s. is_digit c" unfolding s by (rule pad_start_digits[OF nat_str_digits])
  have "list_all is_digit ?w" "list_all is_digit ?f"
    using d by (auto simp: list_all_iff dest: in_set_takeD in_set_dropD)
  moreover have "?w \<noteq> []" "length ?f = k" "k = 0 \<longleftrightarrow> ?f = []" using s(2) by auto
  moreover have "parse_nat (?w @ ?f) = nat \<bar>a\<bar>" by (simp add: s(1) decimal_simps)
  moreover have "fromSorobanAmount a k = (if a < 0 then ''-'' @ unsigned_str ?w ?f else unsigned_str ?w ?f)"
    unfolding fromSorobanAmount_def Let_def s(1)[symmetric] unsigned_str_def \<open>k = 0 \<longleftrightarrow> ?f = []\<close>
    by (rule refl)
  ultimately show ?thesis by blast
qed

lemma print_parse: "parseDecimalString (fromSorobanAmount a k) (int k) = Inr a"
proof -
  obtain w f where r: "fromSorobanAmount a k = (if a < 0 then ''-'' @ unsigned_str w f else unsigned_str w f)"
    and d: "list_all is_digit w" "list_all is_digit f" "w \<noteq> []" "length f = k"
    and p: "parse_nat (w @ f) = nat \<bar>a\<bar>"
    using fromSoroban_unsigned by blast
  show ?thesis using parse_unsigned[OF d(1-3), of k] d(4) p r by (cases "a < 0") simp_all
qed

text \<open>
  C25: Printing and parsing are inverse at every decimals count: the string
  \<open>fromSorobanAmount\<close> prints for any bigint, negative and zero-decimal ones included, is read
  back by \<open>parseTokenAmount\<close> and by \<open>toSorobanAmount\<close> as the same bigint.
\<close>

theorem parse_fromSoroban:
  "parseTokenAmount (fromSorobanAmount a k) (int k) = Inr a \<and>
   toSorobanAmount (fromSorobanAmount a k) (int k) = Inr a"
  by (simp add: parseTokenAmount_def toSorobanAmount_def print_parse)

text \<open>
  \<open>formatAmount\<close> of a token without decimals leaves a dangling dot, which the parser of
  the same module rejects.
\<close>

theorem formatAmount_zero_decimals:
  "formatAmount a 0 d = fromSorobanAmount a 0 @ ''.'' \<and>
   parseTokenAmount (formatAmount 123 0 4) 0 = Inl (JsError ''Invalid amount format'')"
proof -
  obtain w f where r: "fromSorobanAmount a 0 = (if a < 0 then ''-'' @ unsigned_str w f else unsigned_str w f)"
    and d: "list_all is_digit w" "length f = 0"
    using fromSoroban_unsigned[of a 0] by blast
  have nd: "\<forall>c \<in> set (fromSorobanAmount a 0). c \<noteq> CHR ''.''"
    using r d by (auto simp: unsigned_str_def list_all_iff decimal_simps)
  then have "dropWhile (\<lambda>c. c \<noteq> CHR ''.'') (fromSorobanAmount a 0) = []"
    by (simp add: dropWhile_eq_Nil_conv)
  then have "after_dot (fromSorobanAmount a 0) = ''''"
    unfolding after_dot_def before_dot_def by (simp only: drop_Nil takeWhile.simps)
  moreover from nd have "before_dot (fromSorobanAmount a 0) = fromSorobanAmount a 0"
    by (simp add: before_dot_def takeWhile_eq_all_conv)
  ultimately have "formatAmount a 0 d = fromSorobanAmount a 0 @ ''.''" by (simp add: formatAmount_def)
  moreover have "parseTokenAmount (formatAmount 123 0 4) 0 = Inl (JsError ''Invalid amount format'')"
    by code_simp
  ultimately show ?thesis by simp
qed

section \<open>Basis points\<close>

definition toBps :: "int \<Rightarrow> int \<Rightarrow> int" where
  "toBps numerator denominator =
    (if denominator = 0 then 0 else (numerator * BPS_DENOMINATOR) sdiv denominator)"

definition applyBps :: "int \<Rightarrow> int \<Rightarrow> int" where
  "applyBps amount bps = (amount * bps) sdiv BPS_DENOMINATOR"

definition getSlippageTolerance :: "int \<Rightarrow> int \<Rightarrow> bool \<Rightarrow> int result" where
  "getSlippageTolerance amount slippageBips isInput =
    (if slippageBips < 0 \<or> BPS_DENOMINATOR < slippageBips
     then Inl (JsError ''Slippage bips must be between 0 and 10000'')
     else let bps = BPS_DENOMINATOR;
              multiplier = (if isInput then bps + slippageBips else bps - slippageBips)
          in Inr ((amount * multiplier) sdiv bps))"

definition percentDiff :: "int \<Rightarrow> int \<Rightarrow> rat" where
  "percentDiff a b = (if b = 0 then 0 else rat_of_int (((a - b) * 10000) sdiv b) / 100)"

lemma applyBps_range: "0 \<le> a \<Longrightarrow> 0 \<le> s \<Longrightarrow> s \<le> 10000 \<Longrightarrow> 0 \<le> applyBps a s \<and> applyBps a s \<le> a"
proof -
  assume a: "0 \<le> a" "0 \<le> s" "s \<le> 10000"
  then have "a * s div 10000 \<le> a * 10000 div 10000" by (intro zdiv_mono1 mult_left_mono) auto
  with a show ?thesis by (simp add: applyBps_def BPS_DENOMINATOR_def bigint_simps pos_imp_zdiv_nonneg_iff)
qed

text \<open>
  The two slippage bounds bracket a non-negative amount: the minimum output is between
  zero and the amount, the maximum input between the amount and twice it, and each misses the
  exact proportion by less than one unit; outside [0, 10000] the call throws.
\<close>

theorem slippage_brackets:
  assumes "0 \<le> amount"
  shows "(0 \<le> s \<and> s \<le> 10000 \<longrightarrow>
      (\<exists>lo hi. getSlippageTolerance amount s False = Inr lo \<and> getSlippageTolerance amount s True = Inr hi \<and>
         0 \<le> lo \<and> lo \<le> amount \<and> amount \<le> hi \<and> hi \<le> 2 * amount \<and>
         lo * 10000 \<le> amount * (10000 - s) \<and> amount * (10000 - s) < (lo + 1) * 10000 \<and>
         hi * 10000 \<le> amount * (10000 + s) \<and> amount * (10000 + s) < (hi + 1) * 10000)) \<and>
    (s < 0 \<or> 10000 < s \<longrightarrow> getSlippageTolerance amount s b =
       Inl (JsError ''Slippage bips must be between 0 and 10000''))"
proof -
  let ?l = "amount * (10000 - s) div 10000" and ?h = "amount * (10000 + s) div 10000"
  have main: "0 \<le> s \<Longrightarrow> s \<le> 10000 \<Longrightarrow>
      getSlippageTolerance amount s False = Inr ?l \<and> getSlippageTolerance amount s True = Inr ?h \<and>
      0 \<le> ?l \<and> ?l \<le> amount \<and> amount \<le> ?h \<and> ?h \<le> 2 * amount"
  proof -
    assume s: "0 \<le> s" "s \<le> 10000"
    have "amount * (10000 - s) \<le> amount * 10000" "amount * 10000 \<le> amount * (10000 + s)"
      "amount * (10000 + s) \<le> amount * 20000"
      using assms s by (intro mult_left_mono; simp)+
    then have "?l \<le> amount" "amount \<le> ?h" "?h \<le> 2 * amount" by linarith+
    with assms s show ?thesis
      by (simp add: getSlippageTolerance_def Let_def BPS_DENOMINATOR_def bigint_simps
          pos_imp_zdiv_nonneg_iff)
  qed
  have "x div 10000 * 10000 \<le> x \<and> x < (x div 10000 + 1) * 10000" for x :: int
    using div_mult_le_int[of 10000 x] lt_div_mult_int[of 10000 x] by simp
  with main show ?thesis by (auto simp: getSlippageTolerance_def BPS_DENOMINATOR_def)
qed

theorem slippage_brackets_witness:
  "\<exists>lo hi. getSlippageTolerance 12345 100 False = Inr lo \<and> getSlippageTolerance 12345 100 True = Inr hi \<and>
     0 \<le> lo \<and> lo \<le> 12345 \<and> 12345 \<le> hi"
  using slippage_brackets[of 12345 100] by auto

section \<open>Checked arithmetic\<close>

definition I128_MAX :: int where "I128_MAX = 2 ^ 127 - 1"

definition safeMul :: "int \<Rightarrow> int \<Rightarrow> int result" where
  "safeMul a b =
    (if a = 0 \<or> b = 0 then Inr 0
     else let i128Max = I128_MAX; i128Min = - i128Max; r = a * b
          in if i128Max < r \<or> r < i128Min
             then Inl (ValidationError (''Multiplication result '' @ int_str r @
                    '' exceeds the Soroban i128 range ['' @ int_str i128Min @ '', '' @ int_str i128Max @ '']''))
             else Inr r)"

definition safeDiv :: "int \<Rightarrow> int \<Rightarrow> int result" where
  "safeDiv a b = (if b = 0 then Inl (JsError ''Division by zero'') else Inr (a sdiv b))"

definition minBigInt :: "int \<Rightarrow> int \<Rightarrow> int" where
  "minBigInt a b = (if a < b then a else b)"

definition maxBigInt :: "int \<Rightarrow> int \<Rightarrow> int" where
  "maxBigInt a b = (if b < a then a else b)"

lemma minBigInt_min [simp]: "minBigInt a b = min a b" and maxBigInt_max [simp]: "maxBigInt a b = max a b"
  by (simp_all add: minBigInt_def maxBigInt_def min_def max_def)

text \<open>
  \<open>safeMul\<close> never returns a wrong product: it answers the exact product when that lies
  within \<open>2^127 - 1\<close> of zero and throws otherwise. The bound is symmetric, so the least i128
  value, \<open>-2^127\<close>, is refused although the type holds it.
\<close>

theorem safeMul_exact:
  "(safeMul a b = Inr (a * b) \<longleftrightarrow> \<bar>a * b\<bar> \<le> 2 ^ 127 - 1) \<and>
   ((\<exists>r. safeMul a b = Inr r) \<longleftrightarrow> \<bar>a * b\<bar> \<le> 2 ^ 127 - 1) \<and>
   (\<exists>e. safeMul (- (2 ^ 126)) 2 = Inl e)"
proof -
  have "safeMul a b = Inr (a * b) \<or> ((\<exists>e. safeMul a b = Inl e) \<and> 2 ^ 127 - 1 < \<bar>a * b\<bar>)"
    by (auto simp: safeMul_def Let_def I128_MAX_def)
  moreover have "safeMul a b = Inr (a * b) \<Longrightarrow> \<bar>a * b\<bar> \<le> 2 ^ 127 - 1"
    by (auto simp: safeMul_def Let_def I128_MAX_def split: if_splits)
  moreover have "\<exists>e. safeMul (- (2 ^ 126)) 2 = Inl e"
    by (simp add: safeMul_def Let_def I128_MAX_def)
  ultimately show ?thesis by force
qed

section \<open>Abbreviated numbers\<close>

definition LARGE_NUMBER_SUFFIXES :: "(int \<times> string \<times> int) list" where
  "LARGE_NUMBER_SUFFIXES =
    [(1000000000000, ''T'', 1000000000000), (1000000000, ''B'', 1000000000),
     (1000000, ''M'', 1000000), (1000, ''K'', 1000)]"

definition formatLargeNumber :: "int \<Rightarrow> int \<Rightarrow> string result" where
  "formatLargeNumber value precision =
    (if precision < 0 then Inl (JsError ''Precision must be a non-negative integer'')
     else let abs = \<bar>value\<bar>; sign = (if value < 0 then ''-'' else '''')
       in case List.find (\<lambda>(threshold, _, _). threshold \<le> abs) LARGE_NUMBER_SUFFIXES of
            None \<Rightarrow> Inr (sign @ int_str abs)
          | Some (_, sfx, divisor) \<Rightarrow>
              (let pm = 10 ^ nat precision; scaled = (abs * pm) sdiv divisor;
                   wholePart = scaled sdiv pm; fracPart = scaled smod pm
               in if precision = 0 then Inr (sign @ int_str wholePart @ sfx)
                  else Inr (sign @ int_str wholePart @ ''.'' @
                         pad_start (nat precision) (int_str fracPart) @ sfx)))"

end
