(* ===== verification/Fractions.thy ===== *)
theory Fractions
  imports Amounts
begin

text \<open>
  The \<open>Fraction\<close> and \<open>Percent\<close> classes of \<open>src/utils/math.ts\<close>. The constructor rejects a
  denominator that is not positive, so the value of a constructed fraction is the rational
  \<open>frac_val\<close>; the arithmetic is a homomorphism into the rationals, and the two printers are
  modelled digit by digit with their three rounding modes.
\<close>

section \<open>Rounding modes\<close>

datatype rounding = ROUND_DOWN | ROUND_HALF_UP | ROUND_UP

text \<open>The enumeration is numeric in TypeScript; its order is the order of the numbers.\<close>

fun rounding_index :: "rounding \<Rightarrow> nat" where
  "rounding_index ROUND_DOWN = 0"
| "rounding_index ROUND_HALF_UP = 1"
| "rounding_index ROUND_UP = 2"

lemma rounding_index_inj: "rounding_index r = rounding_index s \<Longrightarrow> r = s"
  by (cases r; cases s) auto

instantiation rounding :: linorder
begin

definition less_eq_rounding :: "rounding \<Rightarrow> rounding \<Rightarrow> bool" where
  "less_eq_rounding r s \<longleftrightarrow> rounding_index r \<le> rounding_index s"

definition less_rounding :: "rounding \<Rightarrow> rounding \<Rightarrow> bool" where
  "less_rounding r s \<longleftrightarrow> rounding_index r < rounding_index s"

instance
  by standard (auto simp: less_eq_rounding_def less_rounding_def dest: rounding_index_inj)

end

lemmas rounding_order = less_eq_rounding_def less_rounding_def

section \<open>Construction and arithmetic\<close>

record fraction =
  numerator :: int
  denominator :: int

definition mk_fraction :: "int \<Rightarrow> int \<Rightarrow> fraction result" where
  "mk_fraction n d =
    (if d \<le> 0 then Inl (JsError ''Fraction denominator must be > 0'')
     else Inr \<lparr>numerator = n, denominator = d\<rparr>)"

definition quotient :: "fraction \<Rightarrow> int result" where
  "quotient f = bigint_div (numerator f) (denominator f)"

definition frac_remainder :: "fraction \<Rightarrow> fraction result" where
  "frac_remainder f = mk_fraction (numerator f smod denominator f) (denominator f)"

definition invert :: "fraction \<Rightarrow> fraction result" where
  "invert f = (if numerator f < 0 then mk_fraction (- denominator f) (- numerator f)
               else mk_fraction (denominator f) (numerator f))"

definition frac_add :: "fraction \<Rightarrow> fraction \<Rightarrow> fraction result" where
  "frac_add f g =
    (if denominator f = denominator g then mk_fraction (numerator f + numerator g) (denominator f)
     else mk_fraction (numerator f * denominator g + numerator g * denominator f)
            (denominator f * denominator g))"

definition frac_sub :: "fraction \<Rightarrow> fraction \<Rightarrow> fraction result" where
  "frac_sub f g =
    (if denominator f = denominator g then mk_fraction (numerator f - numerator g) (denominator f)
     else mk_fraction (numerator f * denominator g - numerator g * denominator f)
            (denominator f * denominator g))"

definition multiply :: "fraction \<Rightarrow> fraction \<Rightarrow> fraction result" where
  "multiply f g = mk_fraction (numerator f * numerator g) (denominator f * denominator g)"

definition divide_frac :: "fraction \<Rightarrow> fraction \<Rightarrow> fraction result" where
  "divide_frac f g =
    (let newNumerator = numerator f * denominator g; newDenominator = denominator f * numerator g
     in if newDenominator < 0 then mk_fraction (- newNumerator) (- newDenominator)
        else mk_fraction newNumerator newDenominator)"

section \<open>The value of a fraction\<close>

definition wf_frac :: "fraction \<Rightarrow> bool" where
  "wf_frac f \<longleftrightarrow> 0 < denominator f"

definition frac_val :: "fraction \<Rightarrow> rat" where
  "frac_val f = of_int (numerator f) / of_int (denominator f)"

lemma mk_fraction_pos: "0 < d \<Longrightarrow> \<exists>f. mk_fraction n d = Inr f \<and> wf_frac f \<and> frac_val f = of_int n / of_int d"
  by (simp add: mk_fraction_def wf_frac_def frac_val_def)

lemma mk_fraction_wf: "mk_fraction n d = Inr f \<Longrightarrow> wf_frac f"
  by (auto simp: mk_fraction_def wf_frac_def split: if_splits)

text \<open>An operation that implements a partial operation on rationals: what each method promises.\<close>

definition implements :: "fraction result \<Rightarrow> rat \<Rightarrow> bool" where
  "implements r q \<longleftrightarrow> (\<exists>f. r = Inr f \<and> wf_frac f \<and> frac_val f = q)"

lemma implements_mk: "0 < d \<Longrightarrow> q = of_int n / of_int d \<Longrightarrow> implements (mk_fraction n d) q"
  using mk_fraction_pos[of d n] by (simp add: implements_def)

lemma frac_add_val:
  assumes "wf_frac f" "wf_frac g"
  shows "implements (frac_add f g) (frac_val f + frac_val g)"
  using assms unfolding frac_add_def wf_frac_def
  by (auto intro!: implements_mk simp: frac_val_def field_simps)

lemma frac_sub_val:
  assumes "wf_frac f" "wf_frac g"
  shows "implements (frac_sub f g) (frac_val f - frac_val g)"
  using assms unfolding frac_sub_def wf_frac_def
  by (auto intro!: implements_mk simp: frac_val_def field_simps)

lemma multiply_val:
  assumes "wf_frac f" "wf_frac g"
  shows "implements (multiply f g) (frac_val f * frac_val g)"
  using assms unfolding multiply_def wf_frac_def
  by (intro implements_mk) (simp_all add: frac_val_def)

lemma divide_val:
  assumes "wf_frac f" "wf_frac g" "numerator g \<noteq> 0"
  shows "implements (divide_frac f g) (frac_val f / frac_val g)"
proof -
  have d: "denominator f * numerator g < 0 \<or> 0 < denominator f * numerator g"
    using assms by (auto simp: wf_frac_def mult_less_0_iff zero_less_mult_iff)
  then show ?thesis
    using assms unfolding divide_frac_def Let_def wf_frac_def
    by (auto intro!: implements_mk simp: frac_val_def field_simps)
qed

lemma invert_val:
  assumes "wf_frac f" "numerator f \<noteq> 0"
  shows "implements (invert f) (1 / frac_val f)"
  using assms unfolding invert_def wf_frac_def
  by (auto intro!: implements_mk simp: frac_val_def field_simps)

text \<open>
  C27: \<open>Fraction\<close> arithmetic is exact: on well-formed operands addition, subtraction,
  multiplication, division and inversion return a well-formed fraction whose value is the
  rational result, and dividing by (or inverting) zero throws.
\<close>

theorem fraction_arithmetic_exact:
  assumes "wf_frac f" and "wf_frac g"
  shows "implements (frac_add f g) (frac_val f + frac_val g) \<and>
    implements (frac_sub f g) (frac_val f - frac_val g) \<and>
    implements (multiply f g) (frac_val f * frac_val g) \<and>
    (if numerator g = 0 then (\<exists>e. divide_frac f g = Inl e) \<and> (\<exists>e. invert g = Inl e)
     else implements (divide_frac f g) (frac_val f / frac_val g) \<and>
          implements (invert g) (1 / frac_val g))"
  using frac_add_val[OF assms] frac_sub_val[OF assms] multiply_val[OF assms] divide_val[OF assms]
    invert_val[OF assms(2)]
  by (simp add: divide_frac_def invert_def mk_fraction_def Let_def)

theorem fraction_arithmetic_exact_witness:
  "implements (frac_add \<lparr>numerator = 1, denominator = 2\<rparr> \<lparr>numerator = -1, denominator = 3\<rparr>)
     (frac_val \<lparr>numerator = 1, denominator = 2\<rparr> + frac_val \<lparr>numerator = -1, denominator = 3\<rparr>)"
proof -
  have "wf_frac \<lparr>numerator = 1, denominator = 2\<rparr>" "wf_frac \<lparr>numerator = -1, denominator = 3\<rparr>"
    by (simp_all add: wf_frac_def)
  then show ?thesis using fraction_arithmetic_exact by blast
qed

text \<open>
  The \<open>quotient\<close> accessor truncates towards zero. It is the floor the comment promises
  exactly when the fraction is non-negative or integral; a negative proper fraction yields one
  more than the floor.
\<close>

theorem quotient_truncates:
  assumes "wf_frac f"
  shows "quotient f = Inr (\<lfloor>frac_val f\<rfloor> + (if 0 \<le> numerator f \<or> denominator f dvd numerator f then 0 else 1))"
proof -
  have d: "0 < denominator f" using assms by (simp add: wf_frac_def)
  have fl: "\<lfloor>frac_val f\<rfloor> = numerator f div denominator f"
    by (simp add: frac_val_def floor_divide_of_int_eq)
  have "numerator f sdiv denominator f =
      numerator f div denominator f + of_bool (denominator f \<noteq> 0 \<and>
        sgn (numerator f) \<noteq> sgn (denominator f) \<and> \<not> denominator f dvd numerator f)"
    by (simp add: signed_divide_int_eq_divide_int)
  with d fl show ?thesis by (auto simp: quotient_def sgn_if)
qed

theorem quotient_truncates_witness:
  "quotient \<lparr>numerator = -1, denominator = 2\<rparr> = Inr (\<lfloor>frac_val \<lparr>numerator = -1, denominator = 2\<rparr>\<rfloor> + 1)"
proof -
  have "wf_frac \<lparr>numerator = -1, denominator = 2\<rparr>" by (simp add: wf_frac_def)
  from quotient_truncates[OF this] show ?thesis by simp
qed

section \<open>Division with a rounding mode\<close>

text \<open>The divisor is the denominator, or the denominator times a power of ten: never zero.\<close>

definition divideWithRounding :: "int \<Rightarrow> int \<Rightarrow> rounding \<Rightarrow> int" where
  "divideWithRounding n d r =
    (let q = n sdiv d; rm = n smod d in
     if rm = 0 then q
     else let increment = (case r of ROUND_DOWN \<Rightarrow> 0
                           | ROUND_UP \<Rightarrow> if 0 < \<bar>rm\<bar> then 1 else 0
                           | ROUND_HALF_UP \<Rightarrow> if \<bar>d\<bar> \<le> \<bar>rm\<bar> * 2 then 1 else (0 :: int));
              isPositive = (0 \<le> n) = (0 \<le> d)
          in if isPositive then (\<bar>n\<bar> sdiv \<bar>d\<bar>) + increment
             else - ((\<bar>n\<bar> sdiv \<bar>d\<bar>) + increment))"

text \<open>The magnitude: floor of the quotient of the absolute values, plus the increment.\<close>

definition round_mag :: "int \<Rightarrow> int \<Rightarrow> rounding \<Rightarrow> int" where
  "round_mag a d r = a div d + (if a mod d = 0 then 0 else
     case r of ROUND_DOWN \<Rightarrow> 0 | ROUND_UP \<Rightarrow> 1 | ROUND_HALF_UP \<Rightarrow> if d \<le> a mod d * 2 then 1 else 0)"

lemma divideWithRounding_mag:
  assumes "0 < d"
  shows "divideWithRounding n d r = (if n < 0 then - round_mag \<bar>n\<bar> d r else round_mag \<bar>n\<bar> d r)"
proof -
  have sd: "n sdiv d = sgn n * (\<bar>n\<bar> div d)" and sm: "n smod d = sgn n * (\<bar>n\<bar> mod d)"
    using assms by (simp_all add: signed_divide_int_def signed_modulo_int_def)
  have p: "0 \<le> \<bar>n\<bar> mod d" using assms by simp
  show ?thesis
  proof (cases "\<bar>n\<bar> mod d = 0")
    case True
    then have "round_mag \<bar>n\<bar> d r = \<bar>n\<bar> div d" by (simp add: round_mag_def)
    with True sm sd show ?thesis
      by (cases "n < 0"; cases "n = 0") (simp_all add: divideWithRounding_def Let_def sgn_if)
  next
    case False
    then have "n \<noteq> 0" by auto
    then have rm: "\<bar>n smod d\<bar> = \<bar>n\<bar> mod d" "n smod d \<noteq> 0"
      using sm p False by (simp_all add: abs_mult sgn_if)
    have pos: "0 < \<bar>n\<bar> mod d" using p False by linarith
    have q: "\<bar>n\<bar> sdiv \<bar>d\<bar> = \<bar>n\<bar> div d" using assms by (simp add: sdiv_nonneg)
    obtain a where a: "\<bar>n\<bar> = a" by blast
    show ?thesis
      unfolding divideWithRounding_def Let_def round_mag_def q rm(1)
      using rm(2) assms False pos unfolding a by (cases r) simp_all
  qed
qed

lemma round_mag_nonneg: "0 \<le> a \<Longrightarrow> 0 < d \<Longrightarrow> 0 \<le> round_mag a d r"
  by (cases r) (auto simp: round_mag_def pos_imp_zdiv_nonneg_iff intro: add_nonneg_nonneg)

text \<open>The error of each mode, against the exact quotient of the magnitudes.\<close>

lemma round_mag_error:
  assumes "0 < d"
  shows "round_mag a d ROUND_DOWN * d \<le> a \<and> a < (round_mag a d ROUND_DOWN + 1) * d"
    and "a \<le> round_mag a d ROUND_UP * d \<and> (round_mag a d ROUND_UP - 1) * d < a"
    and "2 * \<bar>round_mag a d ROUND_HALF_UP * d - a\<bar> \<le> d"
    and "2 * (a - round_mag a d ROUND_HALF_UP * d) < d"
proof -
  have e: "d * (a div d) = a - a mod d" by (simp add: minus_mod_eq_mult_div)
  have m: "0 \<le> a mod d" "a mod d < d" using assms by auto
  show "round_mag a d ROUND_DOWN * d \<le> a \<and> a < (round_mag a d ROUND_DOWN + 1) * d"
    using div_mult_le_int[OF assms, of a] lt_div_mult_int[OF assms, of a] by (simp add: round_mag_def)
  have up: "round_mag a d ROUND_UP * d = d * (a div d) + (if a mod d = 0 then 0 else d)"
    by (simp add: round_mag_def algebra_simps)
  have half: "round_mag a d ROUND_HALF_UP * d = d * (a div d) + (if d \<le> a mod d * 2 then d else 0)"
    using assms by (auto simp: round_mag_def algebra_simps)
  have "a mod d = 0 \<or> 0 < a mod d" using m by linarith
  then show "a \<le> round_mag a d ROUND_UP * d \<and> (round_mag a d ROUND_UP - 1) * d < a"
    unfolding left_diff_distrib up e using m assms by (elim disjE) (simp_all del: pos_mod_bound)
  show "2 * \<bar>round_mag a d ROUND_HALF_UP * d - a\<bar> \<le> d"
  proof (cases "d \<le> a mod d * 2")
    case True
    then have eq: "round_mag a d ROUND_HALF_UP * d - a = d - a mod d" unfolding half e by simp
    have "\<bar>d - a mod d\<bar> = d - a mod d" using m by linarith
    moreover have "2 * (d - a mod d) \<le> d" using True by simp
    ultimately show ?thesis unfolding eq by simp
  next
    case False
    then have eq: "round_mag a d ROUND_HALF_UP * d - a = - (a mod d)" unfolding half e by simp
    have "\<bar>- (a mod d)\<bar> = a mod d" using m by linarith
    moreover have "2 * (a mod d) \<le> d" using False by simp
    ultimately show ?thesis unfolding eq by simp
  qed
  have "a - round_mag a d ROUND_HALF_UP * d = a mod d - d \<or>
      a - round_mag a d ROUND_HALF_UP * d = a mod d \<and> a mod d * 2 < d"
    unfolding half e by simp
  moreover have "t = u - d \<or> t = u \<and> u * 2 < d \<Longrightarrow> u < d \<Longrightarrow> 2 * t < d" for t u :: int
    using assms by auto
  ultimately show "2 * (a - round_mag a d ROUND_HALF_UP * d) < d" using m(2) by blast
qed

section \<open>Printing with a fixed number of decimals\<close>

text \<open>\<open>while (str.length <= decimalPlaces) str = '0' + str\<close> pads to one digit more.\<close>

definition toFixed :: "fraction \<Rightarrow> int \<Rightarrow> rounding \<Rightarrow> string result" where
  "toFixed f decimalPlaces r =
    (if decimalPlaces < 0
     then Inl (JsError (int_str decimalPlaces @ '' is not a valid decimal places.''))
     else let scale = 10 ^ nat decimalPlaces;
              q = divideWithRounding (numerator f * scale) (denominator f) r;
              isNegative = q < 0;
              str = pad_start (nat decimalPlaces + 1) (nat_str (nat \<bar>q\<bar>));
              decimalPos = length str - nat decimalPlaces;
              intPart = take decimalPos str; fracPart = drop decimalPos str;
              res = (if 0 < decimalPlaces then intPart @ ''.'' @ fracPart else intPart)
          in Inr (if isNegative then ''-'' @ res else res))"

lemma toFixed_is_print:
  "0 \<le> k \<Longrightarrow> toFixed f k r =
    Inr (fromSorobanAmount (divideWithRounding (numerator f * 10 ^ nat k) (denominator f) r) (nat k))"
  by (cases "k = 0") (simp_all add: toFixed_def fromSorobanAmount_def Let_def)

text \<open>
  C23: \<open>toFixed\<close> prints the correctly rounded value: read back with the token-amount parser at
  the same number of decimals, the string gives an integer \<open>q\<close> whose distance from the exact
  scaled value is at most a half with \<open>ROUND_HALF_UP\<close>, a tie going away from zero, and less
  than one, towards zero or away from it, in the other two modes.
\<close>

theorem toFixed_rounds:
  assumes "wf_frac f" and "0 \<le> k"
  shows "\<exists>s q. toFixed f k r = Inr s \<and> parseTokenAmount s k = Inr q \<and>
    (let e = rat_of_int q - frac_val f * 10 ^ nat k in
     case r of ROUND_HALF_UP \<Rightarrow> 2 * \<bar>e\<bar> \<le> 1 \<and>
         2 * (\<bar>frac_val f * 10 ^ nat k\<bar> - \<bar>rat_of_int q\<bar>) < 1
     | ROUND_DOWN \<Rightarrow> \<bar>rat_of_int q\<bar> \<le> \<bar>frac_val f * 10 ^ nat k\<bar> \<and> \<bar>e\<bar> < 1
     | ROUND_UP \<Rightarrow> \<bar>frac_val f * 10 ^ nat k\<bar> \<le> \<bar>rat_of_int q\<bar> \<and> \<bar>e\<bar> < 1)"
proof -
  let ?n = "numerator f * 10 ^ nat k" and ?d = "denominator f"
  let ?q = "divideWithRounding ?n ?d r" and ?m = "round_mag \<bar>?n\<bar> ?d r"
  have d: "0 < ?d" using assms(1) by (simp add: wf_frac_def)
  have val: "frac_val f * 10 ^ nat k = rat_of_int ?n / rat_of_int ?d" by (simp add: frac_val_def)
  have m0: "0 \<le> ?m" using round_mag_nonneg[OF _ d] by simp
  have eq: "rat_of_int ?q - rat_of_int ?n / rat_of_int ?d =
      (if ?n < 0 then - 1 else 1) * (rat_of_int (?m * ?d - \<bar>?n\<bar>) / rat_of_int ?d)"
  proof (cases "?n < 0")
    case True
    then have "rat_of_int \<bar>?n\<bar> = - rat_of_int ?n" by simp
    with True d show ?thesis
      unfolding divideWithRounding_mag[OF d] of_int_diff of_int_mult by (simp add: field_simps)
  next
    case False
    then have "rat_of_int \<bar>?n\<bar> = rat_of_int ?n" by simp
    with False d show ?thesis
      unfolding divideWithRounding_mag[OF d] of_int_diff of_int_mult by (simp add: field_simps)
  qed
  have ab: "\<bar>rat_of_int ?q - rat_of_int ?n / rat_of_int ?d\<bar> = rat_of_int \<bar>?m * ?d - \<bar>?n\<bar>\<bar> / rat_of_int ?d"
    unfolding eq using d by (simp add: abs_mult abs_divide)
  have qa: "\<bar>rat_of_int ?q\<bar> = rat_of_int ?m" using m0 by (simp add: divideWithRounding_mag[OF d])
  have va: "\<bar>rat_of_int ?n / rat_of_int ?d\<bar> = rat_of_int \<bar>?n\<bar> / rat_of_int ?d"
    using d by (simp add: abs_divide)
  have "case r of ROUND_HALF_UP \<Rightarrow> 2 * \<bar>?m * ?d - \<bar>?n\<bar>\<bar> \<le> ?d \<and> 2 * (\<bar>?n\<bar> - ?m * ?d) < ?d
     | ROUND_DOWN \<Rightarrow> ?m * ?d \<le> \<bar>?n\<bar> \<and> \<bar>?m * ?d - \<bar>?n\<bar>\<bar> < ?d
     | ROUND_UP \<Rightarrow> \<bar>?n\<bar> \<le> ?m * ?d \<and> \<bar>?m * ?d - \<bar>?n\<bar>\<bar> < ?d"
    using round_mag_error[OF d, of "\<bar>?n\<bar>"] by (cases r) (auto simp: algebra_simps)
  moreover have "2 * \<bar>x\<bar> \<le> y \<Longrightarrow> 2 * rat_of_int \<bar>x\<bar> \<le> rat_of_int y" for x y :: int
    using of_int_le_iff[of "2 * \<bar>x\<bar>" y, where ?'a = rat] by simp
  moreover have "2 * (x - y * z) < z \<Longrightarrow> 2 * (rat_of_int x - rat_of_int y * rat_of_int z) < rat_of_int z"
    for x y z :: int
    using of_int_less_iff[of "2 * (x - y * z)" z, where ?'a = rat] by simp
  moreover have "x * y \<le> z \<Longrightarrow> rat_of_int x * rat_of_int y \<le> rat_of_int z" for x y z :: int
    using of_int_le_iff[of "x * y" z, where ?'a = rat] by simp
  moreover have "z \<le> x * y \<Longrightarrow> rat_of_int z \<le> rat_of_int x * rat_of_int y" for x y z :: int
    using of_int_le_iff[of z "x * y", where ?'a = rat] by simp
  ultimately have fin0: "case r of ROUND_HALF_UP \<Rightarrow> 2 * rat_of_int \<bar>?m * ?d - \<bar>?n\<bar>\<bar> \<le> rat_of_int ?d \<and>
         2 * (rat_of_int \<bar>?n\<bar> - rat_of_int ?m * rat_of_int ?d) < rat_of_int ?d
     | ROUND_DOWN \<Rightarrow> rat_of_int ?m * rat_of_int ?d \<le> rat_of_int \<bar>?n\<bar> \<and>
         rat_of_int \<bar>?m * ?d - \<bar>?n\<bar>\<bar> < rat_of_int ?d
     | ROUND_UP \<Rightarrow> rat_of_int \<bar>?n\<bar> \<le> rat_of_int ?m * rat_of_int ?d \<and>
         rat_of_int \<bar>?m * ?d - \<bar>?n\<bar>\<bar> < rat_of_int ?d"
    by (cases r) (simp_all only: rounding.case of_int_less_iff)
  have tie: "2 * (x / y - m) < 1" if "2 * (x - m * y) < y" and "0 < y" for x y m :: rat
    using that by (simp add: field_simps)
  have half: "2 * (rat_of_int \<bar>?n\<bar> / rat_of_int ?d - rat_of_int ?m) < 1" if "r = ROUND_HALF_UP"
    using fin0 that d by (intro tie) simp_all
  have fin: "let e = rat_of_int ?q - frac_val f * 10 ^ nat k in
     case r of ROUND_HALF_UP \<Rightarrow> 2 * \<bar>e\<bar> \<le> 1 \<and>
         2 * (\<bar>frac_val f * 10 ^ nat k\<bar> - \<bar>rat_of_int ?q\<bar>) < 1
     | ROUND_DOWN \<Rightarrow> \<bar>rat_of_int ?q\<bar> \<le> \<bar>frac_val f * 10 ^ nat k\<bar> \<and> \<bar>e\<bar> < 1
     | ROUND_UP \<Rightarrow> \<bar>frac_val f * 10 ^ nat k\<bar> \<le> \<bar>rat_of_int ?q\<bar> \<and> \<bar>e\<bar> < 1"
    unfolding val Let_def ab qa va using d fin0 half
    by (cases r) (simp_all add: pos_divide_less_eq pos_divide_le_eq pos_le_divide_eq, linarith+)
  have "parseDecimalString (fromSorobanAmount ?q (nat k)) k = Inr ?q"
    using print_parse[of ?q "nat k"] assms(2) by simp
  with fin toFixed_is_print[OF assms(2)] show ?thesis by (auto simp: parseTokenAmount_def)
qed

text \<open>A tie: five halves without decimals.\<close>

theorem toFixed_rounds_witness:
  "\<exists>s q. toFixed \<lparr>numerator = - 5, denominator = 2\<rparr> 0 ROUND_HALF_UP = Inr s \<and>
     parseTokenAmount s 0 = Inr q \<and> \<bar>q\<bar> = 3"
proof -
  have "wf_frac \<lparr>numerator = - 5, denominator = 2\<rparr>" by (simp add: wf_frac_def)
  from toFixed_rounds[OF this, of 0 ROUND_HALF_UP] obtain s q where
    sq: "toFixed \<lparr>numerator = - 5, denominator = 2\<rparr> 0 ROUND_HALF_UP = Inr s" "parseTokenAmount s 0 = Inr q"
    and e: "2 * \<bar>rat_of_int q + 5 / 2\<bar> \<le> 1" "2 * (5 / 2 - \<bar>rat_of_int q\<bar>) < 1"
    by (auto simp: Let_def frac_val_def)
  have "2 < \<bar>rat_of_int q\<bar>" "\<bar>rat_of_int q\<bar> \<le> 3" using e by (simp_all add: abs_if split: if_splits)
  then have "2 < \<bar>q\<bar>" "\<bar>q\<bar> \<le> 3" by linarith+
  then show ?thesis using sq by (intro exI[of _ s] exI[of _ q]) simp
qed

section \<open>Printing significant digits\<close>

text \<open>
  \<open>while (n < d) \{ n *= 10; shift++ \}\<close>. The numerator is not zero here (zero is answered
  before), without which the loop would not end; the guard repeats it.
\<close>

function scale_up :: "nat \<Rightarrow> nat \<Rightarrow> int \<Rightarrow> nat \<times> int" where
  "scale_up n d shift = (if n \<noteq> 0 \<and> n < d then scale_up (n * 10) d (shift + 1) else (n, shift))"
  by pat_completeness auto
termination
  by (relation "measure (\<lambda>(n, d, shift). d - n)") auto

declare scale_up.simps [simp del]

definition js_take :: "int \<Rightarrow> string \<Rightarrow> string" where
  "js_take k s = take (nat (if k < 0 then int (length s) + k else k)) s"

definition js_drop :: "int \<Rightarrow> string \<Rightarrow> string" where
  "js_drop k s = drop (nat (if k < 0 then int (length s) + k else k)) s"

definition zeros :: "int \<Rightarrow> string" where
  "zeros k = replicate (nat k) (CHR ''0'')"

definition sig_below_one :: "string \<Rightarrow> nat \<Rightarrow> nat \<Rightarrow> int \<Rightarrow> rounding \<Rightarrow> string" where
  "sig_below_one sign n d significantDigits r =
    (let (n1, shift) = scale_up n d 0;
         power = significantDigits - 1;
         n2 = (if 0 < power then n1 * 10 ^ nat power else n1);
         str = int_str (divideWithRounding (int n2) (int d) r);
         longer = significantDigits < int (length str);
         shift' = (if longer then shift - 1 else shift);
         str' = (if longer then js_take significantDigits str else str)
     in if 0 < shift' then sign @ ''0.'' @ zeros (shift' - 1) @ str'
        else let total = shift' + significantDigits - 1; len = int (length str'); pos = len - total
          in if pos \<le> 0 then sign @ ''0.'' @ zeros (- pos) @ str'
             else if len \<le> pos then sign @ str' @ zeros (pos - len)
             else sign @ js_take pos str' @ ''.'' @ js_drop pos str')"

definition int_digits :: "nat \<Rightarrow> nat \<Rightarrow> int" where
  "int_digits n d =
    (let k = int (length (nat_str n)) - int (length (nat_str d)); scale = 10 ^ nat (max 0 k)
     in if n < d * scale then k else k + 1)"

definition sig_from_one :: "string \<Rightarrow> nat \<Rightarrow> nat \<Rightarrow> int \<Rightarrow> rounding \<Rightarrow> string" where
  "sig_from_one sign n d significantDigits r =
    (let intDigits = int_digits n d in
     if intDigits < significantDigits
     then let power = significantDigits - intDigits;
              str = int_str (divideWithRounding (int (n * 10 ^ nat power)) (int d) r);
              pos = int (length str) - power;
              str' = (if significantDigits < int (length str) then js_take significantDigits str else str)
          in if int (length str') \<le> pos then sign @ str'
             else sign @ js_take pos str' @ ''.'' @ js_drop pos str'
     else let power = intDigits - significantDigits;
              str = int_str (divideWithRounding (int n) (int (d * 10 ^ nat power)) r)
          in sign @ str @ zeros power)"

definition toSignificant :: "fraction \<Rightarrow> int \<Rightarrow> rounding \<Rightarrow> string result" where
  "toSignificant f significantDigits r =
    (if significantDigits < 0
     then Inl (JsError (int_str significantDigits @ '' is not a valid significant digits.''))
     else if numerator f = 0 then Inr ''0''
     else let isNegative = ((numerator f < 0) \<noteq> (denominator f < 0));
              sign = (if isNegative then ''-'' else '''');
              n = nat \<bar>numerator f\<bar>; d = nat \<bar>denominator f\<bar>
          in Inr (if n < d then sig_below_one sign n d significantDigits r
                  else sig_from_one sign n d significantDigits r))"

text \<open>
  With zero significant digits, which the documentation allows, the printer returns
  strings that are not numerals: \<open>123\<close> prints as four zeros and \<open>1/20\<close> as \<open>0.\<close> with nothing
  after the dot.
\<close>

theorem toSignificant_zero_malformed:
  "toSignificant \<lparr>numerator = 123, denominator = 1\<rparr> 0 ROUND_HALF_UP = Inr ''0000'' \<and>
   toSignificant \<lparr>numerator = 1, denominator = 20\<rparr> 0 ROUND_HALF_UP = Inr ''0.''"
  by code_simp

section \<open>Percentages\<close>

definition ONE_HUNDRED :: fraction where
  "ONE_HUNDRED = \<lparr>numerator = 100, denominator = 1\<rparr>"

definition percent_toSignificant :: "fraction \<Rightarrow> int \<Rightarrow> rounding \<Rightarrow> string result" where
  "percent_toSignificant f k r = bindE (multiply f ONE_HUNDRED) (\<lambda>g. toSignificant g k r)"

definition percent_toFixed :: "fraction \<Rightarrow> int \<Rightarrow> rounding \<Rightarrow> string result" where
  "percent_toFixed f k r = bindE (multiply f ONE_HUNDRED) (\<lambda>g. toFixed g k r)"

lemma percent_toFixed_scales:
  "wf_frac f \<Longrightarrow> \<exists>g. wf_frac g \<and> frac_val g = frac_val f * 100 \<and> percent_toFixed f k r = toFixed g k r"
  using multiply_val[of f ONE_HUNDRED]
  by (auto simp: implements_def percent_toFixed_def ONE_HUNDRED_def wf_frac_def frac_val_def)

end
