(* ===== verification/RateLimiter.thy ===== *)
theory RateLimiter
  imports Prelude
begin

text \<open>
  \<open>src/utils/rate-limiter.ts\<close>: the token bucket with a FIFO queue of waiting requests and a
  one-shot timer. Rates and token counts are exact rationals, times integral milliseconds. A
  request is named by its arrival number; resolving or rejecting its promise is an answer. The
  timer is the time it is due; the machine at the end interleaves the public operations with
  timer callbacks as the event loop does.
\<close>

section \<open>The operations\<close>

record limiter =
  tokens :: rat
  maxBurst :: rat
  maxRequestsPerSecond :: rat
  lastRefillTime :: int
  queue :: "nat list"
  timer :: "int option"

datatype answer = Resolve nat | Reject nat

fun answered :: "answer \<Rightarrow> nat" where
  "answered (Resolve i) = i"
| "answered (Reject i) = i"

fun is_grant :: "answer \<Rightarrow> bool" where
  "is_grant (Resolve _) = True"
| "is_grant (Reject _) = False"

definition new_limiter :: "rat \<Rightarrow> rat \<Rightarrow> int \<Rightarrow> (string, limiter) res" where
  "new_limiter r burst now =
    (if r \<le> 0 then Inl ''maxRequestsPerSecond must be > 0''
     else if burst \<le> 0 then Inl ''maxBurst must be > 0''
     else Inr \<lparr>tokens = burst, maxBurst = burst, maxRequestsPerSecond = r, lastRefillTime = now,
               queue = [], timer = None\<rparr>)"

definition refill :: "int \<Rightarrow> limiter \<Rightarrow> limiter" where
  "refill now l =
    (let elapsed = now - lastRefillTime l;
         tokensToAdd = \<lfloor>of_int elapsed * maxRequestsPerSecond l / 1000\<rfloor>
     in if 0 < tokensToAdd
        then l\<lparr>tokens := min (maxBurst l) (tokens l + of_int tokensToAdd),
               lastRefillTime := lastRefillTime l
                 + \<lfloor>of_int tokensToAdd * 1000 / maxRequestsPerSecond l\<rfloor>\<rparr>
        else l)"

definition getRemainingCapacity :: "int \<Rightarrow> limiter \<Rightarrow> rat \<times> limiter" where
  "getRemainingCapacity now l = (let l' = refill now l in (tokens l', l'))"

definition queueLength :: "limiter \<Rightarrow> nat" where
  "queueLength l = length (queue l)"

definition scheduleNext :: "int \<Rightarrow> limiter \<Rightarrow> limiter" where
  "scheduleNext now l = (case timer l of Some _ \<Rightarrow> l
     | None \<Rightarrow> l\<lparr>timer := Some (now + max 1 \<lceil>1000 / maxRequestsPerSecond l\<rceil>)\<rparr>)"

definition acquire :: "int \<Rightarrow> nat \<Rightarrow> limiter \<Rightarrow> answer list \<times> limiter" where
  "acquire now i l =
    (let l1 = refill now l
     in if 1 \<le> tokens l1 \<and> queue l1 = [] then ([Resolve i], l1\<lparr>tokens := tokens l1 - 1\<rparr>)
        else ([], scheduleNext now (l1\<lparr>queue := queue l1 @ [i]\<rparr>)))"

definition tryAcquire :: "int \<Rightarrow> limiter \<Rightarrow> bool \<times> limiter" where
  "tryAcquire now l =
    (let l1 = refill now l
     in if 1 \<le> tokens l1 then (True, l1\<lparr>tokens := tokens l1 - 1\<rparr>) else (False, l1))"

definition destroy :: "limiter \<Rightarrow> answer list \<times> limiter" where
  "destroy l = (map Reject (queue l), l\<lparr>timer := None, queue := []\<rparr>)"

fun flush_loop :: "rat \<Rightarrow> nat list \<Rightarrow> answer list \<times> rat \<times> nat list" where
  "flush_loop t [] = ([], t, [])"
| "flush_loop t (i # q) = (if 1 \<le> t
     then (case flush_loop (t - 1) q of (out, t', q') \<Rightarrow> (Resolve i # out, t', q'))
     else ([], t, i # q))"

definition flush :: "limiter \<Rightarrow> answer list \<times> limiter" where
  "flush l = (case flush_loop (tokens l) (queue l) of
     (out, t, q) \<Rightarrow> (out, l\<lparr>tokens := t, queue := q\<rparr>))"

definition onTimer :: "int \<Rightarrow> limiter \<Rightarrow> answer list \<times> limiter" where
  "onTimer now l =
    (case flush (refill now (l\<lparr>timer := None\<rparr>)) of (out, l2) \<Rightarrow>
      (out, if queue l2 \<noteq> [] \<and> tokens l2 < 1 then scheduleNext now l2 else l2))"

section \<open>The limiter under the event loop\<close>

datatype limiter_event = Acquire int | TryAcquire int | Remaining int | Fire int | Destroy

record limiter_run =
  lim :: limiter
  answers :: "answer list"
  arrivals :: nat
  taken :: nat

text \<open>A timer callback runs only when the timer is armed, and not before it is due.\<close>

definition limiter_step :: "limiter_run \<Rightarrow> limiter_event \<Rightarrow> limiter_run" where
  "limiter_step s e = (case e of
       Acquire now \<Rightarrow> (case acquire now (arrivals s) (lim s) of (out, l) \<Rightarrow>
         s\<lparr>lim := l, answers := answers s @ out, arrivals := Suc (arrivals s)\<rparr>)
     | TryAcquire now \<Rightarrow> (case tryAcquire now (lim s) of (got, l) \<Rightarrow>
         s\<lparr>lim := l, taken := taken s + (if got then 1 else 0)\<rparr>)
     | Remaining now \<Rightarrow> s\<lparr>lim := snd (getRemainingCapacity now (lim s))\<rparr>
     | Fire now \<Rightarrow> (case timer (lim s) of None \<Rightarrow> s | Some due \<Rightarrow>
         if now < due then s
         else (case onTimer now (lim s) of (out, l) \<Rightarrow>
           s\<lparr>lim := l, answers := answers s @ out\<rparr>))
     | Destroy \<Rightarrow> (case destroy (lim s) of (out, l) \<Rightarrow>
         s\<lparr>lim := l, answers := answers s @ out\<rparr>))"

definition start_run :: "limiter \<Rightarrow> limiter_run" where
  "start_run l = \<lparr>lim = l, answers = [], arrivals = 0, taken = 0\<rparr>"

fun event_time :: "limiter_event \<Rightarrow> int option" where
  "event_time (Acquire t) = Some t"
| "event_time (TryAcquire t) = Some t"
| "event_time (Remaining t) = Some t"
| "event_time (Fire t) = Some t"
| "event_time Destroy = None"

definition granted :: "limiter_run \<Rightarrow> nat" where
  "granted s = length (filter is_grant (answers s)) + taken s"

section \<open>The bucket and the queue\<close>

lemma refill_fields [simp]:
  "maxBurst (refill now l) = maxBurst l" "queue (refill now l) = queue l"
  "timer (refill now l) = timer l" "maxRequestsPerSecond (refill now l) = maxRequestsPerSecond l"
  by (simp_all add: refill_def Let_def)

lemma scheduleNext_fields [simp]:
  "maxBurst (scheduleNext now l) = maxBurst l" "queue (scheduleNext now l) = queue l"
  "maxRequestsPerSecond (scheduleNext now l) = maxRequestsPerSecond l"
  "tokens (scheduleNext now l) = tokens l" "lastRefillTime (scheduleNext now l) = lastRefillTime l"
  "\<exists>due. timer (scheduleNext now l) = Some due"
  by (simp_all add: scheduleNext_def split: option.splits)

lemma refill_tokens:
  "0 \<le> tokens l \<Longrightarrow> tokens l \<le> maxBurst l \<Longrightarrow>
   tokens l \<le> tokens (refill now l) \<and> tokens (refill now l) \<le> maxBurst l"
  by (auto simp: refill_def Let_def)

lemma flush_loop_spec:
  "flush_loop t q = (out, t', q') \<Longrightarrow> 0 \<le> t \<Longrightarrow>
   0 \<le> t' \<and> t' = t - of_nat (length out) \<and> map answered out @ q' = q \<and>
   list_all is_grant out \<and> (q' = [] \<or> t' < 1) \<and> (1 \<le> t \<and> q \<noteq> [] \<longrightarrow> out \<noteq> [])"
proof (induction t q arbitrary: out rule: flush_loop.induct)
  case (2 t i q)
  then show ?case by (auto split: if_splits prod.splits)
qed auto

text \<open>
  The invariant: the bucket is between empty and full, a waiting request has an armed timer,
  and the answered requests followed by the waiting ones are all requests in arrival order.
\<close>

definition limiter_ok :: "limiter \<Rightarrow> bool" where
  "limiter_ok l \<longleftrightarrow> 0 < maxRequestsPerSecond l \<and> 0 \<le> tokens l \<and> tokens l \<le> maxBurst l \<and>
     (queue l \<noteq> [] \<longrightarrow> timer l \<noteq> None)"

definition limiter_inv :: "limiter_run \<Rightarrow> bool" where
  "limiter_inv s \<longleftrightarrow> limiter_ok (lim s) \<and>
     map answered (answers s) @ queue (lim s) = [0..<arrivals s]"

lemma refill_ok: "limiter_ok l \<Longrightarrow> limiter_ok (refill now l)"
  using refill_tokens[of l now] by (auto simp: limiter_ok_def)

lemma acquire_inv:
  "acquire now i l = (out, l') \<Longrightarrow> limiter_ok l \<Longrightarrow>
   limiter_ok l' \<and> map answered out @ queue l' = queue l @ [i]"
  using refill_ok[of l now]
  by (auto simp: acquire_def Let_def limiter_ok_def split: if_splits)

lemma onTimer_inv:
  assumes "onTimer now l = (out, l')" and "limiter_ok l"
  shows "limiter_ok l' \<and> map answered out @ queue l' = queue l"
proof -
  let ?l1 = "refill now (l\<lparr>timer := None\<rparr>)"
  obtain t q where f: "flush_loop (tokens ?l1) (queue l) = (out, t, q)"
    and l': "l' = (let l2 = ?l1\<lparr>tokens := t, queue := q\<rparr>
      in if q \<noteq> [] \<and> t < 1 then scheduleNext now l2 else l2)"
    using assms(1) by (auto simp: onTimer_def flush_def Let_def split: prod.splits)
  have l1: "0 \<le> tokens ?l1" "tokens ?l1 \<le> maxBurst l" "0 < maxRequestsPerSecond l"
    using refill_tokens[of "l\<lparr>timer := None\<rparr>" now] assms(2) by (auto simp: limiter_ok_def)
  have "t \<le> tokens ?l1" using flush_loop_spec[OF f l1(1)] by simp
  then show ?thesis using flush_loop_spec[OF f l1(1)] l1
    unfolding l' by (auto simp: limiter_ok_def Let_def)
qed

lemma limiter_step_inv: "limiter_inv s \<Longrightarrow> limiter_inv (limiter_step s e)"
proof (cases e)
  case (Acquire now)
  then show "limiter_inv s \<Longrightarrow> ?thesis"
    using acquire_inv[of now "arrivals s" "lim s"]
    by (auto simp: limiter_inv_def limiter_step_def split: prod.splits)
next
  case (TryAcquire now)
  then show "limiter_inv s \<Longrightarrow> ?thesis" using refill_ok[of "lim s" now]
    by (auto simp: limiter_inv_def limiter_step_def tryAcquire_def Let_def limiter_ok_def)
next
  case (Remaining now)
  then show "limiter_inv s \<Longrightarrow> ?thesis" using refill_ok[of "lim s" now]
    by (auto simp: limiter_inv_def limiter_step_def getRemainingCapacity_def Let_def)
next
  case (Fire now)
  then show "limiter_inv s \<Longrightarrow> ?thesis" using onTimer_inv[of now "lim s"]
    by (auto simp: limiter_inv_def limiter_step_def split: prod.splits option.splits)
next
  case Destroy
  then show "limiter_inv s \<Longrightarrow> ?thesis"
    by (auto simp: limiter_inv_def limiter_step_def destroy_def limiter_ok_def comp_def)
qed

interpretation rl: invariant_machine limiter_step limiter_inv
  by unfold_locales (rule limiter_step_inv)

lemma start_inv: "new_limiter r burst now = Inr l \<Longrightarrow> limiter_inv (start_run l)"
  by (auto simp: new_limiter_def limiter_inv_def limiter_ok_def start_run_def split: if_splits)

text \<open>
  C8: The queue is honest. Whatever calls and timer callbacks follow the construction, the
  token count stays between zero and the burst, and every \<open>acquire\<close> is answered at most once
  and in arrival order: the answered requests followed by the waiting ones are exactly the
  arrivals; and while somebody waits, the timer is armed.
\<close>

theorem limiter_fifo:
  assumes "new_limiter r burst t0 = Inr l" and "s = run_steps limiter_step (start_run l) es"
  shows "0 \<le> tokens (lim s) \<and> tokens (lim s) \<le> maxBurst (lim s) \<and>
    map answered (answers s) @ queue (lim s) = [0..<arrivals s] \<and>
    (queue (lim s) = [] \<or> timer (lim s) \<noteq> None)"
  using rl.run_inv[OF start_inv[OF assms(1)], of es] unfolding assms(2)
  by (auto simp: limiter_inv_def limiter_ok_def)

lemma limiter_fifo_witness:
  "let s = run_steps limiter_step (start_run \<lparr>tokens = 1, maxBurst = 1, maxRequestsPerSecond = 10,
       lastRefillTime = 0, queue = [], timer = None\<rparr>) [Acquire 0, Acquire 1, Acquire 2, Fire 101]
   in map answered (answers s) @ queue (lim s) = [0..<arrivals s] \<and> queue (lim s) = [2]"
proof -
  have "new_limiter 10 1 0 = Inr \<lparr>tokens = 1, maxBurst = 1, maxRequestsPerSecond = 10,
       lastRefillTime = 0, queue = [], timer = None\<rparr>" by (simp add: new_limiter_def)
  from limiter_fifo[OF this refl, of "[Acquire 0, Acquire 1, Acquire 2, Fire 101]"]
  show ?thesis unfolding Let_def by (intro conjI) (simp, code_simp)
qed

section \<open>The rate\<close>

text \<open>A refill adds a positive number \<open>k\<close> of tokens, or does nothing.\<close>

lemma refill_cases:
  obtains (idle) "refill now l = l"
  | (add) k where "0 < k" "of_int k \<le> of_int (now - lastRefillTime l) * maxRequestsPerSecond l / 1000"
      "of_int (now - lastRefillTime l) * maxRequestsPerSecond l / 1000 < of_int k + 1"
      "refill now l = l\<lparr>tokens := min (maxBurst l) (tokens l + of_int k),
         lastRefillTime := lastRefillTime l + \<lfloor>of_int k * 1000 / maxRequestsPerSecond l\<rfloor>\<rparr>"
proof -
  define x where "x = of_int (now - lastRefillTime l) * maxRequestsPerSecond l / 1000"
  have r: "refill now l = (if 0 < \<lfloor>x\<rfloor> then l\<lparr>tokens := min (maxBurst l) (tokens l + of_int \<lfloor>x\<rfloor>),
      lastRefillTime := lastRefillTime l + \<lfloor>of_int \<lfloor>x\<rfloor> * 1000 / maxRequestsPerSecond l\<rfloor>\<rparr> else l)"
    by (simp add: refill_def Let_def x_def)
  have "of_int \<lfloor>x\<rfloor> \<le> x" "x < of_int \<lfloor>x\<rfloor> + 1" using floor_correct[of x] by simp_all
  with r show ?thesis using idle add[of "\<lfloor>x\<rfloor>", folded x_def] by (cases "0 < \<lfloor>x\<rfloor>") auto
qed

lemma refill_not_past:
  assumes "0 < maxRequestsPerSecond l" and "lastRefillTime l \<le> T" and "now \<le> T"
  shows "lastRefillTime (refill now l) \<le> T"
proof (cases rule: refill_cases[of now l])
  case idle
  with assms(2) show ?thesis by simp
next
  case (add k)
  have "of_int k * 1000 / maxRequestsPerSecond l \<le> of_int (now - lastRefillTime l)"
    using add(2) assms(1) by (simp add: field_simps del: of_int_diff)
  then have "\<lfloor>of_int k * 1000 / maxRequestsPerSecond l\<rfloor> \<le> now - lastRefillTime l"
    by (metis floor_mono floor_of_int)
  with add(4) assms(3) show ?thesis by simp
qed

lemma refill_tokens_exact:
  assumes "maxRequestsPerSecond l * of_int p = 1000"
  shows "tokens (refill now l) - maxRequestsPerSecond l * of_int (lastRefillTime (refill now l)) / 1000
    \<le> tokens l - maxRequestsPerSecond l * of_int (lastRefillTime l) / 1000"
proof (cases rule: refill_cases[of now l])
  case (add k)
  have "maxRequestsPerSecond l \<noteq> 0" using assms by auto
  with assms have "of_int k * (1000 :: rat) / maxRequestsPerSecond l = of_int (k * p)"
    by (simp add: field_simps)
  then have f: "\<lfloor>of_int k * 1000 / maxRequestsPerSecond l\<rfloor> = k * p" by (metis floor_of_int)
  have "maxRequestsPerSecond l * (of_int k * of_int p) = of_int k * 1000"
    using assms by (metis mult.left_commute)
  then have "maxRequestsPerSecond l * of_int (lastRefillTime (refill now l)) / 1000
      = maxRequestsPerSecond l * of_int (lastRefillTime l) / 1000 + of_int k"
    using add(4) f by (simp add: distrib_left add_divide_distrib)
  moreover have "tokens (refill now l) \<le> tokens l + of_int k" using add(4) by simp
  ultimately show ?thesis by linarith
qed simp

text \<open>Tokens in the bucket and tokens granted are paid for by the refill clock.\<close>

definition paid :: "rat \<Rightarrow> int \<Rightarrow> int \<Rightarrow> limiter_run \<Rightarrow> bool" where
  "paid budget p T s \<longleftrightarrow> limiter_ok (lim s) \<and> lastRefillTime (lim s) \<le> T \<and>
     maxRequestsPerSecond (lim s) * of_int p = 1000 \<and>
     of_nat (granted s) + tokens (lim s)
       - maxRequestsPerSecond (lim s) * of_int (lastRefillTime (lim s)) / 1000 \<le> budget"

lemma flush_grants:
  "flush_loop t q = (out, t', q') \<Longrightarrow> of_nat (length (filter is_grant out)) + t' = t"
  by (induction t q arbitrary: out rule: flush_loop.induct) (auto split: if_splits prod.splits)

definition spent :: "limiter \<Rightarrow> rat" where
  "spent l = tokens l - maxRequestsPerSecond l * of_int (lastRefillTime l) / 1000"

lemma spent_fields [simp]:
  "spent (l\<lparr>queue := q\<rparr>) = spent l" "spent (l\<lparr>timer := t\<rparr>) = spent l"
  "spent (l\<lparr>tokens := x\<rparr>) = spent l + (x - tokens l)" "spent (scheduleNext now l) = spent l"
  by (simp_all add: spent_def)

lemma acquire_spent:
  "acquire now i l = (out, l') \<Longrightarrow>
   spent l' + of_nat (length (filter is_grant out)) = spent (refill now l) \<and>
   lastRefillTime l' = lastRefillTime (refill now l) \<and>
   maxRequestsPerSecond l' = maxRequestsPerSecond l"
  by (auto simp: acquire_def Let_def split: if_splits)

lemma onTimer_spent:
  "onTimer now l = (out, l') \<Longrightarrow>
   spent l' + of_nat (length (filter is_grant out)) = spent (refill now (l\<lparr>timer := None\<rparr>)) \<and>
   lastRefillTime l' = lastRefillTime (refill now (l\<lparr>timer := None\<rparr>)) \<and>
   maxRequestsPerSecond l' = maxRequestsPerSecond l"
  using flush_grants[of "tokens (refill now (l\<lparr>timer := None\<rparr>))" "queue l"]
  by (auto simp: onTimer_def flush_def Let_def split: if_splits prod.splits)

lemma onTimer_ok: "onTimer now l = (out, l') \<Longrightarrow> limiter_ok l \<Longrightarrow> limiter_ok l'"
  using onTimer_inv by blast

lemma acquire_ok: "acquire now i l = (out, l') \<Longrightarrow> limiter_ok l \<Longrightarrow> limiter_ok l'"
  using acquire_inv by blast

lemma refill_paid:
  assumes "limiter_ok l" and "lastRefillTime l \<le> T" and "now \<le> T"
    and "maxRequestsPerSecond l * of_int p = 1000"
  shows "lastRefillTime (refill now l) \<le> T \<and> spent (refill now l) \<le> spent l"
  using refill_not_past[of l T now] refill_tokens_exact[of l p now] assms
  by (simp add: limiter_ok_def spent_def)

lemma paid_spent: "paid budget p T s \<longleftrightarrow> limiter_ok (lim s) \<and> lastRefillTime (lim s) \<le> T \<and>
     maxRequestsPerSecond (lim s) * of_int p = 1000 \<and> of_nat (granted s) + spent (lim s) \<le> budget"
  by (simp add: paid_def spent_def algebra_simps)

lemma paid_step:
  assumes p: "paid budget p T s" and T: "\<And>t. event_time e = Some t \<Longrightarrow> t \<le> T"
  shows "paid budget p T (limiter_step s e)"
proof (cases e)
  case (Acquire now)
  obtain out l where a: "acquire now (arrivals s) (lim s) = (out, l)" by fastforce
  show ?thesis using acquire_spent[OF a] acquire_ok[OF a] refill_paid[of "lim s" T now p] p T Acquire
    by (auto simp: paid_spent limiter_step_def granted_def a)
next
  case (TryAcquire now)
  show ?thesis using refill_paid[of "lim s" T now p] refill_ok[of "lim s" now] p T TryAcquire
    by (auto simp: paid_spent limiter_step_def granted_def tryAcquire_def Let_def limiter_ok_def)
next
  case (Remaining now)
  show ?thesis using refill_paid[of "lim s" T now p] refill_ok[of "lim s" now] p T Remaining
    by (auto simp: paid_spent limiter_step_def granted_def getRemainingCapacity_def Let_def)
next
  case (Fire now)
  obtain out l where a: "onTimer now (lim s) = (out, l)" by fastforce
  have "spent l + of_nat (length (filter is_grant out)) \<le> spent (lim s)"
    "lastRefillTime l \<le> T" "maxRequestsPerSecond l = maxRequestsPerSecond (lim s)"
  proof -
    have "limiter_ok (lim s)" "maxRequestsPerSecond (lim s) * of_int p = 1000"
      "lastRefillTime (lim s) \<le> T" using p by (auto simp: paid_spent)
    moreover have "now \<le> T" using T Fire by simp
    ultimately have "lastRefillTime (refill now (lim s\<lparr>timer := None\<rparr>)) \<le> T \<and>
       spent (refill now (lim s\<lparr>timer := None\<rparr>)) \<le> spent (lim s)"
      using refill_not_past[of "lim s\<lparr>timer := None\<rparr>" T now]
        refill_tokens_exact[of "lim s\<lparr>timer := None\<rparr>" p now]
      by (simp add: limiter_ok_def spent_def)
    then show "spent l + of_nat (length (filter is_grant out)) \<le> spent (lim s)"
      "lastRefillTime l \<le> T" "maxRequestsPerSecond l = maxRequestsPerSecond (lim s)"
      using onTimer_spent[OF a] by simp_all
  qed
  then show ?thesis using onTimer_ok[OF a] p Fire
    by (auto simp: paid_spent limiter_step_def granted_def a split: option.splits)
next
  case Destroy
  then show ?thesis using p
    by (auto simp: paid_spent limiter_step_def granted_def destroy_def limiter_ok_def comp_def filter_False)
qed

text \<open>
  When a token takes a whole number of milliseconds (the rate divides 1000), the limiter
  keeps its rate: up to any time \<open>T\<close>, \<open>acquire\<close> and \<open>tryAcquire\<close> together have granted at most
  the burst plus the rate times the time elapsed since the construction.
\<close>

theorem limiter_rate_bound:
  assumes new: "new_limiter r burst t0 = Inr l"
    and period: "r * of_int p = 1000"
    and T: "t0 \<le> T" "\<And>e t. e \<in> set es \<Longrightarrow> event_time e = Some t \<Longrightarrow> t \<le> T"
  shows "of_nat (granted (run_steps limiter_step (start_run l) es))
    \<le> burst + r * of_int (T - t0) / 1000"
proof -
  have l: "l = \<lparr>tokens = burst, maxBurst = burst, maxRequestsPerSecond = r, lastRefillTime = t0,
               queue = [], timer = None\<rparr>" "0 < r" "0 < burst"
    using new by (auto simp: new_limiter_def split: if_splits)
  let ?budget = "burst - r * of_int t0 / 1000"
  have start: "paid ?budget p T (start_run l)"
    using l period T(1) by (simp add: paid_def start_run_def granted_def limiter_ok_def)
  have "paid ?budget p T s \<Longrightarrow> (\<And>e t. e \<in> set es \<Longrightarrow> event_time e = Some t \<Longrightarrow> t \<le> T) \<Longrightarrow>
      paid ?budget p T (run_steps limiter_step s es)
        \<and> maxRequestsPerSecond (lim (run_steps limiter_step s es)) = maxRequestsPerSecond (lim s)" for s es
  proof (induction es arbitrary: s)
    case (Cons e es)
    have p1: "paid ?budget p T (limiter_step s e)" using Cons.prems by (auto intro: paid_step)
    have "p \<noteq> 0" using period by auto
    then have "maxRequestsPerSecond (lim (limiter_step s e)) = maxRequestsPerSecond (lim s)"
      using p1 Cons.prems(1) unfolding paid_def by (metis mult_right_cancel of_int_eq_0_iff)
    moreover have "\<And>e t. e \<in> set es \<Longrightarrow> event_time e = Some t \<Longrightarrow> t \<le> T"
      using Cons.prems(2) by auto
    ultimately show ?case using Cons.IH[OF p1] by simp
  qed simp
  from this[OF start T(2)] have q: "paid ?budget p T (run_steps limiter_step (start_run l) es)"
    "maxRequestsPerSecond (lim (run_steps limiter_step (start_run l) es)) = r"
    using l by (simp_all add: start_run_def)
  let ?s = "lim (run_steps limiter_step (start_run l) es)"
  have "r * of_int (lastRefillTime ?s) \<le> r * of_int T" using q l(2) by (simp add: paid_def)
  moreover have "0 \<le> tokens ?s" using q by (simp add: paid_def limiter_ok_def)
  ultimately show ?thesis using q by (simp add: paid_def right_diff_distrib diff_divide_distrib)
qed

lemma limiter_rate_bound_witness:
  "of_nat (granted (run_steps limiter_step (start_run \<lparr>tokens = 2, maxBurst = 2,
      maxRequestsPerSecond = 10, lastRefillTime = 0, queue = [], timer = None\<rparr>)
      [TryAcquire 5, Acquire 6, Acquire 7, Fire 120])) \<le> (2 + 10 * of_int (120 - 0) / 1000 :: rat)"
  by (rule limiter_rate_bound[where p = 100]) (auto simp: new_limiter_def)

text \<open>
  Otherwise it does not. The refill clock advances by a rounded-down period, so at 1500
  requests per second it does not move at all when one token is added: in the first millisecond
  after the construction of a limiter with a burst of one, every one of any number of calls is
  granted.
\<close>

theorem limiter_runaway:
  "map_sum id (\<lambda>l. granted (run_steps limiter_step (start_run l) (replicate n (TryAcquire 1))))
     (new_limiter 1500 1 0) = Inr n"
proof -
  have run: "granted (run_steps limiter_step s (replicate n (TryAcquire 1))) = granted s + n"
    if "0 \<le> tokens (lim s)" "maxBurst (lim s) = 1" "maxRequestsPerSecond (lim s) = 1500"
      "lastRefillTime (lim s) = 0" for s
    using that
  proof (induction n arbitrary: s)
    case (Suc n)
    have "\<lfloor>1500 / 1000 :: rat\<rfloor> = 1" "\<lfloor>1000 / 1500 :: rat\<rfloor> = 0" by linarith+
    with Suc.prems have r: "refill 1 (lim s) = lim s\<lparr>tokens := min 1 (tokens (lim s) + 1)\<rparr>"
      by (simp add: refill_def Let_def)
    let ?s = "s\<lparr>lim := lim s\<lparr>tokens := 0\<rparr>, taken := Suc (taken s)\<rparr>"
    have "limiter_step s (TryAcquire 1) = ?s"
      using r Suc.prems by (simp add: limiter_step_def tryAcquire_def Let_def)
    moreover have "granted ?s = Suc (granted s)" by (simp add: granted_def)
    ultimately show ?case using Suc.IH[of ?s] Suc.prems by simp
  qed simp
  show ?thesis by (simp add: new_limiter_def run start_run_def) (simp add: granted_def)
qed

section \<open>Progress\<close>

lemma refill_serves:
  assumes "0 \<le> tokens l" and "1 \<le> maxBurst l"
  shows "refill now l = l \<or> 1 \<le> tokens (refill now l)"
proof (cases rule: refill_cases[of now l])
  case (add k)
  have "(1 :: rat) \<le> of_int k" using add(1) by simp
  then have "1 \<le> tokens l + of_int k" using assms(1) by linarith
  with add(4) assms(2) show ?thesis by simp
qed simp

lemma refill_due:
  assumes "0 \<le> tokens l" and "1 \<le> maxBurst l" and "0 < maxRequestsPerSecond l"
    and "1000 / maxRequestsPerSecond l \<le> of_int (now - lastRefillTime l)"
  shows "1 \<le> tokens (refill now l)"
proof -
  define k where "k = \<lfloor>of_int (now - lastRefillTime l) * maxRequestsPerSecond l / 1000\<rfloor>"
  have "1 \<le> of_int (now - lastRefillTime l) * maxRequestsPerSecond l / 1000"
    using assms(3,4) by (simp add: field_simps)
  then have k: "1 \<le> k" by (simp add: k_def)
  then have "(1 :: rat) \<le> of_int k" by simp
  then have "1 \<le> tokens l + of_int k" using assms(1) by linarith
  moreover have "tokens (refill now l) = min (maxBurst l) (tokens l + of_int k)"
    using k unfolding refill_def Let_def k_def by simp
  ultimately show ?thesis using assms(2) by simp
qed

text \<open>An armed timer has a waiter, and a token is in the bucket or will be when it is due.\<close>

definition serving :: "int \<Rightarrow> limiter \<Rightarrow> bool" where
  "serving T l \<longleftrightarrow> limiter_ok l \<and> 1 \<le> maxBurst l \<and> lastRefillTime l \<le> T \<and>
     (case timer l of None \<Rightarrow> True | Some due \<Rightarrow> queue l \<noteq> [] \<and>
        (1 \<le> tokens l \<or> 1000 / maxRequestsPerSecond l \<le> of_int (due - lastRefillTime l)))"

lemma ceiling_wait:
  assumes "c \<le> of_int (max 1 \<lceil>c\<rceil>)" and "start \<le> now"
  shows "(c :: rat) \<le> of_int (now + max 1 \<lceil>c\<rceil> - start)"
proof -
  have "(0 :: rat) \<le> of_int (now - start)" using assms(2) by simp
  then show ?thesis using assms(1) by simp
qed

lemma wait_le: "(c :: rat) \<le> of_int (max 1 \<lceil>c\<rceil>)"
  by (metis le_of_int_ceiling max.cobounded2 of_int_le_iff order_trans)

lemma scheduleNext_serving:
  assumes "limiter_ok (l\<lparr>timer := Some 0\<rparr>)" and "1 \<le> maxBurst l" and "lastRefillTime l \<le> now"
    and "queue l \<noteq> []"
    and "\<And>due. timer l = Some due \<Longrightarrow>
      1 \<le> tokens l \<or> 1000 / maxRequestsPerSecond l \<le> of_int (due - lastRefillTime l)"
  shows "serving now (scheduleNext now l)"
proof (cases "timer l")
  case None
  then show ?thesis using assms ceiling_wait[OF wait_le assms(3), of "1000 / maxRequestsPerSecond l"]
    by (simp add: serving_def scheduleNext_def limiter_ok_def)
next
  case (Some due)
  then show ?thesis using assms by (auto simp: serving_def scheduleNext_def limiter_ok_def)
qed

lemma serving_refill:
  assumes "serving T l" and "T \<le> now"
  shows "serving now (refill now l)"
proof -
  have l: "limiter_ok l" "1 \<le> maxBurst l" "lastRefillTime l \<le> now" "0 \<le> tokens l"
    "0 < maxRequestsPerSecond l"
    using assms by (auto simp: serving_def limiter_ok_def)
  from refill_serves[OF l(4,2), of now] show ?thesis
  proof
    assume "refill now l = l"
    then show ?thesis using assms l by (auto simp: serving_def split: option.splits)
  next
    assume "1 \<le> tokens (refill now l)"
    then show ?thesis using assms refill_ok[OF l(1), of now] l refill_not_past[OF l(5,3) order_refl]
      by (auto simp: serving_def split: option.splits)
  qed
qed

lemma acquire_serving:
  assumes "acquire now i l = (out, l')" and "serving T l" and "T \<le> now"
  shows "serving now l'"
proof -
  let ?l1 = "refill now l"
  have s: "serving now ?l1" by (rule serving_refill[OF assms(2,3)])
  show ?thesis
  proof (cases "1 \<le> tokens ?l1 \<and> queue l = []")
    case True
    then have "l' = ?l1\<lparr>tokens := tokens ?l1 - 1\<rparr>" using assms(1) by (simp add: acquire_def Let_def)
    then show ?thesis using s True by (auto simp: serving_def limiter_ok_def split: option.splits)
  next
    case False
    then have l': "l' = scheduleNext now (?l1\<lparr>queue := queue l @ [i]\<rparr>)"
      using assms(1) by (auto simp: acquire_def Let_def)
    show ?thesis unfolding l'
      by (rule scheduleNext_serving) (use s in \<open>auto simp: serving_def limiter_ok_def split: option.splits\<close>)
  qed
qed

lemma onTimer_serving:
  assumes "onTimer now l = (out, l')" and "serving T l" and "T \<le> now"
    and "timer l = Some due" and "due \<le> now"
  shows "serving now l' \<and> (\<exists>rest. out = Resolve (hd (queue l)) # rest)"
proof -
  let ?l1 = "refill now (l\<lparr>timer := None\<rparr>)"
  have l: "limiter_ok l" "1 \<le> maxBurst l" "lastRefillTime l \<le> now" "0 \<le> tokens l" "queue l \<noteq> []"
    "0 < maxRequestsPerSecond l" using assms by (auto simp: serving_def limiter_ok_def)
  have pay: "1 \<le> tokens ?l1"
  proof (cases "1 \<le> tokens l")
    case True
    then show ?thesis using refill_tokens[of "l\<lparr>timer := None\<rparr>" now] l by (auto simp: limiter_ok_def)
  next
    case False
    have "(of_int (due - lastRefillTime l) :: rat) \<le> of_int (now - lastRefillTime l)"
      using assms(5) by simp
    then have "1000 / maxRequestsPerSecond l \<le> of_int (now - lastRefillTime l)"
      using False assms(2,4) unfolding serving_def by (auto simp del: of_int_diff)
    then show ?thesis using refill_due[of "l\<lparr>timer := None\<rparr>" now] l by simp
  qed
  have r1: "lastRefillTime ?l1 \<le> now" "tokens ?l1 \<le> maxBurst l"
    using refill_not_past[of "l\<lparr>timer := None\<rparr>" now now] refill_tokens[of "l\<lparr>timer := None\<rparr>" now] l
    by (auto simp: limiter_ok_def)
  obtain t q where f: "flush_loop (tokens ?l1) (queue l) = (out, t, q)"
    and l': "l' = (let l2 = ?l1\<lparr>tokens := t, queue := q\<rparr>
      in if q \<noteq> [] \<and> t < 1 then scheduleNext now l2 else l2)"
    using assms(1) by (auto simp: onTimer_def flush_def Let_def split: prod.splits)
  have sp: "0 \<le> t" "t \<le> tokens ?l1" "q = [] \<or> t < 1" using flush_loop_spec[OF f] pay by auto
  have "serving now l'"
  proof (cases "q = []")
    case True
    then show ?thesis using l' sp r1 l by (simp add: serving_def limiter_ok_def)
  next
    case False
    then have l2: "l' = scheduleNext now (?l1\<lparr>tokens := t, queue := q\<rparr>)" using l' sp by (simp add: Let_def)
    show ?thesis unfolding l2
      by (rule scheduleNext_serving) (use sp r1 l False in \<open>auto simp: limiter_ok_def\<close>)
  qed
  moreover have "\<exists>rest. out = Resolve (hd (queue l)) # rest"
    using f pay l(5) by (cases "queue l") (auto split: prod.splits)
  ultimately show ?thesis by blast
qed

text \<open>
  C33: No starvation among \<open>acquire\<close> calls. With a burst of at least one, a clock that does not
  run backwards and nobody calling \<open>tryAcquire\<close>, whenever the timer callback runs it answers
  the oldest waiting request, with a token.
\<close>

theorem limiter_serves_head:
  assumes new: "new_limiter r burst t0 = Inr l" and "1 \<le> burst"
    and mono: "sorted (t0 # List.map_filter event_time es)" and no_try: "list_all (\<lambda>e. \<nexists>t. e = TryAcquire t) es"
    and s: "s = run_steps limiter_step (start_run l) es"
    and due: "timer (lim s) = Some due" "due \<le> now" "last (t0 # List.map_filter event_time es) \<le> now"
  shows "\<exists>rest. answers (limiter_step s (Fire now)) = answers s @ Resolve (hd (queue (lim s))) # rest"
proof -
  have start: "serving t0 (lim (start_run l))"
    using new \<open>1 \<le> burst\<close>
    by (auto simp: new_limiter_def serving_def start_run_def limiter_ok_def split: if_splits)
  have later: "serving T l' \<Longrightarrow> T \<le> T' \<Longrightarrow> serving T' l'" for T T' l'
    by (auto simp: serving_def)
  have step: "serving (case event_time e of None \<Rightarrow> T | Some t \<Rightarrow> t) (lim (limiter_step s e))"
    if "serving T (lim s)" "\<And>t. event_time e = Some t \<Longrightarrow> T \<le> t" "\<nexists>t. e = TryAcquire t" for T s e
  proof (cases e)
    case (Acquire t)
    then show ?thesis using that acquire_serving[OF _ that(1), of t]
      by (auto simp: limiter_step_def split: prod.splits)
  next
    case (Remaining t)
    then show ?thesis using that serving_refill[OF that(1), of t]
      by (auto simp: limiter_step_def getRemainingCapacity_def Let_def)
  next
    case (Fire t)
    then show ?thesis using that onTimer_serving[OF _ that(1), of t] later[OF that(1), of t]
      by (auto simp: limiter_step_def split: prod.splits option.splits)
  next
    case Destroy
    then show ?thesis using that(1) by (auto simp: limiter_step_def destroy_def serving_def limiter_ok_def)
  qed (use that(3) in simp)
  have run: "serving T (lim s) \<Longrightarrow> sorted (T # List.map_filter event_time es) \<Longrightarrow>
      list_all (\<lambda>e. \<nexists>t. e = TryAcquire t) es \<Longrightarrow>
      serving (last (T # List.map_filter event_time es)) (lim (run_steps limiter_step s es))" for T s es
  proof (induction es arbitrary: T s)
    case (Cons e es)
    then have "serving (case event_time e of None \<Rightarrow> T | Some t \<Rightarrow> t) (lim (limiter_step s e))"
      by (intro step) (auto simp: map_filter_simps)
    then show ?case using Cons.IH Cons.prems by (cases "event_time e") (auto simp: map_filter_simps)
  qed (simp add: map_filter_simps)
  have "serving (last (t0 # List.map_filter event_time es)) (lim s)"
    unfolding s by (rule run[OF start mono no_try])
  from onTimer_serving[OF _ this due(3) due(1,2)] show ?thesis
    using due by (auto simp: limiter_step_def split: prod.splits)
qed

lemma limiter_serves_head_witness:
  "\<exists>rest. answers (limiter_step (run_steps limiter_step (start_run \<lparr>tokens = 1, maxBurst = 1,
      maxRequestsPerSecond = 10, lastRefillTime = 0, queue = [], timer = None\<rparr>)
      [Acquire 0, Acquire 50]) (Fire 160)) = [Resolve 0] @ Resolve 1 # rest"
proof -
  let ?l = "\<lparr>tokens = 1, maxBurst = 1, maxRequestsPerSecond = 10, lastRefillTime = 0, queue = [],
     timer = None\<rparr>"
  let ?s = "run_steps limiter_step (start_run ?l) [Acquire 0, Acquire 50]"
  have n: "new_limiter 10 1 0 = Inr ?l" by (simp add: new_limiter_def)
  have s: "timer (lim ?s) = Some 150" "answers ?s = [Resolve 0]" "queue (lim ?s) = [1]"
    by code_simp+
  show ?thesis
    using limiter_serves_head[OF n _ _ _ refl s(1), of 160] s(2,3) by (simp add: map_filter_simps)
qed

text \<open>
  A small burst starves everybody. The constructor accepts a burst below one; such a
  limiter never grants anything, whatever happens.
\<close>

theorem small_burst_never_grants:
  assumes "new_limiter r burst t0 = Inr l" and "burst < 1"
  shows "granted (run_steps limiter_step (start_run l) es) = 0"
proof -
  define I where "I s \<longleftrightarrow> limiter_inv s \<and> maxBurst (lim s) < 1 \<and> granted s = 0" for s
  have "I (limiter_step s e)" if "I s" for s e
  proof -
    have ok: "limiter_ok (lim s)" "maxBurst (lim s) < 1" "granted s = 0"
      using that by (auto simp: I_def limiter_inv_def)
    have empty: "\<not> 1 \<le> tokens (refill now (lim s))" "\<not> 1 \<le> tokens (refill now (lim s\<lparr>timer := None\<rparr>))"
      for now
      using refill_tokens[of "lim s" now] refill_tokens[of "lim s\<lparr>timer := None\<rparr>" now] ok
      by (auto simp: limiter_ok_def)
    have fl: "flush_loop t q = ([], t, q)" if "\<not> 1 \<le> t" for t q using that by (cases q) auto
    have "maxBurst (lim (limiter_step s e)) < 1 \<and> granted (limiter_step s e) = 0"
      using ok empty by (cases e) (auto simp: limiter_step_def acquire_def tryAcquire_def
          getRemainingCapacity_def onTimer_def flush_def fl destroy_def Let_def granted_def comp_def
          split: option.splits)
    with limiter_step_inv that show ?thesis by (simp add: I_def)
  qed
  then have runs: "I s \<Longrightarrow> I (run_steps limiter_step s es)" for s es
    by (induction es arbitrary: s) auto
  have "I (start_run l)" using assms start_inv[OF assms(1)]
    by (auto simp: I_def new_limiter_def start_run_def granted_def split: if_splits)
  from runs[OF this] show ?thesis by (simp add: I_def)
qed

lemma small_burst_never_grants_witness:
  "granted (run_steps limiter_step (start_run \<lparr>tokens = 1/2, maxBurst = 1/2,
     maxRequestsPerSecond = 10, lastRefillTime = 0, queue = [], timer = None\<rparr>)
     [Acquire 0, Fire 100, Fire 200, TryAcquire 1000000]) = 0"
  by (rule small_burst_never_grants[where r = 10 and burst = "1/2" and ?t0.0 = 0])
    (simp_all add: new_limiter_def)

end
