(* ===== verification/ConnPool.thy ===== *)
theory ConnPool
  imports SdkErrors
begin

text \<open>
  \<open>src/utils/connection-pool.ts\<close>: the round-robin pool of RPC endpoints. An endpoint object is
  a record in the list \<open>endpoints\<close>, updated in place where the code mutates the object \<open>_find\<close>
  returns (the first with the URL; \<open>addEndpoint\<close> keeps URLs unique, the constructor does
  not). Times are integral milliseconds.
\<close>

section \<open>State and operations\<close>

record endpoint =
  url :: string
  consecutiveFailures :: int
  unhealthyAt :: "int option"

record pool =
  endpoints :: "endpoint list"
  failureThreshold :: int
  recoveryTimeMs :: int
  rrIndex :: nat

record pool_options =
  optFailureThreshold :: "int option"
  optRecoveryTimeMs :: "int option"
  optFailureTimeoutMs :: "int option"

definition fresh_endpoint :: "string \<Rightarrow> endpoint" where
  "fresh_endpoint u = \<lparr>url = u, consecutiveFailures = 0, unhealthyAt = None\<rparr>"

text \<open>The two forms of the constructor: a list of URLs with options, or options alone.\<close>

definition new_pool :: "string list option \<Rightarrow> pool_options \<Rightarrow> pool result" where
  "new_pool urls opts =
    (if urls = Some [] then Inl (JsError ''ConnectionPool requires at least one URL'')
     else Inr \<lparr>endpoints = map fresh_endpoint (case urls of None \<Rightarrow> [] | Some us \<Rightarrow> us),
               failureThreshold = (case optFailureThreshold opts of None \<Rightarrow> 3 | Some n \<Rightarrow> n),
               recoveryTimeMs = (case optRecoveryTimeMs opts of Some n \<Rightarrow> n
                  | None \<Rightarrow> (case optFailureTimeoutMs opts of Some n \<Rightarrow> n | None \<Rightarrow> 30000)),
               rrIndex = 0\<rparr>)"

definition isHealthy :: "int \<Rightarrow> int \<Rightarrow> endpoint \<Rightarrow> bool" where
  "isHealthy recovery now ep = (case unhealthyAt ep of None \<Rightarrow> True
     | Some t \<Rightarrow> recovery \<le> now - t)"

definition healthyEndpoints :: "int \<Rightarrow> pool \<Rightarrow> string list" where
  "healthyEndpoints now p = map url (filter (isHealthy (recoveryTimeMs p) now) (endpoints p))"

definition unhealthyEndpoints :: "int \<Rightarrow> pool \<Rightarrow> string list" where
  "unhealthyEndpoints now p =
     map url (filter (\<lambda>ep. \<not> isHealthy (recoveryTimeMs p) now ep) (endpoints p))"

definition pool_size :: "pool \<Rightarrow> nat" where
  "pool_size p = length (endpoints p)"

text \<open>Mutation of the endpoint that \<open>_find\<close> returns, if any.\<close>

fun update_first :: "string \<Rightarrow> (endpoint \<Rightarrow> endpoint) \<Rightarrow> endpoint list \<Rightarrow> endpoint list" where
  "update_first u f [] = []"
| "update_first u f (ep # eps) = (if url ep = u then f ep # eps else ep # update_first u f eps)"

definition find_endpoint :: "string \<Rightarrow> pool \<Rightarrow> endpoint option" where
  "find_endpoint u p = find (\<lambda>ep. url ep = u) (endpoints p)"

definition addEndpoint :: "string \<Rightarrow> pool \<Rightarrow> pool" where
  "addEndpoint u p = (case find_endpoint u p of Some _ \<Rightarrow> p
     | None \<Rightarrow> p\<lparr>endpoints := endpoints p @ [fresh_endpoint u]\<rparr>)"

definition removeEndpoint :: "string \<Rightarrow> pool \<Rightarrow> pool" where
  "removeEndpoint u p =
    (let eps = filter (\<lambda>ep. url ep \<noteq> u) (endpoints p);
         p' = p\<lparr>endpoints := eps\<rparr>
     in if length eps \<noteq> length (endpoints p) \<and> length eps \<le> rrIndex p'
        then p'\<lparr>rrIndex := 0\<rparr> else p')"

definition markFailed :: "string \<Rightarrow> int \<Rightarrow> pool \<Rightarrow> pool" where
  "markFailed u now p = p\<lparr>endpoints := update_first u (\<lambda>ep. ep\<lparr>
     consecutiveFailures := max (consecutiveFailures ep) (failureThreshold p),
     unhealthyAt := Some now\<rparr>) (endpoints p)\<rparr>"

definition reportSuccess :: "string \<Rightarrow> pool \<Rightarrow> pool" where
  "reportSuccess u p = p\<lparr>endpoints := update_first u (\<lambda>ep. ep\<lparr>
     consecutiveFailures := 0, unhealthyAt := None\<rparr>) (endpoints p)\<rparr>"

definition markHealthy :: "string \<Rightarrow> pool \<Rightarrow> pool" where
  "markHealthy u p = p\<lparr>endpoints := update_first u (\<lambda>ep. ep\<lparr>
     consecutiveFailures := 0, unhealthyAt := None\<rparr>) (endpoints p)\<rparr>"

definition reportFailure :: "string \<Rightarrow> int \<Rightarrow> pool \<Rightarrow> pool" where
  "reportFailure u now p = p\<lparr>endpoints := update_first u (\<lambda>ep.
     let ep' = ep\<lparr>consecutiveFailures := consecutiveFailures ep + 1\<rparr>
     in if failureThreshold p \<le> consecutiveFailures ep' then ep'\<lparr>unhealthyAt := Some now\<rparr>
        else ep') (endpoints p)\<rparr>"

text \<open>One pass over the endpoints from the round-robin index, \<open>i\<close> counting the steps.\<close>

fun scan_from :: "nat \<Rightarrow> int \<Rightarrow> pool \<Rightarrow> nat \<Rightarrow> nat option" where
  "scan_from 0 now p i = None"
| "scan_from (Suc n) now p i =
    (let idx = (rrIndex p + i) mod length (endpoints p)
     in if isHealthy (recoveryTimeMs p) now (endpoints p ! idx) then Some idx
        else scan_from n now p (Suc i))"

definition getEndpoint :: "int \<Rightarrow> pool \<Rightarrow> string result \<times> pool" where
  "getEndpoint now p = (case scan_from (length (endpoints p)) now p 0 of
       None \<Rightarrow> (Inl (ConnectionPoolExhaustedError ''ConnectionPool: all endpoints are unhealthy''), p)
     | Some idx \<Rightarrow> (Inr (url (endpoints p ! idx)),
         p\<lparr>rrIndex := (idx + 1) mod length (endpoints p)\<rparr>))"

definition getNextEndpoint :: "int \<Rightarrow> pool \<Rightarrow> string result \<times> pool" where
  "getNextEndpoint now p = getEndpoint now p"

definition getHealthyEndpoints :: "int \<Rightarrow> pool \<Rightarrow> string list" where
  "getHealthyEndpoints now p = healthyEndpoints now p"

section \<open>Selection\<close>

lemma scan_from_Some:
  "scan_from n now p i = Some idx \<Longrightarrow>
   \<exists>j. i \<le> j \<and> j < i + n \<and> idx = (rrIndex p + j) mod length (endpoints p) \<and>
       isHealthy (recoveryTimeMs p) now (endpoints p ! idx) \<and>
       (\<forall>k. i \<le> k \<and> k < j \<longrightarrow>
          \<not> isHealthy (recoveryTimeMs p) now (endpoints p ! ((rrIndex p + k) mod length (endpoints p))))"
proof (induction n now p i rule: scan_from.induct)
  case (2 n now p i)
  show ?case
  proof (cases "isHealthy (recoveryTimeMs p) now (endpoints p ! ((rrIndex p + i) mod length (endpoints p)))")
    case True
    then show ?thesis using 2(2) by (intro exI[of _ i]) (auto simp: Let_def)
  next
    case False
    with 2(2) have "scan_from n now p (Suc i) = Some idx" by (simp add: Let_def)
    from 2(1)[OF refl False this] obtain j where j: "Suc i \<le> j" "j < Suc i + n"
      "idx = (rrIndex p + j) mod length (endpoints p)"
      "isHealthy (recoveryTimeMs p) now (endpoints p ! idx)"
      "\<And>k. Suc i \<le> k \<Longrightarrow> k < j \<Longrightarrow>
        \<not> isHealthy (recoveryTimeMs p) now (endpoints p ! ((rrIndex p + k) mod length (endpoints p)))"
      by auto
    have "\<not> isHealthy (recoveryTimeMs p) now (endpoints p ! ((rrIndex p + k) mod length (endpoints p)))"
      if "i \<le> k" "k < j" for k
      using j(5)[of k] False that by (cases "k = i") auto
    with j(1-4) show ?thesis by (intro exI[of _ j]) auto
  qed
qed simp

lemma scan_from_None:
  "scan_from n now p i = None \<longleftrightarrow> (\<forall>j. i \<le> j \<and> j < i + n \<longrightarrow>
     \<not> isHealthy (recoveryTimeMs p) now (endpoints p ! ((rrIndex p + j) mod length (endpoints p))))"
proof (induction n now p i rule: scan_from.induct)
  case (2 n now p i)
  have split: "(\<forall>j. i \<le> j \<and> j < i + Suc n \<longrightarrow> P j) \<longleftrightarrow> P i \<and> (\<forall>j. Suc i \<le> j \<and> j < Suc i + n \<longrightarrow> P j)" for P
    by (metis Suc_leD Suc_leI add_Suc add_Suc_right le_neq_implies_less less_add_Suc1 order_refl)
  show ?case
    unfolding split using 2 by (auto simp: Let_def)
qed auto

text \<open>Every index is met in one pass.\<close>

lemma pass_covers: "m < L \<Longrightarrow> \<exists>j < L. (r + j) mod L = m" for L :: nat
proof -
  assume m: "m < L"
  have "(r + (m + (L - r mod L)) mod L) mod L = (r mod L + (m + (L - r mod L))) mod L"
    by (simp add: mod_simps)
  also have "\<dots> = (m + L) mod L"
  proof -
    have "r mod L \<le> L" using m by (simp add: less_imp_le)
    then have "r mod L + (m + (L - r mod L)) = m + L" by simp
    then show ?thesis by simp
  qed
  finally have "(r + (m + (L - r mod L)) mod L) mod L = m" using m by simp
  moreover have "(m + (L - r mod L)) mod L < L" using m by simp
  ultimately show ?thesis by blast
qed

lemma scan_all_None:
  "scan_from (length (endpoints p)) now p 0 = None \<longleftrightarrow> healthyEndpoints now p = []"
proof -
  let ?L = "length (endpoints p)" and ?h = "isHealthy (recoveryTimeMs p) now"
  have "scan_from ?L now p 0 = None \<longleftrightarrow> (\<forall>j < ?L. \<not> ?h (endpoints p ! ((rrIndex p + j) mod ?L)))"
    by (simp add: scan_from_None)
  also have "\<dots> \<longleftrightarrow> (\<forall>m < ?L. \<not> ?h (endpoints p ! m))"
    using pass_covers[of _ ?L "rrIndex p"] by (metis mod_less_divisor gr_zeroI less_zeroE)
  also have "\<dots> \<longleftrightarrow> healthyEndpoints now p = []"
    by (auto simp: healthyEndpoints_def filter_empty_conv in_set_conv_nth dest: nth_mem)
  finally show ?thesis .
qed

text \<open>
  C9: \<open>getEndpoint\<close> throws exactly when no endpoint is healthy. Otherwise it returns the first
  healthy endpoint at or after the round-robin index (cyclically), every endpoint it skipped
  being unhealthy, moves the index just behind it, and changes nothing else.
\<close>

theorem getEndpoint_selects:
  "(\<exists>e. fst (getEndpoint now p) = Inl e) = (healthyEndpoints now p = []) \<and>
   (healthyEndpoints now p = [] \<or>
    (\<exists>j. j < pool_size p \<and>
       (let L = pool_size p; idx = (rrIndex p + j) mod L in
        getEndpoint now p = (Inr (url (endpoints p ! idx)), p\<lparr>rrIndex := (idx + 1) mod L\<rparr>) \<and>
        url (endpoints p ! idx) \<in> set (healthyEndpoints now p) \<and>
        filter (isHealthy (recoveryTimeMs p) now)
          (map (\<lambda>k. endpoints p ! ((rrIndex p + k) mod L)) [0..<j]) = [])))"
proof (cases "scan_from (length (endpoints p)) now p 0")
  case None
  then show ?thesis using scan_all_None[of p now] by (simp add: getEndpoint_def)
next
  case (Some idx)
  let ?L = "length (endpoints p)"
  from scan_from_Some[OF Some] obtain j where j: "j < ?L" "idx = (rrIndex p + j) mod ?L"
    "isHealthy (recoveryTimeMs p) now (endpoints p ! idx)"
    "\<And>k. k < j \<Longrightarrow> \<not> isHealthy (recoveryTimeMs p) now (endpoints p ! ((rrIndex p + k) mod ?L))"
    by auto
  have "idx < ?L" unfolding j(2) using j(1) by (intro mod_less_divisor) linarith
  then have "url (endpoints p ! idx) \<in> set (healthyEndpoints now p)"
    using j(3) by (auto simp: healthyEndpoints_def)
  then show ?thesis
    using Some j scan_all_None[of p now]
    by (auto simp: getEndpoint_def pool_size_def Let_def filter_empty_conv intro!: exI[of _ j])
qed

section \<open>The pool under its clients\<close>

datatype pool_event = Get int | Add string | Remove string | MarkFailed string int
  | Success string | Failure string int | MarkHealthy string

definition pool_step :: "pool \<Rightarrow> pool_event \<Rightarrow> pool" where
  "pool_step p e = (case e of
       Get now \<Rightarrow> snd (getEndpoint now p)
     | Add u \<Rightarrow> addEndpoint u p
     | Remove u \<Rightarrow> removeEndpoint u p
     | MarkFailed u now \<Rightarrow> markFailed u now p
     | Success u \<Rightarrow> reportSuccess u p
     | Failure u now \<Rightarrow> reportFailure u now p
     | MarkHealthy u \<Rightarrow> markHealthy u p)"

text \<open>
  The index points into the array (or is 0), no URL is there twice, and an endpoint out of
  rotation has reached the threshold.
\<close>

definition pool_inv :: "pool \<Rightarrow> bool" where
  "pool_inv p \<longleftrightarrow> (rrIndex p = 0 \<or> rrIndex p < length (endpoints p)) \<and>
     distinct (map url (endpoints p)) \<and>
     list_all (\<lambda>ep. unhealthyAt ep = None \<or> failureThreshold p \<le> consecutiveFailures ep) (endpoints p)"

lemma update_first_urls:
  "(\<And>ep. url (f ep) = url ep) \<Longrightarrow> map url (update_first u f eps) = map url eps"
  by (induction eps) auto

lemma update_first_all:
  "list_all P eps \<Longrightarrow> (\<And>ep. P ep \<Longrightarrow> P (f ep)) \<Longrightarrow> list_all P (update_first u f eps)"
  by (induction eps) auto

lemma update_first_length [simp]: "length (update_first u f eps) = length eps"
  by (induction eps) auto

lemma update_pool_inv:
  assumes "pool_inv p" and "\<And>ep. url (f ep) = url ep"
    and "\<And>ep. unhealthyAt ep = None \<or> failureThreshold p \<le> consecutiveFailures ep \<Longrightarrow>
      unhealthyAt (f ep) = None \<or> failureThreshold p \<le> consecutiveFailures (f ep)"
  shows "pool_inv (p\<lparr>endpoints := update_first u f (endpoints p)\<rparr>)"
  using assms update_first_urls[of f u "endpoints p", OF assms(2)]
    update_first_all[where P = "\<lambda>ep. unhealthyAt ep = None \<or> failureThreshold p \<le> consecutiveFailures ep"]
  by (auto simp: pool_inv_def)

lemma isHealthy_None: "unhealthyAt ep = None \<Longrightarrow> isHealthy recovery now ep"
  by (simp add: isHealthy_def)

lemma distinct_map_filter_url: "distinct (map url eps) \<Longrightarrow> distinct (map url (filter P eps))"
  by (induction eps) auto

lemma pool_step_inv: "pool_inv p \<Longrightarrow> pool_inv (pool_step p e)"
proof (cases e)
  case (Get now)
  then show "pool_inv p \<Longrightarrow> ?thesis"
    by (auto simp: pool_step_def getEndpoint_def pool_inv_def split: option.splits
        dest!: scan_from_Some intro!: mod_less_divisor)
next
  case (Add u)
  then show "pool_inv p \<Longrightarrow> ?thesis"
    by (auto simp: pool_step_def addEndpoint_def pool_inv_def find_endpoint_def fresh_endpoint_def
        find_None_iff split: option.splits)
next
  case (Remove u)
  then show "pool_inv p \<Longrightarrow> ?thesis"
    using length_filter_less[of _ "endpoints p" "\<lambda>ep. url ep \<noteq> u"]
    by (auto simp: pool_step_def removeEndpoint_def pool_inv_def Let_def distinct_map_filter_url
        list_all_iff)
qed (auto simp: pool_step_def markFailed_def reportSuccess_def reportFailure_def markHealthy_def Let_def
    intro!: update_pool_inv)

interpretation cp: invariant_machine pool_step pool_inv
  by unfold_locales (rule pool_step_inv)

text \<open>
  The pool keeps its shape. Starting from a list of distinct URLs, after any sequence of
  calls the round-robin index is 0 or a valid index, no URL occurs twice, and every endpoint
  that \<open>getEndpoint\<close> would skip at any time has at least \<open>failureThreshold\<close> recorded failures.
\<close>

theorem pool_invariant:
  assumes "new_pool (Some us) opts = Inr p0" and "distinct us"
    and "p = run_steps pool_step p0 es"
  shows "(rrIndex p = 0 \<or> rrIndex p < pool_size p) \<and>
    distinct (healthyEndpoints now p @ unhealthyEndpoints now p) \<and>
    list_all (\<lambda>ep. isHealthy (recoveryTimeMs p) now ep \<or> failureThreshold p \<le> consecutiveFailures ep)
      (endpoints p)"
proof -
  have "map url (map fresh_endpoint us) = us" by (simp add: fresh_endpoint_def comp_def)
  then have "pool_inv p0" using assms(1,2)
    by (auto simp: new_pool_def pool_inv_def list_all_iff fresh_endpoint_def comp_def split: if_splits)
  then have inv: "pool_inv p" unfolding assms(3) by (rule cp.run_inv)
  have "distinct (map url eps) \<Longrightarrow> distinct (map url (filter P eps) @ map url (filter (\<lambda>ep. \<not> P ep) eps))"
    for P eps by (induction eps) auto
  with inv show ?thesis
    by (auto simp: pool_inv_def pool_size_def healthyEndpoints_def unhealthyEndpoints_def
        list_all_iff isHealthy_None simp del: distinct_append)
qed

lemma pool_invariant_witness:
  "let p = run_steps pool_step \<lparr>endpoints = map fresh_endpoint [''a'', ''b''], failureThreshold = 1,
      recoveryTimeMs = 100, rrIndex = 0\<rparr> [Get 0, Failure ''a'' 1, Get 2, Remove ''b'', Add ''c'']
   in rrIndex p = 0 \<or> rrIndex p < pool_size p"
  unfolding Let_def
  by (rule pool_invariant[of "[''a'', ''b'']" "\<lparr>optFailureThreshold = Some 1,
      optRecoveryTimeMs = Some 100, optFailureTimeoutMs = None\<rparr>", OF _ _ refl, THEN conjunct1])
    (simp_all add: new_pool_def)

text \<open>\<open>n\<close> successive calls of \<open>getEndpoint\<close>.\<close>

fun get_many :: "int list \<Rightarrow> pool \<Rightarrow> string result list \<times> pool" where
  "get_many [] p = ([], p)"
| "get_many (t # ts) p = (case getEndpoint t p of (r, p1) \<Rightarrow>
     case get_many ts p1 of (rs, p2) \<Rightarrow> (r # rs, p2))"

text \<open>
  Round robin is fair: while every endpoint is in rotation, successive calls return the
  endpoints in cyclic order from the round-robin index, so any \<open>size\<close> successive calls return
  each endpoint once.
\<close>

theorem round_robin_fair:
  assumes "endpoints p \<noteq> []" and "list_all (\<lambda>ep. unhealthyAt ep = None) (endpoints p)"
  shows "fst (get_many ts p) = map (\<lambda>k. Inr (url (endpoints p ! ((rrIndex p + k) mod pool_size p))))
     [0..<length ts]"
  using assms
proof (induction ts arbitrary: p)
  case (Cons t ts)
  let ?L = "pool_size p" and ?p1 = "p\<lparr>rrIndex := ((rrIndex p mod pool_size p) + 1) mod pool_size p\<rparr>"
  obtain L' where L: "length (endpoints p) = Suc L'" using Cons.prems(1) by (cases "endpoints p") auto
  have "isHealthy (recoveryTimeMs p) t (endpoints p ! (rrIndex p mod length (endpoints p)))"
    using Cons.prems by (simp add: isHealthy_def list_all_length)
  then have g: "getEndpoint t p = (Inr (url (endpoints p ! (rrIndex p mod ?L))), ?p1)"
    using L by (simp add: getEndpoint_def pool_size_def Let_def)
  have "pool_size ?p1 = ?L" by (simp add: pool_size_def)
  then have "fst (get_many ts ?p1) = map (\<lambda>k. Inr (url (endpoints p ! ((rrIndex p + Suc k) mod ?L))))
      [0..<length ts]"
    using Cons.IH[of ?p1] Cons.prems by (simp add: mod_simps)
  then show ?case using g
    by (simp add: upt_conv_Cons map_Suc_upt[symmetric] comp_def case_prod_unfold del: upt_Suc)
qed simp

lemma round_robin_fair_witness:
  "fst (get_many [0, 5, 9] \<lparr>endpoints = map fresh_endpoint [''a'', ''b''], failureThreshold = 3,
     recoveryTimeMs = 30000, rrIndex = 1\<rparr>) = [Inr ''b'', Inr ''a'', Inr ''b'']"
  by (subst round_robin_fair) (simp, simp add: fresh_endpoint_def, code_simp)

end
