(* ===== verification/Retry.thy ===== *)
theory Retry
  imports SdkErrors
begin

text \<open>
  \<open>src/utils/retry.ts\<close> and \<open>src/utils/idempotent-resubmit.ts\<close>: the circuit breaker, the
  registry of breakers by label, exponential-backoff retry and retry with a landed-check.
  Breakers are objects shared by reference (a call keeps its breaker after
  \<open>resetCircuitBreakers\<close>), so they live in a store and the registry maps labels to
  references. The caller's functions (\<open>fn\<close>, \<open>submit\<close>, \<open>checkLanded\<close>) and \<open>sleep\<close> are
  effectful calls on a world that extends this store; while they are pending, other calls may
  use the same breakers. Times are integral milliseconds, delays rationals. Logging is
  dropped.
\<close>

section \<open>The circuit breaker\<close>

datatype circuit_state = Closed | Open | HalfOpen

record breaker =
  label :: string
  failureThreshold :: int
  cooldownMs :: int
  consecutiveFailures :: int
  openedAtMs :: "int option"
  halfOpenInFlight :: bool

record breaker_options =
  optThreshold :: "int option"
  optCooldown :: "int option"

definition new_breaker :: "string \<Rightarrow> breaker_options option \<Rightarrow> breaker" where
  "new_breaker l opts = \<lparr>label = l,
     failureThreshold = (case Option.bind opts optThreshold of None \<Rightarrow> 5 | Some t \<Rightarrow> t),
     cooldownMs = (case Option.bind opts optCooldown of None \<Rightarrow> 30000 | Some c \<Rightarrow> c),
     consecutiveFailures = 0, openedAtMs = None, halfOpenInFlight = False\<rparr>"

definition setOptions :: "breaker_options option \<Rightarrow> breaker \<Rightarrow> breaker" where
  "setOptions opts b = (case opts of None \<Rightarrow> b
     | Some opt \<Rightarrow> b\<lparr>
         failureThreshold := (case optThreshold opt of None \<Rightarrow> failureThreshold b | Some t \<Rightarrow> t),
         cooldownMs := (case optCooldown opt of None \<Rightarrow> cooldownMs b | Some c \<Rightarrow> c)\<rparr>)"

definition getState :: "int \<Rightarrow> breaker \<Rightarrow> circuit_state" where
  "getState now b = (case openedAtMs b of None \<Rightarrow> Closed
     | Some t \<Rightarrow> if cooldownMs b \<le> now - t then HalfOpen else Open)"

definition beforeRequest :: "int \<Rightarrow> breaker \<Rightarrow> (sdk_error, unit) res \<times> breaker" where
  "beforeRequest now b = (case getState now b of
       Open \<Rightarrow> (Inl (CircuitOpenError (label b)), b)
     | HalfOpen \<Rightarrow> if halfOpenInFlight b then (Inl (CircuitOpenError (label b)), b)
                   else (Inr (), b\<lparr>halfOpenInFlight := True\<rparr>)
     | Closed \<Rightarrow> (Inr (), b))"

definition onSuccess :: "breaker \<Rightarrow> breaker" where
  "onSuccess b = b\<lparr>consecutiveFailures := 0, openedAtMs := None, halfOpenInFlight := False\<rparr>"

definition onFailure :: "int \<Rightarrow> breaker \<Rightarrow> breaker" where
  "onFailure now b = (let b' = b\<lparr>halfOpenInFlight := False,
                                 consecutiveFailures := consecutiveFailures b + 1\<rparr>
     in if failureThreshold b' \<le> consecutiveFailures b' then b'\<lparr>openedAtMs := Some now\<rparr> else b')"

section \<open>The breaker as a machine\<close>

text \<open>What the concurrent callers of one breaker do to it, in the order of the event loop.\<close>

datatype breaker_event = Before int | Succeeded | Failed int | Options "breaker_options option"

definition breaker_step :: "breaker \<Rightarrow> breaker_event \<Rightarrow> breaker" where
  "breaker_step b e = (case e of
       Before now \<Rightarrow> snd (beforeRequest now b)
     | Succeeded \<Rightarrow> onSuccess b
     | Failed now \<Rightarrow> onFailure now b
     | Options opts \<Rightarrow> setOptions opts b)"

definition admits :: "int \<Rightarrow> breaker \<Rightarrow> bool" where
  "admits now b \<longleftrightarrow> fst (beforeRequest now b) = Inr ()"

text \<open>A probe is only ever in flight on an open breaker, and the failure count is not negative.\<close>

definition breaker_inv :: "breaker \<Rightarrow> bool" where
  "breaker_inv b \<longleftrightarrow> 0 \<le> consecutiveFailures b \<and>
     (halfOpenInFlight b \<longrightarrow> openedAtMs b \<noteq> None) \<and>
     (openedAtMs b \<noteq> None \<longrightarrow> 0 < consecutiveFailures b)"

lemmas breaker_defs = beforeRequest_def onSuccess_def onFailure_def setOptions_def getState_def
  Let_def

lemma breaker_step_inv: "breaker_inv b \<Longrightarrow> breaker_inv (breaker_step b e)"
  by (cases e) (auto simp: breaker_inv_def breaker_step_def breaker_defs split: option.splits)

interpretation cb: invariant_machine breaker_step breaker_inv
  by unfold_locales (rule breaker_step_inv)

lemma admits_iff:
  "admits now b \<longleftrightarrow> (case openedAtMs b of None \<Rightarrow> True
     | Some t \<Rightarrow> cooldownMs b \<le> now - t \<and> \<not> halfOpenInFlight b)"
  by (auto simp: admits_def breaker_defs split: option.splits)

lemma before_rejected: "\<not> admits now b \<Longrightarrow> breaker_step b (Before now) = b"
  by (auto simp: admits_def breaker_step_def breaker_defs split: option.splits)

lemma failures_run:
  "openedAtMs b = None \<Longrightarrow> int (length ts) + consecutiveFailures b < failureThreshold b \<Longrightarrow>
   run_steps breaker_step b (map Failed ts)
     = (if ts = [] then b else b\<lparr>halfOpenInFlight := False,
          consecutiveFailures := consecutiveFailures b + int (length ts)\<rparr>)"
proof (induction ts arbitrary: b)
  case Nil
  then show ?case by simp
next
  case (Cons t ts)
  let ?b = "b\<lparr>halfOpenInFlight := False, consecutiveFailures := consecutiveFailures b + 1\<rparr>"
  have "breaker_step b (Failed t) = ?b"
    using Cons.prems by (simp add: breaker_step_def onFailure_def)
  with Cons.IH[of ?b] Cons.prems show ?case by simp
qed

text \<open>
  C30: A closed breaker opens exactly at its threshold. After fewer consecutive failures than
  \<open>failureThreshold\<close> it still admits at every time; the failure that reaches the threshold
  opens it, and it then rejects every request until \<open>cooldownMs\<close> have passed since that
  failure and admits one afterwards.
\<close>

theorem breaker_opens_at_threshold:
  assumes "int (length ts) + 1 = failureThreshold (new_breaker l opts)"
  shows "admits now (run_steps breaker_step (new_breaker l opts) (map Failed ts)) \<and>
     (admits now (run_steps breaker_step (new_breaker l opts) (map Failed ts @ [Failed t]))
       \<longleftrightarrow> cooldownMs (new_breaker l opts) \<le> now - t)"
proof -
  let ?b = "new_breaker l opts"
  let ?c = "if ts = [] then ?b else ?b\<lparr>halfOpenInFlight := False,
          consecutiveFailures := consecutiveFailures ?b + int (length ts)\<rparr>"
  have b: "openedAtMs ?b = None" "consecutiveFailures ?b = 0" "\<not> halfOpenInFlight ?b"
    by (simp_all add: new_breaker_def)
  have r: "run_steps breaker_step ?b (map Failed ts) = ?c"
    using failures_run[of ?b ts] b assms by simp
  have "openedAtMs (breaker_step ?c (Failed t)) = Some t"
    "\<not> halfOpenInFlight (breaker_step ?c (Failed t))"
    "cooldownMs (breaker_step ?c (Failed t)) = cooldownMs ?b"
    using b assms by (auto simp: breaker_step_def onFailure_def)
  with b r show ?thesis by (simp add: admits_iff)
qed

lemma breaker_opens_at_threshold_witness:
  "\<not> admits 31002 (run_steps breaker_step (new_breaker ''RPC'' None)
      (map Failed [1, 2, 3, 900] @ [Failed 1003]))"
  using breaker_opens_at_threshold[where l = "''RPC''" and opts = None and ts = "[1, 2, 3, 900]"
      and now = 31002 and t = 1003]
  by (simp add: new_breaker_def del: run_steps_append run_steps_Cons)

text \<open>
  A half-open breaker admits one probe. Once a request is admitted by an open breaker,
  every further request is rejected at whatever time it comes, until a success or a failure is
  reported.
\<close>

theorem half_open_single_probe:
  assumes "openedAtMs b = Some t" and "admits now b"
  shows "\<not> admits later (run_steps breaker_step b (map Before (now # us)))"
proof -
  have s: "\<not> halfOpenInFlight b" "cooldownMs b \<le> now - t"
    using assms by (auto simp: admits_iff)
  have first: "breaker_step b (Before now) = b\<lparr>halfOpenInFlight := True\<rparr>"
    using s assms(1) by (simp add: breaker_step_def breaker_defs)
  have "run_steps breaker_step (b\<lparr>halfOpenInFlight := True\<rparr>) (map Before ts)
     = b\<lparr>halfOpenInFlight := True\<rparr>" for ts
  proof (induction ts)
    case (Cons u ts)
    have "\<not> admits u (b\<lparr>halfOpenInFlight := True\<rparr>)" using assms(1) by (simp add: admits_iff)
    with Cons show ?case by (simp add: before_rejected)
  qed simp
  with first assms(1) show ?thesis by (simp add: admits_iff)
qed

lemma half_open_single_probe_witness:
  "\<not> admits 99999 (run_steps breaker_step
     \<lparr>label = ''RPC'', failureThreshold = 1, cooldownMs = 10, consecutiveFailures = 1,
      openedAtMs = Some 5, halfOpenInFlight = False\<rparr> (map Before (15 # [16, 500])))"
  by (rule half_open_single_probe[where t = 5]) (simp_all add: admits_iff)

text \<open>
  The probe limit does not survive a straggler. A request admitted while the breaker was
  closed and failing after the probe was admitted clears the in-flight flag, and after one
  more cooldown a second probe is admitted although the first has reported nothing.
\<close>

theorem straggler_admits_second_probe:
  "let b = run_steps breaker_step
       (new_breaker ''RPC'' (Some \<lparr>optThreshold = Some 1, optCooldown = Some 10\<rparr>))
       [Before 0, Before 0, Failed 1, Before 11, Failed 12]
   in admits 22 b \<and> \<not> admits 21 b"
  by (simp add: Let_def admits_iff breaker_step_def breaker_defs new_breaker_def)

section \<open>The registry and the world\<close>

record host =
  clock :: int
  cb_store :: "breaker list"
  cb_registry :: "string \<Rightarrow> nat option"

definition upd_breaker :: "nat \<Rightarrow> (breaker \<Rightarrow> breaker) \<Rightarrow> 'x host_scheme \<Rightarrow> 'x host_scheme" where
  "upd_breaker r f w = w\<lparr>cb_store := (cb_store w)[r := f (cb_store w ! r)]\<rparr>"

definition getCircuitBreaker ::
    "string \<Rightarrow> breaker_options option \<Rightarrow> 'x host_scheme \<Rightarrow> nat \<times> 'x host_scheme" where
  "getCircuitBreaker l opts w = (case cb_registry w l of
       Some r \<Rightarrow> (r, upd_breaker r (setOptions opts) w)
     | None \<Rightarrow> (length (cb_store w),
         w\<lparr>cb_store := cb_store w @ [new_breaker l opts],
           cb_registry := (cb_registry w)(l \<mapsto> length (cb_store w))\<rparr>))"

definition resetCircuitBreakers :: "'x host_scheme \<Rightarrow> 'x host_scheme" where
  "resetCircuitBreakers w = w\<lparr>cb_registry := (\<lambda>_. None)\<rparr>"

text \<open>
  A thrown value: a foreign one, with the fields \<open>response.status\<close>, \<open>code\<close>, \<open>message\<close> it
  may have and its string form, or an error of the SDK, or \<open>undefined\<close> (the initial
  \<open>lastError\<close>).
\<close>

datatype thrown = Rejected "int option" "string option" "string option" string
  | Sdk sdk_error | Undefined

definition isRetryable :: "thrown \<Rightarrow> bool" where
  "isRetryable err =
    (let status = (case err of Rejected s _ _ _ \<Rightarrow> s | _ \<Rightarrow> None);
         code = (case err of Rejected _ c _ _ \<Rightarrow> c | Sdk e \<Rightarrow> err_code e | Undefined \<Rightarrow> None);
         message = to_lower (case err of
             Rejected _ _ m s \<Rightarrow> (case m of Some t \<Rightarrow> t | None \<Rightarrow> s)
           | Sdk e \<Rightarrow> err_message e | Undefined \<Rightarrow> '''')
     in status \<in> {Some 429, Some 503} \<or> code \<in> {Some ''ECONNABORTED'', Some ''ETIMEDOUT''} \<or>
        list_ex (includes_str message) [''timeout'', ''socket hang up'', ''429'',
          ''too many requests'', ''503'', ''service unavailable'', ''econnreset'', ''enotfound''])"

section \<open>Retry with backoff\<close>

record retry_options =
  maxRetries :: int
  baseDelayMs :: "rat option"
  retryDelayMs :: "rat option"
  backoffMultiplier :: "rat option"
  maxDelayMs :: "rat option"
  maxRetryDelayMs :: "rat option"
  deadlineMs :: "int option"
  circuitBreaker :: "breaker_options option"

record retry_config =
  cfgRetries :: int
  cfgBase :: rat
  cfgMult :: rat
  cfgMax :: rat

definition orElse :: "'a option \<Rightarrow> 'a option \<Rightarrow> 'a option" where
  "orElse a b = (case a of None \<Rightarrow> b | Some _ \<Rightarrow> a)"

definition DEFAULT_RETRY_CONFIG :: retry_config where
  "DEFAULT_RETRY_CONFIG = \<lparr>cfgRetries = 3, cfgBase = 1000, cfgMult = 2, cfgMax = 30000\<rparr>"

definition normalizeRetryConfig :: "retry_options \<Rightarrow> retry_config" where
  "normalizeRetryConfig opts = \<lparr>cfgRetries = maxRetries opts,
     cfgBase = (case orElse (baseDelayMs opts) (retryDelayMs opts) of
         Some d \<Rightarrow> d | None \<Rightarrow> cfgBase DEFAULT_RETRY_CONFIG),
     cfgMult = (case backoffMultiplier opts of Some m \<Rightarrow> m | None \<Rightarrow> 2),
     cfgMax = (case orElse (maxDelayMs opts) (maxRetryDelayMs opts) of
         Some d \<Rightarrow> d | None \<Rightarrow> cfgMax DEFAULT_RETRY_CONFIG)\<rparr>"

definition backoff :: "retry_config \<Rightarrow> int \<Rightarrow> rat" where
  "backoff c attempt = min (cfgMax c) (cfgBase c * cfgMult c ^ nat attempt)"

definition past_deadline :: "int option \<Rightarrow> 'x host_scheme \<Rightarrow> bool" where
  "past_deadline dl w = (case dl of None \<Rightarrow> False | Some d \<Rightarrow> d \<le> clock w)"

text \<open>
  The \<open>for\<close> loop. Leaving it by exhausting the attempts throws \<open>lastError\<close> after
  \<open>onFailure\<close>, as the \<open>catch\<close> around it does for a throw, so both are the result \<open>Inl\<close>.
\<close>

function retry_loop :: "(rat \<Rightarrow> 'x host_scheme \<Rightarrow> 'x host_scheme) \<Rightarrow>
    ('x host_scheme, thrown, 'a) act \<Rightarrow> retry_config \<Rightarrow> int option \<Rightarrow> nat \<Rightarrow> int \<Rightarrow> int \<Rightarrow> thrown \<Rightarrow>
    ('x host_scheme, thrown, 'a) act" where
  "retry_loop slp fn c dl r maxR attempt lastError w =
    (if maxR < attempt then (Inl lastError, w)
     else if past_deadline dl w then (Inl (Sdk (DeadlineError (the dl))), w)
     else case fn w of
         (Inr x, w') \<Rightarrow> (Inr x, upd_breaker r onSuccess w')
       | (Inl err, w') \<Rightarrow>
           if \<not> isRetryable err \<or> attempt = maxR then (Inl err, w')
           else retry_loop slp fn c dl r maxR (attempt + 1) err (slp (backoff c attempt) w'))"
  by pat_completeness auto
termination
  by (relation "measure (\<lambda>(_, _, _, _, _, maxR, attempt, _, _). nat (maxR + 1 - attempt))") auto

declare retry_loop.simps [simp del]

definition fail_breaker :: "nat \<Rightarrow> 'x host_scheme \<Rightarrow> 'x host_scheme" where
  "fail_breaker r w = upd_breaker r (onFailure (clock w)) w"

definition withRetry :: "(rat \<Rightarrow> 'x host_scheme \<Rightarrow> 'x host_scheme) \<Rightarrow>
    ('x host_scheme, thrown, 'a) act \<Rightarrow> retry_options \<Rightarrow> string \<Rightarrow>
    ('x host_scheme, thrown, 'a) act" where
  "withRetry slp fn opts lbl w =
    (let config = normalizeRetryConfig opts;
         (r, w1) = getCircuitBreaker lbl (circuitBreaker opts) w;
         stateAtStart = getState (clock w1) (cb_store w1 ! r);
         maxR = (if stateAtStart = HalfOpen then 0 else cfgRetries config)
     in case beforeRequest (clock w1) (cb_store w1 ! r) of
         (Inl e, _) \<Rightarrow> (Inl (Sdk e), w1)
       | (Inr _, b) \<Rightarrow>
           (case retry_loop slp fn config (deadlineMs opts) r maxR 0 Undefined
                  (upd_breaker r (\<lambda>_. b) w1) of
              (Inl err, w2) \<Rightarrow> (Inl err, fail_breaker r w2)
            | (Inr x, w2) \<Rightarrow> (Inr x, w2)))"

section \<open>Retry with a landed-check\<close>

text \<open>\<open>if (landedTxHash)\<close>: neither \<open>null\<close> nor the empty string.\<close>

definition truthy :: "string option \<Rightarrow> bool" where
  "truthy s \<longleftrightarrow> s \<noteq> None \<and> s \<noteq> Some ''''"

function resubmit_loop :: "(rat \<Rightarrow> 'x host_scheme \<Rightarrow> 'x host_scheme) \<Rightarrow>
    ('x host_scheme, thrown, string) act \<Rightarrow> ('x host_scheme, thrown, string option) act \<Rightarrow>
    retry_config \<Rightarrow> int option \<Rightarrow> nat \<Rightarrow> int \<Rightarrow> int \<Rightarrow> thrown \<Rightarrow>
    ('x host_scheme, thrown, string) act" where
  "resubmit_loop slp submit checkLanded c dl r maxR attempt lastError w =
    (if maxR < attempt then (Inl lastError, w)
     else if past_deadline dl w then (Inl (Sdk (DeadlineError (the dl))), w)
     else case submit w of
         (Inr h, w') \<Rightarrow> (Inr h, upd_breaker r onSuccess w')
       | (Inl err, w') \<Rightarrow>
           if \<not> isRetryable err \<or> attempt = maxR then (Inl err, w')
           else case checkLanded w' of
               (Inl e, w2) \<Rightarrow> (Inl e, w2)
             | (Inr landed, w2) \<Rightarrow>
                 if truthy landed then (Inr (the landed), upd_breaker r onSuccess w2)
                 else resubmit_loop slp submit checkLanded c dl r maxR (attempt + 1) err
                        (slp (backoff c attempt) w2))"
  by pat_completeness auto
termination
  by (relation "measure (\<lambda>(_, _, _, _, _, _, maxR, attempt, _, _). nat (maxR + 1 - attempt))") auto

declare resubmit_loop.simps [simp del]

definition idempotentResubmit :: "(rat \<Rightarrow> 'x host_scheme \<Rightarrow> 'x host_scheme) \<Rightarrow>
    ('x host_scheme, thrown, string) act \<Rightarrow> ('x host_scheme, thrown, string option) act \<Rightarrow>
    retry_options \<Rightarrow> string \<Rightarrow> ('x host_scheme, thrown, string) act" where
  "idempotentResubmit slp submit checkLanded opts lbl w =
    (let config = normalizeRetryConfig opts;
         (r, w1) = getCircuitBreaker lbl (circuitBreaker opts) w
     in case beforeRequest (clock w1) (cb_store w1 ! r) of
         (Inl e, _) \<Rightarrow> (Inl (Sdk e), w1)
       | (Inr _, b) \<Rightarrow>
           (case resubmit_loop slp submit checkLanded config (deadlineMs opts) r
                  (cfgRetries config) 0 Undefined (upd_breaker r (\<lambda>_. b) w1) of
              (Inl err, w2) \<Rightarrow> (Inl err, fail_breaker r w2)
            | (Inr x, w2) \<Rightarrow> (Inr x, w2)))"

section \<open>What the loops guarantee\<close>

lemma more_upd_breaker [simp]: "host.more (upd_breaker r f w) = host.more w"
  by (simp add: upd_breaker_def)

lemma clock_upd_breaker [simp]: "clock (upd_breaker r f w) = clock w"
  by (simp add: upd_breaker_def)

lemma more_getCircuitBreaker [simp]: "host.more (snd (getCircuitBreaker l opts w)) = host.more w"
  by (simp add: getCircuitBreaker_def split: option.splits)

lemma clock_getCircuitBreaker [simp]: "clock (snd (getCircuitBreaker l opts w)) = clock w"
  by (simp add: getCircuitBreaker_def split: option.splits)

lemma more_fail_breaker [simp]: "host.more (fail_breaker r w) = host.more w"
  by (simp add: fail_breaker_def)

lemma cfgRetries_normalize [simp]: "cfgRetries (normalizeRetryConfig opts) = maxRetries opts"
  by (simp add: normalizeRetryConfig_def)

lemma more_finish [simp]:
  "host.more (snd (case p of (Inl err, w2) \<Rightarrow> (Inl err, fail_breaker r w2) | (Inr x, w2) \<Rightarrow> (Inr x, w2)))
     = host.more (snd p)"
  by (cases p; cases "fst p") auto

text \<open>The state of the breaker a call on \<open>l\<close> would meet: its options are updated first.\<close>

definition stateAt :: "string \<Rightarrow> breaker_options option \<Rightarrow> 'x host_scheme \<Rightarrow> breaker" where
  "stateAt l opts w = (case getCircuitBreaker l opts w of (r, w1) \<Rightarrow> cb_store w1 ! r)"

lemma retry_loop_inv:
  assumes fn: "\<And>k w. I k w \<Longrightarrow> \<not> past_deadline dl w \<Longrightarrow> I (Suc k) (snd (fn w))"
    and slp: "\<And>k d w. I k w \<Longrightarrow> I k (slp d w)"
    and upd: "\<And>k f w. I k w \<Longrightarrow> I k (upd_breaker r f w)"
  shows "I k w \<Longrightarrow>
    \<exists>j \<le> k + nat (maxR + 1 - attempt). I j (snd (retry_loop slp fn c dl r maxR attempt e w))"
proof (induction "nat (maxR + 1 - attempt)" arbitrary: attempt e w k rule: less_induct)
  case less
  let ?goal = "\<lambda>p. \<exists>j \<le> k + nat (maxR + 1 - attempt). I j (snd p)"
  show ?case
  proof (cases "maxR < attempt \<or> past_deadline dl w")
    case True
    then show ?thesis using less.prems by (subst retry_loop.simps) (auto intro!: exI[of _ k])
  next
    case False
    obtain res w' where f: "fn w = (res, w')" by fastforce
    have w': "I (Suc k) w'" using fn[OF less.prems] False f by simp
    have k: "Suc k \<le> k + nat (maxR + 1 - attempt)" using False by linarith
    have "?goal (retry_loop slp fn c dl r maxR (attempt + 1) err (slp d w'))" for err d
    proof -
      have "\<exists>j \<le> Suc k + nat (maxR - attempt).
          I j (snd (retry_loop slp fn c dl r maxR (attempt + 1) err (slp d w')))"
        using less.hyps[of "attempt + 1" "Suc k" "slp d w'" err, OF _ slp[OF w']] False
        by (simp add: algebra_simps)
      moreover have "attempt \<le> maxR" using False by simp
      then have "Suc k + nat (maxR - attempt) = k + nat (maxR + 1 - attempt)" by arith
      ultimately show ?thesis by metis
    qed
    with w' k upd[OF w'] False f show ?thesis
      by (subst retry_loop.simps) (auto split: sum.splits intro!: exI[of _ "Suc k"])
  qed
qed

lemma withRetry_inv:
  assumes "\<And>k w. I k w \<Longrightarrow> \<not> past_deadline (deadlineMs opts) w \<Longrightarrow> I (Suc k) (snd (fn w))"
    and "\<And>k d w. I k w \<Longrightarrow> I k (slp d w)"
    and upd: "\<And>k r f w. I k w \<Longrightarrow> I k (upd_breaker r f w)"
    and get: "\<And>k l opts w. I k w \<Longrightarrow> I k (snd (getCircuitBreaker l opts w))"
    and "I 0 w"
  shows "\<exists>j. I j (snd (withRetry slp fn opts l w)) \<and>
     j \<le> (if \<not> admits (clock w) (stateAt l (circuitBreaker opts) w) then 0
          else if getState (clock w) (stateAt l (circuitBreaker opts) w) = HalfOpen then 1
          else nat (maxRetries opts + 1))"
proof -
  obtain r w1 where g: "getCircuitBreaker l (circuitBreaker opts) w = (r, w1)" by fastforce
  let ?b = "cb_store w1 ! r"
  have w1: "clock w1 = clock w" "stateAt l (circuitBreaker opts) w = ?b"
    using clock_getCircuitBreaker[of l "circuitBreaker opts" w] g by (simp_all add: stateAt_def)
  have I1: "I 0 w1" using get[OF \<open>I 0 w\<close>, of l "circuitBreaker opts"] g by simp
  obtain a b where adm: "beforeRequest (clock w) ?b = (a, b)" by fastforce
  let ?m = "if getState (clock w) ?b = HalfOpen then 0 else maxRetries opts"
  define run where "run = retry_loop slp fn (normalizeRetryConfig opts) (deadlineMs opts)
      r ?m 0 Undefined (upd_breaker r (\<lambda>_. b) w1)"
  have "\<exists>j \<le> nat (?m + 1). I j (snd run)"
    using retry_loop_inv[where I = I and dl = "deadlineMs opts" and fn = fn and slp = slp
        and r = r and attempt = 0 and maxR = ?m and k = 0, OF assms(1,2) upd upd[OF I1]]
    unfolding run_def by simp
  then obtain j where j: "j \<le> nat (?m + 1)" "I j (snd run)" by blast
  have "I j (snd (case run of (Inl err, w2) \<Rightarrow> (Inl err, fail_breaker r w2) | (Inr x, w2) \<Rightarrow> (Inr x, w2)))"
    using j(2) upd by (cases run; cases "fst run") (auto simp: fail_breaker_def)
  then have "I (if a = Inr () then j else 0) (snd (withRetry slp fn opts l w))"
    using g adm w1 I1 by (cases a) (auto simp: withRetry_def Let_def run_def split: if_splits)
  moreover have "admits (clock w) ?b \<longleftrightarrow> a = Inr ()" using adm by (simp add: admits_def)
  ultimately show ?thesis using j w1
    by (intro exI[of _ "if a = Inr () then j else 0"]) (auto split: if_splits)
qed

text \<open>
  How often \<open>withRetry\<close> calls the wrapped function: never when the breaker rejects, at
  most once when the breaker is half-open, and at most \<open>maxRetries + 1\<close> times otherwise. The
  count is any quantity of the world that a call of \<open>fn\<close> increases by one and sleeping
  leaves alone.
\<close>

theorem withRetry_calls:
  fixes calls :: "'x \<Rightarrow> nat"
  assumes fn: "\<And>w :: 'x host_scheme. calls (host.more (snd (fn w))) = Suc (calls (host.more w))"
    and slp: "\<And>d w. calls (host.more (slp d w)) = calls (host.more w)"
  shows "calls (host.more (snd (withRetry slp fn opts l w))) \<le> calls (host.more w) +
     (if \<not> admits (clock w) (stateAt l (circuitBreaker opts) w) then 0
      else if getState (clock w) (stateAt l (circuitBreaker opts) w) = HalfOpen then 1
      else nat (maxRetries opts + 1))"
  using withRetry_inv[where I = "\<lambda>k v. calls (host.more v) = calls (host.more w) + k" and fn = fn
      and slp = slp and opts = opts and l = l and w = w] fn slp by fastforce

text \<open>
  C29: No call starts late. With a \<open>deadlineMs\<close>, every call of the wrapped function that
  \<open>withRetry\<close> makes starts at a clock reading strictly before the deadline; the starting
  times are any record that a call of \<open>fn\<close> extends by the current clock.
\<close>

theorem withRetry_respects_deadline:
  fixes starts :: "'x \<Rightarrow> int list"
  assumes "\<And>w :: 'x host_scheme. starts (host.more (snd (fn w))) = clock w # starts (host.more w)"
    and "\<And>d w. starts (host.more (slp d w)) = starts (host.more w)"
    and "deadlineMs opts = Some d" and "starts (host.more w) = []"
  shows "list_all (\<lambda>t. t < d) (starts (host.more (snd (withRetry slp fn opts l w))))"
  using withRetry_inv[where I = "\<lambda>k v. list_all (\<lambda>t. t < d) (starts (host.more v))" and fn = fn
      and slp = slp and opts = opts and l = l and w = w] assms
  by (fastforce simp: past_deadline_def)

definition plain_options :: "int \<Rightarrow> retry_options" where
  "plain_options n = \<lparr>maxRetries = n, baseDelayMs = None, retryDelayMs = None,
     backoffMultiplier = None, maxDelayMs = None, maxRetryDelayMs = None, deadlineMs = None,
     circuitBreaker = None\<rparr>"

definition fresh_host :: "'x \<Rightarrow> 'x host_scheme" where
  "fresh_host x = \<lparr>clock = 0, cb_store = [], cb_registry = (\<lambda>_. None), \<dots> = x\<rparr>"

lemma stateAt_fresh: "stateAt l opts (fresh_host x) = new_breaker l opts"
  by (simp add: stateAt_def fresh_host_def getCircuitBreaker_def)

lemma plain_options_simps [simp]:
  "maxRetries (plain_options n) = n" "circuitBreaker (plain_options n) = None"
  "deadlineMs (plain_options n) = None"
  by (simp_all add: plain_options_def)

lemma fresh_host_simps [simp]: "host.more (fresh_host x) = x" "clock (fresh_host x) = 0"
  by (simp_all add: fresh_host_def)

lemma openedAtMs_new: "openedAtMs (new_breaker l opts) = None"
  by (simp add: new_breaker_def)

definition always_503 :: "(nat host_scheme, thrown, string) act" where
  "always_503 w = (Inl (Rejected (Some 503) None None []), host.more_update Suc w)"

lemma withRetry_calls_witness:
  "host.more (snd (withRetry (\<lambda>_ w. w) always_503 (plain_options 2) ''RPC'' (fresh_host 0))) \<le> 3"
proof -
  have "host.more (snd (always_503 w)) = Suc (host.more w)" for w
    by (simp add: always_503_def)
  from withRetry_calls[where calls = "\<lambda>n. n" and fn = always_503 and slp = "\<lambda>_ w. w", OF this refl,
      of "plain_options 2" "''RPC''" "fresh_host 0"]
  show ?thesis
    by (simp add: stateAt_fresh getState_def openedAtMs_new split: if_splits)
qed

definition starts_of :: "int list host_scheme \<Rightarrow> int list" where
  "starts_of w = host.more w"

definition late_503 :: "(int list host_scheme, thrown, string) act" where
  "late_503 w = (Inl (Rejected (Some 503) None None []), host.more_update ((#) (clock w)) w)"

definition slow_sleep :: "rat \<Rightarrow> int list host_scheme \<Rightarrow> int list host_scheme" where
  "slow_sleep d w = w\<lparr>clock := clock w + \<lceil>d\<rceil>\<rparr>"

lemma withRetry_respects_deadline_witness:
  "list_all (\<lambda>t. t < 2500) (starts_of (snd (withRetry slow_sleep late_503
     ((plain_options 5)\<lparr>deadlineMs := Some 2500\<rparr>) ''RPC'' (fresh_host []))))"
  unfolding starts_of_def
  by (rule withRetry_respects_deadline[where starts = "\<lambda>ts. ts"])
    (simp_all add: late_503_def slow_sleep_def)

section \<open>At most one landing\<close>

lemma resubmit_loop_landed:
  fixes landed :: "'x \<Rightarrow> nat"
  defines "L \<equiv> \<lambda>w :: 'x host_scheme. landed (host.more w)"
  assumes submit: "\<And>w. L (snd (submit w)) \<in> {L w, Suc (L w)}"
    and submitted: "\<And>w h. fst (submit w) = Inr h \<Longrightarrow> L (snd (submit w)) = Suc (L w)"
    and check: "\<And>w. L (snd (checkLanded w)) = L w"
    and truthful: "\<And>w r. fst (checkLanded w) = Inr r \<Longrightarrow> truthy r \<longleftrightarrow> 0 < L w"
    and slp: "\<And>d w. L (slp d w) = L w"
  shows "L w = 0 \<Longrightarrow> resubmit_loop slp submit checkLanded c dl r maxR attempt e w = (res, w') \<Longrightarrow>
    L w' \<le> 1 \<and> (\<forall>h. res = Inr h \<longrightarrow> L w' = 1)"
proof (induction "nat (maxR + 1 - attempt)" arbitrary: attempt e w rule: less_induct)
  case less
  have upd: "L (upd_breaker r f v) = L v" for f v by (simp add: L_def)
  show ?case
  proof (cases "maxR < attempt \<or> past_deadline dl w")
    case True
    then show ?thesis using less.prems by (subst (asm) resubmit_loop.simps) (auto split: if_splits)
  next
    case False
    obtain o1 w1 where f: "submit w = (o1, w1)" by fastforce
    have w1: "L w1 \<le> 1" "o1 = Inr h \<Longrightarrow> L w1 = 1" for h
      using submit[of w] submitted[of w h] f less.prems(1) by auto
    obtain o2 w2 where g: "checkLanded w1 = (o2, w2)" by fastforce
    have w2: "L w2 = L w1" "o2 = Inr x \<Longrightarrow> truthy x \<longleftrightarrow> 0 < L w1" for x
      using check[of w1] truthful[of w1 x] g by auto
    have rec: "L w' \<le> 1 \<and> (\<forall>h. res = Inr h \<longrightarrow> L w' = 1)"
      if "resubmit_loop slp submit checkLanded c dl r maxR (attempt + 1) err (slp d w2) = (res, w')"
        and "L w2 = 0" for err d
      using less.hyps[OF _ _ that(1)] that(2) slp[of d w2] False by simp
    show ?thesis
      using less.prems(2) False f g w1 w2 upd rec
      by (subst (asm) resubmit_loop.simps) (auto split: sum.splits if_splits)
  qed
qed

lemma idempotentResubmit_landed:
  fixes landed :: "'x \<Rightarrow> nat"
  defines "L \<equiv> \<lambda>w :: 'x host_scheme. landed (host.more w)"
  assumes "\<And>w. L (snd (submit w)) \<in> {L w, Suc (L w)}"
    and "\<And>w h. fst (submit w) = Inr h \<Longrightarrow> L (snd (submit w)) = Suc (L w)"
    and "\<And>w. L (snd (checkLanded w)) = L w"
    and "\<And>w r. fst (checkLanded w) = Inr r \<Longrightarrow> truthy r \<longleftrightarrow> 0 < L w"
    and "\<And>d w. L (slp d w) = L w"
    and "L w = 0" and "idempotentResubmit slp submit checkLanded opts l w = (res, w')"
  shows "L w' \<le> 1 \<and> (\<forall>h. res = Inr h \<longrightarrow> L w' = 1)"
proof -
  obtain r w1 where g: "getCircuitBreaker l (circuitBreaker opts) w = (r, w1)" by fastforce
  obtain a b where adm: "beforeRequest (clock w1) (cb_store w1 ! r) = (a, b)" by fastforce
  have "host.more w1 = host.more w"
    using more_getCircuitBreaker[of l "circuitBreaker opts" w] g by simp
  then have w1: "L w1 = 0" "L (upd_breaker r (\<lambda>_. b) w1) = 0" and fb: "L (fail_breaker r v) = L v" for v
    using assms(7) by (simp_all add: L_def)
  obtain res2 w2 where run: "resubmit_loop slp submit checkLanded (normalizeRetryConfig opts)
      (deadlineMs opts) r (maxRetries opts) 0 Undefined (upd_breaker r (\<lambda>_. b) w1) = (res2, w2)"
    by fastforce
  have "L w2 \<le> 1 \<and> (\<forall>h. res2 = Inr h \<longrightarrow> L w2 = 1)"
    unfolding L_def
    by (rule resubmit_loop_landed[where landed = landed, OF _ _ _ _ _ _ run])
      (use assms w1 in \<open>auto simp: L_def\<close>)
  then show ?thesis using assms(8) g adm w1 fb run
    by (auto simp: idempotentResubmit_def Let_def split: sum.splits)
qed

text \<open>What is submitted: the same operation again and again, at most once more than the retries.\<close>

lemma resubmit_loop_sent:
  fixes sent :: "'x \<Rightarrow> 'a list"
  defines "S \<equiv> \<lambda>w :: 'x host_scheme. sent (host.more w)"
  assumes submit: "\<And>w. S (snd (submit w)) = S w @ [x]" and check: "\<And>w. S (snd (checkLanded w)) = S w"
    and slp: "\<And>d w. S (slp d w) = S w"
  shows "resubmit_loop slp submit checkLanded c dl r maxR attempt e w = (res, w') \<Longrightarrow>
    (\<exists>n \<le> nat (maxR + 1 - attempt). S w' = S w @ replicate n x \<and> (n = 0 \<longrightarrow> isl res))"
proof (induction "nat (maxR + 1 - attempt)" arbitrary: attempt e w rule: less_induct)
  case less
  have upd: "S (upd_breaker r f v) = S v" for f v by (simp add: S_def)
  show ?case
  proof (cases "maxR < attempt \<or> past_deadline dl w")
    case True
    then show ?thesis using less.prems by (subst (asm) resubmit_loop.simps) (auto split: if_splits intro!: exI[of _ 0])
  next
    case False
    obtain o1 w1 where f: "submit w = (o1, w1)" by fastforce
    obtain o2 w2 where g: "checkLanded w1 = (o2, w2)" by fastforce
    have sent: "S w1 = S w @ [x]" "S w2 = S w @ [x]" using submit[of w] check[of w1] f g by simp_all
    have "S w' = S w @ [x] \<or>
        (\<exists>err d. resubmit_loop slp submit checkLanded c dl r maxR (attempt + 1) err (slp d w2) = (res, w'))"
      using less.prems False f g sent upd
      by (subst (asm) resubmit_loop.simps) (auto split: sum.splits if_splits)
    then show ?thesis
    proof (elim disjE exE)
      assume "S w' = S w @ [x]"
      then show ?thesis using False by (intro exI[of _ 1]) auto
    next
      fix err d
      assume "resubmit_loop slp submit checkLanded c dl r maxR (attempt + 1) err (slp d w2) = (res, w')"
      from less.hyps[OF _ this] False obtain n where n: "n \<le> nat (maxR - attempt)"
        "S w' = S (slp d w2) @ replicate n x" by (auto simp: algebra_simps)
      then have "S w' = S w @ replicate (Suc n) x" by (simp add: slp sent)
      moreover have "Suc n \<le> nat (maxR + 1 - attempt)" using n(1) False by linarith
      ultimately show ?thesis by blast
    qed
  qed
qed

lemma idempotentResubmit_sent:
  fixes sent :: "'x \<Rightarrow> 'a list"
  defines "S \<equiv> \<lambda>w :: 'x host_scheme. sent (host.more w)"
  assumes "\<And>w. S (snd (submit w)) = S w @ [x]" and "\<And>w. S (snd (checkLanded w)) = S w"
    and "\<And>d w. S (slp d w) = S w"
    and run: "idempotentResubmit slp submit checkLanded opts l w = (res, w')"
  shows "\<exists>n \<le> nat (maxRetries opts + 1). S w' = S w @ replicate n x \<and> (n = 0 \<longrightarrow> isl res)"
proof -
  obtain r w1 where g: "getCircuitBreaker l (circuitBreaker opts) w = (r, w1)" by fastforce
  obtain a b where adm: "beforeRequest (clock w1) (cb_store w1 ! r) = (a, b)" by fastforce
  have "host.more w1 = host.more w" using more_getCircuitBreaker[of l "circuitBreaker opts" w] g by simp
  then have w1: "S w1 = S w" "S (upd_breaker r (\<lambda>_. b) w1) = S w" and fb: "S (fail_breaker r v) = S v" for v
    by (simp_all add: S_def)
  obtain res2 w2 where loop: "resubmit_loop slp submit checkLanded (normalizeRetryConfig opts)
      (deadlineMs opts) r (maxRetries opts) 0 Undefined (upd_breaker r (\<lambda>_. b) w1) = (res2, w2)"
    by fastforce
  have "\<exists>n \<le> nat (maxRetries opts + 1). S w2 = S (upd_breaker r (\<lambda>_. b) w1) @ replicate n x \<and> (n = 0 \<longrightarrow> isl res2)"
    using resubmit_loop_sent[where sent = sent and x = x, OF _ _ _ loop] assms(2-4) unfolding S_def by simp
  then obtain n where n: "n \<le> nat (maxRetries opts + 1)" "S w2 = S w @ replicate n x" "n = 0 \<longrightarrow> isl res2"
    unfolding w1 by blast
  show ?thesis
  proof (cases a)
    case (Inl err)
    then show ?thesis using run g adm w1 by (auto simp: idempotentResubmit_def intro!: exI[of _ 0])
  next
    case (Inr u)
    then have "S w' = S w2 \<and> isl res = isl res2"
      using run g adm loop fb by (auto simp: idempotentResubmit_def split: sum.splits)
    then show ?thesis using n by auto
  qed
qed

text \<open>
  C6: At most one landing. When \<open>checkLanded\<close> answers truthfully (a non-empty hash exactly when
  a submission has landed) and nothing lands while the call sleeps, \<open>idempotentResubmit\<close>
  never lands the operation twice, however its attempts fail; and when it returns, the
  operation has landed exactly once. Each attempt may land even if it throws.
\<close>

theorem idempotentResubmit_lands_once:
  fixes landed :: "'x \<Rightarrow> nat"
  defines "L \<equiv> \<lambda>w :: 'x host_scheme. landed (host.more w)"
  assumes "\<And>w. L (snd (submit w)) \<in> {L w, Suc (L w)}"
    and "\<And>w h. fst (submit w) = Inr h \<Longrightarrow> L (snd (submit w)) = Suc (L w)"
    and "\<And>w. L (snd (checkLanded w)) = L w"
    and "\<And>w r. fst (checkLanded w) = Inr r \<Longrightarrow> truthy r \<longleftrightarrow> 0 < L w"
    and "\<And>d w. L (slp d w) = L w"
    and "L w = 0" and "idempotentResubmit slp submit checkLanded opts l w = (res, w')"
  shows "L w' \<le> 1 \<and> (\<forall>h. res = Inr h \<longrightarrow> L w' = 1)"
  using assms(2-7) assms(8) unfolding L_def by (rule idempotentResubmit_landed)

definition lands_on_second :: "(nat \<times> nat) host_scheme \<Rightarrow> (thrown, string) res \<times> (nat \<times> nat) host_scheme"
  where "lands_on_second w = (Inl (Rejected (Some 503) None None []),
     host.more_update (\<lambda>(n, k). (if k = 1 then Suc n else n, Suc k)) w)"

definition honest_check :: "((nat \<times> nat) host_scheme, thrown, string option) act" where
  "honest_check w = (Inr (if 0 < fst (host.more w) then Some ''hash'' else None), w)"

lemma idempotentResubmit_lands_once_witness:
  "fst (host.more (snd (idempotentResubmit (\<lambda>_ w. w) lands_on_second honest_check
     (plain_options 5) ''stake'' (fresh_host (0, 0))))) \<le> 1"
  by (rule idempotentResubmit_lands_once[where landed = fst and w = "fresh_host (0, 0)",
        OF _ _ _ _ _ _ prod.collapse[symmetric], THEN conjunct1])
    (auto simp: lands_on_second_def honest_check_def truthy_def split: prod.splits if_splits)

end
