(* ===== verification/Submission.thy ===== *)
theory Submission
  imports Retry
begin

text \<open>
  Confirming and resubmitting transactions: \<open>src/utils/polling.ts\<close> (the poller),
  \<open>src/utils/idempotent-resubmission.ts\<close> (on-chain status and the retry decision),
  \<open>src/utils/submit-idempotent.ts\<close> and \<open>src/utils/transactionStatus.ts\<close> (the status check
  after a timeout, and the resubmission loop). The RPC server, the caller's \<open>submit\<close> and
  \<open>buildTx\<close>, the abort signal and the timers are parameters acting on a world. The
  \<open>details\<close> of an error and logging are left out.
\<close>

section \<open>Answers of the server and results of the SDK\<close>

text \<open>\<open>rpc.Api.GetTransactionResponse\<close>, with the fields the code reads.\<close>

record response =
  r_status :: string
  r_ledger :: "int option"

type_synonym 'w rpc = "string \<Rightarrow> ('w, thrown, response) act"

record sdk_result =
  success :: bool
  res_data :: "(string \<times> int) option"
  res_error :: "(string \<times> string) option"
  res_txHash :: "string option"

text \<open>\<open>err instanceof Error ? err.message : String(err)\<close>.\<close>

fun thrown_text :: "thrown \<Rightarrow> string" where
  "thrown_text (Rejected _ _ m s) = (case m of Some t \<Rightarrow> t | None \<Rightarrow> s)"
| "thrown_text (Sdk e) = err_message e"
| "thrown_text Undefined = ''undefined''"

definition liftW :: "'a result \<Rightarrow> ('w, thrown, 'a) act" where
  "liftW r w = (map_sum Sdk id r, w)"

lemma liftW_eq [act_simps]: "liftW r w = (Inr x, w') \<longleftrightarrow> r = Inr x \<and> w' = w"
  "liftW r w = (Inl t, w') \<longleftrightarrow> (\<exists>e. r = Inl e \<and> t = Sdk e) \<and> w' = w"
  by (cases r; auto simp: liftW_def)+

lemma keeps_liftW [simp, intro]: "keeps L (liftW r)"
  by (simp add: keeps_def liftW_def)

definition error_message_or :: "sdk_result \<Rightarrow> string \<Rightarrow> string" where
  "error_message_or r d = (case res_error r of Some (_, m) \<Rightarrow> m | None \<Rightarrow> d)"

definition quoted :: "string \<Rightarrow> string" where
  "quoted s = CHR 39 # s @ [CHR 39]"

definition ledger_or_0 :: "int option \<Rightarrow> int" where
  "ledger_or_0 l = (case l of None \<Rightarrow> 0 | Some n \<Rightarrow> n)"

section \<open>The transaction poller\<close>

datatype polling_strategy = LINEAR | EXPONENTIAL

record polling_options =
  strategy :: "polling_strategy option"
  interval :: "rat option"
  maxAttempts :: "int option"
  backoffFactor :: "rat option"
  maxInterval :: "rat option"

datatype poll_outcome = OutcomeNotFound | OutcomeRpcError

record poll_vars =
  currentInterval :: rat
  attempts :: int
  lastOutcome :: "poll_outcome option"
  consecutiveRpcErrors :: nat

definition abortedResult :: "string \<Rightarrow> sdk_result" where
  "abortedResult h = \<lparr>success = False, res_data = None,
     res_error = Some (''ABORTED'', ''Transaction polling was aborted''), res_txHash = Some h\<rparr>"

definition confirmedResult :: "string \<Rightarrow> response \<Rightarrow> sdk_result" where
  "confirmedResult h r = \<lparr>success = True, res_data = Some (h, ledger_or_0 (r_ledger r)),
     res_error = None, res_txHash = Some h\<rparr>"

definition failedResult :: "string \<Rightarrow> sdk_result" where
  "failedResult h = \<lparr>success = False, res_data = None,
     res_error = Some (''TX_FAILED'', ''Transaction failed on-chain''), res_txHash = Some h\<rparr>"

definition exhaustedResult :: "string \<Rightarrow> poll_vars \<Rightarrow> sdk_result" where
  "exhaustedResult h v = \<lparr>success = False, res_data = None, res_error = Some
     (if lastOutcome v = Some OutcomeNotFound
      then (''TX_NOT_CONFIRMED'', ''Transaction not confirmed after '' @ int_str (attempts v) @ '' attempts'')
      else (''TX_TIMEOUT'', ''Transaction confirmation timed out after '' @ int_str (attempts v)
        @ '' attempts due to RPC errors'')), res_txHash = Some h\<rparr>"

text \<open>
  \<open>delay\<close>: \<open>wait\<close> is the timer raced against the abort event, its answer whether the signal
  fired first.
\<close>

definition poll_delay :: "('w \<Rightarrow> bool) \<Rightarrow> (rat \<Rightarrow> 'w \<Rightarrow> bool \<times> 'w) \<Rightarrow> rat \<Rightarrow> 'w \<Rightarrow> bool \<times> 'w" where
  "poll_delay aborted wait ms w = (if aborted w then (True, w) else wait ms w)"

function poll_loop :: "'w rpc \<Rightarrow> ('w \<Rightarrow> bool) \<Rightarrow> (rat \<Rightarrow> 'w \<Rightarrow> bool \<times> 'w) \<Rightarrow> polling_strategy \<Rightarrow>
    rat \<Rightarrow> rat \<Rightarrow> string \<Rightarrow> int \<Rightarrow> int \<Rightarrow> poll_vars \<Rightarrow> 'w \<Rightarrow> sdk_result \<times> 'w" where
  "poll_loop get aborted wait strat factor maxInt h n attempt v w =
    (let continue = (\<lambda>v w.
       if attempt < n then
         (case poll_delay aborted wait (currentInterval v) w of (ab, w') \<Rightarrow>
            if ab then (abortedResult h, w')
            else poll_loop get aborted wait strat factor maxInt h n (attempt + 1)
              (if strat = EXPONENTIAL
               then v\<lparr>currentInterval := min (currentInterval v * factor) maxInt\<rparr> else v) w')
       else (exhaustedResult h v, w))
     in if n < attempt then (exhaustedResult h v, w)
        else if aborted w then (abortedResult h, w)
        else (case get h w of
            (Inr r, w') \<Rightarrow>
              if r_status r = ''SUCCESS'' then (confirmedResult h r, w')
              else if r_status r = ''FAILED'' then (failedResult h, w')
              else continue (v\<lparr>attempts := attempt, consecutiveRpcErrors := 0,
                lastOutcome := (if r_status r = ''NOT_FOUND'' then Some OutcomeNotFound
                                else lastOutcome v)\<rparr>) w'
          | (Inl e, w') \<Rightarrow>
              let v' = v\<lparr>attempts := attempt, lastOutcome := Some OutcomeRpcError,
                         consecutiveRpcErrors := Suc (consecutiveRpcErrors v)\<rparr>
              in if 3 \<le> consecutiveRpcErrors v'
                 then (if aborted w' then abortedResult h else exhaustedResult h v', w')
                 else continue v' w'))"
  by pat_completeness auto
termination
  by (relation "measure (\<lambda>(_, _, _, _, _, _, _, n, attempt, _, _). nat (n + 1 - attempt))") auto

declare poll_loop.simps [simp del]

definition poll :: "'w rpc \<Rightarrow> ('w \<Rightarrow> bool) \<Rightarrow> (rat \<Rightarrow> 'w \<Rightarrow> bool \<times> 'w) \<Rightarrow> string \<Rightarrow> polling_options \<Rightarrow>
    'w \<Rightarrow> sdk_result \<times> 'w" where
  "poll get aborted wait h opts w =
    (let deflt = (\<lambda>opt d. case opt of None \<Rightarrow> d | Some x \<Rightarrow> x);
         initialInterval = deflt (interval opts) 1000
     in poll_loop get aborted wait (case strategy opts of None \<Rightarrow> LINEAR | Some s \<Rightarrow> s)
          (deflt (backoffFactor opts) 2) (deflt (maxInterval opts) 10000) h
          (case maxAttempts opts of None \<Rightarrow> 30 | Some n \<Rightarrow> n) 1
          \<lparr>currentInterval = initialInterval, attempts = 0, lastOutcome = None,
           consecutiveRpcErrors = 0\<rparr> w)"

section \<open>On-chain status and the retry decision\<close>

datatype tx_status = SUCCESS int string | FAILED "int option" | NOT_FOUND | ERROR string

definition getTransactionStatus :: "'w rpc \<Rightarrow> string \<Rightarrow> 'w \<Rightarrow> tx_status \<times> 'w" where
  "getTransactionStatus get h w = (case get h w of
       (Inl e, w') \<Rightarrow> (ERROR (thrown_text e), w')
     | (Inr r, w') \<Rightarrow>
         (if r_status r = ''SUCCESS'' then SUCCESS (ledger_or_0 (r_ledger r)) h
          else if r_status r = ''FAILED'' then FAILED (r_ledger r)
          else if r_status r = ''NOT_FOUND'' then NOT_FOUND
          else ERROR (''Unknown transaction status: '' @ r_status r), w'))"

text \<open>The options' \<open>onError\<close> is a string in the running program, checked at run time.\<close>

definition shouldRetrySubmission :: "tx_status \<Rightarrow> string option \<Rightarrow> (bool \<times> string option) result" where
  "shouldRetrySubmission st policy =
    (let onError = (case policy of None \<Rightarrow> ''block'' | Some p \<Rightarrow> p)
     in if onError \<noteq> ''block'' \<and> onError \<noteq> ''retry''
        then Inl (JsError (''Invalid onError policy: '' @ onError @ ''; expected '' @ quoted ''retry'' @ '' or '' @ quoted ''block''))
        else Inr (case st of
            SUCCESS _ _ \<Rightarrow> (False, Some ''Transaction already succeeded'')
          | FAILED _ \<Rightarrow> (False, Some ''Transaction already failed on-chain'')
          | NOT_FOUND \<Rightarrow> (True, None)
          | ERROR m \<Rightarrow> if onError = ''retry''
              then (True, Some (''Status indeterminate ('' @ m @ ''); retrying because onError is '' @ quoted ''retry''))
              else (False, Some (''Status indeterminate; blocking resubmission to avoid double execution. ''
                @ ''Re-check the transaction hash before retrying''))))"

section \<open>What the poller reports\<close>

text \<open>A server that gives the answers of a list in order, no abort, timers that just elapse.\<close>

definition script_get :: "((thrown, response) res list) rpc" where
  "script_get h as = (case as of [] \<Rightarrow> (Inl Undefined, []) | a # rest \<Rightarrow> (a, rest))"

fun pending :: "(thrown, response) res \<Rightarrow> bool" where
  "pending (Inl _) = True"
| "pending (Inr r) = (r_status r \<noteq> ''SUCCESS'' \<and> r_status r \<noteq> ''FAILED'')"

text \<open>No three consecutive errors, \<open>k\<close> errors having come just before.\<close>

fun runs_ok :: "nat \<Rightarrow> (thrown, response) res list \<Rightarrow> bool" where
  "runs_ok k [] = True"
| "runs_ok k (Inl _ # as) = (Suc k < 3 \<and> runs_ok (Suc k) as)"
| "runs_ok k (Inr _ # as) = runs_ok 0 as"

fun trailing :: "nat \<Rightarrow> (thrown, response) res list \<Rightarrow> nat" where
  "trailing k [] = k"
| "trailing k (Inl _ # as) = trailing (Suc k) as"
| "trailing k (Inr _ # as) = trailing 0 as"

text \<open>What the last telling answer was; an unknown status tells nothing.\<close>

fun last_seen :: "poll_outcome option \<Rightarrow> (thrown, response) res list \<Rightarrow> poll_outcome option" where
  "last_seen z [] = z"
| "last_seen z (Inl _ # as) = last_seen (Some OutcomeRpcError) as"
| "last_seen z (Inr r # as) =
     last_seen (if r_status r = ''NOT_FOUND'' then Some OutcomeNotFound else z) as"

abbreviation script_loop where
  "script_loop \<equiv> poll_loop script_get (\<lambda>_. False) (\<lambda>_ w. (False, w))"

text \<open>Pending answers advance the loop and are recorded.\<close>

lemma poll_advance:
  assumes "list_all pending pre" and "runs_ok (consecutiveRpcErrors v) pre"
    and "attempt + int (length pre) \<le> n"
  shows "\<exists>v'. script_loop strat factor maxInt h n attempt v (pre @ rest)
      = script_loop strat factor maxInt h n (attempt + int (length pre)) v' rest \<and>
    consecutiveRpcErrors v' = trailing (consecutiveRpcErrors v) pre \<and>
    lastOutcome v' = last_seen (lastOutcome v) pre"
  using assms
proof (induction pre arbitrary: attempt v)
  case (Cons a pre)
  let ?bump = "\<lambda>v. if strat = EXPONENTIAL
    then v\<lparr>currentInterval := min (currentInterval v * factor) maxInt\<rparr> else v"
  let ?v = "case a of
      Inr r \<Rightarrow> v\<lparr>attempts := attempt, consecutiveRpcErrors := 0,
        lastOutcome := (if r_status r = ''NOT_FOUND'' then Some OutcomeNotFound else lastOutcome v)\<rparr>
    | Inl e \<Rightarrow> v\<lparr>attempts := attempt, lastOutcome := Some OutcomeRpcError,
        consecutiveRpcErrors := Suc (consecutiveRpcErrors v)\<rparr>"
  have step: "script_loop strat factor maxInt h n attempt v ((a # pre) @ rest)
      = script_loop strat factor maxInt h n (attempt + 1) (?bump ?v) (pre @ rest)"
    using Cons.prems
    by (subst poll_loop.simps) (cases a, auto simp: script_get_def poll_delay_def Let_def)
  have v: "consecutiveRpcErrors (?bump ?v) = consecutiveRpcErrors ?v"
    "lastOutcome (?bump ?v) = lastOutcome ?v" by auto
  have "\<exists>v'. script_loop strat factor maxInt h n (attempt + 1) (?bump ?v) (pre @ rest)
      = script_loop strat factor maxInt h n (attempt + 1 + int (length pre)) v' rest \<and>
    consecutiveRpcErrors v' = trailing (consecutiveRpcErrors (?bump ?v)) pre \<and>
    lastOutcome v' = last_seen (lastOutcome (?bump ?v)) pre"
  proof (rule Cons.IH)
    show "runs_ok (consecutiveRpcErrors (?bump ?v)) pre" using Cons.prems(2) by (cases a) auto
  qed (use Cons.prems in auto)
  then show ?case unfolding step v by (cases a) (auto simp: algebra_simps)
qed auto

text \<open>
  C10: The poller confirms a transaction the server confirms in time. After any pending answers
  (not found, unknown, or errors with no three in a row) that leave an attempt, an answer
  SUCCESS becomes a success with its ledger and FAILED becomes TX_FAILED, at once: no further
  answer is asked for.
\<close>

theorem poll_confirms:
  assumes "list_all pending pre" and "runs_ok 0 pre" and "maxAttempts opts = Some n"
    and "int (length pre) < n" and "r_status r \<in> {''SUCCESS'', ''FAILED''}"
  shows "poll script_get (\<lambda>_. False) (\<lambda>_ w. (False, w)) h opts (pre @ Inr r # post)
    = (if r_status r = ''SUCCESS'' then confirmedResult h r else failedResult h, post)"
proof -
  let ?v = "\<lparr>currentInterval = (case interval opts of None \<Rightarrow> 1000 | Some x \<Rightarrow> x), attempts = 0,
      lastOutcome = None, consecutiveRpcErrors = 0\<rparr>"
  obtain strat factor maxInt where p: "\<And>w. poll script_get (\<lambda>_. False) (\<lambda>_ w. (False, w)) h opts w
      = script_loop strat factor maxInt h n 1 ?v w"
    using assms(3) by (simp add: poll_def Let_def)
  from poll_advance[of pre ?v 1 n strat factor maxInt h "Inr r # post"] assms
  obtain v' where "script_loop strat factor maxInt h n 1 ?v (pre @ Inr r # post)
      = script_loop strat factor maxInt h n (1 + int (length pre)) v' (Inr r # post)" by auto
  then show ?thesis using assms(4,5) unfolding p
    by (subst (asm) (2) poll_loop.simps) (auto simp: script_get_def Let_def)
qed

lemma poll_confirms_witness:
  "poll script_get (\<lambda>_. False) (\<lambda>_ w. (False, w)) ''h'' \<lparr>strategy = None, interval = None,
      maxAttempts = Some 4, backoffFactor = None, maxInterval = None\<rparr>
    ([Inl Undefined, Inl Undefined, Inr \<lparr>r_status = ''NOT_FOUND'', r_ledger = None\<rparr>]
      @ Inr \<lparr>r_status = ''SUCCESS'', r_ledger = Some 7\<rparr> # [Inl Undefined])
   = (\<lparr>success = True, res_data = Some (''h'', 7), res_error = None, res_txHash = Some ''h''\<rparr>,
      [Inl Undefined])"
  by (subst poll_confirms[where n = 4]) (simp_all add: confirmedResult_def ledger_or_0_def)

text \<open>
  Giving up is honest. When all the attempts meet pending answers with no three errors in a
  row, the poller stops after exactly \<open>maxAttempts\<close> answers; it says TX_NOT_CONFIRMED when the
  last telling answer was NOT_FOUND and TX_TIMEOUT when it was an error.
\<close>

theorem poll_exhausts:
  assumes "list_all pending pre" and "runs_ok 0 pre" and "maxAttempts opts = Some n"
    and "int (length pre) = n" and "0 < n"
  shows "case poll script_get (\<lambda>_. False) (\<lambda>_ w. (False, w)) h opts (pre @ post) of
    (r, rest) \<Rightarrow> rest = post \<and> \<not> success r \<and> map_option fst (res_error r) =
      Some (if last_seen None pre = Some OutcomeNotFound then ''TX_NOT_CONFIRMED'' else ''TX_TIMEOUT'')"
proof -
  let ?v = "\<lparr>currentInterval = (case interval opts of None \<Rightarrow> 1000 | Some x \<Rightarrow> x), attempts = 0,
      lastOutcome = None, consecutiveRpcErrors = 0\<rparr>"
  obtain strat factor maxInt where p: "\<And>w. poll script_get (\<lambda>_. False) (\<lambda>_ w. (False, w)) h opts w
      = script_loop strat factor maxInt h n 1 ?v w"
    using assms(3) by (simp add: poll_def Let_def)
  obtain init a where pre: "pre = init @ [a]" using assms(4,5) by (cases pre rule: rev_cases) auto
  have ok: "runs_ok k (init @ [a]) \<Longrightarrow> runs_ok k init \<and> runs_ok (trailing k init) [a]" for k
  proof (induction init arbitrary: k)
    case (Cons x init)
    then show ?case by (cases x) auto
  qed simp
  have seen: "last_seen z (init @ [a]) = last_seen (last_seen z init) [a]" for z
    by (induction z init rule: last_seen.induct) auto
  have "list_all pending init" "pending a" using assms(1) pre by auto
  then obtain v' where "script_loop strat factor maxInt h n 1 ?v (init @ [a] @ post)
      = script_loop strat factor maxInt h n n v' (a # post)"
    "consecutiveRpcErrors v' = trailing 0 init" "lastOutcome v' = last_seen None init"
    using poll_advance[of init ?v 1 n strat factor maxInt h "a # post"] ok[of 0] assms pre by auto
  moreover have "runs_ok (trailing 0 init) [a]" using ok[of 0] assms(2) pre by simp
  moreover have "script_loop strat factor maxInt h n n v' (a # post) = (exhaustedResult h (case a of
      Inr r \<Rightarrow> v'\<lparr>attempts := n, consecutiveRpcErrors := 0,
        lastOutcome := (if r_status r = ''NOT_FOUND'' then Some OutcomeNotFound else lastOutcome v')\<rparr>
    | Inl e \<Rightarrow> v'\<lparr>attempts := n, lastOutcome := Some OutcomeRpcError,
        consecutiveRpcErrors := Suc (consecutiveRpcErrors v')\<rparr>), post)"
    using \<open>pending a\<close> by (subst poll_loop.simps) (cases a, auto simp: script_get_def Let_def)
  ultimately show ?thesis unfolding p pre seen
    by (cases a) (simp_all add: exhaustedResult_def)
qed

lemma poll_exhausts_witness:
  "case poll script_get (\<lambda>_. False) (\<lambda>_ w. (False, w)) ''h'' \<lparr>strategy = Some EXPONENTIAL,
      interval = None, maxAttempts = Some 2, backoffFactor = None, maxInterval = None\<rparr>
    ([Inl Undefined, Inr \<lparr>r_status = ''NOT_FOUND'', r_ledger = None\<rparr>] @ [Inl Undefined]) of
    (r, rest) \<Rightarrow> rest = [Inl Undefined] \<and> map_option fst (res_error r) = Some ''TX_NOT_CONFIRMED''"
proof -
  let ?opts = "\<lparr>strategy = Some EXPONENTIAL, interval = None, maxAttempts = Some 2,
    backoffFactor = None, maxInterval = None\<rparr>"
  let ?pre = "[Inl Undefined, Inr \<lparr>r_status = ''NOT_FOUND'', r_ledger = None\<rparr>]"
  from poll_exhausts[where pre = ?pre and opts = ?opts and n = 2 and h = "''h''"
      and post = "[Inl Undefined]"]
  show ?thesis by (auto simp del: append.simps)
qed

section \<open>One status check after a timeout\<close>

text \<open>
  \<open>submitIdempotent\<close> of \<open>submit-idempotent.ts\<close>; an empty hash counts as none. A throw of
  \<open>submitFn\<close> passes through.
\<close>

definition submitIdempotent :: "('w, thrown, sdk_result) act \<Rightarrow> 'w rpc \<Rightarrow> ('w, thrown, sdk_result) act" where
  "submitIdempotent submitFn get w = (case submitFn w of
       (Inl e, w1) \<Rightarrow> (Inl e, w1)
     | (Inr result, w1) \<Rightarrow>
         if success result then (Inr result, w1)
         else if map_option fst (res_error result) \<noteq> Some ''TX_TIMEOUT''
              \<or> \<not> truthy (res_txHash result) then (Inr result, w1)
         else let h = the (res_txHash result) in (case get h w1 of
             (Inl _, w2) \<Rightarrow> (Inr result, w2)
           | (Inr st, w2) \<Rightarrow>
               (Inr (if r_status st = ''SUCCESS''
                  then \<lparr>success = True, res_data = Some (h, ledger_or_0 (r_ledger st)),
                        res_error = None, res_txHash = Some h\<rparr>
                  else if r_status st = ''FAILED''
                  then \<lparr>success = False, res_data = None, res_error =
                          Some (''TX_FAILED'', ''Transaction failed on-chain after timeout check''),
                        res_txHash = Some h\<rparr>
                  else result), w2)))"

section \<open>Build, submit, check, resubmit\<close>

text \<open>\<open>TransactionStatusResult\<close> of \<open>transactionStatus.ts\<close>.\<close>

record landed_status =
  l_status :: string
  l_hash :: string
  l_ledger :: "int option"

definition getLandedStatus :: "'w rpc \<Rightarrow> string \<Rightarrow> ('w, thrown, landed_status) act" where
  "getLandedStatus get h = bindW (get h) (\<lambda>r. retW
     (if r_status r = ''SUCCESS'' \<or> r_status r = ''FAILED''
      then \<lparr>l_status = r_status r, l_hash = h, l_ledger = r_ledger r\<rparr>
      else \<lparr>l_status = ''NOT_FOUND'', l_hash = h, l_ledger = None\<rparr>))"

fun pollUntilFinal :: "'w rpc \<Rightarrow> ('w \<Rightarrow> 'w) \<Rightarrow> string \<Rightarrow> nat \<Rightarrow> ('w, thrown, landed_status) act" where
  "pollUntilFinal get wait h 0 w = (Inr \<lparr>l_status = ''NOT_FOUND'', l_hash = h, l_ledger = None\<rparr>, w)"
| "pollUntilFinal get wait h (Suc n) w = (case getLandedStatus get h w of
       (Inl e, w') \<Rightarrow> (Inl e, w')
     | (Inr r, w') \<Rightarrow> if l_status r \<noteq> ''NOT_FOUND'' then (Inr r, w')
                     else pollUntilFinal get wait h n (wait w'))"

text \<open>\<open>k\<close> is the number of attempts left; \<open>total\<close> and the last hash are for the message.\<close>

fun submitLandedLoop :: "'w rpc \<Rightarrow> (rat \<Rightarrow> 'w \<Rightarrow> 'w) \<Rightarrow> ('w, thrown, string \<times> 'e) act \<Rightarrow>
    ('e \<Rightarrow> ('w, thrown, string) act) \<Rightarrow> rat \<Rightarrow> nat \<Rightarrow> string option \<Rightarrow> nat \<Rightarrow>
    ('w, thrown, landed_status) act" where
  "submitLandedLoop get slp buildTx submit d tot lastHash 0 w =
     (Inl (Sdk (JsError (''submitIdempotent: exhausted '' @ int_str (int tot) @ '' attempts, last hash: ''
        @ (case lastHash of None \<Rightarrow> ''undefined'' | Some h \<Rightarrow> h)))), w)"
| "submitLandedLoop get slp buildTx submit d tot lastHash (Suc k) w =
    (case buildTx w of
       (Inl e, w1) \<Rightarrow> (Inl e, w1)
     | (Inr (h, envelope), w1) \<Rightarrow>
        (case bindW (submit envelope) (\<lambda>_. pollUntilFinal get (slp d) h 10) w1 of
           (Inr r, w2) \<Rightarrow> (Inr r, w2)
         | (Inl err, w2) \<Rightarrow>
            if \<not> isRetryable err then (Inl err, w2)
            else (case getLandedStatus get h w2 of
                (Inl e, w3) \<Rightarrow> (Inl e, w3)
              | (Inr st, w3) \<Rightarrow>
                  if l_status st = ''SUCCESS'' \<or> l_status st = ''FAILED'' then (Inr st, w3)
                  else submitLandedLoop get slp buildTx submit d tot (Some h) k w3)))"

definition submitLanded :: "'w rpc \<Rightarrow> (rat \<Rightarrow> 'w \<Rightarrow> 'w) \<Rightarrow> ('w, thrown, string \<times> 'e) act \<Rightarrow>
    ('e \<Rightarrow> ('w, thrown, string) act) \<Rightarrow> nat option \<Rightarrow> rat option \<Rightarrow> ('w, thrown, landed_status) act" where
  "submitLanded get slp buildTx submit maxAttempts' delay =
    (let n = (case maxAttempts' of None \<Rightarrow> 3 | Some n \<Rightarrow> n)
     in submitLandedLoop get slp buildTx submit (case delay of None \<Rightarrow> 2000 | Some d \<Rightarrow> d) n None n)"

text \<open>
  After a timed-out submission the status check decides. \<open>submitIdempotent\<close> reports success
  only when the submission did or the server then said SUCCESS for its hash; it reports the
  original result when the server cannot be reached or does not know the transaction; it
  submits once.
\<close>

theorem submitIdempotent_sound:
  assumes "submitFn w = (Inr result, w1)" and "submitIdempotent submitFn get w = (Inr out, w')"
  shows "out = result \<or> (\<exists>h st. res_txHash result = Some h \<and> h \<noteq> [] \<and> \<not> success result \<and>
    map_option fst (res_error result) = Some ''TX_TIMEOUT'' \<and> get h w1 = (Inr st, w') \<and>
    res_txHash out = Some h \<and>
    (success out \<and> r_status st = ''SUCCESS'' \<and> res_data out = Some (h, ledger_or_0 (r_ledger st)) \<or>
     \<not> success out \<and> r_status st = ''FAILED'' \<and> map_option fst (res_error out) = Some ''TX_FAILED''))"
  using assms
  by (auto simp: submitIdempotent_def Let_def truthy_def split: if_splits prod.splits sum.splits)

definition timed_out :: "sdk_result" where
  "timed_out = \<lparr>success = False, res_data = None, res_error = Some (''TX_TIMEOUT'', ''late''),
     res_txHash = Some ''h''\<rparr>"

lemma submitIdempotent_sound_witness:
  "let out = \<lparr>success = True, res_data = Some (''h'', 9), res_error = None, res_txHash = Some ''h''\<rparr>
   in out = timed_out \<or> (\<exists>h (st :: response). res_txHash timed_out = Some h \<and> r_status st = ''SUCCESS'' \<and>
     res_data out = Some (h, ledger_or_0 (r_ledger st)))"
proof -
  let ?get = "\<lambda>(h :: string) (w :: unit). (Inr \<lparr>r_status = ''SUCCESS'', r_ledger = Some 9\<rparr> :: thrown + response, w)"
  let ?out = "\<lparr>success = True, res_data = Some (''h'', 9), res_error = None, res_txHash = Some ''h''\<rparr>"
  have "submitIdempotent (retW timed_out) ?get () = (Inr ?out, ())"
    by (simp add: submitIdempotent_def retW_def timed_out_def truthy_def ledger_or_0_def Let_def)
  from submitIdempotent_sound[OF _ this, of timed_out "()"] show ?thesis
    by (auto simp: retW_def timed_out_def)
      (rule exI[of _ "\<lparr>r_status = ''SUCCESS'', r_ledger = Some 9\<rparr>"], simp)
qed

text \<open>
  The retry decision is conservative: with the default policy a transaction is resubmitted
  exactly on NOT_FOUND, with the policy \<open>retry\<close> on an indeterminate status as well, never
  after SUCCESS or FAILED, and any other policy is an error.
\<close>

theorem shouldRetry_table:
  "map_sum id fst (shouldRetrySubmission st None) = Inr (st = NOT_FOUND) \<and>
   map_sum id fst (shouldRetrySubmission st (Some ''block'')) = Inr (st = NOT_FOUND) \<and>
   map_sum id fst (shouldRetrySubmission st (Some ''retry''))
     = Inr (st = NOT_FOUND \<or> (\<exists>m. st = ERROR m)) \<and>
   {p. \<exists>e. shouldRetrySubmission st (Some p) = Inl e} = - {''block'', ''retry''}"
  by (cases st) (auto simp: shouldRetrySubmission_def Let_def)

text \<open>
  \<open>submitIdempotent\<close> of \<open>transactionStatus.ts\<close> has no retry window: after a submission
  that times out, a single NOT_FOUND answer, asked for without any delay, is followed by the
  next build and submission. The world records the calls.
\<close>

definition log_call :: "string \<Rightarrow> ('e, 'a) res \<Rightarrow> (string list, 'e, 'a) act" where
  "log_call s r w = (r, w @ [s])"

theorem submitLanded_no_window:
  "snd (submitLanded
      (\<lambda>h. log_call ''getTransaction'' (Inr \<lparr>r_status = ''NOT_FOUND'', r_ledger = None\<rparr>))
      (\<lambda>_ w. w @ [''wait''])
      (log_call ''build'' (Inr (''hash'', ()))) (\<lambda>_. log_call ''submit'' (Inl (Rejected None (Some ''ETIMEDOUT'') None [])))
      (Some 2) None [])
   = [''build'', ''submit'', ''getTransaction'', ''build'', ''submit'', ''getTransaction'']"
  by code_simp

section \<open>What the network may do with a transaction\<close>

text \<open>
  The contract under which the resubmission loops of the modules are judged. \<open>landed w\<close> is the
  set of the hashes of the transactions that have been executed, \<open>inflight w\<close> of those that
  were sent and may still be. At any time, in particular during a status request and during a
  sleep, a transaction in flight may land or expire; nothing else happens to either set.
\<close>

definition settles :: "('w \<Rightarrow> string set) \<Rightarrow> ('w \<Rightarrow> string set) \<Rightarrow> 'w \<Rightarrow> 'w \<Rightarrow> bool" where
  "settles landed inflight w w' \<longleftrightarrow>
     landed w \<subseteq> landed w' \<and> landed w' \<union> inflight w' \<subseteq> landed w \<union> inflight w"

text \<open>
  One submission sends at most one transaction \<open>h\<close>, which may land before the answer, stay in
  flight or be lost, whatever the answer is. A hash that is reported is that of the transaction
  sent, and a success is reported only for one that has landed.
\<close>

definition honest_submit ::
    "('w \<Rightarrow> string set) \<Rightarrow> ('w \<Rightarrow> string set) \<Rightarrow> ('w, thrown, sdk_result) act \<Rightarrow> bool" where
  "honest_submit landed inflight submit \<longleftrightarrow> (\<forall>w r w'. submit w = (r, w') \<longrightarrow>
     (\<exists>h. landed w \<subseteq> landed w' \<and> landed w' \<union> inflight w' \<subseteq> insert h (landed w \<union> inflight w) \<and>
       (\<forall>x. r = Inr x \<longrightarrow> (truthy (res_txHash x) \<longrightarrow> res_txHash x = Some h) \<and>
         (\<forall>d l. res_data x = Some (d, l) \<longrightarrow> d = h) \<and>
         (success x \<longrightarrow> res_txHash x = Some h \<and> h \<in> landed w'))))"

text \<open>
  The answer to a status request is about the hash that was asked for: NOT_FOUND says that this
  transaction has not landed and is no longer in flight, SUCCESS that it has landed. About every
  other hash the answer says nothing.
\<close>

definition honest_status :: "('w \<Rightarrow> string set) \<Rightarrow> ('w \<Rightarrow> string set) \<Rightarrow> 'w rpc \<Rightarrow> bool" where
  "honest_status landed inflight get \<longleftrightarrow> (\<forall>h w r w'. get h w = (r, w') \<longrightarrow>
     settles landed inflight w w' \<and> (\<forall>x. r = Inr x \<longrightarrow>
       (r_status x = ''NOT_FOUND'' \<longrightarrow> h \<notin> landed w' \<union> inflight w') \<and>
       (r_status x = ''SUCCESS'' \<longrightarrow> h \<in> landed w')))"

definition at_most :: "('w \<Rightarrow> string set) \<Rightarrow> ('w \<Rightarrow> string set) \<Rightarrow> string \<Rightarrow> 'w \<Rightarrow> bool" where
  "at_most landed inflight h w \<longleftrightarrow> landed w \<union> inflight w \<subseteq> {h}"

definition exactly :: "('w \<Rightarrow> string set) \<Rightarrow> string \<Rightarrow> 'w \<Rightarrow> bool" where
  "exactly landed h w \<longleftrightarrow> landed w = {h}"

lemma at_most_settles: "at_most landed inflight h w \<Longrightarrow> settles landed inflight w w' \<Longrightarrow> at_most landed inflight h w'"
  by (auto simp: at_most_def settles_def)

lemma settles_none:
  "landed w \<union> inflight w = {} \<Longrightarrow> settles landed inflight w w' \<Longrightarrow> landed w' \<union> inflight w' = {}"
  by (auto simp: settles_def)

text \<open>A submission into a network that has nothing of the operation yet.\<close>

lemma honest_submitD:
  assumes "honest_submit landed inflight submit" and "submit w = (r, w')" and "landed w \<union> inflight w = {}"
  shows "\<exists>h. at_most landed inflight h w' \<and> (\<forall>x. r = Inr x \<longrightarrow>
    (truthy (res_txHash x) \<longrightarrow> the (res_txHash x) = h) \<and> (\<forall>d l. res_data x = Some (d, l) \<longrightarrow> d = h) \<and>
    (success x \<longrightarrow> res_txHash x = Some h \<and> exactly landed h w'))"
proof -
  from assms(1)[unfolded honest_submit_def, rule_format, OF assms(2)]
  obtain h where h: "landed w' \<union> inflight w' \<subseteq> insert h (landed w \<union> inflight w)"
    "\<forall>x. r = Inr x \<longrightarrow> (truthy (res_txHash x) \<longrightarrow> res_txHash x = Some h) \<and>
      (\<forall>d l. res_data x = Some (d, l) \<longrightarrow> d = h) \<and> (success x \<longrightarrow> res_txHash x = Some h \<and> h \<in> landed w')"
    by blast
  have le: "landed w' \<union> inflight w' \<subseteq> {h}" using h(1) assms(3) by simp
  have ex: "h \<in> landed w' \<Longrightarrow> exactly landed h w'" using le unfolding exactly_def by blast
  show ?thesis
  proof (intro exI[of _ h] conjI allI impI)
    show "at_most landed inflight h w'" using le by (simp add: at_most_def)
  qed (use h(2) ex in auto)
qed

text \<open>The status of the one transaction there is.\<close>

lemma honest_statusD:
  assumes "honest_status landed inflight get" and "getTransactionStatus get h w = (st, w')"
    and "at_most landed inflight h w"
  shows "at_most landed inflight h w' \<and> (st = NOT_FOUND \<longrightarrow> landed w' \<union> inflight w' = {}) \<and>
    (\<forall>l k. st = SUCCESS l k \<longrightarrow> k = h \<and> exactly landed h w')"
proof -
  obtain r w2 where g: "get h w = (r, w2)" by fastforce
  note a = assms(1)[unfolded honest_status_def, rule_format, OF g]
  have w2: "w2 = w'" using assms(2) g by (auto simp: getTransactionStatus_def split: sum.splits)
  from a have at: "at_most landed inflight h w'" unfolding w2 using at_most_settles[OF assms(3)] by blast
  have nf: "h \<notin> landed w' \<union> inflight w'" if "st = NOT_FOUND"
    using assms(2) g a that unfolding w2
    by (simp add: getTransactionStatus_def split: sum.splits if_splits)
  have sc: "k = h \<and> h \<in> landed w'" if "st = SUCCESS l k" for l k
    using assms(2) g a that unfolding w2
    by (simp add: getTransactionStatus_def split: sum.splits if_splits)
  show ?thesis using at nf sc by (auto simp: at_most_def exactly_def)
qed

text \<open>
  A network for the instances: the first transaction is lost after its submission has timed
  out, the second lands. A world is what has landed, what is in flight, and the number sent.
\<close>

type_synonym net = "string list \<times> string list \<times> nat"

definition net_landed :: "net \<Rightarrow> string set" where "net_landed w = set (fst w)"

definition net_inflight :: "net \<Rightarrow> string set" where "net_inflight w = set (fst (snd w))"

definition net_result :: "bool \<Rightarrow> string \<Rightarrow> sdk_result" where
  "net_result ok h = \<lparr>success = ok, res_data = (if ok then Some (h, 5) else None),
     res_error = (if ok then None else Some (''TX_TIMEOUT'', ''late'')), res_txHash = Some h\<rparr>"

definition net_submit :: "(net, thrown, sdk_result) act" where
  "net_submit = (\<lambda>(l, f, n). let h = replicate (Suc n) (CHR ''t'') in
     (Inr (net_result (0 < n) h), if n = 0 then (l, h # f, 1) else (h # l, f, Suc n)))"

definition net_status :: "net rpc" where
  "net_status h = (\<lambda>(l, f, n).
     if List.member l h then (Inr \<lparr>r_status = ''SUCCESS'', r_ledger = Some 5\<rparr>, (l, f, n))
     else (Inr \<lparr>r_status = ''NOT_FOUND'', r_ledger = None\<rparr>, (l, filter (\<lambda>g. g \<noteq> h) f, n)))"

lemmas net_defs = net_landed_def net_inflight_def net_submit_def net_status_def net_result_def List.member_iff

lemma net_submit_honest: "honest_submit net_landed net_inflight net_submit"
  unfolding honest_submit_def
proof (intro allI impI)
  fix w r w'
  assume "net_submit w = (r, w')"
  then show "\<exists>h. net_landed w \<subseteq> net_landed w' \<and>
      net_landed w' \<union> net_inflight w' \<subseteq> insert h (net_landed w \<union> net_inflight w) \<and>
      (\<forall>x. r = Inr x \<longrightarrow> (truthy (res_txHash x) \<longrightarrow> res_txHash x = Some h) \<and>
        (\<forall>d l. res_data x = Some (d, l) \<longrightarrow> d = h) \<and>
        (success x \<longrightarrow> res_txHash x = Some h \<and> h \<in> net_landed w'))"
    by (intro exI[of _ "replicate (Suc (snd (snd w))) (CHR ''t'')"])
      (auto simp: net_defs Let_def split: prod.splits if_splits)
qed

lemma net_status_honest: "honest_status net_landed net_inflight net_status"
  by (auto simp: honest_status_def settles_def net_defs split: prod.splits if_splits)

lemma settles_refl [simp]: "settles landed inflight w w"
  by (simp add: settles_def)

text \<open>
  The same network with a server that says NOT_FOUND of a transaction that is only pending, and
  timers during which what is in flight lands.
\<close>

definition hasty_status :: "net rpc" where
  "hasty_status h = (\<lambda>w. (Inr (if List.member (fst w) h then \<lparr>r_status = ''SUCCESS'', r_ledger = Some 5\<rparr>
     else \<lparr>r_status = ''NOT_FOUND'', r_ledger = None\<rparr>), w))"

definition landing_sleep :: "rat \<Rightarrow> net \<Rightarrow> net" where
  "landing_sleep d = (\<lambda>(l, f, n). (f @ l, [], n))"

end
