(* ===== verification/Swap.thy ===== *)
theory Swap
  imports JsNum Submission
begin

text \<open>
  \<open>src/modules/swap.ts\<close>: quoting, multi-hop chains, building the operation, submission with a
  status check, and the oracle price guard (\<open>src/utils/redstone.ts\<close>). What a quote reads from
  the chain (pair addresses, reserves, fees, token order) is a parameter record: one quote sees
  one ledger state, and each read may fail. Amounts are bigints; a fee is the integer the
  contract returns; a slippage is a JavaScript number, here a rational. The floating-point
  arithmetic of \<open>compoundPriceImpact\<close> is exact arithmetic followed by a rounding \<open>fl\<close>.
\<close>

section \<open>Data\<close>

datatype trade_type = EXACT_IN | EXACT_OUT

record swap_request =
  tokenIn :: string
  tokenOut :: string
  amount :: int
  tradeType :: trade_type
  reqPath :: "string list option"
  reqSlippage :: "rat option"
  reqDeadline :: "int option"
  reqTo :: "string option"

record hop =
  h_tokenIn :: string
  h_tokenOut :: string
  h_amountIn :: int
  h_amountOut :: int
  h_feeBps :: int
  h_feeAmount :: int
  h_impact :: int

record swap_quote =
  q_tokenIn :: string
  q_tokenOut :: string
  q_amountIn :: int
  q_amountOut :: int
  q_amountOutMin :: int
  q_impact :: int
  q_feeBps :: int
  q_feeAmount :: int
  q_path :: "string list"
  q_deadline :: int

text \<open>
  What the module reads through the client: the chain, the client's settings, and from
  \<open>src/utils/addresses.ts\<close> the address check and the identifier of the native asset, which rest
  on the Stellar SDK. \<open>zodText\<close> is the text of a schema violation, \<open>numText\<close> the decimal form
  JavaScript gives a number.
\<close>

record client =
  getPairAddress :: "string \<Rightarrow> string \<Rightarrow> string option result"
  getReserves :: "string \<Rightarrow> (int \<times> int) result"
  getDynamicFee :: "string \<Rightarrow> int result"
  getTokens :: "string \<Rightarrow> (string \<times> string) result"
  defaultSlippageBps :: "rat option"
  getDeadline :: int
  publicKey :: string
  resolveToken :: "string \<Rightarrow> string"
  isValidAddress :: "string \<Rightarrow> bool"
  zodText :: string
  numText :: "rat \<Rightarrow> string"

section \<open>The exchange formulas\<close>

definition swap_getAmountOut :: "int \<Rightarrow> int \<Rightarrow> int \<Rightarrow> int \<Rightarrow> int result" where
  "swap_getAmountOut amountIn reserveIn reserveOut feeBps =
    (if amountIn \<le> 0 then Inl (ValidationError ''Insufficient input amount'')
     else if reserveIn \<le> 0 \<or> reserveOut \<le> 0 then Inl (InsufficientLiquidityError ''unknown'' None)
     else let feeFactor = 10000 - feeBps;
              amountInWithFee = amountIn * feeFactor;
              numerator = amountInWithFee * reserveOut;
              denominator = reserveIn * 10000 + amountInWithFee
          in bigint_div numerator denominator)"

definition swap_getAmountIn :: "int \<Rightarrow> int \<Rightarrow> int \<Rightarrow> int \<Rightarrow> int result" where
  "swap_getAmountIn amountOut reserveIn reserveOut feeBps =
    (if amountOut \<le> 0 then Inl (ValidationError ''Insufficient output amount'')
     else if reserveIn \<le> 0 \<or> reserveOut \<le> 0 then Inl (InsufficientLiquidityError ''unknown'' None)
     else if reserveOut \<le> amountOut then Inl (InsufficientLiquidityError ''unknown'' None)
     else let feeFactor = 10000 - feeBps;
              numerator = reserveIn * amountOut * 10000;
              denominator = (reserveOut - amountOut) * feeFactor
          in bindE (bigint_div numerator denominator) (\<lambda>q. Inr (q + 1)))"

interpretation swap_exchange: cp_exchange swap_getAmountOut swap_getAmountIn
proof unfold_locales
  fix a ri ro f :: int
  assume "0 < a" "0 < ri" "0 < ro" "f \<le> 10000"
  then show "swap_getAmountOut a ri ro f = Inr (cp_out a ri ro f)"
    using cp_den_pos[of a ri f]
    by (simp add: swap_getAmountOut_def Let_def cp_out_def bigint_simps)
next
  fix a ri ro f :: int
  assume "a \<le> 0 \<or> ri \<le> 0 \<or> ro \<le> 0"
  then show "\<exists>e. swap_getAmountOut a ri ro f = Inl e" by (auto simp: swap_getAmountOut_def)
next
  fix b ri ro f :: int
  assume "0 < b" "b < ro" "0 < ri" "f < 10000"
  then show "swap_getAmountIn b ri ro f = Inr (cp_in b ri ro f)"
    by (simp add: swap_getAmountIn_def Let_def cp_in_def bigint_simps)
next
  fix b ri ro f :: int
  assume "b \<le> 0 \<or> ri \<le> 0 \<or> ro \<le> b"
  then show "\<exists>e. swap_getAmountIn b ri ro f = Inl e" by (auto simp: swap_getAmountIn_def)
qed

definition calculatePriceImpact :: "int \<Rightarrow> int \<Rightarrow> int \<Rightarrow> int \<Rightarrow> int" where
  "calculatePriceImpact amountIn amountOut reserveIn reserveOut =
    (if reserveIn = 0 \<or> reserveOut = 0 then 10000
     else let idealOut = (amountIn * reserveOut) sdiv reserveIn
          in if idealOut = 0 then 10000 else ((idealOut - amountOut) * 10000) sdiv idealOut)"

definition feeOn :: "int \<Rightarrow> int \<Rightarrow> int" where
  "feeOn amountIn feeBps = (amountIn * feeBps) sdiv BPS_DENOMINATOR"

section \<open>Requests\<close>

text \<open>\<open>DEFAULTS.slippageBps\<close> is defined, so the branch without any tolerance cannot be reached.\<close>

definition resolveSlippageBps :: "client \<Rightarrow> rat option \<Rightarrow> int result" where
  "resolveSlippageBps c req =
    (let slippageBps = (case orElse req (defaultSlippageBps c) of
         Some s \<Rightarrow> s | None \<Rightarrow> of_int DEFAULT_slippageBps)
     in if slippageBps \<noteq> of_int \<lfloor>slippageBps\<rfloor> \<or> slippageBps < 0 \<or> 5000 < slippageBps
        then Inl (ValidationError (''Invalid slippageBps: '' @ numText c slippageBps
          @ ''. Expected an integer between 0 and 5000.''))
        else Inr \<lfloor>slippageBps\<rfloor>)"

definition resolvePath :: "swap_request \<Rightarrow> string list" where
  "resolvePath req = (case reqPath req of
       Some p \<Rightarrow> if 2 \<le> length p then p else [tokenIn req, tokenOut req]
     | None \<Rightarrow> [tokenIn req, tokenOut req])"

text \<open>Reserves seen from \<open>tokenIn\<close>, with the fee; \<open>isToken0\<close> compares with the pair's first token.\<close>

definition isToken0 :: "client \<Rightarrow> string \<Rightarrow> string \<Rightarrow> bool result" where
  "isToken0 c pair t = bindE (getTokens c pair) (\<lambda>(token0, token1). Inr (token0 = t))"

definition poolView :: "client \<Rightarrow> string \<Rightarrow> string \<Rightarrow> (int \<times> int \<times> int) result" where
  "poolView c pair t =
    bindE (getReserves c pair) (\<lambda>(reserve0, reserve1).
    bindE (getDynamicFee c pair) (\<lambda>feeBps.
    bindE (isToken0 c pair t) (\<lambda>isToken0In.
      Inr (if isToken0In then (reserve0, reserve1, feeBps) else (reserve1, reserve0, feeBps)))))"

text \<open>\<open>if (!pairAddress)\<close>: absent or empty.\<close>

definition lookupPair :: "client \<Rightarrow> string \<Rightarrow> string \<Rightarrow> string result" where
  "lookupPair c a b = bindE (getPairAddress c a b) (\<lambda>p.
     if truthy p then Inr (the p) else Inl (PairNotFoundError a b))"

section \<open>Quotes\<close>

definition slip :: "int \<Rightarrow> int \<Rightarrow> int" where
  "slip x slippageBps = (x * slippageBps) sdiv BPS_DENOMINATOR"

definition getDirectQuote :: "client \<Rightarrow> swap_request \<Rightarrow> string list \<Rightarrow> swap_quote result" where
  "getDirectQuote c req path =
    (let tIn = path ! 0; tOut = path ! 1 in
     bindE (lookupPair c tIn tOut) (\<lambda>pair.
     bindE (poolView c pair tIn) (\<lambda>(reserveIn, reserveOut, dynamicFee).
     bindE (resolveSlippageBps c (reqSlippage req)) (\<lambda>slippageBps.
     bindE (case tradeType req of
         EXACT_IN \<Rightarrow>
           bindE (swap_getAmountOut (amount req) reserveIn reserveOut dynamicFee) (\<lambda>out.
             Inr (amount req, out, out - slip out slippageBps))
       | EXACT_OUT \<Rightarrow>
           bindE (swap_getAmountIn (amount req) reserveIn reserveOut dynamicFee) (\<lambda>base.
             Inr (base + slip base slippageBps, amount req, amount req)))
       (\<lambda>(amountIn, amountOut, amountOutMin).
         Inr \<lparr>q_tokenIn = tIn, q_tokenOut = tOut, q_amountIn = amountIn, q_amountOut = amountOut,
           q_amountOutMin = amountOutMin,
           q_impact = calculatePriceImpact amountIn amountOut reserveIn reserveOut,
           q_feeBps = dynamicFee, q_feeAmount = feeOn amountIn dynamicFee, q_path = path,
           q_deadline = (case reqDeadline req of Some d \<Rightarrow> d | None \<Rightarrow> getDeadline c)\<rparr>)))))"

fun computeHops :: "client \<Rightarrow> int \<Rightarrow> string list \<Rightarrow> hop list result" where
  "computeHops c currentIn (tIn # tOut # rest) =
    bindE (lookupPair c tIn tOut) (\<lambda>pair.
    bindE (poolView c pair tIn) (\<lambda>(reserveIn, reserveOut, feeBps).
      if reserveIn = 0 \<or> reserveOut = 0 then Inl (InsufficientLiquidityError pair None)
      else bindE (swap_getAmountOut currentIn reserveIn reserveOut feeBps) (\<lambda>out.
        bindE (computeHops c out (tOut # rest)) (\<lambda>hops.
          Inr (\<lparr>h_tokenIn = tIn, h_tokenOut = tOut, h_amountIn = currentIn, h_amountOut = out,
                h_feeBps = feeBps, h_feeAmount = feeOn currentIn feeBps,
                h_impact = calculatePriceImpact currentIn out reserveIn reserveOut\<rparr> # hops)))))"
| "computeHops c currentIn path = Inr []"

text \<open>The path reversed, the hops so far in \<open>acc\<close> (\<open>unshift\<close>).\<close>

fun hopsReverse :: "client \<Rightarrow> int \<Rightarrow> string list \<Rightarrow> hop list \<Rightarrow> hop list result" where
  "hopsReverse c currentOut (tOut # tIn # rest) acc =
    bindE (lookupPair c tIn tOut) (\<lambda>pair.
    bindE (poolView c pair tIn) (\<lambda>(reserveIn, reserveOut, feeBps).
      if reserveIn = 0 \<or> reserveOut = 0 then Inl (InsufficientLiquidityError pair None)
      else bindE (swap_getAmountIn currentOut reserveIn reserveOut feeBps) (\<lambda>inp.
        hopsReverse c inp (tIn # rest)
          (\<lparr>h_tokenIn = tIn, h_tokenOut = tOut, h_amountIn = inp, h_amountOut = currentOut,
            h_feeBps = feeBps, h_feeAmount = feeOn inp feeBps,
            h_impact = calculatePriceImpact inp currentOut reserveIn reserveOut\<rparr> # acc))))"
| "hopsReverse c currentOut path acc = Inr acc"

definition computeHopsReverse :: "client \<Rightarrow> int \<Rightarrow> string list \<Rightarrow> hop list result" where
  "computeHopsReverse c amountOut path = hopsReverse c amountOut (rev path) []"

definition computeCompoundedFeeBps :: "int list \<Rightarrow> int" where
  "computeCompoundedFeeBps feesBps =
    BPS_DENOMINATOR - foldl (\<lambda>remainingRatio feeBps.
      (remainingRatio * (BPS_DENOMINATOR - feeBps)) sdiv BPS_DENOMINATOR) 10000 feesBps"

definition compoundPriceImpact :: "(rat \<Rightarrow> rat) \<Rightarrow> int list \<Rightarrow> int" where
  "compoundPriceImpact fl impactsBps =
    (let product = foldl (\<lambda>p bps. fl (p * fl (1 - fl (of_int bps / 10000)))) 1 impactsBps
     in \<lfloor>fl (fl (1 - product) * 10000) + 1 / 2\<rfloor>)"

definition totalFee :: "hop list \<Rightarrow> int" where
  "totalFee hops = foldl (\<lambda>acc h. acc + h_feeAmount h) 0 hops"

definition getMultiHopQuoteInternal ::
    "(rat \<Rightarrow> rat) \<Rightarrow> client \<Rightarrow> swap_request \<Rightarrow> string list \<Rightarrow> swap_quote result" where
  "getMultiHopQuoteInternal fl c req path =
    (if tradeType req \<noteq> EXACT_IN
     then Inl (ValidationError ''Multi-hop routing only supports EXACT_IN trade type'')
     else bindE (computeHops c (amount req) path) (\<lambda>hops.
       let amountIn = h_amountIn (hd hops); amountOut = h_amountOut (last hops)
       in bindE (resolveSlippageBps c (reqSlippage req)) (\<lambda>slippageBps.
         Inr \<lparr>q_tokenIn = hd path, q_tokenOut = last path, q_amountIn = amountIn,
           q_amountOut = amountOut, q_amountOutMin = amountOut - slip amountOut slippageBps,
           q_impact = compoundPriceImpact fl (map h_impact hops),
           q_feeBps = computeCompoundedFeeBps (map h_feeBps hops), q_feeAmount = totalFee hops,
           q_path = path,
           q_deadline = (case reqDeadline req of Some d \<Rightarrow> d | None \<Rightarrow> getDeadline c)\<rparr>)))"

definition getQuote :: "(rat \<Rightarrow> rat) \<Rightarrow> client \<Rightarrow> swap_request \<Rightarrow> swap_quote result" where
  "getQuote fl c req =
    (let path = resolvePath req
     in if length path < 2 then Inl (ValidationError ''Swap path must contain at least 2 tokens'')
        else if length path = 2 then getDirectQuote c req path
        else getMultiHopQuoteInternal fl c req path)"

record multi_hop_request =
  mh_path :: "string list"
  mh_amount :: int
  mh_tradeType :: trade_type
  mh_slippage :: "rat option"
  mh_deadline :: "int option"
  mh_to :: "string option"

text \<open>\<open>multiHopSwapRequestSchema\<close> of \<open>src/schemas/swap.ts\<close>, on the resolved path.\<close>

fun distinct_adjacent :: "string list \<Rightarrow> bool" where
  "distinct_adjacent (a # b # rest) = (a \<noteq> b \<and> distinct_adjacent (b # rest))"
| "distinct_adjacent _ = True"

definition stellarAddress :: "client \<Rightarrow> string \<Rightarrow> bool" where
  "stellarAddress c s \<longleftrightarrow> s \<noteq> [] \<and> isValidAddress c s"

definition multiHopSwapRequestSchema :: "client \<Rightarrow> string list \<Rightarrow> multi_hop_request \<Rightarrow> bool" where
  "multiHopSwapRequestSchema c path req \<longleftrightarrow>
     list_all (stellarAddress c) path \<and> 3 \<le> length path \<and> distinct_adjacent path \<and>
     0 < mh_amount req \<and>
     (case mh_slippage req of None \<Rightarrow> True
      | Some s \<Rightarrow> s = of_int \<lfloor>s\<rfloor> \<and> 0 \<le> s \<and> s \<le> 5000) \<and>
     (case mh_deadline req of None \<Rightarrow> True | Some d \<Rightarrow> 0 < d) \<and>
     (case mh_to req of None \<Rightarrow> True | Some a \<Rightarrow> stellarAddress c a)"

definition getMultiHopQuote ::
    "(rat \<Rightarrow> rat) \<Rightarrow> client \<Rightarrow> multi_hop_request \<Rightarrow> (swap_quote \<times> hop list) result" where
  "getMultiHopQuote fl c req =
    (let path = map (resolveToken c) (mh_path req) in
     bindE (throw_if (\<not> multiHopSwapRequestSchema c path req) (ValidationError (zodText c))) (\<lambda>_.
     bindE (if mh_tradeType req = EXACT_OUT then computeHopsReverse c (mh_amount req) path
            else computeHops c (mh_amount req) path) (\<lambda>hops.
     let baseAmountIn = h_amountIn (hd hops); amountOut = h_amountOut (last hops)
     in bindE (resolveSlippageBps c (mh_slippage req)) (\<lambda>slippageBps.
       let isExactOut = (mh_tradeType req = EXACT_OUT)
       in Inr (\<lparr>q_tokenIn = hd path, q_tokenOut = last path,
           q_amountIn = (if isExactOut then baseAmountIn + slip baseAmountIn slippageBps else baseAmountIn),
           q_amountOut = amountOut,
           q_amountOutMin = (if isExactOut then amountOut else amountOut - slip amountOut slippageBps),
           q_impact = compoundPriceImpact fl (map h_impact hops),
           q_feeBps = computeCompoundedFeeBps (map h_feeBps hops), q_feeAmount = totalFee hops,
           q_path = path,
           q_deadline = (case mh_deadline req of Some d \<Rightarrow> d | None \<Rightarrow> getDeadline c)\<rparr>, hops)))))"

record swap_simulation =
  sim_amountOut :: int
  sim_impact :: int
  sim_feeAmount :: int
  sim_price :: "int \<times> int"
  sim_warning :: bool

text \<open>\<open>simulateSwap\<close> with \<open>simulateSwapParamsSchema\<close>; \<open>pairAddress\<close> need not be given.\<close>

definition simulateSwap ::
    "client \<Rightarrow> string \<Rightarrow> string \<Rightarrow> int \<Rightarrow> string option \<Rightarrow> swap_simulation result" where
  "simulateSwap c tIn tOut amountIn pairAddress =
    (let rIn = resolveToken c tIn; rOut = resolveToken c tOut in
     bindE (throw_if (\<not> (stellarAddress c rIn \<and> stellarAddress c rOut \<and> 0 < amountIn \<and> rIn \<noteq> rOut))
              (ValidationError (zodText c))) (\<lambda>_.
     bindE (case pairAddress of Some p \<Rightarrow> Inr (Some p) | None \<Rightarrow> getPairAddress c rIn rOut) (\<lambda>resolved.
     bindE (throw_if (\<not> truthy resolved) (PairNotFoundError rIn rOut)) (\<lambda>_.
     let pair = the resolved in
     bindE (getReserves c pair) (\<lambda>(reserve0, reserve1).
     bindE (getDynamicFee c pair) (\<lambda>feeBps.
     bindE (throw_if (reserve0 = 0 \<or> reserve1 = 0) (InsufficientLiquidityError pair None)) (\<lambda>_.
     bindE (isToken0 c pair rIn) (\<lambda>isToken0In.
     let reserveIn = (if isToken0In then reserve0 else reserve1);
         reserveOut = (if isToken0In then reserve1 else reserve0) in
     bindE (swap_getAmountOut amountIn reserveIn reserveOut feeBps) (\<lambda>amountOut.
     let impact = calculatePriceImpact amountIn amountOut reserveIn reserveOut in
     Inr \<lparr>sim_amountOut = amountOut, sim_impact = impact, sim_feeAmount = feeOn amountIn feeBps,
          sim_price = (amountOut, amountIn), sim_warning = (500 < impact)\<rparr>)))))))))"

section \<open>Building and submitting\<close>

text \<open>The operations the contract binding builds, with the arguments it is given.\<close>

datatype swap_op =
    SwapExactTokensForTokens string "string list" int int int
  | SwapExactIn string string string int int int
  | SwapExactOut string string string int int int

definition buildSwapOperation :: "client \<Rightarrow> swap_request \<Rightarrow> swap_quote \<Rightarrow> swap_op result" where
  "buildSwapOperation c req q =
    (if q_amountIn q \<le> 0 then Inl (ValidationError ''quote.amountIn must be greater than 0'')
     else if q_amountOutMin q \<le> 0
     then Inl (ValidationError ''quote.amountOutMin must be greater than 0'')
     else let path = resolvePath req;
              to = (case reqTo req of Some a \<Rightarrow> a | None \<Rightarrow> publicKey c)
          in Inr (if 2 < length path
             then SwapExactTokensForTokens to path (q_amountIn q) (q_amountOutMin q) (q_deadline q)
             else if tradeType req = EXACT_IN
             then SwapExactIn to (tokenIn req) (tokenOut req) (q_amountIn q) (q_amountOutMin q) (q_deadline q)
             else SwapExactOut to (tokenIn req) (tokenOut req) (q_amountOut q) (q_amountIn q) (q_deadline q)))"

record swap_result =
  s_txHash :: "string option"
  s_amountIn :: int
  s_amountOut :: int
  s_feePaid :: int
  s_ledger :: int
  s_timestamp :: int

definition toSwapResult :: "int \<Rightarrow> swap_quote \<Rightarrow> string option \<Rightarrow> int \<Rightarrow> swap_result" where
  "toSwapResult nowMs q h ledger = \<lparr>s_txHash = h, s_amountIn = q_amountIn q, s_amountOut = q_amountOut q,
     s_feePaid = q_feeAmount q, s_ledger = ledger, s_timestamp = nowMs div 1000\<rparr>"

text \<open>
  The submission loop of \<open>submitSwapWithIdempotentResubmission\<close>; \<open>k\<close> retries are left of the
  \<open>IDEMPOTENT_RETRY_CONFIG\<close>. A success without \<open>data\<close> is a \<open>TypeError\<close>.
\<close>

fun submitSwapLoop :: "'w rpc \<Rightarrow> (rat \<Rightarrow> 'w \<Rightarrow> 'w) \<Rightarrow> ('w \<Rightarrow> int) \<Rightarrow> swap_quote \<Rightarrow>
    ('w, thrown, sdk_result) act \<Rightarrow> nat \<Rightarrow> ('w, thrown, swap_result) act" where
  "submitSwapLoop get slp now q submit k w = (case submit w of
       (Inl e, w1) \<Rightarrow> (Inl e, w1)
     | (Inr result, w1) \<Rightarrow>
        if success result then
          (case res_data result of
             None \<Rightarrow> (Inl (Sdk (JsError ''Cannot read properties of undefined'')), w1)
           | Some (_, ledger) \<Rightarrow> (Inr (toSwapResult (now w1) q (res_txHash result) ledger), w1))
        else if \<not> truthy (res_txHash result)
        then (Inl (Sdk (TransactionError (error_message_or result ''Swap failed'') None)), w1)
        else (let h = the (res_txHash result) in case getTransactionStatus get h w1 of (st, w2) \<Rightarrow>
          case shouldRetrySubmission st None of
            Inl e \<Rightarrow> (Inl (Sdk e), w2)
          | Inr (shouldRetry, _) \<Rightarrow>
             (case st of SUCCESS ledger _ \<Rightarrow> (Inr (toSwapResult (now w2) q (Some h) ledger), w2)
              | _ \<Rightarrow>
               if \<not> shouldRetry \<or> k = 0
               then (Inl (Sdk (TransactionError (case st of
                      FAILED _ \<Rightarrow> ''Swap failed on-chain: '' @ error_message_or result ''Unknown error''
                    | _ \<Rightarrow> error_message_or result ''Swap failed'') (Some h))), w2)
               else submitSwapLoop get slp now q submit (k - 1) (slp 2000 w2))))"

declare submitSwapLoop.simps [simp del]

definition submitSwapWithIdempotentResubmission ::
    "'w rpc \<Rightarrow> (rat \<Rightarrow> 'w \<Rightarrow> 'w) \<Rightarrow> ('w \<Rightarrow> int) \<Rightarrow> swap_quote \<Rightarrow> ('w, thrown, sdk_result) act \<Rightarrow>
     ('w, thrown, swap_result) act" where
  "submitSwapWithIdempotentResubmission get slp now q submit w =
     submitSwapLoop get slp now q submit 2 w"

text \<open>\<open>execute\<close> without \<open>estimateOnly\<close>; \<open>given\<close> is \<open>request.quote\<close>.\<close>

definition execute_swap :: "(rat \<Rightarrow> rat) \<Rightarrow> 'w rpc \<Rightarrow> (rat \<Rightarrow> 'w \<Rightarrow> 'w) \<Rightarrow> ('w \<Rightarrow> int) \<Rightarrow>
    (swap_op list \<Rightarrow> ('w, thrown, sdk_result) act) \<Rightarrow> ('w \<Rightarrow> client) \<Rightarrow> swap_request \<Rightarrow>
    swap_quote option \<Rightarrow> ('w, thrown, swap_result) act" where
  "execute_swap fl get slp now submitTransaction cl req given w =
    bindW (liftW (case given of Some q \<Rightarrow> Inr q | None \<Rightarrow> getQuote fl (cl w) req)) (\<lambda>q.
    bindW (liftW (buildSwapOperation (cl w) req q)) (\<lambda>op.
      submitSwapWithIdempotentResubmission get slp now q (submitTransaction [op]))) w"

definition multiHopOperation :: "client \<Rightarrow> multi_hop_request \<Rightarrow> swap_quote \<Rightarrow> swap_op" where
  "multiHopOperation c req q = SwapExactTokensForTokens
     (case mh_to req of Some a \<Rightarrow> a | None \<Rightarrow> publicKey c) (q_path q) (q_amountIn q)
     (q_amountOutMin q) (q_deadline q)"

definition executeMultiHop :: "(rat \<Rightarrow> rat) \<Rightarrow> 'w rpc \<Rightarrow> (rat \<Rightarrow> 'w \<Rightarrow> 'w) \<Rightarrow> ('w \<Rightarrow> int) \<Rightarrow>
    (swap_op list \<Rightarrow> ('w, thrown, sdk_result) act) \<Rightarrow> ('w \<Rightarrow> client) \<Rightarrow> multi_hop_request \<Rightarrow>
    ('w, thrown, swap_result) act" where
  "executeMultiHop fl get slp now submitTransaction cl req w =
    bindW (liftW (getMultiHopQuote fl (cl w) req)) (\<lambda>(q, hops).
      submitSwapWithIdempotentResubmission get slp now q
        (submitTransaction [multiHopOperation (cl w) req q])) w"

section \<open>What a quote promises\<close>

lemma resolveSlippageBps_range:
  "resolveSlippageBps c r = Inr s \<Longrightarrow> 0 \<le> s \<and> s \<le> 5000"
  by (auto simp: resolveSlippageBps_def Let_def le_floor_iff floor_le_iff split: if_splits)

lemma slip_bounds:
  assumes "0 \<le> x" "0 \<le> s" "s \<le> 5000"
  shows "0 \<le> slip x s \<and> 2 * slip x s \<le> x"
proof -
  have "x * s div 10000 \<le> x * 5000 div 10000"
    using assms by (intro zdiv_mono1 mult_left_mono) auto
  also have "2 * \<dots> \<le> x" by simp
  finally show ?thesis
    using assms by (simp add: slip_def BPS_DENOMINATOR_def bigint_simps pos_imp_zdiv_nonneg_iff)
qed

lemma feeOn_bounds:
  assumes "0 \<le> x" "0 \<le> f" "f \<le> 10000"
  shows "0 \<le> feeOn x f \<and> feeOn x f \<le> x"
proof -
  have "x * f div 10000 \<le> x * 10000 div 10000"
    using assms by (intro zdiv_mono1 mult_left_mono) auto
  then show ?thesis
    using assms by (simp add: feeOn_def BPS_DENOMINATOR_def bigint_simps pos_imp_zdiv_nonneg_iff)
qed

lemma cp_out_ideal:
  assumes "0 \<le> a" "0 < ri" "0 \<le> ro" "0 \<le> f" "f \<le> 10000"
  shows "cp_out a ri ro f \<le> a * ro div ri"
proof -
  let ?b = "cp_out a ri ro f"
  have b: "?b * ri * 10000 \<le> a * (10000 - f) * (ro - ?b)" "0 \<le> ?b"
    using cp_out_le_iff[OF assms(1,2,5)] cp_out_nonneg[OF assms(1,2,3,5)] by blast+
  have "a * (10000 - f) * (ro - ?b) \<le> a * (10000 - f) * ro"
    using assms b(2) by (intro mult_left_mono) auto
  also have "\<dots> \<le> a * 10000 * ro" using assms by (intro mult_right_mono mult_left_mono) auto
  finally have "?b * ri \<le> a * ro" using b(1) by linarith
  then show ?thesis using div_le_iff_int[OF assms(2)] by simp
qed

lemma impact_range:
  assumes "0 \<le> a" "0 < ri" "0 < ro" "0 \<le> b" "b \<le> a * ro div ri"
  shows "0 \<le> calculatePriceImpact a b ri ro \<and> calculatePriceImpact a b ri ro \<le> 10000"
proof -
  let ?i = "a * ro div ri"
  have i: "0 \<le> ?i" using assms by (simp add: pos_imp_zdiv_nonneg_iff)
  show ?thesis
  proof (cases "?i = 0")
    case False
    with i have pos: "0 < ?i" by simp
    have "(?i - b) * 10000 div ?i \<le> ?i * 10000 div ?i"
      using assms pos by (intro zdiv_mono1 mult_right_mono) auto
    also have "\<dots> = 10000" using pos by simp
    finally show ?thesis using assms pos
      by (simp add: calculatePriceImpact_def Let_def bigint_simps pos_imp_zdiv_nonneg_iff)
  qed (use assms in \<open>simp add: calculatePriceImpact_def Let_def bigint_simps\<close>)
qed

lemma lookupPair_Inr:
  "lookupPair c a b = Inr p \<longleftrightarrow> getPairAddress c a b = Inr (Some p) \<and> p \<noteq> []"
  by (auto simp: lookupPair_def result_simps truthy_def split: if_splits)

text \<open>A direct quote, taken apart.\<close>

lemma getDirectQuote_cases:
  assumes "getDirectQuote c req path = Inr q"
  obtains pair ri ro s where "getPairAddress c (path ! 0) (path ! 1) = Inr (Some pair)"
    and "poolView c pair (path ! 0) = Inr (ri, ro, q_feeBps q)" and "0 \<le> s" "s \<le> 5000"
    and "q_impact q = calculatePriceImpact (q_amountIn q) (q_amountOut q) ri ro"
    and "q_feeAmount q = feeOn (q_amountIn q) (q_feeBps q)"
    and "tradeType req = EXACT_IN \<Longrightarrow> q_amountIn q = amount req \<and>
      swap_getAmountOut (amount req) ri ro (q_feeBps q) = Inr (q_amountOut q) \<and>
      q_amountOutMin q = q_amountOut q - slip (q_amountOut q) s"
    and "tradeType req = EXACT_OUT \<Longrightarrow> q_amountOut q = amount req \<and> q_amountOutMin q = amount req \<and>
      (\<exists>base. swap_getAmountIn (amount req) ri ro (q_feeBps q) = Inr base \<and>
        q_amountIn q = base + slip base s)"
  using assms
  by (cases "tradeType req")
    (auto simp: getDirectQuote_def Let_def bindE_eq_Inr lookupPair_Inr dest!: resolveSlippageBps_range)

text \<open>
  A direct exact-in quote is what the pool will pay. With a fee of at most 100 percent, the
  quoted output is the constant-product output for the reserves read, below the output
  reserve, and never lowers the reserve product; the guaranteed minimum is at least half of it
  and at most all of it; fee and price impact are within 0 and 100 percent.
\<close>

theorem direct_quote_exact_in:
  assumes q: "getDirectQuote c req path = Inr q" and "tradeType req = EXACT_IN"
    and fee: "0 \<le> q_feeBps q" "q_feeBps q \<le> 10000"
  shows "\<exists>pair ri ro. getPairAddress c (path ! 0) (path ! 1) = Inr (Some pair) \<and>
    poolView c pair (path ! 0) = Inr (ri, ro, q_feeBps q) \<and>
    q_amountIn q = amount req \<and> q_amountOut q < ro \<and>
    ri * ro \<le> (ri + q_amountIn q) * (ro - q_amountOut q) \<and>
    q_amountOut q \<le> 2 * q_amountOutMin q \<and> q_amountOutMin q \<le> q_amountOut q \<and>
    0 \<le> q_feeAmount q \<and> q_feeAmount q \<le> q_amountIn q \<and> 0 \<le> q_impact q \<and> q_impact q \<le> 10000"
  using q
proof (rule getDirectQuote_cases)
  fix pair ri ro s
  assume a: "getPairAddress c (path ! 0) (path ! 1) = Inr (Some pair)"
    "poolView c pair (path ! 0) = Inr (ri, ro, q_feeBps q)" "0 \<le> s" "s \<le> 5000"
    "q_impact q = calculatePriceImpact (q_amountIn q) (q_amountOut q) ri ro"
    "q_feeAmount q = feeOn (q_amountIn q) (q_feeBps q)"
    and "tradeType req = EXACT_IN \<Longrightarrow> q_amountIn q = amount req \<and>
      swap_getAmountOut (amount req) ri ro (q_feeBps q) = Inr (q_amountOut q) \<and>
      q_amountOutMin q = q_amountOut q - slip (q_amountOut q) s"
  with assms(2) have out: "q_amountIn q = amount req"
    "swap_getAmountOut (amount req) ri ro (q_feeBps q) = Inr (q_amountOut q)"
    "q_amountOutMin q = q_amountOut q - slip (q_amountOut q) s" by auto
  have "0 < amount req" "0 < ri" "0 < ro" using swap_exchange.out_inputs[OF out(2)] by auto
  moreover have r: "0 \<le> q_amountOut q" "q_amountOut q < ro"
    using swap_exchange.out_range[OF out(2) fee(2)] by auto
  moreover have "q_amountOut q \<le> amount req * ro div ri"
    using swap_exchange.out_value[OF out(2) fee(2)] cp_out_ideal[of "amount req" ri ro "q_feeBps q"]
      calculation fee by simp
  ultimately show ?thesis
    using a out swap_exchange.out_keeps_k[OF out(2) fee] slip_bounds[OF r(1) a(3,4)]
      feeOn_bounds[of "amount req" "q_feeBps q"] impact_range[of "amount req" ri ro "q_amountOut q"] fee
    by (intro exI[of _ pair] exI[of _ ri] exI[of _ ro]) auto
qed

text \<open>
  A direct exact-out quote suffices. With a fee below 100 percent, paying the quoted input
  into the reserves read buys at least the requested output, and the output reserve is never
  exhausted.
\<close>

theorem direct_quote_exact_out:
  assumes q: "getDirectQuote c req path = Inr q" and "tradeType req = EXACT_OUT"
    and fee: "q_feeBps q < 10000"
  shows "\<exists>pair ri ro out. getPairAddress c (path ! 0) (path ! 1) = Inr (Some pair) \<and>
    poolView c pair (path ! 0) = Inr (ri, ro, q_feeBps q) \<and>
    q_amountOut q = amount req \<and> q_amountOutMin q = amount req \<and> amount req < ro \<and>
    swap_getAmountOut (q_amountIn q) ri ro (q_feeBps q) = Inr out \<and> amount req \<le> out"
  using q
proof (rule getDirectQuote_cases)
  fix pair ri ro s
  assume a: "getPairAddress c (path ! 0) (path ! 1) = Inr (Some pair)"
    "poolView c pair (path ! 0) = Inr (ri, ro, q_feeBps q)" "0 \<le> s" "s \<le> 5000"
    and "tradeType req = EXACT_OUT \<Longrightarrow> q_amountOut q = amount req \<and> q_amountOutMin q = amount req \<and>
      (\<exists>base. swap_getAmountIn (amount req) ri ro (q_feeBps q) = Inr base \<and>
        q_amountIn q = base + slip base s)"
  with assms(2) obtain base where out: "q_amountOut q = amount req" "q_amountOutMin q = amount req"
    "swap_getAmountIn (amount req) ri ro (q_feeBps q) = Inr base" "q_amountIn q = base + slip base s"
    by auto
  have i: "0 < amount req" "amount req < ro" "0 < ri" using swap_exchange.in_inputs[OF out(3)] by auto
  have base: "0 < base" "amount req \<le> cp_out base ri ro (q_feeBps q)"
    using swap_exchange.in_value[OF out(3) fee] cp_in_spec(1,2)[of "amount req" ro ri "q_feeBps q"] i fee
    by auto
  have "base \<le> q_amountIn q" using slip_bounds[of base s] base a out by simp
  then have "amount req \<le> cp_out (q_amountIn q) ri ro (q_feeBps q)"
    using cp_out_mono[of base "q_amountIn q" ri ro "q_feeBps q"] base i fee by simp
  moreover have "swap_getAmountOut (q_amountIn q) ri ro (q_feeBps q)
      = Inr (cp_out (q_amountIn q) ri ro (q_feeBps q))"
    using swap_exchange.out_quote[of "q_amountIn q" ri ro "q_feeBps q"] \<open>base \<le> q_amountIn q\<close> base i fee
    by simp
  ultimately show ?thesis using a out i by blast
qed

section \<open>Chains of hops\<close>

text \<open>A hop is quoted by the pool between its tokens.\<close>

definition quoted_hop :: "client \<Rightarrow> hop \<Rightarrow> bool" where
  "quoted_hop c h \<longleftrightarrow> (\<exists>pair ri ro. getPairAddress c (h_tokenIn h) (h_tokenOut h) = Inr (Some pair) \<and>
     poolView c pair (h_tokenIn h) = Inr (ri, ro, h_feeBps h) \<and>
     swap_getAmountOut (h_amountIn h) ri ro (h_feeBps h) = Inr (h_amountOut h))"

lemma computeHops_step:
  "computeHops c a (t # u # rest) = Inr hops \<longleftrightarrow>
    (\<exists>pair ri ro f out hs. getPairAddress c t u = Inr (Some pair) \<and> pair \<noteq> [] \<and>
      poolView c pair t = Inr (ri, ro, f) \<and> ri \<noteq> 0 \<and> ro \<noteq> 0 \<and>
      swap_getAmountOut a ri ro f = Inr out \<and> computeHops c out (u # rest) = Inr hs \<and>
      hops = \<lparr>h_tokenIn = t, h_tokenOut = u, h_amountIn = a, h_amountOut = out, h_feeBps = f,
              h_feeAmount = feeOn a f, h_impact = calculatePriceImpact a out ri ro\<rparr> # hs)"
  (is "_ \<longleftrightarrow> ?rhs")
proof
  assume "computeHops c a (t # u # rest) = Inr hops"
  then show ?rhs by (auto simp: bindE_eq_Inr lookupPair_Inr split: if_splits)
next
  assume ?rhs
  then obtain pair ri ro f out hs where
    st: "getPairAddress c t u = Inr (Some pair)" "pair \<noteq> []" "poolView c pair t = Inr (ri, ro, f)"
    "ri \<noteq> 0" "ro \<noteq> 0" "swap_getAmountOut a ri ro f = Inr out" "computeHops c out (u # rest) = Inr hs"
    "hops = \<lparr>h_tokenIn = t, h_tokenOut = u, h_amountIn = a, h_amountOut = out, h_feeBps = f,
              h_feeAmount = feeOn a f, h_impact = calculatePriceImpact a out ri ro\<rparr> # hs"
    by blast
  then have "lookupPair c t u = Inr pair" by (simp add: lookupPair_Inr)
  with st show "computeHops c a (t # u # rest) = Inr hops" by simp
qed

lemma computeHops_chain_aux:
  "computeHops c a (t # path) = Inr hops \<Longrightarrow>
   map h_tokenIn hops = butlast (t # path) \<and> map h_tokenOut hops = path \<and>
   map h_amountIn hops = butlast (a # map h_amountOut hops) \<and> list_all (quoted_hop c) hops"
proof (induction path arbitrary: t a hops)
  case Nil
  then show ?case by simp
next
  case (Cons u rest)
  from Cons.prems obtain pair ri ro f out hs where
    st: "getPairAddress c t u = Inr (Some pair)" "poolView c pair t = Inr (ri, ro, f)"
    "swap_getAmountOut a ri ro f = Inr out" "computeHops c out (u # rest) = Inr hs"
    and hops: "hops = \<lparr>h_tokenIn = t, h_tokenOut = u, h_amountIn = a, h_amountOut = out, h_feeBps = f,
              h_feeAmount = feeOn a f, h_impact = calculatePriceImpact a out ri ro\<rparr> # hs"
    unfolding computeHops_step by blast
  from Cons.IH[OF st(4)] st(1-3) show ?case
    unfolding hops by (auto simp: quoted_hop_def)
qed

text \<open>
  A multi-hop quote is a chain. The hops follow the path token by token, the output of each
  hop is the input of the next, the first takes the requested amount, and each output is what
  the pool between its two tokens quotes for its input.
\<close>

theorem computeHops_chain:
  assumes "computeHops c a path = Inr hops" and "2 \<le> length path"
  shows "map h_tokenIn hops = butlast path \<and> map h_tokenOut hops = tl path \<and>
    map h_amountIn hops = a # butlast (map h_amountOut hops) \<and> list_all (quoted_hop c) hops"
proof -
  obtain t u rest where p: "path = t # u # rest"
    using assms(2) by (cases path; cases "tl path") auto
  have "map h_tokenIn hops = butlast path \<and> map h_tokenOut hops = u # rest \<and>
    map h_amountIn hops = butlast (a # map h_amountOut hops) \<and> list_all (quoted_hop c) hops"
    unfolding p by (rule computeHops_chain_aux) (use assms(1) p in simp)
  then show ?thesis by (cases hops) (simp_all add: p)
qed

definition endAmount :: "int \<Rightarrow> hop list \<Rightarrow> int" where
  "endAmount a hops = (if hops = [] then a else h_amountOut (last hops))"

lemma computeHops_snoc:
  "computeHops c a (xs @ [t, u]) = bindE (computeHops c a (xs @ [t])) (\<lambda>hs.
     bindE (computeHops c (endAmount a hs) [t, u]) (\<lambda>h. Inr (hs @ h)))"
proof (induction xs arbitrary: a)
  case Nil
  then show ?case by (simp add: endAmount_def bindE_def split: sum.splits)
next
  case (Cons x xs)
  have end_Cons: "endAmount a (h # hs) = endAmount (h_amountOut h) hs" for h hs
    by (simp add: endAmount_def)
  obtain y ys where y: "xs @ [t] = y # ys" by (cases xs) auto
  then have y': "xs @ [t, u] = y # ys @ [u]" by (cases xs) auto
  show ?case
  proof (cases "bindE (lookupPair c x y) (\<lambda>pair. poolView c pair x)")
    case (Inl e)
    then show ?thesis unfolding append_Cons y y'
      by (auto simp: bindE_eq_Inl)
  next
    case (Inr v)
    then obtain pair ri ro f where v: "lookupPair c x y = Inr pair" "poolView c pair x = Inr (ri, ro, f)"
      by (cases v) (auto simp: bindE_eq_Inr)
    show ?thesis
    proof (cases "swap_getAmountOut a ri ro f")
      case (Inl e)
      then show ?thesis using v unfolding append_Cons y y' by simp
    next
      case (Inr out)
      show ?thesis using Cons.IH[of out] v Inr unfolding append_Cons y y'
        by (cases "computeHops c out (y # ys)") (simp_all add: end_Cons bindE_def split: sum.splits)
    qed
  qed
qed

lemma hopsReverse_suffices:
  "hopsReverse c out p acc = Inr hops \<Longrightarrow> \<exists>new. hops = new @ acc \<and> length new = length p - 1 \<and>
    (list_all (\<lambda>h. h_feeBps h < 10000) new \<longrightarrow>
     (\<forall>a \<ge> (if new = [] then out else h_amountIn (hd new)).
       \<exists>hs. computeHops c a (rev p) = Inr hs \<and> length hs = length new \<and> out \<le> endAmount a hs))"
proof (induction c out p acc rule: hopsReverse.induct)
  case (1 c out u t rest acc)
  from 1(2) obtain pair ri ro f inp where
    st: "getPairAddress c t u = Inr (Some pair)" "pair \<noteq> []" "poolView c pair t = Inr (ri, ro, f)"
    "\<not> (ri = 0 \<or> ro = 0)" "swap_getAmountIn out ri ro f = Inr inp"
    and rec: "hopsReverse c inp (t # rest) (\<lparr>h_tokenIn = t, h_tokenOut = u, h_amountIn = inp,
        h_amountOut = out, h_feeBps = f, h_feeAmount = feeOn inp f,
        h_impact = calculatePriceImpact inp out ri ro\<rparr> # acc) = Inr hops"
    by (auto simp: bindE_eq_Inr lookupPair_Inr split: if_splits)
  let ?h = "\<lparr>h_tokenIn = t, h_tokenOut = u, h_amountIn = inp, h_amountOut = out, h_feeBps = f,
      h_feeAmount = feeOn inp f, h_impact = calculatePriceImpact inp out ri ro\<rparr>"
  have lp: "lookupPair c t u = Inr pair" using st by (simp add: lookupPair_Inr)
  from 1(1)[OF st(4) rec] obtain new where
    new: "hops = new @ ?h # acc" "length new = length rest"
    and ih: "list_all (\<lambda>h. h_feeBps h < 10000) new \<Longrightarrow>
       \<forall>a \<ge> (if new = [] then inp else h_amountIn (hd new)).
       \<exists>hs. computeHops c a (rev rest @ [t]) = Inr hs \<and> length hs = length new \<and> inp \<le> endAmount a hs"
    by auto
  have "\<exists>hs. computeHops c a (rev rest @ [t, u]) = Inr hs \<and> length hs = Suc (length new) \<and>
      out \<le> endAmount a hs"
    if fees: "list_all (\<lambda>h. h_feeBps h < 10000) new" "f < 10000"
      and a: "(if new = [] then inp else h_amountIn (hd new)) \<le> a" for a
  proof -
    from ih[OF fees(1)] a obtain hs where
      hs: "computeHops c a (rev rest @ [t]) = Inr hs" "length hs = length new" "inp \<le> endAmount a hs"
      by blast
    let ?e = "endAmount a hs"
    have i: "0 < out" "out < ro" "0 < ri" using swap_exchange.in_inputs[OF st(5)] by auto
    have inp: "0 < inp" "out \<le> cp_out inp ri ro f"
      using swap_exchange.in_value[OF st(5) fees(2)] cp_in_spec(1,2)[of out ro ri f] i fees(2) by auto
    then have e: "out \<le> cp_out ?e ri ro f"
      using cp_out_mono[of inp ?e ri ro f] hs(3) i fees(2) by simp
    have q: "swap_getAmountOut ?e ri ro f = Inr (cp_out ?e ri ro f)"
      using swap_exchange.out_quote[of ?e ri ro f] hs(3) inp i fees(2) by simp
    have "computeHops c ?e [t, u] = Inr [\<lparr>h_tokenIn = t, h_tokenOut = u, h_amountIn = ?e,
        h_amountOut = cp_out ?e ri ro f, h_feeBps = f, h_feeAmount = feeOn ?e f,
        h_impact = calculatePriceImpact ?e (cp_out ?e ri ro f) ri ro\<rparr>]"
      using st lp q by simp
    then show ?thesis unfolding computeHops_snoc hs(1) using hs(2) e by (simp add: endAmount_def)
  qed
  then show ?case using new by (intro exI[of _ "new @ [?h]"]) (cases new, auto)
qed (auto simp: endAmount_def)

text \<open>
  C2: A reverse chain suffices. When \<open>computeHopsReverse\<close> finds the inputs for a wanted output
  and every fee is below 100 percent, paying the first input forwards along the path yields at
  least that output.
\<close>

theorem computeHopsReverse_suffices:
  assumes "computeHopsReverse c out path = Inr hops" and "2 \<le> length path"
    and "list_all (\<lambda>h. h_feeBps h < 10000) hops"
  shows "\<exists>hs. computeHops c (h_amountIn (hd hops)) path = Inr hs \<and> out \<le> h_amountOut (last hs)"
proof -
  from hopsReverse_suffices[OF assms(1)[unfolded computeHopsReverse_def]] assms(2,3)
  obtain hs where "length hops = length path - 1" "computeHops c (h_amountIn (hd hops)) path = Inr hs"
    "length hs = length hops" "out \<le> endAmount (h_amountIn (hd hops)) hs"
    by (auto split: if_splits)
  then show ?thesis using assms(2) by (auto simp: endAmount_def split: if_splits)
qed

section \<open>Instances\<close>

text \<open>Two pools on the tokens A, B, C, the second with its tokens listed the other way round.\<close>

definition demo_client :: client where
  "demo_client = \<lparr>getPairAddress = (\<lambda>a b. Inr (if {a, b} = {''A'', ''B''} then Some ''AB''
       else if {a, b} = {''B'', ''C''} then Some ''BC'' else None)),
     getReserves = (\<lambda>p. if p = ''AB'' then Inr (1000000, 2000000) else Inr (500000, 400000)),
     getDynamicFee = (\<lambda>_. Inr 30),
     getTokens = (\<lambda>p. if p = ''AB'' then Inr (''A'', ''B'') else Inr (''C'', ''B'')),
     defaultSlippageBps = Some 100, getDeadline = 1700000000, publicKey = ''me'',
     resolveToken = (\<lambda>t. t), isValidAddress = (\<lambda>_. True), zodText = [], numText = (\<lambda>_. [])\<rparr>"

definition demo_request :: "trade_type \<Rightarrow> int \<Rightarrow> swap_request" where
  "demo_request tt a = \<lparr>tokenIn = ''A'', tokenOut = ''B'', amount = a, tradeType = tt, reqPath = None,
     reqSlippage = None, reqDeadline = None, reqTo = None\<rparr>"

lemma demo_simps:
  "getPairAddress demo_client ''A'' ''B'' = Inr (Some ''AB'')"
  "getPairAddress demo_client ''B'' ''C'' = Inr (Some ''BC'')"
  "poolView demo_client ''AB'' ''A'' = Inr (1000000, 2000000, 30)"
  "poolView demo_client ''BC'' ''B'' = Inr (400000, 500000, 30)"
  "resolveSlippageBps demo_client None = Inr 100"
  by (simp_all add: demo_client_def poolView_def isToken0_def resolveSlippageBps_def orElse_def doubleton_eq_iff)

lemma demo_lookup:
  "lookupPair demo_client ''A'' ''B'' = Inr ''AB''" "lookupPair demo_client ''B'' ''C'' = Inr ''BC''"
  by (simp_all add: lookupPair_Inr demo_simps)

definition demo_quote :: "int \<Rightarrow> int \<Rightarrow> int \<Rightarrow> int \<Rightarrow> int \<Rightarrow> swap_quote" where
  "demo_quote i out m imp f = \<lparr>q_tokenIn = ''A'', q_tokenOut = ''B'', q_amountIn = i, q_amountOut = out,
     q_amountOutMin = m, q_impact = imp, q_feeBps = 30, q_feeAmount = f, q_path = [''A'', ''B''],
     q_deadline = 1700000000\<rparr>"

lemmas quote_eval = getDirectQuote_def demo_request_def demo_simps demo_lookup demo_quote_def
  swap_getAmountOut_def swap_getAmountIn_def slip_def BPS_DENOMINATOR_def calculatePriceImpact_def
  feeOn_def Let_def bigint_simps

lemma direct_quote_exact_in_witness:
  "\<exists>pair ri ro. poolView demo_client pair ''A'' = Inr (ri, ro, 30) \<and> (19743 :: int) < ro"
proof -
  have q: "getDirectQuote demo_client (demo_request EXACT_IN 10000) [''A'', ''B'']
      = Inr (demo_quote 10000 19743 19546 128 30)"
    by (simp add: quote_eval) (simp add: demo_client_def)
  from direct_quote_exact_in[OF q] show ?thesis
    by (auto simp: demo_request_def demo_quote_def)
qed

lemma direct_quote_exact_out_witness:
  "\<exists>pair ri ro out. poolView demo_client pair ''A'' = Inr (ri, ro, 30) \<and>
     swap_getAmountOut 5091 ri ro 30 = Inr out \<and> (10000 :: int) \<le> out"
proof -
  have q: "getDirectQuote demo_client (demo_request EXACT_OUT 10000) [''A'', ''B'']
      = Inr (demo_quote 5091 10000 10000 178 15)"
    by (simp add: quote_eval) (simp add: demo_client_def)
  from direct_quote_exact_out[OF q] show ?thesis
    by (auto simp: demo_request_def demo_quote_def)
qed

lemma demo_hops:
  "computeHops demo_client 10000 [''A'', ''B'', ''C''] = Inr
     [\<lparr>h_tokenIn = ''A'', h_tokenOut = ''B'', h_amountIn = 10000, h_amountOut = 19743, h_feeBps = 30,
       h_feeAmount = 30, h_impact = 128\<rparr>,
      \<lparr>h_tokenIn = ''B'', h_tokenOut = ''C'', h_amountIn = 19743, h_amountOut = 23450, h_feeBps = 30,
       h_feeAmount = 59, h_impact = 497\<rparr>]"
  by (simp add: quote_eval)

lemma computeHops_chain_witness:
  "\<exists>hops. computeHops demo_client 10000 [''A'', ''B'', ''C''] = Inr hops \<and>
     map h_amountIn hops = 10000 # butlast (map h_amountOut hops)"
  using computeHops_chain[OF demo_hops] demo_hops by (auto simp del: computeHops.simps)

lemma demo_reverse:
  "computeHopsReverse demo_client 20000 [''A'', ''B'', ''C''] = Inr
     [\<lparr>h_tokenIn = ''A'', h_tokenOut = ''B'', h_amountIn = 8455, h_amountOut = 16717, h_feeBps = 30,
       h_feeAmount = 25, h_impact = 114\<rparr>,
      \<lparr>h_tokenIn = ''B'', h_tokenOut = ''C'', h_amountIn = 16717, h_amountOut = 20000, h_feeBps = 30,
       h_feeAmount = 50, h_impact = 428\<rparr>]"
  by (simp add: quote_eval computeHopsReverse_def)

lemma computeHopsReverse_suffices_witness:
  "\<exists>hs. computeHops demo_client 8455 [''A'', ''B'', ''C''] = Inr hs \<and> 20000 \<le> h_amountOut (last hs)"
  using computeHopsReverse_suffices[OF demo_reverse] by (simp del: computeHops.simps)

section \<open>Submission\<close>

lemma submitSwapLoop_lands:
  assumes sub: "honest_submit landed inflight submit" and st: "honest_status landed inflight get"
    and slp: "\<And>d w. settles landed inflight w (slp d w)"
  shows "landed w \<union> inflight w = {} \<Longrightarrow> submitSwapLoop get slp now q submit k w = (res, w') \<Longrightarrow>
    (\<exists>h. at_most landed inflight h w' \<and> (\<forall>s. res = Inr s \<longrightarrow> s_txHash s = Some h \<and> exactly landed h w'))"
proof (induction k arbitrary: w rule: less_induct)
  case (less k)
  obtain r w1 where r: "submit w = (r, w1)" by fastforce
  obtain h where h: "at_most landed inflight h w1"
    "\<And>x. r = Inr x \<Longrightarrow> truthy (res_txHash x) \<Longrightarrow> the (res_txHash x) = h"
    "\<And>x. r = Inr x \<Longrightarrow> success x \<Longrightarrow> res_txHash x = Some h \<and> exactly landed h w1"
    using honest_submitD[OF sub r less.prems(1)] by blast
  show ?case
  proof (cases "\<exists>x. r = Inr x \<and> \<not> success x \<and> truthy (res_txHash x)")
    case False
    from False have "w' = w1 \<and> (\<forall>s. res = Inr s \<longrightarrow> s_txHash s = Some h \<and> exactly landed h w1)"
      using less.prems(2) r h(3)
      by (subst (asm) submitSwapLoop.simps) (auto simp: toSwapResult_def split: sum.splits if_splits option.splits)
    then show ?thesis using h(1) by blast
  next
    case True
    then obtain x where x: "r = Inr x" "\<not> success x" "truthy (res_txHash x)" by blast
    obtain g w2 where g: "getTransactionStatus get h w1 = (g, w2)" by fastforce
    note d = honest_statusD[OF st g h(1)]
    have "(w' = w2 \<and> (\<forall>s. res = Inr s \<longrightarrow> s_txHash s = Some h \<and> exactly landed h w2)) \<or>
      (g = NOT_FOUND \<and> 0 < k \<and> submitSwapLoop get slp now q submit (k - 1) (slp 2000 w2) = (res, w'))"
      using less.prems(2) r x h(2)[OF x(1,3)] g d
      by (subst (asm) submitSwapLoop.simps)
        (cases g; auto simp: toSwapResult_def shouldRetrySubmission_def Let_def split: if_splits)
    then show ?thesis
    proof (elim disjE)
      assume "w' = w2 \<and> (\<forall>s. res = Inr s \<longrightarrow> s_txHash s = Some h \<and> exactly landed h w2)"
      then show ?thesis using d by blast
    next
      assume a: "g = NOT_FOUND \<and> 0 < k \<and> submitSwapLoop get slp now q submit (k - 1) (slp 2000 w2) = (res, w')"
      then have "landed (slp 2000 w2) \<union> inflight (slp 2000 w2) = {}"
        using d settles_none[OF _ slp, of w2 2000] by simp
      then show ?thesis using less.IH[of "k - 1"] a by simp
    qed
  qed
qed

text \<open>
  C3: A swap is not executed twice. On a network on which every submission sends at most one
  transaction, which may land at once, later or never, and reports its hash if it reports one,
  and on a server that says NOT_FOUND of a transaction only when it has not landed and no longer
  can, and SUCCESS only when it has landed, at most one transaction of the swap ever lands or
  is left in flight, whatever the submissions and status checks answer; and when a result is
  returned, exactly one has landed, the one whose hash the result carries.
\<close>

theorem swap_lands_once:
  assumes "honest_submit landed inflight submit" and "honest_status landed inflight get"
    and "\<And>d w. settles landed inflight w (slp d w)"
    and "landed w = {}" and "inflight w = {}"
    and "submitSwapWithIdempotentResubmission get slp now q submit w = (res, w')"
  shows "\<exists>h. landed w' \<union> inflight w' \<subseteq> {h} \<and>
    (\<forall>s. res = Inr s \<longrightarrow> s_txHash s = Some h \<and> landed w' = {h})"
  using submitSwapLoop_lands[OF assms(1,2), where slp = slp, OF assms(3), of w now q 2 res w'] assms(4-6)
  unfolding submitSwapWithIdempotentResubmission_def at_most_def exactly_def by blast

text \<open>The first transaction times out and is lost, the second lands.\<close>

lemma swap_lands_once_witness:
  "let run = submitSwapWithIdempotentResubmission net_status (\<lambda>_ w. w) (\<lambda>_. 0)
       (demo_quote 1 1 1 0 0) net_submit ([], [], 0)
   in map_sum id s_txHash (fst run) = Inr (Some ''tt'') \<and> snd run = ([''tt''], [], 2) \<and>
     (\<exists>h. net_landed (snd run) \<union> net_inflight (snd run) \<subseteq> {h})"
proof -
  let ?run = "submitSwapWithIdempotentResubmission net_status (\<lambda>_ w. w) (\<lambda>_. 0)
       (demo_quote 1 1 1 0 0) net_submit ([], [], 0)"
  have ev: "map_sum id s_txHash (fst ?run) = Inr (Some ''tt'')" "snd ?run = ([''tt''], [], 2)"
    by code_simp+
  have "\<exists>h. net_landed (snd ?run) \<union> net_inflight (snd ?run) \<subseteq> {h} \<and>
    (\<forall>s. fst ?run = Inr s \<longrightarrow> s_txHash s = Some h \<and> net_landed (snd ?run) = {h})"
    by (rule swap_lands_once[OF net_submit_honest net_status_honest _ _ _ prod.collapse[symmetric]])
      (simp_all add: net_defs)
  then show ?thesis using ev unfolding Let_def by blast
qed

text \<open>What the loop submits: the same operations each time, at most three times, and a result carries
  the amounts of the quote.\<close>

lemma submitSwapLoop_sent:
  fixes sent :: "'w \<Rightarrow> 'a list"
  assumes sub: "\<And>v. sent (snd (submit v)) = sent v @ [x]" and get: "\<And>h v. sent (snd (get h v)) = sent v"
    and slp: "\<And>d v. sent (slp d v) = sent v"
  shows "submitSwapLoop get slp now q submit k w = (res, w') \<Longrightarrow>
    (\<exists>n. 1 \<le> n \<and> n \<le> Suc k \<and> sent w' = sent w @ replicate n x) \<and>
    (\<forall>s. res = Inr s \<longrightarrow> s_amountIn s = q_amountIn q \<and> s_amountOut s = q_amountOut q)"
proof (induction k arbitrary: w rule: less_induct)
  case (less k)
  obtain r w1 where r: "submit w = (r, w1)" by fastforce
  have s1: "sent w1 = sent w @ [x]" using sub[of w] r by simp
  define h where "h = (case r of Inr y \<Rightarrow> the (res_txHash y) | Inl _ \<Rightarrow> [])"
  obtain g w2 where g: "getTransactionStatus get h w1 = (g, w2)" by fastforce
  have s2: "sent w2 = sent w @ [x]"
    using g s1 get[of h w1] by (auto simp: getTransactionStatus_def split: prod.splits sum.splits)
  have "(sent w' = sent w @ [x] \<and>
        (\<forall>s. res = Inr s \<longrightarrow> s_amountIn s = q_amountIn q \<and> s_amountOut s = q_amountOut q)) \<or>
      (0 < k \<and> submitSwapLoop get slp now q submit (k - 1) (slp 2000 w2) = (res, w'))"
    using less.prems r g s1 s2
    by (subst (asm) submitSwapLoop.simps)
      (cases g; auto simp: h_def toSwapResult_def shouldRetrySubmission_def Let_def split: sum.splits if_splits option.splits)
  then show ?case
  proof (elim disjE)
    assume "sent w' = sent w @ [x] \<and>
        (\<forall>s. res = Inr s \<longrightarrow> s_amountIn s = q_amountIn q \<and> s_amountOut s = q_amountOut q)"
    then show ?case by (intro conjI exI[of _ 1]) simp_all
  next
    assume a: "0 < k \<and> submitSwapLoop get slp now q submit (k - 1) (slp 2000 w2) = (res, w')"
    with less.IH[of "k - 1" "slp 2000 w2"] obtain n
      where n: "1 \<le> n" "n \<le> k" "sent w' = sent (slp 2000 w2) @ replicate n x"
      and amounts: "\<forall>s. res = Inr s \<longrightarrow> s_amountIn s = q_amountIn q \<and> s_amountOut s = q_amountOut q" by auto
    from n have "sent w' = sent w @ replicate (Suc n) x" by (simp add: slp s2)
    with n amounts show ?case by (intro conjI exI[of _ "Suc n"]) simp_all
  qed
qed

text \<open>
  The condition on NOT_FOUND is needed. A server says NOT_FOUND of a transaction that is merely
  still pending, and the loop sends the swap again after two seconds without waiting for the
  deadline of the first: both swaps land.
\<close>

theorem pending_swap_lands_twice:
  "snd (submitSwapWithIdempotentResubmission hasty_status landing_sleep (\<lambda>_. 0)
     (demo_quote 1 1 1 0 0) net_submit ([], [], 0)) = ([''tt'', ''t''], [], 2)"
  by code_simp

text \<open>
  An exact-out multi-hop swap is not exact. The quote raises the needed input by the
  slippage, and the operation it builds is the exact-input one: it spends the raised amount
  in full, not at most that amount, whenever the tolerance is worth a unit.
\<close>

theorem exact_out_multi_hop_overspends:
  assumes "getMultiHopQuote fl c req = Inr (q, hops)" and "mh_tradeType req = EXACT_OUT"
    and "resolveSlippageBps c (mh_slippage req) = Inr s" and "10000 \<le> h_amountIn (hd hops) * s"
    and "0 \<le> h_amountIn (hd hops)"
  shows "\<exists>to deadline. multiHopOperation c req q =
      SwapExactTokensForTokens to (q_path q) (q_amountIn q) (q_amountOut q) deadline \<and>
    h_amountIn (hd hops) < q_amountIn q"
proof -
  have s: "0 \<le> s" using resolveSlippageBps_range[OF assms(3)] by simp
  have q: "q_amountIn q = h_amountIn (hd hops) + slip (h_amountIn (hd hops)) s"
    "q_amountOutMin q = q_amountOut q"
    using assms(1-3) by (auto simp: getMultiHopQuote_def Let_def bindE_eq_Inr result_simps split: if_splits)
  have "10000 div 10000 \<le> h_amountIn (hd hops) * s div 10000" using assms(4) by (intro zdiv_mono1) auto
  then have "0 < slip (h_amountIn (hd hops)) s"
    using assms(5) s by (simp add: slip_def BPS_DENOMINATOR_def bigint_simps)
  with q show ?thesis by (simp add: multiHopOperation_def)
qed

definition demo_multi :: multi_hop_request where
  "demo_multi = \<lparr>mh_path = [''A'', ''B'', ''C''], mh_amount = 20000, mh_tradeType = EXACT_OUT,
     mh_slippage = None, mh_deadline = None, mh_to = None\<rparr>"

lemma exact_out_multi_hop_overspends_witness:
  "\<exists>q hops. getMultiHopQuote (\<lambda>x. x) demo_client demo_multi = Inr (q, hops) \<and> h_amountIn (hd hops) < q_amountIn q"
proof -
  have r: "map (resolveToken demo_client) [''A'', ''B'', ''C''] = [''A'', ''B'', ''C'']"
    "isValidAddress demo_client x" for x by (simp_all add: demo_client_def)
  obtain q where q: "getMultiHopQuote (\<lambda>x. x) demo_client demo_multi = Inr (q,
     [\<lparr>h_tokenIn = ''A'', h_tokenOut = ''B'', h_amountIn = 8455, h_amountOut = 16717, h_feeBps = 30,
       h_feeAmount = 25, h_impact = 114\<rparr>,
      \<lparr>h_tokenIn = ''B'', h_tokenOut = ''C'', h_amountIn = 16717, h_amountOut = 20000, h_feeBps = 30,
       h_feeAmount = 50, h_impact = 428\<rparr>])"
    unfolding getMultiHopQuote_def demo_multi_def
    by (simp add: r[simplified] demo_reverse demo_simps multiHopSwapRequestSchema_def stellarAddress_def)
  from exact_out_multi_hop_overspends[OF q, of 100] q show ?thesis
    by (auto simp: demo_multi_def demo_simps)
qed

text \<open>
  Compounded fees. For fees between 0 and 100 percent the compounded fee is between the
  largest of them and 100 percent.
\<close>

theorem compounded_fee_range:
  assumes "list_all (\<lambda>f. 0 \<le> f \<and> f \<le> 10000) fees"
  shows "0 \<le> computeCompoundedFeeBps fees \<and> computeCompoundedFeeBps fees \<le> 10000 \<and>
    list_all (\<lambda>f. f \<le> computeCompoundedFeeBps fees) fees"
proof -
  let ?step = "\<lambda>r f. (r * (10000 - f)) sdiv 10000 :: int"
  have step: "0 \<le> ?step r f \<and> ?step r f \<le> r \<and> ?step r f \<le> 10000 - f"
    if r: "0 \<le> r" "r \<le> 10000" and f: "0 \<le> f" "f \<le> 10000" for r f :: int
  proof -
    have "r * (10000 - f) div 10000 \<le> r * 10000 div 10000"
      using r f by (intro zdiv_mono1 mult_left_mono) auto
    moreover have "r * (10000 - f) div 10000 \<le> 10000 * (10000 - f) div 10000"
      using r f by (intro zdiv_mono1 mult_right_mono) auto
    ultimately show ?thesis using r f by (simp add: bigint_simps pos_imp_zdiv_nonneg_iff)
  qed
  have "list_all (\<lambda>f. 0 \<le> f \<and> f \<le> 10000) fs \<Longrightarrow> 0 \<le> r \<Longrightarrow> r \<le> 10000 \<Longrightarrow>
      0 \<le> foldl ?step r fs \<and> foldl ?step r fs \<le> r \<and> list_all (\<lambda>f. foldl ?step r fs \<le> 10000 - f) fs"
    for fs r
  proof (induction fs arbitrary: r)
    case (Cons f fs)
    have "0 \<le> ?step r f \<and> ?step r f \<le> r \<and> ?step r f \<le> 10000 - f" using step Cons.prems by simp
    with Cons.IH[of "?step r f"] Cons.prems show ?case by auto
  qed simp
  from this[OF assms, of 10000] show ?thesis
    by (auto simp: computeCompoundedFeeBps_def BPS_DENOMINATOR_def list_all_iff)
qed

lemma compounded_fee_range_witness: "list_all (\<lambda>f. f \<le> computeCompoundedFeeBps [30, 100]) [30, 100]"
  using compounded_fee_range[of "[30, 100]"] by simp

end
