(* ===== verification/PriceGuard.thy ===== *)
theory PriceGuard
  imports Swap
begin

text \<open>
  \<open>src/utils/redstone.ts\<close> and \<open>swapWithPriceGuard\<close> of \<open>src/modules/swap.ts\<close>: the check of a
  quote against signed oracle prices before a swap is submitted. A payload's prices are a
  partial map from upper-case symbols.
\<close>

record price_guard_config =
  minGuardedAmountUsd :: int
  maxDeviationBps :: int
  maxPayloadAgeMs :: int

definition DEFAULT_PRICE_GUARD_CONFIG :: price_guard_config where
  "DEFAULT_PRICE_GUARD_CONFIG = \<lparr>minGuardedAmountUsd = 10000000000, maxDeviationBps = 200,
     maxPayloadAgeMs = 5 * 60 * 1000\<rparr>"

record payload =
  timestampMs :: int
  prices :: "string \<Rightarrow> int option"

datatype guard_result = GuardSkipped | GuardPassed int

definition setPriceGuardConfig :: "client \<Rightarrow> int \<Rightarrow> int \<Rightarrow> price_guard_config \<Rightarrow> price_guard_config result" where
  "setPriceGuardConfig c minUsd maxBps cfg =
    (if maxBps < 0 \<or> 10000 < maxBps then Inl (ValidationError (zodText c))
     else Inr (cfg\<lparr>minGuardedAmountUsd := minUsd, maxDeviationBps := maxBps\<rparr>))"

definition verifyRedStonePayload :: "int \<Rightarrow> payload \<Rightarrow> string \<Rightarrow> string \<Rightarrow> int \<Rightarrow> int \<Rightarrow>
    price_guard_config \<Rightarrow> guard_result result" where
  "verifyRedStonePayload now p symIn symOut amountIn amountOut cfg =
    (if maxPayloadAgeMs cfg < now - timestampMs p
     then Inl (StaleOracleError symIn (timestampMs p) (maxPayloadAgeMs cfg))
     else case prices p (to_upper symIn) of
       None \<Rightarrow> Inl (MissingPriceFeedError symIn False)
     | Some priceIn \<Rightarrow> (case prices p (to_upper symOut) of
         None \<Rightarrow> Inl (MissingPriceFeedError symOut False)
       | Some priceOut \<Rightarrow>
          if priceIn \<le> 0 \<or> priceOut \<le> 0
          then Inl (MissingPriceFeedError (if priceIn \<le> 0 then symIn else symOut) False)
          else if amountIn \<le> 0 \<or> amountOut \<le> 0 then Inr GuardSkipped
          else let SCALE = 100000000; BPS = 10000;
                   executionNum = amountOut * priceOut * SCALE;
                   executionDen = amountIn * priceIn
               in bindE (bigint_div executionNum executionDen) (\<lambda>executionScaled.
                 let diff = (if SCALE < executionScaled then executionScaled - SCALE
                             else SCALE - executionScaled);
                     deviationBps = (diff * BPS) sdiv SCALE
                 in if maxDeviationBps cfg < deviationBps
                    then Inl (PriceDeviationError deviationBps 0 (maxDeviationBps cfg))
                    else Inr (GuardPassed deviationBps))))"

definition estimateUsdValue :: "int \<Rightarrow> string \<Rightarrow> payload \<Rightarrow> int option" where
  "estimateUsdValue amountIn symIn p = (case prices p (to_upper symIn) of
     None \<Rightarrow> None | Some price \<Rightarrow> Some ((amountIn * price) sdiv 10000000))"

text \<open>\<open>now\<close> is the clock of the world; the rest of the parameters are those of \<open>execute_swap\<close>.\<close>

definition swapWithPriceGuard :: "(rat \<Rightarrow> rat) \<Rightarrow> 'w rpc \<Rightarrow> (rat \<Rightarrow> 'w \<Rightarrow> 'w) \<Rightarrow> ('w \<Rightarrow> int) \<Rightarrow>
    (swap_op list \<Rightarrow> ('w, thrown, sdk_result) act) \<Rightarrow> ('w \<Rightarrow> client) \<Rightarrow> price_guard_config \<Rightarrow>
    swap_request \<Rightarrow> swap_quote option \<Rightarrow> payload option \<Rightarrow> string \<Rightarrow> string \<Rightarrow>
    ('w, thrown, swap_result \<times> guard_result option) act" where
  "swapWithPriceGuard fl get slp now submitTransaction cl cfg req given redstone symIn symOut w =
    bindW (liftW (case given of Some q \<Rightarrow> Inr q | None \<Rightarrow> getQuote fl (cl w) req)) (\<lambda>q.
    bindW (case redstone of
        None \<Rightarrow> retW None
      | Some p \<Rightarrow>
         (case estimateUsdValue (q_amountIn q) symIn p of
            None \<Rightarrow> liftW (map_sum id Some
              (verifyRedStonePayload (now w) p symIn symOut (q_amountIn q) (q_amountOut q) cfg))
          | Some usd \<Rightarrow> if minGuardedAmountUsd cfg \<le> usd
              then liftW (map_sum id Some
                (verifyRedStonePayload (now w) p symIn symOut (q_amountIn q) (q_amountOut q) cfg))
              else retW None)) (\<lambda>guard.
    bindW (execute_swap fl get slp now submitTransaction cl req (Some q)) (\<lambda>s. retW (s, guard)))) w"

lemma guard_passed:
  assumes "verifyRedStonePayload now p symIn symOut a b cfg = Inr (GuardPassed d)"
  shows "\<exists>pi po. prices p (to_upper symIn) = Some pi \<and> prices p (to_upper symOut) = Some po \<and>
    0 < a * pi \<and> d \<le> maxDeviationBps cfg \<and> now - timestampMs p \<le> maxPayloadAgeMs cfg \<and>
    (9999 - maxDeviationBps cfg) * (a * pi) < 10000 * (b * po) \<and>
    10000 * (b * po) < (10002 + maxDeviationBps cfg) * (a * pi)"
proof -
  from assms obtain pi po where p: "prices p (to_upper symIn) = Some pi" "prices p (to_upper symOut) = Some po"
    "0 < pi" "0 < po" "0 < a" "0 < b" "now - timestampMs p \<le> maxPayloadAgeMs cfg"
    by (auto simp: verifyRedStonePayload_def Let_def split: if_splits option.splits)
  define S :: int where "S = 100000000"
  define D where "D = a * pi"
  define E where "E = b * po"
  define m where "m = maxDeviationBps cfg"
  have pos: "0 < D" "0 < E" using p by (simp_all add: D_def E_def)
  let ?x = "E * S div D"
  define df where "df = (if S < ?x then ?x - S else S - ?x)"
  have x: "0 \<le> ?x" using pos by (simp add: pos_imp_zdiv_nonneg_iff S_def)
  have "(E * S) sdiv D = ?x" using pos by (simp add: S_def bigint_simps)
  moreover have "0 \<le> S" by (simp add: S_def)
  ultimately have d: "d = df * 10000 div S" "d \<le> m"
    using assms p pos unfolding verifyRedStonePayload_def
    by (auto simp: Let_def df_def D_def[symmetric] E_def[symmetric] m_def[symmetric] S_def[symmetric]
        bigint_simps split: if_splits simp del: left_diff_distrib_numeral)
  have "df * 10000 < (m + 1) * S"
    using d div_less_iff_int[of S "df * 10000" "m + 1"] by (simp add: S_def)
  then have diff: "df * 10000 + 1 \<le> (m + 1) * S" by linarith
  have lo: "(S - df) * D \<le> E * S"
  proof -
    have "(S - df) * D \<le> ?x * D" using pos by (intro mult_right_mono) (auto simp: df_def)
    also have "\<dots> \<le> E * S" using div_mult_le_int[OF pos(1)] by simp
    finally show ?thesis .
  qed
  have hi: "E * S < (S + df + 1) * D"
  proof -
    have "E * S < (?x + 1) * D" using lt_div_mult_int[OF pos(1)] by simp
    also have "\<dots> \<le> (S + df + 1) * D" using pos by (intro mult_right_mono) (auto simp: df_def)
    finally show ?thesis .
  qed
  have "(9999 - m) * S < 10000 * (S - df)" using diff by (simp add: algebra_simps)
  then have "(9999 - m) * S * D < 10000 * (S - df) * D" using pos by (simp only: mult_less_cancel_right_pos)
  also have "\<dots> \<le> 10000 * (E * S)" using lo by (simp add: algebra_simps)
  finally have l: "(9999 - m) * D * S < 10000 * E * S" by (simp add: ac_simps)
  have "10000 * (S + df + 1) \<le> (10002 + m) * S"
    using diff by (simp add: algebra_simps S_def)
  then have "10000 * (S + df + 1) * D \<le> (10002 + m) * S * D" using pos by (simp only: mult_le_cancel_right_pos)
  moreover have "10000 * (E * S) < 10000 * (S + df + 1) * D" using hi by (simp add: algebra_simps)
  ultimately have "10000 * E * S < (10002 + m) * D * S" by (simp add: ac_simps)
  then have "10000 * E < (10002 + m) * D" by (simp add: S_def mult.commute)
  moreover have "(9999 - m) * D < 10000 * E" using l by (simp add: S_def mult.commute)
  ultimately show ?thesis using p d pos by (auto simp: D_def E_def m_def)
qed

text \<open>What \<open>execute\<close> does with a quote it is given: it submits the operation of this quote, at most
  three times, and reports the amounts of this quote.\<close>

lemma execute_swap_given:
  fixes sent :: "'w \<Rightarrow> swap_op list list"
  assumes "\<And>ops v. sent (snd (sub ops v)) = sent v @ [ops]" and "\<And>h v. sent (snd (get h v)) = sent v"
    and "\<And>d v. sent (slp d v) = sent v"
    and run: "execute_swap fl get slp now sub cl req (Some q) w = (Inr s, w')"
  shows "\<exists>op n. buildSwapOperation (cl w) req q = Inr op \<and> 1 \<le> n \<and> n \<le> 3 \<and>
    sent w' = sent w @ replicate n [op] \<and> s_amountIn s = q_amountIn q \<and> s_amountOut s = q_amountOut q"
proof -
  obtain op where op: "buildSwapOperation (cl w) req q = Inr op"
    and loop: "submitSwapLoop get slp now q (sub [op]) 2 w = (Inr s, w')"
    using run by (auto simp: execute_swap_def act_simps submitSwapWithIdempotentResubmission_def)
  from submitSwapLoop_sent[where sent = sent and x = "[op]" and slp = slp and get = get, OF _ _ _ loop] assms(1-3)
  have "(\<exists>n. 1 \<le> n \<and> n \<le> 3 \<and> sent w' = sent w @ replicate n [op]) \<and>
      s_amountIn s = q_amountIn q \<and> s_amountOut s = q_amountOut q" by (simp add: numeral_3_eq_3)
  then show ?thesis using op by blast
qed

text \<open>
  C7: A guarded swap trades the quote that was checked, near the oracle price. Let \<open>sent\<close> record
  the operations handed to the client. If \<open>swapWithPriceGuard\<close> completes a swap for a payload,
  then there is one quote, the given one or the one read at the start, such that the operation
  built from this quote was submitted, one to three times and nothing else, the result carries
  the amounts of this quote, and, its amounts being positive, either the guard ran on this quote:
  the payload was fresh and the value received is within the configured deviation of the value
  paid at the oracle's prices, up to two basis points of rounding; or it did not run and the
  paid value was known to be below the guarded minimum.
\<close>

theorem price_guard_protects:
  fixes sent :: "'w \<Rightarrow> swap_op list list"
  assumes "\<And>ops v. sent (snd (sub ops v)) = sent v @ [ops]" and "\<And>h v. sent (snd (get h v)) = sent v"
    and "\<And>d v. sent (slp d v) = sent v"
    and "swapWithPriceGuard fl get slp now sub cl cfg req given (Some p) symIn symOut w
      = (Inr (s, guard), w')"
  shows "\<exists>q op n. (case given of Some q' \<Rightarrow> Inr q' | None \<Rightarrow> getQuote fl (cl w) req) = Inr q \<and>
    buildSwapOperation (cl w) req q = Inr op \<and>
    1 \<le> n \<and> n \<le> 3 \<and> sent w' = sent w @ replicate n [op] \<and>
    s_amountIn s = q_amountIn q \<and> s_amountOut s = q_amountOut q \<and>
    (0 < q_amountIn q \<and> 0 < q_amountOut q \<longrightarrow> (case guard of
      None \<Rightarrow> (\<exists>usd. estimateUsdValue (q_amountIn q) symIn p = Some usd \<and> usd < minGuardedAmountUsd cfg)
    | Some g \<Rightarrow> (\<exists>pi po. prices p (to_upper symIn) = Some pi \<and> prices p (to_upper symOut) = Some po \<and>
        now w - timestampMs p \<le> maxPayloadAgeMs cfg \<and>
        (9999 - maxDeviationBps cfg) * (q_amountIn q * pi) < 10000 * (q_amountOut q * po) \<and>
        10000 * (q_amountOut q * po) < (10002 + maxDeviationBps cfg) * (q_amountIn q * pi))))"
proof -
  let ?guarded = "\<lambda>q. case estimateUsdValue (q_amountIn q) symIn p of
      None \<Rightarrow> True | Some usd \<Rightarrow> minGuardedAmountUsd cfg \<le> usd"
  have map_Inr: "map_sum id Some v = Inr x \<longleftrightarrow> (\<exists>g. v = Inr g \<and> x = Some g)"
    for v :: "guard_result result" and x by (cases v) auto
  obtain q where q: "(case given of Some q' \<Rightarrow> Inr q' | None \<Rightarrow> getQuote fl (cl w) req) = Inr q"
    and ex: "execute_swap fl get slp now sub cl req (Some q) w = (Inr s, w')"
    and guard: "if ?guarded q
      then \<exists>g. verifyRedStonePayload (now w) p symIn symOut (q_amountIn q) (q_amountOut q) cfg = Inr g \<and> guard = Some g
      else guard = None"
    using assms(4)
    by (auto simp: map_Inr swapWithPriceGuard_def act_simps split: option.splits if_splits)
  have safe: "case guard of
      None \<Rightarrow> (\<exists>usd. estimateUsdValue (q_amountIn q) symIn p = Some usd \<and> usd < minGuardedAmountUsd cfg)
    | Some g \<Rightarrow> (\<exists>pi po. prices p (to_upper symIn) = Some pi \<and> prices p (to_upper symOut) = Some po \<and>
        now w - timestampMs p \<le> maxPayloadAgeMs cfg \<and>
        (9999 - maxDeviationBps cfg) * (q_amountIn q * pi) < 10000 * (q_amountOut q * po) \<and>
        10000 * (q_amountOut q * po) < (10002 + maxDeviationBps cfg) * (q_amountIn q * pi))"
    if pos: "0 < q_amountIn q" "0 < q_amountOut q"
  proof (cases "?guarded q")
    case True
    then obtain g where v: "verifyRedStonePayload (now w) p symIn symOut (q_amountIn q) (q_amountOut q) cfg = Inr g"
      and g: "guard = Some g" using guard by auto
    have "g \<noteq> GuardSkipped"
      using v pos by (auto simp: verifyRedStonePayload_def Let_def bindE_eq_Inr split: if_splits option.splits)
    then obtain d where "g = GuardPassed d" by (cases g) auto
    with guard_passed[of "now w" p symIn symOut "q_amountIn q" "q_amountOut q" cfg d] v g show ?thesis by auto
  next
    case False
    then show ?thesis using guard by (auto split: option.splits)
  qed
  show ?thesis using execute_swap_given[where sent = sent, OF assms(1-3) ex] q safe by blast
qed

definition demo_payload :: payload where
  "demo_payload = \<lparr>timestampMs = 1000, prices = [''XLM'' \<mapsto> 200000000, ''USDC'' \<mapsto> 100000000]\<rparr>"

text \<open>A host that records the submissions; it confirms each.\<close>

definition submit_ok :: "swap_op list \<Rightarrow> (swap_op list list, thrown, sdk_result) act" where
  "submit_ok ops w = (Inr \<lparr>success = True, res_data = Some (''h'', 3), res_error = None,
     res_txHash = Some ''h''\<rparr>, w @ [ops])"

lemma price_guard_protects_witness:
  "\<exists>op n pi po. buildSwapOperation demo_client (demo_request EXACT_IN 10000000000)
       (demo_quote 10000000000 19990000000 19900000000 0 0) = Inr op \<and>
     [[SwapExactIn ''me'' ''A'' ''B'' 10000000000 19900000000 1700000000]] = replicate n [op] \<and>
     prices demo_payload ''XLM'' = Some pi \<and> prices demo_payload ''USDC'' = Some po \<and>
     9799 * (10000000000 * pi) < 10000 * (19990000000 * po)"
proof -
  let ?q = "demo_quote 10000000000 19990000000 19900000000 0 0"
  have u: "to_upper ''xlm'' = ''XLM''" "to_upper ''usdc'' = ''USDC''" by code_simp+
  have v: "verifyRedStonePayload 2000 demo_payload ''xlm'' ''usdc'' 10000000000 19990000000
      DEFAULT_PRICE_GUARD_CONFIG = Inr (GuardPassed 5)"
    by (simp add: verifyRedStonePayload_def u demo_payload_def DEFAULT_PRICE_GUARD_CONFIG_def
        Let_def bigint_simps)
  have e: "estimateUsdValue 10000000000 ''xlm'' demo_payload = Some 200000000000"
    by (simp add: estimateUsdValue_def u demo_payload_def bigint_simps)
  have qa: "q_amountIn ?q = 10000000000" "q_amountOut ?q = 19990000000"
    by (simp_all add: demo_quote_def)
  let ?get = "\<lambda>(_ :: string) (w :: swap_op list list). (Inl Undefined :: (thrown, response) res, w)"
  let ?log = "[[SwapExactIn ''me'' ''A'' ''B'' 10000000000 19900000000 1700000000]]"
  obtain s where ex: "execute_swap (\<lambda>x. x) ?get (\<lambda>_ w. w) (\<lambda>_. 2000) submit_ok (\<lambda>_. demo_client)
      (demo_request EXACT_IN 10000000000) (Some ?q) [] = (Inr s, ?log)"
    by (simp add: execute_swap_def bindW_def liftW_def buildSwapOperation_def demo_quote_def Let_def
        submitSwapWithIdempotentResubmission_def submitSwapLoop.simps submit_ok_def resolvePath_def
        demo_request_def demo_client_def)
  have run: "swapWithPriceGuard (\<lambda>x. x) ?get (\<lambda>_ w. w) (\<lambda>_. 2000) submit_ok
      (\<lambda>_. demo_client) DEFAULT_PRICE_GUARD_CONFIG (demo_request EXACT_IN 10000000000) (Some ?q)
      (Some demo_payload) ''xlm'' ''usdc'' [] = (Inr (s, Some (GuardPassed 5)), ?log)"
    using e v ex by (simp add: swapWithPriceGuard_def bindW_def liftW_def retW_def qa)
      (simp add: DEFAULT_PRICE_GUARD_CONFIG_def)
  from price_guard_protects[where sent = "\<lambda>w. w", OF _ _ _ run] show ?thesis
    by (auto simp: submit_ok_def qa u DEFAULT_PRICE_GUARD_CONFIG_def)
qed

end
