(* ===== verification/Router.thy ===== *)
theory Router
  imports Swap "HOL-Library.Multiset"
begin

text \<open>
  \<open>src/modules/router.ts\<close>: the token graph, the breadth-first enumeration of routes, the filter
  on empty pools, the choice of the best quote and the cache of results by request. The chain is
  the client record of the swap module with the factory's pair list; a call sees one ledger
  state, and the two readings of the clock in it are parameters.
\<close>

section \<open>The token graph\<close>

type_synonym graph = "string \<Rightarrow> string list option"

definition ensureNode :: "graph \<Rightarrow> string \<Rightarrow> graph" where
  "ensureNode g t = (case g t of None \<Rightarrow> g(t \<mapsto> []) | Some _ \<Rightarrow> g)"

definition addNeighbor :: "graph \<Rightarrow> string \<Rightarrow> string \<Rightarrow> graph" where
  "addNeighbor g a b = (case g a of None \<Rightarrow> g
     | Some ns \<Rightarrow> if b \<in> set ns then g else g(a \<mapsto> ns @ [b]))"

definition addPair :: "graph \<Rightarrow> string \<times> string \<Rightarrow> graph" where
  "addPair g p = (case p of (token0, token1) \<Rightarrow>
     addNeighbor (addNeighbor (ensureNode (ensureNode g token0) token1) token0 token1) token1 token0)"

text \<open>A pair whose tokens cannot be read is skipped.\<close>

definition buildTokenGraph :: "client \<Rightarrow> string list \<Rightarrow> graph" where
  "buildTokenGraph c pairs =
     foldl addPair (\<lambda>_. None) (List.map_filter (\<lambda>p. case getTokens c p of Inr ts \<Rightarrow> Some ts | Inl _ \<Rightarrow> None) pairs)"

definition neighbors :: "graph \<Rightarrow> string \<Rightarrow> string list" where
  "neighbors g t = (case g t of None \<Rightarrow> [] | Some ns \<Rightarrow> ns)"

lemma neighbors_empty: "neighbors (\<lambda>_. None) t = []"
  by (simp add: neighbors_def)

lemma neighbors_addPair:
  "set (neighbors (addPair g (a, b)) t) = set (neighbors g t) \<union>
     (if t = a then {b} else {}) \<union> (if t = b then {a} else {})"
  by (auto simp: addPair_def addNeighbor_def ensureNode_def neighbors_def split: option.splits)

lemma neighbors_foldl:
  "set (neighbors (foldl addPair g ps) t) = set (neighbors g t) \<union> {u. (t, u) \<in> set ps \<or> (u, t) \<in> set ps}"
proof (induction ps arbitrary: g)
  case (Cons p ps)
  then show ?case by (cases p) (auto simp: neighbors_addPair)
qed simp

lemma set_map_filter_eq: "set (List.map_filter f xs) = {y. \<exists>x \<in> set xs. f x = Some y}"
  by (induction xs) (auto simp: map_filter_simps split: option.splits)

lemma readable_iff: "(case r of Inl _ \<Rightarrow> None | Inr x \<Rightarrow> Some x) = Some y \<longleftrightarrow> r = Inr y"
  by (cases r) auto

lemma neighbors_graph:
  "u \<in> set (neighbors (buildTokenGraph c pairs) t) \<longleftrightarrow>
    (\<exists>p \<in> set pairs. getTokens c p = Inr (t, u) \<or> getTokens c p = Inr (u, t))"
proof -
  have "set (List.map_filter (\<lambda>p. case getTokens c p of Inr ts \<Rightarrow> Some ts | Inl _ \<Rightarrow> None) pairs)
      = {ts. \<exists>p \<in> set pairs. getTokens c p = Inr ts}"
    unfolding set_map_filter_eq readable_iff by auto
  then show ?thesis unfolding buildTokenGraph_def neighbors_foldl neighbors_empty by auto
qed

section \<open>Enumeration of the routes\<close>

function findLoop :: "graph \<Rightarrow> string \<Rightarrow> nat \<Rightarrow> (string \<times> string list) list \<Rightarrow> string list list \<Rightarrow>
    string list list" where
  "findLoop g dst maxHops [] paths = paths"
| "findLoop g dst maxHops ((current, path) # queue) paths =
    (if current = dst
     then findLoop g dst maxHops queue (if 1 < length path then paths @ [path] else paths)
     else if maxHops < length path then findLoop g dst maxHops queue paths
     else findLoop g dst maxHops
       (queue @ map (\<lambda>n. (n, path @ [n])) (filter (\<lambda>n. n \<notin> set path) (neighbors g current))) paths)"
  by pat_completeness auto
termination
proof (relation "inv_image (mult less_than)
    (\<lambda>(_, _, maxHops, queue, _). mset (map (\<lambda>(_, path). Suc maxHops - length path) queue))")
  show "wf (inv_image (mult less_than)
    (\<lambda>(_, _, maxHops, queue, _). mset (map (\<lambda>(_, path). Suc maxHops - length path) queue)))"
    by (intro wf_inv_image wf_mult wf_less_than)
next
  fix g :: graph and dst :: string and maxHops :: nat and current :: string and path :: "string list"
    and queue :: "(string \<times> string list) list" and paths :: "string list list"
  assume short: "\<not> maxHops < length path"
  let ?w = "\<lambda>(_ :: string, path :: string list). Suc maxHops - length path"
  let ?new = "map (\<lambda>n. (n, path @ [n])) (filter (\<lambda>n. n \<notin> set path) (neighbors g current))"
  have "(mset (map ?w queue) + mset (map ?w ?new), mset (map ?w queue) + {#Suc maxHops - length path#})
      \<in> mult less_than"
    using short by (intro one_step_implies_mult) auto
  then show "((g, dst, maxHops, queue @ ?new, paths), g, dst, maxHops, (current, path) # queue, paths)
    \<in> inv_image (mult less_than)
        (\<lambda>(_, _, maxHops, queue, _). mset (map (\<lambda>(_, path). Suc maxHops - length path) queue))"
    by (simp add: multiset.map_comp)
qed (auto intro: subset_implies_mult)

definition findAllPaths :: "string \<Rightarrow> string \<Rightarrow> graph \<Rightarrow> nat \<Rightarrow> string list list" where
  "findAllPaths src dst g maxHops = findLoop g dst maxHops [(src, [src])] []"

text \<open>
  The specification of the enumeration: a route is a walk in the graph from the source to the
  destination that visits no token twice, with at least one and at most \<open>maxHops\<close> hops.
\<close>

fun walk :: "graph \<Rightarrow> string list \<Rightarrow> bool" where
  "walk g (t # u # rest) = (u \<in> set (neighbors g t) \<and> walk g (u # rest))"
| "walk g _ = True"

definition route :: "graph \<Rightarrow> nat \<Rightarrow> string \<Rightarrow> string \<Rightarrow> string list \<Rightarrow> bool" where
  "route g maxHops src dst p \<longleftrightarrow> 1 < length p \<and> length p \<le> Suc maxHops \<and> hd p = src \<and>
     last p = dst \<and> distinct p \<and> walk g p"

text \<open>The routes that extend a partial path by a walk from its end.\<close>

definition extensions :: "graph \<Rightarrow> string \<Rightarrow> nat \<Rightarrow> string \<times> string list \<Rightarrow> string list set" where
  "extensions g dst maxHops e = {p. \<exists>suffix. p = snd e @ suffix \<and> walk g (fst e # suffix) \<and>
     last (fst e # suffix) = dst \<and> distinct p \<and> length p \<le> Suc maxHops \<and> 1 < length p}"

definition entry_ok :: "string \<Rightarrow> nat \<Rightarrow> string \<times> string list \<Rightarrow> bool" where
  "entry_ok dst maxHops e \<longleftrightarrow> snd e \<noteq> [] \<and> last (snd e) = fst e \<and> distinct (snd e) \<and>
     length (snd e) \<le> Suc maxHops"

lemma extensions_final:
  assumes "entry_ok dst maxHops (dst, path)"
  shows "extensions g dst maxHops (dst, path) = (if 1 < length path then {path} else {})"
proof (intro set_eqI iffI)
  fix p
  assume "p \<in> extensions g dst maxHops (dst, path)"
  then obtain suffix where s: "p = path @ suffix" "last (dst # suffix) = dst" "distinct p" "1 < length p"
    by (auto simp: extensions_def)
  have "dst \<in> set path" using assms by (auto simp: entry_ok_def)
  then have "suffix = []" using s last_in_set[of suffix] by (cases "suffix = []") auto
  with s show "p \<in> (if 1 < length path then {path} else {})" by simp
next
  fix p
  assume "p \<in> (if 1 < length path then {path} else {})"
  then show "p \<in> extensions g dst maxHops (dst, path)"
    using assms by (simp add: extensions_def entry_ok_def split: if_splits)
qed

lemma extensions_long:
  assumes "cur \<noteq> dst" and "maxHops < length path"
  shows "extensions g dst maxHops (cur, path) = {}"
proof (rule equals0I)
  fix p
  assume "p \<in> extensions g dst maxHops (cur, path)"
  then obtain suffix where "last (cur # suffix) = dst" "length (path @ suffix) \<le> Suc maxHops"
    unfolding extensions_def by fastforce
  with assms show False by (cases suffix) auto
qed

lemma extensions_step:
  assumes "cur \<noteq> dst"
  shows "extensions g dst maxHops (cur, path) = (\<Union>e \<in> set (map (\<lambda>n. (n, path @ [n]))
     (filter (\<lambda>n. n \<notin> set path) (neighbors g cur))). extensions g dst maxHops e)"
proof (intro set_eqI iffI)
  fix p
  assume "p \<in> extensions g dst maxHops (cur, path)"
  then obtain suffix where s: "p = path @ suffix" "walk g (cur # suffix)" "last (cur # suffix) = dst"
    "distinct p" "length p \<le> Suc maxHops" "1 < length p" by (auto simp: extensions_def)
  then obtain n rest where n: "suffix = n # rest" using assms by (cases suffix) auto
  have "p \<in> extensions g dst maxHops (n, path @ [n])" using s n by (auto simp: extensions_def)
  then show "p \<in> (\<Union>e \<in> set (map (\<lambda>n. (n, path @ [n]))
     (filter (\<lambda>n. n \<notin> set path) (neighbors g cur))). extensions g dst maxHops e)"
    using s n by auto
next
  fix p
  assume "p \<in> (\<Union>e \<in> set (map (\<lambda>n. (n, path @ [n]))
     (filter (\<lambda>n. n \<notin> set path) (neighbors g cur))). extensions g dst maxHops e)"
  then obtain n suffix where "n \<in> set (neighbors g cur)" "p = path @ n # suffix" "walk g (n # suffix)"
    "last (n # suffix) = dst" "distinct p" "length p \<le> Suc maxHops" "1 < length p"
    by (auto simp: extensions_def)
  then show "p \<in> extensions g dst maxHops (cur, path)"
    by (auto simp: extensions_def intro!: exI[of _ "n # suffix"])
qed

lemma findLoop_set:
  "list_all (entry_ok dst maxHops) queue \<Longrightarrow> set (findLoop g dst maxHops queue paths)
     = set paths \<union> (\<Union>e \<in> set queue. extensions g dst maxHops e)"
proof (induction g dst maxHops queue paths rule: findLoop.induct)
  case (2 g dst maxHops cur path queue paths)
  have ok: "entry_ok dst maxHops (cur, path)" "list_all (entry_ok dst maxHops) queue"
    using 2(4) by auto
  consider (final) "cur = dst" | (long) "cur \<noteq> dst" "maxHops < length path"
    | (step) "cur \<noteq> dst" "\<not> maxHops < length path" by blast
  then show ?case
  proof cases
    case final
    then show ?thesis using 2(1)[OF final ok(2)] ok(1) extensions_final[of dst maxHops path g] by auto
  next
    case long
    then show ?thesis using 2(2)[OF long ok(2)] extensions_long[OF long] by simp
  next
    case step
    have "list_all (entry_ok dst maxHops) (queue @ map (\<lambda>n. (n, path @ [n]))
        (filter (\<lambda>n. n \<notin> set path) (neighbors g cur)))"
      using ok step(2) by (auto simp: entry_ok_def list_all_iff)
    from 2(3)[OF step this] show ?thesis using step extensions_step[OF step(1), of g maxHops path] by auto
  qed
qed simp

text \<open>
  C5: The route search is exact: \<open>findAllPaths\<close> returns precisely the routes of its
  specification, the walks from the source to the destination that repeat no token and have at
  least one and at most \<open>maxHops\<close> hops.
\<close>

theorem findAllPaths_exact: "set (findAllPaths src dst g maxHops) = {p. route g maxHops src dst p}"
proof -
  have "set (findAllPaths src dst g maxHops) = extensions g dst maxHops (src, [src])"
    unfolding findAllPaths_def by (subst findLoop_set) (simp_all add: entry_ok_def)
  also have "\<dots> = {p. route g maxHops src dst p}"
  proof (intro set_eqI iffI)
    fix p
    assume "p \<in> extensions g dst maxHops (src, [src])"
    then show "p \<in> {p. route g maxHops src dst p}"
      by (auto simp: extensions_def route_def)
  next
    fix p
    assume "p \<in> {p. route g maxHops src dst p}"
    then show "p \<in> extensions g dst maxHops (src, [src])"
      by (cases p) (auto simp: extensions_def route_def)
  qed
  finally show ?thesis .
qed

section \<open>Choosing a quote\<close>

text \<open>A quote with the bound on the input that the router adds.\<close>

record optimal_path =
  op_path :: "string list"
  op_quote :: swap_quote
  op_maxAmountIn :: "int option"

definition MAX_SLIPPAGE_BPS :: rat where "MAX_SLIPPAGE_BPS = 10000"

definition getSlippageBps :: "client \<Rightarrow> rat option \<Rightarrow> rat result" where
  "getSlippageBps c slippageBps =
    (let value = (case orElse slippageBps (defaultSlippageBps c) of
         Some s \<Rightarrow> s | None \<Rightarrow> of_int DEFAULT_slippageBps)
     in if value \<le> 0 \<or> MAX_SLIPPAGE_BPS < value
        then Inl (JsError (''Slippage bps must be a positive integer <= 10000, got: '' @ numText c value))
        else Inr value)"

text \<open>\<open>BigInt(x)\<close> of a number throws unless it is integral.\<close>

definition to_bigint :: "rat \<Rightarrow> int result" where
  "to_bigint x = (if x = of_int \<lfloor>x\<rfloor> then Inr \<lfloor>x\<rfloor> else Inl (RangeError ''not an integer''))"

definition buildExactOutMultiHopQuote :: "(rat \<Rightarrow> rat) \<Rightarrow> client \<Rightarrow> string list \<Rightarrow> int \<Rightarrow> rat \<Rightarrow>
    (swap_quote \<times> int option) result" where
  "buildExactOutMultiHopQuote fl c path amountOut slippageBps =
    bindE (computeHopsReverse c amountOut path) (\<lambda>hops.
    bindE (to_bigint slippageBps) (\<lambda>s.
      let amountIn = h_amountIn (hd hops)
      in Inr (\<lparr>q_tokenIn = hd path, q_tokenOut = last path, q_amountIn = amountIn,
           q_amountOut = amountOut, q_amountOutMin = amountOut,
           q_impact = compoundPriceImpact fl (map h_impact hops),
           q_feeBps = foldl (\<lambda>acc h. acc + h_feeBps h) 0 hops, q_feeAmount = totalFee hops,
           q_path = path, q_deadline = getDeadline c\<rparr>, Some (amountIn + slip amountIn s))))"

definition applySlippageBound :: "swap_quote \<times> int option \<Rightarrow> trade_type \<Rightarrow> rat \<Rightarrow>
    (swap_quote \<times> int option) result" where
  "applySlippageBound qm tt slippageBps = (case qm of (q, m) \<Rightarrow>
     bindE (to_bigint slippageBps) (\<lambda>s.
       Inr (if tt = EXACT_IN then (q\<lparr>q_amountOutMin := q_amountOut q - slip (q_amountOut q) s\<rparr>, m)
            else (q\<lparr>q_amountOutMin := q_amountOut q\<rparr>, Some (q_amountIn q + slip (q_amountIn q) s)))))"

text \<open>The quote of one path, as in the body of the loop.\<close>

definition pathQuote :: "(rat \<Rightarrow> rat) \<Rightarrow> client \<Rightarrow> int \<Rightarrow> trade_type \<Rightarrow> rat \<Rightarrow> string list \<Rightarrow>
    (swap_quote \<times> int option) result" where
  "pathQuote fl c amt tt slippageBps path =
    bindE (if length path = 2
        then bindE (getQuote fl c \<lparr>tokenIn = path ! 0, tokenOut = path ! 1, amount = amt, tradeType = tt,
               reqPath = Some path, reqSlippage = Some slippageBps, reqDeadline = None, reqTo = None\<rparr>)
               (\<lambda>q. Inr (q, None))
        else if tt = EXACT_OUT then buildExactOutMultiHopQuote fl c path amt slippageBps
        else bindE (getMultiHopQuote fl c \<lparr>mh_path = path, mh_amount = amt, mh_tradeType = tt,
               mh_slippage = Some slippageBps, mh_deadline = None, mh_to = None\<rparr>)
               (\<lambda>(q, hops). Inr (q, None)))
      (\<lambda>qm. applySlippageBound qm tt slippageBps)"

definition isBetter :: "trade_type \<Rightarrow> swap_quote \<Rightarrow> optimal_path option \<Rightarrow> bool" where
  "isBetter tt q best = (case best of None \<Rightarrow> True
     | Some b \<Rightarrow> if tt = EXACT_OUT then q_amountIn q < q_amountIn (op_quote b)
                 else q_amountOut (op_quote b) < q_amountOut q)"

fun chooseBest :: "(rat \<Rightarrow> rat) \<Rightarrow> client \<Rightarrow> int \<Rightarrow> trade_type \<Rightarrow> rat \<Rightarrow> string list list \<Rightarrow>
    optimal_path option \<Rightarrow> optimal_path option" where
  "chooseBest fl c amt tt s [] best = best"
| "chooseBest fl c amt tt s (path # paths) best =
    chooseBest fl c amt tt s paths (case pathQuote fl c amt tt s path of
        Inl _ \<Rightarrow> best
      | Inr (q, m) \<Rightarrow> if isBetter tt q best
          then Some \<lparr>op_path = path, op_quote = q, op_maxAmountIn = m\<rparr> else best)"

text \<open>A failing \<open>getPairAddress\<close> is not caught; failing reserves are.\<close>

fun hasLiquidity :: "client \<Rightarrow> string list \<Rightarrow> bool result" where
  "hasLiquidity c (t # u # rest) = bindE (getPairAddress c t u) (\<lambda>pair.
     if \<not> truthy pair then Inr False
     else case getReserves c (the pair) of
         Inl _ \<Rightarrow> Inr False
       | Inr (reserve0, reserve1) \<Rightarrow>
           if reserve0 = 0 \<or> reserve1 = 0 then Inr False else hasLiquidity c (u # rest))"
| "hasLiquidity c path = Inr True"

definition filterZeroLiquidityPaths :: "client \<Rightarrow> string list list \<Rightarrow> string list list result" where
  "filterZeroLiquidityPaths c paths =
    bindE (mapE (\<lambda>p. bindE (hasLiquidity c p) (\<lambda>b. Inr (b, p))) paths) (\<lambda>bps.
      Inr (map snd (filter fst bps)))"

section \<open>The cached search\<close>

record cache_entry =
  ce_result :: "optimal_path option"
  ce_expiresAt :: int

record router =
  pathCache :: "string \<Rightarrow> cache_entry option"
  cacheTtlMs :: int

definition trade_text :: "trade_type \<Rightarrow> string" where
  "trade_text tt = (case tt of EXACT_IN \<Rightarrow> ''EXACT_IN'' | EXACT_OUT \<Rightarrow> ''EXACT_OUT'')"

definition cacheKey :: "client \<Rightarrow> string \<Rightarrow> string \<Rightarrow> trade_type \<Rightarrow> int \<Rightarrow> rat \<Rightarrow> string" where
  "cacheKey c src dst tt amt s = src @ '':'' @ dst @ '':'' @ trade_text tt @ '':'' @ int_str amt @ '':'' @ numText c s"

text \<open>The search below the cache; \<open>allPairs\<close> is the factory's answer.\<close>

definition searchPaths :: "(rat \<Rightarrow> rat) \<Rightarrow> client \<Rightarrow> string list result \<Rightarrow> string \<Rightarrow> string \<Rightarrow> int \<Rightarrow>
    trade_type \<Rightarrow> rat \<Rightarrow> optimal_path option result" where
  "searchPaths fl c allPairs src dst amt tt s =
    bindE allPairs (\<lambda>pairs.
      let paths = findAllPaths src dst (buildTokenGraph c pairs) 3
      in if paths = [] then Inr None
         else bindE (filterZeroLiquidityPaths c paths) (\<lambda>viable.
           if viable = [] then Inr None else Inr (chooseBest fl c amt tt s viable None)))"

definition findOptimalPath :: "(rat \<Rightarrow> rat) \<Rightarrow> client \<Rightarrow> string list result \<Rightarrow> int \<Rightarrow> int \<Rightarrow> string \<Rightarrow>
    string \<Rightarrow> int \<Rightarrow> trade_type \<Rightarrow> rat option \<Rightarrow> router \<Rightarrow> optimal_path option result \<times> router" where
  "findOptimalPath fl c allPairs nowStart nowEnd src dst amt tt slippage r =
    (case getSlippageBps c slippage of
       Inl e \<Rightarrow> (Inl e, r)
     | Inr s \<Rightarrow>
       (let key = cacheKey c src dst tt amt s;
            miss = (case searchPaths fl c allPairs src dst amt tt s of
              Inl e \<Rightarrow> (Inl e, r)
            | Inr res \<Rightarrow> (Inr res, r\<lparr>pathCache := (pathCache r)(key \<mapsto>
                \<lparr>ce_result = res, ce_expiresAt = nowEnd + cacheTtlMs r\<rparr>)\<rparr>))
        in case pathCache r key of
             Some e \<Rightarrow> if nowStart < ce_expiresAt e then (Inr (ce_result e), r) else miss
           | None \<Rightarrow> miss))"

definition clearPathCache :: "router \<Rightarrow> router" where
  "clearPathCache r = r\<lparr>pathCache := (\<lambda>_. None)\<rparr>"

section \<open>The choice is optimal\<close>

text \<open>The order the router maximises: more output, or less input.\<close>

definition no_worse :: "trade_type \<Rightarrow> swap_quote \<Rightarrow> swap_quote \<Rightarrow> bool" where
  "no_worse tt q q' = (if tt = EXACT_OUT then q_amountIn q \<le> q_amountIn q'
     else q_amountOut q' \<le> q_amountOut q)"

lemma chooseBest_spec:
  "chooseBest fl c amt tt s paths best = res \<Longrightarrow>
   (res = None \<longleftrightarrow> best = None \<and> (\<forall>p \<in> set paths. \<exists>e. pathQuote fl c amt tt s p = Inl e)) \<and>
   (\<forall>b. res = Some b \<longrightarrow>
      (best = Some b \<or> op_path b \<in> set paths \<and>
         pathQuote fl c amt tt s (op_path b) = Inr (op_quote b, op_maxAmountIn b)) \<and>
      (\<forall>b'. best = Some b' \<longrightarrow> no_worse tt (op_quote b) (op_quote b')) \<and>
      (\<forall>p \<in> set paths. \<forall>q m. pathQuote fl c amt tt s p = Inr (q, m) \<longrightarrow> no_worse tt (op_quote b) q))"
proof (induction fl c amt tt s paths best rule: chooseBest.induct)
  case (1 fl c amt tt s best)
  then show ?case by (auto simp: no_worse_def)
next
  case (2 fl c amt tt s path paths best)
  let ?next = "case pathQuote fl c amt tt s path of
        Inl _ \<Rightarrow> best
      | Inr (q, m) \<Rightarrow> if isBetter tt q best
          then Some \<lparr>op_path = path, op_quote = q, op_maxAmountIn = m\<rparr> else best"
  have ih: "chooseBest fl c amt tt s paths ?next = res" using 2(2) by simp
  note ih' = 2(1)[OF ih]
  show ?case
  proof (cases "pathQuote fl c amt tt s path")
    case (Inl e)
    then show ?thesis using ih' by auto
  next
    case (Inr qm)
    obtain q m where qm: "qm = (q, m)" by fastforce
    show ?thesis
    proof (cases "isBetter tt q best")
      case True
      then have "\<And>b'. best = Some b' \<Longrightarrow> no_worse tt q (op_quote b')"
        by (auto simp: isBetter_def no_worse_def split: if_splits)
      then show ?thesis using ih' Inr qm True by (fastforce simp: no_worse_def split: if_splits)
    next
      case False
      then obtain b0 where "best = Some b0" "no_worse tt (op_quote b0) q"
        by (auto simp: isBetter_def no_worse_def split: option.splits if_splits)
      then show ?thesis using ih' Inr qm False by (fastforce simp: no_worse_def split: if_splits)
    qed
  qed
qed

lemma filterZeroLiquidityPaths_set:
  assumes "filterZeroLiquidityPaths c paths = Inr viable"
  shows "set viable = {p \<in> set paths. hasLiquidity c p = Inr True}"
proof -
  have "mapE (\<lambda>p. bindE (hasLiquidity c p) (\<lambda>b. Inr (b, p))) paths = Inr bps \<Longrightarrow>
      set (map snd (filter fst bps)) = {p \<in> set paths. hasLiquidity c p = Inr True}" for bps
  proof (induction paths arbitrary: bps)
    case (Cons p paths)
    from Cons.prems obtain b rest where b: "hasLiquidity c p = Inr b"
      and rest: "mapE (\<lambda>p. bindE (hasLiquidity c p) (\<lambda>b. Inr (b, p))) paths = Inr rest"
      and bps: "bps = (b, p) # rest" by (auto simp: bindE_eq_Inr)
    show ?case using Cons.IH[OF rest] b unfolding bps by (cases b) auto
  qed simp
  with assms show ?thesis by (auto simp: filterZeroLiquidityPaths_def bindE_eq_Inr)
qed

text \<open>
  A candidate: a route of at most three hops through pools with reserves, with the quote it
  gets.
\<close>

definition candidate :: "(rat \<Rightarrow> rat) \<Rightarrow> client \<Rightarrow> string list \<Rightarrow> string \<Rightarrow> string \<Rightarrow> int \<Rightarrow> trade_type \<Rightarrow> rat \<Rightarrow>
    string list \<Rightarrow> swap_quote \<Rightarrow> int option \<Rightarrow> bool" where
  "candidate fl c pairs src dst amt tt s p q m \<longleftrightarrow> route (buildTokenGraph c pairs) 3 src dst p \<and>
     hasLiquidity c p = Inr True \<and> pathQuote fl c amt tt s p = Inr (q, m)"

text \<open>
  C1: The router returns the best route. When no cached entry applies and the reads succeed,
  \<open>findOptimalPath\<close> returns nothing exactly when no route of at most three hops through
  non-empty pools can be quoted, and otherwise a quoted route that no other quoted route beats
  in the router's order (more output, or less input for exact output).
\<close>

theorem findOptimalPath_best:
  assumes "findOptimalPath fl c (Inr pairs) t0 t1 src dst amt tt slippage r = (Inr res, r')"
    and "pathCache r = (\<lambda>_. None)" and "getSlippageBps c slippage = Inr s"
  shows "case res of
      None \<Rightarrow> (\<nexists>p q m. candidate fl c pairs src dst amt tt s p q m)
    | Some b \<Rightarrow> candidate fl c pairs src dst amt tt s (op_path b) (op_quote b) (op_maxAmountIn b) \<and>
        (\<forall>p q m. candidate fl c pairs src dst amt tt s p q m \<longrightarrow> no_worse tt (op_quote b) q)"
proof -
  let ?paths = "findAllPaths src dst (buildTokenGraph c pairs) 3"
  have sr: "searchPaths fl c (Inr pairs) src dst amt tt s = Inr res"
    using assms by (auto simp: findOptimalPath_def Let_def split: sum.splits)
  have paths: "set ?paths = {p. route (buildTokenGraph c pairs) 3 src dst p}" by (rule findAllPaths_exact)
  show ?thesis
  proof (cases "?paths = []")
    case True
    then have "res = None" using sr by (simp add: searchPaths_def)
    then show ?thesis using True paths by (auto simp: candidate_def)
  next
    case False
    then obtain viable where v: "filterZeroLiquidityPaths c ?paths = Inr viable"
      and res: "res = (if viable = [] then None else chooseBest fl c amt tt s viable None)"
      using sr by (auto simp: searchPaths_def Let_def bindE_eq_Inr split: if_splits)
    have cand: "candidate fl c pairs src dst amt tt s p q m \<longleftrightarrow>
        p \<in> set viable \<and> pathQuote fl c amt tt s p = Inr (q, m)" for p q m
      using filterZeroLiquidityPaths_set[OF v] paths by (auto simp: candidate_def)
    have "chooseBest fl c amt tt s viable None = res" using res by (cases viable) auto
    from chooseBest_spec[OF this] show ?thesis
      unfolding cand by (cases res) (auto split: option.splits)
  qed
qed

text \<open>
  The cache. After an uncached successful search that ended at \<open>t1\<close>, the same request is
  answered with the same result until \<open>t1 + ttl\<close>, whatever the chain has become, and from then
  on by a new search on the chain as it is.
\<close>

theorem findOptimalPath_cache:
  assumes first: "findOptimalPath fl c pairs t0 t1 src dst amt tt slippage r = (Inr res, r1)"
    and empty: "pathCache r = (\<lambda>_. None)"
    and same: "getSlippageBps c' slippage = getSlippageBps c slippage" "numText c' = numText c"
    and s: "getSlippageBps c slippage = Inr s"
  shows "fst (findOptimalPath fl c' pairs' t t2 src dst amt tt slippage r1) =
    (if t < t1 + cacheTtlMs r then Inr res else searchPaths fl c' pairs' src dst amt tt s)"
proof -
  have "cacheKey c' src dst tt amt s = cacheKey c src dst tt amt s" by (simp add: cacheKey_def same)
  then show ?thesis using first empty same s
    by (auto simp: findOptimalPath_def Let_def split: sum.splits)
qed

text \<open>
  A tolerance the router accepts and no quote allows. With a slippage above 5000 basis
  points, which \<open>getSlippageBps\<close> lets pass up to 10000, every exact-input quote throws and is
  skipped, so an uncached search finds no path, whatever the pools.
\<close>

theorem router_high_slippage_finds_nothing:
  assumes "getSlippageBps c slippage = Inr s" and "5000 < s" and "pathCache r = (\<lambda>_. None)"
  shows "case fst (findOptimalPath fl c pairs t0 t1 src dst amt EXACT_IN slippage r) of
    Inl e \<Rightarrow> True | Inr res \<Rightarrow> res = None"
proof -
  have slip: "\<exists>e. resolveSlippageBps c (Some s) = Inl e"
    using assms(2) by (simp add: resolveSlippageBps_def orElse_def)
  have q: "\<exists>e. pathQuote fl c amt EXACT_IN s p = Inl e" for p
  proof (cases "length p = 2")
    case True
    obtain e where "resolveSlippageBps c (Some s) = Inl e" using slip by blast
    then have "\<exists>e. getDirectQuote c \<lparr>tokenIn = p ! 0, tokenOut = p ! 1, amount = amt, tradeType = EXACT_IN,
        reqPath = Some p, reqSlippage = Some s, reqDeadline = None, reqTo = None\<rparr> p = Inl e"
      by (auto simp: getDirectQuote_def Let_def bindE_def split: sum.splits prod.splits)
    then show ?thesis using True
      by (auto simp: pathQuote_def getQuote_def resolvePath_def)
  next
    case False
    then show ?thesis using assms(2)
      by (auto simp: pathQuote_def getMultiHopQuote_def multiHopSwapRequestSchema_def Let_def)
  qed
  have "chooseBest fl c amt EXACT_IN s ps None = None" for ps
    using chooseBest_spec[of fl c amt EXACT_IN s ps None, OF refl] q by auto
  then show ?thesis using assms(1,3)
    by (auto simp: findOptimalPath_def searchPaths_def Let_def bindE_def split: sum.splits if_splits)
qed

section \<open>Instances\<close>

text \<open>Three tokens, a pool for each pair of them.\<close>

definition router_client :: client where
  "router_client = demo_client\<lparr>
     getPairAddress := (\<lambda>a b. Inr (if {a, b} = {''A'', ''B''} then Some ''AB''
       else if {a, b} = {''A'', ''C''} then Some ''AC''
       else if {a, b} = {''B'', ''C''} then Some ''CB'' else None)),
     getReserves := (\<lambda>p. Inr (if p = ''AB'' then (1000000, 2000000)
       else if p = ''AC'' then (1000000000, 1000000000) else (50600000, 100000000))),
     getDynamicFee := (\<lambda>p. Inr (if p = ''AB'' then 30 else 0)),
     getTokens := (\<lambda>p. Inr (if p = ''AB'' then (''A'', ''B'') else if p = ''AC'' then (''A'', ''C'')
       else (''C'', ''B'')))\<rparr>"

lemma router_client_reads:
  "getPairAddress router_client ''A'' ''B'' = Inr (Some ''AB'')"
  "getPairAddress router_client ''A'' ''C'' = Inr (Some ''AC'')"
  "getPairAddress router_client ''C'' ''B'' = Inr (Some ''CB'')"
  "getReserves router_client ''AB'' = Inr (1000000, 2000000)"
  "getReserves router_client ''AC'' = Inr (1000000000, 1000000000)"
  "getReserves router_client ''CB'' = Inr (50600000, 100000000)"
  "poolView router_client ''AB'' ''A'' = Inr (1000000, 2000000, 30)"
  "poolView router_client ''AC'' ''A'' = Inr (1000000000, 1000000000, 0)"
  "poolView router_client ''CB'' ''C'' = Inr (50600000, 100000000, 0)"
  "getTokens router_client ''AB'' = Inr (''A'', ''B'')" "getTokens router_client ''AC'' = Inr (''A'', ''C'')"
  "getTokens router_client ''CB'' = Inr (''C'', ''B'')" "getDeadline router_client = 1700000000"
  "resolveSlippageBps router_client (Some 100) = Inr 100" "to_bigint 100 = Inr 100"
  "getSlippageBps router_client None = Inr 100"
  by (simp_all add: router_client_def demo_client_def doubleton_eq_iff poolView_def isToken0_def
      resolveSlippageBps_def orElse_def to_bigint_def getSlippageBps_def MAX_SLIPPAGE_BPS_def)

lemma router_client_lookup:
  "lookupPair router_client ''A'' ''B'' = Inr ''AB''" "lookupPair router_client ''A'' ''C'' = Inr ''AC''"
  "lookupPair router_client ''C'' ''B'' = Inr ''CB''"
  by (simp_all add: lookupPair_Inr router_client_reads)

lemma router_client_paths:
  "findAllPaths ''A'' ''B'' (buildTokenGraph router_client [''AB'', ''AC'', ''CB'']) 3
    = [[''A'', ''B''], [''A'', ''C'', ''B'']]"
  by (simp add: findAllPaths_def buildTokenGraph_def map_filter_simps router_client_reads addPair_def
      addNeighbor_def ensureNode_def neighbors_def)

lemma router_client_viable:
  "filterZeroLiquidityPaths router_client [[''A'', ''B''], [''A'', ''C'', ''B'']]
    = Inr [[''A'', ''B''], [''A'', ''C'', ''B'']]"
  by (simp add: filterZeroLiquidityPaths_def router_client_reads truthy_def)

lemma router_client_direct:
  "\<exists>q m. pathQuote fl router_client 10000 EXACT_OUT 100 [''A'', ''B''] = Inr (q, m) \<and> q_amountIn q = 5091"
  by (simp add: pathQuote_def getQuote_def resolvePath_def getDirectQuote_def router_client_lookup
      router_client_reads swap_getAmountIn_def slip_def BPS_DENOMINATOR_def Let_def bigint_simps
      applySlippageBound_def)

lemma router_client_hops:
  "\<exists>q m. pathQuote fl router_client 10000 EXACT_OUT 100 [''A'', ''C'', ''B''] = Inr (q, m) \<and> q_amountIn q = 5062"
  by (simp add: pathQuote_def buildExactOutMultiHopQuote_def computeHopsReverse_def router_client_lookup
      router_client_reads swap_getAmountIn_def Let_def bigint_simps applySlippageBound_def)

text \<open>
  The router compares unlike amounts. For an exact output a direct quote's input already
  contains the slippage, a multi-hop quote's input does not: here the direct pool needs 5041
  units, the route over C needs more, and the router returns the route over C.
\<close>

theorem exact_out_choice_is_skewed:
  "\<exists>q m base. fst (findOptimalPath fl router_client (Inr [''AB'', ''AC'', ''CB'']) 0 0 ''A'' ''B'' 10000
      EXACT_OUT None \<lparr>pathCache = (\<lambda>_. None), cacheTtlMs = 30000\<rparr>)
      = Inr (Some \<lparr>op_path = [''A'', ''C'', ''B''], op_quote = q, op_maxAmountIn = m\<rparr>) \<and>
    swap_getAmountIn 10000 1000000 2000000 30 = Inr base \<and> base < q_amountIn q"
proof -
  obtain q m where d: "pathQuote fl router_client 10000 EXACT_OUT 100 [''A'', ''B''] = Inr (q, m)"
    "q_amountIn q = 5091" using router_client_direct by blast
  obtain q' m' where h: "pathQuote fl router_client 10000 EXACT_OUT 100 [''A'', ''C'', ''B''] = Inr (q', m')"
    "q_amountIn q' = 5062" using router_client_hops by blast
  have "searchPaths fl router_client (Inr [''AB'', ''AC'', ''CB'']) ''A'' ''B'' 10000 EXACT_OUT 100
      = Inr (Some \<lparr>op_path = [''A'', ''C'', ''B''], op_quote = q', op_maxAmountIn = m'\<rparr>)"
    using d h by (simp add: searchPaths_def router_client_paths router_client_viable isBetter_def)
  then have "fst (findOptimalPath fl router_client (Inr [''AB'', ''AC'', ''CB'']) 0 0 ''A'' ''B'' 10000
      EXACT_OUT None \<lparr>pathCache = (\<lambda>_. None), cacheTtlMs = 30000\<rparr>)
      = Inr (Some \<lparr>op_path = [''A'', ''C'', ''B''], op_quote = q', op_maxAmountIn = m'\<rparr>)"
    by (simp add: findOptimalPath_def router_client_reads Let_def)
  moreover have "swap_getAmountIn 10000 1000000 2000000 30 = Inr 5041"
    by (simp add: swap_getAmountIn_def Let_def bigint_simps)
  ultimately show ?thesis using h(2) by auto
qed

lemma router_client_search:
  obtains b r' where "findOptimalPath fl router_client (Inr [''AB'', ''AC'', ''CB'']) 0 0 ''A'' ''B'' 10000
      EXACT_OUT None \<lparr>pathCache = (\<lambda>_. None), cacheTtlMs = 30000\<rparr> = (Inr (Some b), r')"
    and "op_path b = [''A'', ''C'', ''B'']"
proof -
  obtain q m where d: "pathQuote fl router_client 10000 EXACT_OUT 100 [''A'', ''B''] = Inr (q, m)"
    "q_amountIn q = 5091" using router_client_direct by blast
  obtain q' m' where h: "pathQuote fl router_client 10000 EXACT_OUT 100 [''A'', ''C'', ''B''] = Inr (q', m')"
    "q_amountIn q' = 5062" using router_client_hops by blast
  have "searchPaths fl router_client (Inr [''AB'', ''AC'', ''CB'']) ''A'' ''B'' 10000 EXACT_OUT 100
      = Inr (Some \<lparr>op_path = [''A'', ''C'', ''B''], op_quote = q', op_maxAmountIn = m'\<rparr>)"
    using d h by (simp add: searchPaths_def router_client_paths router_client_viable isBetter_def)
  then have "findOptimalPath fl router_client (Inr [''AB'', ''AC'', ''CB'']) 0 0 ''A'' ''B'' 10000
      EXACT_OUT None \<lparr>pathCache = (\<lambda>_. None), cacheTtlMs = 30000\<rparr>
    = (Inr (Some \<lparr>op_path = [''A'', ''C'', ''B''], op_quote = q', op_maxAmountIn = m'\<rparr>),
       snd (findOptimalPath fl router_client (Inr [''AB'', ''AC'', ''CB'']) 0 0 ''A'' ''B'' 10000
      EXACT_OUT None \<lparr>pathCache = (\<lambda>_. None), cacheTtlMs = 30000\<rparr>))"
    by (simp add: findOptimalPath_def router_client_reads Let_def)
  then show thesis by (rule that) simp
qed

lemma findOptimalPath_best_witness:
  "\<exists>b :: optimal_path. op_path b = [''A'', ''C'', ''B''] \<and>
     candidate (\<lambda>x. x) router_client [''AB'', ''AC'', ''CB''] ''A'' ''B'' 10000 EXACT_OUT 100
       (op_path b) (op_quote b) (op_maxAmountIn b)"
proof -
  obtain b r' where f: "findOptimalPath (\<lambda>x. x) router_client (Inr [''AB'', ''AC'', ''CB'']) 0 0 ''A'' ''B'' 10000
      EXACT_OUT None \<lparr>pathCache = (\<lambda>_. None), cacheTtlMs = 30000\<rparr> = (Inr (Some b), r')"
    "op_path b = [''A'', ''C'', ''B'']" by (rule router_client_search)
  have "candidate (\<lambda>x. x) router_client [''AB'', ''AC'', ''CB''] ''A'' ''B'' 10000 EXACT_OUT 100
       (op_path b) (op_quote b) (op_maxAmountIn b)"
    using findOptimalPath_best[OF f(1) _ router_client_reads(16)] by simp
  with f(2) show ?thesis by blast
qed

lemma findOptimalPath_cache_witness:
  "\<exists>(b :: optimal_path) r1. op_path b = [''A'', ''C'', ''B''] \<and>
    fst (findOptimalPath (\<lambda>x. x) router_client (Inr []) 29999 29999 ''A'' ''B'' 10000 EXACT_OUT None r1) = Inr (Some b)"
proof -
  obtain b r' where f: "findOptimalPath (\<lambda>x. x) router_client (Inr [''AB'', ''AC'', ''CB'']) 0 0 ''A'' ''B'' 10000
      EXACT_OUT None \<lparr>pathCache = (\<lambda>_. None), cacheTtlMs = 30000\<rparr> = (Inr (Some b), r')"
    "op_path b = [''A'', ''C'', ''B'']" by (rule router_client_search)
  from findOptimalPath_cache[OF f(1) _ refl refl router_client_reads(16), of "Inr []" 29999 29999] f(2)
  show ?thesis by auto
qed

lemma router_high_slippage_finds_nothing_witness:
  "case fst (findOptimalPath (\<lambda>x. x) router_client (Inr [''AB'', ''AC'', ''CB'']) 0 0 ''A'' ''B'' 10000
      EXACT_IN (Some 6000) \<lparr>pathCache = (\<lambda>_. None), cacheTtlMs = 30000\<rparr>) of
    Inl e \<Rightarrow> True | Inr res \<Rightarrow> res = None"
  by (rule router_high_slippage_finds_nothing[where s = 6000])
    (simp_all add: getSlippageBps_def orElse_def MAX_SLIPPAGE_BPS_def)

end
