(* ===== verification/Batch.thy ===== *)
theory Batch
  imports Retry
begin

text \<open>
  \<open>src/utils/batch-request.ts\<close>: the concurrent batch runner. The workers of one batch share the
  next index and the result array; between two awaits the single thread is theirs, so a step of
  the batch is the completion of one worker's task, followed by that worker's next claim. A
  task that exceeds its timeout is rejected for the batch but not cancelled: it stays in
  flight.
\<close>

section \<open>Workers, claims and completions\<close>

datatype 'v outcome = Fulfilled 'v | RejectedWith thrown

record 'v batch =
  results :: "'v outcome option list"
  nextIndex :: nat
  workers :: "nat option list"
  late :: "nat list"

definition DEFAULT_BATCH_CONCURRENCY :: int where "DEFAULT_BATCH_CONCURRENCY = 5"

definition resolveConcurrency :: "rat option \<Rightarrow> nat result" where
  "resolveConcurrency concurrency = (case concurrency of
       None \<Rightarrow> Inr (nat DEFAULT_BATCH_CONCURRENCY)
     | Some x \<Rightarrow> if x \<noteq> of_int \<lfloor>x\<rfloor> \<or> x < 1
         then Inl (RangeError ''concurrency must be an integer >= 1'') else Inr (nat \<lfloor>x\<rfloor>))"

text \<open>The head of a worker's loop: claim the next task, or stop.\<close>

definition claim :: "nat \<Rightarrow> 'v batch \<Rightarrow> 'v batch" where
  "claim w s = (if nextIndex s < length (results s)
     then s\<lparr>workers := (workers s)[w := Some (nextIndex s)], nextIndex := Suc (nextIndex s)\<rparr>
     else s\<lparr>workers := (workers s)[w := None]\<rparr>)"

text \<open>The batch when its last worker has been spun up: each has claimed one task.\<close>

definition start_batch :: "nat \<Rightarrow> nat \<Rightarrow> 'v batch" where
  "start_batch concurrency n = (let k = min concurrency n in
     \<lparr>results = replicate n None, nextIndex = k, workers = map Some [0..<k], late = []\<rparr>)"

definition settle :: "nat \<Rightarrow> nat \<Rightarrow> 'v outcome \<Rightarrow> 'v batch \<Rightarrow> 'v batch" where
  "settle w i res s = claim w (s\<lparr>results := (results s)[i := Some res]\<rparr>)"

definition timeout_error :: "int \<Rightarrow> thrown" where
  "timeout_error ms = Sdk (JsError (''Task timeout after '' @ int_str ms @ ''ms''))"

text \<open>
  One step. \<open>ok i r\<close> says that task \<open>i\<close> can end with \<open>r\<close>; \<open>limit\<close> is the timeout, 0 for none. A
  late task ends without being seen.
\<close>

inductive batch_step :: "(nat \<Rightarrow> 'v outcome \<Rightarrow> bool) \<Rightarrow> int \<Rightarrow> 'v batch \<Rightarrow> 'v batch \<Rightarrow> bool"
  for ok :: "nat \<Rightarrow> 'v outcome \<Rightarrow> bool" and limit :: int where
  settled: "w < length (workers s) \<Longrightarrow> workers s ! w = Some i \<Longrightarrow> ok i res \<Longrightarrow>
    batch_step ok limit s (settle w i res s)"
| timed_out: "limit \<noteq> 0 \<Longrightarrow> w < length (workers s) \<Longrightarrow> workers s ! w = Some i \<Longrightarrow>
    batch_step ok limit s (settle w i (RejectedWith (timeout_error limit)) (s\<lparr>late := i # late s\<rparr>))"

text \<open>\<open>batch_run ok limit c n k s\<close>: \<open>s\<close> is reached from the start in \<open>k\<close> completions.\<close>

inductive batch_run :: "(nat \<Rightarrow> 'v outcome \<Rightarrow> bool) \<Rightarrow> int \<Rightarrow> nat \<Rightarrow> nat \<Rightarrow> nat \<Rightarrow> 'v batch \<Rightarrow> bool"
  for ok :: "nat \<Rightarrow> 'v outcome \<Rightarrow> bool" and limit :: int and c n :: nat where
  start: "batch_run ok limit c n 0 (start_batch c n)"
| step: "batch_run ok limit c n k s \<Longrightarrow> batch_step ok limit s t \<Longrightarrow> batch_run ok limit c n (Suc k) t"

definition finished :: "'v batch \<Rightarrow> bool" where
  "finished s \<longleftrightarrow> list_all (\<lambda>w. w = None) (workers s)"

definition in_flight :: "'v batch \<Rightarrow> nat" where
  "in_flight s = length (filter (\<lambda>w. w \<noteq> None) (workers s)) + length (late s)"

section \<open>The results of a finished batch\<close>

definition batchRequestOrThrow :: "'v outcome option list \<Rightarrow> (thrown list \<times> string, 'v list) res" where
  "batchRequestOrThrow rs =
    (let errors = List.map_filter (\<lambda>r. case r of Some (RejectedWith e) \<Rightarrow> Some e | _ \<Rightarrow> None) rs
     in if errors \<noteq> [] then Inl (errors, int_str (int (length errors)) @ '' of '' @
          int_str (int (length rs)) @ '' tasks failed'')
        else Inr (List.map_filter (\<lambda>r. case r of Some (Fulfilled v) \<Rightarrow> Some v | _ \<Rightarrow> None) rs))"

text \<open>\<open>batchCall\<close> supplies the default concurrency, which the options may override.\<close>

definition batchCall_concurrency :: "rat option \<Rightarrow> nat result" where
  "batchCall_concurrency given =
     resolveConcurrency (case given of None \<Rightarrow> Some (of_int DEFAULT_BATCH_CONCURRENCY) | Some x \<Rightarrow> Some x)"

text \<open>One call after the other; the first is not preceded by the delay.\<close>

fun sequential_from :: "(rat \<Rightarrow> 'w \<Rightarrow> 'w) \<Rightarrow> rat \<Rightarrow> bool \<Rightarrow> ('w, thrown, 'v) act list \<Rightarrow> 'w \<Rightarrow>
    'v outcome list \<times> 'w" where
  "sequential_from slp delayMs first [] w = ([], w)"
| "sequential_from slp delayMs first (call # calls) w =
    (let w1 = (if \<not> first \<and> 0 < delayMs then slp delayMs w else w) in
     case call w1 of (r, w2) \<Rightarrow>
     case sequential_from slp delayMs False calls w2 of (rs, w3) \<Rightarrow>
       ((case r of Inr v \<Rightarrow> Fulfilled v | Inl e \<Rightarrow> RejectedWith e) # rs, w3))"

definition batchCallSequential :: "(rat \<Rightarrow> 'w \<Rightarrow> 'w) \<Rightarrow> ('w, thrown, 'v) act list \<Rightarrow> rat \<Rightarrow> 'w \<Rightarrow>
    'v outcome list \<times> 'w" where
  "batchCallSequential slp calls delayMs w = sequential_from slp delayMs True calls w"

section \<open>The invariant\<close>

definition claims_ok :: "'v batch \<Rightarrow> bool" where
  "claims_ok s \<longleftrightarrow> (\<forall>w < length (workers s). \<forall>i. workers s ! w = Some i \<longrightarrow> i < nextIndex s \<and> results s ! i = None)"

definition claims_once :: "'v batch \<Rightarrow> bool" where
  "claims_once s \<longleftrightarrow> (\<forall>w < length (workers s). \<forall>w' < length (workers s). \<forall>i.
     workers s ! w = Some i \<longrightarrow> workers s ! w' = Some i \<longrightarrow> w = w')"

definition none_lost :: "'v batch \<Rightarrow> bool" where
  "none_lost s \<longleftrightarrow> (\<forall>i < nextIndex s. results s ! i \<noteq> None \<or> (\<exists>w < length (workers s). workers s ! w = Some i))"

definition untouched :: "'v batch \<Rightarrow> bool" where
  "untouched s \<longleftrightarrow> (\<forall>i < length (results s). nextIndex s \<le> i \<longrightarrow> results s ! i = None)"

definition all_busy :: "'v batch \<Rightarrow> bool" where
  "all_busy s \<longleftrightarrow> (nextIndex s < length (results s) \<longrightarrow> (\<forall>w < length (workers s). workers s ! w \<noteq> None))"

definition results_ok :: "(nat \<Rightarrow> 'v outcome \<Rightarrow> bool) \<Rightarrow> 'v batch \<Rightarrow> bool" where
  "results_ok P s \<longleftrightarrow> (\<forall>i < length (results s). \<forall>r. results s ! i = Some r \<longrightarrow> P i r)"

definition done_count :: "'v batch \<Rightarrow> nat" where
  "done_count s = length (filter (\<lambda>r. r \<noteq> None) (results s))"

definition batch_inv :: "(nat \<Rightarrow> 'v outcome \<Rightarrow> bool) \<Rightarrow> nat \<Rightarrow> nat \<Rightarrow> nat \<Rightarrow> 'v batch \<Rightarrow> bool" where
  "batch_inv P c n k s \<longleftrightarrow> length (results s) = n \<and> length (workers s) = min c n \<and> nextIndex s \<le> n \<and>
     claims_ok s \<and> claims_once s \<and> none_lost s \<and> untouched s \<and> all_busy s \<and> results_ok P s \<and> done_count s = k"

lemma count_update:
  "i < length xs \<Longrightarrow> xs ! i = None \<Longrightarrow>
   length (filter (\<lambda>r. r \<noteq> None) (xs[i := Some r])) = Suc (length (filter (\<lambda>r. r \<noteq> None) xs))"
proof (induction xs arbitrary: i)
  case (Cons x xs)
  then show ?case by (cases i) auto
qed simp

lemma settle_fields:
  "length (results (settle w i r s)) = length (results s)"
  "results (settle w i r s) = (results s)[i := Some r]"
  "length (workers (settle w i r s)) = length (workers s)"
  "workers (settle w i r s) =
     (workers s)[w := (if nextIndex s < length (results s) then Some (nextIndex s) else None)]"
  "nextIndex (settle w i r s) = (if nextIndex s < length (results s) then Suc (nextIndex s) else nextIndex s)"
  "late (settle w i r s) = late s"
  by (simp_all add: settle_def claim_def)

lemma settle_inv:
  assumes inv: "batch_inv P c n k s" and w: "w < length (workers s)" "workers s ! w = Some i"
    and r: "P i r"
  shows "batch_inv P c n (Suc k) (settle w i r s)"
proof -
  let ?t = "settle w i r s"
  have ok: "claims_ok s" and once: "claims_once s" and lost: "none_lost s" and busy: "all_busy s" and raw: "untouched s"
    and res: "results_ok P s" and k: "done_count s = k" and n: "length (results s) = n"
    and m: "length (workers s) = min c n" "nextIndex s \<le> n"
    using inv by (simp_all add: batch_inv_def)
  have i: "i < nextIndex s" "results s ! i = None" using ok w by (auto simp: claims_ok_def)
  have other: "\<And>v j. v < length (workers s) \<Longrightarrow> workers s ! v = Some j \<Longrightarrow> v \<noteq> w \<Longrightarrow>
      j \<noteq> i \<and> j < nextIndex s \<and> results s ! j = None"
    using once ok w unfolding claims_once_def claims_ok_def by blast
  have "claims_ok ?t" unfolding claims_ok_def
  proof (intro allI impI)
    fix v j assume "v < length (workers ?t)" "workers ?t ! v = Some j"
    then show "j < nextIndex ?t \<and> results ?t ! j = None"
      using other[of v j] raw w i n m
      by (cases "v = w") (auto simp: settle_fields untouched_def split: if_splits)
  qed
  moreover have "claims_once ?t" unfolding claims_once_def
  proof (intro allI impI)
    fix u v j assume "u < length (workers ?t)" "v < length (workers ?t)" "workers ?t ! u = Some j"
      "workers ?t ! v = Some j"
    then show "u = v"
      using other[of u j] other[of v j] once w unfolding claims_once_def
      by (cases "u = w"; cases "v = w") (auto simp: settle_fields split: if_splits)
  qed
  moreover have "none_lost ?t" unfolding none_lost_def
  proof (intro allI impI)
    fix j assume j: "j < nextIndex ?t"
    show "results ?t ! j \<noteq> None \<or> (\<exists>v < length (workers ?t). workers ?t ! v = Some j)"
    proof (cases "j < nextIndex s \<and> j \<noteq> i")
      case True
      then consider "results s ! j \<noteq> None" | v where "v < length (workers s)" "workers s ! v = Some j"
        using lost by (auto simp: none_lost_def)
      then show ?thesis
      proof cases
        case 1
        then show ?thesis using True by (simp add: settle_fields)
      next
        case (2 v)
        then have "v \<noteq> w" using w True by auto
        then show ?thesis using 2 by (auto simp: settle_fields intro!: exI[of _ v])
      qed
    next
      case False
      then show ?thesis using j i w n m by (auto simp: settle_fields split: if_splits)
    qed
  qed
  moreover have "untouched ?t" using raw i by (auto simp: untouched_def settle_fields)
  moreover have "all_busy ?t" unfolding all_busy_def
  proof (intro impI allI)
    fix v assume "nextIndex ?t < length (results ?t)" "v < length (workers ?t)"
    then show "workers ?t ! v \<noteq> None"
      using busy by (cases "v = w") (auto simp: all_busy_def settle_fields split: if_splits)
  qed
  moreover have "results_ok P ?t" using res r unfolding results_ok_def settle_fields
    by (metis length_list_update nth_list_update_eq nth_list_update_neq option.inject)
  moreover have "done_count ?t = Suc k"
    using count_update[of i "results s" r] i n m k by (simp add: done_count_def settle_fields)
  ultimately show ?thesis using n m by (simp add: batch_inv_def settle_fields)
qed

lemma start_batch_inv: "batch_inv P c n 0 (start_batch c n)"
  by (auto simp: batch_inv_def start_batch_def Let_def claims_ok_def claims_once_def none_lost_def
      untouched_def all_busy_def results_ok_def done_count_def filter_empty_conv)

abbreviation admissible :: "(nat \<Rightarrow> 'v outcome \<Rightarrow> bool) \<Rightarrow> int \<Rightarrow> nat \<Rightarrow> 'v outcome \<Rightarrow> bool" where
  "admissible ok limit i r \<equiv> ok i r \<or> (limit \<noteq> 0 \<and> r = RejectedWith (timeout_error limit))"

lemma batch_inv_late [simp]: "batch_inv P c n k (s\<lparr>late := l\<rparr>) = batch_inv P c n k s"
  by (simp add: batch_inv_def claims_ok_def claims_once_def none_lost_def untouched_def all_busy_def
      results_ok_def done_count_def)

lemma batch_run_inv: "batch_run ok limit c n k s \<Longrightarrow> batch_inv (admissible ok limit) c n k s"
proof (induction rule: batch_run.induct)
  case (step k s t)
  show ?case using step.hyps(2)
  proof (cases rule: batch_step.cases)
    case (settled w i res)
    then show ?thesis using settle_inv[OF step.IH, of w i res] by simp
  next
    case (timed_out w i)
    then show ?thesis
      using settle_inv[of "admissible ok limit" c n k "s\<lparr>late := i # late s\<rparr>" w i] step.IH by simp
  qed
qed (rule start_batch_inv)

lemma finished_nextIndex:
  assumes inv: "batch_inv P c n k s" and c: "1 \<le> c" and fin: "finished s"
  shows "nextIndex s = n"
proof (rule ccontr)
  assume "nextIndex s \<noteq> n"
  then have lt: "nextIndex s < n" using inv by (simp add: batch_inv_def)
  then have "0 < length (workers s)" using inv c by (simp add: batch_inv_def)
  then have "workers s ! 0 \<noteq> None" using inv lt by (auto simp: batch_inv_def all_busy_def)
  then show False using fin \<open>0 < length (workers s)\<close> by (auto simp: finished_def list_all_length)
qed

lemma finished_results:
  assumes inv: "batch_inv P c n k s" and c: "1 \<le> c" and fin: "finished s" and i: "i < n"
  shows "\<exists>r. results s ! i = Some r \<and> P i r"
proof -
  have "\<forall>w < length (workers s). workers s ! w = None" using fin by (simp add: finished_def list_all_length)
  then have "results s ! i \<noteq> None"
    using inv i finished_nextIndex[OF inv c fin] by (auto simp: batch_inv_def none_lost_def)
  then show ?thesis using inv i by (auto simp: batch_inv_def results_ok_def)
qed

lemma all_done_count:
  assumes "batch_inv P c n k s" "1 \<le> c" "finished s"
  shows "k = n"
proof -
  have n: "length (results s) = n" "done_count s = k" using assms by (simp_all add: batch_inv_def)
  have "\<forall>r \<in> set (results s). r \<noteq> None"
    using finished_results[OF assms] n(1) by (fastforce simp: in_set_conv_nth)
  then show ?thesis using n by (simp add: done_count_def filter_id_conv)
qed

text \<open>C19: Every task of a batch runs to one result in its own position, whatever the others do and
  in whatever order they complete: a batch whose workers have all stopped has exactly one
  completion per task, and result \<open>i\<close> is an end of task \<open>i\<close> or its timeout.\<close>

theorem batch_isolates:
  assumes "1 \<le> c" and "batch_run ok limit c n k s" and "finished s"
  shows "k = n \<and> length (results s) = n \<and> (\<forall>i < n. \<exists>r. results s ! i = Some r \<and>
    (ok i r \<or> (limit \<noteq> 0 \<and> r = RejectedWith (timeout_error limit))))"
  using finished_results[OF batch_run_inv[OF assms(2)] assms(1,3)] all_done_count[OF batch_run_inv[OF assms(2)] assms(1,3)]
    batch_run_inv[OF assms(2)] by (simp add: batch_inv_def)

lemma all_less_two [simp]: "(\<forall>i < Suc (Suc 0). Q i) \<longleftrightarrow> Q 0 \<and> Q (Suc 0)"
  by (auto simp: less_Suc_eq)

definition two_tasks :: "nat \<Rightarrow> nat outcome \<Rightarrow> bool" where
  "two_tasks i r \<longleftrightarrow> (if i = 0 then r = RejectedWith (Sdk (JsError ''boom'')) else r = Fulfilled 7)"

lemma two_tasks_run:
  "batch_run two_tasks 0 2 2 2 (settle 0 0 (RejectedWith (Sdk (JsError ''boom''))) (settle 1 1 (Fulfilled 7)
     (start_batch 2 2)))"
proof -
  let ?s = "settle 1 1 (Fulfilled 7) (start_batch 2 2) :: nat batch"
  have "batch_step two_tasks 0 (start_batch 2 2) ?s"
    by (rule settled) (simp_all add: start_batch_def two_tasks_def)
  moreover have "batch_step two_tasks 0 ?s (settle 0 0 (RejectedWith (Sdk (JsError ''boom''))) ?s)"
    by (rule settled) (simp_all add: start_batch_def two_tasks_def settle_fields)
  ultimately have "batch_run two_tasks 0 2 2 (Suc (Suc 0)) (settle 0 0 (RejectedWith (Sdk (JsError ''boom''))) ?s)"
    by (blast intro: batch_run.intros)
  then show ?thesis by (simp add: numeral_2_eq_2)
qed

theorem batch_isolates_witness:
  "results (settle 0 0 (RejectedWith (Sdk (JsError ''boom''))) (settle 1 1 (Fulfilled (7::nat))
     (start_batch 2 2))) = [Some (RejectedWith (Sdk (JsError ''boom''))), Some (Fulfilled 7)] \<and>
   (\<exists>r. results (settle 0 0 (RejectedWith (Sdk (JsError ''boom''))) (settle 1 1 (Fulfilled (7::nat))
     (start_batch 2 2))) ! 0 = Some r \<and> two_tasks 0 r)"
  using batch_isolates[OF _ two_tasks_run]
  by (simp add: finished_def start_batch_def settle_fields numeral_2_eq_2 upt_rec)

lemma busy_worker:
  "\<not> finished s \<longleftrightarrow> (\<exists>w < length (workers s). \<exists>i. workers s ! w = Some i)"
  by (auto simp: finished_def list_all_length)

lemma busy_count_less:
  assumes inv: "batch_inv P c n k s" and w: "w < length (workers s)" "workers s ! w = Some i"
  shows "k < n"
proof -
  have "i < length (results s)" "results s ! i = None" "done_count s = k" "length (results s) = n"
    using inv w by (auto simp: batch_inv_def claims_ok_def)
  then show ?thesis using length_filter_less[of None "results s" "\<lambda>r. r \<noteq> None"]
    by (auto simp: done_count_def in_set_conv_nth)
qed

text \<open>A batch always ends: until every worker has stopped some task can still complete (when each
  has an end), and no run has more completions than tasks.\<close>

theorem batch_progress:
  assumes "batch_run ok limit c n k s" and "\<forall>i. \<exists>r. ok i r"
  shows "k \<le> n \<and> (finished s \<or> (k < n \<and> (\<exists>t. batch_run ok limit c n (Suc k) t)))"
proof -
  have inv: "batch_inv (admissible ok limit) c n k s" by (rule batch_run_inv[OF assms(1)])
  have "k \<le> n" using inv length_filter_le[of "\<lambda>r. r \<noteq> None" "results s"]
    by (auto simp: batch_inv_def done_count_def)
  moreover have "\<not> finished s \<Longrightarrow> k < n \<and> (\<exists>t. batch_run ok limit c n (Suc k) t)"
    using busy_count_less[OF inv] assms unfolding busy_worker by (metis batch_run.step settled)
  ultimately show ?thesis by blast
qed

theorem batch_progress_witness:
  "\<exists>t. batch_run two_tasks 0 2 2 1 (t :: nat batch)"
proof -
  have "\<forall>i. \<exists>r. two_tasks i r"
    by (metis two_tasks_def)
  moreover have "\<not> finished (start_batch 2 2 :: nat batch)" by (simp add: finished_def start_batch_def upt_rec)
  ultimately show ?thesis using batch_progress[OF batch_run.start[of two_tasks 0 2 2]] by auto
qed

lemma no_timeout_no_late: "batch_run ok 0 c n k s \<Longrightarrow> late s = []"
proof (induction rule: batch_run.induct)
  case (step k s t)
  from step.hyps(2) show ?case by (cases rule: batch_step.cases) (simp_all add: settle_fields step.IH)
qed (simp add: start_batch_def Let_def)

text \<open>Without a task timeout the cap on simultaneous tasks is kept at every point of a batch.\<close>

theorem concurrency_cap:
  assumes "batch_run ok 0 c n k s"
  shows "in_flight s \<le> c"
proof -
  have "length (workers s) \<le> c" using batch_run_inv[OF assms] by (simp add: batch_inv_def)
  then have "length (filter (\<lambda>w. w \<noteq> None) (workers s)) \<le> c" using length_filter_le le_trans by blast
  then show ?thesis by (simp add: in_flight_def no_timeout_no_late[OF assms])
qed

theorem concurrency_cap_witness:
  "in_flight (start_batch 2 3 :: nat batch) = 2 \<and> in_flight (start_batch 2 3 :: nat batch) \<le> 2"
  using concurrency_cap[OF batch_run.start[of two_tasks 0 2 3]] by (simp add: in_flight_def start_batch_def upt_rec)

text \<open>With a timeout the cap does not hold: the task that timed out is not cancelled, and its worker
  starts the next one beside it.\<close>

theorem timeout_breaks_cap:
  "\<exists>s. batch_run two_tasks 10 1 2 1 (s :: nat batch) \<and> in_flight s = 2"
proof -
  let ?s = "start_batch 1 2 :: nat batch"
  let ?t = "settle 0 0 (RejectedWith (timeout_error 10)) (?s\<lparr>late := 0 # late ?s\<rparr>)"
  have "batch_step two_tasks 10 ?s ?t" by (rule timed_out) (simp_all add: start_batch_def)
  then have "batch_run two_tasks 10 1 2 1 ?t" using batch_run.step[OF batch_run.start] by fastforce
  moreover have "in_flight ?t = 2" by (simp add: in_flight_def settle_fields start_batch_def)
  ultimately show ?thesis by blast
qed

section \<open>Refinement of the sequential runner\<close>

definition outcome_of :: "(thrown, 'v) res \<Rightarrow> 'v outcome" where
  "outcome_of r = (case r of Inr v \<Rightarrow> Fulfilled v | Inl e \<Rightarrow> RejectedWith e)"

lemma sequential_fixed:
  "(\<forall>i < length calls. \<forall>w. fst ((calls ! i) w) = f i) \<Longrightarrow>
   fst (sequential_from slp d first calls w) = map (\<lambda>i. outcome_of (f i)) [0..<length calls]"
proof (induction calls arbitrary: first w f)
  case (Cons call calls)
  let ?w = "snd (call (if \<not> first \<and> 0 < d then slp d w else w))"
  have hd: "fst (call (if \<not> first \<and> 0 < d then slp d w else w)) = f 0" using Cons.prems by fastforce
  have "\<forall>i < length calls. \<forall>w. fst ((calls ! i) w) = f (Suc i)" using Cons.prems by fastforce
  then have "fst (sequential_from slp d False calls ?w) = map (\<lambda>i. outcome_of (f (Suc i))) [0..<length calls]"
    by (rule Cons.IH)
  then show ?case using hd
    by (simp add: Let_def split: prod.split del: upt_Suc)
      (auto simp: outcome_of_def map_upt_Suc simp del: upt_Suc)
qed simp

text \<open>C21: For calls whose outcome does not depend on when they run, the concurrent runner returns exactly
  what \<open>batchCallSequential\<close> returns, whatever the interleaving and the cap.\<close>

theorem batch_refines_sequential:
  assumes "\<forall>i < length calls. \<forall>w. fst ((calls ! i) w) = f i" and "1 \<le> c"
    and "batch_run (\<lambda>i r. r = outcome_of (f i)) 0 c (length calls) k s" and "finished s"
  shows "results s = map Some (fst (batchCallSequential slp calls d w))"
proof -
  have "length (results s) = length calls"
    "\<forall>i < length calls. \<exists>r. results s ! i = Some r \<and> r = outcome_of (f i)"
    using finished_results[OF batch_run_inv[OF assms(3)] assms(2,4)] batch_run_inv[OF assms(3)] by (auto simp: batch_inv_def)
  then show ?thesis unfolding batchCallSequential_def sequential_fixed[OF assms(1)]
    by (intro nth_equalityI) auto
qed

lemma batchRequestOrThrow_cases:
  "batchRequestOrThrow (map Some os) =
    (if list_all (\<lambda>r. \<exists>v. r = Fulfilled v) os
     then Inr (map (\<lambda>r. case r of Fulfilled v \<Rightarrow> v | RejectedWith e \<Rightarrow> undefined) os)
     else Inl (List.map_filter (\<lambda>r. case r of RejectedWith e \<Rightarrow> Some e | _ \<Rightarrow> None) os,
       int_str (int (length (filter (\<lambda>r. \<not> (\<exists>v. r = Fulfilled v)) os))) @ '' of '' @
       int_str (int (length os)) @ '' tasks failed''))"
proof -
  have e: "List.map_filter (\<lambda>r. case r of Some (RejectedWith e) \<Rightarrow> Some e | _ \<Rightarrow> None) (map Some os) =
    List.map_filter (\<lambda>r. case r of RejectedWith e \<Rightarrow> Some e | _ \<Rightarrow> None) os"
    by (induction os) (auto simp: List.map_filter_simps split: outcome.split)
  have l: "length (List.map_filter (\<lambda>r. case r of RejectedWith e \<Rightarrow> Some e | _ \<Rightarrow> None) os) =
    length (filter (\<lambda>r. \<not> (\<exists>v. r = Fulfilled v)) os)"
    by (induction os) (auto simp: List.map_filter_simps split: outcome.split)
  have n: "List.map_filter (\<lambda>r. case r of RejectedWith e \<Rightarrow> Some e | _ \<Rightarrow> None) os = [] \<longleftrightarrow>
    list_all (\<lambda>r. \<exists>v. r = Fulfilled v) os"
    by (induction os) (auto simp: List.map_filter_simps split: outcome.split)
  have v: "list_all (\<lambda>r. \<exists>v. r = Fulfilled v) os \<Longrightarrow>
    List.map_filter (\<lambda>r. case r of Some (Fulfilled v) \<Rightarrow> Some v | _ \<Rightarrow> None) (map Some os) =
    map (\<lambda>r. case r of Fulfilled v \<Rightarrow> v | RejectedWith e \<Rightarrow> undefined) os"
    by (induction os) (auto simp: List.map_filter_simps)
  show ?thesis by (auto simp: batchRequestOrThrow_def Let_def e l n v)
qed

text \<open>\<open>batchRequestOrThrow\<close> returns values exactly when every task was fulfilled, and then all of
  them in input order.\<close>

theorem batchRequestOrThrow_iff:
  "batchRequestOrThrow (map Some os) = Inr vs \<longleftrightarrow> os = map Fulfilled vs"
proof -
  have "(list_all (\<lambda>r. \<exists>v. r = Fulfilled v) os \<and>
      map (\<lambda>r. case r of Fulfilled v \<Rightarrow> v | RejectedWith e \<Rightarrow> undefined) os = vs) \<longleftrightarrow> os = map Fulfilled vs"
  proof (induction os arbitrary: vs)
    case (Cons r os)
    then show ?case by (cases vs; cases r) auto
  qed auto
  then show ?thesis unfolding batchRequestOrThrow_cases by auto
qed

definition two_calls :: "(nat, thrown, nat) act list" where
  "two_calls = [\<lambda>n. (Inl Undefined, Suc n), \<lambda>n. (Inr 7, Suc n)]"

lemma batch_refines_sequential_witness:
  "results (settle 0 0 (RejectedWith Undefined) (settle 1 1 (Fulfilled 7) (start_batch 2 2)))
   = map Some (fst (batchCallSequential (\<lambda>_ w. w) two_calls 100 0))"
proof (rule batch_refines_sequential)
  let ?f = "\<lambda>i. if i = 0 then Inl Undefined else Inr (7 :: nat)"
  let ?ok = "\<lambda>i r. r = outcome_of (?f i)"
  let ?s = "settle 1 1 (Fulfilled 7) (start_batch 2 2) :: nat batch"
  let ?t = "settle 0 0 (RejectedWith Undefined) ?s"
  show "\<forall>i < length two_calls. \<forall>w. fst ((two_calls ! i) w) = ?f i"
    by (auto simp: two_calls_def less_Suc_eq)
  show "(1 :: nat) \<le> 2" by simp
  have "batch_step ?ok 0 (start_batch 2 2) ?s"
    by (rule settled) (simp_all add: start_batch_def outcome_of_def)
  moreover have "batch_step ?ok 0 ?s ?t"
    by (rule settled) (simp_all add: start_batch_def outcome_of_def settle_fields)
  ultimately have "batch_run ?ok 0 2 2 (Suc (Suc 0)) ?t" by (blast intro: batch_run.intros)
  then show "batch_run ?ok 0 2 (length two_calls) 2 ?t" by (simp add: two_calls_def numeral_2_eq_2)
  show "finished ?t" by (simp add: finished_def start_batch_def settle_fields numeral_2_eq_2 upt_rec)
qed

end
