(* ===== verification/ScVal.thy ===== *)
theory ScVal
  imports SdkErrors "HOL-Library.Word"
begin

text \<open>
  Decoding of contract values: \<open>utils/scval.ts\<close>, \<open>utils/numeric.ts\<close> and the helpers of
  \<open>modules/limit-orders.ts\<close>. A contract value is the tagged union of the Stellar SDK, reduced to
  the members the decoders read. A 128-bit integer reaches them as a bigint or as its two
  halves. The bytes of \<open>ScvBytes\<close> stand for their UTF-8 text; \<open>ScvOther\<close> carries the tag and the
  printed value of every other member.
\<close>

section \<open>Contract values\<close>

datatype scval =
    ScvVoid
  | ScvBool bool
  | ScvU32 int | ScvI32 int | ScvU64 int | ScvI64 int
  | ScvI128 int | ScvI128Parts int int
  | ScvString string | ScvSymbol string | ScvBytes string
  | ScvVec "scval list option"
  | ScvMap "(scval \<times> scval) list option"
  | ScvOther string "string option"

fun scv_tag :: "scval \<Rightarrow> string" where
  "scv_tag ScvVoid = ''scvVoid''"
| "scv_tag (ScvBool _) = ''scvBool''"
| "scv_tag (ScvU32 _) = ''scvU32''"
| "scv_tag (ScvI32 _) = ''scvI32''"
| "scv_tag (ScvU64 _) = ''scvU64''"
| "scv_tag (ScvI64 _) = ''scvI64''"
| "scv_tag (ScvI128 _) = ''scvI128''"
| "scv_tag (ScvI128Parts _ _) = ''scvI128''"
| "scv_tag (ScvString _) = ''scvString''"
| "scv_tag (ScvSymbol _) = ''scvSymbol''"
| "scv_tag (ScvBytes _) = ''scvBytes''"
| "scv_tag (ScvVec _) = ''scvVec''"
| "scv_tag (ScvMap _) = ''scvMap''"
| "scv_tag (ScvOther t _) = t"

section \<open>The decoders of scval.ts, which fall back to a default\<close>

fun decodeI128 :: "scval \<Rightarrow> int" where
  "decodeI128 (ScvI128 n) = n"
| "decodeI128 (ScvI128Parts hi lo) = push_bit 64 hi + lo"
| "decodeI128 _ = 0"

fun decodeU32 :: "scval \<Rightarrow> int" where
  "decodeU32 (ScvU32 n) = n"
| "decodeU32 _ = 0"

fun decodeU64 :: "scval \<Rightarrow> int" where
  "decodeU64 (ScvU64 n) = n"
| "decodeU64 _ = 0"

fun decodeI32 :: "scval \<Rightarrow> int" where
  "decodeI32 (ScvI32 n) = n"
| "decodeI32 _ = 0"

fun decodeI64 :: "scval \<Rightarrow> int" where
  "decodeI64 (ScvI64 n) = n"
| "decodeI64 _ = 0"

fun decodeBool :: "scval \<Rightarrow> bool option" where
  "decodeBool (ScvBool b) = Some b"
| "decodeBool _ = None"

fun key_text :: "scval \<Rightarrow> string option" where
  "key_text (ScvSymbol s) = Some s"
| "key_text (ScvString s) = Some s"
| "key_text _ = None"

definition getMapValue :: "(scval \<times> scval) list \<Rightarrow> string \<Rightarrow> scval option" where
  "getMapValue m key = map_option snd (List.find (\<lambda>(k, _). key_text k = Some key) m)"

definition mapValue :: "scval \<Rightarrow> string \<Rightarrow> scval option" where
  "mapValue v key = (case v of ScvMap (Some m) \<Rightarrow> getMapValue m key | _ \<Rightarrow> None)"

section \<open>The strict decoders\<close>

text \<open>\<open>decodeI128\<close> of \<open>numeric.ts\<close> throws for another tag.\<close>

definition decodeI128_strict :: "scval \<Rightarrow> int result" where
  "decodeI128_strict v = (case v of
       ScvI128 n \<Rightarrow> Inr n
     | ScvI128Parts hi lo \<Rightarrow> Inr (push_bit 64 hi + lo)
     | _ \<Rightarrow> Inl (ValidationError (''Expected i128 ScVal, got '' @ scv_tag v)))"

definition parsing_error :: "string \<Rightarrow> sdk_error" where
  "parsing_error m = CoralSwapSDKError ''PARSING_ERROR'' m"

definition scValToString :: "scval option \<Rightarrow> string result" where
  "scValToString val = (case val of
       None \<Rightarrow> Inl (parsing_error ''Missing field'')
     | Some (ScvString s) \<Rightarrow> Inr s | Some (ScvSymbol s) \<Rightarrow> Inr s | Some (ScvBytes s) \<Rightarrow> Inr s
     | Some v \<Rightarrow> Inl (parsing_error (''Expected string/symbol/bytes, got '' @ scv_tag v)))"

definition scValToNumber :: "scval option \<Rightarrow> int result" where
  "scValToNumber val = (case val of
       None \<Rightarrow> Inl (parsing_error ''Missing field'')
     | Some (ScvU32 n) \<Rightarrow> Inr n | Some (ScvU64 n) \<Rightarrow> Inr n | Some (ScvI32 n) \<Rightarrow> Inr n
     | Some (ScvI64 n) \<Rightarrow> Inr n
     | Some v \<Rightarrow> Inl (parsing_error (''Expected number type, got '' @ scv_tag v)))"

definition scValToOptionalNumber :: "scval option \<Rightarrow> int option result" where
  "scValToOptionalNumber val = (case val of
       None \<Rightarrow> Inr None | Some ScvVoid \<Rightarrow> Inr None
     | Some v \<Rightarrow> map_sum id Some (scValToNumber (Some v)))"

definition scValToBigInt :: "scval option \<Rightarrow> int result" where
  "scValToBigInt val = (case val of
       None \<Rightarrow> Inl (parsing_error ''Missing field'')
     | Some v \<Rightarrow> if scv_tag v = ''scvI128''
         then map_sum (\<lambda>e. parsing_error (''Invalid i128: '' @ err_message e)) id (decodeI128_strict v)
         else (case v of ScvU64 n \<Rightarrow> Inr n | ScvI64 n \<Rightarrow> Inr n | ScvU32 n \<Rightarrow> Inr n | ScvI32 n \<Rightarrow> Inr n
           | _ \<Rightarrow> Inl (parsing_error (''Expected bigint type, got '' @ scv_tag v))))"

text \<open>The fields of a map by the text of their keys; a later entry replaces an earlier one, and a
  key that is no text is skipped.\<close>

definition scMapToRecord :: "(scval \<times> scval) list \<Rightarrow> (string \<rightharpoonup> scval)" where
  "scMapToRecord m = foldl (\<lambda>fields (k, v). case key_text k of
       None \<Rightarrow> fields | Some s \<Rightarrow> fields(s \<mapsto> v)) Map.empty m"

definition scValToStringVec :: "scval option \<Rightarrow> string list result" where
  "scValToStringVec val = (case val of
       None \<Rightarrow> Inl (parsing_error ''Missing field'')
     | Some (ScvVec None) \<Rightarrow> Inr []
     | Some (ScvVec (Some vs)) \<Rightarrow> mapE (\<lambda>v. scValToString (Some v)) vs
     | Some _ \<Rightarrow> Inl (parsing_error ''Expected Vec''))"

text \<open>\<open>fields[snake] ?? fields[camel]\<close>\<close>

definition field :: "(string \<rightharpoonup> scval) \<Rightarrow> string \<Rightarrow> string \<Rightarrow> scval option" where
  "field fields snake camel = (case fields snake of Some v \<Rightarrow> Some v | None \<Rightarrow> fields camel)"

section \<open>The two halves of a 128-bit integer\<close>

text \<open>
  A 128-bit integer is passed as a signed high and an unsigned low 64-bit half. Decoding the
  halves of a word gives its signed value.
\<close>

theorem i128_parts_roundtrip:
  fixes x :: "128 word"
  shows "decodeI128 (ScvI128Parts (sint (ucast (drop_bit 64 x) :: 64 word)) (uint (ucast x :: 64 word))) = sint x"
proof -
  define hi lo :: "64 word" where "hi = ucast (drop_bit 64 x)" and "lo = ucast x"
  have "push_bit 64 (sint hi) + uint lo = or (push_bit 64 (sint hi)) (uint lo)"
    by (rule disjunctive_add) (auto simp: bit_simps dest: bit_imp_le_length)
  also have "\<dots> = sint x"
    by (rule bit_eqI) (auto simp: bit_simps hi_def lo_def min_def not_less dest: bit_imp_le_length)
  finally show ?thesis by (simp add: hi_def lo_def)
qed

end
