(* ===== verification/Validation.thy ===== *)
theory Validation
  imports JsNum "HOL-Library.Char_ord" "HOL-Library.List_Lexorder"
begin

text \<open>
  Input checks and address helpers: \<open>utils/validation.ts\<close>, \<open>utils/addresses.ts\<close>, \<open>utils/gas.ts\<close>.
  The key checks of the Stellar SDK, its hash and the printing of dates are parameters.
\<close>

section \<open>validation.ts\<close>

definition validateAddress :: "(string \<Rightarrow> bool) \<Rightarrow> string \<Rightarrow> string \<Rightarrow> unit result" where
  "validateAddress isValidAddress address name =
    (if trim address = [] then Inl (ValidationError (name @ '' must not be empty''))
     else throw_if (\<not> isValidAddress address)
       (ValidationError (name @ '' is not a valid Stellar address: '' @ address)))"

text \<open>A date is the value of its \<open>getTime\<close>, \<open>None\<close> for an invalid one.\<close>

definition validateDateRange :: "(int \<Rightarrow> string) \<Rightarrow> int \<Rightarrow> int option option \<Rightarrow> int option option \<Rightarrow> unit result" where
  "validateDateRange isoText now fromDate toDate =
    (let check = (\<lambda>nm d. case d of None \<Rightarrow> Inr ()
       | Some None \<Rightarrow> Inl (ValidationError (nm @ '' must be a valid Date, got Invalid Date''))
       | Some (Some t) \<Rightarrow> throw_if (now < t)
           (ValidationError (nm @ '' must not be in the future, got '' @ isoText t)))
     in bindE (check ''fromDate'' fromDate) (\<lambda>_. bindE (check ''toDate'' toDate) (\<lambda>_.
       case (fromDate, toDate) of
         (Some (Some f), Some (Some t)) \<Rightarrow> throw_if (t \<le> f) (ValidationError
           (''fromDate must be earlier than toDate, got fromDate='' @ isoText f @ '' and toDate='' @ isoText t))
       | _ \<Rightarrow> Inr ())))"

definition MAX_LIMIT :: int where "MAX_LIMIT = 1000"

definition validateLimit :: "(rat \<Rightarrow> string) \<Rightarrow> rat option \<Rightarrow> string \<Rightarrow> unit result" where
  "validateLimit numText given name = (case given of None \<Rightarrow> Inr ()
     | Some n \<Rightarrow> throw_if (n \<noteq> of_int \<lfloor>n\<rfloor> \<or> n \<le> 0 \<or> of_int MAX_LIMIT < n)
         (ValidationError (name @ '' must be a positive integer no greater than '' @ int_str MAX_LIMIT @
            '', got '' @ numText n)))"

definition validatePositiveAmount :: "int \<Rightarrow> string \<Rightarrow> unit result" where
  "validatePositiveAmount amount name = throw_if (amount \<le> 0)
     (ValidationError (name @ '' must be greater than 0, got '' @ int_str amount))"

definition validateNonNegativeAmount :: "int \<Rightarrow> string \<Rightarrow> unit result" where
  "validateNonNegativeAmount amount name = throw_if (amount < 0)
     (ValidationError (name @ '' must be non-negative, got '' @ int_str amount))"

definition validateSlippage :: "(rat \<Rightarrow> string) \<Rightarrow> rat \<Rightarrow> unit result" where
  "validateSlippage numText bps = throw_if (bps < 0 \<or> 5000 < bps)
     (ValidationError (''Slippage must be between 0 and 5000 bps, got '' @ numText bps))"

definition validateDistinctTokens :: "string \<Rightarrow> string \<Rightarrow> unit result" where
  "validateDistinctTokens tokenIn tokenOut = throw_if (tokenIn = tokenOut)
     (ValidationError ''tokenIn and tokenOut must be different addresses'')"

definition validateStringLength :: "string \<Rightarrow> string \<Rightarrow> int \<Rightarrow> int \<Rightarrow> unit result" where
  "validateStringLength v name lo hi = (let n = int (length (trim v)) in
     if n < lo then Inl (ValidationError
       (name @ '' must be at least '' @ int_str lo @ '' character(s), got '' @ int_str n))
     else throw_if (hi < n) (ValidationError
       (name @ '' must be at most '' @ int_str hi @ '' character(s), got '' @ int_str n)))"

fun join_str :: "string \<Rightarrow> string list \<Rightarrow> string" where
  "join_str sep [] = []"
| "join_str sep [s] = s"
| "join_str sep (s # t # ss) = s @ sep @ join_str sep (t # ss)"

definition validateEnumValue :: "string \<Rightarrow> string \<Rightarrow> string list \<Rightarrow> unit result" where
  "validateEnumValue v name allowed = throw_if (\<not> List.member allowed v)
     (ValidationError (name @ '' must be one of: '' @ join_str '', '' allowed @ '', got: '' @ v))"

definition isValidPath :: "string list \<Rightarrow> bool" where
  "isValidPath path \<longleftrightarrow> 2 \<le> length path \<and>
     list_all (\<lambda>i. path ! i \<noteq> path ! Suc i) [0..<length path - 1]"

section \<open>addresses.ts\<close>

definition isValidAddress :: "(string \<Rightarrow> bool) \<Rightarrow> (string \<Rightarrow> bool) \<Rightarrow> string \<Rightarrow> bool" where
  "isValidAddress isKey isContract address \<longleftrightarrow> isKey address \<or> isContract address"

definition isNativeToken :: "(string \<Rightarrow> bool) \<Rightarrow> string \<Rightarrow> bool" where
  "isNativeToken valid identifier =
    (let normalized = trim identifier; up = to_upper normalized
     in normalized \<noteq> [] \<and> \<not> valid up \<and> (up = ''XLM'' \<or> up = ''NATIVE''))"

definition resolveTokenIdentifier :: "(string \<Rightarrow> bool) \<Rightarrow> (string \<Rightarrow> string) \<Rightarrow> string \<Rightarrow> string \<Rightarrow> string" where
  "resolveTokenIdentifier valid nativeContract identifier passphrase =
    (if isNativeToken valid identifier then nativeContract passphrase else identifier)"

text \<open>Strings compare by code units.\<close>

definition sortTokens :: "string \<Rightarrow> string \<Rightarrow> (string \<times> string) result" where
  "sortTokens tokenA tokenB = (if tokenA = tokenB then Inl (JsError ''Identical tokens'')
     else Inr (if tokenA < tokenB then (tokenA, tokenB) else (tokenB, tokenA)))"

text \<open>\<open>slice(-k)\<close> takes the last \<open>k\<close> characters, and all of them when \<open>k\<close> is 0.\<close>

definition slice_end :: "nat \<Rightarrow> string \<Rightarrow> string" where
  "slice_end k s = (if k = 0 then s else drop (length s - k) s)"

definition truncateAddress :: "string \<Rightarrow> nat \<Rightarrow> string" where
  "truncateAddress address chars = (if length address \<le> chars * 2 + 3 then address
     else take chars address @ ''...'' @ slice_end chars address)"

text \<open>\<open>derive\<close> stands for the hashing of the factory, the ordered tokens and the network.\<close>

definition derivePairAddress :: "(string \<Rightarrow> string \<Rightarrow> string \<Rightarrow> string \<Rightarrow> string) \<Rightarrow>
    string \<Rightarrow> string \<Rightarrow> string \<Rightarrow> string \<Rightarrow> string result" where
  "derivePairAddress derive factory tokenA tokenB passphrase =
     bindE (sortTokens tokenA tokenB) (\<lambda>(token0, token1). Inr (derive factory token0 token1 passphrase))"

section \<open>gas.ts\<close>

definition parseStroops :: "string option \<Rightarrow> int" where
  "parseStroops raw = (let trimmed = trim (case raw of None \<Rightarrow> [] | Some s \<Rightarrow> s)
     in if trimmed = [] \<or> \<not> list_all is_digit trimmed then 0 else int (parse_nat trimmed))"

definition formatStroopsAsXLM :: "int \<Rightarrow> string" where
  "formatStroopsAsXLM stroops = (let a = (if stroops < 0 then - stroops else stroops);
      scaled = (a + 50) sdiv 100
    in (if stroops < 0 then ''-'' else []) @ int_str (scaled sdiv 100000) @ ''.'' @
       pad_start 5 (int_str (scaled smod 100000)) @ '' XLM'')"

record gas_estimate =
  gasFee :: int
  feeRaw :: string
  feeXLM :: string

text \<open>\<open>sim\<close> is the simulation's success, error and minimal resource fee.\<close>

definition estimateGas :: "bool \<times> string option \<times> string option \<Rightarrow> gas_estimate result" where
  "estimateGas sim = (case sim of (ok, err, minFee) \<Rightarrow>
     if \<not> ok then Inl (SimulationError (case err of None \<Rightarrow> ''Simulation failed'' | Some m \<Rightarrow> m))
     else (let fee = parseStroops minFee in
       Inr \<lparr>gasFee = fee, feeRaw = int_str fee, feeXLM = formatStroopsAsXLM fee\<rparr>))"

section \<open>Properties\<close>

lemma isValidPath_iff:
  "isValidPath path \<longleftrightarrow> 2 \<le> length path \<and> (\<forall>i. Suc i < length path \<longrightarrow> path ! i \<noteq> path ! Suc i)"
  by (auto simp: isValidPath_def list_all_iff)

text \<open>The order in which two tokens are given never matters: they sort to the same pair, in which the
  first is smaller, and the derived pair address is the same.\<close>

theorem sortTokens_canonical:
  "sortTokens a b = sortTokens b a \<and> derivePairAddress d f a b n = derivePairAddress d f b a n \<and>
   (sortTokens a b = Inr (x, y) \<longleftrightarrow> x < y \<and> {x, y} = {a, b})"
  by (auto simp: sortTokens_def derivePairAddress_def doubleton_eq_iff)

text \<open>A truncated address keeps the ends and has exactly \<open>2 * chars + 3\<close> characters, for a positive
  \<open>chars\<close>. With 0 the whole address is appended after the dots.\<close>

theorem truncateAddress_length:
  "length (truncateAddress a k) = (if length a \<le> 2 * k + 3 then length a
     else if k = 0 then length a + 3 else 2 * k + 3)"
  by (auto simp: truncateAddress_def slice_end_def)

theorem truncateAddress_zero: "3 < length a \<Longrightarrow> truncateAddress a 0 = ''...'' @ a"
  by (simp add: truncateAddress_def slice_end_def)

text \<open>A date range passes exactly when both dates are valid, in order, and not in the future.\<close>

theorem validateDateRange_iff:
  "validateDateRange isoText now (Some f) (Some t) = Inr () \<longleftrightarrow>
   (\<exists>a b. f = Some a \<and> t = Some b \<and> a < b \<and> b \<le> now)"
  by (cases f; cases t) (auto simp: validateDateRange_def Let_def throw_if_def)

text \<open>The printed XLM amount has five decimals and is off the stroops by at most half of the last
  one; halves are rounded away from zero.\<close>

theorem formatStroopsAsXLM_rounds:
  "\<exists>w f. formatStroopsAsXLM n = (if n < 0 then ''-'' else []) @ nat_str w @ ''.'' @ f @ '' XLM'' \<and>
     length f = 5 \<and> (\<forall>c \<in> set f. is_digit c) \<and>
     \<bar>n\<bar> - 50 < 100 * int (w * 100000 + parse_nat f) \<and> 100 * int (w * 100000 + parse_nat f) \<le> \<bar>n\<bar> + 50"
proof -
  define s where "s = (\<bar>n\<bar> + 50) div 100"
  have s: "0 \<le> s" "\<bar>n\<bar> - 50 < 100 * s" "100 * s \<le> \<bar>n\<bar> + 50" unfolding s_def by linarith+
  let ?w = "nat (s div 100000)" and ?f = "pad_start 5 (nat_str (nat (s mod 100000)))"
  have m: "nat (s mod 100000) < 10 ^ 5" using s(1) by (simp add: nat_less_iff)
  have len: "length (nat_str (nat (s mod 100000))) \<le> 5" using nat_str_length[OF m] by simp
  have neg: "(x mod 100000 < 0) = False" for x :: int by (simp add: not_less)
  have "formatStroopsAsXLM n = (if n < 0 then ''-'' else []) @ nat_str ?w @ ''.'' @ ?f @ '' XLM''"
    using s(1) by (simp add: formatStroopsAsXLM_def Let_def bigint_simps s_def int_str_def abs_if not_less
        pos_imp_zdiv_nonneg_iff neg)
  moreover have "length ?f = 5" using len by simp
  moreover have "\<forall>c \<in> set ?f. is_digit c" by (rule pad_start_digits[OF nat_str_digits])
  moreover have "int (?w * 100000 + parse_nat ?f) = s"
    using s(1) by (simp add: decimal_simps pos_imp_zdiv_nonneg_iff)
  ultimately show ?thesis using s by metis
qed

end
