(* ===== verification/LimitOrders.thy ===== *)
theory LimitOrders
  imports ScVal Validation Submission
begin

text \<open>
  \<open>modules/limit-orders.ts\<close>: limit orders held by a contract. The module keeps no state of its own;
  the state is the contract's, read by simulations, and changed by submissions. The record
  \<open>limit_env\<close> holds what the module calls: the RPC server, the client, the key check, the clock.
  A simulation answers \<open>None\<close> when it does not succeed or has no result.
\<close>

section \<open>Orders and their parsing\<close>

datatype order_state = Open | Partial | Filled | Cancelled | Expired

record order_status =
  state :: order_state
  fillPercent :: int
  executionPrice :: "int option"
  filledAt :: "int option"

record order_details =
  o_id :: string
  status :: order_status
  amountFilled :: int
  amountRemaining :: int
  createdAt :: int

record order_params =
  p_tokenIn :: string
  p_tokenOut :: string
  p_amountIn :: int
  p_targetPrice :: "rat option"
  p_expiry :: rat
  p_pairAddress :: string

definition state_names :: "(string \<times> order_state) list" where
  "state_names = [(''open'', Open), (''partial'', Partial), (''filled'', Filled),
     (''cancelled'', Cancelled), (''expired'', Expired)]"

definition parseCancelResult :: "scval \<Rightarrow> (int \<times> int) result" where
  "parseCancelResult v = (case v of
       ScvMap (Some m) \<Rightarrow> (let fm = scMapToRecord m in
         bindE (scValToBigInt (field fm ''refunded_amount'' ''refundedAmount'')) (\<lambda>refunded.
         bindE (scValToBigInt (field fm ''filled_amount'' ''filledAmount'')) (\<lambda>filled.
           Inr (refunded, filled))))
     | _ \<Rightarrow> Inl (parsing_error ''Invalid cancel result: expected ScMap''))"

text \<open>The status fields, shared by both parsers, which read them in the same order.\<close>

definition parseStatusFields :: "(string \<rightharpoonup> scval) \<Rightarrow> order_status result" where
  "parseStatusFields fm =
    bindE (map_sum id to_lower (scValToString (fm ''state''))) (\<lambda>stateStr.
    case map_of state_names stateStr of
      None \<Rightarrow> Inl (parsing_error (''Invalid order state: '' @ stateStr))
    | Some st \<Rightarrow>
       bindE (scValToNumber (field fm ''fill_percent'' ''fillPercent'')) (\<lambda>pct.
       bindE (throw_if (pct < 0 \<or> 100 < pct) (parsing_error (''Invalid fillPercent: '' @ int_str pct))) (\<lambda>_.
       bindE (scValToOptionalNumber (field fm ''execution_price'' ''executionPrice'')) (\<lambda>price.
       bindE (scValToOptionalNumber (field fm ''filled_at'' ''filledAt'')) (\<lambda>filled.
         Inr \<lparr>state = st, fillPercent = pct, executionPrice = price, filledAt = filled\<rparr>)))))"

definition parseOrderStatus :: "scval \<Rightarrow> order_status result" where
  "parseOrderStatus v = (case v of
       ScvMap (Some m) \<Rightarrow> parseStatusFields (scMapToRecord m)
     | _ \<Rightarrow> Inl (parsing_error ''Invalid order status: expected ScMap''))"

definition parseOrderDetails :: "scval \<Rightarrow> order_details result" where
  "parseOrderDetails v = (case v of
       ScvMap (Some m) \<Rightarrow> (let fm = scMapToRecord m in
         bindE (scValToString (fm ''id'')) (\<lambda>i.
         bindE (parseStatusFields fm) (\<lambda>st.
         bindE (scValToBigInt (field fm ''amount_filled'' ''amountFilled'')) (\<lambda>filled.
         bindE (scValToBigInt (field fm ''amount_remaining'' ''amountRemaining'')) (\<lambda>remaining.
         bindE (scValToNumber (field fm ''created_at'' ''createdAt'')) (\<lambda>created.
           Inr \<lparr>o_id = i, status = st, amountFilled = filled, amountRemaining = remaining,
                createdAt = created\<rparr>))))))
     | _ \<Rightarrow> Inl (parsing_error ''Invalid order details: expected ScMap''))"

section \<open>Input validation\<close>

text \<open>
  The first issue of the schema. A target price that is no finite number is \<open>None\<close>; \<open>nowSec\<close> is
  the clock in seconds.
\<close>

definition MAX_TARGET_PRICE :: rat where "MAX_TARGET_PRICE = 1000000"

definition validateOrderId :: "string \<Rightarrow> string result" where
  "validateOrderId i = (if trim i = [] then Inl (ValidationError ''orderId must be a non-empty string'') else Inr i)"

definition validateLimitOrderParams :: "(string \<Rightarrow> bool) \<Rightarrow> int \<Rightarrow> order_params \<Rightarrow> order_params result" where
  "validateLimitOrderParams valid nowSec p =
    bindE (case p_targetPrice p of None \<Rightarrow> Inl (ValidationError ''targetPrice must be positive'')
      | Some t \<Rightarrow> if t \<le> 0 then Inl (ValidationError ''targetPrice must be positive'')
          else throw_if (MAX_TARGET_PRICE < t)
            (ValidationError ''targetPrice exceeds maximum allowed range (1,000,000)'')) (\<lambda>_.
    bindE (throw_if (p_expiry p \<le> of_int nowSec)
      (ValidationError ''expiry must be a Unix timestamp in the future'')) (\<lambda>_.
    bindE (validateAddress valid (p_tokenIn p) ''tokenIn'') (\<lambda>_.
    bindE (validateAddress valid (p_tokenOut p) ''tokenOut'') (\<lambda>_.
    bindE (validateAddress valid (p_pairAddress p) ''pairAddress'') (\<lambda>_.
    bindE (validatePositiveAmount (p_amountIn p) ''amountIn'') (\<lambda>_.
    bindE (validateDistinctTokens (p_tokenIn p) (p_tokenOut p)) (\<lambda>_. Inr p)))))))"

definition validateSigner :: "(string \<Rightarrow> bool) \<Rightarrow> string option \<Rightarrow> unit result" where
  "validateSigner valid signer = (case signer of None \<Rightarrow> Inr () | Some s \<Rightarrow> validateAddress valid s ''signer'')"

section \<open>The module's surroundings\<close>

datatype limit_call =
    StatusCall string
  | CancelCall string string
  | CreateOrderCall order_params string
  | GetOrderCall string
  | OrdersForUserCall string

record 'w limit_env =
  getAccount :: "('w, thrown, unit) act"
  simulate :: "limit_call \<Rightarrow> ('w, thrown, scval option) act"
  getTransaction :: "'w rpc"
  submitTransaction :: "limit_call list \<Rightarrow> ('w, thrown, sdk_result) act"
  sleep :: "rat \<Rightarrow> 'w \<Rightarrow> 'w"
  nowSec :: "'w \<Rightarrow> int"
  validKey :: "string \<Rightarrow> bool"
  pairLookup :: "(string \<Rightarrow> string \<Rightarrow> ('w, thrown, string option) act) option"
  ownKey :: string
  retryOpts :: retry_options

definition limitRetryOptions :: "int option \<Rightarrow> rat option \<Rightarrow> rat option \<Rightarrow> retry_options" where
  "limitRetryOptions retries delay maxDelay =
     \<lparr>maxRetries = (case retries of None \<Rightarrow> 3 | Some n \<Rightarrow> n), baseDelayMs = None,
      retryDelayMs = Some (case delay of None \<Rightarrow> 1000 | Some d \<Rightarrow> d), backoffMultiplier = None,
      maxDelayMs = None, maxRetryDelayMs = Some (case maxDelay of None \<Rightarrow> 30000 | Some d \<Rightarrow> d),
      deadlineMs = None, circuitBreaker = None\<rparr>"

text \<open>The contract address the constructor settles on.\<close>

definition limitContract :: "(string \<Rightarrow> bool) \<Rightarrow> string option \<Rightarrow> string option \<Rightarrow> string result" where
  "limitContract valid given configured =
    bindE (case given of None \<Rightarrow> Inr () | Some a \<Rightarrow> validateAddress valid a ''contractAddress'') (\<lambda>_.
     let address = orElse given configured in
     if truthy address then Inr (the address)
     else Inl (CoralSwapSDKError ''VALIDATION_ERROR'' (''Limit order contract address is required. Provide one ''
       @ ''in the constructor or configure limitOrderAddress in the network config.'')))"

section \<open>Reading orders\<close>

text \<open>Every read fetches the account, then simulates, each with the module's retry options.\<close>

definition simulateCall :: "('x host_scheme) limit_env \<Rightarrow> string \<Rightarrow> string \<Rightarrow> limit_call \<Rightarrow>
    ('x host_scheme, thrown, scval option) act" where
  "simulateCall e lblAccount lblSimulate call =
     bindW (withRetry (sleep e) (getAccount e) (retryOpts e) lblAccount) (\<lambda>_.
       withRetry (sleep e) (simulate e call) (retryOpts e) lblSimulate)"

definition orFail :: "string \<Rightarrow> (scval \<Rightarrow> 'a result) \<Rightarrow> scval option \<Rightarrow> ('w, thrown, 'a) act" where
  "orFail message parse r = (case r of
       None \<Rightarrow> throwW (Sdk (CoralSwapSDKError ''SIMULATION_ERROR'' message))
     | Some v \<Rightarrow> liftW (parse v))"

definition getLimitOrderStatus :: "('x host_scheme) limit_env \<Rightarrow> string \<Rightarrow>
    ('x host_scheme, thrown, order_status) act" where
  "getLimitOrderStatus e orderId =
     bindW (liftW (validateOrderId orderId)) (\<lambda>i.
     bindW (simulateCall e ''LimitOrderModule_getAccount'' ''LimitOrderModule_simulate'' (StatusCall i))
       (orFail ''Failed to read order status: simulation did not succeed'' parseOrderStatus))"

definition getLimitOrder :: "('x host_scheme) limit_env \<Rightarrow> string \<Rightarrow>
    ('x host_scheme, thrown, order_details) act" where
  "getLimitOrder e orderId =
     bindW (liftW (validateOrderId orderId)) (\<lambda>i.
     bindW (simulateCall e ''LimitOrderModule_getOrder_getAccount'' ''LimitOrderModule_getOrder_simulate'' (GetOrderCall i))
       (orFail (''Failed to read order '' @ i @ '': simulation did not succeed'') parseOrderDetails))"

text \<open>The orders of \<open>Promise.all\<close> are fetched in index order here.\<close>

fun mapW :: "('a \<Rightarrow> ('w, 'e, 'b) act) \<Rightarrow> 'a list \<Rightarrow> ('w, 'e, 'b list) act" where
  "mapW f [] = retW []"
| "mapW f (x # xs) = bindW (f x) (\<lambda>y. bindW (mapW f xs) (\<lambda>ys. retW (y # ys)))"

definition activeOrder :: "order_details \<Rightarrow> bool" where
  "activeOrder d \<longleftrightarrow> state (status d) \<in> {Open, Partial}"

definition getOpenOrders :: "('x host_scheme) limit_env \<Rightarrow> string \<Rightarrow>
    ('x host_scheme, thrown, order_details list) act" where
  "getOpenOrders e address =
     bindW (liftW (validateAddress (validKey e) address ''address'')) (\<lambda>_.
     bindW (simulateCall e ''LimitOrderModule_openOrders_getAccount'' ''LimitOrderModule_openOrders_simulate''
        (OrdersForUserCall address)) (\<lambda>r.
     bindW (orFail (''Failed to fetch orders for '' @ address @ '': simulation did not succeed'')
        (\<lambda>v. scValToStringVec (Some v)) r) (\<lambda>ids.
     bindW (mapW (getLimitOrder e) ids) (\<lambda>orders. retW (filter activeOrder orders)))))"

section \<open>Submitting without doing it twice\<close>

definition ORDER_MISSING_CODES :: "string list" where
  "ORDER_MISSING_CODES = [''SIMULATION_ERROR'', ''ORDER_NOT_FOUND'']"

definition isOrderMissingCode :: "string \<Rightarrow> bool" where
  "isOrderMissingCode code = List.member ORDER_MISSING_CODES code"

definition orderExists :: "('x host_scheme) limit_env \<Rightarrow> string \<Rightarrow> ('x host_scheme, thrown, bool) act" where
  "orderExists e orderId w = (case getLimitOrderStatus e orderId w of
       (Inr _, w') \<Rightarrow> (Inr True, w')
     | (Inl err, w') \<Rightarrow>
         (case err of Sdk s \<Rightarrow> (case err_code s of
              Some c \<Rightarrow> if isOrderMissingCode c then (Inr False, w') else (Inl err, w')
            | None \<Rightarrow> (Inl err, w'))
          | _ \<Rightarrow> (Inl err, w')))"

datatype submission_outcome = Landed | NotLanded | FailedOnChain

definition classifyFailedSubmission :: "'w rpc \<Rightarrow> string option \<Rightarrow> ('w, thrown, bool) act \<Rightarrow>
    ('w, thrown, submission_outcome) act" where
  "classifyFailedSubmission get txHash landed w =
    (let byContract = bindW landed (\<lambda>b. retW (if b then Landed else NotLanded))
     in if \<not> truthy txHash then byContract w
     else (case getTransactionStatus get (the txHash) w of (st, w1) \<Rightarrow>
       case shouldRetrySubmission st None of
         Inl e \<Rightarrow> (Inl (Sdk e), w1)
       | Inr (shouldRetry, _) \<Rightarrow>
           if \<not> shouldRetry
           then (Inr (case st of SUCCESS _ _ \<Rightarrow> Landed | _ \<Rightarrow> FailedOnChain), w1)
           else if st = NOT_FOUND then (Inr NotLanded, w1)
           else byContract w1))"

text \<open>The error object of a result, as \<open>isRetryable\<close> reads it.\<close>

definition result_error :: "sdk_result \<Rightarrow> thrown" where
  "result_error r = (case res_error r of None \<Rightarrow> Undefined
     | Some (c, m) \<Rightarrow> Rejected None (Some c) (Some m) ''[object Object]'')"

definition MAX_IDEMPOTENT_RESUBMISSIONS :: nat where "MAX_IDEMPOTENT_RESUBMISSIONS = 2"

definition DEFAULT_RESUBMIT_DELAY_MS :: rat where "DEFAULT_RESUBMIT_DELAY_MS = 2000"

text \<open>\<open>k\<close> resubmissions are left.\<close>

fun submitOrderLoop :: "'w rpc \<Rightarrow> (rat \<Rightarrow> 'w \<Rightarrow> 'w) \<Rightarrow> rat \<Rightarrow> ('w, thrown, sdk_result) act \<Rightarrow> string \<Rightarrow>
    ('w, thrown, bool) act \<Rightarrow> nat \<Rightarrow> ('w, thrown, string option) act" where
  "submitOrderLoop get slp delay submit msg landed k w = (case submit w of
       (Inl e, w1) \<Rightarrow> (Inl e, w1)
     | (Inr r, w1) \<Rightarrow>
        let failure = Inl (Sdk (CoralSwapSDKError ''TRANSACTION_ERROR''
              (msg @ '': '' @ error_message_or r ''Unknown error''))) in
        if success r \<and> res_data r \<noteq> None then (Inr (Some (fst (the (res_data r)))), w1)
        else if \<not> truthy (res_txHash r) \<and> \<not> isRetryable (result_error r) then (failure, w1)
        else (case classifyFailedSubmission get (res_txHash r) landed w1 of
            (Inl e, w2) \<Rightarrow> (Inl e, w2)
          | (Inr outcome, w2) \<Rightarrow>
              if outcome = Landed then (Inr None, w2)
              else if outcome = FailedOnChain \<or> k = 0 then (failure, w2)
              else submitOrderLoop get slp delay submit msg landed (k - 1) (slp delay w2)))"

declare submitOrderLoop.simps [simp del]

definition submitOrder :: "('x host_scheme) limit_env \<Rightarrow> limit_call list \<Rightarrow> string \<Rightarrow>
    ('x host_scheme, thrown, bool) act \<Rightarrow> ('x host_scheme, thrown, string option) act" where
  "submitOrder e ops msg landed = submitOrderLoop (getTransaction e) (sleep e)
     (case retryDelayMs (retryOpts e) of None \<Rightarrow> DEFAULT_RESUBMIT_DELAY_MS | Some d \<Rightarrow> d)
     (submitTransaction e ops) msg landed MAX_IDEMPOTENT_RESUBMISSIONS"

section \<open>Placing and cancelling\<close>

definition buildCancelOperation :: "('x host_scheme) limit_env \<Rightarrow> string \<Rightarrow> string option \<Rightarrow>
    ('x host_scheme, thrown, limit_call \<times> int \<times> int) act" where
  "buildCancelOperation e orderId signer =
     bindW (liftW (validateOrderId orderId)) (\<lambda>i.
     bindW (liftW (validateSigner (validKey e) signer)) (\<lambda>_.
     bindW (getLimitOrderStatus e i) (\<lambda>st.
     case state st of
       Cancelled \<Rightarrow> throwW (Sdk (OrderNotFoundError i))
     | Filled \<Rightarrow> throwW (Sdk (InvalidOperationError (''Order '' @ i @ '' is already filled'')))
     | Expired \<Rightarrow> throwW (Sdk (InvalidOperationError (''Order '' @ i @ '' has expired'')))
     | _ \<Rightarrow>
        (let op = CancelCall i (case signer of None \<Rightarrow> ownKey e | Some s \<Rightarrow> s) in
         bindW (simulateCall e ''LimitOrderModule_cancel_getAccount'' ''LimitOrderModule_cancel_simulate'' op) (\<lambda>r.
         bindW (orFail (''Failed to cancel order '' @ i @ '': simulation did not succeed'') parseCancelResult r)
           (\<lambda>(refunded, filled). retW (op, refunded, filled)))))))"

record cancel_result =
  refundedAmount :: int
  filledAmount :: int
  refundTxHash :: string

definition hash_or_empty :: "string option \<Rightarrow> string" where
  "hash_or_empty h = (case h of None \<Rightarrow> [] | Some s \<Rightarrow> s)"

definition isCancelled :: "('x host_scheme) limit_env \<Rightarrow> string \<Rightarrow> ('x host_scheme, thrown, bool) act" where
  "isCancelled e orderId = bindW (getLimitOrderStatus e orderId) (\<lambda>st. retW (state st = Cancelled))"

definition cancelLimitOrder :: "('x host_scheme) limit_env \<Rightarrow> string \<Rightarrow> string option \<Rightarrow>
    ('x host_scheme, thrown, cancel_result) act" where
  "cancelLimitOrder e orderId signer =
     bindW (buildCancelOperation e orderId signer) (\<lambda>(op, refunded, filled).
     bindW (submitOrder e [op] (''Failed to cancel order '' @ orderId) (isCancelled e orderId)) (\<lambda>h.
       retW \<lparr>refundedAmount = refunded, filledAmount = filled, refundTxHash = hash_or_empty h\<rparr>))"

definition checkPair :: "('x host_scheme) limit_env \<Rightarrow> order_params \<Rightarrow> ('x host_scheme, thrown, unit) act" where
  "checkPair e p = (case pairLookup e of
       None \<Rightarrow> retW ()
     | Some lookup \<Rightarrow> bindW (lookup (p_tokenIn p) (p_tokenOut p)) (\<lambda>onChain.
         if \<not> truthy onChain \<or> the onChain \<noteq> p_pairAddress p
         then throwW (Sdk (ValidationError (''Pair address '' @ p_pairAddress p @
           '' does not exist on-chain or does not match tokens '' @ p_tokenIn p @ '' and '' @ p_tokenOut p)))
         else retW ()))"

definition buildPlaceOperation :: "('x host_scheme) limit_env \<Rightarrow> order_params \<Rightarrow> string option \<Rightarrow>
    ('x host_scheme, thrown, limit_call \<times> string) act" where
  "buildPlaceOperation e params signer w =
     bindW (liftW (validateLimitOrderParams (validKey e) (nowSec e w) params)) (\<lambda>p.
     bindW (liftW (validateSigner (validKey e) signer)) (\<lambda>_.
     bindW (checkPair e p) (\<lambda>_.
     let op = CreateOrderCall p (case signer of None \<Rightarrow> ownKey e | Some s \<Rightarrow> s) in
     bindW (simulateCall e ''LimitOrderModule_place_getAccount'' ''LimitOrderModule_place_simulate'' op) (\<lambda>r.
     bindW (orFail ''Failed to place limit order: simulation did not succeed'' (\<lambda>v. scValToString (Some v)) r)
       (\<lambda>orderId. retW (op, orderId)))))) w"

definition placeLimitOrder :: "('x host_scheme) limit_env \<Rightarrow> order_params \<Rightarrow> string option \<Rightarrow>
    ('x host_scheme, thrown, string) act" where
  "placeLimitOrder e params signer =
     bindW (buildPlaceOperation e params signer) (\<lambda>(op, orderId).
     bindW (submitOrder e [op] ''Failed to place limit order'' (orderExists e orderId)) (\<lambda>_. retW orderId))"

definition cancelAndReplaceLimitOrder :: "('x host_scheme) limit_env \<Rightarrow> string \<Rightarrow> order_params \<Rightarrow>
    string option \<Rightarrow> ('x host_scheme, thrown, cancel_result \<times> string) act" where
  "cancelAndReplaceLimitOrder e orderId newParams signer =
     bindW (buildCancelOperation e orderId signer) (\<lambda>(cancel, refunded, filled).
     bindW (buildPlaceOperation e newParams signer) (\<lambda>(place, newId).
     bindW (submitOrder e [cancel, place] (''Failed to cancel and replace order '' @ orderId)
       (orderExists e newId)) (\<lambda>h.
       retW (\<lparr>refundedAmount = refunded, filledAmount = filled, refundTxHash = hash_or_empty h\<rparr>, newId))))"

section \<open>What the parsers accept\<close>

definition status_ok :: "order_status \<Rightarrow> bool" where
  "status_ok st \<longleftrightarrow> 0 \<le> fillPercent st \<and> fillPercent st \<le> 100"

lemma parseStatusFields_ok: "parseStatusFields fm = Inr st \<Longrightarrow> status_ok st"
  by (auto simp: parseStatusFields_def status_ok_def result_simps split: option.splits if_splits)

text \<open>Whatever the contract returns, a status or an order that the module hands out has one of the five
  states and a fill between 0 and 100 percent.\<close>

theorem parsed_orders_well_formed:
  "(parseOrderStatus v = Inr st \<longrightarrow> status_ok st) \<and> (parseOrderDetails v = Inr d \<longrightarrow> status_ok (status d))"
  by (auto simp: parseOrderStatus_def parseOrderDetails_def Let_def result_simps
      split: scval.splits option.splits dest: parseStatusFields_ok)

lemma parsed_orders_well_formed_witness:
  "status_ok \<lparr>state = Open, fillPercent = 50, executionPrice = None, filledAt = None\<rparr>"
proof -
  have "parseOrderStatus (ScvMap (Some [(ScvSymbol ''state'', ScvString ''OPEN''), (ScvSymbol ''fillPercent'', ScvU32 50)]))
      = Inr \<lparr>state = Open, fillPercent = 50, executionPrice = None, filledAt = None\<rparr>" by code_simp
  from parsed_orders_well_formed[THEN conjunct1, rule_format, OF this] show ?thesis .
qed

text \<open>The map the contract returns for a status, and the text of a state.\<close>

fun state_text :: "order_state \<Rightarrow> string" where
  "state_text Open = ''open''" | "state_text Partial = ''partial''" | "state_text Filled = ''filled''"
| "state_text Cancelled = ''cancelled''" | "state_text Expired = ''expired''"

definition opt_scval :: "int option \<Rightarrow> scval" where
  "opt_scval n = (case n of None \<Rightarrow> ScvVoid | Some k \<Rightarrow> ScvU64 k)"

definition status_scval :: "order_status \<Rightarrow> scval" where
  "status_scval st = ScvMap (Some
     [(ScvSymbol ''execution_price'', opt_scval (executionPrice st)),
      (ScvSymbol ''fill_percent'', ScvU32 (fillPercent st)),
      (ScvSymbol ''filled_at'', opt_scval (filledAt st)),
      (ScvSymbol ''state'', ScvString (state_text (state st)))])"

lemma opt_scval_number: "scValToOptionalNumber (Some (opt_scval n)) = Inr n"
  by (cases n) (simp_all add: opt_scval_def scValToOptionalNumber_def scValToNumber_def)

lemma state_text_names: "map_of state_names (to_lower (state_text s)) = Some s"
  by (cases s) (simp_all add: state_names_def to_lower_def lower_char_def of_char_def)

text \<open>Parsing inverts the contract's encoding of every well-formed status.\<close>

theorem parseOrderStatus_roundtrip:
  assumes "status_ok st"
  shows "parseOrderStatus (status_scval st) = Inr st"
  using assms by (simp add: parseOrderStatus_def status_scval_def parseStatusFields_def scMapToRecord_def
      field_def status_ok_def opt_scval_number state_text_names scValToString_def scValToNumber_def)

lemma parseOrderStatus_roundtrip_witness:
  "parseOrderStatus (status_scval \<lparr>state = Partial, fillPercent = 40, executionPrice = Some 3, filledAt = None\<rparr>)
   = Inr \<lparr>state = Partial, fillPercent = 40, executionPrice = Some 3, filledAt = None\<rparr>"
  by (rule parseOrderStatus_roundtrip) (simp add: status_ok_def)

section \<open>Cancelling\<close>

text \<open>An order that is already cancelled, filled or expired is never cancelled again: the call fails
  with the error for its state, right after reading it, and nothing is simulated or submitted.\<close>

theorem cancel_needs_active_order:
  assumes "trim i \<noteq> []" and "validateSigner (validKey e) signer = Inr ()"
    and "getLimitOrderStatus e i w = (Inr st, w1)" and "state st \<notin> {Open, Partial}"
  shows "cancelLimitOrder e i signer w =
    (Inl (Sdk (if state st = Cancelled then OrderNotFoundError i
       else InvalidOperationError (''Order '' @ i @ (if state st = Filled then '' is already filled'' else '' has expired'')))), w1)"
  using assms by (cases "state st") (simp_all add: cancelLimitOrder_def buildCancelOperation_def bindW_def
      liftW_def throwW_def validateOrderId_def)

section \<open>Submitting at most once\<close>

text \<open>The contract-level check answers for whatever was sent: yes only when something has landed, no only
  when nothing has and nothing still can.\<close>

definition honest_orders ::
    "('w \<Rightarrow> string set) \<Rightarrow> ('w \<Rightarrow> string set) \<Rightarrow> ('w, thrown, bool) act \<Rightarrow> bool" where
  "honest_orders landed inflight check \<longleftrightarrow> (\<forall>w r w'. check w = (r, w') \<longrightarrow>
     settles landed inflight w w' \<and>
     (r = Inr True \<longrightarrow> landed w' \<noteq> {}) \<and> (r = Inr False \<longrightarrow> landed w' \<union> inflight w' = {}))"

lemma classify_honest:
  assumes "honest_status landed inflight get" and "honest_orders landed inflight check"
    and at: "at_most landed inflight h w" and hash: "truthy txHash \<Longrightarrow> the txHash = h"
    and cl: "classifyFailedSubmission get txHash check w = (c, w')"
  shows "at_most landed inflight h w' \<and> (c = Inr Landed \<longrightarrow> exactly landed h w') \<and>
    (c = Inr NotLanded \<longrightarrow> landed w' \<union> inflight w' = {})"
proof (cases "truthy txHash")
  case False
  obtain b w2 where b: "check w = (b, w2)" by fastforce
  note a = assms(2)[unfolded honest_orders_def, rule_format, OF b]
  from a have at2: "at_most landed inflight h w2" using at_most_settles[OF at] by blast
  then have ex: "exactly landed h w2" if "b = Inr True"
    using a that unfolding at_most_def exactly_def by blast
  have no: "landed w2 \<union> inflight w2 = {}" if "b = Inr False" using a that by blast
  have "w' = w2 \<and> (c = Inr Landed \<longrightarrow> b = Inr True) \<and> (c = Inr NotLanded \<longrightarrow> b = Inr False)"
    using cl False b
    by (auto simp: classifyFailedSubmission_def bindW_def retW_def split: sum.splits if_splits)
  then show ?thesis using at2 ex no by blast
next
  case True
  obtain g w2 where g: "getTransactionStatus get h w = (g, w2)" by fastforce
  show ?thesis using cl True g hash[OF True] honest_statusD[OF assms(1) g at]
    by (cases g; auto simp: classifyFailedSubmission_def shouldRetrySubmission_def Let_def)
qed

lemma submitOrderLoop_lands:
  assumes sub: "honest_submit landed inflight submit" and st: "honest_status landed inflight get"
    and chk: "honest_orders landed inflight check" and slp: "\<And>d w. settles landed inflight w (slp d w)"
  shows "landed w \<union> inflight w = {} \<Longrightarrow> submitOrderLoop get slp delay submit msg check k w = (res, w') \<Longrightarrow>
    (\<exists>h. at_most landed inflight h w' \<and>
      (\<forall>r. res = Inr r \<longrightarrow> exactly landed h w' \<and> (\<forall>d. r = Some d \<longrightarrow> d = h)))"
proof (induction k arbitrary: w rule: less_induct)
  case (less k)
  obtain r w1 where r: "submit w = (r, w1)" by fastforce
  obtain h where h: "at_most landed inflight h w1"
    "\<And>x. r = Inr x \<Longrightarrow> truthy (res_txHash x) \<Longrightarrow> the (res_txHash x) = h"
    "\<And>x d l. r = Inr x \<Longrightarrow> res_data x = Some (d, l) \<Longrightarrow> d = h"
    "\<And>x. r = Inr x \<Longrightarrow> success x \<Longrightarrow> res_txHash x = Some h \<and> exactly landed h w1"
    using honest_submitD[OF sub r less.prems(1)] by blast
  show ?case
  proof (cases r)
    case (Inl e)
    then show ?thesis using less.prems(2) r h(1) by (subst (asm) submitOrderLoop.simps) auto
  next
    case (Inr x)
    obtain c w2 where c: "classifyFailedSubmission get (res_txHash x) check w1 = (c, w2)" by fastforce
    note d = classify_honest[OF st chk h(1) h(2)[OF Inr] c]
    have "(w' = w1 \<and> (\<forall>r. res = Inr r \<longrightarrow> exactly landed h w1 \<and> (\<forall>d. r = Some d \<longrightarrow> d = h))) \<or>
      (w' = w2 \<and> (\<forall>r. res = Inr r \<longrightarrow> exactly landed h w2 \<and> (\<forall>d. r = Some d \<longrightarrow> d = h))) \<or>
      (c = Inr NotLanded \<and> 0 < k \<and>
        submitOrderLoop get slp delay submit msg check (k - 1) (slp delay w2) = (res, w'))"
    proof (cases "success x \<and> res_data x \<noteq> None")
      case True
      then show ?thesis using less.prems(2) r Inr h(3)[OF Inr] h(4)[OF Inr]
        by (subst (asm) submitOrderLoop.simps) auto
    next
      case False
      have c_cases: "c = Inr Landed \<or> c = Inr NotLanded \<or> c = Inr FailedOnChain \<or> (\<exists>e. c = Inl e)"
        by (cases c) (use submission_outcome.exhaust in auto)
      from c_cases False show ?thesis using less.prems(2) r Inr c d
        by (subst (asm) submitOrderLoop.simps) (elim disjE exE; auto simp: Let_def split: if_splits)
    qed
    then show ?thesis
    proof (elim disjE)
      assume a: "c = Inr NotLanded \<and> 0 < k \<and>
        submitOrderLoop get slp delay submit msg check (k - 1) (slp delay w2) = (res, w')"
      then have "landed (slp delay w2) \<union> inflight (slp delay w2) = {}"
        using d settles_none[OF _ slp, of w2 delay] by simp
      then show ?thesis using less.IH[of "k - 1"] a by simp
    qed (use h(1) d in blast)+
  qed
qed

text \<open>C13: An order operation is not executed twice. On a network on which every submission sends at
  most one transaction, which may land at once, later or never, with a server that says NOT_FOUND
  of a transaction only when it has not landed and no longer can and SUCCESS only when it has
  landed, and a contract-level check that answers no only when nothing has landed or still can
  and yes only when something has, at most one transaction of the operation ever lands or is
  left in flight, whatever is answered; when the call returns, exactly one has landed, the one
  whose hash it returns if it returns one.\<close>

theorem order_lands_once:
  assumes "honest_submit landed inflight submit" and "honest_status landed inflight get"
    and "honest_orders landed inflight check" and "\<And>d w. settles landed inflight w (slp d w)"
    and "landed w = {}" and "inflight w = {}"
    and "submitOrderLoop get slp delay submit msg check k w = (res, w')"
  shows "\<exists>h. landed w' \<union> inflight w' \<subseteq> {h} \<and>
    (\<forall>r. res = Inr r \<longrightarrow> landed w' = {h} \<and> (\<forall>d. r = Some d \<longrightarrow> d = h))"
  using submitOrderLoop_lands[OF assms(1-3), where slp = slp, OF assms(4), of w delay msg k res w'] assms(5-7)
  unfolding at_most_def exactly_def by blast

text \<open>A status check that fails ends the call: with a hash at hand the contract is never asked, although
  the code falls back to it for exactly that case, and the submission is reported as failed
  whether or not it landed.\<close>

theorem indeterminate_status_reported_failed:
  assumes "submit w = (Inr r, w1)" and "\<not> success r" and "res_txHash r = Some h" and "h \<noteq> []"
    and "getTransactionStatus get h w1 = (ERROR m, w2)"
  shows "submitOrderLoop get slp delay submit msg landed k w =
    (Inl (Sdk (CoralSwapSDKError ''TRANSACTION_ERROR'' (msg @ '': '' @ error_message_or r ''Unknown error''))), w2)"
  using assms by (subst submitOrderLoop.simps)
    (simp add: truthy_def classifyFailedSubmission_def shouldRetrySubmission_def Let_def)

section \<open>Instances\<close>

definition some_order :: order_params where
  "some_order = \<lparr>p_tokenIn = ''A'', p_tokenOut = ''B'', p_amountIn = 5, p_targetPrice = Some (1/2),
     p_expiry = 100, p_pairAddress = ''P''\<rparr>"

text \<open>A network on which every submission lands but times out without a hash, and on which the
  status of an order simulates to \<open>v\<close>. The world counts the landed submissions.\<close>

definition losing_env :: "scval option \<Rightarrow> nat host_scheme limit_env" where
  "losing_env v = \<lparr>getAccount = retW (),
     simulate = (\<lambda>call. case call of StatusCall _ \<Rightarrow> retW v | _ \<Rightarrow> retW (Some (ScvString ''7''))),
     getTransaction = (\<lambda>_. throwW Undefined),
     submitTransaction = (\<lambda>_ w. (Inr \<lparr>success = False, res_data = None,
        res_error = Some (''TX_TIMEOUT'', ''timeout''), res_txHash = None\<rparr>, host.more_update Suc w)),
     sleep = (\<lambda>_ w. w), nowSec = (\<lambda>_. 0), validKey = (\<lambda>_. True), pairLookup = None, ownKey = ''me'',
     retryOpts = limitRetryOptions None None None\<rparr>"

text \<open>The contract-level check takes a status simulation that merely did not succeed for a missing
  order: the placement that landed three times is submitted each time again, and its escrow is
  taken three times.\<close>

theorem failed_simulation_places_again:
  "host.more (snd (placeLimitOrder (losing_env None) some_order None (fresh_host 0))) = 3"
  by code_simp

theorem readable_status_places_once:
  "host.more (snd (placeLimitOrder (losing_env (Some (status_scval
     \<lparr>state = Open, fillPercent = 0, executionPrice = None, filledAt = None\<rparr>))) some_order None (fresh_host 0))) = 1"
  by code_simp

lemma cancel_needs_active_order_witness:
  "\<exists>w. cancelLimitOrder (losing_env (Some (status_scval
     \<lparr>state = Expired, fillPercent = 0, executionPrice = None, filledAt = None\<rparr>))) ''7'' None (fresh_host 0)
   = (Inl (Sdk (InvalidOperationError ''Order 7 has expired'')), w) \<and> host.more w = 0"
proof -
  let ?st = "\<lparr>state = Expired, fillPercent = 0, executionPrice = None, filledAt = None\<rparr>"
  let ?e = "losing_env (Some (status_scval ?st))"
  have v: "trim ''7'' \<noteq> []" "validateSigner (validKey ?e) None = Inr ()" by code_simp+
  have g: "map_prod id host.more (getLimitOrderStatus ?e ''7'' (fresh_host 0)) = (Inr ?st, 0)" by code_simp
  then obtain w1 where w1: "getLimitOrderStatus ?e ''7'' (fresh_host 0) = (Inr ?st, w1)" "host.more w1 = 0"
    by (cases "getLimitOrderStatus ?e ''7'' (fresh_host 0)") auto
  from cancel_needs_active_order[OF v w1(1)] w1(2) show ?thesis by auto
qed

definition net_orders :: "(net, thrown, bool) act" where
  "net_orders = (\<lambda>(l, f, n). (Inr (l \<noteq> []), (l, if l = [] then [] else f, n)))"

text \<open>The first transaction times out and is lost, the second lands.\<close>

lemma order_lands_once_witness:
  "let run = submitOrderLoop net_status (\<lambda>_ w. w) 1 net_submit ''m'' net_orders 2 ([], [], 0)
   in run = (Inr (Some ''tt''), ([''tt''], [], 2)) \<and>
     (\<exists>h. net_landed (snd run) \<union> net_inflight (snd run) \<subseteq> {h})"
proof -
  let ?run = "submitOrderLoop net_status (\<lambda>_ w. w) 1 net_submit ''m'' net_orders 2 ([], [], 0)"
  have ev: "?run = (Inr (Some ''tt''), ([''tt''], [], 2))" by code_simp
  have chk: "honest_orders net_landed net_inflight net_orders"
    by (auto simp: honest_orders_def settles_def net_defs net_orders_def split: prod.splits if_splits)
  have "\<exists>h. net_landed (snd ?run) \<union> net_inflight (snd ?run) \<subseteq> {h} \<and>
    (\<forall>r. fst ?run = Inr r \<longrightarrow> net_landed (snd ?run) = {h} \<and> (\<forall>d. r = Some d \<longrightarrow> d = h))"
    by (rule order_lands_once[OF net_submit_honest net_status_honest chk _ _ _ prod.collapse[symmetric]])
      (simp_all add: net_defs)
  then show ?thesis using ev unfolding Let_def by blast
qed

lemma indeterminate_status_reported_failed_witness:
  "submitOrderLoop (\<lambda>_. throwW Undefined) (\<lambda>_ w. w) 1 (\<lambda>n. (Inr timed_out, Suc n)) ''m'' (retW True) 2 (0 :: nat)
   = (Inl (Sdk (CoralSwapSDKError ''TRANSACTION_ERROR'' ''m: late'')), 1)"
  by (subst indeterminate_status_reported_failed[where r = timed_out and h = "''h''" and m = "''undefined''"
        and ?w1.0 = 1 and ?w2.0 = 1])
    (simp_all add: timed_out_def throwW_def getTransactionStatus_def error_message_or_def)

section \<open>Watching an order\<close>

text \<open>
  \<open>watchOrder\<close>: the timer starts a poll, which reads the order's state and answers later. A poll
  that is answered after \<open>unwatch\<close> is dropped. \<open>polls\<close> holds the states read and not yet answered.
\<close>

record 's watcher =
  active :: bool
  timerOn :: bool
  polls :: "'s list"
  delivered :: "'s list"

definition start_watch :: "'s \<Rightarrow> 's watcher" where
  "start_watch s = \<lparr>active = True, timerOn = True, polls = [s], delivered = []\<rparr>"

definition answer_poll :: "nat \<Rightarrow> 's watcher \<Rightarrow> 's watcher" where
  "answer_poll i w = w\<lparr>polls := take i (polls w) @ drop (Suc i) (polls w),
     delivered := (if active w then delivered w @ [polls w ! i] else delivered w)\<rparr>"

definition drop_poll :: "nat \<Rightarrow> 's watcher \<Rightarrow> 's watcher" where
  "drop_poll i w = w\<lparr>polls := take i (polls w) @ drop (Suc i) (polls w)\<rparr>"

definition unwatch :: "'s watcher \<Rightarrow> 's watcher" where
  "unwatch w = w\<lparr>active := False, timerOn := False\<rparr>"

text \<open>The state of the order, \<open>s\<close> before and \<open>s'\<close> after a step, moves as \<open>moves\<close> lets it.\<close>

inductive watch_step :: "('s \<Rightarrow> 's \<Rightarrow> bool) \<Rightarrow> 's \<times> 's watcher \<Rightarrow> 's \<times> 's watcher \<Rightarrow> bool"
  for moves :: "'s \<Rightarrow> 's \<Rightarrow> bool" where
  order_moves: "moves s s' \<Longrightarrow> watch_step moves (s, w) (s', w)"
| tick: "timerOn w \<Longrightarrow> watch_step moves (s, w) (s, w\<lparr>polls := polls w @ (if active w then [s] else [])\<rparr>)"
| answered: "i < length (polls w) \<Longrightarrow> watch_step moves (s, w) (s, answer_poll i w)"
| poll_failed: "i < length (polls w) \<Longrightarrow> watch_step moves (s, w) (s, drop_poll i w)"
| stopped: "watch_step moves (s, w) (s, unwatch w)"

inductive_cases watch_stepE: "watch_step moves (s, w) (s', w')"

text \<open>Once the caller has unsubscribed, the callback is never called again, whatever polls are still
  out.\<close>

theorem no_callback_after_unwatch:
  assumes "(watch_step moves)\<^sup>*\<^sup>* (s, unwatch w) (s', w')"
  shows "delivered w' = delivered w \<and> \<not> active w' \<and> \<not> timerOn w'"
proof -
  have "(watch_step moves)\<^sup>*\<^sup>* a b \<Longrightarrow> \<not> active (snd a) \<Longrightarrow> \<not> timerOn (snd a) \<Longrightarrow>
      delivered (snd b) = delivered (snd a) \<and> \<not> active (snd b) \<and> \<not> timerOn (snd b)" for a b
    by (induction rule: rtranclp_induct)
      (auto simp: answer_poll_def drop_poll_def unwatch_def elim!: watch_step.cases)
  from this[OF assms] show ?thesis by (simp add: unwatch_def)
qed

lemma no_callback_after_unwatch_witness:
  "delivered (answer_poll 0 (unwatch (start_watch Open))) = []"
proof -
  let ?w = "unwatch (start_watch Open)"
  have "watch_step (\<lambda>_ _. True) (Open, ?w) (Open, answer_poll 0 ?w)"
    by (rule answered) (simp add: unwatch_def start_watch_def)
  from no_callback_after_unwatch[of _ _ "start_watch Open", OF r_into_rtranclp, OF this] show ?thesis
    by (simp add: start_watch_def)
qed

text \<open>Polls overlap, for the timer does not wait for an answer: a caller can be told that the order is
  filled and after that that it is open.\<close>

theorem watch_can_go_backwards:
  "\<exists>w. (watch_step (\<lambda>s s'. s = Open \<and> s' = Filled))\<^sup>*\<^sup>* (Open, start_watch Open) (Filled, w) \<and>
     delivered w = [Filled, Open]"
proof -
  let ?step = "watch_step (\<lambda>s s'. s = Open \<and> s' = Filled)"
  let ?w = "start_watch Open" and ?w' = "start_watch Open\<lparr>polls := [Open, Filled]\<rparr>"
  have s1: "?step (Open, ?w) (Filled, ?w)" by (rule order_moves) simp
  have s2: "?step (Filled, ?w) (Filled, ?w')"
    using tick[of ?w "\<lambda>s s'. s = Open \<and> s' = Filled" Filled] by (simp add: start_watch_def)
  have s3: "?step (Filled, ?w') (Filled, answer_poll 1 ?w')" by (rule answered) simp
  have s4: "?step (Filled, answer_poll 1 ?w') (Filled, answer_poll 0 (answer_poll 1 ?w'))"
    by (rule answered) (simp add: answer_poll_def)
  have "?step\<^sup>*\<^sup>* (Open, ?w) (Filled, answer_poll 0 (answer_poll 1 ?w'))"
    by (rule converse_rtranclp_into_rtranclp[of ?step, OF s1 converse_rtranclp_into_rtranclp[of ?step, OF s2
          converse_rtranclp_into_rtranclp[of ?step, OF s3 r_into_rtranclp[of ?step, OF s4]]]])
  moreover have "delivered (answer_poll 0 (answer_poll 1 ?w')) = [Filled, Open]"
    by (simp add: answer_poll_def start_watch_def)
  ultimately show ?thesis by blast
qed

end
