(* ===== verification/Client.thy ===== *)
theory Client
  imports ConnPool ScVal Submission Validation
begin

text \<open>
  \<open>client.ts\<close>, \<open>utils/rpc-url.ts\<close>, \<open>utils/signer.ts\<close>: the client that every module submits and
  simulates through. Its mutable fields extend the world of \<open>Retry\<close>, so a call that waits can
  find them changed by another. A server is named by its URL; \<open>rpc_api\<close> holds what the Stellar SDK does
  with it. A signer is its data; \<open>rpc_api\<close> signs.
\<close>

section \<open>RPC URLs and signers\<close>

datatype network = TESTNET | MAINNET | STAGING

fun network_name :: "network \<Rightarrow> string" where
  "network_name TESTNET = ''testnet''"
| "network_name MAINNET = ''mainnet''"
| "network_name STAGING = ''staging''"

definition ALLOWED_RPC_SCHEMES :: "string list" where
  "ALLOWED_RPC_SCHEMES = [''http'', ''https'', ''ws'', ''wss'']"

text \<open>\<open>schemeOf\<close> is \<open>getRpcUrlScheme\<close>, which rests on the URL parser.\<close>

definition isSecureRpcUrl :: "(string \<Rightarrow> string option) \<Rightarrow> string \<Rightarrow> bool" where
  "isSecureRpcUrl schemeOf rpcUrl \<longleftrightarrow> schemeOf rpcUrl = Some ''https'' \<or> schemeOf rpcUrl = Some ''wss''"

definition isCleartextRpcAllowed :: "network \<Rightarrow> bool" where
  "isCleartextRpcAllowed network \<longleftrightarrow> network \<noteq> MAINNET"

definition dquoted :: "string \<Rightarrow> string" where
  "dquoted s = CHR 34 # s @ [CHR 34]"

definition validateRpcUrl :: "(string \<Rightarrow> string option) \<Rightarrow> network \<Rightarrow> string \<Rightarrow> unit result" where
  "validateRpcUrl schemeOf network u = (case schemeOf u of
       None \<Rightarrow> Inl (ValidationError (''rpcUrl is not a valid URL: '' @ dquoted u))
     | Some scheme \<Rightarrow>
         if \<not> List.member ALLOWED_RPC_SCHEMES scheme
         then Inl (ValidationError (''rpcUrl uses unsupported scheme '' @ dquoted (scheme @ '':'') @
           ''. Soroban RPC requires an http(s) or ws(s) endpoint.''))
         else throw_if (\<not> isSecureRpcUrl schemeOf u \<and> \<not> isCleartextRpcAllowed network)
           (ValidationError (''Cleartext rpcUrl '' @ dquoted u @ '' is not allowed for production ('' @
             network_name network @ ''). Insecure '' @ dquoted (scheme @ '':'') @
             '' endpoints silently transmit signed transactions over the wire. Use an https:// or wss:// '' @
             ''endpoint, or configure a dev/test network (Network.TESTNET or Network.STAGING) to allow cleartext RPC.'')))"

definition validateRpcUrls :: "(string \<Rightarrow> string option) \<Rightarrow> string list \<Rightarrow> network \<Rightarrow> unit result" where
  "validateRpcUrls schemeOf urls network = bindE (mapE (validateRpcUrl schemeOf network) urls) (\<lambda>_. Inr ())"

text \<open>A signer: the built-in one made from a secret key, or one handed in.\<close>

datatype signer = KeypairSigner string string | ExternalSigner string "string option"

fun signer_passphrase :: "signer \<Rightarrow> string option" where
  "signer_passphrase (KeypairSigner passphrase _) = Some passphrase"
| "signer_passphrase (ExternalSigner _ passphrase) = passphrase"

definition assertSignerNetwork :: "string option \<Rightarrow> string \<Rightarrow> unit result" where
  "assertSignerNetwork signerPassphrase expected = (case signerPassphrase of None \<Rightarrow> Inr ()
     | Some p \<Rightarrow> throw_if (p \<noteq> expected)
         (ValidationError (''Signer network mismatch: signer is bound to '' @ dquoted p @
           '' but the client is configured for '' @ dquoted expected @
           ''. Transactions signed with the wrong network passphrase will be rejected at submission.'')))"

text \<open>\<open>keyOf\<close> is the public key of a secret, or the error of the key library.\<close>

definition newKeypairSigner :: "(string \<Rightarrow> string result) \<Rightarrow> string \<Rightarrow> string \<Rightarrow> string option \<Rightarrow> signer result" where
  "newKeypairSigner keyOf secretKey passphrase expected =
    (if trim passphrase = [] then Inl (ValidationError ''KeypairSigner requires a non-empty network passphrase'')
     else bindE (case expected of None \<Rightarrow> Inr () | Some e \<Rightarrow> assertSignerNetwork (Some passphrase) e) (\<lambda>_.
       bindE (keyOf secretKey) (\<lambda>key. Inr (KeypairSigner passphrase key))))"

section \<open>Configuration and state\<close>

record network_config =
  rpcUrl :: string
  networkPassphrase :: string
  factoryAddress :: string
  routerAddress :: string
  sorobanTimeout :: int

definition NETWORK_CONFIGS :: "network \<Rightarrow> network_config" where
  "NETWORK_CONFIGS n = (case n of
     TESTNET \<Rightarrow> \<lparr>rpcUrl = ''https://soroban-testnet.stellar.org'',
       networkPassphrase = ''Test SDF Network ; September 2015'',
       factoryAddress = ''CBLBMYODT37R3GJZLEFCGCYWOOVEUZ3MMTVR2QCOKOK2UPKSI3CXZBNB'',
       routerAddress = ''CCDQYZKX5AUI7KSWXIFI7AFRQMWCZMOOUJXIDWEJ4IYX7XE7PHCMCBAF'', sorobanTimeout = 30\<rparr>
   | MAINNET \<Rightarrow> \<lparr>rpcUrl = ''https://soroban.stellar.org'',
       networkPassphrase = ''Public Global Stellar Network ; September 2015'',
       factoryAddress = '''', routerAddress = '''', sorobanTimeout = 30\<rparr>
   | STAGING \<Rightarrow> \<lparr>rpcUrl = ''https://rpc-futurenet.stellar.org'',
       networkPassphrase = ''Test SDF Future Network ; October 2022'',
       factoryAddress = '''', routerAddress = '''', sorobanTimeout = 30\<rparr>)"

record sdk_config =
  confNetwork :: network
  confRpcUrls :: "string list option"
  confSecretKey :: "string option"
  confPublicKey :: "string option"
  confSigner :: "signer option"
  confMaxRetries :: "int option"
  confRetryDelayMs :: "rat option"
  confMaxRetryDelayMs :: "rat option"
  confDeadlineMs :: "int option"
  confDeadlineSec :: "int option"
  confPolling :: polling_options

record client_host = host +
  network :: network
  networkConfig :: network_config
  rpcUrls :: "string list"
  connPool :: pool
  activeUrl :: string
  serverUrl :: string
  pollerUrl :: "string option"
  factoryUrl :: "string option"
  routerUrl :: "string option"
  signerOf :: "signer option"
  publicKeyCache :: "string option"

record 'op tx =
  tx_source :: string
  tx_seq :: int
  tx_fee :: string
  tx_ops :: "'op list"
  tx_passphrase :: string
  tx_timeout :: int

datatype sim_response = SimSuccess "scval option" | SimError string | SimRestore

record ('w, 'op) rpc_api =
  rpcAccount :: "string \<Rightarrow> string \<Rightarrow> ('w, thrown, int) act"
  rpcSimulate :: "string \<Rightarrow> 'op tx \<Rightarrow> ('w, thrown, sim_response) act"
  rpcSend :: "string \<Rightarrow> string \<Rightarrow> ('w, thrown, string \<times> string) act"
  rpcGetTransaction :: "string \<Rightarrow> 'w rpc"
  rpcHealth :: "string \<Rightarrow> ('w, thrown, string) act"
  rpcLedger :: "string \<Rightarrow> ('w, thrown, int) act"
  assembleTx :: "'op tx \<Rightarrow> sim_response \<Rightarrow> 'op tx"
  signTx :: "signer \<Rightarrow> 'op tx \<Rightarrow> ('w, thrown, string) act"
  signerKey :: "signer \<Rightarrow> ('w, thrown, string) act"
  acquireToken :: "('w, thrown, unit) act"
  sleepMs :: "rat \<Rightarrow> 'w \<Rightarrow> 'w"
  pollWait :: "rat \<Rightarrow> 'w \<Rightarrow> bool \<times> 'w"

text \<open>\<open>getRetryOptions\<close>, with the defaults of the constructor and of \<open>DEFAULTS\<close>.\<close>

definition getRetryOptions :: "sdk_config \<Rightarrow> int \<Rightarrow> retry_options" where
  "getRetryOptions conf now =
     \<lparr>maxRetries = (case confMaxRetries conf of None \<Rightarrow> 3 | Some n \<Rightarrow> n),
      baseDelayMs = Some (case confRetryDelayMs conf of None \<Rightarrow> 1000 | Some d \<Rightarrow> d),
      retryDelayMs = None, backoffMultiplier = None,
      maxDelayMs = Some (case confMaxRetryDelayMs conf of None \<Rightarrow> of_int DEFAULT_maxRetryDelayMs | Some d \<Rightarrow> d),
      maxRetryDelayMs = None, deadlineMs = map_option (\<lambda>d. now + d) (confDeadlineMs conf),
      circuitBreaker = None\<rparr>"

definition getDeadline :: "sdk_config \<Rightarrow> int option \<Rightarrow> 'x host_scheme \<Rightarrow> int" where
  "getDeadline conf offsetSec w = clock w div 1000 +
     (case offsetSec of Some n \<Rightarrow> n | None \<Rightarrow>
       (case confDeadlineSec conf of Some n \<Rightarrow> n | None \<Rightarrow> DEFAULT_deadlineSec))"

section \<open>Construction and change of network\<close>

text \<open>
  \<open>h\<close> is the world the client is created in. An empty \<open>rpcUrl\<close> string counts as none, an empty
  list does not and is refused by the pool.
\<close>

definition new_client :: "(string \<Rightarrow> string option) \<Rightarrow> (string \<Rightarrow> string result) \<Rightarrow> sdk_config \<Rightarrow>
    'x host_scheme \<Rightarrow> 'y \<Rightarrow> 'y client_host_scheme result" where
  "new_client schemeOf keyOf conf h extra =
    (let cfg = NETWORK_CONFIGS (confNetwork conf);
         urls = (case confRpcUrls conf of None \<Rightarrow> [rpcUrl cfg] | Some us \<Rightarrow> us);
         cfg' = cfg\<lparr>rpcUrl := hd urls\<rparr>
     in bindE (validateRpcUrls schemeOf urls (confNetwork conf)) (\<lambda>_.
        bindE (new_pool (Some urls) \<lparr>optFailureThreshold = None, optRecoveryTimeMs = None, optFailureTimeoutMs = None\<rparr>) (\<lambda>p.
        bindE (case confSigner conf of
            Some s \<Rightarrow> bindE (assertSignerNetwork (signer_passphrase s) (networkPassphrase cfg')) (\<lambda>_. Inr (Some s, None))
          | None \<Rightarrow> (case confSecretKey conf of
              None \<Rightarrow> Inr (None, None)
            | Some key \<Rightarrow> bindE (newKeypairSigner keyOf key (networkPassphrase cfg') (Some (networkPassphrase cfg')))
                (\<lambda>s. Inr (Some s, case s of KeypairSigner _ pk \<Rightarrow> Some pk | _ \<Rightarrow> None)))) (\<lambda>(s, pk).
        Inr \<lparr>clock = clock h, cb_store = cb_store h, cb_registry = cb_registry h,
             network = confNetwork conf, networkConfig = cfg', rpcUrls = urls, connPool = p,
             activeUrl = hd urls, serverUrl = hd urls, pollerUrl = None, factoryUrl = None,
             routerUrl = None, signerOf = s, publicKeyCache = pk, \<dots> = extra\<rparr>))))"

text \<open>\<open>setNetwork\<close>: the outcome and the client it leaves, also when it throws on the way.\<close>

definition setNetwork :: "(string \<Rightarrow> string option) \<Rightarrow> (string \<Rightarrow> string result) \<Rightarrow> sdk_config \<Rightarrow> network \<Rightarrow>
    string list option \<Rightarrow> 'x client_host_scheme \<Rightarrow> unit result \<times> 'x client_host_scheme" where
  "setNetwork schemeOf keyOf conf net given w =
    (let cfg = NETWORK_CONFIGS net;
         urls = (case given of None \<Rightarrow> [rpcUrl cfg] | Some us \<Rightarrow> us);
         w1 = w\<lparr>network := net, networkConfig := cfg, rpcUrls := urls\<rparr>
     in case validateRpcUrls schemeOf urls net of
       Inl e \<Rightarrow> (Inl e, w1)
     | Inr _ \<Rightarrow>
        let w2 = w1\<lparr>networkConfig := cfg\<lparr>rpcUrl := hd urls\<rparr>\<rparr> in
        (case new_pool (Some urls) \<lparr>optFailureThreshold = None, optRecoveryTimeMs = None, optFailureTimeoutMs = None\<rparr> of
           Inl e \<Rightarrow> (Inl e, w2)
         | Inr p \<Rightarrow>
            let w3 = w2\<lparr>connPool := p, activeUrl := hd urls, serverUrl := hd urls,
                        factoryUrl := None, routerUrl := None\<rparr> in
            (case confSecretKey conf of
               Some key \<Rightarrow>
                 (case newKeypairSigner keyOf key (networkPassphrase cfg) (Some (networkPassphrase cfg)) of
                    Inl e \<Rightarrow> (Inl e, w3)
                  | Inr s \<Rightarrow> (Inr (), w3\<lparr>signerOf := Some s,
                      publicKeyCache := (case s of KeypairSigner _ pk \<Rightarrow> Some pk | _ \<Rightarrow> None)\<rparr>))
             | None \<Rightarrow>
                 (case signerOf w3 of
                    None \<Rightarrow> (Inr (), w3)
                  | Some s \<Rightarrow> (assertSignerNetwork (signer_passphrase s) (networkPassphrase cfg), w3)))))"

section \<open>Calls with retry and fallback\<close>

definition switchServer :: "string \<Rightarrow> 'x client_host_scheme \<Rightarrow> 'x client_host_scheme" where
  "switchServer u w = (if u = activeUrl w then w
     else w\<lparr>serverUrl := u, pollerUrl := None, activeUrl := u, factoryUrl := None, routerUrl := None\<rparr>)"

definition endpointLabel :: "string \<Rightarrow> string \<Rightarrow> string" where
  "endpointLabel lbl u = lbl @ ''[RPC:'' @ u @ '']''"

text \<open>
  The loop of \<open>executeWithFallback\<close>, \<open>n\<close> attempts left; the size of the pool changes only in
  \<open>setNetwork\<close>. A dispatch takes a token of the rate limiter and calls the server that is current
  then.
\<close>

fun fallback_loop :: "('x client_host_scheme, 'op) rpc_api \<Rightarrow> retry_options \<Rightarrow>
    (string \<Rightarrow> ('x client_host_scheme, thrown, 'a) act) \<Rightarrow> string \<Rightarrow> nat \<Rightarrow> thrown \<Rightarrow>
    ('x client_host_scheme, thrown, 'a) act" where
  "fallback_loop api opts fn lbl 0 lastError w = (Inl lastError, w)"
| "fallback_loop api opts fn lbl (Suc n) lastError w =
    (case getEndpoint (clock w) (connPool w) of
       (Inl e, p) \<Rightarrow> (Inl (Sdk e), w\<lparr>connPool := p\<rparr>)
     | (Inr u, p) \<Rightarrow>
        (case withRetry (sleepMs api) (bindW (acquireToken api) (\<lambda>_ v. fn (serverUrl v) v)) opts
            (endpointLabel lbl u) (switchServer u (w\<lparr>connPool := p\<rparr>)) of
           (Inr x, w2) \<Rightarrow> (Inr x, w2\<lparr>connPool := reportSuccess u (connPool w2)\<rparr>)
         | (Inl err, w2) \<Rightarrow>
             if \<not> isRetryable err then (Inl err, w2)
             else fallback_loop api opts fn lbl n err
               (w2\<lparr>connPool := reportFailure u (clock w2) (connPool w2)\<rparr>)))"

definition executeWithFallback :: "('x client_host_scheme, 'op) rpc_api \<Rightarrow> sdk_config \<Rightarrow>
    (string \<Rightarrow> ('x client_host_scheme, thrown, 'a) act) \<Rightarrow> string \<Rightarrow> ('x client_host_scheme, thrown, 'a) act" where
  "executeWithFallback api conf fn lbl w =
     fallback_loop api (getRetryOptions conf (clock w)) fn lbl (pool_size (connPool w)) Undefined w"

section \<open>Keys and contract clients\<close>

definition publicKeyOf :: "sdk_config \<Rightarrow> 'x client_host_scheme \<Rightarrow> string result" where
  "publicKeyOf conf w = (if truthy (publicKeyCache w) then Inr (the (publicKeyCache w))
     else if truthy (confPublicKey conf) then Inr (the (confPublicKey conf)) else Inl SignerError)"

definition resolvePublicKey :: "('x client_host_scheme, 'op) rpc_api \<Rightarrow> sdk_config \<Rightarrow>
    ('x client_host_scheme, thrown, string) act" where
  "resolvePublicKey api conf w =
    (if truthy (publicKeyCache w) then (Inr (the (publicKeyCache w)), w)
     else if truthy (confPublicKey conf)
     then (Inr (the (confPublicKey conf)), w\<lparr>publicKeyCache := confPublicKey conf\<rparr>)
     else (case signerOf w of
         None \<Rightarrow> (Inl (Sdk SignerError), w)
       | Some s \<Rightarrow> (case signerKey api s w of
             (Inl e, w1) \<Rightarrow> (Inl e, w1)
           | (Inr k, w1) \<Rightarrow> (Inr k, w1\<lparr>publicKeyCache := Some k\<rparr>))))"

text \<open>\<open>client.factory\<close> and \<open>client.router\<close>: made once, on the server current then.\<close>

definition notConfigured :: "string \<Rightarrow> string \<Rightarrow> network \<Rightarrow> sdk_error" where
  "notConfigured what key net = NotConfiguredError what (Some (''set '' @ key @ '' for network '' @
     dquoted (network_name net) @ '' (NetworkConfig.'' @ key @ '') before accessing client.'' @
     take (length key - 7) key))"

definition factoryClient :: "'x client_host_scheme \<Rightarrow> (string \<times> string) result \<times> 'x client_host_scheme" where
  "factoryClient w = (case factoryUrl w of
       Some u \<Rightarrow> (Inr (factoryAddress (networkConfig w), u), w)
     | None \<Rightarrow> if factoryAddress (networkConfig w) = []
         then (Inl (notConfigured ''Factory contract'' ''factoryAddress'' (network w)), w)
         else (Inr (factoryAddress (networkConfig w), serverUrl w), w\<lparr>factoryUrl := Some (serverUrl w)\<rparr>))"

definition routerClient :: "'x client_host_scheme \<Rightarrow> (string \<times> string) result \<times> 'x client_host_scheme" where
  "routerClient w = (case routerUrl w of
       Some u \<Rightarrow> (Inr (routerAddress (networkConfig w), u), w)
     | None \<Rightarrow> if routerAddress (networkConfig w) = []
         then (Inl (notConfigured ''Router contract'' ''routerAddress'' (network w)), w)
         else (Inr (routerAddress (networkConfig w), serverUrl w), w\<lparr>routerUrl := Some (serverUrl w)\<rparr>))"

section \<open>Submission and simulation\<close>

definition buildTx :: "string \<Rightarrow> int \<Rightarrow> string \<Rightarrow> 'op list \<Rightarrow> int \<Rightarrow> 'x client_host_scheme \<Rightarrow> 'op tx" where
  "buildTx source seq fee ops timeout w = \<lparr>tx_source = source, tx_seq = seq, tx_fee = fee, tx_ops = ops,
     tx_passphrase = networkPassphrase (networkConfig w), tx_timeout = timeout\<rparr>"

definition failure :: "string \<Rightarrow> string \<Rightarrow> sdk_result" where
  "failure code message = \<lparr>success = False, res_data = None, res_error = Some (code, message), res_txHash = None\<rparr>"

text \<open>\<open>poller()\<close> keeps the server it was made on.\<close>

definition pollTransaction :: "('x client_host_scheme, 'op) rpc_api \<Rightarrow> sdk_config \<Rightarrow> string \<Rightarrow>
    'x client_host_scheme \<Rightarrow> sdk_result \<times> 'x client_host_scheme" where
  "pollTransaction api conf h w =
    (let w1 = (if pollerUrl w = None then w\<lparr>pollerUrl := Some (serverUrl w)\<rparr> else w)
     in poll (rpcGetTransaction api (the (pollerUrl w1))) (\<lambda>_. False) (pollWait api) h (confPolling conf) w1)"

text \<open>The body of \<open>submitTransactionUnlocked\<close> up to the polling; \<open>Inr (Inr hash)\<close> is a hash to poll.\<close>

definition signAndSend :: "('x client_host_scheme, 'op) rpc_api \<Rightarrow> sdk_config \<Rightarrow> 'op tx \<Rightarrow> sim_response \<Rightarrow>
    ('x client_host_scheme, thrown, sdk_result + string) act" where
  "signAndSend api conf tx sim w = (case signerOf w of
       None \<Rightarrow> (Inr (Inl (failure ''NO_SIGNER'' ''No signing key configured. Provide secretKey or a Signer instance.'')), w)
     | Some s \<Rightarrow>
         bindW (signTx api s (assembleTx api tx sim)) (\<lambda>signed.
         bindW (executeWithFallback api conf (\<lambda>u. rpcSend api u signed) ''sendTransaction'') (\<lambda>(status, h).
           retW (if status = ''ERROR'' then Inl (failure ''SUBMIT_FAILED'' ''Transaction submission failed'') else Inr h))) w)"

definition sendStages :: "('x client_host_scheme, 'op) rpc_api \<Rightarrow> sdk_config \<Rightarrow> 'op list \<Rightarrow> string option \<Rightarrow>
    ('x client_host_scheme, thrown, sdk_result + string) act" where
  "sendStages api conf ops source =
     bindW (case source of Some s \<Rightarrow> retW s | None \<Rightarrow> resolvePublicKey api conf) (\<lambda>key.
     bindW (executeWithFallback api conf (\<lambda>u. rpcAccount api u key) ''getAccount'') (\<lambda>seq w.
     (let tx = buildTx key seq ''100'' ops (sorobanTimeout (networkConfig w)) w in
     bindW (executeWithFallback api conf (\<lambda>u. rpcSimulate api u tx) ''simulateTransaction'') (\<lambda>sim.
     case sim of
       SimSuccess _ \<Rightarrow> signAndSend api conf tx sim
     | _ \<Rightarrow> retW (Inl (failure ''SIMULATION_FAILED'' ''Transaction simulation failed''))) w)))"

text \<open>The message of a thrown \<open>Error\<close>; other values have none.\<close>

definition unexpected_message :: "thrown \<Rightarrow> string" where
  "unexpected_message err = (case err of Rejected _ _ (Some m) _ \<Rightarrow> m | Sdk e \<Rightarrow> err_message e | _ \<Rightarrow> ''Unknown error'')"

definition submitTransactionUnlocked :: "('x client_host_scheme, 'op) rpc_api \<Rightarrow> sdk_config \<Rightarrow> 'op list \<Rightarrow>
    string option \<Rightarrow> 'x client_host_scheme \<Rightarrow> sdk_result \<times> 'x client_host_scheme" where
  "submitTransactionUnlocked api conf ops source w = (case sendStages api conf ops source w of
       (Inl err, w1) \<Rightarrow> (failure ''UNEXPECTED_ERROR'' (unexpected_message err), w1)
     | (Inr (Inl r), w1) \<Rightarrow> (r, w1)
     | (Inr (Inr h), w1) \<Rightarrow> pollTransaction api conf h w1)"

text \<open>Both forms of \<open>simulateTransaction\<close> fetch the account and simulate; they differ in timeout and fee.\<close>

definition clientSimulate :: "('x client_host_scheme, 'op) rpc_api \<Rightarrow> sdk_config \<Rightarrow> 'op list \<Rightarrow>
    string option \<Rightarrow> (int option \<times> string option) option \<Rightarrow> ('x client_host_scheme, thrown, sim_response) act" where
  "clientSimulate api conf ops source enhanced w =
    (let timeout = (case enhanced of None \<Rightarrow> 30 | Some (t, _) \<Rightarrow> (case t of Some n \<Rightarrow> n | None \<Rightarrow> sorobanTimeout (networkConfig w)));
         fee = (case enhanced of Some (_, Some f) \<Rightarrow> f | _ \<Rightarrow> ''100'')
     in case (case source of Some s \<Rightarrow> Inr s | None \<Rightarrow> publicKeyOf conf w) of
       Inl e \<Rightarrow> (Inl (Sdk e), w)
     | Inr key \<Rightarrow>
        bindW (executeWithFallback api conf (\<lambda>u. rpcAccount api u key) ''simulateTransaction_getAccount'') (\<lambda>seq v.
          executeWithFallback api conf (\<lambda>u. rpcSimulate api u (buildTx key seq fee ops timeout v))
            ''simulateTransaction_simulate'' v) w)"

definition clientIsHealthy :: "('x client_host_scheme, 'op) rpc_api \<Rightarrow> sdk_config \<Rightarrow>
    'x client_host_scheme \<Rightarrow> bool \<times> 'x client_host_scheme" where
  "clientIsHealthy api conf w = (case executeWithFallback api conf (rpcHealth api) ''getHealth'' w of
       (Inr status, w1) \<Rightarrow> (status = ''healthy'', w1) | (Inl _, w1) \<Rightarrow> (False, w1))"

definition getCurrentLedger :: "('x client_host_scheme, 'op) rpc_api \<Rightarrow> sdk_config \<Rightarrow>
    ('x client_host_scheme, thrown, int) act" where
  "getCurrentLedger api conf = executeWithFallback api conf (rpcLedger api) ''getLatestLedger''"

definition clientGetAccount :: "('x client_host_scheme, 'op) rpc_api \<Rightarrow> sdk_config \<Rightarrow> string option \<Rightarrow>
    ('x client_host_scheme, thrown, int) act" where
  "clientGetAccount api conf key =
     bindW (case key of Some k \<Rightarrow> retW k | None \<Rightarrow> resolvePublicKey api conf) (\<lambda>k.
       executeWithFallback api conf (\<lambda>u. rpcAccount api u k) ''getAccount'')"

section \<open>What a call with fallback guarantees\<close>

lemma retry_loop_cong:
  assumes fn: "\<And>v. I v \<Longrightarrow> fn v = fn' v \<and> I (snd (fn' v))" and slp: "\<And>d v. I v \<Longrightarrow> I (slp d v)"
    and upd: "\<And>f v. I v \<Longrightarrow> I (upd_breaker r f v)"
  shows "I w \<Longrightarrow> retry_loop slp fn c dl r maxR attempt e w = retry_loop slp fn' c dl r maxR attempt e w \<and>
    I (snd (retry_loop slp fn' c dl r maxR attempt e w))"
proof (induction "nat (maxR + 1 - attempt)" arbitrary: attempt e w rule: less_induct)
  case less
  obtain res w' where f: "fn w = (res, w')" by fastforce
  have f': "fn' w = (res, w')" "I w'" using fn[OF less.prems] f by (metis snd_conv)+
  have rec: "attempt \<le> maxR \<Longrightarrow>
      retry_loop slp fn c dl r maxR (attempt + 1) err (slp d w') = retry_loop slp fn' c dl r maxR (attempt + 1) err (slp d w') \<and>
      I (snd (retry_loop slp fn' c dl r maxR (attempt + 1) err (slp d w')))" for err d
    by (rule less.hyps) (use slp[OF f'(2)] in auto)
  have e1: "retry_loop slp fn c dl r maxR attempt e w = (if maxR < attempt then (Inl e, w)
     else if past_deadline dl w then (Inl (Sdk (DeadlineError (the dl))), w)
     else case (res, w') of (Inr x, w') \<Rightarrow> (Inr x, upd_breaker r onSuccess w')
       | (Inl err, w') \<Rightarrow> if \<not> isRetryable err \<or> attempt = maxR then (Inl err, w')
           else retry_loop slp fn c dl r maxR (attempt + 1) err (slp (backoff c attempt) w'))"
    by (subst retry_loop.simps) (simp add: f)
  have e2: "retry_loop slp fn' c dl r maxR attempt e w = (if maxR < attempt then (Inl e, w)
     else if past_deadline dl w then (Inl (Sdk (DeadlineError (the dl))), w)
     else case (res, w') of (Inr x, w') \<Rightarrow> (Inr x, upd_breaker r onSuccess w')
       | (Inl err, w') \<Rightarrow> if \<not> isRetryable err \<or> attempt = maxR then (Inl err, w')
           else retry_loop slp fn' c dl r maxR (attempt + 1) err (slp (backoff c attempt) w'))"
    by (subst retry_loop.simps) (simp add: f')
  show ?case unfolding e1 e2 using rec upd f'(2) less.prems by (auto split: sum.splits)
qed

lemma withRetry_cong:
  assumes fn: "\<And>v. I v \<Longrightarrow> fn v = fn' v \<and> I (snd (fn' v))" and slp: "\<And>d v. I v \<Longrightarrow> I (slp d v)"
    and upd: "\<And>r f v. I v \<Longrightarrow> I (upd_breaker r f v)"
    and get: "\<And>l opts v. I v \<Longrightarrow> I (snd (getCircuitBreaker l opts v))"
    and w: "I w"
  shows "withRetry slp fn opts l w = withRetry slp fn' opts l w \<and> I (snd (withRetry slp fn' opts l w))"
proof -
  obtain r w1 where g: "getCircuitBreaker l (circuitBreaker opts) w = (r, w1)" by fastforce
  have w1: "I w1" using get[OF w, of l "circuitBreaker opts"] g by simp
  obtain a b where bf: "beforeRequest (clock w1) (cb_store w1 ! r) = (a, b)" by fastforce
  show ?thesis
  proof (cases a)
    case (Inl e)
    then show ?thesis using w1 by (simp add: withRetry_def g bf Let_def)
  next
    case (Inr u)
    let ?m = "if getState (clock w1) (cb_store w1 ! r) = HalfOpen then 0 else cfgRetries (normalizeRetryConfig opts)"
    let ?loop = "\<lambda>f. retry_loop slp f (normalizeRetryConfig opts) (deadlineMs opts) r ?m 0 Undefined (upd_breaker r (\<lambda>_. b) w1)"
    have loop: "?loop fn = ?loop fn' \<and> I (snd (?loop fn'))"
      by (rule retry_loop_cong[of I, OF fn slp upd upd[OF w1]])
    obtain res w2 where res: "?loop fn = (res, w2)" by fastforce
    then have "?loop fn' = (res, w2)" "I w2" using loop by auto
    then show ?thesis using res Inr upd by (cases res) (simp_all add: withRetry_def g bf Let_def fail_breaker_def)
  qed
qed

lemma retry_loop_Inr:
  "retry_loop slp fn c dl r maxR attempt e w = (Inr x, w') \<Longrightarrow> \<exists>v v'. fn v = (Inr x, v')"
proof (induction "nat (maxR + 1 - attempt)" arbitrary: attempt e w rule: less_induct)
  case less
  obtain res v where f: "fn w = (res, v)" by fastforce
  show ?case using less.prems f less.hyps[of "attempt + 1"]
    by (subst (asm) retry_loop.simps) (auto split: sum.splits if_splits)
qed

lemma withRetry_Inr: "withRetry slp fn opts l w = (Inr x, w') \<Longrightarrow> \<exists>v v'. fn v = (Inr x, v')"
  by (auto simp: withRetry_def Let_def split: prod.splits sum.splits dest: retry_loop_Inr)

lemma fallback_loop_Inr:
  "fallback_loop api opts fn lbl n e w = (Inr x, w') \<Longrightarrow> \<exists>u v v'. fn u v = (Inr x, v')"
proof (induction n arbitrary: e w)
  case (Suc n)
  from Suc.prems show ?case
    by (auto simp: bindW_def split: prod.splits sum.splits if_splits dest!: withRetry_Inr) (use Suc.IH in blast)+
qed simp

lemma executeWithFallback_Inr:
  "executeWithFallback api conf fn lbl w = (Inr x, w') \<Longrightarrow> \<exists>u v v'. fn u v = (Inr x, v')"
  by (auto simp: executeWithFallback_def dest: fallback_loop_Inr)

text \<open>The endpoints are the configured URLs, the current server is one of them, and on the main network
  all of them are secure.\<close>

definition client_inv :: "(string \<Rightarrow> string option) \<Rightarrow> 'x client_host_scheme \<Rightarrow> bool" where
  "client_inv schemeOf w \<longleftrightarrow> map url (endpoints (connPool w)) = rpcUrls w \<and> serverUrl w \<in> set (rpcUrls w) \<and>
     activeUrl w \<in> set (rpcUrls w) \<and>
     (network w = MAINNET \<longrightarrow> list_all (isSecureRpcUrl schemeOf) (rpcUrls w))"

lemma client_inv_host [simp]:
  "client_inv schemeOf (w\<lparr>cb_store := s\<rparr>) = client_inv schemeOf w"
  "client_inv schemeOf (w\<lparr>cb_registry := r\<rparr>) = client_inv schemeOf w"
  by (simp_all add: client_inv_def)

lemma client_inv_breakers:
  "client_inv schemeOf w \<Longrightarrow> client_inv schemeOf (upd_breaker r f w)"
  "client_inv schemeOf w \<Longrightarrow> client_inv schemeOf (snd (getCircuitBreaker l opts w))"
  by (simp_all add: upd_breaker_def getCircuitBreaker_def Let_def split: option.splits)

lemma pool_urls:
  "map url (endpoints (snd (getEndpoint now p))) = map url (endpoints p)"
  "fst (getEndpoint now p) = Inr u \<Longrightarrow> u \<in> set (map url (endpoints p))"
  "map url (endpoints (reportSuccess u p)) = map url (endpoints p)"
  "map url (endpoints (reportFailure u now p)) = map url (endpoints p)"
proof -
  show "map url (endpoints (snd (getEndpoint now p))) = map url (endpoints p)"
    by (simp add: getEndpoint_def split: option.splits)
  show "fst (getEndpoint now p) = Inr u \<Longrightarrow> u \<in> set (map url (endpoints p))"
    by (auto simp: getEndpoint_def split: option.splits dest!: scan_from_Some) (metis imageI mod_less_divisor nth_mem gr_implies_not0 not_gr_zero)
qed (simp_all add: reportSuccess_def reportFailure_def update_first_urls Let_def)

lemma client_inv_switch:
  assumes "client_inv schemeOf w" and "getEndpoint (clock w) (connPool w) = (Inr u, p)"
  shows "client_inv schemeOf (switchServer u (w\<lparr>connPool := p\<rparr>))"
  using assms pool_urls(1,2)[of "clock w" "connPool w"] by (auto simp: client_inv_def switchServer_def)

text \<open>\<open>secure\<close> says where calls may go; \<open>fn\<close> may be changed everywhere else.\<close>

lemma fallback_loop_cong:
  assumes acq: "\<And>v. client_inv schemeOf v \<Longrightarrow> client_inv schemeOf (snd (acquireToken api v))"
    and slp: "\<And>d v. client_inv schemeOf v \<Longrightarrow> client_inv schemeOf (sleepMs api d v)"
    and fn: "\<And>u v. client_inv schemeOf v \<Longrightarrow> client_inv schemeOf (snd (fn u v))"
    and eq: "\<And>v. client_inv schemeOf v \<Longrightarrow> fn (serverUrl v) v = fn' (serverUrl v) v"
  shows "client_inv schemeOf w \<Longrightarrow>
    fallback_loop api opts fn lbl n e w = fallback_loop api opts fn' lbl n e w \<and>
    client_inv schemeOf (snd (fallback_loop api opts fn' lbl n e w))"
proof (induction n arbitrary: e w)
  case (Suc n)
  obtain x p where g: "getEndpoint (clock w) (connPool w) = (x, p)" by fastforce
  show ?case
  proof (cases x)
    case (Inl err)
    then show ?thesis using Suc.prems g pool_urls(1)[of "clock w" "connPool w"]
      by (simp add: client_inv_def)
  next
    case (Inr u)
    let ?g = "\<lambda>f. bindW (acquireToken api) (\<lambda>_ v. f (serverUrl v) v)"
    let ?w = "switchServer u (w\<lparr>connPool := p\<rparr>)"
    have "client_inv schemeOf v \<Longrightarrow> ?g fn v = ?g fn' v \<and> client_inv schemeOf (snd (?g fn' v))" for v
      using acq[of v] fn[of "snd (acquireToken api v)"] eq[of "snd (acquireToken api v)", symmetric]
      by (cases "acquireToken api v"; cases "fst (acquireToken api v)") (simp_all add: bindW_def)
    then have wr: "withRetry (sleepMs api) (?g fn) opts (endpointLabel lbl u) ?w
        = withRetry (sleepMs api) (?g fn') opts (endpointLabel lbl u) ?w \<and>
      client_inv schemeOf (snd (withRetry (sleepMs api) (?g fn') opts (endpointLabel lbl u) ?w))"
      by (rule withRetry_cong[of "client_inv schemeOf"])
        (use slp client_inv_breakers client_inv_switch[OF Suc.prems g[unfolded Inr]] in auto)
    obtain res w2 where res: "withRetry (sleepMs api) (?g fn) opts (endpointLabel lbl u) ?w = (res, w2)" by fastforce
    have w2: "client_inv schemeOf w2" using wr res by (metis snd_conv)
    then have "client_inv schemeOf (w2\<lparr>connPool := reportSuccess u (connPool w2)\<rparr>)"
      "client_inv schemeOf (w2\<lparr>connPool := reportFailure u (clock w2) (connPool w2)\<rparr>)"
      by (simp_all add: client_inv_def pool_urls)
    then show ?thesis using Suc.IH res wr w2 g Inr by (auto split: sum.splits)
  qed
qed simp

lemma validateRpcUrls_secure:
  "validateRpcUrls schemeOf urls net = Inr () \<Longrightarrow> net = MAINNET \<Longrightarrow> list_all (isSecureRpcUrl schemeOf) urls"
proof (induction urls)
  case (Cons u urls)
  then show ?case
    by (auto simp: validateRpcUrls_def validateRpcUrl_def isCleartextRpcAllowed_def result_simps
        split: option.splits if_splits)
qed simp

lemma new_pool_urls:
  "new_pool (Some us) opts = Inr p \<Longrightarrow> map url (endpoints p) = us \<and> us \<noteq> []"
  by (auto simp: new_pool_def fresh_endpoint_def comp_def split: if_splits)

lemma client_inv_fresh:
  assumes "validateRpcUrls schemeOf urls net = Inr ()" and "map url (endpoints p) = urls" and "urls \<noteq> []"
    and "network w = net" "rpcUrls w = urls" "connPool w = p" "activeUrl w = hd urls" "serverUrl w = hd urls"
  shows "client_inv schemeOf w"
  using assms validateRpcUrls_secure[OF assms(1)] by (simp add: client_inv_def)

lemma new_client_inv: "new_client schemeOf keyOf conf h extra = Inr w \<Longrightarrow> client_inv schemeOf w"
  by (auto simp: new_client_def Let_def result_simps dest!: new_pool_urls intro!: client_inv_fresh)

lemma setNetwork_inv: "setNetwork schemeOf keyOf conf net given w = (Inr (), w') \<Longrightarrow> client_inv schemeOf w'"
  by (auto simp: setNetwork_def Let_def dest!: new_pool_urls split: sum.splits option.splits
      intro!: client_inv_fresh)

text \<open>
  What the environment may do while a call waits (\<open>api_keeps\<close>): answers, timers, signers and
  whatever runs meanwhile leave the client within its configuration. \<open>confined\<close> is the same
  environment in which every request to a URL that is not configured, or on the main network is
  not secure, does something else instead, as \<open>other\<close> says. Confirmations are not confined:
  the poller keeps its server (\<open>setNetwork_keeps_poller\<close> below).
\<close>

definition keeps_inv :: "(string \<Rightarrow> string option) \<Rightarrow> ('x client_host_scheme \<Rightarrow> 'a \<times> 'x client_host_scheme) \<Rightarrow> bool" where
  "keeps_inv schemeOf m \<longleftrightarrow> (\<forall>v. client_inv schemeOf v \<longrightarrow> client_inv schemeOf (snd (m v)))"

definition api_keeps :: "(string \<Rightarrow> string option) \<Rightarrow> ('x client_host_scheme, 'op) rpc_api \<Rightarrow> bool" where
  "api_keeps schemeOf api \<longleftrightarrow>
     (\<forall>u k. keeps_inv schemeOf (rpcAccount api u k)) \<and> (\<forall>u t. keeps_inv schemeOf (rpcSimulate api u t)) \<and>
     (\<forall>u t. keeps_inv schemeOf (rpcSend api u t)) \<and> (\<forall>u h. keeps_inv schemeOf (rpcGetTransaction api u h)) \<and>
     (\<forall>u. keeps_inv schemeOf (rpcHealth api u)) \<and> (\<forall>u. keeps_inv schemeOf (rpcLedger api u)) \<and>
     (\<forall>s t. keeps_inv schemeOf (signTx api s t)) \<and> (\<forall>s. keeps_inv schemeOf (signerKey api s)) \<and>
     keeps_inv schemeOf (acquireToken api) \<and> (\<forall>d. keeps_inv schemeOf (pollWait api d)) \<and>
     (\<forall>d v. client_inv schemeOf v \<longrightarrow> client_inv schemeOf (sleepMs api d v))"

definition allowed :: "(string \<Rightarrow> string option) \<Rightarrow> 'x client_host_scheme \<Rightarrow> string \<Rightarrow> bool" where
  "allowed schemeOf v u \<longleftrightarrow> u \<in> set (rpcUrls v) \<and> (network v = MAINNET \<longrightarrow> isSecureRpcUrl schemeOf u)"

definition confined :: "(string \<Rightarrow> string option) \<Rightarrow> ('x client_host_scheme, 'op) rpc_api \<Rightarrow>
    ('x client_host_scheme, 'op) rpc_api \<Rightarrow> ('x client_host_scheme, 'op) rpc_api" where
  "confined schemeOf other api = api
     \<lparr>rpcAccount := (\<lambda>u k v. if allowed schemeOf v u then rpcAccount api u k v else rpcAccount other u k v),
      rpcSimulate := (\<lambda>u t v. if allowed schemeOf v u then rpcSimulate api u t v else rpcSimulate other u t v),
      rpcSend := (\<lambda>u t v. if allowed schemeOf v u then rpcSend api u t v else rpcSend other u t v),
      rpcHealth := (\<lambda>u v. if allowed schemeOf v u then rpcHealth api u v else rpcHealth other u v),
      rpcLedger := (\<lambda>u v. if allowed schemeOf v u then rpcLedger api u v else rpcLedger other u v)\<rparr>"

text \<open>A life of a client: its public calls in any order, changes of network among them, and what each
  answered. A change of network that throws ends it.\<close>

datatype 'op client_call = Submits "'op list" "string option"
  | Simulates "'op list" "string option" "(int option \<times> string option) option"
  | AsksHealth | AsksLedger | AsksAccount "string option" | SetsNetwork network "string list option"

datatype client_answer = Submitted sdk_result | Simulated "thrown + sim_response" | Healthy bool
  | Ledger "thrown + int" | Account "thrown + int" | NetworkSet "unit result"

fun client_step :: "(string \<Rightarrow> string option) \<Rightarrow> (string \<Rightarrow> string result) \<Rightarrow> ('x client_host_scheme, 'op) rpc_api \<Rightarrow>
    sdk_config \<Rightarrow> 'op client_call \<Rightarrow> 'x client_host_scheme \<Rightarrow> client_answer \<times> 'x client_host_scheme" where
  "client_step schemeOf keyOf api conf (Submits ops source) w =
     map_prod Submitted id (submitTransactionUnlocked api conf ops source w)"
| "client_step schemeOf keyOf api conf (Simulates ops source opts) w =
     map_prod Simulated id (clientSimulate api conf ops source opts w)"
| "client_step schemeOf keyOf api conf AsksHealth w = map_prod Healthy id (clientIsHealthy api conf w)"
| "client_step schemeOf keyOf api conf AsksLedger w = map_prod Ledger id (getCurrentLedger api conf w)"
| "client_step schemeOf keyOf api conf (AsksAccount key) w = map_prod Account id (clientGetAccount api conf key w)"
| "client_step schemeOf keyOf api conf (SetsNetwork net given) w =
     map_prod NetworkSet id (setNetwork schemeOf keyOf conf net given w)"

fun client_run :: "(string \<Rightarrow> string option) \<Rightarrow> (string \<Rightarrow> string result) \<Rightarrow> ('x client_host_scheme, 'op) rpc_api \<Rightarrow>
    sdk_config \<Rightarrow> 'op client_call list \<Rightarrow> 'x client_host_scheme \<Rightarrow> client_answer list \<times> 'x client_host_scheme" where
  "client_run schemeOf keyOf api conf [] w = ([], w)"
| "client_run schemeOf keyOf api conf (c # cs) w = (case client_step schemeOf keyOf api conf c w of
       (NetworkSet (Inl e), w1) \<Rightarrow> ([NetworkSet (Inl e)], w1)
     | (a, w1) \<Rightarrow> map_prod (\<lambda>as. a # as) id (client_run schemeOf keyOf api conf cs w1))"

text \<open>Two computations that agree within the configuration and do not leave it.\<close>

definition agree :: "(string \<Rightarrow> string option) \<Rightarrow> ('x client_host_scheme \<Rightarrow> 'a \<times> 'x client_host_scheme) \<Rightarrow>
    ('x client_host_scheme \<Rightarrow> 'a \<times> 'x client_host_scheme) \<Rightarrow> bool" where
  "agree schemeOf m m' \<longleftrightarrow> (\<forall>v. client_inv schemeOf v \<longrightarrow> m v = m' v \<and> client_inv schemeOf (snd (m' v)))"

lemma agreeD:
  "agree schemeOf m m' \<Longrightarrow> client_inv schemeOf v \<Longrightarrow> m v = (r, v') \<Longrightarrow> m' v = (r, v') \<and> client_inv schemeOf v'"
  unfolding agree_def by (metis snd_conv)

lemma agree_refl: "keeps_inv schemeOf m \<Longrightarrow> agree schemeOf m m"
  by (simp add: agree_def keeps_inv_def)

lemma agree_retW [intro, simp]: "agree schemeOf (retW x) (retW x)"
  by (simp add: agree_def retW_def)

lemma agree_bindW [intro]:
  fixes m :: "('x client_host_scheme, 'e, 'a) act"
  assumes "agree schemeOf m m'" and "\<And>x. agree schemeOf (f x) (f' x)"
  shows "agree schemeOf (bindW m f) (bindW m' f')"
  unfolding agree_def
proof (intro allI impI)
  fix v :: "'x client_host_scheme" assume v: "client_inv schemeOf v"
  obtain r v1 where m: "m v = (r, v1)" by fastforce
  have m': "m' v = (r, v1)" and inv: "client_inv schemeOf v1"
    using agreeD[OF assms(1) v m] by auto
  show "bindW m f v = bindW m' f' v \<and> client_inv schemeOf (snd (bindW m' f' v))"
    using assms(2)[unfolded agree_def, rule_format, OF inv] m m' inv
    by (cases r) (simp_all add: bindW_def)
qed

lemma confined_simps [simp]:
  "acquireToken (confined schemeOf other api) = acquireToken api" "sleepMs (confined schemeOf other api) = sleepMs api"
  "rpcGetTransaction (confined schemeOf other api) = rpcGetTransaction api" "pollWait (confined schemeOf other api) = pollWait api"
  "assembleTx (confined schemeOf other api) = assembleTx api" "signTx (confined schemeOf other api) = signTx api"
  "signerKey (confined schemeOf other api) = signerKey api"
  by (simp_all add: confined_def)

lemma fallback_loop_api:
  "acquireToken api = acquireToken api' \<Longrightarrow> sleepMs api = sleepMs api' \<Longrightarrow>
    fallback_loop api opts fn lbl n e w = fallback_loop api' opts fn lbl n e w"
  by (induction n arbitrary: e w) (simp_all split: prod.splits sum.splits)

lemma agree_fallback:
  fixes api :: "('x client_host_scheme, 'op) rpc_api"
  assumes api: "api_keeps schemeOf api" and fn: "\<And>u. keeps_inv schemeOf (fn u)"
    and eq: "\<And>u v. allowed schemeOf v u \<Longrightarrow> fn u v = fn' u v"
  shows "agree schemeOf (executeWithFallback api conf fn lbl) (executeWithFallback (confined schemeOf other api) conf fn' lbl)"
  unfolding agree_def
proof (intro allI impI)
  fix w :: "'x client_host_scheme" assume w: "client_inv schemeOf w"
  have same: "fallback_loop (confined schemeOf other api) opts fn' lbl n e v = fallback_loop api opts fn' lbl n e v" for opts n e v
    by (rule fallback_loop_api) simp_all
  have "fallback_loop api opts fn lbl n e w = fallback_loop api opts fn' lbl n e w \<and>
    client_inv schemeOf (snd (fallback_loop api opts fn' lbl n e w))" for opts n e
  proof (rule fallback_loop_cong[OF _ _ _ _ w])
    show "fn (serverUrl v) v = fn' (serverUrl v) v" if "client_inv schemeOf v" for v
      by (rule eq) (use that in \<open>auto simp: client_inv_def allowed_def list_all_iff\<close>)
  qed (use api fn in \<open>auto simp: api_keeps_def keeps_inv_def\<close>)
  then show "executeWithFallback api conf fn lbl w = executeWithFallback (confined schemeOf other api) conf fn' lbl w \<and>
      client_inv schemeOf (snd (executeWithFallback (confined schemeOf other api) conf fn' lbl w))"
    by (simp add: executeWithFallback_def same)
qed

lemma agree_fallbacks:
  assumes "api_keeps schemeOf api"
  shows
    "agree schemeOf (executeWithFallback api conf (\<lambda>u. rpcAccount api u k) lbl)
       (executeWithFallback (confined schemeOf other api) conf (\<lambda>u. rpcAccount (confined schemeOf other api) u k) lbl)"
    "agree schemeOf (executeWithFallback api conf (\<lambda>u. rpcSimulate api u t) lbl)
       (executeWithFallback (confined schemeOf other api) conf (\<lambda>u. rpcSimulate (confined schemeOf other api) u t) lbl)"
    "agree schemeOf (executeWithFallback api conf (\<lambda>u. rpcSend api u b) lbl)
       (executeWithFallback (confined schemeOf other api) conf (\<lambda>u. rpcSend (confined schemeOf other api) u b) lbl)"
    "agree schemeOf (executeWithFallback api conf (rpcHealth api) lbl)
       (executeWithFallback (confined schemeOf other api) conf (rpcHealth (confined schemeOf other api)) lbl)"
    "agree schemeOf (executeWithFallback api conf (rpcLedger api) lbl)
       (executeWithFallback (confined schemeOf other api) conf (rpcLedger (confined schemeOf other api)) lbl)"
  by (rule agree_fallback[OF assms]; use assms in \<open>simp add: api_keeps_def confined_def\<close>)+

lemma poll_keeps_inv:
  assumes get: "keeps_inv schemeOf (get h)" and wait: "\<And>d. keeps_inv schemeOf (wait d)"
  shows "keeps_inv schemeOf (poll get (\<lambda>_. False) wait h opts)"
proof -
  have "client_inv schemeOf w \<Longrightarrow>
      client_inv schemeOf (snd (poll_loop get (\<lambda>_. False) wait strat factor maxInt h n attempt v w))"
    for strat factor maxInt n attempt v w
  proof (induction "nat (n + 1 - attempt)" arbitrary: attempt v w rule: less_induct)
    case less
    obtain g w1 where g: "get h w = (g, w1)" by fastforce
    then have w1: "client_inv schemeOf w1" using get less.prems unfolding keeps_inv_def by (metis snd_conv)
    have w2: "client_inv schemeOf w2" if "wait d w1 = (b, w2)" for d b w2
      using wait[of d] w1 that unfolding keeps_inv_def by (metis snd_conv)
    have rec: "\<not> n < attempt \<Longrightarrow> wait d w1 = (b, w2) \<Longrightarrow>
        client_inv schemeOf (snd (poll_loop get (\<lambda>_. False) wait strat factor maxInt h n (attempt + 1) v' w2))" for d b w2 v'
      using less.hyps[of "attempt + 1" w2 v'] w2 by simp
    show ?case using g w1 less.prems rec w2
      by (subst poll_loop.simps) (auto simp: Let_def poll_delay_def split: sum.splits prod.splits)
  qed
  then show ?thesis by (simp add: keeps_inv_def poll_def Let_def)
qed

lemma inv_fields [simp]:
  "client_inv schemeOf (w\<lparr>pollerUrl := p\<rparr>) = client_inv schemeOf w"
  "client_inv schemeOf (w\<lparr>publicKeyCache := k\<rparr>) = client_inv schemeOf w"
  by (simp_all add: client_inv_def)

lemma agree_poll:
  fixes api :: "('x client_host_scheme, 'op) rpc_api"
  assumes "api_keeps schemeOf api"
  shows "agree schemeOf (pollTransaction api conf h) (pollTransaction (confined schemeOf other api) conf h)"
proof -
  have "keeps_inv schemeOf (poll (rpcGetTransaction api u) (\<lambda>_. False) (pollWait api) h opts)" for u opts
    by (rule poll_keeps_inv) (use assms in \<open>simp_all add: api_keeps_def\<close>)
  then show ?thesis by (simp add: agree_def pollTransaction_def Let_def keeps_inv_def)
qed

lemma agree_key:
  fixes api :: "('x client_host_scheme, 'op) rpc_api"
  assumes "api_keeps schemeOf api"
  shows "agree schemeOf (resolvePublicKey api conf) (resolvePublicKey (confined schemeOf other api) conf)"
proof -
  have "client_inv schemeOf (snd (signerKey api s v))" if "client_inv schemeOf v" for s v
    using assms that by (simp add: api_keeps_def keeps_inv_def)
  then show ?thesis unfolding agree_def resolvePublicKey_def
    by (auto split: option.splits sum.splits prod.splits) (metis snd_conv)+
qed

lemma agree_signAndSend:
  fixes api :: "('x client_host_scheme, 'op) rpc_api"
  assumes "api_keeps schemeOf api"
  shows "agree schemeOf (signAndSend api conf tx sim) (signAndSend (confined schemeOf other api) conf tx sim)"
proof -
  have one: "agree schemeOf
      (bindW (signTx api s t) (\<lambda>signed. bindW (executeWithFallback api conf (\<lambda>u. rpcSend api u signed) l) (\<lambda>(a, b). retW (g a b))))
      (bindW (signTx api s t) (\<lambda>signed. bindW (executeWithFallback (confined schemeOf other api) conf
         (\<lambda>u. rpcSend (confined schemeOf other api) u signed) l) (\<lambda>(a, b). retW (g a b))))"
    for s t l and g :: "string \<Rightarrow> string \<Rightarrow> sdk_result + string"
  proof (intro agree_bindW agree_fallbacks assms)
    show "agree schemeOf (signTx api s t) (signTx api s t)"
      by (rule agree_refl) (use assms in \<open>simp add: api_keeps_def\<close>)
  qed (simp split: prod.splits)
  show ?thesis
    unfolding agree_def signAndSend_def confined_simps
    using one[unfolded agree_def, rule_format] by (auto split: option.splits)
qed

lemma agree_sendStages:
  fixes api :: "('x client_host_scheme, 'op) rpc_api"
  assumes "api_keeps schemeOf api"
  shows "agree schemeOf (sendStages api conf ops source) (sendStages (confined schemeOf other api) conf ops source)"
proof -
  have stage: "agree schemeOf
      (\<lambda>w. bindW (executeWithFallback api conf (\<lambda>u. rpcSimulate api u (t w)) l) (\<lambda>sim.
         case sim of SimSuccess _ \<Rightarrow> signAndSend api conf (t w) sim | _ \<Rightarrow> retW r) w)
      (\<lambda>w. bindW (executeWithFallback (confined schemeOf other api) conf (\<lambda>u. rpcSimulate (confined schemeOf other api) u (t w)) l) (\<lambda>sim.
         case sim of SimSuccess _ \<Rightarrow> signAndSend (confined schemeOf other api) conf (t w) sim | _ \<Rightarrow> retW r) w)"
    for t l r
    unfolding agree_def
  proof (intro allI impI)
    fix v :: "'x client_host_scheme" assume v: "client_inv schemeOf v"
    have "agree schemeOf (case sim of SimSuccess _ \<Rightarrow> signAndSend api conf (t v) sim | _ \<Rightarrow> retW r)
        (case sim of SimSuccess _ \<Rightarrow> signAndSend (confined schemeOf other api) conf (t v) sim | _ \<Rightarrow> retW r)" for sim
      using agree_signAndSend[OF assms] by (cases sim) simp_all
    from agree_bindW[OF agree_fallbacks(2)[OF assms] this, unfolded agree_def, rule_format, OF v]
    show "bindW (executeWithFallback api conf (\<lambda>u. rpcSimulate api u (t v)) l) (\<lambda>sim.
         case sim of SimSuccess _ \<Rightarrow> signAndSend api conf (t v) sim | _ \<Rightarrow> retW r) v =
      bindW (executeWithFallback (confined schemeOf other api) conf (\<lambda>u. rpcSimulate (confined schemeOf other api) u (t v)) l) (\<lambda>sim.
         case sim of SimSuccess _ \<Rightarrow> signAndSend (confined schemeOf other api) conf (t v) sim | _ \<Rightarrow> retW r) v \<and>
      client_inv schemeOf (snd (bindW (executeWithFallback (confined schemeOf other api) conf (\<lambda>u. rpcSimulate (confined schemeOf other api) u (t v)) l) (\<lambda>sim.
         case sim of SimSuccess _ \<Rightarrow> signAndSend (confined schemeOf other api) conf (t v) sim | _ \<Rightarrow> retW r) v))" .
  qed
  show ?thesis unfolding sendStages_def Let_def
    by (intro agree_bindW agree_fallbacks[OF assms] stage)
      (use agree_key[OF assms] in \<open>simp split: option.splits\<close>)
qed

lemma agree_submit:
  fixes api :: "('x client_host_scheme, 'op) rpc_api"
  assumes "api_keeps schemeOf api"
  shows "agree schemeOf (submitTransactionUnlocked api conf ops source)
    (submitTransactionUnlocked (confined schemeOf other api) conf ops source)"
  unfolding agree_def
proof (intro allI impI)
  fix v :: "'x client_host_scheme" assume v: "client_inv schemeOf v"
  obtain r v1 where r: "sendStages api conf ops source v = (r, v1)" by fastforce
  have r': "sendStages (confined schemeOf other api) conf ops source v = (r, v1)" "client_inv schemeOf v1"
    using agreeD[OF agree_sendStages[OF assms] v r] by auto
  show "submitTransactionUnlocked api conf ops source v = submitTransactionUnlocked (confined schemeOf other api) conf ops source v \<and>
      client_inv schemeOf (snd (submitTransactionUnlocked (confined schemeOf other api) conf ops source v))"
    using r r' agree_poll[OF assms, where other = other, unfolded agree_def, rule_format, OF r'(2)]
    unfolding submitTransactionUnlocked_def by (auto split: sum.splits)
qed

lemma agree_simulate:
  fixes api :: "('x client_host_scheme, 'op) rpc_api"
  assumes "api_keeps schemeOf api"
  shows "agree schemeOf (clientSimulate api conf ops source opts) (clientSimulate (confined schemeOf other api) conf ops source opts)"
proof -
  have stage: "agree schemeOf
      (\<lambda>w. executeWithFallback api conf (\<lambda>u. rpcSimulate api u (t w)) l w)
      (\<lambda>w. executeWithFallback (confined schemeOf other api) conf (\<lambda>u. rpcSimulate (confined schemeOf other api) u (t w)) l w)" for t l
    using agree_fallbacks(2)[OF assms] unfolding agree_def by blast
  have "agree schemeOf
      (bindW (executeWithFallback api conf (\<lambda>u. rpcAccount api u k) l) (\<lambda>seq v.
        executeWithFallback api conf (\<lambda>u. rpcSimulate api u (buildTx k seq fee ops timeout v)) l' v))
      (bindW (executeWithFallback (confined schemeOf other api) conf (\<lambda>u. rpcAccount (confined schemeOf other api) u k) l) (\<lambda>seq v.
        executeWithFallback (confined schemeOf other api) conf (\<lambda>u. rpcSimulate (confined schemeOf other api) u (buildTx k seq fee ops timeout v)) l' v))"
    for k l l' fee timeout by (intro agree_bindW agree_fallbacks[OF assms] stage)
  then show ?thesis unfolding agree_def clientSimulate_def Let_def by (auto split: sum.splits)
qed

lemma agree_others:
  assumes "api_keeps schemeOf api"
  shows "agree schemeOf (clientIsHealthy api conf) (clientIsHealthy (confined schemeOf other api) conf)"
    and "agree schemeOf (getCurrentLedger api conf) (getCurrentLedger (confined schemeOf other api) conf)"
    and "agree schemeOf (clientGetAccount api conf key) (clientGetAccount (confined schemeOf other api) conf key)"
proof -
  show "agree schemeOf (clientIsHealthy api conf) (clientIsHealthy (confined schemeOf other api) conf)"
    using agree_fallbacks(4)[OF assms, of conf "''getHealth''"] unfolding agree_def clientIsHealthy_def
    by (auto split: sum.splits prod.splits) (metis snd_conv)+
  show "agree schemeOf (getCurrentLedger api conf) (getCurrentLedger (confined schemeOf other api) conf)"
    unfolding getCurrentLedger_def by (rule agree_fallbacks[OF assms])
  show "agree schemeOf (clientGetAccount api conf key) (clientGetAccount (confined schemeOf other api) conf key)"
    unfolding clientGetAccount_def
    by (intro agree_bindW agree_fallbacks[OF assms]) (use agree_key[OF assms] in \<open>simp split: option.splits\<close>)
qed

lemma client_step_agrees:
  assumes "api_keeps schemeOf api" and "client_inv schemeOf w"
  shows "client_step schemeOf keyOf api conf c w = client_step schemeOf keyOf (confined schemeOf other api) conf c w \<and>
    (client_inv schemeOf (snd (client_step schemeOf keyOf (confined schemeOf other api) conf c w)) \<or>
     (\<exists>e. fst (client_step schemeOf keyOf (confined schemeOf other api) conf c w) = NetworkSet (Inl e)))"
proof (cases c)
  case (SetsNetwork net given)
  obtain r w1 where "setNetwork schemeOf keyOf conf net given w = (r, w1)" by fastforce
  then show ?thesis using SetsNetwork setNetwork_inv[of schemeOf keyOf conf net given w w1] by (cases r) auto
next
  case (Submits ops source)
  then show ?thesis using agree_submit[OF assms(1), where other = other, unfolded agree_def, rule_format, OF assms(2)] by simp
next
  case (Simulates ops source opts)
  then show ?thesis using agree_simulate[OF assms(1), where other = other, unfolded agree_def, rule_format, OF assms(2)] by simp
next
  case (AsksAccount key)
  then show ?thesis using agree_others(3)[OF assms(1), where other = other, unfolded agree_def, rule_format, OF assms(2)] by simp
qed (use agree_others(1,2)[OF assms(1), where other = other, unfolded agree_def, rule_format, OF assms(2)] in simp_all)


section \<open>What a submission reports\<close>

lemma poll_loop_result:
  "poll_loop get ab wait strat factor maxInt h n attempt v w = (r, w') \<Longrightarrow>
   res_txHash r = Some h \<and> (success r \<longrightarrow>
     (\<exists>u u' st. get h u = (Inr st, u') \<and> r_status st = ''SUCCESS'' \<and> res_data r = Some (h, ledger_or_0 (r_ledger st))))"
proof (induction "nat (n + 1 - attempt)" arbitrary: attempt v w rule: less_induct)
  case less
  have rec: "\<not> n < attempt \<Longrightarrow> attempt < n \<Longrightarrow>
      poll_loop get ab wait strat factor maxInt h n (attempt + 1) v1 w1 = (r, w') \<Longrightarrow> ?case" for v1 w1
    by (rule less.hyps) auto
  have results: "res_txHash (abortedResult h) = Some h" "\<not> success (abortedResult h)"
    "res_txHash (failedResult h) = Some h" "\<not> success (failedResult h)"
    "res_txHash (exhaustedResult h v1) = Some h" "\<not> success (exhaustedResult h v1)"
    "res_txHash (confirmedResult h st) = Some h" "res_data (confirmedResult h st) = Some (h, ledger_or_0 (r_ledger st))"
    for v1 st
    by (simp_all add: abortedResult_def failedResult_def exhaustedResult_def confirmedResult_def)
  obtain g w1 where g: "get h w = (g, w1)" by fastforce
  have said: "g = Inr st \<Longrightarrow> r_status st = ''SUCCESS'' \<Longrightarrow> \<exists>u u' st'. get h u = (Inr st', u') \<and>
      r_status st' = ''SUCCESS'' \<and> ledger_or_0 (r_ledger st) = ledger_or_0 (r_ledger st')" for st
    using g by blast
  show ?case
  proof (cases g)
    case (Inl e)
    then show ?thesis using less.prems g results rec
      by (subst (asm) poll_loop.simps) (auto simp: Let_def split: if_splits prod.splits)
  next
    case (Inr st)
    then show ?thesis using less.prems g results rec said
      by (subst (asm) poll_loop.simps) (auto simp: Let_def split: if_splits prod.splits, blast+)
  qed
qed

lemma poll_result:
  "poll get ab wait h opts w = (r, w') \<Longrightarrow>
   res_txHash r = Some h \<and> (success r \<longrightarrow>
     (\<exists>u u' st. get h u = (Inr st, u') \<and> r_status st = ''SUCCESS'' \<and> res_data r = Some (h, ledger_or_0 (r_ledger st))))"
  by (auto simp: poll_def Let_def dest: poll_loop_result)

lemma sendStages_Inr:
  fixes w :: "'x client_host_scheme"
  assumes "sendStages api conf ops source w = (Inr y, w')"
  shows "y = Inl (failure ''SIMULATION_FAILED'' ''Transaction simulation failed'') \<or>
    (\<exists>tx sim v. signAndSend api conf tx sim v = (Inr y, w'))"
proof -
  obtain key v seq sim v2 and v1 :: "'x client_host_scheme" where
    "(case sim of SimSuccess _ \<Rightarrow> signAndSend api conf (buildTx key seq ''100'' ops (sorobanTimeout (networkConfig v1)) v1) sim
      | _ \<Rightarrow> retW (Inl (failure ''SIMULATION_FAILED'' ''Transaction simulation failed''))) v2 = (Inr y, w')"
    using assms unfolding sendStages_def Let_def bindW_Inr by (elim exE conjE) (erule that)
  then show ?thesis by (cases sim) (auto simp: retW_def)
qed

lemma signAndSend_Inr:
  assumes "signAndSend api conf tx sim w = (Inr y, w')"
  shows "(\<exists>c m. y = Inl (failure c m)) \<or>
    (\<exists>h u signed st v v'. y = Inr h \<and> rpcSend api u signed v = (Inr (st, h), v') \<and> st \<noteq> ''ERROR'')"
proof (cases "signerOf w")
  case None
  then show ?thesis using assms by (auto simp: signAndSend_def)
next
  case (Some s)
  then obtain signed v st h v1 where send: "executeWithFallback api conf (\<lambda>u. rpcSend api u signed) ''sendTransaction'' v = (Inr (st, h), v1)"
    and y: "y = (if st = ''ERROR'' then Inl (failure ''SUBMIT_FAILED'' ''Transaction submission failed'') else Inr h)"
    using assms by (auto simp: signAndSend_def bindW_Inr retW_def)
  from executeWithFallback_Inr[OF send] y show ?thesis by (cases "st = ''ERROR''") (auto, blast)
qed

lemma sendStages_hash:
  assumes "sendStages api conf ops source w = (Inr (Inr h), w')"
  shows "\<exists>u signed st v v'. rpcSend api u signed v = (Inr (st, h), v') \<and> st \<noteq> ''ERROR''"
  using sendStages_Inr[OF assms] by (auto dest!: signAndSend_Inr) blast

lemma sendStages_no_success:
  "sendStages api conf ops source w = (Inr (Inl r), w') \<Longrightarrow> \<not> success r \<and> res_txHash r = None"
  by (drule sendStages_Inr) (auto simp: failure_def dest: signAndSend_Inr)

text \<open>What a server has said of a hash, at any time: \<open>sendTransaction\<close> answered it without ERROR;
  \<open>getTransaction\<close> answered SUCCESS for it, in a ledger.\<close>

definition was_sent :: "('w, 'op) rpc_api \<Rightarrow> string \<Rightarrow> bool" where
  "was_sent api h \<longleftrightarrow> (\<exists>u signed st v v'. rpcSend api u signed v = (Inr (st, h), v') \<and> st \<noteq> ''ERROR'')"

definition was_confirmed :: "('w, 'op) rpc_api \<Rightarrow> string \<Rightarrow> int \<Rightarrow> bool" where
  "was_confirmed api h l \<longleftrightarrow> (\<exists>u v v' resp. rpcGetTransaction api u h v = (Inr resp, v') \<and>
     r_status resp = ''SUCCESS'' \<and> l = ledger_or_0 (r_ledger resp))"

text \<open>C14: Success means confirmed. A submission reports success only with a hash that was sent and for which
  a server answered SUCCESS; the data are that hash and its ledger. A result that names a hash
  names one that was sent.\<close>

theorem submit_success_confirmed:
  assumes "submitTransactionUnlocked api conf ops source w = (r, w')"
  shows "(success r \<longrightarrow> (\<exists>h l. was_sent api h \<and> was_confirmed api h l \<and> res_data r = Some (h, l) \<and> res_txHash r = Some h)) \<and>
    (\<forall>h. res_txHash r = Some h \<longrightarrow> was_sent api h)"
proof -
  obtain s w1 where s: "sendStages api conf ops source w = (s, w1)" by fastforce
  consider e where "s = Inl e" | r' where "s = Inr (Inl r')" | h where "s = Inr (Inr h)"
    by (cases s; cases "projr s") auto
  then show ?thesis
  proof cases
    case 1
    then show ?thesis using assms s by (auto simp: submitTransactionUnlocked_def failure_def)
  next
    case 2
    then show ?thesis using assms s sendStages_no_success[of api conf ops source w r' w1]
      by (auto simp: submitTransactionUnlocked_def)
  next
    case (3 h)
    then have sent: "was_sent api h" using sendStages_hash[of api conf ops source w h w1] s
      by (simp add: was_sent_def)
    have "pollTransaction api conf h w1 = (r, w')" using assms s 3 by (simp add: submitTransactionUnlocked_def)
    from poll_result[OF this[unfolded pollTransaction_def Let_def]]
    have "res_txHash r = Some h" "success r \<Longrightarrow> \<exists>l. was_confirmed api h l \<and> res_data r = Some (h, l)"
      unfolding was_confirmed_def by blast+
    then show ?thesis using sent by auto
  qed
qed

text \<open>A call with fallback makes at most \<open>maxRetries + 1\<close> dispatches (and one for a negative \<open>maxRetries\<close>) per endpoint in the pool. The
  count is any quantity of the world outside the client that a dispatch raises by at most one.\<close>

theorem fallback_calls_bounded:
  fixes calls :: "'x \<Rightarrow> nat"
  defines "N \<equiv> \<lambda>w :: 'x client_host_scheme. calls (client_host.more w)"
  assumes acq: "\<And>w. N (snd (acquireToken api w)) = N w" and fn: "\<And>u w. N (snd (fn u w)) \<le> Suc (N w)"
    and slp: "\<And>d w. N (sleepMs api d w) = N w"
  shows "N (snd (executeWithFallback api conf fn lbl w)) \<le> N w +
    pool_size (connPool w) * max 1 (nat (maxRetries (getRetryOptions conf (clock w)) + 1))"
proof -
  let ?opts = "getRetryOptions conf (clock w)"
  let ?m = "max 1 (nat (maxRetries ?opts + 1))"
  let ?g = "bindW (acquireToken api) (\<lambda>_ v. fn (serverUrl v) v)"
  have g: "N (snd (?g v)) \<le> Suc (N v)" for v
    using acq[of v] fn[of "serverUrl (snd (acquireToken api v))" "snd (acquireToken api v)"]
    by (cases "acquireToken api v"; cases "fst (acquireToken api v)") (auto simp: bindW_def)
  have host: "N (upd_breaker r f v) = N v" "N (snd (getCircuitBreaker l o' v)) = N v" for r f v l o'
    by (simp_all add: N_def upd_breaker_def getCircuitBreaker_def Let_def split: option.splits)
  have one: "N (snd (withRetry (sleepMs api) ?g ?opts l v)) \<le> N v + ?m" for l v
  proof -
    have "\<exists>j. N (snd (withRetry (sleepMs api) ?g ?opts l v)) \<le> N v + j \<and>
      j \<le> (if \<not> admits (clock v) (stateAt l (circuitBreaker ?opts) v) then 0
          else if getState (clock v) (stateAt l (circuitBreaker ?opts) v) = HalfOpen then 1
          else nat (maxRetries ?opts + 1))"
    proof (rule withRetry_inv[where I = "\<lambda>k u. N u \<le> N v + k"])
      fix k u assume "N u \<le> N v + k"
      then show "N (snd (?g u)) \<le> N v + Suc k" using g[of u] by linarith
    qed (simp_all add: host slp)
    then show ?thesis by (auto split: if_splits)
  qed
  have "N (snd (fallback_loop api ?opts fn lbl n e v)) \<le> N v + n * ?m" for n e v
  proof (induction n arbitrary: e v)
    case (Suc n)
    obtain x p where e: "getEndpoint (clock v) (connPool v) = (x, p)" by fastforce
    have pool: "N (switchServer u (v\<lparr>connPool := p\<rparr>)) = N v" "N (u'\<lparr>connPool := q\<rparr>) = N u'" for u u' q
      by (simp_all add: N_def switchServer_def)
    show ?case
    proof (cases x)
      case (Inl err)
      then show ?thesis using e pool by simp
    next
      case (Inr u)
      obtain res w2 where r: "withRetry (sleepMs api) ?g ?opts (endpointLabel lbl u)
          (switchServer u (v\<lparr>connPool := p\<rparr>)) = (res, w2)" by fastforce
      have "N w2 \<le> N v + ?m" using one[of "endpointLabel lbl u" "switchServer u (v\<lparr>connPool := p\<rparr>)"] r pool by simp
      moreover have "N (snd (fallback_loop api ?opts fn lbl n err (w2\<lparr>connPool := q\<rparr>))) \<le> N w2 + n * ?m" for err q
        using Suc.IH[of err "w2\<lparr>connPool := q\<rparr>"] pool by simp
      moreover have "N w2 \<le> N v + ?m \<Longrightarrow> N w2 \<le> N v + Suc n * ?m" by (simp only: mult_Suc)
      moreover have "k \<le> N w2 + n * ?m \<Longrightarrow> N w2 \<le> N v + ?m \<Longrightarrow> k \<le> N v + Suc n * ?m" for k
        by (simp only: mult_Suc)
      ultimately show ?thesis using e Inr r pool(2)
        by (cases res) (simp_all del: max_def mult_Suc)
    qed
  qed simp
  then show ?thesis by (simp add: executeWithFallback_def)
qed

text \<open>A submission whose sending throws, or whose answer is lost, is reported without a hash, whatever
  reached the network; every module that resolves a failure by its hash has nothing to ask for.\<close>

lemma thrown_has_no_hash:
  "sendStages api conf ops source w = (Inl err, w') \<Longrightarrow>
   submitTransactionUnlocked api conf ops source w = (failure ''UNEXPECTED_ERROR'' (unexpected_message err), w')"
  by (simp add: submitTransactionUnlocked_def)

section \<open>Changing the network\<close>

text \<open>A successful change of network leaves the poller where it was: when one was in use, confirmations of
  the new network are asked of the server of the old one.\<close>

theorem setNetwork_keeps_poller:
  assumes "setNetwork schemeOf keyOf conf net given w = (r, w')" and "pollerUrl w = Some u"
  shows "pollerUrl w' = Some u \<and>
    pollTransaction api conf h w' = poll (rpcGetTransaction api u) (\<lambda>_. False) (pollWait api) h (confPolling conf) w'"
proof -
  have "pollerUrl w' = Some u" using assms
    by (auto simp: setNetwork_def Let_def split: sum.splits option.splits)
  then show ?thesis by (simp add: pollTransaction_def)
qed

text \<open>With both a signer and a secret key configured the constructor takes the signer, a change of network
  the key.\<close>

theorem setNetwork_drops_external_signer:
  assumes "confSigner conf = Some s" and "confSecretKey conf = Some key"
    and "new_client schemeOf keyOf conf h extra = Inr w" and "setNetwork schemeOf keyOf conf net given v = (Inr (), w')"
  shows "signerOf w = Some s \<and> (\<exists>p k. signerOf w' = Some (KeypairSigner p k) \<and> publicKeyCache w' = Some k)"
  using assms by (auto simp: new_client_def setNetwork_def newKeypairSigner_def Let_def result_simps
      split: sum.splits if_splits)

text \<open>When the new URLs are refused the change has half happened: the client signs for the new network
  and still talks to the servers of the old one.\<close>

theorem setNetwork_half_done:
  assumes "validateRpcUrls schemeOf us net = Inl e"
  shows "\<exists>w'. setNetwork schemeOf keyOf conf net (Some us) w = (Inl e, w') \<and> network w' = net \<and>
    networkPassphrase (networkConfig w') = networkPassphrase (NETWORK_CONFIGS net) \<and>
    serverUrl w' = serverUrl w \<and> connPool w' = connPool w \<and> activeUrl w' = activeUrl w"
  using assms by (simp add: setNetwork_def Let_def)

section \<open>The submission queue\<close>

text \<open>
  \<open>submitTransaction\<close> chains every call to the settling of the one before. The state of the queue is
  the state of every call, in the order of the calls.
\<close>

datatype call_state = Queued | Running | Settled

datatype queue_event = Call | Begin nat | End nat

definition queue_step :: "call_state list \<Rightarrow> queue_event \<Rightarrow> call_state list" where
  "queue_step q e = (case e of
       Call \<Rightarrow> q @ [Queued]
     | Begin i \<Rightarrow> if i < length q \<and> q ! i = Queued \<and> (i = 0 \<or> q ! (i - 1) = Settled) then q[i := Running] else q
     | End i \<Rightarrow> if i < length q \<and> q ! i = Running then q[i := Settled] else q)"

definition queue_inv :: "call_state list \<Rightarrow> bool" where
  "queue_inv q \<longleftrightarrow> (\<forall>i j. i < j \<longrightarrow> j < length q \<longrightarrow> q ! j \<noteq> Queued \<longrightarrow> q ! i = Settled)"

lemma queue_step_inv: "queue_inv q \<Longrightarrow> queue_inv (queue_step q e)"
proof (cases e)
  case Call
  then show "queue_inv q \<Longrightarrow> ?thesis" by (auto simp: queue_inv_def queue_step_def nth_append)
next
  case (Begin k)
  assume inv: "queue_inv q"
  show ?thesis unfolding queue_inv_def
  proof (intro allI impI)
    fix i j assume ij: "i < j" "j < length (queue_step q e)" "queue_step q e ! j \<noteq> Queued"
    show "queue_step q e ! i = Settled"
    proof (cases "j = k \<and> k < length q \<and> q ! k = Queued \<and> (k = 0 \<or> q ! (k - 1) = Settled)")
      case True
      then have "q ! (k - 1) = Settled" "i = k - 1 \<or> i < k - 1" using ij(1) by auto
      then have "q ! i = Settled" using inv True unfolding queue_inv_def
        by (metis call_state.distinct(4) diff_less ij(1) less_imp_diff_less less_nat_zero_code zero_less_one not_gr_zero)
      then show ?thesis using Begin True ij(1) by (simp add: queue_step_def)
    next
      case False
      then have "q ! j \<noteq> Queued" "j < length q"
        using ij(2,3) Begin by (auto simp: queue_step_def nth_list_update split: if_splits)
      then have "q ! i = Settled" using inv ij(1) unfolding queue_inv_def by blast
      then show ?thesis using Begin by (auto simp: queue_step_def nth_list_update split: if_splits)
    qed
  qed
next
  case (End k)
  assume "queue_inv q"
  then show ?thesis using End
    by (fastforce simp: queue_inv_def queue_step_def nth_list_update split: if_splits)
qed

interpretation submissions: invariant_machine queue_step queue_inv
  by unfold_locales (rule queue_step_inv)

text \<open>C28: Submissions are serialized in the order of the calls: at any time at most one is running, every one
  before it has settled, and none after it has begun.\<close>

theorem submissions_serialized:
  assumes "q = run_steps queue_step [] es" and "i < length q" and "q ! i = Running"
  shows "(\<forall>j < i. q ! j = Settled) \<and> (\<forall>j. i < j \<longrightarrow> j < length q \<longrightarrow> q ! j = Queued)"
proof -
  have "queue_inv q" unfolding assms(1) by (rule submissions.run_inv) (simp add: queue_inv_def)
  then show ?thesis using assms(2,3) unfolding queue_inv_def by (metis call_state.distinct(1,3,5))
qed

text \<open>A failed submission is a settled one, and never blocks the queue: whenever none is running, the
  first queued call can begin.\<close>

theorem queue_progresses:
  assumes "q = run_steps queue_step [] es" and "i < length q" and "q ! i = Queued"
    and "\<forall>j < length q. q ! j \<noteq> Running"
  shows "\<exists>j \<le> i. q ! j = Queued \<and> queue_step q (Begin j) ! j = Running"
proof -
  let ?j = "LEAST j. j < length q \<and> q ! j = Queued"
  have j: "?j < length q \<and> q ! ?j = Queued" by (rule LeastI[of _ i]) (use assms in simp)
  have le: "?j \<le> i" by (rule Least_le) (use assms in simp)
  have "q ! (?j - 1) = Settled" if "?j \<noteq> 0"
  proof -
    have lt: "?j - 1 < ?j" using that by simp
    then have "\<not> (?j - 1 < length q \<and> q ! (?j - 1) = Queued)" by (rule not_less_Least)
    moreover have "?j - 1 < length q" using j lt by linarith
    ultimately show ?thesis using assms(4) by (metis call_state.exhaust)
  qed
  then have "queue_step q (Begin ?j) ! ?j = Running" using j by (auto simp: queue_step_def)
  then show ?thesis using le j by blast
qed

section \<open>Instances\<close>

definition demo_scheme :: "string \<Rightarrow> string option" where
  "demo_scheme u = Some (if prefix ''https'' u then ''https'' else ''http'')"

definition demo_conf :: sdk_config where
  "demo_conf = \<lparr>confNetwork = TESTNET, confRpcUrls = Some [''https://a'', ''https://b''], confSecretKey = Some ''S'',
     confPublicKey = None, confSigner = Some (ExternalSigner ''wallet'' None), confMaxRetries = Some 1,
     confRetryDelayMs = None, confMaxRetryDelayMs = None, confDeadlineMs = None, confDeadlineSec = None,
     confPolling = \<lparr>strategy = None, interval = None, maxAttempts = None, backoffFactor = None, maxInterval = None\<rparr>\<rparr>"

text \<open>A network that answers everything, and one on which a transaction is taken but the answer to
  its sending is lost. The world counts the calls and the transactions taken.\<close>

definition tick :: "'a \<Rightarrow> ((nat \<times> nat) client_host_scheme, thrown, 'a) act" where
  "tick r w = (Inr r, client_host.more_update (map_prod Suc id) w)"

definition demo_api :: "bool \<Rightarrow> ((nat \<times> nat) client_host_scheme, unit) rpc_api" where
  "demo_api loses = (\<lparr>rpcAccount = (\<lambda>_ _. tick 7), rpcSimulate = (\<lambda>_ _. tick (SimSuccess None)),
      rpcSend = (\<lambda>_ _ w. (if loses then Inl (Rejected None (Some ''ETIMEDOUT'') (Some ''timeout'') [])
         else Inr (''PENDING'', ''hash''), client_host.more_update (map_prod Suc Suc) w)),
      rpcGetTransaction = (\<lambda>_ _. tick \<lparr>r_status = ''SUCCESS'', r_ledger = Some 9\<rparr>),
      rpcHealth = (\<lambda>_. tick ''healthy''), rpcLedger = (\<lambda>_. tick 9),
      assembleTx = (\<lambda>t _. t), signTx = (\<lambda>_ _. retW ''signed''), signerKey = (\<lambda>_. retW ''G''),
      acquireToken = retW (), sleepMs = (\<lambda>_ w. w), pollWait = (\<lambda>_ w. (False, w))\<rparr>)"

definition demo_start :: "(nat \<times> nat) client_host_scheme" where
  "demo_start = projr (new_client demo_scheme (\<lambda>_. Inr ''GKEY'') demo_conf (fresh_host ()) (0, 0))"

lemma demo_start_eq: "new_client demo_scheme (\<lambda>_. Inr ''GKEY'') demo_conf (fresh_host ()) (0, 0) = Inr demo_start"
proof -
  have "isl (new_client demo_scheme (\<lambda>_. Inr ''GKEY'') demo_conf (fresh_host ()) (0 :: nat, 0 :: nat)) = False"
    by code_simp
  then show ?thesis unfolding demo_start_def
    by (cases "new_client demo_scheme (\<lambda>_. Inr ''GKEY'') demo_conf (fresh_host ()) (0 :: nat, 0 :: nat)") auto
qed

lemma submit_success_confirmed_witness: "\<exists>l. was_confirmed (demo_api False) ''hash'' l"
proof -
  obtain r w' where r: "submitTransactionUnlocked (demo_api False) demo_conf [] None demo_start = (r, w')" by fastforce
  have "map_prod (\<lambda>r. (success r, res_txHash r)) (\<lambda>_. ()) (submitTransactionUnlocked (demo_api False) demo_conf [] None demo_start)
      = ((True, Some ''hash''), ())" by code_simp
  then have "success r" "res_txHash r = Some ''hash''" using r by simp_all
  with submit_success_confirmed[OF r] show ?thesis by auto
qed

text \<open>The lost answer: the transaction was taken four times (twice by each endpoint), and the result has
  neither data nor a hash to ask for.\<close>

theorem lost_send_reports_no_hash:
  "map_prod id client_host.more (submitTransactionUnlocked (demo_api True) demo_conf [] None demo_start)
   = (failure ''UNEXPECTED_ERROR'' ''timeout'', (6, 4))"
  by code_simp

lemma fallback_calls_bounded_witness:
  "fst (client_host.more (snd (executeWithFallback (demo_api True) demo_conf (\<lambda>u. rpcSend (demo_api True) u ''s'') ''x'' demo_start))) \<le> 4"
proof -
  have "pool_size (connPool demo_start) * max 1 (nat (maxRetries (getRetryOptions demo_conf (clock demo_start)) + 1)) = 4"
    "client_host.more demo_start = (0, 0)" by code_simp+
  with fallback_calls_bounded[where calls = fst and api = "demo_api True" and conf = demo_conf and lbl = "''x''"
      and fn = "\<lambda>u. rpcSend (demo_api True) u ''s''" and w = demo_start]
  show ?thesis by (simp add: demo_api_def tick_def retW_def)
qed

definition stray_api :: "((nat \<times> nat) client_host_scheme, unit) rpc_api" where
  "stray_api = (demo_api True)\<lparr>rpcHealth := (\<lambda>_. tick ''stray'')\<rparr>"


lemma setNetwork_keeps_poller_witness:
  "pollerUrl (snd (setNetwork demo_scheme (\<lambda>_. Inr ''GKEY'') demo_conf MAINNET None
     (demo_start\<lparr>pollerUrl := Some ''https://a''\<rparr>))) = Some ''https://a'' \<and>
   serverUrl (snd (setNetwork demo_scheme (\<lambda>_. Inr ''GKEY'') demo_conf MAINNET None
     (demo_start\<lparr>pollerUrl := Some ''https://a''\<rparr>))) = ''https://soroban.stellar.org''"
proof
  show "pollerUrl (snd (setNetwork demo_scheme (\<lambda>_. Inr ''GKEY'') demo_conf MAINNET None
     (demo_start\<lparr>pollerUrl := Some ''https://a''\<rparr>))) = Some ''https://a''"
    by (rule conjunct1[OF setNetwork_keeps_poller[OF prod.collapse[symmetric]]]) simp
  show "serverUrl (snd (setNetwork demo_scheme (\<lambda>_. Inr ''GKEY'') demo_conf MAINNET None
     (demo_start\<lparr>pollerUrl := Some ''https://a''\<rparr>))) = ''https://soroban.stellar.org''"
    by code_simp
qed

lemma setNetwork_drops_external_signer_witness:
  "signerOf demo_start = Some (ExternalSigner ''wallet'' None)"
proof -
  have "fst (setNetwork demo_scheme (\<lambda>_. Inr ''GKEY'') demo_conf TESTNET None demo_start) = Inr ()" by code_simp
  then obtain w' where "setNetwork demo_scheme (\<lambda>_. Inr ''GKEY'') demo_conf TESTNET None demo_start = (Inr (), w')"
    by (cases "setNetwork demo_scheme (\<lambda>_. Inr ''GKEY'') demo_conf TESTNET None demo_start") auto
  from setNetwork_drops_external_signer[OF _ _ demo_start_eq this, of "ExternalSigner ''wallet'' None" "''S''"]
  show ?thesis by (simp add: demo_conf_def)
qed

lemma submissions_serialized_witness:
  "run_steps queue_step [] [Call, Call, Begin 1, Begin 0, Begin 1] = [Running, Queued] \<and>
   [Running, Queued] ! Suc 0 = Queued"
proof -
  have q: "run_steps queue_step [] [Call, Call, Begin 1, Begin 0, Begin 1] = [Running, Queued]" by code_simp
  from submissions_serialized[OF q[symmetric], of 0] show ?thesis unfolding q by simp
qed

lemma queue_progresses_witness: "\<exists>j \<le> 0. [Queued] ! j = Queued \<and> queue_step [Queued] (Begin j) ! j = Running"
  by (rule queue_progresses[of "[Queued]" "[Call]" 0]) (simp_all add: queue_step_def)

end
