(* ===== verification/Staking.thy ===== *)
theory Staking
  imports ScVal Validation Submission
begin

text \<open>
  \<open>modules/staking.ts\<close>: staking of LP tokens. The state is the contract's, read by simulations that
  are not retried, and changed by submissions under \<open>idempotentResubmit\<close>, whose landed-check reads
  the staked balance. The record \<open>staking_env\<close> holds what the module calls.
\<close>

section \<open>Calls and reads\<close>

record remove_liquidity_request =
  rl_tokenA :: string
  rl_tokenB :: string
  rl_liquidity :: int
  rl_amountAMin :: int
  rl_amountBMin :: int
  rl_to :: string
  rl_deadline :: "int option"

datatype stake_call =
    GetStake string string
  | GetApy string
  | GetRewards string string
  | GetCooldown string string
  | StakeOp string string int
  | UnstakeOp string string int
  | ClaimOp string string
  | RemoveLiquidityOp remove_liquidity_request int

record 'w staking_env =
  readCall :: "stake_call \<Rightarrow> ('w, thrown, scval option) act"
  submitOps :: "stake_call list \<Rightarrow> ('w, thrown, sdk_result) act"
  signerPublicKey :: "('w, thrown, string) act"
  stakeSleep :: "rat \<Rightarrow> 'w \<Rightarrow> 'w"
  stakeValid :: "string \<Rightarrow> bool"
  clientDeadline :: "'w \<Rightarrow> int"
  addressText :: "scval \<Rightarrow> string"

text \<open>The entry of a map under a symbol; other keys are not seen.\<close>

definition symbolField :: "(scval \<times> scval) list option \<Rightarrow> string \<Rightarrow> scval option" where
  "symbolField m key = (case m of None \<Rightarrow> None
     | Some es \<Rightarrow> map_option snd (List.find (\<lambda>(k, _). k = ScvSymbol key) es))"

definition extractI128 :: "(scval \<times> scval) list option \<Rightarrow> string \<Rightarrow> int" where
  "extractI128 m key = (case symbolField m key of None \<Rightarrow> 0
     | Some v \<Rightarrow> (case decodeI128_strict v of Inr n \<Rightarrow> n | Inl _ \<Rightarrow> 0))"

definition extractU64 :: "(scval \<times> scval) list option \<Rightarrow> string \<Rightarrow> int" where
  "extractU64 m key = (case symbolField m key of Some (ScvU64 n) \<Rightarrow> n | _ \<Rightarrow> 0)"

definition extractU32 :: "(scval \<times> scval) list option \<Rightarrow> string \<Rightarrow> int" where
  "extractU32 m key = (case symbolField m key of Some (ScvU32 n) \<Rightarrow> n | _ \<Rightarrow> 0)"

definition map_of_scval :: "scval \<Rightarrow> (scval \<times> scval) list option" where
  "map_of_scval v = (case v of ScvMap m \<Rightarrow> m | _ \<Rightarrow> None)"

record staked_position =
  stakeAmount :: int
  stakedAt :: int
  positionCooldownEnd :: int

definition readTwo :: "'w staking_env \<Rightarrow> string \<Rightarrow> string \<Rightarrow> stake_call \<Rightarrow> ('w, thrown, scval option) act" where
  "readTwo e address lp call =
     bindW (liftW (validateAddress (stakeValid e) address ''address'')) (\<lambda>_.
     bindW (liftW (validateAddress (stakeValid e) lp ''lpTokenAddress'')) (\<lambda>_. readCall e call))"

definition getStakedBalance :: "'w staking_env \<Rightarrow> string \<Rightarrow> string \<Rightarrow> ('w, thrown, staked_position) act" where
  "getStakedBalance e address lp = bindW (readTwo e address lp (GetStake lp address)) (\<lambda>r.
     retW (case r of
       None \<Rightarrow> \<lparr>stakeAmount = 0, stakedAt = 0, positionCooldownEnd = 0\<rparr>
     | Some v \<Rightarrow> (let m = map_of_scval v in
         \<lparr>stakeAmount = extractI128 m ''amount'', stakedAt = extractU64 m ''staked_at'',
          positionCooldownEnd = extractU64 m ''cooldown_end''\<rparr>)))"

definition getStakingAPY :: "'w staking_env \<Rightarrow> string \<Rightarrow> ('w, thrown, rat) act" where
  "getStakingAPY e lp =
     bindW (liftW (validateAddress (stakeValid e) lp ''lpTokenAddress'')) (\<lambda>_.
     bindW (readCall e (GetApy lp)) (\<lambda>r. retW (case r of
       None \<Rightarrow> 0 | Some v \<Rightarrow> of_int (decodeU32 v) / 10000)))"

record staking_rewards =
  pendingRewards :: int
  claimedRewards :: int
  projectedAPY :: rat
  rewardToken :: string

definition getStakingRewards :: "'w staking_env \<Rightarrow> string \<Rightarrow> string \<Rightarrow> ('w, thrown, staking_rewards) act" where
  "getStakingRewards e address lp = bindW (readTwo e address lp (GetRewards lp address)) (\<lambda>r.
     retW (case r of
       None \<Rightarrow> \<lparr>pendingRewards = 0, claimedRewards = 0, projectedAPY = 0, rewardToken = []\<rparr>
     | Some v \<Rightarrow> (let m = map_of_scval v in
         \<lparr>pendingRewards = extractI128 m ''pending_rewards'', claimedRewards = extractI128 m ''claimed_rewards'',
          projectedAPY = of_int (extractU32 m ''projected_apy'') / 10000,
          rewardToken = (case symbolField m ''reward_token'' of None \<Rightarrow> [] | Some a \<Rightarrow> addressText e a)\<rparr>)))"

text \<open>The clock is in milliseconds; a date is its milliseconds.\<close>

record cooldown_status =
  isInCooldown :: bool
  cooldownEnd :: int
  canWithdrawAt :: int

definition getCooldownStatus :: "('x host_scheme) staking_env \<Rightarrow> string \<Rightarrow> string \<Rightarrow>
    ('x host_scheme, thrown, cooldown_status) act" where
  "getCooldownStatus e address lp = bindW (readTwo e address lp (GetCooldown lp address)) (\<lambda>r w.
     (Inr (case r of
       None \<Rightarrow> \<lparr>isInCooldown = False, cooldownEnd = 0, canWithdrawAt = 0\<rparr>
     | Some v \<Rightarrow> (let c = extractU64 (map_of_scval v) ''cooldown_end'' in
         \<lparr>isInCooldown = (clock w div 1000 < c), cooldownEnd = c, canWithdrawAt = c * 1000\<rparr>)), w))"

record vote_eligibility =
  isEligible :: bool
  voteStakedAt :: int
  eligibleAt :: int

definition getVoteEligibility :: "('x host_scheme) staking_env \<Rightarrow> string \<Rightarrow> string \<Rightarrow>
    ('x host_scheme, thrown, vote_eligibility) act" where
  "getVoteEligibility e address lp =
     bindW (liftW (validateAddress (stakeValid e) address ''address'')) (\<lambda>_.
     bindW (liftW (validateAddress (stakeValid e) lp ''lpTokenAddress'')) (\<lambda>_.
     bindW (getStakedBalance e address lp) (\<lambda>p w.
       (Inr (if stakeAmount p = 0 \<or> stakedAt p = 0
         then \<lparr>isEligible = False, voteStakedAt = 0, eligibleAt = 0\<rparr>
         else \<lparr>isEligible = (stakedAt p + 5 \<le> clock w div 1000), voteStakedAt = stakedAt p,
               eligibleAt = stakedAt p + 5\<rparr>), w))))"

section \<open>Staking and unstaking\<close>

text \<open>All the issues of the schema, joined.\<close>

definition validateStakeParams :: "(string \<Rightarrow> bool) \<Rightarrow> string \<Rightarrow> int \<Rightarrow> unit result" where
  "validateStakeParams valid lp amount =
    (let issues =
       (if lp = [] then [''lpTokenAddress: lpTokenAddress must not be empty''] else []) @
       (if \<not> valid lp then [''lpTokenAddress: lpTokenAddress is not a valid Stellar address: '' @ lp] else []) @
       (if amount \<le> 0 then [''amount: amount must be greater than 0, got '' @ int_str amount] else [])
     in throw_if (issues \<noteq> []) (ValidationError (''Invalid stake parameters: '' @ join_str ''; '' issues)))"

definition buildStakeOperation :: "(string \<Rightarrow> bool) \<Rightarrow> string \<Rightarrow> int \<Rightarrow> string \<Rightarrow> stake_call result" where
  "buildStakeOperation valid lp amount publicKey =
     bindE (validateAddress valid lp ''lpTokenAddress'') (\<lambda>_.
     bindE (validatePositiveAmount amount ''amount'') (\<lambda>_. Inr (StakeOp lp publicKey amount)))"

text \<open>A submission that throws its failure; the hash of a success may be missing.\<close>

definition submitOrThrow :: "'w staking_env \<Rightarrow> string \<Rightarrow> stake_call list \<Rightarrow> ('w, thrown, string) act" where
  "submitOrThrow e what ops = bindW (submitOps e ops) (\<lambda>r.
     if \<not> success r
     then throwW (Sdk (TransactionError (what @ '' failed: '' @ error_message_or r ''Unknown error'') (res_txHash r)))
     else retW (case res_txHash r of None \<Rightarrow> [] | Some h \<Rightarrow> h))"

definition stakeRetry :: "int \<Rightarrow> retry_options" where
  "stakeRetry now = \<lparr>maxRetries = 3, baseDelayMs = Some 1000, retryDelayMs = None, backoffMultiplier = None,
     maxDelayMs = None, maxRetryDelayMs = None, deadlineMs = Some (now + 30000), circuitBreaker = None\<rparr>"

definition landedIf :: "'w staking_env \<Rightarrow> string \<Rightarrow> string \<Rightarrow> (int \<Rightarrow> bool) \<Rightarrow> ('w, thrown, string option) act" where
  "landedIf e publicKey lp ok = bindW (getStakedBalance e publicKey lp) (\<lambda>p.
     retW (if ok (stakeAmount p) then Some ''landed'' else None))"

definition stake :: "('x host_scheme) staking_env \<Rightarrow> string \<Rightarrow> int \<Rightarrow> ('x host_scheme, thrown, string) act" where
  "stake e lp amount =
     bindW (liftW (validateStakeParams (stakeValid e) lp amount)) (\<lambda>_.
     bindW (signerPublicKey e) (\<lambda>publicKey.
     bindW (liftW (buildStakeOperation (stakeValid e) lp amount publicKey)) (\<lambda>op.
     bindW (getStakedBalance e publicKey lp) (\<lambda>before w.
       idempotentResubmit (stakeSleep e) (submitOrThrow e ''Stake'' [op])
         (landedIf e publicKey lp (\<lambda>n. stakeAmount before + amount \<le> n)) (stakeRetry (clock w))
         ''idempotent-resubmit'' w))))"

definition buildUnstakeOperation :: "('x host_scheme) staking_env \<Rightarrow> string \<Rightarrow> int \<Rightarrow> string \<Rightarrow>
    ('x host_scheme, thrown, stake_call) act" where
  "buildUnstakeOperation e lp amount publicKey =
     bindW (liftW (validateStakeParams (stakeValid e) lp amount)) (\<lambda>_.
     bindW (getCooldownStatus e publicKey lp) (\<lambda>c.
     if isInCooldown c then throwW (Sdk (CooldownError (cooldownEnd c)))
     else bindW (getStakedBalance e publicKey lp) (\<lambda>p.
       if stakeAmount p < amount
       then throwW (Sdk (StakingError (''Unstake amount '' @ int_str amount @ '' exceeds staked balance '' @
              int_str (stakeAmount p))))
       else retW (UnstakeOp lp publicKey amount))))"

definition unstake :: "('x host_scheme) staking_env \<Rightarrow> string \<Rightarrow> int \<Rightarrow> ('x host_scheme, thrown, string) act" where
  "unstake e lp amount =
     bindW (signerPublicKey e) (\<lambda>publicKey.
     bindW (buildUnstakeOperation e lp amount publicKey) (\<lambda>op.
     bindW (getStakedBalance e publicKey lp) (\<lambda>p w.
       idempotentResubmit (stakeSleep e) (submitOrThrow e ''Unstake'' [op])
         (landedIf e publicKey lp (\<lambda>n. n \<le> stakeAmount p - amount)) (stakeRetry (clock w))
         ''idempotent-resubmit'' w)))"

definition claimRewards :: "'w staking_env \<Rightarrow> string \<Rightarrow> ('w, thrown, string) act" where
  "claimRewards e lp =
     bindW (liftW (validateAddress (stakeValid e) lp ''lpTokenAddress'')) (\<lambda>_.
     bindW (signerPublicKey e) (\<lambda>publicKey.
     bindW (getStakingRewards e publicKey lp) (\<lambda>r.
     if pendingRewards r = 0 then throwW (Sdk (StakingError ''No rewards pending to claim''))
     else submitOrThrow e ''Claim rewards'' [ClaimOp lp publicKey])))"

section \<open>Unstaking and withdrawing in one transaction\<close>

text \<open>The composer: a list of operations that grows and is submitted as one transaction.\<close>

type_synonym composer = "stake_call list"

definition addOperation :: "stake_call \<Rightarrow> composer \<Rightarrow> composer" where
  "addOperation op c = c @ [op]"

record liquidity_result =
  lr_txHash :: string
  lr_ledger :: int
  lr_amountA :: int
  lr_amountB :: int
  lr_liquidity :: int

definition validateRemoval :: "(string \<Rightarrow> bool) \<Rightarrow> remove_liquidity_request \<Rightarrow> unit result" where
  "validateRemoval valid r =
     bindE (validateAddress valid (rl_tokenA r) ''tokenA'') (\<lambda>_.
     bindE (validateAddress valid (rl_tokenB r) ''tokenB'') (\<lambda>_.
     bindE (validateDistinctTokens (rl_tokenA r) (rl_tokenB r)) (\<lambda>_.
     bindE (validateAddress valid (rl_to r) ''to'') (\<lambda>_.
     bindE (validatePositiveAmount (rl_liquidity r) ''liquidity'') (\<lambda>_.
     bindE (validateNonNegativeAmount (rl_amountAMin r) ''amountAMin'') (\<lambda>_.
       validateNonNegativeAmount (rl_amountBMin r) ''amountBMin''))))))"

definition liquidityResult :: "remove_liquidity_request \<Rightarrow> sdk_result \<Rightarrow> ('w, thrown, liquidity_result) act" where
  "liquidityResult r res = (case (success res, res_data res) of
       (True, Some (h, l)) \<Rightarrow> retW \<lparr>lr_txHash = h, lr_ledger = l, lr_amountA = rl_amountAMin r,
          lr_amountB = rl_amountBMin r, lr_liquidity = rl_liquidity r\<rparr>
     | _ \<Rightarrow> throwW (Sdk (TransactionError (''unstakeAndWithdraw failed: '' @
          error_message_or res ''Unknown error'') (res_txHash res))))"

definition unstakeAndWithdraw :: "('x host_scheme) staking_env \<Rightarrow> string \<Rightarrow> int \<Rightarrow> remove_liquidity_request \<Rightarrow>
    ('x host_scheme, thrown, liquidity_result) act" where
  "unstakeAndWithdraw e lp amount r =
     bindW (liftW (validateRemoval (stakeValid e) r)) (\<lambda>_.
     bindW (signerPublicKey e) (\<lambda>publicKey.
     bindW (buildUnstakeOperation e lp amount publicKey) (\<lambda>op w.
     let deadline = (case rl_deadline r of Some d \<Rightarrow> d | None \<Rightarrow> clientDeadline e w);
         ops = addOperation (RemoveLiquidityOp r deadline) (addOperation op [])
     in bindW (submitOps e ops) (liquidityResult r) w)))"

section \<open>Properties\<close>

text \<open>What the reads of \<open>buildUnstakeOperation\<close> said: the cooldown read answered nothing or an end that is
  not after the time at which it answered, the balance read a balance of the amount or more.\<close>

definition covered :: "('x host_scheme) staking_env \<Rightarrow> string \<Rightarrow> int \<Rightarrow> string \<Rightarrow> 'x host_scheme \<Rightarrow> 'x host_scheme \<Rightarrow> bool" where
  "covered e lp amount pk w w' \<longleftrightarrow> (\<exists>c w1 v. readCall e (GetCooldown lp pk) w = (Inr c, w1) \<and>
     (\<forall>x. c = Some x \<longrightarrow> extractU64 (map_of_scval x) ''cooldown_end'' \<le> clock w1 div 1000) \<and>
     readCall e (GetStake lp pk) w1 = (Inr (Some v), w') \<and> amount \<le> extractI128 (map_of_scval v) ''amount'')"

lemma getStakedBalance_Inr:
  assumes "getStakedBalance e pk lp w = (Inr p, w')" and "0 < stakeAmount p"
  shows "\<exists>v. readCall e (GetStake lp pk) w = (Inr (Some v), w') \<and> stakeAmount p = extractI128 (map_of_scval v) ''amount''"
  using assms by (auto simp: getStakedBalance_def readTwo_def act_simps Let_def split: option.splits)

lemma getCooldownStatus_Inr:
  assumes "getCooldownStatus e pk lp w = (Inr c, w')" and "\<not> isInCooldown c"
  shows "\<exists>r. readCall e (GetCooldown lp pk) w = (Inr r, w') \<and>
    (\<forall>x. r = Some x \<longrightarrow> extractU64 (map_of_scval x) ''cooldown_end'' \<le> clock w' div 1000)"
  using assms by (auto simp: getCooldownStatus_def readTwo_def act_simps Let_def split: option.splits)

lemma buildUnstakeOperation_Inr:
  assumes "buildUnstakeOperation e lp amount publicKey w = (Inr op, w')"
  shows "op = UnstakeOp lp publicKey amount \<and> 0 < amount \<and> covered e lp amount publicKey w w'"
proof -
  obtain c v2 p where valid: "validateStakeParams (stakeValid e) lp amount = Inr ()"
    and c: "getCooldownStatus e publicKey lp w = (Inr c, v2)" "\<not> isInCooldown c"
    and p: "getStakedBalance e publicKey lp v2 = (Inr p, w')" "\<not> stakeAmount p < amount"
    and op: "op = UnstakeOp lp publicKey amount"
    using assms unfolding buildUnstakeOperation_def by (auto simp: act_simps split: if_splits)
  have pos: "0 < amount" using valid by (auto simp: validateStakeParams_def throw_if_def Let_def split: if_splits)
  then have "0 < stakeAmount p" using p(2) by simp
  from getStakedBalance_Inr[OF p(1) this] getCooldownStatus_Inr[OF c] p(2) have "covered e lp amount publicKey w w'"
    unfolding covered_def by auto
  then show ?thesis using op pos by simp
qed

lemma keeps_getStakedBalance: "(\<And>c. keeps L (readCall e c)) \<Longrightarrow> keeps L (getStakedBalance e a lp)"
  by (auto simp: getStakedBalance_def readTwo_def)

lemma keeps_getCooldownStatus: "(\<And>c. keeps L (readCall e c)) \<Longrightarrow> keeps L (getCooldownStatus e a lp)"
  unfolding getCooldownStatus_def readTwo_def
  by (intro keeps_bindW keeps_liftW) (simp_all add: keeps_def)

lemma keeps_landedIf: "(\<And>c. keeps L (readCall e c)) \<Longrightarrow> keeps L (landedIf e a lp ok)"
  by (auto simp: landedIf_def intro: keeps_getStakedBalance)

lemma landedIf_Inr: "fst (landedIf e pk lp ok v) = Inr r \<Longrightarrow>
    \<exists>q. fst (getStakedBalance e pk lp v) = Inr q \<and> r = (if ok (stakeAmount q) then Some ''landed'' else None)"
  by (auto simp: landedIf_def bindW_def retW_def split: prod.splits sum.splits)

lemma submitOrThrow_effect:
  "snd (submitOrThrow e what ops v) = snd (submitOps e ops v)"
  "fst (submitOrThrow e what ops v) = Inr h \<Longrightarrow> \<exists>r. fst (submitOps e ops v) = Inr r \<and> success r"
  by (auto simp: submitOrThrow_def bindW_def retW_def throwW_def split: prod.splits sum.splits if_splits)


text \<open>Staking is not done twice. When every read of the stake answers the staked balance, which a landed
  stake raises by its amount, a submission lands at most one stake (and one when it succeeds),
  and reading and waiting land nothing, then \<open>stake\<close> lands at most one stake however its
  submissions fail, and exactly one when it returns.\<close>

theorem stake_lands_once:
  fixes landed :: "'x \<Rightarrow> nat"
  defines "L \<equiv> \<lambda>w :: 'x host_scheme. landed (host.more w)"
  assumes submit: "\<And>ops w. L (snd (submitOps e ops w)) \<in> {L w, Suc (L w)}"
    and submitted: "\<And>ops w r. fst (submitOps e ops w) = Inr r \<Longrightarrow> success r \<Longrightarrow> L (snd (submitOps e ops w)) = Suc (L w)"
    and key: "keeps L (signerPublicKey e)" and reads: "\<And>c. keeps L (readCall e c)"
    and truth: "\<And>pk w p. fst (getStakedBalance e pk lp w) = Inr p \<Longrightarrow> stakeAmount p = base + amount * int (L w)"
    and slp: "\<And>d w. L (stakeSleep e d w) = L w"
    and start: "L w = 0" and run: "stake e lp amount w = (res, w')"
  shows "L w' \<le> 1 \<and> (\<forall>h. res = Inr h \<longrightarrow> L w' = 1)"
proof (cases "\<exists>pk w1 op p w2. validateStakeParams (stakeValid e) lp amount = Inr () \<and> signerPublicKey e w = (Inr pk, w1) \<and>
    buildStakeOperation (stakeValid e) lp amount pk = Inr op \<and> getStakedBalance e pk lp w1 = (Inr p, w2)")
  case False
  then have "\<exists>err. res = Inl err \<and> L w' = L w"
    using run keepsD[OF key] keepsD[OF keeps_getStakedBalance[OF reads]] unfolding stake_def
    by (cases res) (auto simp: act_simps)
  then show ?thesis using start by auto
next
  case True
  then obtain pk w1 op p w2 where valid: "validateStakeParams (stakeValid e) lp amount = Inr ()"
    and k: "signerPublicKey e w = (Inr pk, w1)" and op: "buildStakeOperation (stakeValid e) lp amount pk = Inr op"
    and p: "getStakedBalance e pk lp w1 = (Inr p, w2)" by blast
  have pos: "0 < amount" using valid by (auto simp: validateStakeParams_def throw_if_def Let_def split: if_splits)
  have w1: "L w1 = 0" using keepsD[OF key k] start by simp
  have w2: "L w2 = 0" using keepsD[OF keeps_getStakedBalance[OF reads] p] w1 by simp
  let ?submit = "submitOrThrow e ''Stake'' [op]" and ?check = "landedIf e pk lp (\<lambda>n. stakeAmount p + amount \<le> n)"
  have told: "truthy r \<longleftrightarrow> 0 < L v" if "fst (?check v) = Inr r" for v r
  proof -
    obtain q where q: "fst (getStakedBalance e pk lp v) = Inr q"
      "r = (if stakeAmount p + amount \<le> stakeAmount q then Some ''landed'' else None)"
      using landedIf_Inr[OF \<open>fst (?check v) = Inr r\<close>] by blast
    have "stakeAmount p = base" using truth[of pk w1 p] p w1 by simp
    then show ?thesis using truth[OF q(1)] q(2) pos by (cases "L v") (auto simp: truthy_def algebra_simps)
  qed
  have "idempotentResubmit (stakeSleep e) ?submit ?check (stakeRetry (clock w2)) ''idempotent-resubmit'' w2 = (res, w')"
    using run valid k op p by (simp add: stake_def bindW_def liftW_def)
  from idempotentResubmit_landed[where landed = landed, OF _ _ _ _ _ _ this] show ?thesis
    using submit submitted told slp w2 keeps_landedIf[OF reads] submitOrThrow_effect[of e "''Stake''" "[op]"]
    unfolding L_def keeps_def by metis
qed

text \<open>The composed transaction: when \<open>unstakeAndWithdraw\<close> returns, one transaction with exactly the
  unstaking and the removal, in this order, was confirmed; the amounts it reports are the
  requested minimums.\<close>

theorem unstakeAndWithdraw_is_one_transaction:
  assumes "unstakeAndWithdraw e lp amount r w = (Inr res, w')"
  shows "\<exists>pk deadline v out h l. submitOps e [UnstakeOp lp pk amount, RemoveLiquidityOp r deadline] v = (Inr out, w') \<and>
    success out \<and> res_data out = Some (h, l) \<and> 0 < amount \<and> rl_tokenA r \<noteq> rl_tokenB r \<and>
    res = \<lparr>lr_txHash = h, lr_ledger = l, lr_amountA = rl_amountAMin r, lr_amountB = rl_amountBMin r,
      lr_liquidity = rl_liquidity r\<rparr>"
proof -
  obtain pk u op v out v' where valid: "validateRemoval (stakeValid e) r = Inr ()"
    and op: "buildUnstakeOperation e lp amount pk u = (Inr op, v)"
    and sub: "submitOps e [op, RemoveLiquidityOp r (case rl_deadline r of Some d \<Rightarrow> d | None \<Rightarrow> clientDeadline e v)] v = (Inr out, v')"
    and out: "liquidityResult r out v' = (Inr res, w')"
    using assms unfolding unstakeAndWithdraw_def addOperation_def Let_def by (clarsimp simp: act_simps)
  from out have "v' = w'" "success out \<and> (\<exists>h l. res_data out = Some (h, l) \<and> res = \<lparr>lr_txHash = h, lr_ledger = l,
      lr_amountA = rl_amountAMin r, lr_amountB = rl_amountBMin r, lr_liquidity = rl_liquidity r\<rparr>)"
    by (auto simp: liquidityResult_def act_simps split: bool.splits option.splits)
  have "rl_tokenA r \<noteq> rl_tokenB r"
    using valid by (auto simp: validateRemoval_def validateDistinctTokens_def result_simps)
  with op sub \<open>v' = w'\<close> \<open>success out \<and> _\<close> show ?thesis using buildUnstakeOperation_Inr by metis
qed

section \<open>Instances\<close>

text \<open>A contract that holds a stake of 100 and counts landed operations, on a network whose reads fail
  from the \<open>n\<close>-th on and whose submissions time out, landing or not. The world counts reads and
  landings.\<close>

definition stake_of :: "int \<Rightarrow> scval" where
  "stake_of n = ScvMap (Some [(ScvSymbol ''amount'', ScvI128 n)])"

definition bad_env :: "nat \<Rightarrow> bool \<Rightarrow> (nat \<times> nat) host_scheme staking_env" where
  "bad_env n lands = \<lparr>
     readCall = (\<lambda>c w. (Inr (if fst (host.more w) < n then Some (stake_of (100 + 50 * int (snd (host.more w)))) else None),
       host.more_update (map_prod Suc id) w)),
     submitOps = (\<lambda>_ w. (Inr (timed_out\<lparr>res_error := Some (''TX_TIMEOUT'', ''timeout'')\<rparr>),
       if lands then host.more_update (map_prod id Suc) w else w)),
     signerPublicKey = retW ''G'', stakeSleep = (\<lambda>_ w. w), stakeValid = (\<lambda>_. True),
     clientDeadline = (\<lambda>_. 0), addressText = (\<lambda>_. [])\<rparr>"

text \<open>A read that fails counts as a balance of 0. To the landed-check of an unstaking this says that
  everything has been taken out: \<open>unstake\<close> returns although nothing landed.\<close>

theorem failed_read_reports_unstaked:
  "map_prod id host.more (unstake (bad_env 3 False) ''lp'' 50 (fresh_host (0, 0))) = (Inr ''landed'', (4, 0))"
  by code_simp

text \<open>To the check of a staking it says that nothing has arrived: a stake that landed is submitted
  again, four times in all.\<close>

theorem failed_read_stakes_again:
  "snd (host.more (snd (stake (bad_env 1 True) ''lp'' 50 (fresh_host (0, 0))))) = 4"
  by code_simp

lemma stake_lands_once_witness:
  "snd (host.more (snd (stake (bad_env 100 True) ''lp'' 50 (fresh_host (0, 0))))) \<le> 1"
proof -
  let ?e = "bad_env 100 True\<lparr>readCall := (\<lambda>c w. (Inr (Some (stake_of (100 + 50 * int (snd (host.more w))))), w))\<rparr>"
  have "snd (host.more (snd (stake ?e ''lp'' 50 (fresh_host (0, 0))))) \<le> 1"
    by (rule stake_lands_once[where landed = snd and w = "fresh_host (0, 0)" and base = 100,
          OF _ _ _ _ _ _ _ prod.collapse[symmetric], THEN conjunct1])
      (auto simp: bad_env_def timed_out_def keeps_def retW_def getStakedBalance_def readTwo_def bindW_def liftW_def
        stake_of_def map_of_scval_def extractI128_def symbolField_def decodeI128_strict_def Let_def
        split: sum.splits prod.splits if_splits)
  moreover have "snd (host.more (snd (stake (bad_env 100 True) ''lp'' 50 (fresh_host (0, 0))))) = 1" by code_simp
  ultimately show ?thesis by simp
qed

text \<open>A contract that holds a stake of 100 whose cooldown has ended; the world records the submissions,
  which time out once before one succeeds.\<close>

definition recording_env :: "(stake_call list list host_scheme) staking_env" where
  "recording_env = \<lparr>
     readCall = (\<lambda>c. retW (Some (ScvMap (Some [(ScvSymbol ''amount'', ScvI128 100), (ScvSymbol ''cooldown_end'', ScvU64 0)])))),
     submitOps = (\<lambda>ops w. (Inr (if host.more w = [] then timed_out\<lparr>res_error := Some (''TX_TIMEOUT'', ''timeout'')\<rparr>
         else timed_out\<lparr>success := True\<rparr>), host.more_update (\<lambda>log. log @ [ops]) w)),
     signerPublicKey = retW ''G'', stakeSleep = (\<lambda>_ w. w), stakeValid = (\<lambda>_. True),
     clientDeadline = (\<lambda>_. 0), addressText = (\<lambda>_. [])\<rparr>"


text \<open>The hole. When the simulation of the cooldown does not succeed, the end of the cooldown is taken
  for 0 and the unstaking is submitted, whatever the cooldown.\<close>

theorem failed_cooldown_read_unstakes:
  "map_prod id host.more (unstake (recording_env\<lparr>readCall := (\<lambda>c. retW (case c of GetCooldown _ _ \<Rightarrow> None
      | _ \<Rightarrow> Some (stake_of 100)))\<rparr>) ''lp'' 50 (fresh_host [])) =
   (Inr ''h'', [[UnstakeOp ''lp'' ''G'' 50], [UnstakeOp ''lp'' ''G'' 50]])"
  by code_simp

definition some_removal :: remove_liquidity_request where
  "some_removal = \<lparr>rl_tokenA = ''A'', rl_tokenB = ''B'', rl_liquidity = 5, rl_amountAMin = 1, rl_amountBMin = 2,
     rl_to = ''G'', rl_deadline = None\<rparr>"

lemma unstakeAndWithdraw_is_one_transaction_witness:
  "\<exists>res w'. unstakeAndWithdraw (bad_env 3 False\<lparr>submitOps := (\<lambda>_. retW (timed_out\<lparr>success := True, res_data := Some (''h'', 5)\<rparr>))\<rparr>)
     ''lp'' 50 some_removal (fresh_host (0, 0)) = (Inr res, w') \<and> lr_amountA res = 1"
proof -
  let ?r = "unstakeAndWithdraw (bad_env 3 False\<lparr>submitOps := (\<lambda>_. retW (timed_out\<lparr>success := True, res_data := Some (''h'', 5)\<rparr>))\<rparr>)
     ''lp'' 50 some_removal (fresh_host (0, 0))"
  have "isl (fst ?r) = False" by code_simp
  then obtain res w' where "?r = (Inr res, w')" by (cases ?r; cases "fst ?r") auto
  with unstakeAndWithdraw_is_one_transaction[OF this] show ?thesis by (auto simp: some_removal_def)
qed

end
