(* ===== verification/Governance.thy ===== *)
theory Governance
  imports ScVal Validation Submission
begin

text \<open>
  \<open>modules/governance.ts\<close> and \<open>utils/voting-power.ts\<close>: proposals, votes and delegation. The state is the
  governance contract's. \<open>gov_env\<close> holds what the module calls; a simulation answers \<open>None\<close> when it
  fails or returns nothing. A contract value reaches the decoders as the JavaScript value the
  Stellar SDK makes of it (\<open>native\<close>).
\<close>

section \<open>Native values\<close>

datatype native = NNull | NStr string | NNum int | NList "native list" | NRec "(string \<times> native) list"

text \<open>\<open>native[key]\<close>, where a missing field and \<open>null\<close> are both absent to \<open>??\<close>.\<close>

definition nget :: "native \<Rightarrow> string \<Rightarrow> native option" where
  "nget v key = (case v of
       NRec fs \<Rightarrow> (case map_of fs key of Some NNull \<Rightarrow> None | r \<Rightarrow> r) | _ \<Rightarrow> None)"

fun native_text :: "native \<Rightarrow> string" where
  "native_text NNull = ''null''"
| "native_text (NStr s) = s"
| "native_text (NNum n) = int_str n"
| "native_text (NList vs) = join_str '','' (map native_text vs)"
| "native_text (NRec _) = ''[object Object]''"

text \<open>\<open>BigInt(s)\<close>: signed decimal digits, or unsigned ones with a radix prefix; anything else is a
  \<open>SyntaxError\<close>.\<close>

definition hex_val :: "char \<Rightarrow> nat" where
  "hex_val c = (let n = of_char c in if is_digit c then digit_val c
     else if 97 \<le> n \<and> n \<le> 102 then n - 87 else if 65 \<le> n \<and> n \<le> 70 then n - 55 else 16)"

definition parse_radix :: "nat \<Rightarrow> string \<Rightarrow> int option" where
  "parse_radix b s = (if s = [] \<or> \<not> list_all (\<lambda>c. hex_val c < b) s then None
     else Some (int (foldl (\<lambda>a c. b * a + hex_val c) 0 s)))"

definition bigint_of_text :: "string \<Rightarrow> int result" where
  "bigint_of_text s = (let t = trim s; u = drop 1 t; v = drop 2 t in
     if t = [] then Inr 0
     else case (if hd t = CHR ''+'' then parse_radix 10 u
       else if hd t = CHR ''-'' then map_option uminus (parse_radix 10 u)
       else if take 2 t \<in> {''0x'', ''0X''} then parse_radix 16 v
       else if take 2 t \<in> {''0o'', ''0O''} then parse_radix 8 v
       else if take 2 t \<in> {''0b'', ''0B''} then parse_radix 2 v
       else parse_radix 10 t) of
         None \<Rightarrow> Inl (JsError (''Cannot convert '' @ s @ '' to a BigInt''))
       | Some n \<Rightarrow> Inr n)"

definition text_or :: "string \<Rightarrow> native option \<Rightarrow> string" where
  "text_or d v = (case v of None \<Rightarrow> d | Some x \<Rightarrow> native_text x)"

section \<open>Proposals\<close>

record proposal_action =
  actContract :: string
  actFunction :: string
  actArgs :: "native list"

record proposal =
  propId :: string
  propTitle :: string
  propDescription :: string
  propStatus :: string
  votesFor :: int
  votesAgainst :: int
  votesAbstain :: int
  propDeadline :: int
  executedAt :: "int option"
  proposer :: string
  propCreatedAt :: int
  propActions :: "proposal_action list"

record delegation_state =
  delegatedTo :: "string option"
  delegatedFrom :: "string list"
  totalVotingPower :: int
  ownPower :: int

definition orNative :: "native option \<Rightarrow> native option \<Rightarrow> native option" where
  "orNative a b = (case a of None \<Rightarrow> b | Some _ \<Rightarrow> a)"

definition decodeAction :: "native \<Rightarrow> proposal_action" where
  "decodeAction a = \<lparr>
     actContract = text_or [] (orNative (nget a ''contract_address'') (nget a ''contractAddress'')),
     actFunction = text_or [] (orNative (nget a ''function_name'') (nget a ''functionName'')),
     actArgs = (case nget a ''args'' of Some (NList vs) \<Rightarrow> vs | _ \<Rightarrow> [])\<rparr>"

text \<open>\<open>num\<close> is \<open>Number(x)\<close> of a value that is no number.\<close>

definition number_of :: "(native \<Rightarrow> int) \<Rightarrow> native \<Rightarrow> int" where
  "number_of num v = (case v of NNum n \<Rightarrow> n | _ \<Rightarrow> num v)"

definition decodeProposal :: "(native \<Rightarrow> int) \<Rightarrow> native \<Rightarrow> proposal result" where
  "decodeProposal num v =
    (let txt = (\<lambda>k. text_or [] (nget v k)); big = (\<lambda>k. bigint_of_text (text_or ''0'' (nget v k)));
         n0 = (\<lambda>k. case nget v k of None \<Rightarrow> 0 | Some x \<Rightarrow> number_of num x)
     in bindE (big ''votes_for'') (\<lambda>vf. bindE (big ''votes_against'') (\<lambda>va. bindE (big ''votes_abstain'') (\<lambda>vs.
       Inr \<lparr>propId = txt ''id'', propTitle = txt ''title'', propDescription = txt ''description'',
            propStatus = text_or ''active'' (nget v ''status''), votesFor = vf, votesAgainst = va,
            votesAbstain = vs, propDeadline = n0 ''deadline'',
            executedAt = map_option (number_of num) (nget v ''executed_at''), proposer = txt ''proposer'',
            propCreatedAt = n0 ''created_at'',
            propActions = (case nget v ''actions'' of Some (NList as) \<Rightarrow> map decodeAction as | _ \<Rightarrow> [])\<rparr>))))"

definition decodeDelegationState :: "native \<Rightarrow> delegation_state result" where
  "decodeDelegationState v =
     bindE (bigint_of_text (text_or ''0'' (nget v ''total_voting_power''))) (\<lambda>total.
     bindE (bigint_of_text (text_or ''0'' (nget v ''own_power''))) (\<lambda>own.
       Inr \<lparr>delegatedTo = map_option native_text (nget v ''delegated_to''),
            delegatedFrom = (case nget v ''delegated_from'' of Some (NList vs) \<Rightarrow> map native_text vs | _ \<Rightarrow> []),
            totalVotingPower = total, ownPower = own\<rparr>))"

section \<open>Surroundings\<close>

datatype gov_call =
    CreateProposalCall string string "proposal_action list" string
  | CastVoteCall string string string
  | CancelProposalCall string string
  | ExecuteProposalCall string string
  | DelegateCall string string
  | UndelegateCall string
  | GetProposalCall string
  | GetActiveCall
  | GetHistoryCall "string option" "int option" "int option"
  | GetDelegationCall string

record 'w gov_env =
  govSimulate :: "gov_call \<Rightarrow> ('w, thrown, scval option) act"
  govSubmit :: "gov_call list \<Rightarrow> string \<Rightarrow> ('w, thrown, sdk_result) act"
  govGetTransaction :: "'w rpc"
  govSigner :: "('w, thrown, string) act"
  govValid :: "string \<Rightarrow> bool"
  toNative :: "scval \<Rightarrow> native"
  toNumber :: "native \<Rightarrow> int"
  enumMessage :: string

section \<open>Writing\<close>

definition result_hash :: "sdk_result \<Rightarrow> string" where
  "result_hash r = (case res_txHash r of None \<Rightarrow> [] | Some h \<Rightarrow> h)"

definition gov_failed :: "string \<Rightarrow> string \<Rightarrow> sdk_result \<Rightarrow> thrown" where
  "gov_failed pre d r = Sdk (TransactionError (pre @ error_message_or r d) (res_txHash r))"

text \<open>The submission that \<open>createProposal\<close> and \<open>castVote\<close> share: one resubmission, after NOT_FOUND.\<close>

definition submitOnceMore :: "'w rpc \<Rightarrow> ('w, thrown, sdk_result) act \<Rightarrow> string \<Rightarrow> ('w, thrown, string) act" where
  "submitOnceMore get submit what = bindW submit (\<lambda>r.
     if success r then retW (result_hash r)
     else if \<not> truthy (res_txHash r) then throwW (gov_failed (what @ '' failed: '') ''Unknown error'' r)
     else (\<lambda>w. case getTransactionStatus get (the (res_txHash r)) w of (st, w1) \<Rightarrow>
       (case shouldRetrySubmission st None of
          Inl e \<Rightarrow> (Inl (Sdk e), w1)
        | Inr (shouldRetry, _) \<Rightarrow>
            if \<not> shouldRetry
            then (case st of SUCCESS _ h \<Rightarrow> (Inr h, w1)
                  | _ \<Rightarrow> (Inl (gov_failed (what @ '' failed: '') ''Transaction failed on-chain'' r), w1))
            else bindW submit (\<lambda>r2. if success r2 then retW (result_hash r2)
                 else throwW (gov_failed (what @ '' failed after retry: '') ''Unknown error'' r2)) w1)))"

definition submitSingle :: "('w, thrown, sdk_result) act \<Rightarrow> string \<Rightarrow> ('w, thrown, string) act" where
  "submitSingle submit what = bindW submit (\<lambda>r.
     if success r then retW (result_hash r) else throwW (gov_failed (what @ '' failed: '') ''Unknown error'' r))"

text \<open>The first issue of the schema; the trimmed text is checked.\<close>

definition validateProposalInput :: "(string \<Rightarrow> bool) \<Rightarrow> string \<Rightarrow> string \<Rightarrow> proposal_action list \<Rightarrow> unit result" where
  "validateProposalInput valid title description actions =
    (if trim title = [] then Inl (ValidationError ''title must be at least 1 character(s), got 0'')
     else if 200 < length (trim title) then Inl (ValidationError ''title must be at most 200 character(s)'')
     else if trim description = [] then Inl (ValidationError ''description must be at least 1 character(s)'')
     else if 5000 < length (trim description) then Inl (ValidationError ''description must be at most 5000 character(s)'')
     else if list_ex (\<lambda>a. \<not> valid (actContract a)) actions
     then Inl (ValidationError ''action.contractAddress is not a valid Stellar address'')
     else throw_if (actions = []) (ValidationError ''actions must be a non-empty array''))"

definition createProposal :: "'w gov_env \<Rightarrow> string \<Rightarrow> string \<Rightarrow> proposal_action list \<Rightarrow> ('w, thrown, string) act" where
  "createProposal e title description actions =
     bindW (liftW (validateProposalInput (govValid e) title description actions)) (\<lambda>_.
     bindW (govSigner e) (\<lambda>pk.
       submitOnceMore (govGetTransaction e)
         (govSubmit e [CreateProposalCall title description actions pk] pk) ''createProposal''))"

definition proposalIdGiven :: "string \<Rightarrow> unit result" where
  "proposalIdGiven i = throw_if (trim i = []) (ValidationError ''proposalId must not be empty'')"

definition getProposal :: "'w gov_env \<Rightarrow> string \<Rightarrow> ('w, thrown, proposal) act" where
  "getProposal e proposalId =
     bindW (liftW (proposalIdGiven proposalId)) (\<lambda>_.
     bindW (govSimulate e (GetProposalCall proposalId)) (\<lambda>r. case r of
       None \<Rightarrow> throwW (Sdk (InvalidOperationError ''Proposal not found''))
     | Some v \<Rightarrow> liftW (decodeProposal (toNumber e) (toNative e v))))"

definition mustExist :: "'w gov_env \<Rightarrow> string \<Rightarrow> ('w, thrown, unit) act" where
  "mustExist e proposalId = catchW (bindW (getProposal e proposalId) (\<lambda>_. retW ())) (\<lambda>err.
     case err of
       Sdk (InvalidOperationError _) \<Rightarrow> throwW (Sdk (ValidationError
         (''proposalId does not reference an existing proposal: '' @ proposalId)))
     | _ \<Rightarrow> throwW err)"

definition castVote :: "'w gov_env \<Rightarrow> string \<Rightarrow> string \<Rightarrow> ('w, thrown, string) act" where
  "castVote e proposalId voteType =
     bindW (liftW (proposalIdGiven proposalId)) (\<lambda>_.
     bindW (liftW (throw_if (\<not> List.member [''for'', ''against'', ''abstain''] voteType)
        (ValidationError (enumMessage e)))) (\<lambda>_.
     bindW (mustExist e proposalId) (\<lambda>_.
     bindW (govSigner e) (\<lambda>pk.
       submitOnceMore (govGetTransaction e) (govSubmit e [CastVoteCall proposalId voteType pk] pk) ''castVote''))))"

definition cancelProposal :: "'w gov_env \<Rightarrow> string \<Rightarrow> ('w, thrown, string) act" where
  "cancelProposal e proposalId =
     bindW (liftW (proposalIdGiven proposalId)) (\<lambda>_.
     bindW (govSigner e) (\<lambda>pk. submitSingle (govSubmit e [CancelProposalCall proposalId pk] pk) ''cancelProposal''))"

definition executeProposal :: "'w gov_env \<Rightarrow> string \<Rightarrow> ('w, thrown, string) act" where
  "executeProposal e proposalId =
     bindW (liftW (proposalIdGiven proposalId)) (\<lambda>_.
     bindW (govSigner e) (\<lambda>pk. submitSingle (govSubmit e [ExecuteProposalCall proposalId pk] pk) ''executeProposal''))"

definition delegate :: "'w gov_env \<Rightarrow> string \<Rightarrow> ('w, thrown, string) act" where
  "delegate e toAddress =
     bindW (liftW (validateAddress (govValid e) toAddress ''toAddress'')) (\<lambda>_.
     bindW (govSigner e) (\<lambda>pk.
     if toAddress = pk then throwW (Sdk (ValidationError ''Cannot delegate to self''))
     else submitSingle (govSubmit e [DelegateCall toAddress pk] pk) ''delegate''))"

definition undelegate :: "'w gov_env \<Rightarrow> ('w, thrown, string) act" where
  "undelegate e = bindW (govSigner e) (\<lambda>pk. submitSingle (govSubmit e [UndelegateCall pk] pk) ''undelegate'')"

section \<open>Reading\<close>

definition decodeProposals :: "'w gov_env \<Rightarrow> scval option \<Rightarrow> proposal list result" where
  "decodeProposals e r = (case r of
       Some (ScvVec (Some vs)) \<Rightarrow> mapE (\<lambda>v. decodeProposal (toNumber e) (toNative e v)) vs
     | _ \<Rightarrow> Inr [])"

definition getActiveProposals :: "'w gov_env \<Rightarrow> ('w, thrown, proposal list) act" where
  "getActiveProposals e = bindW (govSimulate e GetActiveCall) (\<lambda>r. liftW (decodeProposals e r))"

text \<open>The limits are numbers that may be fractional; the status is checked at run time.\<close>

definition validateFilter :: "rat option \<Rightarrow> rat option \<Rightarrow> string option \<Rightarrow> unit result" where
  "validateFilter maxItems fromLedger st =
     bindE (case maxItems of None \<Rightarrow> Inr () | Some n \<Rightarrow> throw_if (n \<noteq> of_int \<lfloor>n\<rfloor> \<or> n < 1 \<or> 1000 < n)
       (ValidationError ''filter.limit must be an integer between 1 and 1000'')) (\<lambda>_.
     bindE (case fromLedger of None \<Rightarrow> Inr () | Some n \<Rightarrow> throw_if (n \<noteq> of_int \<lfloor>n\<rfloor> \<or> n < 0)
       (ValidationError ''filter.fromLedger must be a non-negative integer'')) (\<lambda>_.
     case st of None \<Rightarrow> Inr () | Some s \<Rightarrow> validateEnumValue s ''filter.status'' [''passed'', ''rejected'', ''expired'']))"

definition getProposalHistory :: "'w gov_env \<Rightarrow> rat option \<Rightarrow> rat option \<Rightarrow> string option \<Rightarrow>
    ('w, thrown, proposal list) act" where
  "getProposalHistory e maxItems fromLedger st =
     bindW (liftW (validateFilter maxItems fromLedger st)) (\<lambda>_.
     bindW (govSimulate e (GetHistoryCall st (map_option floor fromLedger) (map_option floor maxItems))) (\<lambda>r.
     bindW (liftW (decodeProposals e r)) (\<lambda>ps.
       let ps1 = (case st of None \<Rightarrow> ps | Some s \<Rightarrow> filter (\<lambda>p. propStatus p = s) ps)
       in retW (case maxItems of None \<Rightarrow> ps1 | Some n \<Rightarrow> take (nat \<lfloor>n\<rfloor>) ps1))))"

definition getDelegationState :: "'w gov_env \<Rightarrow> string \<Rightarrow> ('w, thrown, delegation_state) act" where
  "getDelegationState e address =
     bindW (liftW (validateAddress (govValid e) address ''address'')) (\<lambda>_.
     bindW (govSimulate e (GetDelegationCall address)) (\<lambda>r. case r of
       None \<Rightarrow> retW \<lparr>delegatedTo = None, delegatedFrom = [], totalVotingPower = 0, ownPower = 0\<rparr>
     | Some v \<Rightarrow> liftW (decodeDelegationState (toNative e v))))"

section \<open>Voting power\<close>

datatype js_amount = ABigint int | ANumber "rat option" | AText string

record voting_power =
  vpOwnStake :: int
  vpDelegatedStake :: int
  vpTotalPower :: int
  percentOfTotal :: rat

record vote_snapshot =
  snapOwn :: "js_amount option"
  snapDelegated :: "js_amount option"
  snapTotalVoting :: "js_amount option"
  snapTotalPower :: "js_amount option"

definition zeroVotingPower :: voting_power where
  "zeroVotingPower = \<lparr>vpOwnStake = 0, vpDelegatedStake = 0, vpTotalPower = 0, percentOfTotal = 0\<rparr>"

text \<open>A number that is not finite is \<open>None\<close>. \<open>BigInt\<close> of a fraction throws.\<close>

definition normalizeBigInt :: "js_amount option \<Rightarrow> int \<Rightarrow> int result" where
  "normalizeBigInt v fallback = (case v of
       None \<Rightarrow> Inr fallback
     | Some (ABigint n) \<Rightarrow> Inr n
     | Some (ANumber None) \<Rightarrow> Inr fallback
     | Some (ANumber (Some x)) \<Rightarrow> if x = of_int \<lfloor>x\<rfloor> then Inr \<lfloor>x\<rfloor>
         else Inl (RangeError ''The number cannot be converted to a BigInt because it is not an integer'')
     | Some (AText s) \<Rightarrow> if trim s = [] then Inr fallback
         else (case bigint_of_text s of Inr n \<Rightarrow> Inr n | Inl _ \<Rightarrow> Inr fallback))"

definition buildVotingPower :: "vote_snapshot option \<Rightarrow> voting_power result" where
  "buildVotingPower snap = (case snap of None \<Rightarrow> Inr zeroVotingPower
     | Some s \<Rightarrow>
         bindE (normalizeBigInt (snapOwn s) 0) (\<lambda>own.
         bindE (normalizeBigInt (snapDelegated s) 0) (\<lambda>delegated.
         bindE (normalizeBigInt (snapTotalPower s) (own + delegated)) (\<lambda>total.
         bindE (normalizeBigInt (snapTotalVoting s) 0) (\<lambda>allPower.
           Inr \<lparr>vpOwnStake = own, vpDelegatedStake = delegated, vpTotalPower = total,
                percentOfTotal = (if 0 < allPower then of_int ((total * 10000) sdiv allPower) / 100 else 0)\<rparr>)))))"

text \<open>\<open>provider\<close> is the registered query, \<open>None\<close> before one is set.\<close>

definition getVotingPower :: "(string \<Rightarrow> int option \<Rightarrow> ('w, thrown, vote_snapshot option) act) option \<Rightarrow>
    string \<Rightarrow> int option \<Rightarrow> ('w, thrown, voting_power) act" where
  "getVotingPower provider address ledger =
    (if address = [] then retW zeroVotingPower
     else (case provider of
         None \<Rightarrow> throwW (Sdk (NotConfiguredError ''Voting power query provider'' None))
       | Some query \<Rightarrow> bindW (query address ledger) (\<lambda>s. liftW (buildVotingPower s))))"

definition getProposalVotingPower :: "'w gov_env \<Rightarrow>
    (string \<Rightarrow> int option \<Rightarrow> ('w, thrown, vote_snapshot option) act) option \<Rightarrow> string \<Rightarrow> string \<Rightarrow>
    ('w, thrown, voting_power) act" where
  "getProposalVotingPower e provider proposalId address =
     bindW (getProposal e proposalId) (\<lambda>p. getVotingPower provider address (Some (propCreatedAt p)))"

section \<open>Properties\<close>

definition quiet_gov :: "scval option \<Rightarrow> native \<Rightarrow> nat gov_env" where
  "quiet_gov reply v = \<lparr>govSimulate = (\<lambda>_ w. (Inr reply, w)),
     govSubmit = (\<lambda>_ _ w. (Inr \<lparr>success = True, res_data = None, res_error = None, res_txHash = Some ''h''\<rparr>, Suc w)),
     govGetTransaction = (\<lambda>_ w. (Inr \<lparr>r_status = ''NOT_FOUND'', r_ledger = None\<rparr>, w)),
     govSigner = (\<lambda>w. (Inr ''G'', w)), govValid = (\<lambda>_. True), toNative = (\<lambda>_. v), toNumber = (\<lambda>_. 0),
     enumMessage = []\<rparr>"



text \<open>
  The condition on NOT_FOUND is needed. The status is asked for once, at once, and a server says
  NOT_FOUND of a transaction that is merely still pending: the vote is sent again while the first
  one can still land.
\<close>

theorem pending_vote_sent_twice:
  "submitOnceMore hasty_status net_submit ''castVote'' ([], [], 0) = (Inr ''tt'', ([''tt''], [''t''], 2))"
  by code_simp

text \<open>The history answers the filter: every proposal has the asked status, there are at most as many as
  asked for, and they come in the contract's order.\<close>

theorem history_respects_filter:
  assumes "getProposalHistory e maxItems fromLedger st w = (Inr ps, w')"
  shows "(\<forall>s. st = Some s \<longrightarrow> list_all (\<lambda>p. propStatus p = s) ps) \<and>
    (\<forall>n. maxItems = Some n \<longrightarrow> int (length ps) \<le> \<lfloor>n\<rfloor> \<and> length ps \<le> 1000) \<and>
    (\<exists>r all. govSimulate e (GetHistoryCall st (map_option floor fromLedger) (map_option floor maxItems)) w =
        (Inr r, w') \<and> decodeProposals e r = Inr all \<and> subseq ps all)"
proof -
  obtain r all where sim: "govSimulate e (GetHistoryCall st (map_option floor fromLedger) (map_option floor maxItems)) w =
      (Inr r, w')" and valid: "validateFilter maxItems fromLedger st = Inr ()" and all: "decodeProposals e r = Inr all"
    and ps: "ps = (let ps1 = (case st of None \<Rightarrow> all | Some s \<Rightarrow> filter (\<lambda>p. propStatus p = s) all)
      in case maxItems of None \<Rightarrow> ps1 | Some n \<Rightarrow> take (nat \<lfloor>n\<rfloor>) ps1)"
    using assms unfolding getProposalHistory_def by (auto simp: act_simps Let_def)
  have first: "subseq (take n xs) xs" for n and xs :: "proposal list"
    by (intro prefix_imp_subseq take_is_prefix)
  have sub: "subseq ps all" unfolding ps Let_def
    using first subseq_order.trans[OF first subseq_filter_left] by (auto split: option.splits)
  have "1 \<le> \<lfloor>n\<rfloor> \<and> \<lfloor>n\<rfloor> \<le> 1000" if "maxItems = Some n" for n
    using valid that by (auto simp: validateFilter_def result_simps le_floor_iff floor_less_iff not_less
        split: if_splits)
  moreover have "int (length (take (nat k) xs)) \<le> k \<and> length (take (nat k) xs) \<le> 1000"
    if "1 \<le> k \<and> k \<le> 1000" for k :: int and xs :: "proposal list" using that by (auto simp: min_def nat_le_iff le_nat_iff)
  ultimately have "int (length ps) \<le> \<lfloor>n\<rfloor> \<and> length ps \<le> 1000" if "maxItems = Some n" for n
    using that unfolding ps Let_def by (simp del: length_take)
  moreover have "list_all (\<lambda>p. propStatus p = s) ps" if "st = Some s" for s
    using that unfolding ps Let_def by (auto split: option.splits simp: list_all_iff dest: in_set_takeD)
  ultimately show ?thesis using sim all sub by blast
qed

definition one_proposal :: native where
  "one_proposal = NRec [(''id'', NStr ''7''), (''status'', NStr ''passed'')]"

lemma history_respects_filter_witness:
  "map_sum id length (fst (getProposalHistory (quiet_gov (Some (ScvVec (Some [ScvVoid, ScvVoid]))) one_proposal)
     (Some 1) None (Some ''passed'') 0)) = Inr 1"
proof -
  let ?run = "getProposalHistory (quiet_gov (Some (ScvVec (Some [ScvVoid, ScvVoid]))) one_proposal)
     (Some 1) None (Some ''passed'') 0"
  have ev: "map_sum id length (fst ?run) = Inr (1::nat)" by code_simp
  then obtain ps w' where run: "?run = (Inr ps, w')" by (cases ?run; cases "fst ?run") auto
  show ?thesis using history_respects_filter[OF run] ev by blast
qed

text \<open>A vote on a proposal that cannot be read is never submitted.\<close>

theorem vote_needs_proposal:
  assumes "trim i \<noteq> []" and "voteType \<in> {''for'', ''against'', ''abstain''}"
    and "govSimulate e (GetProposalCall i) w = (Inr None, w1)"
  shows "castVote e i voteType w =
    (Inl (Sdk (ValidationError (''proposalId does not reference an existing proposal: '' @ i))), w1)"
  using assms by (auto simp: castVote_def mustExist_def getProposal_def proposalIdGiven_def catchW_def bindW_def
      liftW_def throwW_def List.member_iff)

lemma vote_needs_proposal_witness:
  "castVote (quiet_gov None NNull) ''7'' ''for'' 0 =
    (Inl (Sdk (ValidationError ''proposalId does not reference an existing proposal: 7'')), 0)"
  using vote_needs_proposal[of "''7''" "''for''" "quiet_gov None NNull" 0 0]
  by (simp add: quiet_gov_def trim_def is_space_def of_char_def)

text \<open>The share of the total is exact to a hundredth of a percent, rounded down, and a share.\<close>

theorem percent_of_total:
  assumes "0 \<le> tot" and "tot \<le> allPower" and "0 < allPower"
    and "buildVotingPower (Some \<lparr>snapOwn = a, snapDelegated = b, snapTotalVoting = Some (ABigint allPower),
      snapTotalPower = Some (ABigint tot)\<rparr>) = Inr vp"
  shows "0 \<le> percentOfTotal vp \<and> percentOfTotal vp \<le> 100 \<and>
    percentOfTotal vp \<le> of_int tot / of_int allPower * 100 \<and>
    of_int tot / of_int allPower * 100 < percentOfTotal vp + 1 / 100"
proof -
  define q where "q = tot * 10000 div allPower"
  have p: "percentOfTotal vp = of_int q / 100"
    using assms by (auto simp: q_def buildVotingPower_def normalizeBigInt_def result_simps bigint_simps)
  have "q * allPower \<le> tot * 10000" and "tot * 10000 < (q + 1) * allPower"
    using \<open>0 < allPower\<close> div_mult_mod_eq[of "tot * 10000" allPower] pos_mod_bound[of allPower "tot * 10000"]
      pos_mod_sign[of allPower "tot * 10000"] unfolding q_def distrib_right by linarith+
  then have bounds: "of_int q * of_int allPower \<le> (of_int tot * 10000 :: rat)"
    "(of_int tot * 10000 :: rat) < (of_int q + 1) * of_int allPower"
    unfolding of_int_le_iff[where 'a = rat, symmetric] of_int_less_iff[where 'a = rat, symmetric] by simp_all
  have "0 \<le> q" using assms by (simp add: q_def pos_imp_zdiv_nonneg_iff)
  moreover have "q \<le> 10000" using assms zdiv_mono1[of "tot * 10000" "allPower * 10000" allPower] by (simp add: q_def)
  moreover have "(0 :: rat) < of_int allPower" using assms by simp
  ultimately show ?thesis using bounds unfolding p by (simp add: pos_divide_less_eq pos_le_divide_eq field_simps)
qed

lemma percent_of_total_witness:
  "percentOfTotal \<lparr>vpOwnStake = 0, vpDelegatedStake = 0, vpTotalPower = 1, percentOfTotal = 3333 / 100\<rparr> \<le> 100"
  using percent_of_total[of 1 3 None None]
  by (simp add: buildVotingPower_def normalizeBigInt_def bigint_simps)

text \<open>What is checked is the trimmed text, what is submitted is not: a title far beyond the 200 characters
  is accepted when spaces make up the rest.\<close>

theorem padded_title_accepted:
  "validateProposalInput valid (replicate n (CHR '' '') @ ''T'') ''D'' as = validateProposalInput valid ''T'' ''D'' as"
proof -
  have "dropWhile is_space (replicate n (CHR '' '') @ ''T'') = ''T''"
    by (induction n) (simp_all add: is_space_def of_char_def)
  then have "trim (replicate n (CHR '' '') @ ''T'') = trim ''T''"
    by (simp add: trim_def is_space_def of_char_def)
  then show ?thesis by (simp add: validateProposalInput_def)
qed

text \<open>A fractional amount from a provider throws where every other unreadable amount falls back.\<close>

theorem fractional_amount_throws:
  "normalizeBigInt (Some (ANumber (Some (3/2)))) 0 = Inl (RangeError
     ''The number cannot be converted to a BigInt because it is not an integer'') \<and>
   normalizeBigInt (Some (AText ''1.5'')) 0 = Inr 0"
  by code_simp

end
