(* ===== verification/Webhooks.thy ===== *)
theory Webhooks
  imports Submission Validation "HOL-Library.AList"
begin

text \<open>
  \<open>modules/webhooks.ts\<close>, the webhooks that subscribe to events: registration, delivery with retries,
  the verification handshake, and the history. A JavaScript \<open>Map\<close> keeps the order of insertion and
  is an association list. The records that a pending delivery or handshake holds on to are objects;
  they live in two stores, and the maps hold references into them. A pending HTTP request or timer
  maps the whole state, so whatever other operations run meanwhile is covered.
\<close>

section \<open>Data\<close>

datatype hook_outcome = Delivered | NetworkFailure | ClientFailure | ServerFailure

record history_entry =
  deliveryId :: string
  entryTime :: int
  entryStatus :: int
  entryDelivered :: bool
  entryAttempts :: nat
  entryRetries :: nat
  entryOutcome :: hook_outcome
  entryError :: "string option"

record stored_webhook =
  hookId :: string
  hookUrl :: string
  hookEvents :: "string list"
  hookSecret :: "string option"
  hookCreatedAt :: int
  hookUpdatedAt :: "int option"
  hookVerified :: bool

datatype disabled_reason = Manual | Auto

record webhook_state =
  hookHistory :: "history_entry list"
  hookFailures :: nat
  hookDisabled :: bool
  hookDisabledAt :: "int option"
  hookDisabledReason :: "disabled_reason option"
  lastDelivery :: "int option"

record hooks =
  webhooks :: "(string \<times> nat) list"
  webhookState :: "(string \<times> nat) list"
  storedHeap :: "stored_webhook list"
  stateHeap :: "webhook_state list"

text \<open>The surroundings: clock, requests, timers, generated ids, URL parsing, JSON and HMAC. A request
  answers the HTTP status; \<open>fetchHook\<close> takes the timeout, the URL, the headers and the body.\<close>

record ('w, 'p) hook_env =
  nowMs :: "'w \<Rightarrow> int"
  fetchHook :: "rat \<Rightarrow> string \<Rightarrow> (string \<times> string) list \<Rightarrow> string \<Rightarrow> ('w, thrown, int) act"
  hookSleep :: "rat \<Rightarrow> 'w \<Rightarrow> 'w"
  newId :: "'w \<Rightarrow> string \<times> 'w"
  httpsUrl :: "string \<Rightarrow> string option"
  hmac :: "string \<Rightarrow> string \<Rightarrow> string"
  envelopeText :: "string \<Rightarrow> int \<Rightarrow> string option \<Rightarrow> 'p \<Rightarrow> string"
  challengeText :: "string \<Rightarrow> string \<Rightarrow> int \<Rightarrow> string"

definition WEBHOOK_DISABLE_FAILURE_THRESHOLD :: nat where
  "WEBHOOK_DISABLE_FAILURE_THRESHOLD = 5"

definition WEBHOOK_HISTORY_CAPACITY :: nat where
  "WEBHOOK_HISTORY_CAPACITY = 500"

section \<open>The state of a webhook\<close>

definition createInitialState :: webhook_state where
  "createInitialState = \<lparr>hookHistory = [], hookFailures = 0, hookDisabled = False, hookDisabledAt = None,
     hookDisabledReason = None, lastDelivery = None\<rparr>"

definition recordTerminal :: "history_entry \<Rightarrow> webhook_state \<Rightarrow> webhook_state" where
  "recordTerminal entry s = (let h = hookHistory s @ [entry]
     in s\<lparr>hookHistory := drop (length h - WEBHOOK_HISTORY_CAPACITY) h\<rparr>)"

definition recordOutcome :: "int \<Rightarrow> history_entry \<Rightarrow> webhook_state \<Rightarrow> webhook_state" where
  "recordOutcome now entry s =
    (let s1 = (recordTerminal entry s)\<lparr>lastDelivery := Some (entryTime entry)\<rparr>
     in if entryOutcome entry \<in> {Delivered, ClientFailure} then s1\<lparr>hookFailures := 0\<rparr>
     else (let s2 = s1\<lparr>hookFailures := hookFailures s1 + 1\<rparr>
       in if WEBHOOK_DISABLE_FAILURE_THRESHOLD \<le> hookFailures s2 \<and> \<not> hookDisabled s2
          then s2\<lparr>hookDisabled := True, hookDisabledReason := Some Auto, hookDisabledAt := Some now\<rparr>
          else s2))"

definition resetFailureState :: "webhook_state \<Rightarrow> webhook_state" where
  "resetFailureState s = (let s1 = s\<lparr>hookFailures := 0\<rparr>
     in if hookDisabled s1 \<and> hookDisabledReason s1 = Some Auto
        then s1\<lparr>hookDisabled := False, hookDisabledAt := None, hookDisabledReason := None\<rparr> else s1)"

definition disable_state :: "int \<Rightarrow> webhook_state \<Rightarrow> webhook_state" where
  "disable_state now s = (if hookDisabled s then s
     else s\<lparr>hookDisabled := True, hookDisabledReason := Some Manual, hookDisabledAt := Some now\<rparr>)"

definition enable_state :: "webhook_state \<Rightarrow> webhook_state" where
  "enable_state s = (if hookDisabled s \<or> 0 < hookFailures s
     then s\<lparr>hookDisabled := False, hookFailures := 0, hookDisabledAt := None, hookDisabledReason := None\<rparr>
     else s)"

text \<open>Changing the object a reference points to, and looking objects up.\<close>

definition upd_state :: "nat \<Rightarrow> (webhook_state \<Rightarrow> webhook_state) \<Rightarrow> 'x hooks_scheme \<Rightarrow> 'x hooks_scheme" where
  "upd_state r f w = w\<lparr>stateHeap := (stateHeap w)[r := f (stateHeap w ! r)]\<rparr>"

definition upd_stored :: "nat \<Rightarrow> (stored_webhook \<Rightarrow> stored_webhook) \<Rightarrow> 'x hooks_scheme \<Rightarrow> 'x hooks_scheme" where
  "upd_stored r f w = w\<lparr>storedHeap := (storedHeap w)[r := f (storedHeap w ! r)]\<rparr>"

definition stored_of :: "'x hooks_scheme \<Rightarrow> string \<Rightarrow> stored_webhook option" where
  "stored_of w i = map_option ((!) (storedHeap w)) (map_of (webhooks w) i)"

definition state_of :: "'x hooks_scheme \<Rightarrow> string \<Rightarrow> webhook_state option" where
  "state_of w i = map_option ((!) (stateHeap w)) (map_of (webhookState w) i)"

section \<open>Registration\<close>

text \<open>First occurrences only, trimmed.\<close>

fun normalizeLoop :: "string list \<Rightarrow> string list \<Rightarrow> string list" where
  "normalizeLoop seen [] = []"
| "normalizeLoop seen (ev # evs) = (let name = trim ev in
     if name \<in> set seen then normalizeLoop seen evs else name # normalizeLoop (name # seen) evs)"

definition normalizeEvents :: "string list \<Rightarrow> string list" where
  "normalizeEvents = normalizeLoop []"

definition checkUrl :: "(string \<Rightarrow> string option) \<Rightarrow> string \<Rightarrow> string result" where
  "checkUrl https url = (if trim url = [] then Inl (ValidationError ''webhook url must not be empty'')
     else case https url of None \<Rightarrow> Inl (ValidationError ''webhook url must be a valid HTTPS URL'')
       | Some u \<Rightarrow> Inr u)"

definition checkEvents :: "string list \<Rightarrow> string list result" where
  "checkEvents evs = (if evs = [] then Inl (ValidationError ''webhook events must be a non-empty array of strings'')
     else if list_ex (\<lambda>ev. trim ev = []) evs then Inl (ValidationError ''webhook event names must be non-empty strings'')
     else Inr (normalizeEvents evs))"

definition checkSecret :: "string option \<Rightarrow> unit result" where
  "checkSecret secret = throw_if (secret = Some [])
     (ValidationError ''webhook secret must be a non-empty string when provided'')"

definition registerWebhook :: "('x hooks_scheme, 'p) hook_env \<Rightarrow> string \<Rightarrow> string list \<Rightarrow> string option \<Rightarrow>
    ('x hooks_scheme, thrown, string) act" where
  "registerWebhook e url evs secret =
     bindW (liftW (checkUrl (httpsUrl e) url)) (\<lambda>u.
     bindW (liftW (checkEvents evs)) (\<lambda>names.
     bindW (liftW (checkSecret secret)) (\<lambda>_ w.
       let (i, w1) = newId e w;
           stored = \<lparr>hookId = i, hookUrl = u, hookEvents = names, hookSecret = secret,
             hookCreatedAt = nowMs e w1, hookUpdatedAt = None, hookVerified = False\<rparr>
       in (Inr i, w1\<lparr>webhooks := AList.update i (length (storedHeap w1)) (webhooks w1),
            storedHeap := storedHeap w1 @ [stored],
            webhookState := AList.update i (length (stateHeap w1)) (webhookState w1),
            stateHeap := stateHeap w1 @ [createInitialState]\<rparr>))))"

text \<open>An update writes a new object; what was omitted is copied from the old one.\<close>

definition updatedStored :: "int \<Rightarrow> string \<Rightarrow> string list \<Rightarrow> string option \<Rightarrow> stored_webhook \<Rightarrow> stored_webhook" where
  "updatedStored now u names secret s = s\<lparr>hookUrl := u, hookEvents := names,
     hookSecret := (case secret of None \<Rightarrow> hookSecret s | Some x \<Rightarrow> Some x),
     hookVerified := hookVerified s \<and> u = hookUrl s, hookUpdatedAt := Some now\<rparr>"

definition resetMoved :: "string \<Rightarrow> 'x hooks_scheme \<Rightarrow> 'x hooks_scheme" where
  "resetMoved i w = (case map_of (webhookState w) i of None \<Rightarrow> w | Some r \<Rightarrow> upd_state r resetFailureState w)"

definition storeWebhook :: "string \<Rightarrow> stored_webhook \<Rightarrow> 'x hooks_scheme \<Rightarrow> 'x hooks_scheme" where
  "storeWebhook i s w = w\<lparr>webhooks := AList.update i (length (storedHeap w)) (webhooks w), storedHeap := storedHeap w @ [s]\<rparr>"

definition updateWebhook :: "('x hooks_scheme, 'p) hook_env \<Rightarrow> string \<Rightarrow> string option \<Rightarrow> string list option \<Rightarrow>
    string option \<Rightarrow> ('x hooks_scheme, thrown, unit) act" where
  "updateWebhook e i url evs secret w = (case stored_of w i of
       None \<Rightarrow> (Inl (Sdk (WebhookError (''webhook not found: '' @ i))), w)
     | Some s \<Rightarrow>
         bindW (case url of None \<Rightarrow> retW (hookUrl s) | Some u \<Rightarrow> liftW (checkUrl (httpsUrl e) u)) (\<lambda>u.
         bindW (case evs of None \<Rightarrow> retW (hookEvents s) | Some ns \<Rightarrow> liftW (checkEvents ns)) (\<lambda>names.
         bindW (liftW (checkSecret secret)) (\<lambda>_ w.
           (Inr (), storeWebhook i (updatedStored (nowMs e w) u names secret s)
              (if u \<noteq> hookUrl s then resetMoved i w else w))))) w)"

definition disableWebhook :: "('x hooks_scheme, 'p) hook_env \<Rightarrow> string \<Rightarrow> 'x hooks_scheme \<Rightarrow> bool \<times> 'x hooks_scheme" where
  "disableWebhook e i w = (case map_of (webhookState w) i of
     None \<Rightarrow> (False, w) | Some r \<Rightarrow> (True, upd_state r (disable_state (nowMs e w)) w))"

definition enableWebhook :: "string \<Rightarrow> 'x hooks_scheme \<Rightarrow> bool \<times> 'x hooks_scheme" where
  "enableWebhook i w = (case map_of (webhookState w) i of
     None \<Rightarrow> (False, w) | Some r \<Rightarrow> (True, upd_state r enable_state w))"

definition deleteWebhook :: "string \<Rightarrow> 'x hooks_scheme \<Rightarrow> bool \<times> 'x hooks_scheme" where
  "deleteWebhook i w = (map_of (webhooks w) i \<noteq> None,
     w\<lparr>webhooks := AList.delete i (webhooks w), webhookState := AList.delete i (webhookState w)\<rparr>)"

definition clear :: "'x hooks_scheme \<Rightarrow> 'x hooks_scheme" where
  "clear w = w\<lparr>webhooks := [], webhookState := []\<rparr>"

section \<open>Delivery\<close>

record hook_options =
  optRetries :: "rat option"
  optBaseDelay :: "rat option"
  optMaxDelay :: "rat option"
  optMultiplier :: "rat option"
  optTimeout :: "rat option"
  optEvent :: "string option"

record hook_config =
  cfgRetries :: rat
  cfgBaseDelay :: rat
  cfgMaxDelay :: rat
  cfgMultiplier :: rat
  cfgTimeout :: rat

definition or_default :: "'a option \<Rightarrow> 'a \<Rightarrow> 'a" where
  "or_default opt d = (case opt of None \<Rightarrow> d | Some x \<Rightarrow> x)"

definition resolveOptions :: "hook_options \<Rightarrow> hook_config" where
  "resolveOptions opts = \<lparr>cfgRetries = or_default (optRetries opts) 3, cfgBaseDelay = or_default (optBaseDelay opts) 500,
     cfgMaxDelay = or_default (optMaxDelay opts) 10000, cfgMultiplier = or_default (optMultiplier opts) 2,
     cfgTimeout = or_default (optTimeout opts) 10000\<rparr>"

definition computeBackoff :: "nat \<Rightarrow> hook_config \<Rightarrow> rat" where
  "computeBackoff attempt cfg = min (cfgMaxDelay cfg) (cfgBaseDelay cfg * cfgMultiplier cfg ^ attempt)"

text \<open>The outcome of one attempt: the status of the answer, or what the request threw.\<close>

type_synonym attempt = "thrown + int"

definition ok_status :: "int \<Rightarrow> bool" where
  "ok_status c \<longleftrightarrow> 200 \<le> c \<and> c < 300"

definition attemptStatus :: "attempt \<Rightarrow> int" where
  "attemptStatus a = (case a of Inl _ \<Rightarrow> 0 | Inr c \<Rightarrow> c)"

definition attemptDelivered :: "attempt \<Rightarrow> bool" where
  "attemptDelivered a = (case a of Inl _ \<Rightarrow> False | Inr c \<Rightarrow> ok_status c)"

definition shouldRetry :: "attempt \<Rightarrow> nat \<Rightarrow> rat \<Rightarrow> bool" where
  "shouldRetry a n most \<longleftrightarrow> of_nat n < most \<and>
     (case a of Inl _ \<Rightarrow> True | Inr c \<Rightarrow> c = 429 \<or> c = 408 \<or> (500 \<le> c \<and> c < 600))"

definition classifyOutcome :: "attempt \<Rightarrow> hook_outcome \<times> string option" where
  "classifyOutcome a = (case a of
       Inl err \<Rightarrow> (NetworkFailure, Some (case err of Undefined \<Rightarrow> [] | _ \<Rightarrow> thrown_text err))
     | Inr c \<Rightarrow> if ok_status c then (Delivered, None)
         else if 500 \<le> c \<and> c < 600 then (ServerFailure, Some (''server returned '' @ int_str c))
         else (ClientFailure, Some (''client returned '' @ int_str c)))"

record delivery_result =
  drStatus :: int
  drDelivered :: bool
  drRetries :: nat
  drFiltered :: bool

definition buildSignature :: "('w, 'p) hook_env \<Rightarrow> string \<Rightarrow> string \<Rightarrow> string" where
  "buildSignature e secret body = ''sha256='' @ hmac e secret body"

definition secret_header :: "('w, 'p) hook_env \<Rightarrow> string option \<Rightarrow> string \<Rightarrow> (string \<times> string) list" where
  "secret_header e secret body = (case secret of None \<Rightarrow> []
     | Some s \<Rightarrow> if s = [] then [] else [(''X-Signature'', buildSignature e s body)])"

definition deliveryHeaders :: "('w, 'p) hook_env \<Rightarrow> string option \<Rightarrow> string option \<Rightarrow> string \<Rightarrow> string \<Rightarrow>
    (string \<times> string) list" where
  "deliveryHeaders e secret event i body =
     [(''Content-Type'', ''application/json''), (''User-Agent'', ''CoralSwap-SDK/1.0 (+webhooks)'')] @
     secret_header e secret body @
     (case event of None \<Rightarrow> [] | Some ev \<Rightarrow> if ev = [] then [] else [(''X-Webhook-Event'', ev)]) @
     [(''X-Webhook-Delivery'', i)]"

definition deliveryEntry :: "string \<Rightarrow> int \<Rightarrow> attempt \<Rightarrow> nat \<Rightarrow> history_entry" where
  "deliveryEntry i now a n = \<lparr>deliveryId = i, entryTime = now, entryStatus = attemptStatus a,
     entryDelivered = attemptDelivered a, entryAttempts = Suc n, entryRetries = n,
     entryOutcome = fst (classifyOutcome a), entryError = snd (classifyOutcome a)\<rparr>"

text \<open>Attempt \<open>n\<close> and what follows it; \<open>r\<close> is the state object taken at the start.\<close>

function deliverLoop :: "('x hooks_scheme, 'p) hook_env \<Rightarrow> hook_config \<Rightarrow> nat \<Rightarrow> string \<Rightarrow>
    (string \<times> string) list \<Rightarrow> string \<Rightarrow> string \<Rightarrow> nat \<Rightarrow> ('x hooks_scheme, thrown, delivery_result) act" where
  "deliverLoop e cfg r url headers body i n w =
    (if cfgRetries cfg < of_nat n
     then (Inl (Sdk (WebhookError ''webhook delivery exited retry loop without a terminal outcome'')), w)
     else (case fetchHook e (cfgTimeout cfg) url headers body w of (a, w1) \<Rightarrow>
       if attemptDelivered a \<or> \<not> shouldRetry a n (cfgRetries cfg)
       then (Inr \<lparr>drStatus = attemptStatus a, drDelivered = attemptDelivered a, drRetries = n, drFiltered = False\<rparr>,
             upd_state r (recordOutcome (nowMs e w1) (deliveryEntry i (nowMs e w1) a n)) w1)
       else deliverLoop e cfg r url headers body i (Suc n) (hookSleep e (computeBackoff n cfg) w1)))"
  by pat_completeness auto
termination
proof (relation "measure (\<lambda>(e, cfg, r, url, headers, body, i, n, w). nat (\<lceil>cfgRetries cfg\<rceil> + 1 - int n))", goal_cases)
  case (2 e cfg r url headers body i n w x y)
  then have "int n \<le> \<lceil>cfgRetries cfg\<rceil>" by (metis ceiling_mono ceiling_of_nat linorder_not_less)
  then show ?case by simp
qed simp

declare deliverLoop.simps [simp del]

definition sendWebhook :: "('x hooks_scheme, 'p) hook_env \<Rightarrow> string \<Rightarrow> 'p \<Rightarrow> hook_options \<Rightarrow>
    ('x hooks_scheme, thrown, delivery_result) act" where
  "sendWebhook e i payload opts w =
    (case stored_of w i of None \<Rightarrow> (Inl (Sdk (WebhookError (''webhook not found: '' @ i))), w)
     | Some stored \<Rightarrow>
    (case map_of (webhookState w) i of None \<Rightarrow> (Inl (Sdk (WebhookError (''webhook state missing: '' @ i))), w)
     | Some r \<Rightarrow>
    if hookDisabled (stateHeap w ! r)
    then (Inl (Sdk (WebhookDisabledError i (int (hookFailures (stateHeap w ! r))))), w)
    else (let deliver = (\<lambda>event. let cfg = resolveOptions opts; (d, w1) = newId e w;
              body = envelopeText e d (nowMs e w1) event payload
            in deliverLoop e cfg r (hookUrl stored) (deliveryHeaders e (hookSecret stored) event d body) body d 0 w1)
      in case optEvent opts of
        None \<Rightarrow> deliver (case hookEvents stored of [] \<Rightarrow> None | ev # _ \<Rightarrow> Some ev)
      | Some ev \<Rightarrow>
          if trim ev = [] then (Inl (Sdk (ValidationError ''webhook event must be a non-empty string'')), w)
          else if trim ev \<notin> set (hookEvents stored)
          then (Inr \<lparr>drStatus = 0, drDelivered = False, drRetries = 0, drFiltered = True\<rparr>, w)
          else deliver (Some (trim ev)))))"

section \<open>The verification handshake\<close>

record verify_result =
  vrVerified :: bool
  vrStatus :: int
  vrError :: "string option"

definition setVerified :: "bool \<Rightarrow> stored_webhook \<Rightarrow> stored_webhook" where
  "setVerified b s = s\<lparr>hookVerified := b\<rparr>"

definition verifyWebhook :: "('x hooks_scheme, 'p) hook_env \<Rightarrow> string \<Rightarrow> rat option \<Rightarrow>
    ('x hooks_scheme, thrown, verify_result) act" where
  "verifyWebhook e i timeout w = (case map_of (webhooks w) i of
       None \<Rightarrow> (Inl (Sdk (WebhookError (''webhook not found: '' @ i))), w)
     | Some r \<Rightarrow>
        (let stored = storedHeap w ! r; (challenge, w1) = newId e w;
             body = challengeText e challenge i (nowMs e w1);
             headers = [(''Content-Type'', ''application/json''), (''User-Agent'', ''CoralSwap-SDK/1.0 (+webhooks)''),
               (''X-Webhook-Verify'', ''1'')] @ secret_header e (hookSecret stored) body
         in case fetchHook e (or_default timeout 10000) (hookUrl stored) headers body w1 of
              (Inr c, w2) \<Rightarrow> (Inr \<lparr>vrVerified = ok_status c, vrStatus = c, vrError =
                   (if ok_status c then None else Some (''endpoint returned status '' @ int_str c))\<rparr>,
                 upd_stored r (setVerified (ok_status c)) w2)
            | (Inl err, w2) \<Rightarrow> (Inr \<lparr>vrVerified = False, vrStatus = 0, vrError = Some (thrown_text err)\<rparr>,
                 upd_stored r (setVerified False) w2)))"

section \<open>Views and history\<close>

record webhook_view =
  viewStored :: stored_webhook
  viewFailCount :: nat
  viewLastDelivery :: "int option"

definition toWebhook :: "'x hooks_scheme \<Rightarrow> stored_webhook \<Rightarrow> webhook_view" where
  "toWebhook w stored = (let st = state_of w (hookId stored) in
     \<lparr>viewStored = stored, viewFailCount = (case st of None \<Rightarrow> 0 | Some s \<Rightarrow> hookFailures s),
      viewLastDelivery = (case st of None \<Rightarrow> None | Some s \<Rightarrow> lastDelivery s)\<rparr>)"

definition listWebhooks :: "'x hooks_scheme \<Rightarrow> webhook_view list" where
  "listWebhooks w = map (\<lambda>(_, r). toWebhook w (storedHeap w ! r)) (webhooks w)"

definition isWebhookDisabled :: "'x hooks_scheme \<Rightarrow> string \<Rightarrow> bool" where
  "isWebhookDisabled w i = (case state_of w i of None \<Rightarrow> False | Some s \<Rightarrow> hookDisabled s)"

definition isWebhookVerified :: "'x hooks_scheme \<Rightarrow> string \<Rightarrow> bool" where
  "isWebhookVerified w i = (case stored_of w i of None \<Rightarrow> False | Some s \<Rightarrow> hookVerified s)"

definition getWebhookFailureCount :: "'x hooks_scheme \<Rightarrow> string \<Rightarrow> nat" where
  "getWebhookFailureCount w i = (case state_of w i of None \<Rightarrow> 0 | Some s \<Rightarrow> hookFailures s)"

definition getWebhook :: "'x hooks_scheme \<Rightarrow> string \<Rightarrow> webhook_view option" where
  "getWebhook w i = map_option (toWebhook w) (stored_of w i)"

definition listWebhooksForEvent :: "'x hooks_scheme \<Rightarrow> string \<Rightarrow> webhook_view list result" where
  "listWebhooksForEvent w ev =
    (if trim ev = [] then Inl (ValidationError ''webhook event must be a non-empty string'')
     else Inr (filter (\<lambda>v. ev \<in> set (hookEvents (viewStored v)) \<and> \<not> isWebhookDisabled w (hookId (viewStored v)))
       (listWebhooks w)))"

text \<open>\<open>xs.slice(a, b)\<close>: negative positions count from the end.\<close>

definition js_slice :: "'a list \<Rightarrow> int \<Rightarrow> int \<Rightarrow> 'a list" where
  "js_slice xs a b = (let pos = (\<lambda>k. if k < 0 then nat (int (length xs) + k) else min (nat k) (length xs))
     in drop (pos a) (take (pos b) xs))"

definition clampLimit :: "rat option option \<Rightarrow> int" where
  "clampLimit n = (case n of Some (Some x) \<Rightarrow> if x \<le> 0 then 50 else min 200 (max 1 \<lfloor>x\<rfloor>) | _ \<Rightarrow> 50)"

text \<open>\<open>enc\<close> and \<open>dec\<close> are base64url.\<close>

definition encodeCursor :: "(string \<Rightarrow> string) \<Rightarrow> nat \<Rightarrow> string" where
  "encodeCursor enc n = enc (''o:'' @ nat_str n)"

definition decodeCursor :: "(string \<Rightarrow> string) \<Rightarrow> string \<Rightarrow> nat option" where
  "decodeCursor dec cursor = (let s = dec cursor; d = drop 2 s
     in if take 2 s = ''o:'' \<and> d \<noteq> [] \<and> list_all is_digit d then Some (parse_nat d) else None)"

record history_page =
  items :: "history_entry list"
  nextCursor :: "string option"
  pageTotal :: nat

definition pageStart :: "(string \<Rightarrow> string) \<Rightarrow> int \<Rightarrow> string option \<Rightarrow> int option \<Rightarrow> int" where
  "pageStart dec tot cursor offset =
    (if cursor \<noteq> None \<and> cursor \<noteq> Some []
     then (case decodeCursor dec (the cursor) of Some d \<Rightarrow> if int d \<le> tot then tot - int d else tot | None \<Rightarrow> tot)
     else (case offset of Some k \<Rightarrow> if 0 \<le> k then tot - k else tot | None \<Rightarrow> tot))"

definition historyPage :: "(string \<Rightarrow> string) \<Rightarrow> (string \<Rightarrow> string) \<Rightarrow> history_entry list \<Rightarrow> rat option option \<Rightarrow>
    string option \<Rightarrow> int option \<Rightarrow> history_page" where
  "historyPage enc dec h n cursor offset =
    (let k = clampLimit n; tot = int (length h); startIndex = pageStart dec tot cursor offset;
         page = rev (js_slice h (max 0 (startIndex - k)) startIndex);
         nextOffset = tot - startIndex + int (length page)
     in \<lparr>items = page, nextCursor = (if nextOffset < tot then Some (encodeCursor enc (nat nextOffset)) else None),
         pageTotal = length h\<rparr>)"

definition getWebhookHistory :: "(string \<Rightarrow> string) \<Rightarrow> (string \<Rightarrow> string) \<Rightarrow> 'x hooks_scheme \<Rightarrow> string \<Rightarrow>
    rat option option \<Rightarrow> string option \<Rightarrow> int option \<Rightarrow> history_page result" where
  "getWebhookHistory enc dec w i n cursor offset =
    (case stored_of w i of None \<Rightarrow> Inl (WebhookError (''webhook not found: '' @ i))
     | Some _ \<Rightarrow> (case state_of w i of None \<Rightarrow> Inl (WebhookError (''webhook state missing: '' @ i))
         | Some s \<Rightarrow> Inr (historyPage enc dec (hookHistory s) n cursor offset)))"

section \<open>Invariant\<close>

definition state_ok :: "webhook_state \<Rightarrow> bool" where
  "state_ok s \<longleftrightarrow> length (hookHistory s) \<le> WEBHOOK_HISTORY_CAPACITY \<and>
     (WEBHOOK_DISABLE_FAILURE_THRESHOLD \<le> hookFailures s \<longrightarrow> hookDisabled s) \<and>
     (hookDisabled s \<longleftrightarrow> hookDisabledReason s \<noteq> None) \<and> (hookDisabled s \<longleftrightarrow> hookDisabledAt s \<noteq> None)"

lemmas state_ops = recordTerminal_def recordOutcome_def resetFailureState_def disable_state_def enable_state_def
  createInitialState_def WEBHOOK_HISTORY_CAPACITY_def WEBHOOK_DISABLE_FAILURE_THRESHOLD_def Let_def

lemma state_ok_ops [intro]:
  "state_ok createInitialState"
  "state_ok s \<Longrightarrow> state_ok (recordOutcome now entry s)"
  "state_ok s \<Longrightarrow> state_ok (resetFailureState s)"
  "state_ok s \<Longrightarrow> state_ok (disable_state now s)"
  "state_ok s \<Longrightarrow> state_ok (enable_state s)"
  by (auto simp: state_ok_def state_ops)

definition refs_ok :: "(string \<times> nat) list \<Rightarrow> nat \<Rightarrow> bool" where
  "refs_ok m n \<longleftrightarrow> distinct (map fst m) \<and> list_all (\<lambda>(_, r). r < n) m"

definition hooks_inv :: "'x hooks_scheme \<Rightarrow> bool" where
  "hooks_inv w \<longleftrightarrow> refs_ok (webhooks w) (length (storedHeap w)) \<and> refs_ok (webhookState w) (length (stateHeap w)) \<and>
     map fst (webhooks w) = map fst (webhookState w) \<and> list_all state_ok (stateHeap w) \<and>
     list_all (\<lambda>(i, r). hookId (storedHeap w ! r) = i) (webhooks w)"

lemma refs_ok_lookup: "refs_ok m n \<Longrightarrow> map_of m i = Some r \<Longrightarrow> r < n"
  by (auto simp: refs_ok_def list_all_iff dest: map_of_SomeD)

lemma refs_ok_mono: "refs_ok m n \<Longrightarrow> n \<le> k \<Longrightarrow> refs_ok m k"
  by (auto simp: refs_ok_def list_all_iff)

lemma update_keys_cong: "map fst m = map fst m' \<Longrightarrow> map fst (AList.update i a m) = map fst (AList.update i b m')"
  by (simp add: update_keys)

lemma set_update_subset: "set (AList.update i a m) \<subseteq> insert (i, a) (set m)"
  by (induction m) auto

lemma refs_ok_update: "refs_ok m n \<Longrightarrow> refs_ok (AList.update i n m) (Suc n)"
  using set_update_subset[of i n m] by (fastforce simp: refs_ok_def list_all_iff distinct_update)

lemma refs_ok_delete: "refs_ok m n \<Longrightarrow> refs_ok (AList.delete i m) n"
  by (auto simp: refs_ok_def list_all_iff distinct_map_filter AList.delete_eq)

lemma hooks_inv_state_iff:
  "hooks_inv w \<Longrightarrow> map_of (webhooks w) i \<noteq> None \<longleftrightarrow> map_of (webhookState w) i \<noteq> None"
  by (simp add: hooks_inv_def map_of_eq_None_iff flip: set_map)

text \<open>What an operation may do while another one waits: keep the invariant and never remove objects.\<close>

definition evolves :: "'x hooks_scheme \<Rightarrow> 'x hooks_scheme \<Rightarrow> bool" where
  "evolves w w' \<longleftrightarrow> (hooks_inv w \<longrightarrow> hooks_inv w') \<and> length (storedHeap w) \<le> length (storedHeap w') \<and>
     length (stateHeap w) \<le> length (stateHeap w')"

definition env_ok :: "('x hooks_scheme, 'p) hook_env \<Rightarrow> bool" where
  "env_ok e \<longleftrightarrow> (\<forall>t u hs b w. evolves w (snd (fetchHook e t u hs b w))) \<and> (\<forall>d w. evolves w (hookSleep e d w)) \<and>
     (\<forall>w. evolves w (snd (newId e w)))"

lemma evolves_refl [simp, intro]: "evolves w w"
  by (simp add: evolves_def)

lemma evolves_trans [trans]: "evolves a b \<Longrightarrow> evolves b c \<Longrightarrow> evolves a c"
  by (auto simp: evolves_def)

lemma evolves_upd_state [intro]: "(\<And>s. state_ok s \<Longrightarrow> state_ok (f s)) \<Longrightarrow> evolves w (upd_state r f w)"
  by (cases "r < length (stateHeap w)")
    (auto simp: evolves_def hooks_inv_def upd_state_def list_all_length nth_list_update)

lemma evolves_upd_stored [intro]: "(\<And>s. hookId (f s) = hookId s) \<Longrightarrow> evolves w (upd_stored r f w)"
  by (cases "r < length (storedHeap w)")
    (auto simp: evolves_def hooks_inv_def upd_stored_def list_all_iff nth_list_update list_update_beyond)

lemma env_okD:
  assumes "env_ok e"
  shows "fetchHook e t u hs b w = (a, w') \<Longrightarrow> evolves w w'" "evolves w (hookSleep e d w)"
    "newId e w = (i, w') \<Longrightarrow> evolves w w'"
  using assms unfolding env_ok_def by (metis snd_conv)+

lemma evolves_new_stored:
  assumes "map_of (webhooks w) i \<noteq> None" and "hookId s = i"
  shows "evolves w (w\<lparr>webhooks := AList.update i (length (storedHeap w)) (webhooks w), storedHeap := storedHeap w @ [s]\<rparr>)"
proof -
  have i: "i \<in> set (map fst (webhooks w))" using assms(1) by (simp add: map_of_eq_None_iff)
  have "list_all (\<lambda>(j, r). hookId ((storedHeap w @ [s]) ! r) = j)
      (AList.update i (length (storedHeap w)) (webhooks w))" if "hooks_inv w"
    using that set_update_subset[of i "length (storedHeap w)" "webhooks w"] assms(2)
    unfolding hooks_inv_def refs_ok_def list_all_iff by (fastforce simp: nth_append)
  moreover have "i \<in> set (map fst (webhookState w))" if "hooks_inv w"
    using i that unfolding hooks_inv_def by metis
  ultimately show ?thesis using i refs_ok_update
    by (auto simp: evolves_def hooks_inv_def update_keys simp del: set_map)
qed

lemma evolves_register:
  assumes "hookId s = i"
  shows "evolves w (w\<lparr>webhooks := AList.update i (length (storedHeap w)) (webhooks w), storedHeap := storedHeap w @ [s],
    webhookState := AList.update i (length (stateHeap w)) (webhookState w),
    stateHeap := stateHeap w @ [createInitialState]\<rparr>)"
proof -
  have "list_all (\<lambda>(j, r). hookId ((storedHeap w @ [s]) ! r) = j)
      (AList.update i (length (storedHeap w)) (webhooks w))" if "hooks_inv w"
    using that set_update_subset[of i "length (storedHeap w)" "webhooks w"] assms
    unfolding hooks_inv_def refs_ok_def list_all_iff by (fastforce simp: nth_append)
  then show ?thesis using refs_ok_update state_ok_ops(1)
    by (auto simp: evolves_def hooks_inv_def update_keys)
qed

lemma evolves_delete:
  "evolves w (w\<lparr>webhooks := AList.delete i (webhooks w), webhookState := AList.delete i (webhookState w)\<rparr>)"
  by (auto simp: evolves_def hooks_inv_def refs_ok_delete AList.delete_keys list_all_iff)
    (auto simp: AList.delete_eq)

lemma deliverLoop_evolves:
  assumes "env_ok e"
  shows "evolves w (snd (deliverLoop e cfg r url headers body i n w))"
  using assms
proof (induction e cfg r url headers body i n w rule: deliverLoop.induct)
  case (1 e cfg r url headers body i n w)
  obtain a w1 where f: "fetchHook e (cfgTimeout cfg) url headers body w = (a, w1)" by fastforce
  then have w1: "evolves w w1" using env_okD(1)[OF 1(2)] by blast
  show ?case
  proof (cases "attemptDelivered a \<or> \<not> shouldRetry a n (cfgRetries cfg) \<or> cfgRetries cfg < of_nat n")
    case True
    then show ?thesis using f evolves_trans[OF w1 evolves_upd_state]
      by (auto simp: deliverLoop.simps[of e cfg r url headers body i n w])
  next
    case False
    then have "evolves (hookSleep e (computeBackoff n cfg) w1)
        (snd (deliverLoop e cfg r url headers body i (Suc n) (hookSleep e (computeBackoff n cfg) w1)))"
      using 1(1)[OF _ f[symmetric]] 1(2) by auto
    then show ?thesis using False f evolves_trans[OF evolves_trans[OF w1 env_okD(2)[OF 1(2)]]]
      by (auto simp: deliverLoop.simps[of e cfg r url headers body i n w])
  qed
qed

datatype 'p hook_event =
    HRegister string "string list" "string option"
  | HUpdate string "string option" "string list option" "string option"
  | HSend string 'p hook_options
  | HVerify string "rat option"
  | HDisable string | HEnable string | HDelete string | HClear

fun hook_step :: "('x hooks_scheme, 'p) hook_env \<Rightarrow> 'x hooks_scheme \<Rightarrow> 'p hook_event \<Rightarrow> 'x hooks_scheme" where
  "hook_step e w (HRegister url evs secret) = snd (registerWebhook e url evs secret w)"
| "hook_step e w (HUpdate i url evs secret) = snd (updateWebhook e i url evs secret w)"
| "hook_step e w (HSend i p opts) = snd (sendWebhook e i p opts w)"
| "hook_step e w (HVerify i t) = snd (verifyWebhook e i t w)"
| "hook_step e w (HDisable i) = snd (disableWebhook e i w)"
| "hook_step e w (HEnable i) = snd (enableWebhook i w)"
| "hook_step e w (HDelete i) = snd (deleteWebhook i w)"
| "hook_step e w HClear = clear w"

lemma registerWebhook_evolves: "env_ok e \<Longrightarrow> evolves w (snd (registerWebhook e url evs secret w))"
  by (auto simp: registerWebhook_def bindW_def liftW_def split: prod.splits sum.splits
      intro!: evolves_trans[OF env_okD(3) evolves_register])

lemma omitted_eq: "(case x of None \<Rightarrow> retW a | Some v \<Rightarrow> liftW (f v)) w = (Inr y, w') \<longleftrightarrow>
    w' = w \<and> (case x of None \<Rightarrow> y = a | Some v \<Rightarrow> f v = Inr y)"
  by (auto simp: act_simps split: option.splits)

lemma updateWebhook_Inr:
  assumes "updateWebhook e i url evs secret w = (Inr x, w')"
  shows "\<exists>s u names. stored_of w i = Some s \<and>
    (case url of None \<Rightarrow> u = hookUrl s | Some v \<Rightarrow> checkUrl (httpsUrl e) v = Inr u) \<and>
    (case evs of None \<Rightarrow> names = hookEvents s | Some ns \<Rightarrow> checkEvents ns = Inr names) \<and>
    w' = storeWebhook i (updatedStored (nowMs e w) u names secret s) (if u \<noteq> hookUrl s then resetMoved i w else w)"
proof -
  obtain s where s: "stored_of w i = Some s" using assms by (auto simp: updateWebhook_def split: option.splits)
  have "\<exists>u names. (case url of None \<Rightarrow> u = hookUrl s | Some v \<Rightarrow> checkUrl (httpsUrl e) v = Inr u) \<and>
    (case evs of None \<Rightarrow> names = hookEvents s | Some ns \<Rightarrow> checkEvents ns = Inr names) \<and>
    w' = storeWebhook i (updatedStored (nowMs e w) u names secret s) (if u \<noteq> hookUrl s then resetMoved i w else w)"
    using assms unfolding updateWebhook_def s option.case bindW_Inr omitted_eq liftW_eq prod.inject by blast
  then show ?thesis using s by blast
qed

lemma updateWebhook_Inl: "updateWebhook e i url evs secret w = (Inl err, w') \<Longrightarrow> w' = w"
  by (auto simp: updateWebhook_def bindW_def liftW_def retW_def split: option.splits sum.splits prod.splits)

lemma resetMoved_simps [simp]:
  "webhooks (resetMoved i w) = webhooks w" "storedHeap (resetMoved i w) = storedHeap w"
  "webhookState (resetMoved i w) = webhookState w"
  by (simp_all add: resetMoved_def upd_state_def split: option.splits)

lemma updateWebhook_evolves: "evolves w (snd (updateWebhook e i url evs secret w))"
proof (cases "updateWebhook e i url evs secret w")
  case (Pair res w')
  show ?thesis
  proof (cases res)
    case (Inl err)
    then show ?thesis using Pair updateWebhook_Inl by fastforce
  next
    case (Inr x)
    then obtain s u names where s: "stored_of w i = Some s" and
      w': "w' = storeWebhook i (updatedStored (nowMs e w) u names secret s) (if u \<noteq> hookUrl s then resetMoved i w else w)"
      using updateWebhook_Inr Pair by blast
    let ?w1 = "if u \<noteq> hookUrl s then resetMoved i w else w"
    have w1: "evolves w ?w1" by (auto simp: resetMoved_def split: option.splits)
    have "hooks_inv w \<Longrightarrow> hookId s = i" using s
      by (auto simp: stored_of_def hooks_inv_def list_all_iff dest!: map_of_SomeD)
    then show ?thesis
    proof (cases "hooks_inv w")
      case True
      then have "evolves ?w1 w'" using s \<open>hooks_inv w \<Longrightarrow> hookId s = i\<close> unfolding w' storeWebhook_def
        by (intro evolves_new_stored) (auto simp: stored_of_def updatedStored_def)
      then show ?thesis using evolves_trans[OF w1] Pair by simp
    next
      case False
      then show ?thesis using w1 Pair by (auto simp: w' storeWebhook_def evolves_def)
    qed
  qed
qed

lemma sendWebhook_evolves: "env_ok e \<Longrightarrow> evolves w (snd (sendWebhook e i p opts w))"
  using evolves_trans[OF env_okD(3) deliverLoop_evolves]
  by (auto simp: sendWebhook_def Let_def split: prod.splits option.splits)

lemma verifyWebhook_evolves: "env_ok e \<Longrightarrow> evolves w (snd (verifyWebhook e i t w))"
  by (auto simp: verifyWebhook_def Let_def split: prod.splits option.splits sum.splits
      intro!: evolves_trans[OF evolves_trans[OF env_okD(3) env_okD(1)] evolves_upd_stored])
    (auto simp: setVerified_def)

lemma hook_step_evolves: "env_ok e \<Longrightarrow> evolves w (hook_step e w ev)"
proof (cases ev)
  case HClear
  then show ?thesis by (simp add: clear_def evolves_def hooks_inv_def refs_ok_def)
next
  case (HDelete i)
  then show ?thesis using evolves_delete by (simp add: deleteWebhook_def)
qed (auto simp: registerWebhook_evolves updateWebhook_evolves sendWebhook_evolves verifyWebhook_evolves
    disableWebhook_def enableWebhook_def split: option.splits)

section \<open>Properties\<close>

definition empty_hooks :: hooks where
  "empty_hooks = \<lparr>webhooks = [], webhookState = [], storedHeap = [], stateHeap = []\<rparr>"

text \<open>An environment that answers every request with \<open>answer\<close> and lets nothing else happen.\<close>

definition still_env :: "(thrown + int) \<Rightarrow> (hooks, unit) hook_env" where
  "still_env answer = \<lparr>nowMs = (\<lambda>w. int (length (storedHeap w))), fetchHook = (\<lambda>_ _ _ _ w. (answer, w)),
     hookSleep = (\<lambda>_ w. w), newId = (\<lambda>w. (nat_str (length (storedHeap w)), w)),
     httpsUrl = (\<lambda>u. if take 8 u = ''https://'' then Some u else None), hmac = (\<lambda>s b. s @ b),
     envelopeText = (\<lambda>i _ _ _. i), challengeText = (\<lambda>c _ _. c)\<rparr>"

lemma still_env_ok [simp]: "env_ok (still_env a)"
  by (simp add: env_ok_def still_env_def)

text \<open>C12: Whatever operations run, in whatever order and interleaved with the pending requests and timers
  of others: every webhook has its own record and state, no history exceeds its capacity, and a
  webhook with five consecutive failures is disabled.\<close>

theorem webhooks_invariant:
  assumes "env_ok e" and "w = run_steps (hook_step e) empty_hooks evs" and "map_of (webhooks w) i = Some r"
  shows "\<exists>s st. stored_of w i = Some s \<and> hookId s = i \<and> state_of w i = Some st \<and>
    length (hookHistory st) \<le> 500 \<and> (5 \<le> hookFailures st \<longrightarrow> hookDisabled st) \<and>
    (hookDisabled st \<longleftrightarrow> hookDisabledReason st \<noteq> None)"
proof -
  have "hooks_inv empty_hooks" by (simp add: hooks_inv_def empty_hooks_def refs_ok_def)
  then have inv: "hooks_inv w" unfolding assms(2)
    using invariant_machine.run_inv[OF invariant_machine.intro, of hooks_inv "hook_step e"]
      hook_step_evolves[OF assms(1)] by (auto simp: evolves_def)
  then obtain q where q: "map_of (webhookState w) i = Some q" using hooks_inv_state_iff[OF inv, of i] assms(3) by auto
  then have "q < length (stateHeap w)" using inv refs_ok_lookup by (auto simp: hooks_inv_def)
  then have "state_ok (stateHeap w ! q)" using inv by (simp add: hooks_inv_def list_all_length)
  moreover have "hookId (storedHeap w ! r) = i" using inv map_of_SomeD[OF assms(3)] by (auto simp: hooks_inv_def list_all_iff)
  ultimately show ?thesis using q assms(3)
    unfolding stored_of_def state_of_def state_ok_def WEBHOOK_HISTORY_CAPACITY_def WEBHOOK_DISABLE_FAILURE_THRESHOLD_def
    by simp blast
qed

definition some_options :: hook_options where
  "some_options = \<lparr>optRetries = Some 1, optBaseDelay = None, optMaxDelay = None, optMultiplier = None,
     optTimeout = None, optEvent = None\<rparr>"

definition some_events :: "unit hook_event list" where
  "some_events = [HRegister ''https://a'' [''swap''] None, HSend ''0'' () some_options]"

lemma webhooks_invariant_witness:
  "\<exists>s. stored_of (run_steps (hook_step (still_env (Inr 500))) empty_hooks some_events) ''0'' = Some s"
proof -
  have "map_of (webhooks (run_steps (hook_step (still_env (Inr 500))) empty_hooks some_events)) ''0'' = Some 0"
    by code_simp
  then show ?thesis using webhooks_invariant[OF still_env_ok refl] by blast
qed

text \<open>The fate of a webhook left to itself depends on its outcomes alone: it is disabled exactly when
  five failures have followed one another without a delivery or a client error between, and its
  history is the last five hundred entries.\<close>

definition failing :: "history_entry \<Rightarrow> bool" where
  "failing entry \<longleftrightarrow> entryOutcome entry \<in> {NetworkFailure, ServerFailure}"

definition after :: "(int \<times> history_entry) list \<Rightarrow> webhook_state" where
  "after es = fold (\<lambda>(t, entry). recordOutcome t entry) es createInitialState"

lemma after_snoc: "after (es @ [(t, x)]) = recordOutcome t x (after es)"
  by (simp add: after_def)

lemma not_failing: "\<not> failing x \<longleftrightarrow> entryOutcome x \<in> {Delivered, ClientFailure}"
  by (cases "entryOutcome x") (auto simp: failing_def)

lemma suffix_replicate_iff: "suffix (replicate k True) bs \<longleftrightarrow> k \<le> length (takeWhile id (rev bs))"
proof (induction k arbitrary: bs)
  case (Suc k)
  have "replicate (Suc k) True = replicate k True @ [True]" by (simp add: replicate_append_same)
  then show ?case using Suc by (cases bs rule: rev_cases) (auto simp: suffix_snoc simp del: replicate_Suc)
qed simp

lemma sublist_snoc: "sublist xs (ys @ [y]) \<longleftrightarrow> suffix xs (ys @ [y]) \<or> sublist xs ys"
  using sublist_Cons_right[of "rev xs" y "rev ys"]
  by (metis rev.simps(2) rev_rev_ident sublist_rev suffix_to_prefix)

lemma sublist_run_snoc: "0 < k \<Longrightarrow> sublist (replicate k True) (bs @ [b]) \<longleftrightarrow>
    sublist (replicate k True) bs \<or> b \<and> k \<le> Suc (length (takeWhile id (rev bs)))"
  unfolding sublist_snoc suffix_replicate_iff by (cases b) auto

lemma after_failures: "hookFailures (after es) = length (takeWhile id (rev (map (failing \<circ> snd) es)))"
proof (induction es rule: rev_induct)
  case (snoc p es)
  obtain t x where "p = (t, x)" by fastforce
  then show ?case using snoc not_failing[of x] by (auto simp: after_snoc state_ops)
qed (simp add: after_def createInitialState_def)

lemma after_history: "hookHistory (after es) = drop (length es - 500) (map snd es)"
proof (induction es rule: rev_induct)
  case (snoc p es)
  obtain t x where p: "p = (t, x)" by fastforce
  have "hookHistory (after (es @ [p])) = drop (length (hookHistory (after es) @ [x]) - 500) (hookHistory (after es) @ [x])"
    by (auto simp: p after_snoc state_ops)
  then show ?case using p snoc by (cases "length es < 500") (auto simp: Suc_diff_le simp flip: Suc_diff_le)
qed (simp add: after_def createInitialState_def)

lemma after_disabled: "hookDisabled (after es) \<longleftrightarrow> sublist (replicate 5 True) (map (failing \<circ> snd) es)"
proof (induction es rule: rev_induct)
  case (snoc p es)
  obtain t x where p: "p = (t, x)" by fastforce
  have "hookDisabled (after (es @ [p])) \<longleftrightarrow> hookDisabled (after es) \<or> (failing x \<and> 5 \<le> Suc (hookFailures (after es)))"
    using not_failing[of x] by (auto simp: p after_snoc state_ops)
  also have "\<dots> \<longleftrightarrow> sublist (replicate 5 True) (map (failing \<circ> snd) (es @ [p]))"
    unfolding map_append list.map sublist_run_snoc[OF zero_less_numeral] snoc after_failures by (simp add: p)
  finally show ?case .
qed (simp add: after_def createInitialState_def)

theorem auto_disable_exact:
  "(hookDisabled (after es) \<longleftrightarrow> sublist (replicate 5 True) (map (failing \<circ> snd) es)) \<and>
   hookHistory (after es) = drop (length es - 500) (map snd es)"
  by (simp add: after_disabled after_history)

text \<open>A delivery makes at most one request per allowed attempt and reports how many it made; one that
  is filtered out or refused makes none.\<close>

lemma deliverLoop_count:
  fixes L :: "'x hooks_scheme \<Rightarrow> nat"
  assumes "\<And>t u hs b w. L (snd (fetchHook e t u hs b w)) = Suc (L w)" and "\<And>d w. L (hookSleep e d w) = L w"
    and "\<And>r f w. L (upd_state r f w) = L w" and "n \<le> k" and "cfgRetries cfg = of_nat k"
    and "deliverLoop e cfg r url headers body i n w = (res, w')"
  shows "\<exists>d. res = Inr d \<and> drRetries d \<le> k \<and> \<not> drFiltered d \<and> L w' + n = L w + drRetries d + 1"
  using assms
proof (induction e cfg r url headers body i n w rule: deliverLoop.induct)
  case (1 e cfg r url headers body i n w)
  obtain a w1 where f: "fetchHook e (cfgTimeout cfg) url headers body w = (a, w1)" by fastforce
  then have L1: "L w1 = Suc (L w)" using 1(2) by (metis snd_conv)
  note unf = deliverLoop.simps[of e cfg r url headers body i n w]
  show ?case
  proof (cases "attemptDelivered a \<or> \<not> shouldRetry a n (cfgRetries cfg)")
    case True
    then show ?thesis using 1(4-7) f L1 by (auto simp: unf)
  next
    case False
    then have "n < k" using 1(6) by (auto simp: shouldRetry_def)
    let ?w2 = "hookSleep e (computeBackoff n cfg) w1"
    have "deliverLoop e cfg r url headers body i (Suc n) ?w2 = (res, w')"
      using 1(5-7) f False by (simp add: unf)
    then have "\<exists>d. res = Inr d \<and> drRetries d \<le> k \<and> \<not> drFiltered d \<and> L w' + Suc n = L ?w2 + drRetries d + 1"
      using 1(1)[OF _ f[symmetric]] False 1(2-6) \<open>n < k\<close> by (simp add: Suc_le_eq)
    then show ?thesis using 1(3) L1 by auto
  qed
qed

theorem send_attempts_counted:
  fixes L :: "'x hooks_scheme \<Rightarrow> nat"
  assumes "\<And>t u hs b w. L (snd (fetchHook e t u hs b w)) = Suc (L w)" and "\<And>d w. L (hookSleep e d w) = L w"
    and "\<And>w. L (snd (newId e w)) = L w" and "\<And>r f w. L (upd_state r f w) = L w"
    and "cfgRetries (resolveOptions opts) = of_nat k" and "sendWebhook e i payload opts w = (res, w')"
  shows "case res of Inl _ \<Rightarrow> w' = w
    | Inr d \<Rightarrow> drRetries d \<le> k \<and> L w' = L w + (if drFiltered d then 0 else drRetries d + 1)"
proof -
  have ids: "newId e w = (j, v) \<Longrightarrow> L v = L w" for j v using assms(3) by (metis snd_conv)
  have "case res of Inl _ \<Rightarrow> False | Inr d \<Rightarrow> drRetries d \<le> k \<and> \<not> drFiltered d \<and> L w' = L v + drRetries d + 1"
    if "deliverLoop e (resolveOptions opts) r url headers body j 0 v = (res, w')" for r url headers body j v
    using deliverLoop_count[OF assms(1,2,4) le0 assms(5) that] by auto
  then show ?thesis using assms(6) ids
    by (auto simp: sendWebhook_def Let_def split: option.splits if_splits prod.splits sum.splits; fastforce)
qed

text \<open>A change of URL forgets the handshake and the failures, undoes an automatic disabling but not a
  manual one, and a refused update changes nothing; other webhooks are not touched.\<close>

theorem update_webhook_spec:
  assumes "hooks_inv w" and "stored_of w i = Some s" and "state_of w i = Some st"
    and "updateWebhook e i url evs secret w = (res, w')"
  shows "(case res of Inl _ \<Rightarrow> w' = w
    | Inr _ \<Rightarrow> (\<exists>s' st'. stored_of w' i = Some s' \<and> state_of w' i = Some st' \<and> hookCreatedAt s' = hookCreatedAt s \<and>
        (hookVerified s' \<longleftrightarrow> hookVerified s \<and> hookUrl s' = hookUrl s) \<and>
        st' = (if hookUrl s' = hookUrl s then st else resetFailureState st))) \<and>
    (\<forall>j. j \<noteq> i \<longrightarrow> stored_of w' j = stored_of w j)"
proof (cases res)
  case (Inl err)
  then show ?thesis using updateWebhook_Inl[OF assms(4)[unfolded Inl]] by simp
next
  case (Inr x)
  obtain u names where
    w': "w' = storeWebhook i (updatedStored (nowMs e w) u names secret s) (if u \<noteq> hookUrl s then resetMoved i w else w)"
    using updateWebhook_Inr[OF assms(4)[unfolded Inr]] assms(2) by auto
  obtain q where q: "map_of (webhookState w) i = Some q" "st = stateHeap w ! q" using assms(3) by (auto simp: state_of_def)
  then have "q < length (stateHeap w)" using assms(1) refs_ok_lookup by (auto simp: hooks_inv_def)
  then have "state_of w' i = Some (if u = hookUrl s then st else resetFailureState st)"
    using q by (simp add: w' storeWebhook_def resetMoved_def upd_state_def state_of_def)
  moreover have "stored_of w' i = Some (updatedStored (nowMs e w) u names secret s)"
    by (simp add: w' storeWebhook_def stored_of_def update_conv')
  moreover have "stored_of w' j = stored_of w j" if "j \<noteq> i" for j
  proof (cases "map_of (webhooks w) j")
    case (Some r)
    then have "r < length (storedHeap w)" using assms(1) refs_ok_lookup by (auto simp: hooks_inv_def)
    then show ?thesis using that Some by (simp add: w' storeWebhook_def stored_of_def update_conv' nth_append)
  qed (use that in \<open>simp add: w' storeWebhook_def stored_of_def update_conv'\<close>)
  ultimately show ?thesis using Inr by (simp add: updatedStored_def)
qed

text \<open>While nothing is delivered, following the cursors from the first page lists the whole history
  once, the newest entry first, whatever the page size.\<close>

fun followPages :: "(string \<Rightarrow> string) \<Rightarrow> (string \<Rightarrow> string) \<Rightarrow> history_entry list \<Rightarrow> rat option option \<Rightarrow> nat \<Rightarrow>
    string option \<Rightarrow> history_entry list" where
  "followPages enc dec h n 0 cursor = []"
| "followPages enc dec h n (Suc m) cursor = (let p = historyPage enc dec h n cursor None
     in items p @ (case nextCursor p of None \<Rightarrow> [] | Some c \<Rightarrow> followPages enc dec h n m (Some c)))"

lemma decode_encode: "(\<And>s. dec (enc s) = s) \<Longrightarrow> decodeCursor dec (encodeCursor enc n) = Some n"
  using nat_str_digits[of n] by (simp add: decodeCursor_def encodeCursor_def parse_nat_str list_all_iff Let_def)

lemma clampLimit_range: "1 \<le> clampLimit n \<and> clampLimit n \<le> 200"
  by (auto simp: clampLimit_def le_floor_iff split: option.splits)

lemma js_slice_nonneg: "0 \<le> a \<Longrightarrow> 0 \<le> b \<Longrightarrow> b \<le> int (length xs) \<Longrightarrow> a \<le> b \<Longrightarrow>
    js_slice xs a b = drop (nat a) (take (nat b) xs)"
  by (simp add: js_slice_def Let_def min_def nat_le_iff)

lemma page_at:
  assumes "d \<le> length h" and "cursor = None \<and> d = 0 \<or> (\<exists>c. cursor = Some c \<and> c \<noteq> [] \<and> decodeCursor dec c = Some d)"
  shows "let k = nat (clampLimit n); p = historyPage enc dec h n cursor None
    in items p = take k (drop d (rev h)) \<and>
       nextCursor p = (if d + k < length h then Some (encodeCursor enc (d + k)) else None)"
proof -
  obtain k where k: "clampLimit n = int k" "1 \<le> k" using clampLimit_range[of n]
    by (metis nonneg_int_cases of_nat_1 of_nat_le_iff order_trans zero_le_one)
  let ?k = k and ?t = "length h"
  have start: "pageStart dec (int ?t) cursor None = int ?t - int d"
    using assms by (auto simp: pageStart_def)
  have "js_slice h (max 0 (int ?t - int d - int ?k)) (int ?t - int d) = drop (?t - d - ?k) (take (?t - d) h)"
    using assms(1) by (subst js_slice_nonneg) (auto simp: nat_diff_distrib' max_def)
  also have "rev \<dots> = take ?k (drop d (rev h))"
  proof -
    have "rev (drop (?t - d - ?k) (take (?t - d) h)) = take (?t - d - (?t - d - ?k)) (drop d (rev h))"
      using assms(1) by (simp only: rev_drop rev_take length_take) simp
    also have "\<dots> = take ?k (drop d (rev h))" by (cases "d + ?k \<le> ?t") simp_all
    finally show ?thesis .
  qed
  finally have page: "rev (js_slice h (max 0 (int ?t - int d - int ?k)) (int ?t - int d)) = take ?k (drop d (rev h))" .
  show ?thesis using assms(1) k(2) unfolding historyPage_def Let_def start k(1) page
    by (cases "d + k < ?t") (auto simp: min_def nat_add_distrib simp flip: of_nat_add)
qed

lemma followPages_from:
  assumes enc: "\<And>s. dec (enc s) = s" "\<And>s. enc s \<noteq> []"
  shows "d \<le> length h \<Longrightarrow> length h - d < m \<Longrightarrow>
    cursor = None \<and> d = 0 \<or> (\<exists>c. cursor = Some c \<and> c \<noteq> [] \<and> decodeCursor dec c = Some d) \<Longrightarrow>
    followPages enc dec h n m cursor = drop d (rev h)"
proof (induction m arbitrary: d cursor)
  case (Suc m)
  let ?k = "nat (clampLimit n)"
  have k: "1 \<le> ?k" using clampLimit_range[of n] by auto
  note page = page_at[OF Suc.prems(1,3), where n = n and enc = enc, unfolded Let_def]
  show ?case
  proof (cases "d + ?k < length h")
    case True
    have "encodeCursor enc (d + ?k) \<noteq> []" using enc(2) by (simp add: encodeCursor_def)
    then have "followPages enc dec h n m (Some (encodeCursor enc (d + ?k))) = drop (d + ?k) (rev h)"
      using Suc.IH[of "d + ?k"] decode_encode[of dec enc, OF enc(1)] True Suc.prems(2) k by auto
    then show ?thesis using page True
      by (simp add: Let_def) (metis append_take_drop_id drop_drop add.commute)
  next
    case False
    then show ?thesis using page by (simp add: Let_def)
  qed
qed simp

theorem pages_cover_history:
  assumes "\<And>s. dec (enc s) = s" and "\<And>s. enc s \<noteq> []"
  shows "followPages enc dec h n (Suc (length h)) None = rev h"
  using followPages_from[OF assms, where d = 0 and cursor = None and m = "Suc (length h)"] by simp

definition counting_env :: "(thrown + int) \<Rightarrow> (nat hooks_scheme, unit) hook_env" where
  "counting_env answer = \<lparr>nowMs = (\<lambda>_. 0), fetchHook = (\<lambda>_ _ _ _ w. (answer, hooks.more_update Suc w)),
     hookSleep = (\<lambda>_ w. w), newId = (\<lambda>w. (''d'', w)), httpsUrl = (\<lambda>u. Some u), hmac = (\<lambda>s b. s @ b),
     envelopeText = (\<lambda>i _ _ _. i), challengeText = (\<lambda>c _ _. c)\<rparr>"

definition some_hook :: stored_webhook where
  "some_hook = \<lparr>hookId = ''0'', hookUrl = ''https://a'', hookEvents = [''swap''], hookSecret = None,
     hookCreatedAt = 0, hookUpdatedAt = None, hookVerified = True\<rparr>"

definition hooks_with_one :: "nat hooks_scheme" where
  "hooks_with_one = \<lparr>webhooks = [(''0'', 0)], webhookState = [(''0'', 0)], storedHeap = [some_hook],
     stateHeap = [createInitialState], \<dots> = 0\<rparr>"

definition verified_hook :: hooks where
  "verified_hook = \<lparr>webhooks = [(''0'', 0)], webhookState = [(''0'', 0)], storedHeap = [some_hook],
     stateHeap = [createInitialState]\<rparr>"

lemma send_attempts_counted_witness:
  "fst (sendWebhook (counting_env (Inr 503)) ''0'' () some_options hooks_with_one) =
     Inr \<lparr>drStatus = 503, drDelivered = False, drRetries = 1, drFiltered = False\<rparr> \<and>
   hooks.more (snd (sendWebhook (counting_env (Inr 503)) ''0'' () some_options hooks_with_one)) = (2 :: nat)"
proof -
  let ?run = "sendWebhook (counting_env (Inr 503)) ''0'' () some_options hooks_with_one"
  have ev: "fst ?run = Inr \<lparr>drStatus = 503, drDelivered = False, drRetries = 1, drFiltered = False\<rparr>" by code_simp
  then obtain w' where run: "?run = (Inr \<lparr>drStatus = 503, drDelivered = False, drRetries = 1, drFiltered = False\<rparr>, w')"
    by (metis prod.collapse)
  have "case Inr \<lparr>drStatus = 503, drDelivered = False, drRetries = 1, drFiltered = False\<rparr> :: thrown + delivery_result of
      Inl _ \<Rightarrow> w' = hooks_with_one
    | Inr d \<Rightarrow> drRetries d \<le> 1 \<and>
        hooks.more w' = hooks.more hooks_with_one + (if drFiltered d then 0 else drRetries d + 1)"
    by (rule send_attempts_counted[where L = hooks.more, OF _ _ _ _ _ run])
      (simp_all add: counting_env_def upd_state_def some_options_def resolveOptions_def or_default_def)
  then show ?thesis using run by (simp add: hooks_with_one_def)
qed

lemma update_webhook_spec_witness:
  "\<not> isWebhookVerified (snd (updateWebhook (still_env (Inr 200)) ''0'' (Some ''https://b'') None None verified_hook)) ''0''
   \<and> isWebhookVerified verified_hook ''0''"
proof -
  let ?run = "updateWebhook (still_env (Inr 200)) ''0'' (Some ''https://b'') None None verified_hook"
  have ev: "fst ?run = Inr ()" by code_simp
  have s: "stored_of verified_hook ''0'' = Some (the (stored_of verified_hook ''0''))"
    "state_of verified_hook ''0'' = Some (the (state_of verified_hook ''0''))" by code_simp+
  have inv: "hooks_inv verified_hook" by code_simp
  have urls: "map_option hookUrl (stored_of (snd ?run) ''0'') = Some ''https://b''"
    "hookUrl (the (stored_of verified_hook ''0'')) = ''https://a''" by code_simp+
  obtain w' where run: "?run = (Inr (), w')" using ev by (metis prod.collapse)
  have before: "isWebhookVerified verified_hook ''0''" by code_simp
  obtain s' where "stored_of w' ''0'' = Some s'" "\<not> hookVerified s'"
    using update_webhook_spec[OF inv s run] urls unfolding run by auto
  then show ?thesis using before by (simp add: run isWebhookVerified_def)
qed

lemma pages_cover_history_witness:
  "followPages (\<lambda>s. CHR ''c'' # s) tl [deliveryEntry ''d'' 0 (Inr 200) 0] (Some (Some 1)) 2 None =
    [deliveryEntry ''d'' 0 (Inr 200) 0]"
  using pages_cover_history[of tl "\<lambda>s. CHR ''c'' # s" "[deliveryEntry ''d'' 0 (Inr 200) 0]" "Some (Some 1)"] by (simp add: numeral_2_eq_2)

text \<open>An offset past the oldest entry is a negative position, which counts from the end: the page shows
  old entries again, more of them than the limit allows.\<close>

theorem offset_past_end_repeats:
  assumes "length h < k" and "k < 2 * length h"
  shows "items (historyPage enc dec h (Some (Some 1)) None (Some (int k))) = rev (take (2 * length h - k) h) \<and>
    0 < length (items (historyPage enc dec h (Some (Some 1)) None (Some (int k))))"
proof -
  have "nat (2 * int (length h)) = 2 * length h" by simp
  then show ?thesis using assms
    by (simp add: historyPage_def pageStart_def js_slice_def clampLimit_def Let_def nat_diff_distrib')
qed

lemma offset_past_end_repeats_witness:
  "length (items (historyPage id id [e1, e2, e3] (Some (Some 1)) None (Some (int 4)))) = 2"
  using offset_past_end_repeats[of "[e1, e2, e3]" 4 id id] by simp

text \<open>An endpoint that answers every delivery with a client error, 404 say, is never disabled: each one
  resets the count, as a delivery would.\<close>

theorem client_errors_never_disable:
  assumes "list_all (\<lambda>(t, x). entryOutcome x = ClientFailure) es"
  shows "\<not> hookDisabled (after es) \<and> hookFailures (after es) = 0"
  using assms
proof (induction es rule: rev_induct)
  case (snoc p es)
  then show ?case by (cases p) (auto simp: after_snoc state_ops)
qed (simp add: after_def createInitialState_def)

definition gone :: history_entry where
  "gone = deliveryEntry ''d'' 0 (Inr 404) 0"

lemma client_errors_never_disable_witness:
  "hookFailures (after [(1, gone), (2, gone), (3, gone), (4, gone), (5, gone), (6, gone)]) = 0"
  using client_errors_never_disable[of "[(1, gone), (2, gone), (3, gone), (4, gone), (5, gone), (6, gone)]"]
  by (simp add: gone_def deliveryEntry_def classifyOutcome_def ok_status_def)

text \<open>A handshake that fails while the webhook's secret is changed is recorded on the replaced object, so
  the endpoint still counts as verified.\<close>

definition busy_env :: "(hooks \<Rightarrow> hooks) \<Rightarrow> (thrown + int) \<Rightarrow> (hooks, unit) hook_env" where
  "busy_env meanwhile answer = (still_env answer)\<lparr>fetchHook := (\<lambda>_ _ _ _ w. (answer, meanwhile w))\<rparr>"

theorem late_handshake_lost:
  "(case verifyWebhook (busy_env (\<lambda>w. snd (updateWebhook (still_env (Inr 500)) ''0'' None None (Some ''new'') w)) (Inr 500))
      ''0'' None verified_hook of (r, w') \<Rightarrow> (map_sum id vrVerified r, isWebhookVerified w' ''0'')) = (Inr False, True)"
  by code_simp

text \<open>A delivery still under way when the URL is changed counts against the new endpoint: the update
  clears the failures and re-enables, and the late failure of the old endpoint is added afterwards.\<close>

theorem old_target_counts:
  "(case sendWebhook (busy_env (\<lambda>w. snd (updateWebhook (still_env (Inr 500)) ''0'' (Some ''https://b'') None None w)) (Inr 500))
      ''0'' () (some_options\<lparr>optRetries := Some 0\<rparr>) verified_hook of
     (_, w') \<Rightarrow> (map_option hookUrl (stored_of w' ''0''), getWebhookFailureCount w' ''0'')) = (Some ''https://b'', 1)"
  by code_simp

text \<open>A number of retries that is no integer ends the loop after the last attempt without an outcome: the
  call throws and nothing is recorded.\<close>

theorem fractional_retries_throw:
  "(case sendWebhook (still_env (Inr 500)) ''0'' () (some_options\<lparr>optRetries := Some (1 / 2)\<rparr>) verified_hook of
     (r, w') \<Rightarrow> (r, map_option (length \<circ> hookHistory) (state_of w' ''0''))) =
   (Inl (Sdk (WebhookError ''webhook delivery exited retry loop without a terminal outcome'')), Some 0)"
  by code_simp

end
