(* ===== verification/WebhookEndpoints.thy ===== *)
theory WebhookEndpoints
  imports Webhooks
begin

text \<open>
  \<open>modules/webhooks.ts\<close>, the delivery endpoints: registration, one delivery with its retries, and the
  health figures. A delivery that fails waits and retries itself, each retry inside the one before,
  so an error of a retry reaches the handlers of all the earlier attempts. The nesting is bounded by
  fuel; \<open>None\<close> is fuel used up. Labels and alert filters are stored but read nowhere.
\<close>

section \<open>Data\<close>

datatype delivery_status = Pending | Delivering | Success | Failed | Exhausted

record endpoint_config =
  cfgUrl :: string
  cfgMethod :: "string option"
  cfgFormat :: "string option"
  cfgHeaders :: "(string \<times> string) list option"
  cfgSecret :: "string option"
  cfgEnabled :: "bool option"

record delivery =
  delId :: string
  delHook :: string
  delAlert :: string
  delStatus :: delivery_status
  delHttp :: "int option"
  delSentAt :: int
  delCompleted :: "int option"
  delRetries :: nat
  delError :: "string option"

record health =
  healthHook :: string
  healthUrl :: string
  healthEnabled :: bool
  totalDeliveries :: nat
  successfulDeliveries :: nat
  failedDeliveries :: nat
  successRate :: rat
  averageResponseTimeMs :: rat
  lastDeliveryAt :: "int option"

record endpoints_state =
  endpoints :: "(string \<times> endpoint_config) list"
  deliveries :: "(string \<times> delivery) list"
  healthCache :: "(string \<times> health) list"
  payloads :: "(string \<times> string) list"

record 'w endpoint_env =
  epNow :: "'w \<Rightarrow> int"
  epFetch :: "string \<Rightarrow> string \<Rightarrow> (string \<times> string) list \<Rightarrow> string \<Rightarrow> ('w, thrown, int) act"
  epSleep :: "rat \<Rightarrow> 'w \<Rightarrow> 'w"
  epId :: "'w \<Rightarrow> string \<times> 'w"
  epHmac :: "string \<Rightarrow> string \<Rightarrow> string"
  epBytes :: "string \<Rightarrow> int"

definition MAX_ENDPOINTS :: nat where
  "MAX_ENDPOINTS = 20"

definition MAX_PAYLOAD_BYTES :: int where
  "MAX_PAYLOAD_BYTES = 262144"

section \<open>Endpoints\<close>

definition reserved_conflicts :: "(string \<times> string) list option \<Rightarrow> string list" where
  "reserved_conflicts hs = (case hs of None \<Rightarrow> []
     | Some xs \<Rightarrow> filter (\<lambda>f. f \<in> set (map (to_lower \<circ> fst) xs)) [''content-type'', ''x-coralswap-signature''])"

definition validateEndpoint :: "endpoint_config \<Rightarrow> unit result" where
  "validateEndpoint c =
     bindE (throw_if (take 8 (cfgUrl c) \<noteq> ''https://'') (ValidationError ''Webhook URL must use HTTPS'')) (\<lambda>_.
     bindE (throw_if (map_option trim (cfgSecret c) = Some []) (ValidationError ''webhook secret must not be empty'')) (\<lambda>_.
       throw_if (reserved_conflicts (cfgHeaders c) \<noteq> [])
         (ValidationError (''Cannot override reserved headers: '' @ join_str '', '' (reserved_conflicts (cfgHeaders c))))))"

definition or_some :: "'a option \<Rightarrow> 'a \<Rightarrow> 'a option" where
  "or_some x d = (case x of None \<Rightarrow> Some d | Some _ \<Rightarrow> x)"

definition registerEndpoint :: "('x endpoints_state_scheme) endpoint_env \<Rightarrow> endpoint_config \<Rightarrow>
    ('x endpoints_state_scheme, thrown, string) act" where
  "registerEndpoint e c w =
    (if MAX_ENDPOINTS \<le> length (endpoints w)
     then (Inl (Sdk (ValidationError (''Maximum of '' @ nat_str MAX_ENDPOINTS @ '' webhook endpoints reached''))), w)
     else bindW (liftW (validateEndpoint c)) (\<lambda>_ w. let (i, w1) = epId e w in
       (Inr i, w1\<lparr>endpoints := AList.update i (c\<lparr>cfgMethod := or_some (cfgMethod c) ''POST'',
                cfgFormat := or_some (cfgFormat c) ''json'', cfgEnabled := or_some (cfgEnabled c) True\<rparr>) (endpoints w1),
            healthCache := AList.update i \<lparr>healthHook = i, healthUrl = cfgUrl c, healthEnabled = True,
                totalDeliveries = 0, successfulDeliveries = 0, failedDeliveries = 0, successRate = 1,
                averageResponseTimeMs = 0, lastDeliveryAt = None\<rparr> (healthCache w1)\<rparr>)) w)"

text \<open>\<open>{...existing, ...updates}\<close>, with the fields the update holds.\<close>

definition updateEndpoint :: "string \<Rightarrow> (endpoint_config \<Rightarrow> endpoint_config) \<Rightarrow>
    ('x endpoints_state_scheme, thrown, unit) act" where
  "updateEndpoint i upd w = (case map_of (endpoints w) i of
       None \<Rightarrow> (Inl (Sdk (ValidationError (''Webhook endpoint not found: '' @ i))), w)
     | Some c \<Rightarrow> (Inr (), w\<lparr>endpoints := AList.update i (upd c) (endpoints w)\<rparr>))"

definition deleteEndpoint :: "string \<Rightarrow> ('x endpoints_state_scheme, thrown, unit) act" where
  "deleteEndpoint i w = (if map_of (endpoints w) i = None
     then (Inl (Sdk (ValidationError (''Webhook endpoint not found: '' @ i))), w)
     else (Inr (), w\<lparr>endpoints := AList.delete i (endpoints w), healthCache := AList.delete i (healthCache w),
         deliveries := filter (\<lambda>(_, d). delHook d \<noteq> i) (deliveries w)\<rparr>))"

definition getEndpointConfig :: "'x endpoints_state_scheme \<Rightarrow> string \<Rightarrow> endpoint_config result" where
  "getEndpointConfig w i = (case map_of (endpoints w) i of
       None \<Rightarrow> Inl (ValidationError (''Webhook endpoint not found: '' @ i)) | Some c \<Rightarrow> Inr c)"

definition getDelivery :: "'x endpoints_state_scheme \<Rightarrow> string \<Rightarrow> delivery result" where
  "getDelivery w i = (case map_of (deliveries w) i of
       None \<Rightarrow> Inl (ValidationError (''Delivery not found: '' @ i)) | Some d \<Rightarrow> Inr d)"

definition getEndpointHealth :: "'x endpoints_state_scheme \<Rightarrow> string \<Rightarrow> health result" where
  "getEndpointHealth w i = (case map_of (healthCache w) i of
       None \<Rightarrow> Inl (ValidationError (''Webhook endpoint not found: '' @ i)) | Some h \<Rightarrow> Inr h)"

text \<open>Newest first; deliveries of the same second keep their order.\<close>

definition listDeliveries :: "'x endpoints_state_scheme \<Rightarrow> string \<Rightarrow> int \<Rightarrow> delivery list" where
  "listDeliveries w i n =
     js_slice (sort_key (\<lambda>d. - delSentAt d) (filter (\<lambda>d. delHook d = i) (map snd (deliveries w)))) 0 n"

section \<open>Delivery\<close>

definition updateDeliveryStatus :: "string \<Rightarrow> delivery_status \<Rightarrow> (delivery \<Rightarrow> delivery) \<Rightarrow>
    'x endpoints_state_scheme \<Rightarrow> 'x endpoints_state_scheme" where
  "updateDeliveryStatus i st extra w = (case map_of (deliveries w) i of None \<Rightarrow> w
     | Some d \<Rightarrow> w\<lparr>deliveries := AList.update i ((extra d)\<lparr>delStatus := st,
           delRetries := (if st = Failed \<or> st = Exhausted then delRetries d + 1 else delRetries d)\<rparr>) (deliveries w)\<rparr>)"

definition recordDeliveryAttempt :: "int \<Rightarrow> string \<Rightarrow> 'x endpoints_state_scheme \<Rightarrow> 'x endpoints_state_scheme" where
  "recordDeliveryAttempt now i w = (case map_of (healthCache w) i of None \<Rightarrow> w
     | Some h \<Rightarrow> (let ds = filter (\<lambda>d. delHook d = i) (map snd (deliveries w));
           ok = length (filter (\<lambda>d. delStatus d = Success) ds); n = length ds
         in w\<lparr>healthCache := AList.update i (h\<lparr>totalDeliveries := n, successfulDeliveries := ok,
               failedDeliveries := n - ok, successRate := (if 0 < n then of_nat ok / of_nat n else 1),
               lastDeliveryAt := Some now\<rparr>) (healthCache w)\<rparr>))"

definition seconds :: "int \<Rightarrow> int" where
  "seconds ms = ms div 1000"

definition requestHeaders :: "'w endpoint_env \<Rightarrow> endpoint_config \<Rightarrow> string \<Rightarrow> (string \<times> string) list" where
  "requestHeaders e c body = (let hs = [(''Content-Type'', ''application/json''), (''User-Agent'', ''CoralSwap-Webhook/1.0'')];
       hs1 = fold (\<lambda>(k, v). AList.update k v) (or_default (cfgHeaders c) []) hs
     in case cfgSecret c of None \<Rightarrow> hs1
        | Some s \<Rightarrow> if s = [] then hs1 else AList.update ''X-CoralSwap-Signature'' (epHmac e s body) hs1)"

definition loadPayload :: "'x endpoints_state_scheme \<Rightarrow> string \<Rightarrow> string result" where
  "loadPayload w i = (case map_of (payloads w) i of
       None \<Rightarrow> Inl (ValidationError (''Payload for delivery not found: '' @ i)) | Some b \<Rightarrow> Inr b)"

definition error_text :: "thrown \<Rightarrow> string" where
  "error_text err = (case err of Rejected _ _ (Some m) _ \<Rightarrow> m | Sdk x \<Rightarrow> err_message x | _ \<Rightarrow> ''Unknown error'')"

definition exhaust :: "string \<Rightarrow> 'x endpoints_state_scheme \<Rightarrow> 'x endpoints_state_scheme" where
  "exhaust i w = (let w1 = updateDeliveryStatus i Exhausted id w in w1\<lparr>payloads := AList.delete i (payloads w1)\<rparr>)"

type_synonym ('w, 'a) fueled = "'w \<Rightarrow> ((thrown + 'a) \<times> 'w) option"

text \<open>\<open>send\<close> is \<open>sendHttpRequest\<close> with the fuel that is left.\<close>

definition retryWith :: "(endpoint_config \<Rightarrow> string \<Rightarrow> delivery \<Rightarrow> ('x endpoints_state_scheme, unit) fueled) \<Rightarrow>
    string \<Rightarrow> ('x endpoints_state_scheme, unit) fueled" where
  "retryWith send i w = (case map_of (deliveries w) i of
       None \<Rightarrow> Some (Inl (Sdk (ValidationError (''Delivery not found: '' @ i))), w)
     | Some d \<Rightarrow>
         if delStatus d = Success \<or> delStatus d = Exhausted
         then Some (Inl (Sdk (ValidationError (''Cannot retry delivery in status '' @
           (if delStatus d = Success then ''success'' else ''exhausted'')))), w)
         else (case map_of (endpoints w) (delHook d) of
             None \<Rightarrow> Some (Inl (Sdk (ValidationError (''Webhook endpoint '' @ delHook d @ '' not found''))), w)
           | Some c \<Rightarrow> (case loadPayload w i of Inl err \<Rightarrow> Some (Inl (Sdk err), w)
               | Inr body \<Rightarrow> send c body d w)))"

definition retryBackoff :: "nat \<Rightarrow> rat" where
  "retryBackoff attempt = min 30000 (1000 * 2 ^ (attempt - 1))"

definition scheduleRetry :: "('x endpoints_state_scheme) endpoint_env \<Rightarrow>
    (endpoint_config \<Rightarrow> string \<Rightarrow> delivery \<Rightarrow> ('x endpoints_state_scheme, unit) fueled) \<Rightarrow>
    string \<Rightarrow> nat \<Rightarrow> ('x endpoints_state_scheme, unit) fueled" where
  "scheduleRetry e send i attempt w = (let w1 = epSleep e (retryBackoff attempt) w
     in if map_of (deliveries w1) i = None then Some (Inr (), w1) else retryWith send i w1)"

definition retryOrExhaust :: "('x endpoints_state_scheme) endpoint_env \<Rightarrow>
    (endpoint_config \<Rightarrow> string \<Rightarrow> delivery \<Rightarrow> ('x endpoints_state_scheme, unit) fueled) \<Rightarrow>
    delivery \<Rightarrow> ('x endpoints_state_scheme, unit) fueled" where
  "retryOrExhaust e send d w = (if delRetries d < 3 then scheduleRetry e send (delId d) (delRetries d + 1) w
     else Some (Inr (), exhaust (delId d) w))"

text \<open>The \<open>catch\<close> block. An error thrown here leaves the call.\<close>

definition onRequestError :: "('x endpoints_state_scheme) endpoint_env \<Rightarrow>
    (endpoint_config \<Rightarrow> string \<Rightarrow> delivery \<Rightarrow> ('x endpoints_state_scheme, unit) fueled) \<Rightarrow>
    delivery \<Rightarrow> thrown \<Rightarrow> ('x endpoints_state_scheme, unit) fueled" where
  "onRequestError e send d err w =
    (let w1 = updateDeliveryStatus (delId d) Failed
           (\<lambda>x. x\<lparr>delError := Some (error_text err), delCompleted := Some (seconds (epNow e w))\<rparr>) w
     in retryOrExhaust e send d (recordDeliveryAttempt (seconds (epNow e w1)) (delHook d) w1))"

text \<open>The \<open>try\<close> block after the answer, whose errors the \<open>catch\<close> block sees.\<close>

definition onAnswer :: "('x endpoints_state_scheme) endpoint_env \<Rightarrow>
    (endpoint_config \<Rightarrow> string \<Rightarrow> delivery \<Rightarrow> ('x endpoints_state_scheme, unit) fueled) \<Rightarrow>
    delivery \<Rightarrow> int \<Rightarrow> ('x endpoints_state_scheme, unit) fueled" where
  "onAnswer e send d code w =
    (let w1 = updateDeliveryStatus (delId d) (if ok_status code then Success else Failed)
           (\<lambda>x. x\<lparr>delHttp := Some code, delCompleted := Some (seconds (epNow e w))\<rparr>) w;
         w2 = recordDeliveryAttempt (seconds (epNow e w1)) (delHook d) w1
     in if ok_status code then Some (Inr (), w2\<lparr>payloads := AList.delete (delId d) (payloads w2)\<rparr>)
        else retryOrExhaust e send d w2)"

fun sendHttpRequest :: "('x endpoints_state_scheme) endpoint_env \<Rightarrow> nat \<Rightarrow> endpoint_config \<Rightarrow> string \<Rightarrow> delivery \<Rightarrow>
    ('x endpoints_state_scheme, unit) fueled" where
  "sendHttpRequest e 0 c body d w = None"
| "sendHttpRequest e (Suc n) c body d w =
    (let w1 = updateDeliveryStatus (delId d) Delivering id w
     in case epFetch e (or_default (cfgMethod c) ''POST'') (cfgUrl c) (requestHeaders e c body) body w1 of
          (Inl err, w2) \<Rightarrow> onRequestError e (sendHttpRequest e n) d err w2
        | (Inr code, w2) \<Rightarrow> (case onAnswer e (sendHttpRequest e n) d code w2 of
              Some (Inl err, w3) \<Rightarrow> onRequestError e (sendHttpRequest e n) d err w3
            | r \<Rightarrow> r))"

definition retryDelivery :: "('x endpoints_state_scheme) endpoint_env \<Rightarrow> nat \<Rightarrow> string \<Rightarrow>
    ('x endpoints_state_scheme, delivery option) fueled" where
  "retryDelivery e n i w = map_option (\<lambda>(r, w'). (map_sum id (\<lambda>_. map_of (deliveries w') i) r, w'))
     (retryWith (sendHttpRequest e n) i w)"

text \<open>The answer is the delivery looked up again, \<open>None\<close> when it is gone.\<close>

definition deliver :: "('x endpoints_state_scheme) endpoint_env \<Rightarrow> nat \<Rightarrow> string \<Rightarrow> string \<Rightarrow> string option \<Rightarrow>
    ('x endpoints_state_scheme, delivery option) fueled" where
  "deliver e n i body alert w = (case map_of (endpoints w) i of
       None \<Rightarrow> Some (Inl (Sdk (ValidationError (''Webhook endpoint not found: '' @ i))), w)
     | Some c \<Rightarrow>
         if cfgEnabled c \<noteq> Some True then Some (Inl (Sdk (ValidationError ''Webhook endpoint is disabled'')), w)
         else if MAX_PAYLOAD_BYTES < epBytes e body
         then Some (Inl (Sdk (ValidationError (''Payload exceeds '' @ int_str MAX_PAYLOAD_BYTES @ '' byte limit''))), w)
         else (let (j, w1) = epId e w;
             d = \<lparr>delId = j, delHook = i, delAlert = or_default alert ''unknown'', delStatus = Pending, delHttp = None,
               delSentAt = seconds (epNow e w1), delCompleted = None, delRetries = 0, delError = None\<rparr>;
             w2 = w1\<lparr>deliveries := AList.update j d (deliveries w1), payloads := AList.update j body (payloads w1)\<rparr>
           in map_option (\<lambda>(r, w'). (map_sum id (\<lambda>_. map_of (deliveries w') j) r, w'))
                (sendHttpRequest e n c body d (recordDeliveryAttempt (seconds (epNow e w2)) i w2))))"

section \<open>Properties\<close>

text \<open>A delivery that can be retried: its record with \<open>r\<close> retries counted, its endpoint and its payload.\<close>

definition ready :: "string \<Rightarrow> nat \<Rightarrow> 'x endpoints_state_scheme \<Rightarrow> bool" where
  "ready i r w \<longleftrightarrow> (case map_of (deliveries w) i of None \<Rightarrow> False | Some d \<Rightarrow> delId d = i \<and> delRetries d = r \<and>
     map_of (endpoints w) (delHook d) \<noteq> None \<and> map_of (payloads w) i \<noteq> None)"

text \<open>An answer that takes the delivery, and how a delivery ends after the answers \<open>as\<close> when \<open>k\<close> requests
  were left: with the first answer that takes it, or after \<open>k\<close> that do not.\<close>

definition takes :: "thrown + int \<Rightarrow> bool" where
  "takes a \<longleftrightarrow> (case a of Inl _ \<Rightarrow> False | Inr c \<Rightarrow> 200 \<le> c \<and> c < 300)"

definition ended :: "string \<Rightarrow> nat \<Rightarrow> (thrown + int) list \<Rightarrow> 'x endpoints_state_scheme \<Rightarrow> bool" where
  "ended i k as w \<longleftrightarrow> map_of (payloads w) i = None \<and> (case map_of (deliveries w) i of None \<Rightarrow> False
     | Some d \<Rightarrow> delId d = i \<and>
         (delStatus d = Success \<and> as \<noteq> [] \<and> length as \<le> k \<and> (\<forall>a \<in> set (butlast as). \<not> takes a) \<and>
            takes (last as) \<and> map_option Inr (delHttp d) = Some (last as) \<or>
          delStatus d = Exhausted \<and> delRetries d = 5 \<and> length as = k \<and> (\<forall>a \<in> set as. \<not> takes a)))"

lemma ended_Cons: "ended i k as w \<Longrightarrow> \<not> takes a \<Longrightarrow> ended i (Suc k) (a # as) w"
  by (auto simp: ended_def split: option.splits)

definition status_of :: "string \<Rightarrow> 'x endpoints_state_scheme \<Rightarrow> delivery_status option" where
  "status_of i w = map_option delStatus (map_of (deliveries w) i)"

lemma recordDeliveryAttempt_simps [simp]:
  "deliveries (recordDeliveryAttempt now j w) = deliveries w" "endpoints (recordDeliveryAttempt now j w) = endpoints w"
  "payloads (recordDeliveryAttempt now j w) = payloads w"
  "endpoints_state.more (recordDeliveryAttempt now j w) = endpoints_state.more w"
  by (simp_all add: recordDeliveryAttempt_def Let_def split: option.splits)

lemma updateDeliveryStatus_simps [simp]:
  "endpoints (updateDeliveryStatus i st f w) = endpoints w" "payloads (updateDeliveryStatus i st f w) = payloads w"
  "endpoints_state.more (updateDeliveryStatus i st f w) = endpoints_state.more w"
  by (simp_all add: updateDeliveryStatus_def split: option.splits)

lemma map_of_updateDeliveryStatus: "map_of (deliveries (updateDeliveryStatus i st f w)) i =
    map_option (\<lambda>d. (f d)\<lparr>delStatus := st,
      delRetries := (if st = Failed \<or> st = Exhausted then delRetries d + 1 else delRetries d)\<rparr>) (map_of (deliveries w) i)"
  by (simp add: updateDeliveryStatus_def update_conv' split: option.splits)

lemma ready_record [simp]: "ready i r (recordDeliveryAttempt now j w) \<longleftrightarrow> ready i r w"
  by (cases "map_of (deliveries w) i") (simp_all add: ready_def)

lemma ready_cong: "deliveries w' = deliveries w \<Longrightarrow> endpoints w' = endpoints w \<Longrightarrow> payloads w' = payloads w \<Longrightarrow>
    ready i r w' \<longleftrightarrow> ready i r w"
  by (cases "map_of (deliveries w) i") (simp_all add: ready_def)

lemma ready_update:
  assumes "ready i r w" and "\<And>d. delId (f d) = delId d" and "\<And>d. delHook (f d) = delHook d"
  shows "ready i (if st = Failed \<or> st = Exhausted then Suc r else r) (updateDeliveryStatus i st f w)"
  using assms by (auto simp: ready_def map_of_updateDeliveryStatus split: option.splits)

text \<open>Requests and timers that leave the module alone; \<open>seen\<close> is the list of the answers to the requests.\<close>

definition quiet :: "('x \<Rightarrow> (thrown + int) list) \<Rightarrow> ('x endpoints_state_scheme) endpoint_env \<Rightarrow> bool" where
  "quiet seen e \<longleftrightarrow>
     (\<forall>m u hs b w a w'. epFetch e m u hs b w = (a, w') \<longrightarrow> endpoints_state.truncate w' = endpoints_state.truncate w \<and>
        seen (endpoints_state.more w') = seen (endpoints_state.more w) @ [a]) \<and>
     (\<forall>t w. endpoints_state.truncate (epSleep e t w) = endpoints_state.truncate w \<and>
        seen (endpoints_state.more (epSleep e t w)) = seen (endpoints_state.more w)) \<and>
     (\<forall>w. endpoints_state.truncate (snd (epId e w)) = endpoints_state.truncate w \<and>
        seen (endpoints_state.more (snd (epId e w))) = seen (endpoints_state.more w))"

lemma truncate_eqD:
  assumes "endpoints_state.truncate w' = endpoints_state.truncate w"
  shows "deliveries w' = deliveries w" "endpoints w' = endpoints w" "payloads w' = payloads w" "healthCache w' = healthCache w"
  using assms by (simp_all add: endpoints_state.defs)

lemma quietD:
  assumes "quiet seen e"
  shows "epFetch e m u hs b w = (a, w') \<Longrightarrow> endpoints_state.truncate w' = endpoints_state.truncate w \<and>
      seen (endpoints_state.more w') = seen (endpoints_state.more w) @ [a]"
    "endpoints_state.truncate (epSleep e t w) = endpoints_state.truncate w"
    "seen (endpoints_state.more (epSleep e t w)) = seen (endpoints_state.more w)"
    "epId e w = (i, w') \<Longrightarrow> endpoints_state.truncate w' = endpoints_state.truncate w \<and>
      seen (endpoints_state.more w') = seen (endpoints_state.more w)"
  using assms unfolding quiet_def by (metis snd_conv)+

definition delivery_ends :: "('x \<Rightarrow> (thrown + int) list) \<Rightarrow> string \<Rightarrow> nat \<Rightarrow> 'x endpoints_state_scheme \<Rightarrow>
    ((thrown + unit) \<times> 'x endpoints_state_scheme) option \<Rightarrow> bool" where
  "delivery_ends seen i k w r \<longleftrightarrow> (\<exists>as w'. r = Some (Inr (), w') \<and>
     seen (endpoints_state.more w') = seen (endpoints_state.more w) @ as \<and> ended i k as w')"

lemma retryOrExhaust_ends:
  assumes q: "quiet seen e" and d: "delId d = i" "delRetries d = r" "r \<le> 3"
    and w: "ready i (Suc r) w" "status_of i w = Some Failed"
    and send: "\<And>c b d' w'. delId d' = i \<Longrightarrow> delRetries d' = Suc r \<Longrightarrow> Suc r \<le> 3 \<Longrightarrow> ready i (Suc r) w' \<Longrightarrow>
      delivery_ends seen i (3 - r) w' (send c b d' w')"
  shows "delivery_ends seen i (3 - r) w (retryOrExhaust e send d w)"
proof (cases "r < 3")
  case True
  let ?w1 = "epSleep e (retryBackoff (r + 1)) w"
  note same = truncate_eqD[OF quietD(2)[OF q]]
  have r1: "ready i (Suc r) ?w1" using w(1) ready_cong[OF same(1-3)] by blast
  then obtain d' where d': "map_of (deliveries ?w1) i = Some d'" "delId d' = i" "delRetries d' = Suc r"
    and "map_of (endpoints ?w1) (delHook d') \<noteq> None" and "map_of (payloads ?w1) i \<noteq> None"
    by (auto simp: ready_def split: option.splits)
  then obtain c b where c: "map_of (endpoints ?w1) (delHook d') = Some c" and b: "map_of (payloads ?w1) i = Some b"
    by blast
  have "delStatus d' = Failed" using w(2) d' same(1) by (simp add: status_of_def)
  then have "retryOrExhaust e send d w = send c b d' ?w1"
    using d d' c b True by (simp add: retryOrExhaust_def scheduleRetry_def retryWith_def loadPayload_def)
  then show ?thesis using send[OF d'(2,3) _ r1] True quietD(3)[OF q] by (auto simp: delivery_ends_def)
next
  case False
  then have "retryOrExhaust e send d w = Some (Inr (), exhaust i w)" and "r = 3" using d by (simp_all add: retryOrExhaust_def)
  moreover have "ended i 0 [] (exhaust i w)" using w(1) \<open>r = 3\<close>
    by (auto simp: ended_def exhaust_def Let_def ready_def map_of_updateDeliveryStatus delete_conv' split: option.splits)
  ultimately show ?thesis by (auto simp: delivery_ends_def exhaust_def Let_def intro!: exI[of _ "[]"])
qed

lemma sendHttpRequest_ends:
  assumes q: "quiet seen e"
  shows "delId d = i \<Longrightarrow> delRetries d = r \<Longrightarrow> r \<le> 3 \<Longrightarrow> ready i r w \<Longrightarrow> 4 - r \<le> n \<Longrightarrow>
    delivery_ends seen i (4 - r) w (sendHttpRequest e n c body d w)"
proof (induction n arbitrary: d r w c body)
  case (Suc n)
  let ?w1 = "updateDeliveryStatus i Delivering id w"
  obtain a w2 where f: "epFetch e (or_default (cfgMethod c) ''POST'') (cfgUrl c) (requestHeaders e c body) body ?w1 = (a, w2)"
    by fastforce
  note f2 = quietD(1)[OF q f]
  note same = truncate_eqD[OF conjunct1[OF f2]]
  have r2: "ready i r w2" using ready_update[OF Suc.prems(4), of id Delivering] ready_cong[OF same(1-3)] by simp
  have IH: "delivery_ends seen i (3 - r) w' (sendHttpRequest e n c' b' d' w')"
    if "delId d' = i" "delRetries d' = Suc r" "Suc r \<le> 3" "ready i (Suc r) w'" for c' b' d' w'
    using Suc.IH[OF that(1,2,3,4)] Suc.prems(5) by (simp add: numeral_eq_Suc)
  have fail: "delivery_ends seen i (4 - r) w (retryOrExhaust e (sendHttpRequest e n) d
      (recordDeliveryAttempt t (delHook d) (updateDeliveryStatus i Failed g w2)))"
    if "\<And>d. delId (g d) = delId d" "\<And>d. delHook (g d) = delHook d" "\<not> takes a" for g t
  proof -
    let ?w3 = "recordDeliveryAttempt t (delHook d) (updateDeliveryStatus i Failed g w2)"
    have "ready i (Suc r) ?w3" using ready_update[OF r2 that(1,2), of Failed] by simp
    moreover have "status_of i ?w3 = Some Failed" using r2
      by (auto simp: status_of_def map_of_updateDeliveryStatus ready_def split: option.splits)
    ultimately have "delivery_ends seen i (3 - r) ?w3 (retryOrExhaust e (sendHttpRequest e n) d ?w3)"
      by (intro retryOrExhaust_ends[OF q Suc.prems(1,2,3)] IH)
    then obtain as w' where as: "retryOrExhaust e (sendHttpRequest e n) d ?w3 = Some (Inr (), w')"
      "seen (endpoints_state.more w') = seen (endpoints_state.more w2) @ as" "ended i (3 - r) as w'"
      by (auto simp: delivery_ends_def)
    have "ended i (4 - r) (a # as) w'"
      using ended_Cons[OF as(3) that(3)] Suc.prems(3) by (simp add: Suc_diff_le numeral_eq_Suc)
    then show ?thesis using as(1,2) conjunct2[OF f2] unfolding delivery_ends_def by auto
  qed
  show ?case
  proof (cases a)
    case (Inl err)
    then show ?thesis using f fail Suc.prems(1) by (simp add: onRequestError_def Let_def takes_def)
  next
    case (Inr code)
    show ?thesis
    proof (cases "ok_status code")
      case True
      then have "\<exists>w'. onAnswer e (sendHttpRequest e n) d code w2 = Some (Inr (), w') \<and>
          endpoints_state.more w' = endpoints_state.more w2 \<and> ended i (4 - r) [a] w'"
        using Inr r2 Suc.prems(1,3)
        by (auto simp: onAnswer_def Let_def ended_def takes_def ok_status_def delete_conv' map_of_updateDeliveryStatus
            ready_def split: option.splits)
      then show ?thesis using f Inr conjunct2[OF f2] Suc.prems(1) unfolding delivery_ends_def by auto
    next
      case False
      then have nt: "\<not> takes a" using Inr by (auto simp: takes_def ok_status_def)
      have "delivery_ends seen i (4 - r) w (onAnswer e (sendHttpRequest e n) d code w2)"
        using False fail[OF _ _ nt] Suc.prems(1) by (simp add: onAnswer_def Let_def)
      then show ?thesis using f Inr Suc.prems(1) by (auto simp: delivery_ends_def Let_def)
    qed
  qed
qed simp


definition some_endpoint :: endpoint_config where
  "some_endpoint = \<lparr>cfgUrl = ''https://a'', cfgMethod = Some ''POST'', cfgFormat = Some ''json'', cfgHeaders = None,
     cfgSecret = None, cfgEnabled = Some True\<rparr>"

text \<open>The world counts the requests; the answers are a function of the count.\<close>

definition scripted :: "(nat \<Rightarrow> thrown + int) \<Rightarrow> (nat endpoints_state_scheme \<Rightarrow> nat endpoints_state_scheme) \<Rightarrow>
    (nat endpoints_state_scheme) endpoint_env" where
  "scripted answers meanwhile = \<lparr>epNow = (\<lambda>_. 0),
     epFetch = (\<lambda>_ _ _ _ w. (answers (endpoints_state.more w), endpoints_state.more_update Suc w)),
     epSleep = (\<lambda>_ w. meanwhile w), epId = (\<lambda>w. (''d'', w)), epHmac = (\<lambda>s b. s @ b), epBytes = (\<lambda>b. int (length b))\<rparr>"

definition one_endpoint :: "nat endpoints_state_scheme" where
  "one_endpoint = \<lparr>endpoints = [(''e'', some_endpoint)], deliveries = [], healthCache = [], payloads = [], \<dots> = 0\<rparr>"

text \<open>A world that keeps the answers; a failed request and a redirection come before the success.\<close>

definition recording :: "(nat \<Rightarrow> thrown + int) \<Rightarrow> ((thrown + int) list endpoints_state_scheme) endpoint_env" where
  "recording answers = \<lparr>epNow = (\<lambda>_. 0),
     epFetch = (\<lambda>_ _ _ _ w. let a = answers (length (endpoints_state.more w)) in (a, endpoints_state.more_update (\<lambda>as. as @ [a]) w)),
     epSleep = (\<lambda>_ w. w), epId = (\<lambda>w. (''d'', w)), epHmac = (\<lambda>s b. s @ b), epBytes = (\<lambda>b. int (length b))\<rparr>"

definition third_time :: "nat \<Rightarrow> thrown + int" where
  "third_time n = (if n = 0 then Inl Undefined else if n = 1 then Inr 301 else Inr 204)"

definition recorded :: "(thrown + int) list endpoints_state_scheme" where
  "recorded = \<lparr>endpoints = [(''e'', some_endpoint)], deliveries = [], healthCache = [], payloads = [], \<dots> = []\<rparr>"

lemma recording_quiet: "quiet id (recording answers)"
  by (auto simp: quiet_def recording_def Let_def endpoints_state.defs)


text \<open>Four requests are made for three retries, and the last failure is counted twice: five retries.\<close>

theorem exhausted_counts_five:
  "(case deliver (scripted (\<lambda>_. Inr 500) id) 4 ''e'' ''body'' None one_endpoint of
      Some (_, w) \<Rightarrow> (endpoints_state.more w, map (\<lambda>(_, d). (delStatus d, delRetries d)) (deliveries w))
    | None \<Rightarrow> (0, [])) = (4, [(Exhausted, 5)])"
  by code_simp

text \<open>While a delivery waits for its retry, its owner retries it by hand and it is delivered. The waiting
  retry is then refused, and the handler of the first attempt takes the refusal for a failed request: the
  delivered delivery ends as failed, and the call throws.\<close>

definition second_time :: "nat \<Rightarrow> thrown + int" where
  "second_time n = Inr (if n = 0 then 500 else 200)"

definition manual_retry :: "nat endpoints_state_scheme \<Rightarrow> nat endpoints_state_scheme" where
  "manual_retry w = (case retryDelivery (scripted second_time id) 1 ''d'' w of Some (_, w') \<Rightarrow> w' | None \<Rightarrow> w)"

theorem delivered_reported_failed:
  "(case deliver (scripted second_time manual_retry) 4 ''e'' ''body'' None one_endpoint of
      Some (r, w) \<Rightarrow> (isl r, endpoints_state.more w, second_time 1, map (\<lambda>(_, d). (delStatus d, delHttp d)) (deliveries w))
    | None \<Rightarrow> (False, 0, Inr 0, [])) = (True, 2, Inr 200, [(Failed, Some 200)])"
  by code_simp

text \<open>No sequence of registrations, updates, deletions and deliveries holds more than twenty endpoints, and
  every endpoint keeps its health record.\<close>

definition endpoints_inv :: "'x endpoints_state_scheme \<Rightarrow> bool" where
  "endpoints_inv w \<longleftrightarrow> length (endpoints w) \<le> MAX_ENDPOINTS \<and> distinct (map fst (endpoints w)) \<and>
     map fst (endpoints w) = map fst (healthCache w)"

datatype endpoint_event = ERegister endpoint_config | EUpdate string "endpoint_config \<Rightarrow> endpoint_config" | EDelete string
  | EStatus string delivery_status "delivery \<Rightarrow> delivery" | ERecord int string | EStart string delivery string | EDrop string

text \<open>The steps of a delivery between two waits change deliveries and payloads one call at a time.\<close>

fun endpoint_step :: "(unit endpoints_state_scheme) endpoint_env \<Rightarrow> endpoints_state \<Rightarrow> endpoint_event \<Rightarrow> endpoints_state" where
  "endpoint_step e w (ERegister c) = snd (registerEndpoint e c w)"
| "endpoint_step e w (EUpdate i f) = snd (updateEndpoint i f w)"
| "endpoint_step e w (EDelete i) = snd (deleteEndpoint i w)"
| "endpoint_step e w (EStatus i st f) = updateDeliveryStatus i st f w"
| "endpoint_step e w (ERecord now i) = recordDeliveryAttempt now i w"
| "endpoint_step e w (EStart j d body) =
     w\<lparr>deliveries := AList.update j d (deliveries w), payloads := AList.update j body (payloads w)\<rparr>"
| "endpoint_step e w (EDrop j) = w\<lparr>payloads := AList.delete j (payloads w)\<rparr>"

lemma update_known_key: "map_of m k \<noteq> None \<Longrightarrow> map fst (AList.update k v m) = map fst m"
  by (auto simp: update_keys map_of_eq_None_iff)

lemma length_by_keys: "map fst xs = map fst ys \<Longrightarrow> length xs = length ys"
  by (metis length_map)

lemma length_update: "length (AList.update k v m) = (if map_of m k = None then Suc (length m) else length m)"
  by (induction m) auto

lemma healthCache_updateDeliveryStatus [simp]: "healthCache (updateDeliveryStatus i st f w) = healthCache w"
  by (simp add: updateDeliveryStatus_def split: option.splits)

lemma keys_recordDeliveryAttempt [simp]:
  "map fst (healthCache (recordDeliveryAttempt now i w)) = map fst (healthCache w)"
  by (auto simp: recordDeliveryAttempt_def Let_def update_known_key split: option.splits)

text \<open>Only the identifier generator is shared with the outside, and it leaves the state alone.\<close>

lemma endpoint_step_inv:
  assumes "\<And>w. snd (epId e w) = w" and "endpoints_inv w"
  shows "endpoints_inv (endpoint_step e w ev)"
proof (cases ev)
  case (ERegister c)
  obtain i where "epId e w = (i, w)" using assms(1) by (metis prod.collapse)
  then show ?thesis using assms(2) ERegister
    by (auto simp: registerEndpoint_def bindW_def liftW_def endpoints_inv_def length_update distinct_update update_keys
        split: sum.splits)
next
  case (EUpdate i f)
  then show ?thesis using assms(2)
    by (auto simp: updateEndpoint_def endpoints_inv_def update_known_key length_update split: option.splits)
next
  case (EDelete i)
  then show ?thesis using assms(2) length_delete_le[of i "endpoints w"]
    by (auto simp: deleteEndpoint_def endpoints_inv_def delete_keys distinct_removeAll)
next
  case (EStatus i st f)
  then show ?thesis using assms(2) by (auto simp: endpoints_inv_def)
next
  case (ERecord now i)
  then show ?thesis using assms(2) by (auto simp: endpoints_inv_def)
next
  case (EStart j d body)
  then show ?thesis using assms(2) by (auto simp: endpoints_inv_def)
next
  case (EDrop j)
  then show ?thesis using assms(2) by (auto simp: endpoints_inv_def)
qed

theorem endpoints_bounded:
  assumes "\<And>w. snd (epId e w) = w"
    and "w = run_steps (endpoint_step e) \<lparr>endpoints = [], deliveries = [], healthCache = [], payloads = []\<rparr> evs"
  shows "length (endpoints w) \<le> 20 \<and> map fst (endpoints w) = map fst (healthCache w)"
proof -
  have "endpoints_inv w" unfolding assms(2)
    by (rule invariant_machine.run_inv[OF invariant_machine.intro], erule endpoint_step_inv[OF assms(1)])
      (simp add: endpoints_inv_def)
  then show ?thesis by (simp add: endpoints_inv_def MAX_ENDPOINTS_def)
qed

definition still_endpoints :: "(unit endpoints_state_scheme) endpoint_env" where
  "still_endpoints = \<lparr>epNow = (\<lambda>_. 0), epFetch = (\<lambda>_ _ _ _ w. (Inr 200, w)), epSleep = (\<lambda>_ w. w),
     epId = (\<lambda>w. (nat_str (length (endpoints w)), w)), epHmac = (\<lambda>s b. s @ b), epBytes = (\<lambda>b. int (length b))\<rparr>"

lemma endpoints_bounded_witness:
  "length (endpoints (run_steps (endpoint_step still_endpoints)
     \<lparr>endpoints = [], deliveries = [], healthCache = [], payloads = []\<rparr> (replicate 30 (ERegister some_endpoint)))) \<le> 20"
  using endpoints_bounded[of still_endpoints _ "replicate 30 (ERegister some_endpoint)", OF _ refl]
  by (simp add: still_endpoints_def)

text \<open>An update is not validated: an endpoint that could not be registered with a plain HTTP URL can be
  moved to one, and deliveries go there.\<close>

theorem update_skips_https:
  assumes "map_of (endpoints w) i = Some c"
  shows "validateEndpoint (c\<lparr>cfgUrl := ''http://a''\<rparr>) = Inl (ValidationError ''Webhook URL must use HTTPS'') \<and>
    (\<exists>w'. updateEndpoint i (\<lambda>c. c\<lparr>cfgUrl := ''http://a''\<rparr>) w = (Inr (), w') \<and>
      getEndpointConfig w' i = Inr (c\<lparr>cfgUrl := ''http://a''\<rparr>))"
  using assms by (simp add: validateEndpoint_def updateEndpoint_def getEndpointConfig_def update_conv')

lemma update_skips_https_witness:
  "map_sum id cfgUrl (getEndpointConfig (snd (updateEndpoint ''e'' (\<lambda>c. c\<lparr>cfgUrl := ''http://a''\<rparr>) one_endpoint)) ''e'') =
     Inr ''http://a''"
  using update_skips_https[of one_endpoint "''e''" some_endpoint] by (auto simp: one_endpoint_def)

text \<open>A disabled endpoint takes no new deliveries but still gets the retries of the old ones.\<close>

theorem retry_ignores_disabled:
  assumes "map_of (deliveries w) i = Some d" and "delStatus d = Failed"
    and "map_of (endpoints w) (delHook d) = Some c" and "cfgEnabled c = Some False" and "map_of (payloads w) i = Some b"
  shows "deliver e n (delHook d) b alert w = Some (Inl (Sdk (ValidationError ''Webhook endpoint is disabled'')), w) \<and>
    retryWith send i w = send c b d w"
  using assms by (simp add: deliver_def retryWith_def loadPayload_def)

definition failed_delivery :: delivery where
  "failed_delivery = \<lparr>delId = ''d'', delHook = ''e'', delAlert = ''a'', delStatus = Failed, delHttp = Some 500,
     delSentAt = 0, delCompleted = Some 0, delRetries = 1, delError = None\<rparr>"

definition disabled_endpoint :: "nat endpoints_state_scheme" where
  "disabled_endpoint = \<lparr>endpoints = [(''e'', some_endpoint\<lparr>cfgEnabled := Some False\<rparr>)],
     deliveries = [(''d'', failed_delivery)], healthCache = [], payloads = [(''d'', ''body'')], \<dots> = 0\<rparr>"

lemma retry_ignores_disabled_witness:
  "retryWith (\<lambda>_ _ _ _. None) ''d'' disabled_endpoint = (None :: ((thrown + unit) \<times> nat endpoints_state_scheme) option)"
  using retry_ignores_disabled[of disabled_endpoint "''d''" failed_delivery "some_endpoint\<lparr>cfgEnabled := Some False\<rparr>"
      "''body''" "scripted second_time id" 0 None "\<lambda>_ _ _ _. None"]
  by (simp add: disabled_endpoint_def failed_delivery_def)

text \<open>Deleting an endpoint drops its deliveries and keeps their payloads, which nothing can reach any more.\<close>

theorem delete_leaks_payloads:
  assumes "map_of (endpoints w) i = Some c" and "deleteEndpoint i w = (Inr (), w')"
    and "distinct (map fst (deliveries w))" and "map_of (deliveries w) j = Some d" and "delHook d = i"
  shows "map_of (deliveries w') j = None \<and> payloads w' = payloads w"
proof -
  have w': "w' = w\<lparr>endpoints := AList.delete i (endpoints w), healthCache := AList.delete i (healthCache w),
      deliveries := filter (\<lambda>(_, d). delHook d \<noteq> i) (deliveries w)\<rparr>"
    using assms(1,2) by (simp add: deleteEndpoint_def)
  have "delHook x = i" if "(j, x) \<in> set (deliveries w)" for x
    using map_of_is_SomeI[OF assms(3) that] assms(4,5) by simp
  then have "j \<notin> fst ` set (filter (\<lambda>(_, d). delHook d \<noteq> i) (deliveries w))" by auto
  then show ?thesis unfolding w' by (simp add: map_of_eq_None_iff)
qed

lemma delete_leaks_payloads_witness:
  "payloads (snd (deleteEndpoint ''e'' disabled_endpoint)) = [(''d'', ''body'')]"
  using delete_leaks_payloads[of disabled_endpoint "''e''" "some_endpoint\<lparr>cfgEnabled := Some False\<rparr>"
      "snd (deleteEndpoint ''e'' disabled_endpoint)" "''d''" failed_delivery]
  by (simp add: disabled_endpoint_def failed_delivery_def deleteEndpoint_def)

end
