(* ===== verification/Events.thy ===== *)
theory Events
  imports ScVal
begin

text \<open>
  \<open>utils/events.ts\<close>: contract events, from the meta of a transaction or from a stream of responses, to typed
  events. \<open>addr\<close> is \<open>Address.fromScVal\<close> and its text, or the message of what it throws. A diagnostic event
  carries its topics and data when its body has version 0, and its contract as text, empty when it has none.
\<close>

section \<open>Events\<close>

record event_base =
  evContract :: string
  evLedger :: int
  evTimestamp :: int
  evTxHash :: string

datatype coral_event =
    SwapEvent event_base string string string int int int
  | LiquidityEvent event_base bool string string string int int int
  | FlashLoanEvent event_base string string int int
  | MintEvent event_base string int int int
  | BurnEvent event_base string int int int string
  | SyncEvent event_base int int
  | FeeUpdateEvent event_base int int int

definition EVENT_TOPICS :: "string list" where
  "EVENT_TOPICS = [''swap'', ''add_liquidity'', ''remove_liquidity'', ''flash_loan'', ''mint'', ''burn'', ''sync'', ''fee_update'']"

section \<open>Decoders\<close>

type_synonym addr_decoder = "scval \<Rightarrow> string + string"

definition eventU32 :: "scval \<Rightarrow> int result" where
  "eventU32 v = (case v of ScvU32 n \<Rightarrow> Inr n
     | _ \<Rightarrow> Inl (ValidationError (''Expected u32 ScVal, got '' @ scv_tag v)))"

definition decodeAddress :: "addr_decoder \<Rightarrow> scval \<Rightarrow> string result" where
  "decodeAddress addr v = map_sum (\<lambda>m. ValidationError (''Invalid address ScVal: '' @ m)) id (addr v)"

definition decodeString :: "scval \<Rightarrow> string result" where
  "decodeString v = (case key_text v of Some s \<Rightarrow> Inr s
     | None \<Rightarrow> Inl (ValidationError (''Expected symbol or string ScVal, got '' @ scv_tag v)))"

definition requireMapValue :: "(scval \<times> scval) list \<Rightarrow> string \<Rightarrow> scval result" where
  "requireMapValue m key = (case getMapValue m key of Some v \<Rightarrow> Inr v
     | None \<Rightarrow> Inl (ValidationError (''Missing required event field: '' @ key)))"

definition event_map :: "string \<Rightarrow> scval \<Rightarrow> (scval \<times> scval) list result" where
  "event_map what v = (case v of ScvMap (Some m) \<Rightarrow> Inr m
     | _ \<Rightarrow> Inl (ValidationError (what @ '' event data is not an ScMap'')))"

definition addrField :: "addr_decoder \<Rightarrow> (scval \<times> scval) list \<Rightarrow> string \<Rightarrow> string result" where
  "addrField addr m key = bindE (requireMapValue m key) (decodeAddress addr)"

definition i128Field :: "(scval \<times> scval) list \<Rightarrow> string \<Rightarrow> int result" where
  "i128Field m key = bindE (requireMapValue m key) decodeI128_strict"

definition u32Field :: "(scval \<times> scval) list \<Rightarrow> string \<Rightarrow> int result" where
  "u32Field m key = bindE (requireMapValue m key) eventU32"

definition parseSwap :: "addr_decoder \<Rightarrow> event_base \<Rightarrow> scval \<Rightarrow> coral_event result" where
  "parseSwap addr b v = bindE (event_map ''Swap'' v) (\<lambda>m.
     bindE (addrField addr m ''sender'') (\<lambda>s. bindE (addrField addr m ''token_in'') (\<lambda>ti.
     bindE (addrField addr m ''token_out'') (\<lambda>tout. bindE (i128Field m ''amount_in'') (\<lambda>ai.
     bindE (i128Field m ''amount_out'') (\<lambda>ao. bindE (u32Field m ''fee_bps'') (\<lambda>f.
       Inr (SwapEvent b s ti tout ai ao f))))))))"

definition parseLiquidity :: "addr_decoder \<Rightarrow> event_base \<Rightarrow> bool \<Rightarrow> scval \<Rightarrow> coral_event result" where
  "parseLiquidity addr b adding v = bindE (event_map ''Liquidity'' v) (\<lambda>m.
     bindE (addrField addr m ''provider'') (\<lambda>p. bindE (addrField addr m ''token_a'') (\<lambda>ta.
     bindE (addrField addr m ''token_b'') (\<lambda>tb. bindE (i128Field m ''amount_a'') (\<lambda>aa.
     bindE (i128Field m ''amount_b'') (\<lambda>ab. bindE (i128Field m ''liquidity'') (\<lambda>l.
       Inr (LiquidityEvent b adding p ta tb aa ab l))))))))"

definition parseFlashLoan :: "addr_decoder \<Rightarrow> event_base \<Rightarrow> scval \<Rightarrow> coral_event result" where
  "parseFlashLoan addr b v = bindE (event_map ''FlashLoan'' v) (\<lambda>m.
     bindE (addrField addr m ''borrower'') (\<lambda>p. bindE (addrField addr m ''token'') (\<lambda>t.
     bindE (i128Field m ''amount'') (\<lambda>a. bindE (i128Field m ''fee'') (\<lambda>f. Inr (FlashLoanEvent b p t a f))))))"

definition parseMint :: "addr_decoder \<Rightarrow> event_base \<Rightarrow> scval \<Rightarrow> coral_event result" where
  "parseMint addr b v = bindE (event_map ''Mint'' v) (\<lambda>m.
     bindE (addrField addr m ''sender'') (\<lambda>s. bindE (i128Field m ''amount_a'') (\<lambda>aa.
     bindE (i128Field m ''amount_b'') (\<lambda>ab. bindE (i128Field m ''liquidity'') (\<lambda>l. Inr (MintEvent b s aa ab l))))))"

definition parseBurn :: "addr_decoder \<Rightarrow> event_base \<Rightarrow> scval \<Rightarrow> coral_event result" where
  "parseBurn addr b v = bindE (event_map ''Burn'' v) (\<lambda>m.
     bindE (addrField addr m ''sender'') (\<lambda>s. bindE (i128Field m ''amount_a'') (\<lambda>aa.
     bindE (i128Field m ''amount_b'') (\<lambda>ab. bindE (i128Field m ''liquidity'') (\<lambda>l.
     bindE (addrField addr m ''to'') (\<lambda>t. Inr (BurnEvent b s aa ab l t)))))))"

definition parseSync :: "event_base \<Rightarrow> scval \<Rightarrow> coral_event result" where
  "parseSync b v = bindE (event_map ''Sync'' v) (\<lambda>m.
     bindE (i128Field m ''reserve0'') (\<lambda>r0. bindE (i128Field m ''reserve1'') (\<lambda>r1. Inr (SyncEvent b r0 r1))))"

definition parseFeeUpdate :: "event_base \<Rightarrow> scval \<Rightarrow> coral_event result" where
  "parseFeeUpdate b v = bindE (event_map ''FeeUpdate'' v) (\<lambda>m.
     bindE (u32Field m ''previous_fee_bps'') (\<lambda>p. bindE (u32Field m ''new_fee_bps'') (\<lambda>n.
     bindE (i128Field m ''volatility'') (\<lambda>x. Inr (FeeUpdateEvent b p n x)))))"

text \<open>\<open>None\<close> is an event that is not one of ours.\<close>

definition decodeParts :: "addr_decoder \<Rightarrow> string list \<Rightarrow> event_base \<Rightarrow> scval list \<Rightarrow> scval \<Rightarrow> coral_event option result" where
  "decodeParts addr allowed b topics v =
    (if allowed \<noteq> [] \<and> evContract b \<notin> set allowed then Inr None
     else case topics of [] \<Rightarrow> Inr None
     | t # _ \<Rightarrow> (case decodeString t of Inl _ \<Rightarrow> Inr None
         | Inr name \<Rightarrow>
             if name = ''swap'' then map_sum id Some (parseSwap addr b v)
             else if name = ''add_liquidity'' then map_sum id Some (parseLiquidity addr b True v)
             else if name = ''remove_liquidity'' then map_sum id Some (parseLiquidity addr b False v)
             else if name = ''flash_loan'' then map_sum id Some (parseFlashLoan addr b v)
             else if name = ''mint'' then map_sum id Some (parseMint addr b v)
             else if name = ''burn'' then map_sum id Some (parseBurn addr b v)
             else if name = ''sync'' then map_sum id Some (parseSync b v)
             else if name = ''fee_update'' then map_sum id Some (parseFeeUpdate b v)
             else Inr None))"

section \<open>Events of a transaction\<close>

record diagnostic_event =
  deSuccessful :: bool
  deContract :: string
  deBody :: "(scval list \<times> scval) option"

definition decodeSingle :: "addr_decoder \<Rightarrow> string list \<Rightarrow> string \<Rightarrow> int \<Rightarrow> int \<Rightarrow> diagnostic_event \<Rightarrow> coral_event option result" where
  "decodeSingle addr allowed tx ledger timestamp ev =
    (if \<not> deSuccessful ev then Inr None
     else case deBody ev of None \<Rightarrow> Inr None
     | Some (topics, v) \<Rightarrow> decodeParts addr allowed
         \<lparr>evContract = deContract ev, evLedger = ledger, evTimestamp = timestamp, evTxHash = tx\<rparr> topics v)"

definition parse :: "addr_decoder \<Rightarrow> string list \<Rightarrow> diagnostic_event list \<Rightarrow> string \<Rightarrow> int \<Rightarrow> int \<Rightarrow> coral_event list" where
  "parse addr allowed evs tx ledger timestamp =
     List.map_filter (\<lambda>ev. case decodeSingle addr allowed tx ledger timestamp ev of Inr r \<Rightarrow> r | Inl _ \<Rightarrow> None) evs"

fun parseStrict :: "addr_decoder \<Rightarrow> string list \<Rightarrow> diagnostic_event list \<Rightarrow> string \<Rightarrow> int \<Rightarrow> int \<Rightarrow> coral_event list result" where
  "parseStrict addr allowed [] tx ledger timestamp = Inr []"
| "parseStrict addr allowed (ev # evs) tx ledger timestamp =
     bindE (decodeSingle addr allowed tx ledger timestamp ev) (\<lambda>r.
     bindE (parseStrict addr allowed evs tx ledger timestamp) (\<lambda>rs. Inr (case r of None \<Rightarrow> rs | Some x \<Rightarrow> x # rs)))"

text \<open>\<open>txMeta\<close> is \<open>None\<close> unless the meta has version 3, and then the diagnostic events, if there are any.\<close>

record tx_response =
  txMeta :: "diagnostic_event list option option"
  txHashField :: "string option"
  txIdField :: "string option"
  txLedger :: "int option"
  txCreatedAt :: "int option"

definition tx_reference :: "tx_response \<Rightarrow> string" where
  "tx_reference r = (case txHashField r of Some h \<Rightarrow> h | None \<Rightarrow> (case txIdField r of Some i \<Rightarrow> i | None \<Rightarrow> []))"

definition or_zero :: "int option \<Rightarrow> int" where
  "or_zero n = (case n of None \<Rightarrow> 0 | Some k \<Rightarrow> k)"

definition fromTransaction :: "addr_decoder \<Rightarrow> string list \<Rightarrow> tx_response \<Rightarrow> coral_event list" where
  "fromTransaction addr allowed r = (case txMeta r of None \<Rightarrow> []
     | Some evs \<Rightarrow> parse addr allowed (case evs of None \<Rightarrow> [] | Some xs \<Rightarrow> xs) (tx_reference r)
         (or_zero (txLedger r)) (or_zero (txCreatedAt r)))"

definition decodeEvents :: "addr_decoder \<Rightarrow> string option \<Rightarrow> bool \<Rightarrow> tx_response \<Rightarrow> coral_event list result" where
  "decodeEvents addr contract strict r =
    (let allowed = (case contract of None \<Rightarrow> [] | Some c \<Rightarrow> if c = [] then [] else [c])
     in case txMeta r of None \<Rightarrow> Inr []
     | Some evs \<Rightarrow> (let xs = (case evs of None \<Rightarrow> [] | Some ys \<Rightarrow> ys)
         in if strict then parseStrict addr allowed xs (tx_reference r) (or_zero (txLedger r)) (or_zero (txCreatedAt r))
            else Inr (parse addr allowed xs (tx_reference r) (or_zero (txLedger r)) (or_zero (txCreatedAt r)))))"

definition decodeEventsFromXdr :: "addr_decoder \<Rightarrow> diagnostic_event list \<Rightarrow> string option \<Rightarrow> bool \<Rightarrow> string \<Rightarrow> int \<Rightarrow> int \<Rightarrow>
    coral_event list result" where
  "decodeEventsFromXdr addr evs contract strict tx ledger timestamp =
    (let allowed = (case contract of None \<Rightarrow> [] | Some c \<Rightarrow> if c = [] then [] else [c])
     in if strict then parseStrict addr allowed evs tx ledger timestamp
        else Inr (parse addr allowed evs tx ledger timestamp))"

section \<open>Streamed events\<close>

text \<open>A response of \<open>getEvents\<close>; \<open>erClosedMs\<close> is the parsed time, \<open>None\<close> when it is absent or no date.\<close>

record event_response =
  erSuccessful :: "bool option"
  erContract :: "string option"
  erTopic :: "scval list option"
  erValue :: "scval option"
  erTxHash :: "string option"
  erLedger :: "int option"
  erClosedMs :: "int option"

definition fromEventResponse :: "addr_decoder \<Rightarrow> string list \<Rightarrow> event_response \<Rightarrow> coral_event option" where
  "fromEventResponse addr allowed ev =
    (if erSuccessful ev = Some False then None
     else case erValue ev of None \<Rightarrow> None
     | Some v \<Rightarrow> (case decodeParts addr allowed
           \<lparr>evContract = (case erContract ev of None \<Rightarrow> [] | Some c \<Rightarrow> c), evLedger = or_zero (erLedger ev),
            evTimestamp = (case erClosedMs ev of None \<Rightarrow> 0 | Some ms \<Rightarrow> ms div 1000),
            evTxHash = (case erTxHash ev of None \<Rightarrow> [] | Some h \<Rightarrow> h)\<rparr>
           (case erTopic ev of None \<Rightarrow> [] | Some ts \<Rightarrow> ts) v of Inr r \<Rightarrow> r | Inl _ \<Rightarrow> None))"

section \<open>Properties\<close>

fun event_base_of :: "coral_event \<Rightarrow> event_base" where
  "event_base_of (SwapEvent b _ _ _ _ _ _) = b"
| "event_base_of (LiquidityEvent b _ _ _ _ _ _ _) = b"
| "event_base_of (FlashLoanEvent b _ _ _ _) = b"
| "event_base_of (MintEvent b _ _ _ _) = b"
| "event_base_of (BurnEvent b _ _ _ _ _) = b"
| "event_base_of (SyncEvent b _ _) = b"
| "event_base_of (FeeUpdateEvent b _ _ _) = b"

fun event_topic :: "coral_event \<Rightarrow> string" where
  "event_topic (SwapEvent _ _ _ _ _ _ _) = ''swap''"
| "event_topic (LiquidityEvent _ adding _ _ _ _ _ _) = (if adding then ''add_liquidity'' else ''remove_liquidity'')"
| "event_topic (FlashLoanEvent _ _ _ _ _) = ''flash_loan''"
| "event_topic (MintEvent _ _ _ _ _) = ''mint''"
| "event_topic (BurnEvent _ _ _ _ _ _) = ''burn''"
| "event_topic (SyncEvent _ _ _) = ''sync''"
| "event_topic (FeeUpdateEvent _ _ _ _) = ''fee_update''"

text \<open>The map a contract publishes for an event; \<open>text\<close> makes the value of an address.\<close>

fun event_fields :: "(string \<Rightarrow> scval) \<Rightarrow> coral_event \<Rightarrow> (string \<times> scval) list" where
  "event_fields a (SwapEvent _ s ti tout ai ao f) = [(''sender'', a s), (''token_in'', a ti), (''token_out'', a tout),
     (''amount_in'', ScvI128 ai), (''amount_out'', ScvI128 ao), (''fee_bps'', ScvU32 f)]"
| "event_fields a (LiquidityEvent _ _ p ta tb aa ab l) = [(''provider'', a p), (''token_a'', a ta), (''token_b'', a tb),
     (''amount_a'', ScvI128 aa), (''amount_b'', ScvI128 ab), (''liquidity'', ScvI128 l)]"
| "event_fields a (FlashLoanEvent _ p t n f) = [(''borrower'', a p), (''token'', a t), (''amount'', ScvI128 n), (''fee'', ScvI128 f)]"
| "event_fields a (MintEvent _ s aa ab l) = [(''sender'', a s), (''amount_a'', ScvI128 aa), (''amount_b'', ScvI128 ab),
     (''liquidity'', ScvI128 l)]"
| "event_fields a (BurnEvent _ s aa ab l t) = [(''sender'', a s), (''amount_a'', ScvI128 aa), (''amount_b'', ScvI128 ab),
     (''liquidity'', ScvI128 l), (''to'', a t)]"
| "event_fields a (SyncEvent _ r0 r1) = [(''reserve0'', ScvI128 r0), (''reserve1'', ScvI128 r1)]"
| "event_fields a (FeeUpdateEvent _ p n x) = [(''previous_fee_bps'', ScvU32 p), (''new_fee_bps'', ScvU32 n), (''volatility'', ScvI128 x)]"

definition event_data :: "(string \<Rightarrow> scval) \<Rightarrow> coral_event \<Rightarrow> scval" where
  "event_data a ev = ScvMap (Some (map (\<lambda>(k, v). (ScvSymbol k, v)) (event_fields a ev)))"

lemmas event_parsers = parseSwap_def parseLiquidity_def parseFlashLoan_def parseMint_def parseBurn_def parseSync_def
  parseFeeUpdate_def event_map_def addrField_def i128Field_def u32Field_def requireMapValue_def getMapValue_def
  decodeAddress_def decodeI128_strict_def eventU32_def

text \<open>C31: Every event survives being published and decoded, for any further topics.\<close>

theorem events_roundtrip:
  assumes "\<And>s. addr (a s) = Inr s" and "allowed = [] \<or> evContract (event_base_of ev) \<in> set allowed"
  shows "decodeParts addr allowed (event_base_of ev) (ScvSymbol (event_topic ev) # ts) (event_data a ev) = Inr (Some ev)"
  using assms by (cases ev) (auto simp: decodeParts_def decodeString_def event_parsers event_data_def)

definition some_base :: event_base where
  "some_base = \<lparr>evContract = ''C'', evLedger = 7, evTimestamp = 8, evTxHash = ''h''\<rparr>"

lemma events_roundtrip_witness:
  "decodeParts (\<lambda>v. case v of ScvOther _ (Some s) \<Rightarrow> Inr s | _ \<Rightarrow> Inl ''bad'') [''C''] some_base [ScvSymbol ''sync'']
     (event_data (\<lambda>s. ScvOther ''scvAddress'' (Some s)) (SyncEvent some_base 1 2)) = Inr (Some (SyncEvent some_base 1 2))"
  using events_roundtrip[of "\<lambda>v. case v of ScvOther _ (Some s) \<Rightarrow> Inr s | _ \<Rightarrow> Inl ''bad''"
      "\<lambda>s. ScvOther ''scvAddress'' (Some s)" "[''C'']" "SyncEvent some_base 1 2" "[]"]
  by (simp add: some_base_def)

text \<open>The strict parser throws or agrees with the lenient one, and the lenient one keeps exactly what decodes.\<close>

theorem strict_refines_lenient:
  "case parseStrict addr allowed evs tx ledger timestamp of
     Inr xs \<Rightarrow> xs = parse addr allowed evs tx ledger timestamp
   | Inl err \<Rightarrow> list_ex (\<lambda>ev. decodeSingle addr allowed tx ledger timestamp ev = Inl err) evs"
proof (induction evs)
  case (Cons ev evs)
  then show ?case
    by (cases "decodeSingle addr allowed tx ledger timestamp ev"; cases "parseStrict addr allowed evs tx ledger timestamp")
      (auto simp: parse_def map_filter_simps split: option.splits)
qed (simp add: parse_def map_filter_simps)

text \<open>A streamed event is typed as the same event read from its transaction.\<close>

theorem stream_agrees_with_transaction:
  "fromEventResponse addr allowed \<lparr>erSuccessful = Some (deSuccessful ev), erContract = Some (deContract ev),
     erTopic = Some topics, erValue = Some v, erTxHash = Some tx, erLedger = Some ledger, erClosedMs = Some (1000 * timestamp)\<rparr> =
   (case parse addr allowed [ev\<lparr>deBody := Some (topics, v)\<rparr>] tx ledger timestamp of [] \<Rightarrow> None | x # _ \<Rightarrow> Some x)"
  by (auto simp: fromEventResponse_def parse_def decodeSingle_def map_filter_simps or_zero_def split: sum.splits option.splits)

end
