(* ===== verification/EventCursor.thy ===== *)
theory EventCursor
  imports Events Submission
begin

text \<open>
  \<open>utils/event-cursor.ts\<close>: scanning the events of the RPC server page by page. A page is asked for by
  ledger, the following ones by the cursor the server gave, or, when it gave none, by the last ledger
  again, leaving out what was already returned. The server is a parameter, so the loop takes fuel; \<open>None\<close>
  is fuel used up.
\<close>

section \<open>Requests and pages\<close>

record raw_event = event_response +
  reId :: "string option"
  reIndex :: "int option"
  rePagingToken :: "string option"

record event_page =
  pgEvents :: "raw_event list"
  pgLatest :: "int option"
  pgCursor :: "string option"

record event_request =
  reqStart :: "int option"
  reqContracts :: "string list"
  reqTopics :: "string list list"
  reqLimit :: nat
  reqCursor :: "string option"

record 'w event_env =
  getEvents :: "event_request \<Rightarrow> ('w, thrown, event_page) act"
  getLatestLedger :: "('w, thrown, int) act"
  symbolXdr :: "string \<Rightarrow> string"

record cursor_options =
  defaultWindow :: int
  defaultLimit :: rat

record cursor_state =
  cursorAt :: "int option"

record page_info =
  piStart :: int
  piEnd :: int
  piIndex :: "int option"
  piLimit :: nat
  piHasMore :: bool
  piNext :: "string option"

record scan_result =
  scanEvents :: "raw_event list"
  scanInfo :: page_info
  scanTruncated :: bool

definition MIN_START_LEDGER :: int where
  "MIN_START_LEDGER = 1"

definition MAX_EVENT_LIMIT :: rat where
  "MAX_EVENT_LIMIT = 10000"

definition newCursorOptions :: "int option \<Rightarrow> rat option \<Rightarrow> cursor_options" where
  "newCursorOptions window n = \<lparr>defaultWindow = (case window of None \<Rightarrow> 1000 | Some x \<Rightarrow> x),
     defaultLimit = (case n of None \<Rightarrow> 200 | Some x \<Rightarrow> x)\<rparr>"

definition reset :: "'x cursor_state_scheme \<Rightarrow> 'x cursor_state_scheme" where
  "reset w = w\<lparr>cursorAt := None\<rparr>"

section \<open>Scanning\<close>

definition anchorIfNeeded :: "('x cursor_state_scheme) event_env \<Rightarrow> cursor_options \<Rightarrow> ('x cursor_state_scheme, thrown, unit) act" where
  "anchorIfNeeded e opts w = (if cursorAt w \<noteq> None then (Inr (), w)
     else bindW (getLatestLedger e) (\<lambda>latest w1.
       (Inr (), w1\<lparr>cursorAt := Some (max MIN_START_LEDGER (latest - defaultWindow opts))\<rparr>)) w)"

definition encodeTopics :: "(string \<Rightarrow> string) \<Rightarrow> string list option \<Rightarrow> string list list" where
  "encodeTopics xdr topics = (case topics of None \<Rightarrow> [] | Some ts \<Rightarrow> if ts = [] then [] else [map xdr ts])"

definition ledger_text :: "int option \<Rightarrow> string" where
  "ledger_text l = (case l of None \<Rightarrow> ''undefined'' | Some n \<Rightarrow> int_str n)"

definition eventKey :: "raw_event \<Rightarrow> nat \<Rightarrow> string" where
  "eventKey ev pageIndex = (case reId ev of
       Some (c # cs) \<Rightarrow> ''id:'' @ c # cs
     | _ \<Rightarrow> (case reIndex ev of
           Some k \<Rightarrow> ''pos:'' @ ledger_text (erLedger ev) @ '':'' @ int_str k
         | None \<Rightarrow> ''page:'' @ ledger_text (erLedger ev) @ '':'' @ nat_str pageIndex))"

text \<open>What a page adds: everything, or on a second reading of a ledger only what is new.\<close>

definition new_events :: "string list option \<Rightarrow> int \<Rightarrow> raw_event list \<Rightarrow> raw_event list" where
  "new_events carried start evs = (case carried of None \<Rightarrow> evs
     | Some keys \<Rightarrow> map fst (filter (\<lambda>(ev, i). \<not> (case erLedger ev of Some l \<Rightarrow> l < start | None \<Rightarrow> False) \<and>
         eventKey ev i \<notin> set keys) (zip evs [0..<length evs])))"

definition carried_keys :: "int \<Rightarrow> raw_event list \<Rightarrow> string list" where
  "carried_keys l evs = map (\<lambda>(ev, i). eventKey ev i)
     (filter (\<lambda>(ev, _). erLedger ev = Some l) (zip evs [0..<length evs]))"

definition page_cursor :: "event_page \<Rightarrow> string option" where
  "page_cursor p = (if pgCursor p \<noteq> None \<and> pgCursor p \<noteq> Some [] then pgCursor p else rePagingToken (last (pgEvents p)))"

definition last_ledger :: "event_page \<Rightarrow> int option" where
  "last_ledger p = (case erLedger (last (pgEvents p)) of Some l \<Rightarrow> Some l | None \<Rightarrow> pgLatest p)"

record scan_vars =
  svStart :: int
  svCursor :: "string option"
  svCarried :: "string list option"
  svEvents :: "raw_event list"
  svInfo :: page_info

datatype scan_step = Done scan_vars | More scan_vars

text \<open>The body of the loop after a page has arrived, with the cursor the object keeps.\<close>

definition takePage :: "nat \<Rightarrow> int option \<Rightarrow> event_page \<Rightarrow> scan_vars \<Rightarrow> scan_step \<times> int option" where
  "takePage n toLedger p v =
    (if pgEvents p = [] then (Done v, pgLatest p)
     else (let evs = pgEvents p; fresh = new_events (svCarried v) (svStart v) evs; v1 = v\<lparr>svEvents := svEvents v @ fresh\<rparr>
       in case last_ledger p of None \<Rightarrow> (Done v1, None)
       | Some l \<Rightarrow> (let next = page_cursor p;
           v2 = v1\<lparr>svInfo := \<lparr>piStart = svStart v, piEnd = l, piIndex = reIndex (last evs), piLimit = n,
             piHasMore = (n \<le> length evs), piNext = next\<rparr>\<rparr>;
           truthy_next = (next \<noteq> None \<and> next \<noteq> Some [])
         in if truthy_next \<and> next = svCursor v then (Done v2, None)
            else (let v3 = (if truthy_next then v2\<lparr>svCursor := next, svCarried := None\<rparr>
                   else v2\<lparr>svStart := l, svCarried := Some (carried_keys l evs)\<rparr>)
              in ((if (case toLedger of Some t \<Rightarrow> t < l | None \<Rightarrow> False) \<or> length evs < n \<or> fresh = []
                   then Done v3 else More v3), Some l)))))"

definition page_request :: "nat \<Rightarrow> string list \<Rightarrow> string list list \<Rightarrow> scan_vars \<Rightarrow> event_request" where
  "page_request n contracts topics v = \<lparr>reqStart = (if svCursor v = None then Some (svStart v) else None),
     reqContracts = contracts, reqTopics = topics, reqLimit = n, reqCursor = svCursor v\<rparr>"

definition keep_cursor :: "int option \<Rightarrow> 'x cursor_state_scheme \<Rightarrow> 'x cursor_state_scheme" where
  "keep_cursor c w = (case c of None \<Rightarrow> w | Some l \<Rightarrow> w\<lparr>cursorAt := Some l\<rparr>)"

fun scanLoop :: "('x cursor_state_scheme) event_env \<Rightarrow> nat \<Rightarrow> string list \<Rightarrow> string list list \<Rightarrow> int option \<Rightarrow> nat \<Rightarrow>
    scan_vars \<Rightarrow> 'x cursor_state_scheme \<Rightarrow> ((thrown + scan_vars) \<times> 'x cursor_state_scheme) option" where
  "scanLoop e n contracts topics toLedger 0 v w = None"
| "scanLoop e n contracts topics toLedger (Suc m) v w = (case getEvents e (page_request n contracts topics v) w of
       (Inl err, w1) \<Rightarrow> Some (Inl err, w1)
     | (Inr p, w1) \<Rightarrow> (case takePage n toLedger p v of
           (Done v', c) \<Rightarrow> Some (Inr v', keep_cursor c w1)
         | (More v', c) \<Rightarrow> scanLoop e n contracts topics toLedger m v' (keep_cursor c w1)))"

record scan_params =
  spContracts :: "string list option"
  spTopics :: "string list option"
  spFrom :: "int option"
  spTo :: "int option"
  spLimit :: "rat option"

definition scan_start :: "nat \<Rightarrow> int \<Rightarrow> scan_vars" where
  "scan_start n start = \<lparr>svStart = start, svCursor = None, svCarried = None, svEvents = [],
     svInfo = \<lparr>piStart = start, piEnd = start, piIndex = None, piLimit = n, piHasMore = False, piNext = None\<rparr>\<rparr>"

definition scan_answer :: "nat \<Rightarrow> scan_vars \<Rightarrow> scan_result" where
  "scan_answer n v = \<lparr>scanEvents = svEvents v, scanInfo = svInfo v,
     scanTruncated = piHasMore (svInfo v) \<or> n \<le> length (svEvents v)\<rparr>"

definition scan :: "('x cursor_state_scheme) event_env \<Rightarrow> cursor_options \<Rightarrow> nat \<Rightarrow> scan_params \<Rightarrow> 'x cursor_state_scheme \<Rightarrow>
    ((thrown + scan_result) \<times> 'x cursor_state_scheme) option" where
  "scan e opts fuel ps w =
    (case (if spFrom ps = None then anchorIfNeeded e opts w else (Inr (), w)) of
       (Inl err, w1) \<Rightarrow> Some (Inl err, w1)
     | (Inr _, w1) \<Rightarrow>
        (let k = (case spLimit ps of None \<Rightarrow> defaultLimit opts | Some x \<Rightarrow> x)
         in if k \<noteq> of_int \<lfloor>k\<rfloor> \<or> k < 1 \<or> MAX_EVENT_LIMIT < k
            then Some (Inl (Sdk (ValidationError ''limit must be an integer between 1 and 10000'')), w1)
            else (let n = nat \<lfloor>k\<rfloor>; start = (case spFrom ps of Some l \<Rightarrow> l | None \<Rightarrow> the (cursorAt w1))
              in map_option (\<lambda>(r, w2). (map_sum id (scan_answer n) r, w2))
                   (scanLoop e n (case spContracts ps of None \<Rightarrow> [] | Some cs \<Rightarrow> cs) (encodeTopics (symbolXdr e) (spTopics ps))
                      (spTo ps) fuel (scan_start n start) w1))))"

section \<open>The typed cursor\<close>

record typed_cursor =
  tcContract :: "string option"
  tcTopics :: "string list option"
  tcOptions :: cursor_options

definition tc_contracts :: "typed_cursor \<Rightarrow> string list" where
  "tc_contracts c = (case tcContract c of None \<Rightarrow> [] | Some i \<Rightarrow> if i = [] then [] else [i])"

definition typedScan :: "addr_decoder \<Rightarrow> ('x cursor_state_scheme) event_env \<Rightarrow> typed_cursor \<Rightarrow> nat \<Rightarrow> int option \<Rightarrow> int option \<Rightarrow>
    rat option \<Rightarrow> 'x cursor_state_scheme \<Rightarrow>
    ((thrown + coral_event list \<times> page_info) \<times> 'x cursor_state_scheme) option" where
  "typedScan addr e c fuel from to most w = map_option (\<lambda>(r, w1). (map_sum id (\<lambda>s.
       (List.map_filter (\<lambda>ev. fromEventResponse addr (tc_contracts c) (event_response.truncate ev)) (scanEvents s), scanInfo s)) r, w1))
     (scan e (tcOptions c) fuel \<lparr>spContracts = Some (tc_contracts c), spTopics = tcTopics c, spFrom = from, spTo = to,
        spLimit = most\<rparr> w)"

section \<open>A server over a log\<close>

text \<open>The documented behaviour of the server over a fixed log: a page is the next events of the log, from the
  ledger asked for or from the position the cursor names. \<open>cursors\<close> says whether it hands out cursors.\<close>

definition led :: "raw_event \<Rightarrow> int" where
  "led ev = the (erLedger ev)"

definition good_log :: "raw_event list \<Rightarrow> bool" where
  "good_log xs \<longleftrightarrow> list_all (\<lambda>ev. erLedger ev \<noteq> None \<and> reId ev \<noteq> None \<and> reId ev \<noteq> Some []) xs \<and>
     sorted (map led xs) \<and> distinct (map reId xs)"

definition position :: "raw_event list \<Rightarrow> int \<Rightarrow> nat" where
  "position xs l = length (takeWhile (\<lambda>ev. led ev < l) xs)"

definition log_page :: "bool \<Rightarrow> raw_event list \<Rightarrow> event_request \<Rightarrow> event_page" where
  "log_page cursors xs req = (let from = (case reqCursor req of Some c \<Rightarrow> parse_nat c | None \<Rightarrow> position xs (the (reqStart req)));
       evs = take (reqLimit req) (drop from xs)
     in \<lparr>pgEvents = evs, pgLatest = Some (if xs = [] then 1 else led (last xs)),
         pgCursor = (if cursors then Some (nat_str (from + length evs)) else None)\<rparr>)"

definition log_env :: "bool \<Rightarrow> raw_event list \<Rightarrow> ('x cursor_state_scheme) event_env" where
  "log_env cursors xs = \<lparr>getEvents = (\<lambda>req w. (Inr (log_page cursors xs req), w)),
     getLatestLedger = (\<lambda>w. (Inr (if xs = [] then 1 else led (last xs)), w)), symbolXdr = id\<rparr>"

definition within_ledger :: "int option \<Rightarrow> raw_event \<Rightarrow> bool" where
  "within_ledger to ev = (case to of None \<Rightarrow> True | Some t \<Rightarrow> led ev \<le> t)"

lemma nat_str_inj: "nat_str a = nat_str b \<longleftrightarrow> a = b"
  by (metis parse_nat_str)

lemma good_log_led: "good_log xs \<Longrightarrow> i < length xs \<Longrightarrow> erLedger (xs ! i) = Some (led (xs ! i))"
  by (auto simp: good_log_def list_all_length led_def)

lemma good_log_mono: "good_log xs \<Longrightarrow> i \<le> j \<Longrightarrow> j < length xs \<Longrightarrow> led (xs ! i) \<le> led (xs ! j)"
  using sorted_nth_mono[of "map led xs" i j] by (simp add: good_log_def)

lemma drop_position: "sorted (map led xs) \<Longrightarrow> drop (position xs s) xs = filter (\<lambda>ev. s \<le> led ev) xs"
proof (induction xs)
  case (Cons x xs)
  have "filter (\<lambda>ev. s \<le> led ev) xs = xs" if "s \<le> led x"
    by (rule filter_True) (use Cons.prems that in auto)
  then show ?case using Cons by (cases "led x < s") (auto simp: position_def)
qed (simp add: position_def)

lemma takePage_empty: "pgEvents p = [] \<Longrightarrow> takePage n to p v = (Done v, pgLatest p)"
  by (simp add: takePage_def)

lemma log_page_last:
  assumes "good_log xs" and "q < length xs" and "0 < n"
  shows "last (take n (drop q xs)) = xs ! (min (length xs) (q + n) - 1)"
    and "erLedger (last (take n (drop q xs))) = Some (led (xs ! (min (length xs) (q + n) - 1)))"
proof -
  show l: "last (take n (drop q xs)) = xs ! (min (length xs) (q + n) - 1)"
    using assms(2,3) by (subst last_conv_nth) (auto simp: min_def intro!: arg_cong[of _ _ "(!) xs"])
  show "erLedger (last (take n (drop q xs))) = Some (led (xs ! (min (length xs) (q + n) - 1)))"
    unfolding l using assms by (intro good_log_led) auto
qed

lemma beyond_ledger:
  assumes "good_log xs" and "m \<le> length xs" and "0 < m" and "t < led (xs ! (m - 1))"
  shows "filter (within_ledger (Some t)) (drop m xs) = []"
proof -
  have "t < led ev" if "ev \<in> set (drop m xs)" for ev
  proof -
    obtain i where "i < length (drop m xs)" "drop m xs ! i = ev" using \<open>ev \<in> set (drop m xs)\<close> by (meson in_set_conv_nth)
    then have "m + i < length xs" "ev = xs ! (m + i)" using assms(2) by auto
    moreover have "m - 1 \<le> m + i" by arith
    ultimately show ?thesis using good_log_mono[OF assms(1), of "m - 1" "m + i"] assms(4) by simp
  qed
  then show ?thesis by (fastforce simp: filter_empty_conv within_ledger_def)
qed

lemma take_segments:
  assumes "q \<le> k" and "k \<le> k'"
  shows "take (k' - q) (drop q xs) = take (k - q) (drop q xs) @ take (k' - k) (drop k xs)"
proof -
  have "k' - q = (k - q) + (k' - k)" using assms by linarith
  then have "take (k' - q) (drop q xs) = take (k - q) (drop q xs) @ take (k' - k) (drop (k - q) (drop q xs))"
    by (simp only: take_add)
  then show ?thesis using assms(1) by simp
qed

text \<open>With cursors, a scan from position \<open>q\<close> adds a prefix of what is left, up to the ledger asked for.\<close>

lemma cursor_loop:
  assumes xs: "good_log xs" and n: "0 < n"
  shows "length xs - q < m \<Longrightarrow> q \<le> length xs \<Longrightarrow> svCarried v = None \<Longrightarrow>
    svCursor v = Some (nat_str q) \<or> svCursor v = None \<and> position xs (svStart v) = q \<Longrightarrow>
    \<exists>v' w' k. scanLoop (log_env True xs) n cs tops to m v w = Some (Inr v', w') \<and> q \<le> k \<and>
      svEvents v' = svEvents v @ take (k - q) (drop q xs) \<and> filter (within_ledger to) (drop k xs) = []"
proof (induction m arbitrary: q v w)
  case (Suc m)
  let ?p = "log_page True xs (page_request n cs tops v)"
  have p: "?p = \<lparr>pgEvents = take n (drop q xs), pgLatest = Some (if xs = [] then 1 else led (last xs)),
      pgCursor = Some (nat_str (q + length (take n (drop q xs))))\<rparr>"
    using Suc.prems(4) by (auto simp: log_page_def page_request_def decimal_simps Let_def)
  show ?case
  proof (cases "q < length xs")
    case False
    then have "takePage n to ?p v = (Done v, pgLatest ?p)" by (simp add: p takePage_empty)
    then show ?thesis using False
      by (intro exI[of _ v] exI[of _ "keep_cursor (pgLatest ?p) w"] exI[of _ q]) (simp add: log_env_def)
  next
    case True
    let ?k = "min (length xs) (q + n)"
    have len: "length (take n (drop q xs)) = ?k - q" and k: "q < ?k" using True n by auto
    note last = log_page_last[OF xs True n]
    have ne: "take n (drop q xs) \<noteq> []" using True n by simp
    define v' where "v' = v\<lparr>svEvents := svEvents v @ take n (drop q xs), svInfo := \<lparr>piStart = svStart v,
      piEnd = led (xs ! (?k - 1)), piIndex = reIndex (xs ! (?k - 1)), piLimit = n, piHasMore = (n \<le> ?k - q),
      piNext = Some (nat_str ?k)\<rparr>, svCursor := Some (nat_str ?k), svCarried := None\<rparr>"
    have seg: "take n (drop q xs) = take (?k - q) (drop q xs)"
      by (cases "q + n \<le> length xs") simp_all
    have fresh: "svCursor v \<noteq> Some (nat_str ?k)" using Suc.prems(4) k nat_str_inj by auto
    define stop where "stop = ((case to of Some t \<Rightarrow> t < led (xs ! (?k - 1)) | None \<Rightarrow> False) \<or> ?k - q < n)"
    have step: "takePage n to ?p v = ((if stop then Done v' else More v'), Some (led (xs ! (?k - 1))))"
      using ne len last k fresh Suc.prems(3)
      by (auto simp: p takePage_def Let_def new_events_def last_ledger_def page_cursor_def v'_def stop_def split: option.splits)
    show ?thesis
    proof (cases stop)
      case True
      have "filter (within_ledger to) (drop ?k xs) = []"
      proof (cases "?k - q < n")
        case False
        then obtain t where "to = Some t" "t < led (xs ! (?k - 1))" using True by (auto simp: stop_def split: option.splits)
        moreover have "xs \<noteq> []" using k by auto
        ultimately show ?thesis using beyond_ledger[OF xs, of ?k t] k by simp
      qed (auto simp: min_def split: if_splits)
      then show ?thesis using step True k seg
        by (intro exI[of _ v'] exI[of _ "keep_cursor (Some (led (xs ! (?k - 1)))) w"] exI[of _ ?k])
          (simp add: log_env_def v'_def)
    next
      case False
      have "\<exists>v'' w' k'. scanLoop (log_env True xs) n cs tops to m v' (keep_cursor (Some (led (xs ! (?k - 1)))) w) =
          Some (Inr v'', w') \<and> ?k \<le> k' \<and> svEvents v'' = svEvents v' @ take (k' - ?k) (drop ?k xs) \<and>
          filter (within_ledger to) (drop k' xs) = []"
        using Suc.prems(1) k by (intro Suc.IH) (auto simp: v'_def)
      then obtain v'' w' k' where IH: "scanLoop (log_env True xs) n cs tops to m v' (keep_cursor (Some (led (xs ! (?k - 1)))) w) =
          Some (Inr v'', w')" "?k \<le> k'" "svEvents v'' = svEvents v' @ take (k' - ?k) (drop ?k xs)"
          "filter (within_ledger to) (drop k' xs) = []" by blast
      have "svEvents v'' = svEvents v @ take (k' - q) (drop q xs)"
        using IH(3) take_segments[of q ?k k' xs] IH(2) seg k by (simp add: v'_def)
      moreover have "q \<le> k'" using IH(2) k by linarith
      ultimately show ?thesis using step False IH(1,4)
        by (intro exI[of _ v''] exI[of _ w'] exI[of _ k']) (simp add: log_env_def)
    qed
  qed
qed simp

lemma scan_from:
  assumes "1 \<le> n" and "n \<le> 10000"
  shows "scan e opts fuel \<lparr>spContracts = cs, spTopics = ts, spFrom = Some s, spTo = to, spLimit = Some (of_nat n)\<rparr> w =
    map_option (\<lambda>(r, w2). (map_sum id (scan_answer n) r, w2))
      (scanLoop e n (case cs of None \<Rightarrow> [] | Some c \<Rightarrow> c) (encodeTopics (symbolXdr e) ts) to fuel (scan_start n s) w)"
proof -
  have "(of_nat n :: rat) \<le> 10000" using assms(2) by (metis of_nat_le_iff of_nat_numeral)
  then show ?thesis using assms by (simp add: scan_def MAX_EVENT_LIMIT_def Let_def not_less)
qed

lemma complete_scan:
  assumes "good_log xs" and "1 \<le> n" and "n \<le> 10000"
    and run: "scanLoop (log_env b xs) n (case cs of None \<Rightarrow> [] | Some c \<Rightarrow> c)
      (encodeTopics id ts) to fuel (scan_start n s) w =
      Some (Inr v', w')" "position xs s \<le> k" "svEvents v' = take (k - position xs s) (drop (position xs s) xs)"
      "filter (within_ledger to) (drop k xs) = []"
  shows "\<exists>r w'. scan (log_env b xs) opts fuel \<lparr>spContracts = cs, spTopics = ts, spFrom = Some s, spTo = to,
      spLimit = Some (of_nat n)\<rparr> w = Some (Inr r, w') \<and>
    prefix (scanEvents r) (filter (\<lambda>ev. s \<le> led ev) xs) \<and>
    filter (within_ledger to) (scanEvents r) = filter (\<lambda>ev. s \<le> led ev \<and> within_ledger to ev) xs"
proof -
  let ?p = "position xs s"
  let ?l = "drop ?p xs"
  have sorted: "sorted (map led xs)" using assms(1) by (simp add: good_log_def)
  have all: "?l = take (k - ?p) ?l @ drop k xs" using run(2) by (metis append_take_drop_id drop_drop le_add_diff_inverse2)
  have "filter (within_ledger to) (take (k - ?p) ?l) = filter (within_ledger to) ?l"
    using run(4) by (subst (2) all) simp
  also have "\<dots> = filter (\<lambda>ev. s \<le> led ev \<and> within_ledger to ev) xs"
    unfolding drop_position[OF sorted] by (simp add: conj_commute)
  finally have "filter (within_ledger to) (scanEvents (scan_answer n v')) = filter (\<lambda>ev. s \<le> led ev \<and> within_ledger to ev) xs"
    by (simp add: scan_answer_def run(3))
  moreover have "prefix (scanEvents (scan_answer n v')) (filter (\<lambda>ev. s \<le> led ev) xs)"
    unfolding drop_position[OF sorted, symmetric] by (simp add: scan_answer_def run(3) take_is_prefix)
  ultimately show ?thesis using run(1) assms(2,3)
    by (intro exI[of _ "scan_answer n v'"] exI[of _ w']) (simp add: scan_from log_env_def)
qed

lemma scan_of_log:
  assumes "good_log xs" and "1 \<le> n" and "n \<le> 10000" and "length xs < fuel"
  shows "\<exists>r w'. scan (log_env True xs) opts fuel \<lparr>spContracts = cs, spTopics = ts, spFrom = Some s, spTo = to,
      spLimit = Some (of_nat n)\<rparr> w = Some (Inr r, w') \<and>
    prefix (scanEvents r) (filter (\<lambda>ev. s \<le> led ev) xs) \<and>
    filter (within_ledger to) (scanEvents r) = filter (\<lambda>ev. s \<le> led ev \<and> within_ledger to ev) xs"
proof -
  have "position xs s \<le> length xs" by (simp add: position_def length_takeWhile_le)
  then obtain v' w' k where "scanLoop (log_env True xs) n (case cs of None \<Rightarrow> [] | Some c \<Rightarrow> c)
      (encodeTopics id ts) to fuel (scan_start n s) w =
      Some (Inr v', w')" "position xs s \<le> k" "svEvents v' = take (k - position xs s) (drop (position xs s) xs)"
      "filter (within_ledger to) (drop k xs) = []"
    using cursor_loop[OF assms(1), of n "position xs s" fuel "scan_start n s"] assms(2,4)
    by (fastforce simp: scan_start_def)
  then show ?thesis by (rule complete_scan[OF assms(1,2,3)])
qed

text \<open>C11: Against a server that hands out cursors a scan returns every event from the start on, once and in
  order, up to the last ledger asked for; what it returns beyond that ledger is the rest of the last page.\<close>

theorem scan_complete:
  assumes "good_log xs" and "1 \<le> n" and "n \<le> 10000" and "length xs < fuel"
  shows "\<exists>r w'. scan (log_env True xs) opts fuel \<lparr>spContracts = cs, spTopics = ts, spFrom = Some s, spTo = to,
      spLimit = Some (of_nat n)\<rparr> w = Some (Inr r, w') \<and>
    prefix (scanEvents r) (filter (\<lambda>ev. s \<le> led ev) xs) \<and>
    filter (within_ledger to) (scanEvents r) = filter (\<lambda>ev. s \<le> led ev \<and> within_ledger to ev) xs"
  by (rule scan_of_log[OF assms])

definition three_events :: "raw_event list" where
  "three_events = map (\<lambda>(l, i). \<lparr>erSuccessful = None, erContract = None, erTopic = None, erValue = None,
     erTxHash = None, erLedger = Some l, erClosedMs = None, reId = Some i, reIndex = None, rePagingToken = None\<rparr>) [(4, ''a''), (5, ''b''), (5, ''c'')]"

theorem scan_complete_witness:
  "\<exists>r w'. scan (log_env True three_events) (newCursorOptions None None) 4 \<lparr>spContracts = None, spTopics = None,
      spFrom = Some 5, spTo = None, spLimit = Some (of_nat 3)\<rparr> \<lparr>cursorAt = None\<rparr> = Some (Inr r, w') \<and>
    prefix (scanEvents r) (filter (\<lambda>ev. 5 \<le> led ev) three_events) \<and>
    filter (within_ledger None) (scanEvents r) = filter (\<lambda>ev. 5 \<le> led ev \<and> within_ledger None ev) three_events"
  by (rule scan_complete) (simp_all add: three_events_def good_log_def led_def)

section \<open>A server without cursors\<close>

lemma position_le: "position xs l \<le> length xs"
  by (simp add: position_def length_takeWhile_le)

lemma position_less_iff:
  assumes "good_log xs" and "i < length xs"
  shows "i < position xs l \<longleftrightarrow> led (xs ! i) < l"
proof
  assume "i < position xs l"
  then show "led (xs ! i) < l" unfolding position_def
    by (metis nth_mem set_takeWhileD takeWhile_nth)
next
  assume l: "led (xs ! i) < l"
  show "i < position xs l"
  proof (rule ccontr)
    assume "\<not> i < position xs l"
    then have le: "position xs l \<le> i" by simp
    then have "\<not> led (xs ! position xs l) < l" unfolding position_def using assms(2)
      by (intro nth_length_takeWhile) (auto simp: position_def)
    then show False using good_log_mono[OF assms(1) le assms(2)] l by simp
  qed
qed

definition key_of :: "raw_event \<Rightarrow> string" where
  "key_of ev = ''id:'' @ the (reId ev)"

lemma eventKey_good: "good_log xs \<Longrightarrow> j < length xs \<Longrightarrow> eventKey (xs ! j) i = key_of (xs ! j)"
  by (auto simp: good_log_def list_all_length eventKey_def key_of_def split: option.splits list.splits)

lemma key_of_inj:
  assumes "good_log xs" and "i < length xs" and "j < length xs"
  shows "key_of (xs ! i) = key_of (xs ! j) \<longleftrightarrow> i = j"
proof -
  have "reId (xs ! i) \<noteq> None" "reId (xs ! j) \<noteq> None" using assms by (auto simp: good_log_def list_all_length)
  moreover have "reId (xs ! i) = reId (xs ! j) \<longleftrightarrow> i = j"
    using nth_eq_iff_index_eq[of "map reId xs" i j] assms by (simp add: good_log_def)
  ultimately show ?thesis by (auto simp: key_of_def)
qed

text \<open>A list filtered by the index of its elements.\<close>

lemma filter_from_index:
  assumes "\<And>i. i < length ys \<Longrightarrow> P (ys ! i) i \<longleftrightarrow> k \<le> i"
  shows "map fst (filter (\<lambda>(y, i). P y i) (zip ys [0..<length ys])) = drop k ys"
  using assms
proof (induction ys rule: rev_induct)
  case (snoc y ys)
  have "map fst (filter (\<lambda>(y, i). P y i) (zip ys [0..<length ys])) = drop k ys"
  proof (rule snoc.IH)
    show "P (ys ! i) i \<longleftrightarrow> k \<le> i" if "i < length ys" for i using snoc.prems[of i] that by (simp add: nth_append)
  qed
  then show ?case using snoc.prems[of "length ys"] by (auto simp: not_le)
qed simp

lemma reread_fresh:
  assumes xs: "good_log xs" and q: "position xs l \<le> q" "q \<le> length xs"
    and keys: "set keys = {key_of (xs ! j) | j. position xs l \<le> j \<and> j < q}"
  shows "new_events (Some keys) l (take n (drop (position xs l) xs)) = drop (q - position xs l) (take n (drop (position xs l) xs))"
proof -
  let ?p = "position xs l" and ?ys = "take n (drop (position xs l) xs)"
  have "(\<not> (case erLedger (?ys ! i) of Some m \<Rightarrow> m < l | None \<Rightarrow> False) \<and> eventKey (?ys ! i) i \<notin> set keys) \<longleftrightarrow> q - ?p \<le> i"
    if "i < length ?ys" for i
  proof -
    have i: "?p + i < length xs" "?ys ! i = xs ! (?p + i)" using that by auto
    have "\<not> led (xs ! (?p + i)) < l" using position_less_iff[OF xs i(1), of l] by simp
    moreover have "key_of (xs ! (?p + i)) \<in> set keys \<longleftrightarrow> ?p + i < q"
    proof -
      have "key_of (xs ! (?p + i)) = key_of (xs ! j) \<longleftrightarrow> ?p + i = j" if "j < q" for j
        using key_of_inj[OF xs i(1), of j] that q(2) by simp
      then show ?thesis unfolding keys by (auto intro!: exI[of _ "?p + i"])
    qed
    ultimately show ?thesis using i good_log_led[OF xs i(1)] eventKey_good[OF xs i(1)] by auto
  qed
  then show ?thesis unfolding new_events_def option.case by (rule filter_from_index)
qed

lemma set_carried_keys:
  "set (carried_keys l ys) = {eventKey (ys ! i) i | i. i < length ys \<and> erLedger (ys ! i) = Some l}"
proof -
  have "set (zip ys [0..<length ys]) = {(ys ! i, i) | i. i < length ys}" by (auto simp: set_zip)
  then show ?thesis unfolding carried_keys_def set_map set_filter by auto
qed

lemma carried_keys_last:
  assumes xs: "good_log xs" and p: "p \<le> position xs l" and k: "position xs l \<le> k" "k \<le> length xs" "k \<le> p + n"
    and l: "\<And>j. p \<le> j \<Longrightarrow> j < k \<Longrightarrow> led (xs ! j) \<le> l" and len: "k - p = length (take n (drop p xs))"
  shows "set (carried_keys l (take n (drop p xs))) = {key_of (xs ! j) | j. position xs l \<le> j \<and> j < k}"
proof -
  let ?ys = "take n (drop p xs)"
  have nth: "?ys ! i = xs ! (p + i)" "p + i < length xs" "p + i < k" if "i < length ?ys" for i using that len by auto
  have "set (carried_keys l ?ys) = {eventKey (?ys ! i) i | i. i < length ?ys \<and> erLedger (?ys ! i) = Some l}"
    by (rule set_carried_keys)
  also have "\<dots> = {key_of (xs ! (p + i)) | i. i < length ?ys \<and> position xs l \<le> p + i}"
  proof -
    have "erLedger (?ys ! i) = Some l \<longleftrightarrow> position xs l \<le> p + i" if "i < length ?ys" for i
      using nth[OF that] good_log_led[OF xs nth(2)[OF that]] position_less_iff[OF xs nth(2)[OF that], of l] l[of "p + i"]
      by auto
    moreover have "eventKey (?ys ! i) i = key_of (xs ! (p + i))" if "i < length ?ys" for i
      using nth[OF that] eventKey_good[OF xs] by simp
    ultimately show ?thesis by (intro Collect_cong) metis
  qed
  also have "\<dots> = {key_of (xs ! j) | j. position xs l \<le> j \<and> j < k}"
  proof (intro equalityI subsetI)
    fix x assume "x \<in> {key_of (xs ! (p + i)) | i. i < length ?ys \<and> position xs l \<le> p + i}"
    then obtain i where "x = key_of (xs ! (p + i))" "i < length ?ys" "position xs l \<le> p + i" by blast
    then show "x \<in> {key_of (xs ! j) | j. position xs l \<le> j \<and> j < k}" using nth(3) by blast
  next
    fix x assume "x \<in> {key_of (xs ! j) | j. position xs l \<le> j \<and> j < k}"
    then obtain j where j: "x = key_of (xs ! j)" "position xs l \<le> j" "j < k" by blast
    then have "p + (j - p) = j" "j - p < length ?ys" using p len by linarith+
    then show "x \<in> {key_of (xs ! (p + i)) | i. i < length ?ys \<and> position xs l \<le> p + i}"
      using j by (intro CollectI exI[of _ "j - p"]) simp
  qed
  finally show ?thesis .
qed

lemma ledger_run:
  assumes "p \<le> q" "q \<le> length xs" "\<And>j. p \<le> j \<Longrightarrow> j < q \<Longrightarrow> led (xs ! j) = l"
  shows "q - p \<le> length (filter (\<lambda>ev. led ev = l) xs)"
proof -
  let ?ys = "take (q - p) (drop p xs)"
  have "led ev = l" if "ev \<in> set ?ys" for ev
  proof -
    obtain i where "i < length ?ys" "?ys ! i = ev" using \<open>ev \<in> set ?ys\<close> by (meson in_set_conv_nth)
    then show ?thesis using assms(3)[of "p + i"] by auto
  qed
  then have "filter (\<lambda>ev. led ev = l) ?ys = ?ys" by simp
  moreover have "xs = take p xs @ ?ys @ drop (q - p) (drop p xs)" by (simp only: append_take_drop_id)
  then have "filter (\<lambda>ev. led ev = l) xs = filter (\<lambda>ev. led ev = l) (take p xs) @ filter (\<lambda>ev. led ev = l) ?ys @
      filter (\<lambda>ev. led ev = l) (drop (q - p) (drop p xs))" by (metis filter_append)
  ultimately show ?thesis using assms(1,2) by simp
qed

definition uncut :: "nat \<Rightarrow> raw_event list \<Rightarrow> bool" where
  "uncut n xs \<longleftrightarrow> (\<forall>l. length (filter (\<lambda>ev. led ev = l) xs) < n) \<and> list_all (\<lambda>ev. rePagingToken ev = None) xs"

definition reread :: "raw_event list \<Rightarrow> nat \<Rightarrow> scan_vars \<Rightarrow> bool" where
  "reread xs q v \<longleftrightarrow> svCursor v = None \<and> position xs (svStart v) \<le> q \<and> q \<le> length xs \<and>
     (case svCarried v of None \<Rightarrow> q = position xs (svStart v)
      | Some keys \<Rightarrow> set keys = {key_of (xs ! j) | j. position xs (svStart v) \<le> j \<and> j < q}) \<and>
     (\<forall>j. position xs (svStart v) \<le> j \<and> j < q \<longrightarrow> led (xs ! j) = svStart v)"

lemma reread_new:
  assumes "good_log xs" and "reread xs q v"
  shows "new_events (svCarried v) (svStart v) (take n (drop (position xs (svStart v)) xs)) =
    drop (q - position xs (svStart v)) (take n (drop (position xs (svStart v)) xs))"
  using assms by (cases "svCarried v") (auto simp: reread_def new_events_def[of None] intro: reread_fresh)

lemma reread_count:
  assumes "uncut n xs" and "reread xs q v"
  shows "q - position xs (svStart v) < n"
proof -
  have "q - position xs (svStart v) \<le> length (filter (\<lambda>ev. led ev = svStart v) xs)"
    using assms(2) by (intro ledger_run) (auto simp: reread_def)
  also have "\<dots> < n" using assms(1) by (simp add: uncut_def)
  finally show ?thesis .
qed

text \<open>The next page leaves the loop variables in the same relation, with everything up to its end returned.\<close>

lemma reread_step:
  assumes xs: "good_log xs" and v: "reread xs q v" and p: "p = position xs (svStart v)" and k: "k = min (length xs) (p + n)"
    and q: "q < k" and l: "l = led (xs ! (k - 1))" and v': "svStart v' = l" "svCursor v' = None"
      "svCarried v' = Some (carried_keys l (take n (drop p xs)))"
  shows "reread xs k v'"
proof -
  have k1: "k - 1 < length xs" "k \<le> length xs" using q k by auto
  have le: "led (xs ! j) \<le> l" if "j < k" for j unfolding l using that k1 by (intro good_log_mono[OF xs]) auto
  have pos: "position xs l \<le> k"
  proof -
    have "\<not> k - 1 < position xs l" using position_less_iff[OF xs k1(1), of l] l by simp
    then show ?thesis by linarith
  qed
  have pp: "p \<le> position xs l"
  proof -
    have "svStart v \<le> l"
    proof -
      have "p \<le> q" using v by (simp add: reread_def p)
      then have "p \<le> k - 1" using q by linarith
      then have "\<not> led (xs ! (k - 1)) < svStart v" using position_less_iff[OF xs k1(1), of "svStart v"] p by simp
      then show ?thesis by (simp add: l)
    qed
    have "p \<le> i" if "i = position xs l" for i
    proof (rule ccontr)
      assume "\<not> p \<le> i"
      then have i: "i < p" "i < length xs" using position_le[of xs "svStart v"] p by auto
      then have "led (xs ! i) < svStart v" using position_less_iff[OF xs i(2)] p by simp
      then have "i < position xs l" using position_less_iff[OF xs i(2), of l] \<open>svStart v \<le> l\<close> by simp
      then show False using that by simp
    qed
    then show ?thesis by simp
  qed
  have "set (carried_keys l (take n (drop p xs))) = {key_of (xs ! j) | j. position xs l \<le> j \<and> j < k}"
    using pp pos k k1 le by (intro carried_keys_last[OF xs]) auto
  moreover have "led (xs ! j) = l" if "position xs l \<le> j" "j < k" for j
    using le[OF that(2)] position_less_iff[OF xs, of j l] that k1 by simp
  ultimately show ?thesis using v' pos k1 by (simp add: reread_def)
qed

lemma plain_loop:
  assumes xs: "good_log xs" and n: "uncut n xs"
  shows "length xs - q < m \<Longrightarrow> reread xs q v \<Longrightarrow>
    \<exists>v' w' k. scanLoop (log_env False xs) n cs tops to m v w = Some (Inr v', w') \<and> q \<le> k \<and>
      svEvents v' = svEvents v @ take (k - q) (drop q xs) \<and> filter (within_ledger to) (drop k xs) = []"
proof (induction m arbitrary: q v w)
  case (Suc m)
  let ?p = "position xs (svStart v)"
  let ?pg = "log_page False xs (page_request n cs tops v)"
  have v: "svCursor v = None" "?p \<le> q" "q \<le> length xs" using Suc.prems(2) by (auto simp: reread_def)
  have pg: "?pg = \<lparr>pgEvents = take n (drop ?p xs), pgLatest = Some (if xs = [] then 1 else led (last xs)), pgCursor = None\<rparr>"
    using v by (simp add: log_page_def page_request_def Let_def)
  have count: "q - ?p < n" by (rule reread_count[OF n Suc.prems(2)])
  show ?case
  proof (cases "?p < length xs")
    case False
    then have "takePage n to ?pg v = (Done v, pgLatest ?pg)" by (simp add: pg takePage_empty)
    then show ?thesis using False v
      by (intro exI[of _ v] exI[of _ "keep_cursor (pgLatest ?pg) w"] exI[of _ q]) (simp add: log_env_def)
  next
    case True
    let ?k = "min (length xs) (?p + n)"
    define l where "l = led (xs ! (?k - 1))"
    have n0: "0 < n" using count by simp
    have len: "length (take n (drop ?p xs)) = ?k - ?p" and k: "?p < ?k" "q \<le> ?k" using True n0 count v by auto
    note last = log_page_last[OF xs True n0]
    have ne: "take n (drop ?p xs) \<noteq> []" using True n0 by simp
    have tok: "rePagingToken (xs ! (?k - 1)) = None" using n k by (auto simp: uncut_def list_all_length)
    define fresh where "fresh = drop (q - ?p) (take n (drop ?p xs))"
    have new: "new_events (svCarried v) (svStart v) (take n (drop ?p xs)) = fresh"
      unfolding fresh_def by (rule reread_new[OF xs Suc.prems(2)])
    have fresh: "fresh = take (?k - q) (drop q xs)" "fresh = [] \<longleftrightarrow> q = ?k"
    proof -
      have "fresh = take (n - (q - ?p)) (drop q xs)" using v(2) by (simp add: fresh_def drop_take)
      also have "\<dots> = take (?k - q) (drop q xs)"
        using v count by (cases "?p + n \<le> length xs") (auto simp: add.commute)
      finally show "fresh = take (?k - q) (drop q xs)" .
      then show "fresh = [] \<longleftrightarrow> q = ?k" using k(2) by auto
    qed
    define v' where "v' = v\<lparr>svEvents := svEvents v @ fresh, svInfo := \<lparr>piStart = svStart v, piEnd = l,
      piIndex = reIndex (xs ! (?k - 1)), piLimit = n, piHasMore = (n \<le> ?k - ?p), piNext = None\<rparr>,
      svStart := l, svCarried := Some (carried_keys l (take n (drop ?p xs)))\<rparr>"
    define stop where "stop = ((case to of Some t \<Rightarrow> t < l | None \<Rightarrow> False) \<or> ?k - ?p < n \<or> fresh = [])"
    have step: "takePage n to ?pg v = ((if stop then Done v' else More v'), Some l)"
      using ne len last tok v(1)
      by (auto simp: pg takePage_def Let_def new last_ledger_def page_cursor_def v'_def stop_def l_def split: option.splits)
    show ?thesis
    proof (cases stop)
      case True
      have "filter (within_ledger to) (drop ?k xs) = []"
      proof (cases "?k = length xs")
        case False
        then have "\<not> ?k - ?p < n" "q \<noteq> ?k" using count by auto
        then obtain t where "to = Some t" "t < led (xs ! (?k - 1))" using True fresh(2) by (auto simp: stop_def l_def split: option.splits)
        moreover have "xs \<noteq> []" "0 < ?k" using k(1) by auto
        ultimately show ?thesis using beyond_ledger[OF xs, of ?k t] by simp
      qed simp
      then show ?thesis using step True k fresh(1)
        by (intro exI[of _ v'] exI[of _ "keep_cursor (Some l) w"] exI[of _ ?k]) (simp add: log_env_def v'_def)
    next
      case False
      have q: "q < ?k" using False fresh(2) k(2) by (auto simp: stop_def)
      have inv: "reread xs ?k v'"
        by (rule reread_step[OF xs Suc.prems(2) refl refl q l_def]) (simp_all add: v'_def v)
      have "\<exists>v'' w' k'. scanLoop (log_env False xs) n cs tops to m v' (keep_cursor (Some l) w) =
          Some (Inr v'', w') \<and> ?k \<le> k' \<and> svEvents v'' = svEvents v' @ take (k' - ?k) (drop ?k xs) \<and>
          filter (within_ledger to) (drop k' xs) = []"
        using Suc.prems(1) q by (intro Suc.IH inv) auto
      then obtain v'' w' k' where IH: "scanLoop (log_env False xs) n cs tops to m v' (keep_cursor (Some l) w) =
          Some (Inr v'', w')" "?k \<le> k'" "svEvents v'' = svEvents v' @ take (k' - ?k) (drop ?k xs)"
          "filter (within_ledger to) (drop k' xs) = []" by blast
      have "svEvents v'' = svEvents v @ take (k' - q) (drop q xs)"
        using IH(3) fresh(1) take_segments[of q ?k k' xs] IH(2) q by (simp add: v'_def)
      moreover have "q \<le> k'" using IH(2) q by linarith
      ultimately show ?thesis using step False IH(1,4)
        by (intro exI[of _ v''] exI[of _ w'] exI[of _ k']) (simp add: log_env_def)
    qed
  qed
qed simp

theorem scan_without_cursors:
  assumes "good_log xs" and "uncut n xs" and "1 \<le> n" and "n \<le> 10000" and "length xs < fuel"
  shows "\<exists>r w'. scan (log_env False xs) opts fuel \<lparr>spContracts = cs, spTopics = ts, spFrom = Some s, spTo = to,
      spLimit = Some (of_nat n)\<rparr> w = Some (Inr r, w') \<and>
    prefix (scanEvents r) (filter (\<lambda>ev. s \<le> led ev) xs) \<and>
    filter (within_ledger to) (scanEvents r) = filter (\<lambda>ev. s \<le> led ev \<and> within_ledger to ev) xs"
proof -
  have "reread xs (position xs s) (scan_start n s)" by (auto simp: reread_def scan_start_def position_le)
  then obtain v' w' k where "scanLoop (log_env False xs) n (case cs of None \<Rightarrow> [] | Some c \<Rightarrow> c)
      (encodeTopics id ts) to fuel (scan_start n s) w =
      Some (Inr v', w')" "position xs s \<le> k" "svEvents v' = take (k - position xs s) (drop (position xs s) xs)"
      "filter (within_ledger to) (drop k xs) = []"
    using plain_loop[OF assms(1,2), of "position xs s" fuel "scan_start n s"] assms(5)
    by (fastforce simp: scan_start_def)
  then show ?thesis by (rule complete_scan[OF assms(1,3,4)])
qed

theorem scan_without_cursors_witness:
  "\<exists>r w'. scan (log_env False three_events) (newCursorOptions None None) 4 \<lparr>spContracts = None, spTopics = None,
      spFrom = Some 5, spTo = None, spLimit = Some (of_nat 3)\<rparr> \<lparr>cursorAt = None\<rparr> = Some (Inr r, w') \<and>
    prefix (scanEvents r) (filter (\<lambda>ev. 5 \<le> led ev) three_events) \<and>
    filter (within_ledger None) (scanEvents r) = filter (\<lambda>ev. 5 \<le> led ev \<and> within_ledger None ev) three_events"
  by (rule scan_without_cursors) (simp_all add: three_events_def good_log_def led_def uncut_def)

text \<open>A ledger that fills a page on its own cannot be read past without cursors: the page is the same again,
  nothing in it is new, and the scan ends with the rest of that ledger and all later ones missing.\<close>

theorem full_ledger_stops:
  assumes xs: "good_log xs" and "1 \<le> n" and "n \<le> 10000" and "1 < fuel" and p: "p = position xs s"
    and full: "p + n < length xs" "led (xs ! p) = led (xs ! (p + n - 1))" and first: "led (xs ! p) = s"
    and tok: "list_all (\<lambda>ev. rePagingToken ev = None) xs"
  shows "\<exists>r w'. scan (log_env False xs) opts fuel \<lparr>spContracts = cs, spTopics = ts, spFrom = Some s, spTo = None,
      spLimit = Some (of_nat n)\<rparr> w = Some (Inr r, w') \<and> scanEvents r = take n (drop p xs)"
proof -
  let ?ys = "take n (drop p xs)" and ?k = "p + n"
  obtain m where m: "fuel = Suc (Suc m)" using assms(4) by (metis Suc_lessE less_natE add_Suc One_nat_def)
  have k: "p < length xs" "p < ?k" "?k \<le> length xs" using full(1) assms(2) by auto
  have last: "last ?ys = xs ! (?k - 1)" "erLedger (last ?ys) = Some s" "rePagingToken (last ?ys) = None"
    using log_page_last[OF xs k(1), of n] k full(2) first tok assms(2) by (auto simp: min_def list_all_length)
  have ne: "?ys \<noteq> []" "length ?ys = n" using k assms(2) by auto
  define v where "v = scan_start n s"
  define v1 where "v1 = v\<lparr>svEvents := ?ys, svInfo := \<lparr>piStart = s, piEnd = s, piIndex = reIndex (last ?ys), piLimit = n,
    piHasMore = True, piNext = None\<rparr>, svStart := s, svCarried := Some (carried_keys s ?ys)\<rparr>"
  have page: "log_page False xs (page_request n cs' tops u) = \<lparr>pgEvents = ?ys,
      pgLatest = Some (if xs = [] then 1 else led (last xs)), pgCursor = None\<rparr>" if "u = v \<or> u = v1" for u cs' tops
    using that p by (auto simp: log_page_def page_request_def Let_def v1_def v_def scan_start_def)
  have one: "takePage n None (log_page False xs (page_request n cs' tops v)) v = (More v1, Some s)" for cs' tops
    using ne last unfolding page[OF disjI1[OF refl]]
    by (auto simp: takePage_def Let_def last_ledger_def page_cursor_def v1_def v_def scan_start_def new_events_def[of None])
  have rr: "reread xs p v" by (auto simp: reread_def v_def scan_start_def p position_le)
  have "reread xs ?k v1"
    by (rule reread_step[OF xs rr, where p = p and n = n]) (use k full first in \<open>auto simp: v_def v1_def scan_start_def p min_def\<close>)
  from reread_new[OF xs this] have none: "new_events (svCarried v1) s ?ys = []"
    using p by (simp add: v1_def)
  have two: "fst (takePage n None (log_page False xs (page_request n cs' tops v1)) v1) = Done v1" for cs' tops
    using ne last none unfolding page[OF disjI2[OF refl]]
    by (auto simp: takePage_def Let_def last_ledger_def page_cursor_def v1_def v_def scan_start_def)
  have "\<exists>w'. scanLoop (log_env False xs) n cs' tops None fuel v w = Some (Inr v1, w')" for cs' tops
    using one[of cs' tops] two[of cs' tops] by (auto simp: m log_env_def split: prod.splits)
  then show ?thesis using assms(2,3) by (fastforce simp: scan_from v_def scan_answer_def v1_def)
qed

section \<open>The next scan\<close>

lemma one_page:
  assumes xs: "good_log xs" and n: "length xs < n" and s: "position xs s < length xs"
  shows "\<exists>v. scanLoop (log_env True xs) n cs tops None (Suc m) (scan_start n s) w =
    Some (Inr v, keep_cursor (Some (led (last xs))) w) \<and> svEvents v = filter (\<lambda>ev. s \<le> led ev) xs"
proof -
  let ?p = "position xs s"
  let ?pg = "log_page True xs (page_request n cs tops (scan_start n s))"
  have all: "take n (drop ?p xs) = drop ?p xs" using n by simp
  have sorted: "sorted (map led xs)" using xs by (simp add: good_log_def)
  have pg: "?pg = \<lparr>pgEvents = drop ?p xs, pgLatest = Some (led (last xs)), pgCursor = Some (nat_str (length xs))\<rparr>"
    using s all by (auto simp: log_page_def page_request_def Let_def scan_start_def)
  have ne: "drop ?p xs \<noteq> []" and len: "length (drop ?p xs) < n" using s n by auto
  have l: "last (drop ?p xs) = last xs" "erLedger (last xs) = Some (led (last xs))"
  proof -
    show "last (drop ?p xs) = last xs" using s by (simp add: last_drop)
    have "xs \<noteq> []" using s by auto
    then show "erLedger (last xs) = Some (led (last xs))"
      using good_log_led[OF xs, of "length xs - 1"] by (simp add: last_conv_nth)
  qed
  have "\<exists>v. takePage n None ?pg (scan_start n s) = (Done v, Some (led (last xs))) \<and> svEvents v = drop ?p xs"
    unfolding takePage_def pg using ne len l by (auto simp: Let_def last_ledger_def page_cursor_def scan_start_def new_events_def)
  then show ?thesis unfolding drop_position[OF sorted, symmetric] by (auto simp: log_env_def)
qed

text \<open>The ledger the object keeps is the last one it has returned, so the next scan returns that ledger again.\<close>

theorem next_scan_repeats:
  assumes xs: "good_log xs" and n: "length xs < n" "n \<le> 10000" and s: "xs \<noteq> []" "s \<le> led (last xs)"
  shows "\<exists>r w1 r2 w2. scan (log_env True xs) opts (Suc m) \<lparr>spContracts = cs, spTopics = ts, spFrom = Some s, spTo = None,
        spLimit = Some (of_nat n)\<rparr> w = Some (Inr r, w1) \<and> scanEvents r = filter (\<lambda>ev. s \<le> led ev) xs \<and>
    scan (log_env True xs) opts (Suc m) \<lparr>spContracts = cs, spTopics = ts, spFrom = None, spTo = None,
        spLimit = Some (of_nat n)\<rparr> w1 = Some (Inr r2, w2) \<and>
      scanEvents r2 = filter (\<lambda>ev. led ev = led (last xs)) xs"
proof -
  let ?l = "led (last xs)" and ?cs = "case cs of None \<Rightarrow> [] | Some c \<Rightarrow> c"
  have i: "length xs - 1 < length xs" using s(1) by simp
  have in_log: "position xs t < length xs" if "t \<le> ?l" for t
  proof -
    have "\<not> length xs - 1 < position xs t" using position_less_iff[OF xs i, of t] that s(1) by (simp add: last_conv_nth)
    then show ?thesis using i by linarith
  qed
  obtain v where v: "scanLoop (log_env True xs) n ?cs (encodeTopics id ts) None (Suc m) (scan_start n s) w =
      Some (Inr v, keep_cursor (Some ?l) w)" "svEvents v = filter (\<lambda>ev. s \<le> led ev) xs"
    using one_page[OF xs n(1) in_log[OF s(2)]] by blast
  obtain u where u: "scanLoop (log_env True xs) n ?cs (encodeTopics id ts) None (Suc m) (scan_start n ?l) (keep_cursor (Some ?l) w) =
      Some (Inr u, keep_cursor (Some ?l) (keep_cursor (Some ?l) w))" "svEvents u = filter (\<lambda>ev. ?l \<le> led ev) xs"
    using one_page[OF xs n(1) in_log[OF order_refl]] by blast
  have same: "filter (\<lambda>ev. ?l \<le> led ev) xs = filter (\<lambda>ev. led ev = ?l) xs"
  proof (rule filter_cong[OF refl])
    fix ev assume "ev \<in> set xs"
    then obtain j where "j < length xs" "xs ! j = ev" by (meson in_set_conv_nth)
    then have "led ev \<le> ?l" using good_log_mono[OF xs, of j "length xs - 1"] i s(1) by (simp add: last_conv_nth)
    then show "?l \<le> led ev \<longleftrightarrow> led ev = ?l" by auto
  qed
  have k: "1 \<le> n" using n(1) by simp
  have "(of_nat n :: rat) \<le> 10000" using n(2) by (metis of_nat_le_iff of_nat_numeral)
  then have "scan (log_env True xs) opts (Suc m) \<lparr>spContracts = cs, spTopics = ts, spFrom = None, spTo = None,
      spLimit = Some (of_nat n)\<rparr> (keep_cursor (Some ?l) w) =
      Some (Inr (scan_answer n u), keep_cursor (Some ?l) (keep_cursor (Some ?l) w))"
    using u(1) k by (simp add: scan_def anchorIfNeeded_def keep_cursor_def MAX_EVENT_LIMIT_def not_less log_env_def del: scanLoop.simps)
  moreover have "scan (log_env True xs) opts (Suc m) \<lparr>spContracts = cs, spTopics = ts, spFrom = Some s, spTo = None,
      spLimit = Some (of_nat n)\<rparr> w = Some (Inr (scan_answer n v), keep_cursor (Some ?l) w)"
    using v(1) by (simp add: scan_from[OF k n(2)] log_env_def del: scanLoop.simps)
  ultimately show ?thesis using v(2) u(2) same by (simp add: scan_answer_def)
qed

theorem next_scan_repeats_witness:
  "\<exists>r w1 r2 w2. scan (log_env True three_events) (newCursorOptions None None) (Suc 0) \<lparr>spContracts = None, spTopics = None,
        spFrom = Some 4, spTo = None, spLimit = Some (of_nat 10)\<rparr> \<lparr>cursorAt = None\<rparr> = Some (Inr r, w1) \<and>
      scanEvents r = filter (\<lambda>ev. 4 \<le> led ev) three_events \<and>
    scan (log_env True three_events) (newCursorOptions None None) (Suc 0) \<lparr>spContracts = None, spTopics = None,
        spFrom = None, spTo = None, spLimit = Some (of_nat 10)\<rparr> w1 = Some (Inr r2, w2) \<and>
      scanEvents r2 = filter (\<lambda>ev. led ev = led (last three_events)) three_events"
  by (rule next_scan_repeats) (simp_all add: three_events_def good_log_def led_def)

theorem full_ledger_stops_witness:
  "\<exists>r w'. scan (log_env False (tl three_events)) (newCursorOptions None None) 4 \<lparr>spContracts = None, spTopics = None,
      spFrom = Some 5, spTo = None, spLimit = Some (of_nat 1)\<rparr> \<lparr>cursorAt = None\<rparr> = Some (Inr r, w') \<and>
    scanEvents r = take 1 (drop 0 (tl three_events))"
  by (rule full_ledger_stops) (simp_all add: three_events_def good_log_def led_def position_def)

end
