(* ===== verification/Polling.thy ===== *)
theory Polling
  imports Webhooks EventCursor
begin

text \<open>
  \<open>pollEvents\<close> of \<open>modules/webhooks.ts\<close>: one scan of the chain's events per subscribed type, the events
  found put in ledger order and delivered to every webhook that subscribed to their type.
\<close>

section \<open>What is scanned\<close>

text \<open>How a topic segment of the RPC client looks to the code: text, an object with a \<open>switch\<close> method, or
  another object. Which one it is depends on the version of the client library, so it is a parameter.\<close>

datatype topic_view = TextTopic string | SwitchTopic scval | OtherTopic

definition extractEventType :: "(scval \<Rightarrow> topic_view) \<Rightarrow> raw_event \<Rightarrow> string option" where
  "extractEventType view ev = (case erTopic ev of
       Some (t # _) \<Rightarrow> (case view t of TextTopic s \<Rightarrow> Some s
         | SwitchTopic (ScvSymbol s) \<Rightarrow> Some s | SwitchTopic (ScvString s) \<Rightarrow> Some s | _ \<Rightarrow> None)
     | _ \<Rightarrow> None)"

definition subscribedEvents :: "'x hooks_scheme \<Rightarrow> string list" where
  "subscribedEvents w = foldl (\<lambda>seen ev. if ev \<in> set seen then seen else seen @ [ev]) []
     (concat (map (\<lambda>(i, r). hookEvents (storedHeap w ! r)) (webhooks w)))"

record poll_options =
  poStart :: int
  poEnd :: "int option"
  poContracts :: "string list option"
  poLimit :: "rat option"

definition pollId :: "raw_event \<Rightarrow> string" where
  "pollId ev = ledger_text (erLedger ev) @ '':'' @
     (case reId ev of Some i \<Rightarrow> i | None \<Rightarrow> case erTxHash ev of Some h \<Rightarrow> h | None \<Rightarrow> [])"

definition collect :: "(scval \<Rightarrow> topic_view) \<Rightarrow> string \<Rightarrow> raw_event list \<Rightarrow> string list \<times> raw_event list \<Rightarrow>
    string list \<times> raw_event list" where
  "collect view topic page acc = foldl (\<lambda>(seen, raws) ev.
     if extractEventType view ev \<noteq> Some topic \<or> pollId ev \<in> set seen then (seen, raws)
     else (pollId ev # seen, raws @ [ev])) acc page"

fun pollScans :: "('x cursor_state_scheme) event_env \<Rightarrow> (scval \<Rightarrow> topic_view) \<Rightarrow> nat \<Rightarrow> poll_options \<Rightarrow> string list \<Rightarrow>
    string list \<times> raw_event list \<Rightarrow> 'x cursor_state_scheme \<Rightarrow>
    ((thrown + raw_event list) \<times> 'x cursor_state_scheme) option" where
  "pollScans rpc view fuel opts [] acc w = Some (Inr (snd acc), w)"
| "pollScans rpc view fuel opts (topic # topics) acc w =
    (case scan rpc (newCursorOptions None None) fuel \<lparr>spContracts = poContracts opts, spTopics = Some [topic],
         spFrom = Some (poStart opts), spTo = poEnd opts, spLimit = Some (or_default (poLimit opts) 200)\<rparr> (reset w) of
       None \<Rightarrow> None
     | Some (Inl err, w1) \<Rightarrow> Some (Inl err, w1)
     | Some (Inr page, w1) \<Rightarrow> pollScans rpc view fuel opts topics (collect view topic (scanEvents page) acc) w1)"

text \<open>The ledger of an event of the RPC client is a number.\<close>

definition isWithinRange :: "poll_options \<Rightarrow> raw_event \<Rightarrow> bool" where
  "isWithinRange opts ev \<longleftrightarrow> poStart opts \<le> led ev \<and> (case poEnd opts of None \<Rightarrow> True | Some t \<Rightarrow> led ev \<le> t)"

record poll_event =
  peType :: string
  peContract :: string
  peLedger :: int
  peTimestamp :: int
  peTxHash :: string
  peRaw :: raw_event

definition pollPayload :: "string \<Rightarrow> raw_event \<Rightarrow> poll_event" where
  "pollPayload ty ev = \<lparr>peType = ty, peContract = (case erContract ev of None \<Rightarrow> [] | Some c \<Rightarrow> c),
     peLedger = led ev, peTimestamp = led ev, peTxHash = (case reId ev of None \<Rightarrow> [] | Some i \<Rightarrow> i), peRaw = ev\<rparr>"

definition in_order :: "poll_options \<Rightarrow> raw_event list \<Rightarrow> raw_event list" where
  "in_order opts raws = filter (isWithinRange opts) (sort_key led raws)"

definition parsedEvents :: "(scval \<Rightarrow> topic_view) \<Rightarrow> poll_options \<Rightarrow> string list \<Rightarrow> raw_event list \<Rightarrow> poll_event list" where
  "parsedEvents view opts subscribed raws = List.map_filter (\<lambda>ev. case extractEventType view ev of
       None \<Rightarrow> None | Some ty \<Rightarrow> if ty = [] \<or> ty \<notin> set subscribed then None else Some (pollPayload ty ev))
     (in_order opts raws)"

section \<open>Who is told\<close>

definition no_options :: hook_options where
  "no_options = \<lparr>optRetries = None, optBaseDelay = None, optMaxDelay = None, optMultiplier = None, optTimeout = None,
     optEvent = None\<rparr>"

text \<open>The webhooks of one event: a webhook removed during the deliveries is skipped. One registered during
  them is told from the next event on.\<close>

fun triggerHooks :: "('x hooks_scheme, poll_event) hook_env \<Rightarrow> poll_event \<Rightarrow> string list \<Rightarrow> 'x hooks_scheme \<Rightarrow>
    (poll_event \<times> string \<times> delivery_result) list \<times> 'x hooks_scheme" where
  "triggerHooks e ev [] w = ([], w)"
| "triggerHooks e ev (i # rest) w = (case stored_of w i of
       None \<Rightarrow> triggerHooks e ev rest w
     | Some stored \<Rightarrow> if peType ev \<notin> set (hookEvents stored) then triggerHooks e ev rest w
       else (case sendWebhook e i ev no_options w of
           (Inl _, w1) \<Rightarrow> triggerHooks e ev rest w1
         | (Inr r, w1) \<Rightarrow> (case triggerHooks e ev rest w1 of (rs, w2) \<Rightarrow> ((ev, i, r) # rs, w2))))"

fun triggerAll :: "('x hooks_scheme, poll_event) hook_env \<Rightarrow> poll_event list \<Rightarrow> 'x hooks_scheme \<Rightarrow>
    (poll_event \<times> string \<times> delivery_result) list \<times> 'x hooks_scheme" where
  "triggerAll e [] w = ([], w)"
| "triggerAll e (ev # evs) w = (case triggerHooks e ev (map fst (webhooks w)) w of
     (rs, w1) \<Rightarrow> (case triggerAll e evs w1 of (rest, w2) \<Rightarrow> (rs @ rest, w2)))"

text \<open>The call: \<open>rpc\<close> is the server passed to the constructor, if any; \<open>None\<close> as the answer is fuel used up.\<close>

definition pollEvents :: "('x hooks_scheme, poll_event) hook_env \<Rightarrow>
    (('x hooks_scheme cursor_state_scheme) event_env) option \<Rightarrow> (scval \<Rightarrow> topic_view) \<Rightarrow> nat \<Rightarrow> poll_options \<Rightarrow>
    'x hooks_scheme \<Rightarrow> ((thrown + (poll_event \<times> string \<times> delivery_result) list) \<times> 'x hooks_scheme) option" where
  "pollEvents e rpc view fuel opts w = (case rpc of
       None \<Rightarrow> Some (Inl (Sdk (WebhookError ''pollEvents requires a rpc.Server instance (pass { server } to constructor)'')), w)
     | Some server \<Rightarrow>
        (let topics = subscribedEvents w
         in if topics = [] then Some (Inr [], w)
            else case pollScans server view fuel opts topics ([], []) \<lparr>cursorAt = None, \<dots> = w\<rparr> of
                None \<Rightarrow> None
              | Some (Inl err, c) \<Rightarrow> Some (Inl err, cursor_state.more c)
              | Some (Inr raws, c) \<Rightarrow> (case triggerAll e (parsedEvents view opts topics raws) (cursor_state.more c) of
                  (rs, w1) \<Rightarrow> Some (Inr rs, w1))))"

section \<open>What is found\<close>

lemma split_colon:
  "CHR '':'' \<notin> set a \<Longrightarrow> CHR '':'' \<notin> set b \<Longrightarrow> a @ CHR '':'' # x = b @ CHR '':'' # y \<longleftrightarrow> a = b \<and> x = y"
proof (induction a arbitrary: b)
  case Nil then show ?case by (cases b) auto
next
  case (Cons c a) then show ?case by (cases b) auto
qed

lemma no_colon: "CHR '':'' \<notin> set (int_str n)"
proof -
  have "\<not> is_digit (CHR '':'')" by (simp add: is_digit_def)
  then have "CHR '':'' \<notin> set (nat_str k)" for k using nat_str_digits by blast
  then show ?thesis by (auto simp: int_str_def)
qed

lemma pollId_inj:
  assumes xs: "good_log xs" and "a \<in> set xs" "b \<in> set xs" and "pollId a = pollId b"
  shows "a = b"
proof -
  have some: "\<exists>l i. erLedger ev = Some l \<and> reId ev = Some i" if "ev \<in> set xs" for ev
    using that xs by (auto simp: good_log_def list_all_iff)
  obtain l i where a: "erLedger a = Some l" "reId a = Some i" using some assms(2) by blast
  obtain l' i' where b: "erLedger b = Some l'" "reId b = Some i'" using some assms(3) by blast
  have "reId a = reId b" using assms(4) by (simp add: pollId_def ledger_text_def split_colon no_colon a b)
  then show ?thesis using xs assms(2,3) by (auto simp: good_log_def distinct_map inj_on_def)
qed

definition gathered :: "raw_event list \<Rightarrow> string list \<times> raw_event list \<Rightarrow> bool" where
  "gathered xs acc \<longleftrightarrow> set (fst acc) = pollId ` set (snd acc) \<and> distinct (snd acc) \<and> set (snd acc) \<subseteq> set xs"

lemma collect_gathers:
  assumes xs: "good_log xs"
  shows "set page \<subseteq> set xs \<Longrightarrow> gathered xs acc \<Longrightarrow> gathered xs (collect view t page acc) \<and>
    set (snd (collect view t page acc)) = set (snd acc) \<union> {ev \<in> set page. extractEventType view ev = Some t}"
proof (induction page arbitrary: acc)
  case (Cons ev page)
  obtain seen raws where acc: "acc = (seen, raws)" by force
  have known: "pollId ev \<in> set seen \<longleftrightarrow> ev \<in> set raws"
  proof
    assume "pollId ev \<in> set seen"
    then obtain b where "b \<in> set raws" "pollId ev = pollId b" using Cons.prems(2) by (auto simp: gathered_def acc)
    moreover have "b \<in> set xs" "ev \<in> set xs" using calculation(1) Cons.prems by (auto simp: gathered_def acc)
    ultimately show "ev \<in> set raws" using pollId_inj[OF xs, of ev b] by simp
  qed (use Cons.prems(2) in \<open>simp add: gathered_def acc\<close>)
  define acc' where "acc' = (if extractEventType view ev \<noteq> Some t \<or> pollId ev \<in> set seen then acc else (pollId ev # seen, raws @ [ev]))"
  have step: "collect view t (ev # page) acc = collect view t page acc'" by (simp add: collect_def acc acc'_def)
  have "gathered xs acc'"
    using Cons.prems known by (cases "extractEventType view ev \<noteq> Some t \<or> pollId ev \<in> set seen") (simp_all add: gathered_def acc acc'_def)
  moreover have "set (snd acc') = set (snd acc) \<union> (if extractEventType view ev = Some t then {ev} else {})"
    using known by (auto simp: acc acc'_def)
  moreover have "set page \<subseteq> set xs" using Cons.prems(1) by simp
  moreover note Cons.IH[OF \<open>set page \<subseteq> set xs\<close>, of acc']
  ultimately show ?case unfolding step by (cases "extractEventType view ev = Some t") auto
qed (simp add: collect_def)

lemma pollScans_log:
  assumes xs: "good_log xs" and n: "1 \<le> n" "n \<le> 10000" "length xs < fuel"
    and opts: "or_default (poLimit opts) 200 = of_nat n"
  shows "gathered xs acc \<Longrightarrow> {ev \<in> set (snd acc). isWithinRange opts ev} =
      {ev \<in> set xs. isWithinRange opts ev \<and> extractEventType view ev \<in> Some ` seen} \<Longrightarrow>
    \<exists>raws w'. pollScans (log_env True xs) view fuel opts topics acc w = Some (Inr raws, w') \<and>
      distinct raws \<and> {ev \<in> set raws. isWithinRange opts ev} =
        {ev \<in> set xs. isWithinRange opts ev \<and> extractEventType view ev \<in> Some ` (seen \<union> set topics)}"
proof (induction topics arbitrary: acc seen w)
  case Nil
  then show ?case by (simp add: gathered_def)
next
  case (Cons t topics)
  obtain r w1 where r: "scan (log_env True xs) (newCursorOptions None None) fuel \<lparr>spContracts = poContracts opts,
      spTopics = Some [t], spFrom = Some (poStart opts), spTo = poEnd opts, spLimit = Some (of_nat n)\<rparr> (reset w) = Some (Inr r, w1)"
      "prefix (scanEvents r) (filter (\<lambda>ev. poStart opts \<le> led ev) xs)"
      "filter (within_ledger (poEnd opts)) (scanEvents r) = filter (\<lambda>ev. poStart opts \<le> led ev \<and> within_ledger (poEnd opts) ev) xs"
    using scan_of_log[OF xs n] by blast
  let ?acc = "collect view t (scanEvents r) acc"
  have sub: "set (scanEvents r) \<subseteq> {ev \<in> set xs. poStart opts \<le> led ev}" using set_mono_prefix[OF r(2)] by auto
  then have got: "gathered xs ?acc" "set (snd ?acc) = set (snd acc) \<union> {ev \<in> set (scanEvents r). extractEventType view ev = Some t}"
    using collect_gathers[OF xs _ Cons.prems(1), of "scanEvents r" view t] by auto
  have "{ev \<in> set (scanEvents r). isWithinRange opts ev} = {ev \<in> set xs. isWithinRange opts ev}"
  proof -
    have "{ev \<in> set (scanEvents r). isWithinRange opts ev} = set (filter (within_ledger (poEnd opts)) (scanEvents r))"
      using sub by (auto simp: isWithinRange_def within_ledger_def)
    also have "\<dots> = {ev \<in> set xs. isWithinRange opts ev}" unfolding r(3) by (auto simp: isWithinRange_def within_ledger_def)
    finally show ?thesis .
  qed
  then have "{ev \<in> set (snd ?acc). isWithinRange opts ev} =
      {ev \<in> set xs. isWithinRange opts ev \<and> extractEventType view ev \<in> Some ` insert t seen}"
    unfolding got(2) using Cons.prems(2) by auto
  from Cons.IH[OF got(1) this] show ?case by (auto simp: opts r(1))
qed


text \<open>Topics that are neither text nor objects with a \<open>switch\<close> method are not recognised: nothing is delivered.\<close>

lemma unreadable_found: "(\<And>ev. extractEventType view ev = None) \<Longrightarrow>
    pollScans rpc view fuel opts topics (seen, []) w = Some (Inr raws, w') \<Longrightarrow> raws = []"
proof (induction topics arbitrary: seen w)
  case (Cons t topics)
  have "collect view t page (seen, []) = (seen, [])" for page
    by (induction page) (simp_all add: collect_def Cons.prems(1))
  then show ?case using Cons by (auto split: option.splits prod.splits sum.splits)
qed simp

theorem unreadable_topics:
  assumes "\<forall>t. view t = OtherTopic" and "pollEvents e rpc view fuel opts w = Some (Inr rs, w')"
  shows "rs = []"
proof -
  have none: "extractEventType view ev = None" for ev
    using assms(1) by (simp add: extractEventType_def split: option.splits list.splits)
  have no: "raws = []" if "pollScans server view fuel opts topics ([], []) c = Some (Inr raws, c')" for server topics c raws c'
    by (rule unreadable_found[OF none that])
  show ?thesis using assms(2)
    by (auto dest!: no simp: pollEvents_def map_filter_simps parsedEvents_def in_order_def Let_def split: option.splits prod.splits sum.splits if_splits)
qed

text \<open>The delivery names the first event the webhook subscribed to, whatever the type of the event found.\<close>

theorem poll_names_first_event:
  assumes "stored_of w i = Some stored" and "map_of (webhookState w) i = Some r"
    and "\<not> hookDisabled (stateHeap w ! r)" and "hookEvents stored = first # others"
  shows "sendWebhook e i ev no_options w = (case newId e w of (d, w1) \<Rightarrow>
    deliverLoop e (resolveOptions no_options) r (hookUrl stored)
      (deliveryHeaders e (hookSecret stored) (Some first) d (envelopeText e d (nowMs e w1) (Some first) ev))
      (envelopeText e d (nowMs e w1) (Some first) ev) d 0 w1)"
  using assms by (simp add: sendWebhook_def no_options_def Let_def split: prod.splits)

section \<open>Witnesses\<close>

definition some_poll :: poll_options where
  "some_poll = \<lparr>poStart = 5, poEnd = None, poContracts = None, poLimit = Some 2\<rparr>"

definition poll_env :: "(hooks, poll_event) hook_env" where
  "poll_env = \<lparr>nowMs = (\<lambda>_. 0), fetchHook = (\<lambda>_ _ _ _ w. (Inr 200, w)), hookSleep = (\<lambda>_ w. w),
     newId = (\<lambda>w. (''d'', w)), httpsUrl = Some, hmac = (\<lambda>_ _. []), envelopeText = (\<lambda>_ _ _ _. []),
     challengeText = (\<lambda>_ _ _. [])\<rparr>"

definition poll_hooks :: hooks where
  "poll_hooks = \<lparr>webhooks = [(''h'', 0)], webhookState = [(''h'', 0)], storedHeap = [\<lparr>hookId = ''h'', hookUrl = [],
     hookEvents = [''swap'', ''sync''], hookSecret = None, hookCreatedAt = 0, hookUpdatedAt = None, hookVerified = True\<rparr>],
     stateHeap = [createInitialState]\<rparr>"


theorem unreadable_topics_witness:
  "(\<exists>w'. pollEvents poll_env (Some (log_env True [])) (\<lambda>_. OtherTopic) 1 some_poll poll_hooks = Some (Inr [], w')) \<and>
   (\<forall>rs w'. pollEvents poll_env (Some (log_env True [])) (\<lambda>_. OtherTopic) 1 some_poll poll_hooks \<noteq> Some (Inr (rs # []), w'))"
proof -
  let ?p = "pollEvents poll_env (Some (log_env True [])) (\<lambda>_. OtherTopic) 1 some_poll poll_hooks"
  have "\<exists>rs w'. ?p = Some (Inr rs, w')"
    by (auto simp: pollEvents_def poll_hooks_def subscribedEvents_def some_poll_def or_default_def scan_def log_env_def
        MAX_EVENT_LIMIT_def takePage_def log_page_def scan_start_def page_request_def reset_def Let_def scan_answer_def
        collect_def split: prod.splits)
  then show ?thesis using unreadable_topics [of "\<lambda>_. OtherTopic" poll_env "Some (log_env True [])" 1 some_poll poll_hooks]
    by fastforce
qed

theorem poll_names_first_event_witness:
  "sendWebhook poll_env ''h'' (pollPayload ''sync'' (hd three_events)) no_options poll_hooks =
    (case newId poll_env poll_hooks of (d, w1) \<Rightarrow>
      deliverLoop poll_env (resolveOptions no_options) 0 (hookUrl (hd (storedHeap poll_hooks)))
      (deliveryHeaders poll_env (hookSecret (hd (storedHeap poll_hooks))) (Some ''swap'') d
        (envelopeText poll_env d (nowMs poll_env w1) (Some ''swap'') (pollPayload ''sync'' (hd three_events))))
      (envelopeText poll_env d (nowMs poll_env w1) (Some ''swap'') (pollPayload ''sync'' (hd three_events))) d 0 w1)"
  by (rule poll_names_first_event) (simp_all add: poll_hooks_def stored_of_def createInitialState_def)

end
