(* ===== verification/Liquidity.thy ===== *)
theory Liquidity
  imports PairMath Governance Staking "HOL-Library.AList"
begin

text \<open>
  \<open>modules/liquidity.ts\<close>: quoting, adding and removing liquidity and reading LP positions, with the input
  schemas of the module and \<open>schemas/helpers.ts\<close>. What the module calls is in \<open>liq_env\<close>; the only state of
  its own is the cache of LP token addresses. Reads the code starts together are made one after the other.
\<close>

section \<open>Input schemas\<close>

text \<open>An issue is a path and a message; the checks of an object follow those of its fields.\<close>

type_synonym issue = "string \<times> string"

definition addressSchema :: "(string \<Rightarrow> bool) \<Rightarrow> string \<Rightarrow> string \<Rightarrow> issue list" where
  "addressSchema valid name value =
     (if trim value = [] then [(name, name @ '' must not be empty'')]
      else if \<not> valid value then [(name, name @ '' is not a valid Stellar address: '' @ value)] else [])"

definition positiveAmountSchema :: "string \<Rightarrow> int \<Rightarrow> issue list" where
  "positiveAmountSchema name value =
     (if value \<le> 0 then [(name, name @ '' must be greater than 0, got '' @ int_str value)] else [])"

definition nonNegativeAmountSchema :: "string \<Rightarrow> int \<Rightarrow> issue list" where
  "nonNegativeAmountSchema name value =
     (if value < 0 then [(name, name @ '' must be non-negative, got '' @ int_str value)] else [])"

definition distinctTokensIssue :: "string \<Rightarrow> string \<Rightarrow> issue list" where
  "distinctTokensIssue a b = (if a = b then [(''tokenB'', ''tokenIn and tokenOut must be different addresses'')] else [])"

definition validateWithSchema :: "issue list \<Rightarrow> string \<Rightarrow> unit result" where
  "validateWithSchema issues what = (if issues = [] then Inr ()
     else Inl (ValidationError (''Invalid '' @ what @ '': '' @
       join_str ''; '' (map (\<lambda>(path, m). if path = [] then m else path @ '': '' @ m) issues))))"

record add_liquidity_request =
  al_tokenA :: string
  al_tokenB :: string
  al_amountADesired :: int
  al_amountBDesired :: int
  al_amountAMin :: int
  al_amountBMin :: int
  al_to :: string
  al_deadline :: "int option"

definition quoteIssues :: "(string \<Rightarrow> bool) \<Rightarrow> string \<Rightarrow> string \<Rightarrow> int \<Rightarrow> issue list" where
  "quoteIssues valid a b amount = addressSchema valid ''tokenA'' a @ addressSchema valid ''tokenB'' b @
     positiveAmountSchema ''amountADesired'' amount @ distinctTokensIssue a b"

definition addIssues :: "(string \<Rightarrow> bool) \<Rightarrow> add_liquidity_request \<Rightarrow> issue list" where
  "addIssues valid r =
     addressSchema valid ''tokenA'' (al_tokenA r) @ addressSchema valid ''tokenB'' (al_tokenB r) @
     addressSchema valid ''to'' (al_to r) @
     positiveAmountSchema ''amountADesired'' (al_amountADesired r) @
     positiveAmountSchema ''amountBDesired'' (al_amountBDesired r) @
     nonNegativeAmountSchema ''amountAMin'' (al_amountAMin r) @ nonNegativeAmountSchema ''amountBMin'' (al_amountBMin r) @
     (if al_amountADesired r < al_amountAMin r then [(''amountAMin'', ''amountAMin must not exceed amountADesired'')] else []) @
     (if al_amountBDesired r < al_amountBMin r then [(''amountBMin'', ''amountBMin must not exceed amountBDesired'')] else []) @
     distinctTokensIssue (al_tokenA r) (al_tokenB r)"

definition removeIssues :: "(string \<Rightarrow> bool) \<Rightarrow> remove_liquidity_request \<Rightarrow> issue list" where
  "removeIssues valid r =
     addressSchema valid ''tokenA'' (rl_tokenA r) @ addressSchema valid ''tokenB'' (rl_tokenB r) @
     addressSchema valid ''to'' (rl_to r) @ positiveAmountSchema ''liquidity'' (rl_liquidity r) @
     nonNegativeAmountSchema ''amountAMin'' (rl_amountAMin r) @ nonNegativeAmountSchema ''amountBMin'' (rl_amountBMin r) @
     distinctTokensIssue (rl_tokenA r) (rl_tokenB r)"

lemmas schema_defs = addressSchema_def positiveAmountSchema_def nonNegativeAmountSchema_def distinctTokensIssue_def
  quoteIssues_def addIssues_def removeIssues_def validateWithSchema_def

section \<open>What the module calls\<close>

datatype liq_op =
    AddLiquidityCall string string string int int int int int
  | RemoveLiquidityCall string string string int int int int

text \<open>The value a simulation returns, as the decoder looks at it: a list under \<open>vec\<close> or \<open>value\<close> (an empty one
  when there is neither), or something there that is no list.\<close>

datatype lp_entry = BigEntry int | NumEntry rat | TextEntry string | I128Big int | I128Parts int int | OtherEntry

datatype lp_value = VecOf "lp_entry list" | NotVec

record lp_sim =
  simOk :: bool
  simErr :: "string option"
  simFee :: "string option"
  simReturn :: "lp_value option"

record 'w liq_env =
  lqPairAddress :: "string \<Rightarrow> string \<Rightarrow> ('w, thrown, string option) act"
  lqReserves :: "string \<Rightarrow> ('w, thrown, int \<times> int) act"
  lqTokens :: "string \<Rightarrow> ('w, thrown, string \<times> string) act"
  lqLPTokenAddress :: "string \<Rightarrow> ('w, thrown, string) act"
  lqBalance :: "string \<Rightarrow> string \<Rightarrow> ('w, thrown, int) act"
  lqTotalSupply :: "string \<Rightarrow> ('w, thrown, int) act"
  lqAllPairs :: "('w, thrown, string list) act"
  lqSimulate :: "(liq_op list \<Rightarrow> ('w, thrown, lp_sim) act) option"
  lqSubmit :: "liq_op list \<Rightarrow> ('w, thrown, sdk_result) act"
  lqGetTransaction :: "'w rpc"
  lqValid :: "string \<Rightarrow> bool"
  lqDeadline :: "'w \<Rightarrow> int"

record lp_module =
  lpTokenCache :: "(string \<times> string) list"

section \<open>Quotes\<close>

text \<open>The module's own copy of the Babylonian method; the loop is that of \<open>PairMath\<close>.\<close>

definition liq_sqrt :: "int \<Rightarrow> int result" where
  "liq_sqrt value =
    (if value < 0 then Inl (ValidationError ''Square root of negative number'')
     else if value = 0 then Inr 0
     else Inr (int (sqrt_loop (nat value) (nat value) ((nat value + 1) div 2))))"

record add_liquidity_quote =
  aq_amountA :: int
  aq_amountB :: int
  aq_estimatedLP :: int
  aq_share :: rat
  aq_priceAPerB :: int
  aq_priceBPerA :: int

definition getLPTotalSupply :: "'w liq_env \<Rightarrow> string \<Rightarrow> ('w, thrown, int) act" where
  "getLPTotalSupply e pairAddress = lqTotalSupply e pairAddress"

definition firstQuote :: "int \<Rightarrow> add_liquidity_quote result" where
  "firstQuote amount = bindE (liq_sqrt (amount * amount)) (\<lambda>r. Inr \<lparr>aq_amountA = amount, aq_amountB = amount,
     aq_estimatedLP = r - MIN_LIQUIDITY, aq_share = 1, aq_priceAPerB = PRICE_SCALE, aq_priceBPerA = PRICE_SCALE\<rparr>)"

definition priceOf :: "int \<Rightarrow> int \<Rightarrow> int result" where
  "priceOf num den = (if 0 < den then bigint_div (num * PRICE_SCALE) den else Inr 0)"

text \<open>The quote from what was read; the division by the reserve precedes the reading of the supply.\<close>

definition optimalB :: "int \<Rightarrow> int \<Rightarrow> int \<Rightarrow> int result" where
  "optimalB amount reserveA reserveB = bigint_div (amount * reserveB) reserveA"

definition poolQuote :: "int \<Rightarrow> int \<Rightarrow> int \<Rightarrow> int \<Rightarrow> int \<Rightarrow> add_liquidity_quote result" where
  "poolQuote amount reserveA reserveB amountB totalSupply =
     bindE (if 0 < totalSupply then bigint_div (amount * totalSupply) reserveA
            else bindE (liq_sqrt (amount * amountB)) (\<lambda>r. Inr (r - MIN_LIQUIDITY))) (\<lambda>lp.
     bindE (if 0 < totalSupply
            then bindE (bigint_div (lp * 10000) (totalSupply + lp)) (\<lambda>s. Inr (of_int s / 10000)) else Inr 1) (\<lambda>share.
     bindE (priceOf reserveB reserveA) (\<lambda>pa. bindE (priceOf reserveA reserveB) (\<lambda>pb.
       Inr \<lparr>aq_amountA = amount, aq_amountB = amountB, aq_estimatedLP = lp, aq_share = share,
            aq_priceAPerB = pa, aq_priceBPerA = pb\<rparr>))))"

definition getAddLiquidityQuote :: "'w liq_env \<Rightarrow> string \<Rightarrow> string \<Rightarrow> int \<Rightarrow> ('w, thrown, add_liquidity_quote) act" where
  "getAddLiquidityQuote e tokenA tokenB amount =
     bindW (liftW (validateWithSchema (quoteIssues (lqValid e) tokenA tokenB amount) ''getAddLiquidityQuote parameters'')) (\<lambda>_.
     bindW (lqPairAddress e tokenA tokenB) (\<lambda>found. case found of
       None \<Rightarrow> liftW (firstQuote amount)
     | Some pairAddress \<Rightarrow> if pairAddress = [] then liftW (firstQuote amount)
       else bindW (lqReserves e pairAddress) (\<lambda>(reserve0, reserve1).
         bindW (lqTokens e pairAddress) (\<lambda>(token0, _).
         let reserveA = (if token0 = tokenA then reserve0 else reserve1);
             reserveB = (if token0 = tokenA then reserve1 else reserve0)
         in bindW (liftW (optimalB amount reserveA reserveB)) (\<lambda>amountB.
            bindW (getLPTotalSupply e pairAddress) (\<lambda>supply.
              liftW (poolQuote amount reserveA reserveB amountB supply)))))))"

section \<open>Adding and removing\<close>

definition decodeEntry :: "lp_entry \<Rightarrow> int result" where
  "decodeEntry v = (case v of
       BigEntry n \<Rightarrow> Inr n
     | NumEntry q \<Rightarrow> if q = of_int \<lfloor>q\<rfloor> then Inr \<lfloor>q\<rfloor>
         else Inl (RangeError ''The number cannot be converted to a BigInt because it is not an integer'')
     | TextEntry s \<Rightarrow> bigint_of_text s
     | I128Big n \<Rightarrow> Inr n
     | I128Parts hi lo \<Rightarrow> Inr (hi * 2 ^ 64 + lo)
     | OtherEntry \<Rightarrow> Inl (TransactionError ''Liquidity simulation returned a non-i128 value'' None))"

definition decodeLiquidityResult :: "lp_value \<Rightarrow> nat \<Rightarrow> (int \<times> int \<times> int option) result" where
  "decodeLiquidityResult v n = (case v of
       VecOf vs \<Rightarrow>
         if length vs < n then Inl (TransactionError ''Liquidity simulation returned an unexpected result shape'' None)
         else bindE (decodeEntry (vs ! 0)) (\<lambda>a. bindE (decodeEntry (vs ! 1)) (\<lambda>b.
              if n = 3 then bindE (decodeEntry (vs ! 2)) (\<lambda>l. Inr (a, b, Some l)) else Inr (a, b, None)))
     | NotVec \<Rightarrow> Inl (TransactionError ''Liquidity simulation returned an unexpected result shape'' None))"

datatype liq_outcome = Executed liquidity_result | Estimated gas_estimate

definition buildAddLiquidityOperation :: "'w liq_env \<Rightarrow> add_liquidity_request \<Rightarrow> ('w, thrown, liq_op) act" where
  "buildAddLiquidityOperation e r = bindW (liftW (validateWithSchema (addIssues (lqValid e) r) ''add liquidity request''))
     (\<lambda>_ w. retW (AddLiquidityCall (al_to r) (al_tokenA r) (al_tokenB r) (al_amountADesired r) (al_amountBDesired r)
       (al_amountAMin r) (al_amountBMin r) (case al_deadline r of Some d \<Rightarrow> d | None \<Rightarrow> lqDeadline e w)) w)"

definition buildRemoveLiquidityOperation :: "'w liq_env \<Rightarrow> remove_liquidity_request \<Rightarrow> ('w, thrown, liq_op) act" where
  "buildRemoveLiquidityOperation e r = bindW (liftW (validateWithSchema (removeIssues (lqValid e) r) ''remove liquidity request''))
     (\<lambda>_ w. retW (RemoveLiquidityCall (rl_to r) (rl_tokenA r) (rl_tokenB r) (rl_liquidity r)
       (rl_amountAMin r) (rl_amountBMin r) (case rl_deadline r of Some d \<Rightarrow> d | None \<Rightarrow> lqDeadline e w)) w)"

text \<open>\<open>estimateOnly\<close>: without a simulation method the call itself throws.\<close>

definition liqEstimate :: "'w liq_env \<Rightarrow> liq_op \<Rightarrow> ('w, thrown, liq_outcome) act" where
  "liqEstimate e op = (case lqSimulate e of
       None \<Rightarrow> throwW (Sdk (JsError ''this.client.simulateTransaction is not a function''))
     | Some f \<Rightarrow> bindW (f [op]) (\<lambda>s. bindW (liftW (estimateGas (simOk s, simErr s, simFee s))) (\<lambda>g. retW (Estimated g))))"

definition simulateIfAble :: "'w liq_env \<Rightarrow> liq_op \<Rightarrow> ('w, thrown, lp_sim option) act" where
  "simulateIfAble e op = (case lqSimulate e of None \<Rightarrow> retW None | Some f \<Rightarrow> bindW (f [op]) (\<lambda>s. retW (Some s)))"

text \<open>What follows the simulation, for both directions: one submission, then the amounts of the simulation, or
  \<open>fallback\<close> when it gave none. A success carries its hash and ledger.\<close>

definition finishLiquidity :: "'w liq_env \<Rightarrow> string \<Rightarrow> liq_op \<Rightarrow> lp_sim option \<Rightarrow> nat \<Rightarrow> int \<times> int \<times> int option \<Rightarrow> int \<Rightarrow>
    ('w, thrown, liq_outcome) act" where
  "finishLiquidity e what op sim n fallback dflt =
     bindW (submitIdempotent (lqSubmit e [op]) (lqGetTransaction e)) (\<lambda>r.
     if \<not> success r
     then throwW (Sdk (TransactionError (what @ '' failed: '' @ error_message_or r ''Unknown error'') (res_txHash r)))
     else bindW (liftW (case sim of
              Some s \<Rightarrow> (case (simOk s, simReturn s) of (True, Some v) \<Rightarrow> decodeLiquidityResult v n | _ \<Rightarrow> Inr fallback)
            | None \<Rightarrow> Inr fallback)) (\<lambda>(a, b, l).
        case res_data r of None \<Rightarrow> throwW (Sdk (JsError ''Cannot read properties of undefined''))
        | Some (_, ledger) \<Rightarrow> retW (Executed \<lparr>lr_txHash = (case res_txHash r of None \<Rightarrow> [] | Some h \<Rightarrow> h), lr_ledger = ledger,
            lr_amountA = a, lr_amountB = b, lr_liquidity = (case l of None \<Rightarrow> dflt | Some x \<Rightarrow> x)\<rparr>)))"

definition addLiquidity :: "'w liq_env \<Rightarrow> add_liquidity_request \<Rightarrow> bool \<Rightarrow> ('w, thrown, liq_outcome) act" where
  "addLiquidity e r estimateOnly = bindW (buildAddLiquidityOperation e r) (\<lambda>op.
     if estimateOnly then liqEstimate e op
     else bindW (simulateIfAble e op) (\<lambda>sim.
       finishLiquidity e ''Add liquidity'' op sim 3 (al_amountADesired r, al_amountBDesired r, Some 0) 0))"

definition removeLiquidity :: "'w liq_env \<Rightarrow> remove_liquidity_request \<Rightarrow> bool \<Rightarrow> ('w, thrown, liq_outcome) act" where
  "removeLiquidity e r estimateOnly = bindW (buildRemoveLiquidityOperation e r) (\<lambda>op.
     if estimateOnly then liqEstimate e op
     else bindW (simulateIfAble e op) (\<lambda>sim.
       finishLiquidity e ''Remove liquidity'' op sim 2 (rl_amountAMin r, rl_amountBMin r, Some (rl_liquidity r)) (rl_liquidity r)))"

section \<open>Positions\<close>

record lp_position =
  lpPair :: string
  lpToken :: string
  lpBalance :: int
  lpSupply :: int
  lpShare :: rat
  lpAmount0 :: int
  lpAmount1 :: int

definition positionOf :: "string \<Rightarrow> string \<Rightarrow> int \<times> int \<Rightarrow> int \<Rightarrow> int \<Rightarrow> lp_position" where
  "positionOf pairAddress token reserves balance supply = \<lparr>lpPair = pairAddress, lpToken = token, lpBalance = balance,
     lpSupply = supply, lpShare = (if 0 < supply then of_int (balance * 10000 sdiv supply) / 10000 else 0),
     lpAmount0 = (if 0 < supply then fst reserves * balance sdiv supply else 0),
     lpAmount1 = (if 0 < supply then snd reserves * balance sdiv supply else 0)\<rparr>"

definition cachedToken :: "('x lp_module_scheme) liq_env \<Rightarrow> string \<Rightarrow> ('x lp_module_scheme, thrown, string) act" where
  "cachedToken e pairAddress w = (case map_of (lpTokenCache w) pairAddress of
       Some (c # cs) \<Rightarrow> (Inr (c # cs), w)
     | _ \<Rightarrow> bindW (lqLPTokenAddress e pairAddress) (\<lambda>t w1.
         (Inr t, w1\<lparr>lpTokenCache := AList.update pairAddress t (lpTokenCache w1)\<rparr>)) w)"

definition getPosition :: "('x lp_module_scheme) liq_env \<Rightarrow> string \<Rightarrow> string \<Rightarrow> ('x lp_module_scheme, thrown, lp_position) act" where
  "getPosition e pairAddress owner =
     bindW (lqReserves e pairAddress) (\<lambda>reserves.
     bindW (cachedToken e pairAddress) (\<lambda>token.
     bindW (lqBalance e token owner) (\<lambda>balance.
     bindW (lqTotalSupply e token) (\<lambda>supply.
       retW (positionOf pairAddress token reserves balance supply)))))"

fun positionsOf :: "('x lp_module_scheme) liq_env \<Rightarrow> string \<Rightarrow> string list \<Rightarrow> ('x lp_module_scheme, thrown, lp_position list) act" where
  "positionsOf e owner [] = retW []"
| "positionsOf e owner (p # ps) = bindW (getPosition e p owner) (\<lambda>x. bindW (positionsOf e owner ps) (\<lambda>xs. retW (x # xs)))"

definition getAllPositions :: "('x lp_module_scheme) liq_env \<Rightarrow> string \<Rightarrow> ('x lp_module_scheme, thrown, lp_position list) act" where
  "getAllPositions e owner = bindW (lqAllPairs e) (\<lambda>pairs. bindW (positionsOf e owner pairs) (\<lambda>ps.
     retW (filter (\<lambda>p. 0 < lpBalance p) ps)))"

interpretation liq_root: integer_root liq_sqrt
proof -
  have same: "liq_sqrt = sqrt" by (rule ext) (simp add: liq_sqrt_def sqrt_def)
  show "integer_root liq_sqrt" unfolding same by (rule pair_sqrt.integer_root_axioms)
qed

section \<open>Properties\<close>

lemmas pool_simps = poolQuote_def optimalB_def priceOf_def bigint_simps bigint_div_def

lemma optimalB_nonneg: "0 \<le> a \<Longrightarrow> 0 < ra \<Longrightarrow> 0 \<le> rb \<Longrightarrow> optimalB a ra rb = Inr (a * rb div ra)"
  by (simp add: optimalB_def bigint_simps)

lemma poolQuote_existing:
  assumes "0 \<le> a" "0 < ra" "0 < rb" "0 \<le> b" "0 < ts"
  shows "poolQuote a ra rb b ts = Inr \<lparr>aq_amountA = a, aq_amountB = b, aq_estimatedLP = a * ts div ra,
    aq_share = of_int ((a * ts div ra) * 10000 div (ts + a * ts div ra)) / 10000,
    aq_priceAPerB = rb * PRICE_SCALE div ra, aq_priceBPerA = ra * PRICE_SCALE div rb\<rparr>"
proof -
  have "0 \<le> a * ts div ra" using assms by (simp add: pos_imp_zdiv_nonneg_iff)
  moreover have "0 \<le> PRICE_SCALE" by (simp add: PRICE_SCALE_def)
  ultimately show ?thesis using assms by (simp add: poolQuote_def priceOf_def bigint_simps add_pos_nonneg)
qed

lemma div_step:
  fixes a b ts ra rb :: int
  assumes "0 \<le> a" "0 < ra" "0 < rb" "0 < ts" and b: "b = a * rb div ra"
  shows "b * ts div rb \<le> a * ts div ra" and "a * ts div ra \<le> b * ts div rb + ts div rb + 1"
proof -
  have b_le: "b * ra \<le> a * rb" unfolding b using assms(2) by (rule div_mult_le_int)
  have b_gt: "a * rb < (b + 1) * ra" unfolding b using assms(2) by (rule lt_div_mult_int)
  let ?x = "b * ts div rb" and ?y = "a * ts div ra"
  have x: "?x * rb \<le> b * ts" using assms(3) by (rule div_mult_le_int)
  have "?x * rb * ra \<le> b * ts * ra" using x assms(2) by (intro mult_right_mono) auto
  also have "\<dots> \<le> a * rb * ts" using mult_right_mono[OF b_le, of ts] assms(4) by (simp add: algebra_simps)
  finally have "rb * (?x * ra) \<le> rb * (a * ts)" by (simp add: algebra_simps)
  then have "?x * ra \<le> a * ts" using assms(3) by (simp add: mult_le_cancel_left)
  then show "?x \<le> ?y" using assms(2) by (simp add: div_le_iff_int)
  show "?y \<le> ?x + ts div rb + 1"
  proof (rule ccontr)
    assume "\<not> ?thesis"
    then have y: "?x + 1 + (ts div rb + 1) \<le> ?y" by simp
    have "b * ts < (?x + 1) * rb" "ts < (ts div rb + 1) * rb" using assms(3) lt_div_mult_int by blast+
    then have "(b + 1) * ts < (?x + 1 + (ts div rb + 1)) * rb" by (simp add: algebra_simps)
    also have "\<dots> \<le> ?y * rb" using y assms(3) by (intro mult_right_mono) auto
    finally have "(b + 1) * ts * ra < ?y * rb * ra" using assms(2) by simp
    moreover have "a * rb * ts < (b + 1) * ra * ts" using b_gt assms(4) by simp
    ultimately have "rb * (a * ts) < rb * (?y * ra)" by (simp add: algebra_simps)
    then have "a * ts < ?y * ra" using assms(3) by simp
    moreover have "?y * ra \<le> a * ts" using assms(2) by (rule div_mult_le_int)
    ultimately show False by simp
  qed
qed

lemma computeMint_existing':
  assumes "0 < ts" "0 < ra" "0 < rb" "0 \<le> a" "0 \<le> b" and "computeMint a b ra rb ts = Inr m"
  shows "m = min (a * ts div ra) (b * ts div rb)"
  using assms(6) computeMint_existing[OF assms(1-5)] by simp

text \<open>In an existing pool the quote never promises fewer LP tokens than the pool mints for the quoted amounts,
  and exceeds them by at most the shares of one unit of token B, and one.\<close>

theorem quote_brackets_mint:
  assumes "0 \<le> a" "0 < ra" "0 < rb" "0 < ts" and b: "optimalB a ra rb = Inr b"
    and q: "poolQuote a ra rb b ts = Inr q" and m: "computeMint a b ra rb ts = Inr m"
  shows "m \<le> aq_estimatedLP q \<and> aq_estimatedLP q \<le> m + ts div rb + 1 \<and> 0 \<le> aq_share q \<and> aq_share q \<le> 1"
proof -
  have b': "b = a * rb div ra" "0 \<le> b" using optimalB_nonneg[of a ra rb] assms(1-3) b by (auto simp: pos_imp_zdiv_nonneg_iff)
  let ?y = "a * ts div ra" and ?x = "b * ts div rb"
  have y0: "0 \<le> ?y" using assms by (simp add: pos_imp_zdiv_nonneg_iff)
  have "aq_estimatedLP q = ?y" and share: "aq_share q = of_int (?y * 10000 div (ts + ?y)) / 10000"
    using q poolQuote_existing[OF assms(1,2,3) b'(2) assms(4)] by auto
  moreover have "m = min ?y ?x" by (rule computeMint_existing'[OF assms(4,2,3,1) b'(2) m])
  moreover note div_step[OF assms(1-4) b'(1)]
  moreover have "0 \<le> ?y * 10000 div (ts + ?y)" using y0 assms(4) by (simp add: pos_imp_zdiv_nonneg_iff)
  moreover have "?y * 10000 div (ts + ?y) \<le> 10000"
  proof -
    have "?y * 10000 div (ts + ?y) < 10001" using y0 assms(4) by (simp add: div_less_iff_int algebra_simps)
    then show ?thesis by simp
  qed
  then have "(of_int (?y * 10000 div (ts + ?y)) :: rat) \<le> of_int 10000" by (rule of_int_le_iff[THEN iffD2])
  ultimately show ?thesis by auto
qed

theorem quote_brackets_mint_witness:
  "\<exists>q. poolQuote 100 1000 2000 200 500 = Inr q \<and> (50 \<le> aq_estimatedLP q \<and> aq_estimatedLP q \<le> 50 + 500 div 2000 + 1 \<and>
     0 \<le> aq_share q \<and> aq_share q \<le> 1)"
proof -
  obtain q where q: "poolQuote 100 1000 2000 200 500 = Inr q" by (simp add: poolQuote_existing)
  have b: "optimalB 100 1000 2000 = Inr 200" by (simp add: optimalB_nonneg)
  have m: "computeMint 100 200 1000 2000 500 = Inr 50" by (simp add: computeMint_existing)
  show ?thesis using q quote_brackets_mint[OF _ _ _ _ b q m] by simp
qed

text \<open>The quote of a first deposit is the pool's formula without its check: it is zero or negative exactly
  where the pool refuses the deposit.\<close>

theorem first_quote_negative:
  assumes "0 < amount"
  shows "\<exists>q. firstQuote amount = Inr q \<and> aq_estimatedLP q = amount - 1000 \<and>
    (aq_estimatedLP q \<le> 0 \<longleftrightarrow> computeMint amount amount ra rb 0 = Inl (InsufficientLiquidityError ''pair'' None)) \<and>
    (0 < aq_estimatedLP q \<longleftrightarrow> computeMint amount amount ra rb 0 = Inr (aq_estimatedLP q))"
  using assms liq_root.root_square[of amount] pair_sqrt.root_square[of amount]
  by (simp add: firstQuote_def computeMint_def MIN_LIQUIDITY_def Let_def)

theorem first_quote_negative_witness:
  "\<exists>q. firstQuote 10 = Inr q \<and> aq_estimatedLP q = 10 - 1000 \<and>
    (aq_estimatedLP q \<le> 0 \<longleftrightarrow> computeMint 10 10 0 0 0 = Inl (InsufficientLiquidityError ''pair'' None)) \<and>
    (0 < aq_estimatedLP q \<longleftrightarrow> computeMint 10 10 0 0 0 = Inr (aq_estimatedLP q))"
  by (rule first_quote_negative) simp

text \<open>A pair that exists without reserves has no quote: the division throws.\<close>

theorem empty_pair_has_no_quote:
  assumes "quoteIssues (lqValid e) tokenA tokenB amount = []" and "lqPairAddress e tokenA tokenB w = (Inr (Some (c # cs)), w1)"
    and "lqReserves e (c # cs) w1 = (Inr (0, 0), w2)" and "lqTokens e (c # cs) w2 = (Inr (t0, t1), w3)"
  shows "getAddLiquidityQuote e tokenA tokenB amount w = (Inl (Sdk (RangeError ''Division by zero'')), w3)"
  using assms by (simp add: getAddLiquidityQuote_def validateWithSchema_def bindW_def liftW_def optimalB_def)

text \<open>The quote asks the pair's own address for the LP supply, whatever token \<open>getPosition\<close> reads.\<close>

theorem quote_asks_pair:
  assumes "quoteIssues (lqValid e) tokenA tokenB amount = []" and "lqPairAddress e tokenA tokenB w = (Inr (Some (c # cs)), w1)"
    and "lqReserves e (c # cs) w1 = (Inr (r0, r1), w2)" and "r0 \<noteq> 0" "r1 \<noteq> 0"
    and "lqTokens e (c # cs) w2 = (Inr (t0, t1), w3)" and "lqTotalSupply e (c # cs) w3 = (Inl err, w4)"
  shows "getAddLiquidityQuote e tokenA tokenB amount w = (Inl err, w4)"
  using assms by (simp add: getAddLiquidityQuote_def validateWithSchema_def bindW_def liftW_def optimalB_def getLPTotalSupply_def)

section \<open>One submission\<close>

text \<open>The surroundings of a counted submission: \<open>L\<close> reads the submissions from the world, which nothing but a
  submission changes.\<close>

definition logs_submissions :: "('w \<Rightarrow> liq_op list list) \<Rightarrow> 'w liq_env \<Rightarrow> bool" where
  "logs_submissions L e \<longleftrightarrow> (\<forall>ops w. L (snd (lqSubmit e ops w)) = L w @ [ops]) \<and> (\<forall>h. keeps L (lqGetTransaction e h)) \<and>
     (\<forall>f ops. lqSimulate e = Some f \<longrightarrow> keeps L (f ops))"

lemma submitIdempotent_log:
  assumes "logs_submissions L e"
  shows "L (snd (submitIdempotent (lqSubmit e ops) (lqGetTransaction e) w)) = L w @ [ops]"
proof -
  obtain r w1 where s: "lqSubmit e ops w = (r, w1)" by force
  then have w1: "L w1 = L w @ [ops]" using assms by (metis logs_submissions_def snd_conv)
  have "L (snd (lqGetTransaction e h w1)) = L w1" for h using assms by (simp add: logs_submissions_def keeps_def)
  then show ?thesis using s w1
    by (auto simp: submitIdempotent_def Let_def split: sum.splits prod.splits) (metis snd_conv)+
qed

lemma finishLiquidity_log:
  assumes "logs_submissions L e"
  shows "L (snd (finishLiquidity e what op sim n fallback dflt w)) = L w @ [[op]]"
proof -
  obtain r w1 where s: "submitIdempotent (lqSubmit e [op]) (lqGetTransaction e) w = (r, w1)" by force
  then have "L w1 = L w @ [[op]]" using submitIdempotent_log[OF assms, of "[op]" w] by simp
  then show ?thesis using s
    by (auto simp: finishLiquidity_def bindW_def throwW_def retW_def liftW_def split: sum.splits prod.splits option.splits)
qed

lemma simulateIfAble_keeps: "logs_submissions L e \<Longrightarrow> keeps L (simulateIfAble e op)"
  by (auto simp: simulateIfAble_def logs_submissions_def split: option.splits)

lemma liqEstimate_keeps: "logs_submissions L e \<Longrightarrow> keeps L (liqEstimate e op)"
  by (auto simp: liqEstimate_def logs_submissions_def split: option.splits intro!: keeps_bindW)

text \<open>C40: Adding liquidity submits at most one transaction, whose single call respects the caller's limits; an
  estimate submits nothing.\<close>

theorem add_liquidity_submits_once:
  assumes log: "logs_submissions L e" and run: "addLiquidity e r estimateOnly w = (res, w')"
  shows "L w' = L w \<or> (\<not> estimateOnly \<and> (\<exists>d. L w' = L w @ [[AddLiquidityCall (al_to r) (al_tokenA r) (al_tokenB r)
      (al_amountADesired r) (al_amountBDesired r) (al_amountAMin r) (al_amountBMin r) d]]) \<and>
    0 \<le> al_amountAMin r \<and> al_amountAMin r \<le> al_amountADesired r \<and> 0 < al_amountADesired r \<and>
    0 \<le> al_amountBMin r \<and> al_amountBMin r \<le> al_amountBDesired r \<and> 0 < al_amountBDesired r \<and> al_tokenA r \<noteq> al_tokenB r)"
proof -
  let ?op = "AddLiquidityCall (al_to r) (al_tokenA r) (al_tokenB r) (al_amountADesired r) (al_amountBDesired r)
      (al_amountAMin r) (al_amountBMin r) (case al_deadline r of Some d \<Rightarrow> d | None \<Rightarrow> lqDeadline e w)"
  show ?thesis
  proof (cases "addIssues (lqValid e) r = []")
    case False
    then show ?thesis using run
      by (auto simp: addLiquidity_def buildAddLiquidityOperation_def validateWithSchema_def bindW_def liftW_def)
  next
    case True
    have b: "buildAddLiquidityOperation e r w = (Inr ?op, w)"
      using True by (simp add: buildAddLiquidityOperation_def validateWithSchema_def bindW_def liftW_def retW_def)
    have lim: "0 \<le> al_amountAMin r \<and> al_amountAMin r \<le> al_amountADesired r \<and> 0 < al_amountADesired r \<and>
        0 \<le> al_amountBMin r \<and> al_amountBMin r \<le> al_amountBDesired r \<and> 0 < al_amountBDesired r \<and> al_tokenA r \<noteq> al_tokenB r"
      using True by (auto simp: schema_defs split: if_splits)
    show ?thesis
    proof (cases estimateOnly)
      case True
      then have "liqEstimate e ?op w = (res, w')" using run b by (simp add: addLiquidity_def bindW_def)
      then show ?thesis using keepsD[OF liqEstimate_keeps[OF log]] by blast
    next
      case False
      obtain s w1 where s: "simulateIfAble e ?op w = (s, w1)" by force
      have w1: "L w1 = L w" using keepsD[OF simulateIfAble_keeps[OF log] s] .
      have "w' = w1 \<or> L w' = L w1 @ [[?op]]"
      proof (cases s)
        case (Inr sim)
        then show ?thesis using run b s False finishLiquidity_log[OF log]
          by (simp add: addLiquidity_def bindW_def) (metis snd_conv)
      qed (use run b s False in \<open>simp add: addLiquidity_def bindW_def\<close>)
      then show ?thesis using w1 lim False by auto
    qed
  qed
qed

text \<open>The simulated amounts are decoded after the submission: when the decoder does not know their shape the
  call throws, without the hash, although the deposit is on the chain.\<close>

theorem landed_deposit_throws:
  assumes "addIssues (lqValid e) r = []" and "lqSimulate e = Some f"
    and "op = AddLiquidityCall (al_to r) (al_tokenA r) (al_tokenB r) (al_amountADesired r) (al_amountBDesired r)
      (al_amountAMin r) (al_amountBMin r) (case al_deadline r of Some d \<Rightarrow> d | None \<Rightarrow> lqDeadline e w)"
    and "f [op] w = (Inr s, w1)" and "simOk s" and "simReturn s = Some (VecOf (OtherEntry # x # y # vs))"
    and "lqSubmit e [op] w1 = (Inr res, w2)" and "success res"
  shows "addLiquidity e r False w = (Inl (Sdk (TransactionError ''Liquidity simulation returned a non-i128 value'' None)), w2)"
  using assms
  by (simp add: addLiquidity_def buildAddLiquidityOperation_def validateWithSchema_def bindW_def liftW_def retW_def
      simulateIfAble_def finishLiquidity_def submitIdempotent_def decodeLiquidityResult_def decodeEntry_def)

section \<open>Positions never exceed the reserves\<close>

lemma position_amounts_covered_aux:
  fixes r tot :: int
  assumes "0 < tot" and "0 \<le> r" and "list_all (\<lambda>b. 0 \<le> b) bs"
  shows "sum_list (map (\<lambda>b. r * b sdiv tot) bs) * tot \<le> r * sum_list bs"
  using assms(3)
proof (induction bs)
  case (Cons b bs)
  then have "r * b sdiv tot = r * b div tot" using assms(1,2) by (simp add: sdiv_nonneg)
  moreover have "r * b div tot * tot \<le> r * b" using assms(1) by (rule div_mult_le_int)
  ultimately show ?case using Cons by (simp add: algebra_simps)
qed simp

text \<open>What the holders of a pool's tokens are shown adds up to no more than the reserves, when their balances add
  up to no more than the supply.\<close>

theorem position_amounts_covered:
  assumes "0 < supply" and "0 \<le> r0" and "0 \<le> r1" and "list_all (\<lambda>b. 0 \<le> b) bs" and "sum_list bs \<le> supply"
  shows "sum_list (map (\<lambda>b. lpAmount0 (positionOf p t (r0, r1) b supply)) bs) \<le> r0 \<and>
    sum_list (map (\<lambda>b. lpAmount1 (positionOf p t (r0, r1) b supply)) bs) \<le> r1"
proof -
  have "sum_list (map (\<lambda>b. r * b sdiv supply) bs) \<le> r" if "0 \<le> r" for r
  proof -
    have "sum_list (map (\<lambda>b. r * b sdiv supply) bs) * supply \<le> r * supply"
      using position_amounts_covered_aux[OF assms(1) that assms(4)] mult_left_mono[OF assms(5) that] by linarith
    then show ?thesis using assms(1) by simp
  qed
  then show ?thesis using assms(1-3) by (simp add: positionOf_def)
qed

section \<open>Witnesses\<close>

definition some_liq_env :: "(int \<times> liq_op list list) lp_module_scheme liq_env" where
  "some_liq_env = \<lparr>lqPairAddress = (\<lambda>_ _ w. (Inr (Some ''P''), w)), lqReserves = (\<lambda>_ w. (Inr (0, 0), w)),
     lqTokens = (\<lambda>_ w. (Inr (''A'', ''B''), w)), lqLPTokenAddress = (\<lambda>_ w. (Inr ''L'', w)), lqBalance = (\<lambda>_ _ w. (Inr 1, w)),
     lqTotalSupply = (\<lambda>_ w. (Inl Undefined, w)), lqAllPairs = (\<lambda>w. (Inr [''P''], w)),
     lqSimulate = Some (\<lambda>_ w. (Inr \<lparr>simOk = True, simErr = None, simFee = None,
       simReturn = Some (VecOf [OtherEntry, BigEntry 1, BigEntry 1])\<rparr>, w)),
     lqSubmit = (\<lambda>ops w. (Inr \<lparr>success = True, res_data = Some (''h'', 1), res_error = None, res_txHash = Some ''h''\<rparr>,
       lp_module.more_update (\<lambda>(n, log). (n, log @ [ops])) w)),
     lqGetTransaction = (\<lambda>_ w. (Inl Undefined, w)), lqValid = (\<lambda>_. True), lqDeadline = (\<lambda>_. 0)\<rparr>"

definition some_world :: "(int \<times> liq_op list list) lp_module_scheme" where
  "some_world = \<lparr>lpTokenCache = [], \<dots> = (0, [])\<rparr>"

definition some_add :: add_liquidity_request where
  "some_add = \<lparr>al_tokenA = ''A'', al_tokenB = ''B'', al_amountADesired = 5, al_amountBDesired = 5, al_amountAMin = 1,
     al_amountBMin = 1, al_to = ''C'', al_deadline = None\<rparr>"

lemma trims: "trim ''A'' \<noteq> []" "trim ''B'' \<noteq> []" "trim ''C'' \<noteq> []"
  by code_simp+

lemma some_add_valid: "addIssues (lqValid some_liq_env) some_add = []" "quoteIssues (lqValid some_liq_env) ''A'' ''B'' 5 = []"
  using trims by (simp_all add: schema_defs some_liq_env_def some_add_def)

theorem empty_pair_has_no_quote_witness:
  "getAddLiquidityQuote some_liq_env ''A'' ''B'' 5 some_world = (Inl (Sdk (RangeError ''Division by zero'')), some_world)"
  by (rule empty_pair_has_no_quote[OF some_add_valid(2)]) (auto simp: some_liq_env_def)

theorem quote_asks_pair_witness:
  "getAddLiquidityQuote (some_liq_env\<lparr>lqReserves := \<lambda>_ w. (Inr (7, 7), w)\<rparr>) ''A'' ''B'' 5 some_world = (Inl Undefined, some_world)"
  using some_add_valid(2) by (intro quote_asks_pair) (auto simp: some_liq_env_def)

theorem add_liquidity_submits_once_witness:
  "snd (lp_module.more (snd (addLiquidity some_liq_env some_add False some_world))) = [] \<or>
   (\<exists>d. snd (lp_module.more (snd (addLiquidity some_liq_env some_add False some_world))) =
      [[AddLiquidityCall ''C'' ''A'' ''B'' 5 5 1 1 d]])"
proof -
  let ?L = "\<lambda>w :: (int \<times> liq_op list list) lp_module_scheme. snd (lp_module.more w)"
  have "logs_submissions ?L some_liq_env"
    by (auto simp: logs_submissions_def some_liq_env_def keeps_def split: prod.splits)
  from add_liquidity_submits_once[OF this, of some_add False some_world] show ?thesis
    by (cases "addLiquidity some_liq_env some_add False some_world") (auto simp: some_add_def some_world_def)
qed

theorem landed_deposit_throws_witness:
  "\<exists>w2. addLiquidity some_liq_env some_add False some_world =
    (Inl (Sdk (TransactionError ''Liquidity simulation returned a non-i128 value'' None)), w2) \<and> snd (lp_module.more w2) \<noteq> []"
proof -
  let ?w2 = "\<lambda>op. snd (lqSubmit some_liq_env [op] some_world)"
  let ?op = "AddLiquidityCall ''C'' ''A'' ''B'' 5 5 1 1 0"
  have "addLiquidity some_liq_env some_add False some_world =
      (Inl (Sdk (TransactionError ''Liquidity simulation returned a non-i128 value'' None)), ?w2 ?op)"
    by (rule landed_deposit_throws[OF some_add_valid(1), where w = some_world])
      (auto simp: some_liq_env_def some_add_def)
  then show ?thesis by (auto simp: some_liq_env_def some_world_def)
qed

theorem position_amounts_covered_witness:
  "sum_list (map (\<lambda>b. lpAmount0 (positionOf [] [] (7, 9) b 3)) [1, 1, 1 :: int]) \<le> 7 \<and>
    sum_list (map (\<lambda>b. lpAmount1 (positionOf [] [] (7, 9) b 3)) [1, 1, 1]) \<le> 9"
  by (rule position_amounts_covered) simp_all

end
