(* ===== verification/Dca.thy ===== *)
theory Dca
  imports Governance Liquidity
begin

text \<open>
  \<open>modules/dca.ts\<close>: schedules of a dollar-cost-averaging contract, created, read, measured and cancelled.
  The state is the contract's. A contract value reaches the decoders as \<open>native\<close>; an unsuccessful
  simulation, or one without a value, is \<open>None\<close>.
\<close>

section \<open>Schedules\<close>

record dca_params =
  dpTokenIn :: string
  dpTokenOut :: string
  dpAmount :: int
  dpInterval :: rat
  dpTotal :: rat
  dpPair :: string
  dpSlippage :: "rat option"

record dca_schedule =
  dcId :: string
  dcOwner :: string
  dcTokenIn :: string
  dcTokenOut :: string
  dcAmount :: int
  dcInterval :: int
  dcTotal :: int
  dcExecuted :: int
  dcRemaining :: int
  dcNextAt :: int
  dcStatus :: native

record dca_performance =
  pfInvested :: int
  pfReceived :: int
  pfLumpSum :: int
  pfSavings :: int
  pfSavingsBps :: int

record dca_cancellation =
  cnScheduleId :: string
  cnTxHash :: string
  cnRefund :: int

definition MIN_INTERVAL_SECONDS :: rat where "MIN_INTERVAL_SECONDS = 3600"
definition MIN_TOTAL_INTERVALS :: rat where "MIN_TOTAL_INTERVALS = 2"
definition DEFAULT_SLIPPAGE_TOLERANCE_BPS :: rat where "DEFAULT_SLIPPAGE_TOLERANCE_BPS = 100"
definition MAX_SLIPPAGE_TOLERANCE_BPS :: rat where "MAX_SLIPPAGE_TOLERANCE_BPS = 5000"

datatype dca_call =
    CreateDca string string int rat rat string rat string
  | CancelDca string string
  | GetSchedule string
  | GetSchedules string
  | GetPerformance string

record 'w dca_env =
  dcaSimulate :: "dca_call \<Rightarrow> ('w, thrown, native option) act"
  dcaSubmit :: "dca_call list \<Rightarrow> string \<Rightarrow> ('w, thrown, sdk_result) act"
  dcaValid :: "string \<Rightarrow> bool"
  dcaNumber :: "native \<Rightarrow> int"
  dcaIssueText :: "dca_params \<Rightarrow> string"

section \<open>Creating\<close>

definition whole :: "rat \<Rightarrow> bool" where
  "whole q \<longleftrightarrow> q = of_int \<lfloor>q\<rfloor> \<and> \<bar>q\<bar> \<le> 2 ^ 53 - 1"

definition DCAParamsSchema :: "(string \<Rightarrow> bool) \<Rightarrow> dca_params \<Rightarrow> bool" where
  "DCAParamsSchema valid p \<longleftrightarrow>
     dpTokenIn p \<noteq> [] \<and> valid (dpTokenIn p) \<and> dpTokenOut p \<noteq> [] \<and> valid (dpTokenOut p) \<and>
     whole (dpInterval p) \<and> MIN_INTERVAL_SECONDS \<le> dpInterval p \<and> whole (dpTotal p) \<and> MIN_TOTAL_INTERVALS \<le> dpTotal p \<and>
     dpPair p \<noteq> [] \<and> valid (dpPair p) \<and>
     (case dpSlippage p of None \<Rightarrow> True | Some s \<Rightarrow> whole s \<and> 1 \<le> s \<and> s \<le> MAX_SLIPPAGE_TOLERANCE_BPS) \<and>
     dpTokenIn p \<noteq> dpTokenOut p \<and> 0 < dpAmount p"

text \<open>The wording of a refusal comes from the schema library.\<close>

definition validateCreateDCAParams :: "(string \<Rightarrow> bool) \<Rightarrow> (dca_params \<Rightarrow> string) \<Rightarrow> dca_params \<Rightarrow> unit result" where
  "validateCreateDCAParams valid wording p = (if DCAParamsSchema valid p then Inr () else Inl (ValidationError (wording p)))"

text \<open>A submission whose failure is thrown; a success has a hash.\<close>

definition submittedHash :: "string \<Rightarrow> sdk_result \<Rightarrow> ('w, thrown, string) act" where
  "submittedHash what r = (if \<not> success r
     then throwW (Sdk (TransactionError (what @ '' failed: '' @ error_message_or r ''Unknown error'') (res_txHash r)))
     else retW (case res_txHash r of None \<Rightarrow> [] | Some h \<Rightarrow> h))"

definition createDCA :: "'w dca_env \<Rightarrow> dca_params \<Rightarrow> ('w, thrown, string) act \<Rightarrow> ('w, thrown, string) act" where
  "createDCA e p signer = bindW (liftW (validateCreateDCAParams (dcaValid e) (dcaIssueText e) p)) (\<lambda>_.
     bindW signer (\<lambda>publicKey.
     bindW (dcaSubmit e [CreateDca (dpTokenIn p) (dpTokenOut p) (dpAmount p) (dpInterval p) (dpTotal p) (dpPair p)
         (case dpSlippage p of None \<Rightarrow> DEFAULT_SLIPPAGE_TOLERANCE_BPS | Some s \<Rightarrow> s) publicKey] publicKey)
       (submittedHash ''createDCA'')))"

section \<open>Reading\<close>

definition decodeSchedule :: "(native \<Rightarrow> int) \<Rightarrow> native \<Rightarrow> dca_schedule result" where
  "decodeSchedule num v =
    (let txt = (\<lambda>k. text_or [] (nget v k)); n0 = (\<lambda>k. case nget v k of None \<Rightarrow> 0 | Some x \<Rightarrow> number_of num x);
         total = n0 ''total_intervals''; executed = n0 ''executed_count''
     in bindE (bigint_of_text (text_or ''0'' (nget v ''amount_per_interval''))) (\<lambda>amount.
       Inr \<lparr>dcId = txt ''id'', dcOwner = txt ''owner'', dcTokenIn = txt ''token_in'', dcTokenOut = txt ''token_out'',
            dcAmount = amount, dcInterval = n0 ''interval_seconds'', dcTotal = total, dcExecuted = executed,
            dcRemaining = max (total - executed) 0, dcNextAt = n0 ''next_execution_at'',
            dcStatus = (case nget v ''status'' of None \<Rightarrow> NStr ''active'' | Some s \<Rightarrow> s)\<rparr>))"

definition requireId :: "string \<Rightarrow> unit result" where
  "requireId i = (if trim i = [] then Inl (ValidationError ''scheduleId must not be empty'') else Inr ())"

definition getDCASchedule :: "'w dca_env \<Rightarrow> string \<Rightarrow> ('w, thrown, dca_schedule) act" where
  "getDCASchedule e i = bindW (liftW (requireId i)) (\<lambda>_. bindW (dcaSimulate e (GetSchedule i)) (\<lambda>r. case r of
       None \<Rightarrow> throwW (Sdk (ValidationError ''DCA schedule not found''))
     | Some v \<Rightarrow> liftW (decodeSchedule (dcaNumber e) v)))"

definition getDCASchedules :: "'w dca_env \<Rightarrow> string \<Rightarrow> ('w, thrown, dca_schedule list) act" where
  "getDCASchedules e owner =
     (if \<not> dcaValid e owner then throwW (Sdk (ValidationError (''owner is not a valid Stellar address: '' @ owner)))
      else bindW (dcaSimulate e (GetSchedules owner)) (\<lambda>r. case r of
          Some (NList vs) \<Rightarrow> liftW (mapE (decodeSchedule (dcaNumber e)) vs)
        | _ \<Rightarrow> retW []))"

definition performanceOf :: "int \<Rightarrow> int \<Rightarrow> int \<Rightarrow> dca_performance" where
  "performanceOf invested received lump = \<lparr>pfInvested = invested, pfReceived = received, pfLumpSum = lump,
     pfSavings = received - lump,
     pfSavingsBps = (if lump = 0 then 0 else ((received - lump) * BPS_DENOMINATOR) sdiv lump)\<rparr>"

definition getDCAPerformance :: "'w dca_env \<Rightarrow> string \<Rightarrow> ('w, thrown, dca_performance) act" where
  "getDCAPerformance e i = bindW (liftW (requireId i)) (\<lambda>_. bindW (dcaSimulate e (GetPerformance i)) (\<lambda>r. case r of
       None \<Rightarrow> throwW (Sdk (ValidationError ''DCA schedule not found''))
     | Some v \<Rightarrow> (let big = (\<lambda>k. bigint_of_text (text_or ''0'' (nget v k)))
         in liftW (bindE (big ''total_invested'') (\<lambda>a. bindE (big ''total_received'') (\<lambda>b. bindE (big ''lump_sum_received'') (\<lambda>c.
              Inr (performanceOf a b c))))))))"

section \<open>Cancelling\<close>

definition cancelDCA :: "'w dca_env \<Rightarrow> string \<Rightarrow> ('w, thrown, string) act \<Rightarrow> ('w, thrown, dca_cancellation) act" where
  "cancelDCA e i signer = bindW (liftW (requireId i)) (\<lambda>_. bindW (getDCASchedule e i) (\<lambda>s.
     if dcStatus s = NStr ''cancelled'' then throwW (Sdk (ValidationError ''DCA schedule is already cancelled''))
     else if dcStatus s = NStr ''completed'' then throwW (Sdk (ValidationError ''Cannot cancel a completed DCA schedule''))
     else bindW signer (\<lambda>publicKey.
       bindW (dcaSubmit e [CancelDca i publicKey] publicKey) (\<lambda>r. bindW (submittedHash ''cancelDCA'' r) (\<lambda>h.
         retW \<lparr>cnScheduleId = i, cnTxHash = h, cnRefund = dcAmount s * dcRemaining s\<rparr>)))))"

section \<open>Properties\<close>

lemma getDCASchedule_decoded:
  "getDCASchedule e i w = (Inr s, w') \<Longrightarrow> \<exists>v. decodeSchedule (dcaNumber e) v = Inr s"
  by (auto simp: getDCASchedule_def act_simps split: option.splits)

lemma decodeSchedule_counts:
  "decodeSchedule num v = Inr s \<Longrightarrow> 0 \<le> dcRemaining s \<and> (dcExecuted s \<le> dcTotal s \<longrightarrow> dcExecuted s + dcRemaining s = dcTotal s)"
  by (auto simp: decodeSchedule_def Let_def bindE_eq_Inr)

text \<open>A cancellation is submitted once, for a schedule read as neither cancelled nor completed, and the refund
  it reports is the schedule's amount for every interval that reading left.\<close>

theorem cancel_refund:
  assumes "\<And>ops k w. L (snd (dcaSubmit e ops k w)) = Suc (L w)" and "\<And>c. keeps L (dcaSimulate e c)" and "keeps L signer"
    and "cancelDCA e i signer w = (Inr c, w')"
  shows "L w' = Suc (L w) \<and> (\<exists>s v. getDCASchedule e i w = (Inr s, v) \<and> dcStatus s \<noteq> NStr ''cancelled'' \<and>
    dcStatus s \<noteq> NStr ''completed'' \<and> cnRefund c = dcAmount s * dcRemaining s \<and> 0 \<le> dcRemaining s)"
proof -
  obtain s v k v1 r v2 where s: "getDCASchedule e i w = (Inr s, v)" and st: "dcStatus s \<noteq> NStr ''cancelled''" "dcStatus s \<noteq> NStr ''completed''"
    and k: "signer v = (Inr k, v1)" and r: "dcaSubmit e [CancelDca i k] k v1 = (Inr r, v2)" and c: "w' = v2" "cnRefund c = dcAmount s * dcRemaining s"
    using assms(4) by (auto simp: cancelDCA_def submittedHash_def act_simps split: if_splits)
  have "keeps L (getDCASchedule e i)"
    unfolding getDCASchedule_def using assms(2) by (auto intro!: keeps_bindW split: option.split)
  then have "L v = L w" using s by (rule keepsD)
  moreover have "L v1 = L v" using assms(3) k by (rule keepsD)
  moreover have "L v2 = Suc (L v1)" using assms(1)[of "[CancelDca i k]" k v1] r by simp
  moreover have "0 \<le> dcRemaining s" using getDCASchedule_decoded[OF s] decodeSchedule_counts by blast
  ultimately show ?thesis using s st c by (intro conjI exI[of _ s] exI[of _ v]) auto
qed

text \<open>A schedule contract with one schedule: \<open>done\<close> intervals of \<open>amount\<close> have run, and cancelling pays the rest.\<close>

record dca_chain =
  chDone :: nat
  chPaid :: int

definition dca_chain_env :: "int \<Rightarrow> nat \<Rightarrow> dca_chain dca_env" where
  "dca_chain_env amount tot = \<lparr>dcaSimulate = (\<lambda>_ w. (Inr (Some (NRec [(''amount_per_interval'', NStr (int_str amount)),
       (''total_intervals'', NNum (int tot)), (''executed_count'', NNum (int (chDone w)))])), w)),
     dcaSubmit = (\<lambda>_ _ w. (Inr \<lparr>success = True, res_data = Some (''h'', 1), res_error = None, res_txHash = Some ''h''\<rparr>,
       w\<lparr>chPaid := amount * (int tot - int (chDone w))\<rparr>)),
     dcaValid = (\<lambda>_. True), dcaNumber = (\<lambda>_. 0), dcaIssueText = (\<lambda>_. [])\<rparr>"

definition slow_signer :: "(dca_chain, thrown, string) act" where
  "slow_signer w = (Inr ''G'', w\<lparr>chDone := Suc (chDone w)\<rparr>)"

text \<open>The refund is computed from the state read before the wallet is asked for its key: an interval executed
  meanwhile is reported as refunded although it was spent.\<close>

theorem refund_is_stale:
  assumes "trim i \<noteq> []" and "n < tot" and "bigint_of_text (int_str amount) = Inr amount"
  shows "\<exists>c w'. cancelDCA (dca_chain_env amount tot) i slow_signer \<lparr>chDone = n, chPaid = 0\<rparr> = (Inr c, w') \<and>
    cnRefund c = amount * (int tot - int n) \<and> chPaid w' = amount * (int tot - int n - 1)"
  using assms
  by (simp add: cancelDCA_def getDCASchedule_def requireId_def dca_chain_env_def slow_signer_def decodeSchedule_def nget_def
      text_or_def number_of_def bindW_def liftW_def retW_def throwW_def submittedHash_def Let_def algebra_simps)

text \<open>The ID that creation returns is the hash of the transaction, not an ID of the contract.\<close>

theorem created_id_is_hash:
  assumes "createDCA e p signer w = (Inr i, w')"
  shows "DCAParamsSchema (dcaValid e) p \<and>
    (\<exists>k v ops r. signer w = (Inr k, v) \<and> dcaSubmit e ops k v = (Inr r, w') \<and> success r \<and> length ops = 1 \<and>
      (res_txHash r = Some i \<or> res_txHash r = None \<and> i = []))"
  using assms
  by (auto simp: createDCA_def validateCreateDCAParams_def submittedHash_def act_simps split: if_splits option.splits) fastforce+

text \<open>The savings in basis points have the sign of the savings and are their ratio to the lump sum, rounded to zero.\<close>

theorem savings_ratio:
  assumes "0 < lump"
  shows "let p = performanceOf invested received lump in
    \<bar>pfSavingsBps p\<bar> * lump \<le> \<bar>pfSavings p\<bar> * 10000 \<and> \<bar>pfSavings p\<bar> * 10000 < (\<bar>pfSavingsBps p\<bar> + 1) * lump \<and>
    0 \<le> pfSavingsBps p * pfSavings p"
proof -
  let ?d = "(received - lump) * 10000"
  have "?d sdiv lump = sgn ?d * (\<bar>?d\<bar> div lump)" using assms by (simp add: signed_divide_int_def)
  then have abs: "\<bar>?d sdiv lump\<bar> = \<bar>?d\<bar> div lump" using assms
    by (cases "?d = 0") (auto simp: abs_mult pos_imp_zdiv_nonneg_iff)
  have "0 \<le> (?d sdiv lump) * ?d"
  proof -
    have "(?d sdiv lump) * ?d = (\<bar>?d\<bar> div lump) * \<bar>?d\<bar>"
      using assms by (simp add: signed_divide_int_def abs_sgn mult.commute mult.left_commute)
    then show ?thesis using assms by (simp add: pos_imp_zdiv_nonneg_iff)
  qed
  then have "0 \<le> (?d sdiv lump) * (received - lump)" by (simp add: zero_le_mult_iff)
  moreover have "\<bar>?d\<bar> = \<bar>received - lump\<bar> * 10000" by (simp only: abs_mult abs_numeral)
  ultimately show ?thesis using assms abs div_mult_le_int[OF assms, of "\<bar>?d\<bar>"] lt_div_mult_int[OF assms, of "\<bar>?d\<bar>"]
    by (simp add: performanceOf_def BPS_DENOMINATOR_def Let_def del: left_diff_distrib_numeral)
qed

section \<open>Witnesses\<close>

lemma some_dca: "bigint_of_text (int_str 7) = Inr 7" "trim ''s'' \<noteq> []"
  by code_simp+

theorem refund_is_stale_witness:
  "\<exists>c w'. cancelDCA (dca_chain_env 7 3) ''s'' slow_signer \<lparr>chDone = 1, chPaid = 0\<rparr> = (Inr c, w') \<and>
    cnRefund c = 7 * (int 3 - int 1) \<and> chPaid w' = 7 * (int 3 - int 1 - 1)"
  by (rule refund_is_stale) (use some_dca in simp_all)

theorem savings_ratio_witness:
  "let p = performanceOf 10 90 120 in
    \<bar>pfSavingsBps p\<bar> * 120 \<le> \<bar>pfSavings p\<bar> * 10000 \<and> \<bar>pfSavings p\<bar> * 10000 < (\<bar>pfSavingsBps p\<bar> + 1) * 120 \<and>
    0 \<le> pfSavingsBps p * pfSavings p"
  by (rule savings_ratio) simp

definition counted_dca :: "nat dca_env" where
  "counted_dca = \<lparr>dcaSimulate = (\<lambda>_ w. (Inr (Some (NRec [])), w)),
     dcaSubmit = (\<lambda>_ _ w. (Inr \<lparr>success = True, res_data = Some (''h'', 1), res_error = None, res_txHash = Some ''h''\<rparr>, Suc w)),
     dcaValid = (\<lambda>_. True), dcaNumber = (\<lambda>_. 0), dcaIssueText = (\<lambda>_. [])\<rparr>"

lemma zero_text: "bigint_of_text ''0'' = Inr 0"
  by code_simp

theorem cancel_refund_witness:
  "\<exists>c w'. cancelDCA counted_dca ''s'' (retW ''G'') 0 = (Inr c, w') \<and> w' = Suc 0 \<and> cnRefund c = 0"
proof -
  obtain c w' where run: "cancelDCA counted_dca ''s'' (retW ''G'') 0 = (Inr c, w')"
    using some_dca(2) zero_text
    by (auto simp: cancelDCA_def getDCASchedule_def requireId_def counted_dca_def decodeSchedule_def nget_def text_or_def
        bindW_def liftW_def retW_def throwW_def submittedHash_def Let_def)
  have "w' = Suc 0 \<and> (\<exists>s v. getDCASchedule counted_dca ''s'' 0 = (Inr s, v) \<and> dcStatus s \<noteq> NStr ''cancelled'' \<and>
      dcStatus s \<noteq> NStr ''completed'' \<and> cnRefund c = dcAmount s * dcRemaining s \<and> 0 \<le> dcRemaining s)"
    by (rule cancel_refund[where L = "\<lambda>n. n", OF _ _ _ run]) (simp_all add: counted_dca_def keeps_def retW_def)
  then show ?thesis using run some_dca(2) zero_text
    by (auto simp: cancelDCA_def getDCASchedule_def requireId_def counted_dca_def decodeSchedule_def nget_def text_or_def
        bindW_def liftW_def retW_def throwW_def submittedHash_def Let_def)
qed

definition some_dca_params :: dca_params where
  "some_dca_params = \<lparr>dpTokenIn = ''A'', dpTokenOut = ''B'', dpAmount = 1, dpInterval = 3600, dpTotal = 2, dpPair = ''P'',
     dpSlippage = None\<rparr>"

lemma some_dca_valid: "DCAParamsSchema (\<lambda>_. True) some_dca_params"
proof -
  have "whole (of_int 3600)" "whole (of_int 2)" by (simp_all only: whole_def floor_of_int) simp_all
  then show ?thesis by (simp add: DCAParamsSchema_def some_dca_params_def MIN_INTERVAL_SECONDS_def MIN_TOTAL_INTERVALS_def)
qed

theorem created_id_is_hash_witness:
  "createDCA counted_dca some_dca_params (retW ''G'') 0 = (Inr ''h'', 1) \<and> DCAParamsSchema (dcaValid counted_dca) some_dca_params"
proof -
  have run: "createDCA counted_dca some_dca_params (retW ''G'') 0 = (Inr ''h'', 1)"
    using some_dca_valid by (simp add: createDCA_def validateCreateDCAParams_def counted_dca_def bindW_def liftW_def retW_def submittedHash_def)
  then show ?thesis using created_id_is_hash[OF run] by blast
qed

end
