(* ===== verification/StopLoss.thy ===== *)
theory StopLoss
  imports Governance Liquidity Dca Swap "HOL-Library.Multiset"
begin

text \<open>
  \<open>modules/stop-loss.ts\<close>: stop-loss orders against the price of an oracle. What the module calls is in
  \<open>sl_env\<close>; a simulation gives nothing when it fails or returns no value, and otherwise a native value or
  the error of its conversion. A number read from the contract may be NaN, which is \<open>None\<close>.
\<close>

section \<open>Orders\<close>

record stop_params =
  spTokenIn :: string
  spTokenOut :: string
  spAmount :: int
  spTrigger :: int
  spPair :: string
  spAsset :: string

record decoded_order =
  soId :: string
  soOwner :: string
  soTokenIn :: string
  soTokenOut :: string
  soAmount :: int
  soTrigger :: int
  soCreatedAt :: "int option option"
  soAsset :: string
  soStatus :: native

record stop_order = decoded_order +
  soPrice :: int
  soTriggered :: bool
  soDistance :: rat

datatype sort_field = CreatedAt | TriggerPrice | DistancePercent
datatype sort_direction = Asc | Desc

record order_query =
  oqStatuses :: "string list option"
  oqTriggered :: "bool option"
  oqSortBy :: "sort_field option"
  oqDirection :: "sort_direction option"

record price_snapshot =
  osPrice :: int
  osTime :: "int option option"

datatype sl_call =
    CreateStopLoss string string int int string string string
  | QuoteStopLossPath "string list" int
  | GetOrder string
  | OrdersForUser string
  | GetPrice string

datatype stop_leg = SwapLeg swap_op | StopLeg sl_call

record 'w sl_env =
  slRead :: "sl_call \<Rightarrow> ('w, thrown, (thrown + native) option) act"
  slSimulate :: "sl_call list \<Rightarrow> ('w, thrown, bool \<times> string option \<times> string option) act"
  slSubmit :: "sl_call list \<Rightarrow> string \<Rightarrow> ('w, thrown, sdk_result) act"
  slCompose :: "stop_leg list \<Rightarrow> ('w, thrown, sdk_result) act"
  slClientKey :: "('w, thrown, string) act"
  slNow :: "'w \<Rightarrow> int"
  slValid :: "string \<Rightarrow> bool"
  slNumber :: "native \<Rightarrow> int option"
  slIssueText :: "stop_params \<Rightarrow> string"
  slFromXdr :: "string \<Rightarrow> native option"
  slToScVal :: "native \<Rightarrow> native option"

definition DEFAULT_STALE_AFTER_MS :: int where
  "DEFAULT_STALE_AFTER_MS = 5 * 60 * 1000"

section \<open>The oracle\<close>

definition nan_number :: "(native \<Rightarrow> int option) \<Rightarrow> native \<Rightarrow> int option" where
  "nan_number num v = (case v of NNum n \<Rightarrow> Some n | _ \<Rightarrow> num v)"

definition liftT :: "(thrown + 'a) \<Rightarrow> ('w, thrown, 'a) act" where
  "liftT r w = (r, w)"

definition snapshotOf :: "(native \<Rightarrow> int option) \<Rightarrow> native \<Rightarrow> price_snapshot result" where
  "snapshotOf num v = (case v of
       NRec fs \<Rightarrow> (if map_of fs ''price'' \<noteq> None
         then bindE (bigint_of_text (text_or ''0'' (nget v ''price''))) (\<lambda>p.
           Inr \<lparr>osPrice = p, osTime = map_option (nan_number num) (map_of fs ''timestamp'')\<rparr>)
         else bindE (bigint_of_text (native_text v)) (\<lambda>p. Inr \<lparr>osPrice = p, osTime = None\<rparr>))
     | _ \<Rightarrow> bindE (bigint_of_text (native_text v)) (\<lambda>p. Inr \<lparr>osPrice = p, osTime = None\<rparr>))"

definition getOraclePrice :: "'w sl_env \<Rightarrow> string \<Rightarrow> ('w, thrown, price_snapshot) act" where
  "getOraclePrice e asset = bindW (slRead e (GetPrice asset)) (\<lambda>r. case r of
       None \<Rightarrow> throwW (Sdk (ValidationError (''RedStone oracle returned no price for asset '' @ asset)))
     | Some c \<Rightarrow> bindW (liftT c) (\<lambda>v. liftW (snapshotOf (slNumber e) v)))"

text \<open>A missing timestamp is not checked, and one that is no number compares as not old.\<close>

definition assertOracleFresh :: "int \<Rightarrow> price_snapshot \<Rightarrow> string \<Rightarrow> int \<Rightarrow> unit result" where
  "assertOracleFresh now snap asset staleAfterMs = (case osTime snap of
       Some (Some t) \<Rightarrow> throw_if (staleAfterMs < now - t) (StaleOracleError asset t staleAfterMs)
     | _ \<Rightarrow> Inr ())"

text \<open>The price of an asset, rejected when it is stale; the clock is read after the price.\<close>

definition freshPrice :: "'w sl_env \<Rightarrow> string \<Rightarrow> int option \<Rightarrow> ('w, thrown, price_snapshot) act" where
  "freshPrice e asset staleAfter = bindW (getOraclePrice e asset) (\<lambda>snap w.
     bindW (liftW (assertOracleFresh (slNow e w) snap asset (case staleAfter of None \<Rightarrow> DEFAULT_STALE_AFTER_MS | Some s \<Rightarrow> s)))
       (\<lambda>_. retW snap) w)"

section \<open>Creating\<close>

definition StopLossParamsSchema :: "(string \<Rightarrow> bool) \<Rightarrow> stop_params \<Rightarrow> bool" where
  "StopLossParamsSchema valid p \<longleftrightarrow> spTokenIn p \<noteq> [] \<and> valid (spTokenIn p) \<and> spTokenOut p \<noteq> [] \<and> valid (spTokenOut p) \<and>
     0 < spAmount p \<and> 0 < spTrigger p \<and> spPair p \<noteq> [] \<and> valid (spPair p) \<and> trim (spAsset p) \<noteq> [] \<and>
     spTokenIn p \<noteq> spTokenOut p"

definition validateStopLossParams :: "'w sl_env \<Rightarrow> stop_params \<Rightarrow> unit result" where
  "validateStopLossParams e p = (if StopLossParamsSchema (slValid e) p then Inr ()
     else Inl (ValidationError (''Invalid stop-loss params: '' @ slIssueText e p)))"

definition createCall :: "stop_params \<Rightarrow> string \<Rightarrow> sl_call" where
  "createCall p key = CreateStopLoss (spTokenIn p) (spTokenOut p) (spAmount p) (spTrigger p) (spPair p) (spAsset p) key"

definition buildCreateStopLossOperation :: "'w sl_env \<Rightarrow> stop_params \<Rightarrow> string \<Rightarrow> int option \<Rightarrow> ('w, thrown, sl_call) act" where
  "buildCreateStopLossOperation e p key staleAfter =
     bindW (liftW (validateStopLossParams e p)) (\<lambda>_.
     bindW (freshPrice e (spAsset p) staleAfter) (\<lambda>snap.
     if osPrice snap \<le> spTrigger p
     then throwW (Sdk (ValidationError ''triggerPrice must be below the current market price''))
     else retW (createCall p key)))"

definition createStopLoss :: "'w sl_env \<Rightarrow> stop_params \<Rightarrow> ('w, thrown, string) act \<Rightarrow> int option \<Rightarrow> ('w, thrown, string) act" where
  "createStopLoss e p signer staleAfter = bindW signer (\<lambda>key.
     bindW (buildCreateStopLossOperation e p key staleAfter) (\<lambda>op.
     bindW (slSubmit e [op] key) (submittedHash ''createStopLoss'')))"

text \<open>A swap request with the bounds the caller may give; the trade type is one of the two the type allows.\<close>

record bounded_request = swap_request +
  brMinAmountOut :: "int option"
  brMaxAmountIn :: "int option"

definition checkBounds :: "bounded_request \<Rightarrow> unit result" where
  "checkBounds r = (case tradeType r of
       EXACT_IN \<Rightarrow> (case brMinAmountOut r of Some b \<Rightarrow>
           throw_if (b \<le> 0) (ValidationError ''swapRequest.minAmountOut must be a positive amount for EXACT_IN swaps'') | None \<Rightarrow> Inr ())
     | EXACT_OUT \<Rightarrow> (case brMaxAmountIn r of Some b \<Rightarrow>
           throw_if (b \<le> 0) (ValidationError ''swapRequest.maxAmountIn must be a positive amount for EXACT_OUT swaps'') | None \<Rightarrow> Inr ()))"

definition swapAndCreateStopLoss :: "(rat \<Rightarrow> rat) \<Rightarrow> ('w \<Rightarrow> client) \<Rightarrow> 'w sl_env \<Rightarrow> bounded_request \<Rightarrow> stop_params \<Rightarrow>
    ('w, thrown, string) act \<Rightarrow> int option \<Rightarrow> ('w, thrown, string \<times> int) act" where
  "swapAndCreateStopLoss fl cl e r p signer staleAfter = bindW signer (\<lambda>key.
     bindW (liftW (checkBounds r)) (\<lambda>_ w. (let req = swap_request.truncate r in
     bindW (liftW (getQuote fl (cl w) req)) (\<lambda>q.
     bindW (liftW (buildSwapOperation (cl w) req q)) (\<lambda>swapOp.
     bindW (buildCreateStopLossOperation e p key staleAfter) (\<lambda>stopOp.
     bindW (slCompose e [SwapLeg swapOp, StopLeg stopOp]) (\<lambda>res.
       if success res \<and> res_data res \<noteq> None then retW (the (res_data res))
       else throwW (Sdk (TransactionError (''swapAndCreateStopLoss failed: '' @
            error_message_or res ''Unknown error'') (res_txHash res))))))) w)))"

fun validateTokens :: "(string \<Rightarrow> bool) \<Rightarrow> nat \<Rightarrow> string list \<Rightarrow> unit result" where
  "validateTokens valid i [] = Inr ()"
| "validateTokens valid i (t # ts) = bindE (validateAddress valid t (''route['' @ nat_str i @ '']'')) (\<lambda>_.
     validateTokens valid (Suc i) ts)"

definition validateRoute :: "(string \<Rightarrow> bool) \<Rightarrow> string list \<Rightarrow> unit result" where
  "validateRoute valid route = (if length route < 2 then Inl (ValidationError ''route must contain at least two tokens'')
     else validateTokens valid 0 route)"

definition estimateStopLossGas :: "'w sl_env \<Rightarrow> stop_params \<Rightarrow> string list option \<Rightarrow> ('w, thrown, gas_estimate) act" where
  "estimateStopLossGas e p route = bindW (liftW (validateStopLossParams e p)) (\<lambda>_.
     bindW (slClientKey e) (\<lambda>key.
     bindW (case route of
         Some ts \<Rightarrow> if 2 < length ts then bindW (liftW (validateRoute (slValid e) ts)) (\<lambda>_.
             retW [createCall p key, QuoteStopLossPath ts (spAmount p)])
           else retW [createCall p key]
       | None \<Rightarrow> retW [createCall p key]) (\<lambda>ops.
     bindW (slSimulate e ops) (\<lambda>s. liftW (estimateGas s)))))"

section \<open>Reading\<close>

definition decodeOrder :: "(native \<Rightarrow> int option) \<Rightarrow> native \<Rightarrow> decoded_order result" where
  "decodeOrder num v = (let txt = (\<lambda>k. text_or [] (nget v k)); big = (\<lambda>k. bigint_of_text (text_or ''0'' (nget v k)))
     in bindE (big ''amount'') (\<lambda>amount. bindE (big ''trigger_price'') (\<lambda>trigger.
       Inr \<lparr>soId = txt ''id'', soOwner = txt ''owner'', soTokenIn = txt ''token_in'', soTokenOut = txt ''token_out'',
            soAmount = amount, soTrigger = trigger,
            soCreatedAt = (case v of NRec fs \<Rightarrow> map_option (nan_number num) (map_of fs ''created_at'') | _ \<Rightarrow> None),
            soAsset = txt ''oracle_asset'',
            soStatus = (case nget v ''status'' of None \<Rightarrow> NStr ''active'' | Some s \<Rightarrow> s)\<rparr>)))"

definition distancePercent :: "int \<Rightarrow> int \<Rightarrow> rat" where
  "distancePercent price trigger = (if 0 < trigger then of_int (((price - trigger) * 10000) sdiv trigger) / 100 else 0)"

definition enriched :: "decoded_order \<Rightarrow> int \<Rightarrow> stop_order" where
  "enriched d price = decoded_order.extend d (stop_order.fields price (price \<le> soTrigger d) (distancePercent price (soTrigger d)))"

definition enrichOrder :: "'w sl_env \<Rightarrow> int option \<Rightarrow> decoded_order \<Rightarrow> ('w, thrown, stop_order) act" where
  "enrichOrder e staleAfter d = bindW (freshPrice e (soAsset d) staleAfter) (\<lambda>snap. retW (enriched d (osPrice snap)))"

definition getStopLoss :: "'w sl_env \<Rightarrow> string \<Rightarrow> int option \<Rightarrow> ('w, thrown, stop_order) act" where
  "getStopLoss e orderId staleAfter =
     (if trim orderId = [] then throwW (Sdk (ValidationError ''orderId must not be empty''))
      else bindW (slRead e (GetOrder orderId)) (\<lambda>r. case r of
          None \<Rightarrow> throwW (Sdk (ValidationError ''Stop-loss order not found''))
        | Some c \<Rightarrow> bindW (liftT c) (\<lambda>v. bindW (liftW (decodeOrder (slNumber e) v)) (enrichOrder e staleAfter))))"

text \<open>One slot: empty ones are skipped; any failure names the slot.\<close>

definition decodeSlot :: "'w sl_env \<Rightarrow> nat \<Rightarrow> native \<Rightarrow> decoded_order option result" where
  "decodeSlot e i item = (if item = NNull then Inr None
     else (let converted = (case item of
             NStr s \<Rightarrow> (case slFromXdr e s of Some v \<Rightarrow> Inr v
                | None \<Rightarrow> Inl (DecodeError (nat_str i) (Some ''Failed to parse base64 XDR for slot'')))
           | _ \<Rightarrow> (case slToScVal e item of Some v \<Rightarrow> Inr v
                | None \<Rightarrow> Inl (DecodeError (nat_str i) (Some ''Failed to convert native value to ScVal''))))
       in bindE converted (\<lambda>v. case decodeOrder (slNumber e) v of
           Inr d \<Rightarrow> Inr (Some d)
         | Inl _ \<Rightarrow> Inl (DecodeError (nat_str i) (Some ''Failed to decode order slot'')))))"

fun decodeSlots :: "'w sl_env \<Rightarrow> nat \<Rightarrow> native list \<Rightarrow> decoded_order list result" where
  "decodeSlots e i [] = Inr []"
| "decodeSlots e i (v # vs) = bindE (decodeSlot e i v) (\<lambda>d. bindE (decodeSlots e (Suc i) vs) (\<lambda>ds.
     Inr (case d of None \<Rightarrow> ds | Some x \<Rightarrow> x # ds)))"

text \<open>The orders are enriched one after the other; the code starts all of them and throws the first failure.\<close>

fun enrichAll :: "'w sl_env \<Rightarrow> int option \<Rightarrow> decoded_order list \<Rightarrow> ('w, thrown, stop_order list) act" where
  "enrichAll e staleAfter [] = retW []"
| "enrichAll e staleAfter (d # ds) = bindW (enrichOrder e staleAfter d) (\<lambda>o1. bindW (enrichAll e staleAfter ds) (\<lambda>os. retW (o1 # os)))"

definition created_key :: "stop_order \<Rightarrow> int" where
  "created_key ord = (case soCreatedAt ord of Some (Some t) \<Rightarrow> t | _ \<Rightarrow> 0)"

definition sort_value :: "sort_field \<Rightarrow> stop_order \<Rightarrow> rat" where
  "sort_value f ord = (case f of TriggerPrice \<Rightarrow> of_int (soTrigger ord) | DistancePercent \<Rightarrow> soDistance ord
     | CreatedAt \<Rightarrow> of_int (created_key ord))"

definition keepOrder :: "order_query \<Rightarrow> stop_order \<Rightarrow> bool" where
  "keepOrder q ord \<longleftrightarrow> (case oqStatuses q of None \<Rightarrow> True | Some ss \<Rightarrow> ss = [] \<or> soStatus ord \<in> NStr ` set ss) \<and>
     (case oqTriggered q of None \<Rightarrow> True | Some b \<Rightarrow> soTriggered ord = b)"

text \<open>The comparison converts creation times to \<open>bigint\<close>, which throws on NaN; it runs on two orders or more.\<close>

definition applyOrderQuery :: "order_query \<Rightarrow> stop_order list \<Rightarrow> stop_order list result" where
  "applyOrderQuery q orders = (let kept = filter (keepOrder q) orders;
       f = (case oqSortBy q of None \<Rightarrow> CreatedAt | Some x \<Rightarrow> x);
       sgn = (case oqDirection q of Some Asc \<Rightarrow> 1 | _ \<Rightarrow> - 1)
     in if f = CreatedAt \<and> 2 \<le> length kept \<and> list_ex (\<lambda>ord. soCreatedAt ord = Some None) kept
        then Inl (RangeError ''The number NaN cannot be converted to a BigInt because it is not an integer'')
        else Inr (sort_key (\<lambda>ord. sgn * sort_value f ord) kept))"

definition getStopLossOrders :: "'w sl_env \<Rightarrow> string \<Rightarrow> order_query \<Rightarrow> int option \<Rightarrow> ('w, thrown, stop_order list) act" where
  "getStopLossOrders e address q staleAfter = bindW (liftW (validateAddress (slValid e) address ''address'')) (\<lambda>_.
     bindW (slRead e (OrdersForUser address)) (\<lambda>r. case r of
       None \<Rightarrow> retW []
     | Some (Inl _) \<Rightarrow> throwW (Sdk (DecodeError ''orders_for_user'' (Some ''Failed to decode orders_for_user return value'')))
     | Some (Inr v) \<Rightarrow> bindW (liftW (decodeSlots e 0 (case v of NList vs \<Rightarrow> vs | _ \<Rightarrow> []))) (\<lambda>ds.
         bindW (enrichAll e staleAfter ds) (\<lambda>os. liftW (applyOrderQuery q os)))))"

definition isStopLossTriggered :: "'w sl_env \<Rightarrow> int \<Rightarrow> string \<Rightarrow> int option \<Rightarrow> ('w, thrown, bool) act" where
  "isStopLossTriggered e trigger asset staleAfter = bindW (freshPrice e asset staleAfter) (\<lambda>snap. retW (osPrice snap \<le> trigger))"

section \<open>Properties\<close>

lemma freshPrice_Inr:
  "freshPrice e asset st w = (Inr snap, w') \<longleftrightarrow> getOraclePrice e asset w = (Inr snap, w') \<and>
     assertOracleFresh (slNow e w') snap asset (case st of None \<Rightarrow> DEFAULT_STALE_AFTER_MS | Some s \<Rightarrow> s) = Inr ()"
  by (auto simp: freshPrice_def act_simps)

lemma assertOracleFresh_ok:
  "assertOracleFresh now snap asset s = Inr () \<longleftrightarrow> (\<forall>t. osTime snap = Some (Some t) \<longrightarrow> now - t \<le> s)"
  by (auto simp: assertOracleFresh_def throw_if_def split: option.splits if_splits)

text \<open>A stop-loss is only built for valid parameters, strictly below the price the oracle has just given, and, when
  that price is dated, no older than the threshold: it does not trigger at once.\<close>

theorem stop_below_fresh_market:
  assumes "buildCreateStopLossOperation e p key (Some age) w = (Inr op, w')"
  shows "op = createCall p key \<and> 0 < spAmount p \<and> 0 < spTrigger p \<and> spTokenIn p \<noteq> spTokenOut p \<and>
    (\<exists>snap. getOraclePrice e (spAsset p) w = (Inr snap, w') \<and> spTrigger p < osPrice snap \<and>
      (\<forall>t. osTime snap = Some (Some t) \<longrightarrow> slNow e w' - t \<le> age) \<and>
      isStopLossTriggered e (spTrigger p) (spAsset p) (Some age) w = (Inr False, w'))"
proof -
  obtain snap where v: "validateStopLossParams e p = Inr ()" and s: "freshPrice e (spAsset p) (Some age) w = (Inr snap, w')"
    and b: "spTrigger p < osPrice snap" and op: "op = createCall p key"
    using assms by (auto simp: buildCreateStopLossOperation_def act_simps not_le split: if_splits)
  have "isStopLossTriggered e (spTrigger p) (spAsset p) (Some age) w = (Inr False, w')"
    using s b by (simp add: isStopLossTriggered_def bindW_def retW_def)
  then show ?thesis using v s b op
    by (auto simp: validateStopLossParams_def StopLossParamsSchema_def freshPrice_Inr assertOracleFresh_ok split: if_splits)
qed

text \<open>A price without a timestamp passes whatever the threshold and the clock.\<close>

theorem undated_price_accepted:
  assumes "getOraclePrice e asset w = (Inr snap, w')" and "osTime snap = None"
  shows "isStopLossTriggered e trigger asset (Some age) w = (Inr (osPrice snap \<le> trigger), w')"
  using assms by (simp add: isStopLossTriggered_def freshPrice_def assertOracleFresh_def bindW_def liftW_def retW_def)

text \<open>The bounds of the request are checked for their sign and then not used: with any two admissible ones the
  same operations are submitted.\<close>

theorem swap_bounds_ignored:
  assumes "swap_request.truncate r = swap_request.truncate r'" and "checkBounds r = Inr ()" and "checkBounds r' = Inr ()"
  shows "swapAndCreateStopLoss fl cl e r p signer st w = swapAndCreateStopLoss fl cl e r' p signer st w"
  using assms by (simp add: swapAndCreateStopLoss_def)

text \<open>Both legs go into one transaction, the swap first, and nothing else is submitted.\<close>

definition logs_legs :: "('w \<Rightarrow> stop_leg list list) \<Rightarrow> 'w sl_env \<Rightarrow> bool" where
  "logs_legs L e \<longleftrightarrow> (\<forall>ls w. L (snd (slCompose e ls w)) = L w @ [ls]) \<and> (\<forall>c. keeps L (slRead e c))"

lemma buildCreate_keeps:
  assumes "logs_legs L e"
  shows "keeps L (buildCreateStopLossOperation e p key st)"
proof -
  have g: "keeps L (getOraclePrice e a)" for a
    unfolding getOraclePrice_def using assms
    by (auto simp: logs_legs_def liftT_def keeps_def split: option.split intro!: keeps_bindW)
      (auto simp: bindW_def liftT_def liftW_def throwW_def split: option.splits prod.splits sum.splits, (metis snd_conv)+)
  have f: "keeps L (freshPrice e a st)" for a
    using g[of a] by (auto simp: keeps_def freshPrice_def bindW_def liftW_def retW_def split: prod.splits sum.splits) (metis snd_conv)+
  show ?thesis unfolding buildCreateStopLossOperation_def by (intro keeps_bindW f) auto
qed

theorem swap_and_stop_atomic:
  assumes log: "logs_legs L e" and "keeps L signer"
    and run: "swapAndCreateStopLoss fl cl e r p signer st w = (Inr d, w')"
  shows "\<exists>op key. L w' = L w @ [[SwapLeg op, StopLeg (createCall p key)]]"
proof -
  obtain key w1 q op sop w2 res where k: "signer w = (Inr key, w1)"
    and s: "buildCreateStopLossOperation e p key st w1 = (Inr sop, w2)" and c: "slCompose e [SwapLeg op, StopLeg sop] w2 = (Inr res, w')"
    using run by (auto simp: swapAndCreateStopLoss_def act_simps Let_def split: option.splits if_splits)
  have "L w2 = L w" using keepsD[OF assms(2) k] keepsD[OF buildCreate_keeps[OF log] s] by simp
  moreover have "L (snd (slCompose e [SwapLeg op, StopLeg sop] w2)) = L w2 @ [[SwapLeg op, StopLeg sop]]"
    using log unfolding logs_legs_def by blast
  moreover have "sop = createCall p key" using s by (auto simp: buildCreateStopLossOperation_def act_simps split: if_splits)
  ultimately show ?thesis using c by auto
qed

text \<open>A query keeps the orders it asks for, each as often as it was there, sorted in its direction.\<close>

theorem order_query_spec:
  assumes "applyOrderQuery q orders = Inr xs"
  shows "mset xs = mset (filter (keepOrder q) orders) \<and>
    sorted (map (\<lambda>ord. (case oqDirection q of Some Asc \<Rightarrow> 1 | _ \<Rightarrow> - 1) *
      sort_value (case oqSortBy q of None \<Rightarrow> CreatedAt | Some f \<Rightarrow> f) ord) xs)"
  using assms by (auto simp: applyOrderQuery_def Let_def split: if_splits)

text \<open>One order whose price cannot be read or is stale hides all orders of the user.\<close>

theorem one_failure_hides_all:
  assumes "\<And>v. fst (enrichOrder e st d v) \<in> range Inl" and "d \<in> set ds"
  shows "fst (enrichAll e st ds w) \<in> range Inl"
  using assms(2)
proof (induction ds arbitrary: w)
  case (Cons x ds)
  show ?case
  proof (cases "enrichOrder e st x w")
    case (Pair r v)
    show ?thesis
    proof (cases r)
      case (Inr ord)
      then have "x \<noteq> d" using assms(1)[of w] Pair by force
      then have "fst (enrichAll e st ds v) \<in> range Inl" using Cons by simp
      then show ?thesis using Pair Inr by (auto simp: bindW_def split: prod.splits sum.splits)
    qed (simp add: bindW_def Pair)
  qed
qed simp

text \<open>The distance agrees with the trigger except close above it, where it is zero and the order has not triggered.\<close>

theorem distance_sign:
  assumes "0 < soTrigger d"
  shows "(soTriggered (enriched d price) \<longrightarrow> soDistance (enriched d price) \<le> 0) \<and>
    (soDistance (enriched d price) < 0 \<longrightarrow> soTriggered (enriched d price)) \<and>
    (soDistance (enriched d price) = 0 \<longleftrightarrow> \<bar>price - soTrigger d\<bar> * 10000 < soTrigger d)"
proof -
  let ?t = "soTrigger d" and ?n = "(price - soTrigger d) * 10000"
  have q: "?n sdiv ?t = sgn ?n * (\<bar>?n\<bar> div ?t)" using assms by (simp add: signed_divide_int_def)
  have pos: "0 \<le> \<bar>?n\<bar> div ?t" using assms by (simp add: pos_imp_zdiv_nonneg_iff)
  have d: "soDistance (enriched d price) = of_int (?n sdiv ?t) / 100" "soTriggered (enriched d price) = (price \<le> ?t)"
    using assms by (simp_all add: enriched_def distancePercent_def decoded_order.extend_def stop_order.fields_def)
  have "?n sdiv ?t = 0 \<longleftrightarrow> \<bar>?n\<bar> < ?t"
  proof -
    have "\<bar>?n\<bar> div ?t = 0 \<longleftrightarrow> \<bar>?n\<bar> div ?t < 1" using pos by linarith
    then have "\<bar>?n\<bar> div ?t = 0 \<longleftrightarrow> \<bar>?n\<bar> < ?t" using div_less_iff_int[OF assms, of "\<bar>?n\<bar>" 1] by simp
    then show ?thesis unfolding q using assms by (cases "?n = 0") (auto simp: sgn_if)
  qed
  moreover have "\<bar>?n\<bar> = \<bar>price - ?t\<bar> * 10000" by (simp only: abs_mult abs_numeral)
  moreover have "price \<le> ?t \<Longrightarrow> ?n sdiv ?t \<le> 0"
    unfolding q using pos by (cases "?n = 0") (auto simp: sgn_if mult_le_0_iff)
  moreover have "?n sdiv ?t < 0 \<Longrightarrow> price \<le> ?t"
    unfolding q using pos by (auto simp: sgn_if mult_less_0_iff split: if_splits)
  ultimately show ?thesis unfolding d by simp
qed

section \<open>Witnesses\<close>

definition sl_world :: "int \<Rightarrow> stop_leg list list sl_env" where
  "sl_world price = \<lparr>slRead = (\<lambda>_ w. (Inr (Some (Inr (NNum price))), w)), slSimulate = (\<lambda>_ w. (Inr (True, None, None), w)),
     slSubmit = (\<lambda>_ _ w. (Inl Undefined, w)),
     slCompose = (\<lambda>ls w. (Inr \<lparr>success = True, res_data = Some (''h'', 1), res_error = None, res_txHash = Some ''h''\<rparr>, w @ [ls])),
     slClientKey = retW ''G'', slNow = (\<lambda>_. 0), slValid = (\<lambda>_. True), slNumber = (\<lambda>_. None), slIssueText = (\<lambda>_. []),
     slFromXdr = (\<lambda>_. None), slToScVal = Some\<rparr>"

definition some_stop :: stop_params where
  "some_stop = \<lparr>spTokenIn = ''A'', spTokenOut = ''B'', spAmount = 5, spTrigger = 3, spPair = ''P'', spAsset = ''X''\<rparr>"

lemma seven: "bigint_of_text (int_str 7) = Inr 7" "trim ''X'' \<noteq> []"
  by code_simp+

lemma sl_price: "getOraclePrice (sl_world 7) asset w = (Inr \<lparr>osPrice = 7, osTime = None\<rparr>, w)"
  using seven(1) by (simp add: getOraclePrice_def sl_world_def bindW_def liftT_def liftW_def snapshotOf_def)

lemma sl_build: "buildCreateStopLossOperation (sl_world 7) some_stop ''G'' st w = (Inr (createCall some_stop ''G''), w)"
proof -
  have "validateStopLossParams (sl_world 7) some_stop = Inr ()"
    using seven(2) by (simp add: validateStopLossParams_def StopLossParamsSchema_def some_stop_def sl_world_def)
  then show ?thesis using sl_price[of "spAsset some_stop" w]
    by (simp add: buildCreateStopLossOperation_def freshPrice_def assertOracleFresh_def bindW_def liftW_def retW_def some_stop_def)
qed

theorem stop_below_fresh_market_witness:
  "isStopLossTriggered (sl_world 7) (spTrigger some_stop) (spAsset some_stop) (Some 9) [] = (Inr False, [])"
  using stop_below_fresh_market[OF sl_build[of "Some 9" "[]"]] by blast

theorem undated_price_accepted_witness:
  "isStopLossTriggered (sl_world 7) 9 ''X'' (Some 0) [] = (Inr (osPrice \<lparr>osPrice = 7, osTime = None\<rparr> \<le> 9), [])"
  by (rule undated_price_accepted[OF sl_price]) simp

definition bounded :: "int option \<Rightarrow> bounded_request" where
  "bounded b = \<lparr>tokenIn = ''A'', tokenOut = ''B'', amount = 10000, tradeType = EXACT_IN, reqPath = None, reqSlippage = None,
     reqDeadline = None, reqTo = None, brMinAmountOut = b, brMaxAmountIn = None\<rparr>"

lemma bounded_checks: "checkBounds (bounded None) = Inr ()" "0 < b \<Longrightarrow> checkBounds (bounded (Some b)) = Inr ()"
  by (simp_all add: checkBounds_def bounded_def throw_if_def)

theorem swap_bounds_ignored_witness:
  "swapAndCreateStopLoss fl (\<lambda>_. demo_client) (sl_world 7) (bounded (Some (10 ^ 30))) some_stop (retW ''G'') None =
   swapAndCreateStopLoss fl (\<lambda>_. demo_client) (sl_world 7) (bounded None) some_stop (retW ''G'') None"
  by (rule ext, rule swap_bounds_ignored) (simp_all add: bounded_checks bounded_def swap_request.truncate_def checkBounds_def throw_if_def)

theorem order_query_spec_witness:
  "\<exists>xs. applyOrderQuery \<lparr>oqStatuses = None, oqTriggered = None, oqSortBy = None, oqDirection = None\<rparr> [] = Inr xs \<and>
    mset xs = mset (filter (keepOrder \<lparr>oqStatuses = None, oqTriggered = None, oqSortBy = None, oqDirection = None\<rparr>) [])"
proof -
  let ?q = "\<lparr>oqStatuses = None, oqTriggered = None, oqSortBy = None, oqDirection = None\<rparr>"
  have run: "applyOrderQuery ?q [] = Inr []" by (simp add: applyOrderQuery_def)
  then show ?thesis using order_query_spec[OF run] by blast
qed

definition some_stored_order :: decoded_order where
  "some_stored_order = \<lparr>soId = ''o'', soOwner = ''G'', soTokenIn = ''A'', soTokenOut = ''B'', soAmount = 1, soTrigger = 20000,
     soCreatedAt = None, soAsset = ''X'', soStatus = NStr ''active''\<rparr>"

definition silent_oracle :: "stop_leg list list sl_env" where
  "silent_oracle = (sl_world 7)\<lparr>slRead := \<lambda>_ w. (Inr None, w)\<rparr>"

theorem one_failure_hides_all_witness:
  "fst (enrichAll silent_oracle None [some_stored_order] []) \<in> range Inl"
  by (rule one_failure_hides_all[where d = some_stored_order])
    (simp_all add: enrichOrder_def freshPrice_def getOraclePrice_def silent_oracle_def bindW_def throwW_def)

theorem distance_sign_witness:
  "soDistance (enriched some_stored_order 20001) = 0 \<and> \<not> soTriggered (enriched some_stored_order 20001)"
proof -
  have t: "0 < soTrigger some_stored_order" by (simp add: some_stored_order_def)
  have "soDistance (enriched some_stored_order 20001) = 0" using distance_sign[OF t, of 20001] by (simp add: some_stored_order_def)
  moreover have "\<not> soTriggered (enriched some_stored_order 20001)"
    by (simp add: enriched_def decoded_order.extend_def stop_order.fields_def some_stored_order_def)
  ultimately show ?thesis by simp
qed

lemma bounded_request_demo: "swap_request.truncate (bounded b) = demo_request EXACT_IN 10000"
  by (simp add: bounded_def demo_request_def swap_request.truncate_def)

lemma bounded_quote: "getQuote fl demo_client (demo_request EXACT_IN 10000) = Inr (demo_quote 10000 19743 19546 128 30)"
proof -
  have "getDirectQuote demo_client (demo_request EXACT_IN 10000) [''A'', ''B''] = Inr (demo_quote 10000 19743 19546 128 30)"
    by (simp add: quote_eval) (simp add: demo_client_def)
  then show ?thesis by (simp add: getQuote_def resolvePath_def demo_request_def)
qed

text \<open>An output of 19546 passes a bound of \<open>10 ^ 30\<close>.\<close>

theorem swap_and_stop_atomic_witness:
  "\<exists>op w'. swapAndCreateStopLoss (\<lambda>x. x) (\<lambda>_. demo_client) (sl_world 7) (bounded (Some (10 ^ 30))) some_stop (retW ''G'') None [] =
      (Inr (''h'', 1), w') \<and> w' = [[SwapLeg op, StopLeg (createCall some_stop ''G'')]]"
proof -
  obtain op where op: "buildSwapOperation demo_client (demo_request EXACT_IN 10000) (demo_quote 10000 19743 19546 128 30) = Inr op"
    by (simp add: buildSwapOperation_def demo_quote_def demo_request_def resolvePath_def Let_def)
  have run: "swapAndCreateStopLoss (\<lambda>x. x) (\<lambda>_. demo_client) (sl_world 7) (bounded (Some (10 ^ 30))) some_stop (retW ''G'') None [] =
      (Inr (''h'', 1), [[SwapLeg op, StopLeg (createCall some_stop ''G'')]])"
    using op bounded_checks(2)[of "10 ^ 30"]
    by (simp add: swapAndCreateStopLoss_def bounded_request_demo bounded_quote sl_build bindW_def liftW_def retW_def)
      (simp add: sl_world_def retW_def)
  have "logs_legs (\<lambda>w. w) (sl_world 7)" by (simp add: logs_legs_def sl_world_def keeps_def)
  from swap_and_stop_atomic[OF this _ run] have "\<exists>op key. [[SwapLeg op, StopLeg (createCall some_stop ''G'')]] =
      [] @ [[SwapLeg op, StopLeg (createCall some_stop key)]]" by (simp add: keeps_def retW_def)
  then show ?thesis using run by blast
qed

end
