(* ===== verification/Oracle.thy ===== *)
theory Oracle
  imports Submission Validation JsNum "HOL-Library.AList"
begin

text \<open>
  \<open>modules/oracle.ts\<close>: time-weighted average prices from the cumulative prices of a pair. The module caches
  observations per pair; the chain is read through \<open>oracle_env\<close>.
\<close>

section \<open>Observations\<close>

record observation =
  obPrice0 :: int
  obPrice1 :: int
  obTime :: int

record twap_result =
  twPair :: string
  twToken0 :: string
  twToken1 :: string
  twPrice0 :: int
  twPrice1 :: int
  twWindow :: int
  twStart :: observation
  twEnd :: observation

record oracle_state =
  observationCache :: "(string \<times> observation list) list"

record 'w oracle_env =
  orCumulative :: "string \<Rightarrow> ('w, thrown, int \<times> int \<times> int) act"
  orReserves :: "string \<Rightarrow> ('w, thrown, int \<times> int) act"
  orTokens :: "string \<Rightarrow> ('w, thrown, string \<times> string) act"
  orValid :: "string \<Rightarrow> bool"

definition MIN_TWAP_WINDOW_SECONDS :: int where
  "MIN_TWAP_WINDOW_SECONDS = 300"

definition MAX_OBSERVATIONS :: nat where
  "MAX_OBSERVATIONS = 500"

text \<open>The two passes of pruning: the oldest entry goes while the rest spans the window, then down to the cap.\<close>

fun dropCovered :: "int \<Rightarrow> observation list \<Rightarrow> observation list" where
  "dropCovered newest (a # b # rest) =
     (if MIN_TWAP_WINDOW_SECONDS \<le> newest - obTime b then dropCovered newest (b # rest) else a # b # rest)"
| "dropCovered newest xs = xs"

definition capObservations :: "observation list \<Rightarrow> observation list" where
  "capObservations xs = drop (length xs - MAX_OBSERVATIONS) xs"

definition addObservation :: "observation list \<Rightarrow> observation \<Rightarrow> observation list" where
  "addObservation existing ob = capObservations (dropCovered (obTime ob) (existing @ [ob]))"

definition cached :: "'x oracle_state_scheme \<Rightarrow> string \<Rightarrow> observation list" where
  "cached w p = (case map_of (observationCache w) p of None \<Rightarrow> [] | Some xs \<Rightarrow> xs)"

definition observe :: "('x oracle_state_scheme) oracle_env \<Rightarrow> string \<Rightarrow> ('x oracle_state_scheme, thrown, observation) act" where
  "observe e p = bindW (liftW (validateAddress (orValid e) p ''pairAddress'')) (\<lambda>_.
     bindW (orCumulative e p) (\<lambda>(c0, c1, t) w. (let ob = \<lparr>obPrice0 = c0, obPrice1 = c1, obTime = t\<rparr> in
       (Inr ob, w\<lparr>observationCache := AList.update p (addObservation (cached w p) ob) (observationCache w)\<rparr>))))"

definition clearCache :: "string option \<Rightarrow> 'x oracle_state_scheme \<Rightarrow> 'x oracle_state_scheme" where
  "clearCache p w = (case p of Some (c # cs) \<Rightarrow> w\<lparr>observationCache := AList.delete (c # cs) (observationCache w)\<rparr>
     | _ \<Rightarrow> w\<lparr>observationCache := []\<rparr>)"

definition getObservationSeries :: "(string \<Rightarrow> bool) \<Rightarrow> string \<Rightarrow> 'x oracle_state_scheme \<Rightarrow> observation list result" where
  "getObservationSeries valid p w = bindE (validateAddress valid p ''pairAddress'') (\<lambda>_. Inr (cached w p))"

definition getObservationCount :: "(string \<Rightarrow> bool) \<Rightarrow> string \<Rightarrow> 'x oracle_state_scheme \<Rightarrow> nat result" where
  "getObservationCount valid p w = bindE (validateAddress valid p ''pairAddress'') (\<lambda>_. Inr (length (cached w p)))"

section \<open>Averages\<close>

definition computeTWAP :: "observation \<Rightarrow> observation \<Rightarrow> bool \<Rightarrow> (int \<times> int \<times> int) result" where
  "computeTWAP start final enforceMinWindow = (let elapsed = obTime final - obTime start in
     if elapsed \<le> 0 then Inl (ValidationError ''End observation must be after start observation'')
     else if enforceMinWindow \<and> elapsed < MIN_TWAP_WINDOW_SECONDS
     then Inl (ValidationError (''TWAP window too short for manipulation resistance ('' @ int_str elapsed @ ''s < '' @
       int_str MIN_TWAP_WINDOW_SECONDS @ ''s minimum)''))
     else Inr ((obPrice0 final - obPrice0 start) sdiv elapsed, (obPrice1 final - obPrice1 start) sdiv elapsed, elapsed))"

text \<open>The observations are read right after the new one is stored; the tokens are read afterwards.\<close>

definition getTWAP :: "('x oracle_state_scheme) oracle_env \<Rightarrow> string \<Rightarrow> bool \<Rightarrow> ('x oracle_state_scheme, thrown, twap_result option) act" where
  "getTWAP e p enforceMinWindow = bindW (liftW (validateAddress (orValid e) p ''pairAddress'')) (\<lambda>_.
     bindW (observe e p) (\<lambda>_ w. (let obs = cached w p; start = hd obs; final = last obs; window = obTime final - obTime start in
       if length obs < 2 \<or> obTime final \<le> obTime start \<or> enforceMinWindow \<and> window < MIN_TWAP_WINDOW_SECONDS
       then retW None w
       else bindW (orTokens e p) (\<lambda>(t0, t1). bindW (liftW (computeTWAP start final False)) (\<lambda>(p0, p1, _).
         retW (Some \<lparr>twPair = p, twToken0 = t0, twToken1 = t1, twPrice0 = p0, twPrice1 = p1, twWindow = window,
           twStart = start, twEnd = final\<rparr>))) w)))"

definition getSpotPrice :: "('x oracle_state_scheme) oracle_env \<Rightarrow> string \<Rightarrow> ('x oracle_state_scheme, thrown, int \<times> int) act" where
  "getSpotPrice e p = bindW (liftW (validateAddress (orValid e) p ''pairAddress'')) (\<lambda>_.
     bindW (orReserves e p) (\<lambda>(r0, r1).
     if r0 = 0 \<or> r1 = 0 then throwW (Sdk (InsufficientLiquidityError p None))
     else retW (r0 * PRICE_SCALE sdiv r1, r1 * PRICE_SCALE sdiv r0)))"

definition computeDeviationBps :: "int \<Rightarrow> int \<Rightarrow> int option" where
  "computeDeviationBps reference current = (if reference = 0 then None
     else Some (((if reference < current then current - reference else reference - current) * 10000) sdiv reference))"

record price_deviation =
  pdDeviation0 :: "int option"
  pdDeviation1 :: "int option"
  pdTwap0 :: int
  pdTwap1 :: int
  pdSpot0 :: int
  pdSpot1 :: int

definition getPriceDeviation :: "('x oracle_state_scheme) oracle_env \<Rightarrow> string \<Rightarrow>
    ('x oracle_state_scheme, thrown, price_deviation option) act" where
  "getPriceDeviation e p = bindW (liftW (validateAddress (orValid e) p ''pairAddress'')) (\<lambda>_.
     bindW (getTWAP e p True) (\<lambda>t. case t of None \<Rightarrow> retW None
     | Some tw \<Rightarrow> bindW (getSpotPrice e p) (\<lambda>(s0, s1). retW (Some \<lparr>
         pdDeviation0 = computeDeviationBps (twPrice0 tw) s0, pdDeviation1 = computeDeviationBps (twPrice1 tw) s1,
         pdTwap0 = twPrice0 tw, pdTwap1 = twPrice1 tw, pdSpot0 = s0, pdSpot1 = s1\<rparr>))))"

section \<open>What the cache holds\<close>

definition covered :: "observation list \<Rightarrow> nat" where
  "covered obs = length (takeWhile (\<lambda>ob. MIN_TWAP_WINDOW_SECONDS \<le> obTime (last obs) - obTime ob) obs)"

lemma dropCovered_drop:
  assumes "s < length xs"
  shows "dropCovered newest (drop s xs) =
    drop (max s (s + (length (takeWhile (\<lambda>ob. MIN_TWAP_WINDOW_SECONDS \<le> newest - obTime ob) (drop (Suc s) xs))))) xs"
  using assms
proof (induction "length xs - s" arbitrary: s)
  case (Suc n)
  show ?case
  proof (cases "Suc s < length xs")
    case False
    then have "drop s xs = [xs ! s]" using Suc.prems by (metis Cons_nth_drop_Suc drop_all not_less)
    then show ?thesis using False by simp
  next
    case True
    have c: "drop s xs = xs ! s # xs ! Suc s # drop (Suc (Suc s)) xs"
      using True Suc.prems by (metis Cons_nth_drop_Suc)
    have c': "drop (Suc s) xs = xs ! Suc s # drop (Suc (Suc s)) xs" using True by (metis Cons_nth_drop_Suc)
    show ?thesis
    proof (cases "MIN_TWAP_WINDOW_SECONDS \<le> newest - obTime (xs ! Suc s)")
      case True
      then have "dropCovered newest (drop s xs) = dropCovered newest (drop (Suc s) xs)" using c c' by simp
      then show ?thesis using Suc.hyps(1)[of "Suc s"] Suc.hyps(2) \<open>Suc s < length xs\<close> c' True by simp
    qed (use c c' in simp)
  qed
qed simp

lemma takeWhile_drop_prefix:
  assumes "sorted_wrt (\<lambda>a b. P b \<longrightarrow> P a) xs" and "s \<le> length xs"
  shows "length (takeWhile P (drop s xs)) = length (takeWhile P xs) - s"
  using assms
proof (induction xs arbitrary: s)
  case (Cons x xs)
  show ?case
  proof (cases s)
    case (Suc k)
    then have "length (takeWhile P (drop s (x # xs))) = length (takeWhile P xs) - k" using Cons by simp
    moreover have "\<not> P x \<Longrightarrow> takeWhile P xs = []" using Cons.prems(1) by (cases xs) auto
    ultimately show ?thesis using Suc by auto
  qed simp
qed simp

lemma covered_mono:
  assumes "sorted (map obTime (obs @ [ob]))"
  shows "covered obs \<le> covered (obs @ [ob])" and "covered (obs @ [ob]) \<le> length obs"
proof -
  let ?P = "\<lambda>l o1. MIN_TWAP_WINDOW_SECONDS \<le> l - obTime o1"
  have "obTime (last obs) \<le> obTime ob" if "obs \<noteq> []" using assms that by (simp add: sorted_append)
  then have "length (takeWhile (?P (obTime (last obs))) ys) \<le> length (takeWhile (?P (obTime ob)) ys)" if "obs \<noteq> []" for ys
    using that by (induction ys) auto
  moreover have "length (takeWhile (?P (obTime ob)) ys) \<le> length (takeWhile (?P (obTime ob)) (ys @ zs))" for ys zs
    by (induction ys) auto
  ultimately show "covered obs \<le> covered (obs @ [ob])" unfolding covered_def
    by (cases "obs = []") (auto intro: order_trans)
  have "takeWhile (?P (obTime ob)) (obs @ [ob]) = takeWhile (?P (obTime ob)) obs"
    by (induction obs) (auto simp: MIN_TWAP_WINDOW_SECONDS_def)
  then show "covered (obs @ [ob]) \<le> length obs" by (simp add: covered_def length_takeWhile_le)
qed

lemma max_step: "max s (s + (c - Suc s)) = max s (c - 1)" for s c :: nat
  unfolding max_def by presburger

lemma cap_step: "n - m - c + m = max m (n - c)" for n m c :: nat
  unfolding max_def by presburger

lemma max_absorb: "a \<le> c \<Longrightarrow> b \<le> d \<Longrightarrow> max (max (max a b) c) d = max c d" for a b c d :: nat
  by auto

lemma cache_closed:
  assumes "sorted (map obTime obs)"
  shows "foldl addObservation [] obs = drop (max (covered obs - 1) (length obs - MAX_OBSERVATIONS)) obs"
  using assms
proof (induction obs rule: rev_induct)
  case (snoc ob obs)
  let ?s = "max (covered obs - 1) (length obs - MAX_OBSERVATIONS)"
  let ?P = "\<lambda>o1. MIN_TWAP_WINDOW_SECONDS \<le> obTime ob - obTime o1"
  have mono: "covered obs \<le> covered (obs @ [ob])" "covered (obs @ [ob]) \<le> length obs" by (rule covered_mono[OF snoc.prems])+
  have "covered obs \<le> length obs" by (simp add: covered_def length_takeWhile_le)
  then have s: "?s \<le> length obs" by auto
  have sorted: "sorted (map obTime obs)" using snoc.prems by (simp add: sorted_append)
  have down: "sorted_wrt (\<lambda>a b. ?P b \<longrightarrow> ?P a) (obs @ [ob])"
    by (rule sorted_wrt_mono_rel[OF _ iffD1[OF sorted_map snoc.prems]]) auto
  have cov: "length (takeWhile ?P (obs @ [ob])) = covered (obs @ [ob])" by (simp add: covered_def)
  have "foldl addObservation [] (obs @ [ob]) = capObservations (dropCovered (obTime ob) (drop ?s (obs @ [ob])))"
  proof -
    have "foldl addObservation [] (obs @ [ob]) = addObservation (drop ?s obs) ob" using snoc.IH[OF sorted] by simp
    then show ?thesis using s by (simp add: addObservation_def)
  qed
  also have "dropCovered (obTime ob) (drop ?s (obs @ [ob])) = drop (max ?s (?s + (covered (obs @ [ob]) - Suc ?s))) (obs @ [ob])"
  proof -
    have "?s < length (obs @ [ob])" "Suc ?s \<le> length (obs @ [ob])" using s by simp_all
    then show ?thesis using dropCovered_drop[of ?s "obs @ [ob]" "obTime ob"] takeWhile_drop_prefix[OF down, of "Suc ?s"] cov
      by (simp only:)
  qed
  also have "max ?s (?s + (covered (obs @ [ob]) - Suc ?s)) = max ?s (covered (obs @ [ob]) - 1)" by (rule max_step)
  also have "capObservations (drop (max ?s (covered (obs @ [ob]) - 1)) (obs @ [ob])) =
      drop (max (covered (obs @ [ob]) - 1) (length (obs @ [ob]) - MAX_OBSERVATIONS)) (obs @ [ob])"
  proof -
    let ?m = "max ?s (covered (obs @ [ob]) - 1)"
    have "length (obs @ [ob]) - ?m - MAX_OBSERVATIONS + ?m = max ?m (length (obs @ [ob]) - MAX_OBSERVATIONS)"
      by (rule cap_step)
    moreover have "max ?m (length (obs @ [ob]) - MAX_OBSERVATIONS) =
        max (covered (obs @ [ob]) - 1) (length (obs @ [ob]) - MAX_OBSERVATIONS)" using mono(1) by (intro max_absorb) auto
    ultimately show ?thesis by (simp only: capObservations_def drop_drop length_drop)
  qed
  finally show ?case .
qed (simp add: covered_def)

text \<open>The cache after any observations in time order, in closed form: what lies within the window, one older
  observation if there is one, and never more than the cap.\<close>

theorem cache_closed_form:
  assumes "sorted (map obTime obs)"
  shows "foldl addObservation [] obs = drop (max (covered obs - 1) (length obs - MAX_OBSERVATIONS)) obs"
  by (rule cache_closed[OF assms])

text \<open>So the cache spans the window exactly when the history does and fewer than \<open>MAX_OBSERVATIONS\<close> of its
  observations lie within the window: a pair polled faster never gets an average.\<close>

theorem cache_spans_window_iff:
  assumes "sorted (map obTime obs)" and "obs \<noteq> []"
  shows "MIN_TWAP_WINDOW_SECONDS \<le> obTime (last obs) - obTime (hd (foldl addObservation [] obs)) \<longleftrightarrow>
    MIN_TWAP_WINDOW_SECONDS \<le> obTime (last obs) - obTime (hd obs) \<and> length obs - covered obs < MAX_OBSERVATIONS"
proof -
  let ?P = "\<lambda>o1. MIN_TWAP_WINDOW_SECONDS \<le> obTime (last obs) - obTime o1"
  let ?k = "max (covered obs - 1) (length obs - MAX_OBSERVATIONS)"
  have len: "covered obs \<le> length obs" by (simp add: covered_def length_takeWhile_le)
  have pos: "0 < length obs" using assms(2) by simp
  have "covered obs - 1 < length obs" "length obs - MAX_OBSERVATIONS < length obs"
    using len pos unfolding MAX_OBSERVATIONS_def by linarith+
  then have k: "?k < length obs" by simp
  have "hd (foldl addObservation [] obs) = obs ! ?k" using cache_closed[OF assms(1)] k by (simp add: hd_drop_conv_nth)
  moreover have "?P (obs ! i) \<longleftrightarrow> i < covered obs" if "i < length obs" for i
  proof
    assume p: "?P (obs ! i)"
    show "i < covered obs"
    proof (rule ccontr)
      assume "\<not> i < covered obs"
      then have le: "covered obs \<le> i" by simp
      then have "\<not> ?P (obs ! covered obs)" unfolding covered_def using that
        by (intro nth_length_takeWhile) (auto simp: covered_def)
      moreover have "obTime (obs ! covered obs) \<le> obTime (obs ! i)"
        using sorted_nth_mono[OF assms(1) le] that le by simp
      ultimately show False using p by linarith
    qed
  next
    assume "i < covered obs"
    then show "?P (obs ! i)" unfolding covered_def by (metis (no_types, lifting) nth_mem set_takeWhileD takeWhile_nth)
  qed
  moreover have "?P (hd obs) \<longleftrightarrow> 0 < covered obs" using calculation(2)[of 0] assms(2) by (simp add: hd_conv_nth)
  ultimately show ?thesis using k len by (auto simp: MAX_OBSERVATIONS_def)
qed

section \<open>What an average means\<close>

text \<open>The accumulators of a pair after stretches of time at a price each.\<close>

definition accumulate :: "int \<Rightarrow> (int \<times> int) list \<Rightarrow> int" where
  "accumulate c segs = c + sum_list (map (\<lambda>(price, dt). price * dt) segs)"

lemma weighted_bounds:
  fixes m M :: int
  assumes "list_all (\<lambda>(price, dt). m \<le> price \<and> price \<le> M \<and> 0 \<le> dt) segs"
  shows "m * sum_list (map snd segs) \<le> sum_list (map (\<lambda>(price, dt). price * dt) segs) \<and>
    sum_list (map (\<lambda>(price, dt). price * dt) segs) \<le> M * sum_list (map snd segs)"
  using assms
proof (induction segs)
  case (Cons s segs)
  obtain price dt where s: "s = (price, dt)" by force
  then have "m * dt \<le> price * dt" "price * dt \<le> M * dt" using Cons.prems by (auto intro: mult_right_mono)
  then show ?case using Cons by (simp add: s algebra_simps)
qed simp

text \<open>The average lies between the lowest and the highest price of the stretch it covers.\<close>

theorem twap_between:
  assumes seg: "list_all (\<lambda>(price, dt). m \<le> price \<and> price \<le> M \<and> 0 \<le> dt) segs" and "0 \<le> m"
    and "obPrice0 b = accumulate (obPrice0 a) segs" and "obTime b = obTime a + sum_list (map snd segs)"
    and "computeTWAP a b enforce = Inr (p0, p1, win)"
  shows "m \<le> p0 \<and> p0 \<le> M \<and> win = sum_list (map snd segs) \<and> (enforce \<longrightarrow> MIN_TWAP_WINDOW_SECONDS \<le> win)"
proof -
  let ?t = "sum_list (map snd segs)" and ?c = "sum_list (map (\<lambda>(price, dt). price * dt) segs)"
  have t: "0 < ?t" and p: "p0 = ?c sdiv ?t" and win: "win = ?t" "enforce \<longrightarrow> MIN_TWAP_WINDOW_SECONDS \<le> ?t"
    using assms(3-5) by (auto simp: computeTWAP_def accumulate_def Let_def split: if_splits)
  note c = weighted_bounds[OF seg]
  have "0 \<le> m * ?t" using assms(2) t by simp
  then have "0 \<le> ?c" using c by linarith
  then have p': "p0 = ?c div ?t" using p t by (simp add: sdiv_nonneg)
  have "m \<le> p0" unfolding p' using c t by (simp add: div_le_iff_int)
  moreover have "p0 \<le> M"
  proof -
    have "?c < (M + 1) * ?t" using c t by (simp add: algebra_simps)
    then have "?c div ?t < M + 1" using t by (simp only: div_less_iff_int)
    then show ?thesis unfolding p' by linarith
  qed
  ultimately show ?thesis using win by blast
qed

text \<open>An average that is given rests on at least the minimal window, between observations of the cache.\<close>

theorem twap_rests_on_window:
  assumes "getTWAP e p True w = (Inr (Some tw), w')"
  shows "MIN_TWAP_WINDOW_SECONDS \<le> twWindow tw \<and> twWindow tw = obTime (twEnd tw) - obTime (twStart tw) \<and>
    computeTWAP (twStart tw) (twEnd tw) True = Inr (twPrice0 tw, twPrice1 tw, twWindow tw)"
  using assms by (auto simp: getTWAP_def act_simps Let_def computeTWAP_def split: if_splits)

section \<open>Witnesses\<close>

definition at_time :: "int \<Rightarrow> observation" where
  "at_time t = \<lparr>obPrice0 = 7 * t, obPrice1 = t, obTime = t\<rparr>"

theorem cache_closed_form_witness:
  "foldl addObservation [] (map at_time [0, 200, 300, 700]) = map at_time [300, 700]"
proof -
  have s: "sorted (map obTime (map at_time [0, 200, 300, 700]))" by (simp add: at_time_def)
  have "covered (map at_time [0, 200, 300, 700]) = 3" by (simp add: covered_def at_time_def MIN_TWAP_WINDOW_SECONDS_def)
  then show ?thesis using cache_closed_form[OF s] by (simp add: MAX_OBSERVATIONS_def)
qed

theorem cache_spans_window_iff_witness:
  "MIN_TWAP_WINDOW_SECONDS \<le> obTime (last (map at_time [0, 300])) - obTime (hd (foldl addObservation [] (map at_time [0, 300])))"
proof -
  have s: "sorted (map obTime (map at_time [0, 300]))" "map at_time [0, 300] \<noteq> []" by (simp_all add: at_time_def)
  show ?thesis using cache_spans_window_iff[OF s] by (simp add: at_time_def MIN_TWAP_WINDOW_SECONDS_def MAX_OBSERVATIONS_def)
qed

theorem twap_between_witness:
  "2 \<le> (5 :: int) \<and> computeTWAP (at_time 0) \<lparr>obPrice0 = 500, obPrice1 = 0, obTime = 100\<rparr> False = Inr (5, 0, 100)"
proof -
  let ?b = "\<lparr>obPrice0 = 500, obPrice1 = 0, obTime = 100\<rparr>"
  have run: "computeTWAP (at_time 0) ?b False = Inr (5, 0, 100)"
    by (simp add: computeTWAP_def at_time_def sdiv_nonneg)
  have "2 \<le> (5 :: int) \<and> (5 :: int) \<le> 8"
    using twap_between[OF _ _ _ _ run, of 2 8 "[(2, 50), (8, 50)]"] by (simp add: accumulate_def at_time_def)
  then show ?thesis using run by simp
qed

definition some_oracle :: "oracle_state oracle_env" where
  "some_oracle = \<lparr>orCumulative = (\<lambda>_ w. (Inr (2100, 0, 300), w)), orReserves = (\<lambda>_ w. (Inr (1, 1), w)),
     orTokens = (\<lambda>_ w. (Inr (''A'', ''B''), w)), orValid = (\<lambda>_. True)\<rparr>"

theorem twap_rests_on_window_witness:
  "\<exists>tw w'. getTWAP some_oracle ''P'' True \<lparr>observationCache = [(''P'', [at_time 0])]\<rparr> = (Inr (Some tw), w') \<and>
    MIN_TWAP_WINDOW_SECONDS \<le> twWindow tw \<and> twPrice0 tw = 7"
proof -
  have v: "trim ''P'' \<noteq> []" by code_simp
  obtain tw w' where run: "getTWAP some_oracle ''P'' True \<lparr>observationCache = [(''P'', [at_time 0])]\<rparr> = (Inr (Some tw), w')"
      and "twPrice0 tw = 7"
    using v by (auto simp: getTWAP_def observe_def some_oracle_def validateAddress_def throw_if_def cached_def addObservation_def
        capObservations_def at_time_def MAX_OBSERVATIONS_def MIN_TWAP_WINDOW_SECONDS_def computeTWAP_def sdiv_nonneg
        bindW_def liftW_def retW_def Let_def)
  then show ?thesis using twap_rests_on_window[OF run] by blast
qed

end
