(* ===== verification/JsMap.thy ===== *)
theory JsMap
  imports Prelude
begin

text \<open>
  The \<open>Map\<close> of JavaScript with string keys, as the language defines it: a list of entries in the order of
  insertion. Deleting an entry leaves a hole, setting a present key changes its entry in place, and a loop over
  a map is a loop over the positions, so it meets entries that are added while it waits.
\<close>

type_synonym 'a js_map = "(string \<times> 'a) option list"

fun js_get :: "'a js_map \<Rightarrow> string \<Rightarrow> 'a option" where
  "js_get [] k = None"
| "js_get (None # m) k = js_get m k"
| "js_get (Some (j, v) # m) k = (if j = k then Some v else js_get m k)"

fun js_set :: "'a js_map \<Rightarrow> string \<Rightarrow> 'a \<Rightarrow> 'a js_map" where
  "js_set [] k v = [Some (k, v)]"
| "js_set (None # m) k v = None # js_set m k v"
| "js_set (Some (j, u) # m) k v = (if j = k then Some (k, v) # m else Some (j, u) # js_set m k v)"

definition js_delete :: "'a js_map \<Rightarrow> string \<Rightarrow> 'a js_map" where
  "js_delete m k = map (\<lambda>x. case x of Some (j, v) \<Rightarrow> if j = k then None else x | None \<Rightarrow> None) m"

fun js_entries :: "'a js_map \<Rightarrow> (string \<times> 'a) list" where
  "js_entries [] = []"
| "js_entries (None # m) = js_entries m"
| "js_entries (Some e # m) = e # js_entries m"

definition js_values :: "'a js_map \<Rightarrow> 'a list" where
  "js_values m = map snd (js_entries m)"

definition js_size :: "'a js_map \<Rightarrow> nat" where
  "js_size m = length (js_entries m)"

definition js_wf :: "'a js_map \<Rightarrow> bool" where
  "js_wf m \<longleftrightarrow> distinct (map fst (js_entries m))"

section \<open>What a client relies on\<close>

text \<open>The contract of a store with keys: what a lookup returns after a write and after a removal.\<close>

locale keyed_store =
  fixes get :: "'s \<Rightarrow> 'k \<Rightarrow> 'v option"
    and put :: "'s \<Rightarrow> 'k \<Rightarrow> 'v \<Rightarrow> 's"
    and del :: "'s \<Rightarrow> 'k \<Rightarrow> 's"
  assumes get_put: "get (put s k v) j = (if j = k then Some v else get s j)"
    and get_del: "get (del s k) j = (if j = k then None else get s j)"
begin

definition every :: "('k \<Rightarrow> 'v \<Rightarrow> bool) \<Rightarrow> 's \<Rightarrow> bool" where
  "every P s \<longleftrightarrow> (\<forall>k v. get s k = Some v \<longrightarrow> P k v)"

lemma everyD: "every P s \<Longrightarrow> get s k = Some v \<Longrightarrow> P k v"
  by (simp add: every_def)

lemma every_put: "every P s \<Longrightarrow> P k v \<Longrightarrow> every P (put s k v)"
  by (auto simp: every_def get_put)

lemma every_del: "every P s \<Longrightarrow> every P (del s k)"
  by (auto simp: every_def get_del)

lemma every_modify: "every P s \<Longrightarrow> get s k = Some v \<Longrightarrow> (P k v \<Longrightarrow> P k (f v)) \<Longrightarrow> every P (put s k (f v))"
  by (blast intro: every_put everyD)

text \<open>A write of a value read earlier undoes whatever happened to the key in between.\<close>

lemma put_wins: "get (put s k v) k = Some v"
  by (simp add: get_put)

lemma put_other: "j \<noteq> k \<Longrightarrow> get (put s k v) j = get s j"
  by (simp add: get_put)

end

lemma js_get_set: "js_get (js_set m k v) j = (if j = k then Some v else js_get m j)"
  by (induction m k v rule: js_set.induct) auto

lemma js_get_delete: "js_get (js_delete m k) j = (if j = k then None else js_get m j)"
  unfolding js_delete_def by (induction m rule: js_entries.induct) auto

interpretation js: keyed_store js_get js_set js_delete
  by unfold_locales (rule js_get_set, rule js_get_delete)

lemma js_get_map_of: "js_get m k = map_of (js_entries m) k"
  by (induction m k rule: js_get.induct) auto

lemma js_get_entry: "js_get m k = Some v \<Longrightarrow> (k, v) \<in> set (js_entries m)"
  by (simp add: js_get_map_of map_of_SomeD)

lemma js_entry_get: "js_wf m \<Longrightarrow> (k, v) \<in> set (js_entries m) \<Longrightarrow> js_get m k = Some v"
  by (simp add: js_get_map_of js_wf_def)

lemma js_get_None: "js_get m k = None \<longleftrightarrow> k \<notin> fst ` set (js_entries m)"
  by (simp add: js_get_map_of map_of_eq_None_iff)

lemma js_entries_append [simp]: "js_entries (a @ b) = js_entries a @ js_entries b"
  by (induction a rule: js_entries.induct) auto

lemma js_keys_set: "map fst (js_entries (js_set m k v)) =
    map fst (js_entries m) @ (if js_get m k = None then [k] else [])"
  by (induction m k v rule: js_set.induct) auto

lemma js_set_fresh: "js_get m k = None \<Longrightarrow> js_set m k v = m @ [Some (k, v)]"
  by (induction m k v rule: js_set.induct) (auto split: if_splits)

lemma js_wf_set: "js_wf m \<Longrightarrow> js_wf (js_set m k v)"
  by (auto simp: js_wf_def js_keys_set js_get_None)

lemma js_entries_delete: "js_entries (js_delete m k) = filter (\<lambda>(j, v). j \<noteq> k) (js_entries m)"
  unfolding js_delete_def by (induction m rule: js_entries.induct) auto

lemma js_wf_delete: "js_wf m \<Longrightarrow> js_wf (js_delete m k)"
  by (simp add: js_wf_def js_entries_delete distinct_map_filter)

lemma js_size_set: "js_size (js_set m k v) = js_size m + (if js_get m k = None then 1 else 0)"
proof -
  have "js_size (js_set m k v) = length (map fst (js_entries (js_set m k v)))" by (simp add: js_size_def)
  then show ?thesis by (simp only: js_keys_set) (simp add: js_size_def)
qed

lemma js_size_delete: "js_size (js_delete m k) \<le> js_size m"
  by (simp add: js_size_def js_entries_delete)

lemma js_wf_Nil [simp]: "js_wf []"
  by (simp add: js_wf_def)

lemma js_length_delete [simp]: "length (js_delete m k) = length m"
  by (simp add: js_delete_def)

text \<open>Setting the key of an entry changes the entry at its position only.\<close>

lemma js_set_nth:
  assumes "js_wf m" and "i < length m" and "m ! i = Some (k, u)"
  shows "js_set m k v = m[i := Some (k, v)]"
  using assms
proof (induction m k v arbitrary: i rule: js_set.induct)
  case (2 m k v)
  then show ?case by (cases i) (auto simp: js_wf_def)
next
  case (3 j w m k v)
  show ?case
  proof (cases i)
    case 0
    then show ?thesis using 3 by simp
  next
    case (Suc n)
    then have "Some (k, u) \<in> set m" using 3 by (auto simp: in_set_conv_nth)
    then have "k \<in> fst ` set (js_entries m)" by (induction m rule: js_entries.induct) auto
    then have "j \<noteq> k" using "3.prems"(1) by (auto simp: js_wf_def)
    then show ?thesis using 3 Suc by (auto simp: js_wf_def)
  qed
qed simp

lemma js_nth_get:
  assumes "js_wf m" and "i < length m" and "m ! i = Some (k, v)"
  shows "js_get m k = Some v"
proof (rule js_entry_get[OF assms(1)])
  have "Some (k, v) \<in> set m" using assms(2,3) by (metis nth_mem)
  then show "(k, v) \<in> set (js_entries m)" by (induction m rule: js_entries.induct) auto
qed

end
