(* ===== verification/Alerts.thy ===== *)
theory Alerts
  imports Oracle JsMap
begin

text \<open>
  \<open>AlertsModule\<close> of \<open>modules/alerts.ts\<close>: rules over the pairs of the exchange, evaluated on request. The rules
  are a \<open>Map\<close>; the chain is read through the oracle's environment, and a read may let other calls run.
\<close>

section \<open>Rules\<close>

datatype alert_condition = PriceAbove | PriceBelow | VolumeAbove | LiquidityBelow | GasAbove | ReserveChange

datatype alert_severity = InfoAlert | WarningAlert | CriticalAlert

datatype alert_status = ActiveAlert | PausedAlert | FiredAlert | AcknowledgedAlert | ResolvedAlert | ArchivedAlert

datatype alert_frequency = OnceOnly | EveryTime | AtIntervals

record alert_config =
  alName :: string
  alDescription :: "string option"
  alCondition :: alert_condition
  alThreshold :: int
  alSeverity :: alert_severity
  alFrequency :: "alert_frequency option"
  alCooldown :: "rat option"
  alAddresses :: "string list"
  alEnabled :: "bool option"

record alert_instance =
  alId :: string
  alConfig :: alert_config
  alStatus :: alert_status
  alValue :: "int option"
  alEvaluatedAt :: "int option"
  alFiredAt :: "int option"
  alFireCount :: nat
  alMessage :: "string option"

record alert_summary =
  alTotal :: nat
  alBySeverity :: "alert_severity \<Rightarrow> nat"
  alByStatus :: "alert_status \<Rightarrow> nat"
  alFiredLast24h :: nat

text \<open>The module has an oracle of its own, whose cache is the first field of its state.\<close>

record alerts_state = oracle_state +
  alRules :: "alert_instance js_map"

record 'w alerts_env =
  alOracle :: "'w oracle_env"
  alNowMs :: "'w \<Rightarrow> int"
  alRandom :: "nat \<Rightarrow> 'w \<Rightarrow> string \<times> 'w"

definition DEFAULT_COOLDOWN_SECONDS :: rat where
  "DEFAULT_COOLDOWN_SECONDS = 900"

definition MAX_ALERTS_PER_USER :: nat where
  "MAX_ALERTS_PER_USER = 50"

definition DEFAULT_FREQUENCY :: alert_frequency where
  "DEFAULT_FREQUENCY = AtIntervals"

definition epochSeconds :: "int \<Rightarrow> int" where
  "epochSeconds ms = ms div 1000"

section \<open>Changing rules\<close>

fun checkAddresses :: "(string \<Rightarrow> bool) \<Rightarrow> string list \<Rightarrow> unit result" where
  "checkAddresses valid [] = Inr ()"
| "checkAddresses valid (a # rest) = bindE (validateAddress valid a ''monitoredAddresses'') (\<lambda>_. checkAddresses valid rest)"

definition resolvedConfig :: "alert_config \<Rightarrow> alert_config" where
  "resolvedConfig c = c\<lparr>alFrequency := Some (case alFrequency c of None \<Rightarrow> DEFAULT_FREQUENCY | Some f \<Rightarrow> f),
     alCooldown := Some (case alCooldown c of None \<Rightarrow> DEFAULT_COOLDOWN_SECONDS | Some s \<Rightarrow> s),
     alEnabled := Some (case alEnabled c of None \<Rightarrow> True | Some b \<Rightarrow> b)\<rparr>"

definition newInstance :: "string \<Rightarrow> alert_config \<Rightarrow> alert_instance" where
  "newInstance i c = \<lparr>alId = i, alConfig = c, alStatus = ActiveAlert, alValue = None, alEvaluatedAt = None,
     alFiredAt = None, alFireCount = 0, alMessage = None\<rparr>"

definition createAlert :: "('x alerts_state_scheme) alerts_env \<Rightarrow> alert_config \<Rightarrow> ('x alerts_state_scheme, thrown, string) act" where
  "createAlert e c w =
     (if MAX_ALERTS_PER_USER \<le> js_size (alRules w)
      then throwW (Sdk (ValidationError (''Maximum of '' @ nat_str MAX_ALERTS_PER_USER @ '' alert rules reached''))) w
      else bindW (liftW (checkAddresses (orValid (alOracle e)) (alAddresses c))) (\<lambda>_ w.
        if alThreshold c \<le> 0 then throwW (Sdk (ValidationError ''threshold must be a positive integer'')) w
        else (let (r, w1) = alRandom e 8 w; i = ''alert_'' @ int_str (alNowMs e w) @ ''_'' @ r in
          (Inr i, w1\<lparr>alRules := js_set (alRules w1) i (newInstance i (resolvedConfig c))\<rparr>))) w)"

definition found :: "string \<Rightarrow> 'x alerts_state_scheme \<Rightarrow> alert_instance result" where
  "found i w = (case js_get (alRules w) i of None \<Rightarrow> Inl (ValidationError (''Alert not found: '' @ i)) | Some a \<Rightarrow> Inr a)"

definition put_rule :: "string \<Rightarrow> alert_instance \<Rightarrow> 'x alerts_state_scheme \<Rightarrow> 'x alerts_state_scheme" where
  "put_rule i a w = w\<lparr>alRules := js_set (alRules w) i a\<rparr>"

text \<open>The fields given replace those of the configuration; the argument is the effect of spreading them.\<close>

definition updateAlert :: "string \<Rightarrow> (alert_config \<Rightarrow> alert_config) \<Rightarrow> ('x alerts_state_scheme, thrown, unit) act" where
  "updateAlert i updates w = bindW (liftW (found i w)) (\<lambda>a w.
     (Inr (), put_rule i (a\<lparr>alConfig := updates (alConfig a), alStatus := ActiveAlert\<rparr>) w)) w"

fun status_text :: "alert_status \<Rightarrow> string" where
  "status_text ActiveAlert = ''active''"
| "status_text PausedAlert = ''paused''"
| "status_text FiredAlert = ''fired''"
| "status_text AcknowledgedAlert = ''acknowledged''"
| "status_text ResolvedAlert = ''resolved''"
| "status_text ArchivedAlert = ''archived''"

definition acknowledgeAlert :: "string \<Rightarrow> ('x alerts_state_scheme, thrown, unit) act" where
  "acknowledgeAlert i w = bindW (liftW (found i w)) (\<lambda>a w.
     if alStatus a \<noteq> FiredAlert
     then throwW (Sdk (ValidationError (''Cannot acknowledge alert in status '' @ status_text (alStatus a)))) w
     else (Inr (), put_rule i (a\<lparr>alStatus := AcknowledgedAlert\<rparr>) w)) w"

definition resolveAlert :: "string \<Rightarrow> ('x alerts_state_scheme, thrown, unit) act" where
  "resolveAlert i w = bindW (liftW (found i w)) (\<lambda>a w. (Inr (), put_rule i (a\<lparr>alStatus := ResolvedAlert\<rparr>) w)) w"

definition archiveAlert :: "string \<Rightarrow> ('x alerts_state_scheme, thrown, unit) act" where
  "archiveAlert i w = bindW (liftW (found i w)) (\<lambda>a w. (Inr (), put_rule i (a\<lparr>alStatus := ArchivedAlert\<rparr>) w)) w"

definition setAlertPaused :: "string \<Rightarrow> bool \<Rightarrow> ('x alerts_state_scheme, thrown, unit) act" where
  "setAlertPaused i paused w = bindW (liftW (found i w)) (\<lambda>a w.
     (Inr (), put_rule i (a\<lparr>alStatus := (if paused then PausedAlert else ActiveAlert)\<rparr>) w)) w"

definition getAlert :: "string \<Rightarrow> ('x alerts_state_scheme, thrown, alert_instance) act" where
  "getAlert i w = liftW (found i w) w"

definition listAlerts :: "alert_status option \<Rightarrow> 'x alerts_state_scheme \<Rightarrow> alert_instance list" where
  "listAlerts s w = (case s of None \<Rightarrow> js_values (alRules w)
     | Some st \<Rightarrow> filter (\<lambda>a. alStatus a = st) (js_values (alRules w)))"

text \<open>A time of zero is falsy.\<close>

definition fired_since :: "int \<Rightarrow> alert_instance \<Rightarrow> bool" where
  "fired_since t a \<longleftrightarrow> (case alFiredAt a of None \<Rightarrow> False | Some f \<Rightarrow> f \<noteq> 0 \<and> t \<le> f)"

definition getAlertSummary :: "('x alerts_state_scheme) alerts_env \<Rightarrow> 'x alerts_state_scheme \<Rightarrow> alert_summary" where
  "getAlertSummary e w = (let xs = js_values (alRules w); dayAgo = epochSeconds (alNowMs e w) - 86400 in
     \<lparr>alTotal = length xs, alBySeverity = (\<lambda>s. length (filter (\<lambda>a. alSeverity (alConfig a) = s) xs)),
      alByStatus = (\<lambda>s. length (filter (\<lambda>a. alStatus a = s) xs)),
      alFiredLast24h = length (filter (fired_since dayAgo) xs)\<rparr>)"

text \<open>Deleting the entry a loop stands on does not disturb the loop.\<close>

definition cleanupArchived :: "'x alerts_state_scheme \<Rightarrow> 'x alerts_state_scheme" where
  "cleanupArchived w = w\<lparr>alRules := foldl js_delete (alRules w)
     (map fst (filter (\<lambda>(i, a). alStatus a = ArchivedAlert) (js_entries (alRules w))))\<rparr>"

section \<open>Evaluation\<close>

text \<open>A rule without addresses asks for the price of \<open>undefined\<close>, which the address check rejects.\<close>

definition fetchPrice :: "('x oracle_state_scheme) oracle_env \<Rightarrow> string option \<Rightarrow> ('x oracle_state_scheme, thrown, int) act" where
  "fetchPrice oe addr = (case addr of None \<Rightarrow> retW 0 | Some a \<Rightarrow> catchW
     (bindW (getTWAP oe a True) (\<lambda>t. case t of Some tw \<Rightarrow> retW (twPrice0 tw)
       | None \<Rightarrow> bindW (orReserves oe a) (\<lambda>(r0, r1).
           retW (if r0 = 0 \<or> r1 = 0 then 0 else r1 * 10000000 sdiv r0))))
     (\<lambda>_. retW 0))"

fun sumReserves :: "'w oracle_env \<Rightarrow> string list \<Rightarrow> int \<Rightarrow> ('w, thrown, int) act" where
  "sumReserves oe [] t = retW t"
| "sumReserves oe (a # rest) t = bindW (orReserves oe a) (\<lambda>(r0, r1). sumReserves oe rest (t + (r0 + r1)))"

definition fetchLiquidity :: "'w oracle_env \<Rightarrow> string list \<Rightarrow> ('w, thrown, int) act" where
  "fetchLiquidity oe addrs = catchW (sumReserves oe addrs 0) (\<lambda>_. retW 0)"

definition fetchVolume24h :: "string list \<Rightarrow> ('w, thrown, int) act" where "fetchVolume24h addrs = retW 0"

definition fetchAverageGas :: "('w, thrown, int) act" where "fetchAverageGas = retW 0"

definition fetchReserveChange :: "string option \<Rightarrow> ('w, thrown, int) act" where "fetchReserveChange addr = retW 0"

definition firstAddress :: "string list \<Rightarrow> string option" where
  "firstAddress addrs = (case addrs of [] \<Rightarrow> None | a # _ \<Rightarrow> Some a)"

fun fetchMetric :: "('x oracle_state_scheme) oracle_env \<Rightarrow> alert_condition \<Rightarrow> string list \<Rightarrow> ('x oracle_state_scheme, thrown, int) act" where
  "fetchMetric oe PriceAbove addrs = fetchPrice oe (firstAddress addrs)"
| "fetchMetric oe PriceBelow addrs = fetchPrice oe (firstAddress addrs)"
| "fetchMetric oe VolumeAbove addrs = fetchVolume24h addrs"
| "fetchMetric oe LiquidityBelow addrs = fetchLiquidity oe addrs"
| "fetchMetric oe GasAbove addrs = fetchAverageGas"
| "fetchMetric oe ReserveChange addrs = fetchReserveChange (firstAddress addrs)"

fun evaluateCondition :: "alert_condition \<Rightarrow> int \<Rightarrow> int \<Rightarrow> bool" where
  "evaluateCondition PriceAbove current threshold = (threshold \<le> current)"
| "evaluateCondition VolumeAbove current threshold = (threshold \<le> current)"
| "evaluateCondition GasAbove current threshold = (threshold \<le> current)"
| "evaluateCondition PriceBelow current threshold = (current \<le> threshold)"
| "evaluateCondition LiquidityBelow current threshold = (current \<le> threshold)"
| "evaluateCondition ReserveChange current threshold = (threshold \<le> current)"

definition cooling :: "int \<Rightarrow> alert_instance \<Rightarrow> bool" where
  "cooling now a \<longleftrightarrow> (case alFiredAt a of None \<Rightarrow> False | Some t \<Rightarrow> t \<noteq> 0 \<and>
     of_int (now - t) < (case alCooldown (alConfig a) of None \<Rightarrow> DEFAULT_COOLDOWN_SECONDS | Some c \<Rightarrow> c))"

definition skipped :: "int \<Rightarrow> alert_instance \<Rightarrow> bool" where
  "skipped now a \<longleftrightarrow> alStatus a \<in> {PausedAlert, ArchivedAlert, ResolvedAlert} \<or>
     alEnabled (alConfig a) \<noteq> Some True \<or>
     alFrequency (alConfig a) = Some AtIntervals \<and> cooling now a \<or>
     alFrequency (alConfig a) = Some OnceOnly \<and> 0 < alFireCount a"

definition triggers :: "int \<Rightarrow> alert_instance \<Rightarrow> bool" where
  "triggers v a = evaluateCondition (alCondition (alConfig a)) v (alThreshold (alConfig a))"

definition evaluated :: "int \<Rightarrow> int \<Rightarrow> alert_instance \<Rightarrow> alert_instance" where
  "evaluated now v a = (let u = a\<lparr>alValue := Some v, alEvaluatedAt := Some now\<rparr> in
     if triggers v a then u\<lparr>alStatus := FiredAlert, alFiredAt := Some now, alFireCount := alFireCount u + 1\<rparr> else u)"

definition evaluateEntry :: "('x alerts_state_scheme) alerts_env \<Rightarrow> int \<Rightarrow> string \<Rightarrow> alert_instance \<Rightarrow>
    ('x alerts_state_scheme, thrown, bool) act" where
  "evaluateEntry e now i a = bindW (fetchMetric (alOracle e) (alCondition (alConfig a)) (alAddresses (alConfig a)))
     (\<lambda>v w. (Inr (triggers v a), put_rule i (evaluated now v a) w))"

text \<open>The loop over the map, by position: entries added during a read are met. Fuel counts the positions.\<close>

fun evaluateFrom :: "('x alerts_state_scheme) alerts_env \<Rightarrow> int \<Rightarrow> nat \<Rightarrow> nat \<Rightarrow> string list \<Rightarrow> 'x alerts_state_scheme \<Rightarrow>
    ((thrown + string list) \<times> 'x alerts_state_scheme) option" where
  "evaluateFrom e now 0 n fired w = None"
| "evaluateFrom e now (Suc fuel) n fired w = (if length (alRules w) \<le> n then Some (Inr fired, w)
     else case alRules w ! n of None \<Rightarrow> evaluateFrom e now fuel (Suc n) fired w
     | Some (i, a) \<Rightarrow> if skipped now a then evaluateFrom e now fuel (Suc n) fired w
       else case evaluateEntry e now i a w of (Inl x, w1) \<Rightarrow> Some (Inl x, w1)
         | (Inr b, w1) \<Rightarrow> evaluateFrom e now fuel (Suc n) (if b then fired @ [i] else fired) w1)"

definition evaluateAll :: "('x alerts_state_scheme) alerts_env \<Rightarrow> nat \<Rightarrow> 'x alerts_state_scheme \<Rightarrow>
    ((thrown + string list) \<times> 'x alerts_state_scheme) option" where
  "evaluateAll e fuel w = evaluateFrom e (epochSeconds (alNowMs e w)) fuel 0 [] w"

section \<open>An evaluation that nothing interrupts\<close>

definition undisturbed :: "('x alerts_state_scheme) alerts_env \<Rightarrow> bool" where
  "undisturbed e \<longleftrightarrow> (\<forall>p. keeps alRules (orCumulative (alOracle e) p) \<and> keeps alRules (orReserves (alOracle e) p) \<and>
     keeps alRules (orTokens (alOracle e) p)) \<and> (\<forall>n w. alRules (snd (alRandom e n w)) = alRules w)"

lemma undisturbedD:
  assumes "undisturbed e"
  shows "keeps alRules (orCumulative (alOracle e) p)" and "keeps alRules (orReserves (alOracle e) p)"
    and "keeps alRules (orTokens (alOracle e) p)"
  using assms by (auto simp: undisturbed_def)

lemma keeps_catchW [intro]: "keeps L m \<Longrightarrow> (\<And>x. keeps L (h x)) \<Longrightarrow> keeps L (catchW m h)"
  by (auto simp: keeps_def catchW_def split: prod.splits sum.splits) (metis snd_conv)+

text \<open>The oracle changes its cache only.\<close>

lemma keeps_observe:
  assumes "keeps L (orCumulative oe p)" and "\<And>f w. L (observationCache_update f w) = L w"
  shows "keeps L (observe oe p)"
  unfolding observe_def
proof (rule keeps_bindW[OF keeps_liftW], rule keeps_bindW[OF assms(1)])
  fix x :: "int \<times> int \<times> int"
  show "keeps L ((\<lambda>(c0, c1, t) w. (let ob = \<lparr>obPrice0 = c0, obPrice1 = c1, obTime = t\<rparr> in
       (Inr ob, w\<lparr>observationCache := AList.update p (addObservation (cached w p) ob) (observationCache w)\<rparr>))) x)"
    by (cases x) (simp add: keeps_def Let_def assms(2))
qed

lemma keeps_apply: "(\<And>w. \<exists>m. f w = m w \<and> keeps L m) \<Longrightarrow> keeps L f"
  by (metis keeps_def)

lemma keeps_getTWAP:
  assumes "keeps L (orCumulative oe p)" and "keeps L (orTokens oe p)" and "\<And>f w. L (observationCache_update f w) = L w"
  shows "keeps L (getTWAP oe p b)"
  unfolding getTWAP_def
proof (rule keeps_bindW[OF keeps_liftW], rule keeps_bindW[OF keeps_observe[OF assms(1,3)]], rule keeps_apply, unfold Let_def)
  fix x :: observation and w
  let ?R = "\<lambda>obs. bindW (orTokens oe p) (\<lambda>(t0, t1). bindW (liftW (computeTWAP (hd obs) (last obs) False)) (\<lambda>(p0, p1, _).
         retW (Some \<lparr>twPair = p, twToken0 = t0, twToken1 = t1, twPrice0 = p0, twPrice1 = p1,
           twWindow = obTime (last obs) - obTime (hd obs), twStart = hd obs, twEnd = last obs\<rparr>)))"
  have r: "keeps L (?R obs)" for obs by (intro keeps_bindW assms(2)) (auto split: prod.splits)
  show "\<exists>m. (if length (cached w p) < 2 \<or> obTime (last (cached w p)) \<le> obTime (hd (cached w p)) \<or>
        b \<and> obTime (last (cached w p)) - obTime (hd (cached w p)) < MIN_TWAP_WINDOW_SECONDS
      then retW None w else ?R (cached w p) w) = m w \<and> keeps L m"
    using r[of "cached w p"] by (cases "length (cached w p) < 2 \<or> obTime (last (cached w p)) \<le> obTime (hd (cached w p)) \<or>
        b \<and> obTime (last (cached w p)) - obTime (hd (cached w p)) < MIN_TWAP_WINDOW_SECONDS") (auto simp del: prod.case)
qed

lemma keeps_fetchMetric:
  assumes "undisturbed e"
  shows "keeps alRules (fetchMetric (alOracle e) c addrs)"
proof -
  note k = undisturbedD[OF assms]
  have price: "keeps alRules (fetchPrice (alOracle e) x)" for x
    unfolding fetchPrice_def
    by (auto intro!: keeps_catchW keeps_bindW keeps_getTWAP k split: option.splits prod.splits)
  have "keeps alRules (sumReserves (alOracle e) as t)" for as t
    by (induction as arbitrary: t) (auto intro!: keeps_bindW k split: prod.splits)
  then show ?thesis using price
    by (cases c) (auto simp: fetchLiquidity_def fetchVolume24h_def fetchAverageGas_def fetchReserveChange_def intro!: keeps_catchW)
qed

lemma catchW_total: "(\<And>x w. \<exists>v w'. h x w = (Inr v, w')) \<Longrightarrow> \<exists>v w'. catchW m h w = (Inr v, w')"
  by (auto simp: catchW_def split: prod.splits sum.splits)

lemma fetchMetric_total: "\<exists>v w'. fetchMetric oe c addrs w = (Inr v, w')"
  by (cases c) (auto simp: fetchPrice_def fetchLiquidity_def fetchVolume24h_def fetchAverageGas_def fetchReserveChange_def
      retW_def intro!: catchW_total split: option.splits)

definition judged :: "int \<Rightarrow> int \<Rightarrow> (string \<times> alert_instance) option \<Rightarrow> (string \<times> alert_instance) option" where
  "judged now v x = (case x of None \<Rightarrow> None
     | Some (i, a) \<Rightarrow> if skipped now a then x else Some (i, evaluated now v a))"

definition fires :: "int \<Rightarrow> int \<Rightarrow> (string \<times> alert_instance) option \<Rightarrow> string list" where
  "fires now v x = (case x of None \<Rightarrow> [] | Some (i, a) \<Rightarrow> if \<not> skipped now a \<and> triggers v a then [i] else [])"

definition readings :: "('x alerts_state_scheme) alerts_env \<Rightarrow> alert_instance js_map \<Rightarrow> int list \<Rightarrow> bool" where
  "readings e rs vals \<longleftrightarrow> list_all2 (\<lambda>x v. case x of None \<Rightarrow> True | Some (i, a) \<Rightarrow>
     \<exists>u u'. fetchMetric (alOracle e) (alCondition (alConfig a)) (alAddresses (alConfig a)) u = (Inr v, u')) rs vals"

lemma readings_Cons: "readings e (x # rs) (v # vals) \<longleftrightarrow> (case x of None \<Rightarrow> True | Some (i, a) \<Rightarrow>
     \<exists>u u'. fetchMetric (alOracle e) (alCondition (alConfig a)) (alAddresses (alConfig a)) u = (Inr v, u')) \<and> readings e rs vals"
  by (simp add: readings_def)

lemma evaluateEntry_total:
  assumes "undisturbed e"
  obtains v w1 where "evaluateEntry e now i a w = (Inr (triggers v a), put_rule i (evaluated now v a) w1)"
    and "alRules w1 = alRules w"
    and "fetchMetric (alOracle e) (alCondition (alConfig a)) (alAddresses (alConfig a)) w = (Inr v, w1)"
proof -
  obtain v w1 where f: "fetchMetric (alOracle e) (alCondition (alConfig a)) (alAddresses (alConfig a)) w = (Inr v, w1)"
    using fetchMetric_total by blast
  moreover have "alRules w1 = alRules w" by (rule keepsD[OF keeps_fetchMetric[OF assms] f])
  ultimately show ?thesis by (intro that) (simp_all add: evaluateEntry_def bindW_def)
qed

lemma evaluateFrom_exact:
  assumes "undisturbed e" and "alRules w = pre @ post" and "js_wf (pre @ post)" and "length post < fuel"
  shows "\<exists>vals w'. evaluateFrom e now fuel (length pre) fired w = Some (Inr (fired @ concat (map2 (fires now) vals post)), w') \<and>
    alRules w' = pre @ map2 (judged now) vals post \<and> readings e post vals"
  using assms(2-)
proof (induction post arbitrary: pre fuel fired w)
  case Nil
  then show ?case by (cases fuel) (auto simp: readings_def)
next
  case (Cons x post)
  obtain f where fuel: "fuel = Suc f" "length post < f" using Cons.prems(3) by (cases fuel) auto
  have at: "\<not> length (alRules w) \<le> length pre" "alRules w ! length pre = x" using Cons.prems(1) by simp_all
  have skip: ?case if pass: "evaluateFrom e now fuel (length pre) fired w = evaluateFrom e now f (Suc (length pre)) fired w"
      and keep: "\<And>v. judged now v x = x" "\<And>v. fires now v x = []"
      and read: "\<exists>v. case x of None \<Rightarrow> True | Some (i, a) \<Rightarrow>
        \<exists>u u'. fetchMetric (alOracle e) (alCondition (alConfig a)) (alAddresses (alConfig a)) u = (Inr v, u')"
  proof -
    obtain v where v: "case x of None \<Rightarrow> True | Some (i, a) \<Rightarrow>
        \<exists>u u'. fetchMetric (alOracle e) (alCondition (alConfig a)) (alAddresses (alConfig a)) u = (Inr v, u')" using read by blast
    obtain vals w' where "evaluateFrom e now f (length (pre @ [x])) fired w = Some (Inr (fired @ concat (map2 (fires now) vals post)), w')"
      "alRules w' = (pre @ [x]) @ map2 (judged now) vals post" "readings e post vals"
      using Cons.IH[of w "pre @ [x]" f fired] Cons.prems fuel(2) by auto
    then show ?thesis using pass keep v by (intro exI[of _ "v # vals"] exI[of _ w']) (simp add: readings_Cons)
  qed
  show ?case
  proof (cases x)
    case None
    then show ?thesis using fuel at by (intro skip) (simp_all add: judged_def fires_def)
  next
    case (Some ia)
    obtain i a where x: "x = Some (i, a)" using Some by (cases ia) simp
    show ?thesis
    proof (cases "skipped now a")
      case True
      then show ?thesis using fuel at x fetchMetric_total by (intro skip) (simp_all add: judged_def fires_def, blast)
    next
      case False
      obtain v w1 where ev: "evaluateEntry e now i a w = (Inr (triggers v a), put_rule i (evaluated now v a) w1)"
        and rules: "alRules w1 = alRules w"
        and f: "fetchMetric (alOracle e) (alCondition (alConfig a)) (alAddresses (alConfig a)) w = (Inr v, w1)"
        by (rule evaluateEntry_total[OF assms(1)])
      let ?y = "Some (i, evaluated now v a)" and ?fired = "if triggers v a then fired @ [i] else fired"
      let ?w2 = "put_rule i (evaluated now v a) w1"
      have put: "alRules ?w2 = (pre @ [?y]) @ post" using Cons.prems(1,2) x rules
        by (simp add: put_rule_def js_set_nth[of _ "length pre" i a])
      have "js_wf ((pre @ [?y]) @ post)" using js_wf_set[OF Cons.prems(2), of i "evaluated now v a"] put Cons.prems(1) rules
        by (simp add: put_rule_def)
      then obtain vals w' where "evaluateFrom e now f (length (pre @ [?y])) ?fired ?w2 =
          Some (Inr (?fired @ concat (map2 (fires now) vals post)), w')"
        "alRules w' = (pre @ [?y]) @ map2 (judged now) vals post" "readings e post vals"
        using Cons.IH[of ?w2 "pre @ [?y]" f ?fired] put fuel(2) by auto
      then show ?thesis using fuel at x False ev f
        by (intro exI[of _ "v # vals"] exI[of _ w']) (auto simp: judged_def fires_def readings_Cons)
    qed
  qed
qed

text \<open>When no other call changes the rules meanwhile, an evaluation ends, every rule that is due is judged by one
  reading of its metric, the others stay as they are, and what is returned are the rules that triggered, in
  order.\<close>

theorem evaluate_all_exact:
  assumes "undisturbed e" and "js_wf (alRules w)" and "length (alRules w) < fuel"
  shows "\<exists>vals w'. evaluateAll e fuel w =
      Some (Inr (concat (map2 (fires (epochSeconds (alNowMs e w))) vals (alRules w))), w') \<and>
    alRules w' = map2 (judged (epochSeconds (alNowMs e w))) vals (alRules w) \<and> readings e (alRules w) vals"
  using evaluateFrom_exact[OF assms(1), of w "[]" "alRules w" fuel "epochSeconds (alNowMs e w)" "[]"] assms(2,3)
  by (simp add: evaluateAll_def)

section \<open>The invariant of the rules\<close>

datatype alerts_op = Create alert_config | Update string "alert_config \<Rightarrow> alert_config" | Acknowledge string
  | Resolve string | Archive string | SetPaused string bool | Evaluate | Cleanup

definition alerts_step :: "('x alerts_state_scheme) alerts_env \<Rightarrow> 'x alerts_state_scheme \<Rightarrow> alerts_op \<Rightarrow> 'x alerts_state_scheme" where
  "alerts_step e w c = (case c of
       Create cfg \<Rightarrow> snd (createAlert e cfg w)
     | Update i f \<Rightarrow> snd (updateAlert i f w)
     | Acknowledge i \<Rightarrow> snd (acknowledgeAlert i w)
     | Resolve i \<Rightarrow> snd (resolveAlert i w)
     | Archive i \<Rightarrow> snd (archiveAlert i w)
     | SetPaused i b \<Rightarrow> snd (setAlertPaused i b w)
     | Evaluate \<Rightarrow> (case evaluateAll e (Suc (length (alRules w))) w of Some (r, w') \<Rightarrow> w' | None \<Rightarrow> w)
     | Cleanup \<Rightarrow> cleanupArchived w)"

definition rule_ok :: "string \<Rightarrow> alert_instance \<Rightarrow> bool" where
  "rule_ok i a \<longleftrightarrow> alId a = i \<and> (alStatus a \<in> {FiredAlert, AcknowledgedAlert} \<longrightarrow> 0 < alFireCount a) \<and>
     (0 < alFireCount a \<longleftrightarrow> alFiredAt a \<noteq> None) \<and> (alFiredAt a \<noteq> None \<longrightarrow> alEvaluatedAt a \<noteq> None)"

definition alerts_inv :: "'x alerts_state_scheme \<Rightarrow> bool" where
  "alerts_inv w \<longleftrightarrow> js_wf (alRules w) \<and> js_size (alRules w) \<le> MAX_ALERTS_PER_USER \<and> js.every rule_ok (alRules w)"

lemma every_entries: "js_wf m \<Longrightarrow> js.every P m \<longleftrightarrow> (\<forall>(k, v) \<in> set (js_entries m). P k v)"
  unfolding js.every_def by (auto dest: js_get_entry js_entry_get)

lemma inv_cong: "alRules w' = alRules w \<Longrightarrow> alerts_inv w' \<longleftrightarrow> alerts_inv w"
  by (simp add: alerts_inv_def)

text \<open>Every operation on one rule reads it, changes it and writes it back.\<close>

lemma modify_inv:
  assumes "alerts_inv w" and "js_get (alRules w) i = Some a" and "rule_ok i a \<Longrightarrow> rule_ok i b"
  shows "alerts_inv (put_rule i b w)"
  using assms js.every_modify[of rule_ok "alRules w" i a "\<lambda>_. b"]
  by (auto simp: alerts_inv_def put_rule_def js_wf_set js_size_set)

lemma found_modify:
  assumes "alerts_inv w" and "\<And>a. rule_ok i a \<Longrightarrow> rule_ok i (f a)"
  shows "alerts_inv (snd (bindW (liftW (found i w)) (\<lambda>a w. (Inr (), put_rule i (f a) w)) w))"
  using assms by (auto simp: found_def bindW_def liftW_def intro: modify_inv split: option.splits)

lemma delete_inv: "alerts_inv w \<Longrightarrow> alerts_inv (w\<lparr>alRules := js_delete (alRules w) i\<rparr>)"
  using js_size_delete[of "alRules w" i] by (auto simp: alerts_inv_def js_wf_delete js.every_del intro: order_trans)

lemma cleanup_inv: "alerts_inv w \<Longrightarrow> alerts_inv (w\<lparr>alRules := foldl js_delete (alRules w) is\<rparr>)"
proof (induction "is" arbitrary: w)
  case (Cons i js)
  then show ?case using Cons.IH[of "w\<lparr>alRules := js_delete (alRules w) i\<rparr>"] delete_inv by auto
qed simp

lemma rule_ok_evaluated: "rule_ok i a \<Longrightarrow> rule_ok i (evaluated now v a)"
  by (auto simp: rule_ok_def evaluated_def Let_def)

lemma judged_entries:
  assumes "length vals = length rs"
  shows "map fst (js_entries (map2 (judged now) vals rs)) = map fst (js_entries rs)"
    and "\<forall>(k, v) \<in> set (js_entries rs). rule_ok k v \<Longrightarrow> \<forall>(k, v) \<in> set (js_entries (map2 (judged now) vals rs)). rule_ok k v"
proof -
  show "map fst (js_entries (map2 (judged now) vals rs)) = map fst (js_entries rs)" using assms
    by (induction vals rs rule: list_induct2) (auto simp: judged_def split: option.splits)
  show "\<forall>(k, v) \<in> set (js_entries (map2 (judged now) vals rs)). rule_ok k v" if "\<forall>(k, v) \<in> set (js_entries rs). rule_ok k v"
    using assms that
    by (induction vals rs rule: list_induct2) (auto simp: judged_def rule_ok_evaluated split: option.splits)
qed

lemma evaluate_inv:
  assumes "undisturbed e" and "alerts_inv w"
  shows "alerts_inv (alerts_step e w Evaluate)"
proof -
  have wf: "js_wf (alRules w)" using assms(2) by (simp add: alerts_inv_def)
  obtain vals r w' where ev: "evaluateAll e (Suc (length (alRules w))) w = Some (r, w')"
    and w': "alRules w' = map2 (judged (epochSeconds (alNowMs e w))) vals (alRules w)" and rd: "readings e (alRules w) vals"
    using evaluateFrom_exact[OF assms(1), of w "[]" "alRules w" "Suc (length (alRules w))" "epochSeconds (alNowMs e w)" "[]"] wf
    by (auto simp: evaluateAll_def)
  have len: "length vals = length (alRules w)" using rd by (auto simp: readings_def dest: list_all2_lengthD)
  have keys: "map fst (js_entries (alRules w')) = map fst (js_entries (alRules w))"
    using judged_entries(1)[OF len] w' by simp
  then have wf': "js_wf (alRules w')" using wf by (simp add: js_wf_def)
  moreover have "js_size (alRules w') = js_size (alRules w)" using keys by (metis js_size_def length_map)
  moreover have "\<forall>(k, v) \<in> set (js_entries (alRules w)). rule_ok k v"
    using assms(2) wf by (simp add: alerts_inv_def every_entries)
  then have "\<forall>(k, v) \<in> set (js_entries (alRules w')). rule_ok k v" using judged_entries(2)[OF len] by (simp only: w')
  then have "js.every rule_ok (alRules w')" by (simp only: every_entries[OF wf'])
  ultimately show ?thesis using assms(2) ev by (simp add: alerts_step_def alerts_inv_def)
qed

lemma create_inv:
  assumes "undisturbed e" and "alerts_inv w"
  shows "alerts_inv (snd (createAlert e c w))"
proof -
  have rnd: "alRules (snd (alRandom e n w)) = alRules w" for n using assms(1) by (simp add: undisturbed_def)
  show ?thesis
  proof (cases "MAX_ALERTS_PER_USER \<le> js_size (alRules w) \<or> checkAddresses (orValid (alOracle e)) (alAddresses c) \<noteq> Inr () \<or>
      alThreshold c \<le> 0")
    case True
    then show ?thesis using assms(2)
      by (cases "checkAddresses (orValid (alOracle e)) (alAddresses c)") (auto simp: createAlert_def bindW_def liftW_def throwW_def)
  next
    case False
    then have "js_size (alRules w) < MAX_ALERTS_PER_USER" by simp
    moreover have "rule_ok i (newInstance i c')" for i c' by (simp add: rule_ok_def newInstance_def)
    ultimately show ?thesis using False assms(2) rnd[of 8]
      by (auto simp: createAlert_def bindW_def liftW_def alerts_inv_def Let_def js_wf_set js_size_set js.every_put split: prod.splits)
  qed
qed

lemma alerts_step_inv:
  assumes "undisturbed e" and "alerts_inv w"
  shows "alerts_inv (alerts_step e w c)"
proof (cases c)
  case (Acknowledge i)
  then show ?thesis using assms(2)
    by (auto simp: alerts_step_def acknowledgeAlert_def found_def bindW_def liftW_def throwW_def rule_ok_def
      intro!: modify_inv split: option.splits)
qed (use assms create_inv evaluate_inv cleanup_inv[OF assms(2)] in \<open>auto simp: alerts_step_def updateAlert_def resolveAlert_def
  archiveAlert_def setAlertPaused_def cleanupArchived_def rule_ok_def intro!: found_modify\<close>)

text \<open>In any sequence of operations that no other call interrupts, there are at most fifty rules, each under its
  own key, and a rule is fired or acknowledged only after it triggered.\<close>

theorem rules_invariant:
  assumes "undisturbed e" and "alRules w = []"
  shows "alerts_inv (run_steps (alerts_step e) w ops)"
proof -
  have "alerts_inv w" using assms(2) by (simp add: alerts_inv_def js_size_def js.every_def)
  then show ?thesis by (rule invariant_machine.run_inv[OF invariant_machine.intro, rotated]) (rule alerts_step_inv[OF assms(1)])
qed

section \<open>What a reading can do\<close>

text \<open>In any surroundings, the rule written back is the one that was read before the metric was fetched: what was
  done to it meanwhile is lost, a deletion included.\<close>

theorem evaluation_overwrites:
  assumes "evaluateEntry e now i a w = (Inr b, w')"
  shows "\<exists>v. js_get (alRules w') i = Some (evaluated now v a) \<and> alConfig (evaluated now v a) = alConfig a \<and>
    alStatus (evaluated now v a) = (if b then FiredAlert else alStatus a)"
proof -
  obtain v w1 where "b = triggers v a" "w' = put_rule i (evaluated now v a) w1"
    using assms by (auto simp: evaluateEntry_def act_simps)
  then show ?thesis by (intro exI[of _ v]) (auto simp: put_rule_def js.put_wins evaluated_def Let_def)
qed

text \<open>A read that fails counts as a price or a liquidity of zero, so the rules that wait for a fall fire.\<close>

theorem failed_read_fires:
  assumes "\<And>p w. \<exists>x w1. orCumulative (alOracle e) p w = (Inl x, w1)" and "\<And>p w. \<exists>x w1. orReserves (alOracle e) p w = (Inl x, w1)"
    and "alCondition (alConfig a) = PriceBelow \<or> alCondition (alConfig a) = LiquidityBelow \<and> alAddresses (alConfig a) \<noteq> []"
    and "0 < alThreshold (alConfig a)"
  shows "\<exists>w'. evaluateEntry e now i a w = (Inr True, w')"
proof -
  let ?oe = "alOracle e"
  have "\<exists>x w1. getTWAP ?oe p True w = (Inl x, w1)" for p w
  proof -
    have "\<exists>x w1. observe ?oe p u = (Inl x, w1)" for u
    proof (cases "validateAddress (orValid ?oe) p ''pairAddress''")
      case (Inr y)
      obtain x w1 where "orCumulative ?oe p u = (Inl x, w1)" using assms(1) by blast
      then show ?thesis using Inr by (simp add: observe_def bindW_def liftW_def)
    qed (simp add: observe_def bindW_def liftW_def)
    then obtain x w1 where "observe ?oe p w = (Inl x, w1)" by blast
    then show ?thesis
      by (cases "validateAddress (orValid ?oe) p ''pairAddress''") (simp_all add: getTWAP_def bindW_def liftW_def)
  qed
  then have price: "\<exists>w1. fetchPrice ?oe x w = (Inr 0, w1)" for x w
  proof (cases x)
    case (Some p)
    obtain y w1 where "getTWAP ?oe p True w = (Inl y, w1)" using \<open>\<And>p w. \<exists>x w1. getTWAP ?oe p True w = (Inl x, w1)\<close> by blast
    then show ?thesis using Some by (simp add: fetchPrice_def catchW_def bindW_def retW_def)
  qed (simp add: fetchPrice_def retW_def)
  have liq: "\<exists>w1. fetchLiquidity ?oe (p # ps) w = (Inr 0, w1)" for p ps w
  proof -
    obtain x w1 where "orReserves ?oe p w = (Inl x, w1)" using assms(2) by blast
    then show ?thesis by (simp add: fetchLiquidity_def catchW_def bindW_def retW_def)
  qed
  have "\<exists>w1. fetchMetric ?oe (alCondition (alConfig a)) (alAddresses (alConfig a)) w = (Inr 0, w1)"
    using assms(3) price liq by (cases "alAddresses (alConfig a)") auto
  then obtain w1 where "fetchMetric ?oe (alCondition (alConfig a)) (alAddresses (alConfig a)) w = (Inr 0, w1)" by blast
  moreover have "triggers 0 a" using assms(3,4) by (auto simp: triggers_def)
  ultimately show ?thesis by (simp add: evaluateEntry_def bindW_def)
qed

text \<open>Rules on volume, gas and reserve changes never fire while their threshold is positive, which creation
  demands.\<close>

theorem dead_conditions:
  assumes "alCondition (alConfig a) \<in> {VolumeAbove, GasAbove, ReserveChange}" and "0 < alThreshold (alConfig a)"
  shows "evaluateEntry e now i a w = (Inr False, put_rule i (evaluated now 0 a) w)"
  using assms by (auto simp: evaluateEntry_def bindW_def retW_def triggers_def fetchVolume24h_def fetchAverageGas_def
    fetchReserveChange_def)

section \<open>Runs\<close>

definition sample_rule :: "alert_condition \<Rightarrow> int \<Rightarrow> alert_config" where
  "sample_rule c t = \<lparr>alName = ''r'', alDescription = None, alCondition = c, alThreshold = t, alSeverity = InfoAlert,
     alFrequency = Some OnceOnly, alCooldown = None, alAddresses = [''P''], alEnabled = Some True\<rparr>"

definition sample_alerts :: "alert_condition \<Rightarrow> alerts_state" where
  "sample_alerts c = \<lparr>observationCache = [], alRules = [Some (''a'', newInstance ''a'' (sample_rule c 10))]\<rparr>"

text \<open>A chain that answers the same reserves always, and one whose reads fail and let the rule be deleted.\<close>

definition calm_env :: "alerts_state alerts_env" where
  "calm_env = \<lparr>alOracle = \<lparr>orCumulative = \<lambda>p. retW (0, 0, 0), orReserves = \<lambda>p. retW (1, 5), orTokens = \<lambda>p. retW (''A'', ''B''),
     orValid = \<lambda>p. True\<rparr>, alNowMs = \<lambda>w. 5000, alRandom = \<lambda>n w. (replicate n CHR ''x'', w)\<rparr>"

definition failing_env :: "alerts_state alerts_env" where
  "failing_env = \<lparr>alOracle = \<lparr>orCumulative = \<lambda>p w. (Inl (Sdk (RpcError ''down'')), w\<lparr>alRules := js_delete (alRules w) ''a''\<rparr>),
     orReserves = \<lambda>p w. (Inl (Sdk (RpcError ''down'')), w\<lparr>alRules := js_delete (alRules w) ''a''\<rparr>),
     orTokens = \<lambda>p. retW (''A'', ''B''), orValid = \<lambda>p. True\<rparr>, alNowMs = \<lambda>w. 5000, alRandom = \<lambda>n w. (replicate n CHR ''x'', w)\<rparr>"

lemma calm_undisturbed: "undisturbed calm_env"
  by (simp add: undisturbed_def calm_env_def)

theorem evaluate_all_exact_witness:
  "\<exists>w'. evaluateAll calm_env 2 (sample_alerts LiquidityBelow) = Some (Inr [''a''], w') \<and>
     map_option alStatus (js_get (alRules w') ''a'') = Some FiredAlert"
proof -
  let ?w = "sample_alerts LiquidityBelow"
  have "js_wf (alRules ?w)" "length (alRules ?w) < 2" by (simp_all add: sample_alerts_def js_wf_def)
  from evaluate_all_exact[OF calm_undisturbed this] obtain vals w' where
    ev: "evaluateAll calm_env 2 ?w = Some (Inr (concat (map2 (fires (epochSeconds (alNowMs calm_env ?w))) vals (alRules ?w))), w')"
    and w': "alRules w' = map2 (judged (epochSeconds (alNowMs calm_env ?w))) vals (alRules ?w)"
    and rd: "readings calm_env (alRules ?w) vals" by blast
  have "vals = [6]" using rd by (auto simp: readings_def sample_alerts_def newInstance_def sample_rule_def list_all2_Cons1
    fetchLiquidity_def catchW_def bindW_def retW_def calm_env_def)
  then show ?thesis using ev w' by (intro exI[of _ w']) (simp add: sample_alerts_def newInstance_def sample_rule_def
    fires_def judged_def skipped_def evaluated_def triggers_def calm_env_def)
qed

theorem rules_invariant_witness:
  "alerts_inv (run_steps (alerts_step calm_env) (\<lparr>observationCache = [], alRules = []\<rparr> :: alerts_state)
     [Create (sample_rule PriceAbove 3), Evaluate, Cleanup])"
  by (rule rules_invariant[OF calm_undisturbed]) simp

theorem evaluation_overwrites_witness:
  "\<exists>w'. evaluateAll failing_env 3 (sample_alerts PriceBelow) = Some (Inr [''a''], w') \<and> js_get (alRules w') ''a'' \<noteq> None"
proof -
  let ?a = "newInstance ''a'' (sample_rule PriceBelow 10)"
  obtain w1 where ev: "evaluateEntry failing_env 5 ''a'' ?a (sample_alerts PriceBelow) = (Inr True, w1)"
    by (simp add: evaluateEntry_def bindW_def failing_env_def newInstance_def sample_rule_def fetchPrice_def firstAddress_def
      getTWAP_def observe_def liftW_def validateAddress_def catchW_def retW_def triggers_def trim_def is_space_def)
  have "alRules w1 = [None, Some (''a'', evaluated 5 0 ?a)]" using ev
    by (auto simp: evaluateEntry_def bindW_def failing_env_def newInstance_def sample_rule_def fetchPrice_def firstAddress_def
      getTWAP_def observe_def liftW_def validateAddress_def catchW_def retW_def triggers_def trim_def is_space_def sample_alerts_def
      put_rule_def js_delete_def)
  then show ?thesis using evaluation_overwrites[OF ev] ev
    by (intro exI[of _ w1]) (auto simp: evaluateAll_def eval_nat_numeral sample_alerts_def epochSeconds_def failing_env_def skipped_def
      newInstance_def sample_rule_def evaluated_def triggers_def)
qed

theorem failed_read_fires_witness:
  "\<exists>w'. evaluateEntry failing_env 5 ''a'' (newInstance ''a'' (sample_rule PriceBelow 10)) (sample_alerts PriceBelow) = (Inr True, w')"
  by (rule failed_read_fires) (auto simp: failing_env_def newInstance_def sample_rule_def)

theorem dead_conditions_witness:
  "evaluateEntry calm_env 5 ''a'' (newInstance ''a'' (sample_rule GasAbove 10)) (sample_alerts GasAbove) =
     (Inr False, put_rule ''a'' (evaluated 5 0 (newInstance ''a'' (sample_rule GasAbove 10))) (sample_alerts GasAbove))"
  by (rule dead_conditions) (simp_all add: newInstance_def sample_rule_def)

end

