(* ===== verification/AlertRules.thy ===== *)
theory AlertRules
  imports Alerts PairMath
begin

text \<open>
  \<open>AlertModule\<close> of \<open>modules/alerts.ts\<close>: rules with a status, listeners, and the alerts on prices and
  impermanent loss that are checked against the chain. Stored alerts are objects, so they live in a heap and the
  map holds references to them.
\<close>

section \<open>Numbers\<close>

datatype js_number = Finite rat | NaN | PosInfinity | NegInfinity

fun num_le :: "js_number \<Rightarrow> rat \<Rightarrow> bool" where
  "num_le (Finite q) r = (q \<le> r)"
| "num_le NegInfinity r = True"
| "num_le NaN r = False"
| "num_le PosInfinity r = False"

fun math_round :: "js_number \<Rightarrow> js_number" where
  "math_round (Finite q) = Finite (of_int \<lfloor>q + 1/2\<rfloor>)"
| "math_round n = n"

fun is_integer :: "js_number \<Rightarrow> bool" where
  "is_integer (Finite q) = (q = of_int \<lfloor>q\<rfloor>)"
| "is_integer n = False"

fun bigint_of :: "js_number \<Rightarrow> int result" where
  "bigint_of (Finite q) = (if q = of_int \<lfloor>q\<rfloor> then Inr \<lfloor>q\<rfloor>
     else Inl (RangeError ''The number cannot be converted to a BigInt because it is not an integer''))"
| "bigint_of n = Inl (RangeError ''The number cannot be converted to a BigInt because it is not an integer'')"

section \<open>Stored alerts\<close>

datatype alert_type = PriceType | ILType | HealthType | VolumeType

record generic_config =
  gcType :: alert_type
  gcTarget :: string
  gcThreshold :: js_number
  gcDirection :: string

record price_config =
  pcTokenIn :: string
  pcTokenOut :: string
  pcPair :: string
  pcThreshold :: int
  pcDirection :: string

record il_config =
  icPair :: string
  icTokenA :: string
  icTokenB :: string
  icReference :: int
  icMaxBps :: js_number

datatype stored_config = GenericConfig generic_config | PriceConfig price_config | ILConfig il_config

record stored_alert =
  saId :: string
  saConfig :: stored_config
  saTarget :: string
  saTriggeredAt :: "int option"
  saCreatedAt :: int

datatype alert_status2 = Active2 | Triggered2 | Cleared2

datatype alert_reading =
    PriceReading price_config int
  | ILReading il_config int int
  | HealthReading string int
  | VolumeReading string int

record alert_result =
  arId :: string
  arReading :: alert_reading
  arStatus :: alert_status2
  arTriggered :: bool

record alert_event =
  aeAlertId :: string
  aeName :: string
  aeSeverity :: alert_severity
  aeCondition :: alert_condition
  aeValue :: int
  aeTarget :: string
  aeLedger :: int
  aeTimestamp :: string

text \<open>A handler is a reference; the list is there once somebody has subscribed.\<close>

record alert_module = oracle_state +
  amRules :: "alert_instance js_map"
  amListeners :: "nat list option"
  amStored :: "nat js_map"
  amHeap :: "stored_alert list"

text \<open>\<open>amScaled\<close> is the product of a number with \<open>10\<^sup>15\<close> as the machine rounds it.\<close>

record 'w alert_env =
  amOracle :: "'w oracle_env"
  amNowMs :: "'w \<Rightarrow> int"
  amRandom :: "nat \<Rightarrow> 'w \<Rightarrow> string \<times> 'w"
  amScaled :: "rat \<Rightarrow> rat"
  amText :: "js_number \<Rightarrow> string"
  amHandle :: "nat \<Rightarrow> alert_event \<Rightarrow> ('w, thrown, unit) act"

definition ALERT_PRICE_SCALE :: int where "ALERT_PRICE_SCALE = 10 ^ 18"
definition PRICE_SCALE_SQRT :: int where "PRICE_SCALE_SQRT = 10 ^ 9"
definition USD_SCALE :: int where "USD_SCALE = 10 ^ 8"
definition BPS :: int where "BPS = 10000"

section \<open>Rules\<close>

record create_params =
  cpName :: string
  cpDescription :: "string option"
  cpSeverity :: alert_severity
  cpCondition :: alert_condition
  cpThreshold :: int
  cpFrequency :: "alert_frequency option"
  cpCooldown :: "rat option"
  cpAddresses :: "string list"
  cpEnabled :: "bool option"

record update_params =
  upName :: "string option"
  upDescription :: "string option"
  upSeverity :: "alert_severity option"
  upCondition :: "alert_condition option"
  upThreshold :: "int option"
  upFrequency :: "alert_frequency option"
  upCooldown :: "rat option"
  upAddresses :: "string list option"

definition or_else :: "'a option \<Rightarrow> 'a \<Rightarrow> 'a" where
  "or_else x d = (case x of None \<Rightarrow> d | Some v \<Rightarrow> v)"

definition generateId :: "('x alert_module_scheme) alert_env \<Rightarrow> 'x alert_module_scheme \<Rightarrow> string \<times> 'x alert_module_scheme" where
  "generateId e w = (let (r, w1) = amRandom e 9 w in (''alert_'' @ int_str (amNowMs e w) @ ''_'' @ r, w1))"

definition create_rule :: "string \<Rightarrow> create_params \<Rightarrow> int \<Rightarrow> alert_instance" where
  "create_rule i p now = \<lparr>alId = i, alConfig = \<lparr>alName = cpName p, alDescription = cpDescription p,
       alCondition = cpCondition p, alThreshold = cpThreshold p, alSeverity = cpSeverity p,
       alFrequency = Some (or_else (cpFrequency p) AtIntervals), alCooldown = Some (or_else (cpCooldown p) 900),
       alAddresses = cpAddresses p, alEnabled = Some (or_else (cpEnabled p) True)\<rparr>,
     alStatus = ActiveAlert, alValue = None, alEvaluatedAt = Some now, alFiredAt = None, alFireCount = 0, alMessage = None\<rparr>"

definition create :: "('x alert_module_scheme) alert_env \<Rightarrow> create_params \<Rightarrow> ('x alert_module_scheme, thrown, alert_instance) act" where
  "create e p w =
     (if trim (cpName p) = [] then throwW (Sdk (ValidationError ''Alert name must not be empty'')) w
      else if cpAddresses p = [] then throwW (Sdk (ValidationError ''At least one monitored address is required'')) w
      else if cpThreshold p \<le> 0 then throwW (Sdk (ValidationError ''Threshold must be a positive value'')) w
      else (let (i, w1) = generateId e w; a = create_rule i p (epochSeconds (amNowMs e w)) in
        (Inr a, w1\<lparr>amRules := js_set (amRules w1) i a\<rparr>)))"

definition get_rule :: "string \<Rightarrow> 'x alert_module_scheme \<Rightarrow> alert_instance option" where
  "get_rule i w = js_get (amRules w) i"

definition list_rules :: "alert_status option \<Rightarrow> 'x alert_module_scheme \<Rightarrow> alert_instance list" where
  "list_rules s w = (case s of None \<Rightarrow> js_values (amRules w)
     | Some st \<Rightarrow> filter (\<lambda>a. alStatus a = st) (js_values (amRules w)))"

definition merged :: "update_params \<Rightarrow> alert_config \<Rightarrow> alert_config" where
  "merged p c = c\<lparr>alName := or_else (upName p) (alName c),
     alDescription := (case upDescription p of None \<Rightarrow> alDescription c | d \<Rightarrow> d),
     alSeverity := or_else (upSeverity p) (alSeverity c), alCondition := or_else (upCondition p) (alCondition c),
     alThreshold := or_else (upThreshold p) (alThreshold c),
     alFrequency := (case upFrequency p of None \<Rightarrow> alFrequency c | f \<Rightarrow> f),
     alCooldown := (case upCooldown p of None \<Rightarrow> alCooldown c | s \<Rightarrow> s),
     alAddresses := or_else (upAddresses p) (alAddresses c)\<rparr>"

definition not_found :: "string \<Rightarrow> sdk_error" where
  "not_found i = CoralSwapSDKError ''ALERT_NOT_FOUND'' (''Alert '' @ i @ '' not found'')"

definition update :: "string \<Rightarrow> update_params \<Rightarrow> ('x alert_module_scheme, thrown, alert_instance) act" where
  "update i p w = (case js_get (amRules w) i of None \<Rightarrow> throwW (Sdk (not_found i)) w
     | Some a \<Rightarrow> (let b = a\<lparr>alConfig := merged p (alConfig a)\<rparr> in (Inr b, w\<lparr>amRules := js_set (amRules w) i b\<rparr>)))"

definition delete :: "string \<Rightarrow> 'x alert_module_scheme \<Rightarrow> bool \<times> 'x alert_module_scheme" where
  "delete i w = (js_get (amRules w) i \<noteq> None, w\<lparr>amRules := js_delete (amRules w) i\<rparr>)"

definition transitionStatus :: "('x alert_module_scheme) alert_env \<Rightarrow> string \<Rightarrow> alert_status \<Rightarrow> alert_status list \<Rightarrow>
    ('x alert_module_scheme, thrown, alert_instance) act" where
  "transitionStatus e i target allowedFrom w = (case js_get (amRules w) i of None \<Rightarrow> throwW (Sdk (not_found i)) w
     | Some a \<Rightarrow> if alStatus a \<notin> set allowedFrom
         then throwW (Sdk (CoralSwapSDKError ''INVALID_ALERT_TRANSITION'' (''Cannot transition alert '' @ i @ '' from '' @
           status_text (alStatus a) @ '' to '' @ status_text target))) w
         else (let u = a\<lparr>alStatus := target\<rparr>;
             v = (if target = FiredAlert then u\<lparr>alFiredAt := Some (epochSeconds (amNowMs e w)), alFireCount := alFireCount a + 1\<rparr> else u)
           in (Inr v, w\<lparr>amRules := js_set (amRules w) i v\<rparr>)))"

definition acknowledge :: "('x alert_module_scheme) alert_env \<Rightarrow> string \<Rightarrow> ('x alert_module_scheme, thrown, alert_instance) act" where
  "acknowledge e i = transitionStatus e i AcknowledgedAlert [FiredAlert]"

definition resolve :: "('x alert_module_scheme) alert_env \<Rightarrow> string \<Rightarrow> ('x alert_module_scheme, thrown, alert_instance) act" where
  "resolve e i = transitionStatus e i ResolvedAlert [FiredAlert, AcknowledgedAlert]"

definition pause :: "('x alert_module_scheme) alert_env \<Rightarrow> string \<Rightarrow> ('x alert_module_scheme, thrown, alert_instance) act" where
  "pause e i = transitionStatus e i PausedAlert [ActiveAlert, FiredAlert, AcknowledgedAlert]"

definition resume :: "('x alert_module_scheme) alert_env \<Rightarrow> string \<Rightarrow> ('x alert_module_scheme, thrown, alert_instance) act" where
  "resume e i = transitionStatus e i ActiveAlert [PausedAlert]"

definition archive :: "('x alert_module_scheme) alert_env \<Rightarrow> string \<Rightarrow> ('x alert_module_scheme, thrown, alert_instance) act" where
  "archive e i = transitionStatus e i ArchivedAlert [ActiveAlert, FiredAlert, AcknowledgedAlert, ResolvedAlert, PausedAlert]"

text \<open>The counts of a summary are there only for what occurs.\<close>

record sparse_summary =
  ssTotal :: nat
  ssBySeverity :: "alert_severity \<Rightarrow> nat option"
  ssByStatus :: "alert_status \<Rightarrow> nat option"
  ssFiredLast24h :: nat

definition tally :: "('a \<Rightarrow> 'k) \<Rightarrow> 'a list \<Rightarrow> 'k \<Rightarrow> nat option" where
  "tally f xs = foldl (\<lambda>m x. m(f x \<mapsto> or_else (m (f x)) 0 + 1)) (\<lambda>k. None) xs"

definition getSummary :: "('x alert_module_scheme) alert_env \<Rightarrow> 'x alert_module_scheme \<Rightarrow> sparse_summary" where
  "getSummary e w = (let xs = js_values (amRules w); dayAgo = epochSeconds (amNowMs e w) - 86400 in
     \<lparr>ssTotal = length xs, ssBySeverity = tally (\<lambda>a. alSeverity (alConfig a)) xs, ssByStatus = tally alStatus xs,
      ssFiredLast24h = length (filter (\<lambda>a. alStatus a = FiredAlert \<and> fired_since dayAgo a) xs)\<rparr>)"

section \<open>Listeners\<close>

definition subscribe :: "nat \<Rightarrow> 'x alert_module_scheme \<Rightarrow> 'x alert_module_scheme" where
  "subscribe h w = w\<lparr>amListeners := Some (or_else (amListeners w) [] @ [h])\<rparr>"

definition unsubscribe :: "nat \<Rightarrow> 'x alert_module_scheme \<Rightarrow> 'x alert_module_scheme" where
  "unsubscribe h w = w\<lparr>amListeners := map_option (remove1 h) (amListeners w)\<rparr>"

text \<open>The loop over the handlers is by position, on the list as it is then; errors of a handler are dropped.\<close>

fun emitFrom :: "('x alert_module_scheme) alert_env \<Rightarrow> alert_event \<Rightarrow> nat \<Rightarrow> nat \<Rightarrow> 'x alert_module_scheme \<Rightarrow> 'x alert_module_scheme option" where
  "emitFrom e ev 0 n w = None"
| "emitFrom e ev (Suc fuel) n w = (case amListeners w of None \<Rightarrow> Some w
     | Some hs \<Rightarrow> if length hs \<le> n then Some w else emitFrom e ev fuel (Suc n) (snd (amHandle e (hs ! n) ev w)))"

definition emit :: "('x alert_module_scheme) alert_env \<Rightarrow> nat \<Rightarrow> alert_event \<Rightarrow> 'x alert_module_scheme \<Rightarrow> 'x alert_module_scheme option" where
  "emit e fuel ev w = emitFrom e ev fuel 0 w"

section \<open>Creating alerts\<close>

fun base36 :: "nat \<Rightarrow> string" where
  "base36 n = (if n < 36 then [''0123456789abcdefghijklmnopqrstuvwxyz'' ! n]
     else base36 (n div 36) @ [''0123456789abcdefghijklmnopqrstuvwxyz'' ! (n mod 36)])"

definition generateIdV2 :: "('x alert_module_scheme) alert_env \<Rightarrow> 'x alert_module_scheme \<Rightarrow> string \<times> 'x alert_module_scheme" where
  "generateIdV2 e w = (let (r, w1) = amRandom e 10 w in (base36 (nat (amNowMs e w)) @ r, w1))"

definition validateDirection :: "string \<Rightarrow> unit result" where
  "validateDirection d = throw_if (d \<noteq> ''above'' \<and> d \<noteq> ''below'') (ValidationError ''direction must be above or below'')"

definition validateBps :: "js_number \<Rightarrow> string \<Rightarrow> unit result" where
  "validateBps v name = throw_if (\<not> is_integer v \<or> (case v of Finite q \<Rightarrow> q < 0 \<or> of_int BPS < q | _ \<Rightarrow> False))
     (ValidationError (name @ '' must be an integer between 0 and 10000''))"

fun type_text :: "alert_type \<Rightarrow> string" where
  "type_text PriceType = ''price''"
| "type_text ILType = ''il''"
| "type_text HealthType = ''health''"
| "type_text VolumeType = ''volume''"

definition validateAlertConfigV2 :: "'w alert_env \<Rightarrow> generic_config \<Rightarrow> unit result" where
  "validateAlertConfigV2 e c = bindE (validateAddress (orValid (amOracle e)) (gcTarget c) ''target'') (\<lambda>_.
     bindE (if gcType c = ILType \<or> gcType c = HealthType then validateBps (gcThreshold c) ''threshold''
        else throw_if (num_le (gcThreshold c) 0)
          (InvalidThresholdError (type_text (gcType c)) (amText e (gcThreshold c)) ''0'' ''Infinity'')) (\<lambda>_.
     validateDirection (gcDirection c)))"

definition validatePriceAlertConfig :: "'w alert_env \<Rightarrow> price_config \<Rightarrow> unit result" where
  "validatePriceAlertConfig e c = (let addr = validateAddress (orValid (amOracle e)) in
     bindE (addr (pcTokenIn c) ''tokenIn'') (\<lambda>_. bindE (addr (pcTokenOut c) ''tokenOut'') (\<lambda>_.
     bindE (addr (pcPair c) ''pairAddress'') (\<lambda>_. bindE (validateDistinctTokens (pcTokenIn c) (pcTokenOut c)) (\<lambda>_.
     bindE (validatePositiveAmount (pcThreshold c) ''thresholdPrice'') (\<lambda>_. validateDirection (pcDirection c)))))))"

definition validateILAlertConfig :: "'w alert_env \<Rightarrow> il_config \<Rightarrow> unit result" where
  "validateILAlertConfig e c = (let addr = validateAddress (orValid (amOracle e)) in
     bindE (addr (icTokenA c) ''tokenA'') (\<lambda>_. bindE (addr (icTokenB c) ''tokenB'') (\<lambda>_.
     bindE (addr (icPair c) ''pairAddress'') (\<lambda>_. bindE (validateDistinctTokens (icTokenA c) (icTokenB c)) (\<lambda>_.
     bindE (validatePositiveAmount (icReference c) ''referencePrice'') (\<lambda>_.
     validateBps (icMaxBps c) ''maxImpermanentLossBps''))))))"

definition storeAlert :: "('x alert_module_scheme) alert_env \<Rightarrow> stored_config \<Rightarrow> string \<Rightarrow> ('x alert_module_scheme, thrown, string) act" where
  "storeAlert e c target w = (let (i, w1) = generateIdV2 e w in
     (Inr i, w1\<lparr>amStored := js_set (amStored w1) i (length (amHeap w1)),
       amHeap := amHeap w1 @ [\<lparr>saId = i, saConfig = c, saTarget = target, saTriggeredAt = None, saCreatedAt = amNowMs e w1\<rparr>]\<rparr>))"

definition createGenericAlert :: "('x alert_module_scheme) alert_env \<Rightarrow> generic_config \<Rightarrow> ('x alert_module_scheme, thrown, string) act" where
  "createGenericAlert e c = bindW (liftW (validateAlertConfigV2 e c)) (\<lambda>_. storeAlert e (GenericConfig c) (gcTarget c))"

definition createPriceAlert :: "('x alert_module_scheme) alert_env \<Rightarrow> price_config \<Rightarrow> ('x alert_module_scheme, thrown, string) act" where
  "createPriceAlert e c = bindW (liftW (validatePriceAlertConfig e c)) (\<lambda>_. storeAlert e (PriceConfig c) (pcPair c))"

definition createILAlert :: "('x alert_module_scheme) alert_env \<Rightarrow> il_config \<Rightarrow> ('x alert_module_scheme, thrown, string) act" where
  "createILAlert e c = bindW (liftW (validateILAlertConfig e c)) (\<lambda>_. storeAlert e (ILConfig c) (icPair c))"

definition deleteAlert :: "string \<Rightarrow> ('x alert_module_scheme, thrown, unit) act" where
  "deleteAlert i w = (if js_get (amStored w) i = None
     then throwW (Sdk (ValidationError (''Alert not found: '' @ i))) w
     else (Inr (), w\<lparr>amStored := js_delete (amStored w) i\<rparr>))"

section \<open>Checking alerts\<close>

definition alert_sqrt :: "int \<Rightarrow> int" where
  "alert_sqrt v = (if v \<le> 0 then 0 else int (sqrt_loop (nat v) (nat v) ((nat v + 1) div 2)))"

definition validatePairTokens :: "string \<times> string \<Rightarrow> string \<Rightarrow> string \<Rightarrow> unit result" where
  "validatePairTokens tokens a b = (case tokens of (t0, t1) \<Rightarrow>
     throw_if (\<not> (t0 = a \<or> t1 = a) \<or> \<not> (t0 = b \<or> t1 = b)) (ValidationError ''tokens do not match pair tokens''))"

definition no_liquidity :: sdk_error where
  "no_liquidity = InsufficientLiquidityError ''Pool has no liquidity'' None"

text \<open>The price of the pool, of the oracle if it has an average. The oracle gives the average of the token asked
  for; the reserves give its price in the other token.\<close>

definition currentPoolPrice :: "('x oracle_state_scheme) oracle_env \<Rightarrow> string \<Rightarrow> bool \<Rightarrow> ('x oracle_state_scheme, thrown, int) act" where
  "currentPoolPrice oe p first = bindW (getTWAP oe p True) (\<lambda>t. case t of
       Some tw \<Rightarrow> retW (if first then twPrice0 tw else twPrice1 tw)
     | None \<Rightarrow> bindW (orReserves oe p) (\<lambda>(r0, r1). if r0 = 0 \<or> r1 = 0 then throwW (Sdk no_liquidity)
         else retW ((if first then r1 else r0) * ALERT_PRICE_SCALE sdiv (if first then r0 else r1))))"

definition getPoolPrice :: "('x oracle_state_scheme) oracle_env \<Rightarrow> string \<Rightarrow> string \<Rightarrow> string \<Rightarrow> ('x oracle_state_scheme, thrown, int) act" where
  "getPoolPrice oe p tokenIn tokenOut = bindW (orTokens oe p) (\<lambda>tokens.
     bindW (liftW (validatePairTokens tokens tokenIn tokenOut)) (\<lambda>_. currentPoolPrice oe p (fst tokens = tokenIn)))"

definition computePriceRatio :: "int \<Rightarrow> int \<Rightarrow> int" where
  "computePriceRatio current reference = current * ALERT_PRICE_SCALE sdiv reference"

definition computeImpermanentLossBps :: "int \<Rightarrow> int" where
  "computeImpermanentLossBps ratio = (if ratio \<le> 0 then 0
     else let numerator = 2 * alert_sqrt ratio * PRICE_SCALE_SQRT * BPS; denominator = ALERT_PRICE_SCALE + ratio
       in if denominator = 0 then 0
       else let fraction = numerator sdiv denominator in if BPS \<le> fraction then 0 else BPS - fraction)"

definition computeHealthScore :: "int \<Rightarrow> int \<Rightarrow> int" where
  "computeHealthScore r0 r1 = (if r0 = 0 \<or> r1 = 0 then 0
     else let smaller = (if r0 < r1 then r0 else r1); larger = (if r0 < r1 then r1 else r0) in smaller * BPS sdiv larger)"

definition alertResult :: "string \<Rightarrow> alert_reading \<Rightarrow> bool \<Rightarrow> alert_result" where
  "alertResult i r b = \<lparr>arId = i, arReading = r, arStatus = (if b then Triggered2 else Active2), arTriggered = b\<rparr>"

definition checkPriceAlert :: "('x oracle_state_scheme) alert_env \<Rightarrow> price_config \<Rightarrow> string \<Rightarrow> ('x oracle_state_scheme, thrown, alert_result) act" where
  "checkPriceAlert e c i = bindW (liftW (validatePriceAlertConfig e c)) (\<lambda>_.
     bindW (getPoolPrice (amOracle e) (pcPair c) (pcTokenIn c) (pcTokenOut c)) (\<lambda>price.
     retW (alertResult i (PriceReading c price)
       (if pcDirection c = ''above'' then pcThreshold c \<le> price else price \<le> pcThreshold c))))"

text \<open>A bound that passed the check is a number, so the comparison is that of numbers.\<close>

definition checkILAlert :: "('x oracle_state_scheme) alert_env \<Rightarrow> il_config \<Rightarrow> string \<Rightarrow> ('x oracle_state_scheme, thrown, alert_result) act" where
  "checkILAlert e c i = bindW (liftW (validateILAlertConfig e c)) (\<lambda>_.
     bindW (orTokens (amOracle e) (icPair c)) (\<lambda>tokens.
     bindW (liftW (validatePairTokens tokens (icTokenA c) (icTokenB c))) (\<lambda>_.
     bindW (currentPoolPrice (amOracle e) (icPair c) (fst tokens = icTokenA c)) (\<lambda>price.
     let loss = computeImpermanentLossBps (computePriceRatio price (icReference c)) in
     retW (alertResult i (ILReading c loss price) (num_le (icMaxBps c) (of_int loss)))))))"

definition liveReserves :: "('x oracle_state_scheme) alert_env \<Rightarrow> string \<Rightarrow> ('x oracle_state_scheme, thrown, int \<times> int) act" where
  "liveReserves e p = bindW (orReserves (amOracle e) p) (\<lambda>(r0, r1).
     if r0 = 0 \<or> r1 = 0 then throwW (Sdk no_liquidity) else retW (r0, r1))"

definition checkHealthAlert :: "('x oracle_state_scheme) alert_env \<Rightarrow> string \<Rightarrow> string \<Rightarrow> ('x oracle_state_scheme, thrown, alert_result) act" where
  "checkHealthAlert e p i = bindW (liftW (validateAddress (orValid (amOracle e)) p ''pairAddress'')) (\<lambda>_.
     bindW (liveReserves e p) (\<lambda>(r0, r1). retW (alertResult i (HealthReading p (computeHealthScore r0 r1)) False)))"

definition checkVolumeAlert :: "('x oracle_state_scheme) alert_env \<Rightarrow> string \<Rightarrow> string \<Rightarrow> ('x oracle_state_scheme, thrown, alert_result) act" where
  "checkVolumeAlert e p i = bindW (liftW (validateAddress (orValid (amOracle e)) p ''pairAddress'')) (\<lambda>_.
     bindW (liveReserves e p) (\<lambda>(r0, r1). retW (alertResult i (VolumeReading p (r0 + r1)) False)))"

definition storedThreshold :: "(rat \<Rightarrow> rat) \<Rightarrow> js_number \<Rightarrow> int result" where
  "storedThreshold scaled t = bindE (bigint_of (math_round (case t of Finite q \<Rightarrow> Finite (scaled q) | n \<Rightarrow> n)))
     (\<lambda>v. Inr (v * 1000))"

definition checkPriceFromStored :: "('x oracle_state_scheme) alert_env \<Rightarrow> generic_config \<Rightarrow> string \<Rightarrow> ('x oracle_state_scheme, thrown, alert_result) act" where
  "checkPriceFromStored e c i = bindW (orTokens (amOracle e) (gcTarget c)) (\<lambda>(t0, t1).
     bindW (liftW (storedThreshold (amScaled e) (gcThreshold c))) (\<lambda>t.
     checkPriceAlert e \<lparr>pcTokenIn = t0, pcTokenOut = t1, pcPair = gcTarget c, pcThreshold = t, pcDirection = gcDirection c\<rparr> i))"

definition checkILFromStored :: "('x oracle_state_scheme) alert_env \<Rightarrow> generic_config \<Rightarrow> string \<Rightarrow> ('x oracle_state_scheme, thrown, alert_result) act" where
  "checkILFromStored e c i = bindW (orTokens (amOracle e) (gcTarget c)) (\<lambda>(t0, t1).
     bindW (liveReserves e (gcTarget c)) (\<lambda>(r0, r1).
     checkILAlert e \<lparr>icPair = gcTarget c, icTokenA = t0, icTokenB = t1,
       icReference = r1 * ALERT_PRICE_SCALE sdiv r0, icMaxBps = math_round (gcThreshold c)\<rparr> i))"

definition checkHealthFromStored :: "('x oracle_state_scheme) alert_env \<Rightarrow> generic_config \<Rightarrow> string \<Rightarrow> ('x oracle_state_scheme, thrown, alert_result) act" where
  "checkHealthFromStored e c i = checkHealthAlert e (gcTarget c) i"

definition checkVolumeFromStored :: "('x oracle_state_scheme) alert_env \<Rightarrow> generic_config \<Rightarrow> string \<Rightarrow> ('x oracle_state_scheme, thrown, alert_result) act" where
  "checkVolumeFromStored e c i = checkVolumeAlert e (gcTarget c) i"

definition checkGenericStoredAlert :: "('x oracle_state_scheme) alert_env \<Rightarrow> generic_config \<Rightarrow> string \<Rightarrow> ('x oracle_state_scheme, thrown, alert_result) act" where
  "checkGenericStoredAlert e c i = (case gcType c of PriceType \<Rightarrow> checkPriceFromStored e c i | ILType \<Rightarrow> checkILFromStored e c i
     | HealthType \<Rightarrow> checkHealthFromStored e c i | VolumeType \<Rightarrow> checkVolumeFromStored e c i)"

definition checkStoredAlert :: "('x oracle_state_scheme) alert_env \<Rightarrow> stored_alert \<Rightarrow> ('x oracle_state_scheme, thrown, alert_result) act" where
  "checkStoredAlert e s = (case saConfig s of PriceConfig c \<Rightarrow> checkPriceAlert e c (saId s)
     | ILConfig c \<Rightarrow> checkILAlert e c (saId s) | GenericConfig c \<Rightarrow> checkGenericStoredAlert e c (saId s))"

definition markTriggered :: "int \<Rightarrow> nat \<Rightarrow> 'x alert_module_scheme \<Rightarrow> 'x alert_module_scheme" where
  "markTriggered now r w = w\<lparr>amHeap := (amHeap w)[r := (amHeap w ! r)\<lparr>saTriggeredAt := Some now\<rparr>]\<rparr>"

text \<open>The alerts of the address that have not triggered are picked first; then each object is checked and marked.\<close>

fun checkEach :: "('x alert_module_scheme) alert_env \<Rightarrow> nat list \<Rightarrow> alert_result list \<Rightarrow> ('x alert_module_scheme, thrown, alert_result list) act" where
  "checkEach e [] results = retW results"
| "checkEach e (r # rs) results = bindW (\<lambda>w. checkStoredAlert e (amHeap w ! r) w) (\<lambda>a w.
     if arTriggered a then checkEach e rs (results @ [a]) (markTriggered (amNowMs e w) r w) else checkEach e rs results w)"

definition targetAlerts :: "string \<Rightarrow> 'x alert_module_scheme \<Rightarrow> nat list" where
  "targetAlerts p w = filter (\<lambda>r. saTarget (amHeap w ! r) = p \<and> saTriggeredAt (amHeap w ! r) = None) (js_values (amStored w))"

definition checkAlerts :: "('x alert_module_scheme) alert_env \<Rightarrow> string \<Rightarrow> ('x alert_module_scheme, thrown, alert_result list) act" where
  "checkAlerts e p w = checkEach e (targetAlerts p w) [] w"

section \<open>Polling\<close>

definition storedTargets :: "'x alert_module_scheme \<Rightarrow> string list" where
  "storedTargets w = foldl (\<lambda>seen r. let t = saTarget (amHeap w ! r) in if t \<in> set seen then seen else seen @ [t]) []
     (js_values (amStored w))"

fun pollTargets :: "('x alert_module_scheme) alert_env \<Rightarrow> ('x alert_module_scheme \<Rightarrow> bool) \<Rightarrow> string list \<Rightarrow> ('x alert_module_scheme, thrown, unit) act" where
  "pollTargets e active [] = retW ()"
| "pollTargets e active (t # ts) = (\<lambda>w. if \<not> active w then retW () w
     else bindW (checkAlerts e t) (\<lambda>_. pollTargets e active ts) w)"

text \<open>One tick: what the checks return is dropped, and so is an error.\<close>

definition pollTick :: "('x alert_module_scheme) alert_env \<Rightarrow> ('x alert_module_scheme \<Rightarrow> bool) \<Rightarrow> string option \<Rightarrow>
    ('x alert_module_scheme, thrown, unit) act" where
  "pollTick e active target w = (if \<not> active w then retW () w
     else catchW (case target of Some (c # cs) \<Rightarrow> bindW (checkAlerts e (c # cs)) (\<lambda>_. retW ())
       | _ \<Rightarrow> pollTargets e active (storedTargets w)) (\<lambda>_. retW ()) w)"

text \<open>A subscription checks the interval and runs the first tick at once; the timer runs the others.\<close>

definition startPolling :: "('x alert_module_scheme) alert_env \<Rightarrow> ('x alert_module_scheme \<Rightarrow> bool) \<Rightarrow> js_number \<Rightarrow> string option \<Rightarrow>
    ('x alert_module_scheme, thrown, unit) act" where
  "startPolling e active every target = bindW (liftW (throw_if
       (case every of Finite q \<Rightarrow> q \<le> 0 | _ \<Rightarrow> True) (ValidationError ''intervalMs must be a positive number'')))
     (\<lambda>_. pollTick e active target)"

section \<open>Rules never fire\<close>

datatype rule_op = CreateRule create_params | UpdateRule string update_params | DeleteRule string | AcknowledgeRule string
  | ResolveRule string | PauseRule string | ResumeRule string | ArchiveRule string

definition rule_step :: "('x alert_module_scheme) alert_env \<Rightarrow> 'x alert_module_scheme \<Rightarrow> rule_op \<Rightarrow> 'x alert_module_scheme" where
  "rule_step e w c = (case c of
       CreateRule p \<Rightarrow> snd (create e p w)
     | UpdateRule i p \<Rightarrow> snd (update i p w)
     | DeleteRule i \<Rightarrow> snd (delete i w)
     | AcknowledgeRule i \<Rightarrow> snd (acknowledge e i w)
     | ResolveRule i \<Rightarrow> snd (resolve e i w)
     | PauseRule i \<Rightarrow> snd (pause e i w)
     | ResumeRule i \<Rightarrow> snd (resume e i w)
     | ArchiveRule i \<Rightarrow> snd (archive e i w))"

definition unfired :: "string \<Rightarrow> alert_instance \<Rightarrow> bool" where
  "unfired i a \<longleftrightarrow> alId a = i \<and> alStatus a \<in> {ActiveAlert, PausedAlert, ArchivedAlert} \<and> alFiredAt a = None \<and> alFireCount a = 0"

definition unfired_inv :: "'x alert_module_scheme \<Rightarrow> bool" where
  "unfired_inv w \<longleftrightarrow> js_wf (amRules w) \<and> js.every unfired (amRules w)"

lemma unfired_put: "unfired_inv w \<Longrightarrow> unfired i a \<Longrightarrow> unfired_inv (w\<lparr>amRules := js_set (amRules w) i a\<rparr>)"
  by (simp add: unfired_inv_def js_wf_set js.every_put)

lemma unfired_get: "unfired_inv w \<Longrightarrow> js_get (amRules w) i = Some a \<Longrightarrow> unfired i a"
  by (simp add: unfired_inv_def js.every_def)

lemma transition_unfired:
  assumes "unfired_inv w" and "target \<in> {ActiveAlert, PausedAlert, ArchivedAlert} \<or> set froms \<subseteq> {FiredAlert, AcknowledgedAlert}"
  shows "unfired_inv (snd (transitionStatus e i target froms w))"
proof (cases "js_get (amRules w) i")
  case (Some a)
  have u: "unfired i a" by (rule unfired_get[OF assms(1) Some])
  show ?thesis
  proof (cases "alStatus a \<in> set froms")
    case True
    then have t: "target \<in> {ActiveAlert, PausedAlert, ArchivedAlert}" using assms(2) u by (auto simp: unfired_def)
    then have "unfired i (a\<lparr>alStatus := target\<rparr>)" using u by (auto simp: unfired_def)
    then show ?thesis using Some True t unfired_put[OF assms(1)] by (auto simp: transitionStatus_def Let_def)
  qed (use Some assms(1) in \<open>simp add: transitionStatus_def throwW_def\<close>)
qed (use assms(1) in \<open>simp add: transitionStatus_def throwW_def\<close>)

lemma rule_step_unfired:
  assumes "\<And>n w. amRules (snd (amRandom e n w)) = amRules w" and "unfired_inv w"
  shows "unfired_inv (rule_step e w c)"
proof (cases c)
  case (CreateRule p)
  have "unfired i (create_rule i p t)" for i t by (simp add: unfired_def create_rule_def)
  then have "unfired_inv (snd (let (i, w1) = generateId e w; a = create_rule i p (epochSeconds (amNowMs e w)) in
        (Inr a :: (thrown, alert_instance) res, w1\<lparr>amRules := js_set (amRules w1) i a\<rparr>)))"
    using assms(1)[of 9 w] assms(2)
    by (auto simp: generateId_def Let_def unfired_inv_def js_wf_set js.every_put split: prod.splits)
  then show ?thesis using CreateRule assms(2) by (auto simp: rule_step_def create_def throwW_def)
next
  case (UpdateRule i p)
  then show ?thesis using assms(2) unfired_get[OF assms(2), of i]
    by (auto simp: rule_step_def update_def throwW_def Let_def unfired_def intro!: unfired_put split: option.splits)
next
  case (DeleteRule i)
  then show ?thesis using assms(2) by (simp add: rule_step_def delete_def unfired_inv_def js_wf_delete js.every_del)
qed (use assms(2) in \<open>auto simp: rule_step_def acknowledge_def resolve_def pause_def resume_def archive_def intro!: transition_unfired\<close>)

text \<open>No operation of the module fires a rule, so \<open>acknowledge\<close> and \<open>resolve\<close> throw in every state it can reach,
  and the summary counts no firing.\<close>

theorem rules_never_fire:
  fixes w :: "'x alert_module_scheme" and ops :: "rule_op list"
  assumes "\<And>n w. amRules (snd (amRandom e n w)) = amRules w" and "amRules w = []"
  defines "w' \<equiv> run_steps (rule_step e) w ops"
  shows "\<exists>x. acknowledge e i w' = (Inl x, w')" and "\<exists>x. resolve e i w' = (Inl x, w')" and "ssFiredLast24h (getSummary e w') = 0"
proof -
  have "unfired_inv w" using assms(2) by (simp add: unfired_inv_def js.every_def)
  then have inv: "unfired_inv w'" unfolding w'_def
    by (rule invariant_machine.run_inv[OF invariant_machine.intro, rotated]) (rule rule_step_unfired[OF assms(1)])
  show "\<exists>x. acknowledge e i w' = (Inl x, w')" "\<exists>x. resolve e i w' = (Inl x, w')"
    using unfired_get[OF inv, of i]
    by (cases "js_get (amRules w') i"; auto simp: acknowledge_def resolve_def transitionStatus_def throwW_def unfired_def)+
  have "alStatus (snd p) \<noteq> FiredAlert" if "p \<in> set (js_entries (amRules w'))" for p
  proof -
    have "js_get (amRules w') (fst p) = Some (snd p)" using inv that by (simp add: unfired_inv_def js_entry_get)
    from unfired_get[OF inv this] show ?thesis by (auto simp: unfired_def)
  qed
  then show "ssFiredLast24h (getSummary e w') = 0"
    by (auto simp: getSummary_def Let_def js_values_def filter_empty_conv)
qed

section \<open>Impermanent loss\<close>

lemma alert_sqrt_floor: "0 \<le> v \<Longrightarrow> 0 \<le> alert_sqrt v \<and> alert_sqrt v * alert_sqrt v \<le> v \<and> v < (alert_sqrt v + 1) * (alert_sqrt v + 1)"
proof (cases "v = 0")
  case False
  assume "0 \<le> v"
  then have "0 < v" using False by simp
  have "sqrt v = Inr (alert_sqrt v)" using False \<open>0 < v\<close> by (simp add: sqrt_def alert_sqrt_def)
  then show ?thesis using sqrt_floor[of v] \<open>0 < v\<close> by auto
qed (simp add: alert_sqrt_def)

interpretation alert_root: integer_root "\<lambda>v. if v < 0 then Inl (ValidationError []) else Inr (alert_sqrt v)"
  by unfold_locales (use alert_sqrt_floor in auto)

text \<open>The loss lies between nothing and everything, and it brackets the exact one,
  \<open>1 - 2 * sqrt r / (1 + r)\<close> of the price ratio \<open>r\<close>: at most one basis point and a rounding of the root too much,
  never too little.\<close>

lemma il_fraction:
  assumes "0 < ratio"
  defines "s \<equiv> alert_sqrt ratio"
  shows "computeImpermanentLossBps ratio = 10000 - (2 * s * 10 ^ 9 * 10000) div (10 ^ 18 + ratio)"
    and "(2 * s * 10 ^ 9 * 10000) div (10 ^ 18 + ratio) \<le> 10000" and "0 \<le> s" and "s * s \<le> ratio" and "ratio < (s + 1) * (s + 1)"
proof -
  show s: "0 \<le> s" "s * s \<le> ratio" "ratio < (s + 1) * (s + 1)" using alert_sqrt_floor[of ratio] assms(1) by (simp_all add: s_def)
  have "0 \<le> (s - 10 ^ 9) * (s - 10 ^ 9)" by simp
  then have am: "2 * s * 10 ^ 9 \<le> s * s + 10 ^ 18" by (simp add: algebra_simps)
  then have "2 * s * 10 ^ 9 \<le> 10 ^ 18 + ratio" using s(2) by linarith
  then have "2 * s * 10 ^ 9 * 10000 \<le> 10000 * (10 ^ 18 + ratio)" by simp
  then have "2 * s * 10 ^ 9 * 10000 < (10000 + 1) * (10 ^ 18 + ratio)" using assms(1) by (simp add: ring_distribs)
  then have "(2 * s * 10 ^ 9 * 10000) div (10 ^ 18 + ratio) < 10000 + 1" using assms(1) by (subst div_less_iff_int) auto
  then show le: "(2 * s * 10 ^ 9 * 10000) div (10 ^ 18 + ratio) \<le> 10000" by linarith
  show "computeImpermanentLossBps ratio = 10000 - (2 * s * 10 ^ 9 * 10000) div (10 ^ 18 + ratio)"
    using assms(1) le s(1)
    by (simp add: computeImpermanentLossBps_def Let_def sdiv_nonneg s_def[symmetric] ALERT_PRICE_SCALE_def PRICE_SCALE_SQRT_def BPS_def)
qed

lemma widen: "k \<le> d \<Longrightarrow> a \<le> b + k \<Longrightarrow> b < (q + 1) * d \<Longrightarrow> a < (q + 2) * d" for a b d k q :: real
  by (simp add: algebra_simps)

theorem il_loss_brackets:
  assumes "0 < ratio"
  defines "r \<equiv> real_of_int ratio / 10 ^ 18" and "loss \<equiv> computeImpermanentLossBps ratio"
  shows "0 \<le> loss" and "loss \<le> 10000" and "10000 * (1 - 2 * root 2 r / (1 + r)) \<le> real_of_int loss"
    and "real_of_int loss < 10000 * (1 - 2 * root 2 r / (1 + r)) + 2"
proof -
  define s where "s = alert_sqrt ratio"
  define q where "q = (2 * s * 10 ^ 9 * 10000) div (10 ^ 18 + ratio)"
  note f = il_fraction[OF assms(1), folded s_def, folded q_def]
  have "0 \<le> q" unfolding q_def using f(3) assms(1) by (simp add: div_int_pos_iff)
  then show "0 \<le> loss" "loss \<le> 10000" using f(1,2) by (simp_all add: loss_def)
  have D: "0 < 10 ^ 18 + ratio" using assms(1) by simp
  have r0: "0 < r" using assms(1) by (simp add: r_def)
  define t where "t = root 2 (real_of_int ratio)"
  have t: "0 \<le> t" "t * t = real_of_int ratio" using assms(1) real_root_pow_pos2[of 2 "real_of_int ratio"] by (simp_all add: t_def power2_eq_square)
  have "root 2 (10 ^ 18 :: real) = 10 ^ 9" by (rule real_root_pos_unique) simp_all
  moreover have "root 2 r = root 2 (real_of_int ratio) / root 2 (10 ^ 18)" unfolding r_def by (rule real_root_divide)
  ultimately have rt: "root 2 r = t / 10 ^ 9" by (simp only: t_def)
  have exact: "10000 * (1 - 2 * root 2 r / (1 + r)) = 10000 - 20000 * 10 ^ 9 * t / real_of_int (10 ^ 18 + ratio)"
  proof -
    have one: "1 + r = real_of_int (10 ^ 18 + ratio) / 10 ^ 18" by (simp add: r_def field_simps)
    have "10000 * (1 - 2 * (t / 10 ^ 9) / (d / 10 ^ 18)) = 10000 - 20000 * 10 ^ 9 * t / d" for d :: real by simp
    then show ?thesis unfolding rt one by blast
  qed
  have st: "real_of_int s \<le> t"
  proof (rule ccontr)
    assume "\<not> real_of_int s \<le> t"
    then have "t * t < real_of_int s * real_of_int s" using t(1) f(3) by (intro mult_strict_mono) auto
    then show False using f(4) t(2) by (simp flip: of_int_mult)
  qed
  have ts: "t < real_of_int s + 1"
  proof (rule ccontr)
    assume "\<not> t < real_of_int s + 1"
    then have "(real_of_int s + 1) * (real_of_int s + 1) \<le> t * t" using f(3) by (intro mult_mono) auto
    then have "real_of_int ((s + 1) * (s + 1)) \<le> real_of_int ratio" using t(2) by simp
    then show False using f(5) by linarith
  qed
  let ?D = "real_of_int (10 ^ 18 + ratio)"
  have qD: "q * (10 ^ 18 + ratio) \<le> 2 * s * 10 ^ 9 * 10000" "2 * s * 10 ^ 9 * 10000 < (q + 1) * (10 ^ 18 + ratio)"
    unfolding q_def using div_mult_le_int[OF D] lt_div_mult_int[OF D] by blast+
  have q1: "real_of_int q * ?D \<le> 20000 * 10 ^ 9 * real_of_int s"
  proof -
    have "real_of_int (q * (10 ^ 18 + ratio)) \<le> real_of_int (2 * s * 10 ^ 9 * 10000)" using qD(1) by (simp only: of_int_le_iff)
    then show ?thesis by simp
  qed
  have q2: "20000 * 10 ^ 9 * real_of_int s < (real_of_int q + 1) * ?D"
  proof -
    have "real_of_int (2 * s * 10 ^ 9 * 10000) < real_of_int ((q + 1) * (10 ^ 18 + ratio))" using qD(2) by (simp only: of_int_less_iff)
    then show ?thesis by simp
  qed
  show "10000 * (1 - 2 * root 2 r / (1 + r)) \<le> real_of_int loss"
  proof -
    have "20000 * 10 ^ 9 * real_of_int s \<le> 20000 * 10 ^ 9 * t" using st by simp
    then have "real_of_int q * ?D \<le> 20000 * 10 ^ 9 * t" by (rule order_trans[OF q1])
    then have "real_of_int q \<le> 20000 * 10 ^ 9 * t / ?D" using D by (simp add: pos_le_divide_eq del: of_int_add)
    then show ?thesis unfolding exact loss_def f(1) by simp
  qed
  show "real_of_int loss < 10000 * (1 - 2 * root 2 r / (1 + r)) + 2"
  proof -
    have "(20000 * 10 ^ 9 :: real) \<le> ?D" using assms(1) by simp
    moreover have "20000 * 10 ^ 9 * t \<le> 20000 * 10 ^ 9 * real_of_int s + 20000 * 10 ^ 9" using ts by simp
    ultimately have "20000 * 10 ^ 9 * t < (real_of_int q + 2) * ?D" using q2 by (intro widen)
    then have "20000 * 10 ^ 9 * t / ?D < real_of_int q + 2" using D by (simp add: pos_divide_less_eq del: of_int_add)
    then show ?thesis unfolding exact loss_def f(1) by simp
  qed
qed

section \<open>What a check reports\<close>

definition objects :: "'x alert_module_scheme \<Rightarrow> nat js_map \<times> stored_alert list" where
  "objects w = (amStored w, amHeap w)"

definition calm :: "('x alert_module_scheme) alert_env \<Rightarrow> bool" where
  "calm e \<longleftrightarrow> (\<forall>p. keeps objects (orCumulative (amOracle e) p) \<and> keeps objects (orReserves (amOracle e) p) \<and>
     keeps objects (orTokens (amOracle e) p))"

definition alert_refs_ok :: "'x alert_module_scheme \<Rightarrow> bool" where
  "alert_refs_ok w \<longleftrightarrow> (\<forall>r \<in> set (js_values (amStored w)). r < length (amHeap w))"

lemma keeps_checkStored:
  fixes e :: "('x alert_module_scheme) alert_env"
  assumes "calm e"
  shows "keeps objects (checkStoredAlert e s)"
proof -
  have k: "keeps objects (orCumulative (amOracle e) p)" "keeps objects (orReserves (amOracle e) p)"
    "keeps objects (orTokens (amOracle e) p)" for p using assms by (auto simp: calm_def)
  have twap: "keeps objects (getTWAP (amOracle e) p b)" for p b by (rule keeps_getTWAP[OF k(1,3)]) (simp add: objects_def)
  have price: "keeps objects (currentPoolPrice (amOracle e) p b)" for p b unfolding currentPoolPrice_def
    by (rule keeps_bindW[OF twap]) (auto intro!: keeps_bindW k split: option.splits)
  have live: "keeps objects (liveReserves e p)" for p unfolding liveReserves_def
    by (rule keeps_bindW[OF k(2)]) (auto split: prod.splits)
  have cp: "keeps objects (checkPriceAlert e c i)" for c i unfolding checkPriceAlert_def getPoolPrice_def
    by (intro keeps_bindW keeps_liftW price k keeps_retW)
  have ci: "keeps objects (checkILAlert e c i)" for c i unfolding checkILAlert_def Let_def
    by (intro keeps_bindW keeps_liftW price k keeps_retW)
  have ch: "keeps objects (checkHealthAlert e p i)" "keeps objects (checkVolumeAlert e p i)" for p i
    unfolding checkHealthAlert_def checkVolumeAlert_def by (rule keeps_bindW[OF keeps_liftW keeps_bindW[OF live]], auto split: prod.splits)+
  have "keeps objects (checkPriceFromStored e c i)" "keeps objects (checkILFromStored e c i)" for c i
    unfolding checkPriceFromStored_def checkILFromStored_def
    by (rule keeps_bindW[OF k(3)], auto split: prod.splits intro!: keeps_bindW cp ci live k)
  then show ?thesis using cp ci ch unfolding checkStoredAlert_def checkGenericStoredAlert_def
    by (auto simp: checkHealthFromStored_def checkVolumeFromStored_def split: stored_config.splits alert_type.splits)
qed

lemma checkStored_id: "checkStoredAlert e s w = (Inr a, w') \<Longrightarrow> arId a = saId s"
  by (auto simp: checkStoredAlert_def checkGenericStoredAlert_def checkPriceFromStored_def checkILFromStored_def
      checkHealthFromStored_def checkVolumeFromStored_def checkPriceAlert_def checkILAlert_def checkHealthAlert_def checkVolumeAlert_def
      Let_def act_simps alertResult_def split: stored_config.splits alert_type.splits prod.splits)

lemma mark_same: "saTarget ((amHeap (markTriggered n r w)) ! j) = saTarget (amHeap w ! j)"
  "saId ((amHeap (markTriggered n r w)) ! j) = saId (amHeap w ! j)" "amStored (markTriggered n r w) = amStored w"
  "saConfig ((amHeap (markTriggered n r w)) ! j) = saConfig (amHeap w ! j)"
  "length (amHeap (markTriggered n r w)) = length (amHeap w)"
  by (cases "r < length (amHeap w)"; auto simp: markTriggered_def nth_list_update list_update_beyond)+

lemma mark_untriggered: "r < length (amHeap w) \<Longrightarrow>
    saTriggeredAt (amHeap (markTriggered n r w) ! j) = None \<longleftrightarrow> j \<noteq> r \<and> saTriggeredAt (amHeap w ! j) = None"
  by (cases "j = r") (simp_all add: markTriggered_def)

definition hit_refs :: "nat list \<Rightarrow> alert_result list \<Rightarrow> nat list" where
  "hit_refs rs as = map fst (filter (\<lambda>(r, a). arTriggered a) (zip rs as))"

lemma checkStored_cong: "saConfig s = saConfig t \<Longrightarrow> saId s = saId t \<Longrightarrow> checkStoredAlert e s = checkStoredAlert e t"
  unfolding checkStoredAlert_def by (simp only:)

text \<open>The specification of a round: every alert that was due at its start, as it was stored then, is
  checked once, in turn, each check on the world that the one before has left; one that triggers is
  marked with the time at which its check ended. The answers are \<open>as\<close>.\<close>

fun checked_in_turn :: "('x alert_module_scheme) alert_env \<Rightarrow> (nat \<Rightarrow> stored_alert) \<Rightarrow> nat list \<Rightarrow> alert_result list \<Rightarrow>
    'x alert_module_scheme \<Rightarrow> 'x alert_module_scheme \<Rightarrow> bool" where
  "checked_in_turn e stored [] [] w w' \<longleftrightarrow> w' = w"
| "checked_in_turn e stored (r # rs) (a # as) w w' \<longleftrightarrow> (\<exists>u. checkStoredAlert e (stored r) w = (Inr a, u) \<and>
     checked_in_turn e stored rs as (if arTriggered a then markTriggered (amNowMs e u) r u else u) w')"
| "checked_in_turn e stored _ _ w w' \<longleftrightarrow> False"

lemma checkEach_exact:
  assumes "calm e" and "checkEach e rs results w = (Inr res, w')" and "\<forall>r \<in> set rs. r < length (amHeap w)"
    and "\<forall>j. saConfig (amHeap w ! j) = saConfig (stored j) \<and> saId (amHeap w ! j) = saId (stored j)"
  shows "\<exists>as. checked_in_turn e stored rs as w w' \<and> list_all2 (\<lambda>r a. arId a = saId (amHeap w ! r)) rs as \<and> res = results @ filter arTriggered as \<and>
    amStored w' = amStored w \<and> (\<forall>j. saTarget (amHeap w' ! j) = saTarget (amHeap w ! j) \<and>
      (saTriggeredAt (amHeap w' ! j) = None \<longleftrightarrow> saTriggeredAt (amHeap w ! j) = None \<and> j \<notin> set (hit_refs rs as)))"
  using assms(2-4)
proof (induction rs arbitrary: results w)
  case Nil
  then show ?case by (intro exI[of _ "[]"]) (auto simp: act_simps hit_refs_def)
next
  case (Cons r rs)
  obtain a w1 where a: "checkStoredAlert e (amHeap w ! r) w = (Inr a, w1)"
    and rest: "(if arTriggered a then checkEach e rs (results @ [a]) (markTriggered (amNowMs e w1) r w1)
      else checkEach e rs results w1) = (Inr res, w')"
    using Cons.prems(1) by (auto simp: act_simps)
  have "objects w1 = objects w" by (rule keepsD[OF keeps_checkStored[OF assms(1)] a])
  then have same: "amHeap w1 = amHeap w" "amStored w1 = amStored w" by (simp_all add: objects_def)
  define w2 where "w2 = (if arTriggered a then markTriggered (amNowMs e w1) r w1 else w1)"
  have r: "r < length (amHeap w1)" and rs: "\<forall>r \<in> set rs. r < length (amHeap w2)"
    using Cons.prems(2) same by (auto simp: w2_def mark_same)
  have "checkEach e rs (results @ (if arTriggered a then [a] else [])) w2 = (Inr res, w')" using rest by (auto simp: w2_def)
  moreover have "\<forall>j. saConfig (amHeap w2 ! j) = saConfig (stored j) \<and> saId (amHeap w2 ! j) = saId (stored j)"
    using Cons.prems(3) same by (auto simp: w2_def mark_same)
  ultimately obtain as where as: "checked_in_turn e stored rs as w2 w'" "list_all2 (\<lambda>r a. arId a = saId (amHeap w2 ! r)) rs as"
    "res = (results @ (if arTriggered a then [a] else [])) @ filter arTriggered as" "amStored w' = amStored w2"
    "\<forall>j. saTarget (amHeap w' ! j) = saTarget (amHeap w2 ! j) \<and>
      (saTriggeredAt (amHeap w' ! j) = None \<longleftrightarrow> saTriggeredAt (amHeap w2 ! j) = None \<and> j \<notin> set (hit_refs rs as))" using Cons.IH[OF _ rs] by blast
  have "checkStoredAlert e (stored r) w = (Inr a, w1)" using a checkStored_cong Cons.prems(3) by metis
  then have turn: "checked_in_turn e stored (r # rs) (a # as) w w'" using as(1) by (auto simp: w2_def)
  have "saId (amHeap w2 ! j) = saId (amHeap w ! j)" "saTarget (amHeap w2 ! j) = saTarget (amHeap w ! j)"
    "amStored w2 = amStored w" for j using same by (auto simp: w2_def mark_same)
  moreover have "saTriggeredAt (amHeap w2 ! j) = None \<longleftrightarrow> saTriggeredAt (amHeap w ! j) = None \<and> (arTriggered a \<longrightarrow> j \<noteq> r)" for j
    using same by (auto simp: w2_def mark_untriggered[OF r])
  ultimately show ?case using as(2-) turn checkStored_id[OF a]
    by (intro exI[of _ "a # as"]) (auto simp: hit_refs_def simp del: checked_in_turn.simps)
qed

text \<open>C37: A round of checks that nothing interrupts and that succeeds does what it is for. Every alert of
  the address that was waiting at its start is checked once, in turn, as it was stored; the result
  is the list of the answers that triggered, in this order; and those and only those alerts are
  gone from what the next round looks at.\<close>

theorem check_alerts_exact:
  assumes "calm e" and "alert_refs_ok w" and "checkAlerts e p w = (Inr res, w')"
  shows "\<exists>as. checked_in_turn e (\<lambda>r. amHeap w ! r) (targetAlerts p w) as w w' \<and> res = filter arTriggered as \<and>
    length as = length (targetAlerts p w) \<and> (\<forall>i < length as. arId (as ! i) = saId (amHeap w ! (targetAlerts p w ! i))) \<and>
    targetAlerts p w' = filter (\<lambda>r. r \<notin> set (hit_refs (targetAlerts p w) as)) (targetAlerts p w)"
proof -
  have "\<forall>r \<in> set (targetAlerts p w). r < length (amHeap w)" using assms(2) by (auto simp: alert_refs_ok_def targetAlerts_def)
  from checkEach_exact[OF assms(1) assms(3)[unfolded checkAlerts_def] this, of "\<lambda>r. amHeap w ! r"] obtain as where
    as: "checked_in_turn e (\<lambda>r. amHeap w ! r) (targetAlerts p w) as w w'"
      "list_all2 (\<lambda>r a. arId a = saId (amHeap w ! r)) (targetAlerts p w) as" "res = filter arTriggered as"
      "amStored w' = amStored w" and h: "\<forall>j. saTarget (amHeap w' ! j) = saTarget (amHeap w ! j) \<and>
      (saTriggeredAt (amHeap w' ! j) = None \<longleftrightarrow> saTriggeredAt (amHeap w ! j) = None \<and> j \<notin> set (hit_refs (targetAlerts p w) as))" by auto
  have "targetAlerts p w' = filter (\<lambda>r. r \<notin> set (hit_refs (targetAlerts p w) as)) (targetAlerts p w)"
    unfolding targetAlerts_def[of p w'] as(4) by (subst (2) targetAlerts_def) (auto simp: h intro!: filter_cong)
  then show ?thesis using as(1-3) by (intro exI[of _ as]) (auto simp: list_all2_conv_all_nth)
qed

text \<open>When a later alert of the address fails, those that triggered before it are marked but never reported: the
  call throws, and no later one looks at them.\<close>

theorem trigger_lost:
  assumes "calm e" and "r < length (amHeap w)" and "targetAlerts p w = r # s # rest"
    and "checkStoredAlert e (amHeap w ! r) w = (Inr a, w1)" and "arTriggered a"
    and "\<And>u. amHeap u ! s = amHeap w ! s \<Longrightarrow> fst (checkStoredAlert e (amHeap w ! s) u) = Inl x" and "r \<noteq> s"
  shows "\<exists>w'. checkAlerts e p w = (Inl x, w') \<and> r \<notin> set (targetAlerts q w')"
proof -
  let ?w2 = "markTriggered (amNowMs e w1) r w1"
  have "objects w1 = objects w" by (rule keepsD[OF keeps_checkStored[OF assms(1)] assms(4)])
  then have same: "amHeap w1 = amHeap w" "amStored w1 = amStored w" by (simp_all add: objects_def)
  have s: "amHeap ?w2 ! s = amHeap w ! s" using assms(7) same by (simp add: markTriggered_def)
  obtain w3 where w3: "checkStoredAlert e (amHeap ?w2 ! s) ?w2 = (Inl x, w3)" using assms(6)[OF s] s
    by (metis prod.collapse)
  have "objects w3 = objects ?w2" by (rule keepsD[OF keeps_checkStored[OF assms(1)] w3])
  then have "saTriggeredAt (amHeap w3 ! r) \<noteq> None" using assms(2) same by (simp add: objects_def markTriggered_def)
  then have "r \<notin> set (targetAlerts q w3)" by (simp add: targetAlerts_def)
  moreover have "checkAlerts e p w = (Inl x, w3)" using assms(3,4,5) w3 by (simp add: checkAlerts_def bindW_def)
  ultimately show ?thesis by blast
qed

text \<open>A tick of the polling consumes what it finds: it returns nothing, tells no listener, and no later check
  reports the alert.\<close>

theorem polling_consumes:
  assumes "calm e" and "alert_refs_ok w" and "active w" and "p \<noteq> []" and "checkAlerts e p w = (Inr res, w')"
  shows "pollTick e active (Some p) w = (Inr (), w')"
    and "\<exists>hits. map arId res = map (\<lambda>r. saId (amHeap w ! r)) hits \<and> (\<forall>r \<in> set hits. \<forall>q. r \<notin> set (targetAlerts q w'))"
proof -
  show "pollTick e active (Some p) w = (Inr (), w')" using assms(3-5)
    by (cases p) (auto simp: pollTick_def catchW_def bindW_def retW_def)
  have "\<forall>r \<in> set (targetAlerts p w). r < length (amHeap w)" using assms(2) by (auto simp: alert_refs_ok_def targetAlerts_def)
  from checkEach_exact[OF assms(1) assms(5)[unfolded checkAlerts_def] this, of "\<lambda>r. amHeap w ! r"] obtain as where
    as: "list_all2 (\<lambda>r a. arId a = saId (amHeap w ! r)) (targetAlerts p w) as" "res = filter arTriggered as"
    and h: "\<forall>j. saTriggeredAt (amHeap w' ! j) = None \<longrightarrow> j \<notin> set (hit_refs (targetAlerts p w) as)" by auto
  have "map arId (filter arTriggered as) = map (\<lambda>r. saId (amHeap w ! r)) (hit_refs (targetAlerts p w) as)"
    using as(1) by (induction rule: list_all2_induct) (auto simp: hit_refs_def)
  then show "\<exists>hits. map arId res = map (\<lambda>r. saId (amHeap w ! r)) hits \<and> (\<forall>r \<in> set hits. \<forall>q. r \<notin> set (targetAlerts q w'))"
    using as(2) h by (intro exI[of _ "hit_refs (targetAlerts p w) as"]) (auto simp: targetAlerts_def)
qed

section \<open>Alerts that cannot do their work\<close>

text \<open>A threshold that is not a number passes the check, and then every check of its address throws.\<close>

theorem nan_threshold_poisons:
  assumes "orValid (amOracle e) (gcTarget c)" and "trim (gcTarget c) \<noteq> []" and "gcType c = PriceType" and "gcThreshold c = NaN"
    and "gcDirection c = ''above''" and "\<And>u. \<exists>ts u'. orTokens (amOracle e) (gcTarget c) u = (Inr ts, u')"
  shows "validateAlertConfigV2 e c = Inr ()"
    and "saConfig (amHeap w ! r) = GenericConfig c \<Longrightarrow> targetAlerts p w = r # rest \<Longrightarrow> \<exists>m. fst (checkAlerts e p w) = Inl (Sdk (RangeError m))"
proof -
  show "validateAlertConfigV2 e c = Inr ()" using assms(1-5)
    by (simp add: validateAlertConfigV2_def validateAddress_def validateDirection_def)
  assume a: "saConfig (amHeap w ! r) = GenericConfig c" "targetAlerts p w = r # rest"
  obtain ts u' where "orTokens (amOracle e) (gcTarget c) w = (Inr ts, u')" using assms(6) by blast
  then show "\<exists>m. fst (checkAlerts e p w) = Inl (Sdk (RangeError m))" using a assms(3,4)
    by (simp add: checkAlerts_def checkStoredAlert_def checkGenericStoredAlert_def checkPriceFromStored_def bindW_def
        liftW_def storedThreshold_def split: prod.splits)
qed

text \<open>Alerts on health and volume never trigger, whatever their threshold.\<close>

theorem health_volume_never_trigger:
  assumes "gcType c = HealthType \<or> gcType c = VolumeType" and "saConfig s = GenericConfig c" and "checkStoredAlert e s w = (Inr a, w')"
  shows "\<not> arTriggered a"
  using assms by (auto simp: checkStoredAlert_def checkGenericStoredAlert_def checkHealthFromStored_def checkVolumeFromStored_def
      checkHealthAlert_def checkVolumeAlert_def act_simps alertResult_def split: prod.splits)

lemma loss_of_unit: "computeImpermanentLossBps (10 ^ 18) = 0"
proof -
  have "alert_sqrt (10 ^ 9 * 10 ^ 9) = 10 ^ 9" using alert_root.root_square[of "10 ^ 9"] by simp
  then show ?thesis
    by (simp add: computeImpermanentLossBps_def Let_def sdiv_nonneg ALERT_PRICE_SCALE_def PRICE_SCALE_SQRT_def BPS_def)
qed

lemma ratio_of_same: "0 < x \<Longrightarrow> computePriceRatio x x = 10 ^ 18"
  by (simp add: computePriceRatio_def ALERT_PRICE_SCALE_def sdiv_nonneg)

text \<open>A generic alert on impermanent loss takes the reserves of the moment as its reference. As long as the oracle
  has no average, it compares the pool with itself: it sees no loss and never triggers.\<close>

theorem generic_il_blind:
  assumes "\<And>u. orReserves (amOracle e) (gcTarget c) u = (Inr (r0, r1), u)"
    and "getTWAP (amOracle e) (gcTarget c) True w = (Inr None, u2)"
    and "orTokens (amOracle e) (gcTarget c) = retW (t0, t1)"
    and "gcThreshold c = Finite q" and "1 \<le> q"
    and "checkILFromStored e c i w = (Inr a, w')"
  shows "\<not> arTriggered a \<and> (\<exists>ic price. arReading a = ILReading ic 0 price)"
proof -
  let ?ref = "r1 * ALERT_PRICE_SCALE sdiv r0" and ?oe = "amOracle e"
  let ?ic = "\<lparr>icPair = gcTarget c, icTokenA = t0, icTokenB = t1, icReference = ?ref, icMaxBps = math_round (gcThreshold c)\<rparr>"
  have nz: "r0 \<noteq> 0" "r1 \<noteq> 0" and ck: "checkILAlert e ?ic i w = (Inr a, w')"
    using assms(6) by (auto simp: checkILFromStored_def liveReserves_def assms(1,3) act_simps split: if_splits)
  then have "validateILAlertConfig e ?ic = Inr ()"
    by (cases "validateILAlertConfig e ?ic") (auto simp: checkILAlert_def act_simps liftW_def)
  then have ref: "0 < ?ref" by (auto simp: validateILAlertConfig_def validatePositiveAmount_def result_simps Let_def split: if_splits)
  have price: "currentPoolPrice ?oe (gcTarget c) True w = (Inr ?ref, u2)"
    using assms(2) nz by (simp add: currentPoolPrice_def bindW_def assms(1) retW_def)
  obtain x where a: "a = alertResult i (ILReading ?ic (computeImpermanentLossBps (computePriceRatio x ?ref)) x)
      (num_le (math_round (Finite q)) (of_int (computeImpermanentLossBps (computePriceRatio x ?ref))))" and x: "x = ?ref"
    using ck price assms(4) by (auto simp: checkILAlert_def act_simps Let_def assms(3) liftW_def map_sum_def split: sum.splits)
  have "1 \<le> \<lfloor>q + 1 / 2\<rfloor>" using assms(5) by (simp add: le_floor_iff)
  then show ?thesis using a x ratio_of_same[OF ref] loss_of_unit by (auto simp: alertResult_def)
qed

text \<open>The two sources of a price are on different scales: an average that the oracle module finds in agreement with
  equal reserves is less than a nine-thousandth of the price that the alerts read from those reserves.\<close>

theorem scales_disagree:
  assumes "getTWAP oe p True w = (Inr (Some tw), w1)" and "0 < r" and "0 < twPrice0 tw"
    and "computeDeviationBps (twPrice0 tw) (r * PRICE_SCALE sdiv r) = Some 0"
    and "getTWAP oe p True u = (Inr None, u1)" and "orReserves oe p u1 = (Inr (r, r), u2)"
  shows "\<exists>average spot. currentPoolPrice oe p True w = (Inr average, w1) \<and> currentPoolPrice oe p True u = (Inr spot, u2) \<and>
    9000 * average < spot"
proof -
  let ?t = "twPrice0 tw"
  have one: "r * PRICE_SCALE sdiv r = 10 ^ 14" "r * ALERT_PRICE_SCALE sdiv r = 10 ^ 18"
    using assms(2) by (simp_all add: PRICE_SCALE_def ALERT_PRICE_SCALE_def sdiv_nonneg)
  have "9000 * ?t < 10 ^ 18"
  proof (cases "?t < 10 ^ 14")
    case False
    then have "((?t - 10 ^ 14) * 10000) div ?t = 0" using assms(3,4) one(1)
      by (auto simp: computeDeviationBps_def sdiv_nonneg split: if_splits)
    then have "(?t - 10 ^ 14) * 10000 < ?t"
      using assms(3) lt_div_mult_int[of ?t "(?t - 10 ^ 14) * 10000"] by simp
    then show ?thesis by simp
  qed simp
  then show ?thesis using assms(1,2,5,6) one(2) by (simp add: currentPoolPrice_def bindW_def retW_def)
qed

section \<open>Runs\<close>

definition sample_price :: price_config where
  "sample_price = \<lparr>pcTokenIn = ''A'', pcTokenOut = ''B'', pcPair = ''P'', pcThreshold = 10 ^ 18, pcDirection = ''above''\<rparr>"

definition sample_generic :: "alert_type \<Rightarrow> js_number \<Rightarrow> generic_config" where
  "sample_generic t n = \<lparr>gcType = t, gcTarget = ''P'', gcThreshold = n, gcDirection = ''above''\<rparr>"

definition sample_stored :: "string \<Rightarrow> stored_config \<Rightarrow> stored_alert" where
  "sample_stored i c = \<lparr>saId = i, saConfig = c, saTarget = ''P'', saTriggeredAt = None, saCreatedAt = 0\<rparr>"

definition sample_module :: "stored_config list \<Rightarrow> alert_module" where
  "sample_module cs = \<lparr>observationCache = [], amRules = [], amListeners = None,
     amStored = map (\<lambda>r. Some (nat_str r, r)) [0..<length cs], amHeap = map (sample_stored ''s'') cs\<rparr>"

definition sample_env :: "int \<Rightarrow> int \<Rightarrow> alert_module alert_env" where
  "sample_env c t = \<lparr>amOracle = \<lparr>orCumulative = \<lambda>p. retW (c, c, t), orReserves = \<lambda>p. retW (5, 5), orTokens = \<lambda>p. retW (''A'', ''B''),
     orValid = \<lambda>p. True\<rparr>, amNowMs = \<lambda>w. 7000, amRandom = \<lambda>n w. (replicate n CHR ''x'', w), amScaled = \<lambda>q. q * 10 ^ 15,
     amText = \<lambda>n. ''n'', amHandle = \<lambda>h ev. retW ()\<rparr>"

lemma sample_calm: "calm (sample_env c t)"
  by (simp add: calm_def sample_env_def)

lemma sample_trim [simp]: "trim ''P'' = ''P''" "trim ''A'' = ''A''" "trim ''B'' = ''B''"
  by code_simp+

lemma sample_no_average: "observationCache w = [] \<Longrightarrow> getTWAP (amOracle (sample_env c t)) ''P'' True w =
    (Inr None, w\<lparr>observationCache := [(''P'', [\<lparr>obPrice0 = c, obPrice1 = c, obTime = t\<rparr>])]\<rparr>)"
  by (simp add: getTWAP_def observe_def sample_env_def bindW_def liftW_def validateAddress_def retW_def cached_def
      addObservation_def capObservations_def MAX_OBSERVATIONS_def Let_def)

lemmas sample_defs = sample_price_def sample_stored_def sample_generic_def validatePriceAlertConfig_def validateAddress_def
  validateDistinctTokens_def validatePositiveAmount_def validateDirection_def

lemma sample_check: "observationCache w = [] \<Longrightarrow> \<exists>w'. checkStoredAlert (sample_env c t) (sample_stored ''s'' (PriceConfig sample_price)) w =
    (Inr (alertResult ''s'' (PriceReading sample_price (10 ^ 18)) True), w')"
  using sample_no_average[of w c t]
  by (simp add: checkStoredAlert_def checkPriceAlert_def getPoolPrice_def currentPoolPrice_def bindW_def liftW_def sample_defs
      validatePairTokens_def retW_def Let_def) (simp add: sample_env_def validatePairTokens_def retW_def
      ALERT_PRICE_SCALE_def sdiv_nonneg bindW_def liftW_def alertResult_def)

theorem rules_never_fire_witness:
  "\<exists>x. acknowledge (sample_env 0 0) ''a'' (run_steps (rule_step (sample_env 0 0)) (sample_module []) [PauseRule ''a'']) =
     (Inl x, run_steps (rule_step (sample_env 0 0)) (sample_module []) [PauseRule ''a''])"
  by (rule rules_never_fire(1)) (simp_all add: sample_env_def sample_module_def)

theorem il_loss_brackets_witness: "0 \<le> computeImpermanentLossBps (4 * 10 ^ 18) \<and> computeImpermanentLossBps (4 * 10 ^ 18) \<le> 10000"
  using il_loss_brackets(1,2)[of "4 * 10 ^ 18"] by simp

theorem check_alerts_exact_witness:
  "\<exists>a w'. checkAlerts (sample_env 0 0) ''P'' (sample_module [PriceConfig sample_price]) = (Inr [a], w') \<and> targetAlerts ''P'' w' = []"
proof -
  let ?w = "sample_module [PriceConfig sample_price]" and ?e = "sample_env 0 0"
  have t: "targetAlerts ''P'' ?w = [0]"
    by (simp add: targetAlerts_def sample_module_def js_values_def sample_stored_def)
  obtain w1 where w1: "checkStoredAlert ?e (sample_stored ''s'' (PriceConfig sample_price)) ?w =
      (Inr (alertResult ''s'' (PriceReading sample_price (10 ^ 18)) True), w1)"
    using sample_check[of ?w 0 0] by (auto simp: sample_module_def)
  then have c: "checkAlerts ?e ''P'' ?w = (Inr [alertResult ''s'' (PriceReading sample_price (10 ^ 18)) True],
      markTriggered (amNowMs ?e w1) 0 w1)"
    unfolding checkAlerts_def t by (simp add: bindW_def alertResult_def retW_def) (simp add: sample_module_def retW_def)
  have "alert_refs_ok ?w" by (simp add: alert_refs_ok_def sample_module_def js_values_def)
  from check_alerts_exact[OF sample_calm this c] t obtain as where
    as: "[alertResult ''s'' (PriceReading sample_price (10 ^ 18)) True] = filter arTriggered as" "length as = 1"
      "targetAlerts ''P'' (markTriggered (amNowMs ?e w1) 0 w1) = filter (\<lambda>r. r \<notin> set (hit_refs [0] as)) [0]" by auto
  then obtain a where a: "as = [a]" by (cases as) auto
  then show ?thesis using as(1,3) c by (auto simp: hit_refs_def split: if_splits)
qed

theorem trigger_lost_witness:
  "\<exists>x w'. checkAlerts (sample_env 0 0) ''P'' (sample_module [PriceConfig sample_price, GenericConfig (sample_generic PriceType NaN)]) = (Inl x, w') \<and>
     0 \<notin> set (targetAlerts ''P'' w')"
proof -
  let ?w = "sample_module [PriceConfig sample_price, GenericConfig (sample_generic PriceType NaN)]" and ?e = "sample_env 0 0"
  have t: "targetAlerts ''P'' ?w = [0, 1]"
    by (simp add: targetAlerts_def sample_module_def js_values_def sample_stored_def upt_rec)
  obtain w1 where w1: "checkStoredAlert ?e (amHeap ?w ! 0) ?w = (Inr (alertResult ''s'' (PriceReading sample_price (10 ^ 18)) True), w1)"
    using sample_check[of ?w 0 0] by (auto simp: sample_module_def)
  have "fst (checkStoredAlert ?e (amHeap ?w ! 1) u) = fst (checkStoredAlert ?e (amHeap ?w ! 1) ?w)" for u
    by (simp add: sample_module_def sample_stored_def checkStoredAlert_def checkGenericStoredAlert_def sample_generic_def
        checkPriceFromStored_def sample_env_def bindW_def retW_def liftW_def storedThreshold_def)
  moreover have "\<exists>x. fst (checkStoredAlert ?e (amHeap ?w ! 1) ?w) = Inl x"
    by (simp add: sample_module_def sample_stored_def checkStoredAlert_def checkGenericStoredAlert_def sample_generic_def
        checkPriceFromStored_def sample_env_def bindW_def retW_def liftW_def storedThreshold_def)
  ultimately obtain x where x: "\<And>u. fst (checkStoredAlert ?e (amHeap ?w ! 1) u) = Inl x" by metis
  show ?thesis using trigger_lost[OF sample_calm _ t w1 _ x, of "''P''"] by (auto simp: sample_module_def alertResult_def)
qed

theorem polling_consumes_witness:
  "\<exists>w'. pollTick (sample_env 0 0) (\<lambda>w. True) (Some ''P'') (sample_module []) = (Inr (), w')"
proof -
  have "checkAlerts (sample_env 0 0) ''P'' (sample_module []) = (Inr [], sample_module [])"
    by (simp add: checkAlerts_def targetAlerts_def sample_module_def js_values_def retW_def)
  from polling_consumes(1)[OF sample_calm _ _ _ this] show ?thesis by (auto simp: alert_refs_ok_def sample_module_def js_values_def)
qed

theorem nan_threshold_poisons_witness:
  "validateAlertConfigV2 (sample_env 0 0) (sample_generic PriceType NaN) = Inr ()"
  by (rule nan_threshold_poisons(1)) (simp_all add: sample_env_def sample_generic_def retW_def)

theorem health_volume_never_trigger_witness:
  "\<exists>a w'. checkStoredAlert (sample_env 0 0) (sample_stored ''s'' (GenericConfig (sample_generic HealthType (Finite 1)))) (sample_module []) =
     (Inr a, w') \<and> \<not> arTriggered a"
proof -
  obtain a w' where ck: "checkStoredAlert (sample_env 0 0) (sample_stored ''s'' (GenericConfig (sample_generic HealthType (Finite 1))))
      (sample_module []) = (Inr a, w')"
    by (simp add: checkStoredAlert_def checkGenericStoredAlert_def checkHealthFromStored_def checkHealthAlert_def sample_defs
        liveReserves_def bindW_def liftW_def retW_def sample_env_def)
  then show ?thesis
    using health_volume_never_trigger[of "sample_generic HealthType (Finite 1)" "sample_stored ''s'' (GenericConfig (sample_generic HealthType (Finite 1)))"]
    by (auto simp: sample_generic_def sample_stored_def)
qed

theorem generic_il_blind_witness:
  "\<exists>a w'. checkILFromStored (sample_env 0 0) (sample_generic ILType (Finite 1)) ''s'' (sample_module []) = (Inr a, w') \<and> \<not> arTriggered a"
proof -
  let ?e = "sample_env 0 0" and ?w = "sample_module []" and ?c = "sample_generic ILType (Finite 1)"
  obtain u2 where tw: "getTWAP (amOracle ?e) (gcTarget ?c) True ?w = (Inr None, u2)"
    using sample_no_average[of ?w 0 0] by (auto simp: sample_module_def sample_generic_def)
  have orc: "orReserves (amOracle ?e) p u = (Inr (5, 5), u)" "orTokens (amOracle ?e) p = retW (''A'', ''B'')" for p u
    by (simp_all add: sample_env_def retW_def)
  have "\<exists>a w'. checkILFromStored ?e ?c ''s'' ?w = (Inr a, w')"
    using tw by (simp add: checkILFromStored_def liveReserves_def checkILAlert_def currentPoolPrice_def bindW_def orc retW_def liftW_def
      sample_generic_def validateILAlertConfig_def validateAddress_def validateDistinctTokens_def validatePositiveAmount_def
      validateBps_def validatePairTokens_def Let_def BPS_def ALERT_PRICE_SCALE_def sdiv_nonneg) (simp add: sample_env_def)
  then obtain a w' where ck: "checkILFromStored ?e ?c ''s'' ?w = (Inr a, w')" by blast
  have "\<not> arTriggered a \<and> (\<exists>ic price. arReading a = ILReading ic 0 price)"
    by (rule generic_il_blind[OF orc(1) tw orc(2) _ _ ck, of 1]) (simp_all add: sample_generic_def)
  then show ?thesis using ck by blast
qed

definition aged_module :: alert_module where
  "aged_module = (sample_module [])\<lparr>observationCache := [(''P'', [\<lparr>obPrice0 = 0, obPrice1 = 0, obTime = 0\<rparr>])]\<rparr>"

theorem scales_disagree_witness:
  "\<exists>average spot w1 w2. currentPoolPrice (amOracle (sample_env (300 * 10 ^ 14) 300)) ''P'' True aged_module = (Inr average, w1) \<and>
     currentPoolPrice (amOracle (sample_env (300 * 10 ^ 14) 300)) ''P'' True (sample_module []) = (Inr spot, w2) \<and> 9000 * average < spot"
proof -
  let ?oe = "amOracle (sample_env (300 * 10 ^ 14) 300)"
  obtain tw w1 where tw: "getTWAP ?oe ''P'' True aged_module = (Inr (Some tw), w1)" "twPrice0 tw = 10 ^ 14"
    by (simp add: getTWAP_def observe_def sample_env_def bindW_def liftW_def validateAddress_def retW_def cached_def aged_module_def
      addObservation_def capObservations_def MAX_OBSERVATIONS_def MIN_TWAP_WINDOW_SECONDS_def Let_def computeTWAP_def sdiv_nonneg)
  obtain u1 where "getTWAP ?oe ''P'' True (sample_module []) = (Inr None, u1)"
    using sample_no_average[of "sample_module []" "300 * 10 ^ 14" 300] by (auto simp: sample_module_def)
  moreover have "orReserves ?oe ''P'' u1 = (Inr (5, 5), u1)" by (simp add: sample_env_def retW_def)
  moreover have "computeDeviationBps (twPrice0 tw) (5 * PRICE_SCALE sdiv 5) = Some 0"
    by (simp add: tw(2) computeDeviationBps_def PRICE_SCALE_def sdiv_nonneg)
  ultimately show ?thesis using scales_disagree[OF tw(1), of 5] tw(2) by (fastforce simp: tw(2))
qed

end
