(* ===== verification/PriceAlerts.thy ===== *)
theory PriceAlerts
  imports AlertRules
begin

text \<open>
  The alerts of \<open>AlertModule\<close> on the price of a token: \<open>createThresholdPriceAlert\<close> and
  \<open>checkThresholdPriceAlerts\<close> of \<open>modules/alerts.ts\<close>, with the hysteresis that keeps them from firing again.
\<close>

section \<open>The alerts\<close>

record price_alert_params =
  tpToken :: string
  tpTarget :: int
  tpDirection :: string
  tpPair :: "string option"
  tpLabel :: "string option"

datatype threshold_status = ThresholdActive | ThresholdTriggered

record threshold_alert =
  taId :: string
  taToken :: string
  taTarget :: int
  taDirection :: string
  taPair :: "string option"
  taLabel :: "string option"
  taCreatedAt :: int
  taTriggeredAt :: "int option"
  taCrossedBack :: bool
  taLastPrice :: "int option"
  taStatus :: threshold_status

record price_module = alert_module +
  thresholdAlerts :: "threshold_alert js_map"

definition createThresholdPriceAlert :: "('x price_module_scheme) alert_env \<Rightarrow> price_alert_params \<Rightarrow> ('x price_module_scheme, thrown, string) act" where
  "createThresholdPriceAlert e p = bindW (liftW (validateAddress (orValid (amOracle e)) (tpToken p) ''tokenAddress'')) (\<lambda>_.
     if tpTarget p \<le> 0 then throwW (Sdk (ValidationError ''targetPriceUSD must be a positive value''))
     else if tpDirection p \<noteq> ''above'' \<and> tpDirection p \<noteq> ''below''
     then throwW (Sdk (ValidationError ''direction must be \"above\" or \"below\"''))
     else bindW (case tpPair p of Some (c # cs) \<Rightarrow> liftW (validateAddress (orValid (amOracle e)) (c # cs) ''pairAddress'')
        | _ \<Rightarrow> retW ()) (\<lambda>_ w. (let (r, w1) = amRandom e 8 w; i = ''price_alert_'' @ int_str (amNowMs e w) @ ''_'' @ r in
       (Inr i, w1\<lparr>thresholdAlerts := js_set (thresholdAlerts w1) i
         \<lparr>taId = i, taToken = tpToken p, taTarget = tpTarget p, taDirection = tpDirection p, taPair = tpPair p,
          taLabel = tpLabel p, taCreatedAt = amNowMs e w1, taTriggeredAt = None, taCrossedBack = True, taLastPrice = None,
          taStatus = ThresholdActive\<rparr>\<rparr>))))"

definition getPriceAlerts :: "(string \<Rightarrow> bool) \<Rightarrow> string \<Rightarrow> 'x price_module_scheme \<Rightarrow> threshold_alert list result" where
  "getPriceAlerts valid a w = bindE (validateAddress valid a ''address'') (\<lambda>_.
     Inr (filter (\<lambda>t. to_lower (taToken t) = to_lower a) (js_values (thresholdAlerts w))))"

definition deletePriceAlert :: "string \<Rightarrow> 'x price_module_scheme \<Rightarrow> bool \<times> 'x price_module_scheme" where
  "deletePriceAlert i w = (js_get (thresholdAlerts w) i \<noteq> None, w\<lparr>thresholdAlerts := js_delete (thresholdAlerts w) i\<rparr>)"

definition getPriceAlert :: "string \<Rightarrow> 'x price_module_scheme \<Rightarrow> threshold_alert option" where
  "getPriceAlert i w = js_get (thresholdAlerts w) i"

section \<open>The price\<close>

text \<open>An address of the empty string counts as none.\<close>

definition given :: "string option \<Rightarrow> bool" where
  "given s \<longleftrightarrow> s \<noteq> None \<and> s \<noteq> Some []"

definition fetchRedStonePrice :: "string option \<Rightarrow> string \<Rightarrow> ('w, thrown, int) act" where
  "fetchRedStonePrice oracleAddress token = (if \<not> given oracleAddress
     then throwW (Sdk (ValidationError ''RedStone oracle address not configured''))
     else throwW (Sdk (ValidationError (''RedStone oracle integration not fully implemented - requires oracle contract address '' @
       ''and asset symbol mapping''))))"

definition fetchSpotPriceFromPair :: "'w oracle_env \<Rightarrow> string \<Rightarrow> string \<Rightarrow> ('w, thrown, int) act" where
  "fetchSpotPriceFromPair oe p token = bindW (orTokens oe p) (\<lambda>(t0, t1). bindW (orReserves oe p) (\<lambda>(r0, r1).
     if r0 = 0 \<or> r1 = 0 then throwW (Sdk no_liquidity)
     else bindW (liftW (validatePairTokens (t0, t1) token (if t0 = token then t1 else t0))) (\<lambda>_.
       retW ((if t0 = token then r1 else r0) * USD_SCALE sdiv (if t0 = token then r0 else r1)))))"

definition getTokenPriceUSD :: "'w oracle_env \<Rightarrow> string option \<Rightarrow> string \<Rightarrow> string option \<Rightarrow> ('w, thrown, int) act" where
  "getTokenPriceUSD oe oracleAddress token p =
     (let spot = (if given p then fetchSpotPriceFromPair oe (the p) token
        else throwW (Sdk (ValidationError ''Cannot fetch price: no oracle address or pair address provided'')))
      in if given oracleAddress then catchW (fetchRedStonePrice oracleAddress token) (\<lambda>_. spot) else spot)"

section \<open>Hysteresis\<close>

definition conditionMet :: "string \<Rightarrow> int \<Rightarrow> int \<Rightarrow> bool" where
  "conditionMet direction target price = (if direction = ''above'' then target \<le> price else price \<le> target)"

definition evaluateThresholdCondition :: "int \<Rightarrow> int \<Rightarrow> string \<Rightarrow> bool \<Rightarrow> int option \<Rightarrow> bool" where
  "evaluateThresholdCondition price target direction crossedBack lastPrice =
     (if \<not> crossedBack then False
      else case lastPrice of None \<Rightarrow> conditionMet direction target price
      | Some l \<Rightarrow> if direction = ''above'' \<and> target \<le> l then False
          else if direction = ''below'' \<and> \<not> target \<le> l then False else conditionMet direction target price)"

definition checkCrossBack :: "int \<Rightarrow> int \<Rightarrow> string \<Rightarrow> int option \<Rightarrow> bool" where
  "checkCrossBack price target direction lastPrice = (case lastPrice of None \<Rightarrow> True
     | Some l \<Rightarrow> if direction = ''above'' then price < target \<and> target \<le> l else target < price \<and> l \<le> target)"

definition shouldTrigger :: "int \<Rightarrow> threshold_alert \<Rightarrow> bool" where
  "shouldTrigger price a = evaluateThresholdCondition price (taTarget a) (taDirection a) (taCrossedBack a) (taLastPrice a)"

text \<open>What one price does to an alert, and whether it fires.\<close>

definition updatedAlert :: "int \<Rightarrow> int \<Rightarrow> threshold_alert \<Rightarrow> bool \<times> threshold_alert" where
  "updatedAlert now price a =
     (let u = a\<lparr>taLastPrice := Some price\<rparr>; back = checkCrossBack price (taTarget a) (taDirection a) (taLastPrice a) in
      if taStatus a = ThresholdActive
      then if shouldTrigger price a
        then (True, u\<lparr>taStatus := ThresholdTriggered, taTriggeredAt := Some now, taCrossedBack := False\<rparr>)
        else (False, u\<lparr>taCrossedBack := back\<rparr>)
      else (False, u\<lparr>taCrossedBack := back, taStatus := (if back then ThresholdActive else taStatus u)\<rparr>))"

definition checkThreshold :: "('x price_module_scheme) alert_env \<Rightarrow> string option \<Rightarrow> string \<Rightarrow> threshold_alert \<Rightarrow>
    ('x price_module_scheme, thrown, bool) act" where
  "checkThreshold e oracleAddress i a = catchW
     (bindW (getTokenPriceUSD (amOracle e) oracleAddress (taToken a) (taPair a)) (\<lambda>price w.
       (let (b, u) = updatedAlert (amNowMs e w) price a in (Inr b, w\<lparr>thresholdAlerts := js_set (thresholdAlerts w) i u\<rparr>))))
     (\<lambda>_. retW False)"

text \<open>The loop over the map, by position; an alert whose price cannot be read is passed over.\<close>

fun checkThresholdsFrom :: "('x price_module_scheme) alert_env \<Rightarrow> string option \<Rightarrow> nat \<Rightarrow> nat \<Rightarrow> string list \<Rightarrow> 'x price_module_scheme \<Rightarrow>
    (string list \<times> 'x price_module_scheme) option" where
  "checkThresholdsFrom e oa 0 n hits w = None"
| "checkThresholdsFrom e oa (Suc fuel) n hits w = (if length (thresholdAlerts w) \<le> n then Some (hits, w)
     else case thresholdAlerts w ! n of None \<Rightarrow> checkThresholdsFrom e oa fuel (Suc n) hits w
     | Some (i, a) \<Rightarrow> (case checkThreshold e oa i a w of
           (Inr True, w1) \<Rightarrow> checkThresholdsFrom e oa fuel (Suc n) (hits @ [i]) w1
         | (_, w1) \<Rightarrow> checkThresholdsFrom e oa fuel (Suc n) hits w1))"

definition checkThresholdPriceAlerts :: "('x price_module_scheme) alert_env \<Rightarrow> string option \<Rightarrow> nat \<Rightarrow> 'x price_module_scheme \<Rightarrow>
    (string list \<times> 'x price_module_scheme) option" where
  "checkThresholdPriceAlerts e oa fuel w = checkThresholdsFrom e oa fuel 0 [] w"

section \<open>When an alert fires\<close>

text \<open>A new alert that sees one price after the other, and whether each made it fire.\<close>

fun priceRun :: "int \<Rightarrow> int list \<Rightarrow> threshold_alert \<Rightarrow> bool list" where
  "priceRun now [] a = []"
| "priceRun now (p # ps) a = fst (updatedAlert now p a) # priceRun now ps (snd (updatedAlert now p a))"

definition new_alert :: "threshold_alert \<Rightarrow> bool" where
  "new_alert a \<longleftrightarrow> taStatus a = ThresholdActive \<and> taCrossedBack a \<and> taLastPrice a = None \<and> taDirection a \<in> {''above'', ''below''}"

text \<open>What is known of an alert after two prices: ready iff the condition held at the first and not at the second.\<close>

definition settledAlert :: "int \<Rightarrow> int \<Rightarrow> threshold_alert \<Rightarrow> bool" where
  "settledAlert before latest a \<longleftrightarrow> taDirection a \<in> {''above'', ''below''} \<and> taLastPrice a = Some latest \<and>
     (taCrossedBack a \<longleftrightarrow> conditionMet (taDirection a) (taTarget a) before \<and> \<not> conditionMet (taDirection a) (taTarget a) latest) \<and>
     (taCrossedBack a \<longrightarrow> taStatus a = ThresholdActive)"

lemma settled_step:
  assumes "settledAlert before latest a"
  defines "met \<equiv> conditionMet (taDirection a) (taTarget a)"
  shows "fst (updatedAlert now p a) \<longleftrightarrow> met p \<and> \<not> met latest \<and> met before"
    and "settledAlert latest p (snd (updatedAlert now p a))"
    and "taDirection (snd (updatedAlert now p a)) = taDirection a" and "taTarget (snd (updatedAlert now p a)) = taTarget a"
  using assms(1)
  by (cases "taStatus a"; auto simp: settledAlert_def met_def updatedAlert_def Let_def shouldTrigger_def
      evaluateThresholdCondition_def checkCrossBack_def conditionMet_def split: if_splits)+

lemma first_step:
  assumes "new_alert a"
  defines "met \<equiv> conditionMet (taDirection a) (taTarget a)"
  shows "fst (updatedAlert now p a) \<longleftrightarrow> met p"
    and "taLastPrice (snd (updatedAlert now p a)) = Some p" and "taCrossedBack (snd (updatedAlert now p a)) \<longleftrightarrow> \<not> met p"
    and "taStatus (snd (updatedAlert now p a)) = (if met p then ThresholdTriggered else ThresholdActive)"
    and "taDirection (snd (updatedAlert now p a)) = taDirection a" and "taTarget (snd (updatedAlert now p a)) = taTarget a"
  using assms(1) by (auto simp: new_alert_def met_def updatedAlert_def Let_def shouldTrigger_def evaluateThresholdCondition_def
      checkCrossBack_def)

lemma second_step:
  assumes "taDirection a \<in> {''above'', ''below''}" and "taLastPrice a = Some q"
    and "taCrossedBack a \<longleftrightarrow> \<not> conditionMet (taDirection a) (taTarget a) q"
    and "taStatus a = (if conditionMet (taDirection a) (taTarget a) q then ThresholdTriggered else ThresholdActive)"
  shows "fst (updatedAlert now p a) \<longleftrightarrow> conditionMet (taDirection a) (taTarget a) p \<and> \<not> conditionMet (taDirection a) (taTarget a) q"
    and "settledAlert q p (snd (updatedAlert now p a))"
    and "taDirection (snd (updatedAlert now p a)) = taDirection a" and "taTarget (snd (updatedAlert now p a)) = taTarget a"
  using assms by (auto simp: settledAlert_def updatedAlert_def Let_def shouldTrigger_def evaluateThresholdCondition_def
      checkCrossBack_def conditionMet_def split: if_splits)

lemma settled_run:
  assumes "settledAlert before latest a" and "n < length ps"
  shows "priceRun now ps a ! n \<longleftrightarrow> (let met = conditionMet (taDirection a) (taTarget a); qs = before # latest # ps in
    met (qs ! (n + 2)) \<and> \<not> met (qs ! (n + 1)) \<and> met (qs ! n))"
  using assms
proof (induction ps arbitrary: before latest a n)
  case (Cons p ps)
  note step = settled_step[OF Cons.prems(1), where now = now and p = p]
  show ?case
  proof (cases n)
    case (Suc m)
    then show ?thesis using Cons.IH[OF step(2), of m] Cons.prems(2) step(3,4) by (simp add: Let_def)
  qed (use step(1) in \<open>simp add: Let_def\<close>)
qed simp

text \<open>C35: An alert fires at a price exactly when the condition holds there and did not at the price before, and either
  the price before was the first or the condition had held at the one before that. A price that stays away from the
  target for two checks or more and then reaches it goes unnoticed.\<close>

theorem threshold_fires_iff:
  assumes "new_alert a" and "n < length ps"
  shows "priceRun now ps a ! n \<longleftrightarrow> (let met = \<lambda>k. conditionMet (taDirection a) (taTarget a) (ps ! k) in
    met n \<and> (n = 0 \<or> \<not> met (n - 1) \<and> (n = 1 \<or> met (n - 2))))"
proof -
  obtain p ps1 where ps: "ps = p # ps1" using assms(2) by (cases ps) auto
  note one = first_step[OF assms(1), where now = now and p = p]
  let ?a1 = "snd (updatedAlert now p a)"
  show ?thesis
  proof (cases n)
    case (Suc m)
    then obtain q ps2 where ps1: "ps1 = q # ps2" using assms(2) ps by (cases ps1) auto
    have dir: "taDirection ?a1 \<in> {''above'', ''below''}" using assms(1) one(5) by (simp add: new_alert_def)
    have "taCrossedBack ?a1 \<longleftrightarrow> \<not> conditionMet (taDirection ?a1) (taTarget ?a1) p"
      "taStatus ?a1 = (if conditionMet (taDirection ?a1) (taTarget ?a1) p then ThresholdTriggered else ThresholdActive)"
      using one by simp_all
    note two = second_step[OF dir one(2) this, where now = now and p = q]
    show ?thesis
    proof (cases m)
      case (Suc k)
      then show ?thesis using settled_run[OF two(2), of k ps2 now] assms(2) \<open>n = Suc m\<close> ps ps1 one(5,6) two(3,4) by (simp add: Let_def)
    qed (use two(1) one(5,6) \<open>n = Suc m\<close> ps ps1 in \<open>simp add: Let_def\<close>)
  qed (use one(1) ps in \<open>simp add: Let_def\<close>)
qed

text \<open>The oracle is never asked with success, so the price is that of the pair; an alert without a pair is passed
  over by every check, whether an oracle is configured or not.\<close>

theorem no_pair_never_checked:
  assumes "\<not> given (taPair a)"
  shows "checkThreshold e oracleAddress i a w = (Inr False, w)"
  using assms by (auto simp: checkThreshold_def getTokenPriceUSD_def fetchRedStonePrice_def catchW_def bindW_def throwW_def
    retW_def Let_def)

theorem oracle_price_unused: "getTokenPriceUSD oe oracleAddress token p = getTokenPriceUSD oe None token p"
  by (auto simp: getTokenPriceUSD_def fetchRedStonePrice_def catchW_def throwW_def given_def fun_eq_iff Let_def)

definition sample_threshold :: threshold_alert where
  "sample_threshold = \<lparr>taId = ''t'', taToken = ''A'', taTarget = 10, taDirection = ''above'', taPair = None, taLabel = None,
     taCreatedAt = 0, taTriggeredAt = None, taCrossedBack = True, taLastPrice = None, taStatus = ThresholdActive\<rparr>"

theorem threshold_fires_iff_witness: "\<not> priceRun 0 [5, 6, 12] sample_threshold ! 2 \<and> priceRun 0 [12, 5, 11] sample_threshold ! 2"
proof -
  have new: "new_alert sample_threshold" by (simp add: new_alert_def sample_threshold_def)
  show ?thesis using threshold_fires_iff[OF new, of 2 "[5, 6, 12]" 0] threshold_fires_iff[OF new, of 2 "[12, 5, 11]" 0]
    by (simp add: sample_threshold_def conditionMet_def)
qed

definition sample_price_env :: "price_module alert_env" where
  "sample_price_env = \<lparr>amOracle = \<lparr>orCumulative = \<lambda>p. retW (0, 0, 0), orReserves = \<lambda>p. retW (1, 5), orTokens = \<lambda>p. retW (''A'', ''B''),
     orValid = \<lambda>p. True\<rparr>, amNowMs = \<lambda>w. 0, amRandom = \<lambda>n w. ([], w), amScaled = \<lambda>q. q, amText = \<lambda>n. [], amHandle = \<lambda>h ev. retW ()\<rparr>"

definition sample_price_module :: price_module where
  "sample_price_module = \<lparr>observationCache = [], amRules = [], amListeners = None, amStored = [], amHeap = [], thresholdAlerts = []\<rparr>"

theorem no_pair_never_checked_witness:
  "checkThreshold sample_price_env (Some ''O'') ''t'' sample_threshold sample_price_module = (Inr False, sample_price_module)"
  by (rule no_pair_never_checked) (simp add: sample_threshold_def given_def)

end
