(* ===== verification/Fees.thy ===== *)
theory Fees
  imports AlertRules EventCursor "HOL-Library.Multiset"
begin

text \<open>
  \<open>modules/fees.ts\<close> with \<open>utils/ledger.ts\<close> and \<open>utils/token-decimals.ts\<close>: the state of the dynamic fee, the
  revenue of a pair from its swap events, the yield of a liquidity provider. The events come from the typed
  cursor; what the contracts answer is in \<open>fee_env\<close>. Display values are exact quotients.
\<close>

section \<open>Ledgers and time\<close>

definition LEDGER_CLOSE_INTERVAL_SECONDS :: int where
  "LEDGER_CLOSE_INTERVAL_SECONDS = 5"

record ledger_head =
  lhLedger :: int
  lhCloseTime :: int

definition ledgerToApproxTime :: "int \<Rightarrow> ledger_head \<Rightarrow> int" where
  "ledgerToApproxTime l head = lhCloseTime head + (l - lhLedger head) * LEDGER_CLOSE_INTERVAL_SECONDS"

record 'w ledger_env =
  leCurrent :: "('w, thrown, int) act"
  leSleep :: "rat \<Rightarrow> 'w \<Rightarrow> 'w"
  leNowMs :: "'w \<Rightarrow> rat"
  leNumText :: "rat \<Rightarrow> string"

text \<open>Fuel counts the polls.\<close>

fun waitLoop :: "'w ledger_env \<Rightarrow> rat \<Rightarrow> rat \<Rightarrow> int \<Rightarrow> rat \<Rightarrow> nat \<Rightarrow> 'w \<Rightarrow> ((thrown + int) \<times> 'w) option" where
  "waitLoop e timeout every initial deadline 0 w = None"
| "waitLoop e timeout every initial deadline (Suc fuel) w = (let w1 = leSleep e every w in
     if deadline \<le> leNowMs e w1 then Some (Inl (Sdk (JsError (''waitNextLedger timed out after '' @ leNumText e timeout @ ''ms''))), w1)
     else case leCurrent e w1 of (Inl x, w2) \<Rightarrow> Some (Inl x, w2)
       | (Inr l, w2) \<Rightarrow> if initial < l then Some (Inr l, w2) else waitLoop e timeout every initial deadline fuel w2)"

definition waitNextLedger :: "'w ledger_env \<Rightarrow> rat option \<Rightarrow> rat option \<Rightarrow> nat \<Rightarrow> 'w \<Rightarrow> ((thrown + int) \<times> 'w) option" where
  "waitNextLedger e timeoutMs everyMs fuel w = (let timeout = or_else timeoutMs 30000; every = or_else everyMs 2000 in
     case leCurrent e w of (Inl x, w1) \<Rightarrow> Some (Inl x, w1)
     | (Inr initial, w1) \<Rightarrow> waitLoop e timeout every initial (leNowMs e w1 + timeout) fuel w1)"

section \<open>The fee of a pair\<close>

record fee_state =
  fsPriceLast :: int
  fsVolatility :: int
  fsLastUpdated :: int
  fsCurrent :: int
  fsMin :: int
  fsMax :: int
  fsEmaAlpha :: int
  fsLastChanged :: int
  fsDecay :: int
  fsBaseline :: int

record fee_estimate =
  fePair :: string
  feCurrentBps :: int
  feBaselineBps :: int
  feMinBps :: int
  feMaxBps :: int
  feVolatility :: int
  feDecay :: int
  feUpdated :: int
  feStale :: bool

record fee_parameters =
  fpMin :: int
  fpMax :: int
  fpEmaAlpha :: int
  fpFlashBps :: int

text \<open>The module memoises decimals, and so does \<open>token-decimals.ts\<close> for all modules; a scan has a cursor of its
  own.\<close>

record fees_state = cursor_state +
  moduleDecimals :: "int js_map"
  tokenDecimals :: "int js_map"

record 'w fee_env =
  fvState :: "string \<Rightarrow> ('w, thrown, fee_state) act"
  fvDynamic :: "string \<Rightarrow> ('w, thrown, int) act"
  fvRouterFee :: "string \<Rightarrow> string \<Rightarrow> ('w, thrown, int) act"
  fvParameters :: "('w, thrown, fee_parameters) act"
  fvReserves :: "string \<Rightarrow> ('w, thrown, int \<times> int) act"
  fvTokens :: "string \<Rightarrow> ('w, thrown, string \<times> string) act"
  fvLpToken :: "string \<Rightarrow> ('w, thrown, string) act"
  fvBalance :: "string \<Rightarrow> string \<Rightarrow> ('w, thrown, int) act"
  fvSupply :: "string \<Rightarrow> ('w, thrown, int) act"
  fvDecimals :: "string \<Rightarrow> ('w, thrown, scval option) act"
  fvMetadata :: "string \<Rightarrow> ('w, thrown, int) act"
  fvLedger :: "('w, thrown, int) act"
  fvEvents :: "'w event_env"
  fvAddress :: addr_decoder
  fvNowMs :: "'w \<Rightarrow> int"
  fvValid :: "string \<Rightarrow> bool"
  fvNumText :: "rat \<Rightarrow> string"
  fvLocale :: "string \<Rightarrow> string \<Rightarrow> int"

definition STALE_SECONDS :: rat where
  "STALE_SECONDS = 3600"

definition getCurrentFee :: "'w fee_env \<Rightarrow> string \<Rightarrow> ('w, thrown, fee_estimate) act" where
  "getCurrentFee e p = bindW (liftW (validateAddress (fvValid e) p ''pairAddress'')) (\<lambda>_. bindW (fvState e p) (\<lambda>s w.
     retW \<lparr>fePair = p, feCurrentBps = fsCurrent s, feBaselineBps = fsBaseline s, feMinBps = fsMin s, feMaxBps = fsMax s,
       feVolatility = fsVolatility s, feDecay = fsDecay s, feUpdated = fsLastUpdated s,
       feStale = (STALE_SECONDS < of_int (fvNowMs e w div 1000 - fsLastUpdated s))\<rparr> w))"

definition getFeeForPair :: "'w fee_env \<Rightarrow> string \<Rightarrow> string \<Rightarrow> ('w, thrown, int) act" where
  "getFeeForPair e a b = bindW (liftW (validateAddress (fvValid e) a ''tokenA'')) (\<lambda>_.
     bindW (liftW (validateAddress (fvValid e) b ''tokenB'')) (\<lambda>_. fvRouterFee e a b))"

definition getFeeState :: "'w fee_env \<Rightarrow> string \<Rightarrow> ('w, thrown, fee_state) act" where
  "getFeeState e p = bindW (liftW (validateAddress (fvValid e) p ''pairAddress'')) (\<lambda>_. fvState e p)"

definition estimateSwapFee :: "'w fee_env \<Rightarrow> string \<Rightarrow> int \<Rightarrow> ('w, thrown, int \<times> int) act" where
  "estimateSwapFee e p amountIn = bindW (liftW (validateAddress (fvValid e) p ''pairAddress'')) (\<lambda>_.
     bindW (liftW (validatePositiveAmount amountIn ''amountIn'')) (\<lambda>_.
     bindW (fvDynamic e p) (\<lambda>bps. retW (bps, amountIn * bps sdiv 10000))))"

definition isStale :: "'w fee_env \<Rightarrow> string \<Rightarrow> rat option \<Rightarrow> ('w, thrown, bool) act" where
  "isStale e p maxAge = bindW (liftW (validateAddress (fvValid e) p ''pairAddress'')) (\<lambda>_. bindW (fvState e p) (\<lambda>s w.
     retW (or_else maxAge STALE_SECONDS < of_int (fvNowMs e w div 1000 - fsLastUpdated s)) w))"

definition getProtocolFeeParams :: "'w fee_env \<Rightarrow> ('w, thrown, fee_parameters) act" where
  "getProtocolFeeParams e = fvParameters e"

text \<open>All requests run; the first failure in the order of the list is what is thrown.\<close>

fun compareFees :: "'w fee_env \<Rightarrow> string list \<Rightarrow> ('w, thrown, fee_estimate list) act" where
  "compareFees e [] = retW []"
| "compareFees e (p # ps) = (\<lambda>w. case getCurrentFee e p w of (r, w1) \<Rightarrow> (case compareFees e ps w1 of (rs, w2) \<Rightarrow>
     (bindE r (\<lambda>x. bindE rs (\<lambda>xs. Inr (x # xs))), w2)))"

section \<open>Decimals\<close>

definition FALLBACK_TOKEN_DECIMALS :: int where
  "FALLBACK_TOKEN_DECIMALS = 7"

text \<open>\<open>getTokenDecimals\<close> of \<open>token-decimals.ts\<close>: a failed read is not remembered.\<close>

definition sharedDecimals :: "('x fees_state_scheme) fee_env \<Rightarrow> string \<Rightarrow> ('x fees_state_scheme, thrown, int) act" where
  "sharedDecimals e a w = (case js_get (tokenDecimals w) a of Some d \<Rightarrow> (Inr d, w)
     | None \<Rightarrow> catchW (bindW (fvMetadata e a) (\<lambda>d w. (Inr d, w\<lparr>tokenDecimals := js_set (tokenDecimals w) a d\<rparr>)))
         (\<lambda>_. retW FALLBACK_TOKEN_DECIMALS) w)"

definition clearTokenDecimalsCache :: "'x fees_state_scheme \<Rightarrow> 'x fees_state_scheme" where
  "clearTokenDecimalsCache w = w\<lparr>tokenDecimals := []\<rparr>"

text \<open>The method of the module: the read of the contract, then the shared one, and only 0 to 18 is accepted.\<close>

definition safeDecimals :: "int \<Rightarrow> int" where
  "safeDecimals d = (if 0 \<le> d \<and> d \<le> 18 then d else FALLBACK_TOKEN_DECIMALS)"

definition getTokenDecimals :: "('x fees_state_scheme) fee_env \<Rightarrow> string \<Rightarrow> ('x fees_state_scheme, thrown, int) act" where
  "getTokenDecimals e a w = (case js_get (moduleDecimals w) a of Some d \<Rightarrow> (Inr d, w)
     | None \<Rightarrow> bindW (catchW (bindW (fvDecimals e a) (\<lambda>r. retW (map_option decodeU32 r))) (\<lambda>_. retW None)) (\<lambda>d.
         bindW (case d of Some n \<Rightarrow> retW n | None \<Rightarrow> sharedDecimals e a) (\<lambda>n w.
           (Inr (safeDecimals n), w\<lparr>moduleDecimals := js_set (moduleDecimals w) a (safeDecimals n)\<rparr>))) w)"

section \<open>Revenue\<close>

record revenue_options =
  roFrom :: "rat option"
  roTo :: "rat option"
  roLimit :: "rat option"

record revenue_event =
  rvLedger :: int
  rvTimestamp :: int
  rvToken :: string
  rvDecimals :: int
  rvBps :: int
  rvStroops :: int
  rvDisplay :: rat

record token_revenue =
  trToken :: string
  trDecimals :: int
  trStroops :: int
  trDisplay :: rat

record pair_revenue =
  prPair :: string
  prStroops :: int
  prDisplay :: rat
  prByToken :: "token_revenue list"
  prCount :: nat
  prHistory :: "revenue_event list"

definition DEFAULT_REVENUE_WINDOW_LEDGERS :: int where
  "DEFAULT_REVENUE_WINDOW_LEDGERS = 518400"

definition DEFAULT_REVENUE_PAGE_LIMIT :: rat where
  "DEFAULT_REVENUE_PAGE_LIMIT = 200"

definition isWhole :: "rat \<Rightarrow> bool" where
  "isWhole q \<longleftrightarrow> q = of_int \<lfloor>q\<rfloor>"

definition validateRevenueWindow :: "(rat \<Rightarrow> string) \<Rightarrow> revenue_options \<Rightarrow> unit result" where
  "validateRevenueWindow text opts =
     (let bad = (\<lambda>x. case x of None \<Rightarrow> False | Some q \<Rightarrow> \<not> isWhole q \<or> q < 0); shown = (\<lambda>x. case x of Some q \<Rightarrow> text q | None \<Rightarrow> []) in
      if bad (roFrom opts) then Inl (ValidationError (''fromLedger must be a non-negative integer, got '' @ shown (roFrom opts)))
      else if bad (roTo opts) then Inl (ValidationError (''toLedger must be a non-negative integer, got '' @ shown (roTo opts)))
      else if roFrom opts \<noteq> None \<and> roTo opts \<noteq> None \<and> the (roTo opts) < the (roFrom opts)
      then Inl (ValidationError (''fromLedger ('' @ shown (roFrom opts) @ '') must not exceed toLedger ('' @ shown (roTo opts) @ '')''))
      else case roLimit opts of None \<Rightarrow> Inr ()
        | Some l \<Rightarrow> throw_if (\<not> isWhole l \<or> l < 1 \<or> MAX_EVENT_LIMIT < l)
            (ValidationError (''limit must be an integer between 1 and '' @ text MAX_EVENT_LIMIT @ '', got '' @ text l)))"

definition revenuePageLimit :: "rat option \<Rightarrow> rat" where
  "revenuePageLimit l = or_else l DEFAULT_REVENUE_PAGE_LIMIT"

definition ledgerTimestamp :: "int \<Rightarrow> int \<Rightarrow> int \<Rightarrow> int" where
  "ledgerTimestamp nowMs l currentLedger = ledgerToApproxTime l \<lparr>lhLedger = currentLedger, lhCloseTime = nowMs div 1000\<rparr>"

definition shown_amount :: "int \<Rightarrow> int \<Rightarrow> rat" where
  "shown_amount stroops decimals = of_int stroops / 10 ^ nat decimals"

record revenue_acc =
  acTotal :: int
  acTotals :: "int js_map"
  acHistory :: "revenue_event list"

text \<open>Only swap events carry what the loop reads; another one stops it with the error of converting \<open>undefined\<close>.\<close>

fun revenueLoop :: "('x fees_state_scheme) fee_env \<Rightarrow> int \<Rightarrow> int \<Rightarrow> coral_event list \<Rightarrow> revenue_acc \<Rightarrow> ('x fees_state_scheme, thrown, revenue_acc) act" where
  "revenueLoop e toLedger current [] a = retW a"
| "revenueLoop e toLedger current (SwapEvent b sender tin tout ain aout bps # evs) a =
     (if toLedger < evLedger b then revenueLoop e toLedger current evs a
      else (let stroops = ain * bps sdiv 10000 in
        if stroops \<le> 0 then revenueLoop e toLedger current evs a
        else bindW (getTokenDecimals e tin) (\<lambda>d w. revenueLoop e toLedger current evs
          \<lparr>acTotal = acTotal a + stroops, acTotals = js_set (acTotals a) tin (or_else (js_get (acTotals a) tin) 0 + stroops),
           acHistory = acHistory a @ [\<lparr>rvLedger = evLedger b,
             rvTimestamp = (if evTimestamp b \<noteq> 0 then evTimestamp b else ledgerTimestamp (fvNowMs e w) (evLedger b) current),
             rvToken = tin, rvDecimals = d, rvBps = bps, rvStroops = stroops, rvDisplay = shown_amount stroops d\<rparr>]\<rparr> w)))"
| "revenueLoop e toLedger current (ev # evs) a = (if toLedger < evLedger (event_base_of ev) then revenueLoop e toLedger current evs a
     else throwW (Sdk (JsError ''Cannot convert undefined to a BigInt'')))"

fun byToken :: "('x fees_state_scheme) fee_env \<Rightarrow> (string \<times> int) list \<Rightarrow> ('x fees_state_scheme, thrown, token_revenue list) act" where
  "byToken e [] = retW []"
| "byToken e ((t, s) # rest) = bindW (getTokenDecimals e t) (\<lambda>d. bindW (byToken e rest) (\<lambda>xs.
     retW (\<lparr>trToken = t, trDecimals = d, trStroops = s, trDisplay = shown_amount s d\<rparr> # xs)))"

definition revenue_cmp :: "(string \<Rightarrow> string \<Rightarrow> int) \<Rightarrow> token_revenue \<Rightarrow> token_revenue \<Rightarrow> int" where
  "revenue_cmp locale a b = (if trStroops b = trStroops a then locale (trToken a) (trToken b)
     else if trStroops a < trStroops b then 1 else -1)"

text \<open>The sort of the language is stable; insertion from the right is, too.\<close>

fun insert_by :: "('a \<Rightarrow> 'a \<Rightarrow> int) \<Rightarrow> 'a \<Rightarrow> 'a list \<Rightarrow> 'a list" where
  "insert_by cmp x [] = [x]"
| "insert_by cmp x (y # ys) = (if cmp x y \<le> 0 then x # y # ys else y # insert_by cmp x ys)"

definition sort_by :: "('a \<Rightarrow> 'a \<Rightarrow> int) \<Rightarrow> 'a list \<Rightarrow> 'a list" where
  "sort_by cmp xs = foldr (insert_by cmp) xs []"

definition pairRevenue :: "('x fees_state_scheme) fee_env \<Rightarrow> string \<Rightarrow> int \<Rightarrow> int \<Rightarrow> coral_event list \<Rightarrow> ('x fees_state_scheme, thrown, pair_revenue) act" where
  "pairRevenue e p toLedger current evs = bindW (revenueLoop e toLedger current evs \<lparr>acTotal = 0, acTotals = [], acHistory = []\<rparr>) (\<lambda>a.
     bindW (byToken e (js_entries (acTotals a))) (\<lambda>ts. let ranked = sort_by (revenue_cmp (fvLocale e)) ts in
     retW \<lparr>prPair = p, prStroops = acTotal a, prDisplay = sum_list (map trDisplay ranked), prByToken = ranked,
       prCount = length (acHistory a), prHistory = acHistory a\<rparr>))"

definition windowStart :: "rat option \<Rightarrow> int \<Rightarrow> int" where
  "windowStart from current = max MIN_START_LEDGER (case from of Some q \<Rightarrow> \<lfloor>q\<rfloor> | None \<Rightarrow> current - DEFAULT_REVENUE_WINDOW_LEDGERS)"

definition windowEnd :: "rat option \<Rightarrow> int \<Rightarrow> int" where
  "windowEnd to current = (case to of Some q \<Rightarrow> \<lfloor>q\<rfloor> | None \<Rightarrow> current)"

definition getFeeRevenue :: "('x fees_state_scheme) fee_env \<Rightarrow> nat \<Rightarrow> string \<Rightarrow> revenue_options \<Rightarrow> 'x fees_state_scheme \<Rightarrow>
    ((thrown + pair_revenue) \<times> 'x fees_state_scheme) option" where
  "getFeeRevenue e fuel p opts w =
     (case bindW (liftW (validateAddress (fvValid e) p ''pairAddress'')) (\<lambda>_.
        bindW (liftW (validateRevenueWindow (fvNumText e) opts)) (\<lambda>_. fvLedger e)) w of
       (Inl x, w1) \<Rightarrow> Some (Inl x, w1)
     | (Inr current, w1) \<Rightarrow> (let to = windowEnd (roTo opts) current in
         case typedScan (fvAddress e) (fvEvents e) \<lparr>tcContract = Some p, tcTopics = Some [''swap''], tcOptions = newCursorOptions None None\<rparr>
           fuel (Some (windowStart (roFrom opts) current)) (Some to) (Some (revenuePageLimit (roLimit opts))) (reset w1) of
           None \<Rightarrow> None
         | Some (Inl x, w2) \<Rightarrow> Some (Inl x, w2)
         | Some (Inr (evs, info), w2) \<Rightarrow> Some (pairRevenue e p to current evs w2)))"

section \<open>Yield and estimates\<close>

record lp_yield =
  lyPair :: string
  lyAddress :: string
  lyStroops :: int
  lyRevenue :: rat
  lyShare :: rat
  lyFeeShare :: rat
  lyValue :: rat
  lyApr :: rat

definition SHARE_SCALE :: int where
  "SHARE_SCALE = 10 ^ 12"

definition getLPYield :: "('x fees_state_scheme) fee_env \<Rightarrow> nat \<Rightarrow> string \<Rightarrow> string \<Rightarrow> revenue_options \<Rightarrow> 'x fees_state_scheme \<Rightarrow>
    ((thrown + lp_yield) \<times> 'x fees_state_scheme) option" where
  "getLPYield e fuel p lp opts w =
     (case bindW (liftW (validateAddress (fvValid e) p ''pairAddress'')) (\<lambda>_. bindW (liftW (validateAddress (fvValid e) lp ''lpAddress'')) (\<lambda>_.
        bindW (fvLpToken e p) (\<lambda>t. bindW (fvBalance e t lp) (\<lambda>bal. bindW (fvSupply e t) (\<lambda>held.
        bindW (fvReserves e p) (\<lambda>rs. bindW (fvTokens e p) (\<lambda>ts. retW (bal, held, rs, ts)))))))) w of
       (Inl x, w1) \<Rightarrow> Some (Inl x, w1)
     | (Inr (bal, held, (r0, r1), (t0, t1)), w1) \<Rightarrow> (case getFeeRevenue e fuel p opts w1 of
           None \<Rightarrow> None
         | Some (Inl x, w2) \<Rightarrow> Some (Inl x, w2)
         | Some (Inr revenue, w2) \<Rightarrow> Some (if held = 0 \<or> bal = 0
             then retW \<lparr>lyPair = p, lyAddress = lp, lyStroops = prStroops revenue, lyRevenue = prDisplay revenue, lyShare = 0,
               lyFeeShare = 0, lyValue = 0, lyApr = 0\<rparr> w2
             else (let ratio = of_int (bal * SHARE_SCALE sdiv held) / of_int SHARE_SCALE in
               bindW (getTokenDecimals e t0) (\<lambda>d0. bindW (getTokenDecimals e t1) (\<lambda>d1. bindW (fvLedger e) (\<lambda>current.
               let value = (shown_amount r0 d0 + shown_amount r1 d1) * ratio; feeShare = prDisplay revenue * ratio;
                 from = (case roFrom opts of Some q \<Rightarrow> \<lfloor>q\<rfloor> | None \<Rightarrow> max MIN_START_LEDGER (current - DEFAULT_REVENUE_WINDOW_LEDGERS));
                 days = of_int (ledgerToApproxTime (windowEnd (roTo opts) current) \<lparr>lhLedger = from, lhCloseTime = 0\<rparr>) / 86400
               in retW \<lparr>lyPair = p, lyAddress = lp, lyStroops = prStroops revenue, lyRevenue = prDisplay revenue, lyShare = ratio * 100,
                 lyFeeShare = feeShare, lyValue = value,
                 lyApr = (if 0 < days \<and> 0 < value then feeShare / value * (365 / days) * 100 else 0)\<rparr>))) w2))))"

record fee_breakdown =
  fbGas :: gas_estimate
  fbBps :: int
  fbStroops :: int
  fbTotal :: int
  fbTotalXLM :: string
  fbLedger :: int
  fbResources :: "(int \<times> int \<times> int) option"

definition extractPairAddress_fees :: "'o list \<Rightarrow> string option" where
  "extractPairAddress_fees ops = None"

text \<open>\<open>simulate\<close> answers success, error, fee and the resources when there are any.\<close>

definition getFeeEstimates :: "'w fee_env \<Rightarrow> ('o list \<Rightarrow> ('w, thrown, (bool \<times> string option \<times> string option) \<times> (int \<times> int \<times> int) option) act) \<Rightarrow>
    'o list \<Rightarrow> ('w, thrown, fee_breakdown) act" where
  "getFeeEstimates e simulate ops = bindW (simulate ops) (\<lambda>(s, _). bindW (liftW (estimateGas s)) (\<lambda>gas. bindW (fvLedger e) (\<lambda>ledger.
     bindW (case extractPairAddress_fees ops of None \<Rightarrow> retW (0, 0)
       | Some p \<Rightarrow> catchW (bindW (getFeeState e p) (\<lambda>s. retW (fsCurrent s, gasFee gas * fsCurrent s sdiv 10000))) (\<lambda>_. retW (0, 0)))
     (\<lambda>(bps, fee). bindW (catchW (bindW (simulate ops) (\<lambda>((ok, _, _), res). retW (if ok then res else None))) (\<lambda>_. retW None)) (\<lambda>res.
       retW \<lparr>fbGas = gas, fbBps = bps, fbStroops = fee, fbTotal = gasFee gas + fee, fbTotalXLM = formatStroopsAsXLM (gasFee gas + fee),
         fbLedger = ledger, fbResources = res\<rparr>)))))"

section \<open>Waiting for a ledger\<close>

text \<open>The deadline is passed after as many polls as fit in the time, because every sleep takes its time.\<close>

lemma waitLoop_ends:
  assumes "0 < every" and "\<And>w. leNowMs e w + every \<le> leNowMs e (leSleep e every w)"
    and "\<And>w r w'. leCurrent e w = (r, w') \<Longrightarrow> leNowMs e w \<le> leNowMs e w'"
    and "deadline \<le> leNowMs e w + every * of_nat fuel"
  shows "\<exists>r w'. waitLoop e timeout every initial deadline (Suc fuel) w = Some (r, w') \<and> (\<forall>l. r = Inr l \<longrightarrow> initial < l)"
  using assms(4)
proof (induction fuel arbitrary: w)
  case 0
  then show ?case using assms(1) assms(2)[of w] by (auto simp: Let_def)
next
  case (Suc fuel)
  let ?w1 = "leSleep e every w"
  obtain r w2 where r: "leCurrent e ?w1 = (r, w2)" by fastforce
  have "leNowMs e w + every \<le> leNowMs e w2" using assms(2)[of w] assms(3)[OF r] by linarith
  then have "deadline \<le> leNowMs e w2 + every * of_nat fuel" using Suc.prems by (simp add: algebra_simps)
  from Suc.IH[OF this] show ?case using r by (simp only: waitLoop.simps(2)[of e timeout every initial deadline "Suc fuel"] Let_def)
    (auto split: sum.splits)
qed

text \<open>Waiting ends: with a ledger later than the first, or with an error.\<close>

theorem wait_next_ledger_ends:
  assumes "0 < every" and "\<And>w. leNowMs e w + every \<le> leNowMs e (leSleep e every w)"
    and "\<And>w r w'. leCurrent e w = (r, w') \<Longrightarrow> leNowMs e w \<le> leNowMs e w'"
    and "timeout \<le> every * of_nat fuel" and "leCurrent e w = (Inr initial, w1)"
  shows "\<exists>r w'. waitNextLedger e (Some timeout) (Some every) (Suc fuel) w = Some (r, w') \<and> (\<forall>l. r = Inr l \<longrightarrow> initial < l)"
  using waitLoop_ends[OF assms(1-3), where deadline = "leNowMs e w1 + timeout" and w = w1 and fuel = fuel and timeout = timeout
    and initial = initial] assms(4,5)
  by (simp add: waitNextLedger_def or_else_def)

section \<open>Decimals\<close>

text \<open>Reading decimals never throws, the answer is between 0 and 18, and it is remembered.\<close>

lemma decimals_total:
  obtains d w' where "getTokenDecimals e a w = (Inr d, w')"
proof -
  have s: "\<exists>n w'. sharedDecimals e a u = (Inr n, w')" for u
    by (auto simp: sharedDecimals_def retW_def intro!: catchW_total split: option.splits)
  have c: "\<exists>v w'. catchW (bindW (fvDecimals e a) (\<lambda>r. retW (map_option decodeU32 r))) (\<lambda>_. retW None) w = (Inr v, w')"
    by (rule catchW_total) (simp add: retW_def)
  obtain v w1 where v: "catchW (bindW (fvDecimals e a) (\<lambda>r. retW (map_option decodeU32 r))) (\<lambda>_. retW None) w = (Inr v, w1)"
    using c by blast
  show ?thesis
  proof (cases "js_get (moduleDecimals w) a")
    case None
    obtain n w2 where "(case v of Some n \<Rightarrow> retW n | None \<Rightarrow> sharedDecimals e a) w1 = (Inr n, w2)"
      using s[of w1] by (cases v) (auto simp: retW_def)
    then show ?thesis using v None that by (simp add: getTokenDecimals_def bindW_def)
  qed (use that in \<open>simp add: getTokenDecimals_def\<close>)
qed

theorem decimals_remembered:
  assumes "getTokenDecimals e a w = (Inr d, w')" and "js_get (moduleDecimals w) a = None"
  shows "0 \<le> d \<and> d \<le> 18 \<and> getTokenDecimals e' a w' = (Inr d, w')"
proof -
  obtain n w1 where "d = safeDecimals n" "w' = w1\<lparr>moduleDecimals := js_set (moduleDecimals w1) a d\<rparr>"
    using assms by (auto simp: getTokenDecimals_def act_simps)
  then show ?thesis by (auto simp: getTokenDecimals_def js.put_wins safeDecimals_def FALLBACK_TOKEN_DECIMALS_def)
qed

section \<open>Revenue adds up\<close>

fun is_swap :: "coral_event \<Rightarrow> bool" where
  "is_swap (SwapEvent b s ti tout ai ao f) = True"
| "is_swap ev = False"

fun swap_fee :: "coral_event \<Rightarrow> int" where
  "swap_fee (SwapEvent b s ti tout ai ao f) = ai * f sdiv 10000"
| "swap_fee ev = 0"

fun swap_token :: "coral_event \<Rightarrow> string" where
  "swap_token (SwapEvent b s ti tout ai ao f) = ti"
| "swap_token ev = []"

definition counted :: "int \<Rightarrow> coral_event list \<Rightarrow> coral_event list" where
  "counted to evs = filter (\<lambda>ev. evLedger (event_base_of ev) \<le> to \<and> 0 < swap_fee ev) evs"

definition fee_of_token :: "string \<Rightarrow> coral_event list \<Rightarrow> int" where
  "fee_of_token t evs = sum_list (map swap_fee (filter (\<lambda>ev. swap_token ev = t) evs))"

lemma revenueLoop_exact:
  assumes "list_all is_swap evs" and "js_wf (acTotals a)"
  shows "\<exists>a' w'. revenueLoop e to current evs a w = (Inr a', w') \<and> js_wf (acTotals a') \<and>
    acTotal a' = acTotal a + sum_list (map swap_fee (counted to evs)) \<and>
    map rvStroops (acHistory a') = map rvStroops (acHistory a) @ map swap_fee (counted to evs) \<and>
    (\<forall>t. or_else (js_get (acTotals a') t) 0 = or_else (js_get (acTotals a) t) 0 + fee_of_token t (counted to evs)) \<and>
    (\<forall>t. js_get (acTotals a') t = None \<longrightarrow> js_get (acTotals a) t = None \<and> fee_of_token t (counted to evs) = 0)"
  using assms
proof (induction evs arbitrary: a w)
  case Nil
  then show ?case by (simp add: retW_def counted_def fee_of_token_def)
next
  case (Cons ev evs)
  obtain b s ti tout ai ao f where ev: "ev = SwapEvent b s ti tout ai ao f" using Cons.prems(1) by (cases ev) auto
  have swaps: "list_all is_swap evs" using Cons.prems(1) by simp
  show ?case
  proof (cases "evLedger b \<le> to \<and> 0 < ai * f sdiv 10000")
    case False
    then have "counted to (ev # evs) = counted to evs" by (simp add: counted_def ev)
    moreover have "revenueLoop e to current (ev # evs) a w = revenueLoop e to current evs a w"
      using False by (auto simp: ev Let_def)
    ultimately show ?thesis using Cons.IH[OF swaps Cons.prems(2), of w] by simp
  next
    case True
    let ?s = "ai * f sdiv 10000"
    have c: "counted to (ev # evs) = ev # counted to evs" using True by (simp add: counted_def ev)
    obtain d w1 where d: "getTokenDecimals e ti w = (Inr d, w1)" by (rule decimals_total)
    define h where "h = \<lparr>rvLedger = evLedger b,
      rvTimestamp = (if evTimestamp b \<noteq> 0 then evTimestamp b else ledgerTimestamp (fvNowMs e w1) (evLedger b) current),
      rvToken = ti, rvDecimals = d, rvBps = f, rvStroops = ?s, rvDisplay = shown_amount ?s d\<rparr>"
    define a1 where "a1 = \<lparr>acTotal = acTotal a + ?s, acTotals = js_set (acTotals a) ti (or_else (js_get (acTotals a) ti) 0 + ?s),
      acHistory = acHistory a @ [h]\<rparr>"
    have step: "revenueLoop e to current (ev # evs) a w = revenueLoop e to current evs a1 w1"
      using True d by (simp add: ev Let_def bindW_def a1_def h_def)
    have "js_wf (acTotals a1)" using Cons.prems(2) by (simp add: a1_def js_wf_set)
    from Cons.IH[OF swaps this, of w1] obtain a' w' where ih: "revenueLoop e to current evs a1 w1 = (Inr a', w')" "js_wf (acTotals a')"
      "acTotal a' = acTotal a1 + sum_list (map swap_fee (counted to evs))"
      "map rvStroops (acHistory a') = map rvStroops (acHistory a1) @ map swap_fee (counted to evs)"
      "\<And>t. or_else (js_get (acTotals a') t) 0 = or_else (js_get (acTotals a1) t) 0 + fee_of_token t (counted to evs)"
      "\<And>t. js_get (acTotals a') t = None \<Longrightarrow> js_get (acTotals a1) t = None \<and> fee_of_token t (counted to evs) = 0" by blast
    have tok: "fee_of_token t (ev # counted to evs) = (if t = ti then ?s else 0) + fee_of_token t (counted to evs)" for t
      by (simp add: fee_of_token_def ev)
    have get: "js_get (acTotals a1) t = (if t = ti then Some (or_else (js_get (acTotals a) ti) 0 + ?s) else js_get (acTotals a) t)" for t
      by (auto simp: a1_def js_get_set)
    have "or_else (js_get (acTotals a') t) 0 = or_else (js_get (acTotals a) t) 0 + fee_of_token t (ev # counted to evs)" for t
      using ih(5)[of t] get[of t] tok[of t] by (auto simp: or_else_def)
    moreover have "js_get (acTotals a) t = None \<and> fee_of_token t (ev # counted to evs) = 0" if "js_get (acTotals a') t = None" for t
      using ih(6)[OF that] get[of t] tok[of t] by (auto split: if_splits)
    ultimately show ?thesis using ih(1-4) unfolding step c
      by (intro exI[of _ a'] exI[of _ w']) (simp add: a1_def h_def ev)
  qed
qed

lemma byToken_exact: "\<exists>ts w'. byToken e es w = (Inr ts, w') \<and> map trToken ts = map fst es \<and> map trStroops ts = map snd es"
proof (induction es arbitrary: w)
  case (Cons x es)
  obtain t s where x: "x = (t, s)" by (cases x)
  obtain d w1 where d: "getTokenDecimals e t w = (Inr d, w1)" by (rule decimals_total)
  obtain ts w2 where "byToken e es w1 = (Inr ts, w2)" "map trToken ts = map fst es" "map trStroops ts = map snd es"
    using Cons.IH by blast
  then show ?case using d by (simp add: x bindW_def retW_def)
qed (simp add: retW_def)

lemma insert_by_mset: "mset (insert_by cmp x ys) = add_mset x (mset ys)"
  by (induction ys) auto

lemma sort_by_mset: "mset (sort_by cmp xs) = mset xs"
  unfolding sort_by_def by (induction xs) (auto simp: insert_by_mset)

lemma sort_by_sorted:
  assumes "\<And>x y. cmp x y \<le> 0 \<or> cmp y x \<le> 0" and "\<And>x y z. cmp x y \<le> 0 \<Longrightarrow> cmp y z \<le> 0 \<Longrightarrow> cmp x z \<le> 0"
  shows "sorted_wrt (\<lambda>x y. cmp x y \<le> 0) (sort_by cmp xs)"
proof -
  have "sorted_wrt (\<lambda>x y. cmp x y \<le> 0) (insert_by cmp x ys)" if "sorted_wrt (\<lambda>x y. cmp x y \<le> 0) ys" for x ys
    using that
  proof (induction ys)
    case (Cons y ys)
    have "set (insert_by cmp x ys) = insert x (set ys)" for ys
      using insert_by_mset[of cmp x ys] by (metis set_mset_mset set_mset_add_mset_insert)
    then show ?case using Cons assms(1)[of x y] assms(2) by auto
  qed simp
  then show ?thesis unfolding sort_by_def by (induction xs) auto
qed

lemma revenue_adds_up_lemma:
  assumes "list_all is_swap evs"
  shows "\<exists>r w'. pairRevenue e p to current evs w = (Inr r, w') \<and>
    prStroops r = sum_list (map swap_fee (counted to evs)) \<and> map rvStroops (prHistory r) = map swap_fee (counted to evs) \<and>
    prCount r = length (counted to evs) \<and> distinct (map trToken (prByToken r)) \<and>
    (\<forall>x \<in> set (prByToken r). trStroops x = fee_of_token (trToken x) (counted to evs)) \<and>
    prStroops r = sum_list (map trStroops (prByToken r))"
proof -
  let ?a0 = "\<lparr>acTotal = 0, acTotals = [], acHistory = []\<rparr>" and ?c = "counted to evs"
  obtain a w1 where a: "revenueLoop e to current evs ?a0 w = (Inr a, w1)" "js_wf (acTotals a)"
    "acTotal a = sum_list (map swap_fee ?c)" "map rvStroops (acHistory a) = map swap_fee ?c"
    "\<And>t. or_else (js_get (acTotals a) t) 0 = fee_of_token t ?c"
    "\<And>t. js_get (acTotals a) t = None \<Longrightarrow> fee_of_token t ?c = 0"
    using revenueLoop_exact[OF assms, of ?a0 e to current w] by (auto simp: or_else_def)
  obtain ts w2 where ts: "byToken e (js_entries (acTotals a)) w1 = (Inr ts, w2)" "map trToken ts = map fst (js_entries (acTotals a))"
    "map trStroops ts = map snd (js_entries (acTotals a))" using byToken_exact by blast
  let ?r = "sort_by (revenue_cmp (fvLocale e)) ts"
  have each: "trStroops x = fee_of_token (trToken x) ?c" if "x \<in> set ts" for x
  proof -
    from that obtain i where i: "i < length ts" "x = ts ! i" by (auto simp: in_set_conv_nth)
    have len: "length ts = length (js_entries (acTotals a))" using ts(2) by (metis length_map)
    have "js_entries (acTotals a) ! i = (trToken x, trStroops x)"
      using ts(2,3) i len by (metis nth_map prod.collapse)
    then have "js_get (acTotals a) (trToken x) = Some (trStroops x)" using i len a(2) by (metis js_entry_get nth_mem)
    then show ?thesis using a(5)[of "trToken x"] by (simp add: or_else_def)
  qed
  have dist: "distinct (map trToken ts)" using ts(2) a(2) by (simp add: js_wf_def)
  have total: "sum_list (map trStroops ts) = sum_list (map swap_fee ?c)"
  proof -
    have "sum_list (map trStroops ts) = (\<Sum>t \<in> set (map trToken ts). fee_of_token t ?c)"
      using dist each by (simp add: sum_list_distinct_conv_sum_set distinct_map sum.reindex cong: map_cong)
    also have "\<dots> = (\<Sum>t \<in> set (map trToken ts) \<union> swap_token ` set ?c. fee_of_token t ?c)"
    proof (rule sum.mono_neutral_left)
      show "\<forall>t \<in> (set (map trToken ts) \<union> swap_token ` set ?c) - set (map trToken ts). fee_of_token t ?c = 0"
        using a(6) ts(2) by (auto simp: js_get_None)
    qed auto
    also have "\<dots> = sum_list (map swap_fee ?c)"
    proof -
      have "(\<Sum>t \<in> T. fee_of_token t xs) = sum_list (map swap_fee xs)" if "finite T" "swap_token ` set xs \<subseteq> T" for T xs
        using that(2)
      proof (induction xs)
        case (Cons x xs)
        have "(\<Sum>t \<in> T. fee_of_token t (x # xs)) = (\<Sum>t \<in> T. (if t = swap_token x then swap_fee x else 0) + fee_of_token t xs)"
          by (rule sum.cong) (auto simp: fee_of_token_def)
        then show ?case using Cons that(1) by (simp add: sum.distrib)
      qed (simp add: fee_of_token_def)
      then show ?thesis by simp
    qed
    finally show ?thesis .
  qed
  have perm: "mset ?r = mset ts" by (rule sort_by_mset)
  then have "sum_list (map trStroops ?r) = sum_list (map trStroops ts)" "set ?r = set ts"
    by (metis mset_map sum_mset_sum_list, metis mset_eq_setD)
  moreover have "distinct (map trToken ?r)" using perm dist by (metis mset_eq_imp_distinct_iff mset_map)
  moreover have "length (acHistory a) = length ?c" using a(4) by (metis length_map)
  ultimately show ?thesis using a(1,3,4) ts(1) each total by (simp add: pairRevenue_def bindW_def retW_def Let_def)
qed

text \<open>The revenue of swaps never fails and adds up: the total is the sum of the fees of the swaps up to the last
  ledger, the history has them in order, every token is listed once with the sum of its fees, and the tokens make
  up the total.\<close>

theorem revenue_adds_up:
  assumes "list_all is_swap evs"
  shows "\<exists>r w'. pairRevenue e p to current evs w = (Inr r, w') \<and>
    prStroops r = sum_list (map swap_fee (counted to evs)) \<and> map rvStroops (prHistory r) = map swap_fee (counted to evs) \<and>
    prCount r = length (counted to evs) \<and> distinct (map trToken (prByToken r)) \<and>
    (\<forall>x \<in> set (prByToken r). trStroops x = fee_of_token (trToken x) (counted to evs)) \<and>
    prStroops r = sum_list (map trStroops (prByToken r))"
  by (rule revenue_adds_up_lemma[OF assms])

section \<open>Revenue of a log\<close>

lemma decoded_base: "decodeParts addr allowed b topics v = Inr (Some c) \<Longrightarrow> event_base_of c = b"
  by (auto simp: decodeParts_def parseSwap_def parseLiquidity_def parseFlashLoan_def parseMint_def parseBurn_def parseSync_def
      parseFeeUpdate_def result_simps map_sum_def split: list.splits sum.splits if_splits)

lemma decoded_ledger: "fromEventResponse addr allowed ev = Some c \<Longrightarrow> evLedger (event_base_of c) = or_zero (erLedger ev)"
  by (auto simp: fromEventResponse_def dest!: decoded_base split: if_splits option.splits sum.splits)

definition decoded :: "addr_decoder \<Rightarrow> string \<Rightarrow> raw_event list \<Rightarrow> coral_event list" where
  "decoded addr p evs = List.map_filter (\<lambda>ev. fromEventResponse addr [p] (event_response.truncate ev)) evs"

lemma counted_decoded:
  assumes "list_all (\<lambda>ev. erLedger ev \<noteq> None) evs"
  shows "counted to (decoded addr p evs) = counted to (decoded addr p (filter (within_ledger (Some to)) evs))"
  using assms
proof (induction evs)
  case (Cons ev evs)
  have "evLedger (event_base_of c) = led ev" if "fromEventResponse addr [p] (event_response.truncate ev) = Some c" for c
    using decoded_ledger[OF that] Cons.prems by (auto simp: led_def or_zero_def event_response.defs split: option.splits)
  then show ?case using Cons by (auto simp: decoded_def counted_def within_ledger_def List.map_filter_simps split: option.splits)
qed simp


section \<open>Estimates and shares\<close>

text \<open>No operation is ever recognised as one of a pair, so the protocol fee of an estimate is zero.\<close>

theorem protocol_fee_is_zero:
  assumes "getFeeEstimates e simulate ops w = (Inr b, w')"
  shows "fbBps b = 0 \<and> fbStroops b = 0 \<and> fbTotal b = gasFee (fbGas b)"
  using assms by (auto simp: getFeeEstimates_def extractPairAddress_fees_def act_simps split: prod.splits)

text \<open>The share of a provider is the part of the supply he holds, rounded down to a billionth of a percent, and the
  fees ascribed to him are that part of the revenue.\<close>

theorem yield_is_share:
  assumes "getLPYield e fuel p lp opts w = Some (Inr y, w')"
    and "\<And>t u r u'. fvBalance e t lp u = (Inr r, u') \<Longrightarrow> r = bal" and "\<And>t u r u'. fvSupply e t u = (Inr r, u') \<Longrightarrow> r = issued"
    and "0 \<le> bal" and "bal \<le> issued" and "0 < issued"
  shows "0 \<le> lyShare y \<and> lyShare y \<le> 100 \<and> lyShare y \<le> of_int bal / of_int issued * 100 \<and>
    of_int bal / of_int issued * 100 < lyShare y + 1 / 10 ^ 10 \<and> lyFeeShare y = lyRevenue y * (lyShare y / 100)"
proof -
  define q where "q = bal * SHARE_SCALE sdiv issued"
  have scale: "SHARE_SCALE = 10 ^ 12" by (simp add: SHARE_SCALE_def)
  have qd: "q = bal * 10 ^ 12 div issued" using assms(4,6) by (simp add: q_def scale sdiv_nonneg)
  have q0: "0 \<le> q" using assms(4,6) by (simp add: qd div_int_pos_iff)
  have lo: "q * issued \<le> bal * 10 ^ 12" unfolding qd by (rule div_mult_le_int[OF assms(6)])
  have hi: "bal * 10 ^ 12 < (q + 1) * issued" unfolding qd by (rule lt_div_mult_int[OF assms(6)])
  have lo': "(of_int q / 10 ^ 12 :: rat) \<le> of_int bal / of_int issued"
  proof -
    have "(of_int (q * issued) :: rat) \<le> of_int (bal * 10 ^ 12)" using lo by (simp only: of_int_le_iff)
    then show ?thesis using assms(6) by (simp add: field_simps)
  qed
  have hi': "(of_int bal / of_int issued :: rat) < (of_int q + 1) / 10 ^ 12"
  proof -
    have "(of_int (bal * 10 ^ 12) :: rat) < of_int ((q + 1) * issued)" using hi by (simp only: of_int_less_iff)
    then show ?thesis using assms(6) by (simp add: field_simps)
  qed
  have one: "(of_int bal / of_int issued :: rat) \<le> 1" using assms(5,6) by simp
  have "(lyShare y = of_int q / 10 ^ 12 * 100 \<and> lyFeeShare y = lyRevenue y * (of_int q / 10 ^ 12)) \<or>
      (bal = 0 \<and> lyShare y = 0 \<and> lyFeeShare y = 0)"
    using assms(1,6)
    by (auto simp: getLPYield_def act_simps q_def scale Let_def split: prod.splits sum.splits option.splits if_splits
        dest!: assms(2,3))
  then show ?thesis
  proof
    assume s: "lyShare y = of_int q / 10 ^ 12 * 100 \<and> lyFeeShare y = lyRevenue y * (of_int q / 10 ^ 12)"
    define x b :: rat where "x = of_int q / 10 ^ 12" and "b = of_int bal / of_int issued"
    have "0 \<le> x" "x \<le> b" "b \<le> 1" "b < x + 1 / 10 ^ 12"
      using q0 lo' hi' one by (simp_all add: x_def b_def add_divide_distrib)
    then show ?thesis using s unfolding x_def[symmetric] b_def[symmetric] by auto
  qed auto
qed

section \<open>Runs\<close>

definition tick_env :: "int ledger_env" where
  "tick_env = \<lparr>leCurrent = \<lambda>w. (Inr (w div 5000), w), leSleep = \<lambda>d w. w + \<lceil>d\<rceil>, leNowMs = \<lambda>w. of_int w, leNumText = \<lambda>q. []\<rparr>"

theorem wait_next_ledger_ends_witness:
  "\<exists>r w'. waitNextLedger tick_env (Some 30000) (Some 2000) 16 0 = Some (r, w') \<and> (\<nexists>l. r = Inr l \<and> l \<le> 0)"
proof -
  have "\<exists>r w'. waitNextLedger tick_env (Some 30000) (Some 2000) (Suc 15) 0 = Some (r, w') \<and> (\<forall>l. r = Inr l \<longrightarrow> 0 < l)"
    by (rule wait_next_ledger_ends) (auto simp: tick_env_def)
  then show ?thesis by (auto simp: numeral_eq_Suc)
qed

definition sample_fees :: "fees_state fee_env" where
  "sample_fees = \<lparr>fvState = \<lambda>p. retW \<lparr>fsPriceLast = 0, fsVolatility = 0, fsLastUpdated = 0, fsCurrent = 30, fsMin = 5, fsMax = 100,
     fsEmaAlpha = 1, fsLastChanged = 0, fsDecay = 1, fsBaseline = 30\<rparr>, fvDynamic = \<lambda>p. retW 30, fvRouterFee = \<lambda>a b. retW 30,
     fvParameters = retW \<lparr>fpMin = 5, fpMax = 100, fpEmaAlpha = 1, fpFlashBps = 5\<rparr>, fvReserves = \<lambda>p. retW (1000, 2000),
     fvTokens = \<lambda>p. retW (''A'', ''B''), fvLpToken = \<lambda>p. retW ''L'', fvBalance = \<lambda>t a. retW 1, fvSupply = \<lambda>t. retW 3,
     fvDecimals = \<lambda>a. retW (Some (ScvU32 6)), fvMetadata = \<lambda>a. retW 7, fvLedger = retW 100, fvEvents = log_env True [],
     fvAddress = \<lambda>v. Inr ''G'', fvNowMs = \<lambda>w. 0, fvValid = \<lambda>a. True, fvNumText = \<lambda>q. [], fvLocale = \<lambda>a b. 0\<rparr>"

definition fresh_fees :: fees_state where
  "fresh_fees = \<lparr>cursorAt = None, moduleDecimals = [], tokenDecimals = []\<rparr>"

theorem decimals_remembered_witness:
  "\<exists>w'. getTokenDecimals sample_fees ''A'' fresh_fees = (Inr 6, w') \<and> getTokenDecimals sample_fees ''A'' w' = (Inr 6, w')"
proof -
  obtain w' where "getTokenDecimals sample_fees ''A'' fresh_fees = (Inr 6, w')"
    by (simp add: getTokenDecimals_def sample_fees_def fresh_fees_def bindW_def catchW_def retW_def safeDecimals_def)
  moreover have "js_get (moduleDecimals fresh_fees) ''A'' = None" by (simp add: fresh_fees_def)
  ultimately show ?thesis using decimals_remembered by metis
qed

definition two_swaps :: "coral_event list" where
  "two_swaps = map (\<lambda>n. SwapEvent \<lparr>evContract = ''P'', evLedger = n, evTimestamp = 1, evTxHash = ''h''\<rparr> ''G'' ''A'' ''B'' 20000 1 30) [9, 12]"

theorem revenue_adds_up_witness:
  "\<exists>r w'. pairRevenue sample_fees ''P'' 10 10 two_swaps fresh_fees = (Inr r, w') \<and> prStroops r = 60 \<and> prCount r = 1"
proof -
  have "list_all is_swap two_swaps" by (simp add: two_swaps_def)
  from revenue_adds_up[OF this, where e = sample_fees and p = "''P''" and to = 10 and current = 10 and w = fresh_fees] show ?thesis
    by (auto simp: counted_def two_swaps_def sdiv_nonneg)
qed

theorem protocol_fee_is_zero_witness:
  "\<exists>b w'. getFeeEstimates sample_fees (\<lambda>ops. retW ((True, None, Some ''100''), None)) [()] fresh_fees = (Inr b, w') \<and> fbStroops b = 0"
proof -
  obtain b w' where "getFeeEstimates sample_fees (\<lambda>ops. retW ((True, None, Some ''100''), None)) [()] fresh_fees = (Inr b, w')"
    by (simp add: getFeeEstimates_def bindW_def retW_def liftW_def estimateGas_def Let_def extractPairAddress_fees_def catchW_def sample_fees_def)
  then show ?thesis using protocol_fee_is_zero by metis
qed


lemma no_revenue: "\<exists>w'. getFeeRevenue sample_fees 1 ''P'' \<lparr>roFrom = None, roTo = None, roLimit = None\<rparr> fresh_fees =
    Some (Inr \<lparr>prPair = ''P'', prStroops = 0, prDisplay = 0, prByToken = [], prCount = 0, prHistory = []\<rparr>, w')"
  by (simp add: getFeeRevenue_def bindW_def liftW_def retW_def sample_fees_def validateAddress_def validateRevenueWindow_def Let_def
      typedScan_def tc_contracts_def scan_def windowStart_def windowEnd_def MIN_START_LEDGER_def DEFAULT_REVENUE_WINDOW_LEDGERS_def
      revenuePageLimit_def or_else_def DEFAULT_REVENUE_PAGE_LIMIT_def MAX_EVENT_LIMIT_def log_env_def log_page_def takePage_def
      position_def page_request_def scan_start_def scan_answer_def pairRevenue_def sort_by_def List.map_filter_simps)

theorem yield_is_share_witness:
  "\<exists>y w'. getLPYield sample_fees 1 ''P'' ''G'' \<lparr>roFrom = None, roTo = None, roLimit = None\<rparr> fresh_fees = Some (Inr y, w') \<and>
     0 \<le> lyShare y \<and> lyShare y \<le> 100"
proof -
  obtain w1 where w1: "getFeeRevenue sample_fees 1 ''P'' \<lparr>roFrom = None, roTo = None, roLimit = None\<rparr> fresh_fees =
      Some (Inr \<lparr>prPair = ''P'', prStroops = 0, prDisplay = 0, prByToken = [], prCount = 0, prHistory = []\<rparr>, w1)"
    using no_revenue by blast
  obtain d0 w2 where d0: "getTokenDecimals sample_fees ''A'' w1 = (Inr d0, w2)" by (rule decimals_total)
  obtain d1 w3 where d1: "getTokenDecimals sample_fees ''B'' w2 = (Inr d1, w3)" by (rule decimals_total)
  have env: "fvLpToken sample_fees p = retW ''L''" "fvBalance sample_fees t a = retW 1" "fvSupply sample_fees t = retW 3"
    "fvReserves sample_fees p = retW (1000, 2000)" "fvTokens sample_fees p = retW (''A'', ''B'')" "fvLedger sample_fees = retW 100"
    "validateAddress (fvValid sample_fees) ''P'' n = Inr ()" "validateAddress (fvValid sample_fees) ''G'' n = Inr ()" for p t a n
    by (simp_all add: sample_fees_def validateAddress_def) (simp_all add: trim_def is_space_def)
  obtain y w' where y: "getLPYield sample_fees 1 ''P'' ''G'' \<lparr>roFrom = None, roTo = None, roLimit = None\<rparr> fresh_fees = Some (Inr y, w')"
    using w1 d0 d1 by (simp add: getLPYield_def bindW_def env liftW_def retW_def Let_def)
  from yield_is_share[OF y, of 1 3] show ?thesis using y by (auto simp: env retW_def)
qed

end
