(* ===== verification/FlashLoans.thy ===== *)
theory FlashLoans
  imports Fees Dca
begin

text \<open>
  \<open>modules/flash-loan.ts\<close>, \<open>contracts/flash-receiver.ts\<close> and \<open>contracts/reserve-conservation.ts\<close>: the fee and
  the repayment of a flash loan, its execution, and the check of the pool's product. The contracts, the server and
  the building of operations are in \<open>flash_env\<close>; building the probe of a receiver may fail.
\<close>

section \<open>Fees and repayment\<close>

record flash_config =
  fcFeeBps :: int
  fcLocked :: bool
  fcFloor :: int

record flash_estimate =
  flEstToken :: string
  flEstAmount :: int
  flEstBps :: int
  flEstFee :: int
  flEstFloor :: int

record flash_request =
  flPair :: string
  flToken :: string
  flAmount :: int
  flReceiver :: string
  flData :: string

datatype flash_call = FlashLoanCall string string string int string string | ProbeCall string

text \<open>A contract event as the code reads it: whether it is one of a contract, and topics and data of a body of
  version 0. The data is what the conversion makes of it, or the error it throws.\<close>

record raw_flash =
  rfContract :: bool
  rfBody :: "(scval list \<times> (thrown + native)) option"

record flash_response = response +
  frEvents :: "raw_flash list option"
  frTx :: tx_response

record 'w flash_env =
  fnConfig :: "string \<Rightarrow> ('w, thrown, flash_config) act"
  fnReserves :: "string \<Rightarrow> ('w, thrown, int \<times> int) act"
  fnTokens :: "string \<Rightarrow> ('w, thrown, string \<times> string) act"
  fnProbe :: "string \<Rightarrow> flash_call result"
  fnSimulate :: "flash_call list \<Rightarrow> ('w, thrown, bool \<times> string option \<times> string option) act"
  fnSubmit :: "flash_call list \<Rightarrow> ('w, thrown, sdk_result) act"
  fnGet :: "string \<Rightarrow> ('w, thrown, flash_response) act"
  fnPublicKey :: string
  fnFees :: "'w fee_env"
  fnAddress :: addr_decoder
  fnValid :: "string \<Rightarrow> bool"

definition calculateRepayment :: "int \<Rightarrow> int \<Rightarrow> int" where
  "calculateRepayment amt bps = amt + amt * bps sdiv 10000"

definition validateFeeFloor :: "int \<Rightarrow> int \<Rightarrow> bool" where
  "validateFeeFloor bps least \<longleftrightarrow> least \<le> bps"

definition flashFeeFloorBps :: int where
  "flashFeeFloorBps = 5"

definition flash_locked :: sdk_error where
  "flash_locked = FlashLoanError ''Flash loans are currently disabled for this pair'' None"

definition estimateFee :: "'w flash_env \<Rightarrow> string \<Rightarrow> string \<Rightarrow> int \<Rightarrow> ('w, thrown, flash_estimate) act" where
  "estimateFee e p token amt = bindW (liftW (validateAddress (fnValid e) p ''pairAddress'')) (\<lambda>_.
     bindW (liftW (validateAddress (fnValid e) token ''token'')) (\<lambda>_. bindW (liftW (validatePositiveAmount amt ''amount'')) (\<lambda>_.
     bindW (fnConfig e p) (\<lambda>c. if fcLocked c then throwW (Sdk flash_locked)
       else let fee = amt * fcFeeBps c sdiv 10000 in
         retW \<lparr>flEstToken = token, flEstAmount = amt, flEstBps = fcFeeBps c,
           flEstFee = (if fcFloor c < fee then fee else fcFloor c), flEstFloor = fcFloor c\<rparr>))))"

datatype cheaper = CheaperFlash | CheaperSwap | CheaperEqual

definition flashCompare :: "'w flash_env \<Rightarrow> string \<Rightarrow> int \<Rightarrow> ('w, thrown, int \<times> int \<times> cheaper) act" where
  "flashCompare e p amt = bindW (liftW (validateAddress (fnValid e) p ''pair'')) (\<lambda>_.
     bindW (liftW (validatePositiveAmount amt ''amount'')) (\<lambda>_.
     bindW (fnConfig e p) (\<lambda>c. bindW (estimateSwapFee (fnFees e) p amt) (\<lambda>(_, swapFee).
     let flashFee = amt * fcFeeBps c sdiv 10000 in
     retW (flashFee, swapFee, if flashFee < swapFee then CheaperFlash else if swapFee < flashFee then CheaperSwap else CheaperEqual)))))"

definition getConfig :: "'w flash_env \<Rightarrow> string \<Rightarrow> ('w, thrown, flash_config) act" where
  "getConfig e p = fnConfig e p"

definition isAvailable :: "'w flash_env \<Rightarrow> string \<Rightarrow> ('w, thrown, bool) act" where
  "isAvailable e p = catchW (bindW (getConfig e p) (\<lambda>c. retW (\<not> fcLocked c))) (\<lambda>_. retW False)"

definition getMaxBorrowable :: "'w flash_env \<Rightarrow> string \<Rightarrow> string \<Rightarrow> ('w, thrown, int) act" where
  "getMaxBorrowable e p token = bindW (fnReserves e p) (\<lambda>(r0, r1). bindW (fnTokens e p) (\<lambda>(t0, t1).
     let reserve = (if t0 = token then r0 else r1) in retW (reserve - reserve sdiv 100)))"

section \<open>The receiver\<close>

definition missing_interface :: "string \<Rightarrow> sdk_error" where
  "missing_interface r = FlashLoanError (''Receiver contract at '' @ r @ '' does not implement the on_flash_loan interface'') None"

text \<open>Only an error of the class \<open>FlashLoanError\<close> leaves the check.\<close>

fun is_flash_error :: "thrown \<Rightarrow> bool" where
  "is_flash_error (Sdk (FlashLoanError m h)) = True"
| "is_flash_error (Sdk (FlashLoanFailedError m h)) = True"
| "is_flash_error t = False"

definition verifyReceiverInterface :: "'w flash_env \<Rightarrow> string \<Rightarrow> ('w, thrown, unit) act" where
  "verifyReceiverInterface e r = catchW (bindW (liftW (fnProbe e r)) (\<lambda>op. bindW (fnSimulate e [op]) (\<lambda>(ok, err, _).
     case err of Some m \<Rightarrow> if \<not> ok \<and> (includes_str m ''unknown function'' \<or> includes_str m ''function not found'' \<or> includes_str m ''on_flash_loan'')
         then throwW (Sdk (missing_interface r)) else retW ()
     | None \<Rightarrow> retW ()))) (\<lambda>x. if is_flash_error x then throwW x else retW ())"

section \<open>Events of a loan\<close>

record executed_event =
  exBorrowed :: int
  exFee :: int
  exCallback :: string
  exToken :: string

record failed_event =
  fdBorrowed :: int
  fdToken :: string
  fdReason :: string

definition topicSymbol :: "scval \<Rightarrow> string" where
  "topicSymbol t = (case t of ScvSymbol s \<Rightarrow> s | _ \<Rightarrow> [])"

text \<open>\<open>data[k]\<close> throws on \<open>null\<close>; the first key that is there counts, else the default.\<close>

fun field_text :: "native \<Rightarrow> string list \<Rightarrow> string \<Rightarrow> string" where
  "field_text v [] d = d"
| "field_text v (k # ks) d = (case nget v k of Some x \<Rightarrow> native_text x | None \<Rightarrow> field_text v ks d)"

definition executedOf :: "native \<Rightarrow> executed_event result" where
  "executedOf v = (if v = NNull then Inl (JsError ''Cannot read properties of null'')
     else bindE (bigint_of_text (field_text v [''amount'', ''borrowed_amount''] ''0'')) (\<lambda>b.
       bindE (bigint_of_text (field_text v [''fee'', ''fee_paid''] ''0'')) (\<lambda>f.
       Inr \<lparr>exBorrowed = b, exFee = f, exCallback = field_text v [''callback'', ''callback_address'', ''receiver''] [],
         exToken = field_text v [''token''] []\<rparr>)))"

definition failedOf :: "native \<Rightarrow> failed_event result" where
  "failedOf v = (if v = NNull then Inl (JsError ''Cannot read properties of null'')
     else bindE (bigint_of_text (field_text v [''amount'', ''borrowed_amount''] ''0'')) (\<lambda>b.
       Inr \<lparr>fdBorrowed = b, fdToken = field_text v [''token''] [], fdReason = field_text v [''reason'', ''error''] ''callback reverted''\<rparr>))"

text \<open>The first event of the name whose data can be read; one that cannot is passed over.\<close>

fun firstEvent :: "string \<Rightarrow> (native \<Rightarrow> 'a result) \<Rightarrow> raw_flash list \<Rightarrow> 'a option" where
  "firstEvent name read [] = None"
| "firstEvent name read (ev # evs) = (case rfBody ev of
       Some (t # ts, Inr v) \<Rightarrow> if rfContract ev \<and> topicSymbol t = name
         then (case read v of Inr x \<Rightarrow> Some x | Inl _ \<Rightarrow> firstEvent name read evs) else firstEvent name read evs
     | _ \<Rightarrow> firstEvent name read evs)"

definition decodeExecutedEvent :: "raw_flash list \<Rightarrow> executed_event option" where
  "decodeExecutedEvent evs = firstEvent ''FlashLoanExecuted'' executedOf evs"

definition decodeFailedEvent :: "raw_flash list \<Rightarrow> failed_event option" where
  "decodeFailedEvent evs = firstEvent ''FlashLoanFailed'' failedOf evs"

definition getRawEvents :: "flash_response \<Rightarrow> raw_flash list" where
  "getRawEvents r = or_else (frEvents r) []"

fun flashEventOf :: "string \<Rightarrow> coral_event list \<Rightarrow> executed_event option" where
  "flashEventOf token [] = None"
| "flashEventOf token (FlashLoanEvent b borrower t amt fee # evs) =
     Some \<lparr>exBorrowed = amt, exFee = fee, exCallback = borrower, exToken = token\<rparr>"
| "flashEventOf token (ev # evs) = flashEventOf token evs"

text \<open>What both branches do with a transaction: a failed event is an error, else the executed one, else the event
  of the pair.\<close>

definition parseFlashLoanEvents :: "'w flash_env \<Rightarrow> flash_request \<Rightarrow> flash_response \<Rightarrow> executed_event option result" where
  "parseFlashLoanEvents e req r = (let raws = getRawEvents r in case decodeFailedEvent raws of
       Some f \<Rightarrow> Inl (FlashLoanError (''Flash loan callback failed: '' @ fdReason f) None)
     | None \<Rightarrow> (case decodeExecutedEvent raws of Some x \<Rightarrow> Inr (Some x)
         | None \<Rightarrow> (case decodeEvents (fnAddress e) (Some (flPair req)) False (frTx r) of
             Inl _ \<Rightarrow> Inr None | Inr evs \<Rightarrow> Inr (flashEventOf (flToken req) evs))))"

section \<open>Execution\<close>

record flash_result =
  fxHash :: string
  fxToken :: string
  fxAmount :: int
  fxFee :: int
  fxLedger :: int
  fxEvent :: "executed_event option"

datatype flash_outcome = FlashDone flash_result | FlashGas gas_estimate

text \<open>The status of a transaction, with the response it was read from.\<close>

definition flashStatus :: "'w flash_env \<Rightarrow> string \<Rightarrow> 'w \<Rightarrow> (tx_status \<times> flash_response option) \<times> 'w" where
  "flashStatus e h w = (case fnGet e h w of (r, w1) \<Rightarrow>
     ((fst (getTransactionStatus (\<lambda>h u. (map_sum id response.truncate r, u)) h w1), (case r of Inr x \<Rightarrow> Some x | Inl _ \<Rightarrow> None)), w1))"

definition flash_failed :: "string \<Rightarrow> sdk_result \<Rightarrow> thrown" where
  "flash_failed d r = Sdk (FlashLoanError (''Flash loan failed: '' @ error_message_or r d) (res_txHash r))"

definition afterFailure :: "'w flash_env \<Rightarrow> flash_request \<Rightarrow> int \<Rightarrow> sdk_result \<Rightarrow> ('w, thrown, flash_outcome) act" where
  "afterFailure e req fee res w = (case res_txHash res of
       Some (c # cs) \<Rightarrow> (let ((st, resp), w1) = flashStatus e (c # cs) w in
         case shouldRetrySubmission st None of Inl x \<Rightarrow> throwW (Sdk x) w1
         | Inr (True, _) \<Rightarrow> throwW (flash_failed ''Unknown error'' res) w1
         | Inr (False, _) \<Rightarrow> (case st of
             SUCCESS l h \<Rightarrow> bindW (liftW (parseFlashLoanEvents e req (the resp))) (\<lambda>ev. retW (FlashDone \<lparr>fxHash = c # cs,
               fxToken = flToken req, fxAmount = flAmount req, fxFee = fee, fxLedger = l, fxEvent = ev\<rparr>)) w1
           | _ \<Rightarrow> throwW (flash_failed ''Transaction failed on-chain'' res) w1))
     | _ \<Rightarrow> throwW (flash_failed ''Unknown error'' res) w)"

text \<open>After a success the events are read for the result; a failed event is an error, a failed read is not.\<close>

definition afterSuccess :: "'w flash_env \<Rightarrow> flash_request \<Rightarrow> int \<Rightarrow> string \<Rightarrow> int \<Rightarrow> ('w, thrown, flash_outcome) act" where
  "afterSuccess e req fee h ledger = bindW (catchW (bindW (fnGet e h) (\<lambda>r. if r_status r = ''SUCCESS''
       then liftW (parseFlashLoanEvents e req r) else retW None))
     (\<lambda>x. if is_flash_error x then throwW x else retW None))
     (\<lambda>ev. retW (FlashDone \<lparr>fxHash = h, fxToken = flToken req, fxAmount = flAmount req, fxFee = fee, fxLedger = ledger, fxEvent = ev\<rparr>))"

definition flashLoanOp :: "'w flash_env \<Rightarrow> flash_request \<Rightarrow> flash_call" where
  "flashLoanOp e req = FlashLoanCall (flPair req) (fnPublicKey e) (flToken req) (flAmount req) (flReceiver req) (flData req)"

definition flashSubmit :: "'w flash_env \<Rightarrow> flash_request \<Rightarrow> int \<Rightarrow> ('w, thrown, flash_outcome) act" where
  "flashSubmit e req fee = bindW (fnSubmit e [flashLoanOp e req]) (\<lambda>res. if \<not> success res then afterFailure e req fee res
     else case res_data res of Some (_, l) \<Rightarrow> afterSuccess e req fee (or_else (res_txHash res) ''undefined'') l
     | None \<Rightarrow> throwW (Sdk (JsError ''Cannot read properties of undefined'')))"

definition validateFlashRequest :: "'w flash_env \<Rightarrow> flash_request \<Rightarrow> unit result" where
  "validateFlashRequest e req = bindE (validateAddress (fnValid e) (flPair req) ''pairAddress'') (\<lambda>_.
     bindE (validateAddress (fnValid e) (flToken req) ''token'') (\<lambda>_. bindE (validatePositiveAmount (flAmount req) ''amount'') (\<lambda>_.
     validateAddress (fnValid e) (flReceiver req) ''receiverAddress'')))"

definition execute :: "'w flash_env \<Rightarrow> flash_request \<Rightarrow> bool \<Rightarrow> ('w, thrown, flash_outcome) act" where
  "execute e req estimateOnly = bindW (liftW (validateFlashRequest e req)) (\<lambda>_. bindW (verifyReceiverInterface e (flReceiver req)) (\<lambda>_.
     bindW (fnConfig e (flPair req)) (\<lambda>c. if fcLocked c then throwW (Sdk flash_locked)
     else if \<not> validateFeeFloor (fcFeeBps c) flashFeeFloorBps then throwW (Sdk (FlashLoanError ''Flash loan fee below protocol floor'' None))
     else bindW (estimateFee e (flPair req) (flToken req) (flAmount req)) (\<lambda>est.
       if flAmount req + flEstFee est < calculateRepayment (flAmount req) (fcFeeBps c)
       then throwW (Sdk (FlashLoanError ''Repayment validation failed: calculated repayment is below expected minimum'' None))
       else if estimateOnly
       then bindW (fnSimulate e [flashLoanOp e req]) (\<lambda>s. bindW (liftW (estimateGas s)) (\<lambda>g. retW (FlashGas g)))
       else flashSubmit e req (flEstFee est)))))"

section \<open>Conservation of the reserves\<close>

record conservation =
  rcOk :: bool
  rcReceiver :: string
  rcBefore :: "int \<times> int"
  rcAfter :: "int \<times> int"
  rcKBefore :: int
  rcKAfter :: int
  rcTolerance :: js_number
  rcMinimum :: int
  rcReason :: "string option"

definition tolerance_text :: "(rat \<Rightarrow> string) \<Rightarrow> js_number \<Rightarrow> string" where
  "tolerance_text text n = (case n of Finite q \<Rightarrow> text q | NaN \<Rightarrow> ''NaN'' | PosInfinity \<Rightarrow> ''Infinity'' | NegInfinity \<Rightarrow> ''-Infinity'')"

definition degraded :: "(rat \<Rightarrow> string) \<Rightarrow> int \<Rightarrow> int \<Rightarrow> int \<Rightarrow> js_number \<Rightarrow> string \<Rightarrow> string" where
  "degraded text k k' least t receiver = ''Reserve invariant (k) degraded beyond tolerance: k went from '' @ int_str k @ '' to '' @ int_str k' @
     '' (minimum acceptable '' @ int_str least @ '' at '' @ tolerance_text text t @ '' bps tolerance). Verify the flash-loan fee was correctly paid to feeReceiver '' @
     receiver @ ''.''"

definition minAcceptable :: "int \<Rightarrow> int \<Rightarrow> int" where
  "minAcceptable k bps = (let tolerance = k * bps sdiv 10000 in if tolerance < k then k - tolerance else 0)"

definition verifyReserveConservation :: "'w flash_env \<Rightarrow> string \<Rightarrow> string \<Rightarrow> ('w, thrown, unit) act \<Rightarrow> js_number option \<Rightarrow> ('w, thrown, conservation) act" where
  "verifyReserveConservation e p receiver callback tolerance = bindW (fnReserves e p) (\<lambda>(a0, a1). bindW callback (\<lambda>_.
     bindW (fnReserves e p) (\<lambda>(b0, b1).
     bindW (case tolerance of Some t \<Rightarrow> retW t | None \<Rightarrow> bindW (fnConfig e p) (\<lambda>c. retW (Finite (of_int (fcFeeBps c))))) (\<lambda>t.
     bindW (liftW (bigint_of t)) (\<lambda>bps. let k = a0 * a1; k' = b0 * b1; least = minAcceptable k bps in
       retW \<lparr>rcOk = (least \<le> k'), rcReceiver = receiver, rcBefore = (a0, a1), rcAfter = (b0, b1), rcKBefore = k, rcKAfter = k',
         rcTolerance = t, rcMinimum = least,
         rcReason = (if least \<le> k' then None else Some (degraded (fvNumText (fnFees e)) k k' least t receiver))\<rparr>)))))"

section \<open>Submission\<close>

lemma estimate_fee_value:
  assumes "estimateFee e p token amt w = (Inr est, w')"
  obtains c w1 where "fnConfig e p w1 = (Inr c, w')" "flEstFee est = max (amt * fcFeeBps c sdiv 10000) (fcFloor c)" "\<not> fcLocked c"
proof -
  obtain c w1 where c: "fnConfig e p w1 = (Inr c, w')" "\<not> fcLocked c"
    "est = \<lparr>flEstToken = token, flEstAmount = amt, flEstBps = fcFeeBps c,
      flEstFee = (if fcFloor c < amt * fcFeeBps c sdiv 10000 then amt * fcFeeBps c sdiv 10000 else fcFloor c), flEstFloor = fcFloor c\<rparr>"
    using assms by (auto simp: estimateFee_def act_simps Let_def split: if_splits)
  show ?thesis by (rule that[OF c(1) _ c(2)]) (simp add: c(3) max_def)
qed

text \<open>What counts submissions: only \<open>fnSubmit\<close> raises the count, by one.\<close>

definition counts_submissions :: "('w \<Rightarrow> nat) \<Rightarrow> 'w flash_env \<Rightarrow> bool" where
  "counts_submissions L e \<longleftrightarrow> (\<forall>x. keeps L (fnConfig e x)) \<and> (\<forall>x. keeps L (fnSimulate e x)) \<and> (\<forall>x. keeps L (fnGet e x)) \<and>
     (\<forall>ops w. L (snd (fnSubmit e ops w)) = L w + 1)"

lemma keeps_afterSuccess: "(\<And>x. keeps L (fnGet e x)) \<Longrightarrow> keeps L (afterSuccess e req fee h l)"
  unfolding afterSuccess_def by (intro keeps_bindW keeps_catchW) (auto split: if_splits)

lemma keeps_afterFailure:
  assumes "\<And>x. keeps L (fnGet e x)"
  shows "keeps L (afterFailure e req fee res)"
proof (rule keeps_apply)
  fix w
  show "\<exists>m. afterFailure e req fee res w = m w \<and> keeps L m"
  proof (cases "\<exists>c cs. res_txHash res = Some (c # cs)")
    case True
    then obtain h where h: "res_txHash res = Some h" "h \<noteq> []" by auto
    obtain st resp w1 where st: "flashStatus e h w = ((st, resp), w1)" by (metis prod.collapse)
    have "L w1 = L w" using st keepsD[OF assms] by (auto simp: flashStatus_def split: prod.splits)
    define m where "m = (\<lambda>u. if u = w then afterFailure e req fee res w else (Inl Undefined, u))"
    have "L (snd (afterFailure e req fee res w)) = L w"
      using h st \<open>L w1 = L w\<close> by (auto simp: afterFailure_def Let_def throwW_def bindW_def liftW_def retW_def
        split: list.splits sum.splits prod.splits bool.splits tx_status.splits)
    then show ?thesis by (intro exI[of _ m]) (auto simp: m_def keeps_def)
  next
    case False
    then have "afterFailure e req fee res = throwW (flash_failed ''Unknown error'' res)"
      by (auto simp: afterFailure_def fun_eq_iff split: option.splits list.splits)
    then show ?thesis by auto
  qed
qed

lemma keeps_verify: "(\<And>x. keeps L (fnSimulate e x)) \<Longrightarrow> keeps L (verifyReceiverInterface e r)"
  unfolding verifyReceiverInterface_def
  by (intro keeps_catchW keeps_bindW keeps_liftW) (auto split: prod.splits option.splits)

lemma flashSubmit_count:
  assumes "counts_submissions L e"
  shows "L (snd (flashSubmit e req fee w)) = L w + 1"
proof -
  have get: "keeps L (fnGet e x)" for x using assms by (simp add: counts_submissions_def)
  obtain r w1 where r: "fnSubmit e [flashLoanOp e req] w = (r, w1)" by fastforce
  then have "L w1 = L w + 1" using assms by (metis counts_submissions_def snd_conv)
  moreover have "L (snd (afterFailure e req fee x w1)) = L w1" "L (snd (afterSuccess e req fee h l w1)) = L w1" for x h l
    using keeps_afterFailure[OF get] keeps_afterSuccess[OF get] by (simp_all add: keeps_def)
  ultimately show ?thesis using r by (auto simp: flashSubmit_def bindW_def throwW_def split: sum.splits option.splits)
qed

text \<open>An action that submits nothing and returns no loan, or that submits one.\<close>

definition one_submission :: "('w \<Rightarrow> nat) \<Rightarrow> bool \<Rightarrow> ('w, thrown, flash_outcome) act \<Rightarrow> bool" where
  "one_submission L only m \<longleftrightarrow> (\<forall>w r w'. m w = (r, w') \<longrightarrow>
     (L w' = L w \<and> (\<forall>x. r \<noteq> Inr (FlashDone x))) \<or> (\<not> only \<and> L w' = L w + 1))"

lemma one_submission_bindW:
  assumes "keeps L m" and "\<And>a. one_submission L only (f a)"
  shows "one_submission L only (bindW m f)"
  unfolding one_submission_def
proof (intro allI impI)
  fix w r w' assume b: "bindW m f w = (r, w')"
  obtain s u where m: "m w = (s, u)" by fastforce
  have L: "L u = L w" using keepsD[OF assms(1) m] .
  show "(L w' = L w \<and> (\<forall>x. r \<noteq> Inr (FlashDone x))) \<or> (\<not> only \<and> L w' = L w + 1)"
  proof (cases s)
    case (Inl x)
    then show ?thesis using b m L by (auto simp: bindW_def)
  next
    case (Inr a)
    then have "f a u = (r, w')" using b m by (simp add: bindW_def)
    then show ?thesis using assms(2)[of a] L unfolding one_submission_def by metis
  qed
qed

lemma one_submission_throwW: "one_submission L only (throwW x)"
  by (simp add: one_submission_def throwW_def)

lemma one_submission_gas: "one_submission L only (bindW (liftW r) (\<lambda>g. retW (FlashGas g)))"
  by (auto simp: one_submission_def bindW_def liftW_def retW_def map_sum_def split: sum.splits)

lemma one_submission_flashSubmit: "counts_submissions L e \<Longrightarrow> one_submission L False (flashSubmit e req fee)"
  by (metis (no_types, lifting) flashSubmit_count one_submission_def snd_conv)

lemma execute_one_submission:
  assumes "counts_submissions L e"
  shows "one_submission L only (execute e req only)"
proof -
  have k: "keeps L (fnConfig e x)" "keeps L (fnSimulate e y)" for x y using assms by (auto simp: counts_submissions_def)
  have est: "keeps L (estimateFee e p t n)" for p t n unfolding estimateFee_def
    by (intro keeps_bindW keeps_liftW k) (auto simp: Let_def)
  have sub: "one_submission L False (flashSubmit e req fee)" for fee by (rule one_submission_flashSubmit[OF assms])
  show ?thesis unfolding execute_def
    by (cases only) (auto intro!: one_submission_bindW keeps_liftW keeps_verify k est sub one_submission_throwW one_submission_gas)
qed

text \<open>C34: A flash loan is submitted at most once, never by an estimate, and a result that is returned was submitted.\<close>

theorem flash_submits_once:
  assumes "counts_submissions L e" and "execute e req only w = (r, w')"
  shows "L w' \<le> L w + 1 \<and> (only \<longrightarrow> L w' = L w) \<and> (\<forall>x. r = Inr (FlashDone x) \<longrightarrow> L w' = L w + 1)"
proof -
  have "(L w' = L w \<and> (\<forall>x. r \<noteq> Inr (FlashDone x))) \<or> (\<not> only \<and> L w' = L w + 1)"
    using execute_one_submission[OF assms(1), of only req] assms(2) unfolding one_submission_def by blast
  then show ?thesis by (elim disjE) simp_all
qed

section \<open>What the checks do not see\<close>

text \<open>With the configuration read the same twice, the comparison of the two repayments can never fail.\<close>

theorem repayment_covered:
  assumes "fnConfig e p = retW c" and "estimateFee e p t amt w = (Inr est, w')"
  shows "calculateRepayment amt (fcFeeBps c) \<le> amt + flEstFee est"
  using assms by (auto simp: estimateFee_def act_simps calculateRepayment_def Let_def split: if_splits)

text \<open>A probe that cannot be built accepts every receiver, without a call.\<close>

theorem probe_failure_accepts:
  assumes "fnProbe e r = Inl x" and "\<not> is_flash_error (Sdk x)"
  shows "verifyReceiverInterface e r w = (Inr (), w)"
  using assms by (simp add: verifyReceiverInterface_def bindW_def catchW_def liftW_def retW_def)

text \<open>A receiver that has the function is refused when its failure names it.\<close>

theorem named_failure_refuses:
  assumes "fnProbe e r = Inr op" and "fnSimulate e [op] w = (Inr (False, Some m, fee), w')" and "includes_str m ''on_flash_loan''"
  shows "verifyReceiverInterface e r w = (Inl (Sdk (missing_interface r)), w')"
  using assms by (simp add: verifyReceiverInterface_def bindW_def catchW_def liftW_def throwW_def missing_interface_def)

text \<open>After a success that cannot be read, or whose status is not \<open>SUCCESS\<close>, the loan is reported as done without an
  event, whatever the chain says of the callback.\<close>

theorem unread_callback_succeeds:
  assumes "fnGet e h w = (r, w')" and "case r of Inl x \<Rightarrow> \<not> is_flash_error x | Inr resp \<Rightarrow> r_status resp \<noteq> ''SUCCESS''"
  shows "afterSuccess e req fee h l w = (Inr (FlashDone \<lparr>fxHash = h, fxToken = flToken req, fxAmount = flAmount req, fxFee = fee,
    fxLedger = l, fxEvent = None\<rparr>), w')"
  using assms by (cases r) (auto simp: afterSuccess_def bindW_def catchW_def liftW_def retW_def)

text \<open>A failed event that is read is an error on both branches.\<close>

theorem failed_callback_is_error:
  assumes "fnGet e h w = (Inr resp, w')" and "r_status resp = ''SUCCESS''" and "decodeFailedEvent (getRawEvents resp) = Some f"
  shows "afterSuccess e req fee h l w = (Inl (Sdk (FlashLoanError (''Flash loan callback failed: '' @ fdReason f) None)), w')"
  using assms by (simp add: afterSuccess_def bindW_def catchW_def liftW_def retW_def throwW_def parseFlashLoanEvents_def Let_def)

section \<open>Conservation\<close>

lemma min_acceptable_pos:
  assumes "0 \<le> k" and "0 \<le> bps"
  shows "minAcceptable k bps = max 0 (k - k * bps div 10000)"
  using assms by (auto simp: minAcceptable_def Let_def sdiv_nonneg)

text \<open>Reserves left as they were pass whatever the tolerance: the fee is not looked for.\<close>

theorem conservation_without_fee:
  assumes "fnReserves e p = retW (a, b)" and "0 \<le> a" and "0 \<le> b" and "0 \<le> bps"
  shows "\<exists>c. verifyReserveConservation e p receiver (retW ()) (Some (Finite (of_int bps))) w = (Inr c, w) \<and> rcOk c \<and> rcReason c = None"
proof -
  have "0 \<le> a * b * bps div 10000" using assms by (simp add: div_int_pos_iff)
  then have "minAcceptable (a * b) bps \<le> a * b" using assms(2-4) by (simp add: min_acceptable_pos)
  then show ?thesis using assms(1) by (simp add: verifyReserveConservation_def bindW_def retW_def liftW_def Let_def)
qed

text \<open>And so does a loan that returns less than it took, by up to the tolerance of the product.\<close>

theorem conservation_allows_shortfall:
  assumes "before = (a, b)" and "callback u = (Inr (), v)" and "fnReserves e p w = (Inr before, u)"
    and "fnReserves e p v = (Inr (a - d, b), w')" and "0 \<le> a" and "0 \<le> b" and "0 \<le> bps" and "d * b \<le> a * b * bps div 10000" and "d \<le> a"
  shows "\<exists>c. verifyReserveConservation e p receiver callback (Some (Finite (of_int bps))) w = (Inr c, w') \<and> rcOk c"
proof -
  have "(a - d) * b = a * b - d * b" by (simp add: left_diff_distrib)
  moreover have "0 \<le> (a - d) * b" using assms(6,9) by simp
  ultimately have "minAcceptable (a * b) bps \<le> (a - d) * b" using assms(5-8) by (simp add: min_acceptable_pos)
  then show ?thesis using assms(1-4) by (simp add: verifyReserveConservation_def bindW_def retW_def liftW_def Let_def)
qed

text \<open>A check that passes says that the product lost at most the tolerance.\<close>

theorem conservation_ok_bounds:
  assumes "verifyReserveConservation e p receiver callback (Some (Finite (of_int bps))) w = (Inr c, w')"
    and "0 \<le> rcKBefore c" and "0 \<le> bps"
  shows "(rcOk c \<longleftrightarrow> rcReason c = None) \<and> (rcOk c \<longrightarrow> rcKBefore c * (10000 - bps) \<le> rcKAfter c * 10000)"
proof -
  have c: "rcMinimum c = minAcceptable (rcKBefore c) bps \<and> (rcOk c \<longleftrightarrow> rcMinimum c \<le> rcKAfter c) \<and> (rcOk c \<longleftrightarrow> rcReason c = None)"
    using assms(1) by (auto simp: verifyReserveConservation_def act_simps Let_def split: prod.splits if_splits)
  define k where "k = rcKBefore c"
  have "k * bps div 10000 * 10000 \<le> k * bps" by (rule div_mult_le_int) simp
  moreover have "k - k * bps div 10000 \<le> rcKAfter c" if "rcOk c" using that c assms(2,3) by (simp add: min_acceptable_pos k_def)
  ultimately have "k * 10000 - k * bps \<le> rcKAfter c * 10000" if "rcOk c" using that by fastforce
  then have "rcOk c \<longrightarrow> rcKBefore c * (10000 - bps) \<le> rcKAfter c * 10000" unfolding k_def by (simp add: right_diff_distrib)
  then show ?thesis using c by blast
qed

section \<open>Comparison and limits\<close>

text \<open>The comparison ignores the floor: it may call a loan the cheaper one although the estimate of the same loan asks
  for more than the swap.\<close>

theorem comparison_ignores_floor:
  assumes "fnConfig e p = retW c" and "fvDynamic (fnFees e) p = retW bps" and "flashCompare e p amt w = (Inr (f, s, v), w')"
    and "estimateFee e p t amt u = (Inr est, u')"
  shows "f = amt * fcFeeBps c sdiv 10000 \<and> s = amt * bps sdiv 10000 \<and> (v = CheaperFlash \<longleftrightarrow> f < s) \<and> flEstFee est = max f (fcFloor c)"
  using assms by (auto simp: flashCompare_def estimateFee_def estimateSwapFee_def act_simps Let_def max_def split: if_splits prod.splits)

text \<open>What may be borrowed is at least 99 hundredths of a reserve, and never more than it; a token that is not of the pair is answered with
  the reserve of the second.\<close>

theorem max_borrowable_bounds:
  assumes "fnReserves e p = retW (r0, r1)" and "fnTokens e p = retW (t0, t1)" and "0 \<le> r0" and "0 \<le> r1"
    and "getMaxBorrowable e p t w = (Inr n, w')"
  shows "99 * (if t = t0 then r0 else r1) \<le> 100 * n \<and> n \<le> (if t = t0 then r0 else r1)"
proof -
  define x where "x = (if t = t0 then r0 else r1)"
  have "0 \<le> x" using assms(3,4) by (simp add: x_def)
  have n: "n = x - x div 100" using assms \<open>0 \<le> x\<close> by (auto simp: getMaxBorrowable_def act_simps x_def sdiv_nonneg Let_def)
  then show ?thesis using \<open>0 \<le> x\<close> unfolding x_def[symmetric] by presburger
qed

section \<open>Runs\<close>

definition loan_fees :: "nat fee_env" where
  "loan_fees = \<lparr>fvState = \<lambda>p. retW \<lparr>fsPriceLast = 0, fsVolatility = 0, fsLastUpdated = 0, fsCurrent = 30, fsMin = 5, fsMax = 100,
     fsEmaAlpha = 1, fsLastChanged = 0, fsDecay = 1, fsBaseline = 30\<rparr>, fvDynamic = \<lambda>p. retW 30, fvRouterFee = \<lambda>a b. retW 30,
     fvParameters = retW \<lparr>fpMin = 5, fpMax = 100, fpEmaAlpha = 1, fpFlashBps = 5\<rparr>, fvReserves = \<lambda>p. retW (1000, 2000),
     fvTokens = \<lambda>p. retW (''A'', ''B''), fvLpToken = \<lambda>p. retW ''L'', fvBalance = \<lambda>t a. retW 1, fvSupply = \<lambda>t. retW 3,
     fvDecimals = \<lambda>a. retW (Some (ScvU32 6)), fvMetadata = \<lambda>a. retW 7, fvLedger = retW 100,
     fvEvents = \<lparr>getEvents = \<lambda>r. throwW (Sdk (JsError ''down'')), getLatestLedger = retW 100, symbolXdr = id\<rparr>,
     fvAddress = \<lambda>v. Inr ''G'', fvNowMs = \<lambda>w. 0, fvValid = \<lambda>a. True, fvNumText = \<lambda>q. [], fvLocale = \<lambda>a b. 0\<rparr>"

text \<open>The world counts submissions; the floor is an amount far above the fee of the sample, and the node knows no transaction.\<close>

definition loan_env :: "nat flash_env" where
  "loan_env = \<lparr>fnConfig = \<lambda>p. retW \<lparr>fcFeeBps = 9, fcLocked = False, fcFloor = 50\<rparr>, fnReserves = \<lambda>p. retW (1000, 2000),
     fnTokens = \<lambda>p. retW (''A'', ''B''), fnProbe = \<lambda>r. if r = ''R'' then Inr (ProbeCall r) else Inl (JsError ''Unsupported address type''),
     fnSimulate = \<lambda>ops. retW (False, Some ''trap in on_flash_loan'', None),
     fnSubmit = \<lambda>ops w. (Inr \<lparr>success = True, res_data = Some (''h'', 7), res_error = None, res_txHash = Some ''h''\<rparr>, w + 1),
     fnGet = \<lambda>h. throwW (Sdk (JsError ''down'')), fnPublicKey = ''G'', fnFees = loan_fees, fnAddress = \<lambda>v. Inr ''G'', fnValid = \<lambda>a. True\<rparr>"

definition sample_loan :: flash_request where
  "sample_loan = \<lparr>flPair = ''P'', flToken = ''A'', flAmount = 10000, flReceiver = ''C'', flData = []\<rparr>"

lemma loan_counted: "counts_submissions id loan_env"
  by (auto simp: counts_submissions_def loan_env_def keeps_def retW_def throwW_def)

lemma valid_loan: "validateAddress (\<lambda>a. True) ''P'' n = Inr ()" "validateAddress (\<lambda>a. True) ''A'' n = Inr ()"
    "validateAddress (\<lambda>a. True) ''C'' n = Inr ()" "validatePositiveAmount 10000 m = Inr ()"
  by (simp_all add: validateAddress_def validatePositiveAmount_def) (simp_all add: trim_def is_space_def)

lemmas loan_simps = valid_loan loan_env_def sample_loan_def bindW_def catchW_def liftW_def retW_def throwW_def Let_def

lemma sample_run: "execute loan_env sample_loan False 0 =
    (Inr (FlashDone \<lparr>fxHash = ''h'', fxToken = ''A'', fxAmount = 10000, fxFee = 50, fxLedger = 7, fxEvent = None\<rparr>), 1)"
  by (simp add: execute_def validateFlashRequest_def verifyReceiverInterface_def estimateFee_def calculateRepayment_def validateFeeFloor_def
      flashFeeFloorBps_def flashSubmit_def afterSuccess_def or_else_def loan_simps sdiv_nonneg)

theorem flash_submits_once_witness:
  "execute loan_env sample_loan False 0 = (Inr (FlashDone \<lparr>fxHash = ''h'', fxToken = ''A'', fxAmount = 10000, fxFee = 50,
     fxLedger = 7, fxEvent = None\<rparr>), 1) \<and> id (1 :: nat) \<le> id 0 + 1"
  using flash_submits_once[OF loan_counted sample_run] sample_run by blast

lemma sample_estimate: "\<exists>est. estimateFee loan_env ''P'' ''A'' 10000 w = (Inr est, w) \<and> flEstFee est = 50"
  by (simp add: estimateFee_def loan_simps sdiv_nonneg)

lemma loan_config: "fnConfig loan_env p = retW \<lparr>fcFeeBps = 9, fcLocked = False, fcFloor = 50\<rparr>"
  by (simp add: loan_env_def)

theorem repayment_covered_witness:
  "\<exists>est. estimateFee loan_env ''P'' ''A'' 10000 0 = (Inr est, 0) \<and> calculateRepayment 10000 9 \<le> 10000 + flEstFee est"
proof -
  obtain est where est: "estimateFee loan_env ''P'' ''A'' 10000 0 = (Inr est, 0)" using sample_estimate by blast
  from repayment_covered[OF loan_config est] show ?thesis using est by auto
qed

theorem probe_failure_accepts_witness: "verifyReceiverInterface loan_env ''C'' 0 = (Inr (), 0)"
  by (rule probe_failure_accepts[where x = "JsError ''Unsupported address type''"]) (simp_all add: loan_env_def)

theorem named_failure_refuses_witness: "verifyReceiverInterface loan_env ''R'' 0 = (Inl (Sdk (missing_interface ''R'')), 0)"
proof (rule named_failure_refuses[where op = "ProbeCall ''R''" and m = "''trap in on_flash_loan''" and fee = None])
  show "includes_str ''trap in on_flash_loan'' ''on_flash_loan''" by code_simp
qed (simp_all add: loan_env_def retW_def)

theorem unread_callback_succeeds_witness:
  "afterSuccess loan_env sample_loan 50 ''h'' 7 0 = (Inr (FlashDone \<lparr>fxHash = ''h'', fxToken = flToken sample_loan,
     fxAmount = flAmount sample_loan, fxFee = 50, fxLedger = 7, fxEvent = None\<rparr>), 0)"
  by (rule unread_callback_succeeds[where r = "Inl (Sdk (JsError ''down''))"]) (simp_all add: loan_env_def throwW_def)

definition failed_response :: flash_response where
  "failed_response = \<lparr>r_status = ''SUCCESS'', r_ledger = Some 7, frEvents = Some [\<lparr>rfContract = True,
     rfBody = Some ([ScvSymbol ''FlashLoanFailed''], Inr (NRec []))\<rparr>],
     frTx = \<lparr>txMeta = None, txHashField = None, txIdField = None, txLedger = None, txCreatedAt = None\<rparr>\<rparr>"

lemma failed_response_event: "decodeFailedEvent (getRawEvents failed_response) =
    Some \<lparr>fdBorrowed = 0, fdToken = [], fdReason = ''callback reverted''\<rparr>"
  by code_simp

theorem failed_callback_is_error_witness:
  "afterSuccess (loan_env\<lparr>fnGet := \<lambda>h. retW failed_response\<rparr>) sample_loan 50 ''h'' 7 0 =
     (Inl (Sdk (FlashLoanError (''Flash loan callback failed: '' @ ''callback reverted'') None)), 0)"
  using failed_callback_is_error[OF _ _ failed_response_event, where e = "loan_env\<lparr>fnGet := \<lambda>h. retW failed_response\<rparr>" and h = "''h''"
      and w = 0 and w' = 0 and req = sample_loan and fee = 50 and l = 7]
  by (simp add: retW_def failed_response_def)

lemma loan_reserves: "fnReserves loan_env p = retW (1000, 2000)"
  by (simp add: loan_env_def)

theorem conservation_without_fee_witness:
  "\<exists>c. verifyReserveConservation loan_env ''P'' ''T'' (retW ()) (Some (Finite (of_int 9))) 0 = (Inr c, 0) \<and> rcOk c \<and> rcReason c = None"
  by (rule conservation_without_fee[OF loan_reserves]) simp_all

theorem conservation_allows_shortfall_witness:
  "\<exists>c. verifyReserveConservation (loan_env\<lparr>fnReserves := \<lambda>p w. (Inr (if w = 0 then (10000, 10000) else (9991, 10000)), w)\<rparr>) ''P'' ''T''
     (\<lambda>w. (Inr (), 1)) (Some (Finite (of_int 9))) 0 = (Inr c, 1) \<and> rcOk c"
  by (rule conservation_allows_shortfall[where d = 9 and a = 10000 and b = 10000 and u = 0 and v = 1]) simp_all

theorem conservation_ok_bounds_witness:
  "\<exists>c. verifyReserveConservation loan_env ''P'' ''T'' (retW ()) (Some (Finite (of_int 9))) 0 = (Inr c, 0) \<and>
     rcKBefore c * (10000 - 9) \<le> rcKAfter c * 10000"
proof -
  obtain c where c: "verifyReserveConservation loan_env ''P'' ''T'' (retW ()) (Some (Finite (of_int 9))) 0 = (Inr c, 0)" "0 \<le> rcKBefore c" "rcOk c"
    by (simp add: verifyReserveConservation_def loan_simps minAcceptable_def sdiv_nonneg)
  from conservation_ok_bounds[OF c(1,2)] show ?thesis using c(1,3) by auto
qed

theorem comparison_ignores_floor_witness:
  "\<exists>est. flashCompare loan_env ''P'' 10000 0 = (Inr (9, 30, CheaperFlash), 0) \<and> estimateFee loan_env ''P'' ''A'' 10000 0 = (Inr est, 0) \<and>
     30 < flEstFee est"
proof -
  have dyn: "fvDynamic (fnFees loan_env) p = retW 30" "fvValid (fnFees loan_env) = (\<lambda>a. True)" "fnValid loan_env = (\<lambda>a. True)" for p
    by (simp_all add: loan_env_def loan_fees_def)
  have cmp: "flashCompare loan_env ''P'' 10000 0 = (Inr (9, 30, CheaperFlash), 0)"
    by (simp add: flashCompare_def estimateSwapFee_def dyn loan_config valid_loan bindW_def liftW_def retW_def sdiv_nonneg)
  obtain est where est: "estimateFee loan_env ''P'' ''A'' 10000 0 = (Inr est, 0)" using sample_estimate by blast
  from comparison_ignores_floor[OF loan_config dyn(1) cmp est] show ?thesis using cmp est by auto
qed

theorem max_borrowable_bounds_witness:
  "getMaxBorrowable loan_env ''P'' ''Z'' 0 = (Inr 1980, 0) \<and> 99 * 2000 \<le> (100 * 1980 :: int)"
proof -
  have t: "fnTokens loan_env p = retW (''A'', ''B'')" for p by (simp add: loan_env_def)
  have n: "getMaxBorrowable loan_env ''P'' ''Z'' 0 = (Inr 1980, 0)"
    by (simp add: getMaxBorrowable_def t loan_reserves bindW_def retW_def sdiv_nonneg)
  from max_borrowable_bounds[OF loan_reserves t _ _ n] show ?thesis using n by simp
qed

end
