(* ===== verification/SwapHistory.thy ===== *)
theory SwapHistory
  imports AlertRules EventCursor Validation Swap
begin

text \<open>
  \<open>getSwapHistory\<close> of \<open>modules/swap.ts\<close> with its filter schema and its decoders, and the estimating branch of
  \<open>execute\<close>. The events come from the shared cursor. The text of an address is a parameter that may be missing,
  for a value of any tag; a closing time is a date or absent.
\<close>

section \<open>Filters and entries\<close>

record history_filter =
  hfPair :: "string option"
  hfUser :: "string option"
  hfFrom :: "rat option"
  hfTo :: "rat option"
  hfLimit :: "rat option"

record swap_entry =
  seTxHash :: string
  seAmountIn :: int
  seAmountOut :: int
  seTokenIn :: string
  seTokenOut :: string
  seSender :: string
  sePair :: string
  seLedger :: "int option"
  seTimestamp :: int
  seFeeBps :: int

record 'w history_env =
  heLedger :: "('w, thrown, int) act"
  heEvents :: "'w event_env"
  heAddress :: "scval \<Rightarrow> string option"
  heNowMs :: "'w \<Rightarrow> int"
  heValid :: "string \<Rightarrow> bool"
  heZodText :: string
  heNumText :: "rat \<Rightarrow> string"

definition DEFAULT_HISTORY_WINDOW :: int where
  "DEFAULT_HISTORY_WINDOW = 1000"

definition DEFAULT_HISTORY_LIMIT :: rat where
  "DEFAULT_HISTORY_LIMIT = 200"

definition opt_all :: "('a \<Rightarrow> bool) \<Rightarrow> 'a option \<Rightarrow> bool" where
  "opt_all P x = (case x of None \<Rightarrow> True | Some v \<Rightarrow> P v)"

definition history_address :: "(string \<Rightarrow> bool) \<Rightarrow> string \<Rightarrow> bool" where
  "history_address valid s \<longleftrightarrow> s \<noteq> [] \<and> valid s"

definition swapHistoryFilterSchema :: "(string \<Rightarrow> bool) \<Rightarrow> history_filter \<Rightarrow> bool" where
  "swapHistoryFilterSchema valid f \<longleftrightarrow> opt_all (history_address valid) (hfPair f) \<and> opt_all (history_address valid) (hfUser f) \<and>
     opt_all (\<lambda>q. q = of_int \<lfloor>q\<rfloor> \<and> 0 \<le> q) (hfFrom f) \<and> opt_all (\<lambda>q. q = of_int \<lfloor>q\<rfloor> \<and> 0 \<le> q) (hfTo f) \<and>
     opt_all (\<lambda>q. q = of_int \<lfloor>q\<rfloor> \<and> 0 < q) (hfLimit f) \<and>
     \<not> (case (hfFrom f, hfTo f) of (Some a, Some b) \<Rightarrow> b < a | _ \<Rightarrow> False)"

section \<open>Decoding\<close>

text \<open>Keys that are no text, or empty, are skipped; a later entry replaces an earlier one.\<close>

fun decodeMapEntries :: "(scval \<times> scval) list \<Rightarrow> string \<Rightarrow> scval option" where
  "decodeMapEntries [] = Map.empty"
| "decodeMapEntries ((k, v) # es) = (\<lambda>key. case decodeMapEntries es key of Some x \<Rightarrow> Some x
     | None \<Rightarrow> if key_text k = Some key \<and> key \<noteq> [] then Some v else None)"

definition decodeMapEvent :: "scval \<Rightarrow> (string \<Rightarrow> scval option) option" where
  "decodeMapEvent v = (case v of ScvMap (Some es) \<Rightarrow> Some (decodeMapEntries es) | _ \<Rightarrow> None)"

definition readAddress :: "(scval \<Rightarrow> string option) \<Rightarrow> (string \<Rightarrow> scval option) \<Rightarrow> string \<Rightarrow> string option" where
  "readAddress addr m key = (case m key of None \<Rightarrow> None | Some v \<Rightarrow> (case addr v of Some (c # cs) \<Rightarrow> Some (c # cs) | _ \<Rightarrow> None))"

definition readI128 :: "(string \<Rightarrow> scval option) \<Rightarrow> string \<Rightarrow> int option" where
  "readI128 m key = (case m key of Some (ScvI128 n) \<Rightarrow> Some n | Some (ScvI128Parts hi lo) \<Rightarrow> Some (push_bit 64 hi + lo) | _ \<Rightarrow> None)"

definition readU32 :: "(string \<Rightarrow> scval option) \<Rightarrow> string \<Rightarrow> int option" where
  "readU32 m key = (case m key of Some (ScvU32 n) \<Rightarrow> Some n | _ \<Rightarrow> None)"

text \<open>The text of a topic that is neither symbol nor string is not \<open>swap\<close>.\<close>

definition topicName :: "raw_event \<Rightarrow> string" where
  "topicName ev = (case erTopic ev of Some (t # ts) \<Rightarrow> or_else (key_text t) [] | _ \<Rightarrow> [])"

definition historyEntry :: "(scval \<Rightarrow> string option) \<Rightarrow> int \<Rightarrow> string option \<Rightarrow> raw_event \<Rightarrow> swap_entry option" where
  "historyEntry addr nowMs user ev = (if topicName ev \<noteq> ''swap'' then None
     else case Option.bind (erValue ev) decodeMapEvent of None \<Rightarrow> None
     | Some m \<Rightarrow> (case readAddress addr m ''sender'' of None \<Rightarrow> None
       | Some s \<Rightarrow> if opt_all (\<lambda>u. u = [] \<or> s = u) user
         then (case (readI128 m ''amount_in'', readI128 m ''amount_out'', readAddress addr m ''token_in'', readAddress addr m ''token_out'',
             readU32 m ''fee_bps'') of
             (Some ai, Some ao, Some ti, Some t_out, Some bps) \<Rightarrow> Some \<lparr>seTxHash = or_else (erTxHash ev) [], seAmountIn = ai, seAmountOut = ao,
               seTokenIn = ti, seTokenOut = t_out, seSender = s, sePair = or_else (erContract ev) [], seLedger = erLedger ev,
               seTimestamp = (case erClosedMs ev of Some ms \<Rightarrow> ms div 1000 | None \<Rightarrow> nowMs div 1000), seFeeBps = bps\<rparr>
           | _ \<Rightarrow> None)
         else None))"

section \<open>The history\<close>

definition beyond :: "int \<Rightarrow> raw_event \<Rightarrow> bool" where
  "beyond to ev = (case erLedger ev of Some l \<Rightarrow> to < l | None \<Rightarrow> False)"

definition historyOf :: "('x cursor_state_scheme) history_env \<Rightarrow> string option \<Rightarrow> int \<Rightarrow> nat \<Rightarrow> raw_event list \<Rightarrow>
    'x cursor_state_scheme \<Rightarrow> swap_entry list" where
  "historyOf e user to n evs w = take n (List.map_filter (\<lambda>ev. if beyond to ev then None
     else historyEntry (heAddress e) (heNowMs e w) user ev) (take n evs))"

definition getSwapHistory :: "('x cursor_state_scheme) history_env \<Rightarrow> nat \<Rightarrow> history_filter \<Rightarrow> 'x cursor_state_scheme \<Rightarrow>
    ((thrown + swap_entry list) \<times> 'x cursor_state_scheme) option" where
  "getSwapHistory e fuel f w =
     (case bindW (liftW (throw_if (\<not> swapHistoryFilterSchema (heValid e) f) (ValidationError (heZodText e)))) (\<lambda>_. heLedger e) w of
       (Inl x, w1) \<Rightarrow> Some (Inl x, w1)
     | (Inr current, w1) \<Rightarrow>
         (let from = (case hfFrom f of Some q \<Rightarrow> \<lfloor>q\<rfloor> | None \<Rightarrow> max 0 (current - DEFAULT_HISTORY_WINDOW));
            to = (case hfTo f of Some q \<Rightarrow> \<lfloor>q\<rfloor> | None \<Rightarrow> current); limit = or_else (hfLimit f) DEFAULT_HISTORY_LIMIT in
          if to < from then Some (Inl (Sdk (ValidationError (''fromLedger ('' @ heNumText e (of_int from) @
            '') must not be greater than toLedger ('' @ heNumText e (of_int to) @ '')''))), w1)
          else map_option (\<lambda>(r, w2). (map_sum id (\<lambda>s. historyOf e (hfUser f) to (nat \<lfloor>limit\<rfloor>) (scanEvents s) w2) r, w2))
            (scan (heEvents e) (newCursorOptions None None) fuel \<lparr>spContracts = Some (case hfPair f of Some p \<Rightarrow> [p] | None \<Rightarrow> []),
               spTopics = Some [''swap''], spFrom = Some from, spTo = Some to, spLimit = Some limit\<rparr> (reset w1))))"

section \<open>The estimating branch of a swap\<close>

definition estimate_swap :: "(rat \<Rightarrow> rat) \<Rightarrow> (swap_op list \<Rightarrow> ('w, thrown, bool \<times> string option \<times> string option) act) \<Rightarrow> ('w \<Rightarrow> client) \<Rightarrow>
    swap_request \<Rightarrow> swap_quote option \<Rightarrow> ('w, thrown, gas_estimate) act" where
  "estimate_swap fl simulate cl req given w =
    bindW (liftW (case given of Some q \<Rightarrow> Inr q | None \<Rightarrow> getQuote fl (cl w) req)) (\<lambda>q.
    bindW (liftW (buildSwapOperation (cl w) req q)) (\<lambda>op. bindW (simulate [op]) (\<lambda>s. liftW (estimateGas s)))) w"

section \<open>What a history holds\<close>

lemma map_filter_guard: "List.map_filter (\<lambda>x. if P x then None else f x) xs = List.map_filter f (filter (\<lambda>x. \<not> P x) xs)"
  by (induction xs) (auto simp: List.map_filter_simps split: option.splits)

lemma length_map_filter: "length (List.map_filter f xs) \<le> length xs"
  by (induction xs) (auto simp: List.map_filter_simps split: option.splits)

lemma historyOf_eq: "historyOf e user to n evs w =
    List.map_filter (historyEntry (heAddress e) (heNowMs e w) user) (filter (\<lambda>ev. \<not> beyond to ev) (take n evs))"
proof -
  have "length (List.map_filter (historyEntry (heAddress e) (heNowMs e w) user) (filter (\<lambda>ev. \<not> beyond to ev) (take n evs))) \<le> n"
    by (rule order_trans[OF length_map_filter]) (simp add: le_trans[OF length_filter_le])
  then show ?thesis by (simp add: historyOf_def map_filter_guard)
qed

lemma window_of_prefix:
  assumes "prefix S P" and "filter Q S = filter Q P"
  shows "filter Q (take n S) = filter Q (take n P)"
proof -
  obtain R where R: "P = S @ R" using assms(1) by (auto simp: prefix_def)
  then have "filter Q R = []" using assms(2) by simp
  then have "filter Q (take k R) = []" for k by (auto simp: filter_empty_conv dest: in_set_takeD)
  then show ?thesis by (simp add: R)
qed

lemma entry_of_user:
  assumes "u \<noteq> []"
  shows "historyEntry addr t (Some u) ev = (case historyEntry addr t None ev of Some s \<Rightarrow> if seSender s = u then Some s else None | None \<Rightarrow> None)"
  using assms by (auto simp: historyEntry_def opt_all_def split: option.splits)

lemma map_filter_select: "(\<And>x. g x = (case f x of Some s \<Rightarrow> if P s then Some s else None | None \<Rightarrow> None)) \<Longrightarrow>
    List.map_filter g xs = filter P (List.map_filter f xs)"
  by (induction xs) (auto simp: List.map_filter_simps split: option.splits)

lemma history_of_log_lemma:
  assumes "good_log xs" and "heEvents e = log_env True xs" and "heLedger e = retW current" and "length xs < fuel"
    and "swapHistoryFilterSchema (heValid e) f" and "hfFrom f = Some (of_int from)" and "hfTo f = Some (of_int to)"
    and "hfLimit f = Some (of_nat n)" and "n \<le> 10000"
  shows "\<exists>w'. getSwapHistory e fuel f w = Some (Inr (List.map_filter (historyEntry (heAddress e) (heNowMs e w') (hfUser f))
    (filter (\<lambda>ev. led ev \<le> to) (take n (filter (\<lambda>ev. from \<le> led ev) xs)))), w')"
proof -
  have n: "1 \<le> n" and ft: "\<not> to < from" using assms(5-8) by (auto simp: swapHistoryFilterSchema_def opt_all_def)
  obtain s w' where s: "scan (log_env True xs) (newCursorOptions None None) fuel
      \<lparr>spContracts = Some (case hfPair f of Some p \<Rightarrow> [p] | None \<Rightarrow> []), spTopics = Some [''swap''], spFrom = Some from, spTo = Some to,
        spLimit = Some (of_nat n)\<rparr> (reset w) = Some (Inr s, w')"
    and pre: "prefix (scanEvents s) (filter (\<lambda>ev. from \<le> led ev) xs)"
    and win: "filter (within_ledger (Some to)) (scanEvents s) = filter (\<lambda>ev. from \<le> led ev \<and> within_ledger (Some to) ev) xs"
    using scan_of_log[OF assms(1) n assms(9,4), where opts = "newCursorOptions None None" and ts = "Some [''swap'']" and s = "from" and to = "Some to"
        and w = "reset w" and cs = "Some (case hfPair f of Some p \<Rightarrow> [p] | None \<Rightarrow> [])"] by blast
  have win': "filter (within_ledger (Some to)) (scanEvents s) = filter (within_ledger (Some to)) (filter (\<lambda>ev. from \<le> led ev) xs)"
    using win by (simp add: conj_commute)
  have eq: "filter (\<lambda>ev. led ev \<le> to) (take n (scanEvents s)) = filter (\<lambda>ev. led ev \<le> to) (take n (filter (\<lambda>ev. from \<le> led ev) xs))"
    using window_of_prefix[OF pre win', of n] by (simp add: within_ledger_def[abs_def])
  have "beyond to ev \<longleftrightarrow> \<not> led ev \<le> to" if "ev \<in> set (take n (scanEvents s))" for ev
  proof -
    have "ev \<in> set xs" using that pre by (meson filter_is_subset in_set_takeD set_mono_prefix subsetD)
    then show ?thesis using assms(1) by (auto simp: good_log_def list_all_iff beyond_def led_def split: option.splits)
  qed
  then have "filter (\<lambda>ev. \<not> beyond to ev) (take n (scanEvents s)) = filter (\<lambda>ev. led ev \<le> to) (take n (scanEvents s))"
    by (intro filter_cong) auto
  then have h: "historyOf e (hfUser f) to n (scanEvents s) w' = List.map_filter (historyEntry (heAddress e) (heNowMs e w') (hfUser f))
      (filter (\<lambda>ev. led ev \<le> to) (take n (filter (\<lambda>ev. from \<le> led ev) xs)))" by (simp add: historyOf_eq eq)
  show ?thesis
    using s h assms(2,3,5-8) ft by (intro exI[of _ w'])
      (auto simp: getSwapHistory_def bindW_def liftW_def retW_def throw_if_def or_else_def)
qed

text \<open>Against a server that hands out cursors, a history is what decodes among the first events of the window, as many as
  the limit, oldest first.\<close>

theorem history_of_log:
  assumes "good_log xs" and "heEvents e = log_env True xs" and "heLedger e = retW current" and "length xs < fuel"
    and "swapHistoryFilterSchema (heValid e) f" and "hfFrom f = Some (of_int from)" and "hfTo f = Some (of_int to)"
    and "hfLimit f = Some (of_nat n)" and "n \<le> 10000"
  shows "\<exists>w'. getSwapHistory e fuel f w = Some (Inr (List.map_filter (historyEntry (heAddress e) (heNowMs e w') (hfUser f))
    (filter (\<lambda>ev. led ev \<le> to) (take n (filter (\<lambda>ev. from \<le> led ev) xs)))), w')"
  by (rule history_of_log_lemma[OF assms])

text \<open>The limit counts the swaps of everybody: the history of a user is the part of the same page that is his.\<close>

theorem user_filter_after_cap:
  assumes "hfUser f = Some u" and "swapHistoryFilterSchema (heValid e) f"
    and "getSwapHistory e fuel (f\<lparr>hfUser := None\<rparr>) w = Some (Inr xs, w')"
  shows "getSwapHistory e fuel f w = Some (Inr (filter (\<lambda>s. seSender s = u) xs), w')"
proof -
  have u: "u \<noteq> []" using assms(1,2) by (simp add: swapHistoryFilterSchema_def opt_all_def history_address_def)
  have v: "swapHistoryFilterSchema (heValid e) (f\<lparr>hfUser := None\<rparr>)" using assms(2) by (simp add: swapHistoryFilterSchema_def opt_all_def)
  have h: "historyOf e (Some u) to n evs w = filter (\<lambda>s. seSender s = u) (historyOf e None to n evs w)" for to n evs w
    unfolding historyOf_eq by (rule map_filter_select) (rule entry_of_user[OF u])
  show ?thesis using assms(1,2,3) v
    by (auto simp: getSwapHistory_def h Let_def throw_if_def bindW_def liftW_def retW_def split: prod.splits sum.splits if_splits)
      (auto simp: map_sum_def split: sum.splits)
qed

text \<open>On a chain of at most a thousand ledgers the default window starts at ledger 0, which the server rejects.\<close>

theorem young_chain_has_no_history:
  assumes "heLedger e = retW current" and "0 \<le> current" and "current \<le> 1000" and "hfFrom f = None" and "hfTo f = None" and "hfLimit f = None"
    and "swapHistoryFilterSchema (heValid e) f"
    and "\<And>req w. reqStart req = Some 0 \<Longrightarrow> \<exists>x w'. getEvents (heEvents e) req w = (Inl x, w')"
  shows "\<exists>x w'. getSwapHistory e (Suc fuel) f w = Some (Inl x, w')"
proof -
  have "reqStart (page_request n cs ts (scan_start n 0)) = Some 0" for n cs ts by (simp add: page_request_def scan_start_def)
  then have get: "\<exists>x w'. getEvents (heEvents e) (page_request n cs ts (scan_start n 0)) w = (Inl x, w')" for n cs ts w using assms(8) by blast
  have scan: "\<exists>x w'. scan (heEvents e) (newCursorOptions None None) (Suc fuel) \<lparr>spContracts = cs, spTopics = ts, spFrom = Some 0,
      spTo = to, spLimit = Some 200\<rparr> w = Some (Inl x, w')" for cs ts to w
  proof -
    obtain x v where "getEvents (heEvents e) (page_request 200 (case cs of None \<Rightarrow> [] | Some c \<Rightarrow> c)
        (encodeTopics (symbolXdr (heEvents e)) ts) (scan_start 200 0)) w = (Inl x, v)" using get by blast
    then show ?thesis by (simp add: scan_def MAX_EVENT_LIMIT_def)
  qed
  obtain x v where "scan (heEvents e) (newCursorOptions None None) (Suc fuel) \<lparr>spContracts = Some (case hfPair f of Some p \<Rightarrow> [p] | None \<Rightarrow> []),
      spTopics = Some [''swap''], spFrom = Some 0, spTo = Some current, spLimit = Some 200\<rparr> (reset w) = Some (Inl x, v)"
    using scan by blast
  moreover have "max 0 (current - DEFAULT_HISTORY_WINDOW) = 0" using assms(3) by (simp add: DEFAULT_HISTORY_WINDOW_def)
  ultimately show ?thesis using assms(1,2,4-7)
    by (simp add: getSwapHistory_def bindW_def liftW_def retW_def throw_if_def or_else_def DEFAULT_HISTORY_LIMIT_def)
qed

section \<open>Runs\<close>

text \<open>Three swaps in ledgers 4, 5 and 5: two of \<open>a\<close> and the last of \<open>b\<close>.\<close>

definition swap_value :: "string \<Rightarrow> scval" where
  "swap_value who = ScvMap (Some [(ScvSymbol ''sender'', ScvString who), (ScvSymbol ''amount_in'', ScvI128 20000), (ScvSymbol ''amount_out'', ScvI128 7),
     (ScvSymbol ''token_in'', ScvString ''A''), (ScvSymbol ''token_out'', ScvString ''B''), (ScvSymbol ''fee_bps'', ScvU32 30)])"

definition three_swaps :: "raw_event list" where
  "three_swaps = map (\<lambda>(l, i, who). \<lparr>erSuccessful = Some True, erContract = Some ''P'', erTopic = Some [ScvSymbol ''swap''],
     erValue = Some (swap_value who), erTxHash = Some ''h'', erLedger = Some l, erClosedMs = Some 1000, reId = Some i, reIndex = None,
     rePagingToken = None\<rparr>) [(4, ''1'', ''a''), (5, ''2'', ''a''), (5, ''3'', ''b'')]"

definition sample_history :: "raw_event list \<Rightarrow> cursor_state history_env" where
  "sample_history xs = \<lparr>heLedger = retW 10, heEvents = log_env True xs, heAddress = key_text, heNowMs = (\<lambda>w. 0), heValid = (\<lambda>a. True),
     heZodText = [], heNumText = (\<lambda>q. [])\<rparr>"

definition window_filter :: "string option \<Rightarrow> history_filter" where
  "window_filter user = \<lparr>hfPair = None, hfUser = user, hfFrom = Some (of_int 4), hfTo = Some (of_int 9), hfLimit = Some (of_nat 2)\<rparr>"

lemma window_ok: "swapHistoryFilterSchema (\<lambda>a. True) (window_filter None)" "swapHistoryFilterSchema (\<lambda>a. True) (window_filter (Some ''b''))"
  by (simp_all add: swapHistoryFilterSchema_def window_filter_def opt_all_def history_address_def)

lemma three_swaps_log: "good_log three_swaps"
  by (simp add: three_swaps_def good_log_def led_def)

lemma page_of_two: "map seSender (List.map_filter (historyEntry key_text 0 None) (filter (\<lambda>ev. led ev \<le> 9)
    (take 2 (filter (\<lambda>ev. 4 \<le> led ev) three_swaps)))) = [''a'', ''a'']"
  by code_simp

lemma page_run: "\<exists>xs w'. getSwapHistory (sample_history three_swaps) 9 (window_filter None) \<lparr>cursorAt = None\<rparr> = Some (Inr xs, w') \<and>
    map seSender xs = [''a'', ''a'']"
proof -
  have "\<exists>w'. getSwapHistory (sample_history three_swaps) 9 (window_filter None) \<lparr>cursorAt = None\<rparr> = Some (Inr (List.map_filter
      (historyEntry (heAddress (sample_history three_swaps)) (heNowMs (sample_history three_swaps) w') (hfUser (window_filter None)))
      (filter (\<lambda>ev. led ev \<le> 9) (take 2 (filter (\<lambda>ev. 4 \<le> led ev) three_swaps)))), w')"
    by (rule history_of_log_lemma[OF three_swaps_log])
      (use window_ok in \<open>simp_all add: sample_history_def window_filter_def three_swaps_def\<close>)
  then show ?thesis using page_of_two by (auto simp: sample_history_def window_filter_def)
qed

theorem history_of_log_witness:
  "\<exists>w'. getSwapHistory (sample_history three_swaps) 9 (window_filter None) \<lparr>cursorAt = None\<rparr> = Some (Inr (List.map_filter
      (historyEntry (heAddress (sample_history three_swaps)) (heNowMs (sample_history three_swaps) w') (hfUser (window_filter None)))
      (filter (\<lambda>ev. led ev \<le> 9) (take 2 (filter (\<lambda>ev. 4 \<le> led ev) three_swaps)))), w')"
  by (rule history_of_log[OF three_swaps_log])
    (use window_ok in \<open>simp_all add: sample_history_def window_filter_def three_swaps_def\<close>)

text \<open>A user whose swap is the third of the window has no history under a limit of two.\<close>

theorem user_filter_after_cap_witness:
  "\<exists>w'. getSwapHistory (sample_history three_swaps) 9 (window_filter (Some ''b'')) \<lparr>cursorAt = None\<rparr> = Some (Inr [], w')"
proof -
  obtain xs w' where xs: "getSwapHistory (sample_history three_swaps) 9 (window_filter None) \<lparr>cursorAt = None\<rparr> = Some (Inr xs, w')"
    "map seSender xs = [''a'', ''a'']" using page_run by (elim exE conjE) (rule that)
  have "filter (\<lambda>s. seSender s = ''b'') xs = []" using xs(2) by (auto simp: filter_empty_conv map_eq_Cons_conv)
  moreover have "window_filter (Some ''b'')\<lparr>hfUser := None\<rparr> = window_filter None" by (simp add: window_filter_def)
  ultimately show ?thesis
    using user_filter_after_cap[of "window_filter (Some ''b'')" "''b''" "sample_history three_swaps" 9] xs(1) window_ok(2)
    by (simp add: sample_history_def) (simp add: window_filter_def)
qed

definition strict_history :: "cursor_state history_env" where
  "strict_history = (sample_history [])\<lparr>heEvents := \<lparr>getEvents = (\<lambda>r. if reqStart r = Some 0 then throwW (Sdk (JsError ''startLedger must be positive''))
     else retW \<lparr>pgEvents = [], pgLatest = None, pgCursor = None\<rparr>), getLatestLedger = retW 10, symbolXdr = id\<rparr>\<rparr>"

theorem young_chain_has_no_history_witness:
  "\<exists>x w'. getSwapHistory strict_history (Suc 0) \<lparr>hfPair = None, hfUser = None, hfFrom = None, hfTo = None, hfLimit = None\<rparr> \<lparr>cursorAt = None\<rparr> =
     Some (Inl x, w')"
  by (rule young_chain_has_no_history[where current = 10])
    (auto simp: strict_history_def sample_history_def swapHistoryFilterSchema_def opt_all_def throwW_def)

end
