(* ===== verification/Treasury.thy ===== *)
theory Treasury
  imports Fees SwapHistory
begin

text \<open>
  \<open>modules/treasury.ts\<close>: spot prices anchored at stablecoins, the holdings of the fee recipient, their allocation,
  and the fee revenue of all pools. Pairs, tokens and the server are in \<open>treasury_env\<close>; \<open>trDecimals\<close> is the number a
  successful simulation returns. Numbers are exact rationals, ledgers integers. Whatever runs over the pairs keeps
  their order.
\<close>

section \<open>Data\<close>

record token_balance =
  tbAddress :: string
  tbSymbol :: string
  tbAmount :: int
  tbValue :: rat

record allocation =
  aoToken :: string
  aoPercentage :: rat
  aoValue :: rat
  aoAmount :: int

record pool_revenue =
  plPair :: string
  plRevenue :: rat
  plVolume :: rat

datatype trend = Rising | Falling | Stable

record revenue_data =
  rdTotal :: rat
  rdByPool :: "pool_revenue list"
  rdTrend :: trend

text \<open>The cache of decimals is the module's; a scan has a cursor of its own.\<close>

record treasury_state = cursor_state +
  trCache :: "int js_map"

record 'w treasury_env =
  trStable :: "string list"
  trFeeTo :: "('w, thrown, string) act"
  trPairs :: "('w, thrown, string list) act"
  trTokens :: "string \<Rightarrow> ('w, thrown, string \<times> string) act"
  trReserves :: "string \<Rightarrow> ('w, thrown, int \<times> int) act"
  trLpToken :: "string \<Rightarrow> ('w, thrown, string) act"
  trBalance :: "string \<Rightarrow> string \<Rightarrow> ('w, thrown, int) act"
  trSupply :: "string \<Rightarrow> ('w, thrown, int) act"
  trSymbol :: "string \<Rightarrow> ('w, thrown, string) act"
  trDecimals :: "string \<Rightarrow> ('w, thrown, rat option) act"
  trLedger :: "('w, thrown, int) act"
  trEvents :: "'w event_env"
  trAddress :: "scval \<Rightarrow> string option"

section \<open>Spot prices\<close>

text \<open>One pair: a token not yet priced gets the ratio of the reserves of a pair with a stablecoin.\<close>

definition anchorPair :: "string list \<Rightarrow> (string \<times> string) \<times> (int \<times> int) \<Rightarrow> rat js_map \<Rightarrow> rat js_map" where
  "anchorPair anchors v prices = (case v of ((t0, t1), (r0, r1)) \<Rightarrow>
     if r0 = 0 \<or> r1 = 0 then prices
     else if t0 \<in> set anchors \<and> js_get prices t1 = None then js_set prices t1 (of_int r0 / of_int r1)
     else if t1 \<in> set anchors \<and> js_get prices t0 = None then js_set prices t0 (of_int r1 / of_int r0)
     else prices)"

fun pricePairs :: "'w treasury_env \<Rightarrow> string list \<Rightarrow> rat js_map \<Rightarrow> ('w, thrown, rat js_map) act" where
  "pricePairs e [] prices = retW prices"
| "pricePairs e (p # ps) prices = bindW (catchW (bindW (trTokens e p) (\<lambda>ts. bindW (trReserves e p) (\<lambda>rs.
     retW (anchorPair (trStable e) (ts, rs) prices)))) (\<lambda>_. retW prices)) (pricePairs e ps)"

definition buildPriceMap :: "'w treasury_env \<Rightarrow> string list \<Rightarrow> ('w, thrown, rat js_map) act" where
  "buildPriceMap e pairs = (let prices = fold (\<lambda>a m. js_set m a 1) (trStable e) [] in
     if trStable e = [] then retW prices else pricePairs e pairs prices)"

definition getSpotPriceMap :: "'w treasury_env \<Rightarrow> string list \<Rightarrow> ('w, thrown, rat js_map) act" where
  "getSpotPriceMap e pairs = buildPriceMap e pairs"

definition price_of :: "rat js_map \<Rightarrow> string \<Rightarrow> rat" where
  "price_of prices t = or_else (js_get prices t) 0"

section \<open>Holdings and allocation\<close>

definition holdingValue :: "rat js_map \<Rightarrow> (string \<times> string) \<Rightarrow> (int \<times> int) \<Rightarrow> int \<Rightarrow> int \<Rightarrow> rat" where
  "holdingValue prices ts rs bal issued = (case (ts, rs) of ((t0, t1), (r0, r1)) \<Rightarrow>
     of_int bal / of_int issued * (of_int r0 / 10 ^ 7 * price_of prices t0 + of_int r1 / 10 ^ 7 * price_of prices t1))"

definition lpHolding :: "'w treasury_env \<Rightarrow> string \<Rightarrow> rat js_map \<Rightarrow> string \<Rightarrow> ('w, thrown, token_balance option) act" where
  "lpHolding e owner prices p = bindW (trLpToken e p) (\<lambda>lp. bindW (trBalance e lp owner) (\<lambda>bal. bindW (trSupply e lp) (\<lambda>issued.
     bindW (trReserves e p) (\<lambda>rs. bindW (trTokens e p) (\<lambda>ts. bindW (trSymbol e lp) (\<lambda>symbol.
     retW (if bal = 0 \<or> issued = 0 then None
       else Some \<lparr>tbAddress = lp, tbSymbol = symbol, tbAmount = bal, tbValue = holdingValue prices ts rs bal issued\<rparr>)))))))"

fun collectLPHoldings :: "'w treasury_env \<Rightarrow> string \<Rightarrow> rat js_map \<Rightarrow> string list \<Rightarrow> ('w, thrown, token_balance list) act" where
  "collectLPHoldings e owner prices [] = retW []"
| "collectLPHoldings e owner prices (p # ps) = bindW (catchW (lpHolding e owner prices p) (\<lambda>_. retW None)) (\<lambda>h.
     bindW (collectLPHoldings e owner prices ps) (\<lambda>hs. retW (case h of Some x \<Rightarrow> x # hs | None \<Rightarrow> hs)))"

definition getTreasuryAddress :: "'w treasury_env \<Rightarrow> ('w, thrown, string) act" where
  "getTreasuryAddress e = trFeeTo e"

definition getTreasuryBalance :: "'w treasury_env \<Rightarrow> ('w, thrown, rat \<times> token_balance list) act" where
  "getTreasuryBalance e = bindW (getTreasuryAddress e) (\<lambda>owner. bindW (trPairs e) (\<lambda>pairs.
     if pairs = [] then retW (0, [])
     else bindW (buildPriceMap e pairs) (\<lambda>prices. bindW (collectLPHoldings e owner prices pairs) (\<lambda>ts.
       retW (sum_list (map tbValue ts), ts)))))"

definition round_cents :: "rat \<Rightarrow> rat" where
  "round_cents q = of_int \<lfloor>q * 100 + 1 / 2\<rfloor> / 100"

definition normalizePercentages :: "allocation list \<Rightarrow> allocation list" where
  "normalizePercentages as = (if as = [] then as else let raw = sum_list (map aoPercentage as) in
     if raw = 0 then as
     else let rounded = map (\<lambda>a. a\<lparr>aoPercentage := round_cents (aoPercentage a * (100 / raw))\<rparr>) (butlast as);
         running = sum_list (map aoPercentage rounded)
       in rounded @ [(last as)\<lparr>aoPercentage := round_cents (100 - running)\<rparr>])"

definition by_percentage :: "allocation \<Rightarrow> allocation \<Rightarrow> int" where
  "by_percentage a b = (if aoPercentage a < aoPercentage b then 1 else if aoPercentage b < aoPercentage a then -1 else 0)"

definition allocationsOf :: "rat \<Rightarrow> token_balance list \<Rightarrow> allocation list" where
  "allocationsOf sumUSD ts = (let as = sort_by by_percentage (map (\<lambda>t. \<lparr>aoToken = tbAddress t,
       aoPercentage = (if 0 < sumUSD then tbValue t / sumUSD * 100 else 0), aoValue = tbValue t, aoAmount = tbAmount t\<rparr>) ts) in
     if 0 < sumUSD then normalizePercentages as else as)"

definition getTreasuryAllocation :: "'w treasury_env \<Rightarrow> ('w, thrown, allocation list \<times> rat) act" where
  "getTreasuryAllocation e = bindW (getTreasuryBalance e) (\<lambda>(sumUSD, ts).
     retW (if ts = [] then ([], 0) else (allocationsOf sumUSD ts, sumUSD)))"

section \<open>Revenue\<close>

definition LEDGERS_PER_30_DAYS :: int where
  "LEDGERS_PER_30_DAYS = 518400"

definition MAX_REVENUE_EVENTS :: rat where
  "MAX_REVENUE_EVENTS = 10000"

definition treasury_fallback :: int where
  "treasury_fallback = 7"

definition treasuryDecimals :: "('x treasury_state_scheme) treasury_env \<Rightarrow> string \<Rightarrow> ('x treasury_state_scheme, thrown, int) act" where
  "treasuryDecimals e a w = (case js_get (trCache w) a of Some d \<Rightarrow> (Inr d, w)
     | None \<Rightarrow> bindW (catchW (trDecimals e a) (\<lambda>_. retW None)) (\<lambda>d w.
         let safe = (case d of Some q \<Rightarrow> if q = of_int \<lfloor>q\<rfloor> \<and> 0 \<le> q \<and> q \<le> 18 then \<lfloor>q\<rfloor> else treasury_fallback | None \<Rightarrow> treasury_fallback)
         in (Inr safe, w\<lparr>trCache := js_set (trCache w) a safe\<rparr>)) w)"

text \<open>\<open>eventTopic\<close> is \<open>decodeEventTopic\<close> on parsed topics. Of an \<open>i128\<close> only the bigint form is read here.\<close>

definition eventTopic :: "scval \<Rightarrow> string" where
  "eventTopic v = or_else (key_text v) []"

definition parseSwapEventForRevenue :: "(scval \<Rightarrow> string option) \<Rightarrow> raw_event \<Rightarrow> (int \<times> int \<times> string) option" where
  "parseSwapEventForRevenue addr ev = (case erTopic ev of
       Some (t # ts) \<Rightarrow> if eventTopic t \<noteq> ''swap'' then None
         else (case erValue ev of Some (ScvMap (Some m)) \<Rightarrow>
             (case (getMapValue m ''amount_in'', getMapValue m ''fee_bps'', Option.bind (getMapValue m ''token_in'') addr) of
               (Some (ScvI128 amt), Some (ScvU32 bps), Some token) \<Rightarrow> Some (amt, amt * bps sdiv 10000, token)
             | _ \<Rightarrow> None)
           | _ \<Rightarrow> None)
     | _ \<Rightarrow> None)"

record pool_sums =
  psRevenue :: rat
  psVolume :: rat
  psFirst :: rat
  psSecond :: rat

definition no_sums :: pool_sums where
  "no_sums = \<lparr>psRevenue = 0, psVolume = 0, psFirst = 0, psSecond = 0\<rparr>"

fun sumRevenue :: "('x treasury_state_scheme) treasury_env \<Rightarrow> int \<Rightarrow> int \<Rightarrow> rat js_map \<Rightarrow> raw_event list \<Rightarrow> pool_sums \<Rightarrow>
    ('x treasury_state_scheme, thrown, pool_sums) act" where
  "sumRevenue e to mid prices [] s = retW s"
| "sumRevenue e to mid prices (ev # evs) s = (if beyond to ev then sumRevenue e to mid prices evs s
     else case parseSwapEventForRevenue (trAddress e) ev of None \<Rightarrow> sumRevenue e to mid prices evs s
     | Some (amt, fee, token) \<Rightarrow> bindW (treasuryDecimals e token) (\<lambda>d.
         let feeUSD = shown_amount fee d * price_of prices token; volUSD = shown_amount amt d * price_of prices token;
           early = (case erLedger ev of Some l \<Rightarrow> l \<le> mid | None \<Rightarrow> False)
         in sumRevenue e to mid prices evs \<lparr>psRevenue = psRevenue s + feeUSD, psVolume = psVolume s + volUSD,
           psFirst = psFirst s + (if early then feeUSD else 0), psSecond = psSecond s + (if early then 0 else feeUSD)\<rparr>))"

definition fetchPoolRevenue :: "('x treasury_state_scheme) treasury_env \<Rightarrow> nat \<Rightarrow> string \<Rightarrow> int \<Rightarrow> int \<Rightarrow> int \<Rightarrow> rat js_map \<Rightarrow>
    'x treasury_state_scheme \<Rightarrow> ((thrown + pool_sums) \<times> 'x treasury_state_scheme) option" where
  "fetchPoolRevenue e fuel p from to mid prices w = (case scan (trEvents e) (newCursorOptions None None) fuel
       \<lparr>spContracts = Some [p], spTopics = Some [''swap''], spFrom = Some from, spTo = Some to, spLimit = Some MAX_REVENUE_EVENTS\<rparr> (reset w) of
       None \<Rightarrow> None | Some (Inl x, w1) \<Rightarrow> Some (Inl x, w1)
     | Some (Inr s, w1) \<Rightarrow> Some (sumRevenue e to mid prices (scanEvents s) no_sums w1))"

fun revenueOfPools :: "('x treasury_state_scheme) treasury_env \<Rightarrow> nat \<Rightarrow> int \<Rightarrow> int \<Rightarrow> int \<Rightarrow> rat js_map \<Rightarrow> string list \<Rightarrow>
    'x treasury_state_scheme \<Rightarrow> ((thrown + (string \<times> pool_sums) list) \<times> 'x treasury_state_scheme) option" where
  "revenueOfPools e fuel from to mid prices [] w = Some (Inr [], w)"
| "revenueOfPools e fuel from to mid prices (p # ps) w = (case fetchPoolRevenue e fuel p from to mid prices w of
       None \<Rightarrow> None | Some (Inl x, w1) \<Rightarrow> Some (Inl x, w1)
     | Some (Inr s, w1) \<Rightarrow> map_option (\<lambda>(r, w2). (map_sum id ((#) (p, s)) r, w2)) (revenueOfPools e fuel from to mid prices ps w1))"

definition computeTrend :: "rat \<Rightarrow> rat \<Rightarrow> trend" where
  "computeTrend a b = (if a = 0 \<and> b = 0 then Stable else if a = 0 then (if 0 < b then Rising else Stable)
     else if a * (11 / 10) < b then Rising else if b < a * (9 / 10) then Falling else Stable)"

definition by_revenue :: "pool_revenue \<Rightarrow> pool_revenue \<Rightarrow> int" where
  "by_revenue a b = (if plRevenue a < plRevenue b then 1 else if plRevenue b < plRevenue a then -1 else 0)"

definition revenueReport :: "(string \<times> pool_sums) list \<Rightarrow> revenue_data" where
  "revenueReport rs = (let pools = sort_by by_revenue (map (\<lambda>(p, s). \<lparr>plPair = p, plRevenue = psRevenue s, plVolume = psVolume s\<rparr>) rs) in
     \<lparr>rdTotal = sum_list (map plRevenue pools), rdByPool = pools,
       rdTrend = computeTrend (sum_list (map (psFirst \<circ> snd) rs)) (sum_list (map (psSecond \<circ> snd) rs))\<rparr>)"

definition validatePeriod :: "int option \<Rightarrow> int option \<Rightarrow> unit result" where
  "validatePeriod from to = (if opt_all (\<lambda>l. 0 \<le> l) from then
       if opt_all (\<lambda>l. 0 \<le> l) to then
         throw_if (case (from, to) of (Some a, Some b) \<Rightarrow> b < a | _ \<Rightarrow> False) (ValidationError ''period.fromLedger must not exceed period.toLedger'')
       else Inl (ValidationError ''period.toLedger must be non-negative'')
     else Inl (ValidationError ''period.fromLedger must be non-negative''))"

definition treasuryRevenue :: "('x treasury_state_scheme) treasury_env \<Rightarrow> nat \<Rightarrow> int option \<Rightarrow> int option \<Rightarrow> 'x treasury_state_scheme \<Rightarrow>
    ((thrown + revenue_data) \<times> 'x treasury_state_scheme) option" where
  "treasuryRevenue e fuel from to w =
     (case bindW (liftW (validatePeriod from to)) (\<lambda>_. bindW (trLedger e) (\<lambda>current. bindW (trPairs e) (\<lambda>pairs.
        bindW (buildPriceMap e pairs) (\<lambda>prices. retW (current, pairs, prices))))) w of
       (Inl x, w1) \<Rightarrow> Some (Inl x, w1)
     | (Inr (current, pairs, prices), w1) \<Rightarrow>
         (let l1 = or_else to current; l0 = max MIN_START_LEDGER (or_else from (current - LEDGERS_PER_30_DAYS)) in
          map_option (\<lambda>(r, w2). (map_sum id revenueReport r, w2)) (revenueOfPools e fuel l0 l1 ((l0 + l1) div 2) prices pairs w1)))"

section \<open>What the prices are\<close>

text \<open>The price a pair gives a token: none when a read fails, a reserve is empty, or the other side is no stablecoin.\<close>

definition anchored :: "string list \<Rightarrow> thrown + string \<times> string \<Rightarrow> thrown + int \<times> int \<Rightarrow> string \<Rightarrow> rat option" where
  "anchored anchors ts rs t = (case (ts, rs) of (Inr (t0, t1), Inr (r0, r1)) \<Rightarrow>
     if r0 = 0 \<or> r1 = 0 then None
     else if t0 \<in> set anchors \<and> t1 = t then Some (of_int r0 / of_int r1)
     else if t1 \<in> set anchors \<and> t0 = t then Some (of_int r1 / of_int r0) else None
   | _ \<Rightarrow> None)"

fun first_price :: "(string \<Rightarrow> rat option) list \<Rightarrow> string \<Rightarrow> rat option" where
  "first_price [] t = None"
| "first_price (f # fs) t = (case f t of Some q \<Rightarrow> Some q | None \<Rightarrow> first_price fs t)"

definition all_priced :: "string list \<Rightarrow> rat js_map \<Rightarrow> bool" where
  "all_priced anchors m \<longleftrightarrow> (\<forall>a \<in> set anchors. js_get m a = Some 1)"

lemma anchorPair_keeps: "all_priced anchors m \<Longrightarrow> all_priced anchors (anchorPair anchors v m)"
  by (auto simp: all_priced_def anchorPair_def js_get_set split: prod.splits)

lemma anchorPair_get:
  assumes "all_priced anchors m" and "t \<notin> set anchors"
  shows "js_get (anchorPair anchors (ts, rs) m) t = (case js_get m t of Some q \<Rightarrow> Some q | None \<Rightarrow> anchored anchors (Inr ts) (Inr rs) t)"
  using assms by (auto simp: all_priced_def anchorPair_def anchored_def js_get_set split: prod.splits option.splits)

lemma pricePairs_exact:
  assumes "\<And>p. trTokens e p = (\<lambda>w. (tk p, w))" and "\<And>p. trReserves e p = (\<lambda>w. (rv p, w))" and "all_priced (trStable e) m"
  shows "\<exists>m'. pricePairs e ps m w = (Inr m', w) \<and> all_priced (trStable e) m' \<and> (\<forall>t. t \<notin> set (trStable e) \<longrightarrow> js_get m' t =
    (case js_get m t of Some q \<Rightarrow> Some q | None \<Rightarrow> first_price (map (\<lambda>p. anchored (trStable e) (tk p) (rv p)) ps) t))"
  using assms(3)
proof (induction ps arbitrary: m)
  case (Cons p ps)
  show ?case
  proof (cases "\<exists>ts rs. tk p = Inr ts \<and> rv p = Inr rs")
    case True
    then obtain ts rs where v: "tk p = Inr ts" "rv p = Inr rs" by blast
    let ?m = "anchorPair (trStable e) (ts, rs) m"
    obtain m' where m': "pricePairs e ps ?m w = (Inr m', w)" "all_priced (trStable e) m'"
      "\<And>t. t \<notin> set (trStable e) \<Longrightarrow> js_get m' t = (case js_get ?m t of Some q \<Rightarrow> Some q
        | None \<Rightarrow> first_price (map (\<lambda>p. anchored (trStable e) (tk p) (rv p)) ps) t)"
      using Cons.IH[OF anchorPair_keeps[OF Cons.prems]] by blast
    have "pricePairs e (p # ps) m w = (Inr m', w)" using m'(1) v by (simp add: bindW_def catchW_def retW_def assms(1,2))
    then show ?thesis using m'(2,3) anchorPair_get[OF Cons.prems] v by (auto split: option.splits)
  next
    case False
    then have none: "anchored (trStable e) (tk p) (rv p) t = None" for t
      by (auto simp: anchored_def split: sum.splits prod.splits)
    have skip: "pricePairs e (p # ps) m w = pricePairs e ps m w" using False
      by (cases "tk p"; cases "rv p") (auto simp: bindW_def catchW_def retW_def assms(1,2))
    have "first_price (map (\<lambda>p. anchored (trStable e) (tk p) (rv p)) (p # ps)) t =
        first_price (map (\<lambda>p. anchored (trStable e) (tk p) (rv p)) ps) t" for t by (simp add: none)
    then show ?thesis unfolding skip using Cons.IH[OF Cons.prems] by presburger
  qed
qed (auto simp: retW_def split: option.splits)

lemma stable_prices: "all_priced as (fold (\<lambda>a m. js_set m a 1) as m)"
  by (induction as rule: rev_induct) (auto simp: all_priced_def js_get_set)

lemma stable_only: "t \<notin> set as \<Longrightarrow> js_get (fold (\<lambda>a m. js_set m a 1) as m) t = js_get m t"
  by (induction as arbitrary: m) (auto simp: js_get_set)

lemma price_map_exact_lemma:
  assumes "\<And>p. trTokens e p = (\<lambda>w. (tk p, w))" and "\<And>p. trReserves e p = (\<lambda>w. (rv p, w))"
  shows "\<exists>m. buildPriceMap e pairs w = (Inr m, w) \<and> (\<forall>t. js_get m t = (if t \<in> set (trStable e) then Some 1
    else if trStable e = [] then None else first_price (map (\<lambda>p. anchored (trStable e) (tk p) (rv p)) pairs) t))"
proof (cases "trStable e = []")
  case True
  then show ?thesis by (simp add: buildPriceMap_def retW_def)
next
  case False
  obtain m where "pricePairs e pairs (fold (\<lambda>a m. js_set m a 1) (trStable e) []) w = (Inr m, w)" "all_priced (trStable e) m"
    "\<And>t. t \<notin> set (trStable e) \<Longrightarrow> js_get m t = (case js_get (fold (\<lambda>a m. js_set m a 1) (trStable e) []) t of Some q \<Rightarrow> Some q
      | None \<Rightarrow> first_price (map (\<lambda>p. anchored (trStable e) (tk p) (rv p)) pairs) t)"
    using pricePairs_exact[OF assms stable_prices] by blast
  then show ?thesis using False by (auto simp: buildPriceMap_def stable_only all_priced_def)
qed

text \<open>A stablecoin is worth 1; any other token what the first pair with a stablecoin says, however small the pair, and
  nothing when no pair joins it to one directly.\<close>

theorem price_map_exact:
  assumes "\<And>p. trTokens e p = (\<lambda>w. (tk p, w))" and "\<And>p. trReserves e p = (\<lambda>w. (rv p, w))"
  shows "\<exists>m. buildPriceMap e pairs w = (Inr m, w) \<and> (\<forall>t. js_get m t = (if t \<in> set (trStable e) then Some 1
    else if trStable e = [] then None else first_price (map (\<lambda>p. anchored (trStable e) (tk p) (rv p)) pairs) t))"
  by (rule price_map_exact_lemma[OF assms])

text \<open>The prices are ratios of raw reserves, the amounts are divided by the token's decimals: what a report calls dollars is
  off by the difference of the decimals of stablecoin and token.\<close>

theorem spot_value_scale:
  assumes "trStable e = [s]" and "s \<noteq> t" and "trTokens e p = retW (s, t)" and "trReserves e p = retW (r0, r1)" and "r0 \<noteq> 0" and "r1 \<noteq> 0"
  shows "\<exists>m. buildPriceMap e [p] w = (Inr m, w) \<and> shown_amount amt dt * price_of m t =
    shown_amount amt dt * (shown_amount r0 ds / shown_amount r1 dt) * (10 ^ nat ds / 10 ^ nat dt)"
proof -
  have "buildPriceMap e [p] w = (Inr (js_set (js_set [] s 1) t (of_int r0 / of_int r1)), w)"
    using assms by (simp add: buildPriceMap_def Let_def bindW_def catchW_def retW_def anchorPair_def js_get_set)
  then show ?thesis by (simp add: price_of_def js_get_set or_else_def shown_amount_def field_simps)
qed

section \<open>What an allocation is\<close>

lemma round_cents_whole: "round_cents (of_int k / 100) = of_int k / 100"
proof -
  have "\<lfloor>(of_int k :: rat) + 1 / 2\<rfloor> = k" by (simp add: floor_unique)
  then show ?thesis by (simp add: round_cents_def)
qed

lemma cents_sum: "\<exists>k. sum_list (map (\<lambda>x. round_cents (f x)) xs) = of_int k / 100"
proof (induction xs)
  case Nil
  show ?case by (intro exI[of _ 0]) simp
next
  case (Cons x xs)
  then obtain k where "sum_list (map (\<lambda>x. round_cents (f x)) xs) = of_int k / 100" by blast
  then show ?case by (intro exI[of _ "\<lfloor>f x * 100 + 1 / 2\<rfloor> + k"]) (simp add: round_cents_def add_divide_distrib)
qed

lemma normalized_sum:
  assumes "as \<noteq> []" and "sum_list (map aoPercentage as) \<noteq> 0"
  shows "sum_list (map aoPercentage (normalizePercentages as)) = 100"
proof -
  define S where "S = sum_list (map (\<lambda>a. round_cents (aoPercentage a * (100 / sum_list (map aoPercentage as)))) (butlast as))"
  obtain k where k: "S = of_int k / 100" unfolding S_def
    using cents_sum[of "\<lambda>a. aoPercentage a * (100 / sum_list (map aoPercentage as))" "butlast as"] by blast
  have "round_cents (100 - S) = 100 - S" using round_cents_whole[of "10000 - k"] by (simp add: k diff_divide_distrib)
  moreover have "sum_list (map aoPercentage (normalizePercentages as)) = S + round_cents (100 - S)"
    using assms by (simp add: normalizePercentages_def Let_def comp_def S_def)
  ultimately show ?thesis by simp
qed

lemma normalized_tokens: "map aoToken (normalizePercentages as) = map aoToken as"
  by (cases as rule: rev_cases) (simp_all add: normalizePercentages_def Let_def comp_def)

text \<open>The percentages of an allocation with a value sum to 100 exactly, and every holding is there once.\<close>

theorem allocation_sums:
  assumes "ts \<noteq> []" and "sumUSD = sum_list (map tbValue ts)" and "0 < sumUSD"
  shows "sum_list (map aoPercentage (allocationsOf sumUSD ts)) = 100 \<and>
    mset (map aoToken (allocationsOf sumUSD ts)) = mset (map tbAddress ts)"
proof -
  let ?as = "map (\<lambda>t. \<lparr>aoToken = tbAddress t, aoPercentage = (if 0 < sumUSD then tbValue t / sumUSD * 100 else 0), aoValue = tbValue t,
    aoAmount = tbAmount t\<rparr>) ts"
  have m: "mset (sort_by by_percentage ?as) = mset ?as" by (rule sort_by_mset)
  have "sum_list (map aoPercentage (sort_by by_percentage ?as)) = sum_list (map aoPercentage ?as)"
    using arg_cong[OF m, of "\<lambda>M. sum_mset (image_mset aoPercentage M)"] by (simp only: mset_map[symmetric] sum_mset_sum_list)
  also have "\<dots> = sum_list (map tbValue ts) / sumUSD * 100" using assms(3)
    by (induction ts) (simp_all add: comp_def add_divide_distrib distrib_right)
  finally have "sum_list (map aoPercentage (sort_by by_percentage ?as)) = 100" using assms(2,3) by simp
  moreover have "sort_by by_percentage ?as \<noteq> []"
  proof -
    have "length (sort_by by_percentage ?as) = length ts" using arg_cong[OF m, of size] by simp
    then show ?thesis using assms(1) by auto
  qed
  moreover have "mset (map aoToken (sort_by by_percentage ?as)) = mset (map tbAddress ts)"
  proof -
    have "mset (map aoToken (sort_by by_percentage ?as)) = mset (map aoToken ?as)"
      using arg_cong[OF m, of "image_mset aoToken"] by (simp only: mset_map[symmetric])
    also have "map aoToken ?as = map tbAddress ts" by simp
    finally show ?thesis .
  qed
  ultimately show ?thesis using assms(3) by (simp add: allocationsOf_def Let_def normalized_sum normalized_tokens)
qed

lemma sort_by_equal: "(\<And>y. y \<in> set xs \<Longrightarrow> cmp x y \<le> 0) \<Longrightarrow> insert_by cmp x xs = x # xs"
  by (cases xs) auto

lemma sort_by_replicate:
  assumes "cmp x x \<le> 0"
  shows "sort_by cmp (replicate n x) = replicate n x"
proof (induction n)
  case (Suc n)
  have "insert_by cmp x (replicate n x) = x # replicate n x" by (rule sort_by_equal) (use assms in auto)
  then show ?case using Suc by (simp add: sort_by_def)
qed (simp add: sort_by_def)

lemma normalized_last:
  assumes "as \<noteq> []" and "sum_list (map aoPercentage as) = 100"
  shows "aoPercentage (last (normalizePercentages as)) = 100 - sum_list (map (\<lambda>a. round_cents (aoPercentage a)) (butlast as))"
proof -
  define S where "S = sum_list (map (\<lambda>a. round_cents (aoPercentage a)) (butlast as))"
  obtain k where k: "S = of_int k / 100" unfolding S_def using cents_sum[of aoPercentage "butlast as"] by blast
  have "round_cents (100 - S) = 100 - S" using round_cents_whole[of "10000 - k"] by (simp add: k diff_divide_distrib)
  moreover have "aoPercentage (last (normalizePercentages as)) = round_cents (100 - S)"
    using assms by (simp add: normalizePercentages_def Let_def comp_def S_def)
  ultimately show ?thesis by (simp add: S_def)
qed

text \<open>The rounding is made good by the last entry alone: of \<open>n + 1\<close> equal holdings the last gets what the rounded others
  leave, which may be negative, and may be the largest.\<close>

theorem equal_holdings_allocation:
  assumes "0 < tbValue t" and "as = allocationsOf (of_nat (n + 1) * tbValue t) (replicate (n + 1) t)"
  shows "aoPercentage (last as) = 100 - of_nat n * round_cents (100 / of_nat (n + 1))"
proof -
  define c :: rat where "c = of_nat (n + 1)"
  define a where "a = \<lparr>aoToken = tbAddress t, aoPercentage = 100 / c, aoValue = tbValue t, aoAmount = tbAmount t\<rparr>"
  have c: "0 < c" by (simp add: c_def)
  then have v: "0 < c * tbValue t" "tbValue t / (c * tbValue t) * 100 = 100 / c" using assms(1) by simp_all
  have "replicate (n + 1) a = map (\<lambda>t. \<lparr>aoToken = tbAddress t, aoPercentage = (if 0 < c * tbValue t then tbValue t / (c * tbValue t) * 100 else 0),
      aoValue = tbValue t, aoAmount = tbAmount t\<rparr>) (replicate (n + 1) t)" using v by (simp only: map_replicate a_def if_True)
  then have "as = normalizePercentages (sort_by by_percentage (replicate (n + 1) a))"
    using assms(2) v(1) by (auto simp: allocationsOf_def Let_def c_def a_def map_replicate simp del: replicate_Suc)
  also have "sort_by by_percentage (replicate (n + 1) a) = replicate (n + 1) a" by (rule sort_by_replicate) (simp add: by_percentage_def)
  finally have as: "as = normalizePercentages (replicate (n + 1) a)" .
  have "sum_list (map aoPercentage (replicate (n + 1) a)) = c * (100 / c)" by (simp only: map_replicate sum_list_replicate c_def) (simp add: a_def c_def)
  then have total: "sum_list (map aoPercentage (replicate (n + 1) a)) = 100" using c by simp
  have last: "butlast (replicate (n + 1) a) = replicate n a" using replicate_append_same[of n a] by (metis Suc_eq_plus1 butlast_snoc replicate_Suc)
  have "aoPercentage (last as) = 100 - sum_list (map (\<lambda>a. round_cents (aoPercentage a)) (replicate n a))"
    unfolding as using normalized_last[OF _ total] unfolding last by auto
  then show ?thesis by (simp add: map_replicate sum_list_replicate a_def c_def)
qed

section \<open>Revenue\<close>

lemma sumRevenue_splits:
  assumes "sumRevenue e to mid prices evs s w = (Inr s', w')" and "psRevenue s = psFirst s + psSecond s"
  shows "psRevenue s' = psFirst s' + psSecond s'"
  using assms
proof (induction evs arbitrary: s w)
  case (Cons ev evs)
  show ?case
  proof (cases "beyond to ev \<or> parseSwapEventForRevenue (trAddress e) ev = None")
    case True
    then show ?thesis using Cons by (auto split: if_splits)
  next
    case False
    then obtain amt fee token where p: "parseSwapEventForRevenue (trAddress e) ev = Some (amt, fee, token)" by (metis option.exhaust prod_cases3)
    obtain s1 w1 where "sumRevenue e to mid prices evs s1 w1 = (Inr s', w')" "psRevenue s1 = psFirst s1 + psSecond s1"
      using Cons.prems False p by (auto simp: act_simps Let_def)
    then show ?thesis by (rule Cons.IH)
  qed
qed (simp add: retW_def)

text \<open>Every fee is in one half of the window, so the trend compares parts of the revenue reported.\<close>

theorem revenue_halves:
  assumes "fetchPoolRevenue e fuel p from to mid prices w = Some (Inr s, w')"
  shows "psRevenue s = psFirst s + psSecond s"
  using assms sumRevenue_splits[of e to mid prices _ no_sums]
  by (auto simp: fetchPoolRevenue_def no_sums_def split: option.splits sum.splits prod.splits)

text \<open>A failed read of decimals is remembered as 7 for the life of the module, whatever the server says later.\<close>

theorem failed_decimals_stick:
  assumes "js_get (trCache w) a = None" and "trDecimals e a w = (Inl x, w1)"
  shows "\<exists>w2. treasuryDecimals e a w = (Inr 7, w2) \<and> treasuryDecimals e' a w2 = (Inr 7, w2)"
  using assms by (simp add: treasuryDecimals_def bindW_def catchW_def retW_def treasury_fallback_def js_get_set)

text \<open>Where the cache says what the contracts say.\<close>

definition cache_true :: "(string \<Rightarrow> int) \<Rightarrow> 'x treasury_state_scheme \<Rightarrow> bool" where
  "cache_true D w \<longleftrightarrow> (\<forall>a d. js_get (trCache w) a = Some d \<longrightarrow> d = D a)"

lemma decimals_true:
  assumes "\<And>a. trDecimals e a = retW (Some (of_int (D a)))" and "\<And>a. 0 \<le> D a \<and> D a \<le> 18" and "cache_true D w"
  shows "\<exists>w'. treasuryDecimals e a w = (Inr (D a), w') \<and> cache_true D w'"
proof (cases "js_get (trCache w) a")
  case None
  have "(0 :: rat) \<le> of_int (D a)" "(of_int (D a) :: rat) \<le> 18" using assms(2)[of a] by simp_all
  then show ?thesis using None assms
    by (auto simp: treasuryDecimals_def bindW_def catchW_def retW_def Let_def cache_true_def js_get_set)
next
  case (Some d)
  then show ?thesis using assms(3) by (auto simp: treasuryDecimals_def cache_true_def)
qed

definition fee_usd :: "(scval \<Rightarrow> string option) \<Rightarrow> (string \<Rightarrow> int) \<Rightarrow> rat js_map \<Rightarrow> raw_event \<Rightarrow> rat" where
  "fee_usd addr D prices ev = (case parseSwapEventForRevenue addr ev of
     Some (amt, fee, token) \<Rightarrow> shown_amount fee (D token) * price_of prices token | None \<Rightarrow> 0)"

lemma sumRevenue_exact:
  assumes "\<And>a. trDecimals e a = retW (Some (of_int (D a)))" and "\<And>a. 0 \<le> D a \<and> D a \<le> 18" and "cache_true D w"
  shows "\<exists>s' w'. sumRevenue e to mid prices evs s w = (Inr s', w') \<and> cache_true D w' \<and>
    psRevenue s' = psRevenue s + sum_list (map (fee_usd (trAddress e) D prices) (filter (\<lambda>ev. \<not> beyond to ev) evs))"
  using assms(3)
proof (induction evs arbitrary: s w)
  case (Cons ev evs)
  show ?case
  proof (cases "parseSwapEventForRevenue (trAddress e) ev")
    case None
    then show ?thesis using Cons.IH[OF Cons.prems, of s] by (simp add: fee_usd_def)
  next
    case (Some v)
    obtain amt fee token where v: "v = (amt, fee, token)" by (cases v)
    show ?thesis
    proof (cases "beyond to ev")
      case True
      then show ?thesis using Cons.IH[OF Cons.prems, of s] by simp
    next
      case False
      obtain w1 where w1: "treasuryDecimals e token w = (Inr (D token), w1)" "cache_true D w1"
        using decimals_true[OF assms(1,2) Cons.prems] by blast
      define s1 where "s1 = (let feeUSD = shown_amount fee (D token) * price_of prices token; volUSD = shown_amount amt (D token) * price_of prices token;
          early = (case erLedger ev of Some l \<Rightarrow> l \<le> mid | None \<Rightarrow> False)
        in \<lparr>psRevenue = psRevenue s + feeUSD, psVolume = psVolume s + volUSD,
           psFirst = psFirst s + (if early then feeUSD else 0), psSecond = psSecond s + (if early then 0 else feeUSD)\<rparr>)"
      have "sumRevenue e to mid prices (ev # evs) s w = sumRevenue e to mid prices evs s1 w1"
        using False Some v w1(1) by (simp add: bindW_def s1_def Let_def)
      moreover have "psRevenue s1 = psRevenue s + fee_usd (trAddress e) D prices ev" using Some v by (simp add: s1_def Let_def fee_usd_def)
      ultimately show ?thesis using Cons.IH[OF w1(2), of s1] False by (simp add: add.assoc)
    qed
  qed
qed (simp add: retW_def)

lemma log_env_sel: "getEvents (log_env b xs) req w = (Inr (log_page b xs req), w)" "symbolXdr (log_env b xs) = id"
  by (simp_all add: log_env_def)

lemma loop_world:
  "scanLoop (log_env b xs) n cs ts to fuel v w = Some (r, w') \<Longrightarrow> \<exists>c. w' = w\<lparr>cursorAt := c\<rparr>"
proof (induction fuel arbitrary: v w)
  case (Suc fuel)
  have keep: "\<exists>c'. keep_cursor c w = w\<lparr>cursorAt := c'\<rparr>" for c :: "int option" and w :: "'a cursor_state_scheme"
    by (cases c; cases w) (auto simp: keep_cursor_def)
  obtain st c where st: "takePage n to (log_page b xs (page_request n cs ts v)) v = (st, c)" by fastforce
  show ?case
  proof (cases st)
    case (Done v1)
    then have "w' = keep_cursor c w" using Suc.prems st by (simp add: log_env_sel)
    then show ?thesis using keep by blast
  next
    case (More v1)
    then have "scanLoop (log_env b xs) n cs ts to fuel v1 (keep_cursor c w) = Some (r, w')" using Suc.prems st by (simp add: log_env_sel)
    then obtain c2 where c2: "w' = (keep_cursor c w)\<lparr>cursorAt := c2\<rparr>" using Suc.IH by blast
    obtain c' where "keep_cursor c w = w\<lparr>cursorAt := c'\<rparr>" using keep by blast
    then show ?thesis using c2 by auto
  qed
qed simp

lemma scan_world:
  assumes "scan (log_env b xs) opts fuel \<lparr>spContracts = cs, spTopics = ts, spFrom = Some from, spTo = to, spLimit = Some (of_nat n)\<rparr> w = Some (r, w')"
    and "1 \<le> n" and "n \<le> 10000"
  shows "\<exists>c. w' = w\<lparr>cursorAt := c\<rparr>"
proof -
  obtain q where "scanLoop (log_env b xs) n (case cs of None \<Rightarrow> [] | Some c \<Rightarrow> c) (encodeTopics id ts) to fuel
      (scan_start n from) w = Some (q, w')"
    using assms(1) unfolding scan_from[OF assms(2,3)] by (auto simp: log_env_sel)
  then show ?thesis by (rule loop_world)
qed

lemma pool_revenue_of_log_lemma:
  assumes "good_log xs" and "trEvents e = log_env True xs" and "length xs < fuel"
    and "\<And>a. trDecimals e a = retW (Some (of_int (D a)))" and "\<And>a. 0 \<le> D a \<and> D a \<le> 18" and "trCache w = []"
  shows "\<exists>s w'. fetchPoolRevenue e fuel p from to mid prices w = Some (Inr s, w') \<and>
    psRevenue s = sum_list (map (fee_usd (trAddress e) D prices) (filter (\<lambda>ev. from \<le> led ev \<and> led ev \<le> to) xs))"
proof -
  obtain r w1 where r: "scan (log_env True xs) (newCursorOptions None None) fuel \<lparr>spContracts = Some [p], spTopics = Some [''swap''],
      spFrom = Some from, spTo = Some to, spLimit = Some (of_nat 10000)\<rparr> (reset w) = Some (Inr r, w1)"
    and pre: "prefix (scanEvents r) (filter (\<lambda>ev. from \<le> led ev) xs)"
    and win: "filter (within_ledger (Some to)) (scanEvents r) = filter (\<lambda>ev. from \<le> led ev \<and> within_ledger (Some to) ev) xs"
    using scan_of_log[OF assms(1) _ _ assms(3), where n = 10000 and opts = "newCursorOptions None None" and cs = "Some [p]" and
      ts = "Some [''swap'']" and s = "from" and to = "Some to" and w = "reset w"] by auto
  obtain c where "w1 = (reset w)\<lparr>cursorAt := c\<rparr>" using scan_world[OF r] by auto
  then have "cache_true D w1" using assms(6) by (cases w) (simp add: cache_true_def reset_def js_get_None)
  then obtain s w2 where s: "sumRevenue e to mid prices (scanEvents r) no_sums w1 = (Inr s, w2)"
    "psRevenue s = sum_list (map (fee_usd (trAddress e) D prices) (filter (\<lambda>ev. \<not> beyond to ev) (scanEvents r)))"
    using sumRevenue_exact[OF assms(4,5), where to = to and mid = mid and prices = prices and evs = "scanEvents r" and s = no_sums and w = w1]
    by (auto simp: no_sums_def)
  have "beyond to ev \<longleftrightarrow> \<not> within_ledger (Some to) ev" if "ev \<in> set (scanEvents r)" for ev
  proof -
    have "ev \<in> set xs" using that pre by (meson filter_is_subset set_mono_prefix subsetD)
    then show ?thesis using assms(1) by (auto simp: good_log_def list_all_iff beyond_def within_ledger_def led_def split: option.splits)
  qed
  then have "filter (\<lambda>ev. \<not> beyond to ev) (scanEvents r) = filter (within_ledger (Some to)) (scanEvents r)" by (intro filter_cong) auto
  then have "psRevenue s = sum_list (map (fee_usd (trAddress e) D prices) (filter (\<lambda>ev. from \<le> led ev \<and> led ev \<le> to) xs))"
    using s(2) win by (simp add: within_ledger_def)
  then show ?thesis using r s(1) assms(2) by (auto simp: fetchPoolRevenue_def MAX_REVENUE_EVENTS_def)
qed

text \<open>Against a server that hands out cursors the revenue of a pool is the sum over all swaps of the window, however many
  they are: the bound of the scan is one of its pages.\<close>

theorem pool_revenue_of_log:
  assumes "good_log xs" and "trEvents e = log_env True xs" and "length xs < fuel"
    and "\<And>a. trDecimals e a = retW (Some (of_int (D a)))" and "\<And>a. 0 \<le> D a \<and> D a \<le> 18" and "trCache w = []"
  shows "\<exists>s w'. fetchPoolRevenue e fuel p from to mid prices w = Some (Inr s, w') \<and>
    psRevenue s = sum_list (map (fee_usd (trAddress e) D prices) (filter (\<lambda>ev. from \<le> led ev \<and> led ev \<le> to) xs))"
  by (rule pool_revenue_of_log_lemma[OF assms])

text \<open>A swap whose amount arrives as two halves is in the history and not in the revenue.\<close>

theorem halves_not_counted:
  assumes "erValue ev = Some (ScvMap (Some m))" and "getMapValue m ''amount_in'' = Some (ScvI128Parts hi lo)"
  shows "parseSwapEventForRevenue addr ev = None"
  using assms by (auto simp: parseSwapEventForRevenue_def split: option.splits list.splits)

section \<open>Holdings\<close>

text \<open>A pair that cannot be read never hides the holdings in the others.\<close>

theorem holdings_never_fail:
  "\<exists>ts w'. collectLPHoldings e owner prices ps w = (Inr ts, w') \<and> length ts \<le> length ps"
proof (induction ps arbitrary: w)
  case (Cons p ps)
  obtain h w1 where h: "catchW (lpHolding e owner prices p) (\<lambda>_. retW None) w = (Inr h, w1)"
    by (cases "lpHolding e owner prices p w"; cases "fst (lpHolding e owner prices p w)") (auto simp: catchW_def retW_def)
  obtain ts w' where "collectLPHoldings e owner prices ps w1 = (Inr ts, w')" "length ts \<le> length ps" using Cons by blast
  then show ?case using h by (cases h) (auto simp: bindW_def retW_def)
qed (simp add: retW_def)

lemma map_sum_eq_Inr: "map_sum id f r = Inr y \<Longrightarrow> \<exists>x. r = Inr x \<and> y = f x"
  by (cases r) auto

text \<open>The pools of a report are ranked by revenue, each once, and the total is their sum.\<close>

theorem report_ranked:
  assumes "revenueOfPools e fuel from to mid prices pairs w = Some (Inr rs, w')"
  shows "map fst rs = pairs \<and> mset (map plPair (rdByPool (revenueReport rs))) = mset pairs \<and>
    sorted_wrt (\<lambda>a b. plRevenue b \<le> plRevenue a) (rdByPool (revenueReport rs)) \<and>
    rdTotal (revenueReport rs) = sum_list (map (psRevenue \<circ> snd) rs)"
proof -
  let ?ps = "map (\<lambda>(p, s). \<lparr>plPair = p, plRevenue = psRevenue s, plVolume = psVolume s\<rparr>) rs"
  have m: "mset (sort_by by_revenue ?ps) = mset ?ps" by (rule sort_by_mset)
  have fst: "map fst rs = pairs" using assms
  proof (induction pairs arbitrary: w rs)
    case (Cons p ps)
    obtain s w1 ys where "revenueOfPools e fuel from to mid prices ps w1 = Some (Inr ys, w')" "rs = (p, s) # ys"
      using Cons.prems by (auto split: option.splits sum.splits prod.splits) (metis map_sum_eq_Inr)
    then show ?case using Cons.IH by auto
  qed simp
  have "mset (map plPair (sort_by by_revenue ?ps)) = mset (map plPair ?ps)"
    using arg_cong[OF m, of "image_mset plPair"] by (simp only: mset_map[symmetric])
  also have "map plPair ?ps = map fst rs" by (simp add: comp_def split_beta)
  finally have pairs: "mset (map plPair (sort_by by_revenue ?ps)) = mset pairs" by (simp add: fst)
  have "sum_list (map plRevenue (sort_by by_revenue ?ps)) = sum_list (map plRevenue ?ps)"
    using arg_cong[OF m, of "\<lambda>M. sum_mset (image_mset plRevenue M)"] by (simp only: mset_map[symmetric] sum_mset_sum_list)
  also have "map plRevenue ?ps = map (psRevenue \<circ> snd) rs" by (simp add: comp_def split_beta)
  finally have sum: "sum_list (map plRevenue (sort_by by_revenue ?ps)) = sum_list (map (psRevenue \<circ> snd) rs)" .
  have "sorted_wrt (\<lambda>a b. by_revenue a b \<le> 0) (sort_by by_revenue ?ps)"
    by (rule sort_by_sorted) (auto simp: by_revenue_def split: if_splits)
  then have "sorted_wrt (\<lambda>a b. plRevenue b \<le> plRevenue a) (sort_by by_revenue ?ps)"
    by (rule sorted_wrt_mono_rel[rotated]) (auto simp: by_revenue_def split: if_splits)
  then show ?thesis using fst pairs sum by (simp add: revenueReport_def Let_def)
qed

section \<open>Runs\<close>

definition sample_treasury :: "raw_event list \<Rightarrow> treasury_state treasury_env" where
  "sample_treasury xs = \<lparr>trStable = [''S''], trFeeTo = retW ''G'', trPairs = retW [''P'', ''Q''],
     trTokens = (\<lambda>p w. (if p = ''Q'' then Inl (Sdk (JsError ''down'')) else Inr (''S'', ''A''), w)),
     trReserves = (\<lambda>p w. (Inr (2000, 1000), w)), trLpToken = (\<lambda>p. retW ''L''), trBalance = (\<lambda>t a. retW 1), trSupply = (\<lambda>t. retW 4),
     trSymbol = (\<lambda>t. retW ''LP''), trDecimals = (\<lambda>a. retW (Some (of_int 6))), trLedger = retW 100, trEvents = log_env True xs,
     trAddress = key_text\<rparr>"

definition fresh_treasury :: treasury_state where
  "fresh_treasury = \<lparr>cursorAt = None, trCache = []\<rparr>"

theorem price_map_exact_witness:
  "\<exists>m. buildPriceMap (sample_treasury []) [''Q'', ''P''] fresh_treasury = (Inr m, fresh_treasury) \<and> js_get m ''A'' = Some 2"
proof -
  have "\<exists>m. buildPriceMap (sample_treasury []) [''Q'', ''P''] fresh_treasury = (Inr m, fresh_treasury) \<and> (\<forall>t. js_get m t =
      (if t \<in> set (trStable (sample_treasury [])) then Some 1 else if trStable (sample_treasury []) = [] then None
       else first_price (map (\<lambda>p. anchored (trStable (sample_treasury [])) (if p = ''Q'' then Inl (Sdk (JsError ''down'')) else Inr (''S'', ''A''))
         (Inr (2000, 1000))) [''Q'', ''P'']) t))"
    by (rule price_map_exact) (simp_all add: sample_treasury_def)
  then show ?thesis by (auto simp: sample_treasury_def anchored_def)
qed

theorem spot_value_scale_witness:
  "\<exists>m. buildPriceMap ((sample_treasury [])\<lparr>trTokens := \<lambda>p. retW (''S'', ''A'')\<rparr>) [''P''] fresh_treasury = (Inr m, fresh_treasury) \<and>
     shown_amount 5 9 * price_of m ''A'' = shown_amount 5 9 * (shown_amount 2000 7 / shown_amount 1000 9) * (10 ^ nat 7 / 10 ^ nat 9)"
  by (rule spot_value_scale[where s = "''S''"]) (simp_all add: sample_treasury_def retW_def fun_eq_iff)

definition unit_holding :: token_balance where
  "unit_holding = \<lparr>tbAddress = ''L'', tbSymbol = ''LP'', tbAmount = 1, tbValue = 1\<rparr>"

theorem allocation_sums_witness:
  "sum_list (map aoPercentage (allocationsOf 3 [unit_holding, unit_holding, unit_holding])) = 100"
  using allocation_sums[of "[unit_holding, unit_holding, unit_holding]" 3] by (simp add: unit_holding_def)

text \<open>Of 160 equal holdings the last is allotted less than nothing.\<close>

theorem equal_holdings_allocation_witness:
  "aoPercentage (last (allocationsOf (of_nat (159 + 1) * tbValue unit_holding) (replicate (159 + 1) unit_holding))) = - 17 / 100"
proof -
  have "0 < tbValue unit_holding" by (simp add: unit_holding_def)
  from equal_holdings_allocation[OF this refl, of 159] show ?thesis by (simp only: round_cents_def) simp
qed

lemma treasury_log: "good_log three_swaps" "length three_swaps < 5"
  by (simp_all add: three_swaps_def good_log_def led_def)

lemma pool_run: "\<exists>s w'. fetchPoolRevenue (sample_treasury three_swaps) 5 ''P'' 4 9 4 [Some (''A'', 2)] fresh_treasury = Some (Inr s, w') \<and>
    psRevenue s = sum_list (map (fee_usd (trAddress (sample_treasury three_swaps)) (\<lambda>a. 6) [Some (''A'', 2)])
      (filter (\<lambda>ev. 4 \<le> led ev \<and> led ev \<le> 9) three_swaps))"
  by (rule pool_revenue_of_log_lemma[OF treasury_log(1)]) (use treasury_log(2) in \<open>simp_all add: sample_treasury_def fresh_treasury_def\<close>)

theorem pool_revenue_of_log_witness:
  "\<exists>s w'. fetchPoolRevenue (sample_treasury three_swaps) 5 ''P'' 4 9 4 [Some (''A'', 2)] fresh_treasury = Some (Inr s, w') \<and>
    psRevenue s = sum_list (map (fee_usd (trAddress (sample_treasury three_swaps)) (\<lambda>a. 6) [Some (''A'', 2)])
      (filter (\<lambda>ev. 4 \<le> led ev \<and> led ev \<le> 9) three_swaps))"
  by (rule pool_revenue_of_log[OF treasury_log(1)]) (use treasury_log(2) in \<open>simp_all add: sample_treasury_def fresh_treasury_def\<close>)

theorem revenue_halves_witness:
  "\<exists>s w'. fetchPoolRevenue (sample_treasury three_swaps) 5 ''P'' 4 9 4 [Some (''A'', 2)] fresh_treasury = Some (Inr s, w') \<and>
    psRevenue s = psFirst s + psSecond s"
proof -
  obtain s w' where s: "fetchPoolRevenue (sample_treasury three_swaps) 5 ''P'' 4 9 4 [Some (''A'', 2)] fresh_treasury = Some (Inr s, w')"
    using pool_run by (elim exE conjE) (rule that)
  from revenue_halves[OF s] show ?thesis using s by (intro exI conjI)
qed

theorem failed_decimals_stick_witness:
  "\<exists>w2. treasuryDecimals ((sample_treasury [])\<lparr>trDecimals := \<lambda>a. throwW (Sdk (JsError ''down''))\<rparr>) ''A'' fresh_treasury = (Inr 7, w2) \<and>
     treasuryDecimals (sample_treasury []) ''A'' w2 = (Inr 7, w2)"
  by (rule failed_decimals_stick) (simp_all add: fresh_treasury_def throwW_def)

definition split_swap :: raw_event where
  "split_swap = (hd three_swaps)\<lparr>erValue := Some (ScvMap (Some [(ScvSymbol ''sender'', ScvString ''a''), (ScvSymbol ''amount_in'', ScvI128Parts 0 20000),
     (ScvSymbol ''amount_out'', ScvI128 7), (ScvSymbol ''token_in'', ScvString ''A''), (ScvSymbol ''token_out'', ScvString ''B''),
     (ScvSymbol ''fee_bps'', ScvU32 30)]))\<rparr>"

theorem halves_not_counted_witness:
  "parseSwapEventForRevenue key_text split_swap = None \<and> historyEntry key_text 0 None split_swap \<noteq> None"
proof -
  have "erValue split_swap = Some (ScvMap (Some [(ScvSymbol ''sender'', ScvString ''a''), (ScvSymbol ''amount_in'', ScvI128Parts 0 20000),
     (ScvSymbol ''amount_out'', ScvI128 7), (ScvSymbol ''token_in'', ScvString ''A''), (ScvSymbol ''token_out'', ScvString ''B''),
     (ScvSymbol ''fee_bps'', ScvU32 30)]))" by (simp add: split_swap_def)
  moreover have "historyEntry key_text 0 None split_swap \<noteq> None" by code_simp
  ultimately show ?thesis using halves_not_counted[of split_swap _ 0 20000 key_text] by (simp add: getMapValue_def)
qed

lemma pools_run: "\<exists>rs w'. revenueOfPools (sample_treasury []) 1 4 9 6 [] [''P''] fresh_treasury = Some (Inr rs, w')"
  by (simp add: fetchPoolRevenue_def scan_def sample_treasury_def MAX_REVENUE_EVENTS_def MAX_EVENT_LIMIT_def log_env_def log_page_def takePage_def
      retW_def fresh_treasury_def reset_def scan_start_def scan_answer_def Let_def)

theorem report_ranked_witness:
  "\<exists>rs w'. revenueOfPools (sample_treasury []) 1 4 9 6 [] [''P''] fresh_treasury = Some (Inr rs, w') \<and> map fst rs = [''P'']"
proof -
  obtain rs w' where rs: "revenueOfPools (sample_treasury []) 1 4 9 6 [] [''P''] fresh_treasury = Some (Inr rs, w')"
    using pools_run by (elim exE) (rule that)
  from report_ranked[OF rs] have "map fst rs = [''P'']" by (rule conjunct1)
  then show ?thesis using rs by (intro exI conjI)
qed

end
