(* ===== verification/Monitoring.thy ===== *)
theory Monitoring
  imports Treasury
begin

text \<open>
  \<open>modules/monitoring.ts\<close>: the figures of the dashboard, cached for a minute, the health of pools, and the comparison
  of two windows. Prices are the treasury's, swaps come from the history or the typed cursor. Numbers are exact
  rationals. An action that scans events takes fuel; \<open>None\<close> is fuel used up. What the code runs over all pools at once
  runs here in their order.
\<close>

section \<open>Actions with fuel\<close>

type_synonym ('w, 'a) scan_act = "'w \<Rightarrow> ((thrown + 'a) \<times> 'w) option"

definition bindF :: "('w, 'a) scan_act \<Rightarrow> ('a \<Rightarrow> ('w, 'b) scan_act) \<Rightarrow> ('w, 'b) scan_act" where
  "bindF m f w = (case m w of None \<Rightarrow> None | Some (Inl x, w1) \<Rightarrow> Some (Inl x, w1) | Some (Inr a, w1) \<Rightarrow> f a w1)"

definition runF :: "('w, thrown, 'a) act \<Rightarrow> ('w, 'a) scan_act" where
  "runF m w = Some (m w)"

definition catchF :: "('w, 'a) scan_act \<Rightarrow> (thrown \<Rightarrow> 'a) \<Rightarrow> ('w, 'a) scan_act" where
  "catchF m h w = (case m w of Some (Inl x, w1) \<Rightarrow> Some (Inr (h x), w1) | r \<Rightarrow> r)"

fun eachF :: "('a \<Rightarrow> ('w, 'b) scan_act) \<Rightarrow> 'a list \<Rightarrow> ('w, 'b list) scan_act" where
  "eachF f [] = runF (retW [])"
| "eachF f (x # xs) = bindF (f x) (\<lambda>y. bindF (eachF f xs) (\<lambda>ys. runF (retW (y # ys))))"

section \<open>Data\<close>

record protocol_metrics =
  pmTvl :: rat
  pmVolume :: rat
  pmPools :: nat
  pmUsers :: nat
  pmSwaps :: nat
  pmAverage :: rat
  pmComputedAt :: int

record pool_metrics =
  omPair :: string
  omTvl :: rat
  omVolume :: rat
  omSwaps :: nat
  omUsers :: nat
  omAverage :: rat
  omReserves :: "int \<times> int"
  omFeeBps :: int
  omComputedAt :: int

record metric_change =
  mcAbsolute :: rat
  mcPercentage :: rat

record pool_change =
  pcPair :: string
  pcCurrent :: rat
  pcPrevious :: rat
  pcChange :: metric_change

record system_metrics =
  smTvl :: metric_change
  smVolume :: metric_change
  smRevenue :: metric_change
  smUsers :: metric_change
  smRevenueUSD :: rat
  smGrowing :: "pool_change option"
  smDeclining :: "pool_change option"

record pool_health =
  phPair :: string
  phOperational :: bool
  phTvl :: rat
  phVolume :: rat
  phFees :: rat
  phRatio :: rat
  phErrors :: "string list"

record protocol_summary =
  ysTvl :: rat
  ysVolume :: rat
  ysFees :: rat
  ysPools :: nat
  ysActive :: nat

record system_health =
  shHealthy :: bool
  shLatest :: int
  shError :: "string option"

datatype cached_value = CachedProtocol protocol_metrics | CachedPool pool_metrics

record monitor_state = treasury_state +
  moCache :: "(cached_value \<times> int) js_map"

record 'w monitor_env =
  meTreasury :: "'w treasury_env"
  meHistory :: "'w history_env"
  meDynamicFee :: "string \<Rightarrow> ('w, thrown, int) act"
  meAddress :: addr_decoder
  meNowMs :: "'w \<Rightarrow> int"
  meValid :: "string \<Rightarrow> bool"
  meZodText :: string

definition STROOP :: rat where
  "STROOP = 10 ^ 7"

definition METRICS_CACHE_TTL_MS :: int where
  "METRICS_CACHE_TTL_MS = 60000"

definition LEDGERS_PER_DAY :: int where
  "LEDGERS_PER_DAY = 86400 div LEDGER_CLOSE_INTERVAL_SECONDS"

definition HISTORY_QUERY_LIMIT :: rat where
  "HISTORY_QUERY_LIMIT = 1000"

definition SYSTEM_METRICS_PAGE_LIMIT :: rat where
  "SYSTEM_METRICS_PAGE_LIMIT = 1000"

definition getCached :: "('x monitor_state_scheme) monitor_env \<Rightarrow> string \<Rightarrow> 'x monitor_state_scheme \<Rightarrow> cached_value option" where
  "getCached e k w = (case js_get (moCache w) k of Some (v, expires) \<Rightarrow> if expires < meNowMs e w then None else Some v | None \<Rightarrow> None)"

definition setCached :: "('x monitor_state_scheme) monitor_env \<Rightarrow> string \<Rightarrow> cached_value \<Rightarrow> 'x monitor_state_scheme \<Rightarrow> 'x monitor_state_scheme" where
  "setCached e k v w = w\<lparr>moCache := js_set (moCache w) k (v, meNowMs e w + METRICS_CACHE_TTL_MS)\<rparr>"

definition reservesToUSD :: "rat js_map \<Rightarrow> string \<times> string \<Rightarrow> int \<times> int \<Rightarrow> rat" where
  "reservesToUSD prices ts rs = of_int (fst rs) / STROOP * price_of prices (fst ts) + of_int (snd rs) / STROOP * price_of prices (snd ts)"

section \<open>The dashboard\<close>

text \<open>A pool that cannot be read, or has an empty reserve, is left out.\<close>

fun poolsTvl :: "'w treasury_env \<Rightarrow> rat js_map \<Rightarrow> string list \<Rightarrow> rat \<times> nat \<Rightarrow> ('w, thrown, rat \<times> nat) act" where
  "poolsTvl e prices [] s = retW s"
| "poolsTvl e prices (p # ps) s = bindW (catchW (bindW (trTokens e p) (\<lambda>ts. bindW (trReserves e p) (\<lambda>rs.
     retW (if fst rs = 0 \<or> snd rs = 0 then s else (fst s + reservesToUSD prices ts rs, snd s + 1))))) (\<lambda>_. retW s)) (poolsTvl e prices ps)"

definition swap_usd :: "rat js_map \<Rightarrow> swap_entry \<Rightarrow> rat" where
  "swap_usd prices s = of_int (seAmountIn s) / STROOP * price_of prices (seTokenIn s)"

definition swap_fee_usd :: "rat js_map \<Rightarrow> swap_entry \<Rightarrow> rat" where
  "swap_fee_usd prices s = of_int (seAmountIn s * seFeeBps s sdiv 10000) / STROOP * price_of prices (seTokenIn s)"

definition distinct_count :: "string list \<Rightarrow> nat" where
  "distinct_count xs = card (set xs)"

definition day_filter :: "string option \<Rightarrow> int \<Rightarrow> history_filter" where
  "day_filter p current = \<lparr>hfPair = p, hfUser = None, hfFrom = Some (of_int (max 0 (current - LEDGERS_PER_DAY))), hfTo = Some (of_int current),
     hfLimit = Some HISTORY_QUERY_LIMIT\<rparr>"

definition day_history :: "('x monitor_state_scheme) monitor_env \<Rightarrow> nat \<Rightarrow> string option \<Rightarrow> ('x monitor_state_scheme, swap_entry list) scan_act" where
  "day_history e fuel p = bindF (runF (trLedger (meTreasury e))) (\<lambda>current. getSwapHistory (meHistory e) fuel (day_filter p current))"

definition average :: "rat \<Rightarrow> nat \<Rightarrow> rat" where
  "average x n = (if 0 < n then x / of_nat n else 0)"

definition getProtocolMetrics :: "('x monitor_state_scheme) monitor_env \<Rightarrow> nat \<Rightarrow> ('x monitor_state_scheme, protocol_metrics) scan_act" where
  "getProtocolMetrics e fuel w = (case getCached e ''protocol'' w of Some (CachedProtocol m) \<Rightarrow> Some (Inr m, w)
     | _ \<Rightarrow> bindF (runF (trPairs (meTreasury e))) (\<lambda>pairs. bindF (runF (getSpotPriceMap (meTreasury e) pairs)) (\<lambda>prices.
         bindF (runF (poolsTvl (meTreasury e) prices pairs (0, 0))) (\<lambda>(tvl, active). bindF (day_history e fuel None) (\<lambda>evs w1.
         let volume = sum_list (map (swap_usd prices) evs);
           m = \<lparr>pmTvl = tvl, pmVolume = volume, pmPools = active, pmUsers = distinct_count (map seSender evs), pmSwaps = length evs,
             pmAverage = average volume (length evs), pmComputedAt = meNowMs e w1\<rparr>
         in Some (Inr m, setCached e ''protocol'' (CachedProtocol m) w1))))) w)"

definition fetchPairSwapTotals :: "('x monitor_state_scheme) monitor_env \<Rightarrow> nat \<Rightarrow> string \<Rightarrow> rat js_map \<Rightarrow>
    ('x monitor_state_scheme, rat \<times> rat \<times> nat \<times> nat) scan_act" where
  "fetchPairSwapTotals e fuel p prices = bindF (day_history e fuel (Some p)) (\<lambda>evs. runF (retW
     (sum_list (map (swap_usd prices) evs), sum_list (map (swap_fee_usd prices) evs), length evs, distinct_count (map seSender evs))))"

definition getPoolMetrics :: "('x monitor_state_scheme) monitor_env \<Rightarrow> nat \<Rightarrow> string \<Rightarrow> ('x monitor_state_scheme, pool_metrics) scan_act" where
  "getPoolMetrics e fuel p = bindF (runF (liftW (validateAddress (meValid e) p ''pairAddress''))) (\<lambda>_ w.
     case getCached e (''pool:'' @ p) w of Some (CachedPool m) \<Rightarrow> Some (Inr m, w)
     | _ \<Rightarrow> bindF (runF (trPairs (meTreasury e))) (\<lambda>pairs. bindF (runF (getSpotPriceMap (meTreasury e) pairs)) (\<lambda>prices.
         bindF (runF (trTokens (meTreasury e) p)) (\<lambda>ts. bindF (runF (trReserves (meTreasury e) p)) (\<lambda>rs.
         bindF (runF (meDynamicFee e p)) (\<lambda>bps. bindF (fetchPairSwapTotals e fuel p prices) (\<lambda>(volume, fees, swaps, users) w1.
         let m = \<lparr>omPair = p, omTvl = reservesToUSD prices ts rs, omVolume = volume, omSwaps = swaps, omUsers = users,
             omAverage = average volume swaps, omReserves = rs, omFeeBps = bps, omComputedAt = meNowMs e w1\<rparr>
         in Some (Inr m, setCached e (''pool:'' @ p) (CachedPool m) w1))))))) w)"

section \<open>Two windows\<close>

definition periodToLedgers :: "string \<Rightarrow> int" where
  "periodToLedgers period = (if period = ''7d'' then LEDGERS_PER_DAY * 7 else if period = ''30d'' then LEDGERS_PER_DAY * 30 else LEDGERS_PER_DAY)"

definition computeMetricChange :: "rat \<Rightarrow> rat \<Rightarrow> metric_change" where
  "computeMetricChange current previous = (if previous = 0 then \<lparr>mcAbsolute = current, mcPercentage = (if current = 0 then 0 else 100)\<rparr>
     else \<lparr>mcAbsolute = current - previous, mcPercentage = (current - previous) / previous * 100\<rparr>)"

definition by_change :: "pool_change \<Rightarrow> pool_change \<Rightarrow> int" where
  "by_change a b = (let d = mcAbsolute (pcChange b) - mcAbsolute (pcChange a) in if 0 < d then 1 else if d < 0 then -1 else 0)"

definition pickTopPools :: "pool_change list \<Rightarrow> pool_change option \<times> pool_change option" where
  "pickTopPools pools = (case pools of [] \<Rightarrow> (None, None)
     | [p] \<Rightarrow> if 0 \<le> mcAbsolute (pcChange p) then (Some p, None) else (None, Some p)
     | _ \<Rightarrow> (let ranked = sort_by by_change pools in (Some (hd ranked), Some (last ranked))))"

text \<open>The last \<open>sync\<close> event of the window; of two in one ledger the later.\<close>

fun latestSync :: "int \<Rightarrow> coral_event list \<Rightarrow> (int \<times> int \<times> int) option \<Rightarrow> (int \<times> int \<times> int) option" where
  "latestSync to [] best = best"
| "latestSync to (SyncEvent b r0 r1 # evs) best = latestSync to evs (if to < evLedger b then best
     else case best of None \<Rightarrow> Some (evLedger b, r0, r1) | Some (l, _) \<Rightarrow> if l \<le> evLedger b then Some (evLedger b, r0, r1) else best)"
| "latestSync to (ev # evs) best = latestSync to evs best"

definition scan_topic :: "('x monitor_state_scheme) monitor_env \<Rightarrow> nat \<Rightarrow> string \<Rightarrow> string \<Rightarrow> int \<Rightarrow> int \<Rightarrow>
    ('x monitor_state_scheme, coral_event list) scan_act" where
  "scan_topic e fuel p topic from to w = map_option (\<lambda>(r, w1). (map_sum id fst r, w1))
     (typedScan (meAddress e) (trEvents (meTreasury e)) \<lparr>tcContract = Some p, tcTopics = Some [topic], tcOptions = newCursorOptions None None\<rparr>
       fuel (Some from) (Some to) (Some SYSTEM_METRICS_PAGE_LIMIT) (reset w))"

definition fetchPreviousReserves :: "('x monitor_state_scheme) monitor_env \<Rightarrow> nat \<Rightarrow> string \<Rightarrow> int \<Rightarrow> int \<Rightarrow>
    ('x monitor_state_scheme, (int \<times> int) option) scan_act" where
  "fetchPreviousReserves e fuel p from to = bindF (scan_topic e fuel p ''sync'' from to) (\<lambda>evs.
     runF (retW (map_option snd (latestSync to evs None))))"

definition fetchPoolTvlWindow :: "('x monitor_state_scheme) monitor_env \<Rightarrow> nat \<Rightarrow> rat js_map \<Rightarrow> int \<Rightarrow> int \<Rightarrow> string \<Rightarrow>
    ('x monitor_state_scheme, (rat \<times> rat) option) scan_act" where
  "fetchPoolTvlWindow e fuel prices from to p = bindF (runF (catchW (bindW (trReserves (meTreasury e) p) (\<lambda>rs.
       bindW (trTokens (meTreasury e) p) (\<lambda>ts. retW (Some (rs, ts))))) (\<lambda>_. retW None))) (\<lambda>v. case v of None \<Rightarrow> runF (retW None)
     | Some (rs, ts) \<Rightarrow> bindF (fetchPreviousReserves e fuel p from to) (\<lambda>prev. runF (retW (Some (reservesToUSD prices ts rs,
         case prev of Some ps \<Rightarrow> reservesToUSD prices ts ps | None \<Rightarrow> 0)))))"

record pool_activity =
  paVolume :: rat
  paPrevVolume :: rat
  paRevenue :: rat
  paPrevRevenue :: rat
  paUsers :: "string list"
  paPrevUsers :: "string list"

definition no_activity :: pool_activity where
  "no_activity = \<lparr>paVolume = 0, paPrevVolume = 0, paRevenue = 0, paPrevRevenue = 0, paUsers = [], paPrevUsers = []\<rparr>"

fun addSwap :: "rat js_map \<Rightarrow> int \<Rightarrow> int \<Rightarrow> coral_event \<Rightarrow> pool_activity \<Rightarrow> pool_activity" where
  "addSwap prices start to (SwapEvent b s tin tout ain aout bps) a = (let price = price_of prices tin; volume = of_int ain / STROOP * price;
       fee = of_int (ain * bps sdiv 10000) / STROOP * price in
     if to < evLedger b then a
     else if start \<le> evLedger b then a\<lparr>paVolume := paVolume a + volume, paRevenue := paRevenue a + fee, paUsers := List.insert s (paUsers a)\<rparr>
     else a\<lparr>paPrevVolume := paPrevVolume a + volume, paPrevRevenue := paPrevRevenue a + fee, paPrevUsers := List.insert s (paPrevUsers a)\<rparr>)"
| "addSwap prices start to ev a = a"

definition fetchPoolSwapActivity :: "('x monitor_state_scheme) monitor_env \<Rightarrow> nat \<Rightarrow> rat js_map \<Rightarrow> int \<Rightarrow> int \<Rightarrow> int \<Rightarrow> string \<Rightarrow>
    ('x monitor_state_scheme, pool_activity) scan_act" where
  "fetchPoolSwapActivity e fuel prices from start to p = bindF (scan_topic e fuel p ''swap'' from to) (\<lambda>evs.
     runF (retW (fold (addSwap prices start to) evs no_activity)))"

definition poolChanges :: "(string \<times> (rat \<times> rat) option \<times> pool_activity) list \<Rightarrow> pool_change list" where
  "poolChanges ps = List.map_filter (\<lambda>(p, tvl, a). map_option (\<lambda>(current, previous). \<lparr>pcPair = p, pcCurrent = current, pcPrevious = previous,
     pcChange = computeMetricChange current previous\<rparr>) tvl) ps"

definition systemMetrics :: "(string \<times> (rat \<times> rat) option \<times> pool_activity) list \<Rightarrow> system_metrics" where
  "systemMetrics ps = (let changes = poolChanges ps; as = map (snd \<circ> snd) ps; (up, down) = pickTopPools changes in
     \<lparr>smTvl = computeMetricChange (sum_list (map pcCurrent changes)) (sum_list (map pcPrevious changes)),
       smVolume = computeMetricChange (sum_list (map paVolume as)) (sum_list (map paPrevVolume as)),
       smRevenue = computeMetricChange (sum_list (map paRevenue as)) (sum_list (map paPrevRevenue as)),
       smUsers = computeMetricChange (of_nat (distinct_count (concat (map paUsers as)))) (of_nat (distinct_count (concat (map paPrevUsers as)))),
       smRevenueUSD = sum_list (map paRevenue as), smGrowing = up, smDeclining = down\<rparr>)"

definition getSystemMetrics :: "('x monitor_state_scheme) monitor_env \<Rightarrow> nat \<Rightarrow> string \<Rightarrow> ('x monitor_state_scheme, system_metrics) scan_act" where
  "getSystemMetrics e fuel period = bindF (runF (liftW (throw_if (period \<notin> set [''24h'', ''7d'', ''30d'']) (ValidationError
       (''Invalid system metrics period ('' @ period @ ''): '' @ meZodText e))))) (\<lambda>_.
     bindF (runF (trPairs (meTreasury e))) (\<lambda>pairs. if pairs = [] then runF (retW (systemMetrics []))
       else bindF (runF (trLedger (meTreasury e))) (\<lambda>current. bindF (runF (getSpotPriceMap (meTreasury e) pairs)) (\<lambda>prices.
         let n = periodToLedgers period; start = max MIN_START_LEDGER (current - n); from = max MIN_START_LEDGER (current - n * 2) in
         bindF (eachF (\<lambda>p. bindF (fetchPoolTvlWindow e fuel prices from start p) (\<lambda>tvl.
             bindF (fetchPoolSwapActivity e fuel prices from start current p) (\<lambda>a. runF (retW (p, tvl, a))))) pairs) (\<lambda>ps.
           runF (retW (systemMetrics ps)))))))"

section \<open>Health\<close>

definition poolHealthFailure :: "string \<Rightarrow> pool_health" where
  "poolHealthFailure p = \<lparr>phPair = p, phOperational = False, phTvl = 0, phVolume = 0, phFees = 0, phRatio = 0, phErrors = [''Failed to fetch pool data'']\<rparr>"

definition reserve_ratio :: "int \<times> int \<Rightarrow> rat" where
  "reserve_ratio rs = (if 0 < snd rs then of_int (fst rs * 10000 sdiv snd rs) / 10000 else 0)"

definition buildPoolHealth :: "('x monitor_state_scheme) monitor_env \<Rightarrow> nat \<Rightarrow> rat js_map \<Rightarrow> string \<Rightarrow> ('x monitor_state_scheme, pool_health) scan_act" where
  "buildPoolHealth e fuel prices p = bindF (runF (trReserves (meTreasury e) p)) (\<lambda>rs. bindF (runF (trTokens (meTreasury e) p)) (\<lambda>ts.
     bindF (fetchPairSwapTotals e fuel p prices) (\<lambda>(volume, fees, swaps, users). runF (retW \<lparr>phPair = p, phOperational = True,
       phTvl = reservesToUSD prices ts rs, phVolume = volume, phFees = fees, phRatio = reserve_ratio rs, phErrors = []\<rparr>))))"

definition getPoolHealth :: "('x monitor_state_scheme) monitor_env \<Rightarrow> nat \<Rightarrow> string \<Rightarrow> ('x monitor_state_scheme, pool_health) scan_act" where
  "getPoolHealth e fuel p = bindF (runF (liftW (validateAddress (meValid e) p ''pairAddress''))) (\<lambda>_.
     catchF (bindF (runF (trPairs (meTreasury e))) (\<lambda>pairs. bindF (runF (getSpotPriceMap (meTreasury e) (if pairs \<noteq> [] then pairs else [p])))
       (\<lambda>prices. buildPoolHealth e fuel prices p))) (\<lambda>_. poolHealthFailure p))"

definition getAllPoolHealth :: "('x monitor_state_scheme) monitor_env \<Rightarrow> nat \<Rightarrow> ('x monitor_state_scheme, pool_health list) scan_act" where
  "getAllPoolHealth e fuel = catchF (bindF (runF (trPairs (meTreasury e))) (\<lambda>pairs. if pairs = [] then runF (retW [])
     else bindF (runF (getSpotPriceMap (meTreasury e) pairs)) (\<lambda>prices.
       eachF (\<lambda>p. catchF (buildPoolHealth e fuel prices p) (\<lambda>_. poolHealthFailure p)) pairs))) (\<lambda>_. [])"

definition getProtocolSummary :: "('x monitor_state_scheme) monitor_env \<Rightarrow> nat \<Rightarrow> ('x monitor_state_scheme, protocol_summary) scan_act" where
  "getProtocolSummary e fuel = bindF (getAllPoolHealth e fuel) (\<lambda>all. let active = filter phOperational all in
     runF (retW \<lparr>ysTvl = sum_list (map phTvl active), ysVolume = sum_list (map phVolume active), ysFees = sum_list (map phFees active),
       ysPools = length all, ysActive = length active\<rparr>))"

definition checkSystemHealth :: "('x monitor_state_scheme) monitor_env \<Rightarrow> ('x monitor_state_scheme, thrown, system_health) act" where
  "checkSystemHealth e = catchW (bindW (trLedger (meTreasury e)) (\<lambda>l. retW \<lparr>shHealthy = True, shLatest = l, shError = None\<rparr>))
     (\<lambda>x. retW \<lparr>shHealthy = False, shLatest = 0, shError = Some (case x of Sdk s \<Rightarrow> err_message s | Rejected _ _ (Some m) _ \<Rightarrow> m | _ \<Rightarrow> ''RPC unreachable'')\<rparr>)"

section \<open>The cache\<close>

text \<open>A figure that was computed is answered unchanged for a minute, whatever happens to the pools.\<close>

theorem metrics_cached:
  assumes "getCached e ''protocol'' w = None" and "getProtocolMetrics e fuel w = Some (Inr m, w1)"
    and "moCache w2 = moCache w1" and "meNowMs e w2 \<le> pmComputedAt m + 60000"
  shows "getProtocolMetrics e fuel' w2 = Some (Inr m, w2)"
proof -
  have "\<exists>u. w1 = setCached e ''protocol'' (CachedProtocol m) u \<and> pmComputedAt m = meNowMs e u"
    using assms(1,2) by (auto simp: getProtocolMetrics_def bindF_def Let_def split: option.splits prod.splits sum.splits)
  then have "js_get (moCache w2) ''protocol'' = Some (CachedProtocol m, pmComputedAt m + 60000)"
    using assms(3) by (auto simp: setCached_def js_get_set METRICS_CACHE_TTL_MS_def)
  then show ?thesis using assms(4) by (simp add: getProtocolMetrics_def getCached_def)
qed

section \<open>Ranking pools\<close>

lemma ranked_pools:
  assumes "length pools \<ge> 2"
  shows "pickTopPools pools = (Some (hd (sort_by by_change pools)), Some (last (sort_by by_change pools)))"
proof (cases pools)
  case (Cons p ps)
  then show ?thesis using assms by (cases ps) (simp_all add: pickTopPools_def Let_def)
qed (use assms in simp)

lemma by_change_sorted: "sorted_wrt (\<lambda>a b. mcAbsolute (pcChange b) \<le> mcAbsolute (pcChange a)) (sort_by by_change pools)"
proof -
  have "sorted_wrt (\<lambda>x y. by_change x y \<le> 0) (sort_by by_change pools)"
    by (rule sort_by_sorted) (auto simp: by_change_def Let_def split: if_splits)
  then show ?thesis by (rule sorted_wrt_mono_rel[rotated]) (auto simp: by_change_def Let_def split: if_splits)
qed

lemma sorted_ends:
  assumes "sorted_wrt R xs" and "x \<in> set xs" and "\<And>a. R a a"
  shows "R (hd xs) x \<and> R x (last xs)"
proof -
  obtain i where i: "i < length xs" "x = xs ! i" using assms(2) by (metis in_set_conv_nth)
  have "R (xs ! 0) (xs ! i)" "R (xs ! i) (xs ! (length xs - 1))"
    using assms i by (metis gr0I sorted_wrt_nth_less) (metis assms(1,3) i(1) One_nat_def Suc_lessI Suc_pred diff_Suc_1 lessE lessI
      less_imp_diff_less linorder_not_less not_less_eq sorted_wrt_nth_less zero_less_Suc gr_zeroI not_less0)
  then show ?thesis using i by (metis hd_conv_nth last_conv_nth length_pos_if_in_set list.size(3) not_less0 assms(2))
qed

text \<open>Of two pools or more, the one of the greatest and the one of the least change are picked, whatever their signs: when
  every pool lost value, one of them is called the top growing.\<close>

theorem top_pools:
  assumes "2 \<le> length pools" and "pickTopPools pools = (Some g, Some d)"
  shows "g \<in> set pools \<and> d \<in> set pools \<and>
    (\<forall>p \<in> set pools. mcAbsolute (pcChange d) \<le> mcAbsolute (pcChange p) \<and> mcAbsolute (pcChange p) \<le> mcAbsolute (pcChange g))"
proof -
  let ?r = "sort_by by_change pools"
  have s: "set ?r = set pools" by (metis set_mset_mset sort_by_mset)
  then have "?r \<noteq> []" using assms(1) by auto
  moreover have "g = hd ?r" "d = last ?r" using assms ranked_pools[OF assms(1)] by simp_all
  ultimately show ?thesis using s sorted_ends[OF by_change_sorted[of pools]] by auto
qed

text \<open>A pool whose reserves did not change and that emitted no event in the earlier window is reported to have grown from
  nothing.\<close>

theorem quiet_pool_grows:
  assumes "trReserves (meTreasury e) p w = (Inr rs, w1)" and "trTokens (meTreasury e) p w1 = (Inr ts, w2)"
    and "fetchPreviousReserves e fuel p from to w2 = Some (Inr None, w3)" and "reservesToUSD prices ts rs \<noteq> 0"
  shows "\<exists>tvl. fetchPoolTvlWindow e fuel prices from to p w = Some (Inr tvl, w3) \<and>
    map (mcPercentage \<circ> pcChange) (poolChanges [(p, tvl, a)]) = [100] \<and> map pcPrevious (poolChanges [(p, tvl, a)]) = [0]"
  using assms by (simp add: fetchPoolTvlWindow_def bindF_def runF_def bindW_def catchW_def retW_def poolChanges_def
      computeMetricChange_def List.map_filter_simps)

section \<open>Failures\<close>

lemma eachF_Inr:
  assumes "\<And>x w r w'. f x w = Some (r, w') \<Longrightarrow> \<exists>y. r = Inr y" and "eachF f xs w = Some (r, w')"
  shows "\<exists>ys. r = Inr ys \<and> length ys = length xs"
  using assms(2)
proof (induction xs arbitrary: w r w')
  case (Cons x xs)
  then show ?case
    by (auto simp: bindF_def runF_def retW_def split: option.splits prod.splits sum.splits dest!: assms(1)) blast+
qed (simp add: runF_def retW_def)

lemma catchF_Inr: "catchF m h w = Some (r, w') \<Longrightarrow> \<exists>y. r = Inr y"
  by (auto simp: catchF_def split: option.splits prod.splits sum.splits)

text \<open>The summary never fails, and a factory that cannot be read is an empty protocol.\<close>

theorem summary_never_fails:
  assumes "getProtocolSummary e fuel w = Some (r, w')"
  shows "\<exists>s. r = Inr s \<and> ysActive s \<le> ysPools s \<and> (\<forall>x u. trPairs (meTreasury e) w = (Inl x, u) \<longrightarrow> ysPools s = 0 \<and> ysTvl s = 0)"
proof -
  obtain all w1 where all: "getAllPoolHealth e fuel w = Some (Inr all, w1)"
    using assms by (auto simp: getProtocolSummary_def bindF_def getAllPoolHealth_def split: option.splits dest: catchF_Inr)
  have "all = []" if "trPairs (meTreasury e) w = (Inl x, u)" for x u
    using all that by (simp add: getAllPoolHealth_def catchF_def bindF_def runF_def)
  then show ?thesis using assms all by (auto simp: getProtocolSummary_def bindF_def runF_def retW_def Let_def)
qed

section \<open>Windows over a log\<close>

fun sync_of :: "coral_event \<Rightarrow> (int \<times> int \<times> int) option" where
  "sync_of (SyncEvent b r0 r1) = Some (evLedger b, r0, r1)"
| "sync_of ev = None"

definition last_opt :: "'a list \<Rightarrow> 'a option" where
  "last_opt xs = (if xs = [] then None else Some (last xs))"

lemma latestSync_sorted:
  assumes "sorted (map (\<lambda>ev. evLedger (event_base_of ev)) evs)" and "\<And>l v ev. best = Some (l, v) \<Longrightarrow> ev \<in> set evs \<Longrightarrow> l \<le> evLedger (event_base_of ev)"
  shows "latestSync to evs best = (let ss = List.map_filter sync_of (filter (\<lambda>ev. evLedger (event_base_of ev) \<le> to) evs) in
    if ss = [] then best else Some (last ss))"
  using assms
proof (induction to evs best rule: latestSync.induct)
  case (2 to b r0 r1 evs best)
  let ?best = "if to < evLedger b then best else case best of None \<Rightarrow> Some (evLedger b, r0, r1)
    | Some (l, _) \<Rightarrow> if l \<le> evLedger b then Some (evLedger b, r0, r1) else best"
  have best: "?best = (if to < evLedger b then best else Some (evLedger b, r0, r1))"
    using 2(3)[of _ _ "SyncEvent b r0 r1"] by (cases best) auto
  have "latestSync to evs ?best = (let ss = List.map_filter sync_of (filter (\<lambda>ev. evLedger (event_base_of ev) \<le> to) evs) in
      if ss = [] then ?best else Some (last ss))"
    using 2(2,3) by (intro 2(1)) (auto simp: best split: if_splits)
  then show ?case unfolding best by (auto simp: Let_def List.map_filter_simps not_less best)
qed (auto simp: List.map_filter_simps)

lemma scan_topic_log:
  assumes "good_log xs" and "trEvents (meTreasury e) = log_env True xs" and "length xs < fuel" and "p \<noteq> []"
  shows "\<exists>ys w'. scan_topic e fuel p topic from to w = Some (Inr (decoded (meAddress e) p ys), w') \<and>
    prefix ys (filter (\<lambda>ev. from \<le> led ev) xs) \<and>
    filter (within_ledger (Some to)) ys = filter (\<lambda>ev. from \<le> led ev \<and> led ev \<le> to) xs"
proof -
  obtain s w' where s: "scan (log_env True xs) (newCursorOptions None None) fuel \<lparr>spContracts = Some [p], spTopics = Some [topic],
      spFrom = Some from, spTo = Some to, spLimit = Some (of_nat 1000)\<rparr> (reset w) = Some (Inr s, w')"
    and "prefix (scanEvents s) (filter (\<lambda>ev. from \<le> led ev) xs)"
    and "filter (within_ledger (Some to)) (scanEvents s) = filter (\<lambda>ev. from \<le> led ev \<and> within_ledger (Some to) ev) xs"
    using scan_of_log[OF assms(1), where n = 1000 and fuel = fuel and opts = "newCursorOptions None None" and cs = "Some [p]" and
      ts = "Some [topic]" and s = "from" and to = "Some to" and w = "reset w"] assms(3) by auto
  then show ?thesis using assms(2,4)
    by (intro exI[of _ "scanEvents s"] exI[of _ w']) (simp add: scan_topic_def typedScan_def tc_contracts_def decoded_def
        SYSTEM_METRICS_PAGE_LIMIT_def within_ledger_def)
qed

lemma decoded_led:
  assumes "list_all (\<lambda>ev. erLedger ev \<noteq> None) ys"
  shows "filter (\<lambda>c. evLedger (event_base_of c) \<le> to) (decoded addr p ys) = decoded addr p (filter (within_ledger (Some to)) ys)"
    and "sorted (map led ys) \<Longrightarrow> sorted (map (\<lambda>c. evLedger (event_base_of c)) (decoded addr p ys))"
proof -
  have led: "evLedger (event_base_of c) = led ev" if "ev \<in> set ys" "fromEventResponse addr [p] (event_response.truncate ev) = Some c" for ev c
    using decoded_ledger[OF that(2)] assms that(1) by (auto simp: led_def or_zero_def event_response.defs list_all_iff split: option.splits)
  show "filter (\<lambda>c. evLedger (event_base_of c) \<le> to) (decoded addr p ys) = decoded addr p (filter (within_ledger (Some to)) ys)"
    using led
  proof (induction ys)
    case (Cons y ys)
    have IH: "filter (\<lambda>c. evLedger (event_base_of c) \<le> to) (decoded addr p ys) = decoded addr p (filter (within_ledger (Some to)) ys)"
      using Cons by auto
    show ?case
    proof (cases "fromEventResponse addr [p] (event_response.truncate y)")
      case (Some c)
      have "evLedger (event_base_of c) = led y" by (rule Cons.prems[OF _ Some]) simp
      then have "within_ledger (Some to) y \<longleftrightarrow> evLedger (event_base_of c) \<le> to" by (simp add: within_ledger_def)
      then show ?thesis using IH Some by (simp add: decoded_def List.map_filter_simps)
    qed (use IH in \<open>simp add: decoded_def List.map_filter_simps\<close>)
  qed (simp add: decoded_def List.map_filter_simps)
  have sub: "set (map (\<lambda>c. evLedger (event_base_of c)) (decoded addr p zs)) \<subseteq> set (map led zs)" if "set zs \<subseteq> set ys" for zs
    using led that by (force simp: decoded_def List.map_filter_def)
  show "sorted (map (\<lambda>c. evLedger (event_base_of c)) (decoded addr p ys))" if "sorted (map led ys)"
    using that led sub
  proof (induction ys)
    case (Cons y ys)
    have IH: "sorted (map (\<lambda>c. evLedger (event_base_of c)) (decoded addr p ys))" using Cons by (auto simp: subset_insertI2)
    show ?case
    proof (cases "fromEventResponse addr [p] (event_response.truncate y)")
      case None
      then show ?thesis using IH by (simp add: decoded_def List.map_filter_simps)
    next
      case (Some c)
      have "set (map (\<lambda>c. evLedger (event_base_of c)) (decoded addr p ys)) \<subseteq> set (map led ys)" by (rule Cons.prems(3)) auto
      then have "\<forall>l \<in> set (map (\<lambda>c. evLedger (event_base_of c)) (decoded addr p ys)). evLedger (event_base_of c) \<le> l"
        using Cons.prems(1) Cons.prems(2)[OF _ Some] by auto
      then show ?thesis using IH Some by (simp add: decoded_def List.map_filter_simps)
    qed
  qed (simp add: decoded_def List.map_filter_simps)
qed

lemma decoded_from: "c \<in> set (decoded addr p ys) \<Longrightarrow> \<exists>ev \<in> set ys. fromEventResponse addr [p] (event_response.truncate ev) = Some c"
  by (induction ys) (auto simp: decoded_def List.map_filter_simps split: option.splits)

lemma log_part:
  assumes "good_log xs" and "prefix ys (filter (\<lambda>ev. from \<le> led ev) xs)"
  shows "list_all (\<lambda>ev. erLedger ev \<noteq> None) ys" and "sorted (map led ys)" and "list_all (\<lambda>ev. from \<le> led ev) ys"
proof -
  have sub: "set ys \<subseteq> set (filter (\<lambda>ev. from \<le> led ev) xs)" using assms(2) by (rule set_mono_prefix)
  then show "list_all (\<lambda>ev. erLedger ev \<noteq> None) ys" "list_all (\<lambda>ev. from \<le> led ev) ys"
    using assms(1) by (auto simp: good_log_def list_all_iff)
  obtain zs where "filter (\<lambda>ev. from \<le> led ev) xs = ys @ zs" using assms(2) by (auto simp: prefix_def)
  moreover have "sorted (map led (filter (\<lambda>ev. from \<le> led ev) xs))" using assms(1) by (simp add: good_log_def sorted_filter)
  ultimately show "sorted (map led ys)" by (simp add: sorted_append)
qed

lemma previous_reserves_lemma:
  assumes "good_log xs" and "trEvents (meTreasury e) = log_env True xs" and "length xs < fuel" and "p \<noteq> []"
  shows "\<exists>w'. fetchPreviousReserves e fuel p from to w = Some (Inr (map_option snd (last_opt (List.map_filter sync_of
    (decoded (meAddress e) p (filter (\<lambda>ev. from \<le> led ev \<and> led ev \<le> to) xs))))), w')"
proof -
  obtain ys w' where ys: "scan_topic e fuel p ''sync'' from to w = Some (Inr (decoded (meAddress e) p ys), w')"
    "prefix ys (filter (\<lambda>ev. from \<le> led ev) xs)"
    "filter (within_ledger (Some to)) ys = filter (\<lambda>ev. from \<le> led ev \<and> led ev \<le> to) xs"
    using scan_topic_log[OF assms] by blast
  note part = log_part[OF assms(1) ys(2)]
  have "latestSync to (decoded (meAddress e) p ys) None = last_opt (List.map_filter sync_of
      (decoded (meAddress e) p (filter (\<lambda>ev. from \<le> led ev \<and> led ev \<le> to) xs)))"
    unfolding ys(3)[symmetric] decoded_led(1)[OF part(1), symmetric]
    by (subst latestSync_sorted[OF decoded_led(2)[OF part(1,2)]]) (auto simp: last_opt_def Let_def)
  then show ?thesis using ys(1) by (simp add: fetchPreviousReserves_def bindF_def runF_def retW_def)
qed

text \<open>The earlier reserves of a pool are those of the last \<open>sync\<close> event of the log in the window.\<close>

theorem previous_reserves_of_log:
  assumes "good_log xs" and "trEvents (meTreasury e) = log_env True xs" and "length xs < fuel" and "p \<noteq> []"
  shows "\<exists>w'. fetchPreviousReserves e fuel p from to w = Some (Inr (map_option snd (last_opt (List.map_filter sync_of
    (decoded (meAddress e) p (filter (\<lambda>ev. from \<le> led ev \<and> led ev \<le> to) xs))))), w')"
  by (rule previous_reserves_lemma[OF assms])

fun event_fee_usd :: "rat js_map \<Rightarrow> coral_event \<Rightarrow> rat" where
  "event_fee_usd prices (SwapEvent b s tin tout ain aout bps) = of_int (ain * bps sdiv 10000) / STROOP * price_of prices tin"
| "event_fee_usd prices ev = 0"

fun event_usd :: "rat js_map \<Rightarrow> coral_event \<Rightarrow> rat" where
  "event_usd prices (SwapEvent b s tin tout ain aout bps) = of_int ain / STROOP * price_of prices tin"
| "event_usd prices ev = 0"

definition in_window :: "int \<Rightarrow> int \<Rightarrow> coral_event \<Rightarrow> bool" where
  "in_window from to c \<longleftrightarrow> from \<le> evLedger (event_base_of c) \<and> evLedger (event_base_of c) \<le> to"

lemma fold_addSwap:
  assumes "start \<le> to + 1"
  shows "paRevenue (fold (addSwap prices start to) evs a) = paRevenue a + sum_list (map (event_fee_usd prices) (filter (in_window start to) evs))"
    and "paPrevRevenue (fold (addSwap prices start to) evs a) = paPrevRevenue a +
      sum_list (map (event_fee_usd prices) (filter (\<lambda>c. evLedger (event_base_of c) < start) evs))"
    and "paVolume (fold (addSwap prices start to) evs a) = paVolume a + sum_list (map (event_usd prices) (filter (in_window start to) evs))"
proof (induction evs arbitrary: a)
  case (Cons ev evs)
  {
    case 1
    then show ?case using Cons by (cases ev) (auto simp: in_window_def Let_def)
  next
    case 2
    then show ?case using Cons assms by (cases ev) (auto simp: Let_def)
  next
    case 3
    then show ?case using Cons by (cases ev) (auto simp: in_window_def Let_def)
  }
qed simp_all

lemma activity_of_log_lemma:
  assumes "good_log xs" and "trEvents (meTreasury e) = log_env True xs" and "length xs < fuel" and "p \<noteq> []" and "from \<le> start" and "start \<le> to"
  defines "evs \<equiv> decoded (meAddress e) p (filter (\<lambda>ev. from \<le> led ev \<and> led ev \<le> to) xs)"
  shows "\<exists>a w'. fetchPoolSwapActivity e fuel prices from start to p w = Some (Inr a, w') \<and>
    paRevenue a = sum_list (map (event_fee_usd prices) (filter (in_window start to) evs)) \<and>
    paVolume a = sum_list (map (event_usd prices) (filter (in_window start to) evs)) \<and>
    paPrevRevenue a = sum_list (map (event_fee_usd prices) (filter (in_window from (start - 1)) evs))"
proof -
  obtain ys w' where ys: "scan_topic e fuel p ''swap'' from to w = Some (Inr (decoded (meAddress e) p ys), w')"
    "prefix ys (filter (\<lambda>ev. from \<le> led ev) xs)"
    "filter (within_ledger (Some to)) ys = filter (\<lambda>ev. from \<le> led ev \<and> led ev \<le> to) xs"
    using scan_topic_log[OF assms(1-4)] by blast
  note part = log_part[OF assms(1) ys(2)]
  let ?d = "decoded (meAddress e) p ys"
  have evs: "evs = filter (\<lambda>c. evLedger (event_base_of c) \<le> to) ?d"
    unfolding evs_def ys(3)[symmetric] decoded_led(1)[OF part(1)] ..
  have early: "from \<le> evLedger (event_base_of c)" if m: "c \<in> set ?d" for c
  proof -
    obtain ev where "ev \<in> set ys" "fromEventResponse (meAddress e) [p] (event_response.truncate ev) = Some c"
      using decoded_from[OF m] by blast
    then have "evLedger (event_base_of c) = led ev" "from \<le> led ev"
      using decoded_ledger part by (auto simp: led_def or_zero_def event_response.defs list_all_iff split: option.splits)
    then show ?thesis by simp
  qed
  have now: "filter (in_window start to) ?d = filter (in_window start to) evs"
    unfolding evs filter_filter by (rule filter_cong) (auto simp: in_window_def)
  have before: "filter (\<lambda>c. evLedger (event_base_of c) < start) ?d = filter (in_window from (start - 1)) evs"
    unfolding evs filter_filter using early assms(6) by (intro filter_cong) (auto simp: in_window_def)
  show ?thesis using ys(1) assms(6)
    by (simp add: fetchPoolSwapActivity_def bindF_def runF_def retW_def fold_addSwap now before no_activity_def)
qed

text \<open>The two windows split the swaps of the log: revenue and volume of the period are over its swaps, the earlier figures over the
  swaps before it.\<close>

theorem activity_of_log:
  assumes "good_log xs" and "trEvents (meTreasury e) = log_env True xs" and "length xs < fuel" and "p \<noteq> []" and "from \<le> start" and "start \<le> to"
    and "evs = decoded (meAddress e) p (filter (\<lambda>ev. from \<le> led ev \<and> led ev \<le> to) xs)"
  shows "\<exists>a w'. fetchPoolSwapActivity e fuel prices from start to p w = Some (Inr a, w') \<and>
    paRevenue a = sum_list (map (event_fee_usd prices) (filter (in_window start to) evs)) \<and>
    paVolume a = sum_list (map (event_usd prices) (filter (in_window start to) evs)) \<and>
    paPrevRevenue a = sum_list (map (event_fee_usd prices) (filter (in_window from (start - 1)) evs))"
  unfolding assms(7) by (rule activity_of_log_lemma[OF assms(1-6)])

section \<open>Runs\<close>

definition monitor_history :: "raw_event list \<Rightarrow> monitor_state history_env" where
  "monitor_history xs = \<lparr>heLedger = retW 10, heEvents = log_env True xs, heAddress = key_text, heNowMs = (\<lambda>w. 0), heValid = (\<lambda>a. True),
     heZodText = [], heNumText = (\<lambda>q. [])\<rparr>"

definition monitor_treasury :: "raw_event list \<Rightarrow> monitor_state treasury_env" where
  "monitor_treasury xs = \<lparr>trStable = [''S''], trFeeTo = retW ''G'', trPairs = retW [], trTokens = (\<lambda>p. retW (''S'', ''A'')),
     trReserves = (\<lambda>p. retW (2000, 1000)), trLpToken = (\<lambda>p. retW ''L''), trBalance = (\<lambda>t a. retW 1), trSupply = (\<lambda>t. retW 4),
     trSymbol = (\<lambda>t. retW ''LP''), trDecimals = (\<lambda>a. retW (Some (of_int 7))), trLedger = retW 10, trEvents = log_env True xs,
     trAddress = key_text\<rparr>"

definition sample_monitor :: "raw_event list \<Rightarrow> monitor_state monitor_env" where
  "sample_monitor xs = \<lparr>meTreasury = monitor_treasury xs, meHistory = monitor_history xs, meDynamicFee = (\<lambda>p. retW 30),
     meAddress = (\<lambda>v. case key_text v of Some s \<Rightarrow> Inr s | None \<Rightarrow> Inl ''no address''), meNowMs = (\<lambda>w. 0), meValid = (\<lambda>a. True), meZodText = []\<rparr>"

definition fresh_monitor :: monitor_state where
  "fresh_monitor = \<lparr>cursorAt = None, trCache = [], moCache = []\<rparr>"

lemma sample_sel: "meTreasury (sample_monitor xs) = monitor_treasury xs" "trEvents (monitor_treasury xs) = log_env True xs"
  by (simp_all add: sample_monitor_def monitor_treasury_def)

theorem activity_of_log_witness:
  "\<exists>a w'. fetchPoolSwapActivity (sample_monitor three_swaps) 5 [Some (''A'', 2)] 4 5 9 ''P'' fresh_monitor = Some (Inr a, w') \<and>
    paRevenue a = sum_list (map (event_fee_usd [Some (''A'', 2)]) (filter (in_window 5 9)
      (decoded (meAddress (sample_monitor three_swaps)) ''P'' (filter (\<lambda>ev. 4 \<le> led ev \<and> led ev \<le> 9) three_swaps))))"
proof -
  have "\<exists>a w'. fetchPoolSwapActivity (sample_monitor three_swaps) 5 [Some (''A'', 2)] 4 5 9 ''P'' fresh_monitor = Some (Inr a, w') \<and>
    paRevenue a = sum_list (map (event_fee_usd [Some (''A'', 2)]) (filter (in_window 5 9)
      (decoded (meAddress (sample_monitor three_swaps)) ''P'' (filter (\<lambda>ev. 4 \<le> led ev \<and> led ev \<le> 9) three_swaps)))) \<and>
    paVolume a = sum_list (map (event_usd [Some (''A'', 2)]) (filter (in_window 5 9)
      (decoded (meAddress (sample_monitor three_swaps)) ''P'' (filter (\<lambda>ev. 4 \<le> led ev \<and> led ev \<le> 9) three_swaps)))) \<and>
    paPrevRevenue a = sum_list (map (event_fee_usd [Some (''A'', 2)]) (filter (in_window 4 (5 - 1))
      (decoded (meAddress (sample_monitor three_swaps)) ''P'' (filter (\<lambda>ev. 4 \<le> led ev \<and> led ev \<le> 9) three_swaps))))"
    by (rule activity_of_log[OF treasury_log(1)]) (simp_all add: sample_sel treasury_log(2))
  then show ?thesis by (elim exE conjE) (intro exI conjI)
qed

theorem previous_reserves_of_log_witness:
  "\<exists>w'. fetchPreviousReserves (sample_monitor three_swaps) 5 ''P'' 4 9 fresh_monitor = Some (Inr (map_option snd (last_opt (List.map_filter sync_of
    (decoded (meAddress (sample_monitor three_swaps)) ''P'' (filter (\<lambda>ev. 4 \<le> led ev \<and> led ev \<le> 9) three_swaps))))), w')"
  by (rule previous_reserves_of_log[OF treasury_log(1)]) (simp_all add: sample_sel treasury_log(2))

definition shrunk :: "string \<Rightarrow> rat \<Rightarrow> pool_change" where
  "shrunk p q = \<lparr>pcPair = p, pcCurrent = 1, pcPrevious = 1 + q, pcChange = computeMetricChange 1 (1 + q)\<rparr>"

theorem top_pools_witness:
  "\<exists>g d. pickTopPools [shrunk ''P'' 3, shrunk ''Q'' 5] = (Some g, Some d) \<and> mcAbsolute (pcChange g) = -3"
proof -
  have p: "pickTopPools [shrunk ''P'' 3, shrunk ''Q'' 5] = (Some (shrunk ''P'' 3), Some (shrunk ''Q'' 5))"
    by (simp add: pickTopPools_def sort_by_def by_change_def shrunk_def computeMetricChange_def)
  from top_pools[OF _ p] have "shrunk ''P'' 3 \<in> set [shrunk ''P'' 3, shrunk ''Q'' 5]" by simp
  then show ?thesis using p by (simp add: shrunk_def computeMetricChange_def)
qed

lemma no_sync: "\<exists>w3. fetchPreviousReserves (sample_monitor []) 1 ''P'' 4 9 fresh_monitor = Some (Inr None, w3)"
proof -
  have "\<exists>w'. fetchPreviousReserves (sample_monitor []) 1 ''P'' 4 9 fresh_monitor = Some (Inr (map_option snd (last_opt (List.map_filter sync_of
      (decoded (meAddress (sample_monitor [])) ''P'' (filter (\<lambda>ev. 4 \<le> led ev \<and> led ev \<le> 9) []))))), w')"
    by (rule previous_reserves_lemma) (simp_all add: sample_sel good_log_def)
  then show ?thesis by (simp add: decoded_def last_opt_def List.map_filter_simps)
qed

theorem quiet_pool_grows_witness:
  "\<exists>tvl w'. fetchPoolTvlWindow (sample_monitor []) 1 [Some (''A'', 2)] 4 9 ''P'' fresh_monitor = Some (Inr tvl, w') \<and>
    map (mcPercentage \<circ> pcChange) (poolChanges [(''P'', tvl, no_activity)]) = [100]"
proof -
  obtain w3 where "fetchPreviousReserves (sample_monitor []) 1 ''P'' 4 9 fresh_monitor = Some (Inr None, w3)" using no_sync by (elim exE) (rule that)
  then have "\<exists>tvl. fetchPoolTvlWindow (sample_monitor []) 1 [Some (''A'', 2)] 4 9 ''P'' fresh_monitor = Some (Inr tvl, w3) \<and>
      map (mcPercentage \<circ> pcChange) (poolChanges [(''P'', tvl, no_activity)]) = [100] \<and> map pcPrevious (poolChanges [(''P'', tvl, no_activity)]) = [0]"
    by (intro quiet_pool_grows[where ts = "(''S'', ''A'')" and rs = "(2000, 1000)" and ?w1.0 = fresh_monitor and ?w2.0 = fresh_monitor])
      (simp_all add: sample_sel monitor_treasury_def retW_def reservesToUSD_def STROOP_def price_of_def or_else_def)
  then show ?thesis by (elim exE conjE) (intro exI conjI)
qed

theorem summary_never_fails_witness:
  "\<exists>r w'. getProtocolSummary (sample_monitor []) 1 fresh_monitor = Some (r, w') \<and> (\<exists>s. r = Inr s \<and> ysActive s \<le> ysPools s)"
proof -
  obtain r w' where r: "getProtocolSummary (sample_monitor []) 1 fresh_monitor = Some (r, w')"
    by (simp add: getProtocolSummary_def getAllPoolHealth_def bindF_def catchF_def runF_def sample_sel monitor_treasury_def retW_def Let_def)
  from summary_never_fails[OF r] show ?thesis using r by (elim exE conjE) (intro exI conjI)
qed

lemma first_metrics: "\<exists>m w1. getProtocolMetrics (sample_monitor []) 1 fresh_monitor = Some (Inr m, w1) \<and> pmComputedAt m = 0"
  by (simp add: getProtocolMetrics_def getCached_def fresh_monitor_def bindF_def runF_def sample_monitor_def monitor_treasury_def retW_def getSpotPriceMap_def
      buildPriceMap_def Let_def day_history_def getSwapHistory_def monitor_history_def liftW_def bindW_def throw_if_def swapHistoryFilterSchema_def
      opt_all_def day_filter_def LEDGERS_PER_DAY_def LEDGER_CLOSE_INTERVAL_SECONDS_def HISTORY_QUERY_LIMIT_def or_else_def scan_def MAX_EVENT_LIMIT_def
      log_env_def log_page_def takePage_def scan_start_def scan_answer_def reset_def historyOf_def List.map_filter_simps)

theorem metrics_cached_witness:
  "\<exists>m w1. getProtocolMetrics (sample_monitor []) 1 fresh_monitor = Some (Inr m, w1) \<and> getProtocolMetrics (sample_monitor []) 0 w1 = Some (Inr m, w1)"
proof -
  obtain m w1 where m: "getProtocolMetrics (sample_monitor []) 1 fresh_monitor = Some (Inr m, w1)" "pmComputedAt m = 0"
    using first_metrics by (elim exE conjE) (rule that)
  have "getCached (sample_monitor []) ''protocol'' fresh_monitor = None" by (simp add: getCached_def fresh_monitor_def)
  from metrics_cached[OF this m(1) refl, of 0] show ?thesis using m by (intro exI conjI) (simp_all add: sample_monitor_def)
qed

end
