(* ===== verification/Metrics.thy ===== *)
theory Metrics
  imports Monitoring
begin

text \<open>
  The managed metrics of \<open>modules/monitoring.ts\<close>: registered, collected, queried, pruned, summed up in a dashboard. The
  metrics are the entries of the module's map, in the order of their registration. An instance that is collected is read
  before its value is fetched and written back after it, as the code does. Fuel counts the pages of a scan and, in
  \<open>collectAll\<close>, the positions of the map.
\<close>

section \<open>Data\<close>

record metric_config =
  mgName :: string
  mgCategory :: string
  mgTarget :: string
  mgGranularity :: "string option"
  mgEnabled :: "bool option"
  mgUpper :: "rat option"
  mgLower :: "rat option"

record metric_instance =
  miId :: string
  miConfig :: metric_config
  miData :: "(int \<times> rat) list"
  miCurrent :: "rat option"
  miBreach :: bool
  miCreated :: int

record metric_updates =
  muName :: "string option"
  muCategory :: "string option"
  muTarget :: "string option"
  muGranularity :: "string option"
  muEnabled :: "bool option"
  muUpper :: "rat option"
  muLower :: "rat option"

record metric_query =
  mqId :: string
  mqFrom :: rat
  mqTo :: rat
  mqLimit :: "rat option"

record dashboard =
  dbCategories :: "metric_instance list js_map"
  dbCount :: nat
  dbBreaches :: nat
  dbLiquidity :: rat
  dbVolume :: rat
  dbFees :: rat
  dbGas :: rat

record metrics_state = monitor_state +
  mxMetrics :: "metric_instance js_map"

record 'w metrics_env =
  mxMonitor :: "'w monitor_env"
  mxRandom :: "'w \<Rightarrow> string \<times> 'w"

definition MAX_METRICS :: nat where "MAX_METRICS = 100"
definition MAX_DATA_POINTS :: nat where "MAX_DATA_POINTS = 1000"
definition DEFAULT_GRANULARITY :: string where "DEFAULT_GRANULARITY = ''1h''"

definition metric_missing :: "string \<Rightarrow> thrown" where
  "metric_missing i = Sdk (ValidationError (''Metric not found: '' @ i))"

definition put_metric :: "string \<Rightarrow> metric_instance \<Rightarrow> 'x metrics_state_scheme \<Rightarrow> 'x metrics_state_scheme" where
  "put_metric i m w = w\<lparr>mxMetrics := js_set (mxMetrics w) i m\<rparr>"

section \<open>Registration\<close>

definition registerMetric :: "('x metrics_state_scheme) metrics_env \<Rightarrow> metric_config \<Rightarrow> ('x metrics_state_scheme, thrown, string) act" where
  "registerMetric e c w =
     (if MAX_METRICS \<le> js_size (mxMetrics w) then (Inl (Sdk (ValidationError ''Maximum of 100 metrics reached'')), w)
      else if trim (mgName c) = [] then (Inl (Sdk (ValidationError ''Metric name must not be empty'')), w)
      else bindW (liftW (validateAddress (meValid (mxMonitor e)) (mgTarget c) ''targetAddress'')) (\<lambda>_ w.
        let (r, w1) = mxRandom e w; now = meNowMs (mxMonitor e) w; i = ''metric_'' @ int_str now @ ''_'' @ r;
          c' = c\<lparr>mgGranularity := Some (or_else (mgGranularity c) DEFAULT_GRANULARITY), mgEnabled := Some (or_else (mgEnabled c) True)\<rparr>
        in (Inr i, put_metric i \<lparr>miId = i, miConfig = c', miData = [], miCurrent = None, miBreach = False, miCreated = now div 1000\<rparr> w1)) w)"

definition or_keep :: "'a option \<Rightarrow> 'a option \<Rightarrow> 'a option" where
  "or_keep new old = (case new of Some x \<Rightarrow> Some x | None \<Rightarrow> old)"

definition merged_config :: "metric_updates \<Rightarrow> metric_config \<Rightarrow> metric_config" where
  "merged_config u c = \<lparr>mgName = or_else (muName u) (mgName c), mgCategory = or_else (muCategory u) (mgCategory c),
     mgTarget = or_else (muTarget u) (mgTarget c), mgGranularity = or_keep (muGranularity u) (mgGranularity c),
     mgEnabled = or_keep (muEnabled u) (mgEnabled c), mgUpper = or_keep (muUpper u) (mgUpper c), mgLower = or_keep (muLower u) (mgLower c)\<rparr>"

definition getMetric :: "string \<Rightarrow> ('x metrics_state_scheme, thrown, metric_instance) act" where
  "getMetric i w = (case js_get (mxMetrics w) i of None \<Rightarrow> (Inl (metric_missing i), w) | Some m \<Rightarrow> (Inr m, w))"

definition updateMetric :: "string \<Rightarrow> metric_updates \<Rightarrow> ('x metrics_state_scheme, thrown, unit) act" where
  "updateMetric i u = bindW (getMetric i) (\<lambda>m w. (Inr (), put_metric i (m\<lparr>miConfig := merged_config u (miConfig m)\<rparr>) w))"

definition deleteMetric :: "string \<Rightarrow> ('x metrics_state_scheme, thrown, unit) act" where
  "deleteMetric i = bindW (getMetric i) (\<lambda>_ w. (Inr (), w\<lparr>mxMetrics := js_delete (mxMetrics w) i\<rparr>))"

definition listMetrics :: "string option \<Rightarrow> 'x metrics_state_scheme \<Rightarrow> metric_instance list" where
  "listMetrics category w = (let all = js_values (mxMetrics w) in case category of
     Some (c # cs) \<Rightarrow> filter (\<lambda>m. mgCategory (miConfig m) = c # cs) all | _ \<Rightarrow> all)"

section \<open>Collection\<close>

definition fetchSwapWindowValue :: "('x monitor_state_scheme) monitor_env \<Rightarrow> nat \<Rightarrow> bool \<Rightarrow> string \<Rightarrow> ('x monitor_state_scheme, rat) scan_act" where
  "fetchSwapWindowValue e fuel fees p = catchF (bindF (runF (trPairs (meTreasury e))) (\<lambda>pairs.
     bindF (runF (getSpotPriceMap (meTreasury e) pairs)) (\<lambda>prices. bindF (fetchPairSwapTotals e fuel p prices) (\<lambda>(v, f, n, u).
     runF (retW (if fees then f else v)))))) (\<lambda>_. 0)"

definition fetchLiquidityValue :: "'w monitor_env \<Rightarrow> string \<Rightarrow> ('w, thrown, rat) act" where
  "fetchLiquidityValue e p = catchW (bindW (trReserves (meTreasury e) p) (\<lambda>(r0, r1). retW (of_int (r0 + r1) / 10 ^ 7))) (\<lambda>_. retW 0)"

definition fetchPriceValue :: "'w monitor_env \<Rightarrow> string \<Rightarrow> ('w, thrown, rat) act" where
  "fetchPriceValue e p = catchW (bindW (trReserves (meTreasury e) p) (\<lambda>(r0, r1). retW (if r0 = 0 then 0 else of_int r1 / of_int r0))) (\<lambda>_. retW 0)"

definition fetchPairsValue :: "'w monitor_env \<Rightarrow> ('w, thrown, rat) act" where
  "fetchPairsValue e = catchW (bindW (trPairs (meTreasury e)) (\<lambda>ps. retW (of_nat (length ps)))) (\<lambda>_. retW 0)"

definition fetchMetricValue :: "('x monitor_state_scheme) monitor_env \<Rightarrow> nat \<Rightarrow> metric_config \<Rightarrow> ('x monitor_state_scheme, rat) scan_act" where
  "fetchMetricValue e fuel c = (if mgCategory c = ''liquidity'' then runF (fetchLiquidityValue e (mgTarget c))
     else if mgCategory c = ''volume'' then fetchSwapWindowValue e fuel False (mgTarget c)
     else if mgCategory c = ''fees'' then fetchSwapWindowValue e fuel True (mgTarget c)
     else if mgCategory c = ''price'' then runF (fetchPriceValue e (mgTarget c))
     else if mgCategory c = ''pairs'' then runF (fetchPairsValue e)
     else runF (retW 0))"

definition out_of_bounds :: "metric_config \<Rightarrow> rat \<Rightarrow> bool" where
  "out_of_bounds c v \<longleftrightarrow> (case mgUpper c of Some u \<Rightarrow> u < v | None \<Rightarrow> False) \<or> (case mgLower c of Some l \<Rightarrow> v < l | None \<Rightarrow> False)"

definition last_points :: "'a list \<Rightarrow> 'a list" where
  "last_points xs = (if MAX_DATA_POINTS < length xs then drop (length xs - MAX_DATA_POINTS) xs else xs)"

definition collected :: "int \<Rightarrow> rat \<Rightarrow> metric_instance \<Rightarrow> metric_instance" where
  "collected now v m = m\<lparr>miData := last_points (miData m @ [(now, v)]), miCurrent := Some v, miBreach := out_of_bounds (miConfig m) v\<rparr>"

definition is_enabled :: "metric_instance \<Rightarrow> bool" where
  "is_enabled m \<longleftrightarrow> mgEnabled (miConfig m) = Some True"

definition collect_metric :: "('x metrics_state_scheme) metrics_env \<Rightarrow> nat \<Rightarrow> string \<Rightarrow> ('x metrics_state_scheme, unit) scan_act" where
  "collect_metric e fuel i = bindF (runF (getMetric i)) (\<lambda>m. if \<not> is_enabled m then runF (retW ())
     else bindF (fetchMetricValue (mxMonitor e) fuel (miConfig m)) (\<lambda>v w. Some (Inr (), put_metric i (collected (meNowMs (mxMonitor e) w div 1000) v m) w)))"

fun collectFrom :: "('x metrics_state_scheme) metrics_env \<Rightarrow> nat \<Rightarrow> nat \<Rightarrow> nat \<Rightarrow> string list \<Rightarrow> ('x metrics_state_scheme, string list) scan_act" where
  "collectFrom e pages 0 n done_ids w = None"
| "collectFrom e pages (Suc fuel) n done_ids w = (if length (mxMetrics w) \<le> n then Some (Inr done_ids, w)
     else case mxMetrics w ! n of None \<Rightarrow> collectFrom e pages fuel (Suc n) done_ids w
     | Some (i, m) \<Rightarrow> if \<not> is_enabled m then collectFrom e pages fuel (Suc n) done_ids w
       else case collect_metric e pages i w of None \<Rightarrow> None
         | Some (r, w1) \<Rightarrow> collectFrom e pages fuel (Suc n) (case r of Inr _ \<Rightarrow> done_ids @ [i] | Inl _ \<Rightarrow> done_ids) w1)"

definition collectAll :: "('x metrics_state_scheme) metrics_env \<Rightarrow> nat \<Rightarrow> nat \<Rightarrow> ('x metrics_state_scheme, string list) scan_act" where
  "collectAll e pages fuel = collectFrom e pages fuel 0 []"

section \<open>Queries\<close>

text \<open>Thinning out: every \<open>step\<close>-th point. A limit of zero makes the step infinite, a negative one beyond the length makes it zero.\<close>

definition thinned :: "rat \<Rightarrow> 'a list \<Rightarrow> 'a list" where
  "thinned limit xs = (if limit = 0 then take 1 xs
     else let step = \<lceil>of_nat (length xs) / limit\<rceil> in
       if step = 0 then [] else map fst (filter (\<lambda>(x, k). int k mod \<bar>step\<bar> = 0) (zip xs [0..<length xs])))"

definition queryMetric :: "metric_query \<Rightarrow> ('x metrics_state_scheme, thrown, (int \<times> rat) list) act" where
  "queryMetric q = bindW (getMetric (mqId q)) (\<lambda>m. let xs = filter (\<lambda>(t, v). mqFrom q \<le> of_int t \<and> of_int t \<le> mqTo q) (miData m);
     limit = or_else (mqLimit q) 1000 in retW (if limit < of_nat (length xs) then thinned limit xs else xs))"

definition values_of :: "string \<Rightarrow> metric_instance list \<Rightarrow> rat list" where
  "values_of c ms = List.map_filter (\<lambda>m. if mgCategory (miConfig m) = c then miCurrent m else None) ms"

definition group_metric :: "metric_instance \<Rightarrow> metric_instance list js_map \<Rightarrow> metric_instance list js_map" where
  "group_metric m cs = js_set cs (mgCategory (miConfig m)) (or_else (js_get cs (mgCategory (miConfig m))) [] @ [m])"

definition getDashboard :: "'x metrics_state_scheme \<Rightarrow> dashboard" where
  "getDashboard w = (let ms = js_values (mxMetrics w); gas = values_of ''gas'' ms in
     \<lparr>dbCategories = fold group_metric ms [], dbCount = length ms, dbBreaches = length (filter miBreach ms),
       dbLiquidity = sum_list (values_of ''liquidity'' ms), dbVolume = sum_list (values_of ''volume'' ms), dbFees = sum_list (values_of ''fees'' ms),
       dbGas = (if gas = [] then 0 else sum_list gas / of_nat (length gas))\<rparr>)"

definition js_map_values :: "('a \<Rightarrow> 'a) \<Rightarrow> 'a js_map \<Rightarrow> 'a js_map" where
  "js_map_values f m = map (map_option (map_prod id f)) m"

definition prune :: "('x metrics_state_scheme) metrics_env \<Rightarrow> int option \<Rightarrow> 'x metrics_state_scheme \<Rightarrow> 'x metrics_state_scheme" where
  "prune e age w = (let cutoff = meNowMs (mxMonitor e) w div 1000 - or_else age 7776000 in
     w\<lparr>mxMetrics := js_map_values (\<lambda>m. m\<lparr>miData := filter (\<lambda>(t, v). cutoff \<le> t) (miData m)\<rparr>) (mxMetrics w)\<rparr>)"

section \<open>The invariant\<close>

definition bounded_metric :: "string \<Rightarrow> metric_instance \<Rightarrow> bool" where
  "bounded_metric i m \<longleftrightarrow> length (miData m) \<le> MAX_DATA_POINTS"

definition metrics_ok :: "'x metrics_state_scheme \<Rightarrow> bool" where
  "metrics_ok w \<longleftrightarrow> js_size (mxMetrics w) \<le> MAX_METRICS \<and> js.every bounded_metric (mxMetrics w)"

lemma last_points_length: "length (last_points xs) \<le> MAX_DATA_POINTS"
  by (simp add: last_points_def)

lemma js_get_map_values: "js_get (js_map_values f m) k = map_option f (js_get m k)"
  by (induction m k rule: js_get.induct) (auto simp: js_map_values_def)

lemma js_entries_map_values: "js_entries (js_map_values f m) = map (map_prod id f) (js_entries m)"
  by (induction m rule: js_entries.induct) (auto simp: js_map_values_def)

lemma every_map_values: "js.every P m \<Longrightarrow> (\<And>k v. P k v \<Longrightarrow> P k (f v)) \<Longrightarrow> js.every P (js_map_values f m)"
  by (auto simp: js.every_def js_get_map_values)

lemma put_metric_ok: "metrics_ok w \<Longrightarrow> bounded_metric i m \<Longrightarrow> js_get (mxMetrics w) i \<noteq> None \<Longrightarrow> metrics_ok (put_metric i m w)"
  by (auto simp: metrics_ok_def put_metric_def js.every_put js_size_set)

lemma register_ok:
  assumes "metrics_ok w" and "\<And>u. mxMetrics (snd (mxRandom e u)) = mxMetrics u" and "registerMetric e c w = (r, w')"
  shows "metrics_ok w'"
proof (cases "registerMetric e c w = (r, w) \<and> w' = w")
  case True
  then show ?thesis using assms(1) by simp
next
  case False
  obtain x u where x: "mxRandom e w = (x, u)" by fastforce
  then have u: "mxMetrics u = mxMetrics w" using assms(2)[of w] by simp
  have few: "js_size (mxMetrics w) < MAX_METRICS" using assms(3) False by (auto simp: registerMetric_def split: if_splits)
  have "\<exists>i m. w' = put_metric i m u \<and> bounded_metric i m" using assms(3) False x
    by (auto simp: registerMetric_def bindW_def liftW_def bounded_metric_def Let_def split: if_splits sum.splits) (intro exI conjI, rule refl, simp)
  then show ?thesis using assms(1) few by (auto simp: metrics_ok_def put_metric_def u js.every_put js_size_set)
qed

text \<open>There are at most a hundred metrics, each with at most a thousand points, whatever is done to them.\<close>

theorem metrics_invariant:
  assumes "metrics_ok w" and "\<And>u. mxMetrics (snd (mxRandom e u)) = mxMetrics u"
  shows "metrics_ok (snd (registerMetric e c w)) \<and> metrics_ok (snd (updateMetric i u w)) \<and> metrics_ok (snd (deleteMetric i w)) \<and>
    metrics_ok (prune e age w) \<and>
    (\<forall>m v w1. js_get (mxMetrics w) i = Some m \<and> mxMetrics w1 = mxMetrics w \<longrightarrow> metrics_ok (put_metric i (collected t v m) w1))"
proof (intro conjI allI impI)
  show "metrics_ok (snd (registerMetric e c w))" by (rule register_ok[OF assms, of c]) (simp_all add: prod_eq_iff)
  show "metrics_ok (snd (updateMetric i u w))" using assms(1)
    by (auto simp: updateMetric_def getMetric_def bindW_def split: option.splits intro!: put_metric_ok[OF assms(1)])
      (auto simp: metrics_ok_def js.every_def bounded_metric_def)
  show "metrics_ok (snd (deleteMetric i w))" using assms(1) js_size_delete[of "mxMetrics w" i]
    by (auto simp: deleteMetric_def getMetric_def bindW_def metrics_ok_def js.every_del split: option.splits)
  show "metrics_ok (prune e age w)" using assms(1)
    by (auto simp: prune_def metrics_ok_def Let_def js_size_def js_entries_map_values bounded_metric_def
        intro!: every_map_values le_trans[OF length_filter_le])
  fix m v w1 assume m: "js_get (mxMetrics w) i = Some m \<and> mxMetrics w1 = mxMetrics w"
  show "metrics_ok (put_metric i (collected t v m) w1)"
  proof (rule put_metric_ok)
    show "metrics_ok w1" using assms(1) m by (simp add: metrics_ok_def)
    show "bounded_metric i (collected t v m)" by (simp add: bounded_metric_def collected_def last_points_length)
  qed (use m in simp)
qed

section \<open>Collection\<close>

text \<open>What a collection writes back is the instance it read before the fetch: a metric deleted meanwhile is there again, an update made
  meanwhile is lost.\<close>

theorem collect_writes_back:
  assumes "js_get (mxMetrics w) i = Some m" and "is_enabled m" and "collect_metric e fuel i w = Some (Inr (), w')"
  shows "\<exists>t v. js_get (mxMetrics w') i = Some (collected t v m)"
  using assms by (auto simp: collect_metric_def bindF_def runF_def getMetric_def put_metric_def js_get_set split: option.splits prod.splits sum.splits) blast

text \<open>A pool that cannot be read has the value zero, which is below a positive lower bound: an outage is a breach.\<close>

theorem failed_read_breaches:
  assumes "js_get (mxMetrics w) i = Some m" and "is_enabled m" and "mgCategory (miConfig m) = ''liquidity''" and "mgLower (miConfig m) = Some l"
    and "0 < l" and "trReserves (meTreasury (mxMonitor e)) (mgTarget (miConfig m)) w = (Inl x, w1)"
  shows "\<exists>w' m'. collect_metric e fuel i w = Some (Inr (), w') \<and> js_get (mxMetrics w') i = Some m' \<and> miCurrent m' = Some 0 \<and> miBreach m'"
  using assms by (simp add: collect_metric_def bindF_def runF_def getMetric_def fetchMetricValue_def fetchLiquidityValue_def bindW_def catchW_def retW_def
      put_metric_def js_get_set collected_def out_of_bounds_def)

text \<open>One metric that fails never stops the others.\<close>

theorem collect_all_never_fails:
  assumes "collectAll e pages fuel w = Some (r, w')"
  shows "\<exists>ids. r = Inr ids"
proof -
  have "\<exists>ids'. r = Inr ids'" if "collectFrom e pages fuel n ids w = Some (r, w')" for n ids w
    using that by (induction e pages fuel n ids w rule: collectFrom.induct) (auto split: if_splits option.splits prod.splits)
  then show ?thesis using assms by (simp add: collectAll_def)
qed

section \<open>Queries\<close>

lemma multiples:
  assumes "0 < s" and "n \<le> s * L"
  shows "length (filter (\<lambda>k. k mod s = 0) [0..<n]) \<le> L"
proof -
  have "set (filter (\<lambda>k. k mod s = 0) [0..<n]) \<subseteq> (\<lambda>j. s * j) ` {..<L}"
  proof
    fix k assume "k \<in> set (filter (\<lambda>k. k mod s = 0) [0..<n])"
    then have k: "k < n" "s dvd k" by auto
    then obtain j where j: "k = s * j" by (elim dvdE)
    then have "s * j < s * L" using k(1) assms(2) by linarith
    then show "k \<in> (\<lambda>j. s * j) ` {..<L}" using j by auto
  qed
  then have "card (set (filter (\<lambda>k. k mod s = 0) [0..<n])) \<le> card {..<L}"
    by (meson card_image_le card_mono finite_imageI finite_lessThan order_trans)
  moreover have "card (set (filter (\<lambda>k. k mod s = 0) [0..<n])) = length (filter (\<lambda>k. k mod s = 0) [0..<n])" by (rule distinct_card) simp
  ultimately show ?thesis by simp
qed

lemma filter_zip: "map fst (filter (\<lambda>(x, k). P k) (zip xs ys)) = map fst (filter (P \<circ> snd) (zip xs ys))"
  by (rule arg_cong[where f = "map fst"], rule filter_cong) auto

lemma length_filter_zip: "length xs = length ys \<Longrightarrow> length (filter (P \<circ> snd) (zip xs ys)) = length (filter P ys)"
  by (induction xs ys rule: list_induct2) auto

lemma thinned_length:
  assumes "1 \<le> L" and "L < length xs"
  shows "length (thinned (of_nat L) xs) \<le> L"
proof -
  define step where "step = \<lceil>of_nat (length xs) / (of_nat L :: rat)\<rceil>"
  have pos: "(0 :: rat) < of_nat (length xs) / of_nat L" using assms by (intro divide_pos_pos) auto
  then have "0 < step" by (simp add: step_def)
  then obtain s where s: "step = int s" "0 < s" by (metis zero_less_imp_eq_int of_nat_0_less_iff)
  have "of_nat (length xs) / of_nat L \<le> (of_int step :: rat)" unfolding step_def by (rule le_of_int_ceiling)
  then have "(of_nat (length xs) :: rat) \<le> of_nat (s * L)" using assms(1) by (simp add: s(1) field_simps)
  then have n: "length xs \<le> s * L" by (simp only: of_nat_le_iff)
  have "length (thinned (of_nat L) xs) = length (filter (\<lambda>k. int k mod \<bar>step\<bar> = 0) [0..<length xs])"
    using assms(1) s by (simp add: thinned_def Let_def step_def[symmetric] filter_zip length_filter_zip)
  also have "(\<lambda>k. int k mod \<bar>step\<bar> = 0) = (\<lambda>k. k mod s = 0)" by (auto simp: s(1) simp flip: of_nat_mod)
  finally show ?thesis using multiples[OF s(2) n] by simp
qed

lemma thinned_subseq: "subseq (thinned q xs) xs"
proof -
  have "subseq (map fst (filter P (zip xs ys))) (map fst (zip xs ys))" for P and ys :: "nat list"
    by (intro subseq_map subseq_filter_left)
  then have "subseq (map fst (filter P (zip xs [0..<length xs]))) xs" for P
    by (metis length_upt map_fst_zip minus_nat.diff_0)
  then show ?thesis by (auto simp: thinned_def Let_def)
qed

text \<open>A query with a positive limit returns at most that many points, in order, all of the time asked for.\<close>

theorem query_bounded:
  assumes "queryMetric q w = (Inr ps, w')" and "mqLimit q = Some (of_nat L)" and "1 \<le> L"
  shows "length ps \<le> L \<and> w' = w \<and> (\<exists>m. js_get (mxMetrics w) (mqId q) = Some m \<and>
    subseq ps (filter (\<lambda>(t, v). mqFrom q \<le> of_int t \<and> of_int t \<le> mqTo q) (miData m)))"
proof -
  obtain m where m: "js_get (mxMetrics w) (mqId q) = Some m"
    using assms(1) by (cases "js_get (mxMetrics w) (mqId q)") (auto simp: queryMetric_def getMetric_def bindW_def)
  let ?xs = "filter (\<lambda>(t, v). mqFrom q \<le> of_int t \<and> of_int t \<le> mqTo q) (miData m)"
  have ps: "ps = (if L < length ?xs then thinned (of_nat L) ?xs else ?xs)" "w' = w"
    using assms(1,2) m by (simp_all add: queryMetric_def getMetric_def bindW_def retW_def Let_def or_else_def split: if_splits)
  show ?thesis
  proof (cases "L < length ?xs")
    case True
    then show ?thesis using ps m thinned_length[OF assms(3) True] thinned_subseq by auto
  next
    case False
    then show ?thesis using ps m by auto
  qed
qed

section \<open>The dashboard\<close>

lemma grouped_one: "mset (concat (js_values (js_set cs k (or_else (js_get cs k) [] @ [m])))) = add_mset m (mset (concat (js_values cs)))"
proof (induction cs)
  case (Cons x cs)
  then show ?case by (cases x) (auto simp: js_values_def or_else_def)
qed (simp add: js_values_def or_else_def)

lemma grouped: "mset (concat (js_values (fold group_metric ms cs))) = mset (concat (js_values cs)) + mset ms"
  by (induction ms arbitrary: cs) (simp_all add: group_metric_def grouped_one)

lemma grouped_category:
  "(\<And>c xs m. js_get cs c = Some xs \<Longrightarrow> m \<in> set xs \<Longrightarrow> mgCategory (miConfig m) = c) \<Longrightarrow>
    js_get (fold group_metric ms cs) c = Some xs \<Longrightarrow> m \<in> set xs \<Longrightarrow> mgCategory (miConfig m) = c"
proof (induction ms arbitrary: cs)
  case (Cons x ms)
  have "mgCategory (miConfig m) = c" if "js_get (group_metric x cs) c = Some xs" "m \<in> set xs" for c xs m
    using that Cons.prems(1) by (auto simp: group_metric_def js_get_set or_else_def split: if_splits option.splits)
  then show ?case using Cons.IH[of "group_metric x cs"] Cons.prems(2,3) by simp
next
  case Nil
  then have "js_get cs c = Some xs" by simp
  then show ?case using Nil.prems(1,3) by blast
qed

text \<open>The dashboard has every metric once, under its own category, and counts them.\<close>

theorem dashboard_partitions:
  "mset (concat (js_values (dbCategories (getDashboard w)))) = mset (js_values (mxMetrics w)) \<and>
    dbCount (getDashboard w) = js_size (mxMetrics w) \<and> dbBreaches (getDashboard w) \<le> dbCount (getDashboard w) \<and>
    (\<forall>c ms. js_get (dbCategories (getDashboard w)) c = Some ms \<longrightarrow> (\<forall>m \<in> set ms. mgCategory (miConfig m) = c))"
proof (intro conjI allI impI ballI)
  fix c ms m assume "js_get (dbCategories (getDashboard w)) c = Some ms" "m \<in> set ms"
  then show "mgCategory (miConfig m) = c"
    using grouped_category[of "[]" "js_values (mxMetrics w)" c ms m] by (simp add: getDashboard_def Let_def)
next
  show "mset (concat (js_values (dbCategories (getDashboard w)))) = mset (js_values (mxMetrics w))"
    using grouped[of "js_values (mxMetrics w)" "[]"] by (simp add: getDashboard_def Let_def) (simp add: js_values_def)
qed (simp_all add: getDashboard_def Let_def js_values_def js_size_def)

text \<open>An update is not validated: an address no registration accepts is taken over.\<close>

theorem update_unvalidated:
  assumes "js_get (mxMetrics w) i = Some m" and "muTarget u = Some bad"
  shows "\<exists>w' m'. updateMetric i u w = (Inr (), w') \<and> js_get (mxMetrics w') i = Some m' \<and> mgTarget (miConfig m') = bad"
  using assms by (simp add: updateMetric_def getMetric_def bindW_def put_metric_def js_get_set merged_config_def or_else_def)

section \<open>Runs\<close>

definition metrics_treasury :: "metrics_state treasury_env" where
  "metrics_treasury = \<lparr>trStable = [''S''], trFeeTo = retW ''G'', trPairs = retW [''P''], trTokens = (\<lambda>p. retW (''S'', ''A'')),
     trReserves = (\<lambda>p. throwW (Sdk (JsError ''down''))), trLpToken = (\<lambda>p. retW ''L''), trBalance = (\<lambda>t a. retW 1), trSupply = (\<lambda>t. retW 4),
     trSymbol = (\<lambda>t. retW ''LP''), trDecimals = (\<lambda>a. retW (Some (of_int 7))), trLedger = retW 10, trEvents = log_env True [],
     trAddress = key_text\<rparr>"

definition metrics_history :: "metrics_state history_env" where
  "metrics_history = \<lparr>heLedger = retW 10, heEvents = log_env True [], heAddress = key_text, heNowMs = (\<lambda>w. 0), heValid = (\<lambda>a. True),
     heZodText = [], heNumText = (\<lambda>q. [])\<rparr>"

text \<open>While the pool is read, the metric \<open>m\<close> is deleted.\<close>

definition sample_metrics :: "metrics_state metrics_env" where
  "sample_metrics = \<lparr>mxMonitor = \<lparr>meTreasury = metrics_treasury\<lparr>trReserves := \<lambda>p w. (Inl (Sdk (JsError ''down'')), snd (deleteMetric ''m'' w))\<rparr>,
     meHistory = metrics_history, meDynamicFee = (\<lambda>p. retW 30), meAddress = (\<lambda>v. Inl ''no address''), meNowMs = (\<lambda>w. 0), meValid = (\<lambda>a. True), meZodText = []\<rparr>,
     mxRandom = (\<lambda>w. (''r'', w))\<rparr>"

definition sample_metric :: metric_instance where
  "sample_metric = \<lparr>miId = ''m'', miConfig = \<lparr>mgName = ''tvl'', mgCategory = ''liquidity'', mgTarget = ''P'', mgGranularity = Some ''1h'', mgEnabled = Some True,
     mgUpper = None, mgLower = Some 5\<rparr>, miData = [(1, 7), (2, 8), (3, 9)], miCurrent = None, miBreach = False, miCreated = 0\<rparr>"

definition one_metric :: metrics_state where
  "one_metric = \<lparr>cursorAt = None, trCache = [], moCache = [], mxMetrics = [Some (''m'', sample_metric)]\<rparr>"

lemma one_metric_get: "js_get (mxMetrics one_metric) ''m'' = Some sample_metric" "is_enabled sample_metric"
  by (simp_all add: one_metric_def sample_metric_def is_enabled_def)

theorem metrics_invariant_witness:
  "metrics_ok (snd (registerMetric sample_metrics (miConfig sample_metric) one_metric)) \<and> metrics_ok (prune sample_metrics None one_metric)"
proof -
  have "metrics_ok one_metric"
    by (auto simp: metrics_ok_def one_metric_def js_size_def MAX_METRICS_def js.every_def bounded_metric_def MAX_DATA_POINTS_def sample_metric_def split: if_splits)
  moreover have "mxMetrics (snd (mxRandom sample_metrics u)) = mxMetrics u" for u by (simp add: sample_metrics_def)
  ultimately show ?thesis using metrics_invariant by blast
qed

lemma failing_pool: "trReserves (meTreasury (mxMonitor sample_metrics)) (mgTarget (miConfig sample_metric)) one_metric =
    (Inl (Sdk (JsError ''down'')), one_metric\<lparr>mxMetrics := [None]\<rparr>)"
  by (simp add: sample_metrics_def deleteMetric_def getMetric_def bindW_def one_metric_def js_delete_def)

text \<open>The deleted metric is back, and in breach.\<close>

theorem failed_read_breaches_witness:
  "\<exists>w' m'. collect_metric sample_metrics 0 ''m'' one_metric = Some (Inr (), w') \<and> js_get (mxMetrics w') ''m'' = Some m' \<and> miCurrent m' = Some 0 \<and> miBreach m'"
  by (rule failed_read_breaches[OF one_metric_get _ _ _ failing_pool, where l = 5]) (simp_all add: sample_metric_def)

lemma collect_run: "\<exists>w'. collect_metric sample_metrics 0 ''m'' one_metric = Some (Inr (), w')"
  using failing_pool
  by (simp add: collect_metric_def bindF_def runF_def getMetric_def one_metric_get fetchMetricValue_def fetchLiquidityValue_def bindW_def catchW_def retW_def)
    (simp add: sample_metric_def runF_def retW_def bindW_def catchW_def)

theorem collect_writes_back_witness:
  "\<exists>w'. collect_metric sample_metrics 0 ''m'' one_metric = Some (Inr (), w') \<and> js_get (mxMetrics w') ''m'' \<noteq> None"
proof -
  obtain w' where w': "collect_metric sample_metrics 0 ''m'' one_metric = Some (Inr (), w')" using collect_run by (elim exE) (rule that)
  from collect_writes_back[OF one_metric_get w'] show ?thesis using w' by auto
qed

theorem collect_all_never_fails_witness:
  "\<exists>r w'. collectAll sample_metrics 0 2 (one_metric\<lparr>mxMetrics := []\<rparr>) = Some (r, w') \<and> (\<exists>ids. r = Inr ids)"
proof -
  have c: "collectAll sample_metrics 0 2 (one_metric\<lparr>mxMetrics := []\<rparr>) = Some (Inr [], one_metric\<lparr>mxMetrics := []\<rparr>)"
    by (simp add: collectAll_def numeral_2_eq_2)
  from collect_all_never_fails[OF c] show ?thesis using c by blast
qed

definition all_points :: metric_query where
  "all_points = \<lparr>mqId = ''m'', mqFrom = 0, mqTo = 9, mqLimit = Some (of_nat 2)\<rparr>"

theorem query_bounded_witness:
  "queryMetric all_points one_metric = (Inr [(1, 7), (3, 9)], one_metric) \<and> length [(1 :: int, 7 :: rat), (3, 9)] \<le> 2"
proof -
  have step: "\<lceil>(3 / 2 :: rat)\<rceil> = 2" by (simp add: ceiling_eq_iff)
  have q: "queryMetric all_points one_metric = (Inr [(1, 7), (3, 9)], one_metric)"
    by (simp add: queryMetric_def getMetric_def bindW_def one_metric_get all_points_def)
      (simp add: sample_metric_def retW_def or_else_def thinned_def Let_def upt_rec step)
  have "mqLimit all_points = Some (of_nat 2)" by (simp add: all_points_def)
  from query_bounded[OF q this] show ?thesis using q by simp
qed

theorem update_unvalidated_witness:
  "\<exists>w' m'. updateMetric ''m'' \<lparr>muName = None, muCategory = None, muTarget = Some [], muGranularity = None, muEnabled = None, muUpper = None, muLower = None\<rparr>
     one_metric = (Inr (), w') \<and> js_get (mxMetrics w') ''m'' = Some m' \<and> mgTarget (miConfig m') = []"
  by (rule update_unvalidated[OF one_metric_get(1)]) simp

end
