(* ===== verification/Positions.thy ===== *)
theory Positions
  imports Liquidity JsMap
begin

text \<open>
  \<open>modules/positions.ts\<close> with \<open>schemas/positions.ts\<close>: the LP positions of an owner, read from several contracts, checked
  against schemas, and paged. What the contracts answer is in \<open>positions_env\<close>; a number that should be a bigint and
  is not carries zod's own message, as does \<open>pzTooSmall\<close>. Numbers are exact rationals. The reads of the pools, which the code starts
  together, run here in the order of the list.
\<close>

section \<open>Data\<close>

datatype stroops_read = BigRead int | OtherRead string

record enriched_position =
  epPair :: string
  epLpToken :: string
  epBalance :: int
  epSupply :: int
  epShare :: rat
  epAmount0 :: int
  epAmount1 :: int
  epToken0 :: string
  epToken1 :: string
  epReserve0 :: int
  epReserve1 :: int
  epFeeBps :: rat

record position_page =
  piLimit :: "int option"
  piCursor :: "string option"
  piNext :: "string option"
  piHasNext :: bool

record position_summary =
  smOwner :: string
  smPools :: nat
  smPositions :: "enriched_position list"
  smTruncated :: bool
  smPage :: position_page

record positions_options =
  poIncludeEmpty :: bool
  poPairs :: "string list"
  poLimit :: "rat option"
  poCursor :: "string option"

record positions_state =
  psCache :: "string js_map"

record 'w positions_env =
  pzValid :: "string \<Rightarrow> bool"
  pzReserves :: "string \<Rightarrow> ('w, thrown, stroops_read \<times> stroops_read) act"
  pzTokens :: "string \<Rightarrow> ('w, thrown, string \<times> string) act"
  pzFee :: "string \<Rightarrow> ('w, thrown, rat) act"
  pzLpToken :: "string \<Rightarrow> ('w, thrown, string) act"
  pzBalance :: "string \<Rightarrow> string \<Rightarrow> ('w, thrown, stroops_read) act"
  pzSupply :: "string \<Rightarrow> ('w, thrown, stroops_read) act"
  pzPairs :: "('w, thrown, string list) act"
  pzTooSmall :: string

section \<open>The schemas\<close>

definition addressField :: "string \<Rightarrow> string \<Rightarrow> issue list" where
  "addressField name s = (if s = [] then [(name, name @ '' must not be empty'')] else [])"

definition stroopsField :: "string \<Rightarrow> stroops_read \<Rightarrow> issue list" where
  "stroopsField name v = (case v of OtherRead m \<Rightarrow> [(name, m)]
     | BigRead n \<Rightarrow> if n < 0 then [(name, name @ '' must be >= 0'')] else [])"

definition positionMathIssues :: "stroops_read \<Rightarrow> stroops_read \<Rightarrow> stroops_read \<Rightarrow> stroops_read \<Rightarrow> issue list" where
  "positionMathIssues balance supply r0 r1 = stroopsField ''balance'' balance @ stroopsField ''totalSupply'' supply @
     stroopsField ''reserve0'' r0 @ stroopsField ''reserve1'' r1"

text \<open>A fee that is no integer is reported once: the later checks of the field are not made.\<close>

definition feeIssues :: "rat \<Rightarrow> issue list" where
  "feeIssues f = (if f \<noteq> of_int \<lfloor>f\<rfloor> then [(''feeBps'', ''feeBps must be an integer'')]
     else (if f < 0 then [(''feeBps'', ''feeBps must be >= 0'')] else []) @
       (if 10000 < f then [(''feeBps'', ''feeBps must be <= 10000'')] else []))"

definition positionIssues :: "enriched_position \<Rightarrow> issue list" where
  "positionIssues p = addressField ''pairAddress'' (epPair p) @ addressField ''lpTokenAddress'' (epLpToken p) @
     addressField ''token0'' (epToken0 p) @ addressField ''token1'' (epToken1 p) @
     stroopsField ''balance'' (BigRead (epBalance p)) @ stroopsField ''totalSupply'' (BigRead (epSupply p)) @
     (if epShare p < 0 then [(''share'', ''share must be >= 0'')] else []) @
     (if 1 < epShare p then [(''share'', ''share must be <= 1'')] else []) @
     stroopsField ''token0Amount'' (BigRead (epAmount0 p)) @ stroopsField ''token1Amount'' (BigRead (epAmount1 p)) @
     stroopsField ''reserve0'' (BigRead (epReserve0 p)) @ stroopsField ''reserve1'' (BigRead (epReserve1 p)) @
     feeIssues (epFeeBps p)"

definition pageIssues :: "string \<Rightarrow> position_page \<Rightarrow> issue list" where
  "pageIssues tooSmall i = (case piLimit i of None \<Rightarrow> []
     | Some l \<Rightarrow> if l < 1 then [(''pageInfo.limit'', tooSmall)] else [])"

definition nested :: "string \<Rightarrow> issue list \<Rightarrow> issue list" where
  "nested path issues = map (\<lambda>(p, m). (path @ ''.'' @ p, m)) issues"

definition summaryIssues :: "string \<Rightarrow> position_summary \<Rightarrow> issue list" where
  "summaryIssues tooSmall s = addressField ''owner'' (smOwner s) @
     concat (map (\<lambda>(i, p). nested (''positions.'' @ nat_str i) (positionIssues p)) (enumerate 0 (smPositions s))) @
     pageIssues tooSmall (smPage s)"

section \<open>One position\<close>

fun read_value :: "stroops_read \<Rightarrow> int" where
  "read_value (BigRead n) = n"
| "read_value (OtherRead m) = 0"

definition enriched_read :: "string \<Rightarrow> string \<Rightarrow> int \<Rightarrow> int \<Rightarrow> int \<times> int \<Rightarrow> string \<times> string \<Rightarrow> rat \<Rightarrow> enriched_position" where
  "enriched_read pairAddress lp balance supply reserves tokens fee =
    \<lparr>epPair = pairAddress, epLpToken = lp, epBalance = balance, epSupply = supply,
     epShare = (if 0 < supply then of_int (balance * 10000 sdiv supply) / 10000 else 0),
     epAmount0 = (if 0 < supply then fst reserves * balance sdiv supply else 0),
     epAmount1 = (if 0 < supply then snd reserves * balance sdiv supply else 0),
     epToken0 = fst tokens, epToken1 = snd tokens, epReserve0 = fst reserves, epReserve1 = snd reserves, epFeeBps = fee\<rparr>"

definition lpTokenOf :: "('x positions_state_scheme) positions_env \<Rightarrow> string \<Rightarrow> ('x positions_state_scheme, thrown, string) act" where
  "lpTokenOf e p w = (case js_get (psCache w) p of
       Some (c # cs) \<Rightarrow> (Inr (c # cs), w)
     | _ \<Rightarrow> bindW (pzLpToken e p) (\<lambda>t w1. (Inr t, w1\<lparr>psCache := js_set (psCache w1) p t\<rparr>)) w)"

definition checkedPosition :: "string \<Rightarrow> string \<Rightarrow> stroops_read \<Rightarrow> stroops_read \<Rightarrow> stroops_read \<times> stroops_read \<Rightarrow> string \<times> string \<Rightarrow> rat \<Rightarrow>
    enriched_position result" where
  "checkedPosition p lp balance supply rs ts fee =
     bindE (validateWithSchema (positionMathIssues balance supply (fst rs) (snd rs)) ''position math'') (\<lambda>_.
     let pos = enriched_read p lp (read_value balance) (read_value supply) (read_value (fst rs), read_value (snd rs)) ts fee
     in bindE (validateWithSchema (positionIssues pos) ''position'') (\<lambda>_. Inr pos))"

definition readPosition :: "('x positions_state_scheme) positions_env \<Rightarrow> string \<Rightarrow> string \<Rightarrow>
    ('x positions_state_scheme, thrown, enriched_position) act" where
  "readPosition e p owner =
     bindW (liftW (validateAddress (pzValid e) p ''pairAddress'')) (\<lambda>_.
     bindW (liftW (validateAddress (pzValid e) owner ''owner'')) (\<lambda>_.
     bindW (pzReserves e p) (\<lambda>rs. bindW (pzTokens e p) (\<lambda>ts. bindW (catchW (pzFee e p) (\<lambda>_. retW 0)) (\<lambda>fee.
     bindW (lpTokenOf e p) (\<lambda>lp. bindW (pzBalance e lp owner) (\<lambda>balance. bindW (pzSupply e lp) (\<lambda>supply.
       liftW (checkedPosition p lp balance supply rs ts fee)))))))))"

definition hasPosition :: "('x positions_state_scheme) positions_env \<Rightarrow> string \<Rightarrow> string \<Rightarrow> ('x positions_state_scheme, thrown, bool) act" where
  "hasPosition e p owner =
     bindW (liftW (validateAddress (pzValid e) p ''pairAddress'')) (\<lambda>_.
     bindW (liftW (validateAddress (pzValid e) owner ''owner'')) (\<lambda>_.
     bindW (lpTokenOf e p) (\<lambda>lp. bindW (pzBalance e lp owner) (\<lambda>balance. retW (0 < read_value balance)))))"

section \<open>Pages\<close>

definition parseIntOr0 :: "string \<Rightarrow> int" where
  "parseIntOr0 s = (case dropWhile is_space s of [] \<Rightarrow> 0
     | c # cs \<Rightarrow> if c = CHR ''-'' then - int (parse_nat (takeWhile is_digit cs))
        else if c = CHR ''+'' then int (parse_nat (takeWhile is_digit cs))
        else int (parse_nat (takeWhile is_digit (c # cs))))"

definition safe_limit :: "rat option \<Rightarrow> int option" where
  "safe_limit l = map_option (\<lambda>x. max 1 \<lfloor>x\<rfloor>) l"

definition start_index :: "string option \<Rightarrow> nat" where
  "start_index cursor = (case cursor of None \<Rightarrow> 0 | Some s \<Rightarrow> if s = [] then 0 else nat (max 0 (parseIntOr0 s)))"

definition summaryOf :: "string \<Rightarrow> int option \<Rightarrow> string option \<Rightarrow> enriched_position list \<Rightarrow> position_summary" where
  "summaryOf owner lim0 cursor found = (case lim0 of
     None \<Rightarrow> \<lparr>smOwner = owner, smPools = length found, smPositions = found, smTruncated = False,
       smPage = \<lparr>piLimit = None, piCursor = cursor, piNext = None, piHasNext = False\<rparr>\<rparr>
   | Some l \<Rightarrow> let first = start_index cursor; next_one = first + nat l;
       truncated = (nat l < length found \<and> first < length found \<and> next_one < length found)
     in \<lparr>smOwner = owner, smPools = length found, smPositions = take (nat l) (drop first found), smTruncated = truncated,
       smPage = \<lparr>piLimit = Some l, piCursor = cursor, piNext = (if truncated then Some (nat_str next_one) else None),
         piHasNext = truncated\<rparr>\<rparr>)"

definition checkedSummary :: "string \<Rightarrow> position_summary \<Rightarrow> position_summary result" where
  "checkedSummary tooSmall s = bindE (validateWithSchema (summaryIssues tooSmall s) ''position summary'') (\<lambda>_. Inr s)"

text \<open>All pools are read before the first outcome is looked at.\<close>

fun settleAll :: "('a \<Rightarrow> ('w, thrown, 'b) act) \<Rightarrow> 'a list \<Rightarrow> 'w \<Rightarrow> (thrown, 'b) res list \<times> 'w" where
  "settleAll f [] w = ([], w)"
| "settleAll f (x # xs) w = (let (r, w1) = f x w; (rs, w2) = settleAll f xs w1 in (r # rs, w2))"

fun is_validation :: "thrown \<Rightarrow> bool" where
  "is_validation (Sdk (ValidationError _)) = True"
| "is_validation (Sdk (InvalidThresholdError _ _ _ _)) = True"
| "is_validation _ = False"

fun sortOutcomes :: "bool \<Rightarrow> (thrown, enriched_position) res list \<Rightarrow> (thrown, enriched_position list) res" where
  "sortOutcomes empties [] = Inr []"
| "sortOutcomes empties (Inr p # rs) = bindE (sortOutcomes empties rs) (\<lambda>ps. Inr (if empties \<or> 0 < epBalance p then p # ps else ps))"
| "sortOutcomes empties (Inl x # rs) = (if is_validation x then Inl x else sortOutcomes empties rs)"

definition getPositions :: "('x positions_state_scheme) positions_env \<Rightarrow> string \<Rightarrow> positions_options \<Rightarrow>
    ('x positions_state_scheme, thrown, position_summary) act" where
  "getPositions e owner opts =
     bindW (liftW (validateAddress (pzValid e) owner ''owner'')) (\<lambda>_.
     bindW (if poPairs opts \<noteq> [] then retW (poPairs opts) else pzPairs e) (\<lambda>pairs.
     if pairs = [] then liftW (checkedSummary (pzTooSmall e) \<lparr>smOwner = owner, smPools = 0, smPositions = [], smTruncated = False,
       smPage = \<lparr>piLimit = safe_limit (poLimit opts), piCursor = poCursor opts, piNext = None, piHasNext = False\<rparr>\<rparr>)
     else (\<lambda>w. let (rs, w1) = settleAll (\<lambda>p. readPosition e p owner) pairs w in
       (case sortOutcomes (poIncludeEmpty opts) rs of Inl x \<Rightarrow> (Inl x, w1)
        | Inr found \<Rightarrow> liftW (checkedSummary (pzTooSmall e) (summaryOf owner (safe_limit (poLimit opts)) (poCursor opts) found)) w1))))"

section \<open>What a position is\<close>

lemma stroopsField_Nil [simp]: "stroopsField name v = [] \<longleftrightarrow> (\<exists>n. v = BigRead n \<and> 0 \<le> n)"
  by (auto simp: stroopsField_def split: stroops_read.splits)

lemma addressField_Nil [simp]: "addressField name s = [] \<longleftrightarrow> s \<noteq> []"
  by (simp add: addressField_def)

lemma feeIssues_Nil [simp]: "feeIssues f = [] \<longleftrightarrow> f = of_int \<lfloor>f\<rfloor> \<and> 0 \<le> f \<and> f \<le> 10000"
  by (auto simp: feeIssues_def)

lemma validateWithSchema_Inr [simp]: "validateWithSchema issues what = Inr u \<longleftrightarrow> issues = []"
  by (simp add: validateWithSchema_def)

lemma checkedPosition_Inr: "checkedPosition p lp balance supply rs ts fee = Inr pos \<longleftrightarrow>
    (\<exists>b t r0 r1. balance = BigRead b \<and> supply = BigRead t \<and> rs = (BigRead r0, BigRead r1) \<and> 0 \<le> b \<and> 0 \<le> t \<and> 0 \<le> r0 \<and> 0 \<le> r1 \<and>
       pos = enriched_read p lp b t (r0, r1) ts fee \<and> positionIssues pos = [])"
  by (cases rs) (auto simp: checkedPosition_def positionMathIssues_def result_simps Let_def)

lemma readPosition_checked:
  assumes "readPosition e p owner w = (Inr pos, w')"
  shows "\<exists>lp balance supply rs ts fee. checkedPosition p lp balance supply rs ts fee = Inr pos"
  using assms unfolding readPosition_def bindW_Inr liftW_eq by blast

lemma share_covered:
  fixes b t r :: int
  assumes "0 \<le> b" and "0 < t" and "0 \<le> r" and "b * 10000 div t \<le> 10000"
  shows "10000 * (r * b div t) \<le> 10001 * r"
proof -
  have "b * 10000 < (b * 10000 div t + 1) * t" using assms(2) by (rule lt_div_mult_int)
  also have "\<dots> \<le> 10001 * t" using assms(2,4) by (intro mult_right_mono) auto
  finally have b: "b * 10000 \<le> 10001 * t" by simp
  have "10000 * (r * b div t) * t \<le> 10000 * (r * b)" using div_mult_le_int[OF assms(2), of "r * b"] by simp
  also have "\<dots> = r * (b * 10000)" by simp
  also have "\<dots> \<le> r * (10001 * t)" using b assms(3) by (rule mult_left_mono)
  finally have "10000 * (r * b div t) * t \<le> (10001 * r) * t" by (simp add: algebra_simps)
  then show ?thesis using assms(2) by simp
qed

text \<open>A position that is returned has a share between 0 and 1, a fee in whole basis points, and amounts that exceed the
  reserves by less than a ten-thousandth of them: what the rounding of the share hides from the schema.\<close>

theorem position_bounds:
  assumes "readPosition e p owner w = (Inr pos, w')"
  shows "epPair pos = p \<and> p \<noteq> [] \<and> epLpToken pos \<noteq> [] \<and> 0 \<le> epShare pos \<and> epShare pos \<le> 1 \<and>
    (\<exists>n. epFeeBps pos = of_int n \<and> 0 \<le> n \<and> n \<le> 10000) \<and> 0 \<le> epAmount0 pos \<and> 0 \<le> epAmount1 pos \<and>
    10000 * epAmount0 pos \<le> 10001 * epReserve0 pos \<and> 10000 * epAmount1 pos \<le> 10001 * epReserve1 pos"
proof -
  obtain lp b t r0 r1 ts fee where pos: "0 \<le> b" "0 \<le> t" "0 \<le> r0" "0 \<le> r1" "pos = enriched_read p lp b t (r0, r1) ts fee" "positionIssues pos = []"
    using readPosition_checked[OF assms] unfolding checkedPosition_Inr by blast
  have fields: "p \<noteq> []" "lp \<noteq> []" "0 \<le> epShare pos" "epShare pos \<le> 1" "0 \<le> epAmount0 pos" "0 \<le> epAmount1 pos"
    "fee = of_int \<lfloor>fee\<rfloor>" "0 \<le> fee" "fee \<le> 10000"
    using pos(5,6) by (auto simp: positionIssues_def enriched_read_def split: if_splits)
  have fee: "\<exists>n. epFeeBps pos = of_int n \<and> 0 \<le> n \<and> n \<le> 10000"
    using fields(7-9) by (intro exI[of _ "\<lfloor>fee\<rfloor>"]) (auto simp: pos(5) enriched_read_def le_floor_iff floor_le_iff)
  have "10000 * epAmount0 pos \<le> 10001 * epReserve0 pos \<and> 10000 * epAmount1 pos \<le> 10001 * epReserve1 pos"
  proof (cases "0 < t")
    case True
    then have "of_int (b * 10000 div t) / 10000 \<le> (1 :: rat)" using fields(4) pos(1) by (simp add: pos(5) enriched_read_def sdiv_nonneg)
    then have "b * 10000 div t \<le> 10000" by linarith
    then show ?thesis using True pos(1,3,4) share_covered[of b t] by (simp add: pos(5) enriched_read_def sdiv_nonneg)
  qed (use pos(3,4) in \<open>simp add: pos(5) enriched_read_def\<close>)
  then show ?thesis using fields fee by (simp add: pos(5) enriched_read_def)
qed

text \<open>When every contract answers, whatever it answers, the outcome is a position or a \<open>ValidationError\<close>.\<close>

theorem answered_read_is_checked:
  assumes "validateAddress (pzValid e) p ''pairAddress'' = Inr ()" and "validateAddress (pzValid e) owner ''owner'' = Inr ()"
    and "pzReserves e p w = (Inr rs, w1)" and "pzTokens e p w1 = (Inr ts, w2)" and "pzFee e p w2 = (f, w3)" and "lpTokenOf e p w3 = (Inr lp, w4)"
    and "pzBalance e lp owner w4 = (Inr balance, w5)" and "pzSupply e lp w5 = (Inr supply, w6)"
  shows "(\<exists>pos. readPosition e p owner w = (Inr pos, w6)) \<or> (\<exists>m. readPosition e p owner w = (Inl (Sdk (ValidationError m)), w6))"
proof -
  have r: "readPosition e p owner w =
      liftW (checkedPosition p lp balance supply rs ts (case f of Inr q \<Rightarrow> q | Inl _ \<Rightarrow> 0)) w6"
    using assms by (cases f) (simp_all add: readPosition_def bindW_def liftW_def catchW_def retW_def)
  have "(\<exists>pos. checkedPosition p lp balance supply rs ts q = Inr pos) \<or> (\<exists>m. checkedPosition p lp balance supply rs ts q = Inl (ValidationError m))" for q
    by (auto simp: checkedPosition_def validateWithSchema_def Let_def)
  then show ?thesis unfolding r liftW_def by (metis id_apply map_sum.simps prod.inject)
qed

section \<open>The positions of an owner\<close>

definition oks :: "(thrown, 'b) res list \<Rightarrow> 'b list" where
  "oks rs = List.map_filter (\<lambda>r. case r of Inr x \<Rightarrow> Some x | Inl _ \<Rightarrow> None) rs"

definition malformed :: "(thrown, 'b) res list \<Rightarrow> thrown option" where
  "malformed rs = List.find is_validation (List.map_filter (\<lambda>r. case r of Inl x \<Rightarrow> Some x | Inr _ \<Rightarrow> None) rs)"

lemma sortOutcomes_eq: "sortOutcomes empties rs = (case malformed rs of Some x \<Rightarrow> Inl x
    | None \<Rightarrow> Inr (filter (\<lambda>p. empties \<or> 0 < epBalance p) (oks rs)))"
  by (induction empties rs rule: sortOutcomes.induct) (auto simp: malformed_def oks_def map_filter_simps split: option.splits)

lemma settleAll_valid:
  assumes "settleAll (\<lambda>p. readPosition e p owner) pairs w = (rs, w')" and "Inr pos \<in> set rs"
  shows "positionIssues pos = []"
  using assms
proof (induction pairs arbitrary: w rs)
  case (Cons p ps)
  obtain r w1 rs' w2 where s: "readPosition e p owner w = (r, w1)" "settleAll (\<lambda>p. readPosition e p owner) ps w1 = (rs', w2)" by (metis surj_pair)
  then have "rs = r # rs'" "w' = w2" using Cons.prems by simp_all
  then show ?case using Cons.IH[of w1 rs'] Cons.prems(2) s readPosition_checked[of e p owner w pos w1] by (auto simp: checkedPosition_Inr)
qed simp

lemma concat_Nil_enumerate: "(\<And>x. x \<in> set xs \<Longrightarrow> positionIssues x = []) \<Longrightarrow>
    concat (map (\<lambda>(i, p). nested (f i) (positionIssues p)) (enumerate k xs)) = []"
  by (induction xs arbitrary: k) (auto simp: nested_def)

lemma summary_valid:
  assumes "owner \<noteq> []" and "\<And>pos. pos \<in> set found \<Longrightarrow> positionIssues pos = []"
  shows "checkedSummary m (summaryOf owner (safe_limit l) c found) = Inr (summaryOf owner (safe_limit l) c found)"
proof -
  have sub: "pos \<in> set (smPositions (summaryOf owner (safe_limit l) c found)) \<Longrightarrow> positionIssues pos = []" for pos
    using assms(2) by (auto simp: summaryOf_def Let_def split: option.splits dest: in_set_takeD in_set_dropD)
  have o: "smOwner (summaryOf owner (safe_limit l) c found) = owner" by (simp add: summaryOf_def Let_def split: option.splits)
  have lp: "pageIssues m (smPage (summaryOf owner (safe_limit l) c found)) = []"
    by (cases l) (auto simp: summaryOf_def pageIssues_def safe_limit_def Let_def)
  have "summaryIssues m (summaryOf owner (safe_limit l) c found) = []"
    unfolding summaryIssues_def using assms(1) o lp concat_Nil_enumerate[OF sub, where k = 0] by simp
  then show ?thesis by (simp add: checkedSummary_def validateWithSchema_def)
qed

lemma owner_nonempty: "validateAddress V owner n = Inr () \<Longrightarrow> owner \<noteq> []"
  by (auto simp: validateAddress_def trim_def)

lemma map_filter_in: "Inr x \<in> set rs \<longleftrightarrow> x \<in> set (oks rs)"
  by (induction rs) (auto simp: oks_def map_filter_simps split: sum.splits)

lemma getPositions_lemma:
  assumes "validateAddress (pzValid e) owner ''owner'' = Inr ()" and "poPairs opts \<noteq> []"
    and "settleAll (\<lambda>p. readPosition e p owner) (poPairs opts) w = (rs, w1)"
  shows "getPositions e owner opts w = (case malformed rs of Some x \<Rightarrow> (Inl x, w1)
    | None \<Rightarrow> (Inr (summaryOf owner (safe_limit (poLimit opts)) (poCursor opts)
        (filter (\<lambda>p. poIncludeEmpty opts \<or> 0 < epBalance p) (oks rs))), w1))"
proof -
  have ok: "checkedSummary m (summaryOf owner (safe_limit l) c (filter P (oks rs))) = Inr (summaryOf owner (safe_limit l) c (filter P (oks rs)))" for m l c P
    using settleAll_valid[OF assms(3)] by (intro summary_valid owner_nonempty[OF assms(1)]) (auto simp: map_filter_in)
  show ?thesis using assms by (simp add: getPositions_def bindW_def liftW_def retW_def sortOutcomes_eq ok split: option.splits)
qed

text \<open>The pools that do not answer are left out, the first one that answers nonsense fails the call, and the summary of
  what was found never fails its own schema.\<close>

theorem getPositions_exact:
  assumes "validateAddress (pzValid e) owner ''owner'' = Inr ()" and "poPairs opts \<noteq> []"
    and "settleAll (\<lambda>p. readPosition e p owner) (poPairs opts) w = (rs, w1)"
  shows "getPositions e owner opts w = (case malformed rs of Some x \<Rightarrow> (Inl x, w1)
    | None \<Rightarrow> (Inr (summaryOf owner (safe_limit (poLimit opts)) (poCursor opts)
        (filter (\<lambda>p. poIncludeEmpty opts \<or> 0 < epBalance p) (oks rs))), w1))"
  by (rule getPositions_lemma[OF assms])

section \<open>Following the cursor\<close>

lemma takeWhile_all_id: "\<forall>c \<in> set s. is_digit c \<Longrightarrow> takeWhile is_digit s = s"
  by (simp add: takeWhile_eq_all_conv)

lemma parseIntOr0_nat_str [simp]: "parseIntOr0 (nat_str n) = int n"
proof -
  obtain c cs where s: "nat_str n = c # cs" by (cases "nat_str n") simp_all
  have c: "is_digit c" "\<forall>x \<in> set cs. is_digit x" using nat_str_digits[of n] s by auto
  then have "\<not> is_space c" "c \<noteq> CHR ''-''" "c \<noteq> CHR ''+''" by (auto simp: digit_not_space) (auto simp: is_digit_def)
  then show ?thesis using c parse_nat_str[of n] by (simp add: parseIntOr0_def s takeWhile_all_id)
qed

lemma start_index_nat_str [simp]: "start_index (Some (nat_str n)) = n"
  by (simp add: start_index_def)

fun followPositionPages :: "int \<Rightarrow> enriched_position list \<Rightarrow> nat \<Rightarrow> string option \<Rightarrow> enriched_position list" where
  "followPositionPages l found 0 cursor = []"
| "followPositionPages l found (Suc fuel) cursor = (let s = summaryOf ''O'' (Some l) cursor found in smPositions s @
     (case piNext (smPage s) of None \<Rightarrow> [] | Some c \<Rightarrow> followPositionPages l found fuel (Some c)))"

lemma followPositionPages_drop:
  assumes "0 < l" and "start_index cursor < length found" and "length found < start_index cursor + fuel"
  shows "followPositionPages l found fuel cursor = drop (start_index cursor) found"
  using assms(2,3)
proof (induction fuel arbitrary: cursor)
  case (Suc fuel)
  let ?i = "start_index cursor"
  have l: "0 < nat l" using assms(1) by simp
  show ?case
  proof (cases "?i + nat l < length found")
    case True
    have step: "followPositionPages l found (Suc fuel) cursor = take (nat l) (drop ?i found) @ followPositionPages l found fuel (Some (nat_str (?i + nat l)))"
      using True Suc.prems by (simp add: summaryOf_def Let_def)
    have "followPositionPages l found fuel (Some (nat_str (?i + nat l))) = drop (?i + nat l) found"
      using Suc.IH[of "Some (nat_str (?i + nat l))"] True Suc.prems l by simp
    then show ?thesis unfolding step by (metis add.commute append_take_drop_id drop_drop)
  qed (simp add: summaryOf_def Let_def)
qed simp

text \<open>A reader that asks for the next page until there is none has every position once, in order, if the chain does not
  change meanwhile.\<close>

theorem pages_cover:
  assumes "0 < l"
  shows "followPositionPages l found (length found + 1) None = found"
proof (cases "found = []")
  case False
  then show ?thesis using followPositionPages_drop[OF assms, of None found "length found + 1"] by (simp add: start_index_def)
qed (simp add: summaryOf_def Let_def)

section \<open>Witnesses\<close>

definition some_positions_env :: "'w positions_env" where
  "some_positions_env = \<lparr>pzValid = (\<lambda>_. True), pzReserves = (\<lambda>_. retW (BigRead 300, BigRead 70)), pzTokens = (\<lambda>_. retW (''A'', ''B'')),
     pzFee = (\<lambda>_. throwW Undefined), pzLpToken = (\<lambda>_. retW ''L''), pzBalance = (\<lambda>_ _. retW (BigRead 5)),
     pzSupply = (\<lambda>_. retW (BigRead 20)), pzPairs = retW [''P''], pzTooSmall = ''?''\<rparr>"

definition fresh_positions :: positions_state where
  "fresh_positions = \<lparr>psCache = []\<rparr>"

definition quarter_position :: enriched_position where
  "quarter_position = enriched_read ''P'' ''L'' 5 20 (300, 70) (''A'', ''B'') 0"

lemma some_position: "readPosition some_positions_env ''P'' ''O'' fresh_positions = (Inr quarter_position, \<lparr>psCache = [Some (''P'', ''L'')]\<rparr>)"
  by code_simp

theorem position_bounds_witness: "readPosition some_positions_env ''P'' ''O'' fresh_positions = (Inr quarter_position, \<lparr>psCache = [Some (''P'', ''L'')]\<rparr>) \<and>
    10000 * epAmount0 quarter_position \<le> 10001 * epReserve0 quarter_position"
  using position_bounds[OF some_position] some_position by blast

theorem answered_read_is_checked_witness:
  "(\<exists>pos. readPosition some_positions_env ''P'' ''O'' fresh_positions = (Inr pos, \<lparr>psCache = [Some (''P'', ''L'')]\<rparr>)) \<or>
   (\<exists>m. readPosition some_positions_env ''P'' ''O'' fresh_positions = (Inl (Sdk (ValidationError m)), \<lparr>psCache = [Some (''P'', ''L'')]\<rparr>))"
  by (rule answered_read_is_checked) code_simp+

theorem getPositions_exact_witness:
  "getPositions (some_positions_env\<lparr>pzBalance := \<lambda>_ _. retW (OtherRead ''?'')\<rparr>) ''O''
     \<lparr>poIncludeEmpty = False, poPairs = [''P''], poLimit = None, poCursor = None\<rparr> fresh_positions =
   (Inl (Sdk (ValidationError ''Invalid position math: balance: ?'')), \<lparr>psCache = [Some (''P'', ''L'')]\<rparr>)"
proof -
  let ?e = "some_positions_env\<lparr>pzBalance := \<lambda>_ _. retW (OtherRead ''?'')\<rparr>"
  let ?o = "\<lparr>poIncludeEmpty = False, poPairs = [''P''], poLimit = None, poCursor = None\<rparr>"
  have a: "validateAddress (pzValid ?e) ''O'' ''owner'' = Inr ()" by code_simp
  have n: "poPairs ?o \<noteq> []" by simp
  have s: "settleAll (\<lambda>p. readPosition ?e p ''O'') (poPairs ?o) fresh_positions =
    ([Inl (Sdk (ValidationError ''Invalid position math: balance: ?''))], \<lparr>psCache = [Some (''P'', ''L'')]\<rparr>)" by code_simp
  show ?thesis using getPositions_exact[OF a n s] by (simp add: malformed_def map_filter_simps)
qed

theorem pages_cover_witness:
  "followPositionPages 1 [quarter_position, quarter_position] (length [quarter_position, quarter_position] + 1) None = [quarter_position, quarter_position]"
  by (rule pages_cover) simp

end
