(* ===== verification/Portfolio.thy ===== *)
theory Portfolio
  imports Treasury Positions
begin

text \<open>
  \<open>modules/portfolio.ts\<close>: the positions of an owner valued in USD, profit and loss against a snapshot, and the value
  from batched simulations. Prices come from \<open>Treasury\<close>, positions from \<open>Positions\<close>; both modules share the world
  with the cache of token metadata. The value arithmetic is the code's, on bigints scaled by \<open>10 ^ 15\<close>; the two
  conversions to a display number are exact here. What XDR decodes to is in \<open>portfolio_env\<close>.
\<close>

section \<open>Data\<close>

record portfolio_position =
  ppPair :: string
  ppLpToken :: string
  ppToken0 :: string
  ppToken1 :: string
  ppBalance :: int
  ppAmount0 :: int
  ppAmount1 :: int
  ppValue :: rat

record unavailable_position =
  upPair :: string
  upLpToken :: string
  upToken0 :: string
  upToken1 :: string
  upBalance :: int
  upAmount0 :: int
  upAmount1 :: int
  upReason :: string

record portfolio =
  pfOwner :: string
  pfPositions :: "portfolio_position list"
  pfTotal :: rat
  pfUnavailable :: "unavailable_position list"

record snapshot_position =
  snPair :: string
  snAmount0 :: int
  snAmount1 :: int
  snValue :: rat

record entry_snapshot =
  esOwner :: string
  esTotal :: rat
  esPositions :: "snapshot_position list"
  esCapturedAt :: int

record portfolio_pnl =
  pnEntry :: rat
  pnCurrent :: rat
  pnUSD :: rat
  pnPercent :: rat

record portfolio_options =
  goPairs :: "string list option"
  goFrom :: "int option option"
  goTo :: "int option option"
  goLimit :: "rat option"

record pair_metadata =
  pmLpToken :: string
  pmToken0 :: string
  pmToken1 :: string

record portfolio_state = positions_state +
  ptMetadata :: "pair_metadata js_map"

text \<open>A call of a batch: the contract, the method, and the address passed.\<close>

type_synonym sim_call = "string \<times> string \<times> string list"

record ('w) portfolio_env =
  ptPositions :: "'w positions_env"
  ptTreasury :: "'w treasury_env"
  ptNetwork :: string
  ptNow :: "'w \<Rightarrow> int"
  ptIso :: "int \<Rightarrow> string"
  ptNumText :: "rat \<Rightarrow> string"
  ptBigText :: "rat \<Rightarrow> string"
  ptPairs :: "('w, thrown, string list) act"
  ptSimulate :: "sim_call list \<Rightarrow> ('w, thrown, string option list option) act"
  ptAddress :: "string \<Rightarrow> string option"
  ptReserves :: "string \<Rightarrow> (int \<times> int) option"
  ptBigint :: "string \<Rightarrow> int option"

section \<open>Values\<close>

definition STROOP_SCALE :: int where
  "STROOP_SCALE = 10000000"

definition PRICE_SCALE_DECIMALS :: nat where
  "PRICE_SCALE_DECIMALS = 15"

definition PORTFOLIO_PRICE_SCALE :: int where
  "PORTFOLIO_PRICE_SCALE = 10 ^ PRICE_SCALE_DECIMALS"

text \<open>\<open>toFixed(15)\<close> of a magnitude, split at the point: the nearest multiple of \<open>10 ^ -15\<close>, the larger of two. From
  \<open>10 ^ 21\<close> on the text has an exponent, which \<open>BigInt\<close> rejects.\<close>

definition fixed_parts :: "rat \<Rightarrow> int \<times> int" where
  "fixed_parts q = (let n = \<lfloor>q * of_int PORTFOLIO_PRICE_SCALE + 1 / 2\<rfloor> in (n div PORTFOLIO_PRICE_SCALE, n mod PORTFOLIO_PRICE_SCALE))"

definition scalePrice :: "(rat \<Rightarrow> string) \<Rightarrow> rat \<Rightarrow> int result" where
  "scalePrice bigText price = (if 10 ^ 21 \<le> \<bar>price\<bar> then Inl (JsError (bigText \<bar>price\<bar>))
     else let (intPart, fracPart) = fixed_parts \<bar>price\<bar>; scaled = intPart * PORTFOLIO_PRICE_SCALE + fracPart
       in Inr (if price < 0 then - scaled else scaled))"

definition scaledPositionValue :: "(rat \<Rightarrow> string) \<Rightarrow> int \<Rightarrow> rat \<Rightarrow> int result" where
  "scaledPositionValue bigText amountStroops price = bindE (scalePrice bigText price) (\<lambda>s. Inr (amountStroops * s sdiv STROOP_SCALE))"

definition toDisplayUSD :: "int \<Rightarrow> rat" where
  "toDisplayUSD scaled = of_int scaled / of_int PORTFOLIO_PRICE_SCALE"

section \<open>The portfolio\<close>

fun checkPairs :: "(string \<Rightarrow> bool) \<Rightarrow> nat \<Rightarrow> string list \<Rightarrow> unit result" where
  "checkPairs valid i [] = Inr ()"
| "checkPairs valid i (p # ps) = bindE (validateAddress valid p (''pairAddresses['' @ nat_str i @ '']'')) (\<lambda>_. checkPairs valid (Suc i) ps)"

definition validatePortfolioInputs :: "('w, 'x) portfolio_env_scheme \<Rightarrow> string \<Rightarrow> portfolio_options \<Rightarrow> 'w \<Rightarrow> unit result" where
  "validatePortfolioInputs e owner opts w =
     bindE (validateAddress (pzValid (ptPositions e)) owner ''owner'') (\<lambda>_.
     bindE (case goPairs opts of None \<Rightarrow> Inr () | Some ps \<Rightarrow> checkPairs (pzValid (ptPositions e)) 0 ps) (\<lambda>_.
     bindE (validateDateRange (ptIso e) (ptNow e w) (goFrom opts) (goTo opts)) (\<lambda>_.
       validateLimit (ptNumText e) (goLimit opts) ''limit'')))"

fun track_tokens :: "'w treasury_env \<Rightarrow> string list \<Rightarrow> string list \<Rightarrow> ('w, thrown, string list) act" where
  "track_tokens e [] ts = retW ts"
| "track_tokens e (p # ps) ts = bindW (catchW (bindW (trTokens e p) (\<lambda>(t0, t1). retW (List.insert t1 (List.insert t0 ts)))) (\<lambda>_. retW ts))
     (track_tokens e ps)"

definition buildPriceMapTracked :: "'w treasury_env \<Rightarrow> string list \<Rightarrow> ('w, thrown, rat js_map \<times> string list) act" where
  "buildPriceMapTracked e pairs = bindW (buildPriceMap e pairs) (\<lambda>prices. bindW (track_tokens e pairs []) (\<lambda>ts.
     retW (prices, filter (\<lambda>t. js_get prices t = None) (List.rev ts))))"

definition unavailable :: "enriched_position \<Rightarrow> string \<Rightarrow> unavailable_position" where
  "unavailable pos reason = \<lparr>upPair = epPair pos, upLpToken = epLpToken pos, upToken0 = epToken0 pos, upToken1 = epToken1 pos,
     upBalance = epBalance pos, upAmount0 = epAmount0 pos, upAmount1 = epAmount1 pos, upReason = reason\<rparr>"

definition valued :: "enriched_position \<Rightarrow> int \<Rightarrow> portfolio_position" where
  "valued pos v = \<lparr>ppPair = epPair pos, ppLpToken = epLpToken pos, ppToken0 = epToken0 pos, ppToken1 = epToken1 pos,
     ppBalance = epBalance pos, ppAmount0 = epAmount0 pos, ppAmount1 = epAmount1 pos, ppValue = toDisplayUSD v\<rparr>"

definition valueOne :: "(rat \<Rightarrow> string) \<Rightarrow> rat js_map \<Rightarrow> enriched_position \<Rightarrow> string + int" where
  "valueOne bigText prices pos = (case (js_get prices (epToken0 pos), js_get prices (epToken1 pos)) of
     (Some p0, Some p1) \<Rightarrow> (case bindE (scaledPositionValue bigText (epAmount0 pos) p0) (\<lambda>a.
         bindE (scaledPositionValue bigText (epAmount1 pos) p1) (\<lambda>b. Inr (a + b))) of
       Inr v \<Rightarrow> Inr v | Inl x \<Rightarrow> Inl (err_message (PortfolioCalculationError (epPair pos) (err_message x))))
   | (q0, _) \<Rightarrow> Inl (err_message (MissingPriceFeedError (if q0 = None then epToken0 pos else epToken1 pos) False)))"

fun valueAll :: "(rat \<Rightarrow> string) \<Rightarrow> rat js_map \<Rightarrow> enriched_position list \<Rightarrow> portfolio_position list \<times> unavailable_position list \<times> int \<Rightarrow>
    portfolio_position list \<times> unavailable_position list \<times> int" where
  "valueAll bigText prices [] acc = acc"
| "valueAll bigText prices (pos # rest) (good, bad, t) = valueAll bigText prices rest (case valueOne bigText prices pos of
     Inr v \<Rightarrow> (good @ [valued pos v], bad, t + v)
   | Inl reason \<Rightarrow> (good, bad @ [unavailable pos reason], t))"

definition is_sdk_error :: "thrown \<Rightarrow> bool" where
  "is_sdk_error x = (case x of Sdk err \<Rightarrow> err_code err \<noteq> None | _ \<Rightarrow> False)"

text \<open>\<open>get\<close>, which \<open>getPortfolio\<close> is another name of.\<close>

definition getPortfolio :: "('x portfolio_state_scheme) portfolio_env \<Rightarrow> string \<Rightarrow> portfolio_options \<Rightarrow> ('x portfolio_state_scheme, thrown, portfolio) act" where
  "getPortfolio e owner opts = bindW (\<lambda>w. liftW (validatePortfolioInputs e owner opts w) w) (\<lambda>_.
     bindW (catchW (getPositions (ptPositions e) owner
         \<lparr>poIncludeEmpty = False, poPairs = or_else (goPairs opts) [], poLimit = goLimit opts, poCursor = None\<rparr>)
       (\<lambda>x. throwW (if is_sdk_error x then x else Sdk (AddressNotFoundError owner (ptNetwork e))))) (\<lambda>summary.
     bindW (case goPairs opts of Some (p # ps) \<Rightarrow> retW (p # ps) | _ \<Rightarrow> ptPairs e) (\<lambda>allPairs.
     bindW (buildPriceMapTracked (ptTreasury e) allPairs) (\<lambda>(prices, _).
       let (good, bad, t) = valueAll (ptBigText e) prices (smPositions summary) ([], [], 0)
       in retW \<lparr>pfOwner = owner, pfPositions = good, pfTotal = toDisplayUSD t, pfUnavailable = bad\<rparr>))))"

definition createSnapshot :: "(string \<Rightarrow> bool) \<Rightarrow> portfolio \<Rightarrow> rat \<Rightarrow> entry_snapshot result" where
  "createSnapshot valid p nowMs = bindE (validateAddress valid (pfOwner p) ''portfolio.owner'') (\<lambda>_.
     Inr \<lparr>esOwner = pfOwner p, esTotal = pfTotal p, esPositions = map (\<lambda>x. \<lparr>snPair = ppPair x, snAmount0 = ppAmount0 x,
       snAmount1 = ppAmount1 x, snValue = ppValue x\<rparr>) (pfPositions p), esCapturedAt = \<lfloor>nowMs / 1000\<rfloor>\<rparr>)"

definition no_portfolio_options :: portfolio_options where
  "no_portfolio_options = \<lparr>goPairs = None, goFrom = None, goTo = None, goLimit = None\<rparr>"

definition pnlOf :: "rat \<Rightarrow> rat \<Rightarrow> portfolio_pnl" where
  "pnlOf was is_now = \<lparr>pnEntry = was, pnCurrent = is_now, pnUSD = is_now - was,
     pnPercent = (if 0 < was then (is_now - was) / was * 100 else 0)\<rparr>"

definition getPortfolioPnL :: "('x portfolio_state_scheme) portfolio_env \<Rightarrow> string \<Rightarrow> entry_snapshot \<Rightarrow>
    ('x portfolio_state_scheme, thrown, portfolio_pnl) act" where
  "getPortfolioPnL e owner entry = bindW (\<lambda>w. liftW (validatePortfolioInputs e owner no_portfolio_options w) w) (\<lambda>_.
     bindW (liftW (validateAddress (pzValid (ptPositions e)) (esOwner entry) ''entry.owner'')) (\<lambda>_.
     bindW (getPortfolio e owner (no_portfolio_options\<lparr>goPairs := Some (map snPair (esPositions entry))\<rparr>)) (\<lambda>current.
       retW (pnlOf (esTotal entry) (pfTotal current)))))"

section \<open>The value from simulations\<close>

definition metadataOps :: "string list \<Rightarrow> sim_call list" where
  "metadataOps pairs = concat (map (\<lambda>p. [(p, ''lp_token'', []), (p, ''token_0'', []), (p, ''token_1'', [])]) pairs)"

definition valueOps :: "pair_metadata js_map \<Rightarrow> string \<Rightarrow> string list \<Rightarrow> sim_call list" where
  "valueOps meta owner pairs = concat (map (\<lambda>p. let lp = pmLpToken (the (js_get meta p))
     in [(p, ''get_reserves'', []), (lp, ''balance'', [owner]), (lp, ''total_supply'', [])]) pairs)"

definition result_at :: "string option list \<Rightarrow> nat \<Rightarrow> string option" where
  "result_at rs i = (if i < length rs then rs ! i else None)"

definition decode_at :: "(string \<Rightarrow> 'a option) \<Rightarrow> string option list \<Rightarrow> nat \<Rightarrow> 'a option" where
  "decode_at f rs i = Option.bind (result_at rs i) f"

fun saveMetadata :: "(string \<Rightarrow> string option) \<Rightarrow> string option list \<Rightarrow> nat \<Rightarrow> string list \<Rightarrow> pair_metadata js_map \<Rightarrow> pair_metadata js_map" where
  "saveMetadata f rs i [] meta = meta"
| "saveMetadata f rs i (p # ps) meta = saveMetadata f rs (Suc i) ps
     (case (decode_at f rs (i * 3), decode_at f rs (i * 3 + 1), decode_at f rs (i * 3 + 2)) of
        (Some lp, Some t0, Some t1) \<Rightarrow> js_set meta p \<lparr>pmLpToken = lp, pmToken0 = t0, pmToken1 = t1\<rparr>
      | _ \<Rightarrow> meta)"

fun reservesMap :: "(string \<Rightarrow> (int \<times> int) option) \<Rightarrow> string option list \<Rightarrow> nat \<Rightarrow> string list \<Rightarrow> (int \<times> int) js_map \<Rightarrow> (int \<times> int) js_map" where
  "reservesMap f rs i [] m = m"
| "reservesMap f rs i (p # ps) m = reservesMap f rs (Suc i) ps (case decode_at f rs (i * 3) of Some r \<Rightarrow> js_set m p r | None \<Rightarrow> m)"

definition pair_tokens :: "pair_metadata js_map \<Rightarrow> string \<Rightarrow> string \<times> string" where
  "pair_tokens meta p = (let x = the (js_get meta p) in (pmToken0 x, pmToken1 x))"

definition simulatedPrices :: "string list \<Rightarrow> pair_metadata js_map \<Rightarrow> (int \<times> int) js_map \<Rightarrow> string list \<Rightarrow> rat js_map" where
  "simulatedPrices anchors meta reserves pairs = (let prices = fold (\<lambda>a m. js_set m a 1) anchors [] in
     if anchors = [] then prices
     else fold (\<lambda>p m. case js_get reserves p of None \<Rightarrow> m | Some r \<Rightarrow> anchorPair anchors (pair_tokens meta p, r) m) pairs prices)"

definition shareValue :: "rat js_map \<Rightarrow> string \<times> string \<Rightarrow> int \<times> int \<Rightarrow> int \<Rightarrow> int \<Rightarrow> rat" where
  "shareValue prices ts r balance supply = (if balance = 0 \<or> supply = 0 then 0
     else case (js_get prices (fst ts), js_get prices (snd ts)) of
       (Some p0, Some p1) \<Rightarrow> of_int balance / of_int supply *
         (of_int (fst r) / of_int STROOP_SCALE * p0 + of_int (snd r) / of_int STROOP_SCALE * p1)
     | _ \<Rightarrow> 0)"

definition pairValue :: "(string \<Rightarrow> int option) \<Rightarrow> string option list \<Rightarrow> rat js_map \<Rightarrow> pair_metadata js_map \<Rightarrow> (int \<times> int) js_map \<Rightarrow> nat \<Rightarrow> string \<Rightarrow> rat" where
  "pairValue f rs prices meta reserves i p = (case (decode_at f rs (i * 3 + 1), decode_at f rs (i * 3 + 2), js_get reserves p) of
     (Some balance, Some supply, Some r) \<Rightarrow> shareValue prices (pair_tokens meta p) r balance supply
   | _ \<Rightarrow> 0)"

definition calculateUSD :: "('w, 'x) portfolio_env_scheme \<Rightarrow> pair_metadata js_map \<Rightarrow> string list \<Rightarrow> string option list option \<Rightarrow> rat" where
  "calculateUSD e meta pairs sim = (case sim of None \<Rightarrow> 0 | Some rs \<Rightarrow>
     let reserves = reservesMap (ptReserves e) rs 0 pairs [];
         prices = simulatedPrices (trStable (ptTreasury e)) meta reserves pairs
     in sum_list (map (\<lambda>(i, p). pairValue (ptBigint e) rs prices meta reserves i p) (enumerate 0 pairs)))"

definition changeOf :: "rat \<Rightarrow> rat \<Rightarrow> rat \<times> rat \<times> rat" where
  "changeOf total_now was = (total_now, total_now - was, if was = 0 then 0 else (total_now - was) / was * 100)"

definition fetchMetadata :: "('x portfolio_state_scheme) portfolio_env \<Rightarrow> string list \<Rightarrow> ('x portfolio_state_scheme, thrown, unit) act" where
  "fetchMetadata e missing = (if missing = [] then retW ()
     else bindW (ptSimulate e (metadataOps missing)) (\<lambda>r w. (Inr (), case r of None \<Rightarrow> w
       | Some rs \<Rightarrow> w\<lparr>ptMetadata := saveMetadata (ptAddress e) rs 0 missing (ptMetadata w)\<rparr>)))"

definition valueSimulations :: "('x portfolio_state_scheme) portfolio_env \<Rightarrow> string \<Rightarrow> string list \<Rightarrow> ('x portfolio_state_scheme, thrown, rat \<times> rat \<times> rat) act" where
  "valueSimulations e address allPairs w = (let meta = ptMetadata w; pairs = filter (\<lambda>p. js_get meta p \<noteq> None) allPairs in
     if pairs = [] then retW (0, 0, 0) w
     else bindW (ptSimulate e (valueOps meta address pairs)) (\<lambda>current. bindW (ptSimulate e (valueOps meta address pairs)) (\<lambda>historical.
       retW (changeOf (calculateUSD e meta pairs current) (calculateUSD e meta pairs historical)))) w)"

definition getPortfolioValue :: "('x portfolio_state_scheme) portfolio_env \<Rightarrow> string \<Rightarrow> ('x portfolio_state_scheme, thrown, rat \<times> rat \<times> rat) act" where
  "getPortfolioValue e address = bindW (liftW (validateAddress (pzValid (ptPositions e)) address ''address'')) (\<lambda>_.
     bindW (ptPairs e) (\<lambda>allPairs. if allPairs = [] then retW (0, 0, 0)
     else (\<lambda>w. bindW (fetchMetadata e (filter (\<lambda>p. js_get (ptMetadata w) p = None) allPairs)) (\<lambda>_. valueSimulations e address allPairs) w)))"

section \<open>The arithmetic of a value\<close>

lemma scale_pos: "0 < PORTFOLIO_PRICE_SCALE" "0 < STROOP_SCALE"
  by (simp_all add: PORTFOLIO_PRICE_SCALE_def PRICE_SCALE_DECIMALS_def STROOP_SCALE_def)

lemma scalePrice_eq: "scalePrice bigText q = (if 10 ^ 21 \<le> \<bar>q\<bar> then Inl (JsError (bigText \<bar>q\<bar>))
    else Inr ((if q < 0 then -1 else 1) * \<lfloor>\<bar>q\<bar> * of_int PORTFOLIO_PRICE_SCALE + 1 / 2\<rfloor>))"
  by (simp add: scalePrice_def fixed_parts_def Let_def)

lemma half_up: "\<bar>of_int \<lfloor>x + 1 / 2\<rfloor> - x\<bar> \<le> 1 / 2" for x :: rat
  by linarith

lemma scalePrice_close:
  assumes "scalePrice bigText q = Inr s"
  shows "\<bar>of_int s - q * of_int PORTFOLIO_PRICE_SCALE\<bar> \<le> 1 / 2"
proof -
  have s: "s = (if q < 0 then -1 else 1) * \<lfloor>\<bar>q\<bar> * of_int PORTFOLIO_PRICE_SCALE + 1 / 2\<rfloor>"
    using assms by (simp add: scalePrice_eq split: if_splits)
  show ?thesis unfolding s using half_up[of "\<bar>q\<bar> * of_int PORTFOLIO_PRICE_SCALE"] by (cases "q < 0") (simp_all add: algebra_simps abs_minus_commute, linarith?)
qed

lemma sdiv_close: "0 < b \<Longrightarrow> \<bar>of_int (a sdiv b) - of_int a / of_int b\<bar> \<le> (1 :: rat)" for a b :: int
proof -
  assume b: "0 < b"
  have d: "(0 :: rat) \<le> of_int n / of_int b - of_int (n div b) \<and> of_int n / of_int b - of_int (n div b) \<le> (1 :: rat)" for n :: int
  proof -
    have "(of_int (n div b) :: rat) = of_int \<lfloor>of_int n / (of_int b :: rat)\<rfloor>" by (simp add: floor_divide_of_int_eq)
    then show ?thesis by linarith
  qed
  show ?thesis
  proof (cases "0 \<le> a")
    case True
    then show ?thesis using b d[of a] by (simp add: sdiv_nonneg)
  next
    case False
    then have "a sdiv b = - ((- a) div b)" using b by (simp add: signed_divide_int_def sgn_if)
    then show ?thesis using d[of "- a"] by simp
  qed
qed

lemma value_close:
  fixes x X P a :: rat
  assumes "\<bar>x - X / 10 ^ 7\<bar> \<le> 1" and "\<bar>X - P * 10 ^ 15\<bar> \<le> a / 2"
  shows "\<bar>x / 10 ^ 15 - P / 10 ^ 7\<bar> \<le> a / (2 * 10 ^ 22) + 1 / 10 ^ 15"
proof -
  have "x - X / 10 ^ 7 \<le> 1" "X / 10 ^ 7 - x \<le> 1" "X - P * 10 ^ 15 \<le> a / 2" "P * 10 ^ 15 - X \<le> a / 2"
    using abs_le_D1[OF assms(1)] abs_le_D2[OF assms(1)] abs_le_D1[OF assms(2)] abs_le_D2[OF assms(2)]
    by (simp_all only: minus_diff_eq)
  then show ?thesis unfolding abs_le_iff by (simp add: field_simps)
qed

text \<open>The value of an amount is within \<open>amount / (2 * 10 ^ 22) + 10 ^ -15\<close> USD of the exact product: no precision is lost
  to the size of the amount. A price of \<open>10 ^ 21\<close> or more has no value.\<close>

theorem value_error_bound:
  assumes "0 \<le> amt"
  shows "case scaledPositionValue bigText amt price of
      Inr v \<Rightarrow> \<bar>price\<bar> < 10 ^ 21 \<and> \<bar>toDisplayUSD v - of_int amt / 10 ^ 7 * price\<bar> \<le> of_int amt / (2 * 10 ^ 22) + 1 / 10 ^ 15
    | Inl x \<Rightarrow> 10 ^ 21 \<le> \<bar>price\<bar> \<and> x = JsError (bigText \<bar>price\<bar>)"
proof (cases "10 ^ 21 \<le> \<bar>price\<bar>")
  case True
  then show ?thesis by (simp add: scaledPositionValue_def scalePrice_eq)
next
  case False
  then obtain s where s: "scalePrice bigText price = Inr s" by (simp add: scalePrice_eq)
  define v where "v = amt * s sdiv STROOP_SCALE"
  have S: "of_int PORTFOLIO_PRICE_SCALE = (10 ^ 15 :: rat)" "of_int STROOP_SCALE = (10 ^ 7 :: rat)"
    by (simp_all add: PORTFOLIO_PRICE_SCALE_def PRICE_SCALE_DECIMALS_def STROOP_SCALE_def)
  have A: "\<bar>of_int v - of_int amt * of_int s / 10 ^ 7\<bar> \<le> (1 :: rat)"
    using sdiv_close[OF scale_pos(2), of "amt * s"] unfolding v_def S by simp
  have "\<bar>of_int amt * (of_int s - price * 10 ^ 15)\<bar> \<le> of_int amt * (1 / 2)"
    using scalePrice_close[OF s] assms unfolding S abs_mult by (intro mult_mono) auto
  then have B: "\<bar>of_int amt * of_int s - of_int amt * price * 10 ^ 15\<bar> \<le> of_int amt / 2" by (simp add: algebra_simps)
  have "\<bar>toDisplayUSD v - of_int amt / 10 ^ 7 * price\<bar> \<le> of_int amt / (2 * 10 ^ 22) + 1 / 10 ^ 15"
    using value_close[OF A B] unfolding toDisplayUSD_def S by (simp add: mult.commute)
  then show ?thesis using False s by (simp add: scaledPositionValue_def v_def)
qed

section \<open>Every position is counted once\<close>

lemma valueAll_acc: "valueAll bt prices ps (good, bad, t) = (let (g, b, s) = valueAll bt prices ps ([], [], 0) in (good @ g, bad @ b, t + s))"
proof (induction ps arbitrary: good bad t)
  case (Cons pos ps)
  show ?case
  proof (cases "valueOne bt prices pos")
    case (Inl x)
    then show ?thesis using Cons[of good "bad @ [unavailable pos x]" t] Cons[of "[]" "[unavailable pos x]" 0]
      by (simp add: Let_def split: prod.splits)
  next
    case (Inr v)
    then show ?thesis using Cons[of "good @ [valued pos v]" bad "t + v"] Cons[of "[valued pos v]" "[]" v]
      by (simp add: Let_def split: prod.splits)
  qed
qed simp

lemma valueAll_Cons:
  assumes "valueAll bt prices ps ([], [], 0) = (g, b, t)"
  shows "valueAll bt prices (pos # ps) ([], [], 0) = (case valueOne bt prices pos of
    Inr v \<Rightarrow> (valued pos v # g, b, v + t) | Inl x \<Rightarrow> (g, unavailable pos x # b, t))"
proof (cases "valueOne bt prices pos")
  case (Inl x)
  then show ?thesis using assms valueAll_acc[of bt prices ps "[]" "[unavailable pos x]" 0] by simp
next
  case (Inr v)
  then show ?thesis using assms valueAll_acc[of bt prices ps "[valued pos v]" "[]" v] by simp
qed

lemma valueAll_sum: "valueAll bt prices ps ([], [], 0) = (g, b, t) \<Longrightarrow>
    toDisplayUSD t = sum_list (map ppValue g) \<and> mset (map ppPair g) + mset (map upPair b) = mset (map epPair ps)"
proof (induction ps arbitrary: g b t)
  case (Cons pos ps)
  obtain g' b' t' where r: "valueAll bt prices ps ([], [], 0) = (g', b', t')" by (metis surj_pair)
  show ?case
  proof (cases "valueOne bt prices pos")
    case (Inl x)
    then show ?thesis using Cons.prems Cons.IH[OF r] unfolding valueAll_Cons[OF r] by (auto simp: unavailable_def)
  next
    case (Inr v)
    then show ?thesis using Cons.prems Cons.IH[OF r] unfolding valueAll_Cons[OF r]
      by (auto simp: valued_def toDisplayUSD_def add_divide_distrib)
  qed
qed (simp add: toDisplayUSD_def)

lemma getPortfolio_inv:
  assumes "getPortfolio e owner opts w = (Inr r, w')"
  shows "\<exists>s v prices pairs vm vn t. getPositions (ptPositions e) owner
      \<lparr>poIncludeEmpty = False, poPairs = or_else (goPairs opts) [], poLimit = goLimit opts, poCursor = None\<rparr> w = (Inr s, v) \<and>
    (case goPairs opts of Some (p # ps) \<Rightarrow> retW (p # ps) | _ \<Rightarrow> ptPairs e) v = (Inr pairs, vm) \<and>
    buildPriceMap (ptTreasury e) pairs vm = (Inr prices, vn) \<and>
    valueAll (ptBigText e) prices (smPositions s) ([], [], 0) = (pfPositions r, pfUnavailable r, t) \<and> pfTotal r = toDisplayUSD t"
proof -
  let ?opts = "\<lparr>poIncludeEmpty = False, poPairs = or_else (goPairs opts) [], poLimit = goLimit opts, poCursor = None\<rparr>"
  obtain s v v0 where s: "catchW (getPositions (ptPositions e) owner ?opts) (\<lambda>x. throwW (if is_sdk_error x then x else Sdk (AddressNotFoundError owner (ptNetwork e)))) v0 = (Inr s, v)"
    and v0: "v0 = w" and rest: "bindW (case goPairs opts of Some (p # ps) \<Rightarrow> retW (p # ps) | _ \<Rightarrow> ptPairs e) (\<lambda>allPairs.
     bindW (buildPriceMapTracked (ptTreasury e) allPairs) (\<lambda>(prices, _).
       let (good, bad, t) = valueAll (ptBigText e) prices (smPositions s) ([], [], 0)
       in retW \<lparr>pfOwner = owner, pfPositions = good, pfTotal = toDisplayUSD t, pfUnavailable = bad\<rparr>)) v = (Inr r, w')"
    using assms unfolding getPortfolio_def bindW_Inr liftW_eq by blast
  have s': "getPositions (ptPositions e) owner ?opts w = (Inr s, v)"
    using s v0 by (auto simp: catchW_def throwW_def split: prod.splits sum.splits)
  obtain pairs vm q vo where q: "(case goPairs opts of Some (p # ps) \<Rightarrow> retW (p # ps) | _ \<Rightarrow> ptPairs e) v = (Inr pairs, vm)"
    "buildPriceMapTracked (ptTreasury e) pairs vm = (Inr q, vo)"
    "(case q of (prices, _) \<Rightarrow> let (good, bad, t) = valueAll (ptBigText e) prices (smPositions s) ([], [], 0)
       in retW \<lparr>pfOwner = owner, pfPositions = good, pfTotal = toDisplayUSD t, pfUnavailable = bad\<rparr>) vo = (Inr r :: (thrown, portfolio) res, w')"
    using rest unfolding bindW_Inr by (elim exE conjE) (rule that)
  obtain prices ts where "q = (prices, ts)" by force
  note p = q[unfolded this prod.case]
  obtain vn where m: "buildPriceMap (ptTreasury e) pairs vm = (Inr prices, vn)"
    using p(2) unfolding buildPriceMapTracked_def bindW_Inr retW_eq by auto
  obtain g b t where va: "valueAll (ptBigText e) prices (smPositions s) ([], [], 0) = (g, b, t)" by (metis surj_pair)
  then have "r = \<lparr>pfOwner = owner, pfPositions = g, pfTotal = toDisplayUSD t, pfUnavailable = b\<rparr>" using p(3) by (simp add: retW_def)
  then show ?thesis using s' p(1) m va by (intro exI conjI) auto
qed

text \<open>The total of a portfolio is exactly the sum of the values shown, and each position found is either valued or
  reported with a reason.\<close>

theorem portfolio_total:
  assumes "getPortfolio e owner opts w = (Inr r, w')"
  shows "pfTotal r = sum_list (map ppValue (pfPositions r)) \<and>
    (\<exists>s v. getPositions (ptPositions e) owner
      \<lparr>poIncludeEmpty = False, poPairs = or_else (goPairs opts) [], poLimit = goLimit opts, poCursor = None\<rparr> w = (Inr s, v) \<and>
      mset (map ppPair (pfPositions r)) + mset (map upPair (pfUnavailable r)) = mset (map epPair (smPositions s)))"
  using getPortfolio_inv[OF assms] by (elim exE conjE) (auto dest: valueAll_sum)

section \<open>Profit and loss\<close>

text \<open>An entry without positions is compared with the whole portfolio of today, not with nothing.\<close>

theorem empty_entry_means_all:
  assumes "esPositions entry = []" and "validateAddress (pzValid (ptPositions e)) (esOwner entry) ''entry.owner'' = Inr ()"
    and "getPortfolio e owner no_portfolio_options w = (Inr r, w')"
  shows "getPortfolioPnL e owner entry w = (Inr (pnlOf (esTotal entry) (pfTotal r)), w')"
proof -
  have v: "validatePortfolioInputs e owner no_portfolio_options w = Inr ()"
    using assms(3) by (auto simp: getPortfolio_def bindW_Inr liftW_eq)
  have "getPortfolio e owner (no_portfolio_options\<lparr>goPairs := Some []\<rparr>) = getPortfolio e owner no_portfolio_options"
    by (rule ext) (simp add: getPortfolio_def validatePortfolioInputs_def no_portfolio_options_def or_else_def)
  then show ?thesis using assms v by (simp add: getPortfolioPnL_def bindW_def liftW_def retW_def)
qed

lemma pricePairs_unanchored:
  assumes "\<And>p. p \<in> set ps \<Longrightarrow> \<exists>t0 t1. trTokens e p = retW (t0, t1) \<and> t0 \<notin> set (trStable e) \<and> t1 \<notin> set (trStable e)"
    and "pricePairs e ps m w = (Inr m', w')"
  shows "m' = m"
  using assms
proof (induction ps arbitrary: w)
  case (Cons p ps)
  obtain t0 t1 where t: "trTokens e p = retW (t0, t1)" "t0 \<notin> set (trStable e)" "t1 \<notin> set (trStable e)" using Cons.prems(1)[of p] by auto
  then have a: "anchorPair (trStable e) ((t0, t1), rs) m = m" for rs by (auto simp: anchorPair_def split: prod.splits)
  have "\<exists>w1. pricePairs e ps m w1 = (Inr m', w')"
    using Cons.prems(2) t(1) a by (auto simp: bindW_def catchW_def retW_def split: prod.splits sum.splits)
  then show ?case using Cons.IH Cons.prems(1) by auto
qed (simp add: retW_def)

lemma unanchored_prices:
  assumes "\<And>p. p \<in> set ps \<Longrightarrow> \<exists>t0 t1. trTokens e p = retW (t0, t1) \<and> t0 \<notin> set (trStable e) \<and> t1 \<notin> set (trStable e)"
    and "buildPriceMap e ps w = (Inr m, w')" and "t \<notin> set (trStable e)"
  shows "js_get m t = None"
proof -
  have "m = fold (\<lambda>a m. js_set m a 1) (trStable e) []"
    using assms(2) pricePairs_unanchored[OF assms(1)] by (auto simp: buildPriceMap_def Let_def retW_def split: if_splits)
  then show ?thesis using stable_only[OF assms(3), of "[]"] by simp
qed

lemma readPosition_tokens:
  assumes "readPosition e p owner w = (Inr pos, w')"
  shows "\<exists>lp balance supply rs ts fee w1 w2. pzTokens e p w1 = (Inr ts, w2) \<and> checkedPosition p lp balance supply rs ts fee = Inr pos"
  using assms unfolding readPosition_def bindW_Inr liftW_eq by blast

lemma settleAll_tokens:
  assumes "settleAll (\<lambda>p. readPosition e p owner) pairs w = (rs, w')" and "Inr pos \<in> set rs"
    and "\<And>p. p \<in> set pairs \<Longrightarrow> pzTokens e p = retW (tk p)"
  shows "\<exists>p \<in> set pairs. (epToken0 pos, epToken1 pos) = tk p"
  using assms
proof (induction pairs arbitrary: w rs)
  case (Cons p ps)
  obtain r w1 rs' w2 where s: "readPosition e p owner w = (r, w1)" "settleAll (\<lambda>p. readPosition e p owner) ps w1 = (rs', w2)" by (metis surj_pair)
  then have rs: "rs = r # rs'" "w' = w2" using Cons.prems by simp_all
  show ?case
  proof (cases "r = Inr pos")
    case True
    then have "readPosition e p owner w = (Inr pos, w1)" using s(1) by simp
    then have "\<exists>lp balance supply rs fee. checkedPosition p lp balance supply rs (tk p) fee = Inr pos"
      using readPosition_tokens Cons.prems(3)[of p] by (metis list.set_intros(1) retW_eq sum.inject(2))
    then have "(epToken0 pos, epToken1 pos) = tk p" unfolding checkedPosition_Inr by (auto simp: enriched_read_def)
    then show ?thesis by auto
  next
    case False
    then have "Inr pos \<in> set rs'" using Cons.prems(2) rs by auto
    then show ?thesis using Cons.IH[of w1 rs'] s(2) rs(2) Cons.prems(3) by auto
  qed
qed simp

lemma found_tokens:
  assumes "getPositions e owner \<lparr>poIncludeEmpty = empties, poPairs = p # ps, poLimit = l, poCursor = c\<rparr> w = (Inr s, w')"
    and "\<And>q. q \<in> set (p # ps) \<Longrightarrow> pzTokens e q = retW (tk q)" and "pos \<in> set (smPositions s)"
  shows "\<exists>q \<in> set (p # ps). (epToken0 pos, epToken1 pos) = tk q"
proof -
  let ?o = "\<lparr>poIncludeEmpty = empties, poPairs = p # ps, poLimit = l, poCursor = c\<rparr>"
  have v: "validateAddress (pzValid e) owner ''owner'' = Inr ()"
    using assms(1) by (auto simp: getPositions_def bindW_Inr liftW_eq)
  obtain rs w1 where st: "settleAll (\<lambda>q. readPosition e q owner) (poPairs ?o) w = (rs, w1)" by force
  have "smPositions s = smPositions (summaryOf owner (safe_limit l) c (filter (\<lambda>p. empties \<or> 0 < epBalance p) (oks rs)))"
    using assms(1) getPositions_lemma[OF v _ st] by (auto split: option.splits)
  moreover have "set (smPositions (summaryOf owner l' c xs)) \<subseteq> set xs" for l' xs
    by (cases l') (auto simp: summaryOf_def Let_def intro: in_set_dropD dest: in_set_takeD)
  ultimately have "pos \<in> set (oks rs)" using assms(3) by fastforce
  then show ?thesis using settleAll_tokens[OF st _ assms(2)] by (simp add: map_filter_in)
qed

lemma valueAll_none: "(\<And>pos. pos \<in> set ps \<Longrightarrow> js_get prices (epToken0 pos) = None) \<Longrightarrow>
    \<exists>b. valueAll bt prices ps ([], [], 0) = ([], b, 0)"
proof (induction ps)
  case (Cons pos ps)
  then obtain b where b: "valueAll bt prices ps ([], [], 0) = ([], b, 0)" by auto
  show ?case unfolding valueAll_Cons[OF b] using Cons.prems[of pos] by (simp add: valueOne_def)
qed simp

text \<open>The prices of the comparison come from the pools of the entry alone. If none of them holds a stablecoin, the
  portfolio is worth nothing and the loss is total, whatever the rest of the market says.\<close>

theorem unanchored_entry_lost:
  assumes "esPositions entry \<noteq> []" and "0 < esTotal entry"
    and "\<And>p. p \<in> snPair ` set (esPositions entry) \<Longrightarrow> pzTokens (ptPositions e) p = retW (tk p) \<and> trTokens (ptTreasury e) p = retW (tk p) \<and>
      fst (tk p) \<notin> set (trStable (ptTreasury e)) \<and> snd (tk p) \<notin> set (trStable (ptTreasury e))"
    and "getPortfolioPnL e owner entry w = (Inr r, w')"
  shows "pnCurrent r = 0 \<and> pnUSD r = - esTotal entry \<and> pnPercent r = - 100"
proof -
  obtain p ps where ps: "map snPair (esPositions entry) = p # ps" using assms(1) by (cases "esPositions entry") auto
  have in_ps: "q \<in> set (p # ps) \<Longrightarrow> q \<in> snPair ` set (esPositions entry)" for q using arg_cong[OF ps, of set] by simp
  obtain c w1 where c: "getPortfolio e owner (no_portfolio_options\<lparr>goPairs := Some (p # ps)\<rparr>) w = (Inr c, w1)" and r: "r = pnlOf (esTotal entry) (pfTotal c)"
    using assms(4) unfolding getPortfolioPnL_def bindW_Inr liftW_eq retW_eq ps by auto
  obtain s v prices vm vn t where g: "getPositions (ptPositions e) owner
      \<lparr>poIncludeEmpty = False, poPairs = p # ps, poLimit = None, poCursor = None\<rparr> w = (Inr s, v)"
    "buildPriceMap (ptTreasury e) (p # ps) vm = (Inr prices, vn)"
    "valueAll (ptBigText e) prices (smPositions s) ([], [], 0) = (pfPositions c, pfUnavailable c, t)" "pfTotal c = toDisplayUSD t"
    using getPortfolio_inv[OF c] by (auto simp: no_portfolio_options_def or_else_def retW_def)
  have "js_get prices (epToken0 pos) = None" if pos: "pos \<in> set (smPositions s)" for pos
  proof -
    obtain q where q: "q \<in> set (p # ps)" "(epToken0 pos, epToken1 pos) = tk q"
      using found_tokens[OF g(1) _ pos, of tk] assms(3) in_ps by blast
    then have "epToken0 pos \<notin> set (trStable (ptTreasury e))" using assms(3)[OF in_ps[OF q(1)]] by (metis fst_conv)
    then show ?thesis using unanchored_prices[OF _ g(2)] assms(3) in_ps by (metis prod.collapse)
  qed
  then obtain b where "valueAll (ptBigText e) prices (smPositions s) ([], [], 0) = ([], b, 0)" using valueAll_none by blast
  then have "pfTotal c = 0" using g(3,4) by (simp add: toDisplayUSD_def)
  then show ?thesis using assms(2) by (simp add: r pnlOf_def)
qed

section \<open>The change over a day\<close>

text \<open>Both simulations ask the same of the current ledger: while its answers stay the same, the change over 24 hours is
  zero, however the value moved.\<close>

theorem change_is_zero:
  assumes "\<And>ops. ptSimulate e ops = (\<lambda>w. (answer ops, w))" and "getPortfolioValue e address w = (Inr (v, change, percent), w')"
  shows "change = 0 \<and> percent = 0"
  using assms(2)
  by (auto simp: getPortfolioValue_def bindW_Inr liftW_eq retW_eq valueSimulations_def Let_def assms(1) changeOf_def split: if_splits)

text \<open>The simulations sent, as a log that nothing else writes: at most three, two of them the same, and exactly these two
  once the metadata of every pair is known.\<close>

definition logs_simulations :: "('w \<Rightarrow> sim_call list list) \<Rightarrow> ('w, 'x) portfolio_env_scheme \<Rightarrow> bool" where
  "logs_simulations L e \<longleftrightarrow> (\<forall>ops w. L (snd (ptSimulate e ops w)) = L w @ [ops]) \<and> keeps L (ptPairs e)"

lemma simulate_log: "logs_simulations L e \<Longrightarrow> ptSimulate e ops w = (r, w') \<Longrightarrow> L w' = L w @ [ops]"
  by (metis logs_simulations_def snd_conv)

lemma valueSimulations_log:
  assumes "logs_simulations L e" and "valueSimulations e address allPairs w = (r, w')"
  shows "\<exists>ops. L w' = L w \<or> L w' = L w @ [ops] \<or> L w' = L w @ [ops, ops]"
proof (cases "filter (\<lambda>p. js_get (ptMetadata w) p \<noteq> None) allPairs = []")
  case True
  then show ?thesis using assms(2) by (simp add: valueSimulations_def retW_def)
next
  case False
  let ?ops = "valueOps (ptMetadata w) address (filter (\<lambda>p. js_get (ptMetadata w) p \<noteq> None) allPairs)"
  obtain a w1 where a: "ptSimulate e ?ops w = (a, w1)" by force
  obtain b w2 where b: "ptSimulate e ?ops w1 = (b, w2)" by force
  have l: "L w1 = L w @ [?ops]" "L w2 = L w @ [?ops, ?ops]" using simulate_log[OF assms(1) a] simulate_log[OF assms(1) b] by simp_all
  have "w' = w1 \<or> w' = w2" using assms(2) False a b
    by (cases a; cases b) (auto simp: valueSimulations_def Let_def bindW_def retW_def)
  then show ?thesis using l by auto
qed

text \<open>What is asked to value the pairs is asked twice, after at most one batch for the metadata: three round trips, and two
  only when the metadata of every pair is known.\<close>

theorem value_simulations:
  assumes "logs_simulations L e" and "\<And>m w. L (w\<lparr>ptMetadata := m\<rparr>) = L w" and "getPortfolioValue e address w = (r, w')"
  shows "\<exists>first ops. L w' \<in> {L w @ first, L w @ first @ [ops], L w @ first @ [ops, ops]} \<and> length first \<le> 1"
proof (cases "validateAddress (pzValid (ptPositions e)) address ''address'' = Inr ()")
  case False
  then obtain x where "validateAddress (pzValid (ptPositions e)) address ''address'' = Inl x"
    by (cases "validateAddress (pzValid (ptPositions e)) address ''address''") auto
  then have "w' = w" using assms(3) by (simp add: getPortfolioValue_def bindW_def liftW_def)
  then show ?thesis by (intro exI[of _ "[]"]) simp
next
  case True
  obtain a w1 where a: "ptPairs e w = (a, w1)" by force
  have k: "keeps L (ptPairs e)" using assms(1) by (simp add: logs_simulations_def)
  have L1: "L w1 = L w" by (rule keepsD[OF k a])
  show ?thesis
  proof (cases "\<exists>p ps. a = Inr (p # ps)")
    case False
    then have "w' = w1" using assms(3) a True
      by (cases a) (auto simp: getPortfolioValue_def bindW_def liftW_def retW_def neq_Nil_conv split: if_splits)
    then show ?thesis using L1 by (intro exI[of _ "[]"]) simp
  next
    case False': True
    then obtain pairs where pairs: "a = Inr pairs" "pairs \<noteq> []" by blast
    obtain b w2 where b: "fetchMetadata e (filter (\<lambda>p. js_get (ptMetadata w1) p = None) pairs) w1 = (b, w2)" by force
    have "\<exists>first. L w2 = L w @ first \<and> length first \<le> 1"
    proof (cases "filter (\<lambda>p. js_get (ptMetadata w1) p = None) pairs = []")
      case True
      then show ?thesis using b L1 by (intro exI[of _ "[]"]) (simp add: fetchMetadata_def retW_def)
    next
      case False
      let ?ops = "metadataOps (filter (\<lambda>p. js_get (ptMetadata w1) p = None) pairs)"
      obtain c w3 where c: "ptSimulate e ?ops w1 = (c, w3)" by force
      have "L w2 = L w3" using b c False assms(2)
        by (cases c) (auto simp: fetchMetadata_def bindW_def split: option.splits)
      then show ?thesis using simulate_log[OF assms(1) c] L1 by (intro exI[of _ "[?ops]"]) simp
    qed
    then obtain first where f: "L w2 = L w @ first" "length first \<le> 1" by blast
    have "w' = w2 \<or> valueSimulations e address pairs w2 = (r, w')" using assms(3) a True pairs b
      by (cases b) (auto simp: getPortfolioValue_def bindW_def liftW_def)
    then show ?thesis using valueSimulations_log[OF assms(1), of address pairs w2 r w'] f by (metis append.assoc append_Nil2 insertCI)
  qed
qed

section \<open>Witnesses\<close>

text \<open>One pool, a quarter of which is owned; \<open>anchors\<close> are the stablecoins.\<close>

definition some_treasury_env :: "string list \<Rightarrow> 'w treasury_env" where
  "some_treasury_env anchors = \<lparr>trStable = anchors, trFeeTo = retW ''F'', trPairs = retW [''P''], trTokens = (\<lambda>_. retW (''A'', ''B'')),
     trReserves = (\<lambda>_. retW (300, 70)), trLpToken = (\<lambda>_. retW ''L''), trBalance = (\<lambda>_ _. retW 5), trSupply = (\<lambda>_. retW 20),
     trSymbol = (\<lambda>_. retW ''LP''), trDecimals = (\<lambda>_. retW None), trLedger = retW 1,
     trEvents = \<lparr>getEvents = (\<lambda>_. throwW Undefined), getLatestLedger = retW 1, symbolXdr = id\<rparr>, trAddress = (\<lambda>_. None)\<rparr>"

definition some_portfolio :: "string list \<Rightarrow> (sim_call list list portfolio_state_scheme) portfolio_env" where
  "some_portfolio anchors = \<lparr>ptPositions = some_positions_env, ptTreasury = some_treasury_env anchors, ptNetwork = ''testnet'',
     ptNow = (\<lambda>_. 0), ptIso = (\<lambda>_. ''now''), ptNumText = (\<lambda>_. ''?''), ptBigText = (\<lambda>_. ''Cannot convert 1e+21 to a BigInt''), ptPairs = retW [''P''],
     ptSimulate = (\<lambda>ops w. (Inr None, portfolio_state.more_update (\<lambda>l. l @ [ops]) w)),
     ptAddress = Some, ptReserves = (\<lambda>_. Some (300, 70)), ptBigint = (\<lambda>_. Some 5)\<rparr>"

definition quiet_portfolio :: "string list \<Rightarrow> 'w portfolio_env" where
  "quiet_portfolio anchors = \<lparr>ptPositions = some_positions_env, ptTreasury = some_treasury_env anchors, ptNetwork = ''testnet'',
     ptNow = (\<lambda>_. 0), ptIso = (\<lambda>_. ''now''), ptNumText = (\<lambda>_. ''?''), ptBigText = (\<lambda>_. ''Cannot convert 1e+21 to a BigInt''), ptPairs = retW [''P''],
     ptSimulate = (\<lambda>ops w. (Inr (Some [Some ''L'', Some ''A'', Some ''B'']), w)),
     ptAddress = Some, ptReserves = (\<lambda>_. Some (300, 70)), ptBigint = (\<lambda>_. Some 5)\<rparr>"

definition fresh_portfolio :: "portfolio_state" where
  "fresh_portfolio = \<lparr>psCache = [], ptMetadata = []\<rparr>"

definition valued_portfolio :: portfolio where
  "valued_portfolio = \<lparr>pfOwner = ''O'', pfPositions = [valued quarter_position 3449999999], pfTotal = toDisplayUSD 3449999999, pfUnavailable = []\<rparr>"

lemma some_run: "getPortfolio (quiet_portfolio [''B'']) ''O'' no_portfolio_options fresh_portfolio =
    (Inr valued_portfolio, \<lparr>psCache = [Some (''P'', ''L'')], ptMetadata = []\<rparr>)"
  by code_simp

theorem value_error_bound_witness:
  "case scaledPositionValue (\<lambda>_. []) 75 (7 / 30) of
      Inr v \<Rightarrow> \<bar>7 / 30 :: rat\<bar> < 10 ^ 21 \<and> \<bar>toDisplayUSD v - of_int 75 / 10 ^ 7 * (7 / 30)\<bar> \<le> of_int 75 / (2 * 10 ^ 22) + 1 / 10 ^ 15
    | Inl x \<Rightarrow> 10 ^ 21 \<le> \<bar>7 / 30 :: rat\<bar> \<and> x = JsError []"
  using value_error_bound[where amt = 75 and bigText = "\<lambda>_. []" and price = "7 / 30"] by simp

theorem portfolio_total_witness: "pfTotal valued_portfolio = sum_list (map ppValue (pfPositions valued_portfolio))"
  using portfolio_total[OF some_run] by blast

theorem empty_entry_means_all_witness:
  "getPortfolioPnL (quiet_portfolio [''B'']) ''O'' \<lparr>esOwner = ''O'', esTotal = 1, esPositions = [], esCapturedAt = 0\<rparr> fresh_portfolio =
   (Inr (pnlOf 1 (toDisplayUSD 3449999999)), \<lparr>psCache = [Some (''P'', ''L'')], ptMetadata = []\<rparr>)"
proof -
  have v: "validateAddress (pzValid (ptPositions (quiet_portfolio [''B'']))) ''O'' ''entry.owner'' = Inr ()" by code_simp
  show ?thesis using empty_entry_means_all[of "\<lparr>esOwner = ''O'', esTotal = 1, esPositions = [], esCapturedAt = 0\<rparr>", OF _ _ some_run] v
    by (simp add: valued_portfolio_def)
qed

definition entry_of_pool :: entry_snapshot where
  "entry_of_pool = \<lparr>esOwner = ''O'', esTotal = 1, esPositions = [\<lparr>snPair = ''P'', snAmount0 = 1, snAmount1 = 1, snValue = 1\<rparr>], esCapturedAt = 0\<rparr>"

lemma lost_run: "getPortfolioPnL (quiet_portfolio [''U'']) ''O'' entry_of_pool fresh_portfolio =
    (Inr (pnlOf 1 0), \<lparr>psCache = [Some (''P'', ''L'')], ptMetadata = []\<rparr>)"
  by code_simp

theorem unanchored_entry_lost_witness: "pnPercent (pnlOf 1 0) = - 100"
proof -
  have "pnCurrent (pnlOf 1 0) = 0 \<and> pnUSD (pnlOf 1 0) = - esTotal entry_of_pool \<and> pnPercent (pnlOf 1 0) = - 100"
    by (rule unanchored_entry_lost[OF _ _ _ lost_run, of "\<lambda>_. (''A'', ''B'')"])
      (auto simp: entry_of_pool_def quiet_portfolio_def some_positions_env_def some_treasury_env_def)
  then show ?thesis by simp
qed

lemma change_run: "case fst (getPortfolioValue (quiet_portfolio [''B'']) ''O'' fresh_portfolio) of Inr _ \<Rightarrow> True | Inl _ \<Rightarrow> False"
  by code_simp

theorem change_is_zero_witness:
  "\<exists>v w'. getPortfolioValue (quiet_portfolio [''B'']) ''O'' fresh_portfolio = (Inr (v, 0, 0), w')"
proof -
  obtain v c p w' where r: "getPortfolioValue (quiet_portfolio [''B'']) ''O'' fresh_portfolio = (Inr (v, c, p), w')"
    using change_run by (metis (no_types, lifting) prod.collapse prod_cases3 sum.case(1) sum.exhaust)
  have "c = 0 \<and> p = 0"
    by (rule change_is_zero[OF _ r, of "\<lambda>_. Inr (Some [Some ''L'', Some ''A'', Some ''B''])"]) (simp add: quiet_portfolio_def)
  then show ?thesis using r by blast
qed

theorem value_simulations_witness:
  "\<exists>first ops. portfolio_state.more (snd (getPortfolioValue (some_portfolio [''B'']) ''O'' \<lparr>psCache = [], ptMetadata = [], \<dots> = []\<rparr>)) \<in>
     {first, first @ [ops], first @ [ops, ops]} \<and> length first \<le> 1"
  using value_simulations[of portfolio_state.more "some_portfolio [''B'']" "''O''" "\<lparr>psCache = [], ptMetadata = [], \<dots> = []\<rparr>",
      OF _ _ prod.collapse[symmetric]]
  by (simp add: logs_simulations_def some_portfolio_def)

end
