(* ===== verification/RiskScoring.thy ===== *)
theory RiskScoring
  imports Portfolio
begin

text \<open>
  \<open>modules/risk-scoring.ts\<close>, which scores allocations and correlates return series, and \<open>modules/risk-metrics.ts\<close>,
  which scores a portfolio. Numbers are exact rationals; a number that can be infinite or NaN is its own type. The
  square root of the correlation is a parameter.
\<close>

section \<open>Concentration\<close>

datatype threshold = Diversified | ModeratelyConcentrated | HighlyConcentrated

datatype risk_label = LowRisk | MediumRisk | HighRisk | CriticalRisk

record risk_report =
  rrScore :: int
  rrLabel :: risk_label
  rrHhi :: rat
  rrVolatility :: rat
  rrAssets :: nat

text \<open>\<open>Math.round\<close>: the nearest integer, the larger of two.\<close>

definition js_round :: "rat \<Rightarrow> int" where
  "js_round q = \<lfloor>q + 1 / 2\<rfloor>"

definition round_to :: "rat \<Rightarrow> rat \<Rightarrow> rat" where
  "round_to scale q = of_int (js_round (q * scale)) / scale"

fun checkAllocations :: "int list \<Rightarrow> unit result" where
  "checkAllocations [] = Inr ()"
| "checkAllocations (a # as) = bindE (validatePositiveAmount a ''allocation'') (\<lambda>_. checkAllocations as)"

definition hhi_threshold :: "rat \<Rightarrow> threshold" where
  "hhi_threshold h = (if h < 1000 then Diversified else if h < 2500 then ModeratelyConcentrated else HighlyConcentrated)"

definition shares_hhi :: "int list \<Rightarrow> rat" where
  "shares_hhi as = sum_list (map (\<lambda>a. (of_int (a * 10000 sdiv sum_list as) / 100) ^ 2) as)"

definition getConcentrationRisk :: "int list \<Rightarrow> (rat \<times> threshold) result" where
  "getConcentrationRisk as = (if sum_list as = 0 then Inr (10000, HighlyConcentrated)
     else bindE (checkAllocations as) (\<lambda>_. let h = shares_hhi as in Inr (round_to 100 h, hhi_threshold h)))"

section \<open>The score\<close>

definition hhi_score :: "rat \<Rightarrow> rat" where
  "hhi_score h = (if h < 1000 then 0 else if h < 2500 then (h - 1000) / 1500 * 20 else if h < 5000 then 20 + (h - 2500) / 2500 * 20 else 40)"

definition risk_label_of :: "int \<Rightarrow> risk_label" where
  "risk_label_of s = (if s \<le> 25 then LowRisk else if s \<le> 50 then MediumRisk else if s \<le> 75 then HighRisk else CriticalRisk)"

definition weight_hhi :: "int list \<Rightarrow> rat" where
  "weight_hhi as = sum_list (map (\<lambda>a. (of_int a / of_int (sum_list as)) ^ 2 * 10000) as)"

definition weighted_volatility :: "int list \<Rightarrow> rat list \<Rightarrow> rat" where
  "weighted_volatility as vs = sum_list (map (\<lambda>(a, v). v * (of_int a / of_int (sum_list as))) (zip as vs))"

definition scoreAllocations :: "int list \<Rightarrow> rat list \<Rightarrow> risk_report result" where
  "scoreAllocations as vs = (if length as \<noteq> length vs
     then Inl (JsError (''allocations ('' @ nat_str (length as) @ '') and volatilities ('' @ nat_str (length vs) @ '') must have the same length''))
     else if sum_list as = 0 then Inr \<lparr>rrScore = 100, rrLabel = CriticalRisk, rrHhi = 10000, rrVolatility = 0, rrAssets = 0\<rparr>
     else let h = weight_hhi as; v = weighted_volatility as vs; disc = - (min (of_nat (length as - 1) * 2) 10);
         pts = max 0 (min 100 (js_round (hhi_score h + min (v * 100) 50 + disc)))
       in Inr \<lparr>rrScore = pts, rrLabel = risk_label_of pts, rrHhi = round_to 100 h, rrVolatility = round_to 10000 v, rrAssets = length as\<rparr>)"

section \<open>Correlation\<close>

definition mean_of :: "rat list \<Rightarrow> rat" where
  "mean_of xs = sum_list xs / of_nat (length xs)"

definition dot_of :: "rat list \<Rightarrow> rat list \<Rightarrow> rat" where
  "dot_of xs ys = sum_list (map (\<lambda>(x, y). (x - mean_of xs) * (y - mean_of ys)) (zip xs ys))"

definition pearsonCorrelation :: "(rat \<Rightarrow> rat) \<Rightarrow> rat list \<Rightarrow> rat list \<Rightarrow> rat" where
  "pearsonCorrelation sq_root xs ys = (if xs = [] then 0 else if dot_of xs xs = 0 \<or> dot_of ys ys = 0 then 0
     else round_to 10000 (dot_of xs ys / sq_root (dot_of xs xs * dot_of ys ys)))"

definition getCorrelationMatrix :: "(rat \<Rightarrow> rat) \<Rightarrow> rat list list \<Rightarrow> rat list list result" where
  "getCorrelationMatrix sq_root series = (if series = [] then Inr []
     else if \<exists>s \<in> set series. length s \<noteq> length (hd series) then Inl (JsError ''All return series must have the same length'')
     else Inr (map (\<lambda>i. map (\<lambda>j. if i = j then 1 else pearsonCorrelation sq_root (series ! min i j) (series ! max i j)) [0..<length series]) [0..<length series]))"

section \<open>The portfolio\<close>

datatype risk_severity = LowSeverity | MediumSeverity | HighSeverity

record risk_factor =
  rfName :: string
  rfScore :: int
  rfSeverity :: risk_severity

record portfolio_risk =
  orScore :: int
  orFactors :: "risk_factor list"
  orSeverity :: risk_severity
  orAssessedAt :: int

definition scoreSeverity :: "int \<Rightarrow> risk_severity" where
  "scoreSeverity s = (if 60 \<le> s then HighSeverity else if 35 \<le> s then MediumSeverity else LowSeverity)"

definition factor :: "string \<Rightarrow> int \<Rightarrow> risk_factor" where
  "factor name s = \<lparr>rfName = name, rfScore = s, rfSeverity = scoreSeverity s\<rparr>"

text \<open>A value over a total of zero is infinite, or NaN for zero; NaN is in no band, and falls to the last.\<close>

definition analyzeConcentrationRisk :: "portfolio \<Rightarrow> risk_factor" where
  "analyzeConcentrationRisk p = (if pfPositions p = [] then factor ''Concentration Risk'' 0
     else let top = Max (set (map ppValue (pfPositions p))) in
       factor ''Concentration Risk'' (if pfTotal p = 0 then (if 0 < top then 90 else 20)
         else let c = top / pfTotal p * 100 in if 80 < c then 90 else if 60 < c then 70 else if 40 < c then 40 else 20))"

definition analyzeVolatilityExposure :: "portfolio \<Rightarrow> rat \<Rightarrow> risk_factor" where
  "analyzeVolatilityExposure p window = (let t = max 1 (pfTotal p);
     exposure = sum_list (map (\<lambda>x. ppValue x / t * min 1 (ppValue x / 100000)) (pfPositions p));
     window_modifier = 1 + min (max window 1) 180 / 180 * (9 / 10);
     position_modifier = (if pfPositions p = [] then 0 else min 1 (of_nat (length (pfPositions p)) / 6))
     in factor ''Volatility Exposure'' (min 100 (js_round (exposure * 55 + position_modifier * 30 + window_modifier * 15))))"

text \<open>The ratio of the larger amount to the smaller; zero to zero is NaN, a zero amount makes it infinite.\<close>

definition imbalance :: "portfolio_position \<Rightarrow> int" where
  "imbalance x = (let a = max (ppAmount0 x) (ppAmount1 x); b = min (ppAmount0 x) (ppAmount1 x)
     in if b = 0 then (if 0 < a then 30 else 0)
        else let q = rat_of_int a / rat_of_int b in if 10 < q then 30 else if 5 < q then 20 else if 2 < q then 10 else 0)"

definition analyzeILRisk :: "portfolio \<Rightarrow> risk_factor" where
  "analyzeILRisk p = factor ''Impermanent Loss Risk''
     (min 80 (js_round (of_int (sum_list (map imbalance (pfPositions p))) / of_nat (max 1 (length (pfPositions p))))))"

definition analyzeLiquidityDepth :: "portfolio \<Rightarrow> risk_factor" where
  "analyzeLiquidityDepth p = (let large = length (filter (\<lambda>x. 100000 < ppValue x) (pfPositions p)) in
     factor ''Liquidity Depth Risk'' (if 3 \<le> large then 70 else if 2 \<le> large then 50 else if 1 \<le> large then 30 else 15))"

definition factor_weight :: "string \<Rightarrow> rat" where
  "factor_weight name = (if name = ''Concentration Risk'' then 3 / 10 else if name = ''Volatility Exposure'' then 1 / 4
     else if name = ''Impermanent Loss Risk'' then 1 / 4 else if name = ''Liquidity Depth Risk'' then 1 / 5 else 1 / 4)"

definition calculateOverallScore :: "risk_factor list \<Rightarrow> int" where
  "calculateOverallScore fs = (if fs = [] then 0
     else js_round (sum_list (map (\<lambda>f. of_int (rfScore f) * factor_weight (rfName f)) fs) / sum_list (map (factor_weight \<circ> rfName) fs)))"

definition emptyPortfolioRisk :: "int \<Rightarrow> portfolio_risk" where
  "emptyPortfolioRisk now = \<lparr>orScore = 0, orFactors = [\<lparr>rfName = ''Portfolio Status'', rfScore = 0, rfSeverity = LowSeverity\<rparr>],
     orSeverity = LowSeverity, orAssessedAt = now\<rparr>"

definition riskOf :: "portfolio \<Rightarrow> rat \<Rightarrow> int \<Rightarrow> portfolio_risk" where
  "riskOf p window now = (if pfPositions p = [] then emptyPortfolioRisk now
     else let fs = [analyzeConcentrationRisk p, analyzeVolatilityExposure p window, analyzeILRisk p, analyzeLiquidityDepth p];
         s = calculateOverallScore fs
       in \<lparr>orScore = s, orFactors = fs, orSeverity = scoreSeverity s, orAssessedAt = now\<rparr>)"

definition assessPortfolio :: "('x portfolio_state_scheme) portfolio_env \<Rightarrow> string \<Rightarrow> string list option \<Rightarrow> rat option \<Rightarrow>
    ('x portfolio_state_scheme, thrown, portfolio_risk) act" where
  "assessPortfolio e address pairs window = bindW (liftW (validateAddress (pzValid (ptPositions e)) address ''address'')) (\<lambda>_.
     bindW (getPortfolio e address (no_portfolio_options\<lparr>goPairs := pairs\<rparr>)) (\<lambda>p w. retW (riskOf p (or_else window 30) (ptNow e w)) w))"

section \<open>Bounds\<close>

lemma checkAllocations_iff: "checkAllocations as = Inr u \<longleftrightarrow> (\<forall>a \<in> set as. 0 < a)"
  by (induction as) (auto simp: validatePositiveAmount_def result_simps not_le)

lemma sum_squares_le: "\<forall>x \<in> set xs. 0 \<le> x \<Longrightarrow> sum_list (map (\<lambda>x. x ^ 2) xs) \<le> (sum_list xs) ^ 2" for xs :: "rat list"
proof (induction xs)
  case (Cons x xs)
  have "0 \<le> sum_list xs" using Cons.prems by (intro sum_list_nonneg) auto
  then have "0 \<le> 2 * x * sum_list xs" using Cons.prems by simp
  then show ?case using Cons by (simp add: power2_sum)
qed simp

lemma sum_list_divide: "sum_list (map (\<lambda>x. f x / c) xs) = sum_list (map f xs) / c" for c :: rat
  by (induction xs) (simp_all add: add_divide_distrib)

lemma sum_of_int: "sum_list (map rat_of_int xs) = rat_of_int (sum_list xs)"
  by (induction xs) simp_all

text \<open>Of positive allocations the index is between 0 and 10000, and ten thousand exactly for one allocation.\<close>

theorem concentration_bounds:
  assumes "as \<noteq> []" and "\<forall>a \<in> set as. 0 < a"
  shows "\<exists>h. getConcentrationRisk as = Inr (round_to 100 h, hhi_threshold h) \<and> 0 \<le> h \<and> h \<le> 10000 \<and> (length as = 1 \<longrightarrow> h = 10000)"
proof -
  define S where "S = sum_list as"
  have S: "0 < S" using assms unfolding S_def by (cases as) (auto intro!: add_pos_nonneg sum_list_nonneg)
  let ?x = "\<lambda>a. rat_of_int (a * 10000 sdiv S) / 100"
  have x: "0 \<le> ?x a \<and> ?x a \<le> rat_of_int a * 100 / rat_of_int S" if "a \<in> set as" for a
  proof -
    have a: "0 < a" using assms(2) that by simp
    then have "a * 10000 sdiv S = a * 10000 div S" using S by (simp add: sdiv_nonneg)
    moreover have "rat_of_int (a * 10000 div S) \<le> rat_of_int (a * 10000) / rat_of_int S"
      by (metis floor_divide_of_int_eq of_int_floor_le)
    moreover have "0 \<le> a * 10000 div S" using a S by (simp add: pos_imp_zdiv_nonneg_iff)
    ultimately show ?thesis by (simp add: field_simps)
  qed
  have le: "sum_list (map ?x as) \<le> 100"
  proof -
    have "sum_list (map ?x as) \<le> sum_list (map (\<lambda>a. rat_of_int a * 100 / rat_of_int S) as)" using x by (intro sum_list_mono) auto
    also have "\<dots> = sum_list (map rat_of_int as) * 100 / rat_of_int S" by (simp only: sum_list_divide sum_list_mult_const)
    also have "\<dots> = 100" using S unfolding sum_of_int S_def[symmetric] by simp
    finally show ?thesis .
  qed
  have nonneg: "0 \<le> sum_list (map ?x as)" using x by (intro sum_list_nonneg) auto
  have h: "shares_hhi as = sum_list (map (\<lambda>y. y ^ 2) (map ?x as))" by (simp add: shares_hhi_def S_def comp_def)
  also have "\<dots> \<le> (sum_list (map ?x as)) ^ 2" using x by (intro sum_squares_le) auto
  also have "\<dots> \<le> 100 ^ 2" using le nonneg by (intro power_mono)
  finally have top: "shares_hhi as \<le> 10000" by simp
  have low: "0 \<le> shares_hhi as" unfolding h by (intro sum_list_nonneg) auto
  have one: "shares_hhi as = 10000" if single: "length as = 1"
  proof -
    obtain a where a: "as = [a]" using single by (auto simp: length_Suc_conv)
    then have "a * 10000 sdiv a = 10000" using assms(2) by (simp add: sdiv_nonneg)
    then show ?thesis by (simp add: shares_hhi_def a power2_eq_square)
  qed
  have "getConcentrationRisk as = Inr (round_to 100 (shares_hhi as), hhi_threshold (shares_hhi as))"
    using S checkAllocations_iff[of as "()"] assms(2) by (simp add: getConcentrationRisk_def S_def Let_def)
  then show ?thesis using low top one by blast
qed

lemma js_round_mono: "a \<le> b \<Longrightarrow> js_round a \<le> js_round b"
  by (simp add: js_round_def floor_mono)

lemma js_round_int [simp]: "js_round (of_int n) = n"
  by (simp add: js_round_def floor_unique)

lemma js_round_between: "of_int l \<le> q \<Longrightarrow> q \<le> of_int u \<Longrightarrow> l \<le> js_round q \<and> js_round q \<le> u"
  using js_round_mono[of "of_int l" q] js_round_mono[of q "of_int u"] by simp

lemma hhi_score_le: "hhi_score h \<le> 40"
  by (simp add: hhi_score_def)

text \<open>A score is between 0 and 100 and its label is the quarter it is in; but only a portfolio of nothing scores above 90.\<close>

theorem score_bounds:
  assumes "scoreAllocations as vs = Inr r"
  shows "0 \<le> rrScore r \<and> rrScore r \<le> 100 \<and> rrLabel r = risk_label_of (rrScore r) \<and> (90 < rrScore r \<longrightarrow> sum_list as = 0)"
proof (cases "length as \<noteq> length vs \<or> sum_list as = 0")
  case True
  then show ?thesis using assms by (auto simp: scoreAllocations_def risk_label_of_def split: if_splits)
next
  case False
  define q where "q = hhi_score (weight_hhi as) + min (weighted_volatility as vs * 100) 50 + (- (min (of_nat (length as - 1) * 2) 10))"
  have "q \<le> of_int 90" using hhi_score_le[of "weight_hhi as"] unfolding q_def by simp
  then have "js_round q \<le> 90" using js_round_mono[of q "of_int 90"] unfolding js_round_int by simp
  moreover have "rrScore r = max 0 (min 100 (js_round q)) \<and> rrLabel r = risk_label_of (rrScore r)"
    using assms False unfolding scoreAllocations_def Let_def q_def by auto
  ultimately show ?thesis by auto
qed

lemma min_max_swap: "min i j = min j i" "max i j = max j i" for i j :: nat
  by (auto simp: min_def max_def)

text \<open>The matrix of correlations is square and symmetric with ones on the diagonal.\<close>

theorem correlation_symmetric:
  assumes "getCorrelationMatrix sq_root series = Inr m"
  shows "length m = length series \<and> (\<forall>i < length m. length (m ! i) = length m \<and> m ! i ! i = 1 \<and> (\<forall>j < length m. m ! i ! j = m ! j ! i))"
  using assms by (auto simp: getCorrelationMatrix_def min.commute max.commute split: if_splits)

section \<open>The portfolio's risk\<close>

lemma sum_between: "(\<And>x. x \<in> set xs \<Longrightarrow> 0 \<le> f x \<and> f x \<le> c) \<Longrightarrow> 0 \<le> sum_list (map f xs) \<and> sum_list (map f xs) \<le> c * int (length xs)"
  by (induction xs) (fastforce simp: algebra_simps)+

lemma imbalance_le: "0 \<le> imbalance x \<and> imbalance x \<le> 30"
  by (simp add: imbalance_def Let_def)

lemma il_score: "0 \<le> rfScore (analyzeILRisk p) \<and> rfScore (analyzeILRisk p) \<le> 30"
proof -
  define n where "n = max 1 (length (pfPositions p))"
  define t where "t = sum_list (map imbalance (pfPositions p))"
  have t: "0 \<le> t" "t \<le> 30 * int (length (pfPositions p))" using sum_between[of "pfPositions p" imbalance 30] imbalance_le unfolding t_def by auto
  then have "t \<le> 30 * int n" unfolding n_def by simp
  then have "rat_of_int t \<le> 30 * rat_of_nat n" by (metis of_int_le_iff of_int_mult of_int_numeral of_int_of_nat_eq)
  moreover have "0 < rat_of_nat n" by (simp add: n_def)
  ultimately have "of_int 0 \<le> rat_of_int t / of_nat n" "rat_of_int t / of_nat n \<le> of_int 30" using t(1) by (simp_all add: field_simps)
  then have "0 \<le> js_round (rat_of_int t / of_nat n) \<and> js_round (rat_of_int t / of_nat n) \<le> 30" by (rule js_round_between)
  then show ?thesis by (simp add: analyzeILRisk_def factor_def n_def t_def)
qed

text \<open>The risk of impermanent loss is never more than 30, so its severity is low for every portfolio: the bands above 40
  and above 60 cannot be reached.\<close>

theorem il_risk_always_low: "rfScore (analyzeILRisk p) \<le> 30 \<and> rfSeverity (analyzeILRisk p) = LowSeverity"
proof -
  have "rfSeverity (analyzeILRisk p) = scoreSeverity (rfScore (analyzeILRisk p))" by (simp add: analyzeILRisk_def factor_def)
  then show ?thesis using il_score[of p] by (simp add: scoreSeverity_def)
qed

lemma concentration_score: "0 \<le> rfScore (analyzeConcentrationRisk p) \<and> rfScore (analyzeConcentrationRisk p) \<le> 90"
  by (simp add: analyzeConcentrationRisk_def factor_def Let_def)

lemma depth_score: "0 \<le> rfScore (analyzeLiquidityDepth p) \<and> rfScore (analyzeLiquidityDepth p) \<le> 70"
  by (simp add: analyzeLiquidityDepth_def factor_def Let_def)

lemma volatility_score:
  assumes "\<forall>x \<in> set (pfPositions p). 0 \<le> ppValue x"
  shows "15 \<le> rfScore (analyzeVolatilityExposure p window) \<and> rfScore (analyzeVolatilityExposure p window) \<le> 100"
proof -
  let ?t = "max 1 (pfTotal p)"
  define ex where "ex = sum_list (map (\<lambda>x. ppValue x / ?t * min 1 (ppValue x / 100000)) (pfPositions p))"
  define pm where "pm = (if pfPositions p = [] then 0 else min 1 (of_nat (length (pfPositions p)) / 6) :: rat)"
  define wm where "wm = 1 + min (max window 1) 180 / 180 * (9 / 10)"
  have "0 \<le> ex" unfolding ex_def using assms by (intro sum_list_nonneg) auto
  moreover have "0 \<le> pm" "1 \<le> wm" by (simp_all add: pm_def wm_def)
  ultimately have "of_int 15 \<le> ex * 55 + pm * 30 + wm * 15" by simp
  then have "15 \<le> js_round (ex * 55 + pm * 30 + wm * 15)" using js_round_mono[of "of_int 15"] by (metis js_round_int)
  then show ?thesis by (simp add: analyzeVolatilityExposure_def factor_def Let_def ex_def pm_def wm_def)
qed

lemma factor_names: "rfName (analyzeConcentrationRisk p) = ''Concentration Risk''" "rfName (analyzeVolatilityExposure p v) = ''Volatility Exposure''"
  "rfName (analyzeILRisk p) = ''Impermanent Loss Risk''" "rfName (analyzeLiquidityDepth p) = ''Liquidity Depth Risk''"
  by (simp_all add: analyzeConcentrationRisk_def analyzeVolatilityExposure_def analyzeILRisk_def analyzeLiquidityDepth_def factor_def Let_def)

text \<open>The overall score is the weighted average of the four: with nonnegative values it is at least 4 and at most 74, and
  what is assessed as high is high for other reasons than impermanent loss.\<close>

theorem overall_risk_bounds:
  assumes "pfPositions p \<noteq> []" and "\<forall>x \<in> set (pfPositions p). 0 \<le> ppValue x"
  shows "4 \<le> orScore (riskOf p window now) \<and> orScore (riskOf p window now) \<le> 74 \<and>
    orSeverity (riskOf p window now) = scoreSeverity (orScore (riskOf p window now)) \<and> length (orFactors (riskOf p window now)) = 4"
proof -
  let ?a = "rfScore (analyzeConcentrationRisk p)" and ?b = "rfScore (analyzeVolatilityExposure p window)"
    and ?c = "rfScore (analyzeILRisk p)" and ?d = "rfScore (analyzeLiquidityDepth p)"
  have s: "orScore (riskOf p window now) = js_round (of_int ?a * (3 / 10) + (of_int ?b * (1 / 4) + (of_int ?c * (1 / 4) + of_int ?d * (1 / 5))))"
    using assms(1) by (simp add: riskOf_def Let_def calculateOverallScore_def factor_names factor_weight_def)
  have "of_int 0 \<le> (of_int ?a :: rat)" "(of_int ?a :: rat) \<le> of_int 90" "(of_int 15 :: rat) \<le> of_int ?b" "(of_int ?b :: rat) \<le> of_int 100"
    "(of_int 0 :: rat) \<le> of_int ?c" "(of_int ?c :: rat) \<le> of_int 30" "(of_int 0 :: rat) \<le> of_int ?d" "(of_int ?d :: rat) \<le> of_int 70"
    unfolding of_int_le_iff using concentration_score[of p] volatility_score[OF assms(2), of window] il_score[of p] depth_score[of p] by simp_all
  then have "of_int 4 - 1 / 2 \<le> of_int ?a * (3 / 10) + (of_int ?b * (1 / 4) + (of_int ?c * (1 / 4) + of_int ?d * (1 / 5)) :: rat)"
    "of_int ?a * (3 / 10) + (of_int ?b * (1 / 4) + (of_int ?c * (1 / 4) + of_int ?d * (1 / 5)) :: rat) \<le> 147 / 2"
    by simp_all
  then have "4 \<le> orScore (riskOf p window now)" "orScore (riskOf p window now) \<le> 74" unfolding s js_round_def by linarith+
  then show ?thesis using assms(1) by (simp add: riskOf_def Let_def)
qed

section \<open>Witnesses\<close>

theorem concentration_bounds_witness:
  "\<exists>h. getConcentrationRisk [7] = Inr (round_to 100 h, hhi_threshold h) \<and> 0 \<le> h \<and> h \<le> 10000 \<and> (length [7 :: int] = 1 \<longrightarrow> h = 10000)"
  by (rule concentration_bounds) simp_all

lemma sample_score: "scoreAllocations [3, 1] [1 / 2, 1 / 4] = Inr \<lparr>rrScore = 82, rrLabel = CriticalRisk, rrHhi = 6250, rrVolatility = 4375 / 10000, rrAssets = 2\<rparr>"
  by code_simp

theorem score_bounds_witness: "risk_label_of 82 = CriticalRisk"
  using score_bounds[OF sample_score] by simp

lemma sample_matrix: "getCorrelationMatrix id [[1, 2], [2, 1]] = Inr [[1, -2], [-2, 1]]"
  by code_simp

theorem correlation_symmetric_witness: "length [[1, -2], [-2, 1 :: rat]] = length [[1, 2], [2, 1 :: rat]]"
  using correlation_symmetric[OF sample_matrix] by blast

theorem overall_risk_bounds_witness: "4 \<le> orScore (riskOf valued_portfolio 30 0) \<and> orScore (riskOf valued_portfolio 30 0) \<le> 74"
proof -
  have "\<forall>x \<in> set (pfPositions valued_portfolio). 0 \<le> ppValue x"
    by (simp add: valued_portfolio_def valued_def toDisplayUSD_def PORTFOLIO_PRICE_SCALE_def)
  moreover have "pfPositions valued_portfolio \<noteq> []" by (simp add: valued_portfolio_def)
  ultimately show ?thesis using overall_risk_bounds by blast
qed

end
