(* ===== verification/TaxReporting.thy ===== *)
theory TaxReporting
  imports Treasury Amounts
begin

text \<open>
  \<open>modules/tax-reporting.ts\<close>: the trades of an account as rows, exported as CSV or JSON, the cost basis of a token by
  FIFO or LIFO, and capital gains. A date is its milliseconds until the rows are formatted, and a text afterwards;
  how a time zone prints and the language reads such a text back is in \<open>tax_env\<close>, with the first and last second of a year. The texts of dates of four-digit
  years order as their milliseconds. JSON is written and read back unchanged; its text is a parameter.
\<close>

section \<open>Rows\<close>

datatype row_type = SwapRow | AddRow | RemoveRow

fun row_type_text :: "row_type \<Rightarrow> string" where
  "row_type_text SwapRow = ''swap''"
| "row_type_text AddRow = ''add_liquidity''"
| "row_type_text RemoveRow = ''remove_liquidity''"

record 'd tax_row =
  txDate :: 'd
  txType :: row_type
  txTokenIn :: string
  txAmountIn :: string
  txTokenOut :: string
  txAmountOut :: string
  txFee :: string
  txUsdValue :: string
  txHash :: string

record export_options =
  eoJson :: bool
  eoFrom :: "int option"
  eoTo :: "int option"
  eoZone :: string

record 'w tax_env =
  xtValid :: "string \<Rightarrow> bool"
  xtLedger :: "('w, thrown, int) act"
  xtNowMs :: "'w \<Rightarrow> int"
  xtEvents :: "'w event_env"
  xtAddress :: "scval \<Rightarrow> string option"
  xtFormat :: "string \<Rightarrow> int \<Rightarrow> string"
  xtParse :: "string \<Rightarrow> int option"
  xtJson :: "string tax_row list \<Rightarrow> string"
  xtDay :: "int \<Rightarrow> string"
  xtYear :: "int \<Rightarrow> int \<times> int"

definition CSV_HEADERS :: "string list" where
  "CSV_HEADERS = [''Date'', ''Type'', ''Token In'', ''Amount In'', ''Token Out'', ''Amount Out'', ''Fee'', ''USD Value'', ''Tx Hash'']"

definition TOKEN_DECIMALS :: nat where
  "TOKEN_DECIMALS = 7"

definition TAX_HISTORY_WINDOW :: int where
  "TAX_HISTORY_WINDOW = 86400 div LEDGER_CLOSE_INTERVAL_SECONDS"

definition MAX_HISTORY_EVENTS :: rat where
  "MAX_HISTORY_EVENTS = 200"

definition eventDate :: "ledger_head \<Rightarrow> raw_event \<Rightarrow> int" where
  "eventDate head ev = (case erClosedMs ev of Some ms \<Rightarrow> ms
     | None \<Rightarrow> (case erLedger ev of Some l \<Rightarrow> ledgerToApproxTime l head * 1000 | None \<Rightarrow> 0))"

text \<open>An event that names no account, or the account asked for, counts as the account's.\<close>

definition of_account :: "string \<Rightarrow> string option \<Rightarrow> bool" where
  "of_account address who = (case who of None \<Rightarrow> True | Some a \<Rightarrow> a = address)"

definition swapRow :: "(scval \<Rightarrow> string option) \<Rightarrow> string \<Rightarrow> ledger_head \<Rightarrow> raw_event \<Rightarrow> int tax_row option" where
  "swapRow addr address head ev = (case Option.bind (erValue ev) decodeMapEvent of None \<Rightarrow> None
     | Some m \<Rightarrow> if \<not> of_account address (readAddress addr m ''sender'') then None
       else (let amountIn = or_else (readI128 m ''amount_in'') 0; amountOut = or_else (readI128 m ''amount_out'') 0;
           feeAmount = amountIn * or_else (readU32 m ''fee_bps'') 0 sdiv 10000
         in Some \<lparr>txDate = eventDate head ev, txType = SwapRow, txTokenIn = or_else (readAddress addr m ''token_in'') [],
           txAmountIn = fromSorobanAmount amountIn TOKEN_DECIMALS, txTokenOut = or_else (readAddress addr m ''token_out'') [],
           txAmountOut = fromSorobanAmount amountOut TOKEN_DECIMALS, txFee = fromSorobanAmount feeAmount TOKEN_DECIMALS,
           txUsdValue = ''0.00'', txHash = or_else (erTxHash ev) []\<rparr>))"

definition liquidityRow :: "(scval \<Rightarrow> string option) \<Rightarrow> string \<Rightarrow> ledger_head \<Rightarrow> raw_event \<Rightarrow> int tax_row option" where
  "liquidityRow addr address head ev = (case Option.bind (erValue ev) decodeMapEvent of None \<Rightarrow> None
     | Some m \<Rightarrow> if \<not> of_account address (readAddress addr m ''provider'') then None
       else Some \<lparr>txDate = eventDate head ev, txType = (if topicName ev = ''add_liquidity'' then AddRow else RemoveRow),
           txTokenIn = or_else (readAddress addr m ''token_a'') [],
           txAmountIn = fromSorobanAmount (or_else (readI128 m ''amount_a'') 0) TOKEN_DECIMALS,
           txTokenOut = or_else (readAddress addr m ''token_b'') [],
           txAmountOut = fromSorobanAmount (or_else (readI128 m ''amount_b'') 0) TOKEN_DECIMALS,
           txFee = ''0.0000000'', txUsdValue = ''0.00'', txHash = or_else (erTxHash ev) []\<rparr>)"

text \<open>A scan has a cursor of its own.\<close>

definition fetchEvents :: "('x cursor_state_scheme) tax_env \<Rightarrow> nat \<Rightarrow> int \<Rightarrow> string \<Rightarrow> 'x cursor_state_scheme \<Rightarrow>
    ((thrown + raw_event list) \<times> 'x cursor_state_scheme) option" where
  "fetchEvents e fuel startLedger topic w = map_option (\<lambda>(r, w1). (map_sum id scanEvents r, w1))
     (scan (xtEvents e) (newCursorOptions None None) fuel
       \<lparr>spContracts = None, spTopics = Some [topic], spFrom = Some startLedger, spTo = None, spLimit = Some MAX_HISTORY_EVENTS\<rparr> (reset w))"

definition fetchSwapEvents :: "('x cursor_state_scheme) tax_env \<Rightarrow> nat \<Rightarrow> string \<Rightarrow> int \<Rightarrow> ledger_head \<Rightarrow> 'x cursor_state_scheme \<Rightarrow>
    ((thrown + int tax_row list) \<times> 'x cursor_state_scheme) option" where
  "fetchSwapEvents e fuel address startLedger head w = map_option (\<lambda>(r, w1).
     (map_sum id (List.map_filter (swapRow (xtAddress e) address head)) r, w1)) (fetchEvents e fuel startLedger ''swap'' w)"

definition fetchLiquidityEvents :: "('x cursor_state_scheme) tax_env \<Rightarrow> nat \<Rightarrow> string \<Rightarrow> int \<Rightarrow> ledger_head \<Rightarrow> 'x cursor_state_scheme \<Rightarrow>
    ((thrown + int tax_row list) \<times> 'x cursor_state_scheme) option" where
  "fetchLiquidityEvents e fuel address startLedger head w = (case fetchEvents e fuel startLedger ''add_liquidity'' w of
       None \<Rightarrow> None | Some (Inl x, w1) \<Rightarrow> Some (Inl x, w1)
     | Some (Inr added, w1) \<Rightarrow> map_option (\<lambda>(r, w2). (map_sum id (\<lambda>removed.
         List.map_filter (liquidityRow (xtAddress e) address head) (added @ removed)) r, w2)) (fetchEvents e fuel startLedger ''remove_liquidity'' w1))"

definition by_date :: "int tax_row \<Rightarrow> int tax_row \<Rightarrow> int" where
  "by_date a b = (if txDate a < txDate b then -1 else if txDate b < txDate a then 1 else 0)"

definition in_range :: "export_options \<Rightarrow> int \<Rightarrow> bool" where
  "in_range opts d \<longleftrightarrow> (case eoFrom opts of None \<Rightarrow> True | Some f \<Rightarrow> f \<le> d) \<and> (case eoTo opts of None \<Rightarrow> True | Some t \<Rightarrow> d \<le> t)"

definition formatRow :: "(int \<Rightarrow> string) \<Rightarrow> int tax_row \<Rightarrow> string tax_row" where
  "formatRow f r = \<lparr>txDate = f (txDate r), txType = txType r, txTokenIn = txTokenIn r, txAmountIn = txAmountIn r, txTokenOut = txTokenOut r,
     txAmountOut = txAmountOut r, txFee = txFee r, txUsdValue = txUsdValue r, txHash = txHash r\<rparr>"

text \<open>The rows that are exported, in either format.\<close>

definition historyRows :: "('x cursor_state_scheme) tax_env \<Rightarrow> nat \<Rightarrow> string \<Rightarrow> export_options \<Rightarrow> 'x cursor_state_scheme \<Rightarrow>
    ((thrown + string tax_row list) \<times> 'x cursor_state_scheme) option" where
  "historyRows e fuel address opts w = (case bindW (liftW (validateAddress (xtValid e) address ''address'')) (\<lambda>_. xtLedger e) w of
       (Inl x, w1) \<Rightarrow> Some (Inl x, w1)
     | (Inr current, w1) \<Rightarrow> (let startLedger = max MIN_START_LEDGER (current - TAX_HISTORY_WINDOW);
           head = \<lparr>lhLedger = current, lhCloseTime = xtNowMs e w1 div 1000\<rparr>
         in case fetchSwapEvents e fuel address startLedger head w1 of
              None \<Rightarrow> None | Some (Inl x, w2) \<Rightarrow> Some (Inl x, w2)
            | Some (Inr swaps, w2) \<Rightarrow> map_option (\<lambda>(r, w3). (map_sum id (\<lambda>liquidity.
                map (formatRow (xtFormat e (eoZone opts))) (filter (\<lambda>r. in_range opts (txDate r)) (sort_by by_date (swaps @ liquidity)))) r, w3))
                (fetchLiquidityEvents e fuel address startLedger head w2)))"

section \<open>The text\<close>

definition escapeCSV :: "string \<Rightarrow> string" where
  "escapeCSV s = (if CHR '','' \<in> set s \<or> CHR 0x22 \<in> set s \<or> CHR 0x0A \<in> set s
     then [CHR 0x22] @ concat (map (\<lambda>c. if c = CHR 0x22 then [c, c] else [c]) s) @ [CHR 0x22] else s)"

definition rowFields :: "string tax_row \<Rightarrow> string list" where
  "rowFields r = [txDate r, row_type_text (txType r), txTokenIn r, txAmountIn r, txTokenOut r, txAmountOut r, txFee r, txUsdValue r, txHash r]"

definition toCSV :: "string tax_row list \<Rightarrow> string" where
  "toCSV rows = join_str [CHR 0x0A] (join_str '','' CSV_HEADERS # map (\<lambda>r. join_str '','' (map escapeCSV (rowFields r))) rows)"

definition exportTradeHistory :: "('x cursor_state_scheme) tax_env \<Rightarrow> nat \<Rightarrow> string \<Rightarrow> export_options \<Rightarrow> 'x cursor_state_scheme \<Rightarrow>
    ((thrown + string) \<times> 'x cursor_state_scheme) option" where
  "exportTradeHistory e fuel address opts w = map_option (\<lambda>(r, w1). (map_sum id (if eoJson opts then xtJson e else toCSV) r, w1))
     (historyRows e fuel address opts w)"

text \<open>Applied to texts of \<open>fromSorobanAmount\<close> alone, on which \<open>BigInt\<close> does not throw.\<close>

definition parseAmountToStroops :: "string \<Rightarrow> int" where
  "parseAmountToStroops s = (if s = [] \<or> s = ''0'' \<or> s = ''0.0000000'' then 0
     else let w = before_dot s; f = take TOKEN_DECIMALS (pad_end TOKEN_DECIMALS (after_dot s));
         whole = (case w of [] \<Rightarrow> 0 | c # cs \<Rightarrow> if c = CHR ''-'' then - int (parse_nat cs) else int (parse_nat w))
       in if 0 \<le> whole then whole * 10 ^ TOKEN_DECIMALS + int (parse_nat f) else whole * 10 ^ TOKEN_DECIMALS - int (parse_nat f))"

section \<open>Cost basis\<close>

record tax_lot =
  ltDate :: string
  ltQty :: int
  ltCost :: int
  ltTx :: string

record disposal =
  dpDate :: string
  dpQuantity :: string
  dpCostBasis :: string
  dpSalePrice :: string
  dpGain :: string
  dpLoss :: string
  dpTx :: string

record cost_basis =
  cbToken :: string
  cbQuantity :: string
  cbCost :: string
  cbAverage :: string
  cbFifo :: bool
  cbDisposals :: "disposal list"

definition takeQty :: "tax_lot \<Rightarrow> int \<Rightarrow> int" where
  "takeQty l r = (if ltQty l < r then ltQty l else r)"

definition lotCost :: "tax_lot \<Rightarrow> int \<Rightarrow> int" where
  "lotCost l q = q * ltCost l sdiv ltQty l"

definition drawn :: "tax_lot \<Rightarrow> int \<Rightarrow> tax_lot" where
  "drawn l q = l\<lparr>ltQty := ltQty l - q, ltCost := ltCost l - lotCost l q\<rparr>"

text \<open>FIFO runs over the list of lots itself; a lot that is used up shifts the list and the index stays.\<close>

function fifoLoop :: "tax_lot list \<Rightarrow> nat \<Rightarrow> int \<Rightarrow> int \<Rightarrow> tax_lot list \<times> int \<times> int" where
  "fifoLoop lots i r basis = (if i < length lots \<and> 0 < r then
     (let l = lots ! i in if ltQty l \<le> 0 then fifoLoop lots (Suc i) r basis
      else let q = takeQty l r; lots' = lots[i := drawn l q]
        in if ltQty l = q then fifoLoop (tl lots') i (r - q) (basis + lotCost l q)
           else fifoLoop lots' (Suc i) (r - q) (basis + lotCost l q))
     else (lots, r, basis))"
  by pat_completeness auto

termination
  by (relation "measure (\<lambda>(lots, i, r, basis). length lots - i)") auto

text \<open>LIFO runs over a reversed copy, whose lots are the same objects: here \<open>lots\<close> are the objects, \<open>k\<close> the length of
  the list that \<open>pop\<close> shortens. After a pop the index stays at a lot that is used up, which the next round skips.\<close>

function lifoLoop :: "tax_lot list \<Rightarrow> nat \<Rightarrow> nat \<Rightarrow> int \<Rightarrow> int \<Rightarrow> tax_lot list \<times> nat \<times> int \<times> int" where
  "lifoLoop lots k i r basis = (if i < length lots \<and> 0 < r then
     (let j = length lots - 1 - i; l = lots ! j in if ltQty l \<le> 0 then lifoLoop lots k (Suc i) r basis
      else let q = takeQty l r; lots' = lots[j := drawn l q]
        in if ltQty l = q then lifoLoop lots' (k - 1) i (r - q) (basis + lotCost l q)
           else lifoLoop lots' k (Suc i) (r - q) (basis + lotCost l q))
     else (lots, k, r, basis))"
  by pat_completeness auto

termination
  by (relation "measure (\<lambda>(lots, k, i, r, basis). 2 * (length lots - i) + (if i < length lots \<and> 0 < ltQty (lots ! (length lots - 1 - i)) then 1 else 0))")
    (auto simp: drawn_def)

declare fifoLoop.simps [simp del] lifoLoop.simps [simp del]

definition dispose :: "bool \<Rightarrow> tax_lot list \<Rightarrow> int \<Rightarrow> tax_lot list \<times> int" where
  "dispose fifo lots qty = (if fifo then let (lots', r, basis) = fifoLoop lots 0 qty 0 in (lots', basis)
     else let (lots', k, r, basis) = lifoLoop lots (length lots) 0 qty 0 in (take k lots', basis))"

definition disposalOf :: "string tax_row \<Rightarrow> int \<Rightarrow> disposal" where
  "disposalOf row basis = (let sale = parseAmountToStroops (txAmountOut row); gain = sale - basis in
     \<lparr>dpDate = txDate row, dpQuantity = fromSorobanAmount (parseAmountToStroops (txAmountIn row)) TOKEN_DECIMALS,
       dpCostBasis = fromSorobanAmount basis TOKEN_DECIMALS, dpSalePrice = fromSorobanAmount sale TOKEN_DECIMALS,
       dpGain = (if 0 < gain then fromSorobanAmount gain TOKEN_DECIMALS else ''0.0000000''),
       dpLoss = (if gain < 0 then fromSorobanAmount (- gain) TOKEN_DECIMALS else ''0.0000000''), dpTx = txHash row\<rparr>)"

record basis_state =
  bsLots :: "tax_lot list"
  bsDisposals :: "disposal list"
  bsQuantity :: int
  bsCost :: int

definition basisStep :: "bool \<Rightarrow> string \<Rightarrow> string tax_row \<Rightarrow> basis_state \<Rightarrow> basis_state" where
  "basisStep fifo token row s =
    (if txType row = SwapRow \<and> txTokenOut row = token then
       (let qty = parseAmountToStroops (txAmountOut row); cost = parseAmountToStroops (txAmountIn row) + parseAmountToStroops (txFee row)
        in s\<lparr>bsLots := bsLots s @ [\<lparr>ltDate = txDate row, ltQty = qty, ltCost = cost, ltTx = txHash row\<rparr>],
             bsQuantity := bsQuantity s + qty, bsCost := bsCost s + cost\<rparr>)
     else if txType row = SwapRow \<and> txTokenIn row = token then
       (let qty = parseAmountToStroops (txAmountIn row); (lots, basis) = dispose fifo (bsLots s) qty
        in s\<lparr>bsLots := lots, bsDisposals := bsDisposals s @ [disposalOf row basis], bsQuantity := bsQuantity s - qty\<rparr>)
     else s)"

definition no_basis :: basis_state where
  "no_basis = \<lparr>bsLots = [], bsDisposals = [], bsQuantity = 0, bsCost = 0\<rparr>"

definition costBasisOf :: "string \<Rightarrow> bool \<Rightarrow> basis_state \<Rightarrow> cost_basis" where
  "costBasisOf token fifo s = \<lparr>cbToken = token, cbQuantity = fromSorobanAmount (bsQuantity s) TOKEN_DECIMALS,
     cbCost = fromSorobanAmount (bsCost s) TOKEN_DECIMALS,
     cbAverage = (if 0 < bsQuantity s then fromSorobanAmount (bsCost s sdiv bsQuantity s) TOKEN_DECIMALS else ''0.0000000''),
     cbFifo = fifo, cbDisposals = bsDisposals s\<rparr>"

definition getCostBasis :: "('x cursor_state_scheme) tax_env \<Rightarrow> nat \<Rightarrow> string \<Rightarrow> string \<Rightarrow> bool \<Rightarrow> export_options \<Rightarrow> 'x cursor_state_scheme \<Rightarrow>
    ((thrown + cost_basis) \<times> 'x cursor_state_scheme) option" where
  "getCostBasis e fuel address token fifo opts w =
     (case bindW (liftW (validateAddress (xtValid e) address ''address'')) (\<lambda>_. liftW (validateAddress (xtValid e) token ''token'')) w of
       (Inl x, w1) \<Rightarrow> Some (Inl x, w1)
     | (Inr _, w1) \<Rightarrow> map_option (\<lambda>(r, w2). (map_sum id (\<lambda>rows. costBasisOf token fifo (fold (basisStep fifo token) rows no_basis)) r, w2))
         (historyRows e fuel address (opts\<lparr>eoJson := True\<rparr>) w1))"

section \<open>Capital gains\<close>

record gains =
  gnShortGains :: int
  gnShortLosses :: int
  gnLongGains :: int
  gnLongLosses :: int

record capital_gains =
  cgStart :: string
  cgEnd :: string
  cgShortGains :: string
  cgShortLosses :: string
  cgLongGains :: string
  cgLongLosses :: string
  cgGain :: string
  cgLoss :: string
  cgNet :: string

definition no_gains :: gains where
  "no_gains = \<lparr>gnShortGains = 0, gnShortLosses = 0, gnLongGains = 0, gnLongLosses = 0\<rparr>"

text \<open>A date that cannot be read makes the days held NaN, which is not more than 365.\<close>

definition longTerm :: "(string \<Rightarrow> int option) \<Rightarrow> string \<Rightarrow> string \<Rightarrow> bool" where
  "longTerm read_date bought sold = (case (read_date bought, read_date sold) of (Some a, Some b) \<Rightarrow> 365 * 86400000 < b - a | _ \<Rightarrow> False)"

definition addGain :: "bool \<Rightarrow> int \<Rightarrow> gains \<Rightarrow> gains" where
  "addGain long g s = (if long then if 0 < g then s\<lparr>gnLongGains := gnLongGains s + g\<rparr> else s\<lparr>gnLongLosses := gnLongLosses s + (- g)\<rparr>
     else if 0 < g then s\<lparr>gnShortGains := gnShortGains s + g\<rparr> else s\<lparr>gnShortLosses := gnShortLosses s + (- g)\<rparr>)"

text \<open>The quantity sold, \<open>sold\<close>, is the same for every lot.\<close>

function gainsLoop :: "(string \<Rightarrow> int option) \<Rightarrow> string \<Rightarrow> int \<Rightarrow> int \<Rightarrow> tax_lot list \<Rightarrow> nat \<Rightarrow> gains \<Rightarrow> tax_lot list \<times> gains" where
  "gainsLoop read_date date sold proceeds lots i s = (if i < length lots \<and> 0 < sold then
     (let l = lots ! i in if ltQty l \<le> 0 then gainsLoop read_date date sold proceeds lots (Suc i) s
      else let q = takeQty l sold; s' = addGain (longTerm read_date (ltDate l) date) (q * proceeds sdiv sold - lotCost l q) s
        in if ltQty l - q \<le> 0 then gainsLoop read_date date sold proceeds (take i lots @ drop (Suc i) lots) i s'
           else gainsLoop read_date date sold proceeds (lots[i := drawn l q]) (Suc i) s')
     else (lots, s))"
  by pat_completeness auto

termination
  by (relation "measure (\<lambda>(read_date, date, sold, proceeds, lots, i, s). length lots - i)") auto

declare gainsLoop.simps [simp del]

definition gainsStep :: "(string \<Rightarrow> int option) \<Rightarrow> string tax_row \<Rightarrow> tax_lot list js_map \<times> gains \<Rightarrow> tax_lot list js_map \<times> gains" where
  "gainsStep read_date row acc = (if txType row \<noteq> SwapRow then acc
     else let bought = \<lparr>ltDate = txDate row, ltQty = parseAmountToStroops (txAmountOut row),
           ltCost = parseAmountToStroops (txAmountIn row) + parseAmountToStroops (txFee row), ltTx = txHash row\<rparr>;
         held = js_set (fst acc) (txTokenOut row) (or_else (js_get (fst acc) (txTokenOut row)) [] @ [bought])
       in case js_get held (txTokenIn row) of None \<Rightarrow> (held, snd acc)
          | Some lots \<Rightarrow> let (lots', s') = gainsLoop read_date (txDate row) (parseAmountToStroops (txAmountIn row))
                (parseAmountToStroops (txAmountOut row)) lots 0 (snd acc)
              in (js_set held (txTokenIn row) lots', s'))"

definition gainsReport :: "string \<Rightarrow> string \<Rightarrow> gains \<Rightarrow> capital_gains" where
  "gainsReport a b s = (let show_amount = (\<lambda>n. fromSorobanAmount n TOKEN_DECIMALS) in
     \<lparr>cgStart = a, cgEnd = b, cgShortGains = show_amount (gnShortGains s), cgShortLosses = show_amount (gnShortLosses s),
      cgLongGains = show_amount (gnLongGains s), cgLongLosses = show_amount (gnLongLosses s),
      cgGain = show_amount (gnShortGains s + gnLongGains s), cgLoss = show_amount (gnShortLosses s + gnLongLosses s),
      cgNet = show_amount (gnShortGains s + gnLongGains s - gnShortLosses s - gnLongLosses s)\<rparr>)"

definition getCapitalGains :: "('x cursor_state_scheme) tax_env \<Rightarrow> nat \<Rightarrow> string \<Rightarrow> int \<Rightarrow> export_options \<Rightarrow> 'x cursor_state_scheme \<Rightarrow>
    ((thrown + capital_gains) \<times> 'x cursor_state_scheme) option" where
  "getCapitalGains e fuel address taxYear opts w =
     (case liftW (validateAddress (xtValid e) address ''address'') w of (Inl x, w1) \<Rightarrow> Some (Inl x, w1)
     | (Inr _, w1) \<Rightarrow> (let startDate = or_else (eoFrom opts) (fst (xtYear e taxYear)); endDate = or_else (eoTo opts) (snd (xtYear e taxYear)) in
         map_option (\<lambda>(r, w2). (map_sum id (\<lambda>rows. gainsReport (xtDay e startDate) (xtDay e endDate)
           (snd (fold (gainsStep (xtParse e)) rows ([], no_gains)))) r, w2))
         (historyRows e fuel address \<lparr>eoJson = True, eoFrom = Some startDate, eoTo = Some endDate, eoZone = eoZone opts\<rparr> w1)))"

section \<open>Amounts printed and read\<close>

lemma before_dot_digits: "list_all is_digit w \<Longrightarrow> before_dot (w @ CHR ''.'' # f) = w"
  unfolding before_dot_def by (subst takeWhile_append2) (auto simp: list_all_iff decimal_simps is_digit_def)

lemma after_dot_digits: "list_all is_digit w \<Longrightarrow> list_all is_digit f \<Longrightarrow> after_dot (w @ CHR ''.'' # f) = f"
  unfolding after_dot_def before_dot_def by (subst dropWhile_append2) (auto simp: list_all_iff is_digit_def takeWhile_eq_all_conv)

lemma parse_zero: "parse_nat ''0'' = 0" "parse_nat ''00000000'' = 0"
  by code_simp+

text \<open>An amount that is printed is read back, but for the sign of one above \<open>-1\<close>.\<close>

lemma parse_amount: "parseAmountToStroops (fromSorobanAmount n TOKEN_DECIMALS) = (if - (10 ^ 7) < n \<and> n < 0 then - n else n)"
proof -
  obtain w f where r: "fromSorobanAmount n 7 = (if n < 0 then ''-'' @ unsigned_str w f else unsigned_str w f)"
    and d: "list_all is_digit w" "list_all is_digit f" "w \<noteq> []" "length f = 7" and p: "parse_nat (w @ f) = nat \<bar>n\<bar>"
    using fromSoroban_unsigned by blast
  have f: "f \<noteq> []" using d(4) by auto
  have u: "unsigned_str w f = w @ CHR ''.'' # f" using f by (simp add: unsigned_str_def)
  have val: "int (parse_nat w) * 10 ^ 7 + int (parse_nat f) = \<bar>n\<bar>" using p d(4) by (simp add: parse_nat_append)
  have fb: "parse_nat f < 10 ^ 7" using parse_nat_bound[of f] d(2,4) by (simp add: list_all_iff)
  have pe: "take 7 (pad_end 7 f) = f" using d(4) by (simp add: pad_end_def)
  obtain c cs where w: "w = c # cs" "is_digit c" using d(1,3) by (cases w) auto
  then have c: "c \<noteq> CHR ''-''" by (auto simp: is_digit_def)
  have T: "TOKEN_DECIMALS = 7" by (simp add: TOKEN_DECIMALS_def)
  show ?thesis
  proof (cases "n < 0")
    case True
    have "before_dot (CHR ''-'' # w @ CHR ''.'' # f) = CHR ''-'' # w" using before_dot_digits[OF d(1), of f] by (simp add: before_dot_def)
    moreover have "after_dot (CHR ''-'' # w @ CHR ''.'' # f) = f" using after_dot_digits[OF d(1,2)] by (simp add: after_dot_def)
    ultimately have "parseAmountToStroops (CHR ''-'' # w @ CHR ''.'' # f) =
        (if parse_nat w = 0 then int (parse_nat f) else - int (parse_nat w) * 10 ^ 7 - int (parse_nat f))"
      by (simp add: parseAmountToStroops_def T Let_def pe)
    moreover have "parse_nat w = 0 \<longleftrightarrow> - (10 ^ 7) < n"
    proof
      assume "- (10 ^ 7) < n"
      then have "int (parse_nat w) * 10 ^ 7 < 1 * 10 ^ 7" using val True by simp
      then show "parse_nat w = 0" by simp
    qed (use val fb True in simp)
    ultimately show ?thesis using True r u val unfolding T by (cases "parse_nat w = 0") simp_all
  next
    case False
    have z: "w @ CHR ''.'' # f = ''0.0000000'' \<Longrightarrow> n = 0"
    proof -
      assume a: "w @ CHR ''.'' # f = ''0.0000000''"
      have "w = ''0''" using arg_cong[OF a, of before_dot] before_dot_digits[OF d(1), of f] by (simp add: before_dot_def)
      moreover have "f = ''0000000''" using arg_cong[OF a, of after_dot] after_dot_digits[OF d(1,2)] by (simp add: after_dot_def before_dot_def)
      ultimately show "n = 0" using p parse_zero(2) by simp
    qed
    have n0: "w @ CHR ''.'' # f \<noteq> ''0''" "w @ CHR ''.'' # f \<noteq> []" using f by (cases w; auto)+
    have "parseAmountToStroops (w @ CHR ''.'' # f) = int (parse_nat w) * 10 ^ 7 + int (parse_nat f)" if "w @ CHR ''.'' # f \<noteq> ''0.0000000''"
    proof -
      have cond: "\<not> (w @ CHR ''.'' # f = [] \<or> w @ CHR ''.'' # f = ''0'' \<or> w @ CHR ''.'' # f = ''0.0000000'')" using n0 that by blast
      show ?thesis unfolding parseAmountToStroops_def if_not_P[OF cond] before_dot_digits[OF d(1)] after_dot_digits[OF d(1,2)]
        using c by (simp add: T Let_def pe w(1))
    qed
    moreover have "parseAmountToStroops ''0.0000000'' = 0" by (simp add: parseAmountToStroops_def)
    ultimately show ?thesis using False r u val z unfolding T by (cases "w @ CHR ''.'' # f = ''0.0000000''") auto
  qed
qed

theorem parse_amount_roundtrip:
  "parseAmountToStroops (fromSorobanAmount n TOKEN_DECIMALS) = n \<longleftrightarrow> \<not> (- (10 ^ 7) < n \<and> n < 0)"
  unfolding parse_amount by auto

section \<open>The text is read back\<close>

text \<open>A reader of the format: a field in quotes ends at a quote that is not doubled.\<close>

fun readCSV :: "bool \<Rightarrow> string \<Rightarrow> string \<Rightarrow> string list \<Rightarrow> string list list" where
  "readCSV in_q [] field0 fs = [fs @ [field0]]"
| "readCSV False (c # s) field0 fs = (if c = CHR '','' then readCSV False s [] (fs @ [field0])
     else if c = CHR 0x0A then (fs @ [field0]) # readCSV False s [] []
     else if c = CHR 0x22 \<and> field0 = [] then readCSV True s [] fs else readCSV False s (field0 @ [c]) fs)"
| "readCSV True (c # s) field0 fs = (if c \<noteq> CHR 0x22 then readCSV True s (field0 @ [c]) fs
     else if s \<noteq> [] \<and> hd s = CHR 0x22 then readCSV True (tl s) (field0 @ [c]) fs else readCSV False s field0 fs)"

lemma read_plain: "CHR '','' \<notin> set s \<Longrightarrow> CHR 0x22 \<notin> set s \<Longrightarrow> CHR 0x0A \<notin> set s \<Longrightarrow>
    readCSV False (s @ rest) a fs = readCSV False rest (a @ s) fs"
  by (induction s arbitrary: a) auto

lemma read_quoted: "rest = [] \<or> hd rest \<noteq> CHR 0x22 \<Longrightarrow>
    readCSV True (concat (map (\<lambda>c. if c = CHR 0x22 then [c, c] else [c]) s) @ CHR 0x22 # rest) a fs = readCSV False rest (a @ s) fs"
  by (induction s arbitrary: a) auto

lemma read_field: "rest = [] \<or> hd rest \<noteq> CHR 0x22 \<Longrightarrow> readCSV False (escapeCSV s @ rest) [] fs = readCSV False rest s fs"
  using read_quoted[of rest s "[]" fs] read_plain[of s rest "[]" fs] by (auto simp: escapeCSV_def)

lemma read_row: "rest = [] \<or> hd rest = CHR 0x0A \<Longrightarrow>
    readCSV False (join_str '','' (map escapeCSV (x # xs)) @ rest) [] fs = readCSV False rest (last (x # xs)) (fs @ butlast (x # xs))"
proof (induction xs arbitrary: x fs)
  case Nil
  then show ?case using read_field[of rest x fs] by auto
next
  case (Cons y ys)
  have "readCSV False (escapeCSV x @ CHR '','' # join_str '','' (map escapeCSV (y # ys)) @ rest) [] fs =
      readCSV False (join_str '','' (map escapeCSV (y # ys)) @ rest) [] (fs @ [x])"
    using read_field[of "CHR '','' # join_str '','' (map escapeCSV (y # ys)) @ rest" x fs] by simp
  then show ?case using Cons.IH[OF Cons.prems, of y "fs @ [x]"] by simp
qed

lemma read_rows: "list_all (\<lambda>fs. fs \<noteq> []) (r # rs) \<Longrightarrow>
    readCSV False (join_str [CHR 0x0A] (map (\<lambda>fs. join_str '','' (map escapeCSV fs)) (r # rs))) [] [] = r # rs"
proof (induction rs arbitrary: r)
  case Nil
  then show ?case using read_row[of "[]" "hd r" "tl r" "[]"] by (cases r) auto
next
  case (Cons q rs)
  obtain x xs where r: "r = x # xs" using Cons.prems by (cases r) auto
  show ?case using Cons.IH[of q] Cons.prems
      read_row[of "CHR 0x0A # join_str [CHR 0x0A] (map (\<lambda>fs. join_str '','' (map escapeCSV fs)) (q # rs))" x xs "[]"]
    by (simp add: r)
qed

theorem csv_roundtrip: "readCSV False (toCSV rows) [] [] = CSV_HEADERS # map rowFields rows"
proof -
  have h: "map escapeCSV CSV_HEADERS = CSV_HEADERS" by code_simp
  have "toCSV rows = join_str [CHR 0x0A] (map (\<lambda>fs. join_str '','' (map escapeCSV fs)) (CSV_HEADERS # map rowFields rows))"
    by (simp add: toCSV_def h comp_def)
  then show ?thesis using read_rows[of CSV_HEADERS "map rowFields rows"]
    by (simp add: list_all_iff rowFields_def) (simp add: CSV_HEADERS_def)
qed

section \<open>Cost basis\<close>

definition good_lots :: "tax_lot list \<Rightarrow> bool" where
  "good_lots lots \<longleftrightarrow> list_all (\<lambda>l. 0 < ltQty l \<and> 0 \<le> ltCost l) lots"

text \<open>What a disposal should do: use up the lots in order, the last one in part.\<close>

fun consume :: "tax_lot list \<Rightarrow> int \<Rightarrow> tax_lot list \<times> int \<times> int" where
  "consume [] r = ([], r, 0)"
| "consume (l # ls) r = (if r \<le> 0 then (l # ls, r, 0)
     else if ltQty l \<le> r then let (ls', r', b) = consume ls (r - ltQty l) in (ls', r', ltCost l + b)
     else (drawn l r # ls, 0, lotCost l r))"

lemma lotCost_all: "0 < ltQty l \<Longrightarrow> lotCost l (ltQty l) = ltCost l"
  by (simp add: lotCost_def signed_divide_int_def sgn_mult abs_mult mult_sgn_abs)

lemma fifo_consume: "good_lots lots \<Longrightarrow> fifoLoop lots 0 r b = (let (ls, r', c) = consume lots r in (ls, r', b + c))"
proof (induction lots arbitrary: r b)
  case Nil
  show ?case by (subst fifoLoop.simps) simp
next
  case (Cons l lots)
  have g: "0 < ltQty l" "good_lots lots" using Cons.prems by (auto simp: good_lots_def)
  show ?case
  proof (cases "0 < r")
    case False
    then show ?thesis by (subst fifoLoop.simps) simp
  next
    case r: True
    show ?thesis
    proof (cases "ltQty l \<le> r")
      case True
      have "fifoLoop (l # lots) 0 r b = fifoLoop lots 0 (r - ltQty l) (b + ltCost l)"
        using True r g(1) by (subst fifoLoop.simps) (auto simp: takeQty_def lotCost_all)
      then show ?thesis using True r Cons.IH[OF g(2)] by (simp add: Let_def split: prod.splits)
    next
      case False
      have "fifoLoop (l # lots) 0 r b = fifoLoop (drawn l r # lots) (Suc 0) 0 (b + lotCost l r)"
        using False r g(1) by (subst fifoLoop.simps) (auto simp: takeQty_def)
      also have "\<dots> = (drawn l r # lots, 0, b + lotCost l r)" by (subst fifoLoop.simps) simp
      finally show ?thesis using False r by simp
    qed
  qed
qed

lemma lifo_consume: "good_lots lots \<Longrightarrow> list_all (\<lambda>l. ltQty l = 0) zs \<Longrightarrow>
    \<exists>zs'. lifoLoop (List.rev lots @ zs) (length lots) (length zs) r b =
      (let (ls, r', c) = consume lots r in (List.rev ls @ zs', length ls, r', b + c))"
proof (induction lots arbitrary: r b zs)
  case Nil
  have "lifoLoop zs 0 (length zs) r b = (zs, 0, r, b)" by (subst lifoLoop.simps) simp
  then show ?case by simp
next
  case (Cons l lots)
  have g: "0 < ltQty l" "good_lots lots" using Cons.prems(1) by (auto simp: good_lots_def)
  let ?all = "List.rev (l # lots) @ zs"
  have at: "?all ! (length ?all - 1 - length zs) = l" by (simp add: nth_append)
  have upd: "?all[length ?all - 1 - length zs := x] = List.rev lots @ x # zs" for x by (simp add: list_update_append)
  show ?case
  proof (cases "0 < r")
    case False
    have "lifoLoop ?all (length (l # lots)) (length zs) r b = (?all, length (l # lots), r, b)"
      using False by (subst lifoLoop.simps) simp
    then show ?thesis using False by (intro exI[of _ zs]) simp
  next
    case r: True
    show ?thesis
    proof (cases "ltQty l \<le> r")
      case True
      let ?z = "drawn l (ltQty l)"
      have z: "ltQty ?z = 0" by (simp add: drawn_def)
      have s1: "lifoLoop ?all (length (l # lots)) (length zs) r b =
          lifoLoop (List.rev lots @ ?z # zs) (length lots) (length zs) (r - ltQty l) (b + ltCost l)"
        using True r g(1) at upd by (subst lifoLoop.simps) (simp add: takeQty_def lotCost_all Let_def)
      have "lifoLoop (List.rev lots @ ?z # zs) (length lots) (length zs) (r - ltQty l) (b + ltCost l) =
          lifoLoop (List.rev lots @ ?z # zs) (length lots) (length (?z # zs)) (r - ltQty l) (b + ltCost l)"
      proof (cases "0 < r - ltQty l")
        case True
        then show ?thesis using z by (subst lifoLoop.simps) (simp add: nth_append)
      next
        case False
        have "lifoLoop X k i (r - ltQty l) c = (X, k, r - ltQty l, c)" for X k i c using False by (subst lifoLoop.simps) simp
        then show ?thesis by simp
      qed
      moreover obtain zs' where "lifoLoop (List.rev lots @ ?z # zs) (length lots) (length (?z # zs)) (r - ltQty l) (b + ltCost l) =
          (let (ls, r', c) = consume lots (r - ltQty l) in (List.rev ls @ zs', length ls, r', b + ltCost l + c))"
        using Cons.IH[OF g(2), of "?z # zs" "r - ltQty l" "b + ltCost l"] Cons.prems(2) z by auto
      ultimately show ?thesis using True r s1 by (intro exI[of _ zs']) (simp add: Let_def split: prod.splits)
    next
      case False
      have "lifoLoop ?all (length (l # lots)) (length zs) r b =
          lifoLoop (List.rev lots @ drawn l r # zs) (Suc (length lots)) (Suc (length zs)) 0 (b + lotCost l r)"
        using False r g(1) at upd by (subst lifoLoop.simps) (simp add: takeQty_def Let_def)
      also have "\<dots> = (List.rev lots @ drawn l r # zs, Suc (length lots), 0, b + lotCost l r)" by (subst lifoLoop.simps) simp
      finally show ?thesis using False r by (intro exI[of _ zs]) simp
    qed
  qed
qed

lemma dispose_consume:
  assumes "good_lots lots"
  shows "dispose fifo lots q = (let (ls, r, b) = consume (if fifo then lots else List.rev lots) q in (if fifo then ls else List.rev ls, b))"
proof (cases fifo)
  case True
  then show ?thesis using fifo_consume[OF assms, of q 0] by (simp add: dispose_def Let_def split: prod.splits)
next
  case False
  have g: "good_lots (List.rev lots)" using assms by (simp add: good_lots_def)
  obtain zs where "lifoLoop lots (length lots) 0 q 0 = (let (ls, r', c) = consume (List.rev lots) q in (List.rev ls @ zs, length ls, r', c))"
    using lifo_consume[OF g, of "[]" q 0] by auto
  then show ?thesis using False by (simp add: dispose_def Let_def split: prod.splits)
qed

text \<open>C32: With lots of positive quantity, the loops over the list and over its reversed copy do what they should: FIFO uses
  up the lots from the front, LIFO from the back.\<close>

theorem dispose_refines:
  assumes "good_lots lots"
  shows "dispose fifo lots q = (let (ls, r, b) = consume (if fifo then lots else List.rev lots) q in (if fifo then ls else List.rev ls, b))"
  by (rule dispose_consume[OF assms])

definition lot_sum :: "(tax_lot \<Rightarrow> int) \<Rightarrow> tax_lot list \<Rightarrow> int" where
  "lot_sum f lots = sum_list (map f lots)"

lemma lot_sum_simps [simp]: "lot_sum f [] = 0" "lot_sum f (l # ls) = f l + lot_sum f ls" "lot_sum f (xs @ ys) = lot_sum f xs + lot_sum f ys"
  "lot_sum f (List.rev xs) = lot_sum f xs"
  by (simp_all add: lot_sum_def rev_map[symmetric])

lemma drawn_good:
  assumes "0 \<le> ltCost l" and "0 < r" and "r < ltQty l"
  shows "0 < ltQty (drawn l r)" and "0 \<le> ltCost (drawn l r)" and "0 \<le> lotCost l r"
proof -
  have c: "lotCost l r = r * ltCost l div ltQty l" using assms by (simp add: lotCost_def sdiv_nonneg)
  have "r * ltCost l \<le> ltQty l * ltCost l" using assms by (intro mult_right_mono) auto
  then have "r * ltCost l div ltQty l \<le> ltQty l * ltCost l div ltQty l" using assms by (intro zdiv_mono1) auto
  then show "0 < ltQty (drawn l r)" "0 \<le> ltCost (drawn l r)" "0 \<le> lotCost l r"
    using assms by (auto simp: drawn_def c pos_imp_zdiv_nonneg_iff)
qed

lemma consume_props:
  assumes "good_lots lots" and "0 \<le> r" and "consume lots r = (ls, r', b)"
  shows "good_lots ls \<and> 0 \<le> r' \<and> 0 \<le> b \<and> lot_sum ltQty ls + r = lot_sum ltQty lots + r' \<and> lot_sum ltCost ls + b = lot_sum ltCost lots"
  using assms
proof (induction lots arbitrary: r ls r' b)
  case (Cons l lots)
  have g: "0 < ltQty l" "0 \<le> ltCost l" "good_lots lots" using Cons.prems(1) by (auto simp: good_lots_def)
  show ?case
  proof (cases "r \<le> 0")
    case True
    then show ?thesis using Cons.prems by auto
  next
    case r: False
    show ?thesis
    proof (cases "ltQty l \<le> r")
      case True
      obtain ls1 r1 b1 where c: "consume lots (r - ltQty l) = (ls1, r1, b1)" by (metis surj_pair)
      then have "ls = ls1" "r' = r1" "b = ltCost l + b1" using Cons.prems(3) r True by auto
      then show ?thesis using Cons.IH[OF g(3) _ c] True g(2) by simp
    next
      case False
      then have "ls = drawn l r # lots" "r' = 0" "b = lotCost l r" using Cons.prems(3) r by auto
      then show ?thesis using drawn_good[of l r] g False r by (simp add: good_lots_def drawn_def)
    qed
  qed
qed simp

lemma dispose_props:
  assumes "good_lots lots" and "0 \<le> q" and "dispose fifo lots q = (ls, b)"
  shows "good_lots ls \<and> 0 \<le> b \<and> lot_sum ltQty lots - q \<le> lot_sum ltQty ls \<and> lot_sum ltCost ls + b = lot_sum ltCost lots"
proof -
  obtain ls1 r b1 where c: "consume (if fifo then lots else List.rev lots) q = (ls1, r, b1)" by (metis surj_pair)
  have g: "good_lots (if fifo then lots else List.rev lots)" using assms(1) by (simp add: good_lots_def)
  have d: "ls = (if fifo then ls1 else List.rev ls1)" "b = b1" using assms(3) c unfolding dispose_consume[OF assms(1)] by auto
  show ?thesis using consume_props[OF g assms(2) c] d by (cases fifo) (auto simp: good_lots_def)
qed

definition sane_row :: "string tax_row \<Rightarrow> bool" where
  "sane_row row \<longleftrightarrow> 0 < parseAmountToStroops (txAmountOut row) \<and> 0 \<le> parseAmountToStroops (txAmountIn row) \<and> 0 \<le> parseAmountToStroops (txFee row)"

definition cost_of_sold :: "basis_state \<Rightarrow> int" where
  "cost_of_sold s = sum_list (map (\<lambda>d. parseAmountToStroops (dpCostBasis d)) (bsDisposals s))"

definition basis_inv :: "basis_state \<Rightarrow> bool" where
  "basis_inv s \<longleftrightarrow> good_lots (bsLots s) \<and> bsCost s = lot_sum ltCost (bsLots s) + cost_of_sold s \<and> bsQuantity s \<le> lot_sum ltQty (bsLots s) \<and>
     list_all (\<lambda>d. 0 \<le> parseAmountToStroops (dpCostBasis d) \<and> parseAmountToStroops (dpGain d) - parseAmountToStroops (dpLoss d) =
       parseAmountToStroops (dpSalePrice d) - parseAmountToStroops (dpCostBasis d)) (bsDisposals s)"

lemma parse_nonneg: "0 \<le> n \<Longrightarrow> parseAmountToStroops (fromSorobanAmount n TOKEN_DECIMALS) = n"
  by (simp add: parse_amount)

lemma parse_none: "parseAmountToStroops ''0.0000000'' = 0"
  by (simp add: parseAmountToStroops_def)

lemma disposal_values:
  assumes "0 \<le> basis" and "0 \<le> parseAmountToStroops (txAmountOut row)"
  shows "parseAmountToStroops (dpCostBasis (disposalOf row basis)) = basis"
    and "parseAmountToStroops (dpGain (disposalOf row basis)) - parseAmountToStroops (dpLoss (disposalOf row basis)) =
      parseAmountToStroops (dpSalePrice (disposalOf row basis)) - basis"
  using assms by (simp_all add: disposalOf_def Let_def parse_nonneg parse_none)

lemma basisStep_inv:
  assumes "basis_inv s" and "txType row = SwapRow \<Longrightarrow> sane_row row"
  shows "basis_inv (basisStep fifo token row s)"
proof (cases "txType row = SwapRow \<and> txTokenOut row = token")
  case True
  then have "sane_row row" using assms(2) by simp
  then show ?thesis using assms(1) True
    by (simp add: basis_inv_def basisStep_def Let_def sane_row_def good_lots_def cost_of_sold_def)
next
  case no_buy: False
  show ?thesis
  proof (cases "txType row = SwapRow \<and> txTokenIn row = token")
    case True
    obtain ls b where d: "dispose fifo (bsLots s) (parseAmountToStroops (txAmountIn row)) = (ls, b)" by force
    have sane: "0 \<le> parseAmountToStroops (txAmountIn row)" "0 \<le> parseAmountToStroops (txAmountOut row)"
      using assms(2) True by (auto simp: sane_row_def)
    have p: "good_lots ls" "0 \<le> b" "lot_sum ltQty (bsLots s) - parseAmountToStroops (txAmountIn row) \<le> lot_sum ltQty ls"
      "lot_sum ltCost ls + b = lot_sum ltCost (bsLots s)"
      using dispose_props[OF _ sane(1) d] assms(1) by (auto simp: basis_inv_def)
    have step: "basisStep fifo token row s = s\<lparr>bsLots := ls, bsDisposals := bsDisposals s @ [disposalOf row b],
        bsQuantity := bsQuantity s - parseAmountToStroops (txAmountIn row)\<rparr>"
      using no_buy True d by (auto simp: basisStep_def Let_def)
    show ?thesis unfolding step using assms(1) p disposal_values[OF p(2) sane(2)] by (simp add: basis_inv_def cost_of_sold_def)
  next
    case False
    then have "basisStep fifo token row s = s" using no_buy by (auto simp: basisStep_def)
    then show ?thesis using assms(1) by simp
  qed
qed

lemma basis_fold_inv: "basis_inv s \<Longrightarrow> list_all (\<lambda>row. txType row = SwapRow \<longrightarrow> sane_row row) rows \<Longrightarrow> basis_inv (fold (basisStep fifo token) rows s)"
  by (induction rows arbitrary: s) (auto intro: basisStep_inv)

text \<open>Nothing is lost on the way: what was ever paid, which is the cost reported as the total, is what the lots still held
  cost plus what the disposals cost. Each disposal's gain less its loss is its proceeds less its cost.\<close>

theorem cost_conserved:
  assumes "list_all (\<lambda>row. txType row = SwapRow \<longrightarrow> sane_row row) rows" and "s = fold (basisStep fifo token) rows no_basis"
  shows "bsCost s = lot_sum ltCost (bsLots s) + cost_of_sold s \<and> bsQuantity s \<le> lot_sum ltQty (bsLots s) \<and>
    (\<forall>d \<in> set (bsDisposals s). parseAmountToStroops (dpGain d) - parseAmountToStroops (dpLoss d) =
       parseAmountToStroops (dpSalePrice d) - parseAmountToStroops (dpCostBasis d))"
proof -
  have "basis_inv no_basis" by (simp add: basis_inv_def no_basis_def good_lots_def cost_of_sold_def)
  then have "basis_inv s" using basis_fold_inv[OF _ assms(1)] assms(2) by simp
  then show ?thesis by (auto simp: basis_inv_def list_all_iff)
qed

text \<open>The average is the quotient of the stroops, printed as if it were stroops: ten million times too small.\<close>

theorem average_cost_scale:
  assumes "0 < bsQuantity s" and "0 \<le> bsCost s"
  shows "parseAmountToStroops (cbAverage (costBasisOf token fifo s)) =
    parseAmountToStroops (cbCost (costBasisOf token fifo s)) div parseAmountToStroops (cbQuantity (costBasisOf token fifo s))"
proof -
  have "0 \<le> bsCost s div bsQuantity s" using assms by (simp add: pos_imp_zdiv_nonneg_iff)
  then show ?thesis using assms by (simp add: costBasisOf_def parse_nonneg sdiv_nonneg)
qed

section \<open>Gains\<close>

definition net_gain :: "gains \<Rightarrow> int" where
  "net_gain s = gnShortGains s + gnLongGains s - gnShortLosses s - gnLongLosses s"

lemma net_addGain [simp]: "net_gain (addGain long g s) = net_gain s + g"
  by (simp add: net_gain_def addGain_def)

lemma gainsLoop_every:
  assumes "0 < sold" and "list_all (\<lambda>l. sold < ltQty l) (drop i lots)"
  shows "fst (gainsLoop rd date sold proceeds lots i s) = take i lots @ map (\<lambda>l. drawn l sold) (drop i lots) \<and>
    net_gain (snd (gainsLoop rd date sold proceeds lots i s)) = net_gain s + lot_sum (\<lambda>l. proceeds - lotCost l sold) (drop i lots)"
  using assms
proof (induction "length lots - i" arbitrary: lots i s)
  case 0
  then have "length lots \<le> i" by simp
  then show ?case by (subst gainsLoop.simps, subst gainsLoop.simps) simp
next
  case (Suc n)
  then have i: "i < length lots" by simp
  have d: "drop i lots = lots ! i # drop (Suc i) lots" using i by (simp add: Cons_nth_drop_Suc)
  have q: "sold < ltQty (lots ! i)" "list_all (\<lambda>l. sold < ltQty l) (drop (Suc i) lots)" using Suc.prems(2) unfolding d by auto
  let ?l = "drawn (lots ! i) sold" and ?s = "addGain (longTerm rd (ltDate (lots ! i)) date) (proceeds - lotCost (lots ! i) sold) s"
  have pr: "sold * proceeds sdiv sold = proceeds" using \<open>0 < sold\<close> by (simp add: signed_divide_int_def sgn_mult abs_mult mult_sgn_abs)
  have step: "gainsLoop rd date sold proceeds lots i s = gainsLoop rd date sold proceeds (lots[i := ?l]) (Suc i) ?s"
    using i q(1) Suc.prems(1) pr by (subst gainsLoop.simps) (simp add: takeQty_def Let_def)
  have dr: "drop (Suc i) (lots[i := ?l]) = drop (Suc i) lots" by simp
  have tk: "take (Suc i) (lots[i := ?l]) = take i lots @ [?l]" using i by (simp add: take_Suc_conv_app_nth)
  show ?case unfolding step using Suc.hyps(1)[of "lots[i := ?l]" "Suc i" ?s] Suc.hyps(2) Suc.prems(1) q(2)
    unfolding dr tk d by simp
qed

text \<open>A sale is charged to every lot of the token in full: with \<open>n\<close> lots larger than the sale, \<open>n\<close> times what was sold is
  taken from the holdings, and the proceeds are counted \<open>n\<close> times.\<close>

theorem sale_charged_to_every_lot:
  assumes "0 < sold" and "list_all (\<lambda>l. sold < ltQty l) lots" and "gainsLoop rd date sold proceeds lots 0 s = (lots', s')"
  shows "lot_sum ltQty lots - lot_sum ltQty lots' = int (length lots) * sold \<and>
    net_gain s' - net_gain s = int (length lots) * proceeds - lot_sum (\<lambda>l. lotCost l sold) lots"
proof -
  have r: "lots' = map (\<lambda>l. drawn l sold) lots" "net_gain s' = net_gain s + lot_sum (\<lambda>l. proceeds - lotCost l sold) lots"
    using gainsLoop_every[of sold 0 lots rd date proceeds s] assms by simp_all
  have "lot_sum ltQty (map (\<lambda>l. drawn l sold) lots) = lot_sum ltQty lots - int (length lots) * sold"
    by (induction lots) (simp_all add: drawn_def algebra_simps)
  moreover have "lot_sum (\<lambda>l. proceeds - lotCost l sold) lots = int (length lots) * proceeds - lot_sum (\<lambda>l. lotCost l sold) lots"
    by (induction lots) (simp_all add: algebra_simps)
  ultimately show ?thesis using r by simp
qed

lemma gainsLoop_dates:
  assumes "gainsLoop rd date sold proceeds lots i s = (lots', s')" and "\<forall>l \<in> set lots. P (ltDate l) \<and> \<not> longTerm rd (ltDate l) date"
  shows "(\<forall>l \<in> set lots'. P (ltDate l)) \<and> gnLongGains s' = gnLongGains s \<and> gnLongLosses s' = gnLongLosses s"
  using assms
proof (induction rd date sold proceeds lots i s rule: gainsLoop.induct)
  case (1 rd date sold proceeds lots i s)
  show ?case
  proof (cases "i < length lots \<and> 0 < sold")
    case False
    then show ?thesis using "1.prems" by (subst (asm) gainsLoop.simps) auto
  next
    case c: True
    let ?l = "lots ! i" and ?q = "takeQty (lots ! i) sold"
    let ?s = "addGain (longTerm rd (ltDate ?l) date) (?q * proceeds sdiv sold - lotCost ?l ?q) s"
    have l: "?l \<in> set lots" using c by simp
    have s: "gnLongGains ?s = gnLongGains s" "gnLongLosses ?s = gnLongLosses s" using "1.prems"(2) l by (auto simp: addGain_def)
    consider "ltQty ?l \<le> 0" | "0 < ltQty ?l" "ltQty ?l - ?q \<le> 0" | "0 < ltQty ?l" "0 < ltQty ?l - ?q" by linarith
    then show ?thesis
    proof cases
      case 1
      then have "gainsLoop rd date sold proceeds lots (Suc i) s = (lots', s')" using "1.prems"(1) c by (subst (asm) gainsLoop.simps) simp
      then show ?thesis using "1.IH"(1)[OF c refl 1] "1.prems"(2) by simp
    next
      case 2
      then have r: "gainsLoop rd date sold proceeds (take i lots @ drop (Suc i) lots) i ?s = (lots', s')"
        using "1.prems"(1) c by (subst (asm) gainsLoop.simps) (simp add: Let_def)
      have n: "\<not> ltQty ?l \<le> 0" using 2 by simp
      show ?thesis using "1.IH"(2)[OF c refl n refl refl 2(2) r] "1.prems"(2) s by (auto dest: in_set_takeD in_set_dropD)
    next
      case 3
      then have r: "gainsLoop rd date sold proceeds (lots[i := drawn ?l ?q]) (Suc i) ?s = (lots', s')"
        using "1.prems"(1) c by (subst (asm) gainsLoop.simps) (simp add: Let_def)
      have n: "\<not> ltQty ?l \<le> 0" "\<not> ltQty ?l - ?q \<le> 0" using 3 by simp_all
      have d: "\<forall>l \<in> set (lots[i := drawn ?l ?q]). P (ltDate l) \<and> \<not> longTerm rd (ltDate l) date"
        using "1.prems"(2) l set_update_subset_insert[of lots i "drawn ?l ?q"] by (auto simp: drawn_def)
      show ?thesis using "1.IH"(3)[OF c refl n(1) refl refl n(2) r d] s by simp
    qed
  qed
qed

definition held_dates :: "(string \<Rightarrow> bool) \<Rightarrow> tax_lot list js_map \<Rightarrow> bool" where
  "held_dates P m \<longleftrightarrow> (\<forall>k lots. js_get m k = Some lots \<longrightarrow> (\<forall>l \<in> set lots. P (ltDate l)))"

lemma gainsStep_dates:
  assumes "\<And>x y. P x \<Longrightarrow> P y \<Longrightarrow> \<not> longTerm rd x y" and "P (txDate row)" and "held_dates P m"
  shows "case gainsStep rd row (m, s) of (m', s') \<Rightarrow> held_dates P m' \<and> gnLongGains s' = gnLongGains s \<and> gnLongLosses s' = gnLongLosses s"
proof (cases "txType row = SwapRow")
  case True
  define lots0 where "lots0 = or_else (js_get m (txTokenOut row)) [] @ [\<lparr>ltDate = txDate row, ltQty = parseAmountToStroops (txAmountOut row),
    ltCost = parseAmountToStroops (txAmountIn row) + parseAmountToStroops (txFee row), ltTx = txHash row\<rparr>]"
  let ?held = "js_set m (txTokenOut row) lots0"
  have "\<forall>l \<in> set lots0. P (ltDate l)" using assms(2,3) unfolding lots0_def
    by (cases "js_get m (txTokenOut row)") (auto simp: or_else_def held_dates_def)
  then have h: "held_dates P ?held" using assms(3) by (auto simp: held_dates_def js_get_set)
  show ?thesis
  proof (cases "js_get ?held (txTokenIn row)")
    case None
    then have "gainsStep rd row (m, s) = (?held, s)" using True unfolding gainsStep_def lots0_def by simp
    then show ?thesis using h by simp
  next
    case (Some lots)
    obtain lots' s' where r: "gainsLoop rd (txDate row) (parseAmountToStroops (txAmountIn row)) (parseAmountToStroops (txAmountOut row)) lots 0 s = (lots', s')"
      by force
    have ok: "\<forall>l \<in> set lots. P (ltDate l) \<and> \<not> longTerm rd (ltDate l) (txDate row)" using h Some assms(1,2) by (auto simp: held_dates_def)
    have "gainsStep rd row (m, s) = (js_set ?held (txTokenIn row) lots', s')" using True Some r unfolding gainsStep_def lots0_def by simp
    then show ?thesis using gainsLoop_dates[OF r ok] h by (auto simp: held_dates_def js_get_set)
  qed
qed (use assms(3) in \<open>simp add: gainsStep_def\<close>)

lemma gains_fold_dates:
  assumes "\<And>x y. P x \<Longrightarrow> P y \<Longrightarrow> \<not> longTerm rd x y" and "\<forall>row \<in> set rows. P (txDate row)" and "held_dates P (fst acc)"
  shows "gnLongGains (snd (fold (gainsStep rd) rows acc)) = gnLongGains (snd acc) \<and>
    gnLongLosses (snd (fold (gainsStep rd) rows acc)) = gnLongLosses (snd acc)"
  using assms(2,3)
proof (induction rows arbitrary: acc)
  case (Cons row rows)
  obtain m s where acc: "acc = (m, s)" by force
  obtain m' s' where st: "gainsStep rd row acc = (m', s')" by force
  have "held_dates P m' \<and> gnLongGains s' = gnLongGains s \<and> gnLongLosses s' = gnLongLosses s"
    using gainsStep_dates[OF assms(1), where row = row and m = m and s = s] Cons.prems acc st by auto
  then show ?case using Cons.IH[of "(m', s')"] Cons.prems(1) acc st by simp
qed simp

text \<open>Only trades inside the period are looked at, so nothing sold in a report over at most 365 days is ever long-term.\<close>

theorem no_long_term_in_a_year:
  assumes "\<forall>row \<in> set rows. case rd (txDate row) of None \<Rightarrow> True | Some d \<Rightarrow> a \<le> d \<and> d \<le> b" and "b - a \<le> 365 * 86400000"
  shows "gnLongGains (snd (fold (gainsStep rd) rows ([], no_gains))) = 0 \<and> gnLongLosses (snd (fold (gainsStep rd) rows ([], no_gains))) = 0"
proof -
  have "\<not> longTerm rd x y" if "case rd x of None \<Rightarrow> True | Some d \<Rightarrow> a \<le> d \<and> d \<le> b" "case rd y of None \<Rightarrow> True | Some d \<Rightarrow> a \<le> d \<and> d \<le> b" for x y
    using that assms(2) by (auto simp: longTerm_def split: option.splits)
  then show ?thesis using gains_fold_dates[of "\<lambda>x. case rd x of None \<Rightarrow> True | Some d \<Rightarrow> a \<le> d \<and> d \<le> b" rd rows "([], no_gains)"] assms(1)
    by (simp add: held_dates_def no_gains_def)
qed

section \<open>What is reported\<close>

lemma fetchEvents_none:
  assumes "xtEvents e = log_env True xs" and "good_log xs" and "length xs < fuel" and "\<forall>ev \<in> set xs. led ev < start"
  shows "\<exists>w'. fetchEvents e fuel start topic w = Some (Inr [], w')"
proof -
  obtain r w' where r: "scan (log_env True xs) (newCursorOptions None None) fuel \<lparr>spContracts = None, spTopics = Some [topic], spFrom = Some start,
      spTo = None, spLimit = Some (of_nat 200)\<rparr> (reset w) = Some (Inr r, w')" "prefix (scanEvents r) (filter (\<lambda>ev. start \<le> led ev) xs)"
    using scan_of_log[OF assms(2), where n = 200 and fuel = fuel and opts = "newCursorOptions None None" and cs = None and ts = "Some [topic]"
      and s = start and to = None and w = "reset w"] assms(3) by auto
  have "filter (\<lambda>ev. start \<le> led ev) xs = []" using assms(4) by (auto simp: filter_empty_conv)
  then have "scanEvents r = []" using r(2) by simp
  then show ?thesis using r(1) assms(1) by (intro exI[of _ w']) (simp add: fetchEvents_def MAX_HISTORY_EVENTS_def)
qed

text \<open>Whatever dates are asked for, the scan starts a day before the head: older trades are in no report.\<close>

theorem old_trades_unreported:
  assumes "validateAddress (xtValid e) address ''address'' = Inr ()" and "xtLedger e w = (Inr current, w1)" and "xtEvents e = log_env True xs"
    and "good_log xs" and "length xs < fuel" and "\<forall>ev \<in> set xs. led ev < max 1 (current - 17280)"
  shows "\<exists>w'. exportTradeHistory e fuel address opts w = Some (Inr (if eoJson opts then xtJson e [] else join_str '','' CSV_HEADERS), w')"
proof -
  let ?start = "max MIN_START_LEDGER (current - TAX_HISTORY_WINDOW)" and ?head = "\<lparr>lhLedger = current, lhCloseTime = xtNowMs e w1 div 1000\<rparr>"
  have old: "\<forall>ev \<in> set xs. led ev < ?start" using assms(6) by (simp add: MIN_START_LEDGER_def TAX_HISTORY_WINDOW_def LEDGER_CLOSE_INTERVAL_SECONDS_def)
  note none = fetchEvents_none[OF assms(3-5) old]
  obtain w2 where s: "fetchEvents e fuel ?start ''swap'' w1 = Some (Inr [], w2)" using none by blast
  obtain w3 where a: "fetchEvents e fuel ?start ''add_liquidity'' w2 = Some (Inr [], w3)" using none by blast
  obtain w4 where r: "fetchEvents e fuel ?start ''remove_liquidity'' w3 = Some (Inr [], w4)" using none by blast
  have "fetchSwapEvents e fuel address ?start ?head w1 = Some (Inr [], w2)" using s by (simp add: fetchSwapEvents_def List.map_filter_simps)
  moreover have "fetchLiquidityEvents e fuel address ?start ?head w2 = Some (Inr [], w4)" using a r by (simp add: fetchLiquidityEvents_def List.map_filter_simps)
  ultimately have "historyRows e fuel address opts w = Some (Inr [], w4)"
    using assms(1,2) by (simp add: historyRows_def bindW_def liftW_def Let_def sort_by_def)
  then show ?thesis by (intro exI[of _ w4]) (simp add: exportTradeHistory_def toCSV_def)
qed

section \<open>Witnesses\<close>

definition lot_of :: "int \<Rightarrow> int \<Rightarrow> tax_lot" where
  "lot_of q c = \<lparr>ltDate = ''d'', ltQty = q, ltCost = c, ltTx = ''t''\<rparr>"

definition trade :: "string \<Rightarrow> string \<Rightarrow> string \<Rightarrow> string \<Rightarrow> string tax_row" where
  "trade a x b y = \<lparr>txDate = ''d'', txType = SwapRow, txTokenIn = a, txAmountIn = x, txTokenOut = b, txAmountOut = y, txFee = ''0.0000000'',
     txUsdValue = ''0.00'', txHash = ''t''\<rparr>"

theorem dispose_refines_witness: "dispose False [lot_of 5 10, lot_of 3 9] 4 = ([lot_of 4 8], 11)"
proof -
  have "good_lots [lot_of 5 10, lot_of 3 9]" by code_simp
  moreover have "(let (ls, r, b) = consume (if False then [lot_of 5 10, lot_of 3 9] else List.rev [lot_of 5 10, lot_of 3 9]) 4
    in (if False then ls else List.rev ls, b)) = ([lot_of 4 8], 11)" by code_simp
  ultimately show ?thesis using dispose_refines[of "[lot_of 5 10, lot_of 3 9]" False 4] by simp
qed

lemma sample_rows: "list_all (\<lambda>row. txType row = SwapRow \<longrightarrow> sane_row row) [trade ''U'' ''20.0000000'' ''T'' ''10.0000000'', trade ''T'' ''4.0000000'' ''U'' ''9.0000000'']"
  by code_simp

theorem cost_conserved_witness:
  "bsCost (fold (basisStep True ''T'') [trade ''U'' ''20.0000000'' ''T'' ''10.0000000'', trade ''T'' ''4.0000000'' ''U'' ''9.0000000''] no_basis) =
   lot_sum ltCost (bsLots (fold (basisStep True ''T'') [trade ''U'' ''20.0000000'' ''T'' ''10.0000000'', trade ''T'' ''4.0000000'' ''U'' ''9.0000000''] no_basis)) +
   cost_of_sold (fold (basisStep True ''T'') [trade ''U'' ''20.0000000'' ''T'' ''10.0000000'', trade ''T'' ''4.0000000'' ''U'' ''9.0000000''] no_basis)"
  using cost_conserved[OF sample_rows refl] by blast

theorem average_cost_scale_witness:
  "parseAmountToStroops (cbAverage (costBasisOf ''T'' True (no_basis\<lparr>bsQuantity := 100000000, bsCost := 200000000\<rparr>))) = 2"
proof -
  have "parseAmountToStroops (cbCost (costBasisOf ''T'' True (no_basis\<lparr>bsQuantity := 100000000, bsCost := 200000000\<rparr>))) = 200000000"
    "parseAmountToStroops (cbQuantity (costBasisOf ''T'' True (no_basis\<lparr>bsQuantity := 100000000, bsCost := 200000000\<rparr>))) = 100000000"
    by (simp_all add: costBasisOf_def parse_nonneg)
  then show ?thesis using average_cost_scale[of "no_basis\<lparr>bsQuantity := 100000000, bsCost := 200000000\<rparr>" "''T''" True] by simp
qed

lemma two_lots: "gainsLoop (\<lambda>_. None) ''d'' 4 10 [lot_of 5 10, lot_of 8 8] 0 no_gains =
    ([lot_of 1 2, lot_of 4 4], no_gains\<lparr>gnShortGains := 8\<rparr>)"
  by code_simp

theorem sale_charged_to_every_lot_witness:
  "lot_sum ltQty [lot_of 5 10, lot_of 8 8] - lot_sum ltQty [lot_of 1 2, lot_of 4 4] = int (length [lot_of 5 10, lot_of 8 8]) * 4"
  using sale_charged_to_every_lot[OF _ _ two_lots] by (simp add: lot_of_def)

theorem no_long_term_in_a_year_witness:
  "gnLongGains (snd (fold (gainsStep (\<lambda>_. Some 5)) [trade ''U'' ''20.0000000'' ''T'' ''10.0000000''] ([], no_gains))) = 0"
  using no_long_term_in_a_year[where rows = "[trade ''U'' ''20.0000000'' ''T'' ''10.0000000'']" and rd = "\<lambda>_. Some 5" and a = 0 and b = 9] by simp

definition some_tax_env :: "raw_event list \<Rightarrow> int \<Rightarrow> cursor_state tax_env" where
  "some_tax_env xs current = \<lparr>xtValid = (\<lambda>_. True), xtLedger = retW current, xtNowMs = (\<lambda>_. 0), xtEvents = log_env True xs, xtAddress = (\<lambda>_. None),
     xtFormat = (\<lambda>_ _. ''d''), xtParse = (\<lambda>_. None), xtJson = (\<lambda>_. ''[]''), xtDay = (\<lambda>_. ''d''), xtYear = (\<lambda>_. (0, 1))\<rparr>"

theorem old_trades_unreported_witness:
  "\<exists>w'. exportTradeHistory (some_tax_env three_events 20000) 4 ''G'' \<lparr>eoJson = True, eoFrom = Some 0, eoTo = None, eoZone = ''UTC''\<rparr> \<lparr>cursorAt = None\<rparr> =
    Some (Inr ''[]'', w')"
proof -
  have v: "validateAddress (xtValid (some_tax_env three_events 20000)) ''G'' ''address'' = Inr ()" by code_simp
  have log: "good_log three_events" "length three_events < 4" "\<forall>ev \<in> set three_events. led ev < max 1 (20000 - 17280)"
    by (simp_all add: three_events_def good_log_def led_def)
  show ?thesis using old_trades_unreported[OF v _ _ log, of "\<lparr>cursorAt = None\<rparr>" "\<lparr>cursorAt = None\<rparr>" "\<lparr>eoJson = True, eoFrom = Some 0, eoTo = None, eoZone = ''UTC''\<rparr>"]
    by (simp add: some_tax_env_def retW_def)
qed

end
