(* ===== verification/DecimalsResolver.thy ===== *)
theory DecimalsResolver
  imports JsMap Submission
begin

text \<open>
  \<open>utils/decimals-resolver.ts\<close>: a cache of token decimals that forgets the least recently used entry. The map and the
  doubly-linked list share node objects, so the nodes are in a store and links are references; \<open>0\<close> and \<open>1\<close> are the
  sentinels at the two ends. The abstract cache is the list of entries, most recent first, and each operation on
  the store refines one on the list.
\<close>

section \<open>The store\<close>

record lru_node =
  ndKey :: string
  ndValue :: int
  ndExpires :: int
  ndPrev :: "nat option"
  ndNext :: "nat option"

type_synonym node_store = "nat \<Rightarrow> lru_node"

record resolver =
  drCapacity :: int
  drTtl :: int
  drMap :: "nat js_map"
  drNodes :: node_store
  drFresh :: nat

definition DEFAULT_DECIMALS_CACHE_CAPACITY :: rat where
  "DEFAULT_DECIMALS_CACHE_CAPACITY = 512"

definition TTL_DISABLED :: rat where
  "TTL_DISABLED = 0"

definition blank_node :: lru_node where
  "blank_node = \<lparr>ndKey = [], ndValue = 0, ndExpires = 0, ndPrev = None, ndNext = None\<rparr>"

definition link_ends :: "node_store \<Rightarrow> node_store" where
  "link_ends h = h(0 := (h 0)\<lparr>ndNext := Some 1\<rparr>, 1 := (h 1)\<lparr>ndPrev := Some 0\<rparr>)"

definition newResolver :: "(rat \<Rightarrow> string) \<Rightarrow> rat option \<Rightarrow> rat option \<Rightarrow> resolver result" where
  "newResolver numText capacity ttlMs = (let cap = (case capacity of Some c \<Rightarrow> c | None \<Rightarrow> DEFAULT_DECIMALS_CACHE_CAPACITY); ttl = (case ttlMs of Some t \<Rightarrow> t | None \<Rightarrow> TTL_DISABLED) in
     if cap \<noteq> of_int \<lfloor>cap\<rfloor> \<or> cap < 1 then Inl (RangeError (''DecimalsResolver: capacity must be a positive integer, got '' @ numText cap))
     else if ttl \<noteq> of_int \<lfloor>ttl\<rfloor> \<or> ttl < 0 then Inl (RangeError (''DecimalsResolver: ttlMs must be a non-negative integer, got '' @ numText ttl))
     else Inr \<lparr>drCapacity = \<lfloor>cap\<rfloor>, drTtl = \<lfloor>ttl\<rfloor>, drMap = [], drNodes = link_ends (\<lambda>_. blank_node), drFresh = 2\<rparr>)"

text \<open>A node in the list has both links; that the links are never null when they are followed is part of the invariant.\<close>

definition removeNode :: "nat \<Rightarrow> node_store \<Rightarrow> node_store" where
  "removeNode n h = (case (ndPrev (h n), ndNext (h n)) of
       (Some p, Some q) \<Rightarrow> let h1 = h(p := (h p)\<lparr>ndNext := Some q\<rparr>); h2 = h1(q := (h1 q)\<lparr>ndPrev := Some p\<rparr>)
         in h2(n := (h2 n)\<lparr>ndPrev := None, ndNext := None\<rparr>)
     | _ \<Rightarrow> h)"

definition insertAfterHead :: "nat \<Rightarrow> node_store \<Rightarrow> node_store" where
  "insertAfterHead n h = (case ndNext (h 0) of
       Some f \<Rightarrow> let h1 = h(n := (h n)\<lparr>ndNext := Some f, ndPrev := Some 0\<rparr>); h2 = h1(f := (h1 f)\<lparr>ndPrev := Some n\<rparr>)
         in h2(0 := (h2 0)\<lparr>ndNext := Some n\<rparr>)
     | None \<Rightarrow> h)"

definition lruGet :: "int \<Rightarrow> string \<Rightarrow> resolver \<Rightarrow> int option \<times> resolver" where
  "lruGet now key r = (case js_get (drMap r) key of None \<Rightarrow> (None, r)
     | Some n \<Rightarrow> if ndExpires (drNodes r n) \<noteq> 0 \<and> ndExpires (drNodes r n) \<le> now
         then (None, r\<lparr>drNodes := removeNode n (drNodes r), drMap := js_delete (drMap r) key\<rparr>)
         else (Some (ndValue (drNodes r n)), r\<lparr>drNodes := insertAfterHead n (removeNode n (drNodes r))\<rparr>))"

definition expiry :: "int \<Rightarrow> int \<Rightarrow> int" where
  "expiry ttl now = (if 0 < ttl then now + ttl else 0)"

definition evictLast :: "resolver \<Rightarrow> resolver" where
  "evictLast r = (if int (js_size (drMap r)) < drCapacity r then r
     else let lru = the (ndPrev (drNodes r 1)) in if lru = 0 then r
       else r\<lparr>drNodes := removeNode lru (drNodes r), drMap := js_delete (drMap r) (ndKey (drNodes r lru))\<rparr>)"

definition lruSet :: "int \<Rightarrow> string \<Rightarrow> int \<Rightarrow> resolver \<Rightarrow> resolver" where
  "lruSet now key v r = (case js_get (drMap r) key of
       Some n \<Rightarrow> let h = (drNodes r)(n := (drNodes r n)\<lparr>ndValue := v, ndExpires := expiry (drTtl r) now\<rparr>)
         in r\<lparr>drNodes := insertAfterHead n (removeNode n h)\<rparr>
     | None \<Rightarrow> let r1 = evictLast r; n = drFresh r1;
           h = (drNodes r1)(n := \<lparr>ndKey = key, ndValue = v, ndExpires = expiry (drTtl r) now, ndPrev = None, ndNext = None\<rparr>)
         in r1\<lparr>drMap := js_set (drMap r1) key n, drNodes := insertAfterHead n h, drFresh := Suc n\<rparr>)"

definition lruSize :: "resolver \<Rightarrow> nat" where
  "lruSize r = js_size (drMap r)"

definition lruClear :: "resolver \<Rightarrow> resolver" where
  "lruClear r = r\<lparr>drMap := [], drNodes := link_ends (drNodes r)\<rparr>"

section \<open>The resolver\<close>

text \<open>Where the world keeps the cache, and what is called.\<close>

record 'w resolver_env =
  rvCache :: "'w \<Rightarrow> resolver"
  rvUpdate :: "(resolver \<Rightarrow> resolver) \<Rightarrow> 'w \<Rightarrow> 'w"
  rvNow :: "'w \<Rightarrow> int"
  rvDecimals :: "string \<Rightarrow> ('w, thrown, int) act"

text \<open>The metadata of the token is asked for while other calls may use the cache; a failure is not remembered.\<close>

definition resolveDecimals :: "'w resolver_env \<Rightarrow> string \<Rightarrow> ('w, thrown, int) act" where
  "resolveDecimals e address w = (let (found, c) = lruGet (rvNow e w) address (rvCache e w); w1 = rvUpdate e (\<lambda>_. c) w in
     case found of Some d \<Rightarrow> (Inr d, w1)
     | None \<Rightarrow> (case rvDecimals e address w1 of
          (Inr d, w2) \<Rightarrow> (Inr d, rvUpdate e (lruSet (rvNow e w2) address d) w2)
        | (Inl _, w2) \<Rightarrow> (Inr 7, w2)))"

section \<open>The abstract cache\<close>

record lru_entry =
  leKey :: string
  leValue :: int
  leExpires :: int

definition without :: "string \<Rightarrow> lru_entry list \<Rightarrow> lru_entry list" where
  "without key xs = filter (\<lambda>x. leKey x \<noteq> key) xs"

definition absGet :: "int \<Rightarrow> string \<Rightarrow> lru_entry list \<Rightarrow> int option \<times> lru_entry list" where
  "absGet now key xs = (case List.find (\<lambda>x. leKey x = key) xs of None \<Rightarrow> (None, xs)
     | Some x \<Rightarrow> if leExpires x \<noteq> 0 \<and> leExpires x \<le> now then (None, without key xs) else (Some (leValue x), x # without key xs))"

definition absSet :: "int \<Rightarrow> int \<Rightarrow> int \<Rightarrow> string \<Rightarrow> int \<Rightarrow> lru_entry list \<Rightarrow> lru_entry list" where
  "absSet cap ttl now key v xs = \<lparr>leKey = key, leValue = v, leExpires = expiry ttl now\<rparr> #
     (if key \<in> leKey ` set xs then without key xs else if int (length xs) < cap then xs else butlast xs)"

section \<open>Linked lists in the store\<close>

fun linked :: "node_store \<Rightarrow> nat list \<Rightarrow> bool" where
  "linked h (x # y # zs) = (ndNext (h x) = Some y \<and> ndPrev (h y) = Some x \<and> linked h (y # zs))"
| "linked h zs = True"

lemma linked_append: "linked h (xs @ y # zs) \<longleftrightarrow> linked h (xs @ [y]) \<and> linked h (y # zs)"
proof (induction xs)
  case (Cons x xs)
  then show ?case by (cases xs) auto
qed simp

lemma linked_cong: "(\<And>x. x \<in> set xs \<Longrightarrow> ndNext (h' x) = ndNext (h x) \<and> ndPrev (h' x) = ndPrev (h x)) \<Longrightarrow> linked h' xs = linked h xs"
  by (induction h xs rule: linked.induct) auto

text \<open>Only the forward link of the first and the backward link of the last of a segment can differ outside.\<close>

lemma linked_first: "linked h (x # xs) \<Longrightarrow> x \<notin> set xs \<Longrightarrow> linked (h(x := (h x)\<lparr>ndPrev := p\<rparr>)) (x # xs)"
proof (cases xs)
  case (Cons y ys)
  assume a: "linked h (x # xs)" "x \<notin> set xs"
  then have "linked (h(x := (h x)\<lparr>ndPrev := p\<rparr>)) xs = linked h xs" by (intro linked_cong) auto
  then show ?thesis using a Cons by auto
qed simp

lemma linked_last: "linked h (xs @ [x]) \<Longrightarrow> x \<notin> set xs \<Longrightarrow> linked (h(x := (h x)\<lparr>ndNext := p\<rparr>)) (xs @ [x])"
proof (induction xs)
  case (Cons y ys)
  then show ?case by (cases ys) auto
qed simp

lemma linked_frame: "n \<notin> set xs \<Longrightarrow> linked (h(n := v)) xs = linked h xs"
  by (intro linked_cong) auto

lemma linked_remove:
  assumes "linked h (as @ n # bs)" and "distinct (as @ n # bs)" and "as \<noteq> []" and "bs \<noteq> []"
  shows "linked (removeNode n h) (as @ bs)" and "\<And>x. ndKey (removeNode n h x) = ndKey (h x) \<and> ndValue (removeNode n h x) = ndValue (h x) \<and>
    ndExpires (removeNode n h x) = ndExpires (h x)"
proof -
  obtain as' p where as: "as = as' @ [p]" using assms(3) by (cases as rule: rev_cases) auto
  obtain q bs' where bs: "bs = q # bs'" using assms(4) by (cases bs) auto
  have eq: "as @ n # bs = as' @ p # n # q # bs'" by (simp add: as bs)
  have l: "linked h (as' @ [p])" "linked h (p # n # q # bs')"
    using iffD1[OF linked_append assms(1)[unfolded eq]] by blast+
  have links: "ndPrev (h n) = Some p" "ndNext (h n) = Some q" "linked h (q # bs')" using l(2) by auto
  have d: "p \<noteq> n" "q \<noteq> n" "p \<noteq> q" "p \<notin> set bs'" "q \<notin> set bs'" "n \<notin> set bs'" "n \<notin> set as'" "p \<notin> set as'" "q \<notin> set as'"
    using assms(2) unfolding as bs by auto
  define h1 where "h1 = h(p := (h p)\<lparr>ndNext := Some q\<rparr>)"
  define h2 where "h2 = h1(q := (h1 q)\<lparr>ndPrev := Some p\<rparr>)"
  have r: "removeNode n h = h2(n := (h2 n)\<lparr>ndPrev := None, ndNext := None\<rparr>)"
    by (simp add: removeNode_def links h1_def h2_def Let_def)
  have "linked h2 (as' @ [p])" unfolding h2_def using d linked_last[OF l(1), of "Some q"] by (subst linked_frame) (auto simp: h1_def)
  moreover have "linked h2 (q # bs')" unfolding h2_def by (rule linked_first) (use d links(3) in \<open>auto simp: h1_def linked_frame\<close>)
  moreover have "ndNext (h2 p) = Some q" "ndPrev (h2 q) = Some p" using d by (auto simp: h1_def h2_def)
  ultimately have "linked h2 (as' @ p # q # bs')" by (intro iffD2[OF linked_append]) simp
  moreover have "n \<notin> set (as' @ p # q # bs')" using d by auto
  ultimately show "linked (removeNode n h) (as @ bs)" unfolding r as bs by (simp add: linked_frame)
  show "ndKey (removeNode n h x) = ndKey (h x) \<and> ndValue (removeNode n h x) = ndValue (h x) \<and> ndExpires (removeNode n h x) = ndExpires (h x)" for x
    unfolding r h2_def h1_def by auto
qed

lemma linked_insert:
  assumes "linked h (0 # xs)" and "xs \<noteq> []" and "distinct (0 # xs)" and "n \<notin> set (0 # xs)"
  shows "linked (insertAfterHead n h) (0 # n # xs)" and "\<And>x. ndKey (insertAfterHead n h x) = ndKey (h x) \<and> ndValue (insertAfterHead n h x) = ndValue (h x) \<and>
    ndExpires (insertAfterHead n h x) = ndExpires (h x)"
proof -
  obtain f ys where xs: "xs = f # ys" using assms(2) by (cases xs) auto
  have l: "ndNext (h 0) = Some f" "linked h (f # ys)" using assms(1) by (auto simp: xs)
  have d: "n \<noteq> f" "n \<noteq> 0" "f \<noteq> 0" "n \<notin> set ys" "f \<notin> set ys" "0 \<notin> set ys" using assms(3,4) by (auto simp: xs)
  define h1 where "h1 = h(n := (h n)\<lparr>ndNext := Some f, ndPrev := Some 0\<rparr>)"
  define h2 where "h2 = h1(f := (h1 f)\<lparr>ndPrev := Some n\<rparr>)"
  have r: "insertAfterHead n h = h2(0 := (h2 0)\<lparr>ndNext := Some n\<rparr>)" by (simp add: insertAfterHead_def l h1_def h2_def Let_def)
  have "linked h2 (f # ys)" unfolding h2_def by (rule linked_first) (use d l in \<open>auto simp: h1_def linked_frame\<close>)
  then have "linked (insertAfterHead n h) (f # ys)" unfolding r using d by (subst linked_frame) auto
  then show "linked (insertAfterHead n h) (0 # n # xs)" unfolding xs r using d by (auto simp: h1_def h2_def)
  show "ndKey (insertAfterHead n h x) = ndKey (h x) \<and> ndValue (insertAfterHead n h x) = ndValue (h x) \<and> ndExpires (insertAfterHead n h x) = ndExpires (h x)" for x
    unfolding r h2_def h1_def by auto
qed

section \<open>Refinement\<close>

definition entry_of :: "node_store \<Rightarrow> nat \<Rightarrow> lru_entry" where
  "entry_of h n = \<lparr>leKey = ndKey (h n), leValue = ndValue (h n), leExpires = ndExpires (h n)\<rparr>"

definition chained :: "resolver \<Rightarrow> nat list \<Rightarrow> bool" where
  "chained r ns \<longleftrightarrow> linked (drNodes r) (0 # ns @ [1]) \<and> distinct (0 # ns @ [1]) \<and> (\<forall>n \<in> set ns. n < drFresh r) \<and> 1 < drFresh r \<and>
     distinct (map (\<lambda>n. ndKey (drNodes r n)) ns) \<and> js_wf (drMap r) \<and>
     (\<forall>k n. js_get (drMap r) k = Some n \<longleftrightarrow> n \<in> set ns \<and> ndKey (drNodes r n) = k) \<and> 1 \<le> drCapacity r"

text \<open>The store represents a list of entries: the chain from sentinel to sentinel, each node of which the map finds by its
  key.\<close>

definition represents :: "resolver \<Rightarrow> lru_entry list \<Rightarrow> bool" where
  "represents r xs \<longleftrightarrow> (\<exists>ns. chained r ns \<and> xs = map (entry_of (drNodes r)) ns)"

lemma chained_size:
  assumes "chained r ns"
  shows "js_size (drMap r) = length ns"
proof -
  let ?key = "\<lambda>n. ndKey (drNodes r n)"
  have d: "distinct (map fst (js_entries (drMap r)))" "distinct (map ?key ns)" using assms by (auto simp: chained_def js_wf_def)
  have m: "js_get (drMap r) k = Some n \<longleftrightarrow> n \<in> set ns \<and> ?key n = k" for k n using assms by (simp add: chained_def)
  have "set (map fst (js_entries (drMap r))) = set (map ?key ns)"
  proof (intro equalityI subsetI)
    fix k assume "k \<in> set (map fst (js_entries (drMap r)))"
    then obtain n where "js_get (drMap r) k = Some n" using js_get_None[of "drMap r" k] by auto
    then show "k \<in> set (map ?key ns)" using m by auto
  next
    fix k assume "k \<in> set (map ?key ns)"
    then obtain n where "js_get (drMap r) k = Some n" using m by auto
    then show "k \<in> set (map fst (js_entries (drMap r)))" using js_get_None[of "drMap r" k] by auto
  qed
  then have "length (map fst (js_entries (drMap r))) = length (map ?key ns)" using d distinct_card by metis
  then show ?thesis by (simp add: js_size_def)
qed

lemma other_keys:
  assumes "chained r (as @ n # bs)" and "x \<in> set (as @ bs)"
  shows "ndKey (drNodes r x) \<noteq> ndKey (drNodes r n)"
proof -
  have "distinct (map (\<lambda>n. ndKey (drNodes r n)) (as @ n # bs))" using assms(1) by (simp add: chained_def)
  then have "ndKey (drNodes r n) \<notin> (\<lambda>n. ndKey (drNodes r n)) ` set (as @ bs)" by auto
  then show ?thesis using assms(2) by (metis (no_types, lifting) image_eqI)
qed

lemma find_skip: "\<forall>x \<in> set xs. \<not> P x \<Longrightarrow> List.find P (xs @ ys) = List.find P ys"
  by (induction xs) auto

lemma find_entry:
  assumes "chained r (as @ n # bs)"
  shows "List.find (\<lambda>x. leKey x = ndKey (drNodes r n)) (map (entry_of (drNodes r)) (as @ n # bs)) = Some (entry_of (drNodes r) n)"
    and "without (ndKey (drNodes r n)) (map (entry_of (drNodes r)) (as @ n # bs)) = map (entry_of (drNodes r)) (as @ bs)"
proof -
  have d: "\<forall>x \<in> set (as @ bs). ndKey (drNodes r x) \<noteq> ndKey (drNodes r n)" using other_keys[OF assms] by blast
  show "List.find (\<lambda>x. leKey x = ndKey (drNodes r n)) (map (entry_of (drNodes r)) (as @ n # bs)) = Some (entry_of (drNodes r) n)"
    unfolding map_append by (subst find_skip) (use d in \<open>auto simp: entry_of_def\<close>)
  have keep: "filter (\<lambda>x. leKey x \<noteq> ndKey (drNodes r n)) (map (entry_of (drNodes r)) zs) = map (entry_of (drNodes r)) zs" if "set zs \<subseteq> set (as @ bs)" for zs
    using d that by (intro filter_True) (auto simp: entry_of_def)
  show "without (ndKey (drNodes r n)) (map (entry_of (drNodes r)) (as @ n # bs)) = map (entry_of (drNodes r)) (as @ bs)"
    using keep[of as] keep[of bs] by (simp add: without_def) (simp add: entry_of_def)
qed

lemma find_none:
  assumes "chained r ns" and "js_get (drMap r) key = None"
  shows "key \<notin> leKey ` set (map (entry_of (drNodes r)) ns)"
  using assms unfolding chained_def by (auto simp: entry_of_def) (metis option.distinct(1))

lemma chain_parts:
  assumes "chained r (as @ n # bs)"
  shows "linked (removeNode n (drNodes r)) (0 # (as @ bs) @ [1])" and "entry_of (removeNode n (drNodes r)) = entry_of (drNodes r)"
    and "\<And>x. ndKey (removeNode n (drNodes r) x) = ndKey (drNodes r x)"
proof -
  have l: "linked (drNodes r) ((0 # as) @ n # (bs @ [1]))" "distinct ((0 # as) @ n # (bs @ [1]))" using assms by (auto simp: chained_def)
  show "linked (removeNode n (drNodes r)) (0 # (as @ bs) @ [1])" using linked_remove(1)[OF l] by simp
  show "entry_of (removeNode n (drNodes r)) = entry_of (drNodes r)" using linked_remove(2)[OF l] by (auto simp: entry_of_def)
  show "ndKey (removeNode n (drNodes r) x) = ndKey (drNodes r x)" for x using linked_remove(2)[OF l] by simp
qed

lemma chained_delete:
  assumes "chained r (as @ n # bs)"
  shows "chained (r\<lparr>drNodes := removeNode n (drNodes r), drMap := js_delete (drMap r) (ndKey (drNodes r n))\<rparr>) (as @ bs)"
proof -
  note p = chain_parts[OF assms]
  have d: "\<forall>x \<in> set (as @ bs). ndKey (drNodes r x) \<noteq> ndKey (drNodes r n)" using other_keys[OF assms] by blast
  have "js_get (js_delete (drMap r) (ndKey (drNodes r n))) k = Some x \<longleftrightarrow> x \<in> set (as @ bs) \<and> ndKey (drNodes r x) = k" for k x
    using assms d by (auto simp: chained_def js_get_delete)
  then show ?thesis using assms p by (auto simp: chained_def js_wf_delete)
qed

lemma chained_front:
  assumes "chained r (as @ n # bs)"
  shows "chained (r\<lparr>drNodes := insertAfterHead n (removeNode n (drNodes r))\<rparr>) (n # as @ bs)"
    and "entry_of (insertAfterHead n (removeNode n (drNodes r))) = entry_of (drNodes r)"
proof -
  note p = chain_parts[OF assms]
  have d: "distinct (0 # as @ n # bs @ [1])" using assms by (simp add: chained_def)
  have i: "linked (removeNode n (drNodes r)) (0 # (as @ bs @ [1]))" "as @ bs @ [1] \<noteq> []" "distinct (0 # (as @ bs @ [1]))" "n \<notin> set (0 # (as @ bs @ [1]))"
    using p(1) d by auto
  note q = linked_insert[OF i]
  show e: "entry_of (insertAfterHead n (removeNode n (drNodes r))) = entry_of (drNodes r)" using q(2) p(2) by (auto simp: entry_of_def fun_eq_iff)
  have k: "ndKey (insertAfterHead n (removeNode n (drNodes r)) x) = ndKey (drNodes r x)" for x using q(2) p(3) by simp
  show "chained (r\<lparr>drNodes := insertAfterHead n (removeNode n (drNodes r))\<rparr>) (n # as @ bs)"
    using assms q(1) k by (auto simp: chained_def)
qed

lemma map_found:
  assumes "chained r ns" and "js_get (drMap r) key = Some n"
  shows "\<exists>as bs. ns = as @ n # bs \<and> ndKey (drNodes r n) = key"
proof -
  have "n \<in> set ns \<and> ndKey (drNodes r n) = key" using assms by (simp add: chained_def)
  then show ?thesis by (auto dest: split_list)
qed

lemma lruGet_lemma:
  assumes "represents r xs"
  shows "fst (lruGet now key r) = fst (absGet now key xs) \<and> represents (snd (lruGet now key r)) (snd (absGet now key xs))"
proof -
  obtain ns where c: "chained r ns" and xs: "xs = map (entry_of (drNodes r)) ns" using assms by (auto simp: represents_def)
  show ?thesis
  proof (cases "js_get (drMap r) key")
    case None
    then have "List.find (\<lambda>x. leKey x = key) xs = None" using find_none[OF c] unfolding xs by (auto simp: find_None_iff)
    then show ?thesis using None assms by (simp add: lruGet_def absGet_def)
  next
    case (Some n)
    obtain as bs where ns: "ns = as @ n # bs" "ndKey (drNodes r n) = key" using map_found[OF c Some] by blast
    note c' = c[unfolded ns(1)]
    note f = find_entry[OF c', unfolded ns(2)]
    show ?thesis
    proof (cases "ndExpires (drNodes r n) \<noteq> 0 \<and> ndExpires (drNodes r n) \<le> now")
      case True
      have "represents (r\<lparr>drNodes := removeNode n (drNodes r), drMap := js_delete (drMap r) key\<rparr>) (map (entry_of (drNodes r)) (as @ bs))"
        unfolding represents_def using chained_delete[OF c'] chain_parts(2)[OF c'] by (intro exI[of _ "as @ bs"]) (simp add: ns(2))
      then show ?thesis using True Some f unfolding xs ns(1) by (simp add: lruGet_def absGet_def entry_of_def)
    next
      case False
      have "represents (r\<lparr>drNodes := insertAfterHead n (removeNode n (drNodes r))\<rparr>) (map (entry_of (drNodes r)) (n # as @ bs))"
        unfolding represents_def using chained_front[OF c'] by (intro exI[of _ "n # as @ bs"]) simp
      moreover have "(ndExpires (drNodes r n) \<noteq> 0 \<and> ndExpires (drNodes r n) \<le> now) = False" using False by blast
      ultimately show ?thesis using Some f unfolding xs ns(1) by (simp only: lruGet_def absGet_def option.case if_False fst_conv snd_conv)
        (simp add: entry_of_def False)
    qed
  qed
qed

text \<open>Setting a key that is there: its node gets the value and moves to the front.\<close>

lemma chained_update:
  assumes "chained r ns" and "n \<in> set ns"
  shows "chained (r\<lparr>drNodes := (drNodes r)(n := (drNodes r n)\<lparr>ndValue := v, ndExpires := t\<rparr>)\<rparr>) ns"
proof -
  let ?h = "(drNodes r)(n := (drNodes r n)\<lparr>ndValue := v, ndExpires := t\<rparr>)"
  have "linked ?h xs = linked (drNodes r) xs" for xs by (intro linked_cong) auto
  moreover have "ndKey (?h x) = ndKey (drNodes r x)" for x by simp
  ultimately show ?thesis using assms(1) unfolding chained_def by simp
qed

lemma chained_evict:
  assumes "chained r ns" and "int (length ns) \<le> drCapacity r"
  shows "\<exists>ms. chained (evictLast r) ms \<and> int (length ms) < drCapacity r \<and> set ms \<subseteq> set ns \<and> drFresh (evictLast r) = drFresh r \<and>
    drTtl (evictLast r) = drTtl r \<and> drCapacity (evictLast r) = drCapacity r \<and>
    map (entry_of (drNodes (evictLast r))) ms = (if int (length ns) < drCapacity r then map (entry_of (drNodes r)) ns else butlast (map (entry_of (drNodes r)) ns))"
proof (cases "int (length ns) < drCapacity r")
  case True
  then show ?thesis using assms(1) chained_size[OF assms(1)] by (intro exI[of _ ns]) (simp add: evictLast_def)
next
  case False
  have "1 \<le> drCapacity r" using assms(1) by (simp add: chained_def)
  then have "ns \<noteq> []" using False by auto
  then obtain as n where ns: "ns = as @ [n]" by (cases ns rule: rev_cases) auto
  have l: "linked (drNodes r) ((0 # as) @ n # [1])" "n \<noteq> 0" using assms(1) by (auto simp: chained_def ns)
  then have "ndPrev (drNodes r 1) = Some n" using iffD1[OF linked_append l(1)] by simp
  then have e: "evictLast r = r\<lparr>drNodes := removeNode n (drNodes r), drMap := js_delete (drMap r) (ndKey (drNodes r n))\<rparr>"
    using False l(2) chained_size[OF assms(1)] by (simp add: evictLast_def Let_def)
  have c: "chained r (as @ n # [])" using assms(1) by (simp add: ns)
  have "chained (evictLast r) as" using chained_delete[OF c] by (simp add: e)
  moreover have "map (entry_of (drNodes (evictLast r))) as = butlast (map (entry_of (drNodes r)) ns)"
    using chain_parts(2)[OF c] by (simp add: e ns)
  ultimately show ?thesis using False assms(2) by (intro exI[of _ as]) (auto simp: e ns)
qed

lemma chained_new:
  assumes "chained r ns" and "js_get (drMap r) key = None" and "n = drFresh r" and "v = \<lparr>ndKey = key, ndValue = d, ndExpires = t, ndPrev = None, ndNext = None\<rparr>"
  shows "chained (r\<lparr>drMap := js_set (drMap r) key n, drNodes := insertAfterHead n ((drNodes r)(n := v)), drFresh := Suc n\<rparr>) (n # ns)"
    and "map (entry_of (insertAfterHead n ((drNodes r)(n := v)))) (n # ns) = \<lparr>leKey = key, leValue = d, leExpires = t\<rparr> # map (entry_of (drNodes r)) ns"
proof -
  let ?h = "(drNodes r)(n := v)"
  have n: "n \<notin> set (0 # ns @ [1])" using assms(1,3) by (auto simp: chained_def)
  have i: "linked ?h (0 # (ns @ [1]))" "ns @ [1] \<noteq> []" "distinct (0 # (ns @ [1]))" "n \<notin> set (0 # (ns @ [1]))"
    using assms(1) n linked_frame[OF n, of "drNodes r" v] by (auto simp: chained_def)
  note q = linked_insert[OF i]
  have e: "entry_of (insertAfterHead n ?h) = entry_of ?h" using q(2) by (auto simp: entry_of_def fun_eq_iff)
  have k: "ndKey (insertAfterHead n ?h x) = (if x = n then key else ndKey (drNodes r x))" for x using q(2)[of x] assms(4) by simp
  have old: "map (entry_of ?h) ns = map (entry_of (drNodes r)) ns" using n by (auto simp: entry_of_def)
  show "map (entry_of (insertAfterHead n ?h)) (n # ns) = \<lparr>leKey = key, leValue = d, leExpires = t\<rparr> # map (entry_of (drNodes r)) ns"
    unfolding e using old assms(4) by (simp add: entry_of_def)
  have fresh: "\<forall>x \<in> set ns. ndKey (drNodes r x) \<noteq> key" using assms(1,2) unfolding chained_def by (metis option.distinct(1))
  have keys: "map (\<lambda>x. ndKey (insertAfterHead n ?h x)) (n # ns) = key # map (\<lambda>x. ndKey (drNodes r x)) ns" using n by (auto simp: k)
  have "distinct (map (\<lambda>x. ndKey (insertAfterHead n ?h x)) (n # ns))" unfolding keys using assms(1) fresh by (auto simp: chained_def)
  moreover have "js_get (js_set (drMap r) key n) j = Some x \<longleftrightarrow> x \<in> set (n # ns) \<and> ndKey (insertAfterHead n ?h x) = j" for j x
    using assms(1) fresh n by (auto simp: js_get_set k chained_def)
  ultimately show "chained (r\<lparr>drMap := js_set (drMap r) key n, drNodes := insertAfterHead n ?h, drFresh := Suc n\<rparr>) (n # ns)"
    using assms(1,3) q(1) n by (auto simp: chained_def js_wf_set)
qed

lemma lruSet_lemma:
  assumes "represents r xs" and "int (length xs) \<le> drCapacity r"
  shows "represents (lruSet now key v r) (absSet (drCapacity r) (drTtl r) now key v xs) \<and> drCapacity (lruSet now key v r) = drCapacity r"
proof -
  obtain ns where c: "chained r ns" and xs: "xs = map (entry_of (drNodes r)) ns" using assms(1) by (auto simp: represents_def)
  show ?thesis
  proof (cases "js_get (drMap r) key")
    case (Some n)
    obtain as bs where ns: "ns = as @ n # bs" "ndKey (drNodes r n) = key" using map_found[OF c Some] by blast
    let ?r = "r\<lparr>drNodes := (drNodes r)(n := (drNodes r n)\<lparr>ndValue := v, ndExpires := expiry (drTtl r) now\<rparr>)\<rparr>"
    have u: "chained ?r (as @ n # bs)" using chained_update[OF c, of n] by (simp add: ns(1))
    have d: "n \<notin> set (as @ bs)" using c by (auto simp: chained_def ns(1))
    have "map (entry_of (drNodes ?r)) (as @ bs) = map (entry_of (drNodes r)) (as @ bs)" using d by (auto simp: entry_of_def)
    moreover have "entry_of (drNodes ?r) n = \<lparr>leKey = key, leValue = v, leExpires = expiry (drTtl r) now\<rparr>" using ns(2) by (simp add: entry_of_def)
    moreover have "without key xs = map (entry_of (drNodes r)) (as @ bs)" using find_entry(2)[of r as n bs] c by (simp add: xs ns)
    moreover have "key \<in> leKey ` set xs" using ns by (force simp: xs entry_of_def)
    ultimately have a: "absSet (drCapacity r) (drTtl r) now key v xs = map (entry_of (drNodes ?r)) (n # as @ bs)" by (simp add: absSet_def)
    have s: "lruSet now key v r = ?r\<lparr>drNodes := insertAfterHead n (removeNode n (drNodes ?r))\<rparr>" using Some by (simp add: lruSet_def Let_def)
    show ?thesis unfolding a s represents_def using chained_front[OF u] by (intro conjI exI[of _ "n # as @ bs"]) simp_all
  next
    case None
    obtain ms where m: "chained (evictLast r) ms" "set ms \<subseteq> set ns" "drFresh (evictLast r) = drFresh r" "drTtl (evictLast r) = drTtl r"
      "drCapacity (evictLast r) = drCapacity r"
      "map (entry_of (drNodes (evictLast r))) ms = (if int (length ns) < drCapacity r then xs else butlast xs)"
      using chained_evict[OF c] assms(2) by (auto simp: xs)
    have fresh: "key \<notin> leKey ` set xs" using find_none[OF c None] by (simp add: xs)
    have "js_get (drMap (evictLast r)) key = None" using None by (simp add: evictLast_def Let_def js_get_delete)
    note new = chained_new[OF m(1) this refl refl, of v "expiry (drTtl r) now"]
    let ?n = "drFresh (evictLast r)"
    let ?h = "insertAfterHead ?n ((drNodes (evictLast r))(?n := \<lparr>ndKey = key, ndValue = v, ndExpires = expiry (drTtl r) now, ndPrev = None, ndNext = None\<rparr>))"
    have s: "lruSet now key v r = (evictLast r)\<lparr>drMap := js_set (drMap (evictLast r)) key ?n, drNodes := ?h, drFresh := Suc ?n\<rparr>"
      using None by (simp add: lruSet_def Let_def)
    have a: "absSet (drCapacity r) (drTtl r) now key v xs = map (entry_of ?h) (?n # ms)"
      unfolding new(2) using fresh m(6) by (simp add: absSet_def xs)
    show ?thesis unfolding a s represents_def using new(1) m(5) by (intro conjI exI[of _ "?n # ms"]) simp_all
  qed
qed


section \<open>What the cache keeps\<close>

lemma absSet_length: "1 \<le> cp \<Longrightarrow> int (length xs) \<le> cp \<Longrightarrow> int (length (absSet cp tl0 now key v xs)) \<le> cp"
proof -
  assume a: "1 \<le> cp" "int (length xs) \<le> cp"
  have "length (without key xs) < length xs" if k: "key \<in> leKey ` set xs"
  proof -
    obtain x where "x \<in> set xs" "leKey x = key" using k by auto
    then show ?thesis unfolding without_def by (intro length_filter_less[of x]) auto
  qed
  then show ?thesis using a by (auto simp: absSet_def)
qed

lemma absGet_length: "length (snd (absGet now key xs)) \<le> length xs"
proof (cases "List.find (\<lambda>x. leKey x = key) xs")
  case (Some x)
  then have "x \<in> set xs" "leKey x = key" by (auto simp: find_Some_iff)
  then have "length (without key xs) < length xs" unfolding without_def by (intro length_filter_less[of x]) auto
  then show ?thesis using Some by (simp add: absGet_def)
qed (simp add: absGet_def)

datatype cache_op = GetOp int string | SetOp int string int | ClearOp

fun run_op :: "cache_op \<Rightarrow> resolver \<Rightarrow> resolver" where
  "run_op (GetOp now key) r = snd (lruGet now key r)"
| "run_op (SetOp now key v) r = lruSet now key v r"
| "run_op ClearOp r = lruClear r"

definition within_capacity :: "resolver \<Rightarrow> bool" where
  "within_capacity r \<longleftrightarrow> (\<exists>xs. represents r xs \<and> int (length xs) \<le> drCapacity r)"

lemma lruGet_capacity: "drCapacity (snd (lruGet now key r)) = drCapacity r"
  by (simp add: lruGet_def split: option.splits)

lemma represents_capacity: "represents r xs \<Longrightarrow> 1 \<le> drCapacity r"
  by (auto simp: represents_def chained_def)

lemma run_op_within: "within_capacity r \<Longrightarrow> within_capacity (run_op op r) \<and> drCapacity (run_op op r) = drCapacity r"
proof -
  assume "within_capacity r"
  then obtain xs where x: "represents r xs" "int (length xs) \<le> drCapacity r" by (auto simp: within_capacity_def)
  show ?thesis
  proof (cases op)
    case (GetOp now key)
    have "int (length (snd (absGet now key xs))) \<le> drCapacity r" using absGet_length[of now key xs] x(2) by linarith
    then show ?thesis using lruGet_lemma[OF x(1)] lruGet_capacity unfolding GetOp within_capacity_def by auto
  next
    case (SetOp now key v)
    then show ?thesis using lruSet_lemma[OF x, of now key v] absSet_length[OF represents_capacity[OF x(1)] x(2), of "drTtl r" now key v]
      unfolding SetOp within_capacity_def by (intro conjI exI[of _ "absSet (drCapacity r) (drTtl r) now key v xs"]) auto
  next
    case ClearOp
    obtain ns where c: "chained r ns" using x(1) by (auto simp: represents_def)
    have "chained (lruClear r) []" using c by (auto simp: chained_def lruClear_def link_ends_def)
    then have "represents (lruClear r) []" unfolding represents_def by (intro exI[of _ "[]"]) simp
    then show ?thesis using represents_capacity[OF x(1)] unfolding ClearOp within_capacity_def by (auto simp: lruClear_def intro!: exI[of _ "[]"])
  qed
qed

lemma fold_within: "within_capacity r \<Longrightarrow> within_capacity (fold run_op ops r) \<and> drCapacity (fold run_op ops r) = drCapacity r"
proof (induction ops arbitrary: r)
  case (Cons op ops)
  then show ?case using run_op_within[OF Cons.prems, of op] Cons.IH[of "run_op op r"] by simp
qed simp

lemma new_represents: "newResolver numText c t = Inr r \<Longrightarrow> represents r []"
proof -
  assume n: "newResolver numText c t = Inr r"
  have "chained r []" using n by (auto simp: newResolver_def Let_def chained_def link_ends_def blank_node_def le_floor_iff split: if_splits)
  then show ?thesis unfolding represents_def by (intro exI[of _ "[]"]) simp
qed

text \<open>From its construction on, whatever is done with it, the cache is a list within its capacity.\<close>

theorem cache_bounded:
  assumes "newResolver numText c t = Inr r"
  shows "int (lruSize (fold run_op ops r)) \<le> drCapacity r"
proof -
  have r: "represents r []" using new_represents[OF assms] .
  have "within_capacity r" unfolding within_capacity_def using r represents_capacity[OF r] by (intro exI[of _ "[]"]) simp
  then have "within_capacity (fold run_op ops r) \<and> drCapacity (fold run_op ops r) = drCapacity r" by (rule fold_within)
  then obtain xs where "represents (fold run_op ops r) xs" "int (length xs) \<le> drCapacity r" by (auto simp: within_capacity_def)
  then show ?thesis using chained_size by (auto simp: represents_def lruSize_def)
qed

lemma take_filter: "x \<in> set (take m xs) \<Longrightarrow> P x \<Longrightarrow> x \<in> set (take m (filter P xs))"
proof (induction xs arbitrary: m)
  case (Cons y ys)
  obtain j where m: "m = Suc j" using Cons.prems(1) by (cases m) auto
  show ?case
  proof (cases "P y")
    case False
    then have "x \<in> set (take j (filter P ys))" using Cons m by auto
    moreover have "set (take j (filter P ys)) \<subseteq> set (take m (filter P ys))" by (rule set_take_subset_set_take) (simp add: m)
    ultimately show ?thesis using False by auto
  qed (use Cons m in auto)
qed simp

lemma absSet_keeps:
  assumes "k \<in> leKey ` set (take m xs)" and "int m < cp" and "int (length xs) \<le> cp"
  shows "k \<in> leKey ` set (take (Suc m) (absSet cp tl0 now key v xs))"
proof (cases "k = key")
  case False
  obtain x where x: "x \<in> set (take m xs)" "leKey x = k" using assms(1) by auto
  consider "key \<in> leKey ` set xs" | "key \<notin> leKey ` set xs" "int (length xs) < cp" | "key \<notin> leKey ` set xs" "int (length xs) = cp" using assms(3) by linarith
  then show ?thesis
  proof cases
    case 1
    then show ?thesis using take_filter[OF x(1), of "\<lambda>x. leKey x \<noteq> key"] x(2) False by (auto simp: absSet_def without_def)
  next
    case 3
    then have "m < length xs" using assms(2) by linarith
    then have "take m (butlast xs) = take m xs" by (simp add: take_butlast)
    then show ?thesis using 3 x by (auto simp: absSet_def)
  qed (use x in \<open>auto simp: absSet_def\<close>)
qed (simp add: absSet_def)

text \<open>What was used last survives as many writes as the capacity less one, whatever they write.\<close>

theorem recent_survives:
  assumes "xs = x # ys" and "1 \<le> cp" and "int (length xs) \<le> cp" and "int (length writes) < cp"
  shows "leKey x \<in> leKey ` set (fold (\<lambda>(now, key, v). absSet cp tl0 now key v) writes xs)"
proof -
  have "leKey x \<in> leKey ` set (take (m + length ws) (fold (\<lambda>(now, key, v). absSet cp tl0 now key v) ws zs))"
    if "leKey x \<in> leKey ` set (take m zs)" "int (m + length ws) \<le> cp" "int (length zs) \<le> cp" for m ws zs
    using that
  proof (induction ws arbitrary: m zs)
    case (Cons op ws)
    obtain now key v where op: "op = (now, key, v)" by (metis surj_pair)
    have "int m < cp" using Cons.prems(2) by simp
    then show ?case using Cons.IH[of "Suc m" "absSet cp tl0 now key v zs"] absSet_keeps[OF Cons.prems(1) _ Cons.prems(3)] absSet_length[OF assms(2) Cons.prems(3)]
        Cons.prems(2) op by simp
  qed simp
  from this[of 1 xs writes] show ?thesis using assms by (auto dest: in_set_takeD)
qed

text \<open>A failed read answers 7 and is not remembered.\<close>

theorem failure_not_cached:
  assumes "represents (rvCache e w) xs" and "List.find (\<lambda>x. leKey x = address) xs = None" and "rvUpdate e (\<lambda>_. rvCache e w) w = w"
    and "rvDecimals e address w = (Inl err, w')"
  shows "resolveDecimals e address w = (Inr 7, w')"
proof -
  obtain ns where c: "chained (rvCache e w) ns" and xs: "xs = map (entry_of (drNodes (rvCache e w))) ns" using assms(1) by (auto simp: represents_def)
  have "js_get (drMap (rvCache e w)) address = None"
  proof (cases "js_get (drMap (rvCache e w)) address")
    case (Some n)
    then obtain as bs where "ns = as @ n # bs" "ndKey (drNodes (rvCache e w) n) = address" using map_found[OF c] by blast
    then show ?thesis using find_entry(1)[of "rvCache e w" as n bs] c assms(2) by (simp add: xs)
  qed
  then show ?thesis using assms(3,4) by (simp add: resolveDecimals_def lruGet_def)
qed

section \<open>Witnesses\<close>

definition pair_resolver :: resolver where
  "pair_resolver = \<lparr>drCapacity = 2, drTtl = 0, drMap = [], drNodes = link_ends (\<lambda>_. blank_node), drFresh = 2\<rparr>"

lemma pair_new: "newResolver (\<lambda>_. []) (Some 2) None = Inr pair_resolver"
  by (simp add: newResolver_def pair_resolver_def TTL_DISABLED_def)

lemma pair_represents: "represents pair_resolver []"
  by (rule new_represents[OF pair_new])


theorem cache_bounded_witness: "int (lruSize (fold run_op [SetOp 0 ''A'' 6, SetOp 0 ''B'' 7, SetOp 0 ''C'' 8] pair_resolver)) \<le> 2"
  using cache_bounded[OF pair_new, of "[SetOp 0 ''A'' 6, SetOp 0 ''B'' 7, SetOp 0 ''C'' 8]"] by (simp add: pair_resolver_def)

theorem recent_survives_witness:
  "''A'' \<in> leKey ` set (fold (\<lambda>(now, key, v). absSet 2 0 now key v) [(0, ''B'', 7)] [\<lparr>leKey = ''A'', leValue = 6, leExpires = 0\<rparr>])"
  using recent_survives[of "[\<lparr>leKey = ''A'', leValue = 6, leExpires = 0\<rparr>]" "\<lparr>leKey = ''A'', leValue = 6, leExpires = 0\<rparr>" "[]" 2 "[(0, ''B'', 7)]" 0] by simp

theorem failure_not_cached_witness:
  "resolveDecimals \<lparr>rvCache = id, rvUpdate = id, rvNow = \<lambda>_. 0, rvDecimals = \<lambda>_ w. (Inl Undefined, w)\<rparr> ''T'' pair_resolver = (Inr 7, pair_resolver)"
  by (rule failure_not_cached[where xs = "[]" and err = Undefined]) (simp_all add: pair_represents)

end
