(* ===== verification/Leaderboard.thy ===== *)
theory Leaderboard
  imports Treasury DecimalsResolver
begin

text \<open>
  \<open>modules/leaderboard.ts\<close>: rankings by the volume of swaps or the liquidity added, and of traders by USD volume. Prices
  and swap histories come from \<open>Treasury\<close> and \<open>SwapHistory\<close>, decimals from the cache of \<open>DecimalsResolver\<close>. Numbers are
  exact rationals; the warning about a capped result is not modelled.
\<close>

section \<open>Data\<close>

datatype board_type = LpBoard | TraderBoard

datatype board_period = Day | Week | Month

record board_entry =
  beRank :: nat
  beAddress :: string
  beYield :: bool
  beValue :: int
  beChange :: rat

record board_options =
  boPeriod :: board_period
  boLimit :: "int option"
  boPair :: "string option"

record trader_ranking =
  trAccount :: string
  trVolume :: rat
  trTrades :: nat
  trAverage :: rat
  trPool :: string
  trWinRate :: rat

record trader_options =
  toPeriodDays :: "rat option"
  toPair :: "string option"
  toLimit :: "int option"
  toStable :: "string list option"
  toFromLedger :: "int option"
  toToLedger :: "int option"

record 'w board_env =
  lbValid :: "string \<Rightarrow> bool"
  lbLedger :: "('w, thrown, int) act"
  lbEvents :: "'w event_env"
  lbAddress :: "scval \<Rightarrow> string option"
  lbHistory :: "'w history_env"
  lbTreasury :: "'w treasury_env"
  lbResolver :: "'w resolver_env"

definition MAX_LEADERBOARD_EVENTS :: rat where
  "MAX_LEADERBOARD_EVENTS = 1000"

definition LEADERBOARD_LEDGERS_PER_DAY :: int where
  "LEADERBOARD_LEDGERS_PER_DAY = 17280"

definition periodLedgers :: "board_period \<Rightarrow> int" where
  "periodLedgers p = (case p of Day \<Rightarrow> LEADERBOARD_LEDGERS_PER_DAY | Week \<Rightarrow> LEADERBOARD_LEDGERS_PER_DAY * 7
     | Month \<Rightarrow> LEADERBOARD_LEDGERS_PER_DAY * 30)"

definition board_topic :: "board_type \<Rightarrow> string" where
  "board_topic t = (case t of TraderBoard \<Rightarrow> ''swap'' | LpBoard \<Rightarrow> ''add_liquidity'')"

text \<open>An absent pair and an empty one are the same to every test of the code.\<close>

definition given_pair :: "string option \<Rightarrow> string option" where
  "given_pair p = (case p of Some (c # cs) \<Rightarrow> Some (c # cs) | _ \<Rightarrow> None)"

definition validatePair :: "(string \<Rightarrow> bool) \<Rightarrow> string option \<Rightarrow> unit result" where
  "validatePair valid p = (case given_pair p of None \<Rightarrow> Inr () | Some a \<Rightarrow> validateAddress valid a ''pairAddress'')"

section \<open>The board\<close>

definition boardValue :: "(scval \<Rightarrow> string option) \<Rightarrow> board_type \<Rightarrow> string option \<Rightarrow> raw_event \<Rightarrow> (string \<times> int) option" where
  "boardValue addr t pair ev = (if (case given_pair pair of None \<Rightarrow> False | Some p \<Rightarrow> erContract ev \<noteq> Some p) \<or> topicName ev \<noteq> board_topic t then None
     else case Option.bind (erValue ev) decodeMapEvent of None \<Rightarrow> None
     | Some m \<Rightarrow> (case (readAddress addr m (case t of TraderBoard \<Rightarrow> ''sender'' | LpBoard \<Rightarrow> ''provider''),
           readI128 m (case t of TraderBoard \<Rightarrow> ''amount_in'' | LpBoard \<Rightarrow> ''liquidity'')) of
         (Some a, Some v) \<Rightarrow> Some (a, v) | _ \<Rightarrow> None))"

definition add_to :: "int js_map \<Rightarrow> string \<Rightarrow> int \<Rightarrow> int js_map" where
  "add_to m a v = js_set m a (or_else (js_get m a) 0 + v)"

definition in_ledgers :: "int \<Rightarrow> int \<Rightarrow> raw_event \<Rightarrow> bool" where
  "in_ledgers l u ev = (case erLedger ev of Some n \<Rightarrow> l \<le> n \<and> n \<le> u | None \<Rightarrow> False)"

definition sumIn :: "(raw_event \<Rightarrow> (string \<times> int) option) \<Rightarrow> (raw_event \<Rightarrow> bool) \<Rightarrow> raw_event list \<Rightarrow> int js_map" where
  "sumIn value inside evs = fold (\<lambda>ev m. case value ev of Some (a, v) \<Rightarrow> if inside ev then add_to m a v else m | None \<Rightarrow> m) evs []"

definition changeOver :: "int \<Rightarrow> int \<Rightarrow> rat" where
  "changeOver v prev = (if 0 < prev then of_int ((v - prev) * 10000 sdiv prev) / 100 else if 0 < v then 100 else 0)"

definition by_value :: "board_entry \<Rightarrow> board_entry \<Rightarrow> int" where
  "by_value a b = (if beValue a < beValue b then 1 else if beValue b < beValue a then -1 else 0)"

definition ranked :: "board_entry list \<Rightarrow> board_entry list" where
  "ranked es = map (\<lambda>(i, x). x\<lparr>beRank := Suc i\<rparr>) (enumerate 0 (sort_by by_value es))"

text \<open>\<open>slice(0, n)\<close> counts a negative \<open>n\<close> from the end.\<close>

definition slice0 :: "int \<Rightarrow> 'a list \<Rightarrow> 'a list" where
  "slice0 n xs = take (if 0 \<le> n then nat n else length xs - nat (- n)) xs"

definition boardOf :: "board_type \<Rightarrow> int option \<Rightarrow> int js_map \<Rightarrow> int js_map \<Rightarrow> board_entry list" where
  "boardOf t most current previous = (let es = ranked (map (\<lambda>(a, v). \<lparr>beRank = 0, beAddress = a, beYield = (t = LpBoard), beValue = v,
       beChange = changeOver v (or_else (js_get previous a) 0)\<rparr>) (js_entries current))
     in slice0 (case most of Some n \<Rightarrow> n | None \<Rightarrow> int (length es)) es)"

definition boardOfEvents :: "(scval \<Rightarrow> string option) \<Rightarrow> board_type \<Rightarrow> board_options \<Rightarrow> int \<Rightarrow> raw_event list \<Rightarrow> board_entry list" where
  "boardOfEvents addr t opts currentLedger evs =
     (let start = max MIN_START_LEDGER (currentLedger - (periodLedgers (boPeriod opts) + LEADERBOARD_LEDGERS_PER_DAY));
        value = boardValue addr t (boPair opts);
        current = sumIn value (in_ledgers (max start (currentLedger - periodLedgers (boPeriod opts))) currentLedger) evs;
        previous = sumIn value (in_ledgers start (max start (currentLedger - LEADERBOARD_LEDGERS_PER_DAY))) evs
      in if evs = [] then [] else boardOf t (boLimit opts) current previous)"

definition getLeaderboard :: "('x cursor_state_scheme) board_env \<Rightarrow> nat \<Rightarrow> board_type \<Rightarrow> board_options \<Rightarrow> 'x cursor_state_scheme \<Rightarrow>
    ((thrown + board_entry list) \<times> 'x cursor_state_scheme) option" where
  "getLeaderboard e fuel t opts w = (case bindW (liftW (validatePair (lbValid e) (boPair opts))) (\<lambda>_. lbLedger e) w of
       (Inl x, w1) \<Rightarrow> Some (Inl x, w1)
     | (Inr current, w1) \<Rightarrow> map_option (\<lambda>(r, w2). (map_sum id (\<lambda>s. boardOfEvents (lbAddress e) t opts current (scanEvents s)) r, w2))
         (scan (lbEvents e) (newCursorOptions None None) fuel
           \<lparr>spContracts = Some (case given_pair (boPair opts) of Some p \<Rightarrow> [p] | None \<Rightarrow> []), spTopics = Some [board_topic t],
             spFrom = Some (max MIN_START_LEDGER (current - (periodLedgers (boPeriod opts) + LEADERBOARD_LEDGERS_PER_DAY))),
             spTo = Some current, spLimit = Some MAX_LEADERBOARD_EVENTS\<rparr> (reset w1)))"

section \<open>Traders\<close>

record trader_data =
  tdVolume :: rat
  tdTrades :: nat
  tdWins :: nat
  tdPools :: "nat js_map"

definition no_trades :: trader_data where
  "no_trades = \<lparr>tdVolume = 0, tdTrades = 0, tdWins = 0, tdPools = []\<rparr>"

definition swapVolume :: "int js_map \<Rightarrow> rat js_map \<Rightarrow> swap_entry \<Rightarrow> rat" where
  "swapVolume decs prices s = (let pin = price_of prices (seTokenIn s); pout = price_of prices (seTokenOut s) in
     if 0 < pin then shown_amount (seAmountIn s) (or_else (js_get decs (seTokenIn s)) 7) * pin
     else if 0 < pout then shown_amount (seAmountOut s) (or_else (js_get decs (seTokenOut s)) 7) * pout else 0)"

definition isWin :: "int js_map \<Rightarrow> rat js_map \<Rightarrow> swap_entry \<Rightarrow> bool" where
  "isWin decs prices s \<longleftrightarrow> (let pin = price_of prices (seTokenIn s); pout = price_of prices (seTokenOut s) in
     (0 < pin \<or> 0 < pout) \<and> shown_amount (seAmountIn s) (or_else (js_get decs (seTokenIn s)) 7) * pin <
       shown_amount (seAmountOut s) (or_else (js_get decs (seTokenOut s)) 7) * pout)"

definition addTrade :: "int js_map \<Rightarrow> rat js_map \<Rightarrow> swap_entry \<Rightarrow> trader_data js_map \<Rightarrow> trader_data js_map" where
  "addTrade decs prices s m = (let d = or_else (js_get m (seSender s)) no_trades in
     js_set m (seSender s) \<lparr>tdVolume = tdVolume d + swapVolume decs prices s, tdTrades = Suc (tdTrades d),
       tdWins = tdWins d + (if isWin decs prices s then 1 else 0),
       tdPools = js_set (tdPools d) (sePair s) (Suc (or_else (js_get (tdPools d) (sePair s)) 0))\<rparr>)"

definition favoritePool :: "nat js_map \<Rightarrow> string" where
  "favoritePool pools = fst (fold (\<lambda>(p, n) (best, top). if top < int n then (p, int n) else (best, top)) (js_entries pools) ([], -1))"

definition rankingOf :: "string \<times> trader_data \<Rightarrow> trader_ranking" where
  "rankingOf x = (case x of (a, d) \<Rightarrow> \<lparr>trAccount = a, trVolume = tdVolume d, trTrades = tdTrades d,
     trAverage = (if 0 < tdTrades d then tdVolume d / of_nat (tdTrades d) else 0), trPool = favoritePool (tdPools d),
     trWinRate = (if 0 < tdTrades d then of_nat (tdWins d) / of_nat (tdTrades d) * 100 else 0)\<rparr>)"

definition by_volume :: "trader_ranking \<Rightarrow> trader_ranking \<Rightarrow> int" where
  "by_volume a b = (if trVolume a < trVolume b then 1 else if trVolume b < trVolume a then -1 else 0)"

definition tradersOf :: "int js_map \<Rightarrow> rat js_map \<Rightarrow> swap_entry list \<Rightarrow> trader_ranking list" where
  "tradersOf decs prices swaps = sort_by by_volume (map rankingOf (js_entries (fold (addTrade decs prices) swaps [])))"

definition limited :: "int option \<Rightarrow> 'a list \<Rightarrow> 'a list" where
  "limited most xs = (case most of Some n \<Rightarrow> if 0 < n then take (nat n) xs else xs | None \<Rightarrow> xs)"

definition unique_tokens :: "swap_entry list \<Rightarrow> string list" where
  "unique_tokens swaps = List.rev (fold (\<lambda>s ts. List.insert (seTokenOut s) (List.insert (seTokenIn s) ts)) swaps [])"

fun resolveAll :: "'w resolver_env \<Rightarrow> string list \<Rightarrow> int js_map \<Rightarrow> ('w, thrown, int js_map) act" where
  "resolveAll e [] m = retW m"
| "resolveAll e (t # ts) m = bindW (resolveDecimals e t) (\<lambda>d. resolveAll e ts (js_set m t d))"

text \<open>\<open>getPriceMap\<close> is the loop of the treasury over the stablecoins it is given.\<close>

definition getPriceMap :: "'w treasury_env \<Rightarrow> string list \<Rightarrow> string list \<Rightarrow> ('w, thrown, rat js_map) act" where
  "getPriceMap e pairs anchors = buildPriceMap (e\<lparr>trStable := anchors\<rparr>) pairs"

definition getTopTraders :: "('x cursor_state_scheme) board_env \<Rightarrow> nat \<Rightarrow> trader_options \<Rightarrow> 'x cursor_state_scheme \<Rightarrow>
    ((thrown + trader_ranking list) \<times> 'x cursor_state_scheme) option" where
  "getTopTraders e fuel opts w = (case bindW (liftW (validatePair (lbValid e) (toPair opts))) (\<lambda>_. lbLedger e) w of
       (Inl x, w1) \<Rightarrow> Some (Inl x, w1)
     | (Inr current, w1) \<Rightarrow> (let first = or_else (toFromLedger opts) (max 0 (current - \<lfloor>or_else (toPeriodDays opts) 30 * 86400 / 5\<rfloor>));
           final = or_else (toToLedger opts) current
         in case getSwapHistory (lbHistory e) fuel \<lparr>hfPair = toPair opts, hfUser = None, hfFrom = Some (of_int first), hfTo = Some (of_int final),
              hfLimit = Some 10000\<rparr> w1 of
            None \<Rightarrow> None | Some (Inl x, w2) \<Rightarrow> Some (Inl x, w2)
          | Some (Inr swaps, w2) \<Rightarrow> if swaps = [] then Some (Inr [], w2)
              else Some (bindW (resolveAll (lbResolver e) (unique_tokens swaps) []) (\<lambda>decs. bindW (trPairs (lbTreasury e)) (\<lambda>pairs.
                bindW (getPriceMap (lbTreasury e) pairs (or_else (toStable opts) (trStable (lbTreasury e)))) (\<lambda>prices.
                  retW (limited (toLimit opts) (tradersOf decs prices swaps))))) w2)))"

section \<open>What a ranking says\<close>

lemma sumIn_get: "or_else (js_get (fold (\<lambda>ev m. case value ev of Some (a, v) \<Rightarrow> if inside ev then add_to m a v else m | None \<Rightarrow> m) evs m) a) 0 =
    or_else (js_get m a) 0 + sum_list (map snd (filter (\<lambda>x. fst x = a) (List.map_filter value (filter inside evs))))"
proof (induction evs arbitrary: m)
  case (Cons ev evs)
  show ?case
  proof (cases "value ev")
    case (Some x)
    obtain b v where x: "x = (b, v)" by force
    show ?thesis using Cons[of "if inside ev then add_to m b v else m"] Some x
      by (auto simp: add_to_def js_get_set or_else_def List.map_filter_simps)
  qed (use Cons in \<open>simp add: List.map_filter_simps\<close>)
qed (simp add: List.map_filter_simps)

lemma sumIn_wf: "js_wf m \<Longrightarrow> js_wf (fold (\<lambda>ev m. case value ev of Some (a, v) \<Rightarrow> if inside ev then add_to m a v else m | None \<Rightarrow> m) evs m)"
  by (induction evs arbitrary: m) (auto simp: add_to_def js_wf_set split: option.splits)

lemma ranked_ranks: "map beRank (ranked es) = map Suc [0..<length es]"
proof -
  have l: "length (sort_by by_value es) = length es" using arg_cong[OF sort_by_mset[of by_value es], of size] by simp
  have "map (beRank \<circ> (\<lambda>(i, x). x\<lparr>beRank := Suc i\<rparr>)) (enumerate k xs) = map Suc [k..<k + length xs]" for k xs
    by (rule nth_equalityI) (auto simp: nth_enumerate_eq)
  from this[of 0 "sort_by by_value es"] show ?thesis by (simp add: ranked_def l)
qed

lemma ranked_same: "map f (ranked es) = map f (sort_by by_value es)" if "\<And>x n. f (x\<lparr>beRank := n\<rparr>) = f x"
proof -
  have "map (f \<circ> (\<lambda>(i, x). x\<lparr>beRank := Suc i\<rparr>)) (enumerate k xs) = map f xs" for k xs using that by (induction xs arbitrary: k) auto
  then show ?thesis by (simp add: ranked_def)
qed

lemma by_value_sorted: "sorted_wrt (\<lambda>x y. beValue y \<le> beValue x) (sort_by by_value es)"
proof -
  have "sorted_wrt (\<lambda>x y. by_value x y \<le> 0) (sort_by by_value es)"
    by (rule sort_by_sorted) (auto simp: by_value_def split: if_splits)
  then show ?thesis by (rule sorted_wrt_mono_rel[rotated]) (auto simp: by_value_def split: if_splits)
qed

lemma sumIn_keys: "set (map fst (js_entries (fold (\<lambda>ev m. case value ev of Some (a, v) \<Rightarrow> if inside ev then add_to m a v else m | None \<Rightarrow> m) evs m))) =
    set (map fst (js_entries m)) \<union> fst ` set (List.map_filter value (filter inside evs))"
proof (induction evs arbitrary: m)
  case (Cons ev evs)
  show ?case
  proof (cases "value ev")
    case (Some x)
    obtain b v where x: "x = (b, v)" by force
    have "set (map fst (js_entries (add_to m b v))) = insert b (set (map fst (js_entries m)))"
      unfolding add_to_def js_keys_set using js_get_None[of m b] by auto
    then show ?thesis using Cons[of "if inside ev then add_to m b v else m"] Some x by (auto simp: List.map_filter_simps)
  qed (use Cons in \<open>simp add: List.map_filter_simps\<close>)
qed (simp add: List.map_filter_simps)


text \<open>The two windows of a daily board share the ledger between them: what happens there counts as before and as now.\<close>

theorem boundary_counts_twice:
  assumes "erLedger ev = Some (current - LEADERBOARD_LEDGERS_PER_DAY)" and "1 \<le> current - LEADERBOARD_LEDGERS_PER_DAY"
  shows "let start = max MIN_START_LEDGER (current - (periodLedgers Day + LEADERBOARD_LEDGERS_PER_DAY)) in
    in_ledgers (max start (current - periodLedgers Day)) current ev \<and> in_ledgers start (max start (current - LEADERBOARD_LEDGERS_PER_DAY)) ev"
  using assms by (simp add: in_ledgers_def periodLedgers_def LEADERBOARD_LEDGERS_PER_DAY_def MIN_START_LEDGER_def Let_def)

section \<open>What the traders' ranking says\<close>

lemma js_sum_set: "sum_list (map (\<lambda>x. f (snd x)) (js_entries (js_set m k v))) + (case js_get m k of Some u \<Rightarrow> f u | None \<Rightarrow> 0) =
    sum_list (map (\<lambda>x. f (snd x)) (js_entries m)) + f v" for f :: "'a \<Rightarrow> 'b :: comm_monoid_add"
  by (induction m k v rule: js_set.induct) (auto simp: ac_simps)

lemma js_set_values: "snd ` set (js_entries (js_set m k v)) \<subseteq> insert v (snd ` set (js_entries m))"
  by (induction m k v rule: js_set.induct) auto

lemma addTrade_sum:
  fixes f :: "trader_data \<Rightarrow> 'b :: ab_group_add"
  assumes "f no_trades = 0" and "\<And>d. f \<lparr>tdVolume = tdVolume d + swapVolume decs prices s, tdTrades = Suc (tdTrades d),
      tdWins = tdWins d + (if isWin decs prices s then 1 else 0),
      tdPools = js_set (tdPools d) (sePair s) (Suc (or_else (js_get (tdPools d) (sePair s)) 0))\<rparr> = f d + c"
  shows "sum_list (map (\<lambda>x. f (snd x)) (js_entries (addTrade decs prices s m))) = sum_list (map (\<lambda>x. f (snd x)) (js_entries m)) + c"
proof -
  let ?d = "or_else (js_get m (seSender s)) no_trades"
  let ?v = "\<lparr>tdVolume = tdVolume ?d + swapVolume decs prices s, tdTrades = Suc (tdTrades ?d),
      tdWins = tdWins ?d + (if isWin decs prices s then 1 else 0),
      tdPools = js_set (tdPools ?d) (sePair s) (Suc (or_else (js_get (tdPools ?d) (sePair s)) 0))\<rparr>"
  have old: "(case js_get m (seSender s) of Some u \<Rightarrow> f u | None \<Rightarrow> 0) = f ?d" using assms(1) by (cases "js_get m (seSender s)") (simp_all add: or_else_def)
  have "addTrade decs prices s m = js_set m (seSender s) ?v" by (simp add: addTrade_def Let_def)
  then show ?thesis using js_sum_set[of f m "seSender s" ?v] assms(2)[of ?d] unfolding old by (simp add: algebra_simps)
qed

lemma trades_sum:
  "sum_list (map (\<lambda>x. tdVolume (snd x)) (js_entries (fold (addTrade decs prices) swaps m))) =
    sum_list (map (\<lambda>x. tdVolume (snd x)) (js_entries m)) + sum_list (map (swapVolume decs prices) swaps)"
  "sum_list (map (\<lambda>x. int (tdTrades (snd x))) (js_entries (fold (addTrade decs prices) swaps m))) =
    sum_list (map (\<lambda>x. int (tdTrades (snd x))) (js_entries m)) + int (length swaps)"
proof -
  have v: "sum_list (map (\<lambda>x. tdVolume (snd x)) (js_entries (addTrade decs prices s m))) = sum_list (map (\<lambda>x. tdVolume (snd x)) (js_entries m)) + swapVolume decs prices s" for s m
    by (rule addTrade_sum) (simp_all add: no_trades_def)
  have n: "sum_list (map (\<lambda>x. int (tdTrades (snd x))) (js_entries (addTrade decs prices s m))) = sum_list (map (\<lambda>x. int (tdTrades (snd x))) (js_entries m)) + 1" for s m
    by (rule addTrade_sum[where f = "\<lambda>d. int (tdTrades d)"]) (simp_all add: no_trades_def)
  show "sum_list (map (\<lambda>x. tdVolume (snd x)) (js_entries (fold (addTrade decs prices) swaps m))) =
    sum_list (map (\<lambda>x. tdVolume (snd x)) (js_entries m)) + sum_list (map (swapVolume decs prices) swaps)"
    by (induction swaps arbitrary: m) (simp_all add: v)
  show "sum_list (map (\<lambda>x. int (tdTrades (snd x))) (js_entries (fold (addTrade decs prices) swaps m))) =
    sum_list (map (\<lambda>x. int (tdTrades (snd x))) (js_entries m)) + int (length swaps)"
    by (induction swaps arbitrary: m) (simp_all add: n)
qed

definition trades_ok :: "trader_data js_map \<Rightarrow> bool" where
  "trades_ok m \<longleftrightarrow> js_wf m \<and> (\<forall>d \<in> snd ` set (js_entries m). tdWins d \<le> tdTrades d \<and> 0 < tdTrades d)"

lemma addTrade_ok: "trades_ok m \<Longrightarrow> trades_ok (addTrade decs prices s m)"
proof -
  assume ok: "trades_ok m"
  let ?d = "or_else (js_get m (seSender s)) no_trades"
  have "tdWins ?d \<le> tdTrades ?d" using ok js_get_entry[of m "seSender s"]
    by (cases "js_get m (seSender s)") (auto simp: or_else_def no_trades_def trades_ok_def image_iff)
  then show ?thesis using ok js_set_values unfolding addTrade_def Let_def trades_ok_def by (fastforce intro: js_wf_set)
qed

lemma fold_trades_ok: "trades_ok m \<Longrightarrow> trades_ok (fold (addTrade decs prices) swaps m)"
  by (induction swaps arbitrary: m) (auto intro: addTrade_ok)

text \<open>Each swap counts for one trader: the trades add up to the swaps and the volumes to their values; each trader is there
  once, in decreasing order of volume, with a win rate that is a percentage.\<close>

theorem traders_exact:
  assumes "rs = tradersOf decs prices swaps"
  shows "sum_list (map trVolume rs) = sum_list (map (swapVolume decs prices) swaps) \<and> sum_list (map (\<lambda>r. int (trTrades r)) rs) = int (length swaps) \<and>
    distinct (map trAccount rs) \<and> sorted_wrt (\<lambda>x y. trVolume y \<le> trVolume x) rs \<and>
    (\<forall>r \<in> set rs. 0 \<le> trWinRate r \<and> trWinRate r \<le> 100 \<and> trAverage r * of_nat (trTrades r) = trVolume r)"
proof -
  define m where "m = fold (addTrade decs prices) swaps []"
  let ?raw = "map rankingOf (js_entries m)"
  have rs: "rs = sort_by by_volume ?raw" using assms by (simp add: tradersOf_def m_def)
  have ms: "mset rs = mset ?raw" unfolding rs by (rule sort_by_mset)
  have sum: "sum_list (map f rs) = sum_list (map f ?raw)" for f :: "trader_ranking \<Rightarrow> 'b :: comm_monoid_add"
    using arg_cong[OF ms, of "\<lambda>M. sum_mset (image_mset f M)"] by (simp only: mset_map[symmetric] sum_mset_sum_list)
  have ok: "trades_ok m" unfolding m_def by (rule fold_trades_ok) (simp add: trades_ok_def)
  have "sum_list (map trVolume ?raw) = sum_list (map (\<lambda>x. tdVolume (snd x)) (js_entries m))" by (simp add: comp_def rankingOf_def split_beta)
  then have v: "sum_list (map trVolume rs) = sum_list (map (swapVolume decs prices) swaps)" unfolding sum m_def using trades_sum(1)[of decs prices swaps "[]"] by simp
  have "sum_list (map (\<lambda>r. int (trTrades r)) ?raw) = sum_list (map (\<lambda>x. int (tdTrades (snd x))) (js_entries m))" by (simp add: comp_def rankingOf_def split_beta)
  then have n: "sum_list (map (\<lambda>r. int (trTrades r)) rs) = int (length swaps)" unfolding sum m_def using trades_sum(2)[of decs prices swaps "[]"] by simp
  have "mset (map trAccount rs) = mset (map trAccount ?raw)" using arg_cong[OF ms, of "image_mset trAccount"] by (simp only: mset_map[symmetric])
  moreover have "map trAccount ?raw = map fst (js_entries m)" by (simp add: rankingOf_def split_beta)
  ultimately have d: "distinct (map trAccount rs)" using ok mset_eq_imp_distinct_iff unfolding trades_ok_def js_wf_def by metis
  have "sorted_wrt (\<lambda>x y. by_volume x y \<le> 0) rs" unfolding rs by (rule sort_by_sorted) (auto simp: by_volume_def split: if_splits)
  then have s: "sorted_wrt (\<lambda>x y. trVolume y \<le> trVolume x) rs" by (rule sorted_wrt_mono_rel[rotated]) (auto simp: by_volume_def split: if_splits)
  have "0 \<le> trWinRate r \<and> trWinRate r \<le> 100 \<and> trAverage r * of_nat (trTrades r) = trVolume r" if "r \<in> set rs" for r
  proof -
    have "r \<in> rankingOf ` set (js_entries m)" using that mset_eq_setD[OF ms] by simp
    then obtain a t where t: "(a, t) \<in> set (js_entries m)" "r = rankingOf (a, t)" by auto
    then have "tdWins t \<le> tdTrades t" "0 < tdTrades t" using ok by (force simp: trades_ok_def)+
    then show ?thesis by (simp add: t(2) rankingOf_def field_simps)
  qed
  then show ?thesis using v n d s by blast
qed

lemma favorite_fold: "fold (\<lambda>(p, n) (best, top). if top < int n then (p, int n) else (best, top)) xs (b, t0) = (b', t') \<Longrightarrow>
    t0 \<le> t' \<and> (\<forall>(p, n) \<in> set xs. int n \<le> t') \<and> ((b', t') = (b, t0) \<or> (\<exists>n. (b', n) \<in> set xs \<and> t' = int n))"
proof (induction xs arbitrary: b t0)
  case (Cons x xs)
  obtain p n where x: "x = (p, n)" by force
  show ?case using Cons.IH[of "if t0 < int n then p else b" "if t0 < int n then int n else t0"] Cons.prems x by (auto split: if_splits)
qed simp

text \<open>The favourite pool is one with the most trades.\<close>

theorem favorite_pool_most:
  assumes "js_entries pools \<noteq> []"
  shows "\<exists>n. (favoritePool pools, n) \<in> set (js_entries pools) \<and> (\<forall>(p, k) \<in> set (js_entries pools). k \<le> n)"
proof -
  obtain b t where f: "fold (\<lambda>(p, n) (best, top). if top < int n then (p, int n) else (best, top)) (js_entries pools) ([], -1) = (b, t)" by force
  note p = favorite_fold[OF f]
  obtain q k where "(q, k) \<in> set (js_entries pools)" using assms by (metis list.set_intros(1) neq_Nil_conv prod.collapse)
  then have "0 \<le> t" using p by force
  then obtain n where "(b, n) \<in> set (js_entries pools)" "t = int n" using p by auto
  then show ?thesis using p f by (force simp: favoritePool_def)
qed

text \<open>A token sold that has no price is worth nothing, so every swap of it for a token with a price is a win.\<close>

theorem unpriced_input_wins:
  assumes "price_of prices (seTokenIn s) = 0" and "0 < price_of prices (seTokenOut s)" and "0 < seAmountOut s"
  shows "isWin decs prices s"
  using assms by (simp add: isWin_def shown_amount_def)

section \<open>Witnesses\<close>

definition board_event :: "int \<Rightarrow> raw_event" where
  "board_event l = \<lparr>erSuccessful = None, erContract = Some ''P'', erTopic = Some [ScvSymbol ''swap''],
     erValue = Some (ScvMap (Some [(ScvSymbol ''sender'', ScvString ''G''), (ScvSymbol ''amount_in'', ScvI128 5)])),
     erTxHash = None, erLedger = Some l, erClosedMs = None, reId = None, reIndex = None, rePagingToken = None\<rparr>"

definition day_board :: board_options where
  "day_board = \<lparr>boPeriod = Day, boLimit = None, boPair = None\<rparr>"


theorem boundary_counts_twice_witness:
  "let start = max MIN_START_LEDGER (40000 - (periodLedgers Day + LEADERBOARD_LEDGERS_PER_DAY)) in
    in_ledgers (max start (40000 - periodLedgers Day)) 40000 (board_event 22720) \<and> in_ledgers start (max start (40000 - LEADERBOARD_LEDGERS_PER_DAY)) (board_event 22720)"
  by (rule boundary_counts_twice) (simp_all add: board_event_def LEADERBOARD_LEDGERS_PER_DAY_def)

definition some_trade :: swap_entry where
  "some_trade = \<lparr>seTxHash = ''t'', seAmountIn = 5, seAmountOut = 6, seTokenIn = ''A'', seTokenOut = ''B'', seSender = ''G'', sePair = ''P'',
     seLedger = None, seTimestamp = 0, seFeeBps = 30\<rparr>"

theorem traders_exact_witness: "sum_list (map (\<lambda>r. int (trTrades r)) (tradersOf [] [] [some_trade, some_trade])) = 2"
  using traders_exact[OF refl, of "[]" "[]" "[some_trade, some_trade]"] by simp

theorem favorite_pool_most_witness:
  "\<exists>n. (favoritePool [Some (''P'', 2)], n) \<in> set (js_entries [Some (''P'', 2 :: nat)]) \<and> (\<forall>(p, k) \<in> set (js_entries [Some (''P'', 2 :: nat)]). k \<le> n)"
  by (rule favorite_pool_most) simp

theorem unpriced_input_wins_witness: "isWin [] [Some (''B'', 1)] some_trade"
  by (rule unpriced_input_wins) (simp_all add: price_of_def or_else_def some_trade_def)

end
