(* ===== verification/Spec2Isabelle.thy ===== *)
theory Spec2Isabelle
  imports PairMath Fractions RateLimiter ConnPool PriceGuard Router Batch LimitOrders Client Staking Governance WebhookEndpoints Polling Liquidity StopLoss PriceAlerts FlashLoans Metrics RiskScoring TaxReporting Leaderboard
begin

text \<open>
  The CoralSwap SDK: a TypeScript library that quotes, builds and submits operations of an
  automated market maker on Stellar. This library models its own logic: arithmetic, errors, the
  machinery that talks to an unreliable RPC server, and the trading modules built on them. It
  does not model the Stellar SDK, the RPC server, zod, or the contracts on chain; these are
  parameters of the definitions that use them.

  Conventions. A \<open>bigint\<close> is an \<open>int\<close> and its division truncates (\<open>sdiv\<close>). A JavaScript number
  that holds an integer is an \<open>int\<close>; one that may be fractional is a \<open>rat\<close>, and arithmetic on it
  is exact except where a rounding function is a parameter. A function that throws returns a
  sum, the thrown error on the left. An asynchronous function with effects maps a world to the
  outcome and the new world; a world is polymorphic, so whatever else runs while a call is
  pending is covered. Strings are lists of characters.

  Theories and what they model (paths under \<open>src/\<close>).

  \<^item> \<open>Prelude\<close>: the error monad, calls with effects, truncating division, decimal digits, strings,
    and the locale \<open>invariant_machine\<close> of stateful components.
  \<^item> \<open>SdkErrors\<close>: \<open>errors.ts\<close>, \<open>errors/parser.ts\<close>. Every class with its code and message, the
    contract error tables and \<open>mapError\<close>. The lemmas show that \<open>mapError\<close> stays in the published
    taxonomy, where its two tables of contract codes agree, and where the typed one contradicts
    the contract's own enumeration (\<open>pair/src/errors.rs\<close>).
  \<^item> \<open>JsNum\<close>: bigint division with its error, the constants of \<open>config.ts\<close>, and two contracts as
    locales: \<open>integer_root\<close> and \<open>cp_exchange\<close> (a constant-product exchange).
  \<^item> \<open>PairMath\<close>: \<open>utils/pair-math.ts\<close>, which interprets both locales; minting and burning.
  \<^item> \<open>Amounts\<close>: \<open>utils/amounts.ts\<close>; printing and parsing are inverse, slippage bounds.
  \<^item> \<open>Fractions\<close>: \<open>utils/math.ts\<close>; exactness of the arithmetic, rounding of \<open>toFixed\<close>.
  \<^item> \<open>Retry\<close>: \<open>utils/retry.ts\<close>, \<open>utils/idempotent-resubmit.ts\<close>. Circuit breakers live in a store
    and the registry maps labels to references, so a call keeps its breaker across a reset. The
    retry loop is total by the measure \<open>maxRetries + 1 - attempt\<close>. The lemmas bound the calls,
    respect the deadline, and show at most one landing under a truthful landed-check.
  \<^item> \<open>RateLimiter\<close>: \<open>utils/rate-limiter.ts\<close>. The machine interleaves the public operations with
    timer callbacks; lemmas on order, rate, progress, and the settings in which rate and progress
    fail.
  \<^item> \<open>ConnPool\<close>: \<open>utils/connection-pool.ts\<close>; selection, shape invariant, fairness.
  \<^item> \<open>Submission\<close>: \<open>utils/polling.ts\<close>, \<open>utils/idempotent-resubmission.ts\<close>,
    \<open>utils/submit-idempotent.ts\<close>, \<open>utils/transactionStatus.ts\<close>. The poller is total by the attempts
    left; its results are characterised over every script of server answers.
  \<^item> \<open>Swap\<close>: \<open>modules/swap.ts\<close>, \<open>schemas/swap.ts\<close>. Quotes read the chain through the record \<open>client\<close>;
    one quote sees one ledger state. The module's own copies of the formulas interpret
    \<open>cp_exchange\<close>; the lemmas on quotes and hop chains rest on that interpretation.
  \<^item> \<open>PriceGuard\<close>: \<open>utils/redstone.ts\<close> and the guarded swap.
  \<^item> \<open>Router\<close>: \<open>modules/router.ts\<close>. The breadth-first search terminates by the multiset of the
    hops left to the queued paths, and is exact for the walks it is meant to find; the router's
    choice is optimal among the quotes it makes; the cache.

  \<^item> \<open>Batch\<close>: \<open>utils/batch-request.ts\<close> as a step relation on workers; isolation of failures, order
    of results, progress, the concurrency cap, and refinement of the sequential runner.

  \<^item> \<open>ScVal\<close>: \<open>utils/scval.ts\<close>, \<open>utils/numeric.ts\<close> and the decoders of \<open>modules/limit-orders.ts\<close>; the
    parts of a 128-bit number.
  \<^item> \<open>Validation\<close>: \<open>utils/validation.ts\<close>, \<open>utils/addresses.ts\<close>, \<open>utils/gas.ts\<close>.
  \<^item> \<open>LimitOrders\<close>: \<open>modules/limit-orders.ts\<close>. Orders parsed, placed, cancelled and watched; a placed
    order lands once, and no callback runs after unwatching.
  \<^item> \<open>Client\<close>: \<open>client.ts\<close>, \<open>utils/rpc-url.ts\<close>, \<open>utils/signer.ts\<close>. Endpoint fallback, submission under the
    per-account lock, and the switch of networks; calls only reach configured servers.
  \<^item> \<open>Staking\<close>: \<open>modules/staking.ts\<close> and the composed unstake-and-withdraw transaction.
  \<^item> \<open>Governance\<close>: \<open>modules/governance.ts\<close>, \<open>utils/voting-power.ts\<close>; votes land once, histories respect
    their filter.
  \<^item> \<open>Webhooks\<close>, \<open>WebhookEndpoints\<close>: the two webhook systems of \<open>modules/webhooks.ts\<close>. Records and
    failure states are objects in a store, so a delivery that waits keeps the object it read; the
    invariant holds for every interleaving with pending requests, and the nested retries of a
    delivery end (their fuel counts the retries left).
  \<^item> \<open>Events\<close>: \<open>utils/events.ts\<close>; every event of the contracts is read back as it was written.
  \<^item> \<open>EventCursor\<close>: \<open>utils/event-cursor.ts\<close>. Against a server over a fixed log a scan is complete and
    repeats nothing; fuel above the length of the log is enough, because every page but the last adds
    an event. Without cursors this needs every ledger to fit in a page.
  \<^item> \<open>Liquidity\<close>: \<open>modules/liquidity.ts\<close>, \<open>schemas/helpers.ts\<close>. Its square root interprets
    \<open>integer_root\<close>; quotes are compared with the minting of \<open>PairMath\<close>, and a call submits once.
  \<^item> \<open>Dca\<close>, \<open>StopLoss\<close>: \<open>modules/dca.ts\<close>, \<open>modules/stop-loss.ts\<close>; what is submitted, on which reading of
    the contract and the oracle it rests, and the queries over orders.
  \<^item> \<open>Oracle\<close>: \<open>modules/oracle.ts\<close>; the cache of observations in closed form, and when it supports an
    average.
  \<^item> \<open>Polling\<close>: \<open>pollEvents\<close>, which joins the webhooks to the event cursor.

  \<^item> \<open>JsMap\<close>: the \<open>Map\<close> of JavaScript, an array of cells with holes, so that an iteration that
    meets insertions and deletions goes on as the language says.
  \<^item> \<open>Alerts\<close>, \<open>AlertRules\<close>, \<open>PriceAlerts\<close>: the three alert systems of \<open>modules/alerts.ts\<close>. Rules and
    subscriptions live in a store and are evaluated in map order; the lemmas say when an alert
    fires, how often, and which conditions cannot fire.
  \<^item> \<open>Fees\<close>: \<open>modules/fees.ts\<close>; revenue is the sum of the fees in the log.
  \<^item> \<open>FlashLoans\<close>: \<open>modules/flash-loan.ts\<close> and the conservation check of \<open>contracts\<close>; a loan is
    submitted once.
  \<^item> \<open>SwapHistory\<close>: the history of \<open>modules/swap.ts\<close> with its decoding of events.
  \<^item> \<open>Treasury\<close>: \<open>modules/treasury.ts\<close>; allocations, revenue, spot prices and the cache of decimals.
  \<^item> \<open>Monitoring\<close>, \<open>Metrics\<close>: \<open>modules/monitoring.ts\<close>; cached metrics of the protocol, and managed
    metrics with their histories.
  \<^item> \<open>Positions\<close>: \<open>modules/positions.ts\<close>, \<open>schemas/positions.ts\<close>; every position returned passed its
    schema, and pages cover the list.
  \<^item> \<open>Portfolio\<close>: \<open>modules/portfolio.ts\<close>; the error of a value, the total, profit and loss, and the
    simulations of a valuation.
  \<^item> \<open>RiskScoring\<close>: \<open>modules/risk-scoring.ts\<close>, \<open>modules/risk-metrics.ts\<close>; bounds of the scores.
  \<^item> \<open>TaxReporting\<close>: \<open>modules/tax-reporting.ts\<close>. The CSV reads back; the loops over lots refine
    consumption from the front and from the back; cost is conserved.
  \<^item> \<open>DecimalsResolver\<close>: \<open>utils/decimals-resolver.ts\<close>. Linked nodes in a store refine a list in order
    of use.
  \<^item> \<open>Leaderboard\<close>: \<open>modules/leaderboard.ts\<close>; boards and rankings are the sums over their events.

  Bounds. The submission loop of a swap has the module's two retries; the search has the
  module's three hops; the poller's three consecutive errors are in its definition. The loops
  over a map that may change (\<open>evaluateFrom\<close>, \<open>checkThresholdsFrom\<close>, \<open>collectFrom\<close>) count the positions
  left, \<open>waitLoop\<close> counts the polls left, and a scan of events has the number of pages as its
  fuel, for which more than the length of the log is enough.

  Not modelled: the contract wrappers under \<open>contracts\<close>, which only encode calls and decode
  answers and appear as parameters; the modules and utilities the manifest lists with the reason;
  logging, the free-form details of errors and the building of XDR.
\<close>

end
